(* ===== verification/Xw_Base.thy ===== *)
theory Xw_Base
  imports Main "HOL-Library.Word" "HOL-Library.Monad_Syntax" "HOL-Library.Multiset"
    "HOL-Library.Code_Target_Nat"
begin

unbundle bit_operations_syntax

text \<open>
  The prelude: the integer types of \<open>xptypes.h\<close>, the constants of \<open>comtypes.h\<close> and \<open>model.h\<close>
  for the build configuration of \<open>linux/Makefile\<close> (\<open>MAX_ROWS=32\<close>, seven-tile trays), the way
  a run that fires an \<open>XP_ASSERT\<close> or leaves an array is modelled (\<open>None\<close>), access to arrays
  held as lists, and the generic lemmas the components share.
\<close>

section \<open>Integers\<close>

type_synonym u8 = "8 word"
type_synonym u16 = "16 word"
type_synonym u32 = "32 word"

type_synonym tile = u8

text \<open>\<open>XP_U16\<close> and \<open>XP_U32\<close> values that are used as counts and positions are kept as
  \<open>nat\<close>; where C truncates such a value the truncation is written out.\<close>

definition trunc16 :: "nat \<Rightarrow> nat" where
  "trunc16 n = n mod 65536"

definition trunc32 :: "nat \<Rightarrow> nat" where
  "trunc32 n = n mod 4294967296"

text \<open>Unsigned subtraction of two counts, truncated to \<open>XP_U16\<close>.\<close>

definition sub16 :: "nat \<Rightarrow> nat \<Rightarrow> nat" where
  "sub16 a b = nat ((int a - int b) mod 65536)"

lemma trunc16_id [simp]: "n < 65536 \<Longrightarrow> trunc16 n = n"
  by (simp add: trunc16_def)

lemma trunc32_id [simp]: "n < 4294967296 \<Longrightarrow> trunc32 n = n"
  by (simp add: trunc32_def)

lemma sub16_id [simp]: "b \<le> a \<Longrightarrow> a - b < 65536 \<Longrightarrow> sub16 a b = a - b"
  by (simp add: sub16_def)

section \<open>Constants\<close>

definition MAX_ROWS :: nat where "MAX_ROWS = 32"
definition MAX_COLS :: nat where "MAX_COLS = 32"
definition MAX_TRAY_TILES :: nat where "MAX_TRAY_TILES = 7"
definition MAX_NUM_PLAYERS :: nat where "MAX_NUM_PLAYERS = 4"
definition MAX_UNIQUE_TILES :: nat where "MAX_UNIQUE_TILES = 64"
definition NPLAYERS_NBITS :: nat where "NPLAYERS_NBITS = 3"
definition NTILES_NBITS :: nat where "NTILES_NBITS = 3"
definition NUMCOLS_NBITS_4 :: nat where "NUMCOLS_NBITS_4 = 4"
definition NUMCOLS_NBITS_5 :: nat where "NUMCOLS_NBITS_5 = 5"
definition EMPTIED_TRAY_BONUS :: nat where "EMPTIED_TRAY_BONUS = 50"
definition START_OF_STREAM :: nat where "START_OF_STREAM = 0"

lemmas xw_consts = MAX_ROWS_def MAX_COLS_def MAX_TRAY_TILES_def MAX_NUM_PLAYERS_def
  MAX_UNIQUE_TILES_def NPLAYERS_NBITS_def NTILES_NBITS_def NUMCOLS_NBITS_4_def
  NUMCOLS_NBITS_5_def EMPTIED_TRAY_BONUS_def START_OF_STREAM_def

section \<open>Assertions and array accesses\<close>

text \<open>A computation returns \<open>None\<close> when an \<open>XP_ASSERT\<close> of the code fires or when it would
  read or write outside an array: the two ways in which a run of the C program has no
  meaning. Results the code reports to its caller (an \<open>XP_Bool\<close>, a null pointer, an index
  of -1) are values, never \<open>None\<close>.\<close>

definition xp_assert :: "bool \<Rightarrow> unit option" where
  "xp_assert b = (if b then Some () else None)"

definition mem_get :: "nat \<Rightarrow> 'a list \<Rightarrow> 'a option" where
  "mem_get i xs = (if i < length xs then Some (xs ! i) else None)"

definition mem_put :: "nat \<Rightarrow> 'a \<Rightarrow> 'a list \<Rightarrow> 'a list option" where
  "mem_put i x xs = (if i < length xs then Some (xs[i := x]) else None)"

definition mem_read :: "nat \<Rightarrow> nat \<Rightarrow> 'a list \<Rightarrow> 'a list option" where
  "mem_read i n xs = (if i + n \<le> length xs then Some (take n (drop i xs)) else None)"

definition mem_write :: "nat \<Rightarrow> 'a list \<Rightarrow> 'a list \<Rightarrow> 'a list option" where
  "mem_write i ys xs =
     (if i + length ys \<le> length xs then Some (take i xs @ ys @ drop (i + length ys) xs) else None)"

lemma xp_assert_True [simp]: "b \<Longrightarrow> xp_assert b = Some ()"
  by (simp add: xp_assert_def)

lemma xp_assert_Some [simp]: "xp_assert b = Some u \<longleftrightarrow> b"
  by (simp add: xp_assert_def)

lemma mem_get_Some [simp]: "mem_get i xs = Some x \<longleftrightarrow> i < length xs \<and> xs ! i = x"
  by (simp add: mem_get_def)

lemma mem_get_ok [simp]: "i < length xs \<Longrightarrow> mem_get i xs = Some (xs ! i)"
  by (simp add: mem_get_def)

lemma mem_put_Some [simp]: "mem_put i x xs = Some ys \<longleftrightarrow> i < length xs \<and> ys = xs[i := x]"
  by (auto simp: mem_put_def)

lemma mem_put_ok [simp]: "i < length xs \<Longrightarrow> mem_put i x xs = Some (xs[i := x])"
  by (simp add: mem_put_def)

lemma mem_read_Some [simp]:
  "mem_read i n xs = Some ys \<longleftrightarrow> i + n \<le> length xs \<and> ys = take n (drop i xs)"
  by (auto simp: mem_read_def)

lemma mem_read_ok [simp]: "i + n \<le> length xs \<Longrightarrow> mem_read i n xs = Some (take n (drop i xs))"
  by (simp add: mem_read_def)

lemma mem_write_ok:
  "i + length ys \<le> length xs \<Longrightarrow>
     mem_write i ys xs = Some (take i xs @ ys @ drop (i + length ys) xs)"
  by (simp add: mem_write_def)

lemma mem_write_length: "mem_write i ys xs = Some zs \<Longrightarrow> length zs = length xs"
  by (auto simp: mem_write_def split: if_splits)

lemma mem_write_nth:
  "mem_write i ys xs = Some zs \<Longrightarrow> j < length xs \<Longrightarrow>
     zs ! j = (if i \<le> j \<and> j < i + length ys then ys ! (j - i) else xs ! j)"
proof -
  assume w: "mem_write i ys xs = Some zs" and j: "j < length xs"
  then have b: "i + length ys \<le> length xs" and zs: "zs = take i xs @ ys @ drop (i + length ys) xs"
    by (simp_all add: mem_write_def split: if_splits)
  consider "j < i" | "i \<le> j" "j < i + length ys" | "i + length ys \<le> j" by linarith
  then show ?thesis by cases (use b j in \<open>auto simp: zs nth_append\<close>)
qed

section \<open>Options\<close>

lemma bind_Some_iff [simp]:
  "Option.bind x f = Some y \<longleftrightarrow> (\<exists>a. x = Some a \<and> f a = Some y)"
  by (cases x) auto

lemma bind_unit_Some: "Option.bind (xp_assert b) f = Some y \<longleftrightarrow> b \<and> f () = Some y"
  by (simp add: xp_assert_def)

text \<open>A left-to-right loop over a list whose body may fail.\<close>

fun ofold :: "('s \<Rightarrow> 'a \<Rightarrow> 's option) \<Rightarrow> 's \<Rightarrow> 'a list \<Rightarrow> 's option" where
  "ofold f s [] = Some s"
| "ofold f s (x # xs) = (case f s x of None \<Rightarrow> None | Some s' \<Rightarrow> ofold f s' xs)"

lemma ofold_append:
  "ofold f s (xs @ ys) = (case ofold f s xs of None \<Rightarrow> None | Some s' \<Rightarrow> ofold f s' ys)"
  by (induction xs arbitrary: s) (auto split: option.splits)

lemma ofold_invariant:
  assumes "P s" and "\<And>s x s'. P s \<Longrightarrow> x \<in> set xs \<Longrightarrow> f s x = Some s' \<Longrightarrow> P s'"
    and "ofold f s xs = Some t"
  shows "P t"
  using assms
proof (induction xs arbitrary: s)
  case Nil
  then show ?case by simp
next
  case (Cons x xs)
  from Cons.prems(3) obtain s' where s': "f s x = Some s'" "ofold f s' xs = Some t"
    by (auto split: option.splits)
  with Cons.prems(1,2) have "P s'" by (meson list.set_intros(1))
  then show ?case using Cons.IH Cons.prems(2) s'(2) by (meson list.set_intros(2))
qed

text \<open>If every step succeeds from a state satisfying the invariant, so does the loop.\<close>

lemma ofold_total:
  assumes "P s" and "\<And>s x. P s \<Longrightarrow> x \<in> set xs \<Longrightarrow> \<exists>s'. f s x = Some s' \<and> P s'"
  shows "\<exists>t. ofold f s xs = Some t \<and> P t"
  using assms
proof (induction xs arbitrary: s)
  case Nil
  then show ?case by simp
next
  case (Cons x xs)
  from Cons.prems obtain s' where "f s x = Some s'" "P s'" by fastforce
  with Cons.IH[of s'] Cons.prems(2) show ?case by simp
qed

section \<open>Lists\<close>

lemma nth_take_drop: "j < n \<Longrightarrow> i + n \<le> length xs \<Longrightarrow> take n (drop i xs) ! j = xs ! (i + j)"
  by simp

lemma mset_list_update_swap:
  "i < length xs \<Longrightarrow> j < length xs \<Longrightarrow> mset (xs[i := xs ! j, j := xs ! i]) = mset xs"
  using mset_swap[of j xs i] by simp

text \<open>Deleting one position.\<close>

definition del_at :: "nat \<Rightarrow> 'a list \<Rightarrow> 'a list" where
  "del_at i xs = take i xs @ drop (Suc i) xs"

lemma length_del_at [simp]: "i < length xs \<Longrightarrow> length (del_at i xs) = length xs - 1"
  by (simp add: del_at_def)

lemma mset_del_at: "i < length xs \<Longrightarrow> add_mset (xs ! i) (mset (del_at i xs)) = mset xs"
proof -
  assume "i < length xs"
  then have "xs = take i xs @ xs ! i # drop (Suc i) xs" by (simp add: id_take_nth_drop)
  then have "mset xs = mset (take i xs @ xs ! i # drop (Suc i) xs)" by simp
  then show ?thesis by (simp add: del_at_def)
qed

lemma mset_del_at': "i < length xs \<Longrightarrow> mset (del_at i xs) = mset xs - {#xs ! i#}"
  using mset_del_at[of i xs] by (metis add_mset_remove_trivial)

lemma set_del_at: "set (del_at i xs) \<subseteq> set xs"
  by (auto simp: del_at_def dest: in_set_takeD in_set_dropD)

definition ins_at :: "nat \<Rightarrow> 'a \<Rightarrow> 'a list \<Rightarrow> 'a list" where
  "ins_at i x xs = take i xs @ x # drop i xs"

lemma length_ins_at [simp]: "length (ins_at i x xs) = Suc (length xs)"
  by (simp add: ins_at_def)

lemma mset_ins_at [simp]: "mset (ins_at i x xs) = add_mset x (mset xs)"
proof -
  have "mset (ins_at i x xs) = add_mset x (mset (take i xs @ drop i xs))"
    unfolding ins_at_def mset_append mset.simps by simp
  then show ?thesis by simp
qed

section \<open>Words\<close>

lemma u8_eq_iff: "(w::8 word) = v \<longleftrightarrow> (\<forall>k<8. bit w k = bit v k)"
  by (auto intro!: bit_word_eqI)

lemma u32_eq_iff: "(w::32 word) = v \<longleftrightarrow> (\<forall>k<32. bit w k = bit v k)"
  by (auto intro!: bit_word_eqI)

end
