(* ===== verification/Xw_Hash.thy ===== *)
theory Xw_Hash
  imports Xw_Base
begin

text \<open>
  The Jenkins one-at-a-time hash of \<open>common/strutils.c\<close> (\<open>augmentHash\<close>, \<open>finishHash\<close>), by
  which streams and, through them, the move stacks of two devices are compared. Arithmetic
  is on 32-bit words and wraps as in C.
\<close>

definition hash_step :: "u32 \<Rightarrow> u8 \<Rightarrow> u32" where
  "hash_step hash b =
     (let h1 = hash + ucast b;
          h2 = h1 + push_bit 10 h1
      in h2 XOR drop_bit 6 h2)"

definition augmentHash :: "u32 \<Rightarrow> u8 list \<Rightarrow> u32" where
  "augmentHash hash bytes = foldl hash_step hash bytes"

definition finishHash :: "u32 \<Rightarrow> u32" where
  "finishHash hash =
     (let h1 = hash + push_bit 3 hash;
          h2 = h1 XOR drop_bit 11 h1
      in h2 + push_bit 15 h2)"

text \<open>Feeding a buffer piecewise gives the hash of the whole.\<close>

lemma augmentHash_append [simp]:
  "augmentHash h (xs @ ys) = augmentHash (augmentHash h xs) ys"
  by (simp add: augmentHash_def)

lemma augmentHash_Nil [simp]: "augmentHash h [] = h"
  by (simp add: augmentHash_def)

end
