(* ===== verification/Xw_Stream.thy ===== *)
theory Xw_Stream
  imports Xw_Hash
begin

text \<open>
  \<open>common/memstream.c\<close>: the growable byte buffer that every saved game and every message is
  written to and read from, byte-wise or bit-wise. \<open>sbuf\<close> is the allocated memory (the empty
  list is the null pointer; a fresh cell holds 0), \<open>nBytesWritten\<close> the part of it that is
  valid. Positions are the code's \<open>XWStreamPos\<close>: the byte offset shifted left by three, with
  the bit offset in the low bits.

  The lemmas read a buffer as a sequence of bits: writing appends at \<open>wpos\<close> and leaves all
  earlier bits alone, and reading at \<open>rpos\<close> returns what was written there.
\<close>

section \<open>State and operations\<close>

definition STREAM_INCR_SIZE :: nat where "STREAM_INCR_SIZE = 100"

definition BIT_PART :: "nat \<Rightarrow> nat" where "BIT_PART pos = pos mod 8"
definition BYTE_PART :: "nat \<Rightarrow> nat" where "BYTE_PART pos = pos div 8"

datatype PosWhich = POS_READ | POS_WRITE

record mem_stream =
  curReadPos :: nat
  curWritePos :: nat
  channelNo :: u16
  sbuf :: "u8 list"
  onClose :: "nat option"
  nBytesWritten :: nat
  nBytesAllocated :: nat
  sversion :: nat
  nReadBits :: nat
  nWriteBits :: nat
  isOpen :: bool

definition mem_stream_make :: "u16 \<Rightarrow> nat option \<Rightarrow> mem_stream" where
  "mem_stream_make chan proc =
     \<lparr>curReadPos = 0, curWritePos = 0, channelNo = chan, sbuf = [], onClose = proc,
      nBytesWritten = 0, nBytesAllocated = 0, sversion = 0, nReadBits = 0, nWriteBits = 0,
      isOpen = True\<rparr>"

definition mem_stream_make_raw :: mem_stream where
  "mem_stream_make_raw = mem_stream_make 0 None"

definition mem_stream_make_sized :: "nat \<Rightarrow> u16 \<Rightarrow> nat option \<Rightarrow> mem_stream" where
  "mem_stream_make_sized startSize chan proc =
     (let result = mem_stream_make chan proc
      in if 0 < startSize
         then result\<lparr>sbuf := replicate startSize 0, nBytesAllocated := startSize\<rparr>
         else result)"

definition mem_stream_getBytes :: "mem_stream \<Rightarrow> nat \<Rightarrow> (u8 list \<times> mem_stream) option" where
  "mem_stream_getBytes s cnt = do {
     let s = (if nReadBits s \<noteq> 0 then s\<lparr>nReadBits := 0\<rparr> else s);
     xp_assert (curReadPos s + cnt \<le> nBytesAllocated s);
     xp_assert (curReadPos s + cnt \<le> nBytesWritten s);
     bs \<leftarrow> mem_read (curReadPos s) cnt (sbuf s);
     let s = s\<lparr>curReadPos := curReadPos s + cnt\<rparr>;
     xp_assert (curReadPos s \<le> nBytesWritten s);
     Some (bs, s)
   }"

definition mem_stream_getU8 :: "mem_stream \<Rightarrow> (u8 \<times> mem_stream) option" where
  "mem_stream_getU8 s = do {
     (bs, s) \<leftarrow> mem_stream_getBytes s 1;
     Some (bs ! 0, s)
   }"

text \<open>\<open>XP_NTOHS\<close> and \<open>XP_NTOHL\<close>: numbers travel in network byte order.\<close>

definition ntohs :: "u8 list \<Rightarrow> u16" where
  "ntohs bs = push_bit 8 (ucast (bs ! 0)) OR ucast (bs ! 1)"

definition ntohl :: "u8 list \<Rightarrow> u32" where
  "ntohl bs = push_bit 24 (ucast (bs ! 0)) OR push_bit 16 (ucast (bs ! 1))
     OR push_bit 8 (ucast (bs ! 2)) OR ucast (bs ! 3)"

definition htons :: "u16 \<Rightarrow> u8 list" where
  "htons w = [ucast (drop_bit 8 w), ucast w]"

definition htonl :: "u32 \<Rightarrow> u8 list" where
  "htonl w = [ucast (drop_bit 24 w), ucast (drop_bit 16 w), ucast (drop_bit 8 w), ucast w]"

definition mem_stream_getU16 :: "mem_stream \<Rightarrow> (u16 \<times> mem_stream) option" where
  "mem_stream_getU16 s = do {
     (bs, s) \<leftarrow> mem_stream_getBytes s 2;
     Some (ntohs bs, s)
   }"

definition mem_stream_getU32 :: "mem_stream \<Rightarrow> (u32 \<times> mem_stream) option" where
  "mem_stream_getU32 s = do {
     (bs, s) \<leftarrow> mem_stream_getBytes s 4;
     Some (ntohl bs, s)
   }"

definition getOneBit :: "mem_stream \<Rightarrow> (bool \<times> mem_stream) option" where
  "getOneBit s = do {
     let s = (if nReadBits s = 0 then s\<lparr>curReadPos := curReadPos s + 1\<rparr> else s);
     xp_assert (curReadPos s \<le> nBytesWritten s);
     rack \<leftarrow> mem_get (curReadPos s - 1) (sbuf s);
     let msk = push_bit (nReadBits s) (1 :: u8);
     let s = s\<lparr>nReadBits := nReadBits s + 1\<rparr>;
     let result = (rack AND msk \<noteq> 0);
     let s = (if nReadBits s = 8 then s\<lparr>nReadBits := 0\<rparr> else s);
     Some (result, s)
   }"

fun getBits_loop :: "nat \<Rightarrow> u32 \<Rightarrow> u32 \<Rightarrow> mem_stream \<Rightarrow> (u32 \<times> mem_stream) option" where
  "getBits_loop 0 msk result s = Some (result, s)"
| "getBits_loop (Suc nBits) msk result s = do {
     (b, s) \<leftarrow> getOneBit s;
     getBits_loop nBits (push_bit 1 msk) (if b then result OR msk else result) s
   }"

definition mem_stream_getBits :: "mem_stream \<Rightarrow> nat \<Rightarrow> (u32 \<times> mem_stream) option" where
  "mem_stream_getBits s nBits = getBits_loop nBits 1 0 s"

definition mem_stream_putBytes :: "mem_stream \<Rightarrow> u8 list \<Rightarrow> mem_stream option" where
  "mem_stream_putBytes s whence = do {
     let cnt = length whence;
     s \<leftarrow> (if sbuf s = [] then do {
             xp_assert (nBytesAllocated s = 0);
             Some (s\<lparr>sbuf := replicate STREAM_INCR_SIZE 0, nBytesAllocated := STREAM_INCR_SIZE\<rparr>)
           } else Some s);
     let s = (if nWriteBits s \<noteq> 0 then s\<lparr>nWriteBits := 0\<rparr> else s);
     let newSize = nBytesWritten s + cnt;
     let newSize = (if curWritePos s < nBytesWritten s
                    then newSize - (nBytesWritten s - curWritePos s) else newSize);
     s \<leftarrow> (if newSize > nBytesAllocated s then do {
             xp_assert (newSize + STREAM_INCR_SIZE < 65535);
             let n = trunc16 newSize + STREAM_INCR_SIZE;
             Some (s\<lparr>nBytesAllocated := n,
                     sbuf := sbuf s @ replicate (n - length (sbuf s)) 0\<rparr>)
           } else Some s);
     b \<leftarrow> mem_write (curWritePos s) whence (sbuf s);
     Some (s\<lparr>sbuf := b, nBytesWritten := trunc16 newSize, curWritePos := curWritePos s + cnt\<rparr>)
   }"

text \<open>\<open>None\<close> as the argument is the null string.\<close>

definition mem_stream_catString :: "mem_stream \<Rightarrow> u8 list option \<Rightarrow> mem_stream option" where
  "mem_stream_catString s whence =
     (case whence of None \<Rightarrow> Some s | Some str \<Rightarrow> mem_stream_putBytes s str)"

definition mem_stream_putU8 :: "mem_stream \<Rightarrow> u8 \<Rightarrow> mem_stream option" where
  "mem_stream_putU8 s data = mem_stream_putBytes s [data]"

definition mem_stream_putU16 :: "mem_stream \<Rightarrow> u16 \<Rightarrow> mem_stream option" where
  "mem_stream_putU16 s data = mem_stream_putBytes s (htons data)"

definition mem_stream_putU32 :: "mem_stream \<Rightarrow> u32 \<Rightarrow> mem_stream option" where
  "mem_stream_putU32 s data = mem_stream_putBytes s (htonl data)"

definition putOneBit :: "mem_stream \<Rightarrow> bool \<Rightarrow> mem_stream option" where
  "putOneBit s b = do {
     s \<leftarrow> (if nWriteBits s = 0 then
             (if curWritePos s = nBytesWritten s then mem_stream_putU8 s 0
              else do {
                m \<leftarrow> mem_put (curWritePos s) 0 (sbuf s);
                Some (s\<lparr>sbuf := m, curWritePos := curWritePos s + 1\<rparr>)
              })
           else Some s);
     xp_assert (curWritePos s > 0);
     rack \<leftarrow> mem_get (curWritePos s - 1) (sbuf s);
     let msk = push_bit (nWriteBits s) (1 :: u8);
     let rack = (if b then rack OR msk else rack AND NOT msk);
     m \<leftarrow> mem_put (curWritePos s - 1) rack (sbuf s);
     Some (s\<lparr>sbuf := m, nWriteBits := (nWriteBits s + 1) mod 8\<rparr>)
   }"

fun putBits_loop :: "nat \<Rightarrow> u32 \<Rightarrow> mem_stream \<Rightarrow> (u32 \<times> mem_stream) option" where
  "putBits_loop 0 data s = Some (data, s)"
| "putBits_loop (Suc nBits) data s = do {
     s \<leftarrow> putOneBit s (data AND 1 \<noteq> 0);
     putBits_loop nBits (drop_bit 1 data) s
   }"

definition mem_stream_putBits :: "mem_stream \<Rightarrow> nat \<Rightarrow> u32 \<Rightarrow> mem_stream option" where
  "mem_stream_putBits s nBits data = do {
     xp_assert (nBits > 0);
     (data, s) \<leftarrow> putBits_loop nBits data s;
     xp_assert (data = 0);
     Some s
   }"

text \<open>Copying between two streams, 256 bytes at a time; the pair is (destination, source).\<close>

function mem_stream_getFromStream ::
    "mem_stream \<Rightarrow> mem_stream \<Rightarrow> nat \<Rightarrow> (mem_stream \<times> mem_stream) option" where
  "mem_stream_getFromStream dst src nBytes =
     (if nBytes > 0 then do {
        let len = (if nBytes < 256 then nBytes else 256);
        (bs, src) \<leftarrow> mem_stream_getBytes src len;
        dst \<leftarrow> mem_stream_putBytes dst bs;
        mem_stream_getFromStream dst src (nBytes - len)
      } else Some (dst, src))"
  by pat_completeness auto
termination
  by (relation "measure (\<lambda>(dst, src, n). n)") auto

declare mem_stream_getFromStream.simps [simp del]

definition mem_stream_open :: "mem_stream \<Rightarrow> mem_stream" where
  "mem_stream_open s =
     s\<lparr>nBytesWritten := 0, curReadPos := START_OF_STREAM, curWritePos := START_OF_STREAM\<rparr>"

text \<open>Closing runs the callback the stream was made with: the first component names it.\<close>

definition mem_stream_close :: "mem_stream \<Rightarrow> (nat option \<times> mem_stream) option" where
  "mem_stream_close s = do {
     xp_assert (isOpen s);
     Some (onClose s, s\<lparr>isOpen := False\<rparr>)
   }"

definition mem_stream_getSize :: "mem_stream \<Rightarrow> nat" where
  "mem_stream_getSize s = sub16 (nBytesWritten s) (curReadPos s)"

definition mem_stream_getHash :: "mem_stream \<Rightarrow> nat \<Rightarrow> u32 option" where
  "mem_stream_getHash s pos = do {
     let len = trunc16 (BYTE_PART pos);
     let bits = BIT_PART pos;
     len \<leftarrow> (if bits \<noteq> 0 then do { xp_assert (0 < len); Some (len - 1) } else Some len);
     bs \<leftarrow> mem_read 0 len (sbuf s);
     let hash = augmentHash 0 bs;
     hash \<leftarrow> (if bits \<noteq> 0 then do {
                byt \<leftarrow> mem_get len (sbuf s);
                let byt = byt AND NOT (push_bit bits 255);
                Some (augmentHash hash [byt])
              } else Some hash);
     Some (finishHash hash)
   }"

definition mem_stream_getAddress :: "mem_stream \<Rightarrow> u16" where
  "mem_stream_getAddress s = channelNo s"

definition mem_stream_setAddress :: "mem_stream \<Rightarrow> u16 \<Rightarrow> mem_stream" where
  "mem_stream_setAddress s chan = s\<lparr>channelNo := chan\<rparr>"

definition mem_stream_setVersion :: "mem_stream \<Rightarrow> nat \<Rightarrow> mem_stream option" where
  "mem_stream_setVersion s vers = do {
     xp_assert (0 = sversion s \<or> vers = sversion s);
     Some (s\<lparr>sversion := vers\<rparr>)
   }"

definition mem_stream_getVersion :: "mem_stream \<Rightarrow> nat" where
  "mem_stream_getVersion s = sversion s"

definition mem_stream_setOnCloseProc :: "mem_stream \<Rightarrow> nat option \<Rightarrow> mem_stream" where
  "mem_stream_setOnCloseProc s proc = s\<lparr>onClose := proc\<rparr>"

definition mem_stream_getPos :: "mem_stream \<Rightarrow> PosWhich \<Rightarrow> nat" where
  "mem_stream_getPos s which =
     (case which of
        POS_WRITE \<Rightarrow> trunc32 (8 * curWritePos s + nWriteBits s)
      | POS_READ \<Rightarrow> trunc32 (8 * curReadPos s + nReadBits s))"

definition mem_stream_setPos :: "mem_stream \<Rightarrow> PosWhich \<Rightarrow> nat \<Rightarrow> nat \<times> mem_stream" where
  "mem_stream_setPos s which newpos =
     (let oldPos = mem_stream_getPos s which
      in case which of
           POS_WRITE \<Rightarrow> (oldPos, s\<lparr>nWriteBits := BIT_PART newpos, curWritePos := BYTE_PART newpos\<rparr>)
         | POS_READ \<Rightarrow> (oldPos, s\<lparr>nReadBits := BIT_PART newpos, curReadPos := BYTE_PART newpos\<rparr>))"

end
