(* ===== verification/Xw_Codec.thy ===== *)
theory Xw_Codec
  imports Xw_Stream
begin

text \<open>
  The stream as a sequence of bits, and the interface every serialiser of the program
  satisfies: the locale \<open>stream_codec\<close>. A writer that satisfies it appends at the write
  position, changes no earlier bit, fails only when the 64K buffer is full, and its reader
  returns what was written when it starts at the same position of any stream that holds the
  same bits. The primitive writers of \<open>memstream.c\<close> are interpreted here; combinators build
  the codecs of records and lists out of them.
\<close>

section \<open>Bits and positions\<close>

lemma ceil8: "(p + 7) div 8 = (if p mod 8 = 0 then p div 8 else Suc (p div 8))"
proof -
  have eq: "(p + 7) div 8 = p div 8 + (p mod 8 + 7) div 8"
    by (subst div_add1_eq) simp
  show ?thesis
  proof (cases "p mod 8 = 0")
    case False
    then have "(p mod 8 + 7) div 8 = 1" by (intro div_nat_eqI) simp_all
    with False eq show ?thesis by simp
  qed (use eq in simp)
qed

lemma suc_bitpos:
  "(Suc p + 7) div 8 = Suc (p div 8)" "p mod 8 = 7 \<Longrightarrow> Suc p mod 8 = 0"
  "p mod 8 \<noteq> 7 \<Longrightarrow> Suc p mod 8 = Suc (p mod 8)"
  by (simp_all add: mod_Suc)

definition bit_at :: "u8 list \<Rightarrow> nat \<Rightarrow> bool" where
  "bit_at bs i = bit (bs ! (i div 8)) (i mod 8)"

definition bits_eq :: "nat \<Rightarrow> nat \<Rightarrow> u8 list \<Rightarrow> u8 list \<Rightarrow> bool" where
  "bits_eq lo hi a b \<longleftrightarrow> (\<forall>i. lo \<le> i \<longrightarrow> i < hi \<longrightarrow> bit_at a i = bit_at b i)"

text \<open>The number of bits before a position given as a byte count and a bit offset.\<close>

definition bitpos :: "nat \<Rightarrow> nat \<Rightarrow> nat" where
  "bitpos cur nb = (if nb = 0 then 8 * cur else 8 * (cur - 1) + nb)"

definition wpos :: "mem_stream \<Rightarrow> nat" where
  "wpos s = bitpos (curWritePos s) (nWriteBits s)"

definition rpos :: "mem_stream \<Rightarrow> nat" where
  "rpos s = bitpos (curReadPos s) (nReadBits s)"

definition set_rpos :: "nat \<Rightarrow> mem_stream \<Rightarrow> mem_stream" where
  "set_rpos p s = s\<lparr>curReadPos := (p + 7) div 8, nReadBits := p mod 8\<rparr>"

text \<open>A stream that can be read, whatever its write position.\<close>

definition wf_reader :: "mem_stream \<Rightarrow> bool" where
  "wf_reader s \<longleftrightarrow>
     length (sbuf s) = nBytesAllocated s \<and> nBytesAllocated s < 65536 \<and>
     nBytesWritten s \<le> nBytesAllocated s \<and>
     nReadBits s < 8 \<and> (nReadBits s \<noteq> 0 \<longrightarrow> curReadPos s > 0)"

definition wf_stream :: "mem_stream \<Rightarrow> bool" where
  "wf_stream s \<longleftrightarrow>
     wf_reader s \<and> curWritePos s \<le> nBytesWritten s \<and>
     nWriteBits s < 8 \<and> (nWriteBits s \<noteq> 0 \<longrightarrow> curWritePos s > 0)"

lemma wf_stream_reader [simp]: "wf_stream s \<Longrightarrow> wf_reader s"
  by (simp only: wf_stream_def)

lemma wf_stream_make [simp]: "wf_stream (mem_stream_make ch p)"
  by (simp add: wf_stream_def wf_reader_def mem_stream_make_def)

lemma wf_stream_make_raw [simp]: "wf_stream mem_stream_make_raw"
  by (simp add: mem_stream_make_raw_def)

lemma wpos_make_raw [simp]: "wpos mem_stream_make_raw = 0"
  by (simp add: wpos_def bitpos_def mem_stream_make_raw_def mem_stream_make_def)

lemma wf_stream_rposD: "wf_reader r \<Longrightarrow> curReadPos r = (rpos r + 7) div 8 \<and> nReadBits r = rpos r mod 8"
  by (auto simp: wf_stream_def wf_reader_def rpos_def bitpos_def)

lemma wf_stream_wposD: "wf_stream r \<Longrightarrow> curWritePos r = (wpos r + 7) div 8 \<and> nWriteBits r = wpos r mod 8"
  by (auto simp: wf_stream_def wf_reader_def wpos_def bitpos_def)

lemma set_rpos_rpos [simp]: "wf_reader r \<Longrightarrow> set_rpos (rpos r) r = r"
  using wf_stream_rposD[of r] by (simp add: set_rpos_def)

lemma bitpos_canon [simp]: "bitpos ((p + 7) div 8) (p mod 8) = p"
  using mult_div_mod_eq[of 8 p] by (auto simp: bitpos_def ceil8)

lemma rpos_set_rpos [simp]: "rpos (set_rpos p r) = p"
  by (simp add: rpos_def set_rpos_def)

lemma wf_set_rpos [simp]:
  "wf_reader r \<Longrightarrow> wf_reader (set_rpos p r)" "wf_stream r \<Longrightarrow> wf_stream (set_rpos p r)"
  by (auto simp: wf_stream_def wf_reader_def set_rpos_def)

lemma set_rpos_sel [simp]:
  "sbuf (set_rpos p r) = sbuf r" "nBytesWritten (set_rpos p r) = nBytesWritten r"
  "nBytesAllocated (set_rpos p r) = nBytesAllocated r" "wpos (set_rpos p r) = wpos r"
  "curWritePos (set_rpos p r) = curWritePos r" "nWriteBits (set_rpos p r) = nWriteBits r"
  "sversion (set_rpos p r) = sversion r"
  by (simp_all add: set_rpos_def wpos_def)

lemma set_rpos_set_rpos [simp]: "set_rpos p (set_rpos q r) = set_rpos p r"
  by (simp add: set_rpos_def)

lemma wpos_le: "wf_stream s \<Longrightarrow> wpos s \<le> 8 * nBytesWritten s"
  by (auto simp: wf_stream_def wf_reader_def wpos_def bitpos_def)

lemma bits_eq_refl [simp]: "bits_eq lo hi a a"
  by (simp add: bits_eq_def)

lemma bits_eq_trans: "bits_eq lo hi a b \<Longrightarrow> bits_eq lo hi b c \<Longrightarrow> bits_eq lo hi a c"
  by (simp add: bits_eq_def)

lemma bits_eq_sym: "bits_eq lo hi a b \<Longrightarrow> bits_eq lo hi b a"
  by (simp add: bits_eq_def)

lemma bits_eq_mono: "bits_eq lo hi a b \<Longrightarrow> lo \<le> lo' \<Longrightarrow> hi' \<le> hi \<Longrightarrow> bits_eq lo' hi' a b"
  by (simp add: bits_eq_def)

section \<open>What a writer may do\<close>

definition extends :: "mem_stream \<Rightarrow> mem_stream \<Rightarrow> bool" where
  "extends s s' \<longleftrightarrow>
     wf_stream s' \<and> wpos s \<le> wpos s' \<and> bits_eq 0 (wpos s) (sbuf s) (sbuf s') \<and>
     curReadPos s' = curReadPos s \<and> nReadBits s' = nReadBits s \<and> sversion s' = sversion s"

lemma extends_refl [simp]: "wf_stream s \<Longrightarrow> extends s s"
  by (simp add: extends_def)

lemma extends_trans: "extends s t \<Longrightarrow> extends t u \<Longrightarrow> extends s u"
  by (auto simp: extends_def intro: bits_eq_trans bits_eq_mono)

lemma extends_rpos: "extends s s' \<Longrightarrow> rpos s' = rpos s"
  by (simp add: extends_def rpos_def)

lemma extends_wf: "extends s s' \<Longrightarrow> wf_stream s'"
  by (simp add: extends_def)

text \<open>The buffer never grows past this, so writers with this much room cannot fail.\<close>

definition STREAM_ROOM :: nat where "STREAM_ROOM = 65434"

section \<open>Single bits\<close>

lemma bit_exp_u8 [simp]: "bit ((2 :: u8) ^ k) n \<longleftrightarrow> n = k \<and> k < 8"
  by (auto simp: bit_exp_iff)

lemma and_mask_nonzero:
  assumes "k < 8" shows "((w :: u8) AND push_bit k 1 \<noteq> 0) \<longleftrightarrow> bit w k"
proof
  assume "w AND push_bit k 1 \<noteq> 0"
  then obtain n where "bit (w AND push_bit k 1) n"
    using bit_eq_iff[of "w AND push_bit k 1" 0] by auto
  then show "bit w k" by (auto simp: bit_and_iff)
next
  assume "bit w k"
  with assms have "bit (w AND push_bit k 1) k" by (simp add: bit_and_iff)
  then show "w AND push_bit k 1 \<noteq> 0" by auto
qed

lemma getOneBit_spec:
  assumes wf: "wf_reader r" and p: "rpos r < 8 * nBytesWritten r"
  shows "getOneBit r = Some (bit_at (sbuf r) (rpos r), set_rpos (Suc (rpos r)) r)"
proof -
  define p where "p = rpos r"
  have cur: "curReadPos r = (p + 7) div 8" and nb: "nReadBits r = p mod 8"
    using wf_stream_rposD[OF wf] by (simp_all add: p_def)
  have w: "Suc (p div 8) \<le> nBytesWritten r" using p by (simp add: p_def)
  have l: "p div 8 < length (sbuf r)" using w wf by (simp add: wf_stream_def wf_reader_def)
  have m: "(sbuf r ! (p div 8) AND push_bit (p mod 8) 1 \<noteq> 0) \<longleftrightarrow> bit_at (sbuf r) p"
    unfolding bit_at_def by (rule and_mask_nonzero) simp
  define r1 where "r1 = r\<lparr>curReadPos := Suc (p div 8)\<rparr>"
  have r1: "(if nReadBits r = 0 then r\<lparr>curReadPos := curReadPos r + 1\<rparr> else r) = r1"
  proof (cases "p mod 8 = 0")
    case True
    then show ?thesis by (simp add: r1_def cur nb ceil8)
  next
    case False
    then have "curReadPos r = Suc (p div 8)" using cur by (simp add: ceil8)
    then show ?thesis using False nb by (simp add: r1_def)
  qed
  have get: "mem_get (curReadPos r1 - 1) (sbuf r1) = Some (sbuf r ! (p div 8))"
    using l by (simp add: r1_def)
  show ?thesis
    unfolding getOneBit_def r1 Let_def p_def[symmetric]
    using w get m suc_bitpos[of p]
    by (cases "p mod 8 = 7") (simp_all add: set_rpos_def r1_def nb)
qed

lemma bits_eq_bytes:
  "(\<And>j. j < n \<Longrightarrow> a ! j = b ! j) \<Longrightarrow> bits_eq lo (8 * n) a b"
  by (auto simp: bits_eq_def bit_at_def)

lemma bits_eq_byte:
  assumes eq: "bits_eq lo hi a b" and lo: "lo \<le> 8 * j" and hi: "8 * j + 8 \<le> hi"
  shows "a ! j = b ! j"
proof -
  have "bit (a ! j) k = bit (b ! j) k" if "k < 8" for k
  proof -
    have "bit_at a (8 * j + k) = bit_at b (8 * j + k)"
      using eq lo hi that by (simp add: bits_eq_def)
    then show ?thesis using that by (simp add: bit_at_def)
  qed
  then show ?thesis by (simp add: u8_eq_iff)
qed

section \<open>Bytes\<close>

text \<open>The size of the buffer after a write that ends at byte \<open>n\<close>.\<close>

definition grown :: "mem_stream \<Rightarrow> nat \<Rightarrow> nat" where
  "grown s n = (let a = (if sbuf s = [] then STREAM_INCR_SIZE else nBytesAllocated s)
                in if a < n then n + STREAM_INCR_SIZE else a)"

lemma putBytes_eq:
  assumes wf: "wf_stream s" and n: "n = curWritePos s + length bs"
  shows "mem_stream_putBytes s bs =
    (if grown s n < 65535 \<or> n \<le> nBytesAllocated s
     then Some (s\<lparr>sbuf := take (curWritePos s) (sbuf s) @ bs @
                       drop n (sbuf s @ replicate (grown s n - nBytesAllocated s) 0),
                nBytesAllocated := grown s n, nBytesWritten := n, curWritePos := n,
                nWriteBits := 0\<rparr>)
     else None)"
proof -
  have bnds: "length (sbuf s) = nBytesAllocated s" "nBytesAllocated s < 65536"
    "curWritePos s \<le> nBytesWritten s" "nBytesWritten s \<le> nBytesAllocated s"
    using wf by (auto simp: wf_stream_def wf_reader_def)
  have size: "(if curWritePos s < nBytesWritten s
       then nBytesWritten s + length bs - (nBytesWritten s - curWritePos s)
       else nBytesWritten s + length bs) = n"
    using bnds n by auto
  show ?thesis
  proof (cases "sbuf s = []")
    case True
    then have z: "nBytesAllocated s = 0" "nBytesWritten s = 0" "curWritePos s = 0"
      using bnds by auto
    show ?thesis
    proof (cases "100 < n")
      case gt: True
      have "drop n (replicate (n + 100) (0 :: u8)) = replicate 100 0" by simp
      then show ?thesis
        using True z n gt
        by (simp add: mem_stream_putBytes_def grown_def Let_def STREAM_INCR_SIZE_def mem_write_def
            xp_assert_def replicate_add[symmetric] add.commute)
    next
      case False
      then show ?thesis
        using True z n
        by (simp add: mem_stream_putBytes_def grown_def Let_def STREAM_INCR_SIZE_def mem_write_def)
    qed
  next
    case False
    show ?thesis
    proof (cases "nBytesAllocated s < n")
      case True
      with False bnds n size show ?thesis
        by (auto simp: mem_stream_putBytes_def grown_def Let_def STREAM_INCR_SIZE_def mem_write_def
            xp_assert_def)
    next
      case le: False
      with False bnds n size show ?thesis
        by (auto simp: mem_stream_putBytes_def grown_def Let_def mem_write_def)
    qed
  qed
qed

lemma grown_ge: "n \<le> grown s n" "wf_stream s \<Longrightarrow> nBytesAllocated s \<le> grown s n"
  by (auto simp: grown_def Let_def STREAM_INCR_SIZE_def wf_stream_def wf_reader_def)

lemma putBytes_spec:
  assumes wf: "wf_stream s" and put: "mem_stream_putBytes s bs = Some s'"
  shows "curWritePos s' = curWritePos s + length bs" and "nBytesWritten s' = curWritePos s'"
    and "nWriteBits s' = 0" and "extends s s'"
    and "take (length bs) (drop (curWritePos s) (sbuf s')) = bs"
    and "wpos s' = 8 * (curWritePos s + length bs)"
proof -
  define n where "n = curWritePos s + length bs"
  have bnds: "length (sbuf s) = nBytesAllocated s" "nBytesAllocated s < 65536"
    "curWritePos s \<le> length (sbuf s)" "nReadBits s < 8" "nReadBits s \<noteq> 0 \<longrightarrow> curReadPos s > 0"
    using wf by (auto simp: wf_stream_def wf_reader_def)
  have g: "grown s n < 65535 \<or> n \<le> nBytesAllocated s" and
    s': "s' = s\<lparr>sbuf := take (curWritePos s) (sbuf s) @ bs @
                       drop n (sbuf s @ replicate (grown s n - nBytesAllocated s) 0),
                nBytesAllocated := grown s n, nBytesWritten := n, curWritePos := n,
                nWriteBits := 0\<rparr>"
    using put unfolding putBytes_eq[OF wf n_def] by (simp_all split: if_splits)
  have gb: "grown s n < 65536"
    using g bnds by (auto simp: grown_def Let_def STREAM_INCR_SIZE_def split: if_splits)
  have g2: "n \<le> grown s n" "nBytesAllocated s \<le> grown s n"
    using grown_ge wf by auto
  have len: "length (sbuf s') = grown s n"
    using g2 bnds by (simp add: s' n_def)
  have wf': "wf_stream s'"
    using bnds g2 gb len by (auto simp: wf_stream_def wf_reader_def s')
  have nthe: "sbuf s' ! j = sbuf s ! j" if "j < curWritePos s" for j
    using that bnds by (simp add: s' nth_append)
  show "curWritePos s' = curWritePos s + length bs" "nBytesWritten s' = curWritePos s'"
    "nWriteBits s' = 0"
    by (simp_all add: s' n_def)
  show "take (length bs) (drop (curWritePos s) (sbuf s')) = bs"
    using bnds by (simp add: s')
  show w': "wpos s' = 8 * (curWritePos s + length bs)"
    by (simp add: wpos_def bitpos_def s' n_def)
  have w: "wpos s \<le> 8 * curWritePos s"
    using wf by (auto simp: wf_stream_def wf_reader_def wpos_def bitpos_def)
  have "bits_eq 0 (8 * curWritePos s) (sbuf s) (sbuf s')"
    by (rule bits_eq_bytes) (simp add: nthe)
  with w have "bits_eq 0 (wpos s) (sbuf s) (sbuf s')" by (auto intro: bits_eq_mono)
  then show "extends s s'"
    using wf' w w' by (simp add: extends_def s')
qed

lemma putBytes_total:
  assumes wf: "wf_stream s" and room: "nBytesWritten s + length bs \<le> STREAM_ROOM"
  shows "\<exists>s'. mem_stream_putBytes s bs = Some s' \<and>
              nBytesWritten s' \<le> nBytesWritten s + length bs"
proof -
  define n where "n = curWritePos s + length bs"
  have "n \<le> STREAM_ROOM" using wf room by (auto simp: wf_stream_def wf_reader_def n_def)
  then have "grown s n < 65535 \<or> n \<le> nBytesAllocated s"
    by (auto simp: grown_def Let_def STREAM_INCR_SIZE_def STREAM_ROOM_def)
  then show ?thesis
    using wf unfolding putBytes_eq[OF wf n_def] by (simp add: n_def wf_stream_def wf_reader_def)
qed

lemma getBytes_spec:
  assumes wf: "wf_reader r" and w: "curReadPos r + n \<le> nBytesWritten r"
  shows "mem_stream_getBytes r n =
           Some (take n (drop (curReadPos r) (sbuf r)), set_rpos (8 * (curReadPos r + n)) r)"
  using wf w
  by (auto simp: mem_stream_getBytes_def wf_stream_def wf_reader_def set_rpos_def Let_def)

text \<open>Bytes written at one stream's position are read back from any stream that holds the
  same bits there.\<close>

lemma get_putBytes:
  assumes wf: "wf_stream s" and put: "mem_stream_putBytes s bs = Some s'"
    and r: "wf_reader r" "rpos r = wpos s"
    and eq: "bits_eq (wpos s) (wpos s') (sbuf s') (sbuf r)" and le: "wpos s' \<le> 8 * nBytesWritten r"
  shows "mem_stream_getBytes r (length bs) = Some (bs, set_rpos (wpos s') r)"
proof -
  note P = putBytes_spec[OF wf put]
  have cur: "curReadPos r = curWritePos s"
    using wf_stream_rposD[OF r(1)] wf_stream_wposD[OF wf] r(2) by simp
  have w: "wpos s \<le> 8 * curWritePos s"
    using wf by (auto simp: wf_stream_def wf_reader_def wpos_def bitpos_def)
  have le': "curReadPos r + length bs \<le> nBytesWritten r"
    using le P(6) cur by simp
  have lens: "curWritePos s + length bs \<le> length (sbuf s')"
    using extends_wf[OF P(4)] P(1) by (simp add: wf_stream_def wf_reader_def)
  have lenr: "curReadPos r + length bs \<le> length (sbuf r)"
    using le' r(1) by (simp add: wf_stream_def wf_reader_def)
  have "take (length bs) (drop (curReadPos r) (sbuf r)) = take (length bs) (drop (curWritePos s) (sbuf s'))"
  proof (rule nth_equalityI)
    show "length (take (length bs) (drop (curReadPos r) (sbuf r))) =
          length (take (length bs) (drop (curWritePos s) (sbuf s')))"
      using lens lenr by simp
    fix j assume j: "j < length (take (length bs) (drop (curReadPos r) (sbuf r)))"
    then have "sbuf s' ! (curWritePos s + j) = sbuf r ! (curWritePos s + j)"
      using w P(6) by (intro bits_eq_byte[OF eq]) simp_all
    then show "take (length bs) (drop (curReadPos r) (sbuf r)) ! j =
               take (length bs) (drop (curWritePos s) (sbuf s')) ! j"
      using j lens lenr cur by (simp del: drop_drop)
  qed
  then show ?thesis
    using getBytes_spec[OF r(1) le'] P(5,6) cur by simp
qed

section \<open>Writing single bits\<close>

lemma bit_at_update:
  assumes "j < length m" and "\<And>k. k < 8 \<Longrightarrow> k \<noteq> i mod 8 \<Longrightarrow> i div 8 = j \<Longrightarrow> bit w k = bit (m ! j) k"
    and "p \<noteq> i" "i div 8 = j"
  shows "bit_at (m[j := w]) p = bit_at m p"
proof (cases "p div 8 = j")
  case True
  with assms(3,4) have "p mod 8 \<noteq> i mod 8" by (metis mult_div_mod_eq)
  with True assms(1,2,4) show ?thesis by (simp add: bit_at_def)
qed (simp add: bit_at_def)

text \<open>The first half of \<open>putOneBit\<close>: make sure the byte of the next bit is there.\<close>

definition bit_room :: "mem_stream \<Rightarrow> mem_stream option" where
  "bit_room s =
     (if nWriteBits s = 0 then
        (if curWritePos s = nBytesWritten s then mem_stream_putU8 s 0
         else do {
           m \<leftarrow> mem_put (curWritePos s) 0 (sbuf s);
           Some (s\<lparr>sbuf := m, curWritePos := curWritePos s + 1\<rparr>)
         })
      else Some s)"

lemma bit_room_spec:
  assumes wf: "wf_stream s" and b: "bit_room s = Some t"
  shows "curWritePos t = Suc (wpos s div 8)" and "nWriteBits t = wpos s mod 8"
    and "bits_eq 0 (wpos s) (sbuf s) (sbuf t)" and "wf_stream t"
    and "nBytesWritten t = max (nBytesWritten s) (Suc (wpos s div 8))"
    and "curReadPos t = curReadPos s" "nReadBits t = nReadBits s" "sversion t = sversion s"
proof -
  have W: "curWritePos s = (wpos s + 7) div 8" "nWriteBits s = wpos s mod 8"
    using wf_stream_wposD[OF wf] by auto
  have bnds: "length (sbuf s) = nBytesAllocated s" "curWritePos s \<le> nBytesWritten s"
    "nBytesWritten s \<le> nBytesAllocated s"
    using wf by (auto simp: wf_stream_def wf_reader_def)
  have "curWritePos t = Suc (wpos s div 8) \<and> nWriteBits t = wpos s mod 8 \<and>
    bits_eq 0 (wpos s) (sbuf s) (sbuf t) \<and> wf_stream t \<and>
    nBytesWritten t = max (nBytesWritten s) (Suc (wpos s div 8)) \<and>
    curReadPos t = curReadPos s \<and> nReadBits t = nReadBits s \<and> sversion t = sversion s"
  proof (cases "nWriteBits s = 0")
    case False
    then have "t = s" "curWritePos s = Suc (wpos s div 8)"
      using b W by (simp_all add: bit_room_def ceil8)
    then show ?thesis using W bnds wf by simp
  next
    case True
    then have c: "curWritePos s = wpos s div 8" using W by (simp add: ceil8)
    have c2: "wpos s = 8 * curWritePos s" using True by (simp add: wpos_def bitpos_def)
    show ?thesis
    proof (cases "curWritePos s = nBytesWritten s")
      case eq: True
      then have p: "mem_stream_putBytes s [0] = Some t"
        using b True by (simp add: bit_room_def mem_stream_putU8_def)
      note P = putBytes_spec[OF wf p]
      show ?thesis
        using P(1,2,3) P(4)[unfolded extends_def] True W(2) eq unfolding c[symmetric] by simp
    next
      case ne: False
      then have lt: "curWritePos s < length (sbuf s)" using bnds by simp
      then have t: "t = s\<lparr>sbuf := (sbuf s)[curWritePos s := 0], curWritePos := Suc (curWritePos s)\<rparr>"
        using b True ne by (simp add: bit_room_def)
      have "bits_eq 0 (wpos s) (sbuf s) (sbuf t)"
        unfolding c2 by (rule bits_eq_bytes) (simp add: t)
      moreover have "wf_stream t" using wf ne by (auto simp: wf_stream_def wf_reader_def t)
      ultimately show ?thesis using True W(2) ne bnds unfolding c[symmetric] by (simp add: t)
    qed
  qed
  then show "curWritePos t = Suc (wpos s div 8)" "nWriteBits t = wpos s mod 8"
    and "bits_eq 0 (wpos s) (sbuf s) (sbuf t)" and "wf_stream t"
    and "nBytesWritten t = max (nBytesWritten s) (Suc (wpos s div 8))"
    and "curReadPos t = curReadPos s" "nReadBits t = nReadBits s" "sversion t = sversion s"
    by blast+
qed

lemma bit_room_total:
  assumes wf: "wf_stream s" and room: "nBytesWritten s + 1 \<le> STREAM_ROOM \<or> wpos s < 8 * nBytesWritten s"
  shows "\<exists>t. bit_room s = Some t"
  using assms putBytes_total[OF wf, of "[0]"]
  by (auto simp: bit_room_def mem_stream_putU8_def wf_stream_def wf_reader_def wpos_def bitpos_def)

definition set_bit8 :: "nat \<Rightarrow> bool \<Rightarrow> u8 \<Rightarrow> u8" where
  "set_bit8 k b w = (if b then w OR push_bit k 1 else w AND NOT (push_bit k 1))"

lemma bit_set_bit8: "k < 8 \<Longrightarrow> bit (set_bit8 k b w) i = (if i = k then b else bit w i)"
  by (cases "i < 8") (auto simp: set_bit8_def bit_simps dest: bit_imp_le_length)

lemma putOneBit_room:
  "putOneBit s b = do {
     s \<leftarrow> bit_room s;
     xp_assert (curWritePos s > 0);
     rack \<leftarrow> mem_get (curWritePos s - 1) (sbuf s);
     m \<leftarrow> mem_put (curWritePos s - 1) (set_bit8 (nWriteBits s) b rack) (sbuf s);
     Some (s\<lparr>sbuf := m, nWriteBits := (nWriteBits s + 1) mod 8\<rparr>)
   }"
  unfolding putOneBit_def bit_room_def set_bit8_def Let_def by (rule refl)

lemma putOneBit_eq:
  assumes wf: "wf_stream s" and t: "bit_room s = Some t"
  shows "putOneBit s b =
    Some (t\<lparr>sbuf := (sbuf t)[wpos s div 8 := set_bit8 (wpos s mod 8) b (sbuf t ! (wpos s div 8))],
            nWriteBits := Suc (wpos s) mod 8\<rparr>)"
  using bit_room_spec[OF wf t] by (simp add: putOneBit_room t wf_stream_def wf_reader_def mod_Suc)

lemma putOneBit_spec:
  assumes wf: "wf_stream s" and put: "putOneBit s b = Some s'"
  shows "extends s s'" and "wpos s' = Suc (wpos s)" and "bit_at (sbuf s') (wpos s) = b"
    and "nBytesWritten s' = max (nBytesWritten s) (Suc (wpos s div 8))"
proof -
  define p where "p = wpos s"
  obtain t where t: "bit_room s = Some t"
    using put by (auto simp: putOneBit_room)
  note R = bit_room_spec[OF wf t, folded p_def]
  define w where "w = set_bit8 (p mod 8) b (sbuf t ! (p div 8))"
  have s': "s' = t\<lparr>sbuf := (sbuf t)[p div 8 := w], nWriteBits := Suc p mod 8\<rparr>"
    using put unfolding putOneBit_eq[OF wf t] by (simp add: w_def p_def)
  have len: "p div 8 < length (sbuf t)" using R(1,4,5) by (auto simp: wf_stream_def wf_reader_def)
  have same: "bit_at (sbuf s') i = bit_at (sbuf t) i" if "i \<noteq> p" for i
    unfolding s' by (simp, rule bit_at_update[OF len _ that]) (simp_all add: w_def bit_set_bit8)
  show wp: "wpos s' = Suc (wpos s)"
    unfolding wpos_def[of s'] p_def[symmetric]
    using bitpos_canon[of "Suc p"] R(1) suc_bitpos(1)[of p] by (simp add: s')
  show "bit_at (sbuf s') (wpos s) = b"
    using len by (simp add: s' bit_at_def w_def bit_set_bit8 flip: p_def)
  show "nBytesWritten s' = max (nBytesWritten s) (Suc (wpos s div 8))"
    using R(5) by (simp add: s' p_def)
  have "wf_stream s'" using R(1,2,4) by (simp add: wf_stream_def wf_reader_def s')
  moreover have "bits_eq 0 (wpos s) (sbuf s) (sbuf s')"
    using R(3) same by (simp add: bits_eq_def p_def)
  ultimately show "extends s s'"
    using wp R(6-8) by (simp add: extends_def s')
qed

lemma putOneBit_total:
  assumes "wf_stream s" and "nBytesWritten s + 1 \<le> STREAM_ROOM \<or> wpos s < 8 * nBytesWritten s"
  shows "\<exists>s'. putOneBit s b = Some s'"
  using bit_room_total[OF assms] putOneBit_eq[OF assms(1)] by auto

section \<open>Bit fields\<close>

lemma and_one_nonzero: "((w :: u32) AND 1 \<noteq> 0) = bit w 0"
  by (simp add: and_one_eq odd_iff_mod_2_eq_one bit_0)

lemma putBits_loop_spec:
  assumes "wf_stream s" and "putBits_loop n d s = Some (d', s')"
  shows "extends s s' \<and> wpos s' = wpos s + n \<and> d' = drop_bit n d \<and>
         (\<forall>k<n. bit_at (sbuf s') (wpos s + k) = bit d k)"
  using assms
proof (induction n arbitrary: d s)
  case 0
  then show ?case by simp
next
  case (Suc n)
  from Suc.prems(2) obtain t where t: "putOneBit s (bit d 0) = Some t"
      "putBits_loop n (drop_bit 1 d) t = Some (d', s')"
    unfolding putBits_loop.simps and_one_nonzero by auto
  note P = putOneBit_spec[OF Suc.prems(1) t(1)]
  have wft: "wf_stream t" using P(1) by (rule extends_wf)
  note I = Suc.IH[OF wft t(2)]
  have first: "bit_at (sbuf s') (wpos s) = bit d 0"
    using I P(2,3) by (simp add: extends_def bits_eq_def)
  have "bit_at (sbuf s') (wpos s + k) = bit d k" if "k < Suc n" for k
    using that first I P(2) by (cases k) (auto simp: bit_simps)
  then show ?case
    using I P(1,2) extends_trans[OF P(1)] by (simp add: drop_bit_drop_bit)
qed

lemma putBits_loop_total:
  assumes "wf_stream s" and "(wpos s + n + 7) div 8 \<le> STREAM_ROOM"
  shows "\<exists>s'. putBits_loop n d s = Some (drop_bit n d, s') \<and>
              nBytesWritten s' = max (nBytesWritten s) ((wpos s + n + 7) div 8)"
  using assms
proof (induction n arbitrary: d s)
  case 0
  then show ?case using wf_stream_wposD[OF 0(1)] by (auto simp: wf_stream_def wf_reader_def)
next
  case (Suc n)
  have "nBytesWritten s + 1 \<le> STREAM_ROOM \<or> wpos s < 8 * nBytesWritten s"
    using Suc.prems(2) wpos_le[OF Suc.prems(1)] by linarith
  then obtain t where t: "putOneBit s (bit d 0) = Some t"
    using putOneBit_total[OF Suc.prems(1)] by blast
  note P = putOneBit_spec[OF Suc.prems(1) t]
  have "(wpos t + n + 7) div 8 \<le> STREAM_ROOM" using Suc.prems(2) P(2) by simp
  from Suc.IH[OF extends_wf[OF P(1)] this, of "drop_bit 1 d"] obtain s' where
    s': "putBits_loop n (drop_bit 1 d) t = Some (drop_bit n (drop_bit 1 d), s')"
      "nBytesWritten s' = max (nBytesWritten t) ((wpos t + n + 7) div 8)" by blast
  have "Suc (wpos s div 8) \<le> (wpos s + Suc n + 7) div 8" by linarith
  then show ?case
    using t s' P(2,4) unfolding putBits_loop.simps and_one_nonzero
    by (simp add: drop_bit_drop_bit max_def)
qed

lemma getBits_loop_spec:
  assumes "wf_reader r" and "rpos r + n \<le> 8 * nBytesWritten r" and "k + n \<le> 32"
  shows "\<exists>w. getBits_loop n (push_bit k 1) res r = Some (w, set_rpos (rpos r + n) r) \<and>
             (\<forall>i<32. bit w i \<longleftrightarrow> bit res i \<or> (k \<le> i \<and> i < k + n \<and> bit_at (sbuf r) (rpos r + (i - k))))"
  using assms
proof (induction n arbitrary: k res r)
  case 0
  then show ?case by auto
next
  case (Suc n)
  define b where "b = bit_at (sbuf r) (rpos r)"
  define r1 where "r1 = set_rpos (Suc (rpos r)) r"
  define res1 where "res1 = (if b then res OR push_bit k 1 else res)"
  have g: "getOneBit r = Some (b, r1)"
    using getOneBit_spec[OF Suc.prems(1)] Suc.prems(2) by (simp add: b_def r1_def)
  have eq: "getBits_loop (Suc n) (push_bit k 1) res r = getBits_loop n (push_bit (Suc k) 1) res1 r1"
    unfolding getBits_loop.simps g res1_def by (simp add: push_bit_push_bit mult.commute)
  obtain w where w: "getBits_loop n (push_bit (Suc k) 1) res1 r1 = Some (w, set_rpos (rpos r1 + n) r1)"
    "\<And>i. i < 32 \<Longrightarrow> bit w i \<longleftrightarrow> bit res1 i \<or>
        (Suc k \<le> i \<and> i < Suc k + n \<and> bit_at (sbuf r1) (rpos r1 + (i - Suc k)))"
    using Suc.IH[of r1 "Suc k" res1] Suc.prems by (auto simp: r1_def)
  have "bit w i \<longleftrightarrow> bit res i \<or> (k \<le> i \<and> i < k + Suc n \<and> bit_at (sbuf r) (rpos r + (i - k)))"
    if i: "i < 32" for i
  proof -
    have res1: "bit res1 i \<longleftrightarrow> bit res i \<or> (b \<and> i = k)"
      using i by (auto simp: res1_def bit_simps)
    consider "i < k" | "i = k" | j where "i = Suc k + j"
      by (metis less_or_eq_imp_le linorder_neqE_nat less_iff_Suc_add add_Suc_right add_Suc)
    then show ?thesis
      by cases (use w(2)[OF i] res1 in \<open>auto simp: r1_def b_def\<close>)
  qed
  then show ?case unfolding eq w(1) by (auto simp: r1_def)
qed

lemma getBits_spec:
  assumes "wf_reader r" and "rpos r + n \<le> 8 * nBytesWritten r" and "n \<le> 32"
    and "\<And>k. k < 32 \<Longrightarrow> bit x k \<longleftrightarrow> k < n \<and> bit_at (sbuf r) (rpos r + k)"
  shows "mem_stream_getBits r n = Some (x, set_rpos (rpos r + n) r)"
proof -
  obtain w where w: "getBits_loop n (push_bit 0 1) 0 r = Some (w, set_rpos (rpos r + n) r)"
    "\<And>i. i < 32 \<Longrightarrow> bit w i \<longleftrightarrow> bit (0 :: u32) i \<or>
        (0 \<le> i \<and> i < 0 + n \<and> bit_at (sbuf r) (rpos r + (i - 0)))"
    using getBits_loop_spec[OF assms(1,2), of 0 0] assms(3) by auto
  have "w = x" using w(2) assms(4) by (simp add: u32_eq_iff)
  then show ?thesis using w(1) by (simp add: mem_stream_getBits_def)
qed

lemma putBits_spec:
  assumes "wf_stream s" and "mem_stream_putBits s n d = Some s'"
  shows "extends s s'" and "wpos s' = wpos s + n" and "drop_bit n d = 0"
    and "\<And>k. k < n \<Longrightarrow> bit_at (sbuf s') (wpos s + k) = bit d k"
  using assms putBits_loop_spec[OF assms(1), of n d]
  by (auto simp: mem_stream_putBits_def)

lemma putBits_total:
  assumes "wf_stream s" and "0 < n" "drop_bit n d = 0"
    and "nBytesWritten s + (n + 7) div 8 \<le> STREAM_ROOM"
  shows "\<exists>s'. mem_stream_putBits s n d = Some s' \<and>
              nBytesWritten s' \<le> nBytesWritten s + (n + 7) div 8"
proof -
  have le: "(wpos s + n + 7) div 8 \<le> nBytesWritten s + (n + 7) div 8"
    using wpos_le[OF assms(1)] by linarith
  with assms(4) have "(wpos s + n + 7) div 8 \<le> STREAM_ROOM" by linarith
  from putBits_loop_total[OF assms(1) this, of d] show ?thesis
    using assms(2,3) le by (auto simp: mem_stream_putBits_def)
qed

lemma get_putBits:
  assumes wf: "wf_stream s" and put: "mem_stream_putBits s n d = Some s'"
    and r: "wf_reader r" "rpos r = wpos s"
    and eq: "bits_eq (wpos s) (wpos s') (sbuf s') (sbuf r)" and le: "wpos s' \<le> 8 * nBytesWritten r"
    and n: "n \<le> 32"
  shows "mem_stream_getBits r n = Some (d, set_rpos (wpos s') r)"
proof -
  note P = putBits_spec[OF wf put]
  have hi: "\<not> bit d k" if "n \<le> k" for k
    using arg_cong[OF P(3), of "\<lambda>w. bit w (k - n)"] that by (simp add: bit_simps)
  have "bit d k \<longleftrightarrow> k < n \<and> bit_at (sbuf r) (rpos r + k)" if "k < 32" for k
    using P(2,4) eq hi that r(2) by (cases "k < n") (auto simp: bits_eq_def)
  then show ?thesis
    using getBits_spec[OF r(1) _ n, of d] r(2) le P(2) by simp
qed

section \<open>The interface of serialisers\<close>

text \<open>The value \<open>x\<close> as \<open>put\<close> writes it stands at the bits from \<open>p\<close> to \<open>q\<close> of a buffer.\<close>

definition encoded ::
    "(mem_stream \<Rightarrow> 'a \<Rightarrow> mem_stream option) \<Rightarrow> ('a \<Rightarrow> bool) \<Rightarrow> u8 list \<Rightarrow> nat \<Rightarrow> 'a \<Rightarrow> nat \<Rightarrow> bool" where
  "encoded put ok buf p x q \<longleftrightarrow> (\<exists>s s'. wf_stream s \<and> ok x \<and> put s x = Some s' \<and>
     wpos s = p \<and> wpos s' = q \<and> bits_eq p q (sbuf s') buf)"

fun encodeds ::
    "(mem_stream \<Rightarrow> 'a \<Rightarrow> mem_stream option) \<Rightarrow> ('a \<Rightarrow> bool) \<Rightarrow> u8 list \<Rightarrow> nat \<Rightarrow> 'a list \<Rightarrow> nat \<Rightarrow> bool" where
  "encodeds put ok buf p [] q \<longleftrightarrow> p = q"
| "encodeds put ok buf p (x # xs) q \<longleftrightarrow> (\<exists>m. encoded put ok buf p x m \<and> encodeds put ok buf m xs q)"

lemma encoded_put:
  "wf_stream s \<Longrightarrow> ok x \<Longrightarrow> put s x = Some s' \<Longrightarrow> encoded put ok (sbuf s') (wpos s) x (wpos s')"
  by (auto simp: encoded_def)

lemma encoded_ok: "encoded put ok buf p x q \<Longrightarrow> ok x"
  by (auto simp: encoded_def)

lemma encoded_cong:
  "encoded put ok buf p x q \<Longrightarrow> bits_eq p q buf buf' \<Longrightarrow> encoded put ok buf' p x q"
  unfolding encoded_def by (elim exE conjE, intro exI conjI) (assumption | simp add: bits_eq_def)+

lemma encodeds_append:
  "encodeds put ok buf p (xs @ ys) q \<longleftrightarrow>
     (\<exists>m. encodeds put ok buf p xs m \<and> encodeds put ok buf m ys q)"
  by (induction xs arbitrary: p) auto

lemma encodeds_ok: "encodeds put ok buf p xs q \<Longrightarrow> x \<in> set xs \<Longrightarrow> ok x"
  by (induction xs arbitrary: p) (auto dest: encoded_ok)

text \<open>A writer succeeds and leaves at most \<open>b\<close> bytes.\<close>

definition writes :: "mem_stream option \<Rightarrow> nat \<Rightarrow> bool" where
  "writes m b \<longleftrightarrow> (\<exists>s. m = Some s \<and> wf_stream s \<and> nBytesWritten s \<le> b)"

lemma writes_bind:
  "writes m b \<Longrightarrow> (\<And>s. wf_stream s \<Longrightarrow> nBytesWritten s \<le> b \<Longrightarrow> writes (f s) b') \<Longrightarrow>
     writes (Option.bind m f) b'"
  by (auto simp: writes_def)

lemma writes_mono: "writes m b \<Longrightarrow> b \<le> b' \<Longrightarrow> writes m b'"
  by (auto simp: writes_def)

text \<open>The reader \<open>r\<close> holds what was written between \<open>s0\<close> and \<open>s\<close>.\<close>

definition held :: "mem_stream \<Rightarrow> mem_stream \<Rightarrow> mem_stream \<Rightarrow> bool" where
  "held s0 s r \<longleftrightarrow> wf_stream s \<and> wf_reader r \<and> wpos s0 \<le> wpos s \<and>
     bits_eq (wpos s0) (wpos s) (sbuf s) (sbuf r) \<and> wpos s \<le> 8 * nBytesWritten r"

lemma held_same: "extends s0 s \<Longrightarrow> held s0 s s"
  by (simp add: held_def extends_def wpos_le)

locale stream_codec =
  fixes put :: "mem_stream \<Rightarrow> 'a \<Rightarrow> mem_stream option"
    and get :: "mem_stream \<Rightarrow> ('a \<times> mem_stream) option"
    and ok :: "'a \<Rightarrow> bool"
    and cost :: "'a \<Rightarrow> nat"
  assumes put_extends: "wf_stream s \<Longrightarrow> put s x = Some s' \<Longrightarrow> extends s s'"
    and put_total: "wf_stream s \<Longrightarrow> ok x \<Longrightarrow> nBytesWritten s + cost x \<le> STREAM_ROOM \<Longrightarrow>
      \<exists>s'. put s x = Some s' \<and> nBytesWritten s' \<le> nBytesWritten s + cost x"
    and get_put: "wf_stream s \<Longrightarrow> ok x \<Longrightarrow> put s x = Some s' \<Longrightarrow> wf_reader r \<Longrightarrow>
      rpos r = wpos s \<Longrightarrow> bits_eq (wpos s) (wpos s') (sbuf s') (sbuf r) \<Longrightarrow>
      wpos s' \<le> 8 * nBytesWritten r \<Longrightarrow> get r = Some (x, set_rpos (wpos s') r)"
begin

text \<open>Reading from the very stream that was written.\<close>

lemma get_put_same:
  assumes "wf_stream s" and "ok x" and "put s x = Some s'" and "rpos s = wpos s"
  shows "get s' = Some (x, set_rpos (wpos s') s')"
proof -
  have e: "extends s s'" by (rule put_extends[OF assms(1,3)])
  show ?thesis
    by (rule get_put[OF assms(1-3)])
      (use e assms(4) in \<open>simp_all add: extends_wf extends_rpos wpos_le\<close>)
qed

text \<open>The round trip: with room in the buffer the writer succeeds, and the reader gives back
  the value and has then read exactly what was written.\<close>

lemma roundtrip:
  assumes "wf_stream s" and "ok x" and "nBytesWritten s + cost x \<le> STREAM_ROOM" and "rpos s = wpos s"
  shows "\<exists>s' t. put s x = Some s' \<and> get s' = Some (x, t) \<and> rpos t = wpos s' \<and> sbuf t = sbuf s'"
proof -
  from put_total[OF assms(1-3)] obtain s' where s': "put s x = Some s'" by blast
  show ?thesis using s' get_put_same[OF assms(1,2) s' assms(4)] by auto
qed

text \<open>Writing more after a value does not change what is read for it.\<close>

lemma get_put_then:
  assumes "wf_stream s" and "ok x" and "put s x = Some s'" and "extends s' r"
    and "wf_reader q" "sbuf q = sbuf r" "wpos s' \<le> 8 * nBytesWritten q" "rpos q = wpos s"
  shows "get q = Some (x, set_rpos (wpos s') q)"
  using assms get_put[OF assms(1-3,5)] by (auto simp: extends_def intro: bits_eq_mono)

text \<open>One step of a chain of writers, seen from its start and from its end.\<close>

lemma put_step: "put s x = Some s' \<Longrightarrow> extends s0 s \<Longrightarrow> extends s0 s'"
  using put_extends extends_trans extends_wf by blast

lemma held_back:
  assumes w: "put s x = Some s'" and h: "held s0 s' r" and e: "extends s0 s"
  shows "held s0 s r"
proof -
  have wf: "wf_stream s" by (rule extends_wf[OF e])
  have x: "extends s s'" by (rule put_extends[OF wf w])
  have "bits_eq (wpos s0) (wpos s) (sbuf s) (sbuf s')"
    using x by (auto simp: extends_def intro: bits_eq_mono)
  moreover have "bits_eq (wpos s0) (wpos s) (sbuf s') (sbuf r)"
    using h x by (auto simp: held_def extends_def intro: bits_eq_mono)
  ultimately show ?thesis
    using h x e wf by (auto simp: held_def extends_def intro: bits_eq_trans)
qed

text \<open>A reader that stands where \<open>x\<close> was written reads \<open>x\<close> and stands where the next value was
  written.\<close>

lemma get_held:
  assumes w: "put s x = Some s'" and h: "held s0 s' r" and e: "extends s0 s" and ok: "ok x"
  shows "get (set_rpos (wpos s) r) = Some (x, set_rpos (wpos s') r)"
proof -
  have wf: "wf_stream s" by (rule extends_wf[OF e])
  have "get (set_rpos (wpos s) r) = Some (x, set_rpos (wpos s') (set_rpos (wpos s) r))"
    by (rule get_put[OF wf ok w])
      (use h e in \<open>auto simp: held_def extends_def intro: bits_eq_mono\<close>)
  then show ?thesis by simp
qed

lemma put_wf: "put s x = Some s' \<Longrightarrow> wf_stream s \<Longrightarrow> wf_stream s'"
  using put_extends extends_wf by blast

lemma put_writes:
  "ok x \<Longrightarrow> wf_stream s \<Longrightarrow> nBytesWritten s \<le> b \<Longrightarrow> b + cost x \<le> STREAM_ROOM \<Longrightarrow>
     writes (put s x) (b + cost x)"
  using put_total[of s x] put_wf unfolding writes_def by (meson add_le_mono1 le_trans)

text \<open>A value that stands at certain bits of a buffer is read from there.\<close>

lemma encoded_get:
  assumes "encoded put ok (sbuf r) p x q" and "wf_reader r" and "rpos r = p" and "q \<le> 8 * nBytesWritten r"
  shows "get r = Some (x, set_rpos q r)"
  using assms get_put by (auto simp: encoded_def)

lemma encoded_le: "encoded put ok buf p x q \<Longrightarrow> p \<le> q"
  using put_extends by (auto simp: encoded_def extends_def)

lemma encodeds_le: "encodeds put ok buf p xs q \<Longrightarrow> p \<le> q"
  by (induction xs arbitrary: p) (auto dest!: encoded_le intro: le_trans)

lemma encodeds_cong:
  "encodeds put ok buf p xs q \<Longrightarrow> bits_eq p q buf buf' \<Longrightarrow> encodeds put ok buf' p xs q"
proof (induction xs arbitrary: p)
  case (Cons x xs)
  then obtain m where m: "encoded put ok buf p x m" "encodeds put ok buf m xs q" by auto
  have le: "p \<le> m" "m \<le> q" using encoded_le[OF m(1)] encodeds_le[OF m(2)] by auto
  have "encoded put ok buf' p x m"
    by (rule encoded_cong[OF m(1)]) (use Cons.prems(2) le in \<open>auto intro: bits_eq_mono\<close>)
  moreover have "encodeds put ok buf' m xs q"
    by (rule Cons.IH[OF m(2)]) (use Cons.prems(2) le in \<open>auto intro: bits_eq_mono\<close>)
  ultimately show ?case by auto
qed simp

end

text \<open>Writing two values in a row, the second codec depending on the first value.\<close>

lemma stream_codec_pair:
  assumes A: "stream_codec putA getA okA costA"
    and B: "\<And>a. okA a \<Longrightarrow> stream_codec (putB a) (getB a) (okB a) (costB a)"
    and BE: "\<And>s a b s'. wf_stream s \<Longrightarrow> putB a s b = Some s' \<Longrightarrow> extends s s'"
  shows "stream_codec (\<lambda>s (a, b). do { s \<leftarrow> putA s a; putB a s b })
           (\<lambda>r. do { (a, r) \<leftarrow> getA r; (b, r) \<leftarrow> getB a r; Some ((a, b), r) })
           (\<lambda>(a, b). okA a \<and> okB a b) (\<lambda>(a, b). costA a + costB a b)"
proof (unfold_locales, goal_cases)
  case (1 s x s')
  then show ?case
    by (auto split: prod.splits intro: extends_trans stream_codec.put_extends[OF A] BE[OF extends_wf]
        dest: stream_codec.put_extends[OF A] BE[OF extends_wf[OF stream_codec.put_extends[OF A]]])
next
  case (2 s x)
  obtain a b where x: "x = (a, b)" by (cases x)
  with 2 have ok: "okA a" "okB a b" and room: "nBytesWritten s + (costA a + costB a b) \<le> STREAM_ROOM"
    by auto
  obtain t where t: "putA s a = Some t" "nBytesWritten t \<le> nBytesWritten s + costA a"
    using stream_codec.put_total[OF A 2(1) ok(1)] room by fastforce
  have wft: "wf_stream t" using stream_codec.put_extends[OF A 2(1) t(1)] by (rule extends_wf)
  show ?case
    using stream_codec.put_total[OF B[OF ok(1)] wft ok(2)] t room by (fastforce simp: x)
next
  case (3 s x s' r)
  obtain a b where x: "x = (a, b)" by (cases x)
  with 3 have ok: "okA a" "okB a b" by auto
  from 3(3) obtain t where t: "putA s a = Some t" "putB a t b = Some s'" by (auto simp: x)
  have e1: "extends s t" by (rule stream_codec.put_extends[OF A 3(1) t(1)])
  have e2: "extends t s'" by (rule BE[OF extends_wf[OF e1] t(2)])
  have g1: "getA r = Some (a, set_rpos (wpos t) r)"
  proof (rule stream_codec.get_put[OF A 3(1) ok(1) t(1) 3(4,5)])
    have "bits_eq (wpos s) (wpos t) (sbuf t) (sbuf s')"
      using e2 by (auto simp: extends_def intro: bits_eq_mono)
    moreover have "bits_eq (wpos s) (wpos t) (sbuf s') (sbuf r)"
      using 3(6) e2 by (auto simp: extends_def intro: bits_eq_mono)
    ultimately show "bits_eq (wpos s) (wpos t) (sbuf t) (sbuf r)" by (rule bits_eq_trans)
    show "wpos t \<le> 8 * nBytesWritten r" using e2 3(7) by (simp add: extends_def)
  qed
  have g2: "getB a (set_rpos (wpos t) r) = Some (b, set_rpos (wpos s') (set_rpos (wpos t) r))"
    by (rule stream_codec.get_put[OF B[OF ok(1)] extends_wf[OF e1] ok(2) t(2)])
      (use 3(4,6,7) e1 in \<open>auto simp: extends_def intro: bits_eq_mono\<close>)
  show ?case using g1 g2 by (simp add: x)
qed

text \<open>Reading and writing a value through another representation of it.\<close>

lemma stream_codec_map:
  assumes A: "stream_codec putA getA okA costA"
    and put: "\<And>s x. put s x = putA s (f x)" and get: "\<And>r. get r = map_option (map_prod g id) (getA r)"
    and ok: "\<And>x. ok x \<Longrightarrow> okA (f x) \<and> g (f x) = x" and cost: "\<And>x. cost x = costA (f x)"
  shows "stream_codec put get ok cost"
  using stream_codec.put_extends[OF A] stream_codec.put_total[OF A] stream_codec.get_put[OF A] ok
  by unfold_locales (fastforce simp: put get cost)+

section \<open>The primitive codecs\<close>

lemma ntohs_htons [simp]: "ntohs (htons w) = w"
proof (rule bit_word_eqI)
  fix n assume "n < LENGTH(16)"
  then have "n < 16" by simp
  then show "bit (ntohs (htons w)) n \<longleftrightarrow> bit w n"
    by (cases "n < 8") (auto simp: ntohs_def htons_def bit_simps)
qed

lemma ntohl_htonl [simp]: "ntohl (htonl w) = w"
proof (rule bit_word_eqI)
  fix n assume "n < LENGTH(32)"
  then consider "n < 8" | "8 \<le> n" "n < 16" | "16 \<le> n" "n < 24" | "24 \<le> n" "n < 32"
    by fastforce
  then show "bit (ntohl (htonl w)) n \<longleftrightarrow> bit w n"
    by cases (auto simp: ntohl_def htonl_def bit_simps)
qed

lemma length_htons [simp]: "length (htons w) = 2"
  by (simp add: htons_def)

lemma length_htonl [simp]: "length (htonl w) = 4"
  by (simp add: htonl_def)

lemma drop_bit_zero_u32: "drop_bit n (w :: u32) = 0 \<longleftrightarrow> unat w < 2 ^ n"
proof -
  have "drop_bit n w = 0 \<longleftrightarrow> unat (drop_bit n w) = 0" by (simp add: unsigned_eq_0_iff)
  also have "unat (drop_bit n w) = drop_bit n (unat w)" by (rule unat_drop_bit_eq)
  finally show ?thesis by (simp add: drop_bit_eq_div div_eq_0_iff)
qed

interpretation bits: stream_codec
    "\<lambda>s d. mem_stream_putBits s n d" "\<lambda>s. mem_stream_getBits s n"
    "\<lambda>d. 0 < n \<and> n \<le> 32 \<and> unat d < 2 ^ n" "\<lambda>d. (n + 7) div 8" for n
  using putBits_total get_putBits
  by unfold_locales (auto intro: putBits_spec(1) simp: drop_bit_zero_u32)

interpretation bytes: stream_codec
    "\<lambda>s bs. mem_stream_putBytes s bs" "\<lambda>s. mem_stream_getBytes s n"
    "\<lambda>bs. length bs = n" length for n
  using putBytes_total get_putBytes putBytes_spec(4)
  by unfold_locales auto

interpretation u8: stream_codec mem_stream_putU8 mem_stream_getU8 "\<lambda>x. True" "\<lambda>x. 1"
  using bytes.put_total[of _ "[x]" 1 for x] bytes.get_put[of _ "[x]" 1 for x] bytes.put_extends
  by unfold_locales (auto simp: mem_stream_putU8_def mem_stream_getU8_def)

interpretation u16: stream_codec mem_stream_putU16 mem_stream_getU16 "\<lambda>x. True" "\<lambda>x. 2"
  using bytes.put_total[of _ "htons x" 2 for x] bytes.get_put[of _ "htons x" 2 for x] bytes.put_extends
  by unfold_locales (auto simp: mem_stream_putU16_def mem_stream_getU16_def)

interpretation u32: stream_codec mem_stream_putU32 mem_stream_getU32 "\<lambda>x. True" "\<lambda>x. 4"
  using bytes.put_total[of _ "htonl x" 4 for x] bytes.get_put[of _ "htonl x" 4 for x] bytes.put_extends
  by unfold_locales (auto simp: mem_stream_putU32_def mem_stream_getU32_def)

text \<open>The locale's facts by the name of the writer, for the component theories.\<close>

named_theorems codec_ext
declare bits.put_extends [codec_ext] bytes.put_extends [codec_ext] u8.put_extends [codec_ext]
  u16.put_extends [codec_ext] u32.put_extends [codec_ext]

section \<open>Hashes, versions and positions\<close>

lemma getPos_write: "wf_stream s \<Longrightarrow> mem_stream_getPos s POS_WRITE = 8 * curWritePos s + nWriteBits s"
  by (simp add: mem_stream_getPos_def wf_stream_def wf_reader_def)

text \<open>The hash at a position depends on the bits below it only.\<close>

lemma byte_low_bits:
  assumes "\<And>k. k < n \<Longrightarrow> bit (a :: u8) k = bit b k"
  shows "a AND NOT (push_bit n 255) = b AND NOT (push_bit n 255)"
proof -
  have ff: "(255 :: u8) = - 1" by simp
  show ?thesis
    unfolding ff u8_eq_iff by (auto simp: bit_simps assms)
qed

lemma getHash_cong:
  assumes eq: "bits_eq 0 (bitpos (pos div 8) (pos mod 8)) (sbuf s) (sbuf s')"
    and t: "trunc16 (pos div 8) = pos div 8" and z: "pos mod 8 \<noteq> 0 \<Longrightarrow> 0 < pos div 8"
    and len: "pos div 8 \<le> length (sbuf s)" "pos div 8 \<le> length (sbuf s')"
  shows "mem_stream_getHash s' pos = mem_stream_getHash s pos"
proof -
  have bytes: "take n (sbuf s') = take n (sbuf s)"
    if "8 * n \<le> bitpos (pos div 8) (pos mod 8)" "n \<le> pos div 8" for n
  proof (rule nth_equalityI)
    show "length (take n (sbuf s')) = length (take n (sbuf s))" using len that by simp
    fix j assume "j < length (take n (sbuf s'))"
    then show "take n (sbuf s') ! j = take n (sbuf s) ! j"
      using that bits_eq_byte[OF eq, of j] by simp
  qed
  show ?thesis
  proof (cases "pos mod 8 = 0")
    case True
    then show ?thesis
      using bytes[of "pos div 8"] len
      by (simp add: mem_stream_getHash_def BYTE_PART_def BIT_PART_def t bitpos_def)
  next
    case False
    then obtain n where n: "pos div 8 = Suc n" using z gr0_implies_Suc by blast
    have low: "sbuf s' ! n AND NOT (push_bit (pos mod 8) 255) =
          sbuf s ! n AND NOT (push_bit (pos mod 8) 255)"
    proof (rule byte_low_bits)
      fix k assume k: "k < pos mod 8"
      have k8: "k < 8" using k by (rule less_trans) simp
      have "8 * n + k < bitpos (pos div 8) (pos mod 8)" using False n k by (simp add: bitpos_def)
      then have "bit_at (sbuf s') (8 * n + k) = bit_at (sbuf s) (8 * n + k)"
        using eq by (simp add: bits_eq_def)
      then show "bit (sbuf s' ! n) k = bit (sbuf s ! n) k" using k8 by (simp add: bit_at_def)
    qed
    show ?thesis
      using bytes[of n] len t low False n
      by (simp add: mem_stream_getHash_def BYTE_PART_def BIT_PART_def bitpos_def)
  qed
qed

lemma getHash_extends:
  assumes wf: "wf_stream s" and e: "extends s s'" and pos: "pos = mem_stream_getPos s POS_WRITE"
  shows "mem_stream_getHash s' pos = mem_stream_getHash s pos"
proof (rule getHash_cong)
  have p: "pos = 8 * curWritePos s + nWriteBits s" using pos getPos_write[OF wf] by simp
  have nb: "nWriteBits s < 8" using wf by (simp add: wf_stream_def wf_reader_def)
  have d: "pos div 8 = curWritePos s" "pos mod 8 = nWriteBits s" using p nb by simp_all
  have c: "curWritePos s' \<ge> curWritePos s"
    using wf_stream_wposD[OF wf] wf_stream_wposD[OF extends_wf[OF e]] e
    by (simp add: extends_def div_le_mono)
  show "bits_eq 0 (bitpos (pos div 8) (pos mod 8)) (sbuf s) (sbuf s')"
    using e by (simp add: extends_def d wpos_def)
  show "trunc16 (pos div 8) = pos div 8" "pos mod 8 \<noteq> 0 \<Longrightarrow> 0 < pos div 8"
    "pos div 8 \<le> length (sbuf s)"
    using wf by (simp_all add: d wf_stream_def wf_reader_def)
  show "pos div 8 \<le> length (sbuf s')"
    using extends_wf[OF e] c by (simp add: d wf_stream_def wf_reader_def)
qed

text \<open>A list whose length the reader knows.\<close>

fun getN :: "nat \<Rightarrow> (mem_stream \<Rightarrow> ('a \<times> mem_stream) option) \<Rightarrow> mem_stream \<Rightarrow>
    ('a list \<times> mem_stream) option" where
  "getN 0 get r = Some ([], r)"
| "getN (Suc n) get r = do {
     (x, r) \<leftarrow> get r;
     (xs, r) \<leftarrow> getN n get r;
     Some (x # xs, r)
   }"

lemma ofold_extends:
  assumes "\<And>s x s'. wf_stream s \<Longrightarrow> put s x = Some s' \<Longrightarrow> extends s s'"
    and "wf_stream s" and "ofold put s xs = Some s'"
  shows "extends s s'"
  using assms(2,3)
proof (induction xs arbitrary: s)
  case (Cons x xs)
  then obtain t where t: "put s x = Some t" "ofold put t xs = Some s'"
    by (auto split: option.splits)
  have e: "extends s t" using assms(1) Cons.prems(1) t(1) by blast
  show ?case using extends_trans[OF e] Cons.IH[OF extends_wf[OF e] t(2)] by blast
qed simp

lemma stream_codec_list:
  assumes A: "stream_codec putA getA okA costA"
  shows "stream_codec (ofold putA) (getN n getA) (\<lambda>xs. length xs = n \<and> list_all okA xs)
           (\<lambda>xs. sum_list (map costA xs))"
proof -
  have E: "extends s s'" if "wf_stream s" "ofold putA s xs = Some s'" for s xs s'
    using ofold_extends[OF _ that] stream_codec.put_extends[OF A] by blast
  show ?thesis
  proof (induction n)
    case 0
    show ?case by unfold_locales (auto intro: E dest: set_rpos_rpos)
  next
  case (Suc n)
  have P: "stream_codec (\<lambda>s (a, b). do { s \<leftarrow> putA s a; ofold putA s b })
     (\<lambda>r. do { (a, r) \<leftarrow> getA r; (b, r) \<leftarrow> getN n getA r; Some ((a, b), r) })
     (\<lambda>(a, b). okA a \<and> length b = n \<and> list_all okA b)
     (\<lambda>(a, b). costA a + sum_list (map costA b))"
    by (rule stream_codec_pair[OF A Suc E])
  have get: "getN (Suc n) getA r = map_option (\<lambda>((a, b), r). (a # b, r))
      (do { (a, r) \<leftarrow> getA r; (b, r) \<leftarrow> getN n getA r; Some ((a, b), r) })" for r
    by (auto split: Option.bind_splits prod.splits)
  show ?case
  proof (unfold_locales, goal_cases)
    case (1 s xs s')
    then show ?case by (rule E)
  next
    case (2 s xs)
    then obtain a b where x: "xs = a # b" by (cases xs) auto
    with 2 stream_codec.put_total[OF P, of s "(a, b)"] show ?case
      by (auto split: option.splits)
  next
    case (3 s xs s' r)
    then obtain a b where x: "xs = a # b" by (cases xs) auto
    from 3 have "(case (a, b) of (a, b) \<Rightarrow> do { s \<leftarrow> putA s a; ofold putA s b }) = Some s'"
      by (auto simp: x split: option.splits)
    from stream_codec.get_put[OF P 3(1) _ this 3(4-7)] 3(2) show ?case
      unfolding get by (simp add: x)
  qed
qed
qed

end
