(* ===== verification/Xw_StrUtils.thy ===== *)
theory Xw_StrUtils
  imports Xw_Codec
begin

text \<open>
  \<open>common/strutils.c\<close> and the data types of \<open>comtypes.h\<close> it serialises. A C array with its
  count (\<open>TrayTileSet\<close>, the tiles of a \<open>MoveInfo\<close>) is the list of its valid items. A string
  is the list of its bytes without the final 0, and \<open>None\<close> is the null pointer. The answers
  of the random generator are a parameter.
\<close>

section \<open>Data\<close>

definition TILE_NBITS :: nat where "TILE_NBITS = 6"
definition TILE_VALUE_MASK :: tile where "TILE_VALUE_MASK = 0x3F"
definition TILE_BLANK_BIT :: tile where "TILE_BLANK_BIT = 0x40"

type_synonym trayTileSet = "tile list"

record moveInfoTile =
  varCoord :: nat
  mtile :: tile

record moveInfo =
  commonCoord :: nat
  isHorizontal :: bool
  mtiles :: "moveInfoTile list"

type_synonym cstring = "u8 list option"

section \<open>Numbers and tile sets\<close>

lemma unat_half: "unat (drop_bit 1 (w :: u32)) = unat w div 2"
  using unat_drop_bit_eq[of 1 w] by (simp only: drop_bit_eq_div power_one_right)

function bitsForMax_loop :: "u32 \<Rightarrow> nat \<Rightarrow> nat" where
  "bitsForMax_loop nn result =
     (if nn \<noteq> 0 then bitsForMax_loop (drop_bit 1 nn) (result + 1) else result)"
  by pat_completeness auto
termination
proof (relation "measure (\<lambda>(nn, _). unat nn)")
  fix nn :: u32 and result :: nat
  assume "nn \<noteq> 0"
  then have "unat nn > 0" by (simp add: unat_gt_0)
  then show "((drop_bit 1 nn, result + 1), nn, result) \<in> measure (\<lambda>(nn, _). unat nn)"
    unfolding in_measure split unat_half by simp
qed simp

declare bitsForMax_loop.simps [simp del]

definition bitsForMax :: "u32 \<Rightarrow> nat option" where
  "bitsForMax nn = do {
     xp_assert (nn > 0);
     Some (bitsForMax_loop nn 0)
   }"

definition tilesToStream :: "mem_stream \<Rightarrow> tile list \<Rightarrow> mem_stream option" where
  "tilesToStream stream tiles = ofold (\<lambda>s t. mem_stream_putBits s TILE_NBITS (ucast t)) stream tiles"

definition traySetToStream :: "mem_stream \<Rightarrow> trayTileSet \<Rightarrow> mem_stream option" where
  "traySetToStream stream ts = do {
     stream \<leftarrow> mem_stream_putBits stream NTILES_NBITS (of_nat (length ts));
     tilesToStream stream ts
   }"

definition tilesFromStream :: "mem_stream \<Rightarrow> nat \<Rightarrow> (tile list \<times> mem_stream) option" where
  "tilesFromStream stream nTiles =
     getN nTiles (\<lambda>s. do { (t, s) \<leftarrow> mem_stream_getBits s TILE_NBITS; Some (ucast t, s) }) stream"

definition traySetFromStream :: "mem_stream \<Rightarrow> (trayTileSet \<times> mem_stream) option" where
  "traySetFromStream stream = do {
     (nTiles, stream) \<leftarrow> mem_stream_getBits stream NTILES_NBITS;
     tilesFromStream stream (unat nTiles)
   }"

text \<open>The largest score, and at least 1 since 0 will confuse \<open>bitsForMax\<close>.\<close>

definition maxScore :: "u16 list \<Rightarrow> u16" where
  "maxScore scores = foldl (\<lambda>m score. if score > m then score else m) 1 scores"

definition scoresToStream :: "mem_stream \<Rightarrow> u16 list \<Rightarrow> mem_stream option" where
  "scoresToStream stream scores =
     (if 0 < length scores then do {
        bits \<leftarrow> bitsForMax (ucast (maxScore scores));
        stream \<leftarrow> mem_stream_putBits stream 4 (of_nat bits);
        ofold (\<lambda>s score. mem_stream_putBits s bits (ucast score)) stream scores
      } else Some stream)"

definition scoresFromStream :: "mem_stream \<Rightarrow> nat \<Rightarrow> (u16 list \<times> mem_stream) option" where
  "scoresFromStream stream nScores =
     (if 0 < nScores then do {
        (bits, stream) \<leftarrow> mem_stream_getBits stream 4;
        getN nScores (\<lambda>s. do { (w, s) \<leftarrow> mem_stream_getBits s (unat bits); Some (ucast w, s) }) stream
      } else Some ([], stream))"

section \<open>Moves\<close>

definition assertSorted :: "moveInfo \<Rightarrow> unit option" where
  "assertSorted mi =
     xp_assert (\<forall>ii \<in> {1..<length (mtiles mi)}.
                  varCoord (mtiles mi ! (ii - 1)) < varCoord (mtiles mi ! ii))"

definition moveTileToStream :: "nat \<Rightarrow> mem_stream \<Rightarrow> moveInfoTile \<Rightarrow> mem_stream option" where
  "moveTileToStream bitsPerTile stream t = do {
     stream \<leftarrow> mem_stream_putBits stream NUMCOLS_NBITS_5 (of_nat (varCoord t));
     stream \<leftarrow> mem_stream_putBits stream bitsPerTile (ucast (mtile t AND TILE_VALUE_MASK));
     mem_stream_putBits stream 1 (of_bool (mtile t AND TILE_BLANK_BIT \<noteq> 0))
   }"

definition moveInfoToStream :: "mem_stream \<Rightarrow> moveInfo \<Rightarrow> nat \<Rightarrow> mem_stream option" where
  "moveInfoToStream stream mi bitsPerTile = do {
     assertSorted mi;
     stream \<leftarrow> mem_stream_putBits stream NTILES_NBITS (of_nat (length (mtiles mi)));
     stream \<leftarrow> mem_stream_putBits stream NUMCOLS_NBITS_5 (of_nat (commonCoord mi));
     stream \<leftarrow> mem_stream_putBits stream 1 (of_bool (isHorizontal mi));
     xp_assert (bitsPerTile = 5 \<or> bitsPerTile = 6);
     ofold (moveTileToStream bitsPerTile) stream (mtiles mi)
   }"

definition moveTileFromStream :: "nat \<Rightarrow> mem_stream \<Rightarrow> (moveInfoTile \<times> mem_stream) option" where
  "moveTileFromStream bitsPerTile stream = do {
     (vc, stream) \<leftarrow> mem_stream_getBits stream NUMCOLS_NBITS_5;
     (t, stream) \<leftarrow> mem_stream_getBits stream bitsPerTile;
     (b, stream) \<leftarrow> mem_stream_getBits stream 1;
     let t = (ucast t :: tile);
     let t = (if 0 \<noteq> b then t OR TILE_BLANK_BIT else t);
     Some (\<lparr>varCoord = unat vc, mtile = t\<rparr>, stream)
   }"

definition moveInfoFromStream :: "mem_stream \<Rightarrow> nat \<Rightarrow> (moveInfo \<times> mem_stream) option" where
  "moveInfoFromStream stream bitsPerTile = do {
     (nTiles, stream) \<leftarrow> mem_stream_getBits stream NTILES_NBITS;
     xp_assert (unat nTiles \<le> MAX_TRAY_TILES);
     (cc, stream) \<leftarrow> mem_stream_getBits stream NUMCOLS_NBITS_5;
     (h, stream) \<leftarrow> mem_stream_getBits stream 1;
     (ts, stream) \<leftarrow> getN (unat nTiles) (moveTileFromStream bitsPerTile) stream;
     let mi = \<lparr>commonCoord = unat cc, isHorizontal = (h \<noteq> 0), mtiles = ts\<rparr>;
     assertSorted mi;
     Some (mi, stream)
   }"

section \<open>Tray tiles\<close>

text \<open>The loop that closes the gap; with no tile the count would wrap.\<close>

definition removeTile :: "trayTileSet \<Rightarrow> nat \<Rightarrow> trayTileSet option" where
  "removeTile tiles index =
     (case length tiles of
        0 \<Rightarrow> None
      | Suc nTiles \<Rightarrow>
          Some (take nTiles (foldl (\<lambda>ts ii. ts[ii := ts ! (ii + 1)]) tiles [index..<nTiles])))"

definition smallest_from :: "trayTileSet \<Rightarrow> nat \<Rightarrow> nat" where
  "smallest_from tmp skip =
     foldl (\<lambda>smallest ii. if tmp ! ii < tmp ! smallest then ii else smallest) skip [skip..<length tmp]"

lemma removeTile_length:
  "removeTile ts i = Some ts' \<Longrightarrow> length ts = Suc (length ts')"
proof -
  have "length (foldl (\<lambda>ts ii. ts[ii := ts ! (ii + 1)]) ts is) = length ts" for ts :: trayTileSet and "is"
    by (induction "is" arbitrary: ts) auto
  then show "removeTile ts i = Some ts' \<Longrightarrow> length ts = Suc (length ts')"
    by (auto simp: removeTile_def split: nat.splits)
qed

function sortTiles_loop :: "trayTileSet \<Rightarrow> trayTileSet \<Rightarrow> nat \<Rightarrow> trayTileSet option" where
  "sortTiles_loop dest tmp skip =
     (if skip < length tmp then do {
        let smallest = smallest_from tmp skip;
        t \<leftarrow> mem_get smallest tmp;
        tmp \<leftarrow> removeTile tmp smallest;
        sortTiles_loop (dest @ [t]) tmp skip
      } else Some dest)"
  by pat_completeness auto
termination
  by (relation "measure (\<lambda>(dest, tmp, skip). length tmp)") (auto dest: removeTile_length)

declare sortTiles_loop.simps [simp del]

definition sortTiles :: "trayTileSet \<Rightarrow> nat \<Rightarrow> trayTileSet option" where
  "sortTiles src skip = do {
     xp_assert (length src \<ge> skip);
     sortTiles_loop (take skip src) src skip
   }"

section \<open>Strings\<close>

definition stringFromStreamHere :: "mem_stream \<Rightarrow> nat \<Rightarrow> (u8 list \<times> mem_stream) option" where
  "stringFromStreamHere stream buflen = do {
     (len, stream) \<leftarrow> mem_stream_getU8 stream;
     if len > 0 then do {
       xp_assert (unat len < buflen);
       mem_stream_getBytes stream (unat len)
     } else Some ([], stream)
   }"

definition p_stringFromStream :: "mem_stream \<Rightarrow> (cstring \<times> mem_stream) option" where
  "p_stringFromStream stream = do {
     (buf, stream) \<leftarrow> stringFromStreamHere stream 255;
     Some (if length buf > 0 then Some buf else None, stream)
   }"

definition stringToStream :: "mem_stream \<Rightarrow> cstring \<Rightarrow> mem_stream option" where
  "stringToStream stream str = do {
     let len = (case str of None \<Rightarrow> 0 | Some bs \<Rightarrow> length bs);
     let len = (if len > 255 then 255 else len);
     stream \<leftarrow> mem_stream_putU8 stream (of_nat len);
     mem_stream_putBytes stream (case str of None \<Rightarrow> [] | Some bs \<Rightarrow> take len bs)
   }"

definition p_copyString :: "cstring \<Rightarrow> cstring" where
  "p_copyString instr = (case instr of None \<Rightarrow> None | Some bs \<Rightarrow> Some bs)"

definition p_replaceStringIfDifferent :: "cstring \<Rightarrow> cstring \<Rightarrow> cstring" where
  "p_replaceStringIfDifferent curLoc newStr =
     (if newStr \<noteq> None \<and> curLoc \<noteq> None \<and> curLoc = newStr then curLoc else p_copyString newStr)"

definition emptyStringIfNull :: "cstring \<Rightarrow> u8 list" where
  "emptyStringIfNull str = (case str of None \<Rightarrow> [] | Some bs \<Rightarrow> bs)"

text \<open>Reads that fail instead of running off the end: the first component is the success
  flag with the value.\<close>

definition stream_gotU8 :: "mem_stream \<Rightarrow> (u8 option \<times> mem_stream) option" where
  "stream_gotU8 stream =
     (if 1 \<le> mem_stream_getSize stream
      then do { (x, stream) \<leftarrow> mem_stream_getU8 stream; Some (Some x, stream) }
      else Some (None, stream))"

definition stream_gotU16 :: "mem_stream \<Rightarrow> (u16 option \<times> mem_stream) option" where
  "stream_gotU16 stream =
     (if 2 \<le> mem_stream_getSize stream
      then do { (x, stream) \<leftarrow> mem_stream_getU16 stream; Some (Some x, stream) }
      else Some (None, stream))"

definition stream_gotU32 :: "mem_stream \<Rightarrow> (u32 option \<times> mem_stream) option" where
  "stream_gotU32 stream =
     (if 4 \<le> mem_stream_getSize stream
      then do { (x, stream) \<leftarrow> mem_stream_getU32 stream; Some (Some x, stream) }
      else Some (None, stream))"

definition stream_gotBytes :: "mem_stream \<Rightarrow> nat \<Rightarrow> (u8 list option \<times> mem_stream) option" where
  "stream_gotBytes stream len =
     (if len \<le> mem_stream_getSize stream
      then do { (x, stream) \<leftarrow> mem_stream_getBytes stream len; Some (Some x, stream) }
      else Some (None, stream))"

section \<open>Shuffling\<close>

text \<open>\<open>rnd k\<close> is the answer to the \<open>k\<close>-th call of \<open>XP_RANDOM\<close>.\<close>

fun randIntArray_loop :: "(nat \<Rightarrow> nat) \<Rightarrow> nat \<Rightarrow> nat \<Rightarrow> nat list \<Rightarrow> bool \<Rightarrow> nat list \<times> bool" where
  "randIntArray_loop rnd k 0 rnums changed = (rnums, changed)"
| "randIntArray_loop rnd k (Suc ii) rnums changed =
     (let rIndex = trunc16 (rnd k) mod (Suc ii)
      in if ii \<noteq> rIndex
         then let tmp = rnums ! rIndex;
                  rnums = rnums[rIndex := rnums ! ii];
                  rnums = rnums[ii := tmp]
              in randIntArray_loop rnd (k + 1) ii rnums True
         else randIntArray_loop rnd (k + 1) ii rnums changed)"

definition randIntArray :: "(nat \<Rightarrow> nat) \<Rightarrow> nat \<Rightarrow> nat list \<times> bool" where
  "randIntArray rnd cnt = randIntArray_loop rnd 0 cnt [0..<cnt] False"

section \<open>Base 64\<close>

definition SMSTable :: "u8 list" where
  "SMSTable = map word_of_nat ([65..<91] @ [97..<123] @ [48..<58] @ [43, 47])"

definition PADCHAR :: u8 where "PADCHAR = 61"

definition bitsToChars :: "u8 list \<Rightarrow> u8 list" where
  "bitsToChars bytesIn =
     (let nValidSextets = ((length bytesIn * 8) + 5) div 6;
          l = bytesIn @ replicate (4 - length bytesIn) 0;
          bits = [drop_bit 2 (l ! 0),
                  (push_bit 4 (l ! 0) AND 0x30) OR drop_bit 4 (l ! 1),
                  (push_bit 2 (l ! 1) AND 0x3C) OR drop_bit 6 (l ! 2),
                  l ! 2 AND 0x3F]
      in map (\<lambda>ii. if ii < nValidSextets then SMSTable ! unat (bits ! ii) else PADCHAR) [0..<4])"

text \<open>\<open>outmax\<close> is the size of the output buffer.\<close>

function binToSms_loop :: "nat \<Rightarrow> u8 list \<Rightarrow> nat \<Rightarrow> u8 list \<Rightarrow> u8 list option" where
  "binToSms_loop outmax inp inConsumed out = do {
     let validBytes = min 3 (length inp - inConsumed);
     let out = out @ bitsToChars (take validBytes (drop inConsumed inp));
     xp_assert (length out \<le> outmax);
     let inConsumed = inConsumed + 3;
     if inConsumed \<ge> length inp then Some out
     else binToSms_loop outmax inp inConsumed out
   }"
  by pat_completeness auto
termination
  by (relation "measure (\<lambda>(m, inp, n, out). length inp - n)") auto

declare binToSms_loop.simps [simp del]

definition binToSms :: "nat \<Rightarrow> u8 list \<Rightarrow> u8 list option" where
  "binToSms outmax inp = do {
     out \<leftarrow> binToSms_loop outmax inp 0 [];
     xp_assert (length out < outmax);
     xp_assert (length out \<ge> length inp);
     Some out
   }"

definition findRank :: "u8 \<Rightarrow> u8 option" where
  "findRank ch =
     (if ch = PADCHAR then Some 0
      else do {
        let rank = length (takeWhile (\<lambda>c. c \<noteq> ch) SMSTable);
        xp_assert (rank < 64);
        Some (of_nat rank)
      })"

text \<open>The state of the decoding loop: the output, \<open>vv\<close>, \<open>ii\<close> and the last two characters.\<close>

definition smsToBin_step ::
    "nat \<Rightarrow> u8 list \<times> u32 \<times> nat \<times> u8 \<times> u8 \<Rightarrow> u8 \<Rightarrow> (u8 list \<times> u32 \<times> nat \<times> u8 \<times> u8) option" where
  "smsToBin_step outmax st ch = (case st of (out, vv, ii, last0, last1) \<Rightarrow> do {
     rank \<leftarrow> findRank ch;
     let last1 = last0;
     let last0 = ch;
     let vv = push_bit 6 vv OR ucast rank;
     if ii + 1 = 4 then do {
       let out = out @ [ucast (drop_bit 16 vv)];
       let out = (if last1 \<noteq> PADCHAR then out @ [ucast (drop_bit 8 vv)] else out);
       let out = (if last0 \<noteq> PADCHAR then out @ [ucast vv] else out);
       xp_assert (length out \<le> outmax);
       Some (out, vv, 0, last0, last1)
     } else Some (out, vv, ii + 1, last0, last1)
   })"

definition smsToBin :: "nat \<Rightarrow> u8 list \<Rightarrow> u8 list option" where
  "smsToBin outmax sms = do {
     (out, _) \<leftarrow> ofold (smsToBin_step outmax) ([], 0, 0, 0, 0) sms;
     Some out
   }"

section \<open>Bits needed for a number\<close>

lemma bitsForMax_loop_bounds:
  "bitsForMax_loop nn r \<ge> r \<and> unat nn < 2 ^ (bitsForMax_loop nn r - r) \<and>
   (nn \<noteq> 0 \<longrightarrow> 2 ^ (bitsForMax_loop nn r - r) \<le> 2 * unat nn)"
proof (induction nn r rule: bitsForMax_loop.induct)
  case (1 nn r)
  show ?case
  proof (cases "nn = 0")
    case True
    then show ?thesis by (simp add: bitsForMax_loop.simps)
  next
    case False
    define m where "m = bitsForMax_loop (drop_bit 1 nn) (r + 1)"
    have m: "bitsForMax_loop nn r = m" using False by (subst bitsForMax_loop.simps) (simp add: m_def)
    have half: "unat (drop_bit 1 nn) = unat nn div 2"
      by (rule unat_half)
    note I = 1[OF False, folded m_def, unfolded half]
    have p: "2 ^ (m - r) = (2 :: nat) * 2 ^ (m - (r + 1))"
      using I by (metis Suc_diff_le add.commute diff_Suc_Suc plus_1_eq_Suc power_Suc Suc_leD)
    have pos: "0 < unat nn" using False by (simp add: unat_gt_0)
    have "drop_bit 1 nn = 0 \<Longrightarrow> m = r + 1" by (simp add: m_def bitsForMax_loop.simps)
    then have up: "2 * 2 ^ (m - (r + 1)) \<le> 2 * unat nn"
      using I pos by (cases "drop_bit 1 nn = 0") auto
    show ?thesis unfolding m p using I up by auto
  qed
qed

lemma bitsForMax_spec:
  assumes "0 < (nn :: u32)"
  shows "\<exists>b. bitsForMax nn = Some b \<and> unat nn < 2 ^ b \<and> 2 ^ b \<le> 2 * unat nn \<and> 0 < b"
proof -
  define b where "b = bitsForMax_loop nn 0"
  have "0 < unat nn" "nn \<noteq> 0" using assms by (auto simp: word_less_nat_alt)
  moreover note bitsForMax_loop_bounds[of 0 nn, folded b_def]
  ultimately have "unat nn < 2 ^ b" "2 ^ b \<le> 2 * unat nn" "0 < b" by (auto intro: gr0I)
  then show ?thesis using assms by (auto simp: bitsForMax_def b_def)
qed

lemma foldl_max_ge: "(m :: u16) \<le> foldl (\<lambda>m x. if x > m then x else m) m xs"
  by (induction xs arbitrary: m) (auto intro: order_trans less_imp_le)

lemma foldl_max_upper:
  "x \<in> set xs \<Longrightarrow> (x :: u16) \<le> foldl (\<lambda>m x. if x > m then x else m) m xs"
proof (induction xs arbitrary: m)
  case (Cons y ys)
  show ?case
  proof (cases "x = y")
    case True
    then show ?thesis using foldl_max_ge[of "if y > m then y else m" ys] by (auto split: if_splits)
  qed (use Cons in auto)
qed simp

lemma foldl_max_in: "foldl (\<lambda>m x. if x > m then x else m) (m :: u16) xs \<in> insert m (set xs)"
  by (induction xs arbitrary: m) fastforce+

lemma maxScore_upper: "x \<in> set scores \<Longrightarrow> x \<le> maxScore scores"
  by (simp add: maxScore_def foldl_max_upper)

lemma maxScore_pos: "0 < maxScore scores"
  using foldl_max_ge[of 1 scores] by (simp add: maxScore_def word_le_nat_alt word_less_nat_alt)

lemma maxScore_less: "(\<And>x. x \<in> set scores \<Longrightarrow> unat x < n) \<Longrightarrow> 1 < n \<Longrightarrow> unat (maxScore scores) < n"
  using foldl_max_in[of 1 scores] by (auto simp: maxScore_def)

section \<open>Round trips\<close>

lemma ofold_map: "ofold f s (map g xs) = ofold (\<lambda>s x. f s (g x)) s xs"
  by (induction xs arbitrary: s) (auto split: option.splits)

lemma getN_map:
  "getN n (\<lambda>s. do { (x, s) \<leftarrow> get s; Some (f x, s) }) r =
     do { (xs, s) \<leftarrow> getN n get r; Some (map f xs, s) }"
  by (induction n arbitrary: r) (auto split: Option.bind_splits prod.splits)

lemma stream_codec_map_list:
  assumes A: "stream_codec putA getA okA costA" and ok: "\<And>x. ok x \<Longrightarrow> okA (f x) \<and> g (f x) = x"
  shows "stream_codec (ofold (\<lambda>s x. putA s (f x)))
           (getN n (\<lambda>s. do { (x, s) \<leftarrow> getA s; Some (g x, s) }))
           (\<lambda>xs. length xs = n \<and> list_all ok xs) (\<lambda>xs. sum_list (map (\<lambda>x. costA (f x)) xs))"
proof -
  have "stream_codec (\<lambda>s x. putA s (f x)) (\<lambda>s. do { (x, s) \<leftarrow> getA s; Some (g x, s) }) ok
          (\<lambda>x. costA (f x))"
    by (rule stream_codec_map[OF A, where f = f and g = g])
      (use ok in \<open>auto split: Option.bind_splits simp: map_option_case\<close>)
  then show ?thesis by (rule stream_codec_list)
qed

lemma ucast_u8_u32: "unat (ucast (t :: u8) :: u32) = unat t"
  using unsigned_less[of t, where 'a = nat] by (simp add: unsigned_ucast_eq take_bit_nat_eq_self)

lemma ucast_u16_u32: "unat (ucast (t :: u16) :: u32) = unat t"
  using unsigned_less[of t, where 'a = nat] by (simp add: unsigned_ucast_eq take_bit_nat_eq_self)

lemma ucast_u8_u32_back [simp]: "ucast (ucast (t :: u8) :: u32) = t"
  by (rule bit_word_eqI) (simp add: bit_simps)

lemma ucast_u16_u32_back [simp]: "ucast (ucast (t :: u16) :: u32) = t"
  by (rule bit_word_eqI) (simp add: bit_simps)

interpretation tiles: stream_codec tilesToStream "\<lambda>s. tilesFromStream s n"
    "\<lambda>ts. length ts = n \<and> list_all (\<lambda>t. t < 64) ts" length for n
proof -
  have "stream_codec (ofold (\<lambda>s x. mem_stream_putBits s TILE_NBITS (ucast x)))
           (getN n (\<lambda>s. do { (x, s) \<leftarrow> mem_stream_getBits s TILE_NBITS; Some (ucast x, s) }))
           (\<lambda>xs. length xs = n \<and> list_all (\<lambda>t :: tile. t < 64) xs)
           (\<lambda>xs. sum_list (map (\<lambda>x. (TILE_NBITS + 7) div 8) xs))"
    by (rule stream_codec_map_list[OF bits.stream_codec_axioms])
      (auto simp: TILE_NBITS_def ucast_u8_u32 word_less_nat_alt)
  then show "stream_codec tilesToStream (\<lambda>s. tilesFromStream s n)
    (\<lambda>ts. length ts = n \<and> list_all (\<lambda>t. t < 64) ts) length"
    by (simp add: tilesToStream_def[abs_def] tilesFromStream_def TILE_NBITS_def sum_list_triv)
qed

text \<open>A \<open>TrayTileSet\<close> that can be stored: at most seven tiles, each fitting its six bits.\<close>

definition tray_ok :: "trayTileSet \<Rightarrow> bool" where
  "tray_ok ts \<longleftrightarrow> length ts \<le> MAX_TRAY_TILES \<and> list_all (\<lambda>t. t < 64) ts"

lemma unat_of_nat_u32: "n < 4294967296 \<Longrightarrow> unat (of_nat n :: u32) = n"
  by (simp add: unsigned_of_nat take_bit_nat_eq_self)

interpretation trayset: stream_codec traySetToStream traySetFromStream tray_ok "\<lambda>ts. 1 + length ts"
proof -
  have P: "stream_codec
      (\<lambda>s (a, b). do { s \<leftarrow> mem_stream_putBits s NTILES_NBITS a; tilesToStream s b })
      (\<lambda>r. do { (a, r) \<leftarrow> mem_stream_getBits r NTILES_NBITS; (b, r) \<leftarrow> tilesFromStream r (unat a);
                Some ((a, b), r) })
      (\<lambda>(a, b). (0 < NTILES_NBITS \<and> NTILES_NBITS \<le> 32 \<and> unat a < 2 ^ NTILES_NBITS) \<and>
                length b = unat a \<and> list_all (\<lambda>t. t < 64) b)
      (\<lambda>(a, b). (NTILES_NBITS + 7) div 8 + length b)"
    by (rule stream_codec_pair[OF bits.stream_codec_axioms tiles.stream_codec_axioms
          tiles.put_extends])
  show "stream_codec traySetToStream traySetFromStream tray_ok (\<lambda>ts. 1 + length ts)"
    by (rule stream_codec_map[OF P, where f = "\<lambda>ts. (of_nat (length ts), ts)" and g = snd])
      (auto simp: traySetToStream_def traySetFromStream_def tray_ok_def xw_consts unat_of_nat_u32
        split: Option.bind_splits)
qed

text \<open>Scores fit when their width fits the four bits it is written in.\<close>

definition scores_ok :: "nat \<Rightarrow> u16 list \<Rightarrow> bool" where
  "scores_ok n scores \<longleftrightarrow> length scores = n \<and> list_all (\<lambda>x. unat x < 32768) scores"

lemma scores_list_codec:
  "stream_codec (ofold (\<lambda>s score. mem_stream_putBits s b (ucast score)))
     (getN n (\<lambda>s. do { (w, s) \<leftarrow> mem_stream_getBits s b; Some (ucast w :: u16, s) }))
     (\<lambda>xs. length xs = n \<and> list_all (\<lambda>x :: u16. 0 < b \<and> b \<le> 32 \<and> unat x < 2 ^ b) xs)
     (\<lambda>xs. sum_list (map (\<lambda>x. (b + 7) div 8) xs))"
  by (rule stream_codec_map_list[OF bits.stream_codec_axioms]) (simp add: ucast_u16_u32)

definition bits_for_scores :: "u16 list \<Rightarrow> nat" where
  "bits_for_scores scores = bitsForMax_loop (ucast (maxScore scores)) 0"

lemma bits_for_scores:
  shows "bitsForMax (ucast (maxScore scores)) = Some (bits_for_scores scores)"
    and "x \<in> set scores \<Longrightarrow> unat x < 2 ^ bits_for_scores scores"
    and "0 < bits_for_scores scores"
    and "bits_for_scores scores < 32"
    and "list_all (\<lambda>x. unat x < 32768) scores \<Longrightarrow> bits_for_scores scores < 16"
proof -
  have "0 < (ucast (maxScore scores) :: u32)"
    using maxScore_pos[of scores] by (simp add: word_less_nat_alt ucast_u16_u32)
  from bitsForMax_spec[OF this] obtain b where
    b: "bitsForMax (ucast (maxScore scores)) = Some b" "unat (maxScore scores) < 2 ^ b"
      "2 ^ b \<le> 2 * unat (maxScore scores)" "0 < b"
    by (auto simp: ucast_u16_u32)
  have bb: "bits_for_scores scores = b"
    using b(1) by (simp add: bitsForMax_def bits_for_scores_def)
  show "bitsForMax (ucast (maxScore scores)) = Some (bits_for_scores scores)"
    "0 < bits_for_scores scores"
    using b bb by auto
  show "unat x < 2 ^ bits_for_scores scores" if "x \<in> set scores"
    using maxScore_upper[OF that] b(2) by (simp add: bb word_le_nat_alt)
  show "bits_for_scores scores < 32"
  proof -
    have "unat (maxScore scores) < 65536" using unsigned_less[of "maxScore scores", where 'a = nat] by simp
    with b(3) have "(2 :: nat) ^ b < 2 ^ 32" by simp
    then show ?thesis unfolding bb by (rule power_less_imp_less_exp[rotated]) simp
  qed
  show "bits_for_scores scores < 16" if "list_all (\<lambda>x. unat x < 32768) scores"
  proof -
    have "unat (maxScore scores) < 32768"
      using that by (intro maxScore_less) (auto simp: list_all_iff)
    with b(3) have "(2 :: nat) ^ b < 2 ^ 16" by simp
    then show ?thesis unfolding bb by (rule power_less_imp_less_exp[rotated]) simp
  qed
qed


lemma scores_pair_codec:
  "stream_codec
      (\<lambda>s (a, b). do { s \<leftarrow> mem_stream_putBits s 4 a;
          ofold (\<lambda>s score. mem_stream_putBits s (unat a) (ucast score)) s b })
      (\<lambda>r. do { (a, r) \<leftarrow> mem_stream_getBits r 4;
          (b, r) \<leftarrow> getN n (\<lambda>s. do { (w, s) \<leftarrow> mem_stream_getBits s (unat a); Some (ucast w :: u16, s) }) r;
          Some ((a, b), r) })
      (\<lambda>(a, b). (0 < (4 :: nat) \<and> (4 :: nat) \<le> 32 \<and> unat a < 2 ^ 4) \<and>
          length b = n \<and> list_all (\<lambda>x. 0 < unat a \<and> unat a \<le> 32 \<and> unat x < 2 ^ unat a) b)
      (\<lambda>(a, b). (4 + 7) div 8 + sum_list (map (\<lambda>x. (unat a + 7) div 8) b))"
  by (rule stream_codec_pair[OF bits.stream_codec_axioms scores_list_codec
        ofold_extends[OF bits.put_extends]])

lemma scoresToStream_pair:
  assumes "scores \<noteq> []"
  shows "scoresToStream s scores =
    (case (of_nat (bits_for_scores scores), scores) of (a, b) \<Rightarrow> do {
       s \<leftarrow> mem_stream_putBits s 4 a;
       ofold (\<lambda>s score. mem_stream_putBits s (unat a) (ucast score)) s b })"
  using assms bits_for_scores(1,4)[of scores] by (simp add: scoresToStream_def unat_of_nat_u32)

lemma scores_pair_ok:
  assumes "scores_ok n x"
  shows "(case (of_nat (bits_for_scores x) :: u32, x) of (a, b) \<Rightarrow>
     (0 < (4 :: nat) \<and> (4 :: nat) \<le> 32 \<and> unat a < 2 ^ 4) \<and>
     length b = n \<and> list_all (\<lambda>x. 0 < unat a \<and> unat a \<le> 32 \<and> unat x < 2 ^ unat a) b)"
  using assms bits_for_scores(2-5)[where scores = x]
  by (auto simp: scores_ok_def unat_of_nat_u32 list_all_iff)

lemma scores_pair_cost:
  assumes "scores_ok n x"
  shows "(case (of_nat (bits_for_scores x) :: u32, x) of (a, b) \<Rightarrow>
     (4 + 7) div 8 + sum_list (map (\<lambda>x. (unat a + 7) div 8) b)) \<le> 1 + 2 * length x"
proof -
  have b: "bits_for_scores x < 16"
    using assms bits_for_scores(5) by (simp add: scores_ok_def)
  have "(bits_for_scores x + 7) div 8 \<le> 2" using b by simp
  then have "length x * ((bits_for_scores x + 7) div 8) \<le> 2 * length x"
    by (metis mult.commute mult_le_mono2)
  then show ?thesis using b by (simp add: unat_of_nat_u32 sum_list_triv)
qed

interpretation scores: stream_codec scoresToStream "\<lambda>s. scoresFromStream s n" "scores_ok n"
    "\<lambda>xs. 1 + 2 * length xs" for n
proof (unfold_locales, goal_cases)
  case (1 s x s')
  show ?case
  proof (cases "x = []")
    case True
    then show ?thesis using 1 by (simp add: scoresToStream_def)
  next
    case False
    show ?thesis
      by (rule stream_codec.put_extends[OF scores_pair_codec 1(1) 1(2)[unfolded scoresToStream_pair[OF False]]])
  qed
next
  case (2 s x)
  note c = scores_pair_cost[OF 2(2)]
  show ?case
  proof (cases "x = []")
    case False
    from stream_codec.put_total[OF scores_pair_codec 2(1) scores_pair_ok[OF 2(2)]] 2(3) c
    show ?thesis unfolding scoresToStream_pair[OF False]
      by (meson add_le_mono1 add_left_mono order_trans)
  qed (use 2 in \<open>simp add: scoresToStream_def\<close>)
next
  case (3 s x s' r)
  have n: "length x = n" using 3(2) by (simp add: scores_ok_def)
  show ?case
  proof (cases "x = []")
    case False
    have "scoresFromStream r n = map_option (map_prod snd id)
        (do { (a, r) \<leftarrow> mem_stream_getBits r 4;
          (b, r) \<leftarrow> getN n (\<lambda>s. do { (w, s) \<leftarrow> mem_stream_getBits s (unat a); Some (ucast w :: u16, s) }) r;
          Some ((a, b), r) })"
      using n False by (auto simp: scoresFromStream_def split: Option.bind_splits)
    also have "\<dots> = Some (x, set_rpos (wpos s') r)"
      by (simp only: stream_codec.get_put[OF scores_pair_codec 3(1) scores_pair_ok[OF 3(2)]
          3(3)[unfolded scoresToStream_pair[OF False]] 3(4-7)]) simp
    finally show ?thesis .
  next
    case True
    with 3 n show ?thesis
      by (auto simp: scoresToStream_def scoresFromStream_def dest: set_rpos_rpos)
  qed
qed

text \<open>A move that can be stored: at most seven tiles in increasing order, coordinates of five
  bits, and tiles that are a value of \<open>bpt\<close> bits with or without the blank bit.\<close>

definition moveTile_ok :: "nat \<Rightarrow> moveInfoTile \<Rightarrow> bool" where
  "moveTile_ok bpt t \<longleftrightarrow>
     varCoord t < 32 \<and> mtile t < 128 \<and> unat (mtile t AND TILE_VALUE_MASK) < 2 ^ bpt"

definition moveInfo_ok :: "nat \<Rightarrow> moveInfo \<Rightarrow> bool" where
  "moveInfo_ok bpt mi \<longleftrightarrow>
     (bpt = 5 \<or> bpt = 6) \<and> length (mtiles mi) \<le> MAX_TRAY_TILES \<and> commonCoord mi < 32 \<and>
     assertSorted mi = Some () \<and> list_all (moveTile_ok bpt) (mtiles mi)"

lemma bit_TILE_VALUE_MASK: "bit TILE_VALUE_MASK k \<longleftrightarrow> k < 6"
proof -
  have m: "TILE_VALUE_MASK = mask 6" by (simp add: TILE_VALUE_MASK_def mask_eq_exp_minus_1)
  show ?thesis unfolding m bit_mask_iff by auto
qed

lemma TILE_BLANK_BIT_push: "TILE_BLANK_BIT = push_bit 6 1"
  by (simp add: TILE_BLANK_BIT_def)

lemma bit_TILE_BLANK_BIT: "bit TILE_BLANK_BIT k \<longleftrightarrow> k = 6"
  by (simp only: TILE_BLANK_BIT_push bit_push_bit_iff) (auto simp: bit_1_iff)

lemma is_blank_bit: "(t :: tile) AND TILE_BLANK_BIT \<noteq> 0 \<longleftrightarrow> bit t 6"
  unfolding TILE_BLANK_BIT_push by (rule and_mask_nonzero) simp

lemma small_tile_bit: "(t :: tile) < 128 \<Longrightarrow> \<not> bit t 7"
proof -
  assume "t < 128"
  then have "unat t div 128 = 0" by (simp add: word_less_nat_alt)
  then show ?thesis using bit_unsigned_iff[of t 7, where 'a = nat] by (simp add: bit_nat_def)
qed

lemma tile_split:
  assumes "(t :: tile) < 128"
  shows "bit t 6 \<Longrightarrow> (t AND TILE_VALUE_MASK) OR TILE_BLANK_BIT = t"
    and "\<not> bit t 6 \<Longrightarrow> t AND TILE_VALUE_MASK = t"
proof -
  have "k < 6 \<or> k = 6 \<or> k = 7" if "k < 8" for k :: nat using that by linarith
  then show "bit t 6 \<Longrightarrow> (t AND TILE_VALUE_MASK) OR TILE_BLANK_BIT = t"
    "\<not> bit t 6 \<Longrightarrow> t AND TILE_VALUE_MASK = t"
    using small_tile_bit[OF assms]
    by (auto simp: u8_eq_iff bit_simps bit_TILE_VALUE_MASK bit_TILE_BLANK_BIT)
qed

lemma bool_codec:
  "stream_codec (\<lambda>s b. mem_stream_putBits s 1 (of_bool b))
     (\<lambda>r. do { (h, r) \<leftarrow> mem_stream_getBits r 1; Some (h \<noteq> 0, r) }) (\<lambda>b. True) (\<lambda>b. 1)"
  by (rule stream_codec_map[OF bits.stream_codec_axioms, where f = of_bool and g = "\<lambda>h. h \<noteq> 0"])
    (auto split: Option.bind_splits)

lemma nat_codec:
  assumes "0 < n" and "n < 32"
  shows "stream_codec (\<lambda>s b. mem_stream_putBits s n (of_nat b))
     (\<lambda>r. do { (h, r) \<leftarrow> mem_stream_getBits r n; Some (unat h, r) }) (\<lambda>b. b < 2 ^ n)
     (\<lambda>b. (n + 7) div 8)"
proof (rule stream_codec_map[OF bits.stream_codec_axioms, where f = of_nat and g = unat])
  fix b :: nat assume b: "b < 2 ^ n"
  have "(2 :: nat) ^ n < 2 ^ 32" using assms by (intro power_strict_increasing) auto
  with b have "b < 4294967296" by simp
  then show "(0 < n \<and> n \<le> 32 \<and> unat (of_nat b :: u32) < 2 ^ n) \<and> unat (of_nat b :: u32) = b"
    using assms b by (simp add: unat_of_nat_u32)
qed (auto split: Option.bind_splits)

lemma tile_codec:
  "stream_codec (\<lambda>s t. mem_stream_putBits s n (ucast t))
     (\<lambda>r. do { (h, r) \<leftarrow> mem_stream_getBits r n; Some (ucast h, r) })
     (\<lambda>t :: tile. 0 < n \<and> n \<le> 32 \<and> unat t < 2 ^ n) (\<lambda>b. (n + 7) div 8)"
  by (rule stream_codec_map[OF bits.stream_codec_axioms, where f = ucast and g = ucast])
    (auto split: Option.bind_splits simp: ucast_u8_u32)

lemma moveTile_codec:
  "stream_codec (moveTileToStream bpt) (moveTileFromStream bpt)
     (\<lambda>t. 0 < bpt \<and> bpt \<le> 32 \<and> moveTile_ok bpt t) (\<lambda>t. 1 + ((bpt + 7) div 8 + 1))"
proof -
  note B = stream_codec_pair[OF tile_codec[of bpt] bool_codec bool_codec[THEN stream_codec.put_extends]]
  have P: "stream_codec
     (\<lambda>s (a, b). do { s \<leftarrow> mem_stream_putBits s 5 (of_nat a);
        (case b of (t, b) \<Rightarrow> do { s \<leftarrow> mem_stream_putBits s bpt (ucast t);
           mem_stream_putBits s 1 (of_bool b) }) })
     (\<lambda>r. do { (a, r) \<leftarrow> do { (h, r) \<leftarrow> mem_stream_getBits r 5; Some (unat h, r) };
        (b, r) \<leftarrow> do { (t, r) \<leftarrow> do { (h, r) \<leftarrow> mem_stream_getBits r bpt; Some (ucast h :: tile, r) };
           (b, r) \<leftarrow> do { (h, r) \<leftarrow> mem_stream_getBits r 1; Some (h \<noteq> 0, r) };
           Some ((t, b), r) }; Some ((a, b), r) })
     (\<lambda>(a, b). a < 2 ^ 5 \<and> (case b of (t, b) \<Rightarrow> (0 < bpt \<and> bpt \<le> 32 \<and> unat t < 2 ^ bpt) \<and> True))
     (\<lambda>(a, b). (5 + 7) div 8 + (case b of (t, b) \<Rightarrow> (bpt + 7) div 8 + 1))"
    by (rule stream_codec_pair[OF nat_codec B B[THEN stream_codec.put_extends]]) auto
  show ?thesis
    by (rule stream_codec_map[OF P,
          where f = "\<lambda>t. (varCoord t, mtile t AND TILE_VALUE_MASK, bit (mtile t) 6)"
            and g = "\<lambda>(v, t, b). \<lparr>varCoord = v, mtile = (if b then t OR TILE_BLANK_BIT else t)\<rparr>"])
      (auto simp: moveTileToStream_def moveTileFromStream_def moveTile_ok_def is_blank_bit xw_consts
          tile_split Let_def split: Option.bind_splits)
qed

lemma assertSorted_mtiles [simp]:
  "assertSorted \<lparr>commonCoord = c, isHorizontal = h, mtiles = mtiles mi\<rparr> = assertSorted mi"
  by (simp add: assertSorted_def)

interpretation moveinfo: stream_codec "\<lambda>s mi. moveInfoToStream s mi bpt"
    "\<lambda>s. moveInfoFromStream s bpt" "moveInfo_ok bpt" "\<lambda>mi. 3 + 3 * length (mtiles mi)" for bpt
proof -
  have L: "stream_codec
     (\<lambda>s (h, ts). do { s \<leftarrow> mem_stream_putBits s 1 (of_bool h); ofold (moveTileToStream bpt) s ts })
     (\<lambda>r. do { (h, r) \<leftarrow> do { (h, r) \<leftarrow> mem_stream_getBits r 1; Some (h \<noteq> 0, r) };
            (ts, r) \<leftarrow> getN n (moveTileFromStream bpt) r; Some ((h, ts), r) })
     (\<lambda>(h, ts). True \<and> length ts = n \<and> list_all (\<lambda>t. 0 < bpt \<and> bpt \<le> 32 \<and> moveTile_ok bpt t) ts)
     (\<lambda>(h, ts). 1 + sum_list (map (\<lambda>t. 1 + ((bpt + 7) div 8 + 1)) ts))" for n
    by (rule stream_codec_pair[OF bool_codec stream_codec_list[OF moveTile_codec]
          ofold_extends[OF moveTile_codec[THEN stream_codec.put_extends]]])
  have C: "stream_codec
     (\<lambda>s (c, b). do { s \<leftarrow> mem_stream_putBits s 5 (of_nat c); (case b of (h, ts) \<Rightarrow> do {
        s \<leftarrow> mem_stream_putBits s 1 (of_bool h); ofold (moveTileToStream bpt) s ts }) })
     (\<lambda>r. do { (c, r) \<leftarrow> do { (h, r) \<leftarrow> mem_stream_getBits r 5; Some (unat h, r) };
          (b, r) \<leftarrow> do { (h, r) \<leftarrow> do { (h, r) \<leftarrow> mem_stream_getBits r 1; Some (h \<noteq> 0, r) };
            (ts, r) \<leftarrow> getN n (moveTileFromStream bpt) r; Some ((h, ts), r) };
          Some ((c, b), r) })
     (\<lambda>(c, b). c < 2 ^ 5 \<and> (case b of (h, ts) \<Rightarrow> True \<and> length ts = n \<and>
        list_all (\<lambda>t. 0 < bpt \<and> bpt \<le> 32 \<and> moveTile_ok bpt t) ts))
     (\<lambda>(c, b). (5 + 7) div 8 + (case b of (h, ts) \<Rightarrow>
        1 + sum_list (map (\<lambda>t. 1 + ((bpt + 7) div 8 + 1)) ts)))" for n
    by (rule stream_codec_pair[OF nat_codec L L[THEN stream_codec.put_extends]]) simp_all
  have P: "stream_codec
     (\<lambda>s (n, b). do { s \<leftarrow> mem_stream_putBits s 3 (of_nat n); (case b of (c, b) \<Rightarrow> do {
        s \<leftarrow> mem_stream_putBits s 5 (of_nat c); (case b of (h, ts) \<Rightarrow> do {
        s \<leftarrow> mem_stream_putBits s 1 (of_bool h); ofold (moveTileToStream bpt) s ts }) }) })
     (\<lambda>r. do { (n, r) \<leftarrow> do { (h, r) \<leftarrow> mem_stream_getBits r 3; Some (unat h, r) };
        (b, r) \<leftarrow> do { (c, r) \<leftarrow> do { (h, r) \<leftarrow> mem_stream_getBits r 5; Some (unat h, r) };
          (b, r) \<leftarrow> do { (h, r) \<leftarrow> do { (h, r) \<leftarrow> mem_stream_getBits r 1; Some (h \<noteq> 0, r) };
            (ts, r) \<leftarrow> getN n (moveTileFromStream bpt) r; Some ((h, ts), r) };
          Some ((c, b), r) }; Some ((n, b), r) })
     (\<lambda>(n, b). n < 2 ^ 3 \<and> (case b of (c, b) \<Rightarrow> c < 2 ^ 5 \<and> (case b of (h, ts) \<Rightarrow>
        True \<and> length ts = n \<and>
        list_all (\<lambda>t. 0 < bpt \<and> bpt \<le> 32 \<and> moveTile_ok bpt t) ts)))
     (\<lambda>(n, b). (3 + 7) div 8 + (case b of (c, b) \<Rightarrow> (5 + 7) div 8 + (case b of (h, ts) \<Rightarrow>
        1 + sum_list (map (\<lambda>t. 1 + ((bpt + 7) div 8 + 1)) ts))))"
    by (rule stream_codec_pair[OF nat_codec C C[THEN stream_codec.put_extends]]) simp_all
  define f where "f = (\<lambda>mi :: moveInfo. (length (mtiles mi), commonCoord mi, isHorizontal mi, mtiles mi))"
  show "stream_codec (\<lambda>s mi. moveInfoToStream s mi bpt) (\<lambda>s. moveInfoFromStream s bpt)
     (moveInfo_ok bpt) (\<lambda>mi. 3 + 3 * length (mtiles mi))"
  proof (unfold_locales, goal_cases)
    case (1 s mi s')
    then show ?case using stream_codec.put_extends[OF P 1(1), of "f mi"]
      by (simp add: moveInfoToStream_def xw_consts f_def bind_unit_Some) blast
  next
    case (2 s mi)
    then show ?case using stream_codec.put_total[OF P 2(1), of "f mi"]
      by (auto simp: moveInfoToStream_def xw_consts f_def moveInfo_ok_def sum_list_triv list_all_iff)
  next
    case (3 s mi s' r)
    then show ?case using stream_codec.get_put[OF P 3(1) _ _ 3(4-7), of "f mi"]
      by (auto simp: moveInfoToStream_def moveInfoFromStream_def xw_consts f_def moveInfo_ok_def
          bind_unit_Some list_all_iff Let_def)
  qed
qed

text \<open>A string survives if it is null, or has from 1 to 254 bytes: longer ones overrun the
  255-byte buffer of the reader.\<close>

definition string_ok :: "cstring \<Rightarrow> bool" where
  "string_ok str \<longleftrightarrow> (case str of None \<Rightarrow> True | Some bs \<Rightarrow> 0 < length bs \<and> length bs < 255)"

definition cstring_len :: "cstring \<Rightarrow> nat" where
  "cstring_len str = (case str of None \<Rightarrow> 0 | Some bs \<Rightarrow> length bs)"

lemma getBytes_zero: "nReadBits r = 0 \<Longrightarrow> mem_stream_getBytes r 0 = Some (b, r') \<Longrightarrow> r' = r"
  by (simp add: mem_stream_getBytes_def)

lemma getU8_aligned: "mem_stream_getU8 r = Some (x, r') \<Longrightarrow> nReadBits r' = 0"
  by (auto simp: mem_stream_getU8_def mem_stream_getBytes_def Let_def split: if_splits)

interpretation str: stream_codec stringToStream p_stringFromStream string_ok
    "\<lambda>str. 1 + cstring_len str"
proof -
  have P: "stream_codec
     (\<lambda>s (a, b). do { s \<leftarrow> mem_stream_putU8 s a; mem_stream_putBytes s b })
     (\<lambda>r. do { (a, r) \<leftarrow> mem_stream_getU8 r; (b, r) \<leftarrow> mem_stream_getBytes r (unat a); Some ((a, b), r) })
     (\<lambda>(a, b). True \<and> length b = unat a) (\<lambda>(a, b). 1 + length b)"
    by (rule stream_codec_pair[OF u8.stream_codec_axioms bytes.stream_codec_axioms bytes.put_extends])
  define f where "f = (\<lambda>str :: cstring. (of_nat (min 255 (cstring_len str)) :: u8,
     case str of None \<Rightarrow> [] | Some bs \<Rightarrow> take (min 255 (cstring_len str)) bs))"
  have put: "stringToStream s str = (case f str of (a, b) \<Rightarrow> do { s \<leftarrow> mem_stream_putU8 s a; mem_stream_putBytes s b })"
    for s str
    by (auto simp: stringToStream_def f_def cstring_len_def Let_def min_def split: option.splits)
  show "stream_codec stringToStream p_stringFromStream string_ok (\<lambda>str. 1 + cstring_len str)"
  proof (unfold_locales, goal_cases)
    case (1 s str s')
    then show ?case using stream_codec.put_extends[OF P 1(1), of "f str"] by (simp add: put)
  next
    case (2 s str)
    have ok: "(case f str of (a, b) \<Rightarrow> True \<and> length b = unat a)"
      using 2(2) by (auto simp: f_def string_ok_def cstring_len_def unsigned_of_nat take_bit_nat_eq_self split: option.splits)
    have c: "(case f str of (a, b) \<Rightarrow> 1 + length b) \<le> 1 + cstring_len str"
      by (auto simp: f_def cstring_len_def split: option.splits)
    from stream_codec.put_total[OF P 2(1) ok] 2(3) c show ?case
      unfolding put by (meson add_left_mono order_trans)
  next
    case (3 s str s' r)
    have ok: "(case f str of (a, b) \<Rightarrow> True \<and> length b = unat a)"
      using 3(2) by (auto simp: f_def string_ok_def cstring_len_def unsigned_of_nat take_bit_nat_eq_self split: option.splits)
    note G = stream_codec.get_put[OF P 3(1) ok 3(3)[unfolded put] 3(4-7)]
    show ?case
    proof (cases str)
      case None
      then obtain b where "mem_stream_getU8 r = Some (0, b)" "mem_stream_getBytes b 0 = Some ([], set_rpos (wpos s') r)"
        using G by (auto simp: f_def cstring_len_def)
      moreover from this have "set_rpos (wpos s') r = b"
        using getBytes_zero getU8_aligned by blast
      ultimately show ?thesis
        using None by (simp add: p_stringFromStream_def stringFromStreamHere_def)
    next
      case (Some bs)
      then have len: "0 < length bs" "length bs < 255" using 3(2) by (simp_all add: string_ok_def)
      define n where "n = (of_nat (length bs) :: u8)"
      have n: "unat n = length bs" using len by (simp add: n_def unsigned_of_nat take_bit_nat_eq_self)
      have "f str = (n, bs)" using Some len by (simp add: f_def cstring_len_def n_def min_def)
      then obtain b where "mem_stream_getU8 r = Some (n, b)"
          "mem_stream_getBytes b (length bs) = Some (bs, set_rpos (wpos s') r)"
        using G n by auto
      then show ?thesis
        using Some len n
        by (simp add: p_stringFromStream_def stringFromStreamHere_def word_less_nat_alt)
    qed
  qed
qed

section \<open>Removing and sorting tiles\<close>

lemma shift_loop:
  "i \<le> k \<Longrightarrow> k < length ts \<Longrightarrow>
     foldl (\<lambda>ts ii. ts[ii := ts ! (ii + 1)]) ts [i..<k] =
       map (\<lambda>j. if i \<le> j \<and> j < k then ts ! Suc j else ts ! j) [0..<length ts]"
proof (induction k)
  case 0
  then show ?case by (simp add: map_nth)
next
  case (Suc k)
  show ?case
  proof (cases "i = Suc k")
    case True
    then show ?thesis by (auto intro!: nth_equalityI)
  next
    case False
    with Suc have "i \<le> k" by simp
    with Suc show ?thesis by (auto intro!: nth_equalityI simp: nth_list_update)
  qed
qed

lemma removeTile_del_at: "i < length ts \<Longrightarrow> removeTile ts i = Some (del_at i ts)"
proof -
  assume i: "i < length ts"
  then obtain n where n: "length ts = Suc n" by (cases "length ts") auto
  show ?thesis
    using i n shift_loop[of i n ts]
    by (auto simp: removeTile_def del_at_def nth_append intro!: nth_equalityI)
qed

lemma smallest_foldl:
  "(\<forall>j \<in> insert s (set idxs). ts ! foldl (\<lambda>sm ii. if ts ! ii < ts ! sm then ii else sm) s idxs \<le> ts ! j) \<and>
   foldl (\<lambda>sm ii. if ts ! ii < ts ! sm then ii else sm) s idxs \<in> insert s (set idxs)"
  for ts :: "'a :: linorder list"
proof (induction idxs arbitrary: s)
  case (Cons i idxs)
  from Cons[of "if ts ! i < ts ! s then i else s"] show ?case
    by (auto split: if_splits)
qed simp

lemma smallest_from_spec:
  assumes "skip < length ts"
  shows "skip \<le> smallest_from ts skip" "smallest_from ts skip < length ts"
    "\<And>j. skip \<le> j \<Longrightarrow> j < length ts \<Longrightarrow> ts ! smallest_from ts skip \<le> ts ! j"
  using smallest_foldl[where ts = ts and s = skip and idxs = "[skip..<length ts]"] assms
  by (auto simp: smallest_from_def)

lemma drop_del_at: "skip \<le> i \<Longrightarrow> drop skip (del_at i xs) = del_at (i - skip) (drop skip xs)"
  by (simp add: del_at_def drop_take min_def)

lemma sort_min_first:
  fixes xs :: "'a :: linorder list"
  assumes "i < length xs" and "\<And>j. j < length xs \<Longrightarrow> xs ! i \<le> xs ! j"
  shows "sort xs = xs ! i # sort (del_at i xs)"
proof (rule properties_for_sort)
  show "mset (xs ! i # sort (del_at i xs)) = mset xs"
    using assms(1) by (simp add: mset_del_at)
  show "sorted (xs ! i # sort (del_at i xs))"
    using assms(2) set_del_at[of i xs] by (force simp: in_set_conv_nth)
qed

lemma sortTiles_loop_sort:
  "sortTiles_loop dest tmp skip = Some (dest @ sort (drop skip tmp))"
proof (induction "length tmp" arbitrary: dest tmp)
  case (Suc n)
  show ?case
  proof (cases "skip < length tmp")
    case True
    define i where "i = smallest_from tmp skip"
    note S = smallest_from_spec[OF True, folded i_def]
    have "sort (drop skip tmp) = drop skip tmp ! (i - skip) # sort (del_at (i - skip) (drop skip tmp))"
      by (rule sort_min_first) (use S in auto)
    then have "sort (drop skip tmp) = tmp ! i # sort (drop skip (del_at i tmp))"
      using S(1,2) by (simp add: drop_del_at)
    moreover have "sortTiles_loop dest tmp skip = sortTiles_loop (dest @ [tmp ! i]) (del_at i tmp) skip"
      using True S(2) by (subst sortTiles_loop.simps) (simp add: removeTile_del_at flip: i_def)
    moreover have "n = length (del_at i tmp)" using Suc(2) S(2) by simp
    ultimately show ?thesis using Suc(1) by simp
  next
    case False
    then show ?thesis by (subst sortTiles_loop.simps) simp
  qed
qed (subst sortTiles_loop.simps, simp)

section \<open>Shuffling\<close>

lemma randIntArray_loop_spec:
  assumes "ii \<le> length rnums"
  shows "mset (fst (randIntArray_loop rnd k ii rnums c)) = mset rnums \<and>
         (\<forall>j. ii \<le> j \<longrightarrow> j < length rnums \<longrightarrow> fst (randIntArray_loop rnd k ii rnums c) ! j = rnums ! j)"
  using assms
proof (induction rnd k ii rnums c rule: randIntArray_loop.induct)
  case (2 rnd k ii rnums changed)
  define r where "r = trunc16 (rnd k) mod Suc ii"
  have r: "r \<le> ii" using mod_less_divisor[of "Suc ii" "trunc16 (rnd k)"] by (simp add: r_def)
  show ?case
  proof (cases "ii = r")
    case True
    then show ?thesis using 2(2,3) by (simp add: Let_def r_def)
  next
    case False
    have "mset (rnums[r := rnums ! ii, ii := rnums ! r]) = mset rnums"
      using 2(3) r by (intro mset_list_update_swap) auto
    then show ?thesis using 2(1)[OF r_def False refl refl refl] 2(3) False r
      by (simp add: Let_def flip: r_def)
  qed
qed simp

lemma randIntArray_loop_True: "snd (randIntArray_loop rnd k n rnums True)"
  by (induction n arbitrary: k rnums) (auto simp: Let_def)

text \<open>A change is reported exactly if there is one: the first swap moves the item at \<open>ii\<close>
  and that position is never touched again.\<close>

lemma randIntArray_loop_changed:
  "n \<le> cnt \<Longrightarrow> (snd (randIntArray_loop rnd k n [0..<cnt] False) \<longleftrightarrow>
     fst (randIntArray_loop rnd k n [0..<cnt] False) \<noteq> [0..<cnt])"
proof (induction n arbitrary: k)
  case (Suc n)
  define r where "r = trunc16 (rnd k) mod Suc n"
  have r: "r \<le> n" using mod_less_divisor[of "Suc n" "trunc16 (rnd k)"] by (simp add: r_def)
  show ?case
  proof (cases "n = r")
    case True
    then show ?thesis
      using Suc unfolding randIntArray_loop.simps Let_def r_def[symmetric] by simp
  next
    case False
    define xs where "xs = [0..<cnt][r := [0..<cnt] ! n, n := [0..<cnt] ! r]"
    have "xs ! n = r" using Suc.prems r False by (simp add: xs_def)
    moreover have "fst (randIntArray_loop rnd (k + 1) n xs True) ! n = xs ! n"
      using randIntArray_loop_spec[of n xs rnd "k + 1" True] Suc.prems by (simp add: xs_def)
    ultimately have "fst (randIntArray_loop rnd (k + 1) n xs True) \<noteq> [0..<cnt]"
      using False Suc.prems by auto
    then show ?thesis
      using False randIntArray_loop_True[of rnd "k + 1" n xs]
      by (simp add: Let_def xs_def flip: r_def)
  qed
qed simp

section \<open>Base 64\<close>

lemma SMSTable_length: "length SMSTable = 64"
  by (simp add: SMSTable_def)

lemma SMSTable_codes:
  "distinct ([65..<91] @ [97..<123] @ [48..<58] @ [43, 47 :: nat])"
  "set ([65..<91] @ [97..<123] @ [48..<58] @ [43, 47 :: nat]) \<subseteq> {..<256}"
  by auto

lemma unat_of_nat_u8: "n < 256 \<Longrightarrow> unat (of_nat n :: u8) = n"
  by (simp add: unsigned_of_nat take_bit_nat_eq_self)

lemma of_nat_u8_inj: "a < 256 \<Longrightarrow> b < 256 \<Longrightarrow> (of_nat a :: u8) = of_nat b \<Longrightarrow> a = b"
  by (metis unat_of_nat_u8)

lemma SMSTable_distinct: "distinct SMSTable"
  unfolding SMSTable_def distinct_map using SMSTable_codes
  by (auto intro!: inj_onI dest: of_nat_u8_inj)

lemma SMSTable_PADCHAR: "PADCHAR \<notin> set SMSTable"
  by code_simp

lemma findRank_table:
  assumes "k < 64" shows "findRank (SMSTable ! k) = Some (of_nat k)"
proof -
  have "takeWhile (\<lambda>c. c \<noteq> SMSTable ! k) SMSTable = take k SMSTable"
    using assms SMSTable_distinct SMSTable_length
    by (intro takeWhile_eq_take_P_nth) (auto simp: nth_eq_iff_index_eq)
  moreover have "SMSTable ! k \<noteq> PADCHAR"
    using assms SMSTable_PADCHAR SMSTable_length by (metis nth_mem)
  ultimately show ?thesis
    using assms by (simp add: findRank_def SMSTable_length)
qed

lemma findRank_word:
  assumes "w < 64" shows "findRank (SMSTable ! unat w) = Some w" "SMSTable ! unat w \<noteq> PADCHAR"
proof -
  have u: "unat w < 64" using assms by (simp add: word_less_nat_alt)
  show "findRank (SMSTable ! unat w) = Some w" using findRank_table[OF u] by simp
  show "SMSTable ! unat w \<noteq> PADCHAR" using u SMSTable_PADCHAR SMSTable_length by (metis nth_mem)
qed

lemma findRank_PADCHAR [simp]: "findRank PADCHAR = Some 0"
  by (simp add: findRank_def)

definition pack4 :: "u32 \<Rightarrow> u8 \<Rightarrow> u8 \<Rightarrow> u8 \<Rightarrow> u8 \<Rightarrow> u32" where
  "pack4 vv a b c d = push_bit 6 (push_bit 6 (push_bit 6 (push_bit 6 vv OR ucast a) OR ucast b)
     OR ucast c) OR ucast d"

text \<open>Four characters: the pads decide how many bytes come out.\<close>

lemma smsToBin_four:
  assumes "findRank c0 = Some r0" "findRank c1 = Some r1" "findRank c2 = Some r2" "findRank c3 = Some r3"
  shows "ofold (smsToBin_step outmax) (out, vv, 0, l0, l1) [c0, c1, c2, c3] =
    (let v = pack4 vv r0 r1 r2 r3;
         out' = out @ [ucast (drop_bit 16 v)] @
                (if c2 \<noteq> PADCHAR then [ucast (drop_bit 8 v)] else []) @
                (if c3 \<noteq> PADCHAR then [ucast v] else [])
     in if length out' \<le> outmax then Some (out', v, 0, c3, c2) else None)"
  using assms by (simp add: smsToBin_step_def Let_def pack4_def xp_assert_def)

lemma u8_less_64:
  assumes "\<not> bit w 6" "\<not> bit w 7" shows "(w :: u8) < 64"
proof -
  have "take_bit 6 w = w"
  proof (rule bit_word_eqI)
    fix k assume "k < LENGTH(8)"
    then have "k < 6 \<or> k = 6 \<or> k = 7" by auto
    then show "bit (take_bit 6 w) k \<longleftrightarrow> bit w k" using assms by (auto simp: bit_take_bit_iff)
  qed
  then have "unat w = take_bit 6 (unat w)" by (metis unsigned_take_bit_eq)
  then have "unat w < 2 ^ 6" by (metis take_bit_nat_less_exp)
  then show ?thesis by (simp add: word_less_nat_alt)
qed

lemma u8_cases: "k < 8 \<Longrightarrow> k = 0 \<or> k = 1 \<or> k = 2 \<or> k = 3 \<or> k = 4 \<or> k = 5 \<or> k = 6 \<or> k = (7 :: nat)"
  by linarith

lemma bit_0x30: "bit (0x30 :: u8) k \<longleftrightarrow> k = 4 \<or> k = 5"
  by (cases "k < 8", drule u8_cases, auto simp: bit_simps dest: bit_imp_le_length)

lemma bit_0x3C: "bit (0x3C :: u8) k \<longleftrightarrow> 2 \<le> k \<and> k < 6"
  by (cases "k < 8", drule u8_cases, auto simp: bit_simps dest: bit_imp_le_length)

lemma bit_0x3F: "bit (0x3F :: u8) k \<longleftrightarrow> k < 6"
  using bit_TILE_VALUE_MASK[of k] by (simp add: TILE_VALUE_MASK_def)

lemma sextets_less:
  "drop_bit 2 (a :: u8) < 64" "(push_bit 4 a AND 0x30) OR drop_bit 4 b < 64"
  "(push_bit 2 a AND 0x3C) OR drop_bit 6 b < 64" "a AND 0x3F < (64 :: u8)"
  by (rule u8_less_64; auto simp: bit_simps bit_0x30 bit_0x3C bit_0x3F dest: bit_imp_le_length)+

lemma bitsToChars_len:
  "bitsToChars [a, b, c] = [SMSTable ! unat (drop_bit 2 a), 
     SMSTable ! unat ((push_bit 4 a AND 0x30) OR drop_bit 4 b),
     SMSTable ! unat ((push_bit 2 b AND 0x3C) OR drop_bit 6 c), SMSTable ! unat (c AND 0x3F)]"
  "bitsToChars [a, b] = [SMSTable ! unat (drop_bit 2 a), 
     SMSTable ! unat ((push_bit 4 a AND 0x30) OR drop_bit 4 b),
     SMSTable ! unat ((push_bit 2 b AND 0x3C) OR drop_bit 6 0), PADCHAR]"
  "bitsToChars [a] = [SMSTable ! unat (drop_bit 2 a), 
     SMSTable ! unat ((push_bit 4 a AND 0x30) OR drop_bit 4 0), PADCHAR, PADCHAR]"
proof -
  have u: "[0..<4] = [0, 1, 2, 3 :: nat]" by (simp add: upt_rec)
  show "bitsToChars [a, b, c] = [SMSTable ! unat (drop_bit 2 a), 
     SMSTable ! unat ((push_bit 4 a AND 0x30) OR drop_bit 4 b),
     SMSTable ! unat ((push_bit 2 b AND 0x3C) OR drop_bit 6 c), SMSTable ! unat (c AND 0x3F)]"
    "bitsToChars [a, b] = [SMSTable ! unat (drop_bit 2 a), 
     SMSTable ! unat ((push_bit 4 a AND 0x30) OR drop_bit 4 b),
     SMSTable ! unat ((push_bit 2 b AND 0x3C) OR drop_bit 6 0), PADCHAR]"
    "bitsToChars [a] = [SMSTable ! unat (drop_bit 2 a), 
     SMSTable ! unat ((push_bit 4 a AND 0x30) OR drop_bit 4 0), PADCHAR, PADCHAR]"
    unfolding bitsToChars_def Let_def u
    by (simp_all add: numeral_2_eq_2 numeral_3_eq_3 del: drop_bit_of_0)
qed

lemma bit_pack4:
  "bit (pack4 vv r0 r1 r2 r3) k \<longleftrightarrow> k < 32 \<and>
     (bit r3 k \<or> 6 \<le> k \<and> bit r2 (k - 6) \<or> 12 \<le> k \<and> bit r1 (k - 12) \<or>
      18 \<le> k \<and> bit r0 (k - 18) \<or> 24 \<le> k \<and> bit vv (k - 24))"
  by (auto simp: pack4_def bit_simps dest: bit_imp_le_length)

lemma bit_u8_high: "8 \<le> k \<Longrightarrow> \<not> bit (a :: u8) k"
  by (auto dest: bit_imp_le_length)

lemma pack4_bytes:
  fixes a b c :: u8 and vv :: u32
  defines "v \<equiv> pack4 vv (drop_bit 2 a) ((push_bit 4 a AND 0x30) OR drop_bit 4 b)
     ((push_bit 2 b AND 0x3C) OR drop_bit 6 c) (c AND 0x3F)"
  shows "ucast (drop_bit 16 v) = a" "ucast (drop_bit 8 v) = b" "ucast v = c"
proof -
  note S = bit_pack4 bit_ucast_iff bit_drop_bit_eq bit_and_iff bit_or_iff bit_push_bit_iff
    bit_0x30 bit_0x3C bit_0x3F bit_u8_high
  have "bit (ucast (drop_bit 16 v) :: u8) k = bit a k" if "k < 8" for k
    unfolding v_def using u8_cases[OF that] by (elim disjE; simp add: S)
  moreover have "bit (ucast (drop_bit 8 v) :: u8) k = bit b k" if "k < 8" for k
    unfolding v_def using u8_cases[OF that] by (elim disjE; simp add: S)
  moreover have "bit (ucast v :: u8) k = bit c k" if "k < 8" for k
    unfolding v_def using u8_cases[OF that] by (elim disjE; simp add: S)
  ultimately show "ucast (drop_bit 16 v) = a" "ucast (drop_bit 8 v) = b" "ucast v = c"
    by (simp_all add: u8_eq_iff)
qed

text \<open>One round of the encoder is undone by four steps of the decoder.\<close>

lemma smsToBin_chunk:
  assumes "0 < length xs" "length xs \<le> 3" and "length out + length xs \<le> outmax"
  shows "\<exists>v l0 l1. ofold (smsToBin_step outmax) (out, vv, 0, m0, m1) (bitsToChars xs) =
           Some (out @ xs, v, 0, l0, l1)"
proof -
  note F = findRank_word sextets_less
  consider a where "xs = [a]" | a b where "xs = [a, b]" | a b c where "xs = [a, b, c]"
    using assms(1,2)
    by (auto simp: length_Suc_conv numeral_3_eq_3 numeral_2_eq_2 le_Suc_eq)
  then show ?thesis
  proof cases
    case (1 a)
    have z: "findRank PADCHAR = Some ((push_bit 2 0 AND 0x3C) OR drop_bit 6 0)"
      "findRank PADCHAR = Some (0 AND 0x3F)" by simp_all
    show ?thesis
      unfolding 1 bitsToChars_len smsToBin_four[OF F(1)[OF F(3)] F(1)[OF F(4)] z] Let_def pack4_bytes
      using assms(3) 1 by simp
  next
    case (2 a b)
    have z: "findRank PADCHAR = Some (0 AND 0x3F)" by simp
    show ?thesis
      unfolding 2 bitsToChars_len smsToBin_four[OF F(1)[OF F(3)] F(1)[OF F(4)] F(1)[OF F(5)] z]
        Let_def pack4_bytes
      using assms(3) 2 F(2)[OF F(5), of b 0] by simp
  next
    case (3 a b c)
    show ?thesis
      unfolding 3 bitsToChars_len
        smsToBin_four[OF F(1)[OF F(3)] F(1)[OF F(4)] F(1)[OF F(5)] F(1)[OF F(6)]] Let_def pack4_bytes
      using assms(3) 3 F(2)[OF F(5), of b c] F(2)[OF F(6), of c] by simp
  qed
qed

lemma length_bitsToChars [simp]: "length (bitsToChars xs) = 4"
  by (simp add: bitsToChars_def Let_def)

text \<open>The encoder is the concatenation of the encoded chunks of three bytes.\<close>

lemma binToSms_loop_chunks:
  assumes "n < length inp" and "4 * ((length inp - n + 2) div 3) + length out \<le> outmax"
    and "length inp - n \<le> inmax"
  shows "\<exists>cs. binToSms_loop outmax inp n out = Some (out @ cs) \<and>
            length cs = 4 * ((length inp - n + 2) div 3) \<and>
            (\<forall>out2 vv m0 m1. length out2 + (length inp - n) \<le> inmax \<longrightarrow> (\<exists>v l0 l1. 
               ofold (smsToBin_step inmax) (out2, vv, 0, m0, m1) cs = Some (out2 @ drop n inp, v, 0, l0, l1)))"
  using assms
proof (induction "length inp - n" arbitrary: n out rule: less_induct)
  case less
  define ch where "ch = take 3 (drop n inp)"
  have ch: "0 < length ch" "length ch \<le> 3" "length ch = min 3 (length inp - n)"
    using less.prems by (auto simp: ch_def)
  have "3 div 3 \<le> (length inp - n + 2) div 3"
    by (rule div_le_mono) (use less.prems in simp)
  then have out: "length (out @ bitsToChars ch) \<le> outmax" using less.prems by simp
  have step: "binToSms_loop outmax inp n out =
     (if n + 3 \<ge> length inp then Some (out @ bitsToChars ch)
      else binToSms_loop outmax inp (n + 3) (out @ bitsToChars ch))"
    using out by (subst binToSms_loop.simps) (simp add: Let_def ch_def min_def)
  show ?case
  proof (cases "n + 3 \<ge> length inp")
    case True
    then have d: "drop n inp = ch" "length ch = length inp - n" by (simp_all add: ch_def)
    have len: "4 = 4 * ((length inp - n + 2) div 3)" using True less.prems by simp
    show ?thesis
      using step True smsToBin_chunk[OF ch(1,2)] d len by auto
  next
    case False
    have len: "(length inp - n + 2) div 3 = Suc ((length inp - (n + 3) + 2) div 3)"
      using False by simp
    have pre: "length inp - (n + 3) < length inp - n" "n + 3 < length inp"
      "4 * ((length inp - (n + 3) + 2) div 3) + length (out @ bitsToChars ch) \<le> outmax"
      "length inp - (n + 3) \<le> inmax"
      using False less.prems len by auto
    obtain cs where cs: "binToSms_loop outmax inp (n + 3) (out @ bitsToChars ch) = Some ((out @ bitsToChars ch) @ cs)"
      "length cs = 4 * ((length inp - (n + 3) + 2) div 3)"
      "\<And>out2 vv m0 m1. length out2 + (length inp - (n + 3)) \<le> inmax \<Longrightarrow> \<exists>v l0 l1. 
         ofold (smsToBin_step inmax) (out2, vv, 0, m0, m1) cs = Some (out2 @ drop (n + 3) inp, v, 0, l0, l1)"
      using less.hyps[OF pre(1,2), of "out @ bitsToChars ch"] pre(3,4) by blast
    have d: "drop n inp = ch @ drop (n + 3) inp"
      by (metis append_take_drop_id ch_def drop_drop add.commute)
    have "\<exists>v l0 l1. ofold (smsToBin_step inmax) (out2, vv, 0, m0, m1) (bitsToChars ch @ cs) =
         Some (out2 @ drop n inp, v, 0, l0, l1)"
      if r: "length out2 + (length inp - n) \<le> inmax" for out2 vv m0 m1
    proof -
      have "length out2 + length ch \<le> inmax" using r ch(3) by simp
      then obtain v l0 l1 where o: "ofold (smsToBin_step inmax) (out2, vv, 0, m0, m1) (bitsToChars ch) =
          Some (out2 @ ch, v, 0, l0, l1)"
        using smsToBin_chunk[OF ch(1,2), of out2 inmax vv m0 m1] by blast
      have "length (out2 @ ch) + (length inp - (n + 3)) \<le> inmax" using r ch(3) False by simp
      from cs(3)[OF this, of v l0 l1] show ?thesis unfolding ofold_append o d by simp
    qed
    then show ?thesis using step False cs(1,2) len by auto
  qed
qed

lemma base64_roundtrip:
  assumes "inp \<noteq> []" and "4 * ((length inp + 2) div 3) < outmax" and "length inp \<le> inmax"
  shows "\<exists>sms. binToSms outmax inp = Some sms \<and> smsToBin inmax sms = Some inp"
proof -
  have l: "length inp \<le> 4 * ((length inp + 2) div 3)" by presburger
  from binToSms_loop_chunks[of 0 inp "[]" outmax inmax] assms
  obtain cs where cs: "binToSms_loop outmax inp 0 [] = Some cs"
    "length cs = 4 * ((length inp + 2) div 3)"
    "\<And>out2 vv m0 m1. length out2 + length inp \<le> inmax \<Longrightarrow> \<exists>v l0 l1.
         ofold (smsToBin_step inmax) (out2, vv, 0, m0, m1) cs = Some (out2 @ inp, v, 0, l0, l1)"
    by auto
  from cs(3)[of "[]" 0 0 0] assms(3) obtain v l0 l1 where
    "ofold (smsToBin_step inmax) ([], 0, 0, 0, 0) cs = Some (inp, v, 0, l0, l1)" by auto
  then show ?thesis using cs(1,2) assms(2) l by (auto simp: binToSms_def smsToBin_def)
qed

text \<open>The empty message is the exception: it is encoded as four pads, which decode to one
  byte.\<close>

lemma base64_empty: "binToSms 5 [] = Some [PADCHAR, PADCHAR, PADCHAR, PADCHAR] \<and>
    smsToBin 5 [PADCHAR, PADCHAR, PADCHAR, PADCHAR] = Some [0]"
  by code_simp

section \<open>Properties\<close>

text \<open>The function \<open>sortTiles\<close> keeps the first \<open>skip\<close> tiles where they are and puts the others, each as
  often as it occurs, in increasing order behind them. It fails exactly when it is asked to
  skip more tiles than there are.\<close>

theorem sortTiles_sorts:
  "sortTiles src skip =
     (if skip \<le> length src then Some (take skip src @ sort (drop skip src)) else None)"
  by (simp add: sortTiles_def sortTiles_loop_sort xp_assert_def)

text \<open>The function \<open>randIntArray\<close>, by which draws and trades pick tiles, returns a permutation of the
  first \<open>cnt\<close> numbers whatever the random generator answers, and reports a change exactly
  when the permutation is not the identity.\<close>

theorem randIntArray_permutes:
  "mset (fst (randIntArray rnd cnt)) = mset [0..<cnt] \<and>
   (snd (randIntArray rnd cnt) \<longleftrightarrow> fst (randIntArray rnd cnt) \<noteq> [0..<cnt])"
  using randIntArray_loop_spec[of cnt "[0..<cnt]" rnd 0 False]
    randIntArray_loop_changed[of cnt cnt rnd 0]
  by (simp add: randIntArray_def)

text \<open>C33: A non-empty message that \<open>binToSms\<close> encodes for an SMS comes back from \<open>smsToBin\<close>
  byte for byte, provided the output buffers have room for the text with its final 0 and
  for the message.\<close>

theorem sms_roundtrip:
  assumes "inp \<noteq> []" and "4 * ((length inp + 2) div 3) < outmax" and "length inp \<le> inmax"
  shows "\<exists>sms. binToSms outmax inp = Some sms \<and> smsToBin inmax sms = Some inp"
  using base64_roundtrip[OF assms] .

theorem sms_roundtrip_witness:
  "\<exists>sms. binToSms 9 [77, 97, 110, 255] = Some sms \<and> smsToBin 4 sms = Some [77, 97, 110, 255]"
  by (rule sms_roundtrip) simp_all

end
