(* ===== verification/Xw_Containers.thy ===== *)
theory Xw_Containers
  imports Xw_StrUtils
begin

text \<open>
  The small containers: \<open>common/dictmgr.c\<close>, the cache of the four dictionaries used last, with
  the reference counts of \<open>dictnry.c\<close>, and \<open>common/xwlist.c\<close>, the growing array the SMS layer
  queues packets in. A dictionary is named by a number (its address); the mutex only
  serialises the operations and is left out.

  The cache refines a list of keys and dictionaries, the one mentioned last first; the list
  refines a queue.
\<close>

section \<open>The dictionary cache\<close>

definition DMGR_MAX_DICTS :: nat where "DMGR_MAX_DICTS = 4"

record dictPair =
  dkey :: cstring
  ddict :: "nat option"

record dictMgr =
  dpairs :: "dictPair list"
  refCount :: "nat \<Rightarrow> nat"

definition dict_ref :: "nat option \<Rightarrow> dictMgr \<Rightarrow> dictMgr" where
  "dict_ref d m = (case d of None \<Rightarrow> m
     | Some i \<Rightarrow> m\<lparr>refCount := (refCount m)(i := refCount m i + 1)\<rparr>)"

definition dict_unref :: "nat option \<Rightarrow> dictMgr \<Rightarrow> dictMgr option" where
  "dict_unref d m = (case d of None \<Rightarrow> Some m
     | Some i \<Rightarrow> do {
         xp_assert (0 < refCount m i);
         Some (m\<lparr>refCount := (refCount m)(i := refCount m i - 1)\<rparr>)
       })"

definition dmgr_make :: "(nat \<Rightarrow> nat) \<Rightarrow> dictMgr" where
  "dmgr_make refs =
     \<lparr>dpairs = replicate DMGR_MAX_DICTS \<lparr>dkey = None, ddict = None\<rparr>, refCount = refs\<rparr>"

fun findFor_loop :: "u8 list \<Rightarrow> dictPair list \<Rightarrow> nat \<Rightarrow> nat option" where
  "findFor_loop key [] ii = None"
| "findFor_loop key (p # ps) ii =
     (if dkey p \<noteq> None \<and> Some key = dkey p then Some ii else findFor_loop key ps (ii + 1))"

text \<open>\<open>NOT_FOUND\<close> is \<open>None\<close>.\<close>

definition findFor :: "dictMgr \<Rightarrow> u8 list \<Rightarrow> nat option" where
  "findFor dmgr key = findFor_loop key (dpairs dmgr) 0"

definition moveToFront :: "dictMgr \<Rightarrow> nat \<Rightarrow> dictMgr option" where
  "moveToFront dmgr indx =
     (if 0 < indx then do {
        tmp \<leftarrow> mem_get indx (dpairs dmgr);
        ps \<leftarrow> mem_write 1 (take indx (dpairs dmgr)) (dpairs dmgr);
        ps \<leftarrow> mem_put 0 tmp ps;
        Some (dmgr\<lparr>dpairs := ps\<rparr>)
      } else Some dmgr)"

definition dmgr_get :: "dictMgr \<Rightarrow> u8 list \<Rightarrow> (nat option \<times> dictMgr) option" where
  "dmgr_get dmgr key =
     (case findFor dmgr key of
        None \<Rightarrow> Some (None, dmgr)
      | Some index \<Rightarrow> do {
          p \<leftarrow> mem_get index (dpairs dmgr);
          let dmgr = dict_ref (ddict p) dmgr;
          dmgr \<leftarrow> moveToFront dmgr index;
          Some (ddict p, dmgr)
        })"

definition dmgr_put :: "dictMgr \<Rightarrow> u8 list \<Rightarrow> nat option \<Rightarrow> dictMgr option" where
  "dmgr_put dmgr key dict =
     (case findFor dmgr key of
        None \<Rightarrow> do {
          dmgr \<leftarrow> moveToFront dmgr (length (dpairs dmgr) - 1);
          pair \<leftarrow> mem_get 0 (dpairs dmgr);
          dmgr \<leftarrow> dict_unref (ddict pair) dmgr;
          let dmgr = dict_ref dict dmgr;
          let pair = \<lparr>dkey = p_replaceStringIfDifferent (dkey pair) (Some key), ddict = dict\<rparr>;
          ps \<leftarrow> mem_put 0 pair (dpairs dmgr);
          Some (dmgr\<lparr>dpairs := ps\<rparr>)
        }
      | Some loc \<Rightarrow> moveToFront dmgr loc)"

definition dmgr_destroy :: "dictMgr \<Rightarrow> dictMgr option" where
  "dmgr_destroy dmgr = ofold (\<lambda>m p. dict_unref (ddict p) m) dmgr (dpairs dmgr)"

section \<open>The growing list\<close>

text \<open>\<open>xmem\<close> is the allocated array; the items beyond \<open>xlen\<close> are leftovers.\<close>

record xwlist =
  xlen :: nat
  xsize :: nat
  xmem :: "nat list"

definition mk_list :: xwlist where
  "mk_list = \<lparr>xlen = 0, xsize = 0, xmem = []\<rparr>"

definition list_append :: "xwlist \<Rightarrow> nat \<Rightarrow> xwlist option" where
  "list_append self one = do {
     let self = (if xsize self = 0 then self\<lparr>xsize := 2, xmem := replicate 2 0\<rparr> else self);
     let self = (if xlen self = xsize self
                 then let n = trunc16 (xsize self * 2)
                      in self\<lparr>xsize := n, xmem := take n (xmem self @ replicate n 0)\<rparr>
                 else self);
     m \<leftarrow> mem_put (xlen self) one (xmem self);
     Some (self\<lparr>xmem := m, xlen := trunc16 (xlen self + 1)\<rparr>)
   }"

definition list_get_len :: "xwlist \<Rightarrow> nat" where
  "list_get_len self = xlen self"

text \<open>The first component is what is copied to the caller; its length is the count returned.\<close>

definition list_remove_front :: "xwlist \<Rightarrow> nat \<Rightarrow> (nat list \<times> xwlist) option" where
  "list_remove_front self cnt = do {
     let nMoved = min cnt (xlen self);
     out \<leftarrow> mem_read 0 nMoved (xmem self);
     let self = self\<lparr>xlen := xlen self - nMoved\<rparr>;
     survivors \<leftarrow> mem_read nMoved (xlen self) (xmem self);
     m \<leftarrow> mem_write 0 survivors (xmem self);
     Some (out, self\<lparr>xmem := m\<rparr>)
   }"

section \<open>The cache keeps the four keys mentioned last\<close>

text \<open>The specification: entries, the one mentioned last first.\<close>

definition lru_touch :: "u8 list \<Rightarrow> (u8 list \<times> nat option) list \<Rightarrow> (u8 list \<times> nat option) list" where
  "lru_touch k es = (case map_of es k of None \<Rightarrow> es | Some d \<Rightarrow> (k, d) # filter (\<lambda>e. fst e \<noteq> k) es)"

definition lru_put :: "u8 list \<Rightarrow> nat option \<Rightarrow> (u8 list \<times> nat option) list \<Rightarrow> (u8 list \<times> nat option) list" where
  "lru_put k d es = (if map_of es k = None then take DMGR_MAX_DICTS ((k, d) # es) else lru_touch k es)"

definition entry_pair :: "u8 list \<times> nat option \<Rightarrow> dictPair" where
  "entry_pair e = \<lparr>dkey = Some (fst e), ddict = snd e\<rparr>"

definition empty_pair :: dictPair where
  "empty_pair = \<lparr>dkey = None, ddict = None\<rparr>"

text \<open>The slots in use come first, and the counts cover the references the cache holds.\<close>

definition cache_refs :: "(u8 list \<times> nat option) list \<Rightarrow> nat \<Rightarrow> nat" where
  "cache_refs es i = count_list (map snd es) (Some i)"

definition dmgr_rep :: "(u8 list \<times> nat option) list \<Rightarrow> (nat \<Rightarrow> nat) \<Rightarrow> dictMgr \<Rightarrow> bool" where
  "dmgr_rep es base m \<longleftrightarrow>
     distinct (map fst es) \<and> length es \<le> DMGR_MAX_DICTS \<and>
     dpairs m = map entry_pair es @ replicate (DMGR_MAX_DICTS - length es) empty_pair \<and>
     (\<forall>i. refCount m i = base i + cache_refs es i)"

lemma findFor_loop_spec:
  "findFor_loop k (map entry_pair es @ replicate n empty_pair) ii =
     (if map_of es k = None then None
      else Some (ii + length (takeWhile (\<lambda>e. fst e \<noteq> k) es)))"
proof (induction es arbitrary: ii)
  case Nil
  show ?case by (induction n arbitrary: ii) (auto simp: empty_pair_def)
next
  case (Cons e es)
  then show ?case by (cases e) (auto simp: entry_pair_def)
qed

lemma split_at_key:
  assumes "distinct (map fst es)" and "map_of es k = Some d"
  obtains as bs where "es = as @ (k, d) # bs" "length (takeWhile (\<lambda>e. fst e \<noteq> k) es) = length as"
    "lru_touch k es = (k, d) # as @ bs"
proof -
  obtain as bs where es: "es = as @ (k, d) # bs" using assms(2) by (meson map_of_SomeD split_list)
  have k: "\<forall>e \<in> set as. fst e \<noteq> k" "\<forall>e \<in> set bs. fst e \<noteq> k"
    using assms(1) unfolding es by (simp_all add: image_iff) metis+
  have "length (takeWhile (\<lambda>e. fst e \<noteq> k) es) = length as" using k(1) by (simp add: es takeWhile_append)
  moreover have "lru_touch k es = (k, d) # as @ bs"
    using assms(2) k by (simp add: lru_touch_def) (simp add: es filter_id_conv)
  ultimately show thesis using that es by blast
qed

lemma moveToFront_eq:
  assumes "dpairs m = xs @ p # ys"
  shows "moveToFront m (length xs) = Some (m\<lparr>dpairs := p # xs @ ys\<rparr>)"
  using assms by (cases xs) (auto simp: moveToFront_def mem_write_def nth_append)


lemma cache_refs_Cons [simp]:
  "cache_refs ((k, d) # es) i = cache_refs es i + (if d = Some i then 1 else 0)"
  "cache_refs [] i = 0"
  by (simp_all add: cache_refs_def)

lemma cache_refs_append [simp]: "cache_refs (xs @ ys) i = cache_refs xs i + cache_refs ys i"
  by (simp add: cache_refs_def)

lemma dmgr_rep_touch:
  assumes rep: "dmgr_rep es base m" and k: "map_of es k = Some d"
  shows "\<exists>m'. moveToFront m (length (takeWhile (\<lambda>e. fst e \<noteq> k) es)) = Some m' \<and>
           dmgr_rep (lru_touch k es) base m' \<and> refCount m' = refCount m \<and>
           dpairs m ! length (takeWhile (\<lambda>e. fst e \<noteq> k) es) = entry_pair (k, d) \<and>
           length (takeWhile (\<lambda>e. fst e \<noteq> k) es) < length (dpairs m)"
proof -
  have dist: "distinct (map fst es)" using rep by (simp add: dmgr_rep_def)
  from split_at_key[OF dist k] obtain as bs where
    es: "es = as @ (k, d) # bs" and l: "length (takeWhile (\<lambda>e. fst e \<noteq> k) es) = length as"
      and t: "lru_touch k es = (k, d) # as @ bs" .
  define n where "n = DMGR_MAX_DICTS - length es"
  have p: "dpairs m = map entry_pair as @ entry_pair (k, d) # (map entry_pair bs @ replicate n empty_pair)"
    using rep by (simp add: dmgr_rep_def es n_def)
  from moveToFront_eq[OF p] show ?thesis
    using rep unfolding l t
    by (auto simp: dmgr_rep_def es n_def nth_append p)
qed

lemma findFor_rep:
  assumes "dmgr_rep es base m"
  shows "findFor m k = (if map_of es k = None then None
      else Some (length (takeWhile (\<lambda>e. fst e \<noteq> k) es)))"
proof -
  have "dpairs m = map entry_pair es @ replicate (DMGR_MAX_DICTS - length es) empty_pair"
    using assms by (simp add: dmgr_rep_def)
  then show ?thesis unfolding findFor_def by (simp only: findFor_loop_spec add_0)
qed

lemma dmgr_get_rep:
  assumes rep: "dmgr_rep es base m"
  shows "\<exists>m'. dmgr_get m k = Some (case map_of es k of None \<Rightarrow> None | Some d \<Rightarrow> d, m') \<and>
           dmgr_rep (lru_touch k es)
             (\<lambda>i. base i + (if map_of es k = Some (Some i) then 1 else 0)) m'"
proof -
  note f = findFor_rep[OF rep, of k]
  show ?thesis
  proof (cases "map_of es k")
    case None
    then show ?thesis using rep f by (simp add: dmgr_get_def lru_touch_def)
  next
    case (Some d)
    define base' where "base' = (\<lambda>i. base i + (if map_of es k = Some (Some i) then 1 else 0))"
    have rep': "dmgr_rep es base' (dict_ref d m)"
      using rep Some by (cases d) (auto simp: dmgr_rep_def dict_ref_def base'_def)
    from dmgr_rep_touch[OF rep Some] have at: "dpairs m ! length (takeWhile (\<lambda>e. fst e \<noteq> k) es) = entry_pair (k, d)"
        "length (takeWhile (\<lambda>e. fst e \<noteq> k) es) < length (dpairs m)" by auto
    from dmgr_rep_touch[OF rep' Some] obtain m' where
      "moveToFront (dict_ref d m) (length (takeWhile (\<lambda>e. fst e \<noteq> k) es)) = Some m'"
      "dmgr_rep (lru_touch k es) base' m'" by auto
    then show ?thesis
      using f Some at by (simp add: dmgr_get_def entry_pair_def base'_def)
  qed
qed

lemma dmgr_put_rep:
  assumes rep: "dmgr_rep es base m"
  shows "\<exists>m'. dmgr_put m k d = Some m' \<and> dmgr_rep (lru_put k d es) base m'"
proof -
  note f = findFor_rep[OF rep, of k]
  show ?thesis
  proof (cases "map_of es k")
    case (Some d')
    from dmgr_rep_touch[OF rep Some] f Some show ?thesis by (auto simp: dmgr_put_def lru_put_def)
  next
    case None
    then have new: "k \<notin> fst ` set es" by (simp add: map_of_eq_None_iff)
    have d: "distinct (map fst es)" "length es \<le> 4"
      "dpairs m = map entry_pair es @ replicate (4 - length es) empty_pair"
      "\<And>i. refCount m i = base i + cache_refs es i"
      using rep by (simp_all add: dmgr_rep_def DMGR_MAX_DICTS_def)
    show ?thesis
    proof (cases "length es = 4")
      case True
      then obtain fr l where es: "es = fr @ [l]" "length fr = 3"
        by (cases es rule: rev_cases) auto
      obtain kl dl where l: "l = (kl, dl)" by (cases l)
      have p: "dpairs m = map entry_pair fr @ entry_pair l # []" using d(3) es by simp
      have put: "lru_put k d es = (k, d) # fr"
        using None es by (simp add: lru_put_def DMGR_MAX_DICTS_def)
      have mv: "moveToFront m 3 = Some (m\<lparr>dpairs := entry_pair l # map entry_pair fr @ []\<rparr>)"
        using moveToFront_eq[OF p] es by simp
      show ?thesis
        using None f mv p es l d(1,4) new unfolding put
        by (cases dl; cases d)
          (auto simp: dmgr_put_def entry_pair_def dict_unref_def dict_ref_def dmgr_rep_def
            DMGR_MAX_DICTS_def p_replaceStringIfDifferent_def p_copyString_def)
    next
      case False
      then obtain n where n: "4 - length es = Suc n" using d(2) by (cases "4 - length es") auto
      have p: "dpairs m = (map entry_pair es @ replicate n empty_pair) @ empty_pair # []"
        using d(3) n by (simp add: replicate_append_same)
      have l3: "length (map entry_pair es @ replicate n empty_pair) = 3" using n by simp
      have put: "lru_put k d es = (k, d) # es"
        using None d(2) False by (simp add: lru_put_def DMGR_MAX_DICTS_def)
      have mv: "moveToFront m 3 = Some (m\<lparr>dpairs := empty_pair # map entry_pair es @ replicate n empty_pair\<rparr>)"
        using moveToFront_eq[OF p] l3 by simp
      have "length (dpairs m) = 4" using p l3 by simp
      then show ?thesis
        using None f mv d(1,2,4) n new False unfolding put
        by (cases d)
          (auto simp: dmgr_put_def entry_pair_def dict_unref_def dict_ref_def dmgr_rep_def
            DMGR_MAX_DICTS_def p_replaceStringIfDifferent_def p_copyString_def empty_pair_def)
    qed
  qed
qed

section \<open>The growing list is a queue\<close>

definition xlist_abs :: "xwlist \<Rightarrow> nat list" where
  "xlist_abs s = take (xlen s) (xmem s)"

text \<open>The allocated size is 0 or a power of two.\<close>

definition xlist_inv :: "xwlist \<Rightarrow> bool" where
  "xlist_inv s \<longleftrightarrow> length (xmem s) = xsize s \<and> xlen s \<le> xsize s \<and>
     (xsize s = 0 \<or> (\<exists>j. 1 \<le> j \<and> j \<le> 15 \<and> xsize s = 2 ^ j))"

lemma xlist_length: "xlist_inv s \<Longrightarrow> length (xlist_abs s) = xlen s"
  by (simp add: xlist_inv_def xlist_abs_def)

lemma mem_put_take: "n < length m \<Longrightarrow> take (Suc n) (m[n := x]) = take n m @ [x]"
  by (simp add: take_Suc_conv_app_nth)

lemma pow2_step:
  assumes "j \<le> 15" "(2 :: nat) ^ j < 32768"
  shows "j \<le> 14"
proof -
  have "(2 :: nat) ^ j < 2 ^ 15" using assms(2) by simp
  then have "j < 15" by (rule power_less_imp_less_exp[rotated]) simp
  then show ?thesis by simp
qed

lemma list_append_spec:
  assumes inv: "xlist_inv s" and room: "length (xlist_abs s) < 32768"
  shows "\<exists>t. list_append s x = Some t \<and> xlist_inv t \<and> xlist_abs t = xlist_abs s @ [x]"
proof -
  define s1 where "s1 = (if xsize s = 0 then s\<lparr>xsize := 2, xmem := replicate 2 0\<rparr> else s)"
  have i1: "xlist_inv s1" "xlist_abs s1 = xlist_abs s" "xlen s1 = xlen s" "xsize s1 \<noteq> 0"
  proof -
    show "xlist_inv s1" using inv by (auto simp: s1_def xlist_inv_def intro: exI[of _ 1])
    show "xlist_abs s1 = xlist_abs s" "xlen s1 = xlen s" "xsize s1 \<noteq> 0"
      using inv by (auto simp: s1_def xlist_inv_def xlist_abs_def)
  qed
  have n: "xlen s1 < 32768" using room xlist_length[OF inv] i1(3) by simp
  define s2 where "s2 = (if xlen s1 = xsize s1
                 then let n = trunc16 (xsize s1 * 2)
                      in s1\<lparr>xsize := n, xmem := take n (xmem s1 @ replicate n 0)\<rparr>
                 else s1)"
  have i2: "xlist_inv s2 \<and> xlist_abs s2 = xlist_abs s1 \<and> xlen s2 = xlen s1 \<and> xlen s2 < xsize s2"
  proof (cases "xlen s1 = xsize s1")
    case True
    obtain j where j: "1 \<le> j" "j \<le> 15" "xsize s1 = 2 ^ j"
      using i1(1,4) by (auto simp: xlist_inv_def)
    have j14: "j \<le> 14" using pow2_step[OF j(2)] n True j(3) by simp
    have "(2 :: nat) ^ Suc j \<le> 2 ^ 15" using j14 by (intro power_increasing) auto
    then have e: "trunc16 (2 ^ j * 2) = 2 * 2 ^ j" by (simp add: trunc16_def mult.commute)
    have "length (xmem s1) = 2 ^ j" using i1(1) j(3) by (simp add: xlist_inv_def)
    then show ?thesis
      using True j j14 by (auto simp: s2_def Let_def e xlist_inv_def xlist_abs_def intro!: exI[of _ "Suc j"])
  next
    case False
    then show ?thesis using i1(1,4) by (simp add: s2_def xlist_inv_def)
  qed
  have "list_append s x = Some (s2\<lparr>xmem := (xmem s2)[xlen s2 := x], xlen := trunc16 (xlen s2 + 1)\<rparr>)"
    using i2 unfolding list_append_def s1_def[symmetric] Let_def
    by (simp add: s2_def[unfolded Let_def, symmetric] xlist_inv_def)
  then show ?thesis
    using i2 i1 n by (auto simp: xlist_inv_def xlist_abs_def mem_put_take)
qed

lemma list_remove_front_spec:
  assumes inv: "xlist_inv s"
  shows "\<exists>t. list_remove_front s n = Some (take n (xlist_abs s), t) \<and> xlist_inv t \<and>
             xlist_abs t = drop n (xlist_abs s)"
  using inv
  by (auto simp: list_remove_front_def Let_def xlist_inv_def xlist_abs_def mem_write_def drop_take min_def)

locale fifo =
  fixes inv :: "'s \<Rightarrow> bool" and abs :: "'s \<Rightarrow> 'x list" and bound :: nat
    and append :: "'s \<Rightarrow> 'x \<Rightarrow> 's option" and remove :: "'s \<Rightarrow> nat \<Rightarrow> ('x list \<times> 's) option"
  assumes append: "inv s \<Longrightarrow> length (abs s) < bound \<Longrightarrow>
      \<exists>t. append s x = Some t \<and> inv t \<and> abs t = abs s @ [x]"
    and remove: "inv s \<Longrightarrow> \<exists>t. remove s n = Some (take n (abs s), t) \<and> inv t \<and> abs t = drop n (abs s)"
begin

lemma append_all:
  assumes "inv s" and "length (abs s) + length xs \<le> bound"
  shows "\<exists>t. ofold append s xs = Some t \<and> inv t \<and> abs t = abs s @ xs"
  using assms
proof (induction xs arbitrary: s)
  case (Cons x xs)
  then obtain t where t: "append s x = Some t" "inv t" "abs t = abs s @ [x]"
    using append[of s x] by fastforce
  from Cons.IH[OF t(2)] t Cons.prems(2) show ?case by auto
qed simp

text \<open>What goes in comes out once, in order.\<close>

lemma first_in_first_out:
  assumes "inv s" and "abs s = []" and "length xs \<le> bound"
  shows "\<exists>t u. ofold append s xs = Some t \<and> remove t (length xs) = Some (xs, u) \<and> abs u = []"
proof -
  from append_all[OF assms(1), of xs] assms(2,3) obtain t where
    t: "ofold append s xs = Some t" "inv t" "abs t = xs" by auto
  from remove[OF t(2), of "length xs"] t show ?thesis by auto
qed

end

interpretation xwlist: fifo xlist_inv xlist_abs 32768 list_append list_remove_front
  using list_append_spec list_remove_front_spec by unfold_locales auto

section \<open>Properties\<close>

text \<open>C28: The dictionary cache is exactly a least-recently-used list of four: \<open>dmgr_get\<close> returns
  the dictionary stored under the key, or none, makes it the last one used and hands out one
  more reference; \<open>dmgr_put\<close> stores a new key in front, dropping the one unused longest and
  its reference, and only touches a key that is there.\<close>

theorem dmgr_is_lru:
  assumes "dmgr_rep es base dmgr"
  shows "(\<exists>m. dmgr_get dmgr key = Some (case map_of es key of None \<Rightarrow> None | Some d \<Rightarrow> d, m) \<and>
            dmgr_rep (lru_touch key es)
              (\<lambda>i. base i + (if map_of es key = Some (Some i) then 1 else 0)) m) \<and>
         (\<exists>m. dmgr_put dmgr key dict = Some m \<and> dmgr_rep (lru_put key dict es) base m)"
  using dmgr_get_rep[OF assms] dmgr_put_rep[OF assms] by blast

theorem dmgr_is_lru_witness:
  "(\<exists>m. dmgr_get (dmgr_make (\<lambda>i. 1)) [65] = Some (case map_of [] [65 :: u8] of None \<Rightarrow> None | Some d \<Rightarrow> d, m) \<and>
      dmgr_rep (lru_touch [65] []) (\<lambda>i. 1 + (if map_of [] [65 :: u8] = Some (Some i) then 1 else 0)) m) \<and>
   (\<exists>m. dmgr_put (dmgr_make (\<lambda>i. 1)) [65] (Some 7) = Some m \<and>
      dmgr_rep (lru_put [65] (Some 7) []) (\<lambda>i. 1) m)"
  by (rule dmgr_is_lru) (simp add: dmgr_rep_def dmgr_make_def empty_pair_def cache_refs_def)

end
