(* ===== verification/Xw_Pool.thy ===== *)
theory Xw_Pool
  imports Xw_StrUtils
begin

text \<open>
  \<open>common/pool.c\<close>: the tiles not yet drawn, as an array of counts per face and their total.
  The answers of the random generator are a parameter, one per call.

  The specification is a bag of tiles: the locale \<open>tile_bag\<close> states what the pool's clients rely
  on, and is interpreted on the operations of the code.
\<close>

section \<open>State and operations\<close>

record poolContext =
  lettersLeft :: "u8 list"
  numTilesLeft :: nat
  numFaces :: nat

definition pool_make :: poolContext where
  "pool_make = \<lparr>lettersLeft = [], numTilesLeft = 0, numFaces = 0\<rparr>"

definition pool_writeToStream :: "poolContext \<Rightarrow> mem_stream \<Rightarrow> mem_stream option" where
  "pool_writeToStream pool stream = do {
     stream \<leftarrow> mem_stream_putU16 stream (of_nat (numTilesLeft pool));
     stream \<leftarrow> mem_stream_putU16 stream (of_nat (numFaces pool));
     bs \<leftarrow> mem_read 0 (numFaces pool) (lettersLeft pool);
     mem_stream_putBytes stream bs
   }"

definition pool_makeFromStream :: "mem_stream \<Rightarrow> (poolContext \<times> mem_stream) option" where
  "pool_makeFromStream stream = do {
     let pool = pool_make;
     (n, stream) \<leftarrow> mem_stream_getU16 stream;
     let pool = pool\<lparr>numTilesLeft := unat n\<rparr>;
     (f, stream) \<leftarrow> mem_stream_getU16 stream;
     let pool = pool\<lparr>numFaces := unat f\<rparr>;
     (ls, stream) \<leftarrow> mem_stream_getBytes stream (numFaces pool);
     Some (pool\<lparr>lettersLeft := ls\<rparr>, stream)
   }"

text \<open>Subtract each count in turn; running past the array is an access outside it.\<close>

fun getNthPoolTile_loop :: "u8 list \<Rightarrow> int \<Rightarrow> nat \<Rightarrow> tile option" where
  "getNthPoolTile_loop [] nextCount curLetter = None"
| "getNthPoolTile_loop (left # lefts) nextCount curLetter =
     (let nextCount = nextCount - int (unat left)
      in if nextCount < 0
         then do { xp_assert (left > 0); Some (of_nat curLetter) }
         else getNthPoolTile_loop lefts nextCount (curLetter + 1))"

definition getNthPoolTile :: "poolContext \<Rightarrow> nat \<Rightarrow> tile option" where
  "getNthPoolTile pool index = getNthPoolTile_loop (lettersLeft pool) (int index) 0"

definition getRandomTile :: "nat \<Rightarrow> poolContext \<Rightarrow> (tile \<times> poolContext) option" where
  "getRandomTile random pool = do {
     let rr = trunc16 (random div 65536);
     xp_assert (numTilesLeft pool \<noteq> 0);
     let index = rr mod numTilesLeft pool;
     result \<leftarrow> getNthPoolTile pool index;
     left \<leftarrow> mem_get (unat result) (lettersLeft pool);
     ls \<leftarrow> mem_put (unat result) (left - 1) (lettersLeft pool);
     Some (result, pool\<lparr>lettersLeft := ls, numTilesLeft := sub16 (numTilesLeft pool) 1\<rparr>)
   }"

fun pool_requestTiles_loop ::
    "(nat \<Rightarrow> nat) \<Rightarrow> nat \<Rightarrow> poolContext \<Rightarrow> nat \<Rightarrow> tile list \<Rightarrow> (tile list \<times> poolContext) option" where
  "pool_requestTiles_loop rnd k pool 0 tiles = Some (tiles, pool)"
| "pool_requestTiles_loop rnd k pool (Suc numWanted) tiles =
     (if numTilesLeft pool > 0 then do {
        (t, pool) \<leftarrow> getRandomTile (rnd k) pool;
        pool_requestTiles_loop rnd (k + 1) pool numWanted (tiles @ [t])
      } else Some (tiles, pool))"

definition pool_requestTiles ::
    "(nat \<Rightarrow> nat) \<Rightarrow> poolContext \<Rightarrow> nat \<Rightarrow> (tile list \<times> poolContext) option" where
  "pool_requestTiles rnd pool maxNum = do {
     xp_assert (maxNum < 32768);
     pool_requestTiles_loop rnd 0 pool maxNum []
   }"

text \<open>The loop counts \<open>nTiles\<close> down, so its first round sees the largest value.\<close>

fun pool_replaceTiles2 :: "poolContext \<Rightarrow> tile list \<Rightarrow> poolContext option" where
  "pool_replaceTiles2 pool [] = Some pool"
| "pool_replaceTiles2 pool (t # tilesP) = do {
     xp_assert (length tilesP < MAX_TRAY_TILES);
     xp_assert (unat t < numFaces pool);
     left \<leftarrow> mem_get (unat t) (lettersLeft pool);
     ls \<leftarrow> mem_put (unat t) (left + 1) (lettersLeft pool);
     pool_replaceTiles2
       (pool\<lparr>lettersLeft := ls, numTilesLeft := trunc16 (numTilesLeft pool + 1)\<rparr>) tilesP
   }"

definition pool_replaceTiles :: "poolContext \<Rightarrow> trayTileSet \<Rightarrow> poolContext option" where
  "pool_replaceTiles pool tiles = pool_replaceTiles2 pool tiles"

definition removeOneTile :: "poolContext \<Rightarrow> tile \<Rightarrow> poolContext option" where
  "removeOneTile pool t = do {
     xp_assert (unat t < numFaces pool);
     left \<leftarrow> mem_get (unat t) (lettersLeft pool);
     xp_assert (left > 0);
     xp_assert (numTilesLeft pool > 0);
     ls \<leftarrow> mem_put (unat t) (left - 1) (lettersLeft pool);
     Some (pool\<lparr>lettersLeft := ls, numTilesLeft := sub16 (numTilesLeft pool) 1\<rparr>)
   }"

definition pool_removeTiles :: "poolContext \<Rightarrow> trayTileSet \<Rightarrow> poolContext option" where
  "pool_removeTiles pool tiles = do {
     xp_assert (length tiles \<le> MAX_TRAY_TILES);
     ofold removeOneTile pool tiles
   }"

fun pool_containsTiles_loop :: "u8 list \<Rightarrow> tile list \<Rightarrow> bool option" where
  "pool_containsTiles_loop counts [] = Some True"
| "pool_containsTiles_loop counts (t # tiles) = do {
     c \<leftarrow> mem_get (unat t) counts;
     counts \<leftarrow> mem_put (unat t) (c - 1) counts;
     if 0 < c then pool_containsTiles_loop counts tiles else Some False
   }"

definition pool_containsTiles :: "poolContext \<Rightarrow> trayTileSet \<Rightarrow> bool option" where
  "pool_containsTiles pool tiles = do {
     counts \<leftarrow> mem_read 0 (numFaces pool) (lettersLeft pool);
     pool_containsTiles_loop counts tiles
   }"

definition pool_getNTilesLeft :: "poolContext \<Rightarrow> nat" where
  "pool_getNTilesLeft pool = numTilesLeft pool"

definition pool_getNTilesLeftFor :: "poolContext \<Rightarrow> tile \<Rightarrow> nat option" where
  "pool_getNTilesLeftFor pool t = do {
     n \<leftarrow> mem_get (unat t) (lettersLeft pool);
     Some (unat n)
   }"

text \<open>\<open>numTiles ii\<close> is the dictionary's \<open>dict_numTiles\<close> for the face \<open>ii\<close>.\<close>

definition pool_initFromDict :: "poolContext \<Rightarrow> nat \<Rightarrow> (nat \<Rightarrow> nat) \<Rightarrow> poolContext" where
  "pool_initFromDict pool faces numTiles =
     (let pool = pool\<lparr>lettersLeft := [], numTilesLeft := 0\<rparr>;
          pool = foldl (\<lambda>pool ii. pool
                    \<lparr>lettersLeft := lettersLeft pool @ [of_nat (numTiles ii)],
                     numTilesLeft := trunc16 (numTilesLeft pool + numTiles ii)\<rparr>) pool [0..<faces]
      in pool\<lparr>numFaces := faces\<rparr>)"

text \<open>\<open>checkTilesLeft\<close>, the consistency check of debug builds.\<close>

definition checkTilesLeft :: "poolContext \<Rightarrow> bool" where
  "checkTilesLeft pool \<longleftrightarrow>
     trunc16 (sum_list (map unat (take (numFaces pool) (lettersLeft pool)))) = numTilesLeft pool"

section \<open>The bag a pool stands for\<close>

definition pool_wf :: "poolContext \<Rightarrow> bool" where
  "pool_wf p \<longleftrightarrow>
     length (lettersLeft p) = numFaces p \<and> numFaces p \<le> 256 \<and> numTilesLeft p < 32768 \<and>
     sum_list (map unat (lettersLeft p)) = numTilesLeft p"

definition letters_bag :: "u8 list \<Rightarrow> tile multiset" where
  "letters_bag ls = (\<Sum>i<length ls. replicate_mset (unat (ls ! i)) (of_nat i))"

definition pool_bag :: "poolContext \<Rightarrow> tile multiset" where
  "pool_bag p = letters_bag (lettersLeft p)"

lemma unat_u8_dec: "(w :: u8) > 0 \<Longrightarrow> unat (w - 1) = unat w - 1 \<and> 0 < unat w"
  by (simp add: word_greater_zero_iff unat_minus_one unat_gt_0)

lemma unat_u8_inc: "unat (w :: u8) < 255 \<Longrightarrow> unat (w + 1) = Suc (unat w)"
proof -
  assume w: "unat w < 255"
  have "unat (w + 1) = (unat w + unat (1 :: u8)) mod 256" by (simp add: unat_word_ariths)
  then show ?thesis using w by simp
qed

lemma u8_unat_inj: "unat t = unat x \<Longrightarrow> t = (x :: u8)"
  by (simp add: word_unat_eq_iff)

lemma u8_of_nat_eq: "i < 256 \<Longrightarrow> of_nat i = (t :: u8) \<longleftrightarrow> i = unat t"
  by (auto simp: unat_of_nat_u8)

lemma count_letters_bag:
  assumes "length ls \<le> 256"
  shows "count (letters_bag ls) t = (if unat t < length ls then unat (ls ! unat t) else 0)"
proof -
  have "count (letters_bag ls) t = (\<Sum>i<length ls. if i = unat t then unat (ls ! i) else 0)"
    unfolding letters_bag_def count_sum
    by (rule sum.cong) (use assms in \<open>auto simp: u8_of_nat_eq unat_of_nat_u8\<close>)
  then show ?thesis by simp
qed

lemma size_letters_bag: "size (letters_bag ls) = sum_list (map unat ls)"
  by (simp add: letters_bag_def size_multiset_sum sum_list_sum_nth atLeast0LessThan)

lemma letters_bag_dec:
  assumes "length ls \<le> 256" and "unat t < length ls" and "0 < ls ! unat t"
  shows "letters_bag ls = add_mset t (letters_bag (ls[unat t := ls ! unat t - 1]))"
  using assms unat_u8_dec[OF assms(3)]
  by (intro multiset_eqI) (auto simp: count_letters_bag nth_list_update dest: u8_unat_inj)

lemma letters_bag_inc:
  assumes "length ls \<le> 256" and "unat t < length ls" and "unat (ls ! unat t) < 255"
  shows "letters_bag (ls[unat t := ls ! unat t + 1]) = add_mset t (letters_bag ls)"
  using assms unat_u8_inc[OF assms(3)]
  by (intro multiset_eqI) (auto simp: count_letters_bag nth_list_update dest: u8_unat_inj)

lemma pool_wf_size: "pool_wf p \<Longrightarrow> size (pool_bag p) = numTilesLeft p"
  by (simp add: pool_wf_def pool_bag_def size_letters_bag)

lemma pool_bag_faces: "pool_wf p \<Longrightarrow> t \<in># pool_bag p \<longleftrightarrow> unat t < numFaces p \<and> 0 < lettersLeft p ! unat t"
  by (auto simp: pool_wf_def pool_bag_def count_letters_bag word_less_nat_alt unat_gt_0
      simp flip: count_greater_zero_iff)

lemma pool_dec:
  assumes "pool_wf p" and "unat t < numFaces p" and "0 < lettersLeft p ! unat t"
  defines "q \<equiv> p\<lparr>lettersLeft := (lettersLeft p)[unat t := lettersLeft p ! unat t - 1],
                  numTilesLeft := sub16 (numTilesLeft p) 1\<rparr>"
  shows "pool_wf q" and "pool_bag p = add_mset t (pool_bag q)" and "0 < numTilesLeft p"
proof -
  have d: "letters_bag (lettersLeft p) = add_mset t (letters_bag ((lettersLeft p)[unat t := lettersLeft p ! unat t - 1]))"
    using assms(1-3) by (intro letters_bag_dec) (auto simp: pool_wf_def)
  then show b: "pool_bag p = add_mset t (pool_bag q)" by (simp add: pool_bag_def q_def)
  have "size (pool_bag q) + 1 = numTilesLeft p" using pool_wf_size[OF assms(1)] b by simp
  then show "0 < numTilesLeft p" "pool_wf q"
    using assms(1) by (auto simp: pool_wf_def q_def pool_bag_def size_letters_bag)
qed

lemma pool_inc:
  assumes "pool_wf p" and "unat t < numFaces p" and "unat (lettersLeft p ! unat t) < 255"
    and "numTilesLeft p < 32767"
  defines "q \<equiv> p\<lparr>lettersLeft := (lettersLeft p)[unat t := lettersLeft p ! unat t + 1],
                  numTilesLeft := trunc16 (numTilesLeft p + 1)\<rparr>"
  shows "pool_wf q" and "pool_bag q = add_mset t (pool_bag p)"
proof -
  have d: "letters_bag ((lettersLeft p)[unat t := lettersLeft p ! unat t + 1]) = add_mset t (letters_bag (lettersLeft p))"
    using assms(1-3) by (intro letters_bag_inc) (auto simp: pool_wf_def)
  then show b: "pool_bag q = add_mset t (pool_bag p)" by (simp add: pool_bag_def q_def)
  have "size (pool_bag q) = numTilesLeft p + 1" using pool_wf_size[OF assms(1)] b by simp
  then show "pool_wf q"
    using assms(1,4) by (auto simp: pool_wf_def q_def pool_bag_def size_letters_bag)
qed

section \<open>The operations on the bag\<close>

lemma getNthPoolTile_loop_spec:
  assumes "0 \<le> next" and "next < int (sum_list (map unat ls))" and "cur + length ls \<le> 256"
  shows "\<exists>i < length ls. getNthPoolTile_loop ls next cur = Some (of_nat (cur + i)) \<and> 0 < ls ! i"
  using assms
proof (induction ls arbitrary: "next" cur)
  case (Cons l ls)
  show ?case
  proof (cases "next - int (unat l) < 0")
    case True
    then have "0 < unat l" using Cons.prems(1) by linarith
    then have "0 < l" by (simp add: word_less_nat_alt)
    then show ?thesis using True by (intro exI[of _ 0]) (simp add: Let_def)
  next
    case False
    then obtain i where "i < length ls"
        "getNthPoolTile_loop ls (next - int (unat l)) (cur + 1) = Some (of_nat (cur + 1 + i))" "0 < ls ! i"
      using Cons.IH[of "next - int (unat l)" "cur + 1"] Cons.prems by auto
    then show ?thesis using False by (intro exI[of _ "Suc i"]) (simp add: Let_def)
  qed
qed simp

lemma getRandomTile_spec:
  assumes wf: "pool_wf p" and pos: "0 < numTilesLeft p"
  shows "\<exists>t q. getRandomTile r p = Some (t, q) \<and> pool_wf q \<and>
           pool_bag p = add_mset t (pool_bag q) \<and> numTilesLeft q + 1 = numTilesLeft p \<and>
           numFaces q = numFaces p"
proof -
  define idx where "idx = trunc16 (r div 65536) mod numTilesLeft p"
  have "int idx < int (sum_list (map unat (lettersLeft p)))"
    using wf pos by (simp add: pool_wf_def idx_def)
  from getNthPoolTile_loop_spec[OF _ this, of 0] wf obtain i where i: "i < length (lettersLeft p)"
      "getNthPoolTile p idx = Some (of_nat i)" "0 < lettersLeft p ! i"
    by (auto simp: getNthPoolTile_def pool_wf_def)
  define t :: tile where "t = of_nat i"
  have ti: "unat t = i" using i(1) wf by (simp add: t_def pool_wf_def unat_of_nat_u8)
  have tf: "unat t < numFaces p" "0 < lettersLeft p ! unat t"
    using i ti wf by (simp_all add: pool_wf_def)
  have s: "Suc (sub16 (numTilesLeft p) (Suc 0)) = numTilesLeft p"
    using wf pos by (subst sub16_id) (auto simp: pool_wf_def)
  note D = pool_dec[OF wf tf]
  show ?thesis
    using i ti tf D wf pos s
    by (simp add: getRandomTile_def Let_def t_def[symmetric] pool_wf_def flip: idx_def)
qed

lemma pool_requestTiles_loop_spec:
  assumes "pool_wf p"
  shows "\<exists>ts q. pool_requestTiles_loop rnd k p n acc = Some (acc @ ts, q) \<and> pool_wf q \<and>
           pool_bag p = pool_bag q + mset ts \<and> length ts = min n (numTilesLeft p) \<and>
           numFaces q = numFaces p"
  using assms
proof (induction n arbitrary: k p acc)
  case (Suc n)
  show ?case
  proof (cases "numTilesLeft p = 0")
    case False
    then obtain t q where q: "getRandomTile (rnd k) p = Some (t, q)" "pool_wf q"
        "pool_bag p = add_mset t (pool_bag q)" "numTilesLeft q + 1 = numTilesLeft p" "numFaces q = numFaces p"
      using getRandomTile_spec[OF Suc.prems, of "rnd k"] by auto
    from Suc.IH[OF q(2), of "k + 1" "acc @ [t]"] obtain ts r where
      r: "pool_requestTiles_loop rnd (k + 1) q n (acc @ [t]) = Some ((acc @ [t]) @ ts, r)" "pool_wf r"
        "pool_bag q = pool_bag r + mset ts" "length ts = min n (numTilesLeft q)" "numFaces r = numFaces q"
      by blast
    show ?thesis
      using False q r by (intro exI[of _ "t # ts"] exI[of _ r]) auto
  qed (use Suc.prems in simp)
qed simp

lemma pool_requestTiles_spec:
  assumes "pool_wf p" and "n < 32768"
  shows "\<exists>ts q. pool_requestTiles rnd p n = Some (ts, q) \<and> pool_wf q \<and>
           pool_bag p = pool_bag q + mset ts \<and> length ts = min n (numTilesLeft p) \<and>
           numFaces q = numFaces p"
  using pool_requestTiles_loop_spec[OF assms(1), of rnd 0 n "[]"] assms(2)
  by (simp add: pool_requestTiles_def)

lemma removeOneTile_spec:
  assumes wf: "pool_wf p"
  shows "removeOneTile p t = (if t \<in># pool_bag p
           then Some (p\<lparr>lettersLeft := (lettersLeft p)[unat t := lettersLeft p ! unat t - 1],
                        numTilesLeft := sub16 (numTilesLeft p) 1\<rparr>) else None)"
proof (cases "t \<in># pool_bag p")
  case True
  then have t: "unat t < numFaces p" "0 < lettersLeft p ! unat t" using pool_bag_faces[OF wf] by auto
  then show ?thesis
    using True pool_dec(3)[OF wf t] wf by (simp add: removeOneTile_def pool_wf_def)
next
  case False
  have "removeOneTile p t \<noteq> Some q" for q
    using False pool_bag_faces[OF wf, of t] by (auto simp: removeOneTile_def bind_unit_Some)
  then show ?thesis using False by (cases "removeOneTile p t") auto
qed

lemma removeOneTile_bag:
  assumes "pool_wf p" and "removeOneTile p t = Some q"
  shows "pool_wf q" "pool_bag p = add_mset t (pool_bag q)" "numFaces q = numFaces p"
proof -
  have t: "t \<in># pool_bag p" and q: "q = p\<lparr>lettersLeft := (lettersLeft p)[unat t := lettersLeft p ! unat t - 1],
      numTilesLeft := sub16 (numTilesLeft p) 1\<rparr>"
    using assms(2) removeOneTile_spec[OF assms(1), of t] by (auto split: if_splits)
  have "unat t < numFaces p" "0 < lettersLeft p ! unat t" using t pool_bag_faces[OF assms(1)] by auto
  from pool_dec[OF assms(1) this] show "pool_wf q" "pool_bag p = add_mset t (pool_bag q)"
    "numFaces q = numFaces p" by (simp_all add: q)
qed

lemma removeTiles_loop_spec:
  assumes "pool_wf p"
  shows "if mset ts \<subseteq># pool_bag p
         then \<exists>q. ofold removeOneTile p ts = Some q \<and> pool_wf q \<and> pool_bag p = pool_bag q + mset ts \<and>
              numFaces q = numFaces p
         else ofold removeOneTile p ts = None"
  using assms
proof (induction ts arbitrary: p)
  case (Cons t ts)
  show ?case
  proof (cases "removeOneTile p t")
    case None
    then have "t \<notin># pool_bag p" using removeOneTile_spec[OF Cons.prems, of t] by (auto split: if_splits)
    then have "\<not> mset (t # ts) \<subseteq># pool_bag p" by (auto dest: mset_subset_eqD)
    then show ?thesis using None by simp
  next
    case (Some q)
    note Q = removeOneTile_bag[OF Cons.prems Some]
    from Cons.IH[OF Q(1)] Q(2,3) Some show ?thesis by (auto split: if_splits)
  qed
qed simp

lemma containsTiles_loop_spec:
  assumes "length ls \<le> 256" and "\<forall>t \<in> set ts. unat t < length ls"
  shows "pool_containsTiles_loop ls ts = Some (mset ts \<subseteq># letters_bag ls)"
  using assms
proof (induction ts arbitrary: ls)
  case (Cons t ts)
  let ?ls = "ls[unat t := ls ! unat t - 1]"
  show ?case
  proof (cases "0 < ls ! unat t")
    case True
    then have "letters_bag ls = add_mset t (letters_bag ?ls)"
      using Cons.prems by (intro letters_bag_dec) auto
    then show ?thesis using Cons.IH[of ?ls] Cons.prems True by simp
  next
    case False
    then have "t \<notin># letters_bag ls"
      using count_letters_bag[OF Cons.prems(1), of t]
      by (auto simp: word_less_nat_alt simp flip: count_greater_zero_iff)
    then have "\<not> mset (t # ts) \<subseteq># letters_bag ls" by (auto dest: mset_subset_eqD)
    then show ?thesis using Cons.prems False by simp
  qed
qed simp

lemma replaceTiles2_spec:
  assumes "pool_wf p" and "length ts \<le> MAX_TRAY_TILES" and "\<forall>t \<in> set ts. unat t < numFaces p"
    and "\<forall>t. count (pool_bag p + mset ts) t \<le> 255" and "numTilesLeft p + length ts < 32768"
  shows "\<exists>q. pool_replaceTiles2 p ts = Some q \<and> pool_wf q \<and> pool_bag q = pool_bag p + mset ts \<and>
             numFaces q = numFaces p"
  using assms
proof (induction ts arbitrary: p)
  case (Cons t ts)
  have t: "unat t < numFaces p" using Cons.prems(3) by simp
  have len: "length (lettersLeft p) = numFaces p" "numFaces p \<le> 256"
    using Cons.prems(1) by (simp_all add: pool_wf_def)
  have "count (pool_bag p) t + 1 \<le> 255" using spec[OF Cons.prems(4), of t] by simp
  then have "unat (lettersLeft p ! unat t) < 255"
    using t len by (simp add: pool_bag_def count_letters_bag)
  note I = pool_inc[OF Cons.prems(1) t this]
  define q where "q = p\<lparr>lettersLeft := (lettersLeft p)[unat t := lettersLeft p ! unat t + 1],
                  numTilesLeft := trunc16 (numTilesLeft p + 1)\<rparr>"
  have q: "pool_wf q" "pool_bag q = add_mset t (pool_bag p)" "numFaces q = numFaces p"
      "numTilesLeft q = numTilesLeft p + 1"
    using I Cons.prems(5) by (simp_all add: q_def)
  have "pool_bag q + mset ts = pool_bag p + mset (t # ts)" using q(2) by simp
  then have "\<exists>r. pool_replaceTiles2 q ts = Some r \<and> pool_wf r \<and> pool_bag r = pool_bag q + mset ts \<and>
      numFaces r = numFaces q"
    using Cons.prems q by (intro Cons.IH) auto
  moreover have "pool_replaceTiles2 p (t # ts) = pool_replaceTiles2 q ts"
    using t len Cons.prems(2) by (simp add: q_def)
  ultimately show ?case using q by auto
qed simp

section \<open>The interface of a bag of tiles\<close>

locale tile_bag =
  fixes inv :: "'p \<Rightarrow> bool" and bag :: "'p \<Rightarrow> tile multiset" and cap :: "tile multiset"
    and request :: "'p \<Rightarrow> nat \<Rightarrow> (tile list \<times> 'p) option"
    and remove :: "'p \<Rightarrow> tile list \<Rightarrow> 'p option"
    and replace :: "'p \<Rightarrow> tile list \<Rightarrow> 'p option"
    and contains :: "'p \<Rightarrow> tile list \<Rightarrow> bool option"
  assumes request: "inv p \<Longrightarrow> n < 32768 \<Longrightarrow> \<exists>ts q. request p n = Some (ts, q) \<and> inv q \<and>
      bag p = bag q + mset ts \<and> length ts = min n (size (bag p))"
    and remove: "inv p \<Longrightarrow> length ts \<le> MAX_TRAY_TILES \<Longrightarrow>
      if mset ts \<subseteq># bag p then \<exists>q. remove p ts = Some q \<and> inv q \<and> bag p = bag q + mset ts
      else remove p ts = None"
    and replace: "inv p \<Longrightarrow> length ts \<le> MAX_TRAY_TILES \<Longrightarrow> bag p + mset ts \<subseteq># cap \<Longrightarrow>
      \<exists>q. replace p ts = Some q \<and> inv q \<and> bag q = bag p + mset ts"
    and contains: "inv p \<Longrightarrow> mset ts \<subseteq># cap \<Longrightarrow> contains p ts = Some (mset ts \<subseteq># bag p)"
begin

text \<open>Tiles put back restore the bag they were drawn from.\<close>

lemma request_replace:
  assumes "inv p" "bag p \<subseteq># cap" "n \<le> MAX_TRAY_TILES" "request p n = Some (ts, q)"
  shows "\<exists>r. replace q ts = Some r \<and> inv r \<and> bag r = bag p"
proof -
  have n: "n < 32768" using assms(3) by (simp add: MAX_TRAY_TILES_def)
  from request[OF assms(1) n] obtain ts' q' where
    "request p n = Some (ts', q')" "inv q'" "bag p = bag q' + mset ts'" "length ts' = min n (size (bag p))"
    by blast
  with assms(4) have q: "inv q" "bag p = bag q + mset ts" "length ts \<le> n" by simp_all
  have "bag q + mset ts \<subseteq># cap" using q(2) assms(2) by metis
  then show ?thesis using replace[OF q(1), of ts] q(2,3) assms(3) by (metis order_trans)
qed

text \<open>A trade: draw as many as are handed in, then put those back. Nothing is lost and
  nothing is made.\<close>

definition exchange :: "'p \<Rightarrow> tile list \<Rightarrow> (tile list \<times> 'p) option" where
  "exchange p old = do { (new, p) \<leftarrow> request p (length old); p \<leftarrow> replace p old; Some (new, p) }"

lemma exchange_conserves:
  assumes "inv p" "bag p + mset old \<subseteq># cap" "length old \<le> MAX_TRAY_TILES"
  shows "\<exists>new q. exchange p old = Some (new, q) \<and> inv q \<and> bag q + mset new = bag p + mset old \<and>
           length new = min (length old) (size (bag p))"
proof -
  have n: "length old < 32768" using assms(3) by (simp add: MAX_TRAY_TILES_def)
  from request[OF assms(1) n] obtain new q where
    q: "request p (length old) = Some (new, q)" "inv q" "bag p = bag q + mset new"
      "length new = min (length old) (size (bag p))" by blast
  have "bag q + mset old \<subseteq># bag p + mset old" using q(3) by simp
  then have "bag q + mset old \<subseteq># cap" using assms(2) by (rule subset_mset.order_trans)
  from replace[OF q(2) assms(3) this] q show ?thesis by (auto simp: exchange_def)
qed

lemma remove_contains:
  assumes "inv p" "length ts \<le> MAX_TRAY_TILES" "mset ts \<subseteq># cap"
  shows "contains p ts = Some (remove p ts \<noteq> None)"
  using remove[OF assms(1,2)] contains[OF assms(1,3)] by (auto split: if_splits)

end

text \<open>A full set of tiles the counts of a pool can hold.\<close>

definition cap_ok :: "nat \<Rightarrow> tile multiset \<Rightarrow> bool" where
  "cap_ok faces cap \<longleftrightarrow> (\<forall>t \<in># cap. unat t < faces) \<and> (\<forall>t \<in># cap. count cap t \<le> 255) \<and> size cap < 32768"

definition pool_inv :: "nat \<Rightarrow> tile multiset \<Rightarrow> poolContext \<Rightarrow> bool" where
  "pool_inv faces cap p \<longleftrightarrow> pool_wf p \<and> numFaces p = faces \<and> cap_ok faces cap"

lemma cap_ok_subset:
  assumes "cap_ok faces cap" "A \<subseteq># cap"
  shows "\<forall>t \<in># A. unat t < faces" "\<forall>t. count A t \<le> 255" "size A < 32768"
proof -
  show "\<forall>t \<in># A. unat t < faces" using assms by (auto simp: cap_ok_def dest: mset_subset_eqD)
  show "size A < 32768" using assms size_mset_mono[of A cap] by (simp add: cap_ok_def)
  show "\<forall>t. count A t \<le> 255"
  proof
    fix t
    have "count A t \<le> count cap t" using assms(2) by (simp add: subseteq_mset_def)
    moreover have "count cap t \<le> 255"
      using assms(1) by (cases "t \<in># cap") (auto simp: cap_ok_def not_in_iff)
    ultimately show "count A t \<le> 255" by simp
  qed
qed

interpretation pool: tile_bag "pool_inv faces cap" pool_bag cap "pool_requestTiles rnd"
    pool_removeTiles pool_replaceTiles pool_containsTiles for faces cap rnd
proof (unfold_locales, goal_cases)
  case (1 p n)
  then show ?case using pool_requestTiles_spec[of p n rnd] pool_wf_size[of p] by (auto simp: pool_inv_def)
next
  case (2 p ts)
  then have wf: "pool_wf p" by (simp add: pool_inv_def)
  show ?case using removeTiles_loop_spec[OF wf, of ts] 2 by (auto simp: pool_removeTiles_def pool_inv_def)
next
  case (3 p ts)
  then have p: "pool_wf p" "numFaces p = faces" "cap_ok faces cap" by (simp_all add: pool_inv_def)
  note C = cap_ok_subset[OF p(3) 3(3)]
  have "\<exists>q. pool_replaceTiles2 p ts = Some q \<and> pool_wf q \<and> pool_bag q = pool_bag p + mset ts \<and>
             numFaces q = numFaces p"
    using C p 3(2) pool_wf_size[OF p(1)] by (intro replaceTiles2_spec) auto
  then show ?case using p by (auto simp: pool_replaceTiles_def pool_inv_def)
next
  case (4 p ts)
  then have p: "pool_wf p" "numFaces p = faces" "cap_ok faces cap" by (simp_all add: pool_inv_def)
  have "\<forall>t \<in> set ts. unat t < length (lettersLeft p)"
    using cap_ok_subset(1)[OF p(3) 4(2)] p by (simp add: pool_wf_def)
  then show ?case
    using containsTiles_loop_spec[of "lettersLeft p" ts] p
    by (simp add: pool_containsTiles_def pool_wf_def pool_bag_def)
qed

section \<open>Initialisation and the stream\<close>

lemma initFromDict_loop:
  fixes p0 :: poolContext and numTiles :: "nat \<Rightarrow> nat"
  defines "f \<equiv> \<lambda>pool ii. pool\<lparr>lettersLeft := lettersLeft pool @ [of_nat (numTiles ii)],
                     numTilesLeft := trunc16 (numTilesLeft pool + numTiles ii)\<rparr>"
  shows "lettersLeft (foldl f p0 iis) = lettersLeft p0 @ map (\<lambda>i. of_nat (numTiles i)) iis"
    and "numTilesLeft p0 < 65536 \<Longrightarrow>
         numTilesLeft (foldl f p0 iis) = trunc16 (numTilesLeft p0 + sum_list (map numTiles iis))"
  by (induction iis arbitrary: p0) (auto simp: f_def trunc16_def mod_add_left_eq mod_add_right_eq add.assoc)

lemma pool_initFromDict_spec:
  fixes p :: poolContext
  assumes "faces \<le> 256" and "\<forall>i < faces. numTiles i < 256" and "sum_list (map numTiles [0..<faces]) < 32768"
  defines "q \<equiv> pool_initFromDict p faces numTiles"
  shows "pool_wf q" and "numFaces q = faces"
    and "count (pool_bag q) t = (if unat t < faces then numTiles (unat t) else 0)"
proof -
  have L: "lettersLeft q = map (\<lambda>i. of_nat (numTiles i)) [0..<faces]"
    by (simp add: q_def pool_initFromDict_def Let_def initFromDict_loop(1))
  have N: "numTilesLeft q = sum_list (map numTiles [0..<faces])"
    using assms(3) initFromDict_loop(2)[of "p\<lparr>lettersLeft := [], numTilesLeft := 0\<rparr>" numTiles "[0..<faces]"]
    by (simp add: q_def pool_initFromDict_def Let_def)
  show F: "numFaces q = faces" by (simp add: q_def pool_initFromDict_def Let_def)
  have m: "map unat (lettersLeft q) = map numTiles [0..<faces]"
    using assms(2) by (simp add: L unat_of_nat_u8)
  show "pool_wf q" using assms(1,3) m by (simp add: pool_wf_def F N, simp add: L)
  show "count (pool_bag q) t = (if unat t < faces then numTiles (unat t) else 0)"
    using assms(1,2) by (simp add: pool_bag_def count_letters_bag L unat_of_nat_u8)
qed

interpretation poolcodec: stream_codec "\<lambda>s p. pool_writeToStream p s" pool_makeFromStream pool_wf
    "\<lambda>p. 4 + numFaces p"
proof -
  have L: "stream_codec
     (\<lambda>s (a, b). do { s \<leftarrow> mem_stream_putU16 s a; mem_stream_putBytes s b })
     (\<lambda>r. do { (a, r) \<leftarrow> mem_stream_getU16 r; (b, r) \<leftarrow> mem_stream_getBytes r (unat a); Some ((a, b), r) })
     (\<lambda>(a, b). True \<and> length b = unat a) (\<lambda>(a, b). 2 + length b)"
    by (rule stream_codec_pair[OF u16.stream_codec_axioms bytes.stream_codec_axioms bytes.put_extends])
  have P: "stream_codec
     (\<lambda>s (n, b). do { s \<leftarrow> mem_stream_putU16 s n; (case b of (a, b) \<Rightarrow>
         do { s \<leftarrow> mem_stream_putU16 s a; mem_stream_putBytes s b }) })
     (\<lambda>r. do { (n, r) \<leftarrow> mem_stream_getU16 r; (b, r) \<leftarrow> do { (a, r) \<leftarrow> mem_stream_getU16 r;
         (b, r) \<leftarrow> mem_stream_getBytes r (unat a); Some ((a, b), r) }; Some ((n, b), r) })
     (\<lambda>(n, b). True \<and> (case b of (a, b) \<Rightarrow> True \<and> length b = unat a))
     (\<lambda>(n, b). 2 + (case b of (a, b) \<Rightarrow> 2 + length b))"
    by (rule stream_codec_pair[OF u16.stream_codec_axioms L L[THEN stream_codec.put_extends]])
  define f where "f = (\<lambda>p :: poolContext. (of_nat (numTilesLeft p) :: u16, of_nat (numFaces p) :: u16,
      take (numFaces p) (lettersLeft p)))"
  have un: "unat (of_nat n :: u16) = n" if "n < 65536" for n
    using that by (simp add: unsigned_of_nat take_bit_nat_eq_self)
  show "stream_codec (\<lambda>s p. pool_writeToStream p s) pool_makeFromStream pool_wf (\<lambda>p. 4 + numFaces p)"
  proof (unfold_locales, goal_cases)
    case (1 s p s')
    then show ?case using stream_codec.put_extends[OF P 1(1), of "f p"]
      by (auto simp: pool_writeToStream_def f_def)
  next
    case (2 s p)
    then show ?case using stream_codec.put_total[OF P 2(1), of "f p"]
      by (auto simp: pool_writeToStream_def f_def pool_wf_def un)
  next
    case (3 s p s' r)
    then show ?case using stream_codec.get_put[OF P 3(1) _ _ 3(4-7), of "f p"]
      by (auto simp: pool_writeToStream_def pool_makeFromStream_def f_def pool_wf_def un Let_def pool_make_def)
  qed
qed

section \<open>Properties\<close>

text \<open>C22: Drawing from a consistent pool always succeeds and conserves the tiles: what is
  drawn and what is left make up the pool as it was, whatever the random generator answers.
  Exactly the number asked for is drawn, or all that is left.\<close>

theorem pool_requestTiles_conserves:
  assumes "pool_wf pool" and "maxNum < 32768"
  shows "\<exists>tiles pool'. pool_requestTiles rnd pool maxNum = Some (tiles, pool') \<and> pool_wf pool' \<and>
           pool_bag pool = pool_bag pool' + mset tiles \<and> length tiles = min maxNum (numTilesLeft pool)"
  using pool_requestTiles_spec[OF assms, of rnd] by blast

theorem pool_requestTiles_conserves_witness:
  "\<exists>tiles pool'. pool_requestTiles (\<lambda>k. 131072 * k) \<lparr>lettersLeft = [2, 0, 3], numTilesLeft = 5, numFaces = 3\<rparr> 4
      = Some (tiles, pool') \<and> pool_wf pool' \<and>
      pool_bag \<lparr>lettersLeft = [2, 0, 3], numTilesLeft = 5, numFaces = 3\<rparr> = pool_bag pool' + mset tiles \<and>
      length tiles = min 4 (numTilesLeft \<lparr>lettersLeft = [2, 0, 3], numTilesLeft = 5, numFaces = 3\<rparr>)"
  by (rule pool_requestTiles_conserves) (simp_all add: pool_wf_def)

lemma letters_bag_two: "letters_bag [a, b] = replicate_mset (unat a) 0 + replicate_mset (unat b) 1"
  by (simp add: letters_bag_def lessThan_Suc add.commute)

lemma letters_bag_example:
  "pool_bag \<lparr>lettersLeft = [2, 3], numTilesLeft = 5, numFaces = 2\<rparr> = {#0, 0, 1, 1, 1#}"
  by (simp add: pool_bag_def letters_bag_two) (simp add: numeral_2_eq_2 numeral_3_eq_3)

text \<open>C21: A trade as the server makes it (draw as many new tiles as are handed in, then put the
  old ones back) succeeds and conserves the tiles: pool and hand together hold the same tiles
  before and after.\<close>

theorem pool_trade_conserves:
  assumes "pool_inv faces cap pool" and "pool_bag pool + mset old \<subseteq># cap" and "length old \<le> MAX_TRAY_TILES"
  shows "\<exists>new pool1 pool2. pool_requestTiles rnd pool (length old) = Some (new, pool1) \<and>
           pool_replaceTiles pool1 old = Some pool2 \<and> pool_inv faces cap pool2 \<and>
           pool_bag pool2 + mset new = pool_bag pool + mset old \<and>
           length new = min (length old) (size (pool_bag pool))"
  using pool.exchange_conserves[OF assms, of rnd] by (auto simp: pool.exchange_def)

theorem pool_trade_conserves_witness:
  "\<exists>new pool1 pool2. pool_requestTiles (\<lambda>k. 65536 * k) \<lparr>lettersLeft = [2, 3], numTilesLeft = 5, numFaces = 2\<rparr>
       (length [1 :: tile, 0]) = Some (new, pool1) \<and>
     pool_replaceTiles pool1 [1, 0] = Some pool2 \<and> pool_inv 2 {#0, 0, 0, 1, 1, 1, 1#} pool2 \<and>
     pool_bag pool2 + mset new = pool_bag \<lparr>lettersLeft = [2, 3], numTilesLeft = 5, numFaces = 2\<rparr> + mset [1, 0] \<and>
     length new = min (length [1 :: tile, 0]) (size (pool_bag \<lparr>lettersLeft = [2, 3], numTilesLeft = 5, numFaces = 2\<rparr>))"
  by (rule pool_trade_conserves)
    (simp_all add: pool_inv_def pool_wf_def cap_ok_def letters_bag_example MAX_TRAY_TILES_def)

text \<open>C34: \<open>pool_containsTiles\<close> tells exactly whether \<open>pool_removeTiles\<close> will find the tiles: it
  answers without running off the array, and removing the tiles then succeeds, leaving the
  rest, or fires an assertion.\<close>

theorem pool_contains_remove:
  assumes "pool_inv faces cap pool" and "length tiles \<le> MAX_TRAY_TILES" and "mset tiles \<subseteq># cap"
  shows "pool_containsTiles pool tiles = Some (pool_removeTiles pool tiles \<noteq> None) \<and>
         (case pool_removeTiles pool tiles of None \<Rightarrow> True
          | Some pool' \<Rightarrow> pool_bag pool = pool_bag pool' + mset tiles)"
  using pool.remove_contains[OF assms] pool.remove[OF assms(1,2)] by (auto split: if_splits option.splits)

theorem pool_contains_remove_witness:
  "pool_containsTiles \<lparr>lettersLeft = [2, 0], numTilesLeft = 2, numFaces = 2\<rparr> [0, 1] =
     Some (pool_removeTiles \<lparr>lettersLeft = [2, 0], numTilesLeft = 2, numFaces = 2\<rparr> [0, 1] \<noteq> None) \<and>
   (case pool_removeTiles \<lparr>lettersLeft = [2, 0], numTilesLeft = 2, numFaces = 2\<rparr> [0, 1] of None \<Rightarrow> True
    | Some pool' \<Rightarrow> pool_bag \<lparr>lettersLeft = [2, 0], numTilesLeft = 2, numFaces = 2\<rparr> = pool_bag pool' + mset [0, 1])"
  by (rule pool_contains_remove[of 2 "{#0, 0, 1#}"])
    (simp_all add: pool_inv_def pool_wf_def cap_ok_def MAX_TRAY_TILES_def)

text \<open>C35: A pool that is set up from a dictionary is consistent and holds exactly the tiles the
  dictionary says, face by face.\<close>

theorem pool_initFromDict_bag:
  assumes "faces \<le> 256" and "\<forall>i < faces. numTiles i < 256" and "sum_list (map numTiles [0..<faces]) < 32768"
  shows "pool_wf (pool_initFromDict pool faces numTiles) \<and>
         (\<forall>t. count (pool_bag (pool_initFromDict pool faces numTiles)) t =
              (if unat t < faces then numTiles (unat t) else 0))"
  using pool_initFromDict_spec(1,3)[OF assms, of pool] by blast

theorem pool_initFromDict_bag_witness:
  "pool_wf (pool_initFromDict pool_make 3 (\<lambda>i. i + 1)) \<and>
   (\<forall>t. count (pool_bag (pool_initFromDict pool_make 3 (\<lambda>i. i + 1))) t = (if unat t < 3 then unat t + 1 else 0))"
  by (rule pool_initFromDict_bag) (simp_all add: upt_rec)

end
