(* ===== verification/Xw_MoveStack.thy ===== *)
theory Xw_MoveStack
  imports Xw_StrUtils
begin

text \<open>
  \<open>common/movestak.c\<close>: the undo stack. Every assignment of tiles, move, trade, phony and pause
  is appended, bit by bit, to one memory stream; \<open>top\<close> is the write position after the last
  entry in force, and entries above it can be redone until something is pushed over them.
  Entry \<open>nn\<close> is found by reading from the start, except that the position of the entry after
  the one read last is cached.

  The specification is a list with a cursor: the entries in force and the entries that can be
  redone. \<open>stack_rep\<close> says which of these a stack stands for.
\<close>

section \<open>Entries\<close>

definition ASSIGN_TYPE :: nat where "ASSIGN_TYPE = 0"
definition MOVE_TYPE :: nat where "MOVE_TYPE = 1"
definition TRADE_TYPE :: nat where "TRADE_TYPE = 2"
definition PHONY_TYPE :: nat where "PHONY_TYPE = 3"
definition PAUSE_TYPE :: nat where "PAUSE_TYPE = 4"

lemmas move_types = ASSIGN_TYPE_def MOVE_TYPE_def TRADE_TYPE_def PHONY_TYPE_def PAUSE_TYPE_def

definition AUTOPAUSED :: nat where "AUTOPAUSED = 2"
definition DUP_PLAYER :: nat where "DUP_PLAYER = 0"

text \<open>The union \<open>EntryData\<close>; its constructor is the \<open>moveType\<close>. The scores of a move are
  those of duplicate mode, empty otherwise.\<close>

datatype entryData =
    Assign trayTileSet
  | Move moveInfo trayTileSet "u16 list"
  | Trade trayTileSet trayTileSet
  | Phony moveInfo
  | Pause nat u32 cstring

fun moveType :: "entryData \<Rightarrow> nat" where
  "moveType (Assign _) = ASSIGN_TYPE"
| "moveType (Move _ _ _) = MOVE_TYPE"
| "moveType (Trade _ _) = TRADE_TYPE"
| "moveType (Phony _) = PHONY_TYPE"
| "moveType (Pause _ _ _) = PAUSE_TYPE"

record stackEntry =
  playerNum :: nat
  moveNum :: nat
  edata :: entryData

record stackCtxt =
  sdata :: "mem_stream option"
  top :: nat
  cachedPos :: nat
  cacheNext :: nat
  nEntries :: nat
  bitsPerTile :: nat
  highWaterMark :: nat
  typeBits :: nat
  snPlayers :: nat
  sflags :: u8
  inDuplicateMode :: bool

definition HAVE_FLAGS_MASK :: u16 where "HAVE_FLAGS_MASK = 0x8000"

section \<open>Setting up, saving and loading\<close>

definition stack_init :: "stackCtxt \<Rightarrow> nat \<Rightarrow> bool \<Rightarrow> stackCtxt" where
  "stack_init stack nPlayers dup =
     stack\<lparr>nEntries := 0, highWaterMark := 0, top := START_OF_STREAM, snPlayers := nPlayers,
           inDuplicateMode := dup\<rparr>"

definition stack_make :: "nat \<Rightarrow> bool \<Rightarrow> stackCtxt" where
  "stack_make nPlayers dup =
     \<lparr>sdata = None, top = 0, cachedPos = 0, cacheNext = 0, nEntries = 0, bitsPerTile = 0,
      highWaterMark = 0, typeBits = 0, snPlayers = nPlayers, sflags = 0, inDuplicateMode = dup\<rparr>"

definition stack_getHash :: "stackCtxt \<Rightarrow> u32 option" where
  "stack_getHash stack =
     (case sdata stack of None \<Rightarrow> Some 0 | Some d \<Rightarrow> mem_stream_getHash d (top stack))"

definition stack_setBitsPerTile :: "stackCtxt \<Rightarrow> nat \<Rightarrow> stackCtxt option" where
  "stack_setBitsPerTile stack bpt = do {
     xp_assert (bpt = 5 \<or> bpt = 6);
     Some (stack\<lparr>bitsPerTile := bpt\<rparr>)
   }"

definition stack_loadFromStream :: "stackCtxt \<Rightarrow> mem_stream \<Rightarrow> (stackCtxt \<times> mem_stream) option" where
  "stack_loadFromStream stack stream = do {
     (nBytes, stream) \<leftarrow> mem_stream_getU16 stream;
     (stack, stream) \<leftarrow>
       (if HAVE_FLAGS_MASK AND nBytes \<noteq> 0 then do {
          (f, stream) \<leftarrow> mem_stream_getU8 stream;
          Some (stack\<lparr>sflags := f, typeBits := 3\<rparr>, stream)
        } else do {
          xp_assert (0 = sflags stack);
          Some (stack\<lparr>typeBits := 2\<rparr>, stream)
        });
     let nBytes = nBytes AND NOT HAVE_FLAGS_MASK;
     if nBytes > 0 then do {
       (hwm, stream) \<leftarrow> mem_stream_getU16 stream;
       (n, stream) \<leftarrow> mem_stream_getU16 stream;
       (t, stream) \<leftarrow> mem_stream_getU32 stream;
       (d, stream) \<leftarrow> mem_stream_getFromStream mem_stream_make_raw stream (unat nBytes);
       Some (stack\<lparr>highWaterMark := unat hwm, nEntries := unat n, top := unat t, sdata := Some d\<rparr>,
             stream)
     } else do {
       xp_assert (nEntries stack = 0);
       xp_assert (top stack = 0);
       Some (stack, stream)
     }
   }"

text \<open>Writing moves the read position of the data and puts it back, so the stack is returned
  unchanged and only the stream is of interest.\<close>

definition stack_writeToStream :: "stackCtxt \<Rightarrow> mem_stream \<Rightarrow> (stackCtxt \<times> mem_stream) option" where
  "stack_writeToStream stack stream = do {
     let (oldPos, data, nBytes) =
       (case sdata stack of
          None \<Rightarrow> (START_OF_STREAM, None, 0)
        | Some d \<Rightarrow> (let (old, d) = mem_stream_setPos d POS_READ START_OF_STREAM
                    in (old, Some d, mem_stream_getSize d)));
     xp_assert (HAVE_FLAGS_MASK AND of_nat nBytes = 0);
     stream \<leftarrow> mem_stream_putU16 stream
       (of_nat nBytes OR (if typeBits stack = 3 then HAVE_FLAGS_MASK else 0));
     stream \<leftarrow> (if typeBits stack = 3 then mem_stream_putU8 stream (sflags stack) else Some stream);
     if nBytes > 0 then do {
       stream \<leftarrow> mem_stream_putU16 stream (of_nat (highWaterMark stack));
       stream \<leftarrow> mem_stream_putU16 stream (of_nat (nEntries stack));
       stream \<leftarrow> mem_stream_putU32 stream (of_nat (top stack));
       d \<leftarrow> data;
       (stream, d) \<leftarrow> mem_stream_getFromStream stream d nBytes;
       let (_, d) = mem_stream_setPos d POS_READ oldPos;
       Some (stack\<lparr>sdata := Some d\<rparr>, stream)
     } else Some (stack\<lparr>sdata := data\<rparr>, stream)
   }"

definition stack_copy :: "stackCtxt \<Rightarrow> (stackCtxt \<times> stackCtxt) option" where
  "stack_copy stack = do {
     (stack, stream) \<leftarrow> stack_writeToStream stack mem_stream_make_raw;
     let newStack = stack_make (snPlayers stack) (inDuplicateMode stack);
     (newStack, _) \<leftarrow> stack_loadFromStream newStack stream;
     newStack \<leftarrow> stack_setBitsPerTile newStack (bitsPerTile stack);
     Some (newStack, stack)
   }"

section \<open>Writing and reading an entry\<close>

definition dupToStream :: "bool \<Rightarrow> mem_stream \<Rightarrow> u16 list \<Rightarrow> mem_stream option" where
  "dupToStream dup stream scores =
     (if dup then do {
        stream \<leftarrow> mem_stream_putBits stream NPLAYERS_NBITS (of_nat (length scores));
        scoresToStream stream scores
      } else Some stream)"

fun bodyToStream :: "bool \<Rightarrow> nat \<Rightarrow> nat \<Rightarrow> mem_stream \<Rightarrow> entryData \<Rightarrow> mem_stream option" where
  "bodyToStream dup bpt pl stream (Move mi newTiles scores) = do {
     stream \<leftarrow> moveInfoToStream stream mi bpt;
     stream \<leftarrow> traySetToStream stream newTiles;
     dupToStream dup stream scores
   }"
| "bodyToStream dup bpt pl stream (Phony mi) = moveInfoToStream stream mi bpt"
| "bodyToStream dup bpt pl stream (Assign tiles) = do {
     stream \<leftarrow> traySetToStream stream tiles;
     xp_assert (pl = DUP_PLAYER \<or> \<not> dup);
     Some stream
   }"
| "bodyToStream dup bpt pl stream (Trade oldTiles newTiles) = do {
     xp_assert (length newTiles = length oldTiles);
     stream \<leftarrow> traySetToStream stream oldTiles;
     traySetToStream stream newTiles
   }"
| "bodyToStream dup bpt pl stream (Pause typ when msg) = do {
     stream \<leftarrow> mem_stream_putBits stream 2 (of_nat typ);
     stream \<leftarrow> mem_stream_putU32 stream when;
     stringToStream stream msg
   }"

definition entryToStream :: "nat \<Rightarrow> bool \<Rightarrow> nat \<Rightarrow> mem_stream \<Rightarrow> stackEntry \<Rightarrow> mem_stream option" where
  "entryToStream tb dup bpt stream entry = do {
     stream \<leftarrow> mem_stream_putBits stream tb (of_nat (moveType (edata entry)));
     stream \<leftarrow> mem_stream_putBits stream 2 (of_nat (playerNum entry));
     bodyToStream dup bpt (playerNum entry) stream (edata entry)
   }"

text \<open>The array of scores has \<open>MAX_NUM_PLAYERS\<close> places.\<close>

definition dupFromStream :: "bool \<Rightarrow> mem_stream \<Rightarrow> (u16 list \<times> mem_stream) option" where
  "dupFromStream dup stream =
     (if dup then do {
        (n, stream) \<leftarrow> mem_stream_getBits stream NPLAYERS_NBITS;
        xp_assert (unat n \<le> MAX_NUM_PLAYERS);
        scoresFromStream stream (unat n)
      } else Some ([], stream))"

definition bodyFromStream :: "bool \<Rightarrow> nat \<Rightarrow> nat \<Rightarrow> mem_stream \<Rightarrow> (entryData \<times> mem_stream) option" where
  "bodyFromStream dup bpt typ stream =
     (if typ = MOVE_TYPE then do {
        (mi, stream) \<leftarrow> moveInfoFromStream stream bpt;
        (newTiles, stream) \<leftarrow> traySetFromStream stream;
        (scores, stream) \<leftarrow> dupFromStream dup stream;
        Some (Move mi newTiles scores, stream)
      } else if typ = PHONY_TYPE then do {
        (mi, stream) \<leftarrow> moveInfoFromStream stream bpt;
        Some (Phony mi, stream)
      } else if typ = ASSIGN_TYPE then do {
        (tiles, stream) \<leftarrow> traySetFromStream stream;
        Some (Assign tiles, stream)
      } else if typ = TRADE_TYPE then do {
        (oldTiles, stream) \<leftarrow> traySetFromStream stream;
        (newTiles, stream) \<leftarrow> traySetFromStream stream;
        xp_assert (length newTiles = length oldTiles);
        Some (Trade oldTiles newTiles, stream)
      } else if typ = PAUSE_TYPE then do {
        (pt, stream) \<leftarrow> mem_stream_getBits stream 2;
        (when, stream) \<leftarrow> mem_stream_getU32 stream;
        (msg, stream) \<leftarrow> p_stringFromStream stream;
        Some (Pause (unat pt) when msg, stream)
      } else None)"

definition entryFromStream :: "nat \<Rightarrow> bool \<Rightarrow> nat \<Rightarrow> mem_stream \<Rightarrow> (stackEntry \<times> mem_stream) option" where
  "entryFromStream tb dup bpt stream = do {
     (typ, stream) \<leftarrow> mem_stream_getBits stream tb;
     (pl, stream) \<leftarrow> mem_stream_getBits stream 2;
     (u, stream) \<leftarrow> bodyFromStream dup bpt (unat typ) stream;
     Some (\<lparr>playerNum = unat pl, moveNum = 0, edata = u\<rparr>, stream)
   }"

section \<open>The stack\<close>

definition pushEntryImpl :: "stackCtxt \<Rightarrow> stackEntry \<Rightarrow> stackCtxt option" where
  "pushEntryImpl stack entry = do {
     (stack, stream) \<leftarrow>
       (case sdata stack of
          Some d \<Rightarrow> Some (stack, d)
        | None \<Rightarrow> do {
            xp_assert (0 = sflags stack);
            Some (stack\<lparr>typeBits := (if inDuplicateMode stack then 3 else 2)\<rparr>, mem_stream_make_raw)
          });
     let (oldLoc, stream) = mem_stream_setPos stream POS_WRITE (top stack);
     stream \<leftarrow> entryToStream (typeBits stack) (inDuplicateMode stack) (bitsPerTile stack) stream entry;
     let stack = stack\<lparr>nEntries := trunc16 (nEntries stack + 1)\<rparr>;
     let stack = stack\<lparr>highWaterMark := nEntries stack\<rparr>;
     let (t, stream) = mem_stream_setPos stream POS_WRITE oldLoc;
     Some (stack\<lparr>top := t, sdata := Some stream\<rparr>)
   }"

definition pushEntry :: "stackCtxt \<Rightarrow> stackEntry \<Rightarrow> stackCtxt option" where
  "pushEntry stack entry = pushEntryImpl stack entry"

definition readEntry :: "stackCtxt \<Rightarrow> (stackEntry \<times> stackCtxt) option" where
  "readEntry stack = do {
     d \<leftarrow> sdata stack;
     (e, d) \<leftarrow> entryFromStream (typeBits stack) (inDuplicateMode stack) (bitsPerTile stack) d;
     Some (e, stack\<lparr>sdata := Some d\<rparr>)
   }"

definition addMove ::
    "stackCtxt \<Rightarrow> nat \<Rightarrow> moveInfo \<Rightarrow> u16 list \<Rightarrow> trayTileSet \<Rightarrow> stackCtxt option" where
  "addMove stack turn mi scores newTiles = do {
     xp_assert (0 = length scores \<or> inDuplicateMode stack);
     pushEntry stack \<lparr>playerNum = turn, moveNum = 0,
       edata = Move mi newTiles (if inDuplicateMode stack then scores else [])\<rparr>
   }"

definition stack_addMove :: "stackCtxt \<Rightarrow> nat \<Rightarrow> moveInfo \<Rightarrow> trayTileSet \<Rightarrow> stackCtxt option" where
  "stack_addMove stack turn mi newTiles = addMove stack turn mi [] newTiles"

definition stack_addDupMove :: "stackCtxt \<Rightarrow> moveInfo \<Rightarrow> u16 list \<Rightarrow> trayTileSet \<Rightarrow> stackCtxt option" where
  "stack_addDupMove stack mi scores newTiles = do {
     xp_assert (inDuplicateMode stack);
     addMove stack DUP_PLAYER mi scores newTiles
   }"

definition stack_addPhony :: "stackCtxt \<Rightarrow> nat \<Rightarrow> moveInfo \<Rightarrow> stackCtxt option" where
  "stack_addPhony stack turn mi = pushEntry stack \<lparr>playerNum = turn, moveNum = 0, edata = Phony mi\<rparr>"

definition stack_addTrade :: "stackCtxt \<Rightarrow> nat \<Rightarrow> trayTileSet \<Rightarrow> trayTileSet \<Rightarrow> stackCtxt option" where
  "stack_addTrade stack turn oldTiles newTiles = do {
     xp_assert (length oldTiles = length newTiles);
     pushEntry stack \<lparr>playerNum = turn, moveNum = 0, edata = Trade oldTiles newTiles\<rparr>
   }"

definition stack_addDupTrade :: "stackCtxt \<Rightarrow> trayTileSet \<Rightarrow> trayTileSet \<Rightarrow> stackCtxt option" where
  "stack_addDupTrade stack oldTiles newTiles = do {
     xp_assert (inDuplicateMode stack);
     xp_assert (length oldTiles = length newTiles);
     stack_addTrade stack DUP_PLAYER oldTiles newTiles
   }"

definition stack_addAssign :: "stackCtxt \<Rightarrow> nat \<Rightarrow> trayTileSet \<Rightarrow> stackCtxt option" where
  "stack_addAssign stack turn tiles = pushEntry stack \<lparr>playerNum = turn, moveNum = 0, edata = Assign tiles\<rparr>"

definition stack_addPause :: "stackCtxt \<Rightarrow> nat \<Rightarrow> int \<Rightarrow> u32 \<Rightarrow> cstring \<Rightarrow> stackCtxt option" where
  "stack_addPause stack pauseType turn when msg = do {
     let move = \<lparr>playerNum = 0, moveNum = 0, edata = Pause pauseType when (p_copyString msg)\<rparr>;
     move \<leftarrow> (if 0 \<le> turn then Some (move\<lparr>playerNum := nat turn\<rparr>)
             else do { xp_assert (AUTOPAUSED = pauseType); Some move });
     pushEntry stack move
   }"

fun skipEntries :: "nat \<Rightarrow> stackCtxt \<Rightarrow> stackCtxt option" where
  "skipEntries 0 stack = Some stack"
| "skipEntries (Suc n) stack = do {
     (_, stack) \<leftarrow> readEntry stack;
     skipEntries n stack
   }"

definition setCacheReadyFor :: "stackCtxt \<Rightarrow> nat \<Rightarrow> stackCtxt option" where
  "setCacheReadyFor stack nn = do {
     d \<leftarrow> sdata stack;
     let (_, d) = mem_stream_setPos d POS_READ START_OF_STREAM;
     stack \<leftarrow> skipEntries nn (stack\<lparr>sdata := Some d\<rparr>);
     d \<leftarrow> sdata stack;
     Some (stack\<lparr>cacheNext := nn, cachedPos := mem_stream_getPos d POS_READ\<rparr>)
   }"

definition stack_getNEntries :: "stackCtxt \<Rightarrow> nat" where
  "stack_getNEntries stack = nEntries stack"

text \<open>The entry is \<open>None\<close> when it is not found.\<close>

definition stack_getNthEntry :: "stackCtxt \<Rightarrow> nat \<Rightarrow> (stackEntry option \<times> stackCtxt) option" where
  "stack_getNthEntry stack nn =
     (if nn \<ge> nEntries stack then Some (None, stack)
      else do {
        stack \<leftarrow> (if cacheNext stack \<noteq> nn then do {
                    stack \<leftarrow> setCacheReadyFor stack nn;
                    xp_assert (cacheNext stack = nn);
                    Some stack
                  } else Some stack);
        d \<leftarrow> sdata stack;
        let (oldPos, d) = mem_stream_setPos d POS_READ (cachedPos stack);
        (entry, stack) \<leftarrow> readEntry (stack\<lparr>sdata := Some d\<rparr>);
        let entry = entry\<lparr>moveNum := nn mod 256\<rparr>;
        d \<leftarrow> sdata stack;
        let (c, d) = mem_stream_setPos d POS_READ oldPos;
        Some (Some entry,
              stack\<lparr>cachedPos := c, sdata := Some d, cacheNext := trunc16 (cacheNext stack + 1)\<rparr>)
      })"

definition popEntryImpl :: "stackCtxt \<Rightarrow> (stackEntry option \<times> stackCtxt) option" where
  "popEntryImpl stack = do {
     let nn = sub16 (nEntries stack) 1;
     (found, stack) \<leftarrow> stack_getNthEntry stack nn;
     case found of
       None \<Rightarrow> Some (None, stack)
     | Some entry \<Rightarrow> do {
         stack \<leftarrow> setCacheReadyFor (stack\<lparr>nEntries := nn\<rparr>) nn;
         Some (Some entry, stack\<lparr>top := cachedPos stack\<rparr>)
       }
   }"

definition stack_popEntry :: "stackCtxt \<Rightarrow> (stackEntry option \<times> stackCtxt) option" where
  "stack_popEntry stack = popEntryImpl stack"

definition stack_getNextTurn :: "stackCtxt \<Rightarrow> (int \<times> stackCtxt) option" where
  "stack_getNextTurn stack = do {
     xp_assert (\<not> inDuplicateMode stack);
     let nn = sub16 (nEntries stack) 1;
     (found, stack) \<leftarrow> stack_getNthEntry stack nn;
     case found of
       None \<Rightarrow> Some (-1, stack)
     | Some dummy \<Rightarrow> do {
         xp_assert (snPlayers stack \<noteq> 0);
         Some (int ((playerNum dummy + 1) mod snPlayers stack), stack)
       }
   }"

text \<open>\<open>want\<close> is whether the caller passes a place for the entry. The result is whether there
  was something to redo, the entry if asked for, and the stack.\<close>

definition stack_redo :: "stackCtxt \<Rightarrow> bool \<Rightarrow> (bool \<times> stackEntry option \<times> stackCtxt) option" where
  "stack_redo stack want =
     (if nEntries stack + 1 \<le> highWaterMark stack then do {
        let stack = stack\<lparr>nEntries := trunc16 (nEntries stack + 1)\<rparr>;
        (entry, stack) \<leftarrow> (if want then stack_getNthEntry stack (nEntries stack - 1) else Some (None, stack));
        stack \<leftarrow> setCacheReadyFor stack (nEntries stack);
        Some (True, entry, stack\<lparr>top := cachedPos stack\<rparr>)
      } else Some (False, None, stack))"

section \<open>The codec of entries\<close>

definition dup_ok :: "bool \<Rightarrow> u16 list \<Rightarrow> bool" where
  "dup_ok dup scores \<longleftrightarrow>
     (if dup then length scores \<le> MAX_NUM_PLAYERS \<and> list_all (\<lambda>x. unat x < 32768) scores
      else scores = [])"

fun body_ok :: "bool \<Rightarrow> nat \<Rightarrow> nat \<Rightarrow> entryData \<Rightarrow> bool" where
  "body_ok dup bpt pl (Move mi ts scores) \<longleftrightarrow> moveInfo_ok bpt mi \<and> tray_ok ts \<and> dup_ok dup scores"
| "body_ok dup bpt pl (Phony mi) \<longleftrightarrow> moveInfo_ok bpt mi"
| "body_ok dup bpt pl (Assign ts) \<longleftrightarrow> tray_ok ts \<and> (pl = DUP_PLAYER \<or> \<not> dup)"
| "body_ok dup bpt pl (Trade xs ys) \<longleftrightarrow> tray_ok xs \<and> tray_ok ys \<and> length xs = length ys"
| "body_ok dup bpt pl (Pause typ when msg) \<longleftrightarrow> typ < 4 \<and> string_ok msg"

text \<open>What an entry must satisfy to be stored; pauses need the wider type field.\<close>

definition entry_ok :: "nat \<Rightarrow> bool \<Rightarrow> nat \<Rightarrow> stackEntry \<Rightarrow> bool" where
  "entry_ok tb dup bpt e \<longleftrightarrow>
     (tb = 2 \<or> tb = 3) \<and> moveType (edata e) < 2 ^ tb \<and> playerNum e < 4 \<and> moveNum e = 0 \<and>
     body_ok dup bpt (playerNum e) (edata e)"

interpretation dupcodec: stream_codec "dupToStream dup" "dupFromStream dup" "dup_ok dup"
    "\<lambda>xs. 2 + 2 * length xs" for dup
proof (cases dup)
  case False
  then show "stream_codec (dupToStream dup) (dupFromStream dup) (dup_ok dup) (\<lambda>xs. 2 + 2 * length xs)"
    by unfold_locales (auto simp: dupToStream_def dupFromStream_def dup_ok_def dest: set_rpos_rpos)
next
  case True
  have P: "stream_codec
     (\<lambda>s (n, xs). do { s \<leftarrow> mem_stream_putBits s NPLAYERS_NBITS (of_nat n); scoresToStream s xs })
     (\<lambda>r. do { (n, r) \<leftarrow> do { (h, r) \<leftarrow> mem_stream_getBits r NPLAYERS_NBITS; Some (unat h, r) };
        (xs, r) \<leftarrow> scoresFromStream r n; Some ((n, xs), r) })
     (\<lambda>(n, xs). n < 2 ^ NPLAYERS_NBITS \<and> scores_ok n xs)
     (\<lambda>(n, xs). (NPLAYERS_NBITS + 7) div 8 + (1 + 2 * length xs))"
    by (rule stream_codec_pair[OF nat_codec scores.stream_codec_axioms scores.put_extends])
      (simp_all add: NPLAYERS_NBITS_def)
  define f where "f = (\<lambda>xs :: u16 list. (length xs, xs))"
  show "stream_codec (dupToStream dup) (dupFromStream dup) (dup_ok dup) (\<lambda>xs. 2 + 2 * length xs)"
  proof (unfold_locales, goal_cases)
    case (1 s xs s')
    then show ?case using stream_codec.put_extends[OF P 1(1), of "f xs"] True
      by (auto simp: dupToStream_def f_def)
  next
    case (2 s xs)
    then show ?case using stream_codec.put_total[OF P 2(1), of "f xs"] True
      by (auto simp: dupToStream_def f_def dup_ok_def scores_ok_def xw_consts)
  next
    case (3 s xs s' r)
    then show ?case using stream_codec.get_put[OF P 3(1) _ _ 3(4-7), of "f xs"] True
      by (auto simp: dupToStream_def dupFromStream_def f_def dup_ok_def scores_ok_def xw_consts)
  qed
qed

fun body_cost :: "entryData \<Rightarrow> nat" where
  "body_cost (Move mi ts scores) = 3 + 3 * length (mtiles mi) + (1 + length ts + (2 + 2 * length scores))"
| "body_cost (Phony mi) = 3 + 3 * length (mtiles mi)"
| "body_cost (Assign ts) = 1 + length ts"
| "body_cost (Trade xs ys) = 1 + length xs + (1 + length ys)"
| "body_cost (Pause typ when msg) = 1 + (4 + (1 + cstring_len msg))"

lemma move_codec:
  "stream_codec
     (\<lambda>s (mi, b). do { s \<leftarrow> moveInfoToStream s mi bpt; (case b of (ts, scores) \<Rightarrow>
         do { s \<leftarrow> traySetToStream s ts; dupToStream dup s scores }) })
     (\<lambda>r. do { (mi, r) \<leftarrow> moveInfoFromStream r bpt; (b, r) \<leftarrow> do { (ts, r) \<leftarrow> traySetFromStream r;
         (scores, r) \<leftarrow> dupFromStream dup r; Some ((ts, scores), r) }; Some ((mi, b), r) })
     (\<lambda>(mi, b). moveInfo_ok bpt mi \<and> (case b of (ts, scores) \<Rightarrow> tray_ok ts \<and> dup_ok dup scores))
     (\<lambda>(mi, b). 3 + 3 * length (mtiles mi) + (case b of (ts, scores) \<Rightarrow> 1 + length ts + (2 + 2 * length scores)))"
  by (rule stream_codec_pair[OF moveinfo.stream_codec_axioms
        stream_codec_pair[OF trayset.stream_codec_axioms dupcodec.stream_codec_axioms dupcodec.put_extends]
        stream_codec_pair[OF trayset.stream_codec_axioms dupcodec.stream_codec_axioms dupcodec.put_extends,
          THEN stream_codec.put_extends]])

lemma trade_codec:
  "stream_codec
     (\<lambda>s (xs, ys). do { s \<leftarrow> traySetToStream s xs; traySetToStream s ys })
     (\<lambda>r. do { (xs, r) \<leftarrow> traySetFromStream r; (ys, r) \<leftarrow> traySetFromStream r; Some ((xs, ys), r) })
     (\<lambda>(xs, ys). tray_ok xs \<and> tray_ok ys) (\<lambda>(xs, ys). 1 + length xs + (1 + length ys))"
  by (rule stream_codec_pair[OF trayset.stream_codec_axioms trayset.stream_codec_axioms trayset.put_extends])

lemma pause_codec:
  "stream_codec
     (\<lambda>s (t, b). do { s \<leftarrow> mem_stream_putBits s 2 (of_nat t); (case b of (w, m) \<Rightarrow>
         do { s \<leftarrow> mem_stream_putU32 s w; stringToStream s m }) })
     (\<lambda>r. do { (t, r) \<leftarrow> do { (h, r) \<leftarrow> mem_stream_getBits r 2; Some (unat h, r) };
         (b, r) \<leftarrow> do { (w, r) \<leftarrow> mem_stream_getU32 r; (m, r) \<leftarrow> p_stringFromStream r; Some ((w, m), r) };
         Some ((t, b), r) })
     (\<lambda>(t, b). t < 2 ^ 2 \<and> (case b of (w, m) \<Rightarrow> True \<and> string_ok m))
     (\<lambda>(t, b). (2 + 7) div 8 + (case b of (w, m) \<Rightarrow> 4 + (1 + cstring_len m)))"
  by (rule stream_codec_pair[OF nat_codec
        stream_codec_pair[OF u32.stream_codec_axioms str.stream_codec_axioms str.put_extends]
        stream_codec_pair[OF u32.stream_codec_axioms str.stream_codec_axioms str.put_extends,
          THEN stream_codec.put_extends]]) simp_all

lemma body_extends:
  assumes "wf_stream s" "bodyToStream dup bpt pl s u = Some s'"
  shows "extends s s'"
proof (cases u)
  case (Move mi ts scores)
  then show ?thesis using assms stream_codec.put_extends[OF move_codec assms(1), of bpt dup "(mi, ts, scores)"] by auto
next
  case (Pause t w m)
  then show ?thesis using assms stream_codec.put_extends[OF pause_codec assms(1), of "(t, w, m)"] by auto
next
  case (Trade xs ys)
  then show ?thesis using assms stream_codec.put_extends[OF trade_codec assms(1), of "(xs, ys)"]
    by (auto simp: bind_unit_Some)
qed (use assms in \<open>auto simp: bind_unit_Some intro: moveinfo.put_extends trayset.put_extends\<close>)

lemma body_total:
  assumes "wf_stream s" "body_ok dup bpt pl u" "nBytesWritten s + body_cost u \<le> STREAM_ROOM"
  shows "\<exists>s'. bodyToStream dup bpt pl s u = Some s' \<and> nBytesWritten s' \<le> nBytesWritten s + body_cost u"
proof (cases u)
  case (Move mi ts scores)
  then show ?thesis using assms stream_codec.put_total[OF move_codec assms(1), of bpt dup "(mi, ts, scores)"] by auto
next
  case (Pause t w m)
  then show ?thesis using assms stream_codec.put_total[OF pause_codec assms(1), of "(t, w, m)"] by auto
next
  case (Trade xs ys)
  then show ?thesis using assms stream_codec.put_total[OF trade_codec assms(1), of "(xs, ys)"] by auto
next
  case (Phony mi)
  then show ?thesis using assms moveinfo.put_total[OF assms(1), of bpt mi] by auto
next
  case (Assign ts)
  then show ?thesis using assms trayset.put_total[OF assms(1), of ts] by auto
qed

lemma body_get:
  assumes "wf_stream s" "body_ok dup bpt pl u" "bodyToStream dup bpt pl s u = Some s'" "wf_reader r"
    "rpos r = wpos s" "bits_eq (wpos s) (wpos s') (sbuf s') (sbuf r)" "wpos s' \<le> 8 * nBytesWritten r"
  shows "bodyFromStream dup bpt (moveType u) r = Some (u, set_rpos (wpos s') r)"
proof (cases u)
  case (Move mi ts scores)
  then show ?thesis
    using assms stream_codec.get_put[OF move_codec assms(1) _ _ assms(4-7), of bpt dup "(mi, ts, scores)"]
    by (auto simp: bodyFromStream_def move_types)
next
  case (Pause t w m)
  then show ?thesis using assms stream_codec.get_put[OF pause_codec assms(1) _ _ assms(4-7), of "(t, w, m)"]
    by (auto simp: bodyFromStream_def move_types)
next
  case (Trade xs ys)
  then show ?thesis using assms stream_codec.get_put[OF trade_codec assms(1) _ _ assms(4-7), of "(xs, ys)"]
    by (auto simp: bodyFromStream_def move_types bind_unit_Some)
next
  case (Phony mi)
  then show ?thesis using assms moveinfo.get_put[OF assms(1) _ _ assms(4-7), of bpt mi]
    by (auto simp: bodyFromStream_def move_types)
next
  case (Assign ts)
  then show ?thesis using assms trayset.get_put[OF assms(1) _ _ assms(4-7), of ts]
    by (auto simp: bodyFromStream_def move_types bind_unit_Some)
qed

lemma body_codec:
  "stream_codec (bodyToStream dup bpt pl) (bodyFromStream dup bpt ty)
     (\<lambda>u. moveType u = ty \<and> body_ok dup bpt pl u) body_cost"
  using body_extends body_total body_get by unfold_locales auto

lemma header_codec:
  assumes "tb = 2 \<or> tb = 3"
  shows "stream_codec
     (\<lambda>s (t, p). do { s \<leftarrow> mem_stream_putBits s tb (of_nat t); mem_stream_putBits s 2 (of_nat p) })
     (\<lambda>r. do { (t, r) \<leftarrow> do { (h, r) \<leftarrow> mem_stream_getBits r tb; Some (unat h, r) };
         (p, r) \<leftarrow> do { (h, r) \<leftarrow> mem_stream_getBits r 2; Some (unat h, r) }; Some ((t, p), r) })
     (\<lambda>(t, p). t < 2 ^ tb \<and> p < 2 ^ 2) (\<lambda>(t, p). (tb + 7) div 8 + (2 + 7) div 8)"
  using assms
  by (intro stream_codec_pair[OF nat_codec nat_codec nat_codec[THEN stream_codec.put_extends]]) auto

interpretation entry: stream_codec "entryToStream tb dup bpt" "entryFromStream tb dup bpt"
    "entry_ok tb dup bpt" "\<lambda>e. 2 + body_cost (edata e)" for tb dup bpt
proof (cases "tb = 2 \<or> tb = 3")
  case False
  have "extends s s'" if "wf_stream s" "entryToStream tb dup bpt s e = Some s'" for s e s'
  proof -
    from that(2) obtain a b where p: "mem_stream_putBits s tb (of_nat (moveType (edata e))) = Some a"
      "mem_stream_putBits a 2 (of_nat (playerNum e)) = Some b"
      "bodyToStream dup bpt (playerNum e) b (edata e) = Some s'"
      by (auto simp: entryToStream_def)
    have a: "extends s a" by (rule bits.put_extends[OF that(1) p(1)])
    have b: "extends a b" by (rule bits.put_extends[OF extends_wf[OF a] p(2)])
    show ?thesis
      by (rule extends_trans[OF a extends_trans[OF b body_extends[OF extends_wf[OF b] p(3)]]])
  qed
  then show "stream_codec (entryToStream tb dup bpt) (entryFromStream tb dup bpt)
    (entry_ok tb dup bpt) (\<lambda>e. 2 + body_cost (edata e))"
    using False by unfold_locales (auto simp: entry_ok_def)
next
  case True
  have P: "stream_codec
     (\<lambda>s (a, u). do { s \<leftarrow> (case a of (t, p) \<Rightarrow> do { s \<leftarrow> mem_stream_putBits s tb (of_nat t);
         mem_stream_putBits s 2 (of_nat p) }); bodyToStream dup bpt (snd a) s u })
     (\<lambda>r. do { (a, r) \<leftarrow> do { (t, r) \<leftarrow> do { (h, r) \<leftarrow> mem_stream_getBits r tb; Some (unat h, r) };
         (p, r) \<leftarrow> do { (h, r) \<leftarrow> mem_stream_getBits r 2; Some (unat h, r) }; Some ((t, p), r) };
         (u, r) \<leftarrow> bodyFromStream dup bpt (fst a) r; Some ((a, u), r) })
     (\<lambda>(a, u). (case a of (t, p) \<Rightarrow> t < 2 ^ tb \<and> p < 2 ^ 2) \<and>
         moveType u = fst a \<and> body_ok dup bpt (snd a) u)
     (\<lambda>(a, u). (case a of (t, p) \<Rightarrow> (tb + 7) div 8 + (2 + 7) div 8) + body_cost u)"
    by (rule stream_codec_pair[OF header_codec[OF True] body_codec body_extends])
  define f where "f = (\<lambda>e :: stackEntry. ((moveType (edata e), playerNum e), edata e))"
  have c: "(tb + 7) div 8 = 1" using True by auto
  show "stream_codec (entryToStream tb dup bpt) (entryFromStream tb dup bpt)
    (entry_ok tb dup bpt) (\<lambda>e. 2 + body_cost (edata e))"
  proof (unfold_locales, goal_cases)
    case (1 s e s')
    then show ?case using stream_codec.put_extends[OF P 1(1), of "f e"]
      by (auto simp: entryToStream_def f_def)
  next
    case (2 s e)
    then show ?case using stream_codec.put_total[OF P 2(1), of "f e"] c
      by (auto simp: entryToStream_def f_def entry_ok_def)
  next
    case (3 s e s' r)
    then show ?case using stream_codec.get_put[OF P 3(1) _ _ 3(4-7), of "f e"]
      by (auto simp: entryToStream_def entryFromStream_def f_def entry_ok_def)
  qed
qed

section \<open>Positions\<close>

text \<open>The number that stands for a bit position.\<close>

definition pos_of :: "nat \<Rightarrow> nat" where
  "pos_of p = 8 * ((p + 7) div 8) + p mod 8"

lemma pos_of_parts: "BYTE_PART (pos_of p) = (p + 7) div 8" "BIT_PART (pos_of p) = p mod 8"
  by (simp_all add: BYTE_PART_def BIT_PART_def pos_of_def)

lemma pos_of_0 [simp]: "pos_of 0 = 0"
  by (simp add: pos_of_def)

lemma pos_of_small: "p < 8 * 65536 \<Longrightarrow> pos_of p < 4294967296"
proof -
  assume "p < 8 * 65536"
  then have "(p + 7) div 8 \<le> 65536" by linarith
  moreover have "p mod 8 < 8" by simp
  ultimately show ?thesis unfolding pos_of_def by linarith
qed

definition set_wpos :: "nat \<Rightarrow> mem_stream \<Rightarrow> mem_stream" where
  "set_wpos p s = s\<lparr>curWritePos := (p + 7) div 8, nWriteBits := p mod 8\<rparr>"

lemma setPos_read: "mem_stream_setPos s POS_READ (pos_of p) = (mem_stream_getPos s POS_READ, set_rpos p s)"
  by (simp add: mem_stream_setPos_def Let_def pos_of_parts set_rpos_def)

lemma setPos_write: "mem_stream_setPos s POS_WRITE (pos_of p) = (mem_stream_getPos s POS_WRITE, set_wpos p s)"
  by (simp add: mem_stream_setPos_def Let_def pos_of_parts set_wpos_def)

lemma getPos_read_set: "p < 8 * 65536 \<Longrightarrow> mem_stream_getPos (set_rpos p s) POS_READ = pos_of p"
  using pos_of_small[of p] by (simp add: mem_stream_getPos_def set_rpos_def pos_of_def)

lemma getPos_write_wf: "wf_stream s \<Longrightarrow> mem_stream_getPos s POS_WRITE = pos_of (wpos s)"
  using wf_stream_wposD[of s] getPos_write[of s] by (simp add: pos_of_def)

lemma wpos_set_wpos [simp]: "wpos (set_wpos p s) = p"
  by (simp add: wpos_def set_wpos_def)

lemma set_wpos_sel [simp]:
  "sbuf (set_wpos p r) = sbuf r" "nBytesWritten (set_wpos p r) = nBytesWritten r"
  "nBytesAllocated (set_wpos p r) = nBytesAllocated r" "rpos (set_wpos p r) = rpos r"
  "curReadPos (set_wpos p r) = curReadPos r" "nReadBits (set_wpos p r) = nReadBits r"
  by (simp_all add: set_wpos_def rpos_def)

lemma wf_set_wpos: "wf_reader r \<Longrightarrow> p \<le> 8 * nBytesWritten r \<Longrightarrow> wf_stream (set_wpos p r)"
  by (auto simp: wf_stream_def wf_reader_def set_wpos_def)

lemma wf_reader_set_wpos [simp]: "wf_reader (set_wpos p r) = wf_reader r"
  by (auto simp: wf_reader_def set_wpos_def)

lemma getPos_read_wf:
  "wf_reader d \<Longrightarrow> rpos d < 8 * 65536 \<Longrightarrow> mem_stream_getPos d POS_READ = pos_of (rpos d)"
  using getPos_read_set[of "rpos d" d] by simp

lemma setPos_write_reader:
  "mem_stream_setPos d POS_WRITE x = (mem_stream_getPos d POS_WRITE, d') \<Longrightarrow>
     sbuf d' = sbuf d \<and> nBytesWritten d' = nBytesWritten d \<and> wf_reader d' = wf_reader d \<and>
     rpos d' = rpos d"
  by (auto simp: mem_stream_setPos_def Let_def wf_reader_def rpos_def)

section \<open>What a stack stands for\<close>

definition st_typeBits :: "stackCtxt \<Rightarrow> nat" where
  "st_typeBits st = (case sdata st of
     None \<Rightarrow> if inDuplicateMode st then 3 else 2 | Some _ \<Rightarrow> typeBits st)"

definition st_ok :: "stackCtxt \<Rightarrow> stackEntry \<Rightarrow> bool" where
  "st_ok st = entry_ok (st_typeBits st) (inDuplicateMode st) (bitsPerTile st)"

definition st_enc :: "stackCtxt \<Rightarrow> u8 list \<Rightarrow> nat \<Rightarrow> stackEntry list \<Rightarrow> nat \<Rightarrow> bool" where
  "st_enc st = encodeds (entryToStream (st_typeBits st) (inDuplicateMode st) (bitsPerTile st)) (st_ok st)"

definition data_rep :: "stackCtxt \<Rightarrow> mem_stream \<Rightarrow> stackEntry list \<Rightarrow> stackEntry list \<Rightarrow> nat \<Rightarrow> nat \<Rightarrow> nat \<Rightarrow> bool" where
  "data_rep st d es rs T Q C \<longleftrightarrow>
     st_enc st (sbuf d) 0 es T \<and> st_enc st (sbuf d) T rs Q \<and> Q \<le> 8 * nBytesWritten d \<and>
     top st = pos_of T \<and> cacheNext st \<le> length es \<and> cachedPos st = pos_of C \<and>
     st_enc st (sbuf d) 0 (take (cacheNext st) es) C \<and> st_enc st (sbuf d) C (drop (cacheNext st) es) T"

text \<open>\<open>es\<close> are the entries in force, \<open>rs\<close> those that can be redone.\<close>

definition stack_rep :: "stackCtxt \<Rightarrow> stackEntry list \<Rightarrow> stackEntry list \<Rightarrow> bool" where
  "stack_rep st es rs \<longleftrightarrow>
     nEntries st = length es \<and> highWaterMark st = length es + length rs \<and>
     length es + length rs < 65536 \<and>
     (case sdata st of
        None \<Rightarrow> es = [] \<and> rs = [] \<and> top st = 0 \<and> cacheNext st = 0 \<and> cachedPos st = 0 \<and> sflags st = 0
      | Some d \<Rightarrow> wf_reader d \<and> rpos d < 8 * 65536 \<and> (\<exists>T Q C. data_rep st d es rs T Q C))"

definition st_bytes :: "stackCtxt \<Rightarrow> nat" where
  "st_bytes st = (case sdata st of None \<Rightarrow> 0 | Some d \<Rightarrow> nBytesWritten d)"

lemma stack_rep_make: "stack_rep (stack_make n dup) [] []"
  by (simp add: stack_rep_def stack_make_def)

lemma st_enc_le: "st_enc st buf p es q \<Longrightarrow> p \<le> q"
  unfolding st_enc_def st_ok_def by (rule entry.encodeds_le)

lemma st_enc_cong: "st_enc st buf p es q \<Longrightarrow> bits_eq p q buf buf' \<Longrightarrow> st_enc st buf' p es q"
  unfolding st_enc_def st_ok_def by (rule entry.encodeds_cong)

lemma st_enc_append:
  "st_enc st buf p (xs @ ys) q \<longleftrightarrow> (\<exists>m. st_enc st buf p xs m \<and> st_enc st buf m ys q)"
  by (simp add: st_enc_def encodeds_append)

lemma st_enc_Nil [simp]: "st_enc st buf p [] q \<longleftrightarrow> p = q"
  by (simp add: st_enc_def)

lemma st_enc_cong_st:
  "st_typeBits st' = st_typeBits st \<Longrightarrow> inDuplicateMode st' = inDuplicateMode st \<Longrightarrow>
     bitsPerTile st' = bitsPerTile st \<Longrightarrow> st_enc st' = st_enc st"
  by (simp add: st_enc_def st_ok_def)

lemma st_enc_Cons:
  "st_enc st buf p (e # es) q \<longleftrightarrow> (\<exists>m. st_enc st buf p [e] m \<and> st_enc st buf m es q)"
  using st_enc_append[of st buf p "[e]" es q] by simp

text \<open>Reading one entry, and skipping several.\<close>

lemma readEntry_spec:
  assumes "sdata st = Some d" and "wf_reader d" and "st_enc st (sbuf d) (rpos d) [e] q"
    and "q \<le> 8 * nBytesWritten d"
  shows "readEntry st = Some (e, st\<lparr>sdata := Some (set_rpos q d)\<rparr>)"
proof -
  have "encoded (entryToStream (typeBits st) (inDuplicateMode st) (bitsPerTile st))
      (entry_ok (typeBits st) (inDuplicateMode st) (bitsPerTile st)) (sbuf d) (rpos d) e q"
    using assms(1,3) by (simp add: st_enc_def st_ok_def st_typeBits_def)
  from entry.encoded_get[OF this assms(2) refl assms(4)] show ?thesis
    using assms(1) by (simp add: readEntry_def)
qed

lemma skipEntries_spec:
  assumes "sdata st = Some d" and "wf_reader d" and "st_enc st (sbuf d) (rpos d) es q"
    and "q \<le> 8 * nBytesWritten d"
  shows "skipEntries (length es) st = Some (st\<lparr>sdata := Some (set_rpos q d)\<rparr>)"
  using assms
proof (induction es arbitrary: st d)
  case Nil
  then have "set_rpos q d = d" using set_rpos_rpos[of d] by simp
  then show ?case using Nil by simp
next
  case (Cons e es)
  obtain m where m: "st_enc st (sbuf d) (rpos d) [e] m" "st_enc st (sbuf d) m es q"
    using st_enc_Cons[THEN iffD1, OF Cons.prems(3)] by blast
  have "m \<le> q" by (rule st_enc_le[OF m(2)])
  then have r: "readEntry st = Some (e, st\<lparr>sdata := Some (set_rpos m d)\<rparr>)"
    using readEntry_spec[OF Cons.prems(1,2) m(1)] Cons.prems(4) by simp
  define st1 where "st1 = st\<lparr>sdata := Some (set_rpos m d)\<rparr>"
  have same: "st_enc st1 = st_enc st"
    using Cons.prems(1) by (intro st_enc_cong_st) (simp_all add: st1_def st_typeBits_def)
  have "skipEntries (length es) st1 = Some (st1\<lparr>sdata := Some (set_rpos q (set_rpos m d))\<rparr>)"
    by (rule Cons.IH) (use Cons.prems m(2) same in \<open>simp_all add: st1_def\<close>)
  then show ?case using r by (simp add: st1_def)
qed

lemma setCacheReadyFor_spec:
  assumes d: "sdata st = Some d" "wf_reader d" and e: "st_enc st (sbuf d) 0 es q"
    and q: "q \<le> 8 * nBytesWritten d"
  shows "setCacheReadyFor st (length es) =
    Some (st\<lparr>sdata := Some (set_rpos q d), cacheNext := length es, cachedPos := pos_of q\<rparr>)"
proof -
  define st1 where "st1 = st\<lparr>sdata := Some (set_rpos 0 d)\<rparr>"
  have same: "st_enc st1 = st_enc st"
    using d by (intro st_enc_cong_st) (simp_all add: st1_def st_typeBits_def)
  have small: "q < 8 * 65536" using q d(2) by (simp add: wf_reader_def)
  have s0: "mem_stream_setPos d POS_READ START_OF_STREAM = (mem_stream_getPos d POS_READ, set_rpos 0 d)"
    using setPos_read[of d 0] by (simp add: START_OF_STREAM_def)
  have "skipEntries (length es) st1 = Some (st1\<lparr>sdata := Some (set_rpos q (set_rpos 0 d))\<rparr>)"
    by (rule skipEntries_spec) (use d e q same in \<open>simp_all add: st1_def\<close>)
  then show ?thesis
    using d getPos_read_set[OF small, of d] unfolding setCacheReadyFor_def
    by (simp add: s0 st1_def)
qed

lemma stack_repD:
  assumes "stack_rep st es rs" and "es \<noteq> [] \<or> rs \<noteq> []"
  obtains d T Q C where "sdata st = Some d" "wf_reader d" "rpos d < 8 * 65536" "data_rep st d es rs T Q C"
  using assms by (cases "sdata st") (auto simp: stack_rep_def)

lemma st_enc_same:
  assumes "sdata st = Some d" "sdata st' = Some d'" "typeBits st' = typeBits st"
    "inDuplicateMode st' = inDuplicateMode st" "bitsPerTile st' = bitsPerTile st"
  shows "st_enc st' = st_enc st"
  using assms by (intro st_enc_cong_st) (simp_all add: st_typeBits_def)

lemma getNthEntry_spec:
  assumes rep: "stack_rep st es rs" and nn: "nn < length es"
  shows "\<exists>d' n c. stack_getNthEntry st nn = Some (Some ((es ! nn)\<lparr>moveNum := nn mod 256\<rparr>),
            st\<lparr>cachedPos := c, sdata := Some d', cacheNext := n\<rparr>) \<and>
           stack_rep (st\<lparr>cachedPos := c, sdata := Some d', cacheNext := n\<rparr>) es rs \<and>
           sbuf d' = sbuf (the (sdata st)) \<and> nBytesWritten d' = nBytesWritten (the (sdata st))"
proof -
  obtain d T Q C where D: "sdata st = Some d" "wf_reader d" "rpos d < 8 * 65536"
      "data_rep st d es rs T Q C"
    by (rule stack_repD[OF rep]) (use nn in auto)
  note R = D(4)[unfolded data_rep_def]
  have lt: "length es + length rs < 65536" "nEntries st = length es"
    using rep by (simp_all add: stack_rep_def)
  have TQ: "T \<le> Q" using R st_enc_le by blast
  have split: "es = take nn es @ es ! nn # drop (Suc nn) es" using nn by (simp add: id_take_nth_drop)
  text \<open>After the first branch the cache is at entry \<open>nn\<close>.\<close>
  obtain d1 c where c: "(if cacheNext st \<noteq> nn then do {
                    stack \<leftarrow> setCacheReadyFor st nn;
                    xp_assert (cacheNext stack = nn);
                    Some stack
                  } else Some st) = Some (st\<lparr>cachedPos := pos_of c, sdata := Some d1, cacheNext := nn\<rparr>)"
    and d1: "sbuf d1 = sbuf d" "nBytesWritten d1 = nBytesWritten d" "wf_reader d1" "rpos d1 < 8 * 65536"
    and cT: "st_enc st (sbuf d) 0 (take nn es) c" "st_enc st (sbuf d) c (drop nn es) T"
  proof (cases "cacheNext st = nn")
    case True
    then show thesis using that[of d C] R D by simp
  next
    case False
    have "es = take nn es @ drop nn es" by simp
    with R obtain c where c: "st_enc st (sbuf d) 0 (take nn es) c" "st_enc st (sbuf d) c (drop nn es) T"
      using st_enc_append[of st "sbuf d" 0 "take nn es" "drop nn es" T] by auto
    have cq: "c \<le> 8 * nBytesWritten d" using st_enc_le[OF c(2)] TQ R by linarith
    from setCacheReadyFor_spec[OF D(1,2) c(1) cq] nn
    have "setCacheReadyFor st nn = Some (st\<lparr>sdata := Some (set_rpos c d), cacheNext := nn, cachedPos := pos_of c\<rparr>)"
      by simp
    moreover have "c < 8 * 65536" using cq D(2) by (simp add: wf_reader_def)
    ultimately show thesis using that[of "set_rpos c d" c] False c D(2) by simp
  qed
  define st1 where "st1 = st\<lparr>cachedPos := pos_of c, cacheNext := nn, sdata := Some (set_rpos c d1)\<rparr>"
  have same: "st_enc st1 = st_enc st" by (rule st_enc_same[OF D(1)]) (simp_all add: st1_def)
  have dr: "drop nn es = es ! nn # drop (Suc nn) es" using nn by (simp add: Cons_nth_drop_Suc)
  obtain m where m: "st_enc st (sbuf d) c [es ! nn] m" "st_enc st (sbuf d) m (drop (Suc nn) es) T"
    using st_enc_Cons[THEN iffD1, OF cT(2)[unfolded dr]] by blast
  have mQ: "m \<le> 8 * nBytesWritten d" using st_enc_le[OF m(2)] TQ R by linarith
  have m8: "m < 8 * 65536" using mQ D(2) by (simp add: wf_reader_def)
  have "readEntry st1 = Some (es ! nn, st1\<lparr>sdata := Some (set_rpos m (set_rpos c d1))\<rparr>)"
    by (rule readEntry_spec) (use m(1) d1 mQ same in \<open>simp_all add: st1_def\<close>)
  moreover have set1: "mem_stream_setPos d1 POS_READ (pos_of c) = (pos_of (rpos d1), set_rpos c d1)"
    using setPos_read[of d1 c] getPos_read_wf[OF d1(3,4)] by simp
  moreover have set2: "mem_stream_setPos (set_rpos m (set_rpos c d1)) POS_READ (pos_of (rpos d1)) =
      (pos_of m, d1)"
    using setPos_read[of "set_rpos m (set_rpos c d1)" "rpos d1"] getPos_read_set[OF m8, of d1] d1(3) by simp
  moreover have "trunc16 (nn + 1) = Suc nn" using nn lt by simp
  ultimately have get: "stack_getNthEntry st nn = Some (Some ((es ! nn)\<lparr>moveNum := nn mod 256\<rparr>),
      st\<lparr>cachedPos := pos_of m, sdata := Some d1, cacheNext := Suc nn\<rparr>)"
    using nn lt unfolding stack_getNthEntry_def c by (simp add: st1_def)
  define st2 where "st2 = st\<lparr>cachedPos := pos_of m, sdata := Some d1, cacheNext := Suc nn\<rparr>"
  have same2: "st_enc st2 = st_enc st" by (rule st_enc_same[OF D(1)]) (simp_all add: st2_def)
  have tk: "st_enc st (sbuf d) 0 (take (Suc nn) es) m"
    using cT(1) m(1) nn by (auto simp: take_Suc_conv_app_nth st_enc_append)
  have "data_rep st2 d1 es rs T Q m"
    using R m(2) tk d1 nn unfolding data_rep_def same2 by (simp add: st2_def)
  then have "stack_rep st2 es rs"
    using rep d1 D(1) by (auto simp: stack_rep_def st2_def)
  then show ?thesis using get d1 D(1) by (auto simp: st2_def)
qed

section \<open>Popping, redoing and pushing refine the list with a cursor\<close>

lemma popEntry_spec:
  assumes rep: "stack_rep st (es @ [e]) rs"
  shows "\<exists>st'. stack_popEntry st = Some (Some (e\<lparr>moveNum := length es mod 256\<rparr>), st') \<and>
           stack_rep st' es (e # rs) \<and> sbuf (the (sdata st')) = sbuf (the (sdata st)) \<and>
           nBytesWritten (the (sdata st')) = nBytesWritten (the (sdata st)) \<and>
           st_typeBits st' = st_typeBits st \<and> inDuplicateMode st' = inDuplicateMode st \<and>
           bitsPerTile st' = bitsPerTile st \<and> sdata st' \<noteq> None"
proof -
  have sz: "nEntries st = Suc (length es)" "length es + length rs < 65535"
    "highWaterMark st = Suc (length es + length rs)"
    using rep by (simp_all add: stack_rep_def)
  have nn: "sub16 (nEntries st) 1 = length es" using sz by simp
  have nlt: "length es < length (es @ [e])" by simp
  from getNthEntry_spec[OF rep nlt] obtain d n c where
    g: "stack_getNthEntry st (length es) = Some (Some (e\<lparr>moveNum := length es mod 256\<rparr>),
          st\<lparr>cachedPos := c, sdata := Some d, cacheNext := n\<rparr>)"
    and r1: "stack_rep (st\<lparr>cachedPos := c, sdata := Some d, cacheNext := n\<rparr>) (es @ [e]) rs"
    and b1: "sbuf d = sbuf (the (sdata st))" "nBytesWritten d = nBytesWritten (the (sdata st))" by auto
  define st1 where "st1 = st\<lparr>cachedPos := c, sdata := Some d, cacheNext := n\<rparr>"
  note r1 = r1[folded st1_def]
  obtain d0 T Q C where D: "sdata st1 = Some d0" "wf_reader d0" "data_rep st1 d0 (es @ [e]) rs T Q C"
    by (rule stack_repD[OF r1]) auto
  have d0: "d0 = d" using D(1) by (simp add: st1_def)
  note R = D(3)[unfolded data_rep_def d0]
  from R obtain P where P: "st_enc st1 (sbuf d) 0 es P" "st_enc st1 (sbuf d) P [e] T"
    by (auto simp: st_enc_append)
  have TQ: "T \<le> Q" "Q \<le> 8 * nBytesWritten d" "P \<le> T" using R st_enc_le P(2) by auto
  have P8: "P < 8 * 65536" using TQ D(2) by (simp add: d0 wf_reader_def)
  define st2 where "st2 = st1\<lparr>nEntries := length es\<rparr>"
  have d2: "sdata st2 = Some d" by (simp add: st2_def st1_def)
  have same2: "st_enc st2 = st_enc st1" by (rule st_enc_same[of st1 d st2 d]) (simp_all add: st2_def st1_def)
  define st3 where "st3 = st2\<lparr>sdata := Some (set_rpos P d), cacheNext := length es, cachedPos := pos_of P\<rparr>"
  have s: "setCacheReadyFor st2 (length es) = Some st3"
    unfolding st3_def
    by (rule setCacheReadyFor_spec[OF d2]) (use D(2) d0 P(1) same2 TQ in simp_all)
  define st4 where "st4 = st3\<lparr>top := cachedPos st3\<rparr>"
  have pop: "stack_popEntry st = Some (Some (e\<lparr>moveNum := length es mod 256\<rparr>), st4)"
    using g s nn by (simp add: stack_popEntry_def popEntryImpl_def st4_def flip: st1_def st2_def)
  have same4: "st_enc st4 = st_enc st1"
    by (rule st_enc_same[of st1 d st4 "set_rpos P d"]) (simp_all add: st4_def st3_def st2_def st1_def)
  have "st_enc st1 (sbuf d) P (e # rs) Q"
    using st_enc_Cons[THEN iffD2] P(2) R by blast
  then have "data_rep st4 (set_rpos P d) es (e # rs) P Q P"
    using P TQ unfolding data_rep_def same4 by (simp add: st4_def st3_def st2_def st1_def)
  then have "stack_rep st4 es (e # rs)"
    using sz D(2) d0 P8 by (auto simp: stack_rep_def st4_def st3_def st2_def st1_def)
  moreover have "\<exists>d. sdata st = Some d" using rep by (cases "sdata st") (auto simp: stack_rep_def)
  ultimately show ?thesis using pop b1
    by (auto simp: st4_def st3_def st2_def st1_def st_typeBits_def)
qed

lemma popEntry_empty: "stack_rep st [] rs \<Longrightarrow> stack_popEntry st = Some (None, st)"
  by (simp add: stack_popEntry_def popEntryImpl_def stack_getNthEntry_def stack_rep_def sub16_def)

text \<open>Reading does not look at \<open>top\<close>.\<close>

lemma readEntry_top:
  "readEntry (st\<lparr>top := x\<rparr>) = map_option (\<lambda>(e, s). (e, s\<lparr>top := x\<rparr>)) (readEntry st)"
  by (auto simp: readEntry_def split: Option.bind_splits)

lemma skipEntries_top:
  "skipEntries n (st\<lparr>top := x\<rparr>) = map_option (\<lambda>s. s\<lparr>top := x\<rparr>) (skipEntries n st)"
  by (induction n arbitrary: st) (auto simp: readEntry_top split: Option.bind_splits)

lemma top_sdata_swap: "(st :: stackCtxt)\<lparr>top := x, sdata := y\<rparr> = st\<lparr>sdata := y, top := x\<rparr>"
  by simp

lemma setCacheReadyFor_top:
  "setCacheReadyFor (st\<lparr>top := x\<rparr>) n = map_option (\<lambda>s. s\<lparr>top := x\<rparr>) (setCacheReadyFor st n)"
proof (cases "sdata st")
  case (Some d)
  define st1 where "st1 = st\<lparr>sdata := Some (snd (mem_stream_setPos d POS_READ START_OF_STREAM))\<rparr>"
  have e: "setCacheReadyFor st n = do { stack \<leftarrow> skipEntries n st1; d \<leftarrow> sdata stack;
      Some (stack\<lparr>cacheNext := n, cachedPos := mem_stream_getPos d POS_READ\<rparr>) }"
    using Some by (simp add: setCacheReadyFor_def st1_def split: prod.splits)
  have "setCacheReadyFor (st\<lparr>top := x\<rparr>) n = do { stack \<leftarrow> skipEntries n (st1\<lparr>top := x\<rparr>); d \<leftarrow> sdata stack;
      Some (stack\<lparr>cacheNext := n, cachedPos := mem_stream_getPos d POS_READ\<rparr>) }"
    using Some by (simp add: setCacheReadyFor_def st1_def top_sdata_swap split: prod.splits)
  then show ?thesis unfolding e skipEntries_top
    by (auto split: Option.bind_splits)
qed (simp add: setCacheReadyFor_def)

lemma getNthEntry_top:
  "stack_getNthEntry (st\<lparr>top := x\<rparr>) n =
     map_option (\<lambda>(e, s). (e, s\<lparr>top := x\<rparr>)) (stack_getNthEntry st n)"
proof (cases "n < nEntries st")
  case True
  define A where "A = (if cacheNext st \<noteq> n then do {
                    stack \<leftarrow> setCacheReadyFor st n;
                    xp_assert (cacheNext stack = n);
                    Some stack
                  } else Some st)"
  define F where "F = (\<lambda>stack. do { d \<leftarrow> sdata stack;
        let (oldPos, d) = mem_stream_setPos d POS_READ (cachedPos stack);
        (entry, stack) \<leftarrow> readEntry (stack\<lparr>sdata := Some d\<rparr>);
        let entry = entry\<lparr>moveNum := n mod 256\<rparr>;
        d \<leftarrow> sdata stack;
        let (c, d) = mem_stream_setPos d POS_READ oldPos;
        Some (Some entry,
              stack\<lparr>cachedPos := c, sdata := Some d, cacheNext := trunc16 (cacheNext stack + 1)\<rparr>) })"
  have F: "F (s\<lparr>top := x\<rparr>) = map_option (\<lambda>(e, s). (e, s\<lparr>top := x\<rparr>)) (F s)" for s
  proof (cases "sdata s")
    case (Some d)
    have c: "readEntry (s\<lparr>top := x, sdata := D\<rparr>) =
        map_option (\<lambda>(e, s). (e, s\<lparr>top := x\<rparr>)) (readEntry (s\<lparr>sdata := D\<rparr>))" for D
      using readEntry_top[where st = "s\<lparr>sdata := D\<rparr>" and x = x] by (simp add: top_sdata_swap)
    show ?thesis using Some
      by (auto simp: F_def Let_def c split: Option.bind_splits prod.splits)
  qed (simp add: F_def)
  have A: "(if cacheNext (st\<lparr>top := x\<rparr>) \<noteq> n then do {
                    stack \<leftarrow> setCacheReadyFor (st\<lparr>top := x\<rparr>) n;
                    xp_assert (cacheNext stack = n);
                    Some stack
                  } else Some (st\<lparr>top := x\<rparr>)) = map_option (\<lambda>s. s\<lparr>top := x\<rparr>) A"
    by (auto simp: A_def setCacheReadyFor_top xp_assert_def split: Option.bind_splits)
  have "stack_getNthEntry st n = Option.bind A F"
    using True by (simp add: stack_getNthEntry_def A_def F_def)
  moreover have "stack_getNthEntry (st\<lparr>top := x\<rparr>) n = Option.bind (map_option (\<lambda>s. s\<lparr>top := x\<rparr>) A) F"
    using True unfolding stack_getNthEntry_def A F_def by simp
  ultimately show ?thesis by (cases A) (auto simp: F)
qed (simp add: stack_getNthEntry_def)

lemma redo_spec:
  assumes rep: "stack_rep st es (e # rs)"
  shows "\<exists>st'. stack_redo st want =
           Some (True, if want then Some (e\<lparr>moveNum := length es mod 256\<rparr>) else None, st') \<and>
           stack_rep st' (es @ [e]) rs"
proof -
  obtain d T Q C where D: "sdata st = Some d" "wf_reader d" "rpos d < 8 * 65536"
      "data_rep st d es (e # rs) T Q C"
    by (rule stack_repD[OF rep]) auto
  note R = D(4)[unfolded data_rep_def]
  have sz: "nEntries st = length es" "highWaterMark st = Suc (length es + length rs)"
    "length es + length rs < 65535"
    using rep by (simp_all add: stack_rep_def)
  obtain T' where T': "st_enc st (sbuf d) T [e] T'" "st_enc st (sbuf d) T' rs Q"
    using st_enc_Cons[of st "sbuf d" T e rs Q] R by blast
  define st1 where "st1 = st\<lparr>nEntries := Suc (length es)\<rparr>"
  define st2 where "st2 = st1\<lparr>top := pos_of T'\<rparr>"
  have same2: "st_enc st2 = st_enc st" by (rule st_enc_same[OF D(1)]) (simp_all add: st2_def st1_def D(1))
  have all: "st_enc st (sbuf d) 0 (es @ [e]) T'" using R T'(1) by (auto simp: st_enc_append)
  have "data_rep st2 d (es @ [e]) rs T' Q C"
    using R T' all unfolding data_rep_def same2 by (auto simp: st2_def st1_def st_enc_append)
  then have rep2: "stack_rep st2 (es @ [e]) rs"
    using D sz by (auto simp: stack_rep_def st2_def st1_def)
  have "nEntries st1 = Suc (length es)" "st2\<lparr>top := top st1\<rparr> = st1" by (simp_all add: st1_def st2_def)
  then have e1: "stack_getNthEntry st1 (length es) =
      map_option (\<lambda>(e, s). (e, s\<lparr>top := top st1\<rparr>)) (stack_getNthEntry st2 (length es))"
    using getNthEntry_top[where st = st2 and x = "top st1" and n = "length es"] by simp
  text \<open>The state in which the cache is moved to the new top.\<close>
  obtain d3 c n where g: "(if want then stack_getNthEntry st1 (length es) else Some (None, st1)) =
        Some (if want then Some (e\<lparr>moveNum := length es mod 256\<rparr>) else None,
          st1\<lparr>cachedPos := c, sdata := Some d3, cacheNext := n\<rparr>)"
    and d3: "wf_reader d3" "sbuf d3 = sbuf d" "nBytesWritten d3 = nBytesWritten d"
  proof (cases want)
    case False
    then show thesis using that[of "cacheNext st1" d "cachedPos st1"] D by (simp add: st1_def)
  next
    case True
    have lt: "length es < length (es @ [e])" by simp
    from getNthEntry_spec[OF rep2 lt] obtain d' n c where
      g2: "stack_getNthEntry st2 (length es) = Some (Some (e\<lparr>moveNum := length es mod 256\<rparr>),
            st2\<lparr>cachedPos := c, sdata := Some d', cacheNext := n\<rparr>)"
        "stack_rep (st2\<lparr>cachedPos := c, sdata := Some d', cacheNext := n\<rparr>) (es @ [e]) rs"
        "sbuf d' = sbuf d" "nBytesWritten d' = nBytesWritten d"
      using D(1) by (auto simp: st2_def st1_def)
    have "wf_reader d'" using g2(2) by (simp add: stack_rep_def)
    then show thesis using that[of n d' c] True e1 g2 by (simp add: st2_def)
  qed
  define st3 where "st3 = st1\<lparr>cachedPos := c, sdata := Some d3, cacheNext := n\<rparr>"
  have same3: "st_enc st3 = st_enc st" by (rule st_enc_same[OF D(1)]) (simp_all add: st3_def st1_def)
  have TQ: "T' \<le> Q" "Q \<le> 8 * nBytesWritten d3" using R st_enc_le[OF T'(2)] d3 by auto
  have T8: "T' < 8 * 65536" using TQ d3(1) by (simp add: wf_reader_def)
  define st4 where "st4 = st3\<lparr>sdata := Some (set_rpos T' d3), cacheNext := length (es @ [e]), cachedPos := pos_of T'\<rparr>"
  have s: "setCacheReadyFor st3 (length (es @ [e])) = Some st4"
    unfolding st4_def
    by (rule setCacheReadyFor_spec) (use all d3 TQ same3 in \<open>simp_all add: st3_def\<close>)
  define st5 where "st5 = st4\<lparr>top := cachedPos st4\<rparr>"
  have redo: "stack_redo st want =
     Some (True, if want then Some (e\<lparr>moveNum := length es mod 256\<rparr>) else None, st5)"
  proof -
    have "stack_redo st want = do {
        (entry, stack) \<leftarrow> (if want then stack_getNthEntry st1 (length es) else Some (None, st1));
        stack \<leftarrow> setCacheReadyFor stack (nEntries stack);
        Some (True, entry, stack\<lparr>top := cachedPos stack\<rparr>) }"
      using sz by (simp add: stack_redo_def st1_def)
    also have "\<dots> = Some (True, if want then Some (e\<lparr>moveNum := length es mod 256\<rparr>) else None, st5)"
      unfolding g using s by (simp add: st5_def st3_def st1_def)
    finally show ?thesis .
  qed
  have same5: "st_enc st5 = st_enc st"
    by (rule st_enc_same[OF D(1)]) (simp_all add: st5_def st4_def st3_def st1_def)
  have "data_rep st5 (set_rpos T' d3) (es @ [e]) rs T' Q T'"
    using all T' TQ d3 unfolding data_rep_def same5 by (simp add: st5_def st4_def)
  then have "stack_rep st5 (es @ [e]) rs"
    using sz d3 T8 by (auto simp: stack_rep_def st5_def st4_def st3_def st1_def)
  then show ?thesis using redo by blast
qed

lemma redo_empty: "stack_rep st es [] \<Longrightarrow> stack_redo st want = Some (False, None, st)"
  by (simp add: stack_redo_def stack_rep_def)

lemma rpos_make_raw [simp]: "rpos mem_stream_make_raw = 0"
  by (simp add: rpos_def bitpos_def mem_stream_make_raw_def mem_stream_make_def)

lemma nBytesWritten_make_raw [simp]: "nBytesWritten mem_stream_make_raw = 0"
  by (simp add: mem_stream_make_raw_def mem_stream_make_def)

text \<open>The data stream a push writes to, and the state with its field width settled.\<close>

definition push_data :: "stackCtxt \<Rightarrow> mem_stream" where
  "push_data st = (case sdata st of None \<Rightarrow> mem_stream_make_raw | Some d \<Rightarrow> d)"

lemma push_data_rep:
  assumes "stack_rep st es rs"
  shows "\<exists>T C. wf_reader (push_data st) \<and> rpos (push_data st) < 8 * 65536 \<and>
     st_enc st (sbuf (push_data st)) 0 es T \<and> T \<le> 8 * nBytesWritten (push_data st) \<and>
     top st = pos_of T \<and> cacheNext st \<le> length es \<and> cachedPos st = pos_of C \<and>
     st_enc st (sbuf (push_data st)) 0 (take (cacheNext st) es) C \<and>
     st_enc st (sbuf (push_data st)) C (drop (cacheNext st) es) T"
proof (cases "sdata st")
  case None
  then show ?thesis using assms by (auto simp: push_data_def stack_rep_def)
next
  case (Some d)
  then obtain T Q C where D: "wf_reader d" "rpos d < 8 * 65536" "data_rep st d es rs T Q C"
    using assms by (auto simp: stack_rep_def)
  have "T \<le> Q" using D(3) st_enc_le by (auto simp: data_rep_def)
  then show ?thesis using D Some by (auto simp: push_data_def data_rep_def)
qed

lemma pushEntry_eq:
  assumes rep: "stack_rep st es rs"
    and put: "entryToStream (st_typeBits st) (inDuplicateMode st) (bitsPerTile st)
                (snd (mem_stream_setPos (push_data st) POS_WRITE (top st))) e = Some s'"
  shows "pushEntry st e = Some (st\<lparr>typeBits := st_typeBits st, nEntries := trunc16 (nEntries st + 1),
      highWaterMark := trunc16 (nEntries st + 1), top := mem_stream_getPos s' POS_WRITE,
      sdata := Some (snd (mem_stream_setPos s' POS_WRITE
         (mem_stream_getPos (push_data st) POS_WRITE)))\<rparr>)"
proof (cases "sdata st")
  case None
  then have "sflags st = 0" using rep by (simp add: stack_rep_def)
  then show ?thesis using None put
    by (simp add: pushEntry_def pushEntryImpl_def push_data_def st_typeBits_def mem_stream_setPos_def Let_def)
next
  case (Some d)
  then have "st\<lparr>typeBits := typeBits st\<rparr> = st" by simp
  then show ?thesis using Some put
    by (simp add: pushEntry_def pushEntryImpl_def push_data_def st_typeBits_def mem_stream_setPos_def Let_def)
qed

lemma push_spec:
  assumes rep: "stack_rep st es rs" and ok: "st_ok st e"
    and room: "st_bytes st + (2 + body_cost (edata e)) \<le> STREAM_ROOM" and len: "length es < 65535"
  shows "\<exists>st' T. pushEntry st e = Some st' \<and> stack_rep st' (es @ [e]) [] \<and>
           st_typeBits st' = st_typeBits st \<and> inDuplicateMode st' = inDuplicateMode st \<and>
           bitsPerTile st' = bitsPerTile st \<and> sdata st' \<noteq> None \<and>
           top st = pos_of T \<and> T \<le> 8 * nBytesWritten (push_data st) \<and>
           st_enc st (sbuf (push_data st)) 0 es T \<and>
           bits_eq 0 T (sbuf (push_data st)) (sbuf (push_data st')) \<and>
           T \<le> 8 * nBytesWritten (push_data st')"
proof -
  from push_data_rep[OF rep] obtain T C where
    P: "wf_reader (push_data st)" "rpos (push_data st) < 8 * 65536"
      "st_enc st (sbuf (push_data st)) 0 es T" "T \<le> 8 * nBytesWritten (push_data st)"
      "top st = pos_of T" "cacheNext st \<le> length es" "cachedPos st = pos_of C"
      "st_enc st (sbuf (push_data st)) 0 (take (cacheNext st) es) C"
      "st_enc st (sbuf (push_data st)) C (drop (cacheNext st) es) T" by blast
  define d where "d = push_data st"
  have wf: "wf_stream (set_wpos T d)" using P(1,4) by (simp add: d_def wf_set_wpos)
  have set: "snd (mem_stream_setPos d POS_WRITE (top st)) = set_wpos T d"
    unfolding P(5) setPos_write by simp
  have bytes: "nBytesWritten (set_wpos T d) + (2 + body_cost (edata e)) \<le> STREAM_ROOM"
    using room by (simp add: d_def push_data_def st_bytes_def split: option.splits)
  from entry.put_total[OF wf ok[unfolded st_ok_def] bytes] obtain s' where
    s': "entryToStream (st_typeBits st) (inDuplicateMode st) (bitsPerTile st) (set_wpos T d) e = Some s'"
    by blast
  have e: "extends (set_wpos T d) s'" by (rule entry.put_extends[OF wf s'])
  have wf': "wf_stream s'" using e by (rule extends_wf)
  have bits: "bits_eq 0 T (sbuf d) (sbuf s')" using e by (simp add: extends_def)
  have new: "st_enc st (sbuf s') T [e] (wpos s')"
    using encoded_put[where put = "entryToStream (st_typeBits st) (inDuplicateMode st) (bitsPerTile st)"
        and ok = "st_ok st", OF wf ok s'] by (simp add: st_enc_def)
  define d' where "d' = snd (mem_stream_setPos s' POS_WRITE (mem_stream_getPos d POS_WRITE))"
  have d': "sbuf d' = sbuf s'" "nBytesWritten d' = nBytesWritten s'" "wf_reader d'" "rpos d' = rpos d"
    using wf' extends_rpos[OF e]
    by (auto simp: d'_def mem_stream_setPos_def Let_def wf_stream_def wf_reader_def rpos_def)
  define st' where "st' = st\<lparr>typeBits := st_typeBits st, nEntries := trunc16 (nEntries st + 1),
      highWaterMark := trunc16 (nEntries st + 1), top := mem_stream_getPos s' POS_WRITE,
      sdata := Some d'\<rparr>"
  have push: "pushEntry st e = Some st'"
    using pushEntry_eq[OF rep, of e s'] s' set by (simp add: st'_def d'_def d_def)
  have same: "st_enc st' = st_enc st"
    by (rule st_enc_cong_st) (simp_all add: st'_def st_typeBits_def)
  have n: "nEntries st = length es" using rep by (simp add: stack_rep_def)
  have top': "top st' = pos_of (wpos s')" by (simp add: st'_def getPos_write_wf[OF wf'])
  have CT: "C \<le> T" using st_enc_le[OF P(9)] .
  have es: "st_enc st (sbuf s') 0 es T" "st_enc st (sbuf s') 0 (take (cacheNext st) es) C"
    "st_enc st (sbuf s') C (drop (cacheNext st) es) T"
    using st_enc_cong[OF P(3), of "sbuf s'"] st_enc_cong[OF P(8), of "sbuf s'"]
      st_enc_cong[OF P(9), of "sbuf s'"] bits CT
    by (auto simp: d_def intro: bits_eq_mono)
  have "data_rep st' d' (es @ [e]) [] (wpos s') (wpos s') C"
    using es new P(6,7) wpos_le[OF wf'] d' top' unfolding data_rep_def same
    by (auto simp: st'_def st_enc_append)
  then have "stack_rep st' (es @ [e]) []"
    using n len d' P(2) by (auto simp: stack_rep_def st'_def d_def)
  moreover have "push_data st' = d'" by (simp add: push_data_def st'_def)
  moreover have "T \<le> 8 * nBytesWritten s'" using e wpos_le[OF wf'] by (simp add: extends_def)
  ultimately show ?thesis
    using push P bits d' by (intro exI[of _ st'] exI[of _ T])
      (auto simp: st'_def st_typeBits_def d_def)
qed

section \<open>Undoing a push restores the hash\<close>

lemma encoded_unique:
  assumes "st_enc st buf p es q" "st_enc st buf p es q'" "q \<le> 8 * length buf" "q' \<le> 8 * length buf"
    "length buf < 65536"
  shows "q = q'"
proof -
  define r where "r = set_rpos p (mem_stream_make_raw\<lparr>sbuf := buf, nBytesWritten := length buf, nBytesAllocated := length buf\<rparr>)"
  have r: "wf_reader r" "sbuf r = buf" "rpos r = p" "nBytesWritten r = length buf"
  proof -
    show "rpos r = p" by (simp add: r_def)
  qed (use assms(5) in \<open>auto simp: r_def wf_reader_def mem_stream_make_raw_def mem_stream_make_def set_rpos_def\<close>)
  define st1 where "st1 = st\<lparr>sdata := Some r, typeBits := st_typeBits st\<rparr>"
  have same: "st_enc st1 = st_enc st" by (rule st_enc_cong_st) (simp_all add: st1_def st_typeBits_def)
  have "skipEntries (length es) st1 = Some (st1\<lparr>sdata := Some (set_rpos q r)\<rparr>)"
    "skipEntries (length es) st1 = Some (st1\<lparr>sdata := Some (set_rpos q' r)\<rparr>)"
    by (rule skipEntries_spec; use assms r same in \<open>simp add: st1_def\<close>)+
  then have "sdata (st1\<lparr>sdata := Some (set_rpos q r)\<rparr>) = sdata (st1\<lparr>sdata := Some (set_rpos q' r)\<rparr>)"
    by (metis option.inject)
  then have "set_rpos q r = set_rpos q' r" by simp
  then show ?thesis by (metis rpos_set_rpos)
qed

lemma getHash_pos:
  assumes "bits_eq 0 T (sbuf d) (sbuf d')" "T \<le> 8 * nBytesWritten d" "T \<le> 8 * nBytesWritten d'"
    and "wf_reader d" "wf_reader d'"
  shows "mem_stream_getHash d' (pos_of T) = mem_stream_getHash d (pos_of T)"
proof (rule getHash_cong)
  have p: "pos_of T div 8 = (T + 7) div 8" "pos_of T mod 8 = T mod 8"
    using pos_of_parts[of T] by (simp_all add: BYTE_PART_def BIT_PART_def)
  have b: "(T + 7) div 8 \<le> nBytesWritten d" "(T + 7) div 8 \<le> nBytesWritten d'"
    using assms(2,3) by linarith+
  have l: "nBytesWritten d \<le> length (sbuf d)" "length (sbuf d) < 65536" "nBytesWritten d' \<le> length (sbuf d')"
    using assms(4,5) by (auto simp: wf_reader_def)
  show "bits_eq 0 (bitpos (pos_of T div 8) (pos_of T mod 8)) (sbuf d) (sbuf d')"
    using assms(1) by (simp add: p)
  show "trunc16 (pos_of T div 8) = pos_of T div 8" "pos_of T div 8 \<le> length (sbuf d)"
    "pos_of T div 8 \<le> length (sbuf d')"
    using b l by (simp_all add: p)
  show "0 < pos_of T div 8" if "pos_of T mod 8 \<noteq> 0"
    using that unfolding p by (simp add: ceil8)
qed

lemma getHash_0: "mem_stream_getHash d 0 = Some 0"
  by (simp add: mem_stream_getHash_def BYTE_PART_def BIT_PART_def trunc16_def finishHash_def)

lemma push_pop_hash:
  assumes rep: "stack_rep st es rs" and ok: "st_ok st e"
    and room: "st_bytes st + (2 + body_cost (edata e)) \<le> STREAM_ROOM" and len: "length es < 65535"
  shows "\<exists>st' st''. pushEntry st e = Some st' \<and>
           stack_popEntry st' = Some (Some (e\<lparr>moveNum := length es mod 256\<rparr>), st'') \<and>
           stack_rep st'' es [e] \<and> top st'' = top st \<and>
           stack_getHash st'' = stack_getHash st"
proof -
  from push_spec[OF assms] obtain st' T where
    push: "pushEntry st e = Some st'" "stack_rep st' (es @ [e]) []"
      "st_typeBits st' = st_typeBits st" "inDuplicateMode st' = inDuplicateMode st"
      "bitsPerTile st' = bitsPerTile st" "sdata st' \<noteq> None" "top st = pos_of T"
      "T \<le> 8 * nBytesWritten (push_data st)" "st_enc st (sbuf (push_data st)) 0 es T"
      "bits_eq 0 T (sbuf (push_data st)) (sbuf (push_data st'))" "T \<le> 8 * nBytesWritten (push_data st')"
    by blast
  from popEntry_spec[OF push(2)] obtain st'' where
    pop: "stack_popEntry st' = Some (Some (e\<lparr>moveNum := length es mod 256\<rparr>), st'')"
      "stack_rep st'' es [e]" "sbuf (the (sdata st'')) = sbuf (the (sdata st'))"
      "st_typeBits st'' = st_typeBits st'" "inDuplicateMode st'' = inDuplicateMode st'"
      "bitsPerTile st'' = bitsPerTile st'" "sdata st'' \<noteq> None"
      "nBytesWritten (the (sdata st'')) = nBytesWritten (the (sdata st'))" by blast
  then obtain d d' where d: "sdata st' = Some d" "sdata st'' = Some d'" "sbuf d' = sbuf d"
      "nBytesWritten d' = nBytesWritten d"
    using push(6) by auto
  have same: "st_enc st'' = st_enc st"
    by (rule st_enc_cong_st) (use push pop in simp_all)
  from pop(2) d(2) obtain T' Q C where D: "wf_reader d'" "data_rep st'' d' es [e] T' Q C"
    by (auto simp: stack_rep_def)
  note R = D(2)[unfolded data_rep_def same]
  have T'Q: "T' \<le> Q" using R st_enc_le by blast
  have l: "nBytesWritten d' \<le> length (sbuf d')" "length (sbuf d') < 65536" using D(1) by (auto simp: wf_reader_def)
  have wfp: "wf_reader (push_data st)" using push_data_rep[OF rep] by blast
  have "st_enc st (sbuf d') 0 es T"
    using st_enc_cong[OF push(9)] push(10) d by (simp add: push_data_def)
  moreover have "T \<le> 8 * length (sbuf d')"
    using push(11) d l by (simp add: push_data_def)
  ultimately have TT: "T' = T" using encoded_unique[of st "sbuf d'" 0 es T' T] R T'Q l by simp
  have top: "top st'' = top st" using R push(7) TT by simp
  have "stack_getHash st'' = stack_getHash st"
  proof (cases "sdata st")
    case None
    then have "top st'' = 0" using top rep by (simp add: stack_rep_def)
    then show ?thesis using None d by (simp add: stack_getHash_def getHash_0)
  next
    case d0: (Some d0)
    have "mem_stream_getHash d' (pos_of T) = mem_stream_getHash d0 (pos_of T)"
      by (rule getHash_pos) (use push(8,10) d d0 R T'Q TT D(1) wfp in \<open>simp_all add: push_data_def\<close>)
    then show ?thesis using d d0 top push(7) by (simp add: stack_getHash_def)
  qed
  then show ?thesis using push(1) pop top by blast
qed

section \<open>Saving and loading\<close>

lemma take_drop_split:
  "k \<le> n \<Longrightarrow> take n (drop i xs) = take k (drop i xs) @ take (n - k) (drop (i + k) xs)"
  by (metis add.commute drop_drop le_add_diff_inverse take_add)

lemma getFromStream_spec:
  assumes "wf_stream dst" "wf_reader src" "curReadPos src + n \<le> nBytesWritten src"
    "nBytesWritten dst + n \<le> STREAM_ROOM"
  shows "\<exists>dst'. mem_stream_getFromStream dst src n =
           Some (dst', if n = 0 then src else set_rpos (8 * (curReadPos src + n)) src) \<and>
         extends dst dst' \<and>
         (0 < n \<longrightarrow> wpos dst' = 8 * (curWritePos dst + n) \<and> curWritePos dst' = curWritePos dst + n \<and>
            nBytesWritten dst' = curWritePos dst + n) \<and>
         take n (drop (curWritePos dst) (sbuf dst')) = take n (drop (curReadPos src) (sbuf src))"
  using assms
proof (induction n arbitrary: dst src rule: less_induct)
  case (less n)
  show ?case
  proof (cases "n = 0")
    case True
    then show ?thesis using less.prems by (subst mem_stream_getFromStream.simps) simp
  next
    case False
    define len where "len = (if n < 256 then n else 256)"
    have len: "0 < len" "len \<le> n" using False by (auto simp: len_def)
    define bs where "bs = take len (drop (curReadPos src) (sbuf src))"
    define src1 where "src1 = set_rpos (8 * (curReadPos src + len)) src"
    have get: "mem_stream_getBytes src len = Some (bs, src1)"
      using getBytes_spec[OF less.prems(2), of len] less.prems(3) len by (simp add: bs_def src1_def)
    have lb: "length bs = len" using less.prems(2,3) len by (auto simp: bs_def wf_reader_def)
    have room: "nBytesWritten dst + length bs \<le> STREAM_ROOM" using less.prems(4) len lb by simp
    from putBytes_total[OF less.prems(1) room] obtain dst1 where
      put: "mem_stream_putBytes dst bs = Some dst1" "nBytesWritten dst1 \<le> nBytesWritten dst + len"
      using lb by auto
    note P = putBytes_spec[OF less.prems(1) put(1)]
    have wf1: "wf_stream dst1" using P(4) by (rule extends_wf)
    have src1: "wf_reader src1" "curReadPos src1 = curReadPos src + len" "sbuf src1 = sbuf src"
      "nBytesWritten src1 = nBytesWritten src"
      using less.prems(2) by (simp_all add: src1_def, simp add: set_rpos_def)
    have "\<exists>dst'. mem_stream_getFromStream dst1 src1 (n - len) =
           Some (dst', if n - len = 0 then src1 else set_rpos (8 * (curReadPos src1 + (n - len))) src1) \<and>
         extends dst1 dst' \<and>
         (0 < n - len \<longrightarrow> wpos dst' = 8 * (curWritePos dst1 + (n - len)) \<and>
            curWritePos dst' = curWritePos dst1 + (n - len) \<and>
            nBytesWritten dst' = curWritePos dst1 + (n - len)) \<and>
         take (n - len) (drop (curWritePos dst1) (sbuf dst')) = take (n - len) (drop (curReadPos src1) (sbuf src1))"
      by (rule less.IH[OF _ wf1 src1(1)]) (use src1 put(2) less.prems(3,4) len in simp_all)
    then obtain dst' where I0: "mem_stream_getFromStream dst1 src1 (n - len) =
           Some (dst', if n - len = 0 then src1 else set_rpos (8 * (curReadPos src1 + (n - len))) src1) \<and>
         extends dst1 dst' \<and>
         (0 < n - len \<longrightarrow> wpos dst' = 8 * (curWritePos dst1 + (n - len)) \<and>
            curWritePos dst' = curWritePos dst1 + (n - len) \<and>
            nBytesWritten dst' = curWritePos dst1 + (n - len)) \<and>
         take (n - len) (drop (curWritePos dst1) (sbuf dst')) = take (n - len) (drop (curReadPos src1) (sbuf src1))"
      by (elim exE)
    note I = I0[THEN conjunct1] I0[THEN conjunct2, THEN conjunct1]
      I0[THEN conjunct2, THEN conjunct2, THEN conjunct1, rule_format]
      I0[THEN conjunct2, THEN conjunct2, THEN conjunct2]
    have step: "mem_stream_getFromStream dst src n = mem_stream_getFromStream dst1 src1 (n - len)"
      using False get put(1)
      by (subst mem_stream_getFromStream.simps) (simp add: Let_def del: if_split flip: len_def)
    have e: "extends dst dst'" by (rule extends_trans[OF P(4) I(2)])
    have same: "take len (drop (curWritePos dst) (sbuf dst')) = bs"
    proof -
      have l1: "curWritePos dst + len \<le> length (sbuf dst1)"
        using wf1 P(1) lb by (simp add: wf_stream_def wf_reader_def)
      have wf': "wf_stream dst'" using I(2) by (rule extends_wf)
      have "8 * (curWritePos dst + len) \<le> 8 * nBytesWritten dst'"
        using I(2) wpos_le[OF wf'] P(6) lb by (simp add: extends_def)
      then have l2: "curWritePos dst + len \<le> length (sbuf dst')"
        using wf' by (simp add: wf_stream_def wf_reader_def)
      have eq: "bits_eq 0 (8 * (curWritePos dst + len)) (sbuf dst1) (sbuf dst')"
        using I(2) P(6) lb by (simp add: extends_def)
      have "take len (drop (curWritePos dst) (sbuf dst')) = take len (drop (curWritePos dst) (sbuf dst1))"
        by (rule nth_equalityI) (use l1 l2 bits_eq_byte[OF eq, symmetric] in auto)
      then show ?thesis using P(5) lb by simp
    qed
    have "take n (drop (curWritePos dst) (sbuf dst')) = take n (drop (curReadPos src) (sbuf src))"
      using take_drop_split[OF len(2), of "curWritePos dst" "sbuf dst'"]
        take_drop_split[OF len(2), of "curReadPos src" "sbuf src"] same I(4) P(1) lb src1
      by (simp add: bs_def)
    moreover have "0 < n \<longrightarrow> wpos dst' = 8 * (curWritePos dst + n) \<and> curWritePos dst' = curWritePos dst + n \<and>
            nBytesWritten dst' = curWritePos dst + n"
    proof (cases "n = len")
      case True
      then have "dst' = dst1" using I(1) by (subst (asm) mem_stream_getFromStream.simps) simp
      then show ?thesis using True P(1,2,6) lb by simp
    next
      case False
      then show ?thesis using I(3) P(1) lb len by simp
    qed
    moreover have "(if n - len = 0 then src1 else set_rpos (8 * (curReadPos src1 + (n - len))) src1) =
        set_rpos (8 * (curReadPos src + n)) src"
      using len src1 by (auto simp: src1_def)
    ultimately show ?thesis using step I(1) e False by auto
  qed
qed

lemma u16_flag:
  "n < 32768 \<Longrightarrow> HAVE_FLAGS_MASK AND (of_nat n :: u16) = 0"
  "n < 32768 \<Longrightarrow> HAVE_FLAGS_MASK AND ((of_nat n :: u16) OR HAVE_FLAGS_MASK) \<noteq> 0"
  "n < 32768 \<Longrightarrow> (of_nat n :: u16) AND NOT HAVE_FLAGS_MASK = of_nat n"
  "n < 32768 \<Longrightarrow> ((of_nat n :: u16) OR HAVE_FLAGS_MASK) AND NOT HAVE_FLAGS_MASK = of_nat n"
proof -
  have m: "bit HAVE_FLAGS_MASK k \<longleftrightarrow> k = 15" for k
  proof -
    have e: "HAVE_FLAGS_MASK = push_bit 15 1" by (simp add: HAVE_FLAGS_MASK_def)
    show ?thesis unfolding e bit_push_bit_iff by (auto simp: bit_1_iff)
  qed
  assume n: "n < 32768"
  have b: "\<not> bit (of_nat n :: u16) 15"
  proof -
    have "unat (of_nat n :: u16) div 32768 = 0" using n by (simp add: unsigned_of_nat take_bit_nat_eq_self)
    then show ?thesis using bit_unsigned_iff[of "of_nat n :: u16" 15, where 'a = nat]
      by (simp add: bit_nat_def)
  qed
  show "HAVE_FLAGS_MASK AND (of_nat n :: u16) = 0"
    by (rule bit_word_eqI) (use b in \<open>auto simp: bit_and_iff m\<close>)
  have "bit (HAVE_FLAGS_MASK AND ((of_nat n :: u16) OR HAVE_FLAGS_MASK)) 15"
    by (simp add: bit_and_iff bit_or_iff m)
  then show "HAVE_FLAGS_MASK AND ((of_nat n :: u16) OR HAVE_FLAGS_MASK) \<noteq> 0" by auto
  show "(of_nat n :: u16) AND NOT HAVE_FLAGS_MASK = of_nat n"
    by (rule bit_word_eqI) (use b in \<open>auto simp: bit_and_iff bit_not_iff m\<close>)
  show "((of_nat n :: u16) OR HAVE_FLAGS_MASK) AND NOT HAVE_FLAGS_MASK = of_nat n"
    by (rule bit_word_eqI) (use b in \<open>auto simp: bit_and_iff bit_or_iff bit_not_iff m\<close>)
qed

text \<open>The header a stack is written with.\<close>

lemma unat_of_nat_u16: "n < 65536 \<Longrightarrow> unat (of_nat n :: u16) = n"
  by (simp add: unsigned_of_nat take_bit_nat_eq_self)

text \<open>What a reader sees of a part of what was written.\<close>

lemma reader_part:
  assumes "extends t u" "bits_eq lo (wpos u) (sbuf u) (sbuf r)" "lo \<le> p" "wpos u \<le> 8 * nBytesWritten r"
  shows "bits_eq p (wpos t) (sbuf t) (sbuf r)" "wpos t \<le> 8 * nBytesWritten r"
proof -
  have "bits_eq p (wpos t) (sbuf t) (sbuf u)" using assms(1) by (auto simp: extends_def intro: bits_eq_mono)
  moreover have "bits_eq p (wpos t) (sbuf u) (sbuf r)"
    using assms by (auto simp: extends_def intro: bits_eq_mono)
  ultimately show "bits_eq p (wpos t) (sbuf t) (sbuf r)" by (rule bits_eq_trans)
  show "wpos t \<le> 8 * nBytesWritten r" using assms by (simp add: extends_def)
qed

text \<open>The header: sizes, flags, counts and the top.\<close>

definition header_of :: "stackCtxt \<Rightarrow> nat \<Rightarrow> u16" where
  "header_of st n = of_nat n OR (if typeBits st = 3 then HAVE_FLAGS_MASK else 0)"

definition put_header :: "stackCtxt \<Rightarrow> nat \<Rightarrow> mem_stream \<Rightarrow> mem_stream option" where
  "put_header st n s = do {
     s \<leftarrow> mem_stream_putU16 s (header_of st n);
     s \<leftarrow> (if typeBits st = 3 then mem_stream_putU8 s (sflags st) else Some s);
     s \<leftarrow> mem_stream_putU16 s (of_nat (highWaterMark st));
     s \<leftarrow> mem_stream_putU16 s (of_nat (nEntries st));
     mem_stream_putU32 s (of_nat (top st))
   }"

definition get_header :: "stackCtxt \<Rightarrow> mem_stream \<Rightarrow> ((u16 \<times> stackCtxt \<times> u16 \<times> u16 \<times> u32) \<times> mem_stream) option" where
  "get_header stack stream = do {
     (nBytes, stream) \<leftarrow> mem_stream_getU16 stream;
     (stack, stream) \<leftarrow>
       (if HAVE_FLAGS_MASK AND nBytes \<noteq> 0 then do {
          (f, stream) \<leftarrow> mem_stream_getU8 stream;
          Some (stack\<lparr>sflags := f, typeBits := 3\<rparr>, stream)
        } else do {
          xp_assert (0 = sflags stack);
          Some (stack\<lparr>typeBits := 2\<rparr>, stream)
        });
     (hwm, stream) \<leftarrow> mem_stream_getU16 stream;
     (n, stream) \<leftarrow> mem_stream_getU16 stream;
     (t, stream) \<leftarrow> mem_stream_getU32 stream;
     Some ((nBytes, stack, hwm, n, t), stream)
   }"

lemma put_header_spec:
  assumes wf: "wf_stream s" and room: "nBytesWritten s + 11 \<le> STREAM_ROOM" and n: "n < 32768"
    and tb: "typeBits st = 2 \<or> typeBits st = 3"
  shows "\<exists>s'. put_header st n s = Some s' \<and> extends s s' \<and> nBytesWritten s' \<le> nBytesWritten s + 11 \<and>
    wpos s' mod 8 = 0 \<and>
    (\<forall>u r new. sflags new = 0 \<longrightarrow> extends s' u \<longrightarrow> wf_reader r \<longrightarrow> rpos r = wpos s \<longrightarrow> bits_eq (wpos s) (wpos u) (sbuf u) (sbuf r) \<longrightarrow>
       wpos u \<le> 8 * nBytesWritten r \<longrightarrow>
       get_header new r = Some ((header_of st n,
         new\<lparr>sflags := (if typeBits st = 3 then sflags st else 0), typeBits := typeBits st\<rparr>,
         of_nat (highWaterMark st), of_nat (nEntries st), of_nat (top st)), set_rpos (wpos s') r))"
proof -
  obtain s1 where s1: "mem_stream_putU16 s (header_of st n) = Some s1" "nBytesWritten s1 \<le> nBytesWritten s + 2"
    using u16.put_total[OF wf, of "header_of st n"] room by auto
  have e1: "extends s s1" by (rule u16.put_extends[OF wf s1(1)])
  note w1 = extends_wf[OF e1]
  obtain s2 where s2: "(if typeBits st = 3 then mem_stream_putU8 s1 (sflags st) else Some s1) = Some s2"
      "nBytesWritten s2 \<le> nBytesWritten s + 3"
    using u8.put_total[OF w1, of "sflags st"] s1 room by (cases "typeBits st = 3") auto
  have e2: "extends s1 s2" using s2(1) u8.put_extends[OF w1] w1 by (auto split: if_splits)
  note w2 = extends_wf[OF e2]
  obtain s3 where s3: "mem_stream_putU16 s2 (of_nat (highWaterMark st)) = Some s3" "nBytesWritten s3 \<le> nBytesWritten s + 5"
    using u16.put_total[OF w2, of "of_nat (highWaterMark st)"] s2 room by auto
  have e3: "extends s2 s3" by (rule u16.put_extends[OF w2 s3(1)])
  note w3 = extends_wf[OF e3]
  obtain s4 where s4: "mem_stream_putU16 s3 (of_nat (nEntries st)) = Some s4" "nBytesWritten s4 \<le> nBytesWritten s + 7"
    using u16.put_total[OF w3, of "of_nat (nEntries st)"] s3 room by auto
  have e4: "extends s3 s4" by (rule u16.put_extends[OF w3 s4(1)])
  note w4 = extends_wf[OF e4]
  obtain s5 where s5: "mem_stream_putU32 s4 (of_nat (top st)) = Some s5" "nBytesWritten s5 \<le> nBytesWritten s + 11"
    using u32.put_total[OF w4, of "of_nat (top st)"] s4 room by auto
  have e5: "extends s4 s5" by (rule u32.put_extends[OF w4 s5(1)])
  have put: "put_header st n s = Some s5" using s1 s2 s3 s4 s5 by (simp add: put_header_def)
  have e: "extends s s5" by (rule extends_trans[OF e1 extends_trans[OF e2 extends_trans[OF e3 extends_trans[OF e4 e5]]]])
  have al: "wpos s5 mod 8 = 0"
    using putBytes_spec(6)[OF w4, of "htonl (of_nat (top st))" s5] s5(1) by (simp add: mem_stream_putU32_def)
  have get: "get_header new r = Some ((header_of st n,
         new\<lparr>sflags := (if typeBits st = 3 then sflags st else 0), typeBits := typeBits st\<rparr>,
         of_nat (highWaterMark st), of_nat (nEntries st), of_nat (top st)), set_rpos (wpos s5) r)"
    if new: "sflags new = 0" and u: "extends s5 u" and r: "wf_reader r" "rpos r = wpos s"
      and b: "bits_eq (wpos s) (wpos u) (sbuf u) (sbuf r)" "wpos u \<le> 8 * nBytesWritten r" for new u r
  proof -
    note x5 = u
    note x4 = extends_trans[OF e5 x5] note x3 = extends_trans[OF e4 x4]
    note x2 = extends_trans[OF e3 x3] note x1 = extends_trans[OF e2 x2]
    have ws: "wpos s \<le> wpos s1" "wpos s1 \<le> wpos s2" "wpos s2 \<le> wpos s3" "wpos s3 \<le> wpos s4"
      using e1 e2 e3 e4 by (simp_all add: extends_def)
    note part = reader_part[OF _ b(1) _ b(2)]
    have g1: "mem_stream_getU16 r = Some (header_of st n, set_rpos (wpos s1) r)"
      by (rule u16.get_put[OF wf TrueI s1(1) r part[OF x1 order_refl]])
    define r1 where "r1 = set_rpos (wpos s1) r"
    define r2 where "r2 = set_rpos (wpos s2) r"
    have g2: "typeBits st = 3 \<Longrightarrow> mem_stream_getU8 r1 = Some (sflags st, r2)"
    proof -
      assume "typeBits st = 3"
      then have p: "mem_stream_putU8 s1 (sflags st) = Some s2" using s2(1) by simp
      have "mem_stream_getU8 r1 = Some (sflags st, set_rpos (wpos s2) r1)"
        by (rule u8.get_put[OF w1 TrueI p]) (use r part[OF x2] ws in \<open>simp_all add: r1_def\<close>)
      then show ?thesis by (simp add: r1_def r2_def)
    qed
    have g2': "typeBits st = 2 \<Longrightarrow> r2 = r1" using s2(1) by (simp add: r1_def r2_def)
    have g3: "mem_stream_getU16 r2 = Some (of_nat (highWaterMark st), set_rpos (wpos s3) r2)"
      by (rule u16.get_put[OF w2 TrueI s3(1)]) (use r part[OF x3] ws in \<open>simp_all add: r2_def\<close>)
    have g4: "mem_stream_getU16 (set_rpos (wpos s3) r) = Some (of_nat (nEntries st), set_rpos (wpos s4) (set_rpos (wpos s3) r))"
      by (rule u16.get_put[OF w3 TrueI s4(1)]) (use r part[OF x4] ws in simp_all)
    have g5: "mem_stream_getU32 (set_rpos (wpos s4) r) = Some (of_nat (top st), set_rpos (wpos s5) (set_rpos (wpos s4) r))"
      by (rule u32.get_put[OF w4 TrueI s5(1)]) (use r part[OF x5] ws in simp_all)
    have rest: "get_header new r = do {
       (stack, stream) \<leftarrow>
       (if typeBits st = 3 then do {
          (f, stream) \<leftarrow> mem_stream_getU8 r1;
          Some (new\<lparr>sflags := f, typeBits := 3\<rparr>, stream)
        } else Some (new\<lparr>typeBits := 2\<rparr>, r1));
       (hwm, stream) \<leftarrow> mem_stream_getU16 stream;
       (n', stream) \<leftarrow> mem_stream_getU16 stream;
       (t, stream) \<leftarrow> mem_stream_getU32 stream;
       Some ((header_of st n, stack, hwm, n', t), stream) }"
      using g1 tb n new u16_flag(1,2)[OF n]
      by (auto simp: get_header_def header_of_def r1_def)
    show ?thesis
    proof (cases "typeBits st = 3")
      case True
      then show ?thesis unfolding rest using g2 g3 g4 g5 by (simp add: r2_def)
    next
      case False
      then have two: "typeBits st = 2" using tb by simp
      have r1p: "set_rpos p r1 = set_rpos p r" for p by (simp add: r1_def)
      have nw: "new\<lparr>sflags := 0, typeBits := 2\<rparr> = new\<lparr>typeBits := 2\<rparr>" using new by simp
      show ?thesis unfolding rest using two g3 g4 g5 nw unfolding g2'[OF two] r1p by simp
    qed
  qed
  show ?thesis
    by (rule exI[of _ s5], intro conjI allI impI)
      (rule put e s5(2) al | erule (4) get | assumption)+
qed

lemma st_enc_pos: "st_enc st buf p [e] q \<Longrightarrow> p < q"
proof -
  assume "st_enc st buf p [e] q"
  then obtain s s' where s: "wf_stream s" "st_ok st e" "wpos s = p" "wpos s' = q"
      "entryToStream (st_typeBits st) (inDuplicateMode st) (bitsPerTile st) s e = Some s'"
    by (auto simp: st_enc_def encoded_def)
  obtain a b where a: "mem_stream_putBits s (st_typeBits st) (of_nat (moveType (edata e))) = Some a"
      "mem_stream_putBits a 2 (of_nat (playerNum e)) = Some b"
      "bodyToStream (inDuplicateMode st) (bitsPerTile st) (playerNum e) b (edata e) = Some s'"
    using s(5) by (auto simp: entryToStream_def)
  note A = putBits_spec[OF s(1) a(1)]
  note B = putBits_spec[OF extends_wf[OF A(1)] a(2)]
  have "wpos b \<le> wpos s'" using body_extends[OF extends_wf[OF B(1)] a(3)] by (simp add: extends_def)
  then show "p < q" using A(2) B(2) s by simp
qed

lemma load_via_header:
  assumes "get_header stack r = Some ((hdr, stk, hwm, n, t), r5)" and "0 < hdr AND NOT HAVE_FLAGS_MASK"
  shows "stack_loadFromStream stack r = do {
       (d, r) \<leftarrow> mem_stream_getFromStream mem_stream_make_raw r5 (unat (hdr AND NOT HAVE_FLAGS_MASK));
       Some (stk\<lparr>highWaterMark := unat hwm, nEntries := unat n, top := unat t, sdata := Some d\<rparr>, r)
     }"
proof -
  from assms(1) obtain r1 where r1: "mem_stream_getU16 r = Some (hdr, r1)"
    by (auto simp: get_header_def split: if_splits)
  from assms(1) obtain r2 where r2:
    "(if HAVE_FLAGS_MASK AND hdr \<noteq> 0 then do {
          (f, stream) \<leftarrow> mem_stream_getU8 r1;
          Some (stack\<lparr>sflags := f, typeBits := 3\<rparr>, stream)
        } else do {
          xp_assert (0 = sflags stack);
          Some (stack\<lparr>typeBits := 2\<rparr>, r1)
        }) = Some (stk, r2)"
    and r3: "do { (hwm, stream) \<leftarrow> mem_stream_getU16 r2; (n, stream) \<leftarrow> mem_stream_getU16 stream;
       (t, stream) \<leftarrow> mem_stream_getU32 stream; Some ((hwm, n, t), stream) } = Some ((hwm, n, t), r5)"
    unfolding get_header_def r1 by (auto split: if_splits)
  from r3 obtain a b where "mem_stream_getU16 r2 = Some (hwm, a)" "mem_stream_getU16 a = Some (n, b)"
      "mem_stream_getU32 b = Some (t, r5)" by auto
  then show ?thesis
    unfolding stack_loadFromStream_def r1 using assms(2) by (simp add: r2)
qed

text \<open>The whole stack, written and loaded into a new one.\<close>

lemma write_load:
  assumes rep: "stack_rep st es rs" and wf: "wf_stream s" and d: "sdata st = Some d"
    and tb: "typeBits st = 2 \<or> typeBits st = 3" and n: "0 < nBytesWritten d" "nBytesWritten d < 32768"
    and room: "nBytesWritten s + 11 + nBytesWritten d \<le> STREAM_ROOM"
  shows "\<exists>st' s'. stack_writeToStream st s = Some (st', s') \<and> extends s s' \<and>
     nBytesWritten s' \<le> nBytesWritten s + 11 + nBytesWritten d \<and> st' = st \<and>
     (\<forall>r k. wf_reader r \<longrightarrow> rpos r = wpos s \<longrightarrow> bits_eq (wpos s) (wpos s') (sbuf s') (sbuf r) \<longrightarrow>
        wpos s' \<le> 8 * nBytesWritten r \<longrightarrow>
        (\<exists>new d'. stack_loadFromStream (stack_make k (inDuplicateMode st)) r = Some (new, set_rpos (wpos s') r) \<and>
           new = (stack_make k (inDuplicateMode st))
             \<lparr>sflags := (if typeBits st = 3 then sflags st else 0), typeBits := typeBits st,
              highWaterMark := highWaterMark st, nEntries := nEntries st, top := top st, sdata := Some d'\<rparr> \<and>
           wf_reader d' \<and> rpos d' = 0 \<and> nBytesWritten d' = nBytesWritten d \<and>
           bits_eq 0 (8 * nBytesWritten d) (sbuf d) (sbuf d')))"
proof -
  define n where "n = nBytesWritten d"
  have n': "0 < n" "n < 32768" using n by (simp_all add: n_def)
  from rep d obtain T Q C where D: "wf_reader d" "rpos d < 8 * 65536" "data_rep st d es rs T Q C"
    by (auto simp: stack_rep_def)
  have lt: "highWaterMark st < 65536" "nEntries st < 65536" using rep by (simp_all add: stack_rep_def)
  have T8: "T < 8 * 65536"
    using D st_enc_le[of st "sbuf d" T rs Q] by (auto simp: data_rep_def wf_reader_def)
  then have top: "top st < 4294967296" using D(3) pos_of_small by (simp add: data_rep_def)
  define d0 where "d0 = set_rpos 0 d"
  have d0: "mem_stream_setPos d POS_READ START_OF_STREAM = (pos_of (rpos d), d0)" "wf_reader d0"
    "mem_stream_getSize d0 = n" "curReadPos d0 = 0" "sbuf d0 = sbuf d" "nBytesWritten d0 = n"
    using setPos_read[of d 0] getPos_read_wf[OF D(1,2)] D(1) n'
    by (simp_all add: d0_def START_OF_STREAM_def n_def mem_stream_getSize_def, simp_all add: set_rpos_def)
  have room1: "nBytesWritten s + 11 \<le> STREAM_ROOM" using room by simp
  from put_header_spec[OF wf room1 n'(2) tb] obtain s5 where
    h: "put_header st n s = Some s5" "extends s s5" "nBytesWritten s5 \<le> nBytesWritten s + 11" "wpos s5 mod 8 = 0"
    and hr: "\<And>new u r. sflags new = 0 \<Longrightarrow> extends s5 u \<Longrightarrow> wf_reader r \<Longrightarrow> rpos r = wpos s \<Longrightarrow>
       bits_eq (wpos s) (wpos u) (sbuf u) (sbuf r) \<Longrightarrow> wpos u \<le> 8 * nBytesWritten r \<Longrightarrow>
       get_header new r = Some ((header_of st n,
         new\<lparr>sflags := (if typeBits st = 3 then sflags st else 0), typeBits := typeBits st\<rparr>,
         of_nat (highWaterMark st), of_nat (nEntries st), of_nat (top st)), set_rpos (wpos s5) r)"
    by (elim exE conjE) (rule that; (assumption | blast))
  note w5 = extends_wf[OF h(2)]
  have bytes: "nBytesWritten s5 + n \<le> STREAM_ROOM" using h(3) room by (simp add: n_def)
  have avail: "curReadPos d0 + n \<le> nBytesWritten d0" using d0 by simp
  from getFromStream_spec[OF w5 d0(2) avail bytes] obtain s6 where
    g: "mem_stream_getFromStream s5 d0 n = Some (s6, set_rpos (8 * n) d0)" "extends s5 s6"
      "wpos s6 = 8 * (curWritePos s5 + n)" "nBytesWritten s6 = curWritePos s5 + n"
      "take n (drop (curWritePos s5) (sbuf s6)) = take n (sbuf d)"
    using n'(1) d0 by auto
  define st' where "st' = st\<lparr>sdata := Some (set_rpos (rpos d) d)\<rparr>"
  have wrt: "stack_writeToStream st s = Some (st', s6)"
    using d d0(1,3) n' h(1) g(1) u16_flag(1)[OF n'(2)] D(1)
    by (cases "typeBits st = 3")
      (auto simp: stack_writeToStream_def put_header_def header_of_def setPos_read d0_def st'_def Let_def)
  have st': "st' = st" using d D(1) by (simp add: st'_def)
  have e6: "extends s s6" by (rule extends_trans[OF h(2) g(2)])
  have cw5: "curWritePos s5 \<le> nBytesWritten s5" "8 * curWritePos s5 = wpos s5"
    using w5 wf_stream_wposD[OF w5] h(4) by (simp_all add: wf_stream_def ceil8 mod_eq_0_iff_dvd)
  have load: "\<exists>new d'. stack_loadFromStream (stack_make k (inDuplicateMode st)) r = Some (new, set_rpos (wpos s6) r) \<and>
           new = (stack_make k (inDuplicateMode st))
             \<lparr>sflags := (if typeBits st = 3 then sflags st else 0), typeBits := typeBits st,
              highWaterMark := highWaterMark st, nEntries := nEntries st, top := top st, sdata := Some d'\<rparr> \<and>
           wf_reader d' \<and> rpos d' = 0 \<and> nBytesWritten d' = nBytesWritten d \<and>
           bits_eq 0 (8 * nBytesWritten d) (sbuf d) (sbuf d')"
    if r: "wf_reader r" "rpos r = wpos s" "bits_eq (wpos s) (wpos s6) (sbuf s6) (sbuf r)"
      "wpos s6 \<le> 8 * nBytesWritten r" for r k
  proof -
    define new0 where "new0 = stack_make k (inDuplicateMode st)"
    have f0: "sflags new0 = 0" by (simp add: new0_def stack_make_def)
    note H = hr[OF f0 g(2) r(1,2,3,4)]
    define r5 where "r5 = set_rpos (wpos s5) r"
    have r5: "wf_reader r5" "curReadPos r5 = curWritePos s5" "sbuf r5 = sbuf r" "nBytesWritten r5 = nBytesWritten r"
      using r(1) wf_stream_wposD[OF w5] by (simp_all add: r5_def, simp add: set_rpos_def)
    have av: "curReadPos r5 + n \<le> nBytesWritten r5" using r(4) g(3) r5 by simp
    have rm: "nBytesWritten mem_stream_make_raw + n \<le> STREAM_ROOM" using n' by (simp add: STREAM_ROOM_def)
    from getFromStream_spec[OF wf_stream_make_raw r5(1) av rm] obtain d' where
      d': "mem_stream_getFromStream mem_stream_make_raw r5 n = Some (d', set_rpos (8 * (curReadPos r5 + n)) r5)"
        "extends mem_stream_make_raw d'" "nBytesWritten d' = n"
        "take n (sbuf d') = take n (drop (curWritePos s5) (sbuf r))"
      using n'(1) r5 by (auto simp: mem_stream_make_raw_def mem_stream_make_def)
    have same: "sbuf d' ! j = sbuf d ! j" if "j < n" for j
    proof -
      have ln: "n \<le> length (sbuf d')" "n \<le> length (sbuf d)"
        using extends_wf[OF d'(2)] d'(3) D(1) by (auto simp: wf_stream_def wf_reader_def n_def)
      have l6: "curWritePos s5 + n \<le> length (sbuf s6)" "curWritePos s5 + n \<le> length (sbuf r)"
        using extends_wf[OF g(2)] g(4) r(1) av r5 by (auto simp: wf_stream_def wf_reader_def)
      have "wpos s \<le> wpos s5" using h(2) by (simp add: extends_def)
      then have b: "sbuf s6 ! (curWritePos s5 + j) = sbuf r ! (curWritePos s5 + j)"
        using that cw5(2) g(3) by (intro bits_eq_byte[OF r(3)]) simp_all
      have "sbuf d' ! j = take n (sbuf d') ! j" using that by simp
      also have "\<dots> = sbuf r ! (curWritePos s5 + j)" using d'(4) that l6 by simp
      also have "\<dots> = take n (drop (curWritePos s5) (sbuf s6)) ! j" using b that l6 by simp
      also have "\<dots> = sbuf d ! j" using g(5) that by simp
      finally show ?thesis .
    qed
    have bits: "bits_eq 0 (8 * nBytesWritten d) (sbuf d) (sbuf d')"
      unfolding n_def[symmetric] by (rule bits_eq_bytes) (simp add: same)
    define new where "new = new0\<lparr>sflags := (if typeBits st = 3 then sflags st else 0), typeBits := typeBits st,
              highWaterMark := highWaterMark st, nEntries := nEntries st, top := top st, sdata := Some d'\<rparr>"
    have un: "unat (header_of st n AND NOT HAVE_FLAGS_MASK) = n"
      using n' u16_flag(3,4)[OF n'(2)] by (simp add: header_of_def unat_of_nat_u16)
    then have pos: "header_of st n AND NOT HAVE_FLAGS_MASK > 0" using n' by (simp add: word_less_nat_alt)
    have un2: "unat (of_nat (top st) :: u32) = top st" using top by (simp add: unat_of_nat_u32)
    have fin: "set_rpos (8 * (curReadPos r5 + n)) r5 = set_rpos (wpos s6) r"
      using r5(2) g(3) by (simp add: r5_def)
    have "stack_loadFromStream new0 r = Some (new, set_rpos (wpos s6) r)"
      unfolding load_via_header[OF H pos] un
      using d'(1) un2 lt fin by (simp add: new_def unat_of_nat_u16 r5_def)
    moreover have "wf_reader d'" "rpos d' = 0" using extends_wf[OF d'(2)] extends_rpos[OF d'(2)] by simp_all
    ultimately show ?thesis using bits d'(3) by (auto simp: new_def new0_def n_def)
  qed
  have "nBytesWritten s6 \<le> nBytesWritten s + 11 + nBytesWritten d"
    using g(4) cw5(1) h(3) by (simp add: n_def)
  then show ?thesis using wrt e6 rep load unfolding st' by blast
qed

section \<open>The interface of an undo stack\<close>

locale undo_stack =
  fixes rep :: "'s \<Rightarrow> 'e list \<Rightarrow> 'e list \<Rightarrow> bool"
    and ok :: "'s \<Rightarrow> 'e \<Rightarrow> bool"
    and mark :: "nat \<Rightarrow> 'e \<Rightarrow> 'e"
    and push :: "'s \<Rightarrow> 'e \<Rightarrow> 's option"
    and pop :: "'s \<Rightarrow> ('e option \<times> 's) option"
    and redo :: "'s \<Rightarrow> ('e option \<times> 's) option"
    and get :: "'s \<Rightarrow> nat \<Rightarrow> ('e option \<times> 's) option"
  assumes push: "rep s es rs \<Longrightarrow> ok s e \<Longrightarrow> \<exists>s'. push s e = Some s' \<and> rep s' (es @ [e]) []"
    and pop: "rep s (es @ [e]) rs \<Longrightarrow>
      \<exists>s'. pop s = Some (Some (mark (length es) e), s') \<and> rep s' es (e # rs)"
    and redo: "rep s es (e # rs) \<Longrightarrow>
      \<exists>s'. redo s = Some (Some (mark (length es) e), s') \<and> rep s' (es @ [e]) rs"
    and get: "rep s es rs \<Longrightarrow> n < length es \<Longrightarrow>
      \<exists>s'. get s n = Some (Some (mark n (es ! n)), s') \<and> rep s' es rs"
begin

fun pops :: "nat \<Rightarrow> 's \<Rightarrow> 's option" where
  "pops 0 s = Some s"
| "pops (Suc n) s = do { (_, s) \<leftarrow> pop s; pops n s }"

fun redos :: "nat \<Rightarrow> 's \<Rightarrow> 's option" where
  "redos 0 s = Some s"
| "redos (Suc n) s = do { (_, s) \<leftarrow> redo s; redos n s }"

text \<open>Undoing any number of entries moves them to the front of what can be redone.\<close>

lemma pops_rep: "rep s (es @ xs) rs \<Longrightarrow> \<exists>s'. pops (length xs) s = Some s' \<and> rep s' es (xs @ rs)"
proof (induction xs arbitrary: s rs rule: rev_induct)
  case (snoc x xs)
  then have "rep s ((es @ xs) @ [x]) rs" by simp
  from pop[OF this] obtain s1 where s1: "pop s = Some (Some (mark (length (es @ xs)) x), s1)"
    "rep s1 (es @ xs) (x # rs)" by blast
  from snoc.IH[OF s1(2)] s1(1) show ?case by auto
qed simp

lemma redos_rep: "rep s es (xs @ rs) \<Longrightarrow> \<exists>s'. redos (length xs) s = Some s' \<and> rep s' (es @ xs) rs"
proof (induction xs arbitrary: s es)
  case (Cons x xs)
  then have "rep s es (x # (xs @ rs))" by simp
  from redo[OF this] obtain s1 where s1: "redo s = Some (Some (mark (length es) x), s1)"
    "rep s1 (es @ [x]) (xs @ rs)" by blast
  from Cons.IH[OF s1(2)] s1(1) show ?case by auto
qed simp

text \<open>Undoing and redoing the same number restores the list.\<close>

lemma undo_redo:
  assumes "rep s (es @ xs) rs"
  shows "\<exists>s1 s2. pops (length xs) s = Some s1 \<and> redos (length xs) s1 = Some s2 \<and> rep s2 (es @ xs) rs"
  using pops_rep[OF assms] redos_rep by blast

end

definition stack_room :: "stackCtxt \<Rightarrow> stackEntry \<Rightarrow> bool" where
  "stack_room st e \<longleftrightarrow> st_ok st e \<and> st_bytes st + (2 + body_cost (edata e)) \<le> STREAM_ROOM \<and>
     nEntries st < 65535"

definition marked :: "nat \<Rightarrow> stackEntry \<Rightarrow> stackEntry" where
  "marked n e = e\<lparr>moveNum := n mod 256\<rparr>"

interpretation mstack: undo_stack stack_rep stack_room marked pushEntry stack_popEntry
    "\<lambda>st. do { (_, e, st) \<leftarrow> stack_redo st True; Some (e, st) }" stack_getNthEntry
proof (unfold_locales, goal_cases)
  case (1 s es rs e)
  then show ?case using push_spec[OF 1(1), of e] by (fastforce simp: stack_room_def stack_rep_def)
next
  case (2 s es e rs)
  then show ?case using popEntry_spec[of s es e rs] by (auto simp: marked_def)
next
  case (3 s es e rs)
  then show ?case using redo_spec[of s es e rs True] by (auto simp: marked_def)
next
  case (4 s es rs n)
  then show ?case using getNthEntry_spec[of s es rs n] by (auto simp: marked_def)
qed

section \<open>A cache that survives \<open>stack_init\<close>\<close>

definition demo_entry :: "entryData \<Rightarrow> stackEntry" where
  "demo_entry u = \<lparr>playerNum = 0, moveNum = 0, edata = u\<rparr>"

definition demo_reset :: "stackEntry option option" where
  "demo_reset = do {
     st \<leftarrow> stack_setBitsPerTile (stack_make 2 False) 5;
     st \<leftarrow> pushEntry st (demo_entry (Assign [1, 2]));
     st \<leftarrow> pushEntry st (demo_entry (Assign [3, 4]));
     (_, st) \<leftarrow> stack_getNthEntry st 0;
     let st = stack_init st 2 False;
     st \<leftarrow> pushEntry st (demo_entry (Assign [5, 6, 7]));
     st \<leftarrow> pushEntry st (demo_entry (Assign [8]));
     (e, st) \<leftarrow> stack_getNthEntry st 1;
     Some e
   }"

text \<open>With the cache at the start, it empties the stack.\<close>

lemma stack_init_rep:
  assumes "stack_rep st es rs" and "cacheNext st = 0"
  shows "stack_rep (stack_init st n (inDuplicateMode st)) [] []"
proof (cases "sdata st")
  case None
  then show ?thesis using assms by (simp add: stack_rep_def stack_init_def START_OF_STREAM_def)
next
  case (Some d)
  then have "cachedPos st = 0" using assms by (auto simp: stack_rep_def data_rep_def)
  then have "data_rep (stack_init st n (inDuplicateMode st)) d [] [] 0 0 0"
    using assms(2) by (simp add: data_rep_def stack_init_def START_OF_STREAM_def)
  then show ?thesis using assms Some
    by (auto simp: stack_rep_def stack_init_def)
qed

lemma loaded_rep:
  assumes rep: "stack_rep st es rs" and d: "sdata st = Some d"
    and new: "typeBits new = typeBits st" "highWaterMark new = highWaterMark st" "nEntries new = nEntries st"
      "top new = top st" "sdata new = Some d'" "inDuplicateMode new = inDuplicateMode st"
      "bitsPerTile new = bitsPerTile st" "cacheNext new = 0" "cachedPos new = 0"
    and d': "wf_reader d'" "rpos d' = 0" "nBytesWritten d' = nBytesWritten d"
      "bits_eq 0 (8 * nBytesWritten d) (sbuf d) (sbuf d')"
  shows "stack_rep new es rs" and "stack_getHash new = stack_getHash st"
proof -
  from rep d obtain T Q C where D: "wf_reader d" "data_rep st d es rs T Q C"
    by (auto simp: stack_rep_def)
  note R = D(2)[unfolded data_rep_def]
  have same: "st_enc new = st_enc st" by (rule st_enc_same[OF d new(5)]) (use new in simp_all)
  have TQ: "T \<le> Q" using R st_enc_le by blast
  have e1: "st_enc st (sbuf d') 0 es T"
    by (rule st_enc_cong[OF conjunct1[OF R]]) (use d'(4) R TQ in \<open>auto intro: bits_eq_mono\<close>)
  have e2: "st_enc st (sbuf d') T rs Q"
    by (rule st_enc_cong[of _ "sbuf d"]) (use d'(4) R TQ in \<open>auto intro: bits_eq_mono\<close>)
  have "data_rep new d' es rs T Q 0"
    using e1 e2 R new d' unfolding data_rep_def same by simp
  then show "stack_rep new es rs"
    using rep new d' by (auto simp: stack_rep_def)
  have "mem_stream_getHash d' (pos_of T) = mem_stream_getHash d (pos_of T)"
    by (rule getHash_pos) (use d' D(1) R TQ in \<open>auto intro: bits_eq_mono\<close>)
  then show "stack_getHash new = stack_getHash st"
    using d new R by (simp add: stack_getHash_def)
qed

lemma stack_copy_spec:
  assumes rep: "stack_rep st es rs" and d: "sdata st = Some d"
    and tb: "typeBits st = 2 \<or> typeBits st = 3" and bpt: "bitsPerTile st = 5 \<or> bitsPerTile st = 6"
    and n: "0 < nBytesWritten d" "nBytesWritten d < 32768"
  shows "\<exists>new st'. stack_copy st = Some (new, st') \<and> stack_rep new es rs \<and> stack_rep st' es rs \<and>
           stack_getHash new = stack_getHash st"
proof -
  have room: "nBytesWritten mem_stream_make_raw + 11 + nBytesWritten d \<le> STREAM_ROOM"
    using n by (simp add: STREAM_ROOM_def)
  from write_load[OF rep wf_stream_make_raw d tb n room] obtain st' s' where
    w: "stack_writeToStream st mem_stream_make_raw = Some (st', s')" "extends mem_stream_make_raw s'"
      "st' = st"
    and L: "\<forall>r k. wf_reader r \<longrightarrow> rpos r = wpos mem_stream_make_raw \<longrightarrow>
        bits_eq (wpos mem_stream_make_raw) (wpos s') (sbuf s') (sbuf r) \<longrightarrow> wpos s' \<le> 8 * nBytesWritten r \<longrightarrow>
        (\<exists>new d'. stack_loadFromStream (stack_make k (inDuplicateMode st)) r = Some (new, set_rpos (wpos s') r) \<and>
           new = (stack_make k (inDuplicateMode st))
             \<lparr>sflags := (if typeBits st = 3 then sflags st else 0), typeBits := typeBits st,
              highWaterMark := highWaterMark st, nEntries := nEntries st, top := top st, sdata := Some d'\<rparr> \<and>
           wf_reader d' \<and> rpos d' = 0 \<and> nBytesWritten d' = nBytesWritten d \<and>
           bits_eq 0 (8 * nBytesWritten d) (sbuf d) (sbuf d'))"
    by (elim exE conjE) (rule that; assumption)
  have wf': "wf_stream s'" using w(2) by (rule extends_wf)
  obtain new d' where new: "stack_loadFromStream (stack_make (snPlayers st') (inDuplicateMode st)) s' = Some (new, set_rpos (wpos s') s')"
      "new = (stack_make (snPlayers st') (inDuplicateMode st))
             \<lparr>sflags := (if typeBits st = 3 then sflags st else 0), typeBits := typeBits st,
              highWaterMark := highWaterMark st, nEntries := nEntries st, top := top st, sdata := Some d'\<rparr>"
      "wf_reader d'" "rpos d' = 0" "nBytesWritten d' = nBytesWritten d"
      "bits_eq 0 (8 * nBytesWritten d) (sbuf d) (sbuf d')"
    using L[rule_format, of s' "snPlayers st'"] wf' extends_rpos[OF w(2)] wpos_le[OF wf'] by auto
  define new2 where "new2 = new\<lparr>bitsPerTile := bitsPerTile st\<rparr>"
  have copy: "stack_copy st = Some (new2, st')"
    using w(1,3) new(1) bpt by (auto simp: stack_copy_def stack_setBitsPerTile_def new2_def)
  have "stack_rep new2 es rs" "stack_getHash new2 = stack_getHash st"
    using loaded_rep[OF rep d, of new2 d'] new by (simp_all add: new2_def stack_make_def)
  then show ?thesis using copy w(3) rep by blast
qed

section \<open>Properties\<close>

text \<open>An empty stack for two players, as a new game has it.\<close>

definition stack2 :: stackCtxt where
  "stack2 = (stack_make 2 False)\<lparr>bitsPerTile := 5\<rparr>"

definition move_ex :: stackEntry where
  "move_ex = \<lparr>playerNum = 1, moveNum = 0, edata = Move \<lparr>commonCoord = 7, isHorizontal = True,
     mtiles = [\<lparr>varCoord = 3, mtile = 4\<rparr>, \<lparr>varCoord = 4, mtile = 0x45\<rparr>]\<rparr> [1, 2] []\<rparr>"

lemma stack2_rep: "stack_rep stack2 [] []"
  by (simp add: stack_rep_def stack2_def stack_make_def)

lemma stack2_st: "st_typeBits stack2 = 2" "inDuplicateMode stack2 = False" "bitsPerTile stack2 = 5"
    "sdata stack2 = None" "nEntries stack2 = 0"
  by (simp_all add: stack2_def stack_make_def st_typeBits_def)

lemma move_ex_ok: "st_ok stack2 move_ex"
  unfolding st_ok_def stack2_st by code_simp

lemma move_ex_room: "st_bytes stack2 + (2 + body_cost (edata move_ex)) \<le> STREAM_ROOM"
  by (simp add: st_bytes_def stack2_st move_ex_def STREAM_ROOM_def)

lemma move_ex_pushed: "\<exists>st. pushEntry stack2 move_ex = Some st \<and> stack_rep st [move_ex] [] \<and>
    st_typeBits st = 2 \<and> bitsPerTile st = 5"
proof -
  have "length ([] :: stackEntry list) < 65535" by simp
  from push_spec[OF stack2_rep move_ex_ok move_ex_room this] show ?thesis
    by (auto simp: stack2_st)
qed

text \<open>C12: Pushing an entry of any kind that fits its bit fields, while the data stays under the
  64K a stream can hold, never fails. It puts the entry on top of those in force, whatever was
  there to redo, and what could be redone is gone. The field widths of the stack do not change.\<close>

theorem stack_push_refines:
  assumes "stack_rep stack es rs" and "st_ok stack entry"
    and "st_bytes stack + (2 + body_cost (edata entry)) \<le> STREAM_ROOM" and "length es < 65535"
  shows "\<exists>stack'. pushEntry stack entry = Some stack' \<and> stack_rep stack' (es @ [entry]) [] \<and>
           st_typeBits stack' = st_typeBits stack \<and> inDuplicateMode stack' = inDuplicateMode stack \<and>
           bitsPerTile stack' = bitsPerTile stack"
  using push_spec[OF assms] by blast

theorem stack_push_refines_witness:
  "\<exists>stack'. pushEntry stack2 move_ex = Some stack' \<and> stack_rep stack' ([] @ [move_ex]) [] \<and>
     st_typeBits stack' = st_typeBits stack2 \<and> inDuplicateMode stack' = inDuplicateMode stack2 \<and>
     bitsPerTile stack' = bitsPerTile stack2"
  by (rule stack_push_refines[OF stack2_rep move_ex_ok move_ex_room]) simp

text \<open>C17: Undo and redo are inverse. Popping returns the entry pushed last, stamped with its
  number, and leaves the rest in force; redoing returns the same entry and puts it back. This
  holds for entries written long ago and in the middle of a byte.\<close>

theorem stack_undo_redo:
  assumes "stack_rep stack (es @ [entry]) rs"
  shows "\<exists>popped redone. stack_popEntry stack = Some (Some (entry\<lparr>moveNum := length es mod 256\<rparr>), popped) \<and>
           stack_rep popped es (entry # rs) \<and>
           stack_redo popped True = Some (True, Some (entry\<lparr>moveNum := length es mod 256\<rparr>), redone) \<and>
           stack_rep redone (es @ [entry]) rs"
  using popEntry_spec[OF assms] redo_spec[of _ es entry rs True] by fastforce

theorem stack_undo_redo_witness:
  "\<exists>stack popped redone. pushEntry stack2 move_ex = Some stack \<and>
     stack_popEntry stack = Some (Some (move_ex\<lparr>moveNum := 0\<rparr>), popped) \<and>
     stack_rep popped [] [move_ex] \<and>
     stack_redo popped True = Some (True, Some (move_ex\<lparr>moveNum := 0\<rparr>), redone) \<and>
     stack_rep redone [move_ex] []"
proof -
  from move_ex_pushed obtain st where st: "pushEntry stack2 move_ex = Some st" "stack_rep st ([] @ [move_ex]) []"
    by auto
  from stack_undo_redo[OF st(2)] st(1) show ?thesis by simp
qed

text \<open>C18: Any entry in force is found by its number, whatever the cached position is, and looking
  it up changes neither the entries nor what can be redone; there is no entry beyond the top.\<close>

theorem stack_getNthEntry_refines:
  assumes "stack_rep stack es rs"
  shows "\<exists>stack'. stack_getNthEntry stack nn =
           Some (if nn < length es then Some ((es ! nn)\<lparr>moveNum := nn mod 256\<rparr>) else None, stack') \<and>
           stack_rep stack' es rs"
proof (cases "nn < length es")
  case False
  then have "nn \<ge> nEntries stack" using assms by (simp add: stack_rep_def)
  then show ?thesis using False assms by (simp add: stack_getNthEntry_def)
qed (use getNthEntry_spec[OF assms] in auto)

theorem stack_getNthEntry_refines_witness:
  "\<exists>stack stack'. pushEntry stack2 move_ex = Some stack \<and>
     stack_getNthEntry stack 0 =
       Some (if (0 :: nat) < length [move_ex] then Some (([move_ex] ! 0)\<lparr>moveNum := 0 mod 256\<rparr>) else None, stack') \<and>
     stack_rep stack' [move_ex] []"
proof -
  from move_ex_pushed obtain st where st: "pushEntry stack2 move_ex = Some st" "stack_rep st [move_ex] []"
    by auto
  from stack_getNthEntry_refines[OF st(2), of 0] st(1) show ?thesis by blast
qed

text \<open>C30: A push followed by a pop gives the entry back and restores the hash of the stack, by
  which two devices compare their games: the check that debug builds make after every push
  cannot fail.\<close>

theorem stack_push_pop_hash:
  assumes "stack_rep stack es rs" and "st_ok stack entry"
    and "st_bytes stack + (2 + body_cost (edata entry)) \<le> STREAM_ROOM" and "length es < 65535"
  shows "\<exists>pushed popped. pushEntry stack entry = Some pushed \<and>
           stack_popEntry pushed = Some (Some (entry\<lparr>moveNum := length es mod 256\<rparr>), popped) \<and>
           stack_rep popped es [entry] \<and> stack_getHash popped = stack_getHash stack"
  using push_pop_hash[OF assms] by blast

theorem stack_push_pop_hash_witness:
  "\<exists>pushed popped. pushEntry stack2 move_ex = Some pushed \<and>
     stack_popEntry pushed = Some (Some (move_ex\<lparr>moveNum := length ([] :: stackEntry list) mod 256\<rparr>), popped) \<and>
     stack_rep popped [] [move_ex] \<and> stack_getHash popped = stack_getHash stack2"
  by (rule stack_push_pop_hash[OF stack2_rep move_ex_ok move_ex_room]) simp

text \<open>C29: A copy of a stack, made by saving it to a stream and loading it again, holds the same
  entries with the same ones to redo and has the same hash; the original is unchanged. The
  data must be under the 32K its 15-bit length can tell.\<close>

theorem stack_copy_same:
  assumes "stack_rep stack es rs" and "sdata stack = Some d" and "typeBits stack = 2 \<or> typeBits stack = 3"
    and "bitsPerTile stack = 5 \<or> bitsPerTile stack = 6" and "0 < nBytesWritten d" and "nBytesWritten d < 32768"
  shows "\<exists>copied stack'. stack_copy stack = Some (copied, stack') \<and> stack_rep copied es rs \<and>
           stack_rep stack' es rs \<and> stack_getHash copied = stack_getHash stack"
  using stack_copy_spec[OF assms] by blast

theorem stack_copy_same_witness:
  "\<exists>stack copied stack'. pushEntry stack2 move_ex = Some stack \<and>
     stack_copy stack = Some (copied, stack') \<and> stack_rep copied [move_ex] [] \<and>
     stack_rep stack' [move_ex] [] \<and> stack_getHash copied = stack_getHash stack"
proof -
  from move_ex_pushed obtain st where
    st: "pushEntry stack2 move_ex = Some st" "stack_rep st [move_ex] []" "st_typeBits st = 2" "bitsPerTile st = 5"
    by auto
  have "map_option (\<lambda>st. map_option nBytesWritten (sdata st)) (pushEntry stack2 move_ex) = Some (Some 7)"
    by code_simp
  then obtain d where d: "sdata st = Some d" "nBytesWritten d = 7" using st(1) by auto
  have "typeBits st = 2" using st(3) d(1) by (simp add: st_typeBits_def)
  then show ?thesis using stack_copy_same[OF st(2) d(1)] st d by simp
qed

text \<open>An example: \<open>stack_init\<close>, called when a game is reset, leaves \<open>cacheNext\<close> and \<open>cachedPos\<close> alone. After
  two tray assignments, a lookup of the first, a reset and two other assignments, entry 1 of
  the new game is read at the position entry 1 had in the old one: a phony move of player 1
  that nobody pushed.\<close>

lemma stack_init_stale_cache:
  "demo_reset = Some (Some \<lparr>playerNum = 1, moveNum = 1,
     edata = Phony \<lparr>commonCoord = 8, isHorizontal = False, mtiles = []\<rparr>\<rparr>)"
  by code_simp

end
