(* ===== verification/Xw_Dict.thy ===== *)
theory Xw_Dict
  imports Xw_StrUtils
begin

text \<open>
  The dictionary of \<open>dictnry.c\<close>: the table of tile faces with their counts and values, the
  strings of a tile and the ways to match text with tiles, the word graph (DAWG) behind
  \<open>base\<close> with the five operations every client uses to walk it, and the sanity check that a
  loaded graph has to pass. A pointer into the graph is its offset from \<open>base\<close>, a pointer to
  a face is an offset in \<open>faces\<close> or a place in one of the texts of \<open>chars\<close>.
\<close>

section \<open>State\<close>

record dictionaryCtxt =
  topEdge :: "nat option"
  base :: "u8 list option"
  dname :: cstring
  langName :: cstring
  faces :: "u8 list option"
  facesEnd :: nat
  desc :: cstring
  md5Sum :: cstring
  facePtrs :: "nat list"
  countsAndValues :: "u8 list"
  chars :: "u8 list option list"
  charEnds :: "nat option list"
  nWords :: u32
  langCode :: u8
  headerFlags :: u16
  nFaces :: nat
  nodeSize :: nat
  is_4_byte :: bool
  blankTile :: int
  isUTF8 :: bool
  numEdges :: nat

text \<open>A dictionary as it comes from \<open>XP_CALLOC\<close>.\<close>

definition dict_calloc :: dictionaryCtxt where
  "dict_calloc = \<lparr>topEdge = None, base = None, dname = None, langName = None, faces = None,
     facesEnd = 0, desc = None, md5Sum = None, facePtrs = [], countsAndValues = [], chars = [],
     charEnds = [], nWords = 0, langCode = 0, headerFlags = 0, nFaces = 0, nodeSize = 0,
     is_4_byte = False, blankTile = 0, isUTF8 = False, numEdges = 0\<rparr>"

datatype facePtr = InFaces nat | InChars nat nat

definition LETTERMASK_NEW_4 :: u8 where "LETTERMASK_NEW_4 = 0x3F"
definition LETTERMASK_NEW_3 :: u8 where "LETTERMASK_NEW_3 = 0x1F"
definition ACCEPTINGMASK_NEW :: u8 where "ACCEPTINGMASK_NEW = 0x80"
definition LASTEDGEMASK_NEW :: u8 where "LASTEDGEMASK_NEW = 0x40"
definition EXTRABITMASK_NEW :: u8 where "EXTRABITMASK_NEW = 0x20"
definition SYNONYM_DELIM :: u8 where "SYNONYM_DELIM = 0x20"

definition IS_SPECIAL :: "u8 \<Rightarrow> bool" where
  "IS_SPECIAL face \<longleftrightarrow> face < 0x20"

text \<open>The string at an offset of a buffer, up to its final 0.\<close>

definition c_str_at :: "nat \<Rightarrow> u8 list \<Rightarrow> u8 list option" where
  "c_str_at p m = (if 0 \<in> set (drop p m) then Some (takeWhile (\<lambda>c. c \<noteq> 0) (drop p m)) else None)"

section \<open>Tiles\<close>

definition dict_getTileStringRaw :: "dictionaryCtxt \<Rightarrow> tile \<Rightarrow> nat option" where
  "dict_getTileStringRaw dict t = do {
     xp_assert (unat t < nFaces dict);
     mem_get (unat t) (facePtrs dict)
   }"

text \<open>\<open>*facep\<close> for a pointer into \<open>faces\<close>.\<close>

definition face_byte :: "dictionaryCtxt \<Rightarrow> nat \<Rightarrow> u8 option" where
  "face_byte dict p = do { f \<leftarrow> faces dict; mem_get p f }"

fun facePtr_str :: "dictionaryCtxt \<Rightarrow> facePtr \<Rightarrow> u8 list option" where
  "facePtr_str dict (InFaces p) = do { f \<leftarrow> faces dict; c_str_at p f }"
| "facePtr_str dict (InChars i p) = do { t \<leftarrow> mem_get i (chars dict); t \<leftarrow> t; c_str_at p t }"

definition dict_getTileString :: "dictionaryCtxt \<Rightarrow> tile \<Rightarrow> facePtr option" where
  "dict_getTileString dict t = do {
     p \<leftarrow> dict_getTileStringRaw dict t;
     c \<leftarrow> face_byte dict p;
     if IS_SPECIAL c then do {
       txt \<leftarrow> mem_get (unat c) (chars dict);
       _ \<leftarrow> txt;
       Some (InChars (unat c) 0)
     } else Some (InFaces p)
   }"

definition dict_faceIsBitmap :: "dictionaryCtxt \<Rightarrow> tile \<Rightarrow> bool option" where
  "dict_faceIsBitmap dict t = do {
     p \<leftarrow> dict_getTileStringRaw dict t;
     c \<leftarrow> face_byte dict p;
     Some (IS_SPECIAL c \<and> int (unat t) \<noteq> blankTile dict)
   }"

text \<open>\<open>cur + XP_STRLEN(cur) + 1\<close>\<close>

definition facePtr_next :: "dictionaryCtxt \<Rightarrow> facePtr \<Rightarrow> facePtr option" where
  "facePtr_next dict cur = do {
     s \<leftarrow> facePtr_str dict cur;
     Some (case cur of InFaces p \<Rightarrow> InFaces (p + length s + 1)
                     | InChars i p \<Rightarrow> InChars i (p + length s + 1))
   }"

text \<open>The result is \<open>None\<close> behind \<open>Some\<close> for a null pointer: the tile has no further string.\<close>

definition dict_getNextTileString ::
    "dictionaryCtxt \<Rightarrow> tile \<Rightarrow> facePtr option \<Rightarrow> facePtr option option" where
  "dict_getNextTileString dict t cur =
     (case cur of
        None \<Rightarrow> do { p \<leftarrow> dict_getTileString dict t; Some (Some p) }
      | Some cur \<Rightarrow> do {
          cur \<leftarrow> facePtr_next dict cur;
          isSpecial \<leftarrow> dict_faceIsBitmap dict t;
          if isSpecial \<or> int (unat t) = blankTile dict then do {
            p \<leftarrow> dict_getTileStringRaw dict t;
            c \<leftarrow> face_byte dict p;
            e \<leftarrow> mem_get (unat c) (charEnds dict);
            e \<leftarrow> e;
            case cur of
              InChars i q \<Rightarrow> if i = unat c then Some (if q < e then Some cur else None) else None
            | InFaces q \<Rightarrow> None
          } else
            (case cur of
               InChars i q \<Rightarrow> None
             | InFaces q \<Rightarrow>
                 if unat (t + 1) = nFaces dict then Some (if q < facesEnd dict then Some cur else None)
                 else do {
                   nxt \<leftarrow> dict_getTileStringRaw dict (t + 1);
                   Some (if nxt \<noteq> q then Some cur else None)
                 })
        })"

text \<open>Only the first of several blanks is found: the loop leaves after it.\<close>

fun setBlankTile_loop :: "dictionaryCtxt \<Rightarrow> nat list \<Rightarrow> int option" where
  "setBlankTile_loop dict [] = Some (-1)"
| "setBlankTile_loop dict (i # is) = do {
     p \<leftarrow> mem_get i (facePtrs dict);
     c \<leftarrow> face_byte dict p;
     if c = 0 then Some (sint (of_nat i :: u8)) else setBlankTile_loop dict is
   }"

definition setBlankTile :: "dictionaryCtxt \<Rightarrow> dictionaryCtxt option" where
  "setBlankTile dict = do {
     b \<leftarrow> setBlankTile_loop dict [0..<nFaces dict];
     Some (dict\<lparr>blankTile := b\<rparr>)
   }"

definition dict_hasBlankTile :: "dictionaryCtxt \<Rightarrow> bool" where
  "dict_hasBlankTile dict \<longleftrightarrow> blankTile dict \<ge> 0"

definition dict_getBlankTile :: "dictionaryCtxt \<Rightarrow> tile option" where
  "dict_getBlankTile dict = do {
     xp_assert (dict_hasBlankTile dict);
     Some (word_of_int (blankTile dict))
   }"

text \<open>The product with 2 is in a \<open>Tile\<close>, so it wraps at 256.\<close>

definition dict_getTileValue :: "dictionaryCtxt \<Rightarrow> tile \<Rightarrow> nat option" where
  "dict_getTileValue dict t = do {
     xp_assert (t AND TILE_VALUE_MASK = t \<or> (t = 32 \<and> dict_getBlankTile dict = Some t));
     xp_assert (unat t < nFaces dict);
     v \<leftarrow> mem_get (unat (t * 2) + 1) (countsAndValues dict);
     Some (unat v)
   }"

definition dict_numTiles :: "dictionaryCtxt \<Rightarrow> tile \<Rightarrow> nat option" where
  "dict_numTiles dict t = do { v \<leftarrow> mem_get (unat (t * 2)) (countsAndValues dict); Some (unat v) }"

definition dict_numTileFaces :: "dictionaryCtxt \<Rightarrow> nat" where
  "dict_numTileFaces dict = nFaces dict"

definition countSpecials :: "dictionaryCtxt \<Rightarrow> nat option" where
  "countSpecials dict = ofold (\<lambda>n i. do {
       p \<leftarrow> mem_get i (facePtrs dict);
       c \<leftarrow> face_byte dict p;
       Some (if IS_SPECIAL c then n + 1 else n)
     }) 0 [0..<nFaces dict]"

section \<open>Tiles as text\<close>

text \<open>The text written so far, or \<open>None\<close> when there was no room.\<close>

definition appendIfSpace :: "nat \<Rightarrow> u8 list option \<Rightarrow> u8 list \<Rightarrow> u8 list option option" where
  "appendIfSpace bufSize bufp newtxt =
     (case bufp of None \<Rightarrow> None
      | Some b \<Rightarrow> Some (if length b + length newtxt < bufSize then Some (b @ newtxt) else None))"

fun tilesToString_loop ::
    "dictionaryCtxt \<Rightarrow> nat \<Rightarrow> cstring \<Rightarrow> bool \<Rightarrow> u8 list option \<Rightarrow> tile list \<Rightarrow> u8 list option option" where
  "tilesToString_loop dict bufSize delim first bufp [] = Some bufp"
| "tilesToString_loop dict bufSize delim first None (t # ts) = Some None"
| "tilesToString_loop dict bufSize delim first (Some b) (t # ts) = do {
     bufp \<leftarrow> (case delim of
                Some dl \<Rightarrow> if dl \<noteq> [] \<and> \<not> first then appendIfSpace bufSize (Some b) dl else Some (Some b)
              | None \<Rightarrow> Some (Some b));
     p \<leftarrow> dict_getTileStringRaw dict t;
     c \<leftarrow> face_byte dict p;
     bufp \<leftarrow> (if IS_SPECIAL c then do {
               txt \<leftarrow> facePtr_str dict (InChars (unat c) 0);
               appendIfSpace bufSize bufp txt
             } else do {
               xp_assert (int (unat t) \<noteq> blankTile dict);
               txt \<leftarrow> facePtr_str dict (InFaces p);
               appendIfSpace bufSize bufp txt
             });
     tilesToString_loop dict bufSize delim False bufp ts
   }"

text \<open>The length returned is that of the text; \<open>None\<close> is a result of 0 with the buffer not
  terminated.\<close>

definition dict_tilesToString ::
    "dictionaryCtxt \<Rightarrow> tile list \<Rightarrow> nat \<Rightarrow> cstring \<Rightarrow> u8 list option option" where
  "dict_tilesToString dict ts bufSize delim = do {
     bufp \<leftarrow> tilesToString_loop dict bufSize delim True (Some []) ts;
     Some (case bufp of None \<Rightarrow> None | Some b \<Rightarrow> if length b < bufSize then Some b else None)
   }"

text \<open>The strings of one tile in turn, until one is a prefix of the text: its length.\<close>

partial_function (option) firstFaceMatch ::
    "dictionaryCtxt \<Rightarrow> tile \<Rightarrow> u8 list \<Rightarrow> facePtr option \<Rightarrow> nat option option" where
  "firstFaceMatch dict t str facep = do {
     facep \<leftarrow> dict_getNextTileString dict t facep;
     case facep of
       None \<Rightarrow> Some None
     | Some p \<Rightarrow> do {
         face \<leftarrow> facePtr_str dict p;
         if take (length face) str = face then Some (Some (length face))
         else firstFaceMatch dict t str (Some p)
       }
   }"

declare firstFaceMatch.simps [code]

text \<open>\<open>proc\<close> is the callback, with its closure passed through; it answers whether to go on.
  The recursion and the loop over the tiles are one function: the list holds the tiles still
  to be tried at this place.\<close>

function (sequential) tilesForStringImpl ::
    "dictionaryCtxt \<Rightarrow> ('c \<Rightarrow> tile list \<Rightarrow> bool \<times> 'c) \<Rightarrow> nat \<Rightarrow> u8 list \<Rightarrow> tile list \<Rightarrow> 'c \<Rightarrow> (bool \<times> 'c) option"
  and tilesForString_loop ::
    "dictionaryCtxt \<Rightarrow> ('c \<Rightarrow> tile list \<Rightarrow> bool \<times> 'c) \<Rightarrow> nat \<Rightarrow> u8 list \<Rightarrow> tile list \<Rightarrow> nat list \<Rightarrow> 'c \<Rightarrow>
       (bool \<times> 'c) option" where
  "tilesForStringImpl dict proc nTiles str ts c =
     (if length ts \<ge> nTiles \<or> str = [] then Some (proc c ts)
      else tilesForString_loop dict proc nTiles str ts [0..<nFaces dict] c)"
| "tilesForString_loop dict proc nTiles str ts [] c = Some (True, c)"
| "tilesForString_loop dict proc nTiles str ts (i # is) c =
     (if length ts \<ge> nTiles then None
      else if int i = blankTile dict then tilesForString_loop dict proc nTiles str ts is c
      else do {
        m \<leftarrow> firstFaceMatch dict (of_nat i) str None;
        (goOn, c) \<leftarrow> (case m of
            None \<Rightarrow> Some (True, c)
          | Some faceLen \<Rightarrow> tilesForStringImpl dict proc nTiles (drop faceLen str) (ts @ [of_nat i]) c);
        if goOn then tilesForString_loop dict proc nTiles str ts is c else Some (False, c)
      })"
  by pat_completeness auto

termination
  by (relation "measures [\<lambda>x. case x of Inl (_, _, n, _, ts, _) \<Rightarrow> n - length ts
                                | Inr (_, _, n, _, ts, _, _) \<Rightarrow> n - length ts,
                          \<lambda>x. case x of Inl (d, _) \<Rightarrow> nFaces d + 1
                                | Inr (_, _, _, _, _, is, _) \<Rightarrow> length is]") auto

definition dict_tilesForString ::
    "dictionaryCtxt \<Rightarrow> u8 list \<Rightarrow> ('c \<Rightarrow> tile list \<Rightarrow> bool \<times> 'c) \<Rightarrow> 'c \<Rightarrow> 'c option" where
  "dict_tilesForString dict str proc c = do {
     (_, c) \<leftarrow> tilesForStringImpl dict proc 32 str [] c;
     Some c
   }"

section \<open>The word graph\<close>

text \<open>An edge is three or four bytes: \<open>highByte\<close>, \<open>lowByte\<close>, \<open>bits\<close> and, when there are four,
  \<open>moreBits\<close>.\<close>

definition edge_field :: "dictionaryCtxt \<Rightarrow> nat \<Rightarrow> nat \<Rightarrow> u8 option" where
  "edge_field dict k e = do { b \<leftarrow> base dict; mem_get (e + k) b }"

definition ISACCEPTING :: "dictionaryCtxt \<Rightarrow> nat \<Rightarrow> bool option" where
  "ISACCEPTING dict e = do { bits \<leftarrow> edge_field dict 2 e; Some (ACCEPTINGMASK_NEW AND bits \<noteq> 0) }"

definition IS_LAST_EDGE :: "dictionaryCtxt \<Rightarrow> nat \<Rightarrow> bool option" where
  "IS_LAST_EDGE dict e = do { bits \<leftarrow> edge_field dict 2 e; Some (LASTEDGEMASK_NEW AND bits \<noteq> 0) }"

definition EDGETILE :: "dictionaryCtxt \<Rightarrow> nat \<Rightarrow> tile option" where
  "EDGETILE dict e = do {
     bits \<leftarrow> edge_field dict 2 e;
     Some (bits AND (if is_4_byte dict then LETTERMASK_NEW_4 else LETTERMASK_NEW_3))
   }"

definition dict_super_edge_for_index :: "dictionaryCtxt \<Rightarrow> u32 \<Rightarrow> nat option option" where
  "dict_super_edge_for_index dict index =
     (if index = 0 then Some None
      else do {
        xp_assert (unat index < numEdges dict);
        index \<leftarrow> (if nodeSize dict = 3 then Some (index + push_bit 1 index)
                  else do { xp_assert (nodeSize dict = 4); Some (push_bit 2 index) });
        _ \<leftarrow> base dict;
        Some (Some (unat index))
      })"

definition dict_super_getTopEdge :: "dictionaryCtxt \<Rightarrow> nat option" where
  "dict_super_getTopEdge dict = topEdge dict"

definition dict_super_index_from :: "dictionaryCtxt \<Rightarrow> nat \<Rightarrow> u32 option" where
  "dict_super_index_from dict e = do {
     hi \<leftarrow> edge_field dict 0 e;
     lo \<leftarrow> edge_field dict 1 e;
     let result = (push_bit 8 (ucast hi) OR ucast lo) AND 0x0000FFFF;
     if is_4_byte dict then do {
       more \<leftarrow> edge_field dict 3 e;
       Some (result OR push_bit 16 (ucast more))
     } else do {
       xp_assert (nodeSize dict = 3);
       bits \<leftarrow> edge_field dict 2 e;
       Some (if bits AND EXTRABITMASK_NEW \<noteq> 0 then result OR 0x00010000 else result)
     }
   }"

definition dict_super_follow :: "dictionaryCtxt \<Rightarrow> nat \<Rightarrow> nat option option" where
  "dict_super_follow dict e = do {
     index \<leftarrow> dict_super_index_from dict e;
     if index > 0 then dict_super_edge_for_index dict index else Some None
   }"

partial_function (option) dict_super_edge_with_tile ::
    "dictionaryCtxt \<Rightarrow> nat \<Rightarrow> tile \<Rightarrow> nat option option" where
  "dict_super_edge_with_tile dict e t = do {
     candidate \<leftarrow> EDGETILE dict e;
     if candidate = t then Some (Some e)
     else do {
       last \<leftarrow> IS_LAST_EDGE dict e;
       if last then Some None else dict_super_edge_with_tile dict (e + nodeSize dict) t
     }
   }"

declare dict_super_edge_with_tile.simps [code]

text \<open>The loop of \<open>checkSanity\<close> over the edges that are left, with \<open>prevTile\<close>.\<close>

fun checkSanity_loop :: "dictionaryCtxt \<Rightarrow> nat \<Rightarrow> nat \<Rightarrow> nat \<Rightarrow> tile \<Rightarrow> (bool \<times> tile) option" where
  "checkSanity_loop dict n 0 e prevTile = Some (True, prevTile)"
| "checkSanity_loop dict n (Suc k) e prevTile = do {
     t \<leftarrow> EDGETILE dict e;
     if t < prevTile \<or> unat t \<ge> nFaces dict then Some (False, prevTile)
     else do {
       index \<leftarrow> dict_super_index_from dict e;
       if unat index \<ge> n then Some (False, t)
       else do {
         last \<leftarrow> IS_LAST_EDGE dict e;
         checkSanity_loop dict n k (e + nodeSize dict) (if last then 0 else t)
       }
     }
   }"

definition checkSanity :: "dictionaryCtxt \<Rightarrow> nat \<Rightarrow> bool option" where
  "checkSanity dict n =
     (case base dict of
        None \<Rightarrow> Some True
      | Some _ \<Rightarrow> do {
          (passed, prevTile) \<leftarrow> checkSanity_loop dict n n 0 0;
          Some (passed \<and> prevTile = 0)
        })"

section \<open>Comparing dictionaries\<close>

text \<open>One tile of the comparison; the texts of specials are compared over the length of the
  first one only.\<close>

definition sameTile :: "dictionaryCtxt \<Rightarrow> dictionaryCtxt \<Rightarrow> tile \<Rightarrow> bool option" where
  "sameTile dict1 dict2 t = do {
     v1 \<leftarrow> dict_getTileValue dict1 t;
     v2 \<leftarrow> dict_getTileValue dict2 t;
     if v1 \<noteq> v2 then Some False
     else do {
       face1 \<leftarrow> dict_getTileStringRaw dict1 t;
       face2 \<leftarrow> dict_getTileStringRaw dict2 t;
       c1 \<leftarrow> face_byte dict1 face1;
       c2 \<leftarrow> face_byte dict2 face2;
       if IS_SPECIAL c1 \<noteq> IS_SPECIAL c2 then Some False
       else do {
         same \<leftarrow> (if IS_SPECIAL c1 then do {
                   s1 \<leftarrow> facePtr_str dict1 (InChars (unat c1) 0);
                   s2 \<leftarrow> facePtr_str dict2 (InChars (unat c2) 0);
                   Some (take (length s1) s2 = s1)
                 } else do {
                   s1 \<leftarrow> facePtr_str dict1 (InFaces face1);
                   s2 \<leftarrow> facePtr_str dict2 (InFaces face2);
                   Some (s1 = s2)
                 });
         if \<not> same then Some False
         else do {
           n1 \<leftarrow> dict_numTiles dict1 t;
           n2 \<leftarrow> dict_numTiles dict2 t;
           Some (n1 = n2)
         }
       }
     }
   }"

fun tilesAreSame_loop :: "dictionaryCtxt \<Rightarrow> dictionaryCtxt \<Rightarrow> nat list \<Rightarrow> bool option" where
  "tilesAreSame_loop dict1 dict2 [] = Some True"
| "tilesAreSame_loop dict1 dict2 (i # is) = do {
     same \<leftarrow> sameTile dict1 dict2 (of_nat i);
     if same then tilesAreSame_loop dict1 dict2 is else Some False
   }"

definition dict_tilesAreSame :: "dictionaryCtxt \<Rightarrow> dictionaryCtxt \<Rightarrow> bool option" where
  "dict_tilesAreSame dict1 dict2 =
     (if dict_numTileFaces dict1 = dict_numTileFaces dict2
      then tilesAreSame_loop dict1 dict2 [0..<nFaces dict1] else Some False)"

section \<open>Small accessors\<close>

definition dict_getName :: "dictionaryCtxt \<Rightarrow> cstring option" where
  "dict_getName dict = do { xp_assert (dname dict \<noteq> None); Some (dname dict) }"

definition dict_isUTF8 :: "dictionaryCtxt \<Rightarrow> bool" where "dict_isUTF8 dict = isUTF8 dict"
definition dict_getLangCode :: "dictionaryCtxt \<Rightarrow> u8" where "dict_getLangCode dict = langCode dict"
definition dict_getLangName :: "dictionaryCtxt \<Rightarrow> cstring" where "dict_getLangName dict = langName dict"
definition dict_getDesc :: "dictionaryCtxt \<Rightarrow> cstring" where "dict_getDesc dict = desc dict"
definition dict_getMd5Sum :: "dictionaryCtxt \<Rightarrow> cstring" where "dict_getMd5Sum dict = md5Sum dict"

definition HEADERFLAGS_DUPS_SUPPORTED_BIT :: u16 where "HEADERFLAGS_DUPS_SUPPORTED_BIT = 1"

definition dict_hasDuplicates :: "dictionaryCtxt \<Rightarrow> bool" where
  "dict_hasDuplicates dict \<longleftrightarrow> 0 \<noteq> headerFlags dict AND HEADERFLAGS_DUPS_SUPPORTED_BIT"

section \<open>The graph as its clients see it\<close>

text \<open>A graph of \<open>n\<close> edges that lies in \<open>base\<close>, with the layout its format flag says.\<close>

definition graph_layout :: "dictionaryCtxt \<Rightarrow> nat \<Rightarrow> bool" where
  "graph_layout dict n \<longleftrightarrow> numEdges dict = n \<and>
     (nodeSize dict = 3 \<and> \<not> is_4_byte dict \<or> nodeSize dict = 4 \<and> is_4_byte dict) \<and>
     (case base dict of None \<Rightarrow> False | Some b \<Rightarrow> n * nodeSize dict \<le> length b)"

text \<open>The fields of edge number \<open>j\<close>.\<close>

definition gbyte :: "dictionaryCtxt \<Rightarrow> nat \<Rightarrow> nat \<Rightarrow> u8" where
  "gbyte dict j k = (case base dict of None \<Rightarrow> 0 | Some b \<Rightarrow> b ! (j * nodeSize dict + k))"

definition gtile :: "dictionaryCtxt \<Rightarrow> nat \<Rightarrow> tile" where
  "gtile dict j = gbyte dict j 2 AND (if is_4_byte dict then LETTERMASK_NEW_4 else LETTERMASK_NEW_3)"

definition glast :: "dictionaryCtxt \<Rightarrow> nat \<Rightarrow> bool" where
  "glast dict j \<longleftrightarrow> bit (gbyte dict j 2) 6"

definition gaccepting :: "dictionaryCtxt \<Rightarrow> nat \<Rightarrow> bool" where
  "gaccepting dict j \<longleftrightarrow> bit (gbyte dict j 2) 7"

text \<open>The index of the edge below, 0 for none: 24 bits of a four-byte edge, 17 of a
  three-byte one.\<close>

definition gindex :: "dictionaryCtxt \<Rightarrow> nat \<Rightarrow> nat" where
  "gindex dict j = unat (gbyte dict j 0) * 256 + unat (gbyte dict j 1) +
     65536 * (if is_4_byte dict then unat (gbyte dict j 3) else of_bool (bit (gbyte dict j 2) 5))"

lemma edge_field_graph:
  assumes "graph_layout dict n" and "j < n" and "k < nodeSize dict"
  shows "edge_field dict k (j * nodeSize dict) = Some (gbyte dict j k)"
proof -
  from assms(1) obtain b where b: "base dict = Some b" "n * nodeSize dict \<le> length b"
    by (auto simp: graph_layout_def split: option.splits)
  have "j * nodeSize dict + k < Suc j * nodeSize dict" using assms(3) by simp
  also have "\<dots> \<le> n * nodeSize dict" by (rule mult_le_mono1) (use assms(2) in simp)
  finally show ?thesis using b by (simp add: edge_field_def gbyte_def)
qed

lemma graph_nodeSize: "graph_layout dict n \<Longrightarrow> 2 < nodeSize dict"
  by (auto simp: graph_layout_def)

lemma EDGETILE_graph:
  "graph_layout dict n \<Longrightarrow> j < n \<Longrightarrow> EDGETILE dict (j * nodeSize dict) = Some (gtile dict j)"
  by (simp add: EDGETILE_def edge_field_graph graph_nodeSize gtile_def)

lemma and_exp_nonzero: "((2 :: u8) ^ k AND w \<noteq> 0) = (k < 8 \<and> bit w k)"
proof -
  have "(2 :: u8) ^ k AND w = (if k < 8 \<and> bit w k then 2 ^ k else 0)"
    by (rule bit_word_eqI) (auto simp: bit_simps)
  moreover have "k < 8 \<Longrightarrow> (2 :: u8) ^ k \<noteq> 0" by (simp add: exp_eq_zero_iff)
  ultimately show ?thesis by auto
qed

lemma IS_LAST_EDGE_graph:
  "graph_layout dict n \<Longrightarrow> j < n \<Longrightarrow> IS_LAST_EDGE dict (j * nodeSize dict) = Some (glast dict j)"
  using and_exp_nonzero[of 6]
  by (simp add: IS_LAST_EDGE_def edge_field_graph graph_nodeSize glast_def LASTEDGEMASK_NEW_def)

lemma ISACCEPTING_graph:
  "graph_layout dict n \<Longrightarrow> j < n \<Longrightarrow> ISACCEPTING dict (j * nodeSize dict) = Some (gaccepting dict j)"
  using and_exp_nonzero[of 7]
  by (simp add: ISACCEPTING_def edge_field_graph graph_nodeSize gaccepting_def ACCEPTINGMASK_NEW_def)

lemma unat_u8_less: "unat (w :: u8) < 256"
  using unsigned_less[of w, where ?'a = nat] by simp
lemma bit_low16: "bit (0xFFFF :: u32) i = (i < 16)"
proof -
  have m: "(mask 16 :: u32) = 0xFFFF" by (simp add: mask_eq_exp_minus_1)
  show ?thesis unfolding m[symmetric] bit_mask_iff by (auto simp: possible_bit_def)
qed
lemma unat_bytes_or:
  "unat (push_bit 8 (ucast (h :: u8)) OR ucast (l :: u8) :: u32) = unat h * 256 + unat l"
proof -
  have "unat (push_bit 8 (ucast h) OR ucast l :: u32) = push_bit 8 (unat h) OR unat l"
    by (rule bit_eqI) (auto simp: bit_simps dest: bit_imp_le_length)
  also have "\<dots> = push_bit 8 (unat h) + unat l"
    by (rule disjunctive_add_eq_or[symmetric]) (rule bit_eqI, auto simp: bit_simps dest: bit_imp_le_length)
  finally show ?thesis by (simp add: push_bit_eq_mult)
qed
lemma unat_or_high:
  assumes "unat (low :: u32) < 65536"
  shows "unat (low OR push_bit 16 (ucast (x :: u8))) = unat low + 65536 * unat x"
proof -
  have b: "bit low k \<Longrightarrow> k < 16" for k
  proof -
    assume "bit low k"
    then have "bit (unat low) k" by (simp add: bit_simps)
    moreover have "unat low = take_bit 16 (unat low)" using assms by (simp add: take_bit_nat_eq_self)
    ultimately show "k < 16" by (metis bit_take_bit_iff)
  qed
  have "unat (low OR push_bit 16 (ucast x)) = unat low OR push_bit 16 (unat x)"
    by (rule bit_eqI) (auto simp: bit_simps dest: bit_imp_le_length)
  also have "\<dots> = unat low + push_bit 16 (unat x)"
    by (rule disjunctive_add_eq_or[symmetric]) (rule bit_eqI, auto simp: bit_simps dest: b)
  finally show ?thesis by (simp add: push_bit_eq_mult)
qed

lemma index_low:
  "(push_bit 8 (ucast (h :: u8)) OR ucast (l :: u8)) AND 0xFFFF = (push_bit 8 (ucast h) OR ucast l :: u32)"
proof (rule bit_word_eqI)
  fix n
  show "bit ((push_bit 8 (ucast h) OR ucast l) AND 0xFFFF :: u32) n = bit (push_bit 8 (ucast h) OR ucast l :: u32) n"
    unfolding bit_and_iff bit_low16 by (auto simp: bit_simps dest: bit_imp_le_length)
qed

lemma index_from_graph:
  assumes "graph_layout dict n" and "j < n"
  shows "\<exists>w. dict_super_index_from dict (j * nodeSize dict) = Some w \<and> unat w = gindex dict j \<and> gindex dict j < 2 ^ 24"
proof -
  define h l m b where "h = gbyte dict j 0" and "l = gbyte dict j (Suc 0)" and "m = gbyte dict j 3" and "b = gbyte dict j 2"
  define low :: u32 where "low = push_bit 8 (ucast h) OR ucast l"
  have low: "unat low = unat h * 256 + unat l" unfolding low_def by (rule unat_bytes_or)
  then have lt: "unat low < 65536" using unat_u8_less[of h] unat_u8_less[of l] by simp
  have f: "edge_field dict 0 (j * nodeSize dict) = Some h" "edge_field dict 1 (j * nodeSize dict) = Some l"
    "edge_field dict 2 (j * nodeSize dict) = Some b"
    using edge_field_graph[OF assms] graph_nodeSize[OF assms(1)] by (simp_all add: h_def l_def b_def)
  note fold = h_def[symmetric] l_def[symmetric] b_def[symmetric] m_def[symmetric] low_def[symmetric]
  show ?thesis
  proof (cases "is_4_byte dict")
    case True
    then have "nodeSize dict = 4" using assms(1) by (auto simp: graph_layout_def)
    then have f3: "edge_field dict 3 (j * nodeSize dict) = Some m"
      using edge_field_graph[OF assms, of 3] by (simp add: m_def)
    show ?thesis using f f3 True unat_or_high[OF lt, of m] low lt unat_u8_less[of m]
      by (simp add: dict_super_index_from_def gindex_def index_low fold Let_def)
  next
    case False
    then have ns: "nodeSize dict = 3" using assms(1) by (auto simp: graph_layout_def)
    have x: "(b AND EXTRABITMASK_NEW \<noteq> 0) = bit b 5"
      using and_exp_nonzero[of 5 b] by (simp add: EXTRABITMASK_NEW_def and.commute)
    show ?thesis using f False ns unat_or_high[OF lt, of 1] low lt
      by (simp add: dict_super_index_from_def gindex_def index_low fold Let_def x)
  qed
qed

text \<open>The edges from number \<open>j\<close> to the first one marked last, among the \<open>k\<close> that are left.\<close>

fun siblings :: "dictionaryCtxt \<Rightarrow> nat \<Rightarrow> nat \<Rightarrow> nat list" where
  "siblings dict 0 j = []"
| "siblings dict (Suc k) j = j # (if glast dict j then [] else siblings dict k (Suc j))"

definition node :: "dictionaryCtxt \<Rightarrow> nat \<Rightarrow> nat \<Rightarrow> nat list" where
  "node dict n j = siblings dict (n - j) j"

text \<open>Every array of siblings ends inside the graph exactly when the last edge is marked.\<close>

definition graph_closed :: "dictionaryCtxt \<Rightarrow> nat \<Rightarrow> bool" where
  "graph_closed dict n \<longleftrightarrow> 0 < n \<and> glast dict (n - 1)"

text \<open>An offset that is the place of an edge.\<close>

definition at_edge :: "dictionaryCtxt \<Rightarrow> nat \<Rightarrow> nat \<Rightarrow> bool" where
  "at_edge dict n e \<longleftrightarrow> (\<exists>j < n. e = j * nodeSize dict)"

lemma siblings_bounds: "s \<in> set (siblings dict k j) \<Longrightarrow> j \<le> s \<and> s < j + k"
  by (induction dict k j rule: siblings.induct) (fastforce split: if_splits)+

lemma node_bounds: "s \<in> set (node dict n j) \<Longrightarrow> j \<le> n \<Longrightarrow> j \<le> s \<and> s < n"
  using siblings_bounds[of s dict "n - j" j] by (simp add: node_def)

lemma edge_with_tile_graph:
  assumes "graph_layout dict n" and "graph_closed dict n" and "j < n"
  shows "dict_super_edge_with_tile dict (j * nodeSize dict) t =
           Some (map_option (\<lambda>s. s * nodeSize dict) (find (\<lambda>s. gtile dict s = t) (node dict n j)))"
  using assms(3)
proof (induction "n - Suc j" arbitrary: j)
  case 0
  then have j: "j = n - 1" by simp
  then have "n - j = Suc 0" using 0 by simp
  then show ?case
    using 0 assms(1,2) j
    by (subst dict_super_edge_with_tile.simps)
      (simp add: EDGETILE_graph IS_LAST_EDGE_graph node_def graph_closed_def)
next
  case (Suc k)
  then have k: "n - j = Suc (n - Suc j)" and j: "Suc j < n" by simp_all
  have IH: "dict_super_edge_with_tile dict (nodeSize dict + j * nodeSize dict) t =
      Some (map_option (\<lambda>s. s * nodeSize dict) (find (\<lambda>s. gtile dict s = t) (node dict n (Suc j))))"
    using Suc(1)[of "Suc j"] Suc(2) j by simp
  show ?case
    using Suc.prems assms(1) IH
    by (subst dict_super_edge_with_tile.simps)
      (simp add: EDGETILE_graph IS_LAST_EDGE_graph node_def k add.commute)
qed

lemma follow_graph:
  assumes "graph_layout dict n" and "j < n" and "gindex dict j < n"
  shows "dict_super_follow dict (j * nodeSize dict) =
           Some (if gindex dict j = 0 then None else Some (gindex dict j * nodeSize dict))"
proof -
  from index_from_graph[OF assms(1,2)] obtain w where
    w: "dict_super_index_from dict (j * nodeSize dict) = Some w" "unat w = gindex dict j" "gindex dict j < 2 ^ 24"
    by blast
  have z: "w = 0 \<longleftrightarrow> gindex dict j = 0" using w(2) by (metis unat_eq_zero)
  have s: "unat (w + push_bit 1 w) = gindex dict j * 3" "unat (push_bit 2 w) = gindex dict j * 4"
    using w(2,3) by (simp_all add: push_bit_eq_mult unat_word_ariths)
  show ?thesis
    using assms w s z
    by (auto simp: dict_super_follow_def dict_super_edge_for_index_def graph_layout_def word_gt_0
        split: option.splits)
qed

subsection \<open>What the sanity check tells\<close>

text \<open>The edges that the check has seen point into the graph, carry tiles of the dictionary
  and stand in order within their arrays.\<close>

definition sane_edge :: "dictionaryCtxt \<Rightarrow> nat \<Rightarrow> nat \<Rightarrow> bool" where
  "sane_edge dict n j \<longleftrightarrow> gindex dict j < n \<and> unat (gtile dict j) < nFaces dict"

lemma checkSanity_loop_graph:
  assumes "graph_layout dict n" and "j + k = n"
    and "checkSanity_loop dict n k (j * nodeSize dict) p = Some (True, q)"
  shows "(\<forall>i. j \<le> i \<and> i < n \<longrightarrow> sane_edge dict n i) \<and>
         (\<forall>i. j < i \<and> i < n \<and> \<not> glast dict (i - 1) \<longrightarrow> gtile dict (i - 1) \<le> gtile dict i) \<and>
         (0 < k \<longrightarrow> q = (if glast dict (n - 1) then 0 else gtile dict (n - 1)))"
  using assms(2,3)
proof (induction k arbitrary: j p)
  case 0
  then show ?case by auto
next
  case (Suc k)
  then have j: "j < n" by simp
  from index_from_graph[OF assms(1) j] obtain w where
    w: "dict_super_index_from dict (j * nodeSize dict) = Some w" "unat w = gindex dict j" by blast
  let ?p = "if glast dict j then 0 else gtile dict j"
  from Suc.prems(2) have t: "\<not> gtile dict j < p" "unat (gtile dict j) < nFaces dict" "gindex dict j < n"
    and l: "checkSanity_loop dict n k (Suc j * nodeSize dict) ?p = Some (True, q)"
    using w j assms(1) by (auto simp: EDGETILE_graph IS_LAST_EDGE_graph add.commute split: if_splits)
  have IH: "(\<forall>i. Suc j \<le> i \<and> i < n \<longrightarrow> sane_edge dict n i) \<and>
         (\<forall>i. Suc j < i \<and> i < n \<and> \<not> glast dict (i - 1) \<longrightarrow> gtile dict (i - 1) \<le> gtile dict i) \<and>
         (0 < k \<longrightarrow> q = (if glast dict (n - 1) then 0 else gtile dict (n - 1)))"
    using Suc.IH[OF _ l] Suc.prems(1) by simp
  have sj: "sane_edge dict n j" using t by (simp add: sane_edge_def)
  have nxt: "gtile dict j \<le> gtile dict (Suc j)" if less: "Suc j < n" and nl: "\<not> glast dict j"
  proof -
    obtain k' where k': "k = Suc k'" using Suc.prems(1) less by (cases k) auto
    show ?thesis using l less nl assms(1)
      by (auto simp: k' EDGETILE_graph simp del: mult_Suc split: if_splits)
  qed
  have last: "q = (if glast dict (n - 1) then 0 else gtile dict (n - 1))"
  proof (cases k)
    case 0
    then show ?thesis using l Suc.prems(1) by auto
  qed (use IH in auto)
  show ?case
  proof (intro conjI allI impI)
    fix i assume "j \<le> i \<and> i < n"
    then show "sane_edge dict n i" using IH sj by (cases "i = j") auto
  next
    fix i assume "j < i \<and> i < n \<and> \<not> glast dict (i - 1)"
    then show "gtile dict (i - 1) \<le> gtile dict i" using IH nxt by (cases "i = Suc j") auto
  qed (use last in simp)
qed

text \<open>The last test is meant to find that the last edge is marked; it also passes when that
  edge carries tile 0.\<close>

lemma checkSanity_graph:
  assumes "graph_layout dict n" and "checkSanity dict n = Some True"
  shows "(\<forall>i<n. sane_edge dict n i) \<and>
         (\<forall>i. 0 < i \<and> i < n \<and> \<not> glast dict (i - 1) \<longrightarrow> gtile dict (i - 1) \<le> gtile dict i) \<and>
         (0 < n \<longrightarrow> glast dict (n - 1) \<or> gtile dict (n - 1) = 0)"
proof -
  from assms obtain q where q: "checkSanity_loop dict n n (0 * nodeSize dict) 0 = Some (True, q)" "q = 0"
    by (auto simp: checkSanity_def graph_layout_def split: option.splits)
  show ?thesis using checkSanity_loop_graph[OF assms(1) _ q(1)] q(2) by (auto split: if_splits)
qed

lemma node_sorted:
  assumes "\<forall>i. 0 < i \<and> i < n \<and> \<not> glast dict (i - 1) \<longrightarrow> gtile dict (i - 1) \<le> gtile dict i" and "j \<le> n"
  shows "sorted (map (gtile dict) (node dict n j))"
proof -
  have "sorted (map (gtile dict) (siblings dict k j)) \<and> (k \<noteq> 0 \<longrightarrow> (\<forall>s \<in> set (siblings dict k j). gtile dict j \<le> gtile dict s))"
    if "j + k = n" for k j
    using that
  proof (induction k arbitrary: j)
    case (Suc k)
    then have IH: "sorted (map (gtile dict) (siblings dict k (Suc j)))"
      "k \<noteq> 0 \<Longrightarrow> \<forall>s \<in> set (siblings dict k (Suc j)). gtile dict (Suc j) \<le> gtile dict s" by auto
    have "gtile dict j \<le> gtile dict (Suc j)" if "\<not> glast dict j" "k \<noteq> 0"
      using assms(1)[rule_format, of "Suc j"] that Suc.prems by simp
    then show ?case using IH by (cases k) (auto intro: order_trans)
  qed simp
  from this[of j "n - j"] assms(2) show ?thesis by (simp add: node_def)
qed

section \<open>Text of tiles\<close>

text \<open>What \<open>dict_tilesToString\<close> writes for a tile, when it can be read.\<close>

definition tile_text :: "dictionaryCtxt \<Rightarrow> tile \<Rightarrow> u8 list option" where
  "tile_text dict t = do {
     p \<leftarrow> dict_getTileStringRaw dict t;
     c \<leftarrow> face_byte dict p;
     if IS_SPECIAL c then facePtr_str dict (InChars (unat c) 0)
     else do { xp_assert (int (unat t) \<noteq> blankTile dict); facePtr_str dict (InFaces p) }
   }"

text \<open>No delimiter is an empty one.\<close>

definition delim_bytes :: "cstring \<Rightarrow> u8 list" where
  "delim_bytes delim = (case delim of None \<Rightarrow> [] | Some dl \<Rightarrow> dl)"

text \<open>Texts one after the other with a delimiter between them, and the place where it is the delimiter that
  first does not fit into a buffer of \<open>n\<close> bytes.\<close>

fun joined :: "u8 list \<Rightarrow> u8 list list \<Rightarrow> u8 list" where
  "joined dl [] = []"
| "joined dl (w # ws) = w @ concat (map ((@) dl) ws)"

definition delim_overflows :: "u8 list \<Rightarrow> u8 list list \<Rightarrow> nat \<Rightarrow> bool" where
  "delim_overflows dl ws n = list_ex (\<lambda>k. length (joined dl (take k ws)) < n \<and>
     n \<le> length (joined dl (take k ws)) + length dl) [1..<length ws]"

lemma delim_overflows_iff: "delim_overflows dl ws n \<longleftrightarrow> (\<exists>k<length ws. 0 < k \<and> length (joined dl (take k ws)) < n \<and>
     n \<le> length (joined dl (take k ws)) + length dl)"
  by (auto simp: delim_overflows_def list_ex_iff)

lemma ex_less_Suc: "(\<exists>k<Suc n. P k) \<longleftrightarrow> P 0 \<or> (\<exists>k<n. P (Suc k))"
  by (metis Suc_less_eq less_Suc_eq_0_disj)

lemma tilesToString_step:
  assumes "tile_text dict t = Some w"
  shows "tilesToString_loop dict n delim first (Some b) (t # ts) = do {
     bufp \<leftarrow> (if first \<or> delim_bytes delim = [] then Some (Some b) else appendIfSpace n (Some b) (delim_bytes delim));
     bufp \<leftarrow> appendIfSpace n bufp w;
     tilesToString_loop dict n delim False bufp ts }"
proof -
  from assms obtain p c where "dict_getTileStringRaw dict t = Some p" "face_byte dict p = Some c"
    "(if IS_SPECIAL c then facePtr_str dict (InChars (unat c) 0)
      else do { xp_assert (int (unat t) \<noteq> blankTile dict); facePtr_str dict (InFaces p) }) = Some w"
    by (auto simp: tile_text_def simp del: facePtr_str.simps)
  then show ?thesis
    by (cases "IS_SPECIAL c"; cases delim) (simp_all add: delim_bytes_def xp_assert_def del: facePtr_str.simps split: if_split_asm)
qed

text \<open>The tiles after the first.\<close>

lemma tilesToString_loop_text:
  fixes delim :: cstring
  assumes "\<forall>t \<in> set ts. tile_text dict t = Some (txt t)" and "length b < n"
  defines "dl \<equiv> delim_bytes delim"
  defines "sofar \<equiv> \<lambda>k. b @ concat (map (\<lambda>t. dl @ txt t) (take k ts))"
  shows "tilesToString_loop dict n delim False (Some b) ts =
     (if length (sofar (length ts)) < n then Some (Some (sofar (length ts)))
      else if \<exists>k<length ts. length (sofar k) < n \<and> n \<le> length (sofar k) + length dl then None else Some None)"
  using assms(1,2) unfolding sofar_def
proof (induction ts arbitrary: b)
  case (Cons t ts)
  have t: "tile_text dict t = Some (txt t)" using Cons.prems(1) by simp
  have none: "tilesToString_loop dict n delim False None ts = Some None" by (cases ts) simp_all
  note step = tilesToString_step[OF t, of n delim False b ts, folded dl_def]
  consider "n \<le> length b + length dl" "dl \<noteq> []" | "length b + length dl < n" "n \<le> length b + length dl + length (txt t)"
    | "length b + length dl + length (txt t) < n" using Cons.prems(2) by (cases "dl = []") force+
  then show ?case
  proof cases
    case 1
    then have "tilesToString_loop dict n delim False (Some b) (t # ts) = None"
      by (simp add: step appendIfSpace_def del: tilesToString_loop.simps)
    then show ?thesis using 1 Cons.prems(2) by (auto intro: exI[of _ 0])
  next
    case 2
    then have "tilesToString_loop dict n delim False (Some b) (t # ts) = Some None"
      by (auto simp: step appendIfSpace_def none simp del: tilesToString_loop.simps)
    then show ?thesis using 2 by (auto simp: ex_less_Suc)
  next
    case 3
    then have "tilesToString_loop dict n delim False (Some b) (t # ts) =
        tilesToString_loop dict n delim False (Some (b @ dl @ txt t)) ts"
      by (simp add: step appendIfSpace_def del: tilesToString_loop.simps)
    then show ?thesis using Cons.IH[of "b @ dl @ txt t"] Cons.prems(1) 3 by (simp add: ex_less_Suc add.assoc)
  qed
qed simp

lemma tilesToString_delimited:
  fixes delim :: cstring
  assumes "\<forall>t \<in> set ts. tile_text dict t = Some (txt t)"
  defines "dl \<equiv> delim_bytes delim" and "ws \<equiv> map txt ts"
  shows "dict_tilesToString dict ts n delim =
     (if length (joined dl ws) < n then Some (Some (joined dl ws))
      else if delim_overflows dl ws n then None else Some None)"
proof (cases ts)
  case Nil
  then show ?thesis by (simp add: dict_tilesToString_def ws_def delim_overflows_iff)
next
  case (Cons t us)
  have t: "tile_text dict t = Some (txt t)" using assms(1) Cons by simp
  have none: "tilesToString_loop dict n delim False None us = Some None" by (cases us) simp_all
  note step = tilesToString_step[OF t, of n delim True "[]" us]
  show ?thesis
  proof (cases "length (txt t) < n")
    case False
    then have "dict_tilesToString dict ts n delim = Some None"
      by (simp add: dict_tilesToString_def Cons step appendIfSpace_def none del: tilesToString_loop.simps)
    moreover have "\<not> delim_overflows dl ws n" "\<not> length (joined dl ws) < n"
      using False by (auto simp: ws_def Cons delim_overflows_iff take_Cons split: nat.splits)
    ultimately show ?thesis by simp
  next
    case True
    have "dict_tilesToString dict ts n delim = do {
        bufp \<leftarrow> tilesToString_loop dict n delim False (Some (txt t)) us;
        Some (case bufp of None \<Rightarrow> None | Some b \<Rightarrow> if length b < n then Some b else None) }"
      using True by (simp add: dict_tilesToString_def Cons step appendIfSpace_def del: tilesToString_loop.simps)
    also have "tilesToString_loop dict n delim False (Some (txt t)) us =
       (if length (joined dl ws) < n then Some (Some (joined dl ws)) else if delim_overflows dl ws n then None else Some None)"
      using tilesToString_loop_text[of us dict "txt" "txt t" n delim] assms(1) True Cons
      by (simp add: ws_def dl_def delim_overflows_iff ex_less_Suc comp_def take_map)
    finally show ?thesis by simp
  qed
qed

section \<open>Tiles of a text\<close>

text \<open>The ways to read a text as at most \<open>k\<close> tiles, in the order the search finds them;
  \<open>m t str\<close> is how much of \<open>str\<close> tile \<open>t\<close> matches.\<close>

fun parses :: "(tile \<Rightarrow> u8 list \<Rightarrow> nat option) \<Rightarrow> nat list \<Rightarrow> nat \<Rightarrow> u8 list \<Rightarrow> tile list list" where
  "parses m is 0 str = [[]]"
| "parses m is (Suc k) str =
     (if str = [] then [[]]
      else concat (map (\<lambda>i. case m (of_nat i) str of None \<Rightarrow> []
                              | Some l \<Rightarrow> map ((#) (of_nat i)) (parses m is k (drop l str))) is))"

text \<open>Reading the tiles one after the other from a text: what is left.\<close>

fun reads :: "(tile \<Rightarrow> u8 list \<Rightarrow> nat option) \<Rightarrow> u8 list \<Rightarrow> tile list \<Rightarrow> u8 list option" where
  "reads m str [] = Some str"
| "reads m str (t # ts) = (case m t str of None \<Rightarrow> None | Some l \<Rightarrow> reads m (drop l str) ts)"

lemma parses_reads:
  assumes pos: "\<And>t str l. m t str = Some l \<Longrightarrow> 0 < l \<and> l \<le> length str"
  shows "ts \<in> set (parses m js k str) \<longleftrightarrow>
     set ts \<subseteq> of_nat ` set js \<and> length ts \<le> k \<and>
     (\<exists>rest. reads m str ts = Some rest \<and> (rest = [] \<or> length ts = k))"
proof (induction k arbitrary: str ts)
  case 0
  then show ?case by (cases ts) auto
next
  case (Suc k)
  show ?case
  proof (cases "str = []")
    case True
    have "m t [] = None" for t
    proof (cases "m t []")
      case (Some l)
      from pos[OF this] have False by auto
      then show ?thesis ..
    qed simp
    then show ?thesis using True by (cases ts) auto
  next
    case False
    then show ?thesis
    proof (cases ts)
      case (Cons t w)
      have "ts \<in> set (parses m js (Suc k) str) \<longleftrightarrow>
          (\<exists>i \<in> set js. t = of_nat i \<and> (\<exists>l. m t str = Some l \<and> w \<in> set (parses m js k (drop l str))))"
      proof -
        have "t # w \<in> set (case m (of_nat i) str of None \<Rightarrow> []
            | Some l \<Rightarrow> map ((#) (of_nat i)) (parses m js k (drop l str))) \<longleftrightarrow>
          t = of_nat i \<and> (\<exists>l. m t str = Some l \<and> w \<in> set (parses m js k (drop l str)))" for i
          by (cases "m (of_nat i) str") auto
        then show ?thesis using False Cons by simp
      qed
      also have "\<dots> \<longleftrightarrow> (\<exists>i \<in> set js. t = of_nat i \<and> (\<exists>l. m t str = Some l \<and>
          set w \<subseteq> of_nat ` set js \<and> length w \<le> k \<and>
          (\<exists>rest. reads m (drop l str) w = Some rest \<and> (rest = [] \<or> length w = k))))"
        using Suc by blast
      finally show ?thesis using Cons by (auto split: option.splits)
    qed (use False in \<open>auto split: option.splits\<close>)
  qed
qed

definition real_tiles :: "dictionaryCtxt \<Rightarrow> nat list" where
  "real_tiles dict = filter (\<lambda>i. int i \<noteq> blankTile dict) [0..<nFaces dict]"

lemma tilesForStringImpl_parses:
  fixes collect :: "tile list list \<Rightarrow> tile list \<Rightarrow> bool \<times> tile list list"
  defines "collect \<equiv> (\<lambda>c ts. (True, c @ [ts]))"
  assumes m: "\<And>i str. i \<in> set (real_tiles dict) \<Longrightarrow> firstFaceMatch dict (of_nat i) str None = Some (m (of_nat i) str)"
    and "length ts \<le> n"
  shows "tilesForStringImpl dict collect n str ts c =
     Some (True, c @ map ((@) ts) (parses m (real_tiles dict) (n - length ts) str))"
  using assms(3)
proof (induction "n - length ts" arbitrary: str ts c)
  case 0
  then show ?case by (simp add: collect_def)
next
  case (Suc k)
  then have lt: "length ts < n" and k: "n - length ts = Suc k" by simp_all
  have rec: "tilesForStringImpl dict collect n str' (ts @ [t]) c' =
      Some (True, c' @ map ((@) (ts @ [t])) (parses m (real_tiles dict) k str'))" for str' t c'
  proof -
    have k': "n - length (ts @ [t]) = k" and le: "length (ts @ [t]) \<le> n" using Suc(2) lt by simp_all
    show ?thesis using Suc(1)[OF k'[symmetric] le, of str' c'] unfolding k' .
  qed
  let ?step = "\<lambda>i. case m (of_nat i) str of None \<Rightarrow> []
      | Some l \<Rightarrow> map ((#) (of_nat i)) (parses m (real_tiles dict) k (drop l str))"
  have loop: "tilesForString_loop dict collect n str ts js c' =
      Some (True, c' @ map ((@) ts) (concat (map ?step (filter (\<lambda>i. int i \<noteq> blankTile dict) js))))"
    if "set js \<subseteq> set [0..<nFaces dict]" for js c'
    using that
  proof (induction js arbitrary: c')
    case (Cons j js)
    then have "int j \<noteq> blankTile dict \<Longrightarrow> j \<in> set (real_tiles dict)" by (simp add: real_tiles_def)
    then show ?case
      using lt Cons by (cases "m (of_nat j) str") (simp_all add: m rec comp_def del: tilesForStringImpl.simps)
  qed simp
  show ?case
    using lt k by (auto simp: loop real_tiles_def[symmetric]) (simp add: collect_def)
qed

section \<open>The faces of a tile\<close>

text \<open>The bytes from \<open>a\<close> to \<open>e\<close> are these strings, none of them empty, each with its final 0.\<close>

fun strings_at :: "u8 list \<Rightarrow> nat \<Rightarrow> nat \<Rightarrow> u8 list list \<Rightarrow> bool" where
  "strings_at mem a e [] = (a = e)"
| "strings_at mem a e (s # ss) = (s \<noteq> [] \<and> 0 \<notin> set s \<and> take (length s + 1) (drop a mem) = s @ [0] \<and>
     strings_at mem (a + length s + 1) e ss)"

text \<open>How the faces of a tile other than the blank lie in memory: for most tiles in \<open>faces\<close>, from the
  tile's pointer to that of the next tile or to the end; for a special tile, whose byte there is a number
  under 32, they are the texts with that number.\<close>

definition has_faces :: "dictionaryCtxt \<Rightarrow> tile \<Rightarrow> u8 list list \<Rightarrow> bool" where
  "has_faces dict t fs \<longleftrightarrow> (let i = unat t; p = facePtrs dict ! i; f = (case faces dict of None \<Rightarrow> [] | Some m \<Rightarrow> m); c = f ! p in
     i < nFaces dict \<and> i < 255 \<and> length (facePtrs dict) = nFaces dict \<and> p < length f \<and> int i \<noteq> blankTile dict \<and> fs \<noteq> [] \<and>
     (if c < 0x20
      then unat c < length (chars dict) \<and> unat c < length (charEnds dict) \<and>
        chars dict ! unat c \<noteq> None \<and> charEnds dict ! unat c \<noteq> None \<and>
        strings_at (the (chars dict ! unat c)) 0 (the (charEnds dict ! unat c)) fs
      else strings_at f p (if i + 1 = nFaces dict then facesEnd dict else facePtrs dict ! (i + 1)) fs))"

text \<open>The first of the faces with which the text begins.\<close>

definition first_face :: "u8 list list \<Rightarrow> u8 list \<Rightarrow> nat option" where
  "first_face fs str = map_option length (find (\<lambda>f. take (length f) str = f) fs)"

text \<open>The strings that the tile's iterator yields after \<open>cur\<close>.\<close>

fun yields :: "dictionaryCtxt \<Rightarrow> tile \<Rightarrow> facePtr option \<Rightarrow> u8 list list \<Rightarrow> bool" where
  "yields dict t cur [] \<longleftrightarrow> dict_getNextTileString dict t cur = Some None"
| "yields dict t cur (f # fs) \<longleftrightarrow> (\<exists>p. dict_getNextTileString dict t cur = Some (Some p) \<and>
     facePtr_str dict p = Some f \<and> yields dict t (Some p) fs)"

lemma firstFaceMatch_yields: "yields dict t cur fs \<Longrightarrow> firstFaceMatch dict t str cur = Some (first_face fs str)"
proof (induction fs arbitrary: cur)
  case Nil
  then show ?case by (subst firstFaceMatch.simps) (simp add: first_face_def)
next
  case (Cons f fs)
  then obtain p where p: "dict_getNextTileString dict t cur = Some (Some p)" "facePtr_str dict p = Some f"
      "yields dict t (Some p) fs" by auto
  show ?case
    using Cons.IH[OF p(3)] by (subst firstFaceMatch.simps) (simp add: p(1,2) first_face_def)
qed

lemma strings_at_le: "strings_at mem a e ss \<Longrightarrow> a \<le> e \<and> (ss \<noteq> [] \<longrightarrow> a < e)"
  by (induction ss arbitrary: a) fastforce+

lemma c_str_at_string:
  assumes "0 \<notin> set s" "take (length s + 1) (drop a mem) = s @ [0]"
  shows "c_str_at a mem = Some s"
proof -
  have "drop a mem = s @ 0 # drop (length s + 1) (drop a mem)"
    using assms(2) append_take_drop_id[of "length s + 1" "drop a mem"] by simp
  then show ?thesis using assms(1) unfolding c_str_at_def
    by (metis (mono_tags, lifting) in_set_conv_decomp takeWhile_append2 takeWhile.simps(2) append_Nil2)
qed

lemma yields_special:
  assumes "dict_getTileStringRaw dict t = Some p" "face_byte dict p = Some c" "c < 0x20"
    and "mem_get (unat c) (chars dict) = Some (Some mem)" "mem_get (unat c) (charEnds dict) = Some (Some e)"
    and "int (unat t) \<noteq> blankTile dict" "c_str_at q mem = Some s" "strings_at mem (q + length s + 1) e fs"
  shows "yields dict t (Some (InChars (unat c) q)) fs"
  using assms(7,8)
proof (induction fs arbitrary: q s)
  case Nil
  then show ?case using assms(1-6) by (simp add: dict_getNextTileString_def facePtr_next_def dict_faceIsBitmap_def IS_SPECIAL_def)
next
  case (Cons f fs)
  have "q + length s + 1 < e" using strings_at_le[OF Cons.prems(2)] by simp
  moreover have f: "c_str_at (q + length s + 1) mem = Some f" using Cons.prems(2) by (intro c_str_at_string) simp_all
  ultimately show ?case using assms(1-6) Cons.prems Cons.IH[OF f]
    by (simp add: dict_getNextTileString_def facePtr_next_def dict_faceIsBitmap_def IS_SPECIAL_def)
qed

lemma yields_regular:
  assumes "dict_getTileStringRaw dict t = Some p" "face_byte dict p = Some c" "\<not> c < 0x20" "faces dict = Some mem"
    and "unat (t + 1) = unat t + 1" "length (facePtrs dict) = nFaces dict" "unat t < nFaces dict"
    and "e = (if unat t + 1 = nFaces dict then facesEnd dict else facePtrs dict ! (unat t + 1))"
    and "int (unat t) \<noteq> blankTile dict" "c_str_at q mem = Some s" "strings_at mem (q + length s + 1) e fs"
  shows "yields dict t (Some (InFaces q)) fs"
  using assms(10,11)
proof (induction fs arbitrary: q s)
  case Nil
  then show ?case using assms(1-9)
    by (simp add: dict_getNextTileString_def facePtr_next_def dict_faceIsBitmap_def IS_SPECIAL_def dict_getTileStringRaw_def
        mem_get_def xp_assert_def)
next
  case (Cons f fs)
  have "q + length s + 1 < e" using strings_at_le[OF Cons.prems(2)] by simp
  moreover have f: "c_str_at (q + length s + 1) mem = Some f" using Cons.prems(2) by (intro c_str_at_string) simp_all
  ultimately show ?case using assms(1-9) Cons.prems Cons.IH[OF f]
    by (cases "unat t + 1 = nFaces dict") (simp_all add: dict_getNextTileString_def facePtr_next_def dict_faceIsBitmap_def IS_SPECIAL_def dict_getTileStringRaw_def
        mem_get_def xp_assert_def)
qed

lemma yields_faces:
  assumes "has_faces dict t fs"
  shows "yields dict t None fs"
proof -
  let ?p = "facePtrs dict ! unat t"
  from assms obtain mem f fs' where f: "faces dict = Some mem" "?p < length mem" "unat t < nFaces dict" "unat t < 255"
      "length (facePtrs dict) = nFaces dict" "int (unat t) \<noteq> blankTile dict" "fs = f # fs'"
    by (cases fs; cases "faces dict") (auto simp: has_faces_def Let_def)
  have raw: "dict_getTileStringRaw dict t = Some ?p" "face_byte dict ?p = Some (mem ! ?p)"
    using f by (simp_all add: dict_getTileStringRaw_def face_byte_def mem_get_def xp_assert_def)
  have suc: "unat (t + 1) = unat t + 1" using f(4) by (simp add: unat_word_ariths)
  show ?thesis
  proof (cases "mem ! ?p < 0x20")
    case True
    let ?c = "unat (mem ! ?p)"
    from assms True f obtain mem2 e where x: "?c < length (chars dict)" "?c < length (charEnds dict)" "chars dict ! ?c = Some mem2"
        "charEnds dict ! ?c = Some e" "strings_at mem2 0 e fs"
      by (auto simp: has_faces_def Let_def)
    have s: "c_str_at 0 mem2 = Some f" using x(5) f(7) by (intro c_str_at_string) simp_all
    have "yields dict t (Some (InChars ?c 0)) fs'"
      by (rule yields_special[OF raw True _ _ f(6) s]) (use x f in \<open>auto simp: mem_get_def\<close>)
    then show ?thesis using raw True x s f(7)
      by (simp add: dict_getNextTileString_def dict_getTileString_def IS_SPECIAL_def mem_get_def)
  next
    case False
    let ?e = "if unat t + 1 = nFaces dict then facesEnd dict else facePtrs dict ! (unat t + 1)"
    have x: "strings_at mem ?p ?e fs" using assms False f(1) by (simp add: has_faces_def Let_def)
    have s: "c_str_at ?p mem = Some f" using x f(7) by (intro c_str_at_string) simp_all
    have "yields dict t (Some (InFaces ?p)) fs'"
      by (rule yields_regular[OF raw False f(1) suc f(5,3) refl f(6) s]) (use x f in simp)
    then show ?thesis using raw False s f(1,7)
      by (simp add: dict_getNextTileString_def dict_getTileString_def IS_SPECIAL_def)
  qed
qed

text \<open>So the search for a face ends, and finds the first one that matches.\<close>

lemma firstFaceMatch_faces: "has_faces dict t fs \<Longrightarrow> firstFaceMatch dict t str None = Some (first_face fs str)"
  by (intro firstFaceMatch_yields yields_faces)

lemma strings_at_nonempty: "strings_at mem a e fs \<Longrightarrow> [] \<notin> set fs"
  by (induction fs arbitrary: a) auto

lemma first_face_pos:
  assumes "has_faces dict t fs" "first_face fs str = Some l"
  shows "0 < l \<and> l \<le> length str"
proof -
  from assms(2) obtain f where f: "find (\<lambda>f. take (length f) str = f) fs = Some f" "l = length f" by (auto simp: first_face_def)
  from f(1) have "f \<in> set fs" "take (length f) str = f" by (auto simp: find_Some_iff)
  moreover have "[] \<notin> set fs" using assms(1) strings_at_nonempty by (auto simp: has_faces_def Let_def split: if_split_asm)
  ultimately show ?thesis using f(2) by (metis length_greater_0_conv length_take min.cobounded1 min.commute)
qed

section \<open>Properties\<close>

text \<open>A dictionary with the faces A, B and, as special tile, QU.\<close>

definition face_dict :: dictionaryCtxt where
  "face_dict = dict_calloc\<lparr>nFaces := 3, blankTile := -1, faces := Some [65, 0, 66, 0, 0, 0],
     facesEnd := 6, facePtrs := [0, 2, 4], chars := [Some [81, 85, 0]], charEnds := [Some 3]\<rparr>"

text \<open>C31: \<open>dict_tilesToString\<close> writes the texts of the tiles one after the other, with the delimiter
  between them if there is one, when that and the final 0 fit into the buffer. When they do not it gives up
  cleanly if the text of a tile is the first thing without room. If it is the delimiter, the text of the next
  tile is still appended, to no buffer: a write through a null pointer. Without a delimiter that cannot
  happen.\<close>

theorem tilesToString_text:
  assumes "\<forall>t \<in> set ts. tile_text dict t = Some (txt t)"
  shows "dict_tilesToString dict ts bufSize delim =
     (let dl = delim_bytes delim; text = joined dl (map txt ts) in
      if length text < bufSize then Some (Some text)
      else if delim_overflows dl (map txt ts) bufSize then None else Some None) \<and>
    \<not> delim_overflows (delim_bytes None) (map txt ts) bufSize"
  using tilesToString_delimited[OF assms, of bufSize delim] by (simp add: delim_overflows_iff delim_bytes_def Let_def)

theorem tilesToString_text_witness:
  "dict_tilesToString face_dict [2, 0, 1] 7 (Some [44]) = Some (Some [81, 85, 44, 65, 44, 66]) \<and>
   dict_tilesToString face_dict [2, 0, 1] 6 (Some [44]) = Some None \<and>
   dict_tilesToString face_dict [2, 0, 1] 5 (Some [44]) = None"
proof -
  have e: "\<forall>t \<in> set [2, 0, 1]. tile_text face_dict t = Some (the (tile_text face_dict t))"
    "map (\<lambda>t. the (tile_text face_dict t)) [2, 0, 1] = [[81, 85], [65], [66]]"
    "delim_overflows [44] [[81, 85], [65], [66]] 6 = False" "delim_overflows [44] [[81, 85], [65], [66]] 5 = True"
    by code_simp+
  from tilesToString_text[OF e(1), of _ "Some [44]", unfolded e(2)] show ?thesis
    by (simp add: Let_def delim_bytes_def e(3,4))
qed

text \<open>C23: \<open>dict_tilesForString\<close> reports exactly the ways to read a text as tiles: every sequence of
  tiles other than the blank whose faces follow one another in the text to its end (or as the
  first 32 tiles of it), and no other. Of a tile with several faces the first one that the text begins
  with at its place is taken. The faces are those that lie in the dictionary's memory for the tile: between
  its pointer and the next one, or as the texts of a special tile. The search always ends.\<close>

theorem tilesForString_exact:
  assumes "\<forall>i \<in> set (real_tiles dict). has_faces dict (of_nat i) (fs (of_nat i))"
  shows "\<exists>found. dict_tilesForString dict str (\<lambda>c ts. (True, c @ [ts])) [] = Some found \<and>
     (\<forall>ts. ts \<in> set found \<longleftrightarrow>
        set ts \<subseteq> of_nat ` set (real_tiles dict) \<and> length ts \<le> 32 \<and>
        (\<exists>rest. reads (\<lambda>t. first_face (fs t)) str ts = Some rest \<and> (rest = [] \<or> length ts = 32)))"
proof -
  define m where "m t s = (if t \<in> of_nat ` set (real_tiles dict) then first_face (fs t) s else None)" for t s
  have match: "firstFaceMatch dict (of_nat i) s None = Some (m (of_nat i) s)" if "i \<in> set (real_tiles dict)" for i s
    using assms that firstFaceMatch_faces by (auto simp: m_def)
  have pos: "0 < l \<and> l \<le> length s" if "m t s = Some l" for t s l
    using that assms first_face_pos by (fastforce simp: m_def split: if_split_asm)
  have same: "reads m s ts = reads (\<lambda>t. first_face (fs t)) s ts" if "set ts \<subseteq> of_nat ` set (real_tiles dict)" for s ts
    using that by (induction ts arbitrary: s) (auto simp: m_def split: option.split)
  show ?thesis
    using tilesForStringImpl_parses[of dict m "[]" 32 str "[]", OF match]
      parses_reads[where m = m and js = "real_tiles dict" and k = 32 and str = str, OF pos] same
    by (auto simp: dict_tilesForString_def simp del: tilesForStringImpl.simps)
qed

text \<open>The second tile has the faces B and b.\<close>

definition face_dict2 :: dictionaryCtxt where
  "face_dict2 = dict_calloc\<lparr>nFaces := 3, blankTile := -1, faces := Some [65, 0, 66, 0, 98, 0, 0, 0],
     facesEnd := 8, facePtrs := [0, 2, 6], chars := [Some [81, 85, 0]], charEnds := [Some 3]\<rparr>"

definition demo_faces2 :: "tile \<Rightarrow> u8 list list" where
  "demo_faces2 t = (if t = 0 then [[65]] else if t = 1 then [[66], [98]] else [[81, 85]])"

theorem tilesForString_exact_witness:
  "\<exists>found. dict_tilesForString face_dict2 [65, 98, 81, 85] (\<lambda>c ts. (True, c @ [ts])) [] = Some found \<and> [0, 1, 2] \<in> set found"
proof -
  have r: "set (real_tiles face_dict2) = {0, 1, 2}" by code_simp
  have "has_faces face_dict2 0 (demo_faces2 0)" "has_faces face_dict2 1 (demo_faces2 1)" "has_faces face_dict2 2 (demo_faces2 2)"
    by code_simp+
  then have f: "\<forall>i \<in> set (real_tiles face_dict2). has_faces face_dict2 (of_nat i) (demo_faces2 (of_nat i))"
    unfolding r by simp
  have "set [0, 1, 2] \<subseteq> of_nat ` set (real_tiles face_dict2) \<and> length [0, 1, 2 :: tile] \<le> 32 \<and>
        (\<exists>rest. reads (\<lambda>t. first_face (demo_faces2 t)) [65, 98, 81, 85] [0, 1, 2] = Some rest \<and> (rest = [] \<or> length [0, 1, 2 :: tile] = 32))"
    unfolding r by (simp add: first_face_def demo_faces2_def)
  then show ?thesis using tilesForString_exact[OF f, of "[65, 98, 81, 85]"] by blast
qed

end
