(* ===== verification/Xw_Words.thy ===== *)
theory Xw_Words
  imports Xw_Dict
begin

text \<open>
  Words in the graph: the walks of \<open>engine.c\<close> along a word (\<open>lookup\<close>, \<open>engine_check\<close>,
  \<open>edge_from_tile\<close>). A dictionary reaches its graph through the function pointers that
  \<open>dict_super_init\<close> sets, so the walks are functions of these operations; the locale
  \<open>word_graph\<close> says what they promise, and \<open>dictnry.c\<close> keeps the promise for every graph
  that has passed \<open>checkSanity\<close>.
\<close>

section \<open>Walks\<close>

function (sequential) lookup_via ::
    "('e \<Rightarrow> tile \<Rightarrow> 'e option option) \<Rightarrow> ('e \<Rightarrow> 'e option option) \<Rightarrow> ('e \<Rightarrow> bool option) \<Rightarrow>
     'e option \<Rightarrow> tile list \<Rightarrow> nat \<Rightarrow> nat \<Rightarrow> bool option" where
  "lookup_via ewt fol acc None buf tileIndex len = Some False"
| "lookup_via ewt fol acc (Some e) buf tileIndex len =
     (if tileIndex < length buf then do {
        found \<leftarrow> ewt e (buf ! tileIndex);
        case found of
          None \<Rightarrow> Some False
        | Some e \<Rightarrow>
            if tileIndex + 1 = len then acc e
            else do {
              nxt \<leftarrow> fol e;
              lookup_via ewt fol acc nxt buf (tileIndex + 1) len
            }
      } else None)"
  by pat_completeness auto

termination
  by (relation "measure (\<lambda>(_, _, _, _, buf, i, _). length buf - i)") auto

definition lookup_tiles :: "dictionaryCtxt \<Rightarrow> nat option \<Rightarrow> tile list \<Rightarrow> nat \<Rightarrow> nat \<Rightarrow> bool option" where
  "lookup_tiles dict = lookup_via (dict_super_edge_with_tile dict) (dict_super_follow dict) (ISACCEPTING dict)"

definition engine_check :: "dictionaryCtxt \<Rightarrow> tile list \<Rightarrow> bool option" where
  "engine_check dict ts = lookup_tiles dict (dict_super_getTopEdge dict) ts 0 (length ts)"

definition edge_from_tile :: "dictionaryCtxt \<Rightarrow> nat \<Rightarrow> tile \<Rightarrow> nat option option" where
  "edge_from_tile dict e t = do {
     found \<leftarrow> dict_super_edge_with_tile dict e t;
     case found of None \<Rightarrow> Some None | Some e \<Rightarrow> dict_super_follow dict e
   }"

section \<open>What a word graph promises\<close>

text \<open>The words below an edge array: \<open>child\<close> finds the edge of a tile in the array, \<open>below\<close>
  the array an edge leads to.\<close>

fun spells :: "('e \<Rightarrow> tile \<Rightarrow> 'e option) \<Rightarrow> ('e \<Rightarrow> 'e option) \<Rightarrow> ('e \<Rightarrow> bool) \<Rightarrow> 'e option \<Rightarrow> tile list \<Rightarrow> bool" where
  "spells child below final None w = False"
| "spells child below final (Some e) [] = False"
| "spells child below final (Some e) (t # w) =
     (case child e t of
        None \<Rightarrow> False
      | Some e \<Rightarrow> if w = [] then final e else spells child below final (below e) w)"

locale word_graph =
  fixes ewt :: "'e \<Rightarrow> tile \<Rightarrow> 'e option option"
    and fol :: "'e \<Rightarrow> 'e option option"
    and acc :: "'e \<Rightarrow> bool option"
    and valid :: "'e \<Rightarrow> bool"
    and child :: "'e \<Rightarrow> tile \<Rightarrow> 'e option"
    and below :: "'e \<Rightarrow> 'e option"
    and final :: "'e \<Rightarrow> bool"
  assumes ewt: "valid e \<Longrightarrow> ewt e t = Some (child e t)"
    and fol: "valid e \<Longrightarrow> fol e = Some (below e)"
    and acc: "valid e \<Longrightarrow> acc e = Some (final e)"
    and child_valid: "valid e \<Longrightarrow> child e t = Some e' \<Longrightarrow> valid e'"
    and below_valid: "valid e \<Longrightarrow> below e = Some e' \<Longrightarrow> valid e'"
begin

text \<open>A walk never leaves the graph and decides membership.\<close>

lemma lookup_spells:
  assumes "pred_option valid e" and "i < len" and "len \<le> length buf"
  shows "lookup_via ewt fol acc e buf i len = Some (spells child below final e (take (len - i) (drop i buf)))"
  using assms
proof (induction "len - i" arbitrary: e i)
  case 0
  then show ?case by simp
next
  case (Suc k)
  have d: "take (len - i) (drop i buf) = buf ! i # take (len - Suc i) (drop (Suc i) buf)"
    using Suc.prems by (simp add: Cons_nth_drop_Suc[symmetric] Suc_diff_Suc[symmetric])
  show ?case
  proof (cases e)
    case (Some a)
    then have a: "valid a" using Suc.prems(1) by simp
    show ?thesis
    proof (cases "child a (buf ! i)")
      case (Some b)
      then have b: "valid b" by (rule child_valid[OF a])
      have nb: "pred_option valid (below b)" using below_valid[OF b] by (cases "below b") auto
      have "take (len - Suc i) (drop (Suc i) buf) = [] \<longleftrightarrow> Suc i = len" using Suc.prems by auto
      then show ?thesis
        using Suc(1)[of "Suc i" "below b"] Suc(2) Suc.prems nb Some \<open>e = Some a\<close>
        by (auto simp: d ewt[OF a] fol[OF b] acc[OF b])
    qed (use Suc.prems \<open>e = Some a\<close> in \<open>simp add: d ewt[OF a]\<close>)
  qed simp
qed

lemma check_spells:
  assumes "pred_option valid e" and "w \<noteq> []"
  shows "lookup_via ewt fol acc e w 0 (length w) = Some (spells child below final e w)"
  using lookup_spells[OF assms(1), of 0 "length w" w] assms(2) by simp

text \<open>Words under one tile are the words of the array that its edge leads to.\<close>

lemma spells_step:
  "w \<noteq> [] \<Longrightarrow> spells child below final (Some e) (t # w) =
     spells child below final (Option.bind (child e t) below) w"
  by (cases "child e t") auto

end

section \<open>The graph of a dictionary\<close>

definition dawg_ok :: "dictionaryCtxt \<Rightarrow> nat \<Rightarrow> bool" where
  "dawg_ok dict n \<longleftrightarrow> graph_layout dict n \<and> graph_closed dict n \<and>
     (\<forall>j < n. gindex dict j < n \<and> unat (gtile dict j) < nFaces dict)"

definition dawg_at :: "dictionaryCtxt \<Rightarrow> nat \<Rightarrow> nat \<Rightarrow> bool" where
  "dawg_at dict n e \<longleftrightarrow> dawg_ok dict n \<and> at_edge dict n e"

definition dawg_child :: "dictionaryCtxt \<Rightarrow> nat \<Rightarrow> nat \<Rightarrow> tile \<Rightarrow> nat option" where
  "dawg_child dict n e t =
     map_option (\<lambda>s. s * nodeSize dict) (find (\<lambda>s. gtile dict s = t) (node dict n (e div nodeSize dict)))"

definition dawg_below :: "dictionaryCtxt \<Rightarrow> nat \<Rightarrow> nat option" where
  "dawg_below dict e =
     (let i = gindex dict (e div nodeSize dict) in if i = 0 then None else Some (i * nodeSize dict))"

definition dawg_final :: "dictionaryCtxt \<Rightarrow> nat \<Rightarrow> bool" where
  "dawg_final dict e = gaccepting dict (e div nodeSize dict)"

text \<open>The words of a dictionary.\<close>

definition dict_word :: "dictionaryCtxt \<Rightarrow> nat \<Rightarrow> tile list \<Rightarrow> bool" where
  "dict_word dict n w = spells (dawg_child dict n) (dawg_below dict) (dawg_final dict) (topEdge dict) w"

lemma dawg_atE:
  assumes "dawg_at dict n e"
  obtains j where "graph_layout dict n" "graph_closed dict n" "j < n" "e = j * nodeSize dict"
    "e div nodeSize dict = j" "\<forall>j < n. gindex dict j < n"
  using assms graph_nodeSize[of dict n] by (fastforce simp: dawg_at_def dawg_ok_def at_edge_def)

interpretation dawg: word_graph "dict_super_edge_with_tile dict" "dict_super_follow dict" "ISACCEPTING dict"
    "dawg_at dict n" "dawg_child dict n" "dawg_below dict" "dawg_final dict" for dict n
proof (unfold_locales, goal_cases)
  case (1 e t)
  then show ?case by (rule dawg_atE) (simp add: edge_with_tile_graph dawg_child_def)
next
  case (2 e)
  then show ?case by (rule dawg_atE) (simp add: follow_graph dawg_below_def Let_def)
next
  case (3 e)
  then show ?case by (rule dawg_atE) (simp add: ISACCEPTING_graph dawg_final_def)
next
  case (4 e t e')
  from 4(1) obtain j where j: "j < n" "e div nodeSize dict = j" by (rule dawg_atE)
  from 4(2) obtain s where s: "find (\<lambda>s. gtile dict s = t) (node dict n j) = Some s" "e' = s * nodeSize dict"
    by (auto simp: dawg_child_def j)
  from s(1) have "s \<in> set (node dict n j)" by (metis find_Some_iff nth_mem)
  then have "s < n" using node_bounds j(1) by (meson less_imp_le_nat)
  then show ?case using 4(1) s(2) by (auto simp: dawg_at_def at_edge_def)
next
  case (5 e e')
  from 5(1) show ?case
    by (rule dawg_atE) (use 5 in \<open>auto simp: dawg_at_def at_edge_def dawg_below_def Let_def split: if_splits\<close>)
qed

text \<open>What a passed sanity check lacks to be safe is the mark on the last edge.\<close>

lemma sanity_dawg_ok:
  assumes "graph_layout dict n" and "checkSanity dict n = Some True" and "graph_closed dict n"
  shows "dawg_ok dict n"
  using checkSanity_graph[OF assms(1,2)] assms by (auto simp: dawg_ok_def sane_edge_def)

lemma dawg_child_in_order:
  assumes "graph_layout dict n" and "checkSanity dict n = Some True" and "j < n"
  shows "sorted (map (gtile dict) (node dict n j))"
  using node_sorted[of n dict j] checkSanity_graph[OF assms(1,2)] assms(3) by auto

lemma edge_from_tile_dawg:
  assumes "dawg_at dict n e"
  shows "edge_from_tile dict e t = Some (Option.bind (dawg_child dict n e t) (dawg_below dict))"
  using assms dawg.ewt[OF assms, of t] dawg.fol[OF dawg.child_valid[OF assms, of t]]
  by (auto simp: edge_from_tile_def split: option.splits)

section \<open>Properties\<close>

text \<open>A small dictionary with the words 0, 0 1 and 1: its four three-byte edges are the unused
  edge 0, the array of the top with tiles 0 and 1, and the array below with tile 1.\<close>

definition demo_dict :: dictionaryCtxt where
  "demo_dict = dict_calloc\<lparr>topEdge := Some 3, nFaces := 2, nodeSize := 3, numEdges := 4,
     base := Some [0, 0, 0x40, 0, 3, 0x80, 0, 0, 0xC1, 0, 0, 0xC1]\<rparr>"

lemma demo_dict_layout: "graph_layout demo_dict 4" "graph_closed demo_dict 4" "at_edge demo_dict 4 3"
  by (simp_all add: demo_dict_def dict_calloc_def graph_layout_def graph_closed_def glast_def gbyte_def
      at_edge_def bit_numeral_rec exI[of _ 1])

lemma demo_dict_sane: "checkSanity demo_dict 4 = Some True"
  by code_simp

text \<open>C15: A word graph that has passed \<open>checkSanity\<close> and whose last edge is marked last is safe
  to walk: looking for a tile from any edge ends, inside the array, at an edge or with none,
  and following an edge leads to an edge or to none. No walk reads outside the graph.\<close>

theorem dawg_walk_safe:
  assumes "graph_layout dict n" and "checkSanity dict n = Some True" and "graph_closed dict n"
    and "at_edge dict n e"
  shows "(\<exists>r. dict_super_edge_with_tile dict e t = Some r \<and> pred_option (at_edge dict n) r) \<and>
         (\<exists>r. dict_super_follow dict e = Some r \<and> pred_option (at_edge dict n) r)"
proof -
  have e: "dawg_at dict n e" using sanity_dawg_ok[OF assms(1-3)] assms(4) by (simp add: dawg_at_def)
  show ?thesis
    using dawg.ewt[OF e] dawg.fol[OF e] dawg.child_valid[OF e] dawg.below_valid[OF e]
    by (auto simp: dawg_at_def option.pred_set)
qed

theorem dawg_walk_safe_witness:
  "(\<exists>r. dict_super_edge_with_tile demo_dict 3 1 = Some r \<and> pred_option (at_edge demo_dict 4) r) \<and>
   (\<exists>r. dict_super_follow demo_dict 3 = Some r \<and> pred_option (at_edge demo_dict 4) r)"
  by (rule dawg_walk_safe[OF demo_dict_layout(1) demo_dict_sane demo_dict_layout(2,3)])

text \<open>C16: \<open>engine_check\<close>, by which the words of a move are judged, answers for every non-empty
  word, and exactly by whether its tiles lead along the arrays of the graph to an accepting
  edge.\<close>

theorem engine_check_words:
  assumes "graph_layout dict n" and "checkSanity dict n = Some True" and "graph_closed dict n"
    and "pred_option (at_edge dict n) (topEdge dict)" and "w \<noteq> []"
  shows "engine_check dict w = Some (dict_word dict n w)"
proof -
  have "pred_option (dawg_at dict n) (topEdge dict)"
    using sanity_dawg_ok[OF assms(1-3)] assms(4) by (auto simp: dawg_at_def option.pred_set)
  from dawg.check_spells[OF this assms(5)] show ?thesis
    by (simp add: engine_check_def lookup_tiles_def dict_super_getTopEdge_def dict_word_def)
qed

theorem engine_check_words_witness:
  "engine_check demo_dict [0, 1] = Some (dict_word demo_dict 4 [0, 1])"
  by (rule engine_check_words[OF demo_dict_layout(1) demo_dict_sane demo_dict_layout(2)])
    (simp_all add: demo_dict_layout, simp add: demo_dict_def demo_dict_layout(3)[unfolded demo_dict_def])

text \<open>What the loop of the check answers, from edge \<open>j\<close> on and with the tile before it.\<close>

lemma from_next:
  "(\<forall>i. j < i \<and> i < n \<longrightarrow> P i) \<longleftrightarrow> (Suc j < n \<longrightarrow> P (Suc j)) \<and> (\<forall>i. Suc j < i \<and> i < n \<longrightarrow> P i)" for n :: nat
proof -
  have "j < i \<longleftrightarrow> i = Suc j \<or> Suc j < i" for i by linarith
  then show ?thesis by auto
qed

lemma from_next2:
  "j < n \<Longrightarrow> (\<forall>i. j \<le> i \<and> i < n \<longrightarrow> P i) \<longleftrightarrow> P j \<and> (\<forall>i. Suc j \<le> i \<and> i < n \<longrightarrow> P i)" for n :: nat
proof -
  have "j \<le> i \<longleftrightarrow> i = j \<or> Suc j \<le> i" for i by linarith
  then show "j < n \<Longrightarrow> ?thesis" by auto
qed

lemma checkSanity_loop_decides:
  assumes "graph_layout dict n" and "j + k = n"
  shows "\<exists>b q. checkSanity_loop dict n k (j * nodeSize dict) p = Some (b, q) \<and>
    b = ((0 < k \<longrightarrow> p \<le> gtile dict j) \<and> (\<forall>i. j \<le> i \<and> i < n \<longrightarrow> sane_edge dict n i) \<and>
      (\<forall>i. j < i \<and> i < n \<and> \<not> glast dict (i - 1) \<longrightarrow> gtile dict (i - 1) \<le> gtile dict i)) \<and>
    (b \<longrightarrow> q = (if k = 0 then p else if glast dict (n - 1) then 0 else gtile dict (n - 1)))"
  using assms(2)
proof (induction k arbitrary: j p)
  case 0
  then show ?case by auto
next
  case (Suc k)
  then have j: "j < n" by simp
  from index_from_graph[OF assms(1) j] obtain w where
    w: "dict_super_index_from dict (j * nodeSize dict) = Some w" "unat w = gindex dict j" by blast
  let ?p = "if glast dict j then 0 else gtile dict j"
  obtain b q where IH: "checkSanity_loop dict n k (Suc j * nodeSize dict) ?p = Some (b, q)"
    "b = ((0 < k \<longrightarrow> ?p \<le> gtile dict (Suc j)) \<and> (\<forall>i. Suc j \<le> i \<and> i < n \<longrightarrow> sane_edge dict n i) \<and>
      (\<forall>i. Suc j < i \<and> i < n \<and> \<not> glast dict (i - 1) \<longrightarrow> gtile dict (i - 1) \<le> gtile dict i))"
    "b \<longrightarrow> q = (if k = 0 then ?p else if glast dict (n - 1) then 0 else gtile dict (n - 1))"
    using Suc.IH[of "Suc j" ?p] Suc.prems by auto
  have run: "checkSanity_loop dict n (Suc k) (j * nodeSize dict) p =
      (if gtile dict j < p \<or> nFaces dict \<le> unat (gtile dict j) then Some (False, p)
       else if n \<le> gindex dict j then Some (False, gtile dict j) else Some (b, q))"
    using w j assms(1) IH(1) by (simp add: EDGETILE_graph IS_LAST_EDGE_graph add.commute)
  have here: "sane_edge dict n j \<longleftrightarrow> gindex dict j < n \<and> unat (gtile dict j) < nFaces dict" by (simp add: sane_edge_def)
  have sane: "(\<forall>i. j \<le> i \<and> i < n \<longrightarrow> sane_edge dict n i) \<longleftrightarrow>
      sane_edge dict n j \<and> (\<forall>i. Suc j \<le> i \<and> i < n \<longrightarrow> sane_edge dict n i)"
    using j from_next2[of j n "sane_edge dict n"] by simp
  have order: "(\<forall>i. j < i \<and> i < n \<and> \<not> glast dict (i - 1) \<longrightarrow> gtile dict (i - 1) \<le> gtile dict i) \<longleftrightarrow>
      (0 < k \<longrightarrow> ?p \<le> gtile dict (Suc j)) \<and>
      (\<forall>i. Suc j < i \<and> i < n \<and> \<not> glast dict (i - 1) \<longrightarrow> gtile dict (i - 1) \<le> gtile dict i)" (is "?l \<longleftrightarrow> ?f \<and> ?r")
  proof -
    have "?f \<longleftrightarrow> (Suc j < n \<longrightarrow> \<not> glast dict j \<longrightarrow> gtile dict j \<le> gtile dict (Suc j))" using Suc.prems by auto
    then show ?thesis
      using from_next[of j n "\<lambda>i. \<not> glast dict (i - 1) \<longrightarrow> gtile dict (i - 1) \<le> gtile dict i"] by auto
  qed
  have q: "b \<longrightarrow> q = (if glast dict (n - 1) then 0 else gtile dict (n - 1))"
    using IH(3) Suc.prems by (cases "k = 0") auto
  show ?case unfolding run sane order here using IH(2) q
    by (intro exI[of _ "fst (if gtile dict j < p \<or> nFaces dict \<le> unat (gtile dict j) then (False, p)
          else if n \<le> gindex dict j then (False, gtile dict j) else (b, q))"]
        exI[of _ "snd (if gtile dict j < p \<or> nFaces dict \<le> unat (gtile dict j) then (False, p)
          else if n \<le> gindex dict j then (False, gtile dict j) else (b, q))"]) (auto simp: not_less not_le)
qed

text \<open>C37: What \<open>checkSanity\<close> decides of a graph with at least one edge: it always answers, and with
  yes exactly if every edge points into the graph and carries a tile of the dictionary, the tiles stand
  in order within each array, and the last edge is marked as the last of its array or carries tile 0.
  The last alternative is not meant: from such an edge that is not marked, the search for any other tile goes on
  with the bytes behind the graph.\<close>

theorem sanity_decides:
  assumes "graph_layout dict n" and "0 < n"
  shows "checkSanity dict n = Some ((\<forall>i<n. gindex dict i < n \<and> unat (gtile dict i) < nFaces dict) \<and>
      (\<forall>i. 0 < i \<and> i < n \<and> \<not> glast dict (i - 1) \<longrightarrow> gtile dict (i - 1) \<le> gtile dict i) \<and>
      (glast dict (n - 1) \<or> gtile dict (n - 1) = 0)) \<and>
    (\<not> glast dict (n - 1) \<longrightarrow> t \<noteq> gtile dict (n - 1) \<longrightarrow>
      dict_super_edge_with_tile dict ((n - 1) * nodeSize dict) t = dict_super_edge_with_tile dict (n * nodeSize dict) t)"
proof (intro conjI impI)
  obtain b q where l: "checkSanity_loop dict n n 0 0 = Some (b, q)"
    "b = ((\<forall>i. i < n \<longrightarrow> sane_edge dict n i) \<and>
      (\<forall>i. 0 < i \<and> i < n \<and> \<not> glast dict (i - 1) \<longrightarrow> gtile dict (i - 1) \<le> gtile dict i))"
    "b \<longrightarrow> q = (if glast dict (n - 1) then 0 else gtile dict (n - 1))"
    using checkSanity_loop_decides[OF assms(1), of 0 n 0] assms(2) by auto
  have "checkSanity dict n = Some (b \<and> q = 0)"
    using assms(1) l(1) by (auto simp: checkSanity_def graph_layout_def split: option.splits)
  also have "(b \<and> q = 0) \<longleftrightarrow> b \<and> (glast dict (n - 1) \<or> gtile dict (n - 1) = 0)" using l(3) by (auto split: if_splits)
  finally show "checkSanity dict n = Some ((\<forall>i<n. gindex dict i < n \<and> unat (gtile dict i) < nFaces dict) \<and>
      (\<forall>i. 0 < i \<and> i < n \<and> \<not> glast dict (i - 1) \<longrightarrow> gtile dict (i - 1) \<le> gtile dict i) \<and>
      (glast dict (n - 1) \<or> gtile dict (n - 1) = 0))"
    unfolding l(2) sane_edge_def by (simp add: conj_assoc)
next
  assume "\<not> glast dict (n - 1)" "t \<noteq> gtile dict (n - 1)"
  moreover have "(n - 1) * nodeSize dict + nodeSize dict = n * nodeSize dict" using assms(2) by (cases n) simp_all
  ultimately show "dict_super_edge_with_tile dict ((n - 1) * nodeSize dict) t = dict_super_edge_with_tile dict (n * nodeSize dict) t"
    using EDGETILE_graph[OF assms(1), of "n - 1"] IS_LAST_EDGE_graph[OF assms(1), of "n - 1"] assms(2)
    by (subst dict_super_edge_with_tile.simps) simp
qed

text \<open>A graph of one edge, which is not marked as the last and carries tile 0.\<close>

definition open_dict :: dictionaryCtxt where
  "open_dict = dict_calloc\<lparr>topEdge := Some 0, nFaces := 2, nodeSize := 3, numEdges := 1,
     base := Some [0, 0, 0x80]\<rparr>"

theorem sanity_decides_witness:
  "checkSanity open_dict 1 = Some True \<and> \<not> glast open_dict 0 \<and>
   dict_super_edge_with_tile open_dict 0 1 = dict_super_edge_with_tile open_dict 3 1"
proof -
  have d: "graph_layout open_dict 1" "\<not> glast open_dict 0" "gtile open_dict 0 = 0" "gindex open_dict 0 = 0"
      "nFaces open_dict = 2" "nodeSize open_dict = 3"
    by (simp_all add: open_dict_def dict_calloc_def graph_layout_def glast_def gtile_def gindex_def gbyte_def LETTERMASK_NEW_3_def)
  show ?thesis using sanity_decides[OF d(1), of 1] d by simp
qed

end
