(* ===== verification/Xw_DictFile.thy ===== *)
theory Xw_DictFile
  imports Xw_Words
begin

text \<open>
  Getting a dictionary from a file or from a stream: \<open>parseCommon\<close> and what it calls, the
  faces split the way \<open>linux/linuxdict.c\<close> does it, the set-up of the graph with its sanity
  check, and \<open>dict_writeToStream\<close> with \<open>dict_loadFromStream\<close>. The bytes of the file are a
  list, a pointer into it is an offset. The length of a UTF-8 character (GLib's
  \<open>g_utf8_offset_to_pointer\<close>) and the MD5 checksum are parameters.
\<close>

section \<open>Faces\<close>

text \<open>The synonyms of one face: characters up to the first one that no delimiter follows.
  \<open>skip\<close> is the length of the character at the front.\<close>

function splitFace_utf8 :: "(u8 list \<Rightarrow> nat) \<Rightarrow> u8 list \<Rightarrow> nat \<Rightarrow> u8 list \<Rightarrow> (nat \<times> u8 list) option" where
  "splitFace_utf8 skip bytes p next =
     (let len = skip (drop p bytes) in
      if p + len \<le> length bytes then
        let next = next @ take len (drop p bytes); p = p + len in
        if p \<ge> length bytes \<or> bytes ! p \<noteq> SYNONYM_DELIM then Some (p, next)
        else splitFace_utf8 skip bytes (p + 1) (next @ [0])
      else None)"
  by pat_completeness auto

termination
  by (relation "measure (\<lambda>(skip, bytes, p, next). length bytes - p)") auto

fun splitFaces_loop ::
    "(u8 list \<Rightarrow> nat) \<Rightarrow> bool \<Rightarrow> u8 list \<Rightarrow> nat \<Rightarrow> nat \<Rightarrow> nat \<Rightarrow> u8 list \<Rightarrow> nat list \<Rightarrow> (u8 list \<times> nat list) option" where
  "splitFaces_loop skip utf bytes room 0 p next ptrs = Some (next, ptrs)"
| "splitFaces_loop skip utf bytes room (Suc k) p next ptrs = do {
     let ptrs = ptrs @ [length next];
     (p, next) \<leftarrow> (if utf then splitFace_utf8 skip bytes p next
        else do {
          b \<leftarrow> mem_get p bytes;
          xp_assert (0 = b);
          c \<leftarrow> mem_get (p + 1) bytes;
          Some (p + 2, next @ [c])
        });
     xp_assert (length next < room);
     splitFaces_loop skip utf bytes room k p (next @ [0]) ptrs
   }"

text \<open>\<open>facesEnd\<close> is the end of what was allocated, which is more than what was filled in when the
  characters have two bytes.\<close>

definition dict_splitFaces :: "(u8 list \<Rightarrow> nat) \<Rightarrow> dictionaryCtxt \<Rightarrow> u8 list \<Rightarrow> nat \<Rightarrow> dictionaryCtxt option" where
  "dict_splitFaces skip dict utf8 n = do {
     (fs, ptrs) \<leftarrow> splitFaces_loop skip (isUTF8 dict) utf8 (length utf8 + n) n 0 [] [];
     xp_assert (faces dict = None);
     xp_assert (facePtrs dict = []);
     Some (dict\<lparr>faces := Some fs, facesEnd := n + length utf8, facePtrs := ptrs\<rparr>)
   }"

section \<open>Specials\<close>

text \<open>A bitmap is skipped. The result tells success and where the pointer is then.\<close>

definition makeBitmap :: "u8 list \<Rightarrow> nat \<Rightarrow> nat \<Rightarrow> (bool \<times> nat) option" where
  "makeBitmap mem ptr e =
     (if ptr + 1 > e then Some (False, ptr)
      else do {
        nCols \<leftarrow> mem_get ptr mem;
        let ptr = ptr + 1;
        if nCols > 0 then
          if ptr + 1 > e then Some (False, ptr)
          else do {
            nRows \<leftarrow> mem_get ptr mem;
            let ptr = ptr + 1;
            let n = (unat nRows * unat nCols + 7) div 8;
            if ptr + n > e then Some (False, ptr) else Some (True, ptr + n)
          }
        else Some (True, ptr)
      })"

text \<open>The delimiters of a text become ends of strings, up to the first 0 in it.\<close>

definition splitText :: "u8 list \<Rightarrow> u8 list" where
  "splitText text =
     map (\<lambda>c. if c = SYNONYM_DELIM then 0 else c) (takeWhile (\<lambda>c. c \<noteq> 0) text) @ dropWhile (\<lambda>c. c \<noteq> 0) text"

text \<open>The text and the two bitmaps of one special, whose index is \<open>c\<close>.\<close>

definition loadSpecial ::
    "u8 list \<Rightarrow> nat \<Rightarrow> nat \<Rightarrow> u8 \<Rightarrow> nat \<Rightarrow> u8 list option list \<Rightarrow> nat option list \<Rightarrow>
       (bool \<times> nat \<times> u8 list option list \<times> nat option list) option" where
  "loadSpecial mem e nSpecials c ptr texts ends =
     (if ptr + 1 > e then Some (False, ptr, texts, ends)
      else do {
        txtlen \<leftarrow> mem_get ptr mem;
        let ptr = ptr + 1;
        if ptr + unat txtlen > e then Some (False, ptr, texts, ends)
        else do {
          text \<leftarrow> mem_read ptr (unat txtlen) mem;
          texts \<leftarrow> mem_put (unat c) (Some (splitText (text @ [0]))) texts;
          ends \<leftarrow> mem_put (unat c) (Some (unat txtlen + 1)) ends;
          let ptr = ptr + unat txtlen;
          xp_assert (unat c < nSpecials);
          (ok, ptr) \<leftarrow> makeBitmap mem ptr e;
          if \<not> ok then Some (False, ptr, texts, ends)
          else do {
            (ok, ptr) \<leftarrow> makeBitmap mem ptr e;
            Some (ok, ptr, texts, ends)
          }
        }
      })"

fun loadSpecials_loop ::
    "dictionaryCtxt \<Rightarrow> u8 list \<Rightarrow> nat \<Rightarrow> nat \<Rightarrow> nat list \<Rightarrow> nat \<Rightarrow> u8 list option list \<Rightarrow> nat option list \<Rightarrow>
       (bool \<times> nat \<times> u8 list option list \<times> nat option list) option" where
  "loadSpecials_loop dict mem e nSpecials [] ptr texts ends = Some (True, ptr, texts, ends)"
| "loadSpecials_loop dict mem e nSpecials (i # is) ptr texts ends = do {
     p \<leftarrow> mem_get i (facePtrs dict);
     c \<leftarrow> face_byte dict p;
     (ok, ptr, texts, ends) \<leftarrow>
       (if IS_SPECIAL c then loadSpecial mem e nSpecials c ptr texts ends else Some (True, ptr, texts, ends));
     if ok then loadSpecials_loop dict mem e nSpecials is ptr texts ends else Some (False, ptr, texts, ends)
   }"

definition loadSpecialData :: "dictionaryCtxt \<Rightarrow> u8 list \<Rightarrow> nat \<Rightarrow> nat \<Rightarrow> (bool \<times> nat \<times> dictionaryCtxt) option" where
  "loadSpecialData dict mem ptr e = do {
     nSpecials \<leftarrow> countSpecials dict;
     (success, ptr, texts, ends) \<leftarrow>
       loadSpecials_loop dict mem e nSpecials [0..<nFaces dict] ptr
         (replicate nSpecials None) (replicate nSpecials None);
     Some (success, ptr, dict\<lparr>chars := texts, charEnds := ends\<rparr>)
   }"

section \<open>The header\<close>

text \<open>A big-endian 16- or 32-bit number of the file.\<close>

definition file_u16 :: "u8 list \<Rightarrow> nat \<Rightarrow> u16 option" where
  "file_u16 mem ptr = do { bs \<leftarrow> mem_read ptr 2 mem; Some (ntohs bs) }"

definition file_u32 :: "u8 list \<Rightarrow> nat \<Rightarrow> u32 option" where
  "file_u32 mem ptr = do { bs \<leftarrow> mem_read ptr 4 mem; Some (ntohl bs) }"

definition getNullTermParam :: "u8 list \<Rightarrow> nat \<Rightarrow> u16 \<Rightarrow> (u8 list \<times> nat \<times> u16) option" where
  "getNullTermParam mem ptr headerLen = do {
     s \<leftarrow> c_str_at ptr mem;
     let len = trunc16 (1 + length s);
     Some (s, ptr + len, headerLen - of_nat len)
   }"

definition headerParam :: "u8 list \<Rightarrow> nat \<Rightarrow> u16 \<Rightarrow> (cstring \<times> nat \<times> u16) option" where
  "headerParam mem ptr headerLen =
     (if 0 < headerLen then do {
        (s, ptr, headerLen) \<leftarrow> getNullTermParam mem ptr headerLen;
        Some (Some s, ptr, headerLen)
      } else Some (None, ptr, headerLen))"

definition DICT_HEADER_MASK :: u16 where "DICT_HEADER_MASK = 0x08"

text \<open>The format in the low bits of the flags: bytes of a node, bytes of a face, whether the
  faces are UTF-8, whether edges have four bytes; \<open>None\<close> for a format that is not known.\<close>

definition dict_format :: "u16 \<Rightarrow> (nat \<times> nat \<times> bool \<times> bool) option" where
  "dict_format flags =
     (let f = flags AND 0x0007 in
      if f = 1 then Some (3, 1, False, False)
      else if f = 2 then Some (3, 2, False, False)
      else if f = 3 then Some (4, 2, False, True)
      else if f = 4 then Some (3, 0, True, False)
      else if f = 5 then Some (4, 0, True, True)
      else None)"

definition parseHeader :: "dictionaryCtxt \<Rightarrow> u8 list \<Rightarrow> nat \<Rightarrow> (dictionaryCtxt \<times> nat) option" where
  "parseHeader dctx mem ptr = do {
     headerLen \<leftarrow> file_u16 mem ptr;
     let ptr = ptr + 2;
     wordCount \<leftarrow> file_u32 mem ptr;
     let ptr = ptr + 4;
     let headerLen = headerLen - 4;
     let dctx = dctx\<lparr>nWords := wordCount\<rparr>;
     (s, ptr, headerLen) \<leftarrow> headerParam mem ptr headerLen;
     let dctx = (if s = None then dctx else dctx\<lparr>desc := s\<rparr>);
     (s, ptr, headerLen) \<leftarrow> headerParam mem ptr headerLen;
     let dctx = (if s = None then dctx else dctx\<lparr>md5Sum := s\<rparr>);
     (flags, ptr, headerLen) \<leftarrow> (if 2 \<le> headerLen then do {
         f \<leftarrow> file_u16 mem ptr;
         Some (f, ptr + 2, headerLen - 2)
       } else Some (0, ptr, headerLen));
     Some (dctx\<lparr>headerFlags := flags\<rparr>, ptr + unat headerLen)
   }"

definition fillChecksum :: "(u8 list \<Rightarrow> u8 list) \<Rightarrow> dictionaryCtxt \<Rightarrow> u8 list \<Rightarrow> dictionaryCtxt" where
  "fillChecksum checksum dctx bytes =
     (if md5Sum dctx = None then dctx\<lparr>md5Sum := Some (checksum bytes)\<rparr> else dctx)"

definition parseFaces ::
    "(u8 list \<Rightarrow> nat) \<Rightarrow> (u8 list \<Rightarrow> u8 list) \<Rightarrow> dictionaryCtxt \<Rightarrow> nat \<Rightarrow> u8 list \<Rightarrow> nat \<Rightarrow> nat \<Rightarrow>
       (dictionaryCtxt \<times> nat) option" where
  "parseFaces skip checksum dctx charSize mem ptr e = do {
     (faceBytes, ptr) \<leftarrow> (if isUTF8 dctx then do { b \<leftarrow> mem_get ptr mem; Some (b, ptr + 1) } else Some (0, ptr));
     numFaces \<leftarrow> mem_get ptr mem;
     let ptr = ptr + 1;
     let faceBytes = (if isUTF8 dctx then faceBytes else numFaces * of_nat charSize);
     let dctx = fillChecksum checksum dctx (take (e - ptr) (drop ptr mem));
     let dctx = dctx\<lparr>nFaces := unat numFaces\<rparr>;
     tmp \<leftarrow> mem_read ptr (unat faceBytes) mem;
     let ptr = ptr + unat faceBytes;
     dctx \<leftarrow> dict_splitFaces skip dctx tmp (unat numFaces);
     xloc \<leftarrow> mem_read ptr 2 mem;
     let ptr = ptr + 2;
     cv \<leftarrow> mem_read ptr (unat numFaces * 2) mem;
     let ptr = ptr + unat numFaces * 2;
     Some (dctx\<lparr>countsAndValues := cv, langCode := xloc ! 0 AND 0x7F\<rparr>, ptr)
   }"

text \<open>The result tells whether the format is right; the pointer moves on only then.\<close>

definition parseCommon ::
    "(u8 list \<Rightarrow> nat) \<Rightarrow> (u8 list \<Rightarrow> u8 list) \<Rightarrow> dictionaryCtxt \<Rightarrow> u8 list \<Rightarrow> nat \<Rightarrow> nat \<Rightarrow>
       (bool \<times> dictionaryCtxt \<times> nat) option" where
  "parseCommon skip checksum dctx mem ptr0 e =
     (if ptr0 + 2 \<le> e then do {
        flags \<leftarrow> file_u16 mem ptr0;
        let ptr = ptr0 + 2;
        case dict_format flags of
          None \<Rightarrow> Some (False, dctx\<lparr>isUTF8 := False, nodeSize := 4\<rparr>, ptr0)
        | Some (nsize, charSize, utf, is4) \<Rightarrow> do {
            let dctx = dctx\<lparr>is_4_byte := is4, isUTF8 := utf, nodeSize := nsize\<rparr>;
            (dctx, ptr) \<leftarrow> (if 0 \<noteq> DICT_HEADER_MASK AND flags then parseHeader dctx mem ptr else Some (dctx, ptr));
            (dctx, ptr) \<leftarrow> parseFaces skip checksum dctx charSize mem ptr e;
            (ok, ptr, dctx) \<leftarrow> loadSpecialData dctx mem ptr e;
            if ok then do { xp_assert (ptr < e); Some (True, dctx, ptr) } else Some (False, dctx, ptr0)
          }
      } else Some (False, dctx, ptr0))"

text \<open>The part of \<open>initFromDictFile\<close> behind the reading of the file. \<open>topOffset\<close> is in bytes.\<close>

definition initGraph :: "dictionaryCtxt \<Rightarrow> u8 list \<Rightarrow> nat \<Rightarrow> cstring \<Rightarrow> (bool \<times> dictionaryCtxt) option" where
  "initGraph dctx mem ptr fileName = do {
     let dictLength = length mem - ptr;
     (topOffset, ptr, dictLength) \<leftarrow> (if dictLength > 0 then do {
         t \<leftarrow> file_u32 mem ptr;
         Some (unat t, ptr + 4, dictLength - 4)
       } else Some (0, ptr, dictLength));
     (dctx, n) \<leftarrow> (if dictLength > 0 then do {
         xp_assert (nodeSize dctx \<noteq> 0);
         let n = dictLength div nodeSize dctx;
         xp_assert (dictLength mod nodeSize dctx = 0);
         Some (dctx\<lparr>numEdges := n, base := Some (drop ptr mem), topEdge := Some topOffset\<rparr>, n)
       } else Some (dctx\<lparr>base := None, topEdge := None\<rparr>, 0));
     let dctx = dctx\<lparr>dname := fileName\<rparr>;
     passed \<leftarrow> checkSanity dctx n;
     Some (passed, dctx)
   }"

definition initFromDictFile ::
    "(u8 list \<Rightarrow> nat) \<Rightarrow> (u8 list \<Rightarrow> u8 list) \<Rightarrow> u8 list \<Rightarrow> cstring \<Rightarrow> (bool \<times> dictionaryCtxt) option" where
  "initFromDictFile skip checksum mem fileName =
     (if mem = [] then Some (False, dict_calloc)
      else do {
        (formatOk, dctx, ptr) \<leftarrow> parseCommon skip checksum dict_calloc mem 0 (length mem);
        if formatOk then initGraph dctx mem ptr fileName else Some (False, dctx)
      })"

section \<open>Streams\<close>

text \<open>The faces run together in a buffer of 64 bytes; a special is its index.\<close>

definition ucharsToNarrow :: "dictionaryCtxt \<Rightarrow> nat \<Rightarrow> u8 list option" where
  "ucharsToNarrow dict bufsize = ofold (\<lambda>buf i. do {
       p \<leftarrow> dict_getTileStringRaw dict (of_nat i);
       c \<leftarrow> face_byte dict p;
       buf \<leftarrow> (if IS_SPECIAL c then Some (buf @ [c])
               else do { s \<leftarrow> facePtr_str dict (InFaces p); Some (buf @ s) });
       xp_assert (length buf < bufsize);
       Some buf
     }) [] [0..<nFaces dict]"

definition countValue :: "dictionaryCtxt \<Rightarrow> nat \<Rightarrow> (u8 \<times> u8) option" where
  "countValue dict i = do {
     c \<leftarrow> mem_get (2 * i) (countsAndValues dict);
     v \<leftarrow> mem_get (2 * i + 1) (countsAndValues dict);
     Some (c, v)
   }"

definition maxCountValue :: "dictionaryCtxt \<Rightarrow> (nat \<times> nat) option" where
  "maxCountValue dict = ofold (\<lambda>(mc, mv) i. do {
       (c, v) \<leftarrow> countValue dict i;
       Some (max mc (unat c), max mv (unat v))
     }) (0, 0) [0..<nFaces dict]"

definition dict_writeToStream :: "dictionaryCtxt \<Rightarrow> mem_stream \<Rightarrow> mem_stream option" where
  "dict_writeToStream dict stream = do {
     stream \<leftarrow> mem_stream_putBits stream 6 (of_nat (nFaces dict));
     (maxCount, maxValue) \<leftarrow> maxCountValue dict;
     maxCountBits \<leftarrow> bitsForMax (of_nat maxCount);
     maxValueBits \<leftarrow> bitsForMax (of_nat maxValue);
     stream \<leftarrow> mem_stream_putBits stream 3 (of_nat maxCountBits);
     stream \<leftarrow> mem_stream_putBits stream 3 (of_nat maxValueBits);
     stream \<leftarrow> ofold (\<lambda>stream i. do {
         (c, v) \<leftarrow> countValue dict i;
         stream \<leftarrow> mem_stream_putBits stream maxCountBits (ucast c);
         mem_stream_putBits stream maxValueBits (ucast v)
       }) stream [0..<nFaces dict];
     buf \<leftarrow> ucharsToNarrow dict 64;
     stream \<leftarrow> mem_stream_putU8 stream (of_nat (length buf));
     stream \<leftarrow> mem_stream_putBytes stream buf;
     (_, stream) \<leftarrow> ofold (\<lambda>(nSpecials, stream) i. do {
         p \<leftarrow> dict_getTileStringRaw dict (of_nat i);
         c \<leftarrow> face_byte dict p;
         if IS_SPECIAL c then do {
           txt \<leftarrow> facePtr_str dict (InChars nSpecials 0);
           stream \<leftarrow> stringToStream stream (Some txt);
           Some (nSpecials + 1, stream)
         } else Some (nSpecials, stream)
       }) (0, stream) [0..<nFaces dict];
     Some stream
   }"

definition dict_loadFromStream ::
    "(u8 list \<Rightarrow> nat) \<Rightarrow> dictionaryCtxt \<Rightarrow> mem_stream \<Rightarrow> (dictionaryCtxt \<times> mem_stream) option" where
  "dict_loadFromStream skip dict stream = do {
     (n, stream) \<leftarrow> mem_stream_getBits stream 6;
     (maxCountBits, stream) \<leftarrow> mem_stream_getBits stream 3;
     (maxValueBits, stream) \<leftarrow> mem_stream_getBits stream 3;
     let n = unat n;
     (cvs, stream) \<leftarrow> getN n (\<lambda>stream. do {
         (c, stream) \<leftarrow> mem_stream_getBits stream (unat maxCountBits);
         (v, stream) \<leftarrow> mem_stream_getBits stream (unat maxValueBits);
         Some ([ucast c, ucast v], stream)
       }) stream;
     let dict = dict\<lparr>nFaces := n, countsAndValues := concat cvs\<rparr>;
     (nFaceBytes, stream) \<leftarrow> mem_stream_getU8 stream;
     xp_assert (unat nFaceBytes < MAX_UNIQUE_TILES);
     (utf8, stream) \<leftarrow> mem_stream_getBytes stream (unat nFaceBytes);
     dict \<leftarrow> dict_splitFaces skip (dict\<lparr>isUTF8 := True\<rparr>) utf8 n;
     (texts, stream) \<leftarrow> ofold (\<lambda>(texts, stream) i. do {
         p \<leftarrow> dict_getTileStringRaw dict (of_nat i);
         c \<leftarrow> face_byte dict p;
         if IS_SPECIAL c then do {
           (txt, stream) \<leftarrow> p_stringFromStream stream;
           txt \<leftarrow> txt;
           xp_assert (length texts < 32);
           Some (texts @ [Some (txt @ [0])], stream)
         } else Some (texts, stream)
       }) ([], stream) [0..<n];
     let dict = (if texts \<noteq> [] then dict\<lparr>chars := texts\<rparr> else dict);
     dict \<leftarrow> setBlankTile dict;
     Some (dict, stream)
   }"

section \<open>Bounds of the specials\<close>

lemma makeBitmap_bounds:
  assumes "ptr \<le> e" and "e \<le> length mem"
  shows "\<exists>ok ptr'. makeBitmap mem ptr e = Some (ok, ptr') \<and> ptr \<le> ptr' \<and> ptr' \<le> e"
  using assms by (auto simp: makeBitmap_def Let_def)

lemma loadSpecial_bounds:
  assumes "ptr \<le> e" and "e \<le> length mem" and "unat c < nS" and "length texts = nS" and "length ends = nS"
  shows "\<exists>ok ptr' texts' ends'. loadSpecial mem e nS c ptr texts ends = Some (ok, ptr', texts', ends') \<and>
     ptr \<le> ptr' \<and> ptr' \<le> e \<and> length texts' = nS \<and> length ends' = nS"
proof (cases "ptr + 1 > e")
  case False
  then have p: "ptr < length mem" using assms(1,2) by simp
  show ?thesis
  proof (cases "ptr + 1 + unat (mem ! ptr) > e")
    case True
    then show ?thesis using False p assms by (auto simp: loadSpecial_def)
  next
    case in_range: False
    let ?p = "ptr + 1 + unat (mem ! ptr)"
    from in_range have "?p \<le> e" by simp
    from makeBitmap_bounds[OF this assms(2)] obtain ok p2 where
      b: "makeBitmap mem ?p e = Some (ok, p2)" "?p \<le> p2" "p2 \<le> e" by blast
    from makeBitmap_bounds[OF b(3) assms(2)] obtain ok' p3 where
      b': "makeBitmap mem p2 e = Some (ok', p3)" "p2 \<le> p3" "p3 \<le> e" by blast
    show ?thesis using False p in_range assms b b'
      by (cases ok) (auto simp: loadSpecial_def)
  qed
qed (use assms in \<open>auto simp: loadSpecial_def\<close>)

text \<open>A dictionary whose faces can be read and whose specials carry indices below their number.\<close>

definition specials_ok :: "dictionaryCtxt \<Rightarrow> nat \<Rightarrow> bool" where
  "specials_ok dict nS \<longleftrightarrow> nFaces dict \<le> length (facePtrs dict) \<and> countSpecials dict = Some nS \<and>
     list_all (\<lambda>i. case face_byte dict (facePtrs dict ! i) of
         None \<Rightarrow> False | Some c \<Rightarrow> \<not> IS_SPECIAL c \<or> unat c < nS) [0..<nFaces dict]"

lemma loadSpecials_loop_bounds:
  assumes "specials_ok dict nS" and "set is \<subseteq> set [0..<nFaces dict]"
    and "ptr \<le> e" and "e \<le> length mem" and "length texts = nS" and "length ends = nS"
  shows "\<exists>ok ptr' texts' ends'. loadSpecials_loop dict mem e nS is ptr texts ends = Some (ok, ptr', texts', ends') \<and>
     ptr \<le> ptr' \<and> ptr' \<le> e \<and> length texts' = nS"
  using assms(2-)
proof (induction "is" arbitrary: ptr texts ends)
  case (Cons i "is")
  then have i: "i < nFaces dict" by simp
  then obtain c where c: "face_byte dict (facePtrs dict ! i) = Some c" "\<not> IS_SPECIAL c \<or> unat c < nS"
    and p: "mem_get i (facePtrs dict) = Some (facePtrs dict ! i)"
    using assms(1) by (force simp: specials_ok_def list_all_iff split: option.splits)
  obtain ok ptr1 texts1 ends1 where
    s: "(if IS_SPECIAL c then loadSpecial mem e nS c ptr texts ends else Some (True, ptr, texts, ends)) =
          Some (ok, ptr1, texts1, ends1)" "ptr \<le> ptr1" "ptr1 \<le> e" "length texts1 = nS" "length ends1 = nS"
  proof (cases "IS_SPECIAL c")
    case True
    then show ?thesis using that loadSpecial_bounds[OF Cons.prems(2,3) _ Cons.prems(4,5), of c] c(2) by auto
  next
    case False
    then show ?thesis using that[of True ptr texts ends] Cons.prems by simp
  qed
  have "\<exists>ok ptr' texts' ends'. loadSpecials_loop dict mem e nS is ptr1 texts1 ends1 = Some (ok, ptr', texts', ends') \<and>
     ptr1 \<le> ptr' \<and> ptr' \<le> e \<and> length texts' = nS"
    using Cons.IH[OF _ s(3) Cons.prems(3) s(4,5)] Cons.prems(1) by simp
  then obtain ok' ptr2 texts2 ends2 where
    r: "loadSpecials_loop dict mem e nS is ptr1 texts1 ends1 = Some (ok', ptr2, texts2, ends2)"
      "ptr1 \<le> ptr2" "ptr2 \<le> e" "length texts2 = nS"
    by blast
  show ?case using r s c p by (cases ok) auto
qed auto

section \<open>What a loaded graph satisfies\<close>

lemma fillChecksum_sel [simp]:
  "nodeSize (fillChecksum c d bs) = nodeSize d" "is_4_byte (fillChecksum c d bs) = is_4_byte d"
  "isUTF8 (fillChecksum c d bs) = isUTF8 d" "nFaces (fillChecksum c d bs) = nFaces d"
  by (simp_all add: fillChecksum_def)

lemma parseHeader_node:
  "parseHeader d mem p = Some (d', p') \<Longrightarrow> nodeSize d' = nodeSize d \<and> is_4_byte d' = is_4_byte d"
  unfolding parseHeader_def Let_def
  by (simp only: bind_Some_iff split_paired_Ex prod.case option.inject prod.inject, elim exE conjE, hypsubst) simp

lemma splitFaces_node:
  "dict_splitFaces skip d bs n = Some d' \<Longrightarrow> nodeSize d' = nodeSize d \<and> is_4_byte d' = is_4_byte d"
  by (auto simp: dict_splitFaces_def)

lemma parseFaces_node:
  "parseFaces skip checksum d cs mem p e = Some (d', p') \<Longrightarrow> nodeSize d' = nodeSize d \<and> is_4_byte d' = is_4_byte d"
  unfolding parseFaces_def Let_def
  by (simp only: bind_Some_iff split_paired_Ex prod.case option.inject prod.inject, elim exE conjE,
      drule splitFaces_node, hypsubst) simp

lemma loadSpecialData_node:
  "loadSpecialData d mem p e = Some (ok, p', d') \<Longrightarrow> nodeSize d' = nodeSize d \<and> is_4_byte d' = is_4_byte d"
  by (auto simp: loadSpecialData_def)

lemma dict_format_node:
  "dict_format flags = Some (nsize, cs, utf, is4) \<Longrightarrow> nsize = 3 \<and> \<not> is4 \<or> nsize = 4 \<and> is4"
  by (auto simp: dict_format_def Let_def split: if_splits)

lemma parseCommon_node:
  assumes "parseCommon skip checksum d mem p e = Some (True, d', p')"
  shows "nodeSize d' = 3 \<and> \<not> is_4_byte d' \<or> nodeSize d' = 4 \<and> is_4_byte d'"
proof -
  from assms obtain flags nsize cs utf is4 where f: "dict_format flags = Some (nsize, cs, utf, is4)"
    and r: "do { (dctx, ptr) \<leftarrow> (if 0 \<noteq> DICT_HEADER_MASK AND flags
                then parseHeader (d\<lparr>is_4_byte := is4, isUTF8 := utf, nodeSize := nsize\<rparr>) mem (Suc (Suc p))
                else Some (d\<lparr>is_4_byte := is4, isUTF8 := utf, nodeSize := nsize\<rparr>, Suc (Suc p)));
              (dctx, ptr) \<leftarrow> parseFaces skip checksum dctx cs mem ptr e;
              (ok, ptr, dctx) \<leftarrow> loadSpecialData dctx mem ptr e;
              if ok then do { xp_assert (ptr < e); Some (True, dctx, ptr) } else Some (False, dctx, p) } =
            Some (True, d', p')"
  proof -
    show ?thesis
    proof (cases "p + 2 \<le> e")
      case True
      with assms obtain flags where "file_u16 mem p = Some flags"
        by (auto simp: parseCommon_def simp del: bind_Some_iff split: Option.bind_splits)
      with assms True show ?thesis
        by (cases "dict_format flags") (auto simp: parseCommon_def Let_def intro: that simp del: bind_Some_iff)
    qed (use assms in \<open>simp add: parseCommon_def\<close>)
  qed
  from r obtain d1 p1 d2 p2 ok p3 where
    "(if 0 \<noteq> DICT_HEADER_MASK AND flags
        then parseHeader (d\<lparr>is_4_byte := is4, isUTF8 := utf, nodeSize := nsize\<rparr>) mem (Suc (Suc p))
        else Some (d\<lparr>is_4_byte := is4, isUTF8 := utf, nodeSize := nsize\<rparr>, Suc (Suc p))) = Some (d1, p1)"
    "parseFaces skip checksum d1 cs mem p1 e = Some (d2, p2)" "loadSpecialData d2 mem p2 e = Some (ok, p3, d')"
    by (simp only: bind_Some_iff split_paired_Ex prod.case) (auto split: if_splits)
  then show ?thesis
    using dict_format_node[OF f]
    by (auto dest!: parseHeader_node parseFaces_node loadSpecialData_node split: if_splits)
qed

lemma initGraph_layout:
  assumes "initGraph d mem p name = Some (True, d')" and "base d' \<noteq> None"
    and "nodeSize d = 3 \<and> \<not> is_4_byte d \<or> nodeSize d = 4 \<and> is_4_byte d"
  shows "graph_layout d' (numEdges d') \<and> checkSanity d' (numEdges d') = Some True \<and> 0 < numEdges d'"
proof (cases "length mem - p > 4")
  case True
  then obtain t where t: "file_u32 mem p = Some t" by (simp add: file_u32_def)
  define n where "n = (length mem - p - 4) div nodeSize d"
  define d1 where "d1 = d\<lparr>numEdges := n, base := Some (drop (p + 4) mem), topEdge := Some (unat t), dname := name\<rparr>"
  have ns: "nodeSize d \<noteq> 0" using assms(3) by auto
  have "initGraph d mem p name = do {
      xp_assert ((length mem - p - 4) mod nodeSize d = 0);
      passed \<leftarrow> checkSanity d1 n;
      Some (passed, d1) }"
    using True t ns less_diff_conv[of 4 "length mem" p]
    by (cases "(length mem - p - 4) mod nodeSize d = 0")
      (simp_all add: initGraph_def n_def d1_def Let_def xp_assert_def del: mod_0_imp_dvd)
  with assms(1) have d': "d' = d1" and c: "checkSanity d1 n = Some True"
    and m: "(length mem - p - 4) mod nodeSize d = 0" by (auto simp del: mod_0_imp_dvd)
  have len: "n * nodeSize d = length mem - p - 4" using m div_mult_mod_eq[of "length mem - p - 4" "nodeSize d"] unfolding n_def by linarith
  then have "0 < n" using True by (cases n) auto
  with len c d' assms(3) show ?thesis by (auto simp: graph_layout_def d1_def)
qed (use assms in \<open>auto simp: initGraph_def Let_def file_u32_def split: if_splits\<close>)

section \<open>Properties\<close>

text \<open>A file with the faces A and B and the words of \<open>demo_dict\<close>: flags 4, sizes of the faces,
  the faces, the language, counts and values, the offset of the top, the edges.\<close>

definition demo_file :: "u8 list" where
  "demo_file = [0, 4, 2, 2, 65, 66, 1, 0, 9, 1, 2, 3, 0, 0, 0, 3,
     0, 0, 0x40, 0, 3, 0x80, 0, 0, 0xC1, 0, 0, 0xC1]"

definition demo_loaded :: dictionaryCtxt where
  "demo_loaded = dict_calloc\<lparr>topEdge := Some 3, base := Some (drop 16 demo_file), dname := Some [100],
     faces := Some [65, 0, 66, 0], facesEnd := 4, md5Sum := Some [], facePtrs := [0, 2],
     countsAndValues := [9, 1, 2, 3], langCode := 1, nFaces := 2, nodeSize := 3, numEdges := 4, isUTF8 := True\<rparr>"

lemma demo_file_loaded:
  "initFromDictFile (\<lambda>_. 1) (\<lambda>_. []) demo_file (Some [100]) = Some (True, demo_loaded)"
  by code_simp

text \<open>C24: A dictionary file that is accepted gives a graph that lies in the file with the layout
  its format tells and has passed the sanity check; if its last edge is marked, every walk
  from an edge of it is safe.\<close>

theorem initFromDictFile_graph:
  assumes "initFromDictFile skip checksum mem fileName = Some (True, dict)" and "base dict \<noteq> None"
  shows "graph_layout dict (numEdges dict) \<and> checkSanity dict (numEdges dict) = Some True \<and>
         (graph_closed dict (numEdges dict) = dawg_ok dict (numEdges dict))"
proof -
  from assms(1) obtain d p where p: "parseCommon skip checksum dict_calloc mem 0 (length mem) = Some (True, d, p)"
    and g: "initGraph d mem p fileName = Some (True, dict)"
    by (auto simp: initFromDictFile_def split: if_splits)
  from initGraph_layout[OF g assms(2) parseCommon_node[OF p]] show ?thesis
    using sanity_dawg_ok[of dict] by (auto simp: dawg_ok_def)
qed

theorem initFromDictFile_graph_witness:
  "graph_layout demo_loaded (numEdges demo_loaded) \<and>
   checkSanity demo_loaded (numEdges demo_loaded) = Some True \<and>
   (graph_closed demo_loaded (numEdges demo_loaded) = dawg_ok demo_loaded (numEdges demo_loaded))"
  by (rule initFromDictFile_graph[OF demo_file_loaded]) (simp add: demo_loaded_def)

text \<open>C27: Reading the specials stays between the pointer it is given and the end of the file,
  whatever lengths the file gives for texts and bitmaps: it never reads outside, but reports a
  file that is too short.\<close>

theorem loadSpecialData_bounds:
  assumes "specials_ok dict nS" and "ptr \<le> e" and "e \<le> length mem"
  shows "\<exists>ok ptr' dict'. loadSpecialData dict mem ptr e = Some (ok, ptr', dict') \<and>
           ptr \<le> ptr' \<and> ptr' \<le> e \<and> length (chars dict') = nS"
  using loadSpecials_loop_bounds[OF assms(1) _ assms(2,3), of "[0..<nFaces dict]" "replicate nS None" "replicate nS None"]
    assms(1) by (auto simp: loadSpecialData_def specials_ok_def)

theorem loadSpecialData_bounds_witness:
  "\<exists>ok ptr' dict'. loadSpecialData face_dict [2, 81, 85, 0, 3, 9] 0 6 = Some (ok, ptr', dict') \<and>
     0 \<le> ptr' \<and> ptr' \<le> 6 \<and> length (chars dict') = 1"
  by (rule loadSpecialData_bounds) (code_simp, simp_all)

end
