(* ===== verification/Xw_GameInfo.thy ===== *)
theory Xw_GameInfo
  imports Xw_StrUtils
begin

text \<open>
  \<open>common/gameinfo.h\<close> and the functions on it in \<open>game.c\<close>: what the players agreed on before a
  game (\<open>CurGameInfo\<close>) and the players on it (\<open>LocalPlayer\<close>), how they are set up, copied and
  counted, the penalty for using too much time, and their form on a stream. Strings are
  \<open>cstring\<close>, \<open>None\<close> for the null pointer.
\<close>

section \<open>Stream versions\<close>

definition STREAM_VERS_DUPLICATE :: nat where "STREAM_VERS_DUPLICATE = 0x1B"
definition STREAM_VERS_DEVIDS :: nat where "STREAM_VERS_DEVIDS = 0x19"
definition STREAM_VERS_MULTIADDR :: nat where "STREAM_VERS_MULTIADDR = 0x18"
definition STREAM_VERS_MODELDIVIDER :: nat where "STREAM_VERS_MODELDIVIDER = 0x17"
definition STREAM_VERS_DICTNAME :: nat where "STREAM_VERS_DICTNAME = 0x15"
definition STREAM_VERS_BIGBOARD :: nat where "STREAM_VERS_BIGBOARD = 0x13"
definition STREAM_VERS_BLUETOOTH2 :: nat where "STREAM_VERS_BLUETOOTH2 = 0x12"
definition STREAM_SAVE_PREVWORDS :: nat where "STREAM_SAVE_PREVWORDS = 0x11"
definition STREAM_VERS_PLAYERDICTS :: nat where "STREAM_VERS_PLAYERDICTS = 0x0F"
definition STREAM_VERS_ROBOTIQ :: nat where "STREAM_VERS_ROBOTIQ = 0x0E"
definition STREAM_VERS_DICTLANG :: nat where "STREAM_VERS_DICTLANG = 0x0D"
definition STREAM_VERS_NUNDONE :: nat where "STREAM_VERS_NUNDONE = 0x0C"
definition STREAM_VERS_GAMESECONDS :: nat where "STREAM_VERS_GAMESECONDS = 0x0B"
definition STREAM_VERS_MODEL_NO_DICT :: nat where "STREAM_VERS_MODEL_NO_DICT = 0x06"
definition STREAM_VERS_BLUETOOTH :: nat where "STREAM_VERS_BLUETOOTH = 0x05"
definition STREAM_VERS_RELAY :: nat where "STREAM_VERS_RELAY = 0x03"
definition STREAM_VERS_41B4 :: nat where "STREAM_VERS_41B4 = 0x02"
definition CUR_STREAM_VERS :: nat where "CUR_STREAM_VERS = STREAM_VERS_DUPLICATE"

lemmas stream_versions = STREAM_VERS_DUPLICATE_def STREAM_VERS_DEVIDS_def STREAM_VERS_MULTIADDR_def
  STREAM_VERS_MODELDIVIDER_def STREAM_VERS_DICTNAME_def STREAM_VERS_BIGBOARD_def
  STREAM_VERS_BLUETOOTH2_def STREAM_SAVE_PREVWORDS_def STREAM_VERS_PLAYERDICTS_def
  STREAM_VERS_ROBOTIQ_def STREAM_VERS_DICTLANG_def STREAM_VERS_NUNDONE_def
  STREAM_VERS_GAMESECONDS_def STREAM_VERS_MODEL_NO_DICT_def STREAM_VERS_BLUETOOTH_def
  STREAM_VERS_RELAY_def STREAM_VERS_41B4_def CUR_STREAM_VERS_def

section \<open>State\<close>

text \<open>Signed 16-bit arithmetic: \<open>XP_S16\<close> values are integers, wrapped where they are stored.\<close>

definition s16 :: "int \<Rightarrow> int" where
  "s16 x = (x + 32768) mod 65536 - 32768"

lemma s16_id [simp]: "- 32768 \<le> x \<Longrightarrow> x < 32768 \<Longrightarrow> s16 x = x"
  by (simp add: s16_def)

definition SERVER_STANDALONE :: nat where "SERVER_STANDALONE = 0"
definition SERVER_ISSERVER :: nat where "SERVER_ISSERVER = 1"
definition SERVER_ISCLIENT :: nat where "SERVER_ISCLIENT = 2"

definition PHONIES_IGNORE :: nat where "PHONIES_IGNORE = 0"
definition PHONIES_WARN :: nat where "PHONIES_WARN = 1"
definition PHONIES_DISALLOW :: nat where "PHONIES_DISALLOW = 2"
definition PHONIES_BLOCK :: nat where "PHONIES_BLOCK = 3"

record localPlayer =
  lpName :: cstring
  password :: cstring
  lpDictName :: cstring
  secondsUsed :: u16
  isLocal :: bool
  robotIQ :: u8

record curGameInfo =
  giDictName :: cstring
  giPlayers :: "localPlayer list"
  gameID :: u32
  gameSeconds :: u16
  dictLang :: u8
  giNPlayers :: nat
  boardSize :: nat
  forceChannel :: nat
  serverRole :: nat
  hintsNotAllowed :: bool
  timerEnabled :: bool
  allowPickTiles :: bool
  allowHintRect :: bool
  giInDuplicateMode :: bool
  phoniesAction :: nat
  confirmBTConnect :: bool

definition LP_IS_ROBOT :: "localPlayer \<Rightarrow> bool" where
  "LP_IS_ROBOT lp \<longleftrightarrow> robotIQ lp \<noteq> 0"

definition LP_IS_LOCAL :: "localPlayer \<Rightarrow> bool" where
  "LP_IS_LOCAL lp \<longleftrightarrow> isLocal lp"

section \<open>Operations\<close>

text \<open>\<open>names ii\<close> is the text that the name template gives for player \<open>ii + 1\<close>; without a template
  the names are null.\<close>

definition gi_initPlayerInfo :: "(nat \<Rightarrow> u8 list) option \<Rightarrow> curGameInfo" where
  "gi_initPlayerInfo names =
     \<lparr>giDictName = None,
      giPlayers = map (\<lambda>ii. \<lparr>lpName = map_option (\<lambda>f. f ii) names, password = None, lpDictName = None,
                            secondsUsed = 0, isLocal = True, robotIQ = (if ii = 0 then 1 else 0)\<rparr>)
                     [0..<MAX_NUM_PLAYERS],
      gameID = 0, gameSeconds = 25 * 60, dictLang = 0, giNPlayers = 2, boardSize = 15,
      forceChannel = 0, serverRole = SERVER_STANDALONE, hintsNotAllowed = False, timerEnabled = False,
      allowPickTiles = False, allowHintRect = False, giInDuplicateMode = False,
      phoniesAction = PHONIES_IGNORE, confirmBTConnect = True\<rparr>"

definition disposePlayerInfoInt :: "curGameInfo \<Rightarrow> curGameInfo" where
  "disposePlayerInfoInt g =
     g\<lparr>giPlayers := map (\<lambda>lp. lp\<lparr>lpName := None, password := None, lpDictName := None\<rparr>) (giPlayers g)\<rparr>"

definition gi_disposePlayerInfo :: "curGameInfo \<Rightarrow> curGameInfo" where
  "gi_disposePlayerInfo g = (disposePlayerInfoInt g)\<lparr>giDictName := None\<rparr>"

text \<open>Neither the players' dictionaries nor two of the flags are copied.\<close>

definition copy_player :: "curGameInfo \<Rightarrow> curGameInfo \<Rightarrow> nat \<Rightarrow> curGameInfo option" where
  "copy_player srcGI destGI ii = do {
     srcPl \<leftarrow> mem_get ii (giPlayers srcGI);
     destPl \<leftarrow> mem_get ii (giPlayers destGI);
     ps \<leftarrow> mem_put ii (destPl\<lparr>lpName := p_replaceStringIfDifferent (lpName destPl) (lpName srcPl),
                             password := p_replaceStringIfDifferent (password destPl) (password srcPl),
                             secondsUsed := secondsUsed srcPl, robotIQ := robotIQ srcPl,
                             isLocal := isLocal srcPl\<rparr>) (giPlayers destGI);
     Some (destGI\<lparr>giPlayers := ps\<rparr>)
   }"

definition gi_copy :: "curGameInfo \<Rightarrow> curGameInfo \<Rightarrow> curGameInfo option" where
  "gi_copy destGI srcGI =
     ofold (copy_player srcGI)
       (destGI\<lparr>giDictName := p_replaceStringIfDifferent (giDictName destGI) (giDictName srcGI),
               dictLang := dictLang srcGI, gameID := gameID srcGI, gameSeconds := gameSeconds srcGI,
               giNPlayers := giNPlayers srcGI, boardSize := boardSize srcGI,
               serverRole := serverRole srcGI, hintsNotAllowed := hintsNotAllowed srcGI,
               timerEnabled := timerEnabled srcGI, phoniesAction := phoniesAction srcGI,
               allowPickTiles := allowPickTiles srcGI, forceChannel := forceChannel srcGI,
               giInDuplicateMode := giInDuplicateMode srcGI\<rparr>)
       [0..<giNPlayers srcGI]"

fun makeLocal_loop :: "nat \<Rightarrow> nat \<Rightarrow> localPlayer list \<Rightarrow> localPlayer list option" where
  "makeLocal_loop nHere curLocal [] = Some []"
| "makeLocal_loop nHere curLocal (lp # lps) =
     (if \<not> isLocal lp then do {
        xp_assert (curLocal + 1 \<le> nHere);
        if curLocal + 1 = nHere then Some (lp\<lparr>isLocal := True\<rparr> # lps)
        else do { lps \<leftarrow> makeLocal_loop nHere (curLocal + 1) lps; Some (lp\<lparr>isLocal := True\<rparr> # lps) }
      } else do { lps \<leftarrow> makeLocal_loop nHere curLocal lps; Some (lp # lps) })"

definition gi_setNPlayers :: "curGameInfo \<Rightarrow> nat \<Rightarrow> nat \<Rightarrow> curGameInfo option" where
  "gi_setNPlayers g nTotal nHere = do {
     xp_assert (nTotal \<le> MAX_NUM_PLAYERS);
     xp_assert (nHere < nTotal);
     lps \<leftarrow> mem_read 0 nTotal (giPlayers g);
     let curLocal = length (filter isLocal lps);
     lps \<leftarrow> (if nHere \<noteq> curLocal then makeLocal_loop nHere curLocal lps else Some lps);
     Some (g\<lparr>giNPlayers := nTotal, giPlayers := lps @ drop nTotal (giPlayers g)\<rparr>)
   }"

definition gi_countLocalPlayers :: "curGameInfo \<Rightarrow> bool \<Rightarrow> nat option" where
  "gi_countLocalPlayers g humanOnly = do {
     lps \<leftarrow> mem_read 0 (giNPlayers g) (giPlayers g);
     Some (length (filter (\<lambda>lp. isLocal lp \<and> \<not> (humanOnly \<and> LP_IS_ROBOT lp)) lps))
   }"

text \<open>\<open>name\<close> is what \<open>dict_getName\<close> gives.\<close>

definition gi_setDict :: "cstring \<Rightarrow> curGameInfo \<Rightarrow> curGameInfo option" where
  "gi_setDict name g = do {
     ps \<leftarrow> mem_read 0 (giNPlayers g) (giPlayers g);
     Some (g\<lparr>giDictName := p_replaceStringIfDifferent (giDictName g) name,
             giPlayers := map (\<lambda>lp. lp\<lparr>lpDictName := None\<rparr>) ps @ drop (giNPlayers g) (giPlayers g)\<rparr>)
   }"

definition player_hasPasswd :: "localPlayer \<Rightarrow> bool" where
  "player_hasPasswd player \<longleftrightarrow> (case password player of None \<Rightarrow> False | Some pw \<Rightarrow> pw \<noteq> [])"

definition player_passwordMatches :: "localPlayer \<Rightarrow> u8 list \<Rightarrow> bool option" where
  "player_passwordMatches player buf = do {
     xp_assert (isLocal player);
     pw \<leftarrow> password player;
     Some (pw = buf)
   }"

text \<open>Ten points for each minute over the player's share of the time, begun minutes counting.\<close>

definition player_timePenalty :: "curGameInfo \<Rightarrow> nat \<Rightarrow> nat option" where
  "player_timePenalty g pl = do {
     xp_assert (giNPlayers g \<noteq> 0);
     player \<leftarrow> mem_get pl (giPlayers g);
     let seconds = s16 (int (unat (gameSeconds g) div giNPlayers g));
     let seconds = s16 (seconds - int (unat (secondsUsed player)));
     Some (if seconds < 0
           then let seconds = s16 (s16 (- seconds) + 59)
                in nat ((sgn seconds * (\<bar>seconds\<bar> div 60) * 10) mod 65536)
           else 0)
   }"

text \<open>As long as the times fit in 16 signed bits, each minute begun over the share costs ten points.\<close>

lemma timePenalty_minutes:
  assumes "giNPlayers g \<noteq> 0" and "pl < length (giPlayers g)" and "unat (gameSeconds g) < 32768"
    and "unat (secondsUsed (giPlayers g ! pl)) < 32000"
  shows "player_timePenalty g pl =
     Some (10 * ((unat (secondsUsed (giPlayers g ! pl)) - unat (gameSeconds g) div giNPlayers g + 59) div 60))"
proof -
  define share where "share = unat (gameSeconds g) div giNPlayers g"
  define used where "used = unat (secondsUsed (giPlayers g ! pl))"
  have b: "share < 32768" "used < 32000"
    using assms(3,4) div_le_dividend[of "unat (gameSeconds g)" "giNPlayers g"] unfolding share_def used_def by linarith+
  define over where "over = s16 (s16 (int share) - int used)"
  have over: "over = int share - int used" using b by (simp add: over_def)
  have P: "player_timePenalty g pl = Some (if over < 0 then
      nat ((sgn (s16 (s16 (- over) + 59)) * (\<bar>s16 (s16 (- over) + 59)\<bar> div 60) * 10) mod 65536) else 0)"
    using assms(1,2) by (simp only: player_timePenalty_def Let_def xp_assert_True Option.bind.bind_lunit
        mem_get_ok share_def used_def over_def not_False_eq_True)
  show ?thesis
  proof (cases "share < used")
    case True
    then obtain d where d: "over = - int d" "0 < d" "d < 32000" "used - share = d"
      using b over by (metis add_diff_inverse_nat diff_le_self le_trans less_imp_le_nat minus_diff_eq
          not_less of_nat_diff zero_less_diff le_less_trans)
    have "s16 (s16 (int d) + 59) = int d + 59" using d by simp
    moreover have "(int d + 59) div 60 * 10 mod 65536 = (int d + 59) div 60 * 10"
      using d by (intro mod_pos_pos_trivial) (simp_all add: zdiv_int)
    moreover have "(int d + 59) div 60 = int ((d + 59) div 60)" by (simp add: zdiv_int)
    ultimately show ?thesis
      using d by (simp add: P nat_mult_distrib flip: share_def used_def)
  next
    case False
    then have "\<not> over < 0" "(used - share + 59) div 60 = 0" using over by simp_all
    then show ?thesis by (simp add: P flip: share_def used_def)
  qed
qed

section \<open>The stream format\<close>

definition getBool :: "mem_stream \<Rightarrow> (bool \<times> mem_stream) option" where
  "getBool stream = do { (b, stream) \<leftarrow> mem_stream_getBits stream 1; Some (b \<noteq> 0, stream) }"

definition putBool :: "mem_stream \<Rightarrow> bool \<Rightarrow> mem_stream option" where
  "putBool stream b = mem_stream_putBits stream 1 (of_bool b)"

definition getNat :: "nat \<Rightarrow> mem_stream \<Rightarrow> (nat \<times> mem_stream) option" where
  "getNat nBits stream = do { (v, stream) \<leftarrow> mem_stream_getBits stream nBits; Some (unat v, stream) }"

definition putNat :: "nat \<Rightarrow> mem_stream \<Rightarrow> nat \<Rightarrow> mem_stream option" where
  "putNat nBits stream n = mem_stream_putBits stream nBits (of_nat n)"

definition gi_colBits :: "nat \<Rightarrow> nat" where
  "gi_colBits strVersion = (if STREAM_VERS_BIGBOARD > strVersion then NUMCOLS_NBITS_4 else NUMCOLS_NBITS_5)"

definition readPlayer :: "nat \<Rightarrow> mem_stream \<Rightarrow> localPlayer \<Rightarrow> (localPlayer \<times> mem_stream) option" where
  "readPlayer strVersion stream pl = do {
     (str, stream) \<leftarrow> p_stringFromStream stream;
     let pl = pl\<lparr>lpName := p_replaceStringIfDifferent (lpName pl) str\<rparr>;
     (str, stream) \<leftarrow> p_stringFromStream stream;
     let pl = pl\<lparr>password := p_replaceStringIfDifferent (password pl) str\<rparr>;
     (pl, stream) \<leftarrow> (if strVersion \<ge> STREAM_VERS_PLAYERDICTS then do {
          (str, stream) \<leftarrow> p_stringFromStream stream;
          Some (pl\<lparr>lpDictName := p_replaceStringIfDifferent (lpDictName pl) str\<rparr>, stream)
        } else Some (pl, stream));
     (s, stream) \<leftarrow> mem_stream_getU16 stream;
     (iq, stream) \<leftarrow> (if strVersion < STREAM_VERS_ROBOTIQ
        then do { (v, stream) \<leftarrow> mem_stream_getBits stream 1; Some (ucast v, stream) }
        else mem_stream_getU8 stream);
     (l, stream) \<leftarrow> getBool stream;
     Some (pl\<lparr>secondsUsed := s, robotIQ := iq, isLocal := l\<rparr>, stream)
   }"

fun readPlayers :: "nat \<Rightarrow> mem_stream \<Rightarrow> nat \<Rightarrow> localPlayer list \<Rightarrow> (localPlayer list \<times> mem_stream) option" where
  "readPlayers strVersion stream 0 lps = Some (lps, stream)"
| "readPlayers strVersion stream (Suc n) [] = None"
| "readPlayers strVersion stream (Suc n) (lp # lps) = do {
     (lp, stream) \<leftarrow> readPlayer strVersion stream lp;
     (lps, stream) \<leftarrow> readPlayers strVersion stream n lps;
     Some (lp # lps, stream)
   }"

text \<open>The number of players is not checked against the array: with more than four the reader
  leaves it.\<close>

definition gi_readFlags :: "nat \<Rightarrow> mem_stream \<Rightarrow> curGameInfo \<Rightarrow> (curGameInfo \<times> mem_stream) option" where
  "gi_readFlags strVersion stream g = do {
     (h, stream) \<leftarrow> getBool stream;
     stream \<leftarrow> (if strVersion < STREAM_VERS_ROBOTIQ
               then do { (_, stream) \<leftarrow> mem_stream_getBits stream 2; Some stream } else Some stream);
     (ph, stream) \<leftarrow> getNat 2 stream;
     (te, stream) \<leftarrow> getBool stream;
     (dm, stream) \<leftarrow> (if strVersion \<ge> STREAM_VERS_DUPLICATE then getBool stream else Some (False, stream));
     (pt, stream) \<leftarrow> (if strVersion \<ge> STREAM_VERS_41B4 then getBool stream else Some (False, stream));
     (hr, stream) \<leftarrow> (if strVersion \<ge> STREAM_VERS_41B4 then getBool stream else Some (False, stream));
     (bt, stream) \<leftarrow> (if strVersion \<ge> STREAM_VERS_BLUETOOTH then getBool stream else Some (True, stream));
     (fc, stream) \<leftarrow> (if STREAM_VERS_MULTIADDR \<le> strVersion then getNat 2 stream
                      else Some (forceChannel g, stream));
     Some (g\<lparr>hintsNotAllowed := h, phoniesAction := ph, timerEnabled := te, giInDuplicateMode := dm,
             allowPickTiles := pt, allowHintRect := hr, confirmBTConnect := bt, forceChannel := fc\<rparr>,
           stream)
   }"

definition gi_readFromStream :: "mem_stream \<Rightarrow> curGameInfo \<Rightarrow> (curGameInfo \<times> mem_stream) option" where
  "gi_readFromStream stream g = do {
     let strVersion = mem_stream_getVersion stream;
     xp_assert (0 < strVersion);
     (str, stream) \<leftarrow> p_stringFromStream stream;
     let g = g\<lparr>giDictName := p_replaceStringIfDifferent (giDictName g) str\<rparr>;
     (np, stream) \<leftarrow> getNat NPLAYERS_NBITS stream;
     (bs, stream) \<leftarrow> getNat (gi_colBits strVersion) stream;
     (sr, stream) \<leftarrow> getNat 2 stream;
     let g = g\<lparr>giNPlayers := np, boardSize := bs, serverRole := sr\<rparr>;
     (g, stream) \<leftarrow> gi_readFlags strVersion stream g;
     (gid, stream) \<leftarrow> (if strVersion < STREAM_VERS_BLUETOOTH2
        then do { (v, stream) \<leftarrow> mem_stream_getU16 stream; Some (ucast v, stream) }
        else mem_stream_getU32 stream);
     (dl, stream) \<leftarrow> (if strVersion \<ge> STREAM_VERS_DICTLANG then mem_stream_getU8 stream else Some (0, stream));
     let g = g\<lparr>gameID := gid, dictLang := dl\<rparr>;
     (gs, stream) \<leftarrow> (if timerEnabled g \<or> strVersion \<ge> STREAM_VERS_GAMESECONDS
        then mem_stream_getU16 stream else Some (gameSeconds g, stream));
     let g = g\<lparr>gameSeconds := gs\<rparr>;
     (lps, stream) \<leftarrow> readPlayers strVersion stream (giNPlayers g) (giPlayers g);
     Some (g\<lparr>giPlayers := lps\<rparr>, stream)
   }"

definition writePlayer :: "mem_stream \<Rightarrow> localPlayer \<Rightarrow> mem_stream option" where
  "writePlayer stream pl = do {
     stream \<leftarrow> stringToStream stream (lpName pl);
     stream \<leftarrow> stringToStream stream (password pl);
     stream \<leftarrow> stringToStream stream (lpDictName pl);
     stream \<leftarrow> mem_stream_putU16 stream (secondsUsed pl);
     stream \<leftarrow> mem_stream_putU8 stream (robotIQ pl);
     putBool stream (isLocal pl)
   }"

definition gi_writeFlags :: "mem_stream \<Rightarrow> curGameInfo \<Rightarrow> mem_stream option" where
  "gi_writeFlags stream g = do {
     stream \<leftarrow> putBool stream (hintsNotAllowed g);
     stream \<leftarrow> putNat 2 stream (phoniesAction g);
     stream \<leftarrow> putBool stream (timerEnabled g);
     stream \<leftarrow> putBool stream (giInDuplicateMode g);
     stream \<leftarrow> putBool stream (allowPickTiles g);
     stream \<leftarrow> putBool stream (allowHintRect g);
     stream \<leftarrow> putBool stream (confirmBTConnect g);
     putNat 2 stream (forceChannel g)
   }"

definition gi_writeToStream :: "mem_stream \<Rightarrow> curGameInfo \<Rightarrow> mem_stream option" where
  "gi_writeToStream stream g = do {
     let strVersion = mem_stream_getVersion stream;
     xp_assert (STREAM_SAVE_PREVWORDS \<le> strVersion);
     stream \<leftarrow> stringToStream stream (giDictName g);
     stream \<leftarrow> putNat NPLAYERS_NBITS stream (giNPlayers g);
     stream \<leftarrow> putNat (gi_colBits strVersion) stream (boardSize g);
     stream \<leftarrow> putNat 2 stream (serverRole g);
     stream \<leftarrow> gi_writeFlags stream g;
     stream \<leftarrow> (if STREAM_VERS_BIGBOARD \<le> strVersion then mem_stream_putU32 stream (gameID g)
               else mem_stream_putU16 stream (ucast (gameID g)));
     stream \<leftarrow> mem_stream_putU8 stream (dictLang g);
     stream \<leftarrow> mem_stream_putU16 stream (gameSeconds g);
     lps \<leftarrow> mem_read 0 (giNPlayers g) (giPlayers g);
     ofold writePlayer stream lps
   }"
section \<open>What a stream gives back\<close>

interpretation giBool: stream_codec putBool getBool "\<lambda>b. True" "\<lambda>b. 1"
  using bool_codec by (simp add: putBool_def[abs_def] getBool_def[abs_def])

interpretation giNat: stream_codec "putNat n" "getNat n" "\<lambda>b. 0 < n \<and> n < 32 \<and> b < 2 ^ n" "\<lambda>b. (n + 7) div 8" for n
proof (cases "0 < n \<and> n < 32")
  case True
  then show "stream_codec (putNat n) (getNat n) (\<lambda>b. 0 < n \<and> n < 32 \<and> b < 2 ^ n) (\<lambda>b. (n + 7) div 8)"
    using nat_codec[of n] by (simp add: putNat_def[abs_def] getNat_def[abs_def])
next
  case False
  then show "stream_codec (putNat n) (getNat n) (\<lambda>b. 0 < n \<and> n < 32 \<and> b < 2 ^ n) (\<lambda>b. (n + 7) div 8)"
    by unfold_locales (auto simp: putNat_def intro: bits.put_extends)
qed

text \<open>The facts with which a record is read back field by field: each writer extends the stream,
  and each reader, standing where its field was written, passes over it.\<close>

lemmas put_wfs = giBool.put_wf giNat.put_wf str.put_wf u8.put_wf u16.put_wf u32.put_wf

lemmas put_steps = giBool.put_step giNat.put_step str.put_step u8.put_step u16.put_step u32.put_step

lemmas put_writess = giBool.put_writes giNat.put_writes str.put_writes u8.put_writes u16.put_writes u32.put_writes

definition player_ok :: "localPlayer \<Rightarrow> bool" where
  "player_ok lp \<longleftrightarrow> string_ok (lpName lp) \<and> string_ok (password lp) \<and> string_ok (lpDictName lp)"

definition gi_ok :: "curGameInfo \<Rightarrow> bool" where
  "gi_ok g \<longleftrightarrow> string_ok (giDictName g) \<and> giNPlayers g \<le> length (giPlayers g) \<and>
     length (giPlayers g) = MAX_NUM_PLAYERS \<and> boardSize g < 32 \<and> serverRole g < 4 \<and>
     phoniesAction g < 4 \<and> forceChannel g < 4 \<and> list_all player_ok (take (giNPlayers g) (giPlayers g))"

lemma replace_string [simp]: "p_replaceStringIfDifferent a b = b"
  by (auto simp: p_replaceStringIfDifferent_def p_copyString_def split: option.splits)

lemma writePlayer_steps:
  assumes "writePlayer s pl = Some s'"
  obtains s1 s2 s3 s4 s5 where "stringToStream s (lpName pl) = Some s1"
      "stringToStream s1 (password pl) = Some s2" "stringToStream s2 (lpDictName pl) = Some s3"
      "mem_stream_putU16 s3 (secondsUsed pl) = Some s4" "mem_stream_putU8 s4 (robotIQ pl) = Some s5"
      "putBool s5 (isLocal pl) = Some s'"
  using assms by (auto simp: writePlayer_def)

definition player_cost :: "localPlayer \<Rightarrow> nat" where
  "player_cost lp = cstring_len (lpName lp) + cstring_len (password lp) + cstring_len (lpDictName lp) + 7"

text \<open>A player survives, whatever was in the place it is read into.\<close>

interpretation giPlayer: stream_codec writePlayer "\<lambda>r. readPlayer (STREAM_VERS_PLAYERDICTS + v) r pl0"
    player_ok player_cost for v pl0
proof -
  let ?v = "STREAM_VERS_PLAYERDICTS + v"
  have E: "extends s s'" if "wf_stream s" "writePlayer s pl = Some s'" for s pl s'
  proof -
    from that(2) show "extends s s'"
      by (rule writePlayer_steps) ((rule put_steps, assumption)+, simp add: that(1))
  qed
  show "stream_codec writePlayer (\<lambda>r. readPlayer ?v r pl0) player_ok player_cost"
  proof (unfold_locales, goal_cases)
    case (1 s pl s')
    then show ?case by (rule E)
  next
    case (2 s pl)
    from 2 have ok: "string_ok (lpName pl)" "string_ok (password pl)" "string_ok (lpDictName pl)"
      by (simp_all add: player_ok_def)
    have "writes (writePlayer s pl) (nBytesWritten s + (1 + cstring_len (lpName pl)) + (1 + cstring_len (password pl))
        + (1 + cstring_len (lpDictName pl)) + 2 + 1 + 1)"
      unfolding writePlayer_def
      by (rule writes_bind put_writess ok TrueI 2 | assumption | rule order_refl
          | use 2(3) in \<open>simp add: player_cost_def\<close>)+
    then show ?case by (auto simp: writes_def player_cost_def)
  next
    case (3 s pl s' r)
    from 3(3) obtain s1 s2 s3 s4 s5 where w: "stringToStream s (lpName pl) = Some s1"
        "stringToStream s1 (password pl) = Some s2" "stringToStream s2 (lpDictName pl) = Some s3"
        "mem_stream_putU16 s3 (secondsUsed pl) = Some s4" "mem_stream_putU8 s4 (robotIQ pl) = Some s5"
        "putBool s5 (isLocal pl) = Some s'"
      by (rule writePlayer_steps)
    have e: "extends s s" using 3(1) by simp
    note e1 = str.put_step[OF w(1) e]
    note e2 = str.put_step[OF w(2) e1]
    note e3 = str.put_step[OF w(3) e2]
    note e4 = u16.put_step[OF w(4) e3]
    note e5 = u8.put_step[OF w(5) e4]
    have h: "held s s' r" using 3(4,6,7) giBool.put_step[OF w(6) e5] by (simp add: held_def extends_def)
    note h5 = giBool.held_back[OF w(6) h e5]
    note h4 = u8.held_back[OF w(5) h5 e4]
    note h3 = u16.held_back[OF w(4) h4 e3]
    note h2 = str.held_back[OF w(3) h3 e2]
    note h1 = str.held_back[OF w(2) h2 e1]
    have r: "r = set_rpos (wpos s) r" using 3(4,5) set_rpos_rpos by metis
    show ?case
      by (subst r) (use 3(2) str.get_held[OF w(1) h1 e] str.get_held[OF w(2) h2 e1] str.get_held[OF w(3) h3 e2]
        u16.get_held[OF w(4) h4 e3] u8.get_held[OF w(5) h5 e4] giBool.get_held[OF w(6) h e5]
        in \<open>simp add: readPlayer_def player_ok_def stream_versions\<close>)
  qed
qed
lemma readPlayers_held:
  assumes "ofold writePlayer s lps = Some s'" and "held s0 s' r" and "extends s0 s"
    and "list_all player_ok lps" and "length lps \<le> length lps0" and "STREAM_VERS_PLAYERDICTS \<le> v"
  shows "held s0 s r \<and> readPlayers v (set_rpos (wpos s) r) (length lps) lps0 =
           Some (lps @ drop (length lps) lps0, set_rpos (wpos s') r)"
  using assms
proof (induction lps arbitrary: s lps0)
  case (Cons lp lps)
  from Cons.prems(5) obtain lp0 lps1 where l: "lps0 = lp0 # lps1" by (cases lps0) auto
  from Cons.prems(1) obtain t where t: "writePlayer s lp = Some t" "ofold writePlayer t lps = Some s'"
    by (auto split: option.splits)
  have e: "extends s0 t" by (rule giPlayer.put_step[OF t(1) Cons.prems(3)])
  have IH: "held s0 t r" "readPlayers v (set_rpos (wpos t) r) (length lps) lps1 =
      Some (lps @ drop (length lps) lps1, set_rpos (wpos s') r)"
    using Cons.IH[OF t(2) Cons.prems(2) e] Cons.prems(4-6) by (simp_all add: l)
  obtain k where v: "v = STREAM_VERS_PLAYERDICTS + k" using Cons.prems(6) le_Suc_ex by blast
  have "readPlayer v (set_rpos (wpos s) r) lp0 = Some (lp, set_rpos (wpos t) r)"
    unfolding v by (rule giPlayer.get_held[OF t(1) IH(1) Cons.prems(3)]) (use Cons.prems(4) in simp)
  then show ?case using IH giPlayer.held_back[OF t(1) IH(1) Cons.prems(3)] by (simp add: l)
qed simp

lemma writePlayers_writes:
  assumes "list_all player_ok lps" and "wf_stream s" and "nBytesWritten s \<le> b"
    and "b + sum_list (map player_cost lps) \<le> STREAM_ROOM"
  shows "writes (ofold writePlayer s lps) (b + sum_list (map player_cost lps))"
  using assms
proof (induction lps arbitrary: s b)
  case Nil
  then show ?case by (simp add: writes_def)
next
  case (Cons lp lps)
  then obtain t where t: "writePlayer s lp = Some t" "wf_stream t" "nBytesWritten t \<le> b + player_cost lp"
    using giPlayer.put_writes[of lp s b] by (auto simp: writes_def)
  then show ?case using Cons.IH[OF _ t(2,3)] Cons.prems by (simp add: add.assoc)
qed

definition gi_cost :: "curGameInfo \<Rightarrow> nat" where
  "gi_cost g = cstring_len (giDictName g) + 25 + sum_list (map player_cost (take (giNPlayers g) (giPlayers g)))"

lemma gi_writes:
  assumes wf: "wf_stream s" and v: "mem_stream_getVersion s = CUR_STREAM_VERS" and ok: "gi_ok g"
    and room: "nBytesWritten s + gi_cost g \<le> STREAM_ROOM"
  shows "\<exists>s'. gi_writeToStream s g = Some s'"
proof -
  let ?lps = "take (giNPlayers g) (giPlayers g)"
  have o: "string_ok (giDictName g)" "(0::nat) < NPLAYERS_NBITS \<and> NPLAYERS_NBITS < 32 \<and> giNPlayers g < 2 ^ NPLAYERS_NBITS"
    "(0::nat) < NUMCOLS_NBITS_5 \<and> NUMCOLS_NBITS_5 < 32 \<and> boardSize g < 2 ^ NUMCOLS_NBITS_5"
    "(0::nat) < 2 \<and> (2::nat) < 32 \<and> serverRole g < 2 ^ 2" "(0::nat) < 2 \<and> (2::nat) < 32 \<and> phoniesAction g < 2 ^ 2"
    "(0::nat) < 2 \<and> (2::nat) < 32 \<and> forceChannel g < 2 ^ 2" "list_all player_ok ?lps"
    "mem_read 0 (giNPlayers g) (giPlayers g) = Some ?lps"
    using ok by (simp_all add: gi_ok_def xw_consts)
  let ?n = "nBytesWritten s + (1 + cstring_len (giDictName g)) + (NPLAYERS_NBITS + 7) div 8 + (NUMCOLS_NBITS_5 + 7) div 8
     + (2 + 7) div 8"
  have F: "writes (gi_writeFlags t g) (?n + 1 + (2 + 7) div 8 + 1 + 1 + 1 + 1 + 1 + (2 + 7) div 8)"
    if t: "wf_stream t" "nBytesWritten t \<le> ?n" for t
    unfolding gi_writeFlags_def
    by (rule writes_bind put_writess o TrueI t | assumption
        | use room in \<open>simp add: gi_cost_def xw_consts\<close>)+
  have "writes (gi_writeToStream s g) (?n + 1 + (2 + 7) div 8 + 1 + 1 + 1 + 1 + 1 + (2 + 7) div 8 + 4 + 1 + 2
      + sum_list (map player_cost ?lps))"
    unfolding gi_writeToStream_def Let_def v gi_colBits_def
    apply (simp only: stream_versions xp_assert_True Option.bind.bind_lunit if_True if_False o(8) order_refl
        less_irrefl numeral_le_iff numeral_less_iff semiring_norm)
    by (rule writes_bind F put_writess o TrueI wf writePlayers_writes | assumption | rule order_refl
        | use room in \<open>simp add: gi_cost_def xw_consts\<close>)+
  then show ?thesis by (auto simp: writes_def)
qed
lemma gi_flags_held:
  assumes w: "gi_writeFlags s g = Some s'" and h: "held s0 s' r" and e: "extends s0 s" and ok: "gi_ok g"
    and v: "v = CUR_STREAM_VERS"
  shows "held s0 s r" and "gi_readFlags v (set_rpos (wpos s) r) g0 =
      Some (g0\<lparr>hintsNotAllowed := hintsNotAllowed g, phoniesAction := phoniesAction g,
        timerEnabled := timerEnabled g, giInDuplicateMode := giInDuplicateMode g,
        allowPickTiles := allowPickTiles g, allowHintRect := allowHintRect g,
        confirmBTConnect := confirmBTConnect g, forceChannel := forceChannel g\<rparr>, set_rpos (wpos s') r)"
proof -
  from w obtain s1 s2 s3 s4 s5 s6 s7 where w: "putBool s (hintsNotAllowed g) = Some s1"
      "putNat 2 s1 (phoniesAction g) = Some s2" "putBool s2 (timerEnabled g) = Some s3"
      "putBool s3 (giInDuplicateMode g) = Some s4" "putBool s4 (allowPickTiles g) = Some s5"
      "putBool s5 (allowHintRect g) = Some s6" "putBool s6 (confirmBTConnect g) = Some s7"
      "putNat 2 s7 (forceChannel g) = Some s'"
    by (auto simp: gi_writeFlags_def)
  note e1 = giBool.put_step[OF w(1) e]
  note e2 = giNat.put_step[OF w(2) e1]
  note e3 = giBool.put_step[OF w(3) e2]
  note e4 = giBool.put_step[OF w(4) e3]
  note e5 = giBool.put_step[OF w(5) e4]
  note e6 = giBool.put_step[OF w(6) e5]
  note e7 = giBool.put_step[OF w(7) e6]
  note h7 = giNat.held_back[OF w(8) h e7]
  note h6 = giBool.held_back[OF w(7) h7 e6]
  note h5 = giBool.held_back[OF w(6) h6 e5]
  note h4 = giBool.held_back[OF w(5) h5 e4]
  note h3 = giBool.held_back[OF w(4) h4 e3]
  note h2 = giBool.held_back[OF w(3) h3 e2]
  note h1 = giNat.held_back[OF w(2) h2 e1]
  show "held s0 s r" by (rule giBool.held_back[OF w(1) h1 e])
  show "gi_readFlags v (set_rpos (wpos s) r) g0 =
      Some (g0\<lparr>hintsNotAllowed := hintsNotAllowed g, phoniesAction := phoniesAction g,
        timerEnabled := timerEnabled g, giInDuplicateMode := giInDuplicateMode g,
        allowPickTiles := allowPickTiles g, allowHintRect := allowHintRect g,
        confirmBTConnect := confirmBTConnect g, forceChannel := forceChannel g\<rparr>, set_rpos (wpos s') r)"
    using ok giBool.get_held[OF w(1) h1 e] giNat.get_held[OF w(2) h2 e1] giBool.get_held[OF w(3) h3 e2]
      giBool.get_held[OF w(4) h4 e3] giBool.get_held[OF w(5) h5 e4] giBool.get_held[OF w(6) h6 e5]
      giBool.get_held[OF w(7) h7 e6] giNat.get_held[OF w(8) h e7]
    by (simp add: gi_readFlags_def v stream_versions gi_ok_def)
qed

lemma gi_read_written:
  assumes wf: "wf_stream s" and pos: "rpos s = wpos s" and v: "mem_stream_getVersion s = CUR_STREAM_VERS"
    and ok: "gi_ok g" and w: "gi_writeToStream s g = Some s'" and l: "length (giPlayers g0) = MAX_NUM_PLAYERS"
  shows "gi_readFromStream s' g0 =
      Some (g\<lparr>giPlayers := take (giNPlayers g) (giPlayers g) @ drop (giNPlayers g) (giPlayers g0)\<rparr>,
            set_rpos (wpos s') s')"
proof -
  let ?lps = "take (giNPlayers g) (giPlayers g)"
  have lps: "giNPlayers g \<le> length (giPlayers g)" "length ?lps = giNPlayers g" "list_all player_ok ?lps"
    "length ?lps \<le> length (giPlayers g0)"
    using ok l by (simp_all add: gi_ok_def)
  from w obtain s1 s2 s3 s4 s5 s6 s7 s8 where w: "stringToStream s (giDictName g) = Some s1"
      "putNat NPLAYERS_NBITS s1 (giNPlayers g) = Some s2" "putNat NUMCOLS_NBITS_5 s2 (boardSize g) = Some s3"
      "putNat 2 s3 (serverRole g) = Some s4" "gi_writeFlags s4 g = Some s5"
      "mem_stream_putU32 s5 (gameID g) = Some s6" "mem_stream_putU8 s6 (dictLang g) = Some s7"
      "mem_stream_putU16 s7 (gameSeconds g) = Some s8" "ofold writePlayer s8 ?lps = Some s'"
    using lps(1) v by (auto simp: gi_writeToStream_def gi_colBits_def stream_versions)
  have e: "extends s s" using wf by simp
  note e1 = str.put_step[OF w(1) e]
  note e2 = giNat.put_step[OF w(2) e1]
  note e3 = giNat.put_step[OF w(3) e2]
  note e4 = giNat.put_step[OF w(4) e3]
  have "extends s4 s5"
    using w(5) unfolding gi_writeFlags_def bind_Some_iff
    by (elim exE conjE) ((rule put_steps, assumption)+, use e4 in \<open>simp add: extends_def\<close>)
  note e5 = extends_trans[OF e4 this]
  note e6 = u32.put_step[OF w(6) e5]
  note e7 = u8.put_step[OF w(7) e6]
  note e8 = u16.put_step[OF w(8) e7]
  have e9: "extends s s'"
    by (rule extends_trans[OF e8 ofold_extends[OF _ extends_wf[OF e8] w(9)]]) (rule giPlayer.put_extends)
  note h = held_same[OF e9]
  have "STREAM_VERS_PLAYERDICTS \<le> CUR_STREAM_VERS" by (simp add: stream_versions)
  note P = readPlayers_held[OF w(9) h e8 lps(3,4) this]
  note h7 = u16.held_back[OF w(8) conjunct1[OF P] e7]
  note h6 = u8.held_back[OF w(7) h7 e6]
  note h5 = u32.held_back[OF w(6) h6 e5]
  note F = gi_flags_held[OF w(5) h5 e4 ok refl]
  note h3 = giNat.held_back[OF w(4) F(1) e3]
  note h2 = giNat.held_back[OF w(3) h3 e2]
  note h1 = giNat.held_back[OF w(2) h2 e1]
  have r: "set_rpos (wpos s) s' = s'"
    using set_rpos_rpos[of s'] extends_rpos[OF e9] pos extends_wf[OF e9] by simp
  have v': "mem_stream_getVersion s' = CUR_STREAM_VERS" using v e9 by (simp add: extends_def mem_stream_getVersion_def)
  have o: "(0::nat) < NPLAYERS_NBITS \<and> NPLAYERS_NBITS < 32 \<and> giNPlayers g < 2 ^ NPLAYERS_NBITS"
    "(0::nat) < NUMCOLS_NBITS_5 \<and> NUMCOLS_NBITS_5 < 32 \<and> boardSize g < 2 ^ NUMCOLS_NBITS_5"
    "(0::nat) < 2 \<and> (2::nat) < 32 \<and> serverRole g < 2 ^ 2" "string_ok (giDictName g)"
    using ok by (simp_all add: gi_ok_def xw_consts)
  have R: "p_stringFromStream s' = Some (giDictName g, set_rpos (wpos s1) s')"
    using str.get_held[OF w(1) h1 e o(4)] r by simp
  have c: "gi_colBits CUR_STREAM_VERS = NUMCOLS_NBITS_5" "0 < CUR_STREAM_VERS"
    "STREAM_VERS_DICTLANG \<le> CUR_STREAM_VERS" "\<not> CUR_STREAM_VERS < STREAM_VERS_BLUETOOTH2"
    "STREAM_VERS_GAMESECONDS \<le> CUR_STREAM_VERS"
    by (simp_all add: gi_colBits_def stream_versions)
  show ?thesis
    unfolding gi_readFromStream_def Let_def v'
    using giNat.get_held[OF w(2) h2 e1 o(1)] giNat.get_held[OF w(3) h3 e2 o(2)] giNat.get_held[OF w(4) F(1) e3 o(3)]
      F(2) u32.get_held[OF w(6) h6 e5] u8.get_held[OF w(7) h7 e6] u16.get_held[OF w(8) conjunct1[OF P] e7]
      conjunct2[OF P] lps
    by (simp add: c R)
qed

text \<open>C25: What \<open>gi_writeToStream\<close> writes at the current stream version, \<open>gi_readFromStream\<close> reads
  back: with room in the buffer the writer succeeds, and reading into any \<open>CurGameInfo\<close> gives every
  field and every player of the original, leaves the unused players of the target, and stops
  exactly after the record.\<close>

theorem gi_roundtrip:
  assumes "wf_stream s" and "rpos s = wpos s" and "mem_stream_getVersion s = CUR_STREAM_VERS"
    and "gi_ok g" and "nBytesWritten s + gi_cost g \<le> STREAM_ROOM" and "length (giPlayers g0) = MAX_NUM_PLAYERS"
  shows "\<exists>s' t. gi_writeToStream s g = Some s' \<and>
     gi_readFromStream s' g0 =
       Some (g\<lparr>giPlayers := take (giNPlayers g) (giPlayers g) @ drop (giNPlayers g) (giPlayers g0)\<rparr>, t) \<and>
     rpos t = wpos s'"
proof -
  from gi_writes[OF assms(1,3,4,5)] obtain s' where s': "gi_writeToStream s g = Some s'" by blast
  show ?thesis using s' gi_read_written[OF assms(1-4) s' assms(6)] by simp
qed

theorem gi_roundtrip_witness:
  "\<exists>s' t. gi_writeToStream (mem_stream_make_raw\<lparr>sversion := CUR_STREAM_VERS\<rparr>) (gi_initPlayerInfo None) = Some s' \<and>
     gi_readFromStream s' (gi_initPlayerInfo None) =
       Some (gi_initPlayerInfo None\<lparr>giPlayers := take 2 (giPlayers (gi_initPlayerInfo None))
         @ drop 2 (giPlayers (gi_initPlayerInfo None))\<rparr>, t) \<and>
     rpos t = wpos s'"
proof -
  let ?s = "mem_stream_make_raw\<lparr>sversion := CUR_STREAM_VERS\<rparr>" and ?g = "gi_initPlayerInfo None"
  have s: "wf_stream ?s" "rpos ?s = wpos ?s" "mem_stream_getVersion ?s = CUR_STREAM_VERS"
    by (simp_all add: wf_stream_def wf_reader_def mem_stream_make_raw_def mem_stream_make_def rpos_def wpos_def
        bitpos_def mem_stream_getVersion_def)
  have g: "gi_ok ?g" "nBytesWritten ?s + gi_cost ?g \<le> STREAM_ROOM" "length (giPlayers ?g) = MAX_NUM_PLAYERS"
    by (simp_all add: gi_ok_def gi_initPlayerInfo_def string_ok_def player_ok_def xw_consts gi_cost_def
        player_cost_def cstring_len_def STREAM_ROOM_def mem_stream_make_raw_def mem_stream_make_def
        SERVER_STANDALONE_def PHONIES_IGNORE_def upt_rec)
  have n: "giNPlayers ?g = 2" by (simp add: gi_initPlayerInfo_def)
  show ?thesis using gi_roundtrip[OF s g] unfolding n .
qed

end
