(* ===== verification/Xw_Model.thy ===== *)
theory Xw_Model
  imports Xw_DictFile Xw_MoveStack Xw_Pool Xw_GameInfo
begin

text \<open>
  The game model of \<open>model.c\<close> up to a single turn: the board as an array of cells, the players
  with their trays, the tiles a player has put on the board without committing them, and the
  operations that move tiles between tray and board. Views that listen to the model
  (\<open>notifyBoardListeners\<close> and the like) are told of changes and do not take part in them; they
  are left out. The blank chosen by default when a player has still to be asked
  (\<open>model_askBlankTile\<close>) is the code's.
\<close>

section \<open>State\<close>

type_synonym cellTile = u16

record pendingTile =
  pcol :: nat
  prow :: nat
  ptile :: tile

record playerCtxt =
  pscore :: int
  curMoveScore :: int
  curMoveValid :: bool
  trayTiles :: trayTileSet
  nPending :: nat
  nUndone :: nat
  dividerLoc :: nat
  pendingTiles :: "pendingTile list"

definition BONUS_NONE :: nat where "BONUS_NONE = 0"
definition BONUS_DOUBLE_LETTER :: nat where "BONUS_DOUBLE_LETTER = 1"
definition BONUS_DOUBLE_WORD :: nat where "BONUS_DOUBLE_WORD = 2"
definition BONUS_TRIPLE_LETTER :: nat where "BONUS_TRIPLE_LETTER = 3"
definition BONUS_TRIPLE_WORD :: nat where "BONUS_TRIPLE_WORD = 4"

text \<open>\<open>loaner\<close> is the model that lends its bonus squares, seen as these squares. \<open>utilBonus\<close> is the
  platform's \<open>util_getSquareBonus\<close>: the bonus for a board size, column and row. A dictionary is
  the object its pointer points to, null as \<open>None\<close>.\<close>

record modelCtxt =
  gi :: curGameInfo
  mdict :: "dictionaryCtxt option"
  mdicts :: "dictionaryCtxt option list"
  mstack :: stackCtxt
  nTilesOnBoard :: nat
  cells :: "cellTile list"
  bonuses :: "nat list option"
  players :: "playerCtxt list"
  mNPlayers :: nat
  nCols :: nat
  nRows :: nat
  loaner :: "nat list option option"
  utilBonus :: "nat \<Rightarrow> nat \<Rightarrow> nat \<Rightarrow> nat"

definition TILE_EMPTY_BIT :: cellTile where "TILE_EMPTY_BIT = 0x0080"
definition EMPTY_TILE :: cellTile where "EMPTY_TILE = TILE_EMPTY_BIT"
definition TILE_PENDING_BIT :: cellTile where "TILE_PENDING_BIT = 0x0100"
definition PREV_MOVE_BIT :: cellTile where "PREV_MOVE_BIT = 0x200"
definition CELL_OWNER_OFFSET :: nat where "CELL_OWNER_OFFSET = 10"
definition CELL_VALUE_MASK :: cellTile where "CELL_VALUE_MASK = 0x003F"
definition MAX_NUM_BLANKS :: nat where "MAX_NUM_BLANKS = 4"
definition ILLEGAL_MOVE_SCORE :: int where "ILLEGAL_MOVE_SCORE = -1"

definition TILE_IS_EMPTY :: "cellTile \<Rightarrow> bool" where
  "TILE_IS_EMPTY t \<longleftrightarrow> t AND TILE_EMPTY_BIT \<noteq> 0"

definition IS_BLANK :: "tile \<Rightarrow> bool" where
  "IS_BLANK t \<longleftrightarrow> t AND TILE_BLANK_BIT \<noteq> 0"

definition CELL_IS_BLANK :: "cellTile \<Rightarrow> bool" where
  "CELL_IS_BLANK t \<longleftrightarrow> t AND ucast TILE_BLANK_BIT \<noteq> 0"

definition CELL_OWNER :: "cellTile \<Rightarrow> nat" where
  "CELL_OWNER t = unat (drop_bit CELL_OWNER_OFFSET (t AND push_bit CELL_OWNER_OFFSET 3))"

definition no_pending :: pendingTile where
  "no_pending = \<lparr>pcol = 0, prow = 0, ptile = 0\<rparr>"

definition no_player :: playerCtxt where
  "no_player = \<lparr>pscore = 0, curMoveScore = 0, curMoveValid = False, trayTiles = [], nPending = 0,
     nUndone = 0, dividerLoc = 0, pendingTiles = replicate MAX_TRAY_TILES no_pending\<rparr>"

definition upd_player :: "nat \<Rightarrow> (playerCtxt \<Rightarrow> playerCtxt) \<Rightarrow> modelCtxt \<Rightarrow> modelCtxt option" where
  "upd_player turn f model = do {
     player \<leftarrow> mem_get turn (players model);
     Some (model\<lparr>players := (players model)[turn := f player]\<rparr>)
   }"

definition model_numRows :: "modelCtxt \<Rightarrow> nat" where "model_numRows model = nRows model"
definition model_numCols :: "modelCtxt \<Rightarrow> nat" where "model_numCols model = nCols model"

section \<open>Dictionaries\<close>

definition model_getDictionary :: "modelCtxt \<Rightarrow> dictionaryCtxt option" where
  "model_getDictionary model =
     (case mdict model of Some d \<Rightarrow> Some d
      | None \<Rightarrow> (case filter (\<lambda>d. d \<noteq> None) (mdicts model) of [] \<Rightarrow> None | d # _ \<Rightarrow> d))"

definition model_getPlayerDict :: "modelCtxt \<Rightarrow> int \<Rightarrow> dictionaryCtxt option" where
  "model_getPlayerDict model pl =
     (let dict = (if 0 \<le> pl \<and> pl < int (length (mdicts model)) then mdicts model ! nat pl else None)
      in case dict of Some d \<Rightarrow> Some d | None \<Rightarrow> mdict model)"

definition blank_of :: "modelCtxt \<Rightarrow> tile option" where
  "blank_of model = do { d \<leftarrow> model_getDictionary model; dict_getBlankTile d }"

definition setStackBits :: "modelCtxt \<Rightarrow> dictionaryCtxt option \<Rightarrow> modelCtxt option" where
  "setStackBits model dict =
     (case dict of None \<Rightarrow> Some model
      | Some d \<Rightarrow> do {
          st \<leftarrow> stack_setBitsPerTile (mstack model) (if dict_numTileFaces d \<le> 32 then 5 else 6);
          Some (model\<lparr>mstack := st\<rparr>)
        })"

definition model_setDictionary :: "modelCtxt \<Rightarrow> dictionaryCtxt option \<Rightarrow> modelCtxt option" where
  "model_setDictionary model dict = setStackBits (model\<lparr>mdict := dict\<rparr>) dict"

text \<open>\<open>gameDict\<close> is read once, before the loop.\<close>

fun setPlayerDicts_loop ::
    "dictionaryCtxt option \<Rightarrow> modelCtxt \<Rightarrow> (nat \<times> dictionaryCtxt option) list \<Rightarrow> modelCtxt option" where
  "setPlayerDicts_loop gameDict model [] = Some model"
| "setPlayerDicts_loop gameDict model ((i, newDict) # ds) = do {
     oldDict \<leftarrow> mem_get i (mdicts model);
     model \<leftarrow> (if oldDict \<noteq> newDict then do {
         _ \<leftarrow> (case (newDict, gameDict) of
                 (Some n, Some g) \<Rightarrow> do { same \<leftarrow> dict_tilesAreSame g n; xp_assert same }
               | _ \<Rightarrow> Some ());
         setStackBits (model\<lparr>mdicts := (mdicts model)[i := newDict]\<rparr>) newDict
       } else Some model);
     setPlayerDicts_loop gameDict model ds
   }"

definition model_setPlayerDicts :: "modelCtxt \<Rightarrow> dictionaryCtxt option list option \<Rightarrow> modelCtxt option" where
  "model_setPlayerDicts model dicts =
     (case dicts of None \<Rightarrow> Some model
      | Some ds \<Rightarrow> setPlayerDicts_loop (model_getDictionary model) model (enumerate 0 ds))"

section \<open>Cells\<close>

definition setModelTileRaw :: "modelCtxt \<Rightarrow> nat \<Rightarrow> nat \<Rightarrow> cellTile \<Rightarrow> modelCtxt option" where
  "setModelTileRaw model col row t = do {
     xp_assert (col < nCols model);
     xp_assert (row < nRows model);
     cs \<leftarrow> mem_put (row * nCols model + col) t (cells model);
     Some (model\<lparr>cells := cs\<rparr>)
   }"

definition getModelTileRaw :: "modelCtxt \<Rightarrow> nat \<Rightarrow> nat \<Rightarrow> cellTile option" where
  "getModelTileRaw model col row = do {
     xp_assert (nRows model = nCols model);
     xp_assert (col < nCols model);
     xp_assert (row < nCols model);
     mem_get (row * nCols model + col) (cells model)
   }"

text \<open>The tile of the first pending tile of the player on a square, if there is one.\<close>

definition at_square :: "nat \<Rightarrow> nat \<Rightarrow> pendingTile \<Rightarrow> bool" where
  "at_square col row pt \<longleftrightarrow> pcol pt = col \<and> prow pt = row"

definition getPendingTileFor :: "modelCtxt \<Rightarrow> nat \<Rightarrow> nat \<Rightarrow> nat \<Rightarrow> cellTile option option" where
  "getPendingTileFor model turn col row = do {
     player \<leftarrow> mem_get turn (players model);
     pend \<leftarrow> mem_read 0 (nPending player) (pendingTiles player);
     case find (at_square col row) pend of
       None \<Rightarrow> Some None
     | Some pt \<Rightarrow> do {
         xp_assert (ucast (ptile pt) AND TILE_EMPTY_BIT = 0);
         Some (Some (ucast (ptile pt)))
       }
   }"

text \<open>Face, blank, pending and recent of what is on a square; \<open>None\<close> behind \<open>Some\<close> for an empty
  square.\<close>

definition model_getTile ::
    "modelCtxt \<Rightarrow> nat \<Rightarrow> nat \<Rightarrow> bool \<Rightarrow> nat \<Rightarrow> (tile \<times> bool \<times> bool \<times> bool) option option" where
  "model_getTile model col row getPending turn = do {
     cell \<leftarrow> getModelTileRaw model col row;
     (cell, pending) \<leftarrow>
       (if cell AND TILE_PENDING_BIT \<noteq> 0 then
          if getPending then do {
            found \<leftarrow> getPendingTileFor model turn col row;
            Some (case found of Some c \<Rightarrow> (c, True) | None \<Rightarrow> (EMPTY_TILE, False))
          } else Some (EMPTY_TILE, False)
        else Some (cell, False));
     Some (if cell AND TILE_EMPTY_BIT = 0
           then Some (ucast (cell AND CELL_VALUE_MASK), CELL_IS_BLANK cell, pending, cell AND PREV_MOVE_BIT \<noteq> 0)
           else None)
   }"

text \<open>The squares with blanks; the queue has room for four.\<close>

definition listPlacedBlanks_step ::
    "modelCtxt \<Rightarrow> nat \<Rightarrow> bool \<Rightarrow> (nat \<times> nat) list \<Rightarrow> nat \<times> nat \<Rightarrow> (nat \<times> nat) list option" where
  "listPlacedBlanks_step model turn includePending bs = (\<lambda>(col, row). do {
     cell \<leftarrow> getModelTileRaw model col row;
     found \<leftarrow> (if cell AND TILE_PENDING_BIT \<noteq> 0
               then if includePending then getPendingTileFor model turn col row else Some None
               else Some (Some cell));
     case found of
       None \<Rightarrow> Some bs
     | Some cell \<Rightarrow>
         if CELL_IS_BLANK cell then do {
           xp_assert (length bs < MAX_NUM_BLANKS);
           Some (bs @ [(col, row)])
         } else Some bs
   })"

definition model_listPlacedBlanks :: "modelCtxt \<Rightarrow> nat \<Rightarrow> bool \<Rightarrow> (nat \<times> nat) list option" where
  "model_listPlacedBlanks model turn includePending =
     ofold (listPlacedBlanks_step model turn includePending) []
       [(col, row). row \<leftarrow> [0..<nRows model], col \<leftarrow> [0..<nCols model]]"

text \<open>\<open>bl\<close> is the callback, given the owner, column and row; each cell is read when it is reached, so
  a callback that changes the model is seen by the rest of the loop.\<close>

definition foreachPrevCell_step ::
    "(nat \<Rightarrow> nat \<Rightarrow> nat \<Rightarrow> modelCtxt \<Rightarrow> modelCtxt option) \<Rightarrow> modelCtxt \<Rightarrow> nat \<times> nat \<Rightarrow> modelCtxt option" where
  "foreachPrevCell_step bl model = (\<lambda>(col, row). do {
     t \<leftarrow> getModelTileRaw model col row;
     if t AND PREV_MOVE_BIT \<noteq> 0 then bl (CELL_OWNER t) col row model else Some model
   })"

definition model_foreachPrevCell ::
    "(nat \<Rightarrow> nat \<Rightarrow> nat \<Rightarrow> modelCtxt \<Rightarrow> modelCtxt option) \<Rightarrow> modelCtxt \<Rightarrow> modelCtxt option" where
  "model_foreachPrevCell bl model =
     ofold (foreachPrevCell_step bl) model [(col, row). col \<leftarrow> [0..<nCols model], row \<leftarrow> [0..<nRows model]]"

definition clearAndNotify :: "nat \<Rightarrow> nat \<Rightarrow> nat \<Rightarrow> modelCtxt \<Rightarrow> modelCtxt option" where
  "clearAndNotify turn col row model = do {
     t \<leftarrow> getModelTileRaw model col row;
     setModelTileRaw model col row (t AND NOT PREV_MOVE_BIT)
   }"

definition clearLastMoveInfo :: "modelCtxt \<Rightarrow> modelCtxt option" where
  "clearLastMoveInfo model = model_foreachPrevCell clearAndNotify model"

definition model_foreachPendingCell ::
    "(nat \<Rightarrow> nat \<Rightarrow> nat \<Rightarrow> modelCtxt \<Rightarrow> modelCtxt option) \<Rightarrow> modelCtxt \<Rightarrow> nat \<Rightarrow> modelCtxt option" where
  "model_foreachPendingCell bl model turn = do {
     player \<leftarrow> mem_get turn (players model);
     pend \<leftarrow> mem_read 0 (nPending player) (pendingTiles player);
     ofold (\<lambda>model pt. bl turn (pcol pt) (prow pt) model) model pend
   }"

definition model_getCellOwner :: "modelCtxt \<Rightarrow> nat \<Rightarrow> nat \<Rightarrow> nat option" where
  "model_getCellOwner model col row = do { t \<leftarrow> getModelTileRaw model col row; Some (CELL_OWNER t) }"

section \<open>Setting up\<close>

text \<open>Every byte of the board is set to \<open>TILE_EMPTY_BIT\<close>, so an untouched cell is \<open>0x8080\<close>. The count of
  tiles on the board is among what is kept.\<close>

definition FRESH_CELL :: cellTile where "FRESH_CELL = 0x8080"

definition model_setSize :: "modelCtxt \<Rightarrow> stackCtxt option \<Rightarrow> nat \<Rightarrow> modelCtxt option" where
  "model_setSize model stack cols = do {
     xp_assert (MAX_COLS \<ge> cols);
     Some (model\<lparr>players := replicate MAX_NUM_PLAYERS no_player, mNPlayers := 0, nCols := cols, nRows := cols,
       loaner := None, cells := replicate (cols * cols) FRESH_CELL,
       mstack := (case stack of
                    Some st \<Rightarrow> stack_init st (giNPlayers (gi model)) (giInDuplicateMode (gi model))
                  | None \<Rightarrow> stack_make (giNPlayers (gi model)) (giInDuplicateMode (gi model)))\<rparr>)
   }"

text \<open>A model whose memory is all zero, before \<open>model_setSize\<close>; its stack is a null pointer, which
  \<open>model_setSize\<close> is told by its second argument.\<close>

definition model_zero :: "curGameInfo \<Rightarrow> (nat \<Rightarrow> nat \<Rightarrow> nat \<Rightarrow> nat) \<Rightarrow> modelCtxt" where
  "model_zero g ub =
     \<lparr>gi = g, mdict = None, mdicts = replicate MAX_NUM_PLAYERS None, mstack = stack_make 0 False,
      nTilesOnBoard = 0, cells = [], bonuses = None, players = replicate MAX_NUM_PLAYERS no_player,
      mNPlayers = 0, nCols = 0, nRows = 0, loaner = None, utilBonus = ub\<rparr>"

definition model_make ::
    "dictionaryCtxt option \<Rightarrow> dictionaryCtxt option list option \<Rightarrow> curGameInfo \<Rightarrow>
     (nat \<Rightarrow> nat \<Rightarrow> nat \<Rightarrow> nat) \<Rightarrow> nat \<Rightarrow> modelCtxt option" where
  "model_make dict dicts g ub cols = do {
     model \<leftarrow> model_setSize (model_zero g ub) None cols;
     model \<leftarrow> model_setDictionary model dict;
     model_setPlayerDicts model dicts
   }"

definition model_setNPlayers :: "modelCtxt \<Rightarrow> nat \<Rightarrow> modelCtxt" where
  "model_setNPlayers model n = model\<lparr>mNPlayers := n\<rparr>"

definition model_getNPlayers :: "modelCtxt \<Rightarrow> nat" where "model_getNPlayers model = mNPlayers model"

definition model_getHash :: "modelCtxt \<Rightarrow> u32 option" where
  "model_getHash model = stack_getHash (mstack model)"

definition model_hashMatches :: "modelCtxt \<Rightarrow> u32 \<Rightarrow> bool option" where
  "model_hashMatches model hash = do { h \<leftarrow> stack_getHash (mstack model); Some (hash = h) }"

section \<open>Bonus squares\<close>

definition model_setSquareBonuses :: "modelCtxt \<Rightarrow> nat list \<Rightarrow> modelCtxt option" where
  "model_setSquareBonuses model bs = do {
     let nc = (1 + nCols model) div 2;
     xp_assert (0 < nc);
     xp_assert (sum_list [1..<nc + 1] = length bs);
     Some (model\<lparr>bonuses := Some bs\<rparr>)
   }"

text \<open>The index in the table of one eighth of the board.\<close>

definition bonus_index :: "nat \<Rightarrow> nat \<Rightarrow> nat \<Rightarrow> nat" where
  "bonus_index nc col row =
     (let col = (if col > nc div 2 then sub16 (sub16 nc 1) col else col);
          row = (if row > nc div 2 then sub16 (sub16 nc 1) row else row);
          (col, row) = (if col > row then (row, col) else (col, row))
      in foldl (\<lambda>col ii. trunc16 (col + ii)) col [1..<row + 1])"

definition model_getSquareBonus :: "modelCtxt \<Rightarrow> nat \<Rightarrow> nat \<Rightarrow> nat" where
  "model_getSquareBonus model col row =
     (case (case loaner model of Some b \<Rightarrow> b | None \<Rightarrow> bonuses model) of
        Some bs \<Rightarrow> (let i = bonus_index (model_numCols model) col row
                   in if i < length bs then bs ! i else BONUS_NONE)
      | None \<Rightarrow> utilBonus model (model_numRows model) col row)"

section \<open>Trays\<close>

text \<open>Asserts that a turn is not negative are the type of \<open>turn\<close>. An index is an \<open>XP_S16\<close>, where
  -1 asks for the last tile, or for the place after it. The tiles of a tray beyond \<open>nTiles\<close> are not
  kept: a tile inserted beyond the place after the last, which would leave old values between, gives
  \<open>None\<close>.\<close>

definition tray_of :: "modelCtxt \<Rightarrow> nat \<Rightarrow> trayTileSet option" where
  "tray_of model turn = do { player \<leftarrow> mem_get turn (players model); Some (trayTiles player) }"

definition removePlayerTile :: "modelCtxt \<Rightarrow> nat \<Rightarrow> int \<Rightarrow> (tile \<times> modelCtxt) option" where
  "removePlayerTile model turn index = do {
     player \<leftarrow> mem_get turn (players model);
     xp_assert (index < int (length (trayTiles player)));
     xp_assert (0 \<le> index);
     t \<leftarrow> mem_get (nat index) (trayTiles player);
     model \<leftarrow> upd_player turn (trayTiles_update (del_at (nat index))) model;
     Some (t, model)
   }"

definition model_removePlayerTile :: "modelCtxt \<Rightarrow> nat \<Rightarrow> int \<Rightarrow> (tile \<times> modelCtxt) option" where
  "model_removePlayerTile model turn index = do {
     player \<leftarrow> mem_get turn (players model);
     removePlayerTile model turn (if index < 0 then int (length (trayTiles player)) - 1 else index)
   }"

definition addPlayerTile :: "modelCtxt \<Rightarrow> nat \<Rightarrow> int \<Rightarrow> tile \<Rightarrow> modelCtxt option" where
  "addPlayerTile model turn index t = do {
     player \<leftarrow> mem_get turn (players model);
     xp_assert (length (trayTiles player) < MAX_TRAY_TILES);
     xp_assert (index \<ge> 0);
     xp_assert (nat index \<le> length (trayTiles player));
     upd_player turn (trayTiles_update (ins_at (nat index) t)) model
   }"

definition model_addPlayerTile :: "modelCtxt \<Rightarrow> nat \<Rightarrow> int \<Rightarrow> tile \<Rightarrow> modelCtxt option" where
  "model_addPlayerTile model turn index t = do {
     player \<leftarrow> mem_get turn (players model);
     addPlayerTile model turn (if index < 0 then int (length (trayTiles player)) else index) t
   }"

definition model_removePlayerTiles :: "modelCtxt \<Rightarrow> nat \<Rightarrow> trayTileSet \<Rightarrow> modelCtxt option" where
  "model_removePlayerTiles model turn tiles = ofold (\<lambda>model t. do {
       tray \<leftarrow> tray_of model turn;
       index \<leftarrow> find (\<lambda>jj. t = tray ! jj) [0..<length tray];
       (_, model) \<leftarrow> model_removePlayerTile model turn (int index);
       Some model
     }) model tiles"

definition model_moveTileOnTray :: "modelCtxt \<Rightarrow> nat \<Rightarrow> int \<Rightarrow> int \<Rightarrow> modelCtxt option" where
  "model_moveTileOnTray model turn indexCur indexNew = do {
     (t, model) \<leftarrow> removePlayerTile model turn indexCur;
     addPlayerTile model turn indexNew t
   }"

definition model_getPlayerTile :: "modelCtxt \<Rightarrow> nat \<Rightarrow> int \<Rightarrow> tile option" where
  "model_getPlayerTile model turn index = do {
     tray \<leftarrow> tray_of model turn;
     let index = (if index < 0 then int (length tray) - 1 else index);
     xp_assert (0 \<le> index);
     mem_get (nat index) tray
   }"

definition model_getPlayerTiles :: "modelCtxt \<Rightarrow> nat \<Rightarrow> trayTileSet option" where
  "model_getPlayerTiles model turn = tray_of model turn"

text \<open>The highest place of a tile, so that tiles are not taken from below the divider; -1 if there is
  none.\<close>

definition setContains :: "trayTileSet \<Rightarrow> tile \<Rightarrow> int" where
  "setContains tiles t =
     (case find (\<lambda>ii. tiles ! ii = t) (rev [0..<length tiles]) of None \<Rightarrow> -1 | Some ii \<Rightarrow> int ii)"

definition model_trayContains :: "modelCtxt \<Rightarrow> nat \<Rightarrow> tile \<Rightarrow> int option" where
  "model_trayContains model turn t = do {
     xp_assert (turn < mNPlayers model);
     tiles \<leftarrow> model_getPlayerTiles model turn;
     Some (setContains tiles t)
   }"

definition model_getDividerLoc :: "modelCtxt \<Rightarrow> nat \<Rightarrow> nat option" where
  "model_getDividerLoc model turn = do { player \<leftarrow> mem_get turn (players model); Some (dividerLoc player) }"

definition model_setDividerLoc :: "modelCtxt \<Rightarrow> nat \<Rightarrow> nat \<Rightarrow> modelCtxt option" where
  "model_setDividerLoc model turn loc = do {
     xp_assert (loc < 0xFF);
     upd_player turn (dividerLoc_update (\<lambda>_. loc)) model
   }"

definition model_addNewTiles :: "modelCtxt \<Rightarrow> nat \<Rightarrow> trayTileSet \<Rightarrow> modelCtxt option" where
  "model_addNewTiles model turn tiles = ofold (\<lambda>model t. model_addPlayerTile model turn (-1) t) model tiles"

definition model_assignPlayerTiles :: "modelCtxt \<Rightarrow> nat \<Rightarrow> trayTileSet \<Rightarrow> modelCtxt option" where
  "model_assignPlayerTiles model turn tiles = do {
     xp_assert (turn = DUP_PLAYER \<or> \<not> giInDuplicateMode (gi model));
     sorted \<leftarrow> sortTiles tiles 0;
     st \<leftarrow> stack_addAssign (mstack model) turn sorted;
     model_addNewTiles (model\<lparr>mstack := st\<rparr>) turn sorted
   }"

text \<open>The tiles are taken off from the end, then put back sorted.\<close>

definition model_sortTiles :: "modelCtxt \<Rightarrow> nat \<Rightarrow> modelCtxt option" where
  "model_sortTiles model turn = do {
     loc \<leftarrow> model_getDividerLoc model turn;
     curTiles \<leftarrow> model_getPlayerTiles model turn;
     if length curTiles \<ge> loc then do {
       sorted \<leftarrow> sortTiles curTiles loc;
       model \<leftarrow> ofold (\<lambda>model i. do { (_, model) \<leftarrow> removePlayerTile model turn (int i); Some model }) model
                 (rev [0..<length sorted]);
       model_addNewTiles model turn sorted
     } else Some model
   }"

definition model_getNumTilesInTray :: "modelCtxt \<Rightarrow> nat \<Rightarrow> nat option" where
  "model_getNumTilesInTray model turn = do { tray \<leftarrow> tray_of model turn; Some (length tray) }"

definition model_getNumTilesTotal :: "modelCtxt \<Rightarrow> nat \<Rightarrow> nat option" where
  "model_getNumTilesTotal model turn = do {
     player \<leftarrow> mem_get turn (players model);
     Some (length (trayTiles player) + nPending player)
   }"

definition model_canShuffle :: "modelCtxt \<Rightarrow> nat \<Rightarrow> bool \<Rightarrow> bool option" where
  "model_canShuffle model turn trayVisible =
     (if trayVisible then do { tray \<leftarrow> model_getPlayerTiles model turn; Some (length tray > 1) } else Some False)"

definition model_canTogglePending :: "modelCtxt \<Rightarrow> nat \<Rightarrow> bool option" where
  "model_canTogglePending model turn = do {
     player \<leftarrow> mem_get turn (players model);
     Some (0 < nPending player \<or> 0 < nUndone player)
   }"

definition model_trayToStream :: "modelCtxt \<Rightarrow> nat \<Rightarrow> mem_stream \<Rightarrow> mem_stream option" where
  "model_trayToStream model turn stream = do { tray \<leftarrow> tray_of model turn; traySetToStream stream tray }"
section \<open>The table of bonus squares\<close>

definition tri :: "nat \<Rightarrow> nat" where
  "tri n = sum_list [1..<n + 1]"

lemma tri_Suc: "tri (Suc n) = tri n + Suc n"
  by (simp add: tri_def)

lemma tri_twice: "2 * tri n = n * (n + 1)"
  by (induction n) (simp_all add: tri_Suc, simp add: tri_def)

lemma tri_mono: "m \<le> n \<Longrightarrow> tri m \<le> tri n"
  by (induction n) (auto simp: tri_Suc le_Suc_eq)

lemma bonus_sum: "c + tri r < 65536 \<Longrightarrow> foldl (\<lambda>col ii. trunc16 (col + ii)) c [1..<r + 1] = c + tri r"
proof (induction r)
  case (Suc r)
  have "[1..<Suc r + 1] = [1..<r + 1] @ [Suc r]" by simp
  then show ?case using Suc by (simp add: tri_Suc)
qed (simp add: tri_def)

text \<open>The place of a coordinate on its half of an odd board.\<close>

definition fold_coord :: "nat \<Rightarrow> nat \<Rightarrow> nat" where
  "fold_coord n x = (if x > n div 2 then n - 1 - x else x)"

lemma bonus_index_eq:
  assumes "col < nc" "row < nc" "nc \<le> MAX_COLS"
  shows "bonus_index nc col row = min (fold_coord nc col) (fold_coord nc row) + tri (max (fold_coord nc col) (fold_coord nc row))"
proof -
  have s: "sub16 (sub16 nc 1) x = nc - 1 - x" if "x < nc" for x
    using that assms(3) by (simp add: MAX_COLS_def)
  define a where "a = fold_coord nc col"
  define b where "b = fold_coord nc row"
  have ab: "a < 32" "b < 32" using assms by (auto simp: a_def b_def fold_coord_def MAX_COLS_def)
  have t: "tri x \<le> 496" if "x < 32" for x
  proof -
    have "2 * tri x \<le> 31 * 32" unfolding tri_twice by (rule mult_le_mono) (use that in simp_all)
    then show ?thesis by simp
  qed
  have F: "foldl (\<lambda>col ii. trunc16 (col + ii)) x [1..<y + 1] = x + tri y" if "x < 32" "y < 32" for x y
    by (rule bonus_sum) (use t[OF that(2)] that(1) in linarith)
  have "bonus_index nc col row =
      (case (if a > b then (b, a) else (a, b)) of (x, y) \<Rightarrow> foldl (\<lambda>col ii. trunc16 (col + ii)) x [1..<y + 1])"
    by (simp only: bonus_index_def Let_def s[OF assms(1)] s[OF assms(2)] a_def b_def fold_coord_def)
  also have "\<dots> = min a b + tri (max a b)"
    by (cases "a > b") (simp_all only: if_True if_False prod.case F[OF ab] F[OF ab(2,1)] min_def max_def, simp_all)
  finally show ?thesis by (simp only: a_def b_def)
qed

lemma fold_mirror: "odd n \<Longrightarrow> x < n \<Longrightarrow> fold_coord n (n - 1 - x) = fold_coord n x"
  by (auto simp: fold_coord_def elim!: oddE)

lemma bonus_index_less:
  assumes "odd nc" "col < nc" "row < nc" "nc \<le> MAX_COLS"
  shows "bonus_index nc col row < tri ((1 + nc) div 2)"
proof -
  let ?a = "min (fold_coord nc col) (fold_coord nc row)" and ?b = "max (fold_coord nc col) (fold_coord nc row)"
  have "Suc ?b \<le> (1 + nc) div 2" using assms(1-3) by (auto simp: fold_coord_def elim!: oddE)
  then have "tri (Suc ?b) \<le> tri ((1 + nc) div 2)" by (rule tri_mono)
  moreover have "?a \<le> ?b" by simp
  ultimately show ?thesis unfolding bonus_index_eq[OF assms(2-4)] tri_Suc by linarith
qed

text \<open>C32: On a board of odd size whose bonus table was accepted by \<open>model_setSquareBonuses\<close>, every square
  gets an entry of the table, the lookup never runs past it, and the eight squares that are mirror
  images of each other get the same entry.\<close>

theorem square_bonus_symmetric:
  assumes "model_setSquareBonuses m0 bs = Some m" and "loaner m0 = None" and "odd (nCols m0)"
    and "nCols m0 \<le> MAX_COLS" and "col < nCols m0" and "row < nCols m0"
  shows "bonus_index (nCols m0) col row < length bs \<and>
     model_getSquareBonus m col row = bs ! bonus_index (nCols m0) col row \<and>
     model_getSquareBonus m row col = model_getSquareBonus m col row \<and>
     model_getSquareBonus m (nCols m0 - 1 - col) row = model_getSquareBonus m col row \<and>
     model_getSquareBonus m col (nCols m0 - 1 - row) = model_getSquareBonus m col row"
proof -
  have m: "m = m0\<lparr>bonuses := Some bs\<rparr>" "length bs = tri ((1 + nCols m0) div 2)"
    using assms(1) by (auto simp: model_setSquareBonuses_def Let_def tri_def simp del: upt_Suc)
  have l: "bonus_index (nCols m0) x y < length bs" if "x < nCols m0" "y < nCols m0" for x y
    using bonus_index_less[OF assms(3) that assms(4)] m(2) by simp
  have g: "model_getSquareBonus m x y = bs ! bonus_index (nCols m0) x y" if "x < nCols m0" "y < nCols m0" for x y
    using l[OF that] assms(2) by (simp add: model_getSquareBonus_def m(1) model_numCols_def Let_def)
  have n: "nCols m0 - 1 - col < nCols m0" "nCols m0 - 1 - row < nCols m0" using assms(5,6) by simp_all
  show ?thesis
    unfolding g[OF assms(5,6)] g[OF assms(6,5)] g[OF n(1) assms(6)] g[OF assms(5) n(2)]
      bonus_index_eq[OF assms(6,5,4)] bonus_index_eq[OF n(1) assms(6,4)] bonus_index_eq[OF assms(5) n(2) assms(4)]
      fold_mirror[OF assms(3,5)] fold_mirror[OF assms(3,6)]
    using l[OF assms(5,6)] unfolding bonus_index_eq[OF assms(5,6,4)] by (simp add: min.commute max.commute)
qed

definition small_bonus_model :: modelCtxt where
  "small_bonus_model = (model_zero (gi_initPlayerInfo None) (\<lambda>_ _ _. BONUS_NONE))\<lparr>nCols := 3, nRows := 3\<rparr>"

theorem square_bonus_symmetric_witness:
  "model_getSquareBonus (small_bonus_model\<lparr>bonuses := Some [4, 2, 3]\<rparr>) 2 0 =
   model_getSquareBonus (small_bonus_model\<lparr>bonuses := Some [4, 2, 3]\<rparr>) 0 0"
proof -
  have n: "nCols small_bonus_model = 3" "loaner small_bonus_model = None"
    by (simp_all add: small_bonus_model_def model_zero_def)
  have u: "xp_assert (0 < (1 + 3) div (2 :: nat)) = Some ()" "xp_assert (sum_list [1..<(1 + 3) div 2 + 1] = length [4, 2, 3 :: nat]) = Some ()"
    by (simp_all add: upt_rec)
  have s: "model_setSquareBonuses small_bonus_model [4, 2, 3] = Some (small_bonus_model\<lparr>bonuses := Some [4, 2, 3]\<rparr>)"
    by (simp only: model_setSquareBonuses_def n(1) Let_def u Option.bind.bind_lunit)
  have d: "loaner small_bonus_model = None" "odd (nCols small_bonus_model)" "nCols small_bonus_model \<le> MAX_COLS"
    "0 < nCols small_bonus_model" "nCols small_bonus_model - 1 - 0 = 2"
    by (simp_all add: n MAX_COLS_def)
  have "model_getSquareBonus (small_bonus_model\<lparr>bonuses := Some [4, 2, 3]\<rparr>) (nCols small_bonus_model - 1 - 0) 0 =
      model_getSquareBonus (small_bonus_model\<lparr>bonuses := Some [4, 2, 3]\<rparr>) 0 0"
    using square_bonus_symmetric[OF s d(1-3) d(4) d(4)] by (elim conjE)
  then show ?thesis unfolding d(5) .
qed

end
