(* ===== verification/Xw_Pending.thy ===== *)
theory Xw_Pending
  imports Xw_Model
begin

text \<open>
  The part of \<open>model.c\<close> that moves tiles between a player's tray and the board before they are
  committed. A cell with such tiles holds \<open>TILE_PENDING_BIT\<close> and the number of players who have put
  a tile there; which tile it is stands in each player's own list. Tiles taken back stay behind the
  list, so that they can be put on the board again.
\<close>

section \<open>Blanks\<close>

definition packTiles_step ::
    "dictionaryCtxt \<Rightarrow> poolContext option \<Rightarrow> bool \<Rightarrow> tile \<Rightarrow> (facePtr \<times> tile) list \<Rightarrow> nat \<Rightarrow>
     (facePtr \<times> tile) list option" where
  "packTiles_step dict pool includeBlank blankFace acc i = do {
     let t = (of_nat i :: tile);
     skip \<leftarrow> (if includeBlank then do {
               p \<leftarrow> pool;
               n \<leftarrow> pool_getNTilesLeftFor p t;
               Some (n = 0)
             } else Some (t = blankFace));
     if skip then Some acc
     else do { txt \<leftarrow> dict_getTileString dict t; Some (acc @ [(txt, t)]) }
   }"

text \<open>The faces on offer with their texts; \<open>room\<close> is the length of the caller's arrays.\<close>

definition model_packTilesUtil ::
    "modelCtxt \<Rightarrow> poolContext option \<Rightarrow> bool \<Rightarrow> nat \<Rightarrow> (facePtr \<times> tile) list option" where
  "model_packTilesUtil model pool includeBlank room = do {
     dict \<leftarrow> model_getDictionary model;
     let nf = dict_numTileFaces dict;
     blankFace \<leftarrow> dict_getBlankTile dict;
     xp_assert (nf \<le> room);
     ofold (packTiles_step dict pool includeBlank blankFace) [] [0..<nf]
   }"

text \<open>The user is asked for the face of the blank (\<open>util_notifyPickTileBlank\<close>); until the answer
  comes, by \<open>model_setBlankValue\<close>, it is the first face.\<close>

definition model_askBlankTile :: "modelCtxt \<Rightarrow> tile option" where
  "model_askBlankTile model = do {
     packed \<leftarrow> model_packTilesUtil model None False MAX_UNIQUE_TILES;
     (_, t) \<leftarrow> mem_get 0 packed;
     Some t
   }"

section \<open>Counts on the cells\<close>

definition incrPendingTileCountAt :: "modelCtxt \<Rightarrow> nat \<Rightarrow> nat \<Rightarrow> modelCtxt option" where
  "incrPendingTileCountAt model col row = do {
     val \<leftarrow> getModelTileRaw model col row;
     val \<leftarrow> (if TILE_IS_EMPTY val then Some 0
            else do {
              xp_assert (val AND TILE_PENDING_BIT \<noteq> 0);
              xp_assert (val AND CELL_VALUE_MASK > 0);
              Some val
            });
     let val = val + 1;
     xp_assert (val AND CELL_VALUE_MASK > 0 \<and> unat (val AND CELL_VALUE_MASK) \<le> MAX_NUM_PLAYERS);
     setModelTileRaw model col row (val OR TILE_PENDING_BIT)
   }"

definition decrPendingTileCountAt :: "modelCtxt \<Rightarrow> nat \<Rightarrow> nat \<Rightarrow> modelCtxt option" where
  "decrPendingTileCountAt model col row = do {
     val \<leftarrow> getModelTileRaw model col row;
     let val = val AND CELL_VALUE_MASK;
     xp_assert (unat val \<le> MAX_NUM_PLAYERS \<and> val > 0);
     let val = val - 1;
     setModelTileRaw model col row (if val > 0 then val OR TILE_PENDING_BIT else EMPTY_TILE)
   }"

definition setPendingCounts :: "modelCtxt \<Rightarrow> nat \<Rightarrow> modelCtxt option" where
  "setPendingCounts model turn = do {
     player \<leftarrow> mem_get turn (players model);
     pend \<leftarrow> mem_read 0 (nPending player) (pendingTiles player);
     ofold (\<lambda>model pt. incrPendingTileCountAt model (pcol pt) (prow pt)) model pend
   }"

definition invalidateScore :: "modelCtxt \<Rightarrow> nat \<Rightarrow> modelCtxt option" where
  "invalidateScore model turn = upd_player turn (curMoveValid_update (\<lambda>_. False)) model"

definition invalidateScores :: "modelCtxt \<Rightarrow> modelCtxt option" where
  "invalidateScores model = ofold invalidateScore model [0..<mNPlayers model]"

section \<open>From the tray to the board\<close>

definition tile_for_board :: "modelCtxt \<Rightarrow> tile \<Rightarrow> tile \<Rightarrow> tile option" where
  "tile_for_board model t blankFace = do {
     blank \<leftarrow> blank_of model;
     if t = blank then do {
       t \<leftarrow> (if ucast blankFace \<noteq> EMPTY_TILE then Some blankFace
            else do { b \<leftarrow> model_askBlankTile model; Some (TILE_BLANK_BIT OR b) });
       Some (t OR TILE_BLANK_BIT)
     } else Some t
   }"

definition add_pending :: "tile \<Rightarrow> nat \<Rightarrow> nat \<Rightarrow> playerCtxt \<Rightarrow> playerCtxt option" where
  "add_pending t col row player = do {
     let n = nPending player;
     let player = player\<lparr>nUndone := 0, nPending := n + 1\<rparr>;
     xp_assert (nPending player \<le> MAX_TRAY_TILES);
     ps \<leftarrow> mem_put n \<lparr>pcol = col mod 256, prow = row mod 256, ptile = t\<rparr> (pendingTiles player);
     Some (player\<lparr>pendingTiles := ps\<rparr>)
   }"

definition model_moveTrayToBoard ::
    "modelCtxt \<Rightarrow> nat \<Rightarrow> nat \<Rightarrow> nat \<Rightarrow> int \<Rightarrow> tile \<Rightarrow> modelCtxt option" where
  "model_moveTrayToBoard model turn col row tileIndex blankFace = do {
     (t, model) \<leftarrow> model_removePlayerTile model turn tileIndex;
     t \<leftarrow> tile_for_board model t blankFace;
     player \<leftarrow> mem_get turn (players model);
     player \<leftarrow> add_pending t col row player;
     model \<leftarrow> upd_player turn (\<lambda>_. player) model;
     model \<leftarrow> invalidateScore model turn;
     incrPendingTileCountAt model col row
   }"

text \<open>The first pending tile on the square; whether there is one is returned with the model.\<close>

definition model_setBlankValue :: "modelCtxt \<Rightarrow> nat \<Rightarrow> nat \<Rightarrow> nat \<Rightarrow> nat \<Rightarrow> (bool \<times> modelCtxt) option" where
  "model_setBlankValue model turn col row newIndex = do {
     player \<leftarrow> mem_get turn (players model);
     pend \<leftarrow> mem_read 0 (nPending player) (pendingTiles player);
     case find (\<lambda>ii. at_square col row (pend ! ii)) [0..<length pend] of
       None \<Rightarrow> Some (False, model)
     | Some ii \<Rightarrow> do {
         xp_assert (IS_BLANK (ptile (pend ! ii)));
         packed \<leftarrow> model_packTilesUtil model None False MAX_UNIQUE_TILES;
         (_, t) \<leftarrow> mem_get newIndex packed;
         model \<leftarrow> upd_player turn (pendingTiles_update (\<lambda>ps. ps[ii := (ps ! ii)\<lparr>ptile := t OR TILE_BLANK_BIT\<rparr>])) model;
         model \<leftarrow> invalidateScore model turn;
         Some (True, model)
       }
   }"

definition redo_pending ::
    "nat \<Rightarrow> nat \<times> modelCtxt \<Rightarrow> pendingTile \<Rightarrow> (nat \<times> modelCtxt) option" where
  "redo_pending turn = (\<lambda>(actualCnt, model) pt. do {
     t \<leftarrow> (if IS_BLANK (ptile pt) then blank_of model else Some (ptile pt));
     foundAt \<leftarrow> model_trayContains model turn t;
     xp_assert (foundAt \<ge> 0);
     there \<leftarrow> model_getTile model (pcol pt) (prow pt) False turn;
     case there of
       Some _ \<Rightarrow> Some (actualCnt, model)
     | None \<Rightarrow> do {
         model \<leftarrow> model_moveTrayToBoard model turn (pcol pt) (prow pt) foundAt (ptile pt AND NOT TILE_BLANK_BIT);
         Some (actualCnt + 1, model)
       }
   })"

definition model_redoPendingTiles :: "modelCtxt \<Rightarrow> nat \<Rightarrow> (bool \<times> modelCtxt) option" where
  "model_redoPendingTiles model turn = do {
     player \<leftarrow> mem_get turn (players model);
     if nUndone player > 0 then do {
       pend \<leftarrow> mem_read (nPending player) (nUndone player) (pendingTiles player);
       (actualCnt, model) \<leftarrow> ofold (redo_pending turn) (0, model) pend;
       Some (actualCnt > 0, model)
     } else Some (False, model)
   }"

section \<open>From the board to the tray\<close>

text \<open>The pending tile taken back moves behind the ones that stay.\<close>

definition drop_pending :: "nat \<Rightarrow> playerCtxt \<Rightarrow> playerCtxt option" where
  "drop_pending index player = do {
     let n = nPending player - 1;
     tmpPending \<leftarrow> mem_get index (pendingTiles player);
     xp_assert (n < length (pendingTiles player));
     let ps = foldl (\<lambda>ps ii. ps[ii := ps ! (ii + 1)]) (pendingTiles player) [index..<n];
     Some (player\<lparr>nPending := n, pendingTiles := ps[n := tmpPending], nUndone := (nUndone player + 1) mod 256\<rparr>)
   }"

text \<open>\<open>trayOffset\<close> is passed as \<open>XP_U16\<close> and used as \<open>XP_S16\<close>, so the callers' -1 is 65535 here.\<close>

definition NO_OFFSET :: nat where "NO_OFFSET = 65535"

definition model_moveBoardToTray :: "modelCtxt \<Rightarrow> nat \<Rightarrow> nat \<Rightarrow> nat \<Rightarrow> nat \<Rightarrow> modelCtxt option" where
  "model_moveBoardToTray model turn col row trayOffset = do {
     player \<leftarrow> mem_get turn (players model);
     pend \<leftarrow> mem_read 0 (nPending player) (pendingTiles player);
     case find (\<lambda>ii. at_square col row (pend ! ii)) [0..<length pend] of
       None \<Rightarrow> Some model
     | Some index \<Rightarrow> do {
         model \<leftarrow> decrPendingTileCountAt model col row;
         t \<leftarrow> (if IS_BLANK (ptile (pend ! index)) then blank_of model else Some (ptile (pend ! index)));
         model \<leftarrow> model_addPlayerTile model turn (s16 (int trayOffset)) t;
         player \<leftarrow> mem_get turn (players model);
         player \<leftarrow> drop_pending index player;
         model \<leftarrow> upd_player turn (\<lambda>_. player) model;
         invalidateScore model turn
       }
   }"

partial_function (option) model_resetCurrentTurn :: "modelCtxt \<Rightarrow> nat \<Rightarrow> modelCtxt option" where
  "model_resetCurrentTurn model whose = do {
     xp_assert (whose < mNPlayers model);
     player \<leftarrow> mem_get whose (players model);
     if nPending player > 0 then do {
       pt \<leftarrow> mem_get 0 (pendingTiles player);
       model \<leftarrow> model_moveBoardToTray model whose (pcol pt) (prow pt) NO_OFFSET;
       model_resetCurrentTurn model whose
     } else Some model
   }"

declare model_resetCurrentTurn.simps [code]

definition putBackOtherPlayersTiles :: "modelCtxt \<Rightarrow> nat \<Rightarrow> nat \<Rightarrow> nat \<Rightarrow> modelCtxt option" where
  "putBackOtherPlayersTiles model notMyTurn col row =
     ofold (\<lambda>model turn. if turn = notMyTurn then Some model
                         else model_moveBoardToTray model turn col row NO_OFFSET) model [0..<mNPlayers model]"

section \<open>The current move\<close>

text \<open>Index, face, column, row and whether it is a blank; a negative index asks for the last one.\<close>

definition model_getCurrentMoveTile ::
    "modelCtxt \<Rightarrow> nat \<Rightarrow> int \<Rightarrow> (int \<times> tile \<times> nat \<times> nat \<times> bool) option" where
  "model_getCurrentMoveTile model turn index = do {
     player \<leftarrow> mem_get turn (players model);
     xp_assert (index < int (nPending player));
     let index = (if index < 0 then int (nPending player) - 1 else index);
     xp_assert (0 \<le> index);
     pt \<leftarrow> mem_get (nat index) (pendingTiles player);
     Some (index, ptile pt AND TILE_VALUE_MASK, pcol pt, prow pt, ptile pt AND TILE_BLANK_BIT \<noteq> 0)
   }"

fun moveTileOnBoard_loop ::
    "modelCtxt \<Rightarrow> nat \<Rightarrow> nat \<Rightarrow> nat \<Rightarrow> nat \<Rightarrow> nat \<Rightarrow> nat \<Rightarrow> (bool \<times> modelCtxt) option" where
  "moveTileOnBoard_loop model turn colCur rowCur colNew rowNew 0 = Some (False, model)"
| "moveTileOnBoard_loop model turn colCur rowCur colNew rowNew (Suc index) = do {
     (_, _, tcol, trow, isBlank) \<leftarrow> model_getCurrentMoveTile model turn (int index);
     if colCur = tcol \<and> rowCur = trow then do {
       model \<leftarrow> upd_player turn (pendingTiles_update
                  (\<lambda>ps. ps[index := (ps ! index)\<lparr>pcol := colNew mod 256, prow := rowNew mod 256\<rparr>])) model;
       _ \<leftarrow> (if isBlank then model_askBlankTile model else Some 0);
       model \<leftarrow> decrPendingTileCountAt model colCur rowCur;
       model \<leftarrow> incrPendingTileCountAt model colNew rowNew;
       model \<leftarrow> invalidateScore model turn;
       Some (True, model)
     } else moveTileOnBoard_loop model turn colCur rowCur colNew rowNew index
   }"

definition model_moveTileOnBoard ::
    "modelCtxt \<Rightarrow> nat \<Rightarrow> nat \<Rightarrow> nat \<Rightarrow> nat \<Rightarrow> nat \<Rightarrow> (bool \<times> modelCtxt) option" where
  "model_moveTileOnBoard model turn colCur rowCur colNew rowNew = do {
     player \<leftarrow> mem_get turn (players model);
     moveTileOnBoard_loop model turn colCur rowCur colNew rowNew (nPending player)
   }"

definition model_getCurrentMoveCount :: "modelCtxt \<Rightarrow> nat \<Rightarrow> nat option" where
  "model_getCurrentMoveCount model turn = do { player \<leftarrow> mem_get turn (players model); Some (nPending player) }"

text \<open>\<open>None\<close> behind \<open>Some\<close> when the direction is not known.\<close>

definition model_getCurrentMoveIsVertical :: "modelCtxt \<Rightarrow> nat \<Rightarrow> bool option option" where
  "model_getCurrentMoveIsVertical model turn = do {
     player \<leftarrow> mem_get turn (players model);
     if 2 \<le> nPending player then do {
       a \<leftarrow> mem_get (nPending player - 1) (pendingTiles player);
       b \<leftarrow> mem_get (nPending player - 2) (pendingTiles player);
       Some (if pcol a = pcol b then Some True else if prow a = prow b then Some False else None)
     } else Some None
   }"

definition model_visTileCount :: "modelCtxt \<Rightarrow> nat \<Rightarrow> bool \<Rightarrow> nat option" where
  "model_visTileCount model turn trayVisible =
     (if trayVisible then do {
        n \<leftarrow> model_getCurrentMoveCount model turn;
        Some (trunc16 (nTilesOnBoard model + n))
      } else Some (nTilesOnBoard model))"

definition model_getNMoves :: "modelCtxt \<Rightarrow> int" where
  "model_getNMoves model =
     (let nAssigns = (if giInDuplicateMode (gi model) then 1 else mNPlayers model)
      in s16 (int (sub16 (stack_getNEntries (mstack model)) nAssigns)))"

definition count_tile :: "nat list \<Rightarrow> tile \<Rightarrow> nat list option" where
  "count_tile counts t = do { c \<leftarrow> mem_get (unat t) counts; mem_put (unat t) (trunc16 (c + 1)) counts }"

text \<open>\<open>counts\<close> is the caller's array of totals per face, to which the tiles are added.\<close>

definition countPlayerTiles :: "tile \<Rightarrow> nat list \<Rightarrow> playerCtxt \<Rightarrow> nat list option" where
  "countPlayerTiles blank counts player = do {
     pend \<leftarrow> mem_read 0 (nPending player) (pendingTiles player);
     counts \<leftarrow> ofold (\<lambda>counts pt. do {
                let t = (if IS_BLANK (ptile pt) then blank else ptile pt AND TILE_VALUE_MASK);
                xp_assert (unat t \<le> MAX_UNIQUE_TILES);
                count_tile counts t
              }) counts pend;
     ofold count_tile counts (trayTiles player)
   }"

definition model_countAllTrayTiles :: "modelCtxt \<Rightarrow> nat list \<Rightarrow> int \<Rightarrow> nat list option" where
  "model_countAllTrayTiles model counts excludePlayer = do {
     blank \<leftarrow> blank_of model;
     ofold (\<lambda>counts ii. if int ii \<noteq> excludePlayer
                        then do { player \<leftarrow> mem_get ii (players model); countPlayerTiles blank counts player }
                        else Some counts) counts [0..<mNPlayers model]
   }"

section \<open>Players on a stream\<close>

definition model_colBits :: "modelCtxt \<Rightarrow> nat" where
  "model_colBits model = (if 16 \<le> model_numCols model then NUMCOLS_NBITS_5 else NUMCOLS_NBITS_4)"

definition loadPending :: "nat \<Rightarrow> nat \<Rightarrow> mem_stream \<Rightarrow> (pendingTile \<times> mem_stream) option" where
  "loadPending nColsNBits version stream = do {
     (c, stream) \<leftarrow> getNat nColsNBits stream;
     (r, stream) \<leftarrow> getNat nColsNBits stream;
     (t, stream) \<leftarrow> mem_stream_getBits stream (if version \<le> STREAM_VERS_RELAY then 6 else 7);
     Some (\<lparr>pcol = c, prow = r, ptile = ucast t\<rparr>, stream)
   }"

definition loadPlayerCtxt :: "modelCtxt \<Rightarrow> mem_stream \<Rightarrow> nat \<Rightarrow> playerCtxt \<Rightarrow> (playerCtxt \<times> mem_stream) option" where
  "loadPlayerCtxt model stream version pc = do {
     (v, stream) \<leftarrow> getBool stream;
     (tray, stream) \<leftarrow> traySetFromStream stream;
     (np, stream) \<leftarrow> getNat NTILES_NBITS stream;
     (nu, stream) \<leftarrow> (if STREAM_VERS_NUNDONE \<le> version then getNat NTILES_NBITS stream
                      else do { xp_assert (0 = nUndone pc); Some (nUndone pc, stream) });
     xp_assert (0 = dividerLoc pc);
     (dl, stream) \<leftarrow> (if STREAM_VERS_MODELDIVIDER \<le> version then getNat NTILES_NBITS stream
                      else Some (dividerLoc pc, stream));
     (pts, stream) \<leftarrow> getN (np + nu) (loadPending (model_colBits model) version) stream;
     ps \<leftarrow> mem_write 0 pts (pendingTiles pc);
     Some (pc\<lparr>curMoveValid := v, trayTiles := tray, nPending := np, nUndone := nu, dividerLoc := dl,
              pendingTiles := ps\<rparr>, stream)
   }"

definition writePending :: "nat \<Rightarrow> mem_stream \<Rightarrow> pendingTile \<Rightarrow> mem_stream option" where
  "writePending nColsNBits stream pt = do {
     stream \<leftarrow> putNat nColsNBits stream (pcol pt);
     stream \<leftarrow> putNat nColsNBits stream (prow pt);
     mem_stream_putBits stream 7 (ucast (ptile pt))
   }"

definition writePlayerCtxt :: "modelCtxt \<Rightarrow> mem_stream \<Rightarrow> playerCtxt \<Rightarrow> mem_stream option" where
  "writePlayerCtxt model stream pc = do {
     stream \<leftarrow> putBool stream (curMoveValid pc);
     stream \<leftarrow> traySetToStream stream (trayTiles pc);
     stream \<leftarrow> putNat NTILES_NBITS stream (nPending pc);
     stream \<leftarrow> putNat NTILES_NBITS stream (nUndone pc);
     stream \<leftarrow> putNat NTILES_NBITS stream (dividerLoc pc);
     pts \<leftarrow> mem_read 0 (nPending pc + nUndone pc) (pendingTiles pc);
     ofold (writePending (model_colBits model)) stream pts
   }"

end
