(* ===== verification/Xw_PendingInv.thy ===== *)
theory Xw_PendingInv
  imports Xw_Pending
begin

text \<open>
  The invariant that ties the cells of the board to the players' pending tiles, that moving tiles
  to the board and back keeps it and loses no tile, and that taking back a whole move ends.
\<close>

section \<open>Well-formed models\<close>

definition pend :: "playerCtxt \<Rightarrow> pendingTile list" where
  "pend p = take (nPending p) (pendingTiles p)"

definition spot :: "pendingTile \<Rightarrow> nat \<times> nat" where
  "spot pt = (pcol pt, prow pt)"

text \<open>How many pending tiles are on a square.\<close>

definition pend_at :: "modelCtxt \<Rightarrow> nat \<Rightarrow> nat \<Rightarrow> nat" where
  "pend_at m c r = (\<Sum>p\<leftarrow>players m. count_list (map spot (pend p)) (c, r))"

definition player_wf :: "nat \<Rightarrow> playerCtxt \<Rightarrow> bool" where
  "player_wf nc p \<longleftrightarrow>
     length (pendingTiles p) = MAX_TRAY_TILES \<and> nPending p + nUndone p \<le> MAX_TRAY_TILES \<and>
     length (trayTiles p) + nPending p \<le> MAX_TRAY_TILES \<and> distinct (map spot (pend p)) \<and>
     list_all (\<lambda>pt. pcol pt < nc \<and> prow pt < nc \<and> ptile pt < 128) (pend p)"

definition pend_cell :: "nat \<Rightarrow> cellTile" where
  "pend_cell n = TILE_PENDING_BIT OR of_nat n"

definition cell_ok :: "nat \<Rightarrow> cellTile \<Rightarrow> bool" where
  "cell_ok n cell \<longleftrightarrow> (if n = 0 then cell AND TILE_PENDING_BIT = 0 else cell = pend_cell n)"

definition cell_at :: "modelCtxt \<Rightarrow> nat \<Rightarrow> nat \<Rightarrow> cellTile" where
  "cell_at m c r = cells m ! (r * nCols m + c)"

definition board_wf :: "modelCtxt \<Rightarrow> bool" where
  "board_wf m \<longleftrightarrow> nRows m = nCols m \<and> nCols m \<le> MAX_COLS \<and> length (cells m) = nCols m * nCols m \<and>
     length (players m) = MAX_NUM_PLAYERS \<and> mNPlayers m \<le> MAX_NUM_PLAYERS"

definition model_wf :: "modelCtxt \<Rightarrow> bool" where
  "model_wf m \<longleftrightarrow> board_wf m \<and> list_all (player_wf (nCols m)) (players m) \<and>
     (\<forall>c < nCols m. \<forall>r < nCols m. cell_ok (pend_at m c r) (cell_at m c r))"

lemma model_wf_player: "model_wf m \<Longrightarrow> t < length (players m) \<Longrightarrow> player_wf (nCols m) (players m ! t)"
  by (simp add: model_wf_def list_all_length)

lemma model_wf_cell: "model_wf m \<Longrightarrow> c < nCols m \<Longrightarrow> r < nCols m \<Longrightarrow> cell_ok (pend_at m c r) (cell_at m c r)"
  by (simp add: model_wf_def)

section \<open>Cells\<close>

lemma cell_index: "c < n \<Longrightarrow> r < n \<Longrightarrow> r * n + c < n * (n :: nat)"
proof -
  assume "c < n" "r < n"
  then have "r * n + c < Suc r * n" by simp
  also have "\<dots> \<le> n * n" using \<open>r < n\<close> by (intro mult_le_mono1) simp
  finally show ?thesis .
qed

lemma cell_index_inj:
  assumes "c < n" "c' < n" "r * n + c = r' * n + (c' :: nat)"
  shows "r = r'" and "c = c'"
proof -
  have "(r * n + c) div n = r" "(r' * n + c') div n = r'" using assms(1,2) by simp_all
  then show "r = r'" using assms(3) by metis
  then show "c = c'" using assms(3) by simp
qed

lemma getRaw [simp]:
  "board_wf m \<Longrightarrow> c < nCols m \<Longrightarrow> r < nCols m \<Longrightarrow> getModelTileRaw m c r = Some (cell_at m c r)"
  by (simp add: getModelTileRaw_def board_wf_def cell_at_def cell_index)

lemma setRaw [simp]:
  "board_wf m \<Longrightarrow> c < nCols m \<Longrightarrow> r < nCols m \<Longrightarrow>
     setModelTileRaw m c r t = Some (m\<lparr>cells := (cells m)[r * nCols m + c := t]\<rparr>)"
  by (simp add: setModelTileRaw_def board_wf_def cell_index)

lemma pend_cell_cases:
  assumes "0 < n" and "n \<le> MAX_NUM_PLAYERS"
  shows "n = 1 \<and> pend_cell n = 0x101 \<or> n = 2 \<and> pend_cell n = 0x102 \<or> n = 3 \<and> pend_cell n = 0x103 \<or>
    n = 4 \<and> pend_cell n = 0x104"
proof -
  have "n = 1 \<or> n = 2 \<or> n = 3 \<or> n = 4" using assms by (auto simp: xw_consts)
  then show ?thesis by (auto simp: pend_cell_def TILE_PENDING_BIT_def)
qed

lemma pend_cell_bits:
  assumes "0 < n" and "n \<le> MAX_NUM_PLAYERS"
  shows "\<not> TILE_IS_EMPTY (pend_cell n)" "pend_cell n AND TILE_PENDING_BIT \<noteq> 0"
    "pend_cell n AND CELL_VALUE_MASK = of_nat n" "pend_cell n AND PREV_MOVE_BIT = 0"
    "pend_cell n OR TILE_PENDING_BIT = pend_cell n" "unat (of_nat n :: u16) = n" "0 < (of_nat n :: u16)"
  using pend_cell_cases[OF assms]
  by (auto simp: TILE_IS_EMPTY_def TILE_EMPTY_BIT_def TILE_PENDING_BIT_def CELL_VALUE_MASK_def PREV_MOVE_BIT_def)

lemma pend_cell_Suc: "0 < n \<Longrightarrow> n < MAX_NUM_PLAYERS \<Longrightarrow> pend_cell n + 1 = pend_cell (n + 1)"
proof -
  assume "0 < n" "n < MAX_NUM_PLAYERS"
  then have "n = 1 \<or> n = 2 \<or> n = 3" by (auto simp: xw_consts)
  then show ?thesis by (auto simp: pend_cell_def TILE_PENDING_BIT_def)
qed

lemma incr_cell:
  assumes "board_wf m" and "c < nCols m" and "r < nCols m" and "cell_ok n (cell_at m c r)"
    and "n < MAX_NUM_PLAYERS" and "n = 0 \<Longrightarrow> TILE_IS_EMPTY (cell_at m c r)"
  shows "incrPendingTileCountAt m c r = Some (m\<lparr>cells := (cells m)[r * nCols m + c := pend_cell (n + 1)]\<rparr>)"
proof (cases "n = 0")
  case True
  have "(1 :: u16) OR TILE_PENDING_BIT = pend_cell 1" "(1 :: u16) AND CELL_VALUE_MASK = 1"
    by (simp_all add: pend_cell_def TILE_PENDING_BIT_def CELL_VALUE_MASK_def)
  then show ?thesis
    using assms True by (simp add: incrPendingTileCountAt_def xw_consts del: bind_Some_iff)
next
  case False
  then have c: "cell_at m c r = pend_cell n" using assms(4) by (simp add: cell_ok_def)
  have n: "0 < n" "n \<le> MAX_NUM_PLAYERS" "0 < n + 1" "n + 1 \<le> MAX_NUM_PLAYERS" using False assms(5) by simp_all
  show ?thesis
    unfolding incrPendingTileCountAt_def getRaw[OF assms(1-3)] c
    using n pend_cell_bits[OF n(1,2)] pend_cell_bits[OF n(3,4)] pend_cell_Suc[OF n(1) assms(5)] setRaw[OF assms(1-3)]
    by (simp del: bind_Some_iff of_nat_add of_nat_Suc)
qed

lemma decr_cell:
  assumes "board_wf m" and "c < nCols m" and "r < nCols m" and "cell_ok n (cell_at m c r)"
    and "0 < n" and "n \<le> MAX_NUM_PLAYERS"
  shows "decrPendingTileCountAt m c r =
     Some (m\<lparr>cells := (cells m)[r * nCols m + c := (if n = 1 then EMPTY_TILE else pend_cell (n - 1))]\<rparr>)"
proof -
  have c: "cell_at m c r = pend_cell n" using assms(4,5) by (simp add: cell_ok_def)
  have v: "(if (of_nat n :: u16) - 1 > 0 then (of_nat n - 1) OR TILE_PENDING_BIT else EMPTY_TILE) =
      (if n = 1 then EMPTY_TILE else pend_cell (n - 1))"
    using pend_cell_cases[OF assms(5,6)] by (auto simp: pend_cell_def TILE_PENDING_BIT_def)
  show ?thesis
    unfolding decrPendingTileCountAt_def getRaw[OF assms(1-3)] c
    using pend_cell_bits[OF assms(5,6)] assms(6) setRaw[OF assms(1-3)] v
    by (simp del: bind_Some_iff)
qed

section \<open>Players\<close>

lemma sum_list_nat_update:
  "k < length xs \<Longrightarrow> sum_list (xs[k := x]) + xs ! k = sum_list xs + (x :: nat)"
proof -
  assume k: "k < length xs"
  have "xs ! k \<le> sum_list xs" using k by (simp add: elem_le_sum_list)
  then show ?thesis using k by (simp add: sum_list_update)
qed

lemma pend_at_upd:
  assumes "t < length (players m)" and "players m' = (players m)[t := p]"
  shows "pend_at m' c r + count_list (map spot (pend (players m ! t))) (c, r) =
     pend_at m c r + count_list (map spot (pend p)) (c, r)"
  using assms sum_list_nat_update[of t "map (\<lambda>p. count_list (map spot (pend p)) (c, r)) (players m)"
      "count_list (map spot (pend p)) (c, r)"]
  by (simp add: pend_at_def map_update)

lemma count_distinct: "distinct xs \<Longrightarrow> count_list xs x = (if x \<in> set xs then 1 else 0)"
  by (induction xs) auto

lemma pend_at_le:
  assumes "model_wf m"
  shows "pend_at m c r \<le> MAX_NUM_PLAYERS"
    and "t < length (players m) \<Longrightarrow> (c, r) \<notin> spot ` set (pend (players m ! t)) \<Longrightarrow> pend_at m c r < MAX_NUM_PLAYERS"
    and "t < length (players m) \<Longrightarrow> (c, r) \<in> spot ` set (pend (players m ! t)) \<Longrightarrow> 0 < pend_at m c r"
proof -
  let ?f = "\<lambda>p. count_list (map spot (pend p)) (c, r)"
  have f: "?f p \<le> 1" if "p \<in> set (players m)" for p
    using assms that by (auto simp: model_wf_def list_all_iff player_wf_def count_distinct)
  have S: "sum_list (map ?f ps) \<le> length ps" if "set ps \<subseteq> set (players m)" for ps
    using that by (induction ps) (use f in fastforce)+
  show "pend_at m c r \<le> MAX_NUM_PLAYERS"
    using S[OF subset_refl] assms by (simp add: pend_at_def model_wf_def board_wf_def)
  assume t: "t < length (players m)"
  then have P: "players m = take t (players m) @ players m ! t # drop (Suc t) (players m)"
    by (simp add: id_take_nth_drop)
  have E: "pend_at m c r = sum_list (map ?f (take t (players m))) + ?f (players m ! t)
      + sum_list (map ?f (drop (Suc t) (players m)))"
    unfolding pend_at_def by (subst P) simp
  have L: "sum_list (map ?f (take t (players m))) \<le> t"
    "sum_list (map ?f (drop (Suc t) (players m))) \<le> length (players m) - Suc t"
    using S[of "take t (players m)"] S[of "drop (Suc t) (players m)"] t
    by (auto dest: in_set_takeD in_set_dropD)
  {
    assume "(c, r) \<notin> spot ` set (pend (players m ! t))"
    then have "?f (players m ! t) = 0" by (simp add: count_list_0_iff)
    then show "pend_at m c r < MAX_NUM_PLAYERS"
      using E L t assms by (simp add: model_wf_def board_wf_def)
  }
  {
    assume "(c, r) \<in> spot ` set (pend (players m ! t))"
    then have "0 < ?f (players m ! t)" by (simp add: count_list_0_iff flip: neq0_conv)
    then show "0 < pend_at m c r" using E by simp
  }
qed
section \<open>Putting a tile on the board\<close>

lemma upd_player_Some: "t < length (players m) \<Longrightarrow> upd_player t f m = Some (m\<lparr>players := (players m)[t := f (players m ! t)]\<rparr>)"
  by (simp add: upd_player_def)

lemma removeTile_eq:
  assumes "t < length (players m)" and "i < length (trayTiles (players m ! t))"
  shows "model_removePlayerTile m t (int i) = Some (trayTiles (players m ! t) ! i,
     m\<lparr>players := (players m)[t := trayTiles_update (del_at i) (players m ! t)]\<rparr>)"
  using assms by (simp add: model_removePlayerTile_def removePlayerTile_def upd_player_Some del: bind_Some_iff)

definition put_pending :: "tile \<Rightarrow> nat \<Rightarrow> nat \<Rightarrow> nat \<Rightarrow> playerCtxt \<Rightarrow> playerCtxt" where
  "put_pending b c r i p = (trayTiles_update (del_at i) p)\<lparr>nUndone := 0, nPending := nPending p + 1,
     pendingTiles := (pendingTiles p)[nPending p := \<lparr>pcol = c, prow = r, ptile = b\<rparr>], curMoveValid := False\<rparr>"

lemma pend_put:
  assumes "nPending p < length (pendingTiles p)"
  shows "pend (put_pending b c r i p) = pend p @ [\<lparr>pcol = c, prow = r, ptile = b\<rparr>]"
  using assms by (simp add: pend_def put_pending_def take_Suc_conv_app_nth)

lemma player_wf_put:
  assumes "player_wf nc p" and "i < length (trayTiles p)" and "b < 128" and "c < nc" "r < nc"
    and "(c, r) \<notin> spot ` set (pend p)"
  shows "player_wf nc (put_pending b c r i p)"
proof -
  have "nPending p < MAX_TRAY_TILES" using assms(1,2) by (simp add: player_wf_def)
  then have "pend (put_pending b c r i p) = pend p @ [\<lparr>pcol = c, prow = r, ptile = b\<rparr>]"
    using assms(1) by (intro pend_put) (simp add: player_wf_def)
  then show ?thesis
    using assms \<open>nPending p < MAX_TRAY_TILES\<close> length_greater_0_conv[of "trayTiles p"]
    by (simp add: player_wf_def spot_def) (simp add: put_pending_def, linarith)
qed

text \<open>The tile that goes on the board for a tile of the tray.\<close>

lemma tile_for_board_cong: "mdict m' = mdict m \<Longrightarrow> mdicts m' = mdicts m \<Longrightarrow> tile_for_board m' t f = tile_for_board m t f"
proof -
  assume "mdict m' = mdict m" "mdicts m' = mdicts m"
  then have "model_getDictionary m' = model_getDictionary m" unfolding model_getDictionary_def by (cases "mdict m") simp_all
  moreover from this have "model_askBlankTile m' = model_askBlankTile m"
    by (simp add: model_askBlankTile_def model_packTilesUtil_def del: bind_Some_iff)
  ultimately show ?thesis unfolding tile_for_board_def blank_of_def by presburger
qed

lemma moveTrayToBoard_eq:
  assumes bw: "board_wf m" and t: "t < length (players m)" and i: "i < length (trayTiles (players m ! t))"
    and b: "tile_for_board m (trayTiles (players m ! t) ! i) f = Some b"
    and pw: "player_wf (nCols m) (players m ! t)" and c: "c < nCols m" and r: "r < nCols m"
    and cell: "cell_ok n (cell_at m c r)" "n < MAX_NUM_PLAYERS" "n = 0 \<Longrightarrow> TILE_IS_EMPTY (cell_at m c r)"
  shows "model_moveTrayToBoard m t c r (int i) f = Some (m\<lparr>
     players := (players m)[t := put_pending b c r i (players m ! t)],
     cells := (cells m)[r * nCols m + c := pend_cell (n + 1)]\<rparr>)"
proof -
  let ?p = "players m ! t"
  let ?m1 = "m\<lparr>players := (players m)[t := trayTiles_update (del_at i) ?p]\<rparr>"
  let ?m2 = "m\<lparr>players := (players m)[t := put_pending b c r i ?p]\<rparr>"
  have np: "nPending ?p < length (pendingTiles ?p)" "nPending ?p + 1 \<le> MAX_TRAY_TILES"
    using pw i by (auto simp: player_wf_def)
  have b1: "tile_for_board ?m1 (trayTiles ?p ! i) f = Some b"
    using b by (subst tile_for_board_cong[of ?m1 m]) simp_all
  have cr: "c mod 256 = c" "r mod 256 = r" using bw c r by (simp_all add: board_wf_def xw_consts)
  have "incrPendingTileCountAt ?m2 c r =
      Some (?m2\<lparr>cells := (cells ?m2)[r * nCols ?m2 + c := pend_cell (n + 1)]\<rparr>)"
    by (rule incr_cell) (use bw c r cell in \<open>simp_all add: board_wf_def cell_at_def\<close>)
  then show ?thesis
    unfolding model_moveTrayToBoard_def removeTile_eq[OF t i]
    using t b1 np cr
    by (simp add: add_pending_def upd_player_Some invalidateScore_def put_pending_def Let_def del: bind_Some_iff)
qed

text \<open>The invariant after one player's pending tiles and one cell have changed together.\<close>

lemma model_wf_change:
  assumes wf: "model_wf m" and t: "t < length (players m)" and c: "c < nCols m" "r < nCols m"
    and p: "player_wf (nCols m) p"
    and count: "\<And>x y. count_list (map spot (pend p)) (x, y) + (if (x, y) = (c, r) then k else 0) =
       count_list (map spot (pend (players m ! t))) (x, y) + (if (x, y) = (c, r) then k' else 0)"
    and cell: "\<And>n. n + k = pend_at m c r + k' \<Longrightarrow> cell_ok n cell"
  defines "m' \<equiv> m\<lparr>players := (players m)[t := p], cells := (cells m)[r * nCols m + c := cell]\<rparr>"
  shows "model_wf m'" and "\<And>x y. pend_at m' x y + (if (x, y) = (c, r) then k else 0) =
      pend_at m x y + (if (x, y) = (c, r) then k' else 0)"
proof -
  show P: "pend_at m' x y + (if (x, y) = (c, r) then k else 0) =
      pend_at m x y + (if (x, y) = (c, r) then k' else 0)" for x y
    using pend_at_upd[OF t, of m' p x y] count[of x y] unfolding m'_def by simp
  have B: "board_wf m'" using wf by (simp add: model_wf_def board_wf_def m'_def)
  have A: "list_all (player_wf (nCols m')) (players m')"
    using wf p t by (auto simp: model_wf_def m'_def list_all_length nth_list_update)
  have "cell_ok (pend_at m' x y) (cell_at m' x y)" if "x < nCols m" "y < nCols m" for x y
  proof (cases "(x, y) = (c, r)")
    case True
    then show ?thesis
      using cell[of "pend_at m' c r"] P[of c r] wf c
      by (simp add: m'_def cell_at_def cell_index model_wf_def board_wf_def)
  next
    case False
    then have "r * nCols m + c \<noteq> y * nCols m + x" using cell_index_inj[OF c(1) that(1)] by blast
    then have "cell_at m' x y = cell_at m x y" by (simp add: m'_def cell_at_def)
    moreover have "pend_at m' x y = pend_at m x y" using P[of x y] False by auto
    ultimately show ?thesis using model_wf_cell[OF wf that] by simp
  qed
  then show "model_wf m'" using A B by (simp add: model_wf_def m'_def)
qed

lemma moveTrayToBoard_wf:
  assumes wf: "model_wf m" and t: "t < length (players m)" and i: "i < length (trayTiles (players m ! t))"
    and b: "tile_for_board m (trayTiles (players m ! t) ! i) f = Some b" "b < 128"
    and c: "c < nCols m" "r < nCols m" and free: "(c, r) \<notin> spot ` set (pend (players m ! t))"
    and empty: "TILE_IS_EMPTY (cell_at m c r) \<or> 0 < pend_at m c r"
  defines "m' \<equiv> m\<lparr>players := (players m)[t := put_pending b c r i (players m ! t)],
     cells := (cells m)[r * nCols m + c := pend_cell (pend_at m c r + 1)]\<rparr>"
  shows "model_moveTrayToBoard m t c r (int i) f = Some m'" and "model_wf m'"
    and "pend_at m' x y = pend_at m x y + (if (x, y) = (c, r) then 1 else 0)"
proof -
  let ?p = "players m ! t"
  have pw: "player_wf (nCols m) ?p" by (rule model_wf_player[OF wf t])
  have n: "pend_at m c r < MAX_NUM_PLAYERS" by (rule pend_at_le(2)[OF wf t free])
  show "model_moveTrayToBoard m t c r (int i) f = Some m'"
    unfolding m'_def
    by (rule moveTrayToBoard_eq[OF _ t i b(1) pw c model_wf_cell[OF wf c] n])
      (use wf empty in \<open>auto simp: model_wf_def\<close>)
  have np: "nPending ?p < length (pendingTiles ?p)" using pw i by (auto simp: player_wf_def)
  have cnt: "count_list (map spot (pend (put_pending b c r i ?p))) (x, y) + (if (x, y) = (c, r) then 0 else 0) =
      count_list (map spot (pend ?p)) (x, y) + (if (x, y) = (c, r) then 1 else 0)" for x y
    by (simp add: pend_put[OF np] spot_def)
  note W = model_wf_change[OF wf t c player_wf_put[OF pw i b(2) c free] cnt, of "pend_cell (pend_at m c r + 1)", folded m'_def]
  show "model_wf m'" by (rule W(1)) (simp add: cell_ok_def)
  show "pend_at m' x y = pend_at m x y + (if (x, y) = (c, r) then 1 else 0)"
    using W(2)[of x y] by (simp add: cell_ok_def split: if_splits)
qed
lemma distinct_count_le: "(\<And>x. count_list xs x \<le> 1) \<Longrightarrow> distinct xs"
proof (induction xs)
  case (Cons y ys)
  have "count_list ys y = 0" using Cons.prems[of y] by simp
  moreover have "count_list ys x \<le> 1" for x using Cons.prems[of x] by (simp split: if_splits)
  ultimately show ?case using Cons.IH by (simp add: count_list_0_iff)
qed simp

section \<open>Taking a tile back\<close>

lemma rotate_pending:
  assumes "k \<le> n" and "n < length ps"
  defines "qs \<equiv> (foldl (\<lambda>ps ii. ps[ii := ps ! (ii + 1)]) ps [k..<n])[n := ps ! k]"
  shows "length qs = length ps" and "take n qs = del_at k (take (Suc n) ps)" and "qs ! n = ps ! k"
    and "\<And>j. n < j \<Longrightarrow> j < length ps \<Longrightarrow> qs ! j = ps ! j"
proof -
  have S: "qs = (map (\<lambda>j. if k \<le> j \<and> j < n then ps ! Suc j else ps ! j) [0..<length ps])[n := ps ! k]"
    unfolding qs_def shift_loop[OF assms(1,2)] ..
  show l: "length qs = length ps" by (simp add: S)
  show "qs ! n = ps ! k" using assms(2) by (simp add: S)
  show "qs ! j = ps ! j" if "n < j" "j < length ps" for j using that by (simp add: S)
  show "take n qs = del_at k (take (Suc n) ps)"
    using assms(1,2) l by (auto simp: S del_at_def nth_append intro!: nth_equalityI)
qed

definition take_back :: "nat \<Rightarrow> nat \<Rightarrow> tile \<Rightarrow> playerCtxt \<Rightarrow> playerCtxt" where
  "take_back k pos b p = (trayTiles_update (ins_at pos b) p)\<lparr>nPending := nPending p - 1,
     pendingTiles := (foldl (\<lambda>ps ii. ps[ii := ps ! (ii + 1)]) (pendingTiles p) [k..<nPending p - 1])
       [nPending p - 1 := pendingTiles p ! k],
     nUndone := (nUndone p + 1) mod 256, curMoveValid := False\<rparr>"

lemma pend_take_back:
  assumes "player_wf nc p" and "k < nPending p"
  shows "pend (take_back k pos b p) = del_at k (pend p)"
proof -
  have "Suc (nPending p - 1) = nPending p" "nPending p - 1 < length (pendingTiles p)" "k \<le> nPending p - 1"
    using assms by (auto simp: player_wf_def)
  then show ?thesis
    using rotate_pending(2)[of k "nPending p - 1" "pendingTiles p"] by (simp add: pend_def take_back_def)
qed

lemma count_del_at:
  "k < length xs \<Longrightarrow> count_list (map f (del_at k xs)) y + (if y = f (xs ! k) then 1 else 0) = count_list (map f xs) y"
  by (subst (2) id_take_nth_drop[of k xs]) (simp_all add: del_at_def)

lemma player_wf_take_back:
  assumes "player_wf nc p" and "k < nPending p"
  shows "player_wf nc (take_back k pos b p)"
proof -
  have k: "k < length (pend p)" using assms by (simp add: pend_def player_wf_def)
  have d: "distinct (map spot (del_at k (pend p)))"
  proof -
    have "count_list (map spot (del_at k (pend p))) x \<le> 1" for x
      using count_del_at[OF k, of spot x] assms(1) count_distinct[of "map spot (pend p)" x]
      by (auto simp: player_wf_def split: if_splits)
    then show ?thesis by (meson distinct_count_le)
  qed
  have l: "length (take_back_ps p) = length (pendingTiles p)" if "take_back_ps p = pendingTiles (take_back k pos b p)" for take_back_ps
    using that rotate_pending(1)[of k "nPending p - 1" "pendingTiles p"] assms
    by (auto simp: take_back_def player_wf_def)
  have "list_all (\<lambda>pt. pcol pt < nc \<and> prow pt < nc \<and> ptile pt < 128) (del_at k (pend p))"
    using assms(1) set_del_at[of k "pend p"] by (auto simp: player_wf_def list_all_iff)
  then show ?thesis
    using assms d l[of "\<lambda>_. pendingTiles (take_back k pos b p)", OF refl]
    by (simp add: player_wf_def pend_take_back[OF assms]) (simp add: take_back_def xw_consts)
qed

lemma blank_of_upd [simp]:
  "blank_of (m\<lparr>cells := cs\<rparr>) = blank_of m" "blank_of (m\<lparr>players := ps\<rparr>) = blank_of m"
  "blank_of (m\<lparr>players := ps, cells := cs\<rparr>) = blank_of m"
  by (cases "mdict m"; simp add: blank_of_def model_getDictionary_def del: bind_Some_iff)+

text \<open>The tile that goes back to the tray for a pending tile.\<close>

definition tray_tile :: "modelCtxt \<Rightarrow> pendingTile \<Rightarrow> tile option" where
  "tray_tile m pt = (if IS_BLANK (ptile pt) then blank_of m else Some (ptile pt))"

lemma find_spot:
  assumes "distinct (map spot ps)" and "k < length ps" and "spot (ps ! k) = (c, r)"
  shows "find (\<lambda>ii. at_square c r (ps ! ii)) [0..<length ps] = Some k"
proof -
  have "\<not> at_square c r (ps ! j)" if "j < k" for j
    using assms that by (auto simp: at_square_def spot_def distinct_conv_nth)
  moreover have "at_square c r (ps ! k)" using assms(3) by (simp add: at_square_def spot_def)
  ultimately show ?thesis using assms(2) by (auto simp: find_Some_iff intro!: exI[of _ k])
qed

lemma moveBoardToTray_none:
  assumes "t < length (players m)" and "player_wf (nCols m) (players m ! t)"
    and "(c, r) \<notin> spot ` set (pend (players m ! t))"
  shows "model_moveBoardToTray m t c r off = Some m"
proof -
  have "find (\<lambda>ii. at_square c r (pend (players m ! t) ! ii)) [0..<length (pend (players m ! t))] = None"
    using assms(3) by (auto simp: find_None_iff at_square_def spot_def image_def)
  then show ?thesis
    using assms(1,2) by (simp add: model_moveBoardToTray_def player_wf_def pend_def del: bind_Some_iff)
qed

lemma upd_inval:
  "t < length (players m) \<Longrightarrow>
     do { model \<leftarrow> upd_player t (\<lambda>_. p) m; invalidateScore model t } =
     Some (m\<lparr>players := (players m)[t := p\<lparr>curMoveValid := False\<rparr>]\<rparr>)"
  by (simp add: upd_player_Some invalidateScore_def del: bind_Some_iff)

lemma addTile_eq:
  assumes "t < length (players m)" and "length (trayTiles (players m ! t)) < MAX_TRAY_TILES"
    and "pos = (if i < 0 then length (trayTiles (players m ! t)) else nat i)" and "pos \<le> length (trayTiles (players m ! t))"
  shows "model_addPlayerTile m t i b = Some (m\<lparr>players := (players m)[t := trayTiles_update (ins_at pos b) (players m ! t)]\<rparr>)"
proof -
  have "nat (if i < 0 then int (length (trayTiles (players m ! t))) else i) = pos"
    "0 \<le> (if i < 0 then int (length (trayTiles (players m ! t))) else i)"
    using assms(3) by auto
  then show ?thesis
    using assms(1,2,4) by (simp add: model_addPlayerTile_def addPlayerTile_def upd_player_Some del: bind_Some_iff)
qed

lemma moveBoardToTray_wf:
  assumes wf: "model_wf m" and t: "t < length (players m)" and k: "k < nPending (players m ! t)"
    and cr: "spot (pend (players m ! t) ! k) = (c, r)" and b: "tray_tile m (pend (players m ! t) ! k) = Some b"
    and pos: "pos = (if s16 (int off) < 0 then length (trayTiles (players m ! t)) else nat (s16 (int off)))"
      "pos \<le> length (trayTiles (players m ! t))"
  defines "m' \<equiv> m\<lparr>players := (players m)[t := take_back k pos b (players m ! t)],
     cells := (cells m)[r * nCols m + c := (if pend_at m c r = 1 then EMPTY_TILE else pend_cell (pend_at m c r - 1))]\<rparr>"
  shows "model_moveBoardToTray m t c r off = Some m'" and "model_wf m'"
    and "pend_at m' x y + (if (x, y) = (c, r) then 1 else 0) = pend_at m x y"
proof -
  let ?p = "players m ! t" and ?n = "pend_at m c r"
  have pw: "player_wf (nCols m) ?p" by (rule model_wf_player[OF wf t])
  have np: "nPending ?p \<le> length (pendingTiles ?p)" "length (pend ?p) = nPending ?p"
    using pw by (simp_all add: player_wf_def pend_def)
  have kp: "k < length (pend ?p)" "pend ?p ! k \<in> set (pend ?p)" using k np by simp_all
  have c: "c < nCols m" "r < nCols m" using pw kp(2) cr by (auto simp: player_wf_def list_all_iff spot_def)
  have "(c, r) \<in> spot ` set (pend ?p)" using kp(2) cr by force
  then have n: "0 < ?n" by (rule pend_at_le(3)[OF wf t])
  note dec = decr_cell[OF _ c model_wf_cell[OF wf c] n pend_at_le(1)[OF wf]]
  let ?cs = "(cells m)[r * nCols m + c := (if ?n = 1 then EMPTY_TILE else pend_cell (?n - 1))]"
  let ?m1 = "m\<lparr>cells := ?cs\<rparr>"
  have f: "find (\<lambda>ii. at_square c r (pend ?p ! ii)) [0..<length (pend ?p)] = Some k"
    by (rule find_spot[OF _ kp(1) cr]) (use pw in \<open>simp add: player_wf_def\<close>)
  have rd: "mem_read 0 (nPending ?p) (pendingTiles ?p) = Some (pend ?p)" using np by (simp add: pend_def)
  have bl: "(if IS_BLANK (ptile (pend ?p ! k)) then blank_of ?m1 else Some (ptile (pend ?p ! k))) = Some b"
    using b by (simp add: tray_tile_def split: if_splits)
  have ad: "model_addPlayerTile ?m1 t (s16 (int off)) b =
      Some (?m1\<lparr>players := (players m)[t := trayTiles_update (ins_at pos b) ?p]\<rparr>)"
    using addTile_eq[of t ?m1 pos "s16 (int off)" b] t pw k pos by (simp add: player_wf_def)
  have dp: "drop_pending k (trayTiles_update (ins_at pos b) ?p) =
      Some ((take_back k pos b ?p)\<lparr>curMoveValid := curMoveValid ?p\<rparr>)"
    using k np by (simp add: drop_pending_def take_back_def Let_def del: bind_Some_iff)
  let ?m2 = "?m1\<lparr>players := (players m)[t := trayTiles_update (ins_at pos b) ?p]\<rparr>"
  have t2: "mem_get t (players ?m2) = Some (trayTiles_update (ins_at pos b) ?p)" using t by simp
  have tb: "((take_back k pos b ?p)\<lparr>curMoveValid := curMoveValid ?p\<rparr>)\<lparr>curMoveValid := False\<rparr> = take_back k pos b ?p"
    by (simp add: take_back_def)
  have fin: "do { model \<leftarrow> upd_player t (\<lambda>_. (take_back k pos b ?p)\<lparr>curMoveValid := curMoveValid ?p\<rparr>) ?m2; invalidateScore model t }
      = Some m'"
    by (subst upd_inval) (use t in \<open>simp_all add: tb m'_def\<close>)
  have bw: "board_wf m" using wf by (simp add: model_wf_def)
  show "model_moveBoardToTray m t c r off = Some m'"
    by (simp only: model_moveBoardToTray_def mem_get_ok[OF t] rd Option.bind.bind_lunit f option.case
        dec[OF bw] bl ad t2 dp fin)
  have cnt: "count_list (map spot (pend (take_back k pos b ?p))) (x, y) + (if (x, y) = (c, r) then 1 else 0) =
      count_list (map spot (pend ?p)) (x, y) + (if (x, y) = (c, r) then 0 else 0)" for x y
    using count_del_at[OF kp(1), of spot "(x, y)"] by (simp only: pend_take_back[OF pw k] cr if_cancel add_0_right)
  have ce: "cell_ok n (if ?n = 1 then EMPTY_TILE else pend_cell (?n - 1))" if "n + 1 = ?n + 0" for n
    using that[symmetric] n by (auto simp: cell_ok_def EMPTY_TILE_def TILE_EMPTY_BIT_def TILE_PENDING_BIT_def)
  note W = model_wf_change[OF wf t c player_wf_take_back[OF pw k] cnt ce, folded m'_def]
  show "model_wf m'" by (rule W(1)) 
  show "pend_at m' x y + (if (x, y) = (c, r) then 1 else 0) = pend_at m x y"
    using W(2)[of x y] by simp
qed
section \<open>What is on a square\<close>

definition pend_on :: "playerCtxt \<Rightarrow> nat \<Rightarrow> nat \<Rightarrow> pendingTile option" where
  "pend_on p c r = find (at_square c r) (pend p)"

definition cell_view :: "cellTile \<Rightarrow> (tile \<times> bool \<times> bool \<times> bool) option" where
  "cell_view cell = (if cell AND TILE_EMPTY_BIT = 0
     then Some (ucast (cell AND CELL_VALUE_MASK), CELL_IS_BLANK cell, False, cell AND PREV_MOVE_BIT \<noteq> 0) else None)"

definition pend_view :: "pendingTile \<Rightarrow> tile \<times> bool \<times> bool \<times> bool" where
  "pend_view pt = (ptile pt AND TILE_VALUE_MASK, IS_BLANK (ptile pt), True, False)"

lemma tile_in_cell:
  assumes "(b :: tile) < 128"
  shows "(ucast b :: cellTile) AND TILE_EMPTY_BIT = 0" "ucast ((ucast b :: cellTile) AND CELL_VALUE_MASK) = b AND TILE_VALUE_MASK"
    "CELL_IS_BLANK (ucast b) = IS_BLANK b" "(ucast b :: cellTile) AND PREV_MOVE_BIT = 0"
proof -
  have e: "TILE_EMPTY_BIT = 2 ^ 7" "PREV_MOVE_BIT = 2 ^ 9" "CELL_VALUE_MASK = mask 6"
    "TILE_VALUE_MASK = mask 6" "TILE_BLANK_BIT = 2 ^ 6" "(ucast TILE_BLANK_BIT :: cellTile) = 2 ^ 6"
    by (simp_all add: TILE_EMPTY_BIT_def PREV_MOVE_BIT_def CELL_VALUE_MASK_def TILE_VALUE_MASK_def
        TILE_BLANK_BIT_def mask_eq_decr_exp)
  have b7: "\<not> bit b 7" using small_tile_bit[OF assms] by simp
  show "(ucast b :: cellTile) AND TILE_EMPTY_BIT = 0"
    unfolding e and_exp_eq_0_iff_not_bit using b7 by (simp add: bit_ucast_iff)
  have "\<not> bit b 9" using bit_imp_le_length[of b 9] by auto
  then show "(ucast b :: cellTile) AND PREV_MOVE_BIT = 0"
    unfolding e and_exp_eq_0_iff_not_bit by (simp add: bit_ucast_iff)
  show "ucast ((ucast b :: cellTile) AND CELL_VALUE_MASK) = b AND TILE_VALUE_MASK"
    by (rule bit_word_eqI) (auto simp: e(3,4) bit_simps)
  show "CELL_IS_BLANK (ucast b) = IS_BLANK b"
    unfolding CELL_IS_BLANK_def IS_BLANK_def e(6) unfolding e(5) and_exp_eq_0_iff_not_bit by (simp add: bit_ucast_iff)
qed

lemma pend_at_0: "pend_at m c r = 0 \<longleftrightarrow> (\<forall>p \<in> set (players m). pend_on p c r = None)"
  by (auto simp: pend_at_def sum_list_eq_0_iff pend_on_def find_None_iff count_list_0_iff at_square_def spot_def)

lemma pend_on_None: "pend_on p c r = None \<longleftrightarrow> (c, r) \<notin> spot ` set (pend p)"
  by (auto simp: pend_on_def find_None_iff at_square_def spot_def)

lemma getTile_wf:
  assumes wf: "model_wf m" and c: "c < nCols m" "r < nCols m" and t: "t < length (players m)"
  shows "model_getTile m c r g t = Some (if pend_at m c r = 0 then cell_view (cell_at m c r)
     else if g then map_option pend_view (pend_on (players m ! t) c r) else None)"
proof -
  let ?p = "players m ! t"
  have bw: "board_wf m" and pw: "player_wf (nCols m) ?p"
    using wf model_wf_player[OF wf t] by (simp_all add: model_wf_def)
  have e: "EMPTY_TILE AND TILE_EMPTY_BIT \<noteq> 0" by (simp add: EMPTY_TILE_def TILE_EMPTY_BIT_def)
  have rd: "mem_read 0 (nPending ?p) (pendingTiles ?p) = Some (pend ?p)" using pw by (simp add: pend_def player_wf_def)
  show ?thesis
  proof (cases "pend_at m c r = 0")
    case True
    then have "cell_at m c r AND TILE_PENDING_BIT = 0" using model_wf_cell[OF wf c] by (simp add: cell_ok_def)
    then show ?thesis
      using True bw c by (simp add: model_getTile_def cell_view_def del: bind_Some_iff)
  next
    case False
    then have "cell_at m c r AND TILE_PENDING_BIT \<noteq> 0"
      using model_wf_cell[OF wf c] pend_cell_bits(2)[of "pend_at m c r"] pend_at_le(1)[OF wf] by (simp add: cell_ok_def)
    then have G: "model_getTile m c r g t = do {
        (cell, pending) \<leftarrow> (if g then do { found \<leftarrow> getPendingTileFor m t c r;
            Some (case found of Some c \<Rightarrow> (c, True) | None \<Rightarrow> (EMPTY_TILE, False)) } else Some (EMPTY_TILE, False));
        Some (if cell AND TILE_EMPTY_BIT = 0
           then Some (ucast (cell AND CELL_VALUE_MASK), CELL_IS_BLANK cell, pending, cell AND PREV_MOVE_BIT \<noteq> 0)
           else None) }"
      using bw c by (simp add: model_getTile_def del: bind_Some_iff)
    have F: "getPendingTileFor m t c r = Some (map_option (\<lambda>pt. ucast (ptile pt)) (pend_on ?p c r))"
    proof (cases "pend_on ?p c r")
      case None
      then show ?thesis using t rd by (simp add: getPendingTileFor_def pend_on_def del: bind_Some_iff mem_read_Some)
    next
      case (Some pt)
      then have "pt \<in> set (pend ?p)" by (auto simp: pend_on_def find_Some_iff)
      then have "ptile pt < 128" using pw by (auto simp: player_wf_def list_all_iff)
      then show ?thesis
        using Some t rd tile_in_cell(1)[of "ptile pt"]
        by (simp add: getPendingTileFor_def pend_on_def del: bind_Some_iff mem_read_Some)
    qed
    show ?thesis
    proof (cases "pend_on ?p c r")
      case None
      then show ?thesis using False e by (simp add: G F del: bind_Some_iff)
    next
      case (Some pt)
      then have "pt \<in> set (pend ?p)" by (auto simp: pend_on_def find_Some_iff)
      then have "ptile pt < 128" using pw by (auto simp: player_wf_def list_all_iff)
      then show ?thesis
        using False e Some tile_in_cell[of "ptile pt"] by (simp add: G F pend_view_def del: bind_Some_iff)
    qed
  qed
qed
section \<open>Moving a tile to the board and back\<close>

lemma find_append: "find P (xs @ ys) = (case find P xs of None \<Rightarrow> find P ys | Some x \<Rightarrow> Some x)"
  by (induction xs) auto

definition player_bag :: "tile \<Rightarrow> playerCtxt \<Rightarrow> tile multiset" where
  "player_bag bl p = mset (trayTiles p) + image_mset (\<lambda>pt. if IS_BLANK (ptile pt) then bl else ptile pt) (mset (pend p))"

lemma free_square:
  assumes "model_wf m" and "c < nCols m" "r < nCols m" and "t < length (players m)"
    and "model_getTile m c r True t = Some None"
  shows "(c, r) \<notin> spot ` set (pend (players m ! t))" and "TILE_IS_EMPTY (cell_at m c r) \<or> 0 < pend_at m c r"
  using assms pend_at_0[of m c r]
  by (auto simp: getTile_wf cell_view_def TILE_IS_EMPTY_def simp flip: pend_on_None split: if_splits)

lemma small_tile_bits:
  assumes "(b :: tile) < 64"
  shows "\<not> IS_BLANK b" "b AND TILE_VALUE_MASK = b" "b OR TILE_BLANK_BIT < 128" "b < 128"
    "IS_BLANK (b OR TILE_BLANK_BIT)" "(b OR TILE_BLANK_BIT) AND TILE_VALUE_MASK = b"
proof -
  have "unat (take_bit 6 b) = unat b"
    using assms unsigned_take_bit_eq[of 6 b, where 'a = nat] by (simp only: take_bit_eq_mod word_less_nat_alt) simp
  then have "take_bit 6 b = b" by (simp only: word_unat_eq_iff)
  then have hi: "\<not> bit b k" if "6 \<le> k" for k using that by (metis bit_take_bit_iff not_less)
  show "\<not> IS_BLANK b" using hi[of 6] is_blank_bit[of b] by (simp add: IS_BLANK_def)
  show v: "b AND TILE_VALUE_MASK = b" by (rule bit_word_eqI) (use hi not_less in \<open>auto simp: bit_and_iff bit_TILE_VALUE_MASK\<close>)
  show "IS_BLANK (b OR TILE_BLANK_BIT)"
    using is_blank_bit[of "b OR TILE_BLANK_BIT"] by (simp add: IS_BLANK_def bit_or_iff bit_TILE_BLANK_BIT)
  show "(b OR TILE_BLANK_BIT) AND TILE_VALUE_MASK = b"
    by (rule bit_word_eqI) (use hi not_less in \<open>auto simp: bit_and_iff bit_or_iff bit_TILE_VALUE_MASK bit_TILE_BLANK_BIT\<close>)
  have "b OR TILE_BLANK_BIT = b + TILE_BLANK_BIT"
    by (rule disjunctive_add_eq_or[symmetric])
      (rule bit_word_eqI, use hi[of 6] in \<open>auto simp: bit_and_iff bit_TILE_BLANK_BIT\<close>)
  moreover have "b + 0x40 < 128"
    using assms unfolding word_less_nat_alt by (simp add: unat_word_ariths)
  ultimately show "b OR TILE_BLANK_BIT < 128" by (simp add: TILE_BLANK_BIT_def)
  show "b < 128" using assms by (rule less_trans) simp
qed

definition placed_tile :: "tile \<Rightarrow> tile \<Rightarrow> tile \<Rightarrow> tile" where
  "placed_tile bl f x = (if x = bl then f OR TILE_BLANK_BIT else x)"

lemma tile_for_board_eq:
  assumes "blank_of m = Some bl" and "f < 64"
  shows "tile_for_board m x f = Some (placed_tile bl f x)"
proof -
  have "(ucast f :: cellTile) \<noteq> EMPTY_TILE"
  proof
    assume "(ucast f :: cellTile) = EMPTY_TILE"
    moreover have "bit EMPTY_TILE 7" by (simp add: EMPTY_TILE_def TILE_EMPTY_BIT_def)
    ultimately have "bit f 7" by (metis bit_ucast_iff)
    then show False using small_tile_bit[OF small_tile_bits(4)[OF assms(2)]] by simp
  qed
  then show ?thesis using assms(1) by (simp add: tile_for_board_def placed_tile_def del: bind_Some_iff)
qed

lemma placed_tile_bits:
  assumes "x < 64" and "f < 64"
  shows "placed_tile bl f x < 128" "(if IS_BLANK (placed_tile bl f x) then bl else placed_tile bl f x) = x"
    "pend_view \<lparr>pcol = c, prow = r, ptile = placed_tile bl f x\<rparr> = (if x = bl then f else x, x = bl, True, False)"
  using small_tile_bits[OF assms(1)] small_tile_bits[OF assms(2)]
  by (simp_all add: placed_tile_def pend_view_def)

lemma cell_at_upd:
  assumes "length (cells m) = nCols m * nCols m" and "c < nCols m" "r < nCols m" "x < nCols m" "y < nCols m"
    and "nCols m' = nCols m" and "cells m' = (cells m)[r * nCols m + c := v]"
  shows "cell_at m' x y = (if (x, y) = (c, r) then v else cell_at m x y)"
proof (cases "(x, y) = (c, r)")
  case True
  then show ?thesis using assms by (simp add: cell_at_def cell_index)
next
  case False
  then have "r * nCols m + c \<noteq> y * nCols m + x" using cell_index_inj[OF assms(2,4)] by blast
  then show ?thesis using False assms(6,7) by (auto simp: cell_at_def)
qed

lemma tray_to_board:
  assumes wf: "model_wf m" and t: "t < length (players m)" and i: "i < length (trayTiles (players m ! t))"
    and tray: "list_all (\<lambda>x. x < 64) (trayTiles (players m ! t))" and bl: "blank_of m = Some bl" and f: "f < 64"
    and c: "c < nCols m" "r < nCols m" and free: "model_getTile m c r True t = Some None"
  defines "x \<equiv> trayTiles (players m ! t) ! i"
  defines "m' \<equiv> m\<lparr>players := (players m)[t := put_pending (placed_tile bl f x) c r i (players m ! t)],
     cells := (cells m)[r * nCols m + c := pend_cell (pend_at m c r + 1)]\<rparr>"
  shows "model_moveTrayToBoard m t c r (int i) f = Some m'" and "model_wf m'"
    and "pend (players m' ! t) = pend (players m ! t) @ [\<lparr>pcol = c, prow = r, ptile = placed_tile bl f x\<rparr>]"
    and "\<And>a b. pend_at m' a b = pend_at m a b + (if (a, b) = (c, r) then 1 else 0)"
    and "player_bag bl (players m' ! t) = player_bag bl (players m ! t)"
    and "model_getTile m' c r True t = Some (Some (if x = bl then f else x, x = bl, True, False))"
    and "\<And>a b g u. a < nCols m \<Longrightarrow> b < nCols m \<Longrightarrow> u < length (players m) \<Longrightarrow> (a, b) \<noteq> (c, r) \<Longrightarrow>
       model_getTile m' a b g u = model_getTile m a b g u"
proof -
  let ?p = "players m ! t" and ?pt = "\<lparr>pcol = c, prow = r, ptile = placed_tile bl f x\<rparr>"
  have x64: "x < 64" using tray i by (simp add: x_def list_all_length)
  note X = placed_tile_bits[OF x64 f]
  note FS = free_square[OF wf c t free]
  have tb: "tile_for_board m (trayTiles ?p ! i) f = Some (placed_tile bl f x)"
    using tile_for_board_eq[OF bl f] by (simp add: x_def)
  note W = moveTrayToBoard_wf[OF wf t i tb X(1) c FS, folded m'_def]
  show "model_moveTrayToBoard m t c r (int i) f = Some m'" "model_wf m'" by (rule W)+
  show PA: "pend_at m' a b = pend_at m a b + (if (a, b) = (c, r) then 1 else 0)" for a b by (rule W(3))
  have pw: "player_wf (nCols m) ?p" by (rule model_wf_player[OF wf t])
  have np: "nPending ?p < length (pendingTiles ?p)" using pw i by (auto simp: player_wf_def)
  show PE: "pend (players m' ! t) = pend ?p @ [?pt]" using t by (simp add: m'_def pend_put[OF np])
  have tr: "trayTiles (players m' ! t) = del_at i (trayTiles ?p)" using t by (simp add: m'_def put_pending_def)
  show "player_bag bl (players m' ! t) = player_bag bl ?p"
    using mset_del_at[OF i, folded x_def, symmetric] X(2)[of bl] by (simp add: player_bag_def PE tr split: if_splits)
  have l: "length (players m') = length (players m)" "nCols m' = nCols m" by (simp_all add: m'_def)
  have po: "pend_on (players m' ! t) c r = Some ?pt"
  proof -
    have "find (at_square c r) (pend ?p) = None" using FS(1) pend_on_None by (simp add: pend_on_def)
    then show ?thesis by (simp add: pend_on_def PE find_append at_square_def)
  qed
  show "model_getTile m' c r True t = Some (Some (if x = bl then f else x, x = bl, True, False))"
    using getTile_wf[OF W(2), of c r t True] c t l PA[of c r] po X(3) by simp
  show "model_getTile m' a b g u = model_getTile m a b g u"
    if "a < nCols m" "b < nCols m" "u < length (players m)" "(a, b) \<noteq> (c, r)" for a b g u
  proof -
    have "length (cells m) = nCols m * nCols m" using wf by (simp add: model_wf_def board_wf_def)
    then have "cell_at m' a b = cell_at m a b"
      using cell_at_upd[OF _ c that(1,2), of m' "pend_cell (pend_at m c r + 1)"] that(4) by (auto simp: m'_def)
    moreover have "pend_on (players m' ! u) a b = pend_on (players m ! u) a b"
    proof (cases "u = t")
      case True
      then show ?thesis using that(4) by (auto simp: pend_on_def PE find_append at_square_def split: option.split)
    next
      case False
      then show ?thesis by (simp add: m'_def)
    qed
    moreover have "pend_at m' a b = pend_at m a b" using PA[of a b] that(4) by auto
    ultimately show ?thesis
      using getTile_wf[OF W(2), of a b u g] getTile_wf[OF wf that(1-3), of g] that l by simp
  qed
qed
definition back_tile :: "tile \<Rightarrow> pendingTile \<Rightarrow> tile" where
  "back_tile bl pt = (if IS_BLANK (ptile pt) then bl else ptile pt)"

lemma player_bag_back: "player_bag bl p = mset (trayTiles p) + mset (map (back_tile bl) (pend p))"
  by (simp add: player_bag_def back_tile_def[abs_def])

lemma del_at_nil [simp]: "del_at 0 (x # xs) = xs"
  by (simp add: del_at_def)

lemma empty_view: "cell_view EMPTY_TILE = None"
  by (simp add: cell_view_def EMPTY_TILE_def TILE_EMPTY_BIT_def)

lemma board_to_tray:
  assumes wf: "model_wf m" and t: "t < length (players m)" and k: "k < length (pend (players m ! t))"
    and cr: "spot (pend (players m ! t) ! k) = (c, r)" and bl: "blank_of m = Some bl"
    and pos: "pos = (if s16 (int off) < 0 then length (trayTiles (players m ! t)) else nat (s16 (int off)))"
      "pos \<le> length (trayTiles (players m ! t))"
  defines "b \<equiv> back_tile bl (pend (players m ! t) ! k)"
  defines "m' \<equiv> m\<lparr>players := (players m)[t := take_back k pos b (players m ! t)],
     cells := (cells m)[r * nCols m + c := (if pend_at m c r = 1 then EMPTY_TILE else pend_cell (pend_at m c r - 1))]\<rparr>"
  shows "model_moveBoardToTray m t c r off = Some m'" and "model_wf m'"
    and "pend (players m' ! t) = del_at k (pend (players m ! t))"
    and "trayTiles (players m' ! t) = ins_at pos b (trayTiles (players m ! t))"
    and "nUndone (players m' ! t) = nUndone (players m ! t) + 1"
    and "nPending (players m' ! t) = nPending (players m ! t) - 1"
    and "\<And>x y g u. x < nCols m \<Longrightarrow> y < nCols m \<Longrightarrow> u < length (players m) \<Longrightarrow> \<not> g \<or> u \<noteq> t \<or> (x, y) \<noteq> (c, r) \<Longrightarrow>
       model_getTile m' x y g u = model_getTile m x y g u"
    and "\<And>x y. pend_at m' x y + (if (x, y) = (c, r) then 1 else 0) = pend_at m x y"
    and "cell_at m' c r = (if pend_at m c r = 1 then EMPTY_TILE else pend_cell (pend_at m c r - 1))"
proof -
  let ?p = "players m ! t"
  have pw: "player_wf (nCols m) ?p" by (rule model_wf_player[OF wf t])
  have k': "k < nPending ?p" using k by (simp add: pend_def)
  have tb: "tray_tile m (pend ?p ! k) = Some b" using bl by (simp add: tray_tile_def b_def back_tile_def)
  note W = moveBoardToTray_wf[OF wf t k' cr tb pos, folded m'_def]
  show "model_moveBoardToTray m t c r off = Some m'" "model_wf m'" by (rule W)+
  show "pend_at m' x y + (if (x, y) = (c, r) then 1 else 0) = pend_at m x y" for x y by (rule W(3))
  show PE: "pend (players m' ! t) = del_at k (pend ?p)" using t by (simp add: m'_def pend_take_back[OF pw k'])
  show "trayTiles (players m' ! t) = ins_at pos b (trayTiles ?p)" using t by (simp add: m'_def take_back_def)
  show "nUndone (players m' ! t) = nUndone ?p + 1" "nPending (players m' ! t) = nPending ?p - 1"
    using t pw by (simp_all add: m'_def take_back_def player_wf_def xw_consts)
  have kin: "pend ?p ! k \<in> set (pend ?p)" using k by simp
  have c: "c < nCols m" "r < nCols m" using pw kin cr by (auto simp: player_wf_def list_all_iff spot_def)
  have l: "length (players m') = length (players m)" "nCols m' = nCols m" by (simp_all add: m'_def)
  have lc: "length (cells m) = nCols m * nCols m" using wf by (simp add: model_wf_def board_wf_def)
  have n: "0 < pend_at m c r" using pend_at_le(3)[OF wf t, of c r] kin cr by force
  have rest: "pend_on (players m' ! u) x y = pend_on (players m ! u) x y" if "u \<noteq> t \<or> (x, y) \<noteq> (c, r)" for u x y
  proof (cases "u = t")
    case False
    then show ?thesis by (simp add: m'_def)
  next
    case True
    with that have ne: "\<not> at_square x y (pend ?p ! k)" using cr by (auto simp: at_square_def spot_def)
    have "find (at_square x y) (pend ?p) =
        find (at_square x y) (take k (pend ?p) @ pend ?p ! k # drop (Suc k) (pend ?p))"
      by (rule arg_cong[OF id_take_nth_drop[OF k]])
    moreover have "find (at_square x y) (pend ?p ! k # ds) = find (at_square x y) ds" for ds by (simp add: ne)
    ultimately have "find (at_square x y) (del_at k (pend ?p)) = find (at_square x y) (pend ?p)"
      by (simp only: del_at_def find_append)
    then show ?thesis using True by (simp add: pend_on_def PE)
  qed
  show ce: "cell_at m' c r = (if pend_at m c r = 1 then EMPTY_TILE else pend_cell (pend_at m c r - 1))"
    using cell_at_upd[OF lc c c, of m' "if pend_at m c r = 1 then EMPTY_TILE else pend_cell (pend_at m c r - 1)"]
    by (simp add: m'_def)
  show "model_getTile m' x y g u = model_getTile m x y g u"
    if "x < nCols m" "y < nCols m" "u < length (players m)" "\<not> g \<or> u \<noteq> t \<or> (x, y) \<noteq> (c, r)" for x y g u
  proof (cases "(x, y) = (c, r)")
    case False
    have "cell_at m' x y = cell_at m x y"
      using cell_at_upd[OF lc c that(1,2), of m' "if pend_at m c r = 1 then EMPTY_TILE else pend_cell (pend_at m c r - 1)"] False
      by (auto simp: m'_def)
    moreover have "pend_at m' x y = pend_at m x y" using W(3)[of x y] False by auto
    ultimately show ?thesis
      using getTile_wf[OF W(2), of x y u g] getTile_wf[OF wf that(1-3), of g] that rest[of u x y] False l by simp
  next
    case True
    have p: "pend_at m' c r + 1 = pend_at m c r" using W(3)[of c r] by simp
    have e: "pend_on (players m ! u) c r = None" if "pend_at m' c r = 0" "u \<noteq> t"
      using rest[of u c r] that \<open>u < length (players m)\<close> pend_at_0[of m' c r] l by simp
    have v: "pend_at m' c r = 0 \<Longrightarrow> cell_view (cell_at m' c r) = None"
      using p ce empty_view by simp
    show ?thesis
      using getTile_wf[OF W(2), of c r u g] getTile_wf[OF wf c that(3), of g] that(3,4) rest[of u c r] True l c n e v
      by auto
  qed
qed

lemma resetCurrentTurn_ok:
  assumes "model_wf m" and "t < mNPlayers m" and "blank_of m = Some bl"
  shows "\<exists>m'. model_resetCurrentTurn m t = Some m' \<and> model_wf m' \<and>
     (\<exists>ps cs. m' = m\<lparr>players := ps, cells := cs\<rparr>) \<and> length (players m') = length (players m) \<and>
     trayTiles (players m' ! t) = trayTiles (players m ! t) @ map (back_tile bl) (pend (players m ! t)) \<and>
     nPending (players m' ! t) = 0 \<and>
     nUndone (players m' ! t) = nUndone (players m ! t) + nPending (players m ! t) \<and>
     (\<forall>u. u \<noteq> t \<longrightarrow> players m' ! u = players m ! u) \<and>
     (\<forall>x y g u. x < nCols m \<longrightarrow> y < nCols m \<longrightarrow> u < length (players m) \<longrightarrow> \<not> g \<or> u \<noteq> t \<longrightarrow>
        model_getTile m' x y g u = model_getTile m x y g u)"
  using assms
proof (induction "nPending (players m ! t)" arbitrary: m)
  case 0
  have t: "t < length (players m)" using 0 by (simp add: model_wf_def board_wf_def)
  have "model_resetCurrentTurn m t = Some m"
    by (subst model_resetCurrentTurn.simps) (use 0 t in \<open>simp del: bind_Some_iff\<close>)
  moreover have "\<exists>ps cs. m = m\<lparr>players := ps, cells := cs\<rparr>" by (rule exI[of _ "players m"], rule exI[of _ "cells m"]) simp
  ultimately show ?case using 0 by (simp add: pend_def)
next
  case (Suc n)
  let ?p = "players m ! t"
  have t: "t < length (players m)" using Suc.prems by (simp add: model_wf_def board_wf_def)
  have pw: "player_wf (nCols m) ?p" by (rule model_wf_player[OF Suc.prems(1) t])
  have k: "0 < length (pend ?p)" using pw Suc.hyps(2) by (auto simp: pend_def player_wf_def)
  have h: "pend ?p ! 0 = pendingTiles ?p ! 0" "0 < length (pendingTiles ?p)"
    using k by (auto simp: pend_def)
  obtain c r where cr: "spot (pend ?p ! 0) = (c, r)" by (cases "spot (pend ?p ! 0)") auto
  define pos where "pos = length (trayTiles ?p)"
  have off: "s16 (int NO_OFFSET) = -1" by (simp add: NO_OFFSET_def s16_def)
  have pos: "pos = (if s16 (int NO_OFFSET) < 0 then length (trayTiles ?p) else nat (s16 (int NO_OFFSET)))"
    "pos \<le> length (trayTiles ?p)"
    by (simp_all add: off pos_def)
  note B = board_to_tray[OF Suc.prems(1) t k cr Suc.prems(3) pos]
  obtain m1 where m1: "model_moveBoardToTray m t c r NO_OFFSET = Some m1" "model_wf m1"
      "pend (players m1 ! t) = del_at 0 (pend ?p)"
      "trayTiles (players m1 ! t) = ins_at pos (back_tile bl (pend ?p ! 0)) (trayTiles ?p)"
      "nUndone (players m1 ! t) = nUndone ?p + 1" "nPending (players m1 ! t) = nPending ?p - 1"
      "\<And>x y g u. x < nCols m \<Longrightarrow> y < nCols m \<Longrightarrow> u < length (players m) \<Longrightarrow> \<not> g \<or> u \<noteq> t \<or> (x, y) \<noteq> (c, r) \<Longrightarrow>
       model_getTile m1 x y g u = model_getTile m x y g u"
      "\<exists>p cs. m1 = m\<lparr>players := (players m)[t := p], cells := cs\<rparr>"
    using B by blast
  obtain p cs where m1m: "m1 = m\<lparr>players := (players m)[t := p], cells := cs\<rparr>" using m1(8) by blast
  have S: "model_resetCurrentTurn m t = model_resetCurrentTurn m1 t"
    by (subst model_resetCurrentTurn.simps)
      (use Suc.hyps(2) Suc.prems(2) t h cr m1(1) in \<open>simp add: spot_def del: bind_Some_iff\<close>)
  have "n = nPending (players m1 ! t)" "t < mNPlayers m1" "blank_of m1 = Some bl"
    using m1(6) Suc.hyps(2) Suc.prems(2,3) by (simp_all add: m1m)
  from Suc.hyps(1)[OF this(1) m1(2) this(2,3)] obtain m' where m': "model_resetCurrentTurn m1 t = Some m'" "model_wf m'"
     "\<exists>ps cs. m' = m1\<lparr>players := ps, cells := cs\<rparr>" "length (players m') = length (players m1)"
     "trayTiles (players m' ! t) = trayTiles (players m1 ! t) @ map (back_tile bl) (pend (players m1 ! t))"
     "nPending (players m' ! t) = 0" "nUndone (players m' ! t) = nUndone (players m1 ! t) + nPending (players m1 ! t)"
     "\<And>u. u \<noteq> t \<Longrightarrow> players m' ! u = players m1 ! u"
     "\<And>x y g u. x < nCols m1 \<Longrightarrow> y < nCols m1 \<Longrightarrow> u < length (players m1) \<Longrightarrow> \<not> g \<or> u \<noteq> t \<Longrightarrow>
        model_getTile m' x y g u = model_getTile m1 x y g u"
    by blast
  have pp: "back_tile bl (pend ?p ! 0) # map (back_tile bl) (pend (players m1 ! t)) = map (back_tile bl) (pend ?p)"
    using k by (cases "pend ?p") (simp_all add: m1(3))
  show ?case
  proof (intro exI[of _ m'] conjI allI impI)
    show "model_resetCurrentTurn m t = Some m'" using S m'(1) by simp
    show "\<exists>ps cs. m' = m\<lparr>players := ps, cells := cs\<rparr>" using m'(3) by (auto simp: m1m)
    show "trayTiles (players m' ! t) = trayTiles ?p @ map (back_tile bl) (pend ?p)"
      using m'(5) m1(4) pp by (simp add: pos_def ins_at_def)
    show "nUndone (players m' ! t) = nUndone ?p + nPending ?p" using m'(7) m1(5,6) Suc.hyps(2) by simp
    show "players m' ! u = players m ! u" if "u \<noteq> t" for u using m'(8)[OF that] that by (simp add: m1m)
    show "model_getTile m' x y g u = model_getTile m x y g u"
      if "x < nCols m" "y < nCols m" "u < length (players m)" "\<not> g \<or> u \<noteq> t" for x y g u
      using m'(9)[of x y u g] m1(7)[of x y u g] that by (auto simp: m1m)
  qed (use m' in \<open>simp_all add: m1m\<close>)
qed
section \<open>What moving tiles guarantees\<close>

lemma ins_del_at: "i < length xs \<Longrightarrow> ins_at i (xs ! i) (del_at i xs) = xs"
  by (simp add: ins_at_def del_at_def min_def flip: id_take_nth_drop)

text \<open>C13: On a well-formed model, \<open>model_moveTrayToBoard\<close> to a square that is free for the player always
  succeeds and keeps the model well-formed; the player then sees the tile on the square (a blank with
  its chosen face), the tray has lost it, no tile is lost or invented, and every other square looks to
  everybody as before. Only the player and the cell of the square change: of the player, the tray, the
  pending tiles (the tile is the last of them), the tiles to redo (there are none any more) and the note
  that his move has been scored; his score, the other players, the stack and the rest of the model stay.\<close>

theorem place_tile_spec:
  assumes "model_wf m" and "t < MAX_NUM_PLAYERS" and "i < length (trayTiles (players m ! t))"
    and "list_all (\<lambda>x. x < 64) (trayTiles (players m ! t))" and "blank_of m = Some bl" and "f < 64"
    and "c < nCols m" "r < nCols m" and "model_getTile m c r True t = Some None"
  shows "\<exists>m' p v. model_moveTrayToBoard m t c r (int i) f = Some m' \<and> model_wf m' \<and>
     (let x = trayTiles (players m ! t) ! i in
        model_getTile m' c r True t = Some (Some (if x = bl then f else x, x = bl, True, False)) \<and>
        pend p = pend (players m ! t) @ [\<lparr>pcol = c, prow = r, ptile = (if x = bl then f OR TILE_BLANK_BIT else x)\<rparr>]) \<and>
     trayTiles p = del_at i (trayTiles (players m ! t)) \<and>
     player_bag bl p = player_bag bl (players m ! t) \<and>
     (\<forall>a b g u. a < nCols m \<longrightarrow> b < nCols m \<longrightarrow> u < MAX_NUM_PLAYERS \<longrightarrow> (a, b) \<noteq> (c, r) \<longrightarrow>
        model_getTile m' a b g u = model_getTile m a b g u) \<and>
     m' = m\<lparr>players := (players m)[t := p], cells := (cells m)[r * nCols m + c := v]\<rparr> \<and>
     nUndone p = 0 \<and> \<not> curMoveValid p \<and> pscore p = pscore (players m ! t) \<and>
     curMoveScore p = curMoveScore (players m ! t) \<and> dividerLoc p = dividerLoc (players m ! t)"
proof -
  have l: "length (players m) = MAX_NUM_PLAYERS" using assms(1) by (simp add: model_wf_def board_wf_def)
  have t: "t < length (players m)" using assms(2) l by simp
  let ?x = "trayTiles (players m ! t) ! i"
  let ?p = "put_pending (placed_tile bl f ?x) c r i (players m ! t)"
  note T = tray_to_board[OF assms(1) t assms(3-9)]
  have p: "players (m\<lparr>players := (players m)[t := ?p], cells := cs\<rparr>) ! t = ?p" for cs using t by simp
  show ?thesis
    by (rule exI, rule exI[of _ ?p], rule exI, intro conjI, rule T(1), rule T(2), simp only: Let_def, rule conjI, rule T(6))
      (use T(3,5,7) p l in \<open>auto simp: put_pending_def placed_tile_def\<close>)
qed

text \<open>C20: Taking the tile straight back, to the place of the tray it came from, undoes the move: the tray
  is exactly the old one, and every square looks to everybody as it did.\<close>

theorem place_then_take_back:
  assumes "model_wf m" and "t < MAX_NUM_PLAYERS" and "i < length (trayTiles (players m ! t))"
    and "list_all (\<lambda>x. x < 64) (trayTiles (players m ! t))" and "blank_of m = Some bl" and "f < 64"
    and "c < nCols m" "r < nCols m" and "model_getTile m c r True t = Some None"
  shows "\<exists>m'. do { m1 \<leftarrow> model_moveTrayToBoard m t c r (int i) f; model_moveBoardToTray m1 t c r i } = Some m' \<and>
     model_wf m' \<and> trayTiles (players m' ! t) = trayTiles (players m ! t) \<and>
     pend (players m' ! t) = pend (players m ! t) \<and>
     (\<forall>a b g u. a < nCols m \<longrightarrow> b < nCols m \<longrightarrow> u < MAX_NUM_PLAYERS \<longrightarrow>
        model_getTile m' a b g u = model_getTile m a b g u)"
proof -
  have l: "length (players m) = MAX_NUM_PLAYERS" using assms(1) by (simp add: model_wf_def board_wf_def)
  have t: "t < length (players m)" using assms(2) l by simp
  let ?p = "players m ! t" and ?x = "trayTiles (players m ! t) ! i" and ?k = "length (pend (players m ! t))"
  let ?pt = "\<lparr>pcol = c, prow = r, ptile = placed_tile bl f ?x\<rparr>"
  define m1 where "m1 = m\<lparr>players := (players m)[t := put_pending (placed_tile bl f ?x) c r i ?p],
     cells := (cells m)[r * nCols m + c := pend_cell (pend_at m c r + 1)]\<rparr>"
  note T = tray_to_board[OF assms(1) t assms(3-9), folded m1_def]
  have nc: "nCols m1 = nCols m" "length (players m1) = length (players m)" "blank_of m1 = Some bl"
    "trayTiles (players m1 ! t) = del_at i (trayTiles ?p)"
    using assms(5) t by (simp_all add: m1_def put_pending_def)
  have i7: "i < 7" using model_wf_player[OF assms(1) t] assms(3) by (simp add: player_wf_def xw_consts)
  have s: "s16 (int i) = int i" using i7 by simp
  have k: "?k < length (pend (players m1 ! t))" "spot (pend (players m1 ! t) ! ?k) = (c, r)"
    "pend (players m1 ! t) ! ?k = ?pt" "del_at ?k (pend (players m1 ! t)) = pend ?p"
    by (simp_all add: T(3) spot_def del_at_def)
  have pos: "i = (if s16 (int i) < 0 then length (trayTiles (players m1 ! t)) else nat (s16 (int i)))"
    "i \<le> length (trayTiles (players m1 ! t))"
    using assms(3) by (simp_all add: s nc)
  have t1: "t < length (players m1)" using t nc by simp
  note B = board_to_tray[OF T(2) t1 k(1,2) nc(3) pos]
  have x64: "?x < 64" using assms(3,4) by (simp add: list_all_length)
  have bt: "back_tile bl ?pt = ?x" using placed_tile_bits(2)[OF x64 assms(6), of bl] by (simp add: back_tile_def split: if_splits)
  have same: "players (m\<lparr>players := ps, cells := cs\<rparr>) = ps" for ps cs by simp
  define m2 where "m2 = m1\<lparr>players := (players m1)[t := take_back ?k i (back_tile bl (pend (players m1 ! t) ! ?k)) (players m1 ! t)],
     cells := (cells m1)[r * nCols m1 + c := (if pend_at m1 c r = 1 then EMPTY_TILE else pend_cell (pend_at m1 c r - 1))]\<rparr>"
  note B = B[folded m2_def]
  have nc2: "nCols m2 = nCols m" "length (players m2) = length (players m)" by (simp_all add: m2_def nc)
  have pe: "pend (players m2 ! t) = pend ?p" "trayTiles (players m2 ! t) = trayTiles ?p"
    using assms(3) by (simp_all add: B(3,4) k bt nc ins_del_at)
  have view: "model_getTile m2 a b g u = model_getTile m a b g u"
    if "a < nCols m" "b < nCols m" "u < length (players m)" for a b g u
  proof (cases "(a, b) = (c, r)")
    case False
    then show ?thesis using B(7)[of a b u g] T(7)[of a b u g] that nc by simp
  next
    case True
    have pa: "pend_at m2 c r + 1 = pend_at m1 c r" "pend_at m1 c r = pend_at m c r + 1" "pend_at m2 c r = pend_at m c r"
      using B(8)[of c r] T(4)[of c r] by simp_all
    have po: "pend_on (players m2 ! u) c r = pend_on (players m ! u) c r"
      by (cases "u = t") (simp add: pend_on_def pe, simp add: m2_def m1_def)
    have "cell_view (cell_at m2 c r) = cell_view (cell_at m c r)" if "pend_at m c r = 0"
      using that pa B(9) free_square(2)[OF assms(1,7,8) t assms(9)] nc
      by (simp add: empty_view) (simp add: cell_view_def TILE_IS_EMPTY_def)
    then show ?thesis
      using getTile_wf[OF B(2), of c r u g] getTile_wf[OF assms(1,7,8) that(3), of g] True that(3) pa(3) po nc2 assms(7,8)
      by simp
  qed
  show ?thesis
    using T(1) B(1,2) pe view t l by (intro exI[of _ m2]) (simp del: bind_Some_iff)
qed
text \<open>A board of three by three for two players, the first with the tiles 0 and 1 (the blank).\<close>

definition small_model :: modelCtxt where
  "small_model = (model_zero (gi_initPlayerInfo None) (\<lambda>_ _ _. BONUS_NONE))\<lparr>
     mdict := Some (dict_calloc\<lparr>nFaces := 2, blankTile := 1, faces := Some [65, 0, 0, 0], facesEnd := 4,
       facePtrs := [0, 2]\<rparr>), nCols := 3, nRows := 3, mNPlayers := 2,
     cells := replicate 9 FRESH_CELL, players := no_player\<lparr>trayTiles := [0, 1]\<rparr> # replicate 3 no_player\<rparr>"

text \<open>The same after the first player has put the tile 0 in the middle and the blank, as a 0, below.\<close>

definition small_model_placed :: modelCtxt where
  "small_model_placed = small_model\<lparr>cells := replicate 4 FRESH_CELL @ [0x101, FRESH_CELL, FRESH_CELL, 0x101, FRESH_CELL],
     players := no_player\<lparr>nPending := 2, pendingTiles := [\<lparr>pcol = 1, prow = 1, ptile = 0\<rparr>,
       \<lparr>pcol = 1, prow = 2, ptile = 0x40\<rparr>] @ replicate 5 no_pending\<rparr> # replicate 3 no_player\<rparr>"

lemma less_3: "(c :: nat) < 3 \<longleftrightarrow> c = 0 \<or> c = 1 \<or> c = 2"
  by auto

lemma rep3: "replicate 3 x = [x, x, x]" "replicate 9 y = [y, y, y, y, y, y, y, y, y]" "replicate 4 z = [z, z, z, z]"
  "replicate 7 w = [w, w, w, w, w, w, w]" "replicate 5 v = [v, v, v, v, v]"
  by (simp_all add: eval_nat_numeral)

lemmas small_model_defs = small_model_def small_model_placed_def model_zero_def no_player_def xw_consts rep3

lemma small_model_wf: "model_wf small_model" "blank_of small_model = Some 1"
  "list_all (\<lambda>x. x < 64) (trayTiles (players small_model ! 0))" "length (trayTiles (players small_model ! 0)) = 2"
  "nCols small_model = 3"
  by (simp_all add: model_wf_def board_wf_def small_model_defs player_wf_def pend_def pend_at_def cell_ok_def cell_at_def
      less_3 all_conj_distrib FRESH_CELL_def TILE_PENDING_BIT_def blank_of_def model_getDictionary_def dict_getBlankTile_def
      dict_hasBlankTile_def)

lemma small_model_free: "model_getTile small_model 1 1 True 0 = Some None"
  by (subst getTile_wf[OF small_model_wf(1)]) (simp_all add: small_model_defs pend_at_def pend_def cell_view_def cell_at_def
      FRESH_CELL_def TILE_EMPTY_BIT_def)

lemma small_model_placed_wf: "model_wf small_model_placed" "blank_of small_model_placed = Some 1" "0 < mNPlayers small_model_placed"
  by (simp_all add: model_wf_def board_wf_def small_model_defs player_wf_def pend_def pend_at_def cell_ok_def cell_at_def
      less_3 all_conj_distrib FRESH_CELL_def TILE_PENDING_BIT_def blank_of_def model_getDictionary_def dict_getBlankTile_def
      dict_hasBlankTile_def spot_def pend_cell_def nth_append)

theorem place_tile_spec_witness:
  "case model_moveTrayToBoard small_model 0 1 1 1 0 of None \<Rightarrow> False | Some m' \<Rightarrow>
     model_wf m' \<and> model_getTile m' 1 1 True 0 = Some (Some (0, True, True, False)) \<and>
     trayTiles (players m' ! 0) = del_at 1 (trayTiles (players small_model ! 0)) \<and> mstack m' = mstack small_model"
  using place_tile_spec[OF small_model_wf(1) _ _ small_model_wf(3,2), of 1 0 1 1] small_model_free small_model_wf(4,5)
  by (auto simp: MAX_NUM_PLAYERS_def Let_def) (simp_all add: small_model_def)

theorem place_then_take_back_witness:
  "case (do { m1 \<leftarrow> model_moveTrayToBoard small_model 0 1 1 1 0; model_moveBoardToTray m1 0 1 1 1 }) of
     None \<Rightarrow> False
   | Some m' \<Rightarrow> model_wf m' \<and> trayTiles (players m' ! 0) = [0, 1]"
  using place_then_take_back[OF small_model_wf(1) _ _ small_model_wf(3,2), of 1 0 1 1] small_model_free small_model_wf(4,5)
  by (auto simp: MAX_NUM_PLAYERS_def Let_def) (simp add: small_model_def)

text \<open>C19: \<open>model_resetCurrentTurn\<close> ends on every well-formed model: it takes all of the player's
  pending tiles back to the tray, in the order in which they were placed (a blank as the blank), keeps
  them for a redo, and changes neither the other players nor what they and the committed board see.\<close>

theorem resetCurrentTurn_returns_all:
  assumes "model_wf m" and "t < mNPlayers m" and "blank_of m = Some bl"
  shows "\<exists>m'. model_resetCurrentTurn m t = Some m' \<and> model_wf m' \<and>
     trayTiles (players m' ! t) = trayTiles (players m ! t) @ map (back_tile bl) (pend (players m ! t)) \<and>
     nPending (players m' ! t) = 0 \<and>
     nUndone (players m' ! t) = nUndone (players m ! t) + nPending (players m ! t) \<and>
     (\<forall>u. u \<noteq> t \<longrightarrow> players m' ! u = players m ! u) \<and>
     (\<forall>x y g u. x < nCols m \<longrightarrow> y < nCols m \<longrightarrow> u < length (players m) \<longrightarrow> \<not> g \<or> u \<noteq> t \<longrightarrow>
        model_getTile m' x y g u = model_getTile m x y g u)"
  using resetCurrentTurn_ok[OF assms] by blast

theorem resetCurrentTurn_returns_all_witness:
  "case model_resetCurrentTurn small_model_placed 0 of None \<Rightarrow> False
   | Some m' \<Rightarrow> model_wf m' \<and> trayTiles (players m' ! 0) = [0, 1] \<and> nUndone (players m' ! 0) = 2"
  using resetCurrentTurn_returns_all[OF small_model_placed_wf(1,3,2)]
  by (auto simp: small_model_defs pend_def back_tile_def IS_BLANK_def TILE_BLANK_BIT_def)

text \<open>An example: \<open>model_redoPendingTiles\<close> does not look at the player's own pending tiles. Take the first
  of two tiles back, move the other one onto its square, and ask for a redo: both tiles are then on the
  one square, whose cell counts two players.\<close>

lemma redo_onto_own_tile:
  "do { m1 \<leftarrow> model_moveBoardToTray small_model_placed 0 1 1 NO_OFFSET;
        (moved, m2) \<leftarrow> model_moveTileOnBoard m1 0 1 2 1 1;
        (redone, m3) \<leftarrow> model_redoPendingTiles m2 0;
        cell \<leftarrow> getModelTileRaw m3 1 1;
        Some (moved, redone, map spot (pend (players m3 ! 0)), cell) } =
   Some (True, True, [(1, 1), (1, 1)], TILE_PENDING_BIT OR 2)"
  by code_simp

end
