(* ===== verification/Xw_Score.thy ===== *)
theory Xw_Score
  imports Xw_PendingInv Xw_Words
begin

text \<open>
  \<open>common/mscore.c\<close>: whether the tiles of a move are in line and legally placed, the words they
  form, their score, and the scores at the end of the game.

  A word notifier (\<open>WordNotifierInfo\<close>) is called for each word and cannot influence the scoring; the
  functions here return the calls made to it, in order, and its effect is a fold over them. Messages to
  the user (\<open>util_userError\<close>, \<open>util_informWordsBlocked\<close>) are returned in the same way. The engine's
  cache of crosswise scores is the array \<open>cache\<close>; the release build's use of it is modelled, in
  which a debug build checks it instead. The platform's texts are a parameter.
\<close>

section \<open>The shape of a move\<close>

definition tilesInLine_step :: "nat \<Rightarrow> nat \<Rightarrow> bool \<times> bool \<Rightarrow> pendingTile \<Rightarrow> bool \<times> bool" where
  "tilesInLine_step commonX commonY = (\<lambda>(xIsCommon, yIsCommon) pt.
     (xIsCommon \<and> pcol pt = commonX, yIsCommon \<and> prow pt = commonY))"

text \<open>Whether the tiles are in line, and whether the line is horizontal. With no tile pending the
  first place of the array is still looked at.\<close>

definition tilesInLine :: "modelCtxt \<Rightarrow> nat \<Rightarrow> (bool \<times> bool) option" where
  "tilesInLine model turn = do {
     player \<leftarrow> mem_get turn (players model);
     pt \<leftarrow> mem_get 0 (pendingTiles player);
     pts \<leftarrow> mem_read 1 (nPending player - 1) (pendingTiles player);
     let (xIsCommon, yIsCommon) = foldl (tilesInLine_step (pcol pt) (prow pt)) (True, True) pts;
     Some (xIsCommon \<or> yIsCommon, \<not> xIsCommon)
   }"

definition normalizeMI_lowest :: "moveInfoTile list \<Rightarrow> int \<Rightarrow> nat \<times> nat" where
  "normalizeMI_lowest tiles lastTaken =
     foldl (\<lambda>(lowest, lowIndex) jj.
              let cur = varCoord (tiles ! jj)
              in if cur < lowest \<and> int cur > lastTaken then (cur, jj) else (lowest, lowIndex))
       (100, 100) [0..<length tiles]"

text \<open>Selection of the tiles in the order of their coordinates. The bound of the assertion is that of
  rows, the array's is smaller; an index of 100 is left by a coordinate that occurs twice.\<close>

fun normalizeMI_loop :: "moveInfoTile list \<Rightarrow> nat \<Rightarrow> int \<Rightarrow> moveInfoTile list \<Rightarrow> moveInfoTile list option" where
  "normalizeMI_loop tiles 0 lastTaken out = Some out"
| "normalizeMI_loop tiles (Suc n) lastTaken out = do {
     let (lowest, lowIndex) = normalizeMI_lowest tiles lastTaken;
     xp_assert (lowIndex < MAX_ROWS);
     t \<leftarrow> mem_get lowIndex tiles;
     normalizeMI_loop tiles n (int lowest) (out @ [t])
   }"

definition normalizeMI :: "moveInfo \<Rightarrow> moveInfo option" where
  "normalizeMI mi = do {
     ts \<leftarrow> normalizeMI_loop (mtiles mi) (length (mtiles mi)) (-1) [];
     Some (mi\<lparr>mtiles := ts\<rparr>)
   }"

text \<open>With no tile, the common coordinate is left as the caller had it; the callers pass zeroes.\<close>

definition normalizeMoves :: "modelCtxt \<Rightarrow> nat \<Rightarrow> bool \<Rightarrow> moveInfo option" where
  "normalizeMoves model turn isH = do {
     player \<leftarrow> mem_get turn (players model);
     pts \<leftarrow> mem_read 0 (nPending player) (pendingTiles player);
     case pts of
       [] \<Rightarrow> Some \<lparr>commonCoord = 0, isHorizontal = isH, mtiles = []\<rparr>
     | pt # _ \<Rightarrow> normalizeMI \<lparr>commonCoord = (if isH then prow pt else pcol pt), isHorizontal = isH,
         mtiles = map (\<lambda>pt. \<lparr>varCoord = (if isH then pcol pt else prow pt), mtile = ptile pt\<rparr>) pts\<rparr>
   }"

text \<open>The square at a place along a move.\<close>

definition sq :: "bool \<Rightarrow> nat \<Rightarrow> nat \<Rightarrow> nat \<times> nat" where
  "sq isH common v = (if isH then (v, common) else (common, v))"

definition modelIsEmptyAt :: "modelCtxt \<Rightarrow> nat \<times> nat \<Rightarrow> bool option" where
  "modelIsEmptyAt model = (\<lambda>(col, row).
     if col < model_numCols model \<and> row < model_numCols model
     then do { t \<leftarrow> model_getTile model col row False 65535; Some (t = None) }
     else Some True)"

section \<open>Legal placement\<close>

datatype utilErr = ERR_TILES_NOT_IN_LINE | ERR_NO_EMPTIES_IN_TURN | ERR_TWO_TILES_FIRST_MOVE | ERR_TILES_MUST_CONTACT

text \<open>No empty square between the tiles: the loop over the coordinates with the tile expected next.
  Reading past the last tile gives \<open>None\<close>.\<close>

fun isLegalMove_gaps :: "modelCtxt \<Rightarrow> moveInfo \<Rightarrow> moveInfoTile list \<Rightarrow> nat list \<Rightarrow> bool option" where
  "isLegalMove_gaps model mi newTile [] = do { xp_assert (newTile = []); Some True }"
| "isLegalMove_gaps model mi [] (v # vs) = None"
| "isLegalMove_gaps model mi (t # ts) (v # vs) =
     (if varCoord t = v then isLegalMove_gaps model mi ts vs
      else do {
        empty \<leftarrow> modelIsEmptyAt model (sq (isHorizontal mi) (commonCoord mi) v);
        if empty then Some False else isLegalMove_gaps model mi (t # ts) vs
      })"

fun anyOccupied :: "modelCtxt \<Rightarrow> (nat \<times> nat) list \<Rightarrow> bool option" where
  "anyOccupied model [] = Some False"
| "anyOccupied model (s # ss) = do {
     empty \<leftarrow> modelIsEmptyAt model s;
     if \<not> empty then Some True else anyOccupied model ss
   }"

text \<open>The squares around the tiles, in the order in which they are looked at.\<close>

definition contact_squares :: "moveInfo \<Rightarrow> nat \<Rightarrow> nat \<Rightarrow> (nat \<times> nat) list" where
  "contact_squares mi low high =
     (let s = sq (isHorizontal mi); common = commonCoord mi
      in (if low \<noteq> 0 then [s common (low - 1)] else []) @
         (if high \<noteq> MAX_ROWS - 1 then [s common (high + 1)] else []) @
         (if common \<noteq> 0 then map (s (common - 1)) [low..<high + 1] else []) @
         (if common \<le> MAX_ROWS - 1 then map (s (common + 1)) [low..<high + 1] else []))"

text \<open>\<open>None\<close> behind \<open>Some\<close> is a legal move; otherwise the message for the user.\<close>

definition isLegalMove :: "modelCtxt \<Rightarrow> moveInfo \<Rightarrow> utilErr option option" where
  "isLegalMove model mi = do {
     let star_row = model_numRows model div 2;
     let nTiles = length (mtiles mi);
     t0 \<leftarrow> mem_get 0 (mtiles mi);
     tn \<leftarrow> mem_get (nTiles - 1) (mtiles mi);
     let low = varCoord t0;
     let high = varCoord tn;
     xp_assert (nTiles = 1 \<or> low < high);
     if high - low + 1 > nTiles then do {
       ok \<leftarrow> isLegalMove_gaps model mi (mtiles mi) [low..<high + 1];
       Some (if ok then None else Some ERR_NO_EMPTIES_IN_TURN)
     } else do {
       contact \<leftarrow> anyOccupied model (contact_squares mi low high);
       Some (if contact then None
             else if commonCoord mi = star_row \<and> low \<le> star_row \<and> high \<ge> star_row
             then if nTiles > 1 then None else Some ERR_TWO_TILES_FIRST_MOVE
             else Some ERR_TILES_MUST_CONTACT)
     }
   }"

section \<open>Words\<close>

definition word_multiplier :: "modelCtxt \<Rightarrow> nat \<times> nat \<Rightarrow> nat" where
  "word_multiplier model = (\<lambda>(col, row).
     let bonus = model_getSquareBonus model col row
     in if bonus = BONUS_DOUBLE_WORD then 2 else if bonus = BONUS_TRIPLE_WORD then 3 else 1)"

definition tile_multiplier :: "modelCtxt \<Rightarrow> nat \<times> nat \<Rightarrow> nat" where
  "tile_multiplier model = (\<lambda>(col, row).
     let bonus = model_getSquareBonus model col row
     in if bonus = BONUS_DOUBLE_LETTER then 2 else if bonus = BONUS_TRIPLE_LETTER then 3 else 1)"

fun find_start :: "modelCtxt \<Rightarrow> bool \<Rightarrow> nat \<Rightarrow> nat \<Rightarrow> nat option" where
  "find_start model isH common 0 = Some 0"
| "find_start model isH common (Suc v) = do {
     empty \<leftarrow> modelIsEmptyAt model (sq isH common v);
     if empty then Some (v + 1) else find_start model isH common v
   }"

text \<open>\<open>left\<close> is how far the edge is; its first argument stands for \<open>limit - *incr\<close>.\<close>

fun find_end_loop :: "modelCtxt \<Rightarrow> bool \<Rightarrow> nat \<Rightarrow> nat \<Rightarrow> nat \<Rightarrow> nat option" where
  "find_end_loop model isH common 0 v = Some v"
| "find_end_loop model isH common (Suc left) v = do {
     empty \<leftarrow> modelIsEmptyAt model (sq isH common (v + 1));
     if empty then Some v else find_end_loop model isH common left (v + 1)
   }"

definition find_end :: "modelCtxt \<Rightarrow> bool \<Rightarrow> nat \<Rightarrow> nat \<Rightarrow> nat option" where
  "find_end model isH common v = do {
     xp_assert (v < model_numCols model);
     xp_assert (common < model_numCols model);
     find_end_loop model isH common (model_numCols model - 1 - v) v
   }"

section \<open>The explanation of a score\<close>

text \<open>Decimal digits, as \<open>%d\<close> prints a number that is not negative.\<close>

fun dec_digits :: "nat \<Rightarrow> u8 list" where
  "dec_digits n = (if n < 10 then [of_nat (48 + n)] else dec_digits (n div 10) @ [of_nat (48 + n mod 10)])"

declare dec_digits.simps [simp del]

record wordScoreFormatter =
  fmtDict :: dictionaryCtxt
  fullBuf :: "u8 list"
  wordBuf :: "u8 list"
  fmtNTiles :: nat
  firstPass :: bool

definition FULLBUF_SIZE :: nat where "FULLBUF_SIZE = 80"

definition wordScoreFormatterInit :: "dictionaryCtxt \<Rightarrow> wordScoreFormatter" where
  "wordScoreFormatterInit dict = \<lparr>fmtDict = dict, fullBuf = [], wordBuf = [], fmtNTiles = 0, firstPass = True\<rparr>"

definition wordScoreFormatterAddTile ::
    "wordScoreFormatter \<Rightarrow> tile \<Rightarrow> nat \<Rightarrow> bool \<Rightarrow> wordScoreFormatter option" where
  "wordScoreFormatterAddTile fmtr t tileMultiplier isBlank = do {
     p \<leftarrow> dict_getTileString (fmtDict fmtr) t;
     face \<leftarrow> facePtr_str (fmtDict fmtr) p;
     xp_assert (length (wordBuf fmtr) + length face < MAX_ROWS + 1);
     t \<leftarrow> (if isBlank then dict_getBlankTile (fmtDict fmtr) else Some t);
     tileScore \<leftarrow> dict_getTileValue (fmtDict fmtr) t;
     let prefix = (if firstPass fmtr then [32, 91] else [43]);
     let txt = (if tileMultiplier > 1
                then prefix @ [40] @ dec_digits tileScore @ [120] @ dec_digits tileMultiplier @ [41]
                else prefix @ dec_digits tileScore);
     xp_assert (length (fullBuf fmtr) + length txt < FULLBUF_SIZE);
     Some (fmtr\<lparr>fmtNTiles := fmtNTiles fmtr + 1, wordBuf := wordBuf fmtr @ face, firstPass := False,
                fullBuf := fullBuf fmtr @ txt\<rparr>)
   }"

definition WORD_BUF_SIZE :: nat where "WORD_BUF_SIZE = 65"

text \<open>A text that finds no room gives a length of 0, so that nothing of it is written.\<close>

definition wordScoreFormatterFinish :: "wordScoreFormatter \<Rightarrow> tile list \<Rightarrow> mem_stream \<Rightarrow> mem_stream option" where
  "wordScoreFormatterFinish fmtr word stream = do {
     txt \<leftarrow> dict_tilesToString (fmtDict fmtr) (take (fmtNTiles fmtr) word) WORD_BUF_SIZE None;
     stream \<leftarrow> mem_stream_putBytes stream (case txt of None \<Rightarrow> [] | Some b \<Rightarrow> b);
     stream \<leftarrow> mem_stream_putBytes stream (fullBuf fmtr);
     mem_stream_putU8 stream 93
   }"

definition formatWordScore :: "mem_stream \<Rightarrow> nat \<Rightarrow> nat \<Rightarrow> mem_stream option" where
  "formatWordScore stream wordScore moveMultiplier =
     (if wordScore > 0 then
        let multipliedScore = trunc16 (wordScore * moveMultiplier)
        in mem_stream_catString stream (Some
             (if moveMultiplier > 1
              then [32, 61, 62, 32] @ dec_digits wordScore @ [32, 120, 32] @ dec_digits moveMultiplier
                   @ [32, 61, 32] @ dec_digits multipliedScore @ [10]
              else [32, 61, 32] @ dec_digits multipliedScore @ [10]))
      else Some stream)"

text \<open>The texts of the platform: the total of a turn (\<open>STRD_TURN_SCORE\<close>), the bonus for all tiles.\<close>

record userStrings =
  strTurnScore :: "nat \<Rightarrow> u8 list"
  strBonusAll :: "u8 list"

definition formatSummary :: "userStrings \<Rightarrow> mem_stream \<Rightarrow> nat \<Rightarrow> mem_stream option" where
  "formatSummary us stream score = mem_stream_catString stream (Some (take 59 (strTurnScore us score)))"

text \<open>A stream that may be null.\<close>

definition on_stream :: "(mem_stream \<Rightarrow> mem_stream option) \<Rightarrow> mem_stream option \<Rightarrow> mem_stream option option" where
  "on_stream f stream = (case stream of None \<Rightarrow> Some None | Some s \<Rightarrow> do { s \<leftarrow> f s; Some (Some s) })"

section \<open>The score of a word\<close>

record wnParams =
  wnWord :: "u8 list"
  wnIsLegal :: bool
  wnMovei :: moveInfo
  wnStart :: nat
  wnEnd :: nat

text \<open>What the loop over the squares of a word carries: the new tiles to come, the tile read last, the
  score without the first new tile, the tiles of the word and the formatter.\<close>

record scoreLoop =
  slTiles :: "moveInfoTile list"
  slTile :: tile
  slRest :: nat
  slWord :: "tile list"
  slFmtr :: "wordScoreFormatter option"

text \<open>The tile on a square of the word, whether it is a blank, its multiplier and the new tiles left. On
  a square without a tile the flag for the blank would be an uninitialised variable.\<close>

definition board_tile ::
    "modelCtxt \<Rightarrow> nat \<times> nat \<Rightarrow> moveInfoTile list \<Rightarrow> (tile \<times> bool \<times> nat \<times> moveInfoTile list) option" where
  "board_tile model s tiles = do {
     found \<leftarrow> model_getTile model (fst s) (snd s) False 65535;
     (t, isBlank, _) \<leftarrow> found;
     xp_assert (t AND TILE_VALUE_MASK = t);
     Some (t, isBlank, 1, tiles)
   }"

fun word_tile ::
    "modelCtxt \<Rightarrow> moveInfo \<Rightarrow> moveInfoTile list \<Rightarrow> nat \<Rightarrow> (tile \<times> bool \<times> nat \<times> moveInfoTile list) option" where
  "word_tile model mi [] v = board_tile model (sq (isHorizontal mi) (commonCoord mi) v) []"
| "word_tile model mi (t # ts) v =
     (if v = varCoord t
      then Some (mtile t AND TILE_VALUE_MASK, IS_BLANK (mtile t),
                 tile_multiplier model (sq (isHorizontal mi) (commonCoord mi) v), ts)
      else board_tile model (sq (isHorizontal mi) (commonCoord mi) v) (t # ts))"

definition scoreWord_step ::
    "modelCtxt \<Rightarrow> dictionaryCtxt \<Rightarrow> moveInfo \<Rightarrow> nat \<Rightarrow> scoreLoop \<Rightarrow> nat \<Rightarrow> scoreLoop option" where
  "scoreWord_step model dict mi firstCoord sl v = do {
     (t, isBlank, tileMultiplier, tiles) \<leftarrow> word_tile model mi (slTiles sl) v;
     xp_assert (length (slWord sl) < MAX_ROWS);
     fmtr \<leftarrow> (case slFmtr sl of None \<Rightarrow> Some None
              | Some f \<Rightarrow> do { f \<leftarrow> wordScoreFormatterAddTile f t tileMultiplier isBlank; Some (Some f) });
     vt \<leftarrow> (if isBlank then dict_getBlankTile dict else Some t);
     tileScore \<leftarrow> dict_getTileValue dict vt;
     Some \<lparr>slTiles = tiles, slTile = vt,
           slRest = (if v \<noteq> firstCoord then trunc16 (slRest sl + tileScore * tileMultiplier) else slRest sl),
           slWord = slWord sl @ [t], slFmtr = fmtr\<rparr>
   }"

text \<open>What the notifier is told. A word too long for the buffer would leave it unwritten.\<close>

definition notify_word ::
    "dictionaryCtxt \<Rightarrow> moveInfo \<Rightarrow> nat \<Rightarrow> nat \<Rightarrow> tile list \<Rightarrow> wnParams option" where
  "notify_word dict mi start end word = do {
     legal \<leftarrow> engine_check dict word;
     txt \<leftarrow> dict_tilesToString dict word WORD_BUF_SIZE None;
     txt \<leftarrow> txt;
     Some \<lparr>wnWord = txt, wnIsLegal = legal, wnMovei = mi, wnStart = start, wnEnd = end\<rparr>
   }"

text \<open>The score of the word along \<open>mi\<close> through its tiles, the stream, and the calls of the notifier
  (\<open>notify\<close> tells whether there is one).\<close>

definition scoreWord_rest ::
    "modelCtxt \<Rightarrow> dictionaryCtxt \<Rightarrow> moveInfo \<Rightarrow> nat list option \<Rightarrow> mem_stream option \<Rightarrow> bool \<Rightarrow> nat \<Rightarrow> nat \<Rightarrow> nat \<Rightarrow>
     (nat \<times> mem_stream option \<times> wnParams list) option" where
  "scoreWord_rest model dict mi cache stream notify firstCoord start end =
     (if cache = None \<or> notify then do {
        sl \<leftarrow> ofold (scoreWord_step model dict mi firstCoord)
                \<lparr>slTiles = mtiles mi, slTile = 0, slRest = 0, slWord = [],
                 slFmtr = map_option (\<lambda>_. wordScoreFormatterInit dict) stream\<rparr> [start..<end + 1];
        calls \<leftarrow> (if notify then do { w \<leftarrow> notify_word dict mi start end (slWord sl); Some [w] } else Some []);
        stream \<leftarrow> (case slFmtr sl of None \<Rightarrow> Some stream
                   | Some f \<Rightarrow> on_stream (wordScoreFormatterFinish f (slWord sl)) stream);
        Some (slRest sl, stream, calls)
      } else do {
        xp_assert (length (mtiles mi) = 1);
        c \<leftarrow> cache;
        r \<leftarrow> mem_get (commonCoord mi) c;
        Some (r, stream, [])
      })"

definition scoreWord ::
    "modelCtxt \<Rightarrow> nat \<Rightarrow> moveInfo \<Rightarrow> nat list option \<Rightarrow> mem_stream option \<Rightarrow> bool \<Rightarrow>
     (nat \<times> mem_stream option \<times> wnParams list) option" where
  "scoreWord model turn mi cache stream notify = do {
     t0 \<leftarrow> mem_get 0 (mtiles mi);
     tn \<leftarrow> mem_get (length (mtiles mi) - 1) (mtiles mi);
     dict \<leftarrow> model_getPlayerDict model (int turn);
     assertSorted mi;
     end \<leftarrow> find_end model (isHorizontal mi) (commonCoord mi) (varCoord tn);
     start \<leftarrow> find_start model (isHorizontal mi) (commonCoord mi) (varCoord t0);
     if int end - int start \<ge> 1 then do {
       t \<leftarrow> (if IS_BLANK (mtile t0) then dict_getBlankTile dict else Some (mtile t0 AND TILE_VALUE_MASK));
       thisTileValue \<leftarrow> dict_getTileValue dict t;
       let thisTileValue = trunc16 (thisTileValue *
             tile_multiplier model (sq (isHorizontal mi) (commonCoord mi) (varCoord t0)));
       xp_assert (cache = None \<or> length (mtiles mi) = 1);
       (rest, stream, calls) \<leftarrow> scoreWord_rest model dict mi cache stream notify (varCoord t0) start end;
       Some (trunc16 (rest + thisTileValue), stream, calls)
     } else Some (0, stream, [])
   }"

section \<open>The score of a move\<close>

text \<open>The crosswise word through one of the tiles.\<close>

definition cross_info :: "moveInfo \<Rightarrow> moveInfoTile \<Rightarrow> moveInfo" where
  "cross_info mi t = \<lparr>commonCoord = varCoord t, isHorizontal = \<not> isHorizontal mi,
     mtiles = [\<lparr>varCoord = commonCoord mi, mtile = mtile t\<rparr>]\<rparr>"

definition multiplier_at :: "modelCtxt \<Rightarrow> moveInfo \<Rightarrow> moveInfoTile \<Rightarrow> nat" where
  "multiplier_at model mi t = word_multiplier model (sq (isHorizontal mi) (commonCoord mi) (varCoord t))"

definition crossScore_step ::
    "modelCtxt \<Rightarrow> nat \<Rightarrow> moveInfo \<Rightarrow> nat list option \<Rightarrow> bool \<Rightarrow>
     nat \<times> mem_stream option \<times> wnParams list \<Rightarrow> moveInfoTile \<Rightarrow> (nat \<times> mem_stream option \<times> wnParams list) option" where
  "crossScore_step model turn mi cache notify = (\<lambda>(score, stream, calls) t. do {
     (oneScore, stream, cs) \<leftarrow> scoreWord model turn (cross_info mi t) cache stream notify;
     stream \<leftarrow> on_stream (\<lambda>s. formatWordScore s oneScore (multiplier_at model mi t)) stream;
     Some (trunc16 (score + trunc16 (oneScore * multiplier_at model mi t)), stream, calls @ cs)
   })"

definition figureMoveScore ::
    "userStrings \<Rightarrow> modelCtxt \<Rightarrow> nat \<Rightarrow> moveInfo \<Rightarrow> nat list option \<Rightarrow> mem_stream option \<Rightarrow> bool \<Rightarrow>
     (nat \<times> mem_stream option \<times> wnParams list) option" where
  "figureMoveScore us model turn mi cache stream notify = do {
     let nTiles = length (mtiles mi);
     xp_assert (nTiles > 0);
     xp_assert (nTiles \<le> MAX_TRAY_TILES);
     let moveMultiplier = prod_list (map (multiplier_at model mi) (mtiles mi));
     (oneScore, stream, calls) \<leftarrow> scoreWord model turn mi None stream notify;
     stream \<leftarrow> on_stream (\<lambda>s. formatWordScore s oneScore moveMultiplier) stream;
     (score, stream, calls) \<leftarrow> ofold (crossScore_step model turn mi cache notify)
        (trunc16 (oneScore * moveMultiplier), stream, calls) (mtiles mi);
     (score, stream) \<leftarrow> (if nTiles = MAX_TRAY_TILES then do {
          stream \<leftarrow> on_stream (\<lambda>s. mem_stream_catString s (Some (strBonusAll us))) stream;
          Some (trunc16 (score + EMPTIED_TRAY_BONUS), stream)
        } else Some (score, stream));
     stream \<leftarrow> on_stream (\<lambda>s. formatSummary us s score) stream;
     Some (score, stream, calls)
   }"

section \<open>The current move\<close>

datatype userMsg =
    UserError utilErr
  | InformWordsBlocked nat "mem_stream option" cstring

record blockCheckState =
  bcsStream :: "mem_stream option"
  nBadWords :: nat

definition blockCheck :: "bool \<Rightarrow> blockCheckState \<Rightarrow> wnParams \<Rightarrow> blockCheckState option" where
  "blockCheck silent bcs wnp =
     (if \<not> wnIsLegal wnp then do {
        let bcs = bcs\<lparr>nBadWords := trunc16 (nBadWords bcs + 1)\<rparr>;
        if \<not> silent then do {
          let s = (case bcsStream bcs of None \<Rightarrow> mem_stream_make_raw | Some s \<Rightarrow> s);
          s \<leftarrow> mem_stream_catString s (Some (wnWord wnp));
          s \<leftarrow> mem_stream_putU8 s 10;
          Some (bcs\<lparr>bcsStream := Some s\<rparr>)
        } else Some bcs
      } else Some bcs)"

record moveCheck =
  mcScore :: int
  mcStream :: "mem_stream option"
  mcCalls :: "wnParams list"
  mcMsgs :: "userMsg list"

text \<open>The words of a move that is legally placed: with \<open>PHONIES_BLOCK\<close> the notifier of the caller is chained
  behind the check of the words, otherwise it is called directly.\<close>

definition scoreLegalMove ::
    "userStrings \<Rightarrow> modelCtxt \<Rightarrow> nat \<Rightarrow> moveInfo \<Rightarrow> nat list option \<Rightarrow> mem_stream option \<Rightarrow> bool \<Rightarrow> bool \<Rightarrow>
     moveCheck option" where
  "scoreLegalMove us model turn mi cache stream silent notify = do {
     let checkDict = (PHONIES_BLOCK = phoniesAction (gi model));
     (tmpScore, stream, calls) \<leftarrow> figureMoveScore us model turn mi cache stream (notify \<or> checkDict);
     bcs \<leftarrow> (if checkDict then ofold (blockCheck silent) \<lparr>bcsStream = None, nBadWords = 0\<rparr> calls
             else Some \<lparr>bcsStream = None, nBadWords = 0\<rparr>);
     let calls = (if notify then calls else []);
     if checkDict \<and> 0 < nBadWords bcs then do {
       msgs \<leftarrow> (if silent then Some []
               else do { dict \<leftarrow> model_getPlayerDict model (int turn);
                         nm \<leftarrow> dict_getName dict;
                         Some [InformWordsBlocked (nBadWords bcs) (bcsStream bcs) nm] });
       Some \<lparr>mcScore = ILLEGAL_MOVE_SCORE, mcStream = stream, mcCalls = calls, mcMsgs = msgs\<rparr>
     } else Some \<lparr>mcScore = s16 (int tmpScore), mcStream = stream, mcCalls = calls, mcMsgs = []\<rparr>
   }"

definition checkScoreMove ::
    "userStrings \<Rightarrow> modelCtxt \<Rightarrow> nat \<Rightarrow> nat list option \<Rightarrow> mem_stream option \<Rightarrow> bool \<Rightarrow> bool \<Rightarrow> moveCheck option" where
  "checkScoreMove us model turn cache stream silent notify = do {
     player \<leftarrow> mem_get turn (players model);
     xp_assert (nPending player \<le> MAX_TRAY_TILES);
     if nPending player = 0 then do {
       stream \<leftarrow> on_stream (\<lambda>s. formatSummary us s 0) stream;
       Some \<lparr>mcScore = 0, mcStream = stream, mcCalls = [], mcMsgs = []\<rparr>
     } else do {
       (inLine, isH) \<leftarrow> tilesInLine model turn;
       if \<not> inLine then
         Some \<lparr>mcScore = ILLEGAL_MOVE_SCORE, mcStream = stream, mcCalls = [],
               mcMsgs = (if silent then [] else [UserError ERR_TILES_NOT_IN_LINE])\<rparr>
       else do {
         mi \<leftarrow> normalizeMoves model turn isH;
         err \<leftarrow> isLegalMove model mi;
         case err of
           Some e \<Rightarrow> Some \<lparr>mcScore = ILLEGAL_MOVE_SCORE, mcStream = stream, mcCalls = [],
                           mcMsgs = (if silent then [] else [UserError e])\<rparr>
         | None \<Rightarrow> scoreLegalMove us model turn mi cache stream silent notify
       }
     }
   }"

definition scoreCurrentMove ::
    "userStrings \<Rightarrow> modelCtxt \<Rightarrow> nat \<Rightarrow> mem_stream option \<Rightarrow> bool \<Rightarrow> (moveCheck \<times> modelCtxt) option" where
  "scoreCurrentMove us model turn stream notify = do {
     player \<leftarrow> mem_get turn (players model);
     xp_assert (\<not> curMoveValid player);
     mc \<leftarrow> checkScoreMove us model turn None stream True notify;
     xp_assert (mcScore mc \<ge> 0 \<or> mcScore mc = ILLEGAL_MOVE_SCORE);
     model \<leftarrow> upd_player turn (\<lambda>p. p\<lparr>curMoveScore := mcScore mc, curMoveValid := True\<rparr>) model;
     Some (mc, model)
   }"

text \<open>Whether the current move is legal, its score, what was written and called, and the model with the
  score noted.\<close>

definition getCurrentMoveScoreIfLegal ::
    "userStrings \<Rightarrow> modelCtxt \<Rightarrow> nat \<Rightarrow> mem_stream option \<Rightarrow> bool \<Rightarrow>
     (bool \<times> int \<times> mem_stream option \<times> wnParams list \<times> modelCtxt) option" where
  "getCurrentMoveScoreIfLegal us model turn stream notify = do {
     player \<leftarrow> mem_get turn (players model);
     (stream, calls, model) \<leftarrow>
       (if \<not> curMoveValid player then do {
          (mc, model) \<leftarrow> scoreCurrentMove us model turn stream notify;
          Some (mcStream mc, mcCalls mc, model)
        } else Some (stream, [], model));
     player \<leftarrow> mem_get turn (players model);
     Some (curMoveScore player \<noteq> ILLEGAL_MOVE_SCORE, curMoveScore player, stream, calls, model)
   }"

definition model_checkMoveLegal ::
    "userStrings \<Rightarrow> modelCtxt \<Rightarrow> nat \<Rightarrow> mem_stream option \<Rightarrow> bool \<Rightarrow> (bool \<times> moveCheck) option" where
  "model_checkMoveLegal us model turn stream notify = do {
     mc \<leftarrow> checkScoreMove us model turn None stream False notify;
     Some (mcScore mc \<noteq> ILLEGAL_MOVE_SCORE, mc)
   }"

definition adjustScoreForUndone :: "userStrings \<Rightarrow> modelCtxt \<Rightarrow> moveInfo \<Rightarrow> nat \<Rightarrow> modelCtxt option" where
  "adjustScoreForUndone us model mi turn = do {
     moveScore \<leftarrow> (if length (mtiles mi) = 0 then Some 0
                  else do { (s, _) \<leftarrow> figureMoveScore us model turn mi None None False; Some s });
     upd_player turn (\<lambda>p. p\<lparr>pscore := s16 (pscore p - int moveScore), curMoveScore := 0, curMoveValid := True\<rparr>) model
   }"

definition model_getPlayerScore :: "modelCtxt \<Rightarrow> nat \<Rightarrow> int option" where
  "model_getPlayerScore model pl = do { player \<leftarrow> mem_get pl (players model); Some (pscore player) }"

definition model_currentMoveToMoveInfo :: "modelCtxt \<Rightarrow> nat \<Rightarrow> moveInfo option" where
  "model_currentMoveToMoveInfo model turn = do {
     player \<leftarrow> mem_get turn (players model);
     pts \<leftarrow> mem_read 0 (nPending player) (pendingTiles player);
     let tile_of = (\<lambda>pt. if ptile pt AND TILE_BLANK_BIT \<noteq> 0
                        then (ptile pt AND TILE_VALUE_MASK) OR TILE_BLANK_BIT else ptile pt AND TILE_VALUE_MASK);
     case pts of
       [] \<Rightarrow> normalizeMI \<lparr>commonCoord = 0, isHorizontal = True, mtiles = []\<rparr>
     | [pt] \<Rightarrow> normalizeMI \<lparr>commonCoord = prow pt, isHorizontal = True,
                 mtiles = [\<lparr>varCoord = pcol pt, mtile = tile_of pt\<rparr>]\<rparr>
     | pt # pt2 # _ \<Rightarrow> do {
         let isH = (prow pt = prow pt2);
         xp_assert (list_all (\<lambda>p. if isH then prow p = prow pt else pcol p = pcol pt) pts);
         normalizeMI \<lparr>commonCoord = (if isH then prow pt else pcol pt), isHorizontal = isH,
           mtiles = map (\<lambda>p. \<lparr>varCoord = (if isH then pcol p else prow p), mtile = tile_of p\<rparr>) pts\<rparr>
       }
   }"

section \<open>Final scores\<close>

text \<open>Penalty of each player and the first player with an empty tray.\<close>

definition tileValues :: "dictionaryCtxt \<Rightarrow> tile list \<Rightarrow> int option" where
  "tileValues dict ts = ofold (\<lambda>p t. do { v \<leftarrow> dict_getTileValue dict t; Some (s16 (p + int v)) }) 0 ts"

definition finalScores_step ::
    "modelCtxt \<Rightarrow> dictionaryCtxt \<Rightarrow> int list \<times> int \<times> int option \<Rightarrow> nat \<Rightarrow> (int list \<times> int \<times> int option) option" where
  "finalScores_step model dict = (\<lambda>(penalties, totalPenalty, firstDone) ii. do {
     player \<leftarrow> mem_get ii (players model);
     let tray = trayTiles player;
     (pen, firstDone) \<leftarrow>
       (if length tray = 0 \<and> firstDone = None then Some (0, Some (int ii))
        else do { pen \<leftarrow> tileValues dict (rev tray); Some (pen, firstDone) });
     pts \<leftarrow> mem_read 0 (nPending player) (pendingTiles player);
     pen \<leftarrow> ofold (\<lambda>p pt. do { v \<leftarrow> dict_getTileValue dict (ptile pt AND TILE_VALUE_MASK); Some (s16 (p + int v)) })
             pen (rev pts);
     Some (penalties @ [pen], s16 (totalPenalty + pen), firstDone)
   })"

text \<open>The final score and the adjustment of each player.\<close>

definition model_figureFinalScores :: "modelCtxt \<Rightarrow> (int \<times> int) list option" where
  "model_figureFinalScores model = do {
     dict \<leftarrow> model_getDictionary model;
     xp_assert (mNPlayers model \<le> MAX_NUM_PLAYERS);
     (penalties, totalPenalty, firstDone) \<leftarrow>
       ofold (finalScores_step model dict) ([], 0, None) [0..<mNPlayers model];
     ofold (\<lambda>out ii. do {
        let penalty = (if firstDone = Some (int ii) then totalPenalty else s16 (- (penalties ! ii)));
        score \<leftarrow> model_getPlayerScore model ii;
        score \<leftarrow> (if timerEnabled (gi model)
                 then do { p \<leftarrow> player_timePenalty (gi model) ii; Some (s16 (score - int p)) } else Some score);
        Some (out @ [(s16 (score + penalty), penalty)])
      }) [] [0..<mNPlayers model]
   }"

end
