(* ===== verification/Xw_ScoreSpec.thy ===== *)
theory Xw_ScoreSpec
  imports Xw_Score
begin

text \<open>
  What the scoring of \<open>mscore.c\<close> promises: the order of the tiles of a move, the rule by which a
  placement is legal, and the score of a move as a sum over its words.
\<close>
section \<open>Sorting the tiles of a move\<close>

lemma lowest_spec:
  assumes "k \<le> length ts"
  shows "case foldl (\<lambda>(lowest, lowIndex) jj.
              let cur = varCoord (ts ! jj)
              in if cur < lowest \<and> int cur > lt then (cur, jj) else (lowest, lowIndex)) (100, 100) [0..<k] of
     (c, i) \<Rightarrow> c = 100 \<and> (\<forall>j<k. lt < int (varCoord (ts ! j)) \<longrightarrow> 100 \<le> varCoord (ts ! j)) \<or>
       i < k \<and> c = varCoord (ts ! i) \<and> c < 100 \<and> lt < int c \<and>
         (\<forall>j<k. lt < int (varCoord (ts ! j)) \<longrightarrow> c \<le> varCoord (ts ! j))"
  using assms
proof (induction k)
  case 0
  then show ?case by simp
next
  case (Suc k)
  then show ?case by (auto simp: Let_def less_Suc_eq split: prod.splits if_splits)
qed

lemma normalizeMI_lowest_least:
  assumes "t \<in> set ts" and "lt < int (varCoord t)" and "\<forall>x \<in> set ts. varCoord x < 100"
  shows "\<exists>i < length ts. normalizeMI_lowest ts lt = (varCoord (ts ! i), i) \<and> lt < int (varCoord (ts ! i)) \<and>
     (\<forall>x \<in> set ts. lt < int (varCoord x) \<longrightarrow> varCoord (ts ! i) \<le> varCoord x)"
proof -
  from assms(1) obtain j where "j < length ts" "ts ! j = t" by (auto simp: in_set_conv_nth)
  then have "\<not> (\<forall>j<length ts. lt < int (varCoord (ts ! j)) \<longrightarrow> 100 \<le> varCoord (ts ! j))"
    using assms(1,2,3) by (metis not_le)
  with lowest_spec[of "length ts" ts lt] show ?thesis
    by (fastforce simp: normalizeMI_lowest_def in_set_conv_nth split: prod.splits)
qed

lemma normalizeMI_loop_sorts:
  assumes "\<forall>x \<in> set ts. varCoord x < 100" and "distinct (map varCoord ts)" and "length ts \<le> MAX_ROWS"
    and "n = length (filter (\<lambda>x. lt < int (varCoord x)) ts)"
  shows "\<exists>r. normalizeMI_loop ts n lt out = Some (out @ r) \<and>
     mset r = mset (filter (\<lambda>x. lt < int (varCoord x)) ts) \<and> sorted_wrt (<) (map varCoord r)"
  using assms(4)
proof (induction n arbitrary: lt out)
  case 0
  then show ?case by (simp add: filter_empty_conv)
next
  case (Suc n)
  let ?after = "\<lambda>lt. filter (\<lambda>x. lt < int (varCoord x)) ts"
  from Suc.prems have "?after lt \<noteq> []" by auto
  then obtain t where "t \<in> set ts" "lt < int (varCoord t)" by (auto simp: filter_empty_conv)
  from normalizeMI_lowest_least[OF this assms(1)] obtain i where i: "i < length ts"
    and e: "normalizeMI_lowest ts lt = (varCoord (ts ! i), i)" and gt: "lt < int (varCoord (ts ! i))"
    and least: "\<forall>x \<in> set ts. lt < int (varCoord x) \<longrightarrow> varCoord (ts ! i) \<le> varCoord x" by blast
  let ?t = "ts ! i"
  have inj: "x = ?t" if "x \<in> set ts" "varCoord x = varCoord ?t" for x
    using that i assms(2) by (metis inj_on_eq_iff distinct_map nth_mem)
  have split: "filter_mset (\<lambda>x. lt < int (varCoord x)) (mset ts) =
      add_mset ?t (filter_mset (\<lambda>x. varCoord ?t < varCoord x) (mset ts))" (is "?L = ?R")
  proof (rule multiset_eqI)
    fix x
    have c: "count (mset ts) ?t = 1"
      using i assms(2) by (metis distinct_count_atmost_1 distinct_map nth_mem)
    show "count ?L x = count ?R x"
    proof (cases "x \<in> set ts")
      case True
      then show ?thesis using least inj[of x] gt c by (cases "x = ?t") (auto simp: le_less)
    next
      case False
      then show ?thesis using i by (auto simp: count_mset_0_iff)
    qed
  qed
  then have a: "mset (?after lt) = add_mset ?t (mset (?after (int (varCoord ?t))))" by (simp add: mset_filter)
  then have "n = length (?after (int (varCoord ?t)))"
    using Suc.prems by (metis Suc_inject size_add_mset size_mset)
  from Suc.IH[OF this, of "out @ [?t]"] obtain r where
    r: "normalizeMI_loop ts n (int (varCoord ?t)) (out @ [?t]) = Some ((out @ [?t]) @ r)"
       "mset r = mset (?after (int (varCoord ?t)))" "sorted_wrt (<) (map varCoord r)" by blast
  have "\<forall>x \<in> set r. varCoord ?t < varCoord x" 
    using mset_eq_setD[OF r(2)] by auto
  with r(3) have "sorted_wrt (<) (map varCoord (?t # r))" by auto
  moreover have "mset (?t # r) = mset (?after lt)" using a r(2) by simp
  moreover have "normalizeMI_loop ts (Suc n) lt out = Some (out @ ?t # r)"
    using r(1) i e assms(3) by simp
  ultimately show ?case by blast
qed

text \<open>The function \<open>normalizeMI\<close> sorts the tiles of a move: tiles at different places along the line come out in
  the order of their places, none lost and none invented, and the line is as it was.\<close>

theorem normalizeMI_sorts:
  assumes "distinct (map varCoord (mtiles mi))" and "\<forall>t \<in> set (mtiles mi). varCoord t < MAX_ROWS"
    and "length (mtiles mi) \<le> MAX_TRAY_TILES"
  shows "\<exists>ts. normalizeMI mi = Some (mi\<lparr>mtiles := ts\<rparr>) \<and> mset ts = mset (mtiles mi) \<and>
     sorted_wrt (<) (map varCoord ts)"
proof -
  have "\<forall>x \<in> set (mtiles mi). varCoord x < 100" "length (mtiles mi) \<le> MAX_ROWS"
    using assms(2,3) by (auto simp: xw_consts)
  from normalizeMI_loop_sorts[OF this(1) assms(1) this(2), of "length (mtiles mi)" "-1" "[]"]
  show ?thesis by (auto simp: normalizeMI_def)
qed

theorem normalizeMI_sorts_witness:
  "\<exists>ts. normalizeMI \<lparr>commonCoord = 7, isHorizontal = True, mtiles = [\<lparr>varCoord = 5, mtile = 3\<rparr>, \<lparr>varCoord = 2, mtile = 4\<rparr>]\<rparr> =
        Some \<lparr>commonCoord = 7, isHorizontal = True, mtiles = ts\<rparr> \<and>
     mset ts = {#\<lparr>varCoord = 5, mtile = 3\<rparr>, \<lparr>varCoord = 2, mtile = 4\<rparr>#} \<and> sorted_wrt (<) (map varCoord ts)"
  using normalizeMI_sorts[of "\<lparr>commonCoord = 7, isHorizontal = True,
      mtiles = [\<lparr>varCoord = 5, mtile = 3\<rparr>, \<lparr>varCoord = 2, mtile = 4\<rparr>]\<rparr>"] by (simp add: xw_consts)

section \<open>Legal placements\<close>

text \<open>A committed tile lies on the square.\<close>

definition occupied :: "modelCtxt \<Rightarrow> nat \<times> nat \<Rightarrow> bool" where
  "occupied m s \<longleftrightarrow> modelIsEmptyAt m s = Some False"

definition next_to :: "nat \<times> nat \<Rightarrow> nat \<times> nat \<Rightarrow> bool" where
  "next_to a b \<longleftrightarrow> fst a = fst b \<and> (snd b = snd a + 1 \<or> snd a = snd b + 1) \<or>
     snd a = snd b \<and> (fst b = fst a + 1 \<or> fst a = fst b + 1)"

definition line_sq :: "moveInfo \<Rightarrow> nat \<Rightarrow> nat \<times> nat" where
  "line_sq mi v = sq (isHorizontal mi) (commonCoord mi) v"

definition move_squares :: "moveInfo \<Rightarrow> (nat \<times> nat) set" where
  "move_squares mi = (line_sq mi \<circ> varCoord) ` set (mtiles mi)"

definition gapless :: "modelCtxt \<Rightarrow> moveInfo \<Rightarrow> bool" where
  "gapless m mi \<longleftrightarrow> (\<forall>v \<in> {varCoord (hd (mtiles mi))..varCoord (last (mtiles mi))}.
     line_sq mi v \<in> move_squares mi \<or> occupied m (line_sq mi v))"

definition in_contact :: "modelCtxt \<Rightarrow> moveInfo \<Rightarrow> bool" where
  "in_contact m mi \<longleftrightarrow> (\<exists>s \<in> move_squares mi. \<exists>q. next_to s q \<and> occupied m q)"

definition star :: "modelCtxt \<Rightarrow> nat \<times> nat" where
  "star m = (nRows m div 2, nRows m div 2)"

text \<open>The rules of the game: no gap in the line, and contact with a committed tile unless it is a first
  move, of at least two tiles, over the star.\<close>

definition placement_error :: "modelCtxt \<Rightarrow> moveInfo \<Rightarrow> utilErr option" where
  "placement_error m mi =
     (if \<not> gapless m mi then Some ERR_NO_EMPTIES_IN_TURN
      else if in_contact m mi then None
      else if star m \<notin> move_squares mi then Some ERR_TILES_MUST_CONTACT
      else if length (mtiles mi) < 2 then Some ERR_TWO_TILES_FIRST_MOVE
      else None)"

definition move_on_board :: "modelCtxt \<Rightarrow> moveInfo \<Rightarrow> bool" where
  "move_on_board m mi \<longleftrightarrow> mtiles mi \<noteq> [] \<and> sorted_wrt (<) (map varCoord (mtiles mi)) \<and>
     commonCoord mi < nCols m \<and> (\<forall>t \<in> set (mtiles mi). varCoord t < nCols m) \<and>
     (\<forall>s \<in> move_squares mi. \<not> occupied m s)"

lemma line_sq_inj: "line_sq mi v = line_sq mi w \<longleftrightarrow> v = w"
  by (simp add: line_sq_def sq_def)

lemma line_sq_move: "line_sq mi v \<in> move_squares mi \<longleftrightarrow> v \<in> varCoord ` set (mtiles mi)"
  by (auto simp: move_squares_def line_sq_inj)

lemma emptyAt_wf:
  assumes "model_wf m"
  shows "modelIsEmptyAt m s = Some (\<not> occupied m s)"
proof -
  have "board_wf m" using assms by (simp add: model_wf_def)
  then have "\<exists>b. modelIsEmptyAt m s = Some b"
    by (cases s) (auto simp: modelIsEmptyAt_def model_numCols_def model_getTile_def split: if_splits)
  then show ?thesis by (auto simp: occupied_def)
qed

lemma occupied_on_board: "occupied m (c, r) \<Longrightarrow> c < nCols m \<and> r < nCols m"
  by (simp add: occupied_def modelIsEmptyAt_def model_numCols_def split: if_splits)

lemma anyOccupied_wf: "model_wf m \<Longrightarrow> anyOccupied m ss = Some (\<exists>s \<in> set ss. occupied m s)"
  by (induction ss) (simp_all add: emptyAt_wf)

lemma gaps_wf:
  assumes wf: "model_wf m"
  shows "sorted_wrt (<) (map varCoord ts) \<Longrightarrow> \<forall>t \<in> set ts. lo \<le> varCoord t \<Longrightarrow> lo \<le> hi \<Longrightarrow>
    (if ts = [] then lo = hi else hi = varCoord (last ts) + 1) \<Longrightarrow>
    isLegalMove_gaps m mi ts [lo..<hi] =
      Some (\<forall>v \<in> {lo..<hi}. v \<in> varCoord ` set ts \<or> occupied m (line_sq mi v))"
proof (induction "hi - lo" arbitrary: ts lo)
  case 0
  then have "lo = hi" by simp
  moreover have "ts = []"
  proof (rule ccontr)
    assume "ts \<noteq> []"
    then show False using 0 \<open>lo = hi\<close> last_in_set[of ts] by fastforce
  qed
  ultimately show ?case by simp
next
  case (Suc n)
  then have u: "[lo..<hi] = lo # [Suc lo..<hi]" and l: "lo < hi" by (simp_all add: upt_conv_Cons)
  with Suc.prems(4) obtain t ts' where ts: "ts = t # ts'" by (cases ts) auto
  have iv: "{lo..<hi} = insert lo {Suc lo..<hi}" using l by auto
  show ?case
  proof (cases "varCoord t = lo")
    case True
    have "isLegalMove_gaps m mi ts' [Suc lo..<hi] =
        Some (\<forall>v \<in> {Suc lo..<hi}. v \<in> varCoord ` set ts' \<or> occupied m (line_sq mi v))"
      using Suc.prems Suc.hyps(2) True ts l by (intro Suc.hyps(1)) auto
    then show ?thesis using True ts u iv by auto
  next
    case False
    have up: "\<forall>x \<in> set ts. Suc lo \<le> varCoord x" using Suc.prems(1,2) False ts by force
    then have no: "lo \<notin> varCoord ` set ts" by auto
    have "isLegalMove_gaps m mi ts [Suc lo..<hi] =
        Some (\<forall>v \<in> {Suc lo..<hi}. v \<in> varCoord ` set ts \<or> occupied m (line_sq mi v))"
      using Suc.prems Suc.hyps(2) ts l up by (intro Suc.hyps(1)) auto
    moreover have "modelIsEmptyAt m (sq (isHorizontal mi) (commonCoord mi) lo) = Some (\<not> occupied m (line_sq mi lo))"
      by (simp add: emptyAt_wf[OF wf] line_sq_def)
    ultimately show ?thesis using False ts u iv no by auto
  qed
qed

lemma sorted_span:
  assumes "sorted_wrt (<) (map varCoord ts)" and "ts \<noteq> []"
  shows "varCoord ` set ts \<subseteq> {varCoord (hd ts)..varCoord (last ts)}" "card (varCoord ` set ts) = length ts"
    "varCoord (hd ts) \<le> varCoord (last ts)"
    "varCoord (last ts) - varCoord (hd ts) + 1 \<le> length ts \<longleftrightarrow>
       varCoord ` set ts = {varCoord (hd ts)..varCoord (last ts)}"
proof -
  let ?S = "varCoord ` set ts" and ?I = "{varCoord (hd ts)..varCoord (last ts)}"
  have s: "sorted (map varCoord ts)" and d: "distinct (map varCoord ts)"
    using assms(1) by (simp_all add: strict_sorted_iff)
  have lo: "varCoord (hd ts) \<le> varCoord x" if "x \<in> set ts" for x
    using s that by (cases ts) auto
  have hi: "varCoord x \<le> varCoord (last ts)" if "x \<in> set ts" for x
    using s that by (induction ts) auto
  show sub: "?S \<subseteq> ?I" using lo hi by auto
  show c: "card ?S = length ts" using d by (simp add: distinct_map card_image distinct_card)
  show le: "varCoord (hd ts) \<le> varCoord (last ts)" using lo assms(2) by simp
  have "card ?I = varCoord (last ts) - varCoord (hd ts) + 1" using le by simp
  then show "varCoord (last ts) - varCoord (hd ts) + 1 \<le> length ts \<longleftrightarrow> ?S = ?I"
    using sub c by (metis card_mono card_subset_eq finite_atLeastAtMost le_antisym order_refl)
qed

lemma gapless_contact:
  assumes mb: "move_on_board m mi" and g: "gapless m mi"
    and ne: "varCoord ` set (mtiles mi) \<noteq> {varCoord (hd (mtiles mi))..varCoord (last (mtiles mi))}"
  shows "in_contact m mi"
proof -
  let ?S = "varCoord ` set (mtiles mi)" and ?l = "varCoord (hd (mtiles mi))" and ?h = "varCoord (last (mtiles mi))"
  have s: "?S \<subseteq> {?l..?h}" using mb by (intro sorted_span(1)) (simp_all add: move_on_board_def)
  with ne obtain v where v: "v \<in> {?l..?h}" "v \<notin> ?S" by blast
  have l: "?l \<in> ?S" using mb by (simp add: move_on_board_def)
  define w where "w = (LEAST w. w \<notin> ?S \<and> ?l \<le> w)"
  have w: "w \<notin> ?S" "?l \<le> w" using LeastI[of "\<lambda>w. w \<notin> ?S \<and> ?l \<le> w" v] v by (simp_all add: w_def)
  have wv: "w \<le> v" using v by (simp add: w_def Least_le)
  have "?l < w" using w l by (metis le_neq_implies_less)
  then have "\<not> (w - 1 \<notin> ?S \<and> ?l \<le> w - 1)" using not_less_Least[of "w - 1" "\<lambda>w. w \<notin> ?S \<and> ?l \<le> w"] by (simp add: w_def)
  with \<open>?l < w\<close> have "w - 1 \<in> ?S" by auto
  moreover have "w \<in> {?l..?h}" using w wv v by auto
  then have "occupied m (line_sq mi w)" using g w(1) by (auto simp: gapless_def line_sq_move)
  moreover have "next_to (line_sq mi (w - 1)) (line_sq mi w)"
    using \<open>?l < w\<close> by (auto simp: next_to_def line_sq_def sq_def)
  ultimately show ?thesis unfolding in_contact_def by (metis line_sq_move)
qed

lemma in_contact_squares:
  "q \<in> set (contact_squares mi l h) \<longleftrightarrow> 0 < l \<and> q = line_sq mi (l - 1) \<or> h \<noteq> 31 \<and> q = line_sq mi (h + 1) \<or>
     0 < commonCoord mi \<and> q \<in> sq (isHorizontal mi) (commonCoord mi - 1) ` {l..h} \<or>
     commonCoord mi \<le> 31 \<and> q \<in> sq (isHorizontal mi) (commonCoord mi + 1) ` {l..h}"
proof -
  have u: "set [l..<h + 1] = {l..h}" by auto
  have c: "set (if b then xs else []) = {x. b \<and> x \<in> set xs}" for b and xs :: "(nat \<times> nat) list" by simp
  show ?thesis
    unfolding contact_squares_def Let_def set_append Un_iff c mem_Collect_eq set_map u line_sq_def by (simp add: xw_consts)
qed

lemma contact_squares_near:
  assumes "q \<in> set (contact_squares mi l h)" and "l \<le> h"
  shows "\<exists>v. v \<in> {l..h} \<and> next_to (line_sq mi v) q"
proof -
  have lh: "l \<in> {l..h}" "h \<in> {l..h}" using assms(2) by simp_all
  consider "0 < l" "q = line_sq mi (l - 1)" | "q = line_sq mi (h + 1)"
    | v where "0 < commonCoord mi" "v \<in> {l..h}" "q = sq (isHorizontal mi) (commonCoord mi - 1) v"
    | v where "v \<in> {l..h}" "q = sq (isHorizontal mi) (commonCoord mi + 1) v"
    using assms(1) unfolding in_contact_squares image_iff by (elim disjE conjE bexE) simp_all
  then show ?thesis
  proof cases
    case 1
    then have "next_to (line_sq mi l) q" by (auto simp: next_to_def line_sq_def sq_def)
    with lh show ?thesis by blast
  next
    case 2
    then have "next_to (line_sq mi h) q" by (auto simp: next_to_def line_sq_def sq_def)
    with lh show ?thesis by blast
  next
    case 3
    then have "next_to (line_sq mi v) q" by (auto simp: next_to_def line_sq_def sq_def)
    with 3 show ?thesis by blast
  next
    case 4
    then have "next_to (line_sq mi v) q" by (auto simp: next_to_def line_sq_def sq_def)
    with 4 show ?thesis by blast
  qed
qed

lemma next_to_line:
  assumes "next_to (line_sq mi v) q"
  shows "q = line_sq mi (v + 1) \<or> 0 < v \<and> q = line_sq mi (v - 1) \<or> q = sq (isHorizontal mi) (commonCoord mi + 1) v \<or>
     0 < commonCoord mi \<and> q = sq (isHorizontal mi) (commonCoord mi - 1) v"
proof (cases "isHorizontal mi")
  case True
  then show ?thesis using assms by (cases q) (auto simp: next_to_def sq_def line_sq_def)
next
  case False
  then show ?thesis using assms by (cases q) (auto simp: next_to_def sq_def line_sq_def)
qed

lemma near_contact_squares:
  assumes v: "v \<in> {l..h}" and q: "next_to (line_sq mi v) q" and b: "fst q < 32" "snd q < 32" and f: "q \<notin> line_sq mi ` {l..h}"
  shows "q \<in> set (contact_squares mi l h)"
  using next_to_line[OF q]
proof (elim disjE conjE)
  assume e: "q = line_sq mi (v + 1)"
  then have "v + 1 \<notin> {l..h}" using f by blast
  then have "v = h" using v by simp
  moreover have "v + 1 < 32" using b unfolding e line_sq_def sq_def by (simp split: if_splits)
  ultimately show ?thesis unfolding in_contact_squares using e by simp
next
  assume e: "0 < v" "q = line_sq mi (v - 1)"
  then have "v - 1 \<notin> {l..h}" using f by blast
  then have "l = v" using v by auto
  then show ?thesis unfolding in_contact_squares using e by simp
next
  assume e: "q = sq (isHorizontal mi) (commonCoord mi + 1) v"
  then have "commonCoord mi + 1 < 32" using b unfolding e sq_def by (simp split: if_splits)
  then show ?thesis unfolding in_contact_squares e using v by simp
next
  assume "0 < commonCoord mi" "q = sq (isHorizontal mi) (commonCoord mi - 1) v"
  then show ?thesis unfolding in_contact_squares using v by blast
qed

lemma contact_squares_contact:
  assumes wf: "model_wf m" and mb: "move_on_board m mi"
    and full: "varCoord ` set (mtiles mi) = {varCoord (hd (mtiles mi))..varCoord (last (mtiles mi))}"
  shows "(\<exists>s \<in> set (contact_squares mi (varCoord (hd (mtiles mi))) (varCoord (last (mtiles mi)))). occupied m s) \<longleftrightarrow>
     in_contact m mi"
proof -
  let ?l = "varCoord (hd (mtiles mi))" and ?h = "varCoord (last (mtiles mi))"
  have ms: "move_squares mi = line_sq mi ` {?l..?h}" unfolding full[symmetric] by (auto simp: move_squares_def)
  have "nCols m \<le> 32" using wf by (simp add: model_wf_def board_wf_def xw_consts)
  then have occ: "fst q < 32 \<and> snd q < 32" if "occupied m q" for q
    using occupied_on_board[of m "fst q" "snd q"] that by simp
  have free: "occupied m q \<Longrightarrow> q \<notin> line_sq mi ` {?l..?h}" for q
    using mb by (auto simp: move_on_board_def ms)
  have le: "?l \<le> ?h" using mb by (intro sorted_span(3)) (simp_all add: move_on_board_def)
  show ?thesis unfolding in_contact_def ms
    using contact_squares_near[OF _ le, of _ mi] near_contact_squares[of _ ?l ?h mi] occ free by blast
qed

text \<open>C5: \<open>isLegalMove\<close> decides the rules of the game. For tiles in order on free squares of one line of a
  well-formed board it always returns, accepts exactly the moves without a gap that touch a committed
  tile or are a first move of two tiles or more over the star, and names the rule that is broken.\<close>

theorem isLegalMove_rules:
  assumes "model_wf m" and "move_on_board m mi"
  shows "isLegalMove m mi = Some (placement_error m mi)"
proof -
  let ?ts = "mtiles mi"
  let ?l = "varCoord (hd ?ts)" and ?h = "varCoord (last ?ts)"
  have ne: "?ts \<noteq> []" and srt: "sorted_wrt (<) (map varCoord ?ts)" using assms(2) by (simp_all add: move_on_board_def)
  note span = sorted_span[OF srt ne]
  have t0: "mem_get 0 ?ts = Some (hd ?ts)" "mem_get (length ?ts - 1) ?ts = Some (last ?ts)"
    using ne by (simp_all add: hd_conv_nth last_conv_nth)
  have lt: "length ?ts = 1 \<or> ?l < ?h"
  proof (cases ?ts)
    case (Cons a xs)
    then show ?thesis using srt by (cases xs) (auto simp: last_in_set)
  qed (use ne in simp)
  show ?thesis
  proof (cases "?h - ?l + 1 > length ?ts")
    case True
    then have nf: "varCoord ` set ?ts \<noteq> {?l..?h}" using span(4) by simp
    have "isLegalMove_gaps m mi ?ts [?l..<?h + 1] =
        Some (\<forall>v \<in> {?l..<?h + 1}. v \<in> varCoord ` set ?ts \<or> occupied m (line_sq mi v))"
      using span(1,3) ne by (intro gaps_wf[OF assms(1) srt]) auto
    also have "\<dots> = Some (gapless m mi)" by (simp add: gapless_def line_sq_move atLeastLessThanSuc_atLeastAtMost)
    finally show ?thesis
      using True gapless_contact[OF assms(2) _ nf] t0 lt
      by (auto simp: isLegalMove_def placement_error_def Let_def simp del: bind_Some_iff)
  next
    case False
    then have full: "varCoord ` set ?ts = {?l..?h}" using span(4) by simp
    then have g: "gapless m mi" by (simp add: gapless_def line_sq_move)
    have st: "star m \<in> move_squares mi \<longleftrightarrow>
        commonCoord mi = nRows m div 2 \<and> ?l \<le> nRows m div 2 \<and> nRows m div 2 \<le> ?h"
    proof -
      have "move_squares mi = line_sq mi ` {?l..?h}" unfolding full[symmetric] by (auto simp: move_squares_def)
      then show ?thesis by (auto simp: star_def line_sq_def sq_def image_iff)
    qed
    show ?thesis
      using False g st t0 lt contact_squares_contact[OF assms full] ne
      by (auto simp: isLegalMove_def placement_error_def Let_def anyOccupied_wf[OF assms(1)] model_numRows_def
          not_less le_Suc_eq length_0_conv simp del: bind_Some_iff)
  qed
qed

definition small_move :: moveInfo where
  "small_move = \<lparr>commonCoord = 1, isHorizontal = True, mtiles = [\<lparr>varCoord = 1, mtile = 2\<rparr>, \<lparr>varCoord = 2, mtile = 3\<rparr>]\<rparr>"

lemma small_move_on_board: "move_on_board small_model small_move"
proof -
  have "modelIsEmptyAt small_model (1, 1) = Some True" "modelIsEmptyAt small_model (2, 1) = Some True" by code_simp+
  then show ?thesis
    by (simp add: move_on_board_def small_move_def move_squares_def line_sq_def sq_def occupied_def small_model_def)
qed

lemma small_move_legal: "isLegalMove small_model small_move = Some None"
  by code_simp

theorem isLegalMove_rules_witness: "placement_error small_model small_move = None"
  using isLegalMove_rules[OF small_model_wf(1) small_move_on_board] small_move_legal by simp

section \<open>The score of a move\<close>

definition covered :: "modelCtxt \<Rightarrow> moveInfo \<Rightarrow> nat \<Rightarrow> bool" where
  "covered m mi v \<longleftrightarrow> line_sq mi v \<in> move_squares mi \<or> occupied m (line_sq mi v)"

text \<open>The places of the word through the tiles of a move: those reached from the first tile without
  crossing an empty square.\<close>

definition word_places :: "modelCtxt \<Rightarrow> moveInfo \<Rightarrow> nat set" where
  "word_places m mi = {v. v < nCols m \<and>
     (let f = varCoord (hd (mtiles mi)) in \<forall>w \<in> {min v f..max v f}. covered m mi w)}"

text \<open>The value of a tile: a blank counts as the blank, whatever its face.\<close>

definition face_value :: "dictionaryCtxt \<Rightarrow> tile \<Rightarrow> bool \<Rightarrow> nat option" where
  "face_value dict t isBlank = do {
     t \<leftarrow> (if isBlank then dict_getBlankTile dict else Some t);
     dict_getTileValue dict t
   }"

definition place_value :: "modelCtxt \<Rightarrow> dictionaryCtxt \<Rightarrow> moveInfo \<Rightarrow> nat \<Rightarrow> nat" where
  "place_value m dict mi v =
     (case find (\<lambda>t. varCoord t = v) (mtiles mi) of
        Some t \<Rightarrow> the (face_value dict (mtile t AND TILE_VALUE_MASK) (IS_BLANK (mtile t))) * tile_multiplier m (line_sq mi v)
      | None \<Rightarrow> (let (t, isBlank, _) = the (the (model_getTile m (fst (line_sq mi v)) (snd (line_sq mi v)) False 65535))
                in the (face_value dict t isBlank)))"

text \<open>A word of one letter does not count.\<close>

definition word_value :: "modelCtxt \<Rightarrow> dictionaryCtxt \<Rightarrow> moveInfo \<Rightarrow> nat" where
  "word_value m dict mi =
     (if card (word_places m mi) < 2 then 0 else \<Sum>v \<in> word_places m mi. place_value m dict mi v)"

definition move_value :: "modelCtxt \<Rightarrow> dictionaryCtxt \<Rightarrow> moveInfo \<Rightarrow> nat" where
  "move_value m dict mi =
     word_value m dict mi * prod_list (map (multiplier_at m mi) (mtiles mi)) +
     (\<Sum>t \<leftarrow> mtiles mi. word_value m dict (cross_info mi t) * multiplier_at m mi t) +
     (if length (mtiles mi) = MAX_TRAY_TILES then EMPTIED_TRAY_BONUS else 0)"

text \<open>The dictionary knows the tiles of the move and of the board.\<close>

definition tiles_known :: "modelCtxt \<Rightarrow> dictionaryCtxt \<Rightarrow> moveInfo \<Rightarrow> bool" where
  "tiles_known m dict mi \<longleftrightarrow>
     (\<forall>t \<in> set (mtiles mi). face_value dict (mtile t AND TILE_VALUE_MASK) (IS_BLANK (mtile t)) \<noteq> None) \<and>
     (\<forall>c < nCols m. \<forall>r < nCols m. case model_getTile m c r False 65535 of
        Some (Some (t, isBlank, _)) \<Rightarrow> face_value dict t isBlank \<noteq> None | _ \<Rightarrow> True)"

lemma find_start_spec:
  assumes "model_wf m"
  shows "\<exists>a \<le> v. find_start m H c v = Some a \<and> (\<forall>w. a \<le> w \<longrightarrow> w < v \<longrightarrow> occupied m (sq H c w)) \<and>
     (0 < a \<longrightarrow> \<not> occupied m (sq H c (a - 1)))"
proof (induction v)
  case 0
  then show ?case by simp
next
  case (Suc v)
  then obtain a where a: "a \<le> v" "find_start m H c v = Some a" "\<forall>w. a \<le> w \<longrightarrow> w < v \<longrightarrow> occupied m (sq H c w)"
    "0 < a \<longrightarrow> \<not> occupied m (sq H c (a - 1))" by blast
  show ?case
  proof (cases "occupied m (sq H c v)")
    case True
    then have "\<forall>w. a \<le> w \<longrightarrow> w < Suc v \<longrightarrow> occupied m (sq H c w)" using a(3) by (auto simp: less_Suc_eq)
    then show ?thesis using a True by (intro exI[of _ a]) (simp add: emptyAt_wf[OF assms])
  next
    case False
    then show ?thesis by (intro exI[of _ "Suc v"]) (simp add: emptyAt_wf[OF assms])
  qed
qed

lemma find_end_loop_spec:
  assumes "model_wf m"
  shows "\<exists>b \<ge> v. find_end_loop m H c left v = Some b \<and> b \<le> v + left \<and>
     (\<forall>w. v < w \<longrightarrow> w \<le> b \<longrightarrow> occupied m (sq H c w)) \<and> (b < v + left \<longrightarrow> \<not> occupied m (sq H c (b + 1)))"
proof (induction left arbitrary: v)
  case 0
  then show ?case by simp
next
  case (Suc left)
  show ?case
  proof (cases "occupied m (sq H c (v + 1))")
    case True
    from Suc[of "v + 1"] obtain b where b: "v + 1 \<le> b" "find_end_loop m H c left (v + 1) = Some b" "b \<le> v + 1 + left"
      "\<forall>w. v + 1 < w \<longrightarrow> w \<le> b \<longrightarrow> occupied m (sq H c w)" "b < v + 1 + left \<longrightarrow> \<not> occupied m (sq H c (b + 1))" by blast
    have "\<forall>w. v < w \<longrightarrow> w \<le> b \<longrightarrow> occupied m (sq H c w)" using b(4) True by (metis Suc_eq_plus1 Suc_leI le_neq_implies_less)
    then show ?thesis using b True by (intro exI[of _ b]) (simp add: emptyAt_wf[OF assms])
  next
    case False
    then show ?thesis by (intro exI[of _ v]) (simp add: emptyAt_wf[OF assms])
  qed
qed

text \<open>The run that \<open>find_start\<close> and \<open>find_end\<close> delimit is the word.\<close>

lemma word_places_run:
  assumes wf: "model_wf m" and mb: "move_on_board m mi" and g: "gapless m mi"
  shows "\<exists>a b. find_start m (isHorizontal mi) (commonCoord mi) (varCoord (hd (mtiles mi))) = Some a \<and>
     find_end m (isHorizontal mi) (commonCoord mi) (varCoord (last (mtiles mi))) = Some b \<and>
     word_places m mi = {a..b} \<and> b < nCols m \<and> a \<le> varCoord (hd (mtiles mi)) \<and> varCoord (last (mtiles mi)) \<le> b"
proof -
  let ?f = "varCoord (hd (mtiles mi))" and ?l = "varCoord (last (mtiles mi))" and ?n = "nCols m"
  have ne: "mtiles mi \<noteq> []" and srt: "sorted_wrt (<) (map varCoord (mtiles mi))" and c: "commonCoord mi < ?n"
    and on: "\<And>t. t \<in> set (mtiles mi) \<Longrightarrow> varCoord t < ?n" using mb by (simp_all add: move_on_board_def)
  have l: "?l < ?n" using on ne by simp
  note sp = sorted_span(1)[OF srt ne]
  obtain a where a: "a \<le> ?f" "find_start m (isHorizontal mi) (commonCoord mi) ?f = Some a"
    "\<forall>w. a \<le> w \<longrightarrow> w < ?f \<longrightarrow> occupied m (line_sq mi w)" "0 < a \<longrightarrow> \<not> occupied m (line_sq mi (a - 1))"
    using find_start_spec[OF wf, of ?f] unfolding line_sq_def by blast
  obtain b where b: "?l \<le> b" "find_end_loop m (isHorizontal mi) (commonCoord mi) (?n - 1 - ?l) ?l = Some b"
    "b \<le> ?l + (?n - 1 - ?l)" "\<forall>w. ?l < w \<longrightarrow> w \<le> b \<longrightarrow> occupied m (line_sq mi w)"
    "b < ?l + (?n - 1 - ?l) \<longrightarrow> \<not> occupied m (line_sq mi (b + 1))"
    using find_end_loop_spec[OF wf, of ?l] unfolding line_sq_def by blast
  have bn: "b < ?n" using b(3) l by simp
  have cov: "covered m mi w" if "a \<le> w" "w \<le> b" for w
    using that a(3) b(4) g by (cases "w < ?f"; cases "w > ?l") (auto simp: covered_def gapless_def)
  have na: "\<not> covered m mi (a - 1)" if "0 < a"
  proof -
    have "a - 1 \<notin> {?f..?l}" using a(1) that by simp
    then have "line_sq mi (a - 1) \<notin> move_squares mi" using sp unfolding line_sq_move by blast
    then show ?thesis using a(4) that by (simp add: covered_def)
  qed
  have nb: "\<not> covered m mi (b + 1)" if "b + 1 < ?n"
  proof -
    have "b + 1 \<notin> {?f..?l}" using b(1) by simp
    then have "line_sq mi (b + 1) \<notin> move_squares mi" using sp unfolding line_sq_move by blast
    then show ?thesis using b(5) that l by (simp add: covered_def)
  qed
  have fl: "?f \<le> ?l" using sorted_span(3)[OF srt ne] .
  have "v \<in> word_places m mi \<longleftrightarrow> v \<in> {a..b}" for v
  proof
    assume v: "v \<in> word_places m mi"
    then have vn: "v < ?n" and cv: "\<And>w. min v ?f \<le> w \<Longrightarrow> w \<le> max v ?f \<Longrightarrow> covered m mi w"
      by (simp_all add: word_places_def Let_def)
    have "a \<le> v"
    proof (rule ccontr)
      assume n: "\<not> a \<le> v"
      then have "covered m mi (a - 1)" using a(1) by (intro cv) auto
      then show False using na n by simp
    qed
    moreover have "v \<le> b"
    proof (rule ccontr)
      assume n: "\<not> v \<le> b"
      then have "covered m mi (b + 1)" using b(1) fl by (intro cv) auto
      then show False using nb n vn by simp
    qed
    ultimately show "v \<in> {a..b}" by simp
  next
    assume "v \<in> {a..b}"
    then show "v \<in> word_places m mi" using cov bn a(1) b(1) fl by (auto simp: word_places_def Let_def)
  qed
  moreover have "find_end m (isHorizontal mi) (commonCoord mi) ?l = Some b"
    using l c b(2) by (simp add: find_end_def model_numCols_def del: bind_Some_iff)
  ultimately show ?thesis using a(1,2) b(1) bn by blast
qed

lemma tiles_from:
  "sorted_wrt (<) (map varCoord ts) \<Longrightarrow> filter (\<lambda>t. v \<le> varCoord t) ts =
     (case find (\<lambda>t. varCoord t = v) ts of None \<Rightarrow> [] | Some t \<Rightarrow> [t]) @ filter (\<lambda>t. v + 1 \<le> varCoord t) ts"
proof (induction ts)
  case Nil
  then show ?case by simp
next
  case (Cons t ts)
  then have f: "\<forall>x \<in> set ts. varCoord t < varCoord x" by simp
  show ?case
  proof (cases "varCoord t = v")
    case True
    then have "filter (\<lambda>t. v \<le> varCoord t) ts = ts" "filter (\<lambda>t. v + 1 \<le> varCoord t) ts = ts"
      using f by (auto simp: filter_id_conv)
    then show ?thesis using True by simp
  next
    case False
    show ?thesis
    proof (cases "v < varCoord t")
      case True
      then have "find (\<lambda>t. varCoord t = v) ts = None" using f by (auto simp: find_None_iff)
      then show ?thesis using Cons True False by simp
    next
      case less: False
      then show ?thesis using Cons False by (auto split: option.splits)
    qed
  qed
qed

lemma getTile_mask: "model_getTile m c r g u = Some (Some (t, x)) \<Longrightarrow> t AND TILE_VALUE_MASK = t"
proof -
  have e: "ucast ((cell :: cellTile) AND CELL_VALUE_MASK) AND TILE_VALUE_MASK = ucast (cell AND CELL_VALUE_MASK)" for cell
    by (rule bit_word_eqI) (auto simp: CELL_VALUE_MASK_def TILE_VALUE_MASK_def bit_simps)
  assume "model_getTile m c r g u = Some (Some (t, x))"
  then show ?thesis using e by (auto simp: model_getTile_def split: if_splits prod.splits)
qed

lemma occupied_tile:
  assumes "occupied m (c, r)"
  shows "\<exists>t isBlank x. model_getTile m c r False 65535 = Some (Some (t, isBlank, x)) \<and> t AND TILE_VALUE_MASK = t"
proof -
  have "c < model_numCols m \<and> r < model_numCols m" using occupied_on_board[OF assms] by (simp add: model_numCols_def)
  then obtain y where "model_getTile m c r False 65535 = Some (Some y)"
    using assms by (auto simp: occupied_def modelIsEmptyAt_def)
  then show ?thesis using getTile_mask[of m c r False 65535] by (cases y) auto
qed

lemma word_tile_spec:
  assumes srt: "sorted_wrt (<) (map varCoord (mtiles mi))" and k: "tiles_known m dict mi" and cov: "covered m mi v"
  shows "\<exists>t isBlank mult vt x.
     word_tile m mi (filter (\<lambda>t. v \<le> varCoord t) (mtiles mi)) v =
       Some (t, isBlank, mult, filter (\<lambda>t. v + 1 \<le> varCoord t) (mtiles mi)) \<and>
     (if isBlank then dict_getBlankTile dict else Some t) = Some vt \<and> dict_getTileValue dict vt = Some x \<and>
     x * mult = place_value m dict mi v"
proof (cases "find (\<lambda>t. varCoord t = v) (mtiles mi)")
  case (Some t)
  then have t: "varCoord t = v" "t \<in> set (mtiles mi)" by (auto simp: find_Some_iff in_set_conv_nth)
  then have "face_value dict (mtile t AND TILE_VALUE_MASK) (IS_BLANK (mtile t)) \<noteq> None" using k by (simp add: tiles_known_def)
  then obtain vt x where vt: "(if IS_BLANK (mtile t) then dict_getBlankTile dict else Some (mtile t AND TILE_VALUE_MASK)) = Some vt"
    "dict_getTileValue dict vt = Some x" by (auto simp: face_value_def)
  then have "place_value m dict mi v = x * tile_multiplier m (line_sq mi v)"
    unfolding place_value_def Some face_value_def by (simp del: bind_Some_iff)
  then show ?thesis
    using vt t(1) by (simp add: tiles_from[OF srt, of v] Some line_sq_def)
next
  case None
  then have n: "v \<notin> varCoord ` set (mtiles mi)" by (auto simp: find_None_iff)
  then have o: "occupied m (line_sq mi v)" using cov by (simp add: covered_def line_sq_move)
  obtain c r where cr: "line_sq mi v = (c, r)" by (cases "line_sq mi v")
  obtain t isBlank y where g: "model_getTile m c r False 65535 = Some (Some (t, isBlank, y))" "t AND TILE_VALUE_MASK = t"
    using occupied_tile[of m c r] o cr by auto
  have "face_value dict t isBlank \<noteq> None"
    using k occupied_on_board[of m c r] o cr g(1) by (fastforce simp: tiles_known_def)
  then obtain vt x where vt: "(if isBlank then dict_getBlankTile dict else Some t) = Some vt"
    "dict_getTileValue dict vt = Some x" by (auto simp: face_value_def)
  then have p: "place_value m dict mi v = x"
    unfolding place_value_def None face_value_def cr by (simp add: g(1) Let_def del: bind_Some_iff)
  have "word_tile m mi (filter (\<lambda>t. v + 1 \<le> varCoord t) (mtiles mi)) v =
      board_tile m (sq (isHorizontal mi) (commonCoord mi) v) (filter (\<lambda>t. v + 1 \<le> varCoord t) (mtiles mi))"
  proof (cases "filter (\<lambda>t. v + 1 \<le> varCoord t) (mtiles mi)")
    case (Cons t' ts')
    then have "v + 1 \<le> varCoord t'" by (metis (mono_tags, lifting) filter_eq_ConsD)
    then show ?thesis unfolding Cons by simp
  qed simp
  moreover have "sq (isHorizontal mi) (commonCoord mi) v = (c, r)" using cr by (simp add: line_sq_def)
  ultimately have "word_tile m mi (filter (\<lambda>t. v \<le> varCoord t) (mtiles mi)) v =
      Some (t, isBlank, 1, filter (\<lambda>t. v + 1 \<le> varCoord t) (mtiles mi))"
    using g by (simp add: tiles_from[OF srt, of v] None board_tile_def del: bind_Some_iff)
  then show ?thesis using vt p by simp
qed

lemma trunc16_plus: "trunc16 (trunc16 a + b) = trunc16 (a + b)" "trunc16 (a + trunc16 b) = trunc16 (a + b)"
  by (simp_all add: trunc16_def mod_simps)

lemma trunc16_times: "trunc16 (trunc16 a * b) = trunc16 (a * b)"
  by (simp add: trunc16_def mod_simps)

definition loop_at :: "modelCtxt \<Rightarrow> dictionaryCtxt \<Rightarrow> moveInfo \<Rightarrow> nat \<Rightarrow> nat \<Rightarrow> nat \<Rightarrow> scoreLoop \<Rightarrow> bool" where
  "loop_at m dict mi f a v sl \<longleftrightarrow> slTiles sl = filter (\<lambda>t. v \<le> varCoord t) (mtiles mi) \<and>
     slRest sl = trunc16 (\<Sum>w \<in> {a..<v} - {f}. place_value m dict mi w) \<and> length (slWord sl) = v - a \<and> slFmtr sl = None"

lemma scoreWord_step_spec:
  assumes srt: "sorted_wrt (<) (map varCoord (mtiles mi))" and k: "tiles_known m dict mi" and cov: "covered m mi v"
    and at: "loop_at m dict mi f a v sl" and v: "a \<le> v" "v - a < MAX_ROWS"
  shows "\<exists>sl'. scoreWord_step m dict mi f sl v = Some sl' \<and> loop_at m dict mi f a (v + 1) sl'"
proof -
  obtain t isBlank mult vt x where
    w: "word_tile m mi (slTiles sl) v = Some (t, isBlank, mult, filter (\<lambda>t. v + 1 \<le> varCoord t) (mtiles mi))"
    "(if isBlank then dict_getBlankTile dict else Some t) = Some vt" "dict_getTileValue dict vt = Some x"
    "x * mult = place_value m dict mi v"
    using word_tile_spec[OF srt k cov] at by (auto simp: loop_at_def)
  have sum: "(\<Sum>w \<in> {a..<v + 1} - {f}. place_value m dict mi w) =
      (\<Sum>w \<in> {a..<v} - {f}. place_value m dict mi w) + (if v = f then 0 else place_value m dict mi v)"
  proof (cases "v = f")
    case True
    then have "{a..<v + 1} - {f} = {a..<v} - {f}" by auto
    then show ?thesis using True by simp
  next
    case False
    then have "{a..<v + 1} - {f} = insert v ({a..<v} - {f})" using v(1) by auto
    then show ?thesis using False by simp
  qed
  have "scoreWord_step m dict mi f sl v = Some \<lparr>slTiles = filter (\<lambda>t. v + 1 \<le> varCoord t) (mtiles mi), slTile = vt,
      slRest = (if v \<noteq> f then trunc16 (slRest sl + x * mult) else slRest sl), slWord = slWord sl @ [t], slFmtr = None\<rparr>"
    unfolding scoreWord_step_def w(1) using at v(2) w(2,3) by (simp add: loop_at_def del: bind_Some_iff)
  then show ?thesis
    using at v(1) sum by (simp add: loop_at_def w(4) trunc16_plus Suc_diff_le)
qed

lemma scoreWord_loop_spec:
  assumes srt: "sorted_wrt (<) (map varCoord (mtiles mi))" and k: "tiles_known m dict mi"
    and cov: "\<And>v. a \<le> v \<Longrightarrow> v < e \<Longrightarrow> covered m mi v" and e: "a \<le> e" "e - a \<le> MAX_ROWS"
    and at: "loop_at m dict mi f a a sl"
  shows "\<exists>sl'. ofold (scoreWord_step m dict mi f) sl [a..<e] = Some sl' \<and> loop_at m dict mi f a e sl'"
  using e(1) cov e(2)
proof (induction e rule: dec_induct)
  case base
  then show ?case using at by simp
next
  case (step n)
  then obtain sl' where s: "ofold (scoreWord_step m dict mi f) sl [a..<n] = Some sl'" "loop_at m dict mi f a n sl'" by force
  have "covered m mi n" "n - a < MAX_ROWS" using step.prems step.hyps by (simp_all add: Suc_diff_le)
  from scoreWord_step_spec[OF srt k this(1) s(2) step.hyps(1) this(2)] show ?case
    using s(1) step.hyps(1) by (auto simp: ofold_append)
qed

lemma scoreWord_spec:
  assumes wf: "model_wf m" and mb: "move_on_board m mi" and g: "gapless m mi" and k: "tiles_known m dict mi"
    and d: "model_getPlayerDict m (int turn) = Some dict"
  shows "scoreWord m turn mi None None False = Some (trunc16 (word_value m dict mi), None, [])"
proof -
  let ?ts = "mtiles mi"
  let ?t = "hd ?ts"
  have ne: "?ts \<noteq> []" and srt: "sorted_wrt (<) (map varCoord ?ts)" using mb by (simp_all add: move_on_board_def)
  have t0: "mem_get 0 ?ts = Some ?t" "mem_get (length ?ts - 1) ?ts = Some (last ?ts)"
    using ne by (simp_all add: hd_conv_nth last_conv_nth)
  obtain a b where ab: "find_start m (isHorizontal mi) (commonCoord mi) (varCoord ?t) = Some a"
    "find_end m (isHorizontal mi) (commonCoord mi) (varCoord (last ?ts)) = Some b"
    "word_places m mi = {a..b}" "b < nCols m" "a \<le> varCoord ?t" "varCoord (last ?ts) \<le> b"
    using word_places_run[OF wf mb g] by blast
  have as: "assertSorted mi = Some ()" using srt by (auto simp: assertSorted_def sorted_wrt_iff_nth_less intro!: xp_assert_True)
  have fb: "varCoord ?t \<in> {a..b}" using ab(5,6) sorted_span(3)[OF srt ne] by simp
  show ?thesis
  proof (cases "int b - int a \<ge> 1")
    case False
    then have "card (word_places m mi) < 2" using ab(3) by simp
    then show ?thesis
      unfolding scoreWord_def t0 as d Option.bind.bind_lunit ab(1,2) using False by (simp add: word_value_def del: bind_Some_iff)
  next
    case True
    then have c: "\<not> card (word_places m mi) < 2" using ab(3) by simp
    have cov: "covered m mi v" if "a \<le> v" "v < b + 1" for v
    proof -
      have "v \<in> word_places m mi" using that ab(3) by simp
      then show ?thesis by (simp add: word_places_def Let_def)
    qed
    have at: "loop_at m dict mi (varCoord ?t) a a
        \<lparr>slTiles = ?ts, slTile = 0, slRest = 0, slWord = [], slFmtr = None\<rparr>"
    proof -
      have "filter (\<lambda>t. a \<le> varCoord t) ?ts = ?ts"
        using ab(5) sorted_span(1)[OF srt ne] by (fastforce simp: filter_id_conv)
      then show ?thesis by (simp add: loop_at_def)
    qed
    have "nCols m \<le> MAX_ROWS" using wf by (simp add: model_wf_def board_wf_def xw_consts)
    then have "a \<le> b + 1" "b + 1 - a \<le> MAX_ROWS" using ab(4) True by simp_all
    from scoreWord_loop_spec[OF srt k cov this at] obtain sl where
      sl: "ofold (scoreWord_step m dict mi (varCoord ?t)) \<lparr>slTiles = ?ts, slTile = 0, slRest = 0, slWord = [], slFmtr = None\<rparr> [a..<b + 1] = Some sl"
      "loop_at m dict mi (varCoord ?t) a (b + 1) sl" by blast
    have rest: "scoreWord_rest m dict mi None None False (varCoord ?t) a b =
        Some (trunc16 (\<Sum>w \<in> {a..b} - {varCoord ?t}. place_value m dict mi w), None, [])"
      using sl by (simp add: scoreWord_rest_def loop_at_def atLeastLessThanSuc_atLeastAtMost del: upt_Suc bind_Some_iff)
    have fd: "find (\<lambda>t. varCoord t = varCoord ?t) ?ts = Some ?t" using ne by (cases ?ts) simp_all
    have "face_value dict (mtile ?t AND TILE_VALUE_MASK) (IS_BLANK (mtile ?t)) \<noteq> None" using k ne by (simp add: tiles_known_def)
    then obtain vt x where vt: "(if IS_BLANK (mtile ?t) then dict_getBlankTile dict else Some (mtile ?t AND TILE_VALUE_MASK)) = Some vt"
      "dict_getTileValue dict vt = Some x" by (auto simp: face_value_def)
    have pv: "place_value m dict mi (varCoord ?t) = x * tile_multiplier m (line_sq mi (varCoord ?t))"
      unfolding place_value_def fd face_value_def using vt by (simp del: bind_Some_iff)
    have sum: "(\<Sum>w \<in> {a..b}. place_value m dict mi w) =
        (\<Sum>w \<in> {a..b} - {varCoord ?t}. place_value m dict mi w) + place_value m dict mi (varCoord ?t)"
      using fb by (simp add: sum.remove)
    show ?thesis
      unfolding scoreWord_def t0 as d Option.bind.bind_lunit ab(1,2) using True c vt rest pv
      by (simp add: word_value_def ab(3) sum line_sq_def trunc16_plus del: bind_Some_iff)
  qed
qed

lemma cross_info_ok:
  assumes "move_on_board m mi" and "t \<in> set (mtiles mi)" and "tiles_known m dict mi"
  shows "move_on_board m (cross_info mi t)" "gapless m (cross_info mi t)" "tiles_known m dict (cross_info mi t)"
proof -
  have s: "line_sq (cross_info mi t) (commonCoord mi) = line_sq mi (varCoord t)"
    by (simp add: line_sq_def cross_info_def sq_def)
  have ms: "move_squares (cross_info mi t) = {line_sq mi (varCoord t)}"
    using s by (simp add: move_squares_def cross_info_def)
  have "line_sq mi (varCoord t) \<in> move_squares mi" using assms(2) by (auto simp: line_sq_move)
  then show "move_on_board m (cross_info mi t)"
    using assms(1,2) by (auto simp: move_on_board_def ms) (simp_all add: cross_info_def)
  show "gapless m (cross_info mi t)" using s by (simp add: gapless_def ms) (simp add: cross_info_def)
  show "tiles_known m dict (cross_info mi t)" using assms(2,3) by (simp add: tiles_known_def) (simp add: cross_info_def)
qed

lemma crossScore_loop:
  assumes "model_wf m" and "move_on_board m mi" and "tiles_known m dict mi" and "model_getPlayerDict m (int turn) = Some dict"
    and "set ts \<subseteq> set (mtiles mi)"
  shows "ofold (crossScore_step m turn mi None False) (trunc16 s, None, []) ts =
     Some (trunc16 (s + (\<Sum>t \<leftarrow> ts. word_value m dict (cross_info mi t) * multiplier_at m mi t)), None, [])"
  using assms(5)
proof (induction ts arbitrary: s)
  case Nil
  then show ?case by simp
next
  case (Cons t ts)
  let ?w = "word_value m dict (cross_info mi t)" and ?k = "multiplier_at m mi t"
  have t: "t \<in> set (mtiles mi)" using Cons.prems by simp
  have sc: "scoreWord m turn (cross_info mi t) None None False = Some (trunc16 ?w, None, [])"
    using cross_info_ok[OF assms(2) t assms(3)] by (intro scoreWord_spec[OF assms(1) _ _ _ assms(4)])
  have "trunc16 (trunc16 s + trunc16 (trunc16 ?w * ?k)) = trunc16 (s + ?w * ?k)"
    by (simp add: trunc16_plus trunc16_times)
  then have "crossScore_step m turn mi None False (trunc16 s, None, []) t = Some (trunc16 (s + ?w * ?k), None, [])"
    by (simp add: crossScore_step_def sc on_stream_def del: bind_Some_iff)
  then show ?case using Cons.IH[of "s + ?w * ?k"] Cons.prems by (simp add: add.assoc)
qed

text \<open>C3: \<open>figureMoveScore\<close> computes the score of the rules: the main word with its word bonuses, every
  crosswise word of two letters or more with the bonus under its new tile, bonuses only for new tiles,
  blanks at the value of the blank, and 50 for a whole tray; as an \<open>XP_U16\<close>, so modulo 65536.\<close>

theorem figureMoveScore_rules:
  assumes "model_wf m" and "move_on_board m mi" and "gapless m mi" and "tiles_known m dict mi"
    and "model_getPlayerDict m (int turn) = Some dict" and "length (mtiles mi) \<le> MAX_TRAY_TILES"
  shows "figureMoveScore us m turn mi None None False = Some (trunc16 (move_value m dict mi), None, [])"
proof -
  have ne: "mtiles mi \<noteq> []" using assms(2) by (simp add: move_on_board_def)
  note sw = scoreWord_spec[OF assms(1-5)]
  let ?s = "word_value m dict mi * prod_list (map (multiplier_at m mi) (mtiles mi))"
  have "trunc16 (trunc16 (word_value m dict mi) * prod_list (map (multiplier_at m mi) (mtiles mi))) = trunc16 ?s"
    by (simp add: trunc16_times)
  moreover note crossScore_loop[OF assms(1,2,4,5) order_refl, of ?s]
  ultimately show ?thesis
    using ne assms(6)
    by (simp add: figureMoveScore_def Let_def sw on_stream_def move_value_def trunc16_plus del: bind_Some_iff)
qed

definition scored_dict :: dictionaryCtxt where
  "scored_dict = dict_calloc\<lparr>nFaces := 2, blankTile := 1, countsAndValues := [5, 3, 2, 0], faces := Some [65, 0, 0, 0],
     facesEnd := 4, facePtrs := [0, 2]\<rparr>"

definition scored_model :: modelCtxt where
  "scored_model = small_model\<lparr>mdict := Some scored_dict, utilBonus := \<lambda>_ col row. if col = row then BONUS_DOUBLE_WORD else BONUS_NONE\<rparr>"

definition scored_move :: moveInfo where
  "scored_move = \<lparr>commonCoord = 1, isHorizontal = True, mtiles = [\<lparr>varCoord = 1, mtile = 0\<rparr>, \<lparr>varCoord = 2, mtile = 0x40\<rparr>]\<rparr>"

definition no_strings :: userStrings where
  "no_strings = \<lparr>strTurnScore = \<lambda>_. [], strBonusAll = []\<rparr>"

lemma scored_move_ok: "model_wf scored_model" "move_on_board scored_model scored_move" "gapless scored_model scored_move"
  "tiles_known scored_model scored_dict scored_move" "model_getPlayerDict scored_model (int 0) = Some scored_dict"
proof -
  show "model_wf scored_model"
    using small_model_wf(1) by (simp add: scored_model_def model_wf_def board_wf_def pend_at_def cell_at_def)
  have "modelIsEmptyAt scored_model (1, 1) = Some True" "modelIsEmptyAt scored_model (2, 1) = Some True" by code_simp+
  then show "move_on_board scored_model scored_move"
    by (simp add: move_on_board_def scored_move_def move_squares_def line_sq_def sq_def occupied_def)
      (simp add: scored_model_def small_model_def)
  have "{1..2 :: nat} = {1, 2}" by auto
  then show "gapless scored_model scored_move"
    by (simp add: gapless_def line_sq_move) (simp add: scored_move_def)
  have "model_getTile scored_model c r False 65535 = Some None" if "c < nCols scored_model" "r < nCols scored_model" for c r
  proof -
    have n: "nCols scored_model = 3" "nRows scored_model = 3" "cells scored_model = replicate 9 FRESH_CELL"
      by (simp_all add: scored_model_def small_model_def)
    have "r * 3 + c < 9" using that n by simp
    then show ?thesis
      using that n by (simp add: model_getTile_def getModelTileRaw_def FRESH_CELL_def TILE_PENDING_BIT_def EMPTY_TILE_def TILE_EMPTY_BIT_def)
  qed
  moreover have "face_value scored_dict (0 AND TILE_VALUE_MASK) (IS_BLANK 0) = Some 3"
    "face_value scored_dict (0x40 AND TILE_VALUE_MASK) (IS_BLANK 0x40) = Some 0" by code_simp+
  ultimately show "tiles_known scored_model scored_dict scored_move"
    by (simp add: tiles_known_def) (simp add: scored_move_def)
  show "model_getPlayerDict scored_model (int 0) = Some scored_dict" by code_simp
qed

lemma scored_move_score: "figureMoveScore no_strings scored_model 0 scored_move None None False = Some (6, None, [])"
  by code_simp

theorem figureMoveScore_rules_witness: "trunc16 (move_value scored_model scored_dict scored_move) = 6"
proof -
  have "length (mtiles scored_move) \<le> MAX_TRAY_TILES" by (simp add: scored_move_def xw_consts)
  from figureMoveScore_rules[OF scored_move_ok this, of no_strings] scored_move_score show ?thesis by simp
qed

section \<open>The end of the game\<close>

text \<open>What a player is left with: the tiles of the tray and those put on the board without committing.\<close>

definition left_value :: "dictionaryCtxt \<Rightarrow> playerCtxt \<Rightarrow> nat" where
  "left_value dict p = (\<Sum>t \<leftarrow> trayTiles p @ map (\<lambda>pt. ptile pt AND TILE_VALUE_MASK) (pend p). the (dict_getTileValue dict t))"

definition left_known :: "dictionaryCtxt \<Rightarrow> playerCtxt \<Rightarrow> bool" where
  "left_known dict p \<longleftrightarrow> list_all (\<lambda>t. dict_getTileValue dict t \<noteq> None)
     (trayTiles p @ map (\<lambda>pt. ptile pt AND TILE_VALUE_MASK) (pend p))"

definition player_out :: "modelCtxt \<Rightarrow> nat option" where
  "player_out m = find (\<lambda>i. trayTiles (players m ! i) = []) [0..<mNPlayers m]"

text \<open>The first player with an empty tray gets what all the players are left with, the others lose theirs.\<close>

definition adjustment :: "modelCtxt \<Rightarrow> dictionaryCtxt \<Rightarrow> nat \<Rightarrow> int" where
  "adjustment m dict i =
     (if player_out m = Some i then int (\<Sum>j < mNPlayers m. left_value dict (players m ! j))
      else - int (left_value dict (players m ! i)))"

definition time_penalty :: "modelCtxt \<Rightarrow> nat \<Rightarrow> nat" where
  "time_penalty m i = (if timerEnabled (gi m) then the (player_timePenalty (gi m) i) else 0)"

lemma s16_plus: "s16 (s16 a + b) = s16 (a + b)" "s16 (a + s16 b) = s16 (a + b)" "s16 (- s16 a) = s16 (- a)"
  "s16 (a - s16 b) = s16 (a - b)" "s16 (s16 a - b) = s16 (a - b)"
proof -
  have m: "s16 x = s16 y" if "x mod 65536 = y mod 65536" for x y
    using that by (simp add: s16_def mod_add_cong)
  have s: "s16 x mod 65536 = x mod 65536" for x by (simp add: s16_def mod_simps)
  show "s16 (s16 a + b) = s16 (a + b)" by (rule m) (metis s mod_add_left_eq)
  show "s16 (a + s16 b) = s16 (a + b)" by (rule m) (metis s mod_add_right_eq)
  show "s16 (- s16 a) = s16 (- a)" by (rule m) (metis s mod_minus_eq)
  show "s16 (a - s16 b) = s16 (a - b)" by (rule m) (metis s mod_diff_right_eq)
  show "s16 (s16 a - b) = s16 (a - b)" by (rule m) (metis s mod_diff_left_eq)
qed

lemma values_loop:
  "list_all (\<lambda>t. dict_getTileValue dict (f t) \<noteq> None) ts \<Longrightarrow>
     ofold (\<lambda>p t. do { v \<leftarrow> dict_getTileValue dict (f t); Some (s16 (p + int v)) }) (s16 a) ts =
       Some (s16 (a + int (\<Sum>t \<leftarrow> ts. the (dict_getTileValue dict (f t)))))"
  by (induction ts arbitrary: a) (auto simp: s16_plus add.assoc)

lemma finalScores_step_spec:
  assumes "i < length (players m)" and "left_known dict (players m ! i)" and "player_wf nc (players m ! i)"
  shows "finalScores_step m dict (ps, s16 tot, out) i =
     Some (ps @ [s16 (int (left_value dict (players m ! i)))], s16 (tot + int (left_value dict (players m ! i))),
       if trayTiles (players m ! i) = [] \<and> out = None then Some (int i) else out)"
proof -
  let ?p = "players m ! i"
  let ?v = "\<lambda>t. the (dict_getTileValue dict t)"
  have rd: "mem_read 0 (nPending ?p) (pendingTiles ?p) = Some (pend ?p)" using assms(3) by (simp add: pend_def player_wf_def)
  have z: "s16 0 = 0" by simp
  have k: "list_all (\<lambda>t. dict_getTileValue dict t \<noteq> None) (rev (trayTiles ?p))"
    "list_all (\<lambda>pt. dict_getTileValue dict (ptile pt AND TILE_VALUE_MASK) \<noteq> None) (rev (pend ?p))"
    using assms(2) by (simp_all add: left_known_def list_all_iff)
  have tv: "tileValues dict (rev (trayTiles ?p)) = Some (s16 (int (\<Sum>t \<leftarrow> trayTiles ?p. ?v t)))"
    using values_loop[OF k(1), of 0] by (simp add: tileValues_def z rev_map[symmetric] sum_list_rev)
  have pv: "ofold (\<lambda>p pt. do { v \<leftarrow> dict_getTileValue dict (ptile pt AND TILE_VALUE_MASK); Some (s16 (p + int v)) })
        (s16 a) (rev (pend ?p)) = Some (s16 (a + int (\<Sum>pt \<leftarrow> pend ?p. ?v (ptile pt AND TILE_VALUE_MASK))))" for a
    using values_loop[OF k(2), of a] by (simp add: rev_map[symmetric] sum_list_rev)
  have "left_value dict ?p = (\<Sum>t \<leftarrow> trayTiles ?p. ?v t) + (\<Sum>pt \<leftarrow> pend ?p. ?v (ptile pt AND TILE_VALUE_MASK))"
    by (simp add: left_value_def o_def)
  then show ?thesis
    using assms(1) pv[of 0] pv[of "int (\<Sum>t \<leftarrow> trayTiles ?p. ?v t)"]
    by (simp add: finalScores_step_def Let_def rd tv z s16_plus del: bind_Some_iff)
qed

lemma finalScores_loop:
  assumes "model_wf m" and "\<And>i. i < mNPlayers m \<Longrightarrow> left_known dict (players m ! i)" and "k \<le> mNPlayers m"
  shows "ofold (finalScores_step m dict) ([], 0, None) [0..<k] =
     Some (map (\<lambda>i. s16 (int (left_value dict (players m ! i)))) [0..<k], s16 (int (\<Sum>j < k. left_value dict (players m ! j))),
       map_option int (find (\<lambda>i. trayTiles (players m ! i) = []) [0..<k]))"
  using assms(3)
proof (induction k)
  case 0
  then show ?case by simp
next
  case (Suc k)
  have k: "k < length (players m)" using Suc.prems assms(1) by (simp add: model_wf_def board_wf_def)
  have f: "find P (xs @ [x]) = (case find P xs of Some y \<Rightarrow> Some y | None \<Rightarrow> if P x then Some x else None)" for P and x :: nat and xs
    by (simp add: find_append split: option.splits)
  show ?case
    using Suc finalScores_step_spec[OF k assms(2) model_wf_player[OF assms(1) k]]
    by (auto simp: ofold_append f split: option.splits)
qed

text \<open>C26: At the end of the game \<open>model_figureFinalScores\<close> returns for every player the score adjusted by
  the tiles left, and the adjustment: the first player with an empty tray gains what all players have
  left, everybody else loses his own; time penalties are taken off. All sums are those of \<open>XP_S16\<close>.\<close>

theorem figureFinalScores_rules:
  assumes "model_wf m" and "model_getDictionary m = Some dict"
    and "\<And>i. i < mNPlayers m \<Longrightarrow> left_known dict (players m ! i)"
    and "\<And>i. timerEnabled (gi m) \<Longrightarrow> i < mNPlayers m \<Longrightarrow> player_timePenalty (gi m) i \<noteq> None"
  shows "model_figureFinalScores m =
     Some (map (\<lambda>i. (s16 (pscore (players m ! i) - int (time_penalty m i) + adjustment m dict i), s16 (adjustment m dict i)))
             [0..<mNPlayers m])"
proof -
  let ?n = "mNPlayers m"
  let ?pens = "map (\<lambda>i. s16 (int (left_value dict (players m ! i)))) [0..<?n]"
  let ?tot = "s16 (int (\<Sum>j < ?n. left_value dict (players m ! j)))"
  let ?out = "\<lambda>i. (s16 (pscore (players m ! i) - int (time_penalty m i) + adjustment m dict i), s16 (adjustment m dict i))"
  have n: "?n \<le> MAX_NUM_PLAYERS" "length (players m) = MAX_NUM_PLAYERS" using assms(1) by (simp_all add: model_wf_def board_wf_def)
  define step where "step = (\<lambda>out ii. do {
        let penalty = (if map_option int (player_out m) = Some (int ii) then ?tot else s16 (- (?pens ! ii)));
        score \<leftarrow> model_getPlayerScore m ii;
        score \<leftarrow> (if timerEnabled (gi m)
                 then do { p \<leftarrow> player_timePenalty (gi m) ii; Some (s16 (score - int p)) } else Some score);
        Some (out @ [(s16 (score + penalty), penalty)])
      })"
  have st: "step out i = Some (out @ [?out i])" if "i < ?n" for i out
  proof -
    have pen: "(if map_option int (player_out m) = Some (int i) then ?tot else s16 (- (?pens ! i))) = s16 (adjustment m dict i)"
      using that by (auto simp: adjustment_def s16_plus)
    have "model_getPlayerScore m i = Some (pscore (players m ! i))" using that n by (simp add: model_getPlayerScore_def)
    moreover obtain p where "timerEnabled (gi m) \<longrightarrow> player_timePenalty (gi m) i = Some p"
      using assms(4)[of i] \<open>i < ?n\<close> by (cases "timerEnabled (gi m)") auto
    ultimately show ?thesis
      unfolding step_def Let_def pen by (auto simp: time_penalty_def s16_plus)
  qed
  have "ofold step out [0..<k] = Some (out @ map ?out [0..<k])" if "k \<le> ?n" for k out
    using that by (induction k) (simp_all add: ofold_append st)
  then have "ofold step [] [0..<?n] = Some (map ?out [0..<?n])" by simp
  moreover have "model_figureFinalScores m = ofold step [] [0..<?n]"
    using n(1) by (simp only: model_figureFinalScores_def assms(2) finalScores_loop[OF assms(1,3) order_refl] step_def
        player_out_def xp_assert_True Option.bind.bind_lunit prod.case)
  ultimately show ?thesis by simp
qed

definition done_model :: modelCtxt where
  "done_model = scored_model\<lparr>players := no_player\<lparr>pscore := 20\<rparr> # no_player\<lparr>pscore := 12, trayTiles := [0, 1]\<rparr> # replicate 2 no_player\<rparr>"

lemma done_model_ok: "model_wf done_model" "model_getDictionary done_model = Some scored_dict"
  "i < mNPlayers done_model \<Longrightarrow> left_known scored_dict (players done_model ! i)" "\<not> timerEnabled (gi done_model)"
proof -
  show "model_wf done_model"
  proof -
    have n: "nCols done_model = 3" "nRows done_model = 3" "mNPlayers done_model = 2" "cells done_model = replicate 9 FRESH_CELL"
      "players done_model = [no_player\<lparr>pscore := 20\<rparr>, no_player\<lparr>pscore := 12, trayTiles := [0, 1]\<rparr>, no_player, no_player]"
      by (simp_all add: done_model_def scored_model_def small_model_def numeral_2_eq_2)
    have "pend_at done_model c r = 0" for c r by (simp add: pend_at_def n pend_def no_player_def)
    moreover have "cell_at done_model c r = FRESH_CELL" if "c < 3" "r < 3" for c r
      using cell_index[OF that] by (simp add: cell_at_def n)
    moreover have "player_wf 3 p" if "p \<in> set (players done_model)" for p
      using that by (auto simp: n player_wf_def pend_def no_player_def xw_consts)
    ultimately show ?thesis
      by (simp add: model_wf_def board_wf_def list_all_iff n cell_ok_def xw_consts FRESH_CELL_def TILE_PENDING_BIT_def)
  qed
  show "model_getDictionary done_model = Some scored_dict" by code_simp
  have "mNPlayers done_model = 2" by (simp add: done_model_def scored_model_def small_model_def)
  moreover have "left_known scored_dict (players done_model ! 0)" "left_known scored_dict (players done_model ! 1)" by code_simp+
  ultimately show "i < mNPlayers done_model \<Longrightarrow> left_known scored_dict (players done_model ! i)"
    by (auto simp: less_2_cases_iff)
  show "\<not> timerEnabled (gi done_model)" by code_simp
qed

theorem figureFinalScores_rules_witness: "model_figureFinalScores done_model = Some [(23, 3), (9, -3)]"
proof -
  have "map (\<lambda>i. (s16 (pscore (players done_model ! i) - int (time_penalty done_model i) + adjustment done_model scored_dict i),
      s16 (adjustment done_model scored_dict i))) [0..<mNPlayers done_model] = [(23, 3), (9, -3)]" by code_simp
  then show ?thesis using figureFinalScores_rules[OF done_model_ok(1,2,3)] done_model_ok(4) by simp
qed

end
