(* ===== verification/Xw_Turns.thy ===== *)
theory Xw_Turns
  imports Xw_Score
begin

text \<open>
  The rest of \<open>model.c\<close>: turns that become part of the board, trades, the undo of turns, the
  model rebuilt from its move stack, and the questions that are answered on such a rebuilt copy.

  A stream for explanations may be null (\<open>None\<close>). Word notifiers are calls that are returned in
  order, as in \<open>mscore.c\<close>. A pool may be null, too; it is returned with the model. Where a function
  of the code returns through pointers, its results are the components of a tuple, in their order.
\<close>

section \<open>Moves from elsewhere\<close>

definition place_move_tile :: "nat \<Rightarrow> tile \<Rightarrow> moveInfo \<Rightarrow> modelCtxt \<Rightarrow> moveInfoTile \<Rightarrow> modelCtxt option" where
  "place_move_tile turn blank mi model t = do {
     tileIndex \<leftarrow> model_trayContains model turn (if IS_BLANK (mtile t) then blank else mtile t);
     xp_assert (tileIndex \<ge> 0);
     let (col, row) = sq (isHorizontal mi) (commonCoord mi) (varCoord t);
     model_moveTrayToBoard model turn col row tileIndex (mtile t AND TILE_VALUE_MASK)
   }"

definition model_makeTurnFromMoveInfo :: "modelCtxt \<Rightarrow> nat \<Rightarrow> moveInfo \<Rightarrow> modelCtxt option" where
  "model_makeTurnFromMoveInfo model turn newMove = do {
     blank \<leftarrow> blank_of model;
     ofold (place_move_tile turn blank newMove) model (mtiles newMove)
   }"

text \<open>The tiles of the current move, last one first.\<close>

fun currentMoveToStream_loop :: "modelCtxt \<Rightarrow> nat \<Rightarrow> nat \<Rightarrow> mem_stream \<Rightarrow> mem_stream option" where
  "currentMoveToStream_loop model turn 0 stream = Some stream"
| "currentMoveToStream_loop model turn (Suc numTiles) stream = do {
     (_, t, col, row, isBlank) \<leftarrow> model_getCurrentMoveTile model turn (int numTiles);
     stream \<leftarrow> mem_stream_putBits stream TILE_NBITS (ucast t);
     stream \<leftarrow> putNat (model_colBits model) stream col;
     stream \<leftarrow> putNat (model_colBits model) stream row;
     stream \<leftarrow> putBool stream isBlank;
     currentMoveToStream_loop model turn numTiles stream
   }"

definition model_currentMoveToStream :: "modelCtxt \<Rightarrow> nat \<Rightarrow> mem_stream \<Rightarrow> mem_stream option" where
  "model_currentMoveToStream model turn stream = do {
     player \<leftarrow> mem_get turn (players model);
     stream \<leftarrow> putNat NTILES_NBITS stream (nPending player);
     currentMoveToStream_loop model turn (nPending player) stream
   }"

text \<open>A tile of a move on a stream: face, column, row and the tile it takes from the tray.\<close>

definition readMoveTile :: "modelCtxt \<Rightarrow> tile \<Rightarrow> mem_stream \<Rightarrow> ((tile \<times> nat \<times> nat \<times> tile) \<times> mem_stream) option" where
  "readMoveTile model blank stream = do {
     (f, stream) \<leftarrow> mem_stream_getBits stream TILE_NBITS;
     (col, stream) \<leftarrow> getNat (model_colBits model) stream;
     (row, stream) \<leftarrow> getNat (model_colBits model) stream;
     (isBlank, stream) \<leftarrow> getBool stream;
     Some ((ucast f, col, row, if isBlank then blank else ucast f), stream)
   }"

text \<open>Reading stops at the first tile that the tray does not have. \<open>None\<close> behind \<open>Some\<close> is that failure.\<close>

fun readMoveTiles ::
    "modelCtxt \<Rightarrow> tile \<Rightarrow> nat \<Rightarrow> trayTileSet \<Rightarrow> mem_stream \<Rightarrow>
     ((tile \<times> nat \<times> nat \<times> tile) list option \<times> mem_stream) option" where
  "readMoveTiles model blank 0 curTiles stream = Some (Some [], stream)"
| "readMoveTiles model blank (Suc n) curTiles stream = do {
     (x, stream) \<leftarrow> readMoveTile model blank stream;
     let index = setContains curTiles (snd (snd (snd x)));
     if 0 \<le> index then do {
       curTiles \<leftarrow> removeTile curTiles (nat index);
       (xs, stream) \<leftarrow> readMoveTiles model blank n curTiles stream;
       Some (map_option ((#) x) xs, stream)
     } else Some (None, stream)
   }"

definition place_read_tile :: "nat \<Rightarrow> modelCtxt \<Rightarrow> tile \<times> nat \<times> nat \<times> tile \<Rightarrow> modelCtxt option" where
  "place_read_tile turn model = (\<lambda>(face, col, row, moveTile). do {
     foundAt \<leftarrow> model_trayContains model turn moveTile;
     model \<leftarrow> (if foundAt = -1 then do {
         t \<leftarrow> model_getPlayerTile model turn 0;
         xp_assert (EMPTY_TILE = ucast t);
         (_, model) \<leftarrow> model_removePlayerTile model turn (-1);
         model_addPlayerTile model turn (-1) moveTile
       } else Some model);
     model_moveTrayToBoard model turn col row foundAt face
   })"

definition model_makeTurnFromStream :: "modelCtxt \<Rightarrow> nat \<Rightarrow> mem_stream \<Rightarrow> (bool \<times> modelCtxt \<times> mem_stream) option" where
  "model_makeTurnFromStream model turn stream = do {
     blank \<leftarrow> blank_of model;
     model \<leftarrow> model_resetCurrentTurn model turn;
     (numTiles, stream) \<leftarrow> getNat NTILES_NBITS stream;
     curTiles \<leftarrow> model_getPlayerTiles model turn;
     (xs, stream) \<leftarrow> readMoveTiles model blank numTiles curTiles stream;
     case xs of
       None \<Rightarrow> Some (False, model, stream)
     | Some xs \<Rightarrow> do { model \<leftarrow> ofold (place_read_tile turn) model xs; Some (True, model, stream) }
   }"

text \<open>The letters of a move in the reverse order on the same squares; \<open>k\<close> is how far \<open>end\<close> is from \<open>start\<close>.\<close>

fun reverseTiles_loop :: "moveInfoTile list \<Rightarrow> nat \<Rightarrow> nat \<Rightarrow> moveInfoTile list" where
  "reverseTiles_loop ts start 0 = ts"
| "reverseTiles_loop ts start (Suc k) =
     (let end = start + Suc k; tmp = mtile (ts ! start);
          ts = ts[start := (ts ! start)\<lparr>mtile := mtile (ts ! end)\<rparr>];
          ts = ts[end := (ts ! end)\<lparr>mtile := tmp\<rparr>]
      in (case k of 0 \<Rightarrow> ts | Suc k \<Rightarrow> reverseTiles_loop ts (start + 1) k))"

definition reverseTiles :: "moveInfo \<Rightarrow> moveInfo" where
  "reverseTiles mi = mi\<lparr>mtiles := reverseTiles_loop (mtiles mi) 0 (length (mtiles mi) - 1)\<rparr>"

section \<open>Committing a turn\<close>

definition commit_tile :: "nat \<Rightarrow> modelCtxt \<Rightarrow> pendingTile \<Rightarrow> modelCtxt option" where
  "commit_tile turn model pt = do {
     cell \<leftarrow> getModelTileRaw model (pcol pt) (prow pt);
     xp_assert (cell AND TILE_PENDING_BIT \<noteq> 0);
     let val = cell AND CELL_VALUE_MASK;
     model \<leftarrow> (if val > 1 then putBackOtherPlayersTiles model turn (pcol pt) (prow pt) else Some model);
     let cell = ucast (ptile pt) OR PREV_MOVE_BIT OR push_bit CELL_OWNER_OFFSET (of_nat turn);
     model \<leftarrow> setModelTileRaw model (pcol pt) (prow pt) cell;
     Some (model\<lparr>nTilesOnBoard := trunc16 (nTilesOnBoard model + 1)\<rparr>)
   }"

text \<open>The move that goes on the stack.\<close>

definition push_turn :: "modelCtxt \<Rightarrow> nat \<Rightarrow> trayTileSet \<Rightarrow> modelCtxt option" where
  "push_turn model turn newTiles = do {
     (inLine, isH) \<leftarrow> tilesInLine model turn;
     xp_assert inLine;
     mi \<leftarrow> normalizeMoves model turn isH;
     st \<leftarrow> stack_addMove (mstack model) turn mi newTiles;
     Some (model\<lparr>mstack := st\<rparr>)
   }"

text \<open>The debug build first scores the move, asserts that it is legal and forgets the score again, so that
  the score below is always found anew; in the release build it may be the one noted before.\<close>

definition commitTurn ::
    "userStrings \<Rightarrow> modelCtxt \<Rightarrow> nat \<Rightarrow> trayTileSet \<Rightarrow> mem_stream option \<Rightarrow> bool \<Rightarrow> bool \<Rightarrow>
     (int \<times> modelCtxt \<times> mem_stream option \<times> wnParams list) option" where
  "commitTurn us model turn newTiles stream notify useStack = do {
     xp_assert (turn < MAX_NUM_PLAYERS);
     model \<leftarrow> clearLastMoveInfo model;
     model \<leftarrow> (if useStack then push_turn model turn newTiles else Some model);
     player \<leftarrow> mem_get turn (players model);
     pts \<leftarrow> mem_read 0 (nPending player) (pendingTiles player);
     model \<leftarrow> ofold (commit_tile turn) model pts;
     (_, score, stream, calls, model) \<leftarrow> getCurrentMoveScoreIfLegal us model turn stream notify;
     xp_assert (score \<ge> 0);
     model \<leftarrow> (if \<not> giInDuplicateMode (gi model)
              then upd_player turn (\<lambda>p. p\<lparr>pscore := s16 (pscore p + score)\<rparr>) model else Some model);
     model \<leftarrow> invalidateScores model;
     model \<leftarrow> upd_player turn (\<lambda>p. p\<lparr>nPending := 0, nUndone := 0\<rparr>) model;
     model \<leftarrow> ofold (\<lambda>model t. model_addPlayerTile model turn (-1) t) model (rev newTiles);
     Some (score, model, stream, calls)
   }"

definition model_commitTurn :: "userStrings \<Rightarrow> modelCtxt \<Rightarrow> nat \<Rightarrow> trayTileSet \<Rightarrow> (bool \<times> modelCtxt) option" where
  "model_commitTurn us model turn newTiles = do {
     (score, model, _) \<leftarrow> commitTurn us model turn newTiles None False True;
     Some (0 \<le> score, model)
   }"

definition makeAndCommit ::
    "userStrings \<Rightarrow> modelCtxt \<Rightarrow> nat \<Rightarrow> moveInfo \<Rightarrow> trayTileSet \<Rightarrow> mem_stream option \<Rightarrow> bool \<Rightarrow> bool \<Rightarrow>
     (int \<times> modelCtxt \<times> mem_stream option \<times> wnParams list) option" where
  "makeAndCommit us model turn mi tiles stream useStack notify = do {
     model \<leftarrow> model_makeTurnFromMoveInfo model turn mi;
     commitTurn us model turn tiles stream notify useStack
   }"

section \<open>Duplicate mode\<close>

definition dupe_adjustScores :: "modelCtxt \<Rightarrow> bool \<Rightarrow> u16 list \<Rightarrow> modelCtxt option" where
  "dupe_adjustScores model add scores =
     (let mult = (if add then 1 else -1)
      in ofold (\<lambda>model ii. upd_player ii (\<lambda>p. p\<lparr>pscore := s16 (pscore p + mult * int (unat (scores ! ii)))\<rparr>) model)
           model [0..<length scores])"

definition clone_tray :: "modelCtxt \<Rightarrow> nat \<Rightarrow> modelCtxt option" where
  "clone_tray model ii =
     (if ii \<noteq> DUP_PLAYER then do {
        model \<leftarrow> model_resetCurrentTurn model ii;
        tray \<leftarrow> tray_of model DUP_PLAYER;
        upd_player ii (trayTiles_update (\<lambda>_. tray)) model
      } else Some model)"

definition model_cloneDupeTrays :: "modelCtxt \<Rightarrow> modelCtxt option" where
  "model_cloneDupeTrays model = do {
     xp_assert (giInDuplicateMode (gi model));
     ofold clone_tray model [0..<mNPlayers model]
   }"

definition model_commitDupeTurn ::
    "userStrings \<Rightarrow> modelCtxt \<Rightarrow> moveInfo \<Rightarrow> u16 list \<Rightarrow> trayTileSet \<Rightarrow> modelCtxt option" where
  "model_commitDupeTurn us model mi scores newTiles = do {
     model \<leftarrow> model_resetCurrentTurn model DUP_PLAYER;
     model \<leftarrow> model_makeTurnFromMoveInfo model DUP_PLAYER mi;
     (_, model, _) \<leftarrow> commitTurn us model DUP_PLAYER newTiles None False False;
     model \<leftarrow> dupe_adjustScores model True scores;
     model \<leftarrow> invalidateScores model;
     st \<leftarrow> stack_addDupMove (mstack model) mi scores newTiles;
     Some (model\<lparr>mstack := st\<rparr>)
   }"

definition model_commitDupeTrade :: "modelCtxt \<Rightarrow> trayTileSet \<Rightarrow> trayTileSet \<Rightarrow> modelCtxt option" where
  "model_commitDupeTrade model oldTiles newTiles = do {
     st \<leftarrow> stack_addDupTrade (mstack model) oldTiles newTiles;
     Some (model\<lparr>mstack := st\<rparr>)
   }"

text \<open>\<open>when\<close> is the platform's clock, \<open>dutil_getCurSeconds\<close>.\<close>

definition model_noteDupePause :: "modelCtxt \<Rightarrow> nat \<Rightarrow> int \<Rightarrow> u32 \<Rightarrow> cstring \<Rightarrow> modelCtxt option" where
  "model_noteDupePause model typ turn when msg = do {
     st \<leftarrow> stack_addPause (mstack model) typ turn when msg;
     Some (model\<lparr>mstack := st\<rparr>)
   }"

definition model_assignDupeTiles :: "modelCtxt \<Rightarrow> trayTileSet \<Rightarrow> modelCtxt option" where
  "model_assignDupeTiles model tiles = do {
     model \<leftarrow> model_assignPlayerTiles model DUP_PLAYER tiles;
     model_cloneDupeTrays model
   }"

section \<open>Trades\<close>

definition trade_tile :: "nat \<Rightarrow> modelCtxt \<Rightarrow> tile \<times> tile \<Rightarrow> modelCtxt option" where
  "trade_tile turn model = (\<lambda>(oldTile, newTile). do {
     tileIndex \<leftarrow> model_trayContains model turn oldTile;
     xp_assert (tileIndex \<ge> 0);
     (_, model) \<leftarrow> model_removePlayerTile model turn tileIndex;
     model_addPlayerTile model turn tileIndex newTile
   })"

definition makeTileTrade :: "modelCtxt \<Rightarrow> nat \<Rightarrow> trayTileSet \<Rightarrow> trayTileSet \<Rightarrow> modelCtxt option" where
  "makeTileTrade model turn oldTiles newTiles = do {
     xp_assert (length newTiles = length oldTiles);
     ofold (trade_tile turn) model (zip oldTiles newTiles)
   }"

definition model_makeTileTrade :: "modelCtxt \<Rightarrow> nat \<Rightarrow> trayTileSet \<Rightarrow> trayTileSet \<Rightarrow> modelCtxt option" where
  "model_makeTileTrade model turn oldTiles newTiles = do {
     st \<leftarrow> stack_addTrade (mstack model) turn oldTiles newTiles;
     makeTileTrade (model\<lparr>mstack := st\<rparr>) turn oldTiles newTiles
   }"

section \<open>Replaying the move stack\<close>

text \<open>What a replay carries: the model, the explanations written, the calls of the notifier, and the state
  of the functions called before and after each entry.\<close>

record 'c replay =
  rpModel :: modelCtxt
  rpStream :: "mem_stream option"
  rpCalls :: "wnParams list"
  rpClosure :: 'c

type_synonym 'c movePrint = "modelCtxt \<Rightarrow> stackEntry \<Rightarrow> mem_stream option \<times> 'c \<Rightarrow> (mem_stream option \<times> 'c) option"

definition printMove :: "'c movePrint option \<Rightarrow> stackEntry \<Rightarrow> 'c replay \<Rightarrow> 'c replay option" where
  "printMove mpf entry rp =
     (case mpf of None \<Rightarrow> Some rp
      | Some f \<Rightarrow> do {
          (stream, c) \<leftarrow> f (rpModel rp) entry (rpStream rp, rpClosure rp);
          Some (rp\<lparr>rpStream := stream, rpClosure := c\<rparr>)
        })"

definition clone_if_dupe :: "modelCtxt \<Rightarrow> nat \<Rightarrow> modelCtxt option" where
  "clone_if_dupe model turn =
     (if giInDuplicateMode (gi model) then do {
        xp_assert (DUP_PLAYER = turn);
        model_cloneDupeTrays model
      } else Some model)"

definition addEntryData ::
    "userStrings \<Rightarrow> nat \<Rightarrow> entryData \<Rightarrow> bool \<Rightarrow> bool \<Rightarrow> 'c replay \<Rightarrow> 'c replay option" where
  "addEntryData us turn u useStack notify rp =
     (case u of
        Move mi newTiles scores \<Rightarrow> do {
          (_, model, stream, calls) \<leftarrow> makeAndCommit us (rpModel rp) turn mi newTiles (rpStream rp) useStack notify;
          model \<leftarrow> (if giInDuplicateMode (gi model) then do {
              xp_assert (DUP_PLAYER = turn);
              model \<leftarrow> dupe_adjustScores model True scores;
              model_cloneDupeTrays model
            } else Some model);
          Some (rp\<lparr>rpModel := model, rpStream := stream, rpCalls := rpCalls rp @ calls\<rparr>)
        }
      | Trade oldTiles newTiles \<Rightarrow> do {
          model \<leftarrow> makeTileTrade (rpModel rp) turn oldTiles newTiles;
          model \<leftarrow> clone_if_dupe model turn;
          Some (rp\<lparr>rpModel := model\<rparr>)
        }
      | Assign tiles \<Rightarrow> do {
          model \<leftarrow> model_addNewTiles (rpModel rp) turn tiles;
          model \<leftarrow> clone_if_dupe model turn;
          Some (rp\<lparr>rpModel := model\<rparr>)
        }
      | Phony mi \<Rightarrow> do {
          model \<leftarrow> model_makeTurnFromMoveInfo (rpModel rp) turn mi;
          (_, _, stream, calls, model) \<leftarrow> getCurrentMoveScoreIfLegal us model turn (rpStream rp) notify;
          model \<leftarrow> model_resetCurrentTurn model turn;
          Some (rp\<lparr>rpModel := model, rpStream := stream, rpCalls := rpCalls rp @ calls\<rparr>)
        }
      | Pause _ _ _ \<Rightarrow> Some rp)"

text \<open>The score passed to \<open>mpf_post\<close> is not used by any of these functions.\<close>

definition modelAddEntry ::
    "userStrings \<Rightarrow> stackEntry \<Rightarrow> bool \<Rightarrow> bool \<Rightarrow> 'c movePrint option \<Rightarrow> 'c movePrint option \<Rightarrow>
     'c replay \<Rightarrow> 'c replay option" where
  "modelAddEntry us entry useStack notify mpf_pre mpf_post rp = do {
     rp \<leftarrow> printMove mpf_pre entry rp;
     rp \<leftarrow> addEntryData us (playerNum entry) (edata entry) useStack notify rp;
     printMove mpf_post entry rp
   }"

text \<open>The entries from \<open>initial\<close> on. The stack is read while the model is built; when it is the model's
  own, the callers put it back.\<close>

definition buildModel_step ::
    "userStrings \<Rightarrow> bool \<Rightarrow> bool \<Rightarrow> 'c movePrint option \<Rightarrow> 'c movePrint option \<Rightarrow>
     'c replay \<times> stackCtxt \<Rightarrow> nat \<Rightarrow> ('c replay \<times> stackCtxt) option" where
  "buildModel_step us useStack notify mpf_pre mpf_post = (\<lambda>(rp, stack) ii. do {
     (found, stack) \<leftarrow> stack_getNthEntry stack ii;
     entry \<leftarrow> found;
     rp \<leftarrow> modelAddEntry us entry useStack notify mpf_pre mpf_post rp;
     Some (rp, stack)
   })"

definition buildModelFromStack ::
    "userStrings \<Rightarrow> stackCtxt \<Rightarrow> bool \<Rightarrow> nat \<Rightarrow> bool \<Rightarrow> 'c movePrint option \<Rightarrow> 'c movePrint option \<Rightarrow>
     'c replay \<Rightarrow> ('c replay \<times> stackCtxt) option" where
  "buildModelFromStack us stack useStack initial notify mpf_pre mpf_post rp =
     ofold (buildModel_step us useStack notify mpf_pre mpf_post) (rp, stack) [initial..<stack_getNEntries stack]"

definition silent_replay :: "modelCtxt \<Rightarrow> unit replay" where
  "silent_replay model = \<lparr>rpModel = model, rpStream = None, rpCalls = [], rpClosure = ()\<rparr>"

section \<open>Saving and loading\<close>

text \<open>\<open>emptyDict\<close> is the platform's empty dictionary (\<open>util_makeEmptyDict\<close>), into which old versions load
  the one saved with the model, only to throw it away; \<open>skip\<close> finds the characters of its faces.\<close>

definition model_readSize :: "nat \<Rightarrow> mem_stream \<Rightarrow> (nat \<times> mem_stream) option" where
  "model_readSize version stream =
     (if STREAM_VERS_BIGBOARD \<le> version then getNat NUMCOLS_NBITS_5 stream
      else do {
        (cols, stream) \<leftarrow> getNat NUMCOLS_NBITS_4 stream;
        (_, stream) \<leftarrow> getNat NUMCOLS_NBITS_4 stream;
        Some (cols, stream)
      })"

definition loadBonuses :: "nat \<Rightarrow> modelCtxt \<Rightarrow> mem_stream \<Rightarrow> (modelCtxt \<times> mem_stream) option" where
  "loadBonuses version model stream =
     (if STREAM_VERS_BIGBOARD \<le> version then do {
        (n, stream) \<leftarrow> getNat 7 stream;
        if 0 < n then do {
          (bs, stream) \<leftarrow> getN n (getNat 4) stream;
          Some (model\<lparr>bonuses := Some bs\<rparr>, stream)
        } else Some (model, stream)
      } else Some (model, stream))"

definition loadPlayer_step :: "nat \<Rightarrow> modelCtxt \<times> mem_stream \<Rightarrow> nat \<Rightarrow> (modelCtxt \<times> mem_stream) option" where
  "loadPlayer_step version = (\<lambda>(model, stream) ii. do {
     pc \<leftarrow> mem_get ii (players model);
     (pc, stream) \<leftarrow> loadPlayerCtxt model stream version pc;
     model \<leftarrow> upd_player ii (\<lambda>_. pc) model;
     model \<leftarrow> setPendingCounts model ii;
     model \<leftarrow> invalidateScore model ii;
     Some (model, stream)
   })"

definition model_makeFromStream ::
    "userStrings \<Rightarrow> (u8 list \<Rightarrow> nat) \<Rightarrow> dictionaryCtxt \<Rightarrow> mem_stream \<Rightarrow> dictionaryCtxt option \<Rightarrow>
     dictionaryCtxt option list option \<Rightarrow> curGameInfo \<Rightarrow> (nat \<Rightarrow> nat \<Rightarrow> nat \<Rightarrow> nat) \<Rightarrow>
     (modelCtxt \<times> mem_stream) option" where
  "model_makeFromStream us skip emptyDict stream dict dicts g ub = do {
     let version = mem_stream_getVersion stream;
     xp_assert (dict \<noteq> None \<or> dicts \<noteq> None);
     (cols, stream) \<leftarrow> model_readSize version stream;
     xp_assert (MAX_COLS \<ge> cols);
     (hasDict, stream) \<leftarrow> (if version \<ge> STREAM_VERS_MODEL_NO_DICT then Some (False, stream) else getBool stream);
     (np, stream) \<leftarrow> getNat NPLAYERS_NBITS stream;
     stream \<leftarrow> (if hasDict then do { (_, stream) \<leftarrow> dict_loadFromStream skip emptyDict stream; Some stream }
               else Some stream);
     model \<leftarrow> model_make dict dicts g ub cols;
     let model = model\<lparr>mNPlayers := np\<rparr>;
     (model, stream) \<leftarrow> loadBonuses version model stream;
     (st, stream) \<leftarrow> stack_loadFromStream (mstack model) stream;
     (rp, st) \<leftarrow> buildModelFromStack us st False 0 False None None (silent_replay (model\<lparr>mstack := st\<rparr>));
     ofold (loadPlayer_step version) ((rpModel rp)\<lparr>mstack := st\<rparr>, stream) [0..<np]
   }"

definition model_writeToStream :: "modelCtxt \<Rightarrow> mem_stream \<Rightarrow> (modelCtxt \<times> mem_stream) option" where
  "model_writeToStream model stream = do {
     xp_assert (STREAM_VERS_BIGBOARD \<le> mem_stream_getVersion stream);
     stream \<leftarrow> putNat NUMCOLS_NBITS_5 stream (nCols model);
     stream \<leftarrow> putNat NPLAYERS_NBITS stream (mNPlayers model);
     let bs = (case bonuses model of None \<Rightarrow> [] | Some bs \<Rightarrow> bs);
     stream \<leftarrow> putNat 7 stream (length bs);
     stream \<leftarrow> ofold (putNat 4) stream bs;
     (st, stream) \<leftarrow> stack_writeToStream (mstack model) stream;
     stream \<leftarrow> ofold (\<lambda>stream ii. do { pc \<leftarrow> mem_get ii (players model); writePlayerCtxt model stream pc })
                stream [0..<mNPlayers model];
     Some (model\<lparr>mstack := st\<rparr>, stream)
   }"

section \<open>Undoing turns\<close>

definition undo_tile :: "nat \<Rightarrow> tile \<Rightarrow> moveInfo \<Rightarrow> modelCtxt \<Rightarrow> moveInfoTile \<Rightarrow> modelCtxt option" where
  "undo_tile turn blank mi model t = do {
     let (col, row) = sq (isHorizontal mi) (commonCoord mi) (varCoord t);
     model \<leftarrow> setModelTileRaw model col row EMPTY_TILE;
     let model = model\<lparr>nTilesOnBoard := sub16 (nTilesOnBoard model) 1\<rparr>;
     model_addPlayerTile model turn (-1) (if IS_BLANK (mtile t) then blank else mtile t)
   }"

definition undoFromMove ::
    "userStrings \<Rightarrow> modelCtxt \<Rightarrow> nat \<Rightarrow> tile \<Rightarrow> moveInfo \<Rightarrow> u16 list \<Rightarrow> modelCtxt option" where
  "undoFromMove us model turn blank mi scores = do {
     model \<leftarrow> ofold (undo_tile turn blank mi) model (mtiles mi);
     if giInDuplicateMode (gi model) then dupe_adjustScores model False scores
     else adjustScoreForUndone us model mi turn
   }"

definition replaceNewTiles ::
    "modelCtxt \<Rightarrow> poolContext option \<Rightarrow> nat \<Rightarrow> trayTileSet \<Rightarrow> (modelCtxt \<times> poolContext option) option" where
  "replaceNewTiles model pool turn tileSet = do {
     model \<leftarrow> ofold (\<lambda>model t. do {
         index \<leftarrow> model_trayContains model turn t;
         xp_assert (index \<ge> 0);
         (_, model) \<leftarrow> model_removePlayerTile model turn index;
         Some model
       }) model tileSet;
     pool \<leftarrow> (case pool of None \<Rightarrow> Some None | Some p \<Rightarrow> do { p \<leftarrow> pool_replaceTiles p tileSet; Some (Some p) });
     Some (model, pool)
   }"

definition pop_entry :: "modelCtxt \<Rightarrow> (stackEntry option \<times> modelCtxt) option" where
  "pop_entry model = do {
     (found, st) \<leftarrow> stack_popEntry (mstack model);
     Some (found, model\<lparr>mstack := st\<rparr>)
   }"

definition model_rejectPreviousMove ::
    "userStrings \<Rightarrow> modelCtxt \<Rightarrow> poolContext option \<Rightarrow> (nat \<times> modelCtxt \<times> poolContext option) option" where
  "model_rejectPreviousMove us model pool = do {
     blank \<leftarrow> blank_of model;
     (found, model) \<leftarrow> pop_entry model;
     entry \<leftarrow> found;
     let turn = playerNum entry;
     case edata entry of
       Move mi newTiles scores \<Rightarrow> do {
         model \<leftarrow> model_resetCurrentTurn model turn;
         (model, pool) \<leftarrow> replaceNewTiles model pool turn newTiles;
         xp_assert (\<not> giInDuplicateMode (gi model));
         model \<leftarrow> undoFromMove us model turn blank mi scores;
         st \<leftarrow> stack_addPhony (mstack model) turn mi;
         Some (turn, model\<lparr>mstack := st\<rparr>, pool)
       }
     | _ \<Rightarrow> None
   }"

definition model_canUndo :: "modelCtxt \<Rightarrow> bool" where
  "model_canUndo model \<longleftrightarrow>
     stack_getNEntries (mstack model) > (if giInDuplicateMode (gi model) then 1 else mNPlayers model)"

text \<open>One entry that has been popped; whether the undo may go on (it may not behind an assignment).\<close>

definition undo_entry ::
    "userStrings \<Rightarrow> tile \<Rightarrow> stackEntry \<Rightarrow> modelCtxt \<Rightarrow> poolContext option \<Rightarrow>
     (bool \<times> modelCtxt \<times> poolContext option) option" where
  "undo_entry us blank entry model pool = do {
     let turn = playerNum entry;
     model \<leftarrow> model_resetCurrentTurn model turn;
     case edata entry of
       Move mi newTiles scores \<Rightarrow> do {
         (model, pool) \<leftarrow> replaceNewTiles model pool turn newTiles;
         model \<leftarrow> undoFromMove us model turn blank mi scores;
         model \<leftarrow> model_sortTiles model turn;
         model \<leftarrow> clone_if_dupe model turn;
         Some (True, model, pool)
       }
     | Trade oldTiles newTiles \<Rightarrow> do {
         (model, pool) \<leftarrow> replaceNewTiles model pool turn newTiles;
         pool \<leftarrow> (case pool of None \<Rightarrow> Some None | Some p \<Rightarrow> do { p \<leftarrow> pool_removeTiles p oldTiles; Some (Some p) });
         model \<leftarrow> model_addNewTiles model turn oldTiles;
         Some (True, model, pool)
       }
     | Phony mi \<Rightarrow> Some (True, model, pool)
     | Assign tiles \<Rightarrow> Some (False, model, pool)
     | Pause _ _ _ \<Rightarrow> None
   }"

text \<open>The loop: pop and undo until the move sought (or the number of moves) is reached. The last entry
  popped is returned with the count.\<close>

partial_function (option) undo_loop ::
    "userStrings \<Rightarrow> tile \<Rightarrow> nat \<Rightarrow> int \<Rightarrow> nat \<Rightarrow> stackEntry option \<Rightarrow> modelCtxt \<Rightarrow> poolContext option \<Rightarrow>
     (bool \<times> nat \<times> stackEntry option \<times> modelCtxt \<times> poolContext option) option" where
  "undo_loop us blank nMovesSought moveSought nMovesUndone prev model pool = do {
     (found, model) \<leftarrow> pop_entry model;
     case found of
       None \<Rightarrow> Some (False, nMovesUndone, prev, model, pool)
     | Some entry \<Rightarrow> do {
         let nMovesUndone = nMovesUndone + 1;
         (go, model, pool) \<leftarrow> undo_entry us blank entry model pool;
         if \<not> go then Some (False, nMovesUndone, Some entry, model, pool)
         else if (if 0 \<le> moveSought then moveSought = int (moveNum entry) else nMovesSought = nMovesUndone)
         then Some (True, nMovesUndone, Some entry, model, pool)
         else undo_loop us blank nMovesSought moveSought nMovesUndone (Some entry) model pool
       }
   }"

declare undo_loop.simps [code]

text \<open>The tiles of the last move on the stack are marked as recent.\<close>

definition mark_tile :: "moveInfo \<Rightarrow> modelCtxt \<Rightarrow> moveInfoTile \<Rightarrow> modelCtxt option" where
  "mark_tile mi model t = do {
     let (col, row) = sq (isHorizontal mi) (commonCoord mi) (varCoord t);
     cell \<leftarrow> getModelTileRaw model col row;
     setModelTileRaw model col row (cell OR PREV_MOVE_BIT)
   }"

fun mark_last_move :: "modelCtxt \<Rightarrow> nat \<Rightarrow> modelCtxt option" where
  "mark_last_move model 0 = Some model"
| "mark_last_move model (Suc n) = do {
     (found, st) \<leftarrow> stack_getNthEntry (mstack model) n;
     let model = model\<lparr>mstack := st\<rparr>;
     case map_option edata found of
       None \<Rightarrow> Some model
     | Some (Assign _) \<Rightarrow> Some model
     | Some (Move mi _ _) \<Rightarrow> ofold (mark_tile mi) model (rev (mtiles mi))
     | Some _ \<Rightarrow> mark_last_move model n
   }"

text \<open>\<open>moveNumP\<close> is the number of the move to undo up to, if the caller names one. The results are the
  success, and with it the player and the number of the last move undone. A failure after something has
  been undone fires an assertion.\<close>

definition model_undoLatestMoves ::
    "userStrings \<Rightarrow> modelCtxt \<Rightarrow> poolContext option \<Rightarrow> nat \<Rightarrow> int option \<Rightarrow>
     (bool \<times> nat \<times> nat \<times> modelCtxt \<times> poolContext option) option" where
  "model_undoLatestMoves us model pool nMovesSought moveNumP = do {
     xp_assert (0 < nMovesSought);
     let moveSought = (case moveNumP of None \<Rightarrow> -1 | Some n \<Rightarrow> n);
     let nStackEntries = stack_getNEntries (mstack model);
     let assignCount = (if giInDuplicateMode (gi model) then 1 else mNPlayers model);
     if (0 \<le> moveSought \<and> moveSought \<ge> int nStackEntries) \<or> nStackEntries < nMovesSought \<or> nStackEntries \<le> assignCount
     then Some (False, 0, 0, model, pool)
     else do {
       blank \<leftarrow> blank_of model;
       (success, nMovesUndone, prev, model, pool) \<leftarrow> undo_loop us blank nMovesSought moveSought 0 None model pool;
       model \<leftarrow> mark_last_move model (stack_getNEntries (mstack model));
       entry \<leftarrow> prev;
       let success = success \<and> (if 0 \<le> moveSought then moveSought = int (moveNum entry) else nMovesUndone = nMovesSought);
       xp_assert (success \<or> nMovesUndone = 0);
       Some (success, playerNum entry, moveNum entry, model, pool)
     }
   }"

text \<open>Pop until the hash is met, then push what was popped again, and undo it properly if the hash was
  found.\<close>

fun popToHash_pops :: "u32 \<Rightarrow> nat \<Rightarrow> nat \<Rightarrow> stackCtxt \<Rightarrow> (bool \<times> nat \<times> stackCtxt) option" where
  "popToHash_pops hash 0 nPopped stack = Some (False, nPopped, stack)"
| "popToHash_pops hash (Suc n) nPopped stack = do {
     hash1 \<leftarrow> stack_getHash stack;
     if hash = hash1 then Some (True, nPopped, stack)
     else do {
       (found, stack) \<leftarrow> stack_popEntry stack;
       xp_assert (found \<noteq> None);
       popToHash_pops hash n (nPopped + 1) stack
     }
   }"

definition model_popToHash ::
    "userStrings \<Rightarrow> modelCtxt \<Rightarrow> u32 \<Rightarrow> poolContext option \<Rightarrow> (bool \<times> modelCtxt \<times> poolContext option) option" where
  "model_popToHash us model hash pool = do {
     let nEntries = stack_getNEntries (mstack model);
     (found, nPopped, st) \<leftarrow> popToHash_pops hash nEntries 0 (mstack model);
     st \<leftarrow> ofold (\<lambda>st ii. do { (_, _, st) \<leftarrow> stack_redo st True; Some st }) st [0..<nPopped];
     let model = model\<lparr>mstack := st\<rparr>;
     if found then do {
       (model, pool) \<leftarrow> (if 0 < nPopped then do {
           (success, _, _, model, pool) \<leftarrow> model_undoLatestMoves us model pool nPopped None;
           xp_assert success;
           Some (model, pool)
         } else Some (model, pool));
       h \<leftarrow> stack_getHash (mstack model);
       xp_assert (hash = h);
       Some (True, model, pool)
     } else do {
       xp_assert (nEntries = stack_getNEntries st);
       Some (False, model, pool)
     }
   }"

section \<open>The history of the game as a text\<close>

text \<open>The platform's texts and formats (\<open>dutil_getUserString\<close>, \<open>util_formatPauseHistory\<close>), as functions
  of what is printed with them.\<close>

record historyStrings =
  strPass :: "u8 list"
  strMoveAcross :: "u8 list \<Rightarrow> u8 list"
  strMoveDown :: "u8 list \<Rightarrow> u8 list"
  strTrayAtStart :: "u8 list \<Rightarrow> u8 list"
  strTradedFor :: "u8 list \<Rightarrow> u8 list \<Rightarrow> u8 list"
  strPhonyRejected :: "u8 list"
  strCumulativeScore :: "int \<Rightarrow> u8 list"
  strNewTiles :: "u8 list \<Rightarrow> u8 list"
  strPause :: "nat \<Rightarrow> nat \<Rightarrow> u32 \<Rightarrow> u32 \<Rightarrow> cstring \<Rightarrow> u8 list"

record movePrintClosure =
  mpDict :: dictionaryCtxt
  nPrinted :: nat
  keepHidden :: bool
  lastPauseWhen :: u32

text \<open>\<open>XP_SNPRINTF\<close> into a buffer of a size.\<close>

definition snprintf :: "nat \<Rightarrow> u8 list \<Rightarrow> u8 list" where
  "snprintf sz txt = take (sz - 1) txt"

definition printString :: "mem_stream option \<Rightarrow> u8 list \<Rightarrow> mem_stream option option" where
  "printString stream str = on_stream (\<lambda>s. mem_stream_catString s (Some str)) stream"

definition TRAYBUF_SIZE :: nat where "TRAYBUF_SIZE = MAX_TRAY_TILES + 1"

text \<open>A tray that does not fit the buffer leaves it without an end.\<close>

definition formatTray :: "trayTileSet \<Rightarrow> dictionaryCtxt \<Rightarrow> nat \<Rightarrow> bool \<Rightarrow> u8 list option" where
  "formatTray tiles dict bufSize hidden =
     (if hidden then do {
        xp_assert (length tiles < bufSize);
        Some (replicate (length tiles) 63)
      } else do { txt \<leftarrow> dict_tilesToString dict tiles bufSize None; txt })"

definition moveStart :: "historyStrings \<Rightarrow> moveInfo \<Rightarrow> u8 list option" where
  "moveStart hs mi = do {
     t \<leftarrow> mem_get 0 (mtiles mi);
     let (col, row) = sq (isHorizontal mi) (commonCoord mi) (varCoord t);
     let traybuf = snprintf TRAYBUF_SIZE ([of_nat (65 + col)] @ dec_digits (row + 1));
     Some (snprintf 64 (if isHorizontal mi then strMoveAcross hs traybuf else strMoveDown hs traybuf))
   }"

definition printTrayAtStart ::
    "historyStrings \<Rightarrow> modelCtxt \<Rightarrow> nat \<Rightarrow> movePrintClosure \<Rightarrow> mem_stream option \<Rightarrow> mem_stream option option" where
  "printTrayAtStart hs model turn c stream =
     (if keepHidden c then Some stream
      else do {
        tray \<leftarrow> model_getPlayerTiles model turn;
        txt \<leftarrow> formatTray tray (mpDict c) TRAYBUF_SIZE False;
        printString stream (snprintf 64 (strTrayAtStart hs txt))
      })"

definition printMovePre :: "historyStrings \<Rightarrow> movePrintClosure movePrint" where
  "printMovePre hs model entry = (\<lambda>(stream, c).
     (case edata entry of
        Assign _ \<Rightarrow> Some (stream, c)
      | u \<Rightarrow> do {
          let c = c\<lparr>nPrinted := trunc16 (nPrinted c + 1)\<rparr>;
          stream \<leftarrow> printString stream (snprintf 64 (dec_digits (nPrinted c) @ [58] @ dec_digits (playerNum entry + 1) @ [32]));
          stream \<leftarrow> (case u of
              Move mi _ _ \<Rightarrow> do {
                txt \<leftarrow> (if mtiles mi = [] then Some (snprintf 64 (strPass hs)) else moveStart hs mi);
                stream \<leftarrow> printString stream txt;
                printTrayAtStart hs model (playerNum entry) c stream
              }
            | Phony mi \<Rightarrow> do {
                txt \<leftarrow> moveStart hs mi;
                stream \<leftarrow> printString stream txt;
                printTrayAtStart hs model (playerNum entry) c stream
              }
            | _ \<Rightarrow> Some stream);
          Some (stream, c)
        }))"

definition dupScoresText :: "u16 list \<Rightarrow> u8 list" where
  "dupScoresText scores =
     butlast ([65, 108, 108, 32, 115, 99, 111, 114, 101, 115, 58, 32] @ concat (map (\<lambda>s. dec_digits (unat s) @ [44]) scores)) @ [10]"

definition printScores ::
    "historyStrings \<Rightarrow> modelCtxt \<Rightarrow> nat \<Rightarrow> u16 list option \<Rightarrow> mem_stream option \<Rightarrow> mem_stream option option" where
  "printScores hs model turn scores stream = do {
     totalScore \<leftarrow> model_getPlayerScore model turn;
     stream \<leftarrow> (if giInDuplicateMode (gi model)
               then do { scores \<leftarrow> scores; printString stream (dupScoresText scores) } else Some stream);
     printString stream (snprintf 100 (strCumulativeScore hs totalScore))
   }"

text \<open>Whether a line of its own ends the text is the second result.\<close>

definition printMovePost :: "historyStrings \<Rightarrow> movePrintClosure movePrint" where
  "printMovePost hs model entry = (\<lambda>(stream, c).
     (let player = playerNum entry
      in case edata entry of
        Assign _ \<Rightarrow> Some (stream, c)
      | u \<Rightarrow> do {
          _ \<leftarrow> model_getPlayerScore model player;
          (stream, addCR, c) \<leftarrow> (case u of
              Trade oldTiles newTiles \<Rightarrow> do {
                a \<leftarrow> formatTray oldTiles (mpDict c) TRAYBUF_SIZE (keepHidden c);
                b \<leftarrow> formatTray newTiles (mpDict c) TRAYBUF_SIZE (keepHidden c);
                stream \<leftarrow> printString stream (snprintf 100 (strTradedFor hs a b));
                Some (stream, True, c)
              }
            | Phony mi \<Rightarrow> do {
                stream \<leftarrow> printString stream (strPhonyRejected hs);
                stream \<leftarrow> printScores hs model player None stream;
                Some (stream, False, c)
              }
            | Move mi newTiles scores \<Rightarrow> do {
                stream \<leftarrow> printScores hs model player (Some scores) stream;
                if mtiles mi \<noteq> [] \<and> \<not> keepHidden c then do {
                  txt \<leftarrow> formatTray newTiles (mpDict c) TRAYBUF_SIZE False;
                  stream \<leftarrow> printString stream (snprintf 100 (strNewTiles hs txt));
                  Some (stream, True, c)
                } else Some (stream, False, c)
              }
            | Pause typ when msg \<Rightarrow> do {
                stream \<leftarrow> printString stream (strPause hs typ player (lastPauseWhen c) when msg);
                Some (stream, True, c\<lparr>lastPauseWhen := when\<rparr>)
              }
            | Assign _ \<Rightarrow> Some (stream, False, c));
          stream \<leftarrow> (if addCR then printString stream [10] else Some stream);
          stream \<leftarrow> printString stream [10];
          Some (stream, c)
        }))"

section \<open>A copy of the model rebuilt from its moves\<close>

definition copyStack :: "stackCtxt \<Rightarrow> stackCtxt \<Rightarrow> (stackCtxt \<times> stackCtxt) option" where
  "copyStack destStack srcStack = do {
     (srcStack, stream) \<leftarrow> stack_writeToStream srcStack mem_stream_make_raw;
     (destStack, _) \<leftarrow> stack_loadFromStream destStack stream;
     Some (destStack, srcStack)
   }"

text \<open>The copy, what was written and the closure of the printing functions, and the model, whose stack has
  been read.\<close>

definition makeTmpModel ::
    "userStrings \<Rightarrow> modelCtxt \<Rightarrow> mem_stream option \<Rightarrow> 'c movePrint option \<Rightarrow> 'c movePrint option \<Rightarrow> 'c \<Rightarrow>
     ('c replay \<times> modelCtxt) option" where
  "makeTmpModel us model stream mpf_pre mpf_post c = do {
     tmpModel \<leftarrow> model_make (model_getDictionary model) None (gi model) (utilBonus model) (model_numCols model);
     let tmpModel = model_setNPlayers (tmpModel\<lparr>loaner := Some (bonuses model)\<rparr>) (mNPlayers model);
     (rp, st) \<leftarrow> buildModelFromStack us (mstack model) False 0 False mpf_pre mpf_post
        \<lparr>rpModel = tmpModel, rpStream = stream, rpCalls = [], rpClosure = c\<rparr>;
     Some (rp, model\<lparr>mstack := st\<rparr>)
   }"

text \<open>\<open>finalScores\<close> is \<open>server_writeFinalScores\<close>.\<close>

definition model_writeGameHistory ::
    "userStrings \<Rightarrow> historyStrings \<Rightarrow> (mem_stream option \<Rightarrow> mem_stream option option) \<Rightarrow> modelCtxt \<Rightarrow>
     mem_stream option \<Rightarrow> bool \<Rightarrow> (mem_stream option \<times> modelCtxt) option" where
  "model_writeGameHistory us hs finalScores model stream gameOver = do {
     dict \<leftarrow> model_getDictionary model;
     (rp, model) \<leftarrow> makeTmpModel us model stream (Some (printMovePre hs)) (Some (printMovePost hs))
        \<lparr>mpDict = dict, nPrinted = 0, keepHidden = (\<not> gameOver \<and> \<not> giInDuplicateMode (gi model)), lastPauseWhen = 0\<rparr>;
     stream \<leftarrow> (if gameOver then finalScores (rpStream rp) else Some (rpStream rp));
     Some (stream, model)
   }"

section \<open>The last move\<close>

record lastMoveInfo =
  lmNames :: "cstring list"
  nWinners :: nat
  lmScore :: nat
  lmNTiles :: nat
  lmWord :: "u8 list"
  lmMoveType :: nat
  lmDuplicate :: bool

definition FIRST_WORD_SIZE :: nat where "FIRST_WORD_SIZE = 32"

text \<open>\<open>XP_STRCAT\<close> does not know the size of the buffer.\<close>

definition getFirstWord :: "u8 list \<Rightarrow> wnParams \<Rightarrow> u8 list option" where
  "getFirstWord word wnp =
     (if word = [] \<and> wnWord wnp \<noteq> [] then do {
        xp_assert (length (wnWord wnp) < FIRST_WORD_SIZE);
        Some (wnWord wnp)
      } else Some word)"

definition scoreLastMove ::
    "userStrings \<Rightarrow> modelCtxt \<Rightarrow> moveInfo \<Rightarrow> nat \<Rightarrow> lastMoveInfo \<Rightarrow> (lastMoveInfo \<times> modelCtxt) option" where
  "scoreLastMove us model mi howMany lmi = do {
     (rp, model) \<leftarrow> makeTmpModel us model None None None ();
     let tmpModel = rpModel rp;
     (dst, src) \<leftarrow> copyStack (mstack tmpModel) (mstack model);
     let model = model\<lparr>mstack := src\<rparr>;
     (success, turn, _, tmpModel, _) \<leftarrow> model_undoLatestMoves us (tmpModel\<lparr>mstack := dst\<rparr>) None howMany (Some (-1));
     xp_assert success;
     (score, _, calls) \<leftarrow> figureMoveScore us tmpModel turn mi None None True;
     word \<leftarrow> ofold getFirstWord [] calls;
     Some (lmi\<lparr>lmScore := score, lmWord := snprintf (MAX_COLS * 2) word\<rparr>, model)
   }"

definition MAX_PASSES :: nat where "MAX_PASSES = 2"

fun passCount_loop :: "stackCtxt \<Rightarrow> nat \<Rightarrow> nat \<Rightarrow> (nat \<times> stackCtxt) option" where
  "passCount_loop stack 0 nPasses = Some (nPasses, stack)"
| "passCount_loop stack (Suc which) nPasses = do {
     (found, stack) \<leftarrow> stack_getNthEntry stack which;
     case map_option edata found of
       None \<Rightarrow> Some (nPasses, stack)
     | Some (Move mi _ _) \<Rightarrow> passCount_loop stack which (if length (mtiles mi) = 0 then trunc16 (nPasses + 1) else nPasses)
     | Some _ \<Rightarrow> passCount_loop stack which nPasses
   }"

definition model_getRecentPassCount :: "modelCtxt \<Rightarrow> (nat \<times> modelCtxt) option" where
  "model_getRecentPassCount model = do {
     (n, st) \<leftarrow> passCount_loop (mstack model) (stack_getNEntries (mstack model)) 0;
     Some (n, model\<lparr>mstack := st\<rparr>)
   }"

definition model_recentPassCountOk :: "modelCtxt \<Rightarrow> (bool \<times> modelCtxt) option" where
  "model_recentPassCountOk model = do {
     (count, model) \<leftarrow> model_getRecentPassCount model;
     let okCount = (if giInDuplicateMode (gi model) then MAX_PASSES else trunc16 (MAX_PASSES * mNPlayers model));
     xp_assert (count \<le> okCount);
     Some (count < okCount, model)
   }"

section \<open>Lists of words\<close>

definition appendWithCR :: "mem_stream \<times> nat \<Rightarrow> u8 list \<Rightarrow> (mem_stream \<times> nat) option" where
  "appendWithCR = (\<lambda>(stream, counter) word. do {
     stream \<leftarrow> (if 0 < counter then mem_stream_putU8 stream 10 else Some stream);
     stream \<leftarrow> mem_stream_catString stream (Some word);
     Some (stream, trunc16 (counter + 1))
   })"

definition recordWord :: "mem_stream \<times> nat \<Rightarrow> wnParams \<Rightarrow> (mem_stream \<times> nat) option" where
  "recordWord info wnp = appendWithCR info (wnWord wnp)"

definition model_initWordCounter :: "mem_stream \<Rightarrow> mem_stream \<times> nat" where
  "model_initWordCounter stream = (stream, 0)"

text \<open>The words through a square among those a notifier is called with.\<close>

definition listWordsThrough :: "nat \<Rightarrow> nat \<Rightarrow> mem_stream \<times> nat \<Rightarrow> wnParams \<Rightarrow> (mem_stream \<times> nat) option" where
  "listWordsThrough col row info wnp =
     (let mi = wnMovei wnp;
          contained = (if isHorizontal mi \<and> commonCoord mi = row then wnStart wnp \<le> col \<and> wnEnd wnp \<ge> col
                       else if \<not> isHorizontal mi \<and> commonCoord mi = col then wnStart wnp \<le> row \<and> wnEnd wnp \<ge> row
                       else False)
      in if contained then appendWithCR info (wnWord wnp) else Some info)"

partial_function (option) undo_until_empty :: "userStrings \<Rightarrow> nat \<Rightarrow> nat \<Rightarrow> modelCtxt \<Rightarrow> modelCtxt option" where
  "undo_until_empty us col row model = do {
     (undone, _, _, model, _) \<leftarrow> model_undoLatestMoves us model None 1 None;
     if undone then do {
       cell \<leftarrow> getModelTileRaw model col row;
       if TILE_IS_EMPTY cell then Some model else undo_until_empty us col row model
     } else Some model
   }"

declare undo_until_empty.simps [code]

definition redo_step :: "userStrings \<Rightarrow> unit replay \<Rightarrow> nat \<Rightarrow> unit replay option" where
  "redo_step us rp ii = do {
     (ok, entry, st) \<leftarrow> stack_redo (mstack (rpModel rp)) True;
     xp_assert ok;
     entry \<leftarrow> entry;
     modelAddEntry us entry False True None None (rp\<lparr>rpModel := (rpModel rp)\<lparr>mstack := st\<rparr>\<rparr>)
   }"

definition commit_pending_copy :: "userStrings \<Rightarrow> modelCtxt \<Rightarrow> modelCtxt \<Rightarrow> nat \<Rightarrow> modelCtxt option" where
  "commit_pending_copy us model tmpModel turn = do {
     (inLine, isH) \<leftarrow> tilesInLine model turn;
     if inLine then do {
       mi \<leftarrow> normalizeMoves model turn isH;
       tmpModel \<leftarrow> model_makeTurnFromMoveInfo tmpModel turn mi;
       (legal, _, _, _, tmpModel) \<leftarrow> getCurrentMoveScoreIfLegal us tmpModel turn None False;
       if legal then do { (_, tmpModel, _) \<leftarrow> commitTurn us tmpModel turn [] None False True; Some tmpModel }
       else model_resetCurrentTurn tmpModel turn
     } else Some tmpModel
   }"

definition model_listWordsThrough ::
    "userStrings \<Rightarrow> modelCtxt \<Rightarrow> nat \<Rightarrow> nat \<Rightarrow> nat \<Rightarrow> mem_stream \<Rightarrow> (bool \<times> mem_stream \<times> modelCtxt) option" where
  "model_listWordsThrough us model col row turn stream = do {
     (rp, model) \<leftarrow> makeTmpModel us model None None None ();
     let tmpModel = rpModel rp;
     (dst, src) \<leftarrow> copyStack (mstack tmpModel) (mstack model);
     let model = model\<lparr>mstack := src\<rparr>;
     tmpModel \<leftarrow> commit_pending_copy us model (tmpModel\<lparr>mstack := dst\<rparr>) turn;
     let nEntriesBefore = stack_getNEntries (mstack tmpModel);
     tmpModel \<leftarrow> undo_until_empty us col row tmpModel;
     let nEntriesAfter = stack_getNEntries (mstack tmpModel);
     xp_assert (nEntriesAfter < nEntriesBefore);
     rp \<leftarrow> ofold (redo_step us) (silent_replay tmpModel) [nEntriesAfter..<nEntriesBefore];
     (stream, nWords) \<leftarrow> ofold (listWordsThrough col row) (stream, 0) (rpCalls rp);
     Some (0 < nWords, stream, model)
   }"

section \<open>Scores of the last move\<close>

definition highestScore_step ::
    "cstring list \<Rightarrow> nat \<times> lastMoveInfo \<Rightarrow> nat \<times> nat \<Rightarrow> (nat \<times> lastMoveInfo) option" where
  "highestScore_step names = (\<lambda>(max, lmi) (ii, score).
     (if score = 0 \<or> score < max then Some (max, lmi)
      else do {
        let (max, lmi) = (if score > max then (score, lmi\<lparr>nWinners := 0, lmScore := score\<rparr>) else (max, lmi));
        name \<leftarrow> mem_get ii names;
        ns \<leftarrow> mem_put (nWinners lmi) name (lmNames lmi);
        Some (max, lmi\<lparr>lmNames := ns, nWinners := nWinners lmi + 1\<rparr>)
      }))"

definition listHighestScores :: "modelCtxt \<Rightarrow> lastMoveInfo \<Rightarrow> u16 list \<Rightarrow> lastMoveInfo option" where
  "listHighestScores model lmi scores = do {
     (_, lmi) \<leftarrow> ofold (highestScore_step (map lpName (giPlayers (gi model)))) (0, lmi\<lparr>nWinners := 0\<rparr>)
        (enumerate 0 (map unat scores));
     Some lmi
   }"

text \<open>The last entry of a player, or of anybody for -1: its number, the entry and the stack.\<close>

fun find_last_entry :: "int \<Rightarrow> bool \<Rightarrow> nat \<Rightarrow> stackCtxt \<Rightarrow> ((nat \<times> stackEntry) option \<times> stackCtxt) option" where
  "find_last_entry player dup 0 stack = Some (None, stack)"
| "find_last_entry player dup (Suc which) stack = do {
     (found, stack) \<leftarrow> stack_getNthEntry stack which;
     case found of
       Some entry \<Rightarrow> (if player = -1 \<or> dup \<or> int (playerNum entry) = player then Some (Some (which, entry), stack)
                      else find_last_entry player dup which stack)
     | None \<Rightarrow> find_last_entry player dup which stack
   }"

definition no_last_move :: lastMoveInfo where
  "no_last_move = \<lparr>lmNames = replicate MAX_NUM_PLAYERS None, nWinners = 0, lmScore = 0, lmNTiles = 0, lmWord = [],
     lmMoveType = 0, lmDuplicate = False\<rparr>"

definition model_getPlayersLastScore ::
    "userStrings \<Rightarrow> modelCtxt \<Rightarrow> int \<Rightarrow> (bool \<times> lastMoveInfo \<times> modelCtxt) option" where
  "model_getPlayersLastScore us model player = do {
     let dup = giInDuplicateMode (gi model);
     let nEntries = stack_getNEntries (mstack model);
     (found, st) \<leftarrow> find_last_entry player dup nEntries (mstack model);
     let model = model\<lparr>mstack := st\<rparr>;
     case found of
       None \<Rightarrow> Some (False, no_last_move, model)
     | Some (which, entry) \<Rightarrow> do {
         pl \<leftarrow> mem_get (playerNum entry) (giPlayers (gi model));
         let lmi = no_last_move\<lparr>lmNames := (lmNames no_last_move)[0 := lpName pl], nWinners := 1,
                     lmMoveType := moveType (edata entry), lmDuplicate := dup\<rparr>;
         case edata entry of
           Move mi newTiles scores \<Rightarrow> do {
             xp_assert (\<not> dup \<or> playerNum entry = DUP_PLAYER);
             let lmi = lmi\<lparr>lmNTiles := length (mtiles mi)\<rparr>;
             if 0 < length (mtiles mi) then do {
               (lmi, model) \<leftarrow> scoreLastMove us model mi (nEntries - which) lmi;
               lmi \<leftarrow> (if dup then listHighestScores model lmi scores else Some lmi);
               Some (True, lmi, model)
             } else Some (True, lmi, model)
           }
         | Trade oldTiles newTiles \<Rightarrow> do {
             xp_assert (\<not> dup \<or> playerNum entry = DUP_PLAYER);
             Some (True, lmi\<lparr>lmNTiles := length oldTiles\<rparr>, model)
           }
         | _ \<Rightarrow> Some (True, lmi, model)
       }
   }"

definition model_getNextTurn :: "modelCtxt \<Rightarrow> (int \<times> modelCtxt) option" where
  "model_getNextTurn model = do {
     (turn, st) \<leftarrow> stack_getNextTurn (mstack model);
     Some (turn, model\<lparr>mstack := st\<rparr>)
   }"

section \<open>The board as a text\<close>

text \<open>\<open>printf\<close> with a field width, and the platform's lower case for blanks (\<open>XP_LOWERSTR\<close>).\<close>

definition pad_left :: "nat \<Rightarrow> u8 list \<Rightarrow> u8 list" where
  "pad_left width txt = replicate (width - length txt) 32 @ txt"

definition textSquare :: "(u8 list \<Rightarrow> u8 list) \<Rightarrow> modelCtxt \<Rightarrow> dictionaryCtxt \<Rightarrow> nat \<Rightarrow> nat \<Rightarrow> nat \<Rightarrow> u8 list option" where
  "textSquare lower model dict width col row = do {
     found \<leftarrow> model_getTile model col row False 65535;
     case found of
       Some (t, isBlank, _) \<Rightarrow> do {
         p \<leftarrow> dict_getTileString dict t;
         face \<leftarrow> facePtr_str dict p;
         Some (pad_left width (if isBlank then lower face else face))
       }
     | None \<Rightarrow> Some (replicate width 46)
   }"

definition dict_getMaxWidth :: "dictionaryCtxt \<Rightarrow> nat option" where
  "dict_getMaxWidth dict = ofold (\<lambda>result t. do {
       p \<leftarrow> dict_getTileString dict (of_nat t);
       face \<leftarrow> facePtr_str dict p;
       Some (if length face > result then length face else result)
     }) 0 [0..<dict_numTileFaces dict]"

definition TEXT_ROW_SIZE :: nat where "TEXT_ROW_SIZE = 256"

definition textRow :: "(u8 list \<Rightarrow> u8 list) \<Rightarrow> modelCtxt \<Rightarrow> dictionaryCtxt \<Rightarrow> nat \<Rightarrow> mem_stream \<Rightarrow> nat \<Rightarrow> mem_stream option" where
  "textRow lower model dict width stream row = do {
     buf \<leftarrow> ofold (\<lambda>buf col. do {
         txt \<leftarrow> textSquare lower model dict width col row;
         xp_assert (length buf + length txt < TEXT_ROW_SIZE);
         Some (buf @ txt)
       }) [] [0..<nCols model];
     xp_assert (length buf + 1 < TEXT_ROW_SIZE);
     mem_stream_catString stream (Some (buf @ [10]))
   }"

text \<open>\<open>empty\<close> is an array of four bytes.\<close>

definition model_writeToTextStream :: "(u8 list \<Rightarrow> u8 list) \<Rightarrow> modelCtxt \<Rightarrow> mem_stream \<Rightarrow> mem_stream option" where
  "model_writeToTextStream lower model stream = do {
     dict \<leftarrow> model_getDictionary model;
     width \<leftarrow> dict_getMaxWidth dict;
     xp_assert (width < 4);
     ofold (textRow lower model dict width) stream [0..<nRows model]
   }"

end
