(* ===== verification/Xw_Engine.thy ===== *)
theory Xw_Engine
  imports Xw_Score
begin

text \<open>
  \<open>common/engine.c\<close>: the search for moves, by the algorithm of Appel and Jacobson. For each row the
  squares next to tiles are anchors; from each anchor words are built to the left with tiles of the rack
  and extended to the right along the word graph, within the tiles that the crosswise words allow
  (\<open>rowChecks\<close>). Moves are scored and the best of them kept, sorted, in a cache that is walked forth
  and back.

  The platform's answers are parameters: \<open>euProgress\<close> and \<open>euHilite\<close> tell for each call, by its number,
  whether the search goes on, \<open>euLimits\<close> is the dialog for the number of tiles, \<open>euRandom\<close> a random
  number. \<open>EMPTY_TILE\<close> on a square is \<open>None\<close> here.
\<close>

section \<open>State\<close>

definition NUM_SAVED_ENGINE_MOVES :: nat where "NUM_SAVED_ENGINE_MOVES = 32"

record possibleMove =
  pmScore :: nat
  pmMove :: moveInfo
  blankVals :: "tile list"

record moveIterationData =
  savedMoves :: "possibleMove list"
  lastSeenMove :: possibleMove
  nInMoveCache :: nat
  bottom :: nat
  curCacheIndex :: int

type_synonym crosscheck = "u32 \<times> u32"

record bdHintLimits =
  blLeft :: nat
  blTop :: nat
  blRight :: nat
  blBottom :: nat

record engineUtil =
  euProgress :: "nat \<Rightarrow> bool"
  euHilite :: "nat \<Rightarrow> bool"
  euLimits :: "nat \<Rightarrow> nat \<Rightarrow> (nat \<times> nat) option"
  euRandom :: nat

text \<open>\<open>nProgress\<close> and \<open>nHilite\<close> count the calls to the platform.\<close>

record engineCtxt =
  enModel :: modelCtxt
  enDict :: dictionaryCtxt
  enUtil :: engineUtil
  enTurn :: nat
  rack :: "nat list"
  enBlank :: tile
  usePrev :: bool
  searchInProgress :: bool
  searchHorizontal :: bool
  isFirstMove :: bool
  enRows :: nat
  enCols :: nat
  curRow :: nat
  blankCount :: nat
  nMovesToSave :: nat
  star_row :: nat
  returnNOW :: bool
  skipProgressCallback :: bool
  isRobot :: bool
  includePending :: bool
  miData :: moveIterationData
  blankValues :: "tile list"
  rowChecks :: "crosscheck list"
  scoreCache :: "nat list"
  nTilesMax :: nat
  allTilesBonus :: nat
  nTilesMin :: nat
  nTilesMinUser :: nat
  nTilesMaxUser :: nat
  tileLimitsKnown :: bool
  searchLimits :: "bdHintLimits option"
  lastRowToFill :: nat
  nProgress :: nat
  nHilite :: nat

definition no_move :: possibleMove where
  "no_move = \<lparr>pmScore = 0, pmMove = \<lparr>commonCoord = 0, isHorizontal = False, mtiles = []\<rparr>,
     blankVals = replicate MAX_COLS 0\<rparr>"

definition no_miData :: moveIterationData where
  "no_miData = \<lparr>savedMoves = replicate NUM_SAVED_ENGINE_MOVES no_move, lastSeenMove = no_move, nInMoveCache = 0,
     bottom = 0, curCacheIndex = 0\<rparr>"

definition engine_getScoreCache :: "engineCtxt \<Rightarrow> nat \<Rightarrow> nat option" where
  "engine_getScoreCache engine row = mem_get row (scoreCache engine)"

definition engine_reset :: "engineCtxt \<Rightarrow> engineCtxt" where
  "engine_reset engine =
     (let engine = engine\<lparr>miData := no_miData\<lparr>lastSeenMove := no_move\<lparr>pmScore := (if usePrev engine then 0 else 0xffff)\<rparr>\<rparr>,
            searchInProgress := False, tileLimitsKnown := False\<rparr>
      in if nTilesMin engine = 0
         then engine\<lparr>nTilesMinUser := 1, nTilesMin := 1, nTilesMaxUser := MAX_TRAY_TILES, nTilesMax := MAX_TRAY_TILES\<rparr>
         else engine)"

text \<open>Model and dictionary of an engine that has not searched yet are null; a search sets them first.\<close>

definition engine_make :: "engineUtil \<Rightarrow> modelCtxt \<Rightarrow> engineCtxt" where
  "engine_make util model = engine_reset
     \<lparr>enModel = model, enDict = dict_calloc, enUtil = util, enTurn = 0, rack = replicate (MAX_UNIQUE_TILES + 1) 0,
      enBlank = 0, usePrev = False, searchInProgress = False, searchHorizontal = False, isFirstMove = False,
      enRows = 0, enCols = 0, curRow = 0, blankCount = 0, nMovesToSave = 0, star_row = 0, returnNOW = False,
      skipProgressCallback = False, isRobot = False, includePending = False, miData = no_miData,
      blankValues = replicate MAX_TRAY_TILES 0, rowChecks = replicate MAX_ROWS (0, 0), scoreCache = replicate MAX_ROWS 0,
      nTilesMax = 0, allTilesBonus = 0, nTilesMin = 0, nTilesMinUser = 0, nTilesMaxUser = 0, tileLimitsKnown = False,
      searchLimits = None, lastRowToFill = 0, nProgress = 0, nHilite = 0\<rparr>"

definition initTray :: "engineCtxt \<Rightarrow> tile list \<Rightarrow> (bool \<times> engineCtxt) option" where
  "initTray engine tiles =
     (if length tiles > 0 then do {
        r \<leftarrow> ofold (\<lambda>r t. do {
            xp_assert (unat t < MAX_UNIQUE_TILES);
            n \<leftarrow> mem_get (unat t) r;
            mem_put (unat t) ((n + 1) mod 256) r
          }) (replicate (MAX_UNIQUE_TILES + 1) 0) tiles;
        Some (True, engine\<lparr>rack := r\<rparr>)
      } else Some (False, engine))"

section \<open>The cache of moves\<close>

text \<open>\<open>XP_MEMCMP\<close> on two arrays of bytes of one length.\<close>

fun memcmp :: "nat list \<Rightarrow> nat list \<Rightarrow> int" where
  "memcmp (a # as) (b # bs) = (if a = b then memcmp as bs else if a < b then -1 else 1)"
| "memcmp _ _ = 0"

text \<open>The bytes of a move behind its score: count, coordinate, direction, the array of seven tiles, in which
  what is not used is zero, and the array of blanks.\<close>

definition move_bytes :: "possibleMove \<Rightarrow> nat list" where
  "move_bytes m = (let mi = pmMove m in
     [length (mtiles mi), commonCoord mi, of_bool (isHorizontal mi)] @
     concat (map (\<lambda>t. [varCoord t, unat (mtile t)]) (mtiles mi)) @ replicate (2 * (MAX_TRAY_TILES - length (mtiles mi))) 0 @
     map unat (blankVals m))"

definition cmpMoves :: "possibleMove \<Rightarrow> possibleMove \<Rightarrow> int" where
  "cmpMoves m1 m2 =
     (if pmScore m1 = pmScore m2 then memcmp (move_bytes m1) (move_bytes m2)
      else if pmScore m1 < pmScore m2 then -1 else 1)"

definition move_cache_empty :: "engineCtxt \<Rightarrow> bool" where
  "move_cache_empty engine =
     (let mi = miData engine
      in if 0 = nInMoveCache mi then True
         else if usePrev engine then curCacheIndex mi \<ge> int NUM_SAVED_ENGINE_MOVES - 1
         else curCacheIndex mi \<le> int (bottom mi))"

definition init_move_cache :: "engineCtxt \<Rightarrow> engineCtxt option" where
  "init_move_cache engine = do {
     xp_assert (nMovesToSave engine = NUM_SAVED_ENGINE_MOVES);
     let mi = miData engine;
     let n = nMovesToSave engine - length (takeWhile (\<lambda>m. 0 = pmScore m) (take NUM_SAVED_ENGINE_MOVES (savedMoves mi)));
     Some (engine\<lparr>miData := mi\<lparr>nInMoveCache := n, bottom := NUM_SAVED_ENGINE_MOVES - n,
       curCacheIndex := (if usePrev engine then int NUM_SAVED_ENGINE_MOVES - int n - 1 else int NUM_SAVED_ENGINE_MOVES)\<rparr>\<rparr>)
   }"

definition next_from_cache :: "engineCtxt \<Rightarrow> (possibleMove option \<times> engineCtxt) option" where
  "next_from_cache engine =
     (if move_cache_empty engine then Some (None, engine)
      else do {
        let mi = miData engine;
        let i = (if usePrev engine then curCacheIndex mi + 1 else curCacheIndex mi - 1);
        xp_assert (0 \<le> i);
        m \<leftarrow> mem_get (nat i) (savedMoves mi);
        Some (Some m, engine\<lparr>miData := mi\<lparr>curCacheIndex := i\<rparr>\<rparr>)
      })"

definition set_search_limits :: "engineCtxt \<Rightarrow> engineCtxt option" where
  "set_search_limits engine =
     (let mi = miData engine
      in if 0 < nInMoveCache mi then do {
           m \<leftarrow> mem_get (if usePrev engine then nMovesToSave engine - 1 else bottom mi) (savedMoves mi);
           Some (engine\<lparr>miData := mi\<lparr>lastSeenMove := m\<rparr>\<rparr>)
         } else Some (engine_reset engine))"

text \<open>One pass over the moves that swaps neighbours; whether nothing had to be swapped.\<close>

fun sort_pass :: "possibleMove list \<Rightarrow> bool \<times> possibleMove list" where
  "sort_pass (a # b # ms) =
     (if cmpMoves a b > 0 then (let (_, ms) = sort_pass (a # ms) in (False, b # ms))
      else (let (done, ms) = sort_pass (b # ms) in (done, a # ms)))"
| "sort_pass ms = (True, ms)"

partial_function (option) sort_moves :: "possibleMove list \<Rightarrow> possibleMove list option" where
  "sort_moves ms = (let (done, ms) = sort_pass ms in if done then Some ms else sort_moves ms)"

declare sort_moves.simps [code]

definition sortMoves :: "engineCtxt \<Rightarrow> engineCtxt option" where
  "sortMoves engine = do {
     let mi = miData engine;
     xp_assert (nMovesToSave engine \<le> length (savedMoves mi));
     ms \<leftarrow> sort_moves (take (nMovesToSave engine) (savedMoves mi));
     Some (engine\<lparr>miData := mi\<lparr>savedMoves := ms @ drop (nMovesToSave engine) (savedMoves mi)\<rparr>\<rparr>)
   }"

text \<open>The move is \<open>None\<close> when there is none, or one without a score.\<close>

definition chooseMove :: "engineCtxt \<Rightarrow> (possibleMove option \<times> engineCtxt) option" where
  "chooseMove engine = do {
     engine \<leftarrow> (if move_cache_empty engine then do {
         engine \<leftarrow> sortMoves engine;
         if isRobot engine then Some engine else init_move_cache engine
       } else Some engine);
     (chosen, engine) \<leftarrow>
       (if isRobot engine then do {
          let n = nInMoveCache (miData engine);
          xp_assert (n \<le> NUM_SAVED_ENGINE_MOVES \<and> n \<le> nMovesToSave engine);
          m \<leftarrow> mem_get n (savedMoves (miData engine));
          Some (Some m, engine)
        } else next_from_cache engine);
     Some (case chosen of Some m \<Rightarrow> if pmScore m > 0 then Some m else None | None \<Rightarrow> None, engine)
   }"

definition normalizeIQ :: "engineCtxt \<Rightarrow> nat \<Rightarrow> engineCtxt" where
  "normalizeIQ engine iq =
     engine\<lparr>isRobot := (0 < iq),
       nMovesToSave := (if 0 = iq then NUM_SAVED_ENGINE_MOVES else if 1 = iq then 1
         else let count = NUM_SAVED_ENGINE_MOVES * iq div 100
              in if count > 0 then 1 + euRandom (enUtil engine) mod count else 1)\<rparr>"

text \<open>The place in the cache for a move: the first free one, or that of the worst move kept, unless the move
  has been seen. The second result tells whether the place is free.\<close>

fun mostest_loop :: "bool \<Rightarrow> possibleMove list \<Rightarrow> nat \<Rightarrow> nat \<Rightarrow> nat option \<Rightarrow> nat option \<times> bool" where
  "mostest_loop prev ms 0 ii mostest = (mostest, False)"
| "mostest_loop prev ms (Suc n) ii mostest =
     (if 0 = pmScore (ms ! ii) then (Some ii, True)
      else case mostest of
        None \<Rightarrow> mostest_loop prev ms n (ii + 1) (Some ii)
      | Some k \<Rightarrow>
          let cmpVal = cmpMoves (ms ! k) (ms ! ii)
          in mostest_loop prev ms n (ii + 1)
               (Some (if (\<not> prev \<and> cmpVal > 0) \<or> (prev \<and> cmpVal < 0) then ii else k)))"

definition find_mostest :: "engineCtxt \<Rightarrow> possibleMove \<Rightarrow> nat option \<times> bool" where
  "find_mostest engine posmove =
     (let mi = miData engine; cmpVal = cmpMoves posmove (lastSeenMove mi)
      in if 1 = nMovesToSave engine then (Some 0, False)
         else if (\<not> usePrev engine \<and> cmpVal \<ge> 0) \<or> (usePrev engine \<and> cmpVal \<le> 0) then (None, False)
         else mostest_loop (usePrev engine) (savedMoves mi) (nMovesToSave engine) 0 None)"

definition saveMoveIfQualifies :: "engineCtxt \<Rightarrow> possibleMove \<Rightarrow> engineCtxt option" where
  "saveMoveIfQualifies engine posmove = do {
     let mi = miData engine;
     xp_assert (nMovesToSave engine \<le> length (savedMoves mi));
     case find_mostest engine posmove of
       (None, _) \<Rightarrow> Some engine
     | (Some k, foundEmpty) \<Rightarrow> do {
         old \<leftarrow> mem_get k (savedMoves mi);
         let cmpVal = cmpMoves posmove old;
         if \<not> foundEmpty \<and> ((\<not> usePrev engine \<and> cmpVal \<le> 0) \<or> (usePrev engine \<and> cmpVal \<ge> 0)) then Some engine
         else do {
           ms \<leftarrow> mem_put k posmove (savedMoves mi);
           Some (engine\<lparr>miData := mi\<lparr>savedMoves := ms\<rparr>\<rparr>)
         }
       }
   }"

section \<open>The board as the search sees it\<close>

text \<open>Columns and rows change places when the search is vertical.\<close>

definition localGetBoardTile :: "engineCtxt \<Rightarrow> nat \<Rightarrow> nat \<Rightarrow> bool \<Rightarrow> tile option option" where
  "localGetBoardTile engine col row substBlank = do {
     let (col, row) = (if searchHorizontal engine then (col, row) else (row, col));
     found \<leftarrow> model_getTile (enModel engine) col row (includePending engine) (enTurn engine);
     Some (case found of
         Some (t, isBlank, _) \<Rightarrow> Some (if isBlank \<and> substBlank then enBlank engine else t)
       | None \<Rightarrow> None)
   }"

definition has_tile :: "engineCtxt \<Rightarrow> bool \<Rightarrow> nat \<Rightarrow> nat \<Rightarrow> bool option" where
  "has_tile engine inside col row =
     (if inside then do { t \<leftarrow> localGetBoardTile engine col row False; Some (t \<noteq> None) } else Some False)"

definition isAnchorSquare :: "engineCtxt \<Rightarrow> nat \<Rightarrow> nat \<Rightarrow> bool option" where
  "isAnchorSquare engine col row = do {
     t \<leftarrow> localGetBoardTile engine col row False;
     if t \<noteq> None then Some False
     else if isFirstMove engine then Some (col = star_row engine \<and> row = star_row engine)
     else do {
       a \<leftarrow> has_tile engine (col \<noteq> 0) (col - 1) row;
       if a then Some True else do {
       a \<leftarrow> has_tile engine (col < enCols engine - 1) (col + 1) row;
       if a then Some True else do {
       a \<leftarrow> has_tile engine (row \<noteq> 0) col (row - 1);
       if a then Some True else has_tile engine (row < enRows engine - 1) col (row + 1)
     }}}
   }"

section \<open>Crosswise words\<close>

text \<open>Where the tiles above a square begin.\<close>

fun prefix_start :: "engineCtxt \<Rightarrow> nat \<Rightarrow> nat \<Rightarrow> nat option" where
  "prefix_start engine x 0 = Some 0"
| "prefix_start engine x (Suc maybeY) = do {
     t \<leftarrow> localGetBoardTile engine x maybeY False;
     if t = None then Some (Suc maybeY) else prefix_start engine x maybeY
   }"

text \<open>The walk along the tiles above: the score, and the edges below them, if any.\<close>

fun consume_prefix :: "engineCtxt \<Rightarrow> nat \<Rightarrow> nat list \<Rightarrow> nat \<Rightarrow> nat option \<Rightarrow> (nat \<times> nat option) option" where
  "consume_prefix engine x [] checkScore in_edge = Some (checkScore, in_edge)"
| "consume_prefix engine x (y # ys) checkScore in_edge = do {
     t \<leftarrow> localGetBoardTile engine x y True;
     t \<leftarrow> t;
     v \<leftarrow> dict_getTileValue (enDict engine) t;
     let checkScore = trunc16 (checkScore + v);
     t \<leftarrow> localGetBoardTile engine x y False;
     t \<leftarrow> t;
     e \<leftarrow> in_edge;
     in_edge \<leftarrow> edge_from_tile (enDict engine) e t;
     if in_edge = None then Some (checkScore, None) else consume_prefix engine x ys checkScore in_edge
   }"

text \<open>The tiles below, up to the first empty square.\<close>

fun suffix_tiles :: "engineCtxt \<Rightarrow> nat \<Rightarrow> nat list \<Rightarrow> nat \<Rightarrow> tile list \<Rightarrow> (nat \<times> tile list) option" where
  "suffix_tiles engine x [] checkScore ts = Some (checkScore, ts)"
| "suffix_tiles engine x (y # ys) checkScore ts = do {
     t \<leftarrow> localGetBoardTile engine x y True;
     case t of
       None \<Rightarrow> Some (checkScore, ts)
     | Some t \<Rightarrow> do {
         v \<leftarrow> dict_getTileValue (enDict engine) t;
         f \<leftarrow> localGetBoardTile engine x y False;
         f \<leftarrow> f;
         suffix_tiles engine x ys (trunc16 (checkScore + v)) (ts @ [f])
       }
   }"

definition set_check :: "crosscheck \<Rightarrow> tile \<Rightarrow> crosscheck option" where
  "set_check check t = do {
     xp_assert (unat t < 64);
     let b = push_bit (unat (t AND 0x1F)) 1;
     Some (if unat t < 32 then (fst check OR b, snd check) else (fst check, snd check OR b))
   }"

text \<open>A loop over the edges of an array, from an edge to the one marked last; \<open>body\<close> may stop it.\<close>

partial_function (option) edge_loop ::
    "dictionaryCtxt \<Rightarrow> (nat \<Rightarrow> 's \<Rightarrow> (bool \<times> 's) option) \<Rightarrow> nat \<Rightarrow> 's \<Rightarrow> (bool \<times> 's) option" where
  "edge_loop dict body e s = do {
     (stop, s) \<leftarrow> body e s;
     if stop then Some (True, s)
     else do {
       islast \<leftarrow> IS_LAST_EDGE dict e;
       if islast then Some (False, s) else edge_loop dict body (e + nodeSize dict) s
     }
   }"

declare edge_loop.simps [code]

definition candidate_step :: "dictionaryCtxt \<Rightarrow> nat \<Rightarrow> tile list \<Rightarrow> nat \<Rightarrow> crosscheck \<Rightarrow> (bool \<times> crosscheck) option" where
  "candidate_step dict in_edge after e check = do {
     t \<leftarrow> EDGETILE dict e;
     xp_assert (unat t < MAX_UNIQUE_TILES);
     ok \<leftarrow> lookup_tiles dict (Some in_edge) (t # after) 0 (length after + 1);
     check \<leftarrow> (if ok then set_check check t else Some check);
     Some (False, check)
   }"

definition crosscheck_word :: "engineCtxt \<Rightarrow> nat \<Rightarrow> nat \<Rightarrow> nat \<Rightarrow> (nat \<times> crosscheck) option" where
  "crosscheck_word engine x y startY = do {
     (checkScore, in_edge) \<leftarrow> consume_prefix engine x [startY..<y] 0 (dict_super_getTopEdge (enDict engine));
     case in_edge of
       None \<Rightarrow> if startY < y then Some (checkScore, (0, 0)) else None
     | Some e \<Rightarrow> do {
         (checkScore, after) \<leftarrow> suffix_tiles engine x [y + 1..<enRows engine] checkScore [];
         xp_assert (length after < MAX_COLS);
         (_, check) \<leftarrow> edge_loop (enDict engine) (candidate_step (enDict engine) e after) e (0, 0);
         Some (checkScore, check)
       }
   }"

text \<open>The score of the tiles that a crosswise word through the square has already, and the tiles that may
  be put there. The caller has cleared both.\<close>

definition figureCrosschecks :: "engineCtxt \<Rightarrow> nat \<Rightarrow> nat \<Rightarrow> (nat \<times> crosscheck) option" where
  "figureCrosschecks engine x y = do {
     t \<leftarrow> localGetBoardTile engine x y False;
     if t = None then do {
       startY \<leftarrow> prefix_start engine x y;
       below \<leftarrow> (if y = enRows engine - 1 then Some None
                else if y = startY then localGetBoardTile engine x (y + 1) False else Some (Some 0));
       if y = startY \<and> below = None then Some (0, (-1, -1))
       else crosscheck_word engine x y startY
     } else Some (0, (0, 0))
   }"

section \<open>The rack\<close>

text \<open>Whether the tile was there, and whether a blank stands for it.\<close>

definition rack_remove :: "engineCtxt \<Rightarrow> tile \<Rightarrow> (bool option \<times> engineCtxt) option" where
  "rack_remove engine t = do {
     xp_assert (unat t < MAX_UNIQUE_TILES);
     xp_assert (t \<noteq> enBlank engine);
     xp_assert (nTilesMax engine > 0);
     n \<leftarrow> mem_get (unat t) (rack engine);
     b \<leftarrow> mem_get (unat (enBlank engine)) (rack engine);
     if n > 0 then
       Some (Some False, engine\<lparr>rack := (rack engine)[unat t := n - 1], nTilesMax := nTilesMax engine - 1\<rparr>)
     else if b > 0 then do {
       vs \<leftarrow> mem_put (blankCount engine) t (blankValues engine);
       Some (Some True, engine\<lparr>rack := (rack engine)[unat (enBlank engine) := b - 1], blankValues := vs,
         blankCount := blankCount engine + 1, nTilesMax := nTilesMax engine - 1\<rparr>)
     } else Some (None, engine)
   }"

definition rack_replace :: "engineCtxt \<Rightarrow> tile \<Rightarrow> bool \<Rightarrow> engineCtxt option" where
  "rack_replace engine t isBlank = do {
     let engine = (if isBlank then engine\<lparr>blankCount := sub16 (blankCount engine) 1\<rparr> else engine);
     let t = (if isBlank then enBlank engine else t);
     n \<leftarrow> mem_get (unat t) (rack engine);
     Some (engine\<lparr>rack := (rack engine)[unat t := (n + 1) mod 256], nTilesMax := trunc16 (nTilesMax engine + 1)\<rparr>)
   }"

section \<open>A move found\<close>

definition countWords :: "nat \<Rightarrow> wnParams \<Rightarrow> nat" where
  "countWords wc wnp = (if wnIsLegal wnp then trunc16 (wc + 1) else wc)"

text \<open>No texts are written while the search scores.\<close>

definition search_strings :: userStrings where
  "search_strings = \<lparr>strTurnScore = \<lambda>_. [], strBonusAll = []\<rparr>"

text \<open>The move with the blanks it uses, as pairs of a place in the move and a face.\<close>

definition scoreAndSave :: "engineCtxt \<Rightarrow> possibleMove \<Rightarrow> nat \<Rightarrow> (nat \<times> tile) list \<Rightarrow> engineCtxt option" where
  "scoreAndSave engine posmove lastRow usedBlanks = do {
     let notify = (\<not> searchHorizontal engine \<and> 1 = length (mtiles (pmMove posmove)));
     (score, _, calls) \<leftarrow> figureMoveScore search_strings (enModel engine) (enTurn engine) (pmMove posmove)
        (Some (scoreCache engine)) None notify;
     let singleTileWordCount = foldl countWords 0 calls;
     if singleTileWordCount > 1 then do {
       xp_assert (singleTileWordCount = 2);
       Some engine
     } else do {
       let score = (if 0 \<noteq> allTilesBonus engine \<and> 0 = nTilesMax engine then trunc16 (score + allTilesBonus engine) else score);
       bv \<leftarrow> ofold (\<lambda>bv (col, t). mem_put col t bv) (replicate MAX_COLS 0) usedBlanks;
       xp_assert (isHorizontal (pmMove posmove) = searchHorizontal engine);
       saveMoveIfQualifies engine
         \<lparr>pmScore = score, pmMove = (pmMove posmove)\<lparr>commonCoord := lastRow\<rparr>, blankVals = bv\<rparr>
     }
   }"

text \<open>Each blank used may stand in every place of the move that has its face.\<close>

fun considerScoreWordHasBlanks ::
    "nat \<Rightarrow> possibleMove \<Rightarrow> nat \<Rightarrow> (nat \<times> tile) list \<Rightarrow> engineCtxt \<Rightarrow> engineCtxt option" where
  "considerScoreWordHasBlanks 0 posmove lastRow usedBlanks engine = scoreAndSave engine posmove lastRow usedBlanks"
| "considerScoreWordHasBlanks (Suc blanksLeft) posmove lastRow usedBlanks engine = do {
     bTile \<leftarrow> mem_get blanksLeft (blankValues engine);
     xp_assert (unat bTile < 128);
     xp_assert (length usedBlanks < MAX_NUM_BLANKS);
     let mi = pmMove posmove;
     ofold (\<lambda>engine ii.
         let t = mtiles mi ! ii
         in if mtile t AND TILE_VALUE_MASK = bTile \<and> \<not> IS_BLANK (mtile t) then
              considerScoreWordHasBlanks blanksLeft
                (posmove\<lparr>pmMove := mi\<lparr>mtiles := (mtiles mi)[ii := t\<lparr>mtile := mtile t OR TILE_BLANK_BIT\<rparr>]\<rparr>\<rparr>)
                lastRow (usedBlanks @ [(ii, bTile)]) engine
            else Some engine) engine [0..<length (mtiles mi)]
   }"

text \<open>The empty squares from \<open>firstCol\<close> on take the tiles; leaving the board gives \<open>None\<close>.\<close>

partial_function (option) fill_squares ::
    "engineCtxt \<Rightarrow> nat \<Rightarrow> nat \<Rightarrow> tile list \<Rightarrow> moveInfoTile list \<Rightarrow> moveInfoTile list option" where
  "fill_squares engine row col ts done =
     (case ts of
        [] \<Rightarrow> Some done
      | t # ts' \<Rightarrow> do {
          b \<leftarrow> localGetBoardTile engine col row False;
          if b = None then fill_squares engine row (col + 1) ts' (done @ [\<lparr>varCoord = col, mtile = t\<rparr>])
          else fill_squares engine row (col + 1) ts done
        })"

declare fill_squares.simps [code]

text \<open>The assertion on \<open>curLimit\<close> is one of the debug build, which alone sets that field.\<close>

definition considerMove :: "engineCtxt \<Rightarrow> tile list \<Rightarrow> nat \<Rightarrow> nat \<Rightarrow> engineCtxt option" where
  "considerMove engine tiles firstCol lastRow = do {
     let (go, engine) = (if skipProgressCallback engine then (True, engine)
        else (euProgress (enUtil engine) (nProgress engine), engine\<lparr>nProgress := nProgress engine + 1\<rparr>));
     if \<not> go then Some (engine\<lparr>returnNOW := True\<rparr>)
     else do {
       xp_assert (length tiles \<le> MAX_TRAY_TILES);
       ts \<leftarrow> fill_squares engine lastRow firstCol tiles [];
       considerScoreWordHasBlanks (blankCount engine)
         \<lparr>pmScore = 0, pmMove = \<lparr>commonCoord = lastRow, isHorizontal = searchHorizontal engine, mtiles = ts\<rparr>,
           blankVals = replicate MAX_COLS 0\<rparr> lastRow [] engine
     }
   }"

section \<open>Extending to the right and to the left\<close>

text \<open>Whether the crosswise words allow a tile. A tile from 32 on makes the loop go over to the second word of the
  set, with which it stays (\<open>advanced\<close>).\<close>

definition crossOk :: "engineCtxt \<Rightarrow> nat \<Rightarrow> bool \<Rightarrow> tile \<Rightarrow> (bool \<times> bool) option" where
  "crossOk engine col advanced t = do {
     check \<leftarrow> mem_get col (rowChecks engine);
     let high = (t AND NOT 0x1F \<noteq> 0);
     let advanced = (advanced \<or> high);
     Some (bit (if advanced then snd check else fst check) (if high then unat t - 32 else unat t), advanced)
   }"

definition check_exit :: "engineCtxt \<Rightarrow> tile list \<Rightarrow> bool \<Rightarrow> nat \<Rightarrow> nat \<Rightarrow> engineCtxt option" where
  "check_exit engine tiles accepting firstCol row =
     (if accepting \<and> length tiles \<ge> nTilesMin engine then considerMove engine tiles firstCol row else Some engine)"

text \<open>A tile of the rack on an edge: \<open>rec\<close> is the search behind it. It stops the loop over the edges when
  the search is to end.\<close>

definition try_tile ::
    "(tile \<Rightarrow> engineCtxt \<Rightarrow> engineCtxt option) \<Rightarrow> tile \<Rightarrow> engineCtxt \<Rightarrow> engineCtxt option" where
  "try_tile rec t engine = do {
     (got, engine) \<leftarrow> rack_remove engine t;
     case got of
       None \<Rightarrow> Some engine
     | Some isBlank \<Rightarrow> do {
         engine \<leftarrow> rec t engine;
         rack_replace engine t isBlank
       }
   }"

text \<open>The first argument is how many columns are left, \<open>numCols - col\<close>.\<close>

fun extendRight ::
    "nat \<Rightarrow> tile list \<Rightarrow> nat option \<Rightarrow> bool \<Rightarrow> nat \<Rightarrow> nat \<Rightarrow> nat \<Rightarrow> engineCtxt \<Rightarrow> engineCtxt option" where
  "extendRight 0 tiles edge accepting firstCol col row engine = check_exit engine tiles accepting firstCol row"
| "extendRight (Suc left) tiles edge accepting firstCol col row engine = do {
     t \<leftarrow> localGetBoardTile engine col row False;
     let dict = enDict engine;
     case (edge, t) of
       (None, Some _) \<Rightarrow> Some engine
     | (None, None) \<Rightarrow> check_exit engine tiles accepting firstCol row
     | (Some e, None) \<Rightarrow>
         if nTilesMax engine > 0 then do {
           (stop, _, engine) \<leftarrow> edge_loop dict (\<lambda>e (advanced, engine). do {
               t \<leftarrow> EDGETILE dict e;
               (contains, advanced) \<leftarrow> crossOk engine col advanced t;
               engine \<leftarrow> (if contains then try_tile (\<lambda>t engine. do {
                   nxt \<leftarrow> edge_from_tile dict e t;
                   acc \<leftarrow> ISACCEPTING dict e;
                   extendRight left (tiles @ [t]) nxt acc firstCol (col + 1) row engine
                 }) t engine else Some engine);
               Some (contains \<and> returnNOW engine, advanced, engine)
             }) e (False, engine);
           if stop then Some engine else check_exit engine tiles accepting firstCol row
         } else check_exit engine tiles accepting firstCol row
     | (Some e, Some t) \<Rightarrow> do {
         found \<leftarrow> dict_super_edge_with_tile dict e t;
         case found of
           None \<Rightarrow> Some engine
         | Some e \<Rightarrow> do {
             acc \<leftarrow> ISACCEPTING dict e;
             nxt \<leftarrow> dict_super_follow dict e;
             extendRight left tiles nxt acc firstCol (col + 1) row engine
           }
       }
   }"

fun leftPart ::
    "nat \<Rightarrow> tile list \<Rightarrow> nat option \<Rightarrow> nat \<Rightarrow> nat \<Rightarrow> nat \<Rightarrow> engineCtxt \<Rightarrow> engineCtxt option" where
  "leftPart limit tiles edge firstCol anchorCol row engine = do {
     engine \<leftarrow> extendRight (enCols engine - anchorCol) tiles edge False firstCol anchorCol row engine;
     case limit of
       0 \<Rightarrow> Some engine
     | Suc limit \<Rightarrow>
         (case edge of
            None \<Rightarrow> Some engine
          | Some e \<Rightarrow>
              if \<not> returnNOW engine \<and> nTilesMax engine > 0 then do {
                let dict = enDict engine;
                (_, engine) \<leftarrow> edge_loop dict (\<lambda>e engine. do {
                    t \<leftarrow> EDGETILE dict e;
                    engine \<leftarrow> try_tile (\<lambda>t engine. do {
                        nxt \<leftarrow> dict_super_follow dict e;
                        leftPart limit (tiles @ [t]) nxt (firstCol - 1) anchorCol row engine
                      }) t engine;
                    Some (returnNOW engine, engine)
                  }) e engine;
                Some engine
              } else Some engine)
   }"

declare leftPart.simps [simp del]

text \<open>The tiles to the left of a square, from left to right, and the walk along them.\<close>

fun tiles_left :: "engineCtxt \<Rightarrow> nat \<Rightarrow> nat \<Rightarrow> tile list \<Rightarrow> tile list option" where
  "tiles_left engine row 0 ts = Some ts"
| "tiles_left engine row (Suc x) ts = do {
     t \<leftarrow> localGetBoardTile engine x row False;
     case t of None \<Rightarrow> Some ts | Some t \<Rightarrow> tiles_left engine row x (t # ts)
   }"

fun walk_tiles :: "dictionaryCtxt \<Rightarrow> nat option \<Rightarrow> tile list \<Rightarrow> nat option option" where
  "walk_tiles dict edge [] = Some edge"
| "walk_tiles dict edge (t # ts) = do {
     e \<leftarrow> edge;
     nxt \<leftarrow> edge_from_tile dict e t;
     if nxt = None then Some None else walk_tiles dict nxt ts
   }"

definition consumeFromLeft :: "engineCtxt \<Rightarrow> nat option \<Rightarrow> nat \<Rightarrow> nat \<Rightarrow> nat option option" where
  "consumeFromLeft engine edge col row = do {
     ts \<leftarrow> tiles_left engine row col [];
     xp_assert (length ts > 0);
     walk_tiles (enDict engine) edge ts
   }"

section \<open>Anchors, rows and the whole search\<close>

definition hiliteForAnchor :: "engineCtxt \<Rightarrow> engineCtxt" where
  "hiliteForAnchor engine =
     (let go = euHilite (enUtil engine) (nHilite engine); engine = engine\<lparr>nHilite := nHilite engine + 1\<rparr>
      in if go then engine else engine\<lparr>returnNOW := True\<rparr>)"

text \<open>The anchor before this one, as the column behind it: 0 stands for none.\<close>

definition findMovesForAnchor :: "nat \<Rightarrow> nat \<Rightarrow> nat \<Rightarrow> engineCtxt \<Rightarrow> (nat \<times> engineCtxt) option" where
  "findMovesForAnchor behindPrev col row engine = do {
     let engine = hiliteForAnchor engine;
     if returnNOW engine then Some (behindPrev, engine)
     else do {
       xp_assert (behindPrev \<le> col);
       let limit = col - behindPrev;
       let topEdge = dict_super_getTopEdge (enDict engine);
       leftTile \<leftarrow> (if col = 0 then Some None else localGetBoardTile engine (col - 1) row False);
       engine \<leftarrow>
         (if col \<noteq> 0 \<and> leftTile = None then leftPart limit [] topEdge col col row engine
          else do {
            edge \<leftarrow> (if col = 0 then Some topEdge else consumeFromLeft engine topEdge col row);
            extendRight (enCols engine - col) [] edge False (col - limit) col row engine
          });
       Some (col + 1, engine)
     }
   }"

definition anchor_step :: "nat \<Rightarrow> nat \<times> engineCtxt \<Rightarrow> nat \<Rightarrow> (nat \<times> engineCtxt) option" where
  "anchor_step row = (\<lambda>(behindPrev, engine) col.
     (if returnNOW engine then Some (behindPrev, engine)
      else do {
        anchor \<leftarrow> isAnchorSquare engine col row;
        if anchor then findMovesForAnchor behindPrev col row engine else Some (behindPrev, engine)
      }))"

definition search_cols :: "engineCtxt \<Rightarrow> nat \<times> nat" where
  "search_cols engine =
     (case searchLimits engine of
        None \<Rightarrow> (0, enCols engine - 1)
      | Some l \<Rightarrow> if searchHorizontal engine then (blLeft l, blRight l) else (blTop l, blBottom l))"

definition crosscheck_step :: "nat \<Rightarrow> nat \<Rightarrow> nat \<Rightarrow> engineCtxt \<Rightarrow> nat \<Rightarrow> engineCtxt option" where
  "crosscheck_step row firstCol lastCol engine col =
     (if col < firstCol \<or> col > lastCol then do {
        sc \<leftarrow> mem_put col 0 (scoreCache engine);
        Some (engine\<lparr>scoreCache := sc\<rparr>)
      } else do {
        (s, check) \<leftarrow> figureCrosschecks engine col row;
        sc \<leftarrow> mem_put col s (scoreCache engine);
        rc \<leftarrow> mem_put col check (rowChecks engine);
        Some (engine\<lparr>scoreCache := sc, rowChecks := rc\<rparr>)
      })"

definition findMovesOneRow :: "engineCtxt \<Rightarrow> engineCtxt option" where
  "findMovesOneRow engine = do {
     let row = curRow engine;
     let (firstCol, lastCol) = search_cols engine;
     engine \<leftarrow> ofold (crosscheck_step row firstCol lastCol)
        (engine\<lparr>rowChecks := replicate MAX_ROWS (0, 0)\<rparr>) [0..<enCols engine];
     (_, engine) \<leftarrow> ofold (anchor_step row) (firstCol, engine) [firstCol..<lastCol + 1];
     Some engine
   }"

text \<open>The rows that are left.\<close>

fun search_rows :: "nat \<Rightarrow> engineCtxt \<Rightarrow> engineCtxt option" where
  "search_rows 0 engine = Some engine"
| "search_rows (Suc n) engine =
     (if isFirstMove engine \<and> curRow engine \<noteq> star_row engine
      then search_rows n (engine\<lparr>curRow := curRow engine + 1\<rparr>)
      else do {
        engine \<leftarrow> findMovesOneRow engine;
        if returnNOW engine then Some engine else search_rows n (engine\<lparr>curRow := curRow engine + 1\<rparr>)
      })"

definition rows_left :: "engineCtxt \<Rightarrow> nat" where
  "rows_left engine = lastRowToFill engine + 1 - curRow engine"

definition start_direction :: "engineCtxt \<Rightarrow> engineCtxt" where
  "start_direction engine =
     (let (r, c) = (model_numRows (enModel engine), model_numCols (enModel engine));
          engine = (if searchHorizontal engine then engine\<lparr>enRows := r, enCols := c\<rparr> else engine\<lparr>enRows := c, enCols := r\<rparr>);
          (firstRow, lastRow) = (case searchLimits engine of
              None \<Rightarrow> (0, enRows engine - 1)
            | Some l \<Rightarrow> if searchHorizontal engine then (blTop l, blBottom l) else (blLeft l, blRight l))
      in engine\<lparr>lastRowToFill := lastRow, curRow := firstRow\<rparr>)"

text \<open>The rows of this direction from \<open>curRow\<close> on, then the other direction. At most two directions are
  searched, the vertical one last.\<close>

fun search_directions :: "nat \<Rightarrow> engineCtxt \<Rightarrow> engineCtxt option" where
  "search_directions 0 engine = None"
| "search_directions (Suc n) engine = do {
     engine \<leftarrow> search_rows (rows_left engine) engine;
     if returnNOW engine then Some engine
     else if \<not> searchHorizontal engine \<or> (isFirstMove engine \<and> searchLimits engine = None)
     then Some (engine\<lparr>searchInProgress := False\<rparr>)
     else search_directions n (start_direction (engine\<lparr>searchHorizontal := False\<rparr>))
   }"

text \<open>A search that was interrupted goes on where it was.\<close>

definition search_moves :: "engineCtxt \<Rightarrow> engineCtxt option" where
  "search_moves engine = do {
     engine \<leftarrow> set_search_limits engine;
     let engine = engine\<lparr>miData := (miData engine)\<lparr>savedMoves := replicate NUM_SAVED_ENGINE_MOVES no_move\<rparr>\<rparr>;
     search_directions 2
       (if searchInProgress engine then engine
        else start_direction (engine\<lparr>searchHorizontal := True, searchInProgress := True\<rparr>))
   }"

record findMoveArgs =
  faModel :: modelCtxt
  faTurn :: nat
  faIncludePending :: bool
  faSkipCallback :: bool
  faTiles :: "tile list"
  faUsePrev :: bool
  faAllTilesBonus :: nat
  faSearchLimits :: "bdHintLimits option"
  faUseTileLimits :: bool
  faRobotIQ :: nat

text \<open>The limits for the number of tiles; \<open>None\<close> when the user gives none.\<close>

definition tile_limits :: "findMoveArgs \<Rightarrow> engineCtxt \<Rightarrow> engineCtxt option" where
  "tile_limits a engine =
     (let engine = engine\<lparr>nTilesMax := min MAX_TRAY_TILES (length (faTiles a)), allTilesBonus := faAllTilesBonus a\<rparr>
      in if faUseTileLimits a then
           (if tileLimitsKnown engine
            then Some (engine\<lparr>nTilesMin := nTilesMinUser engine, nTilesMax := nTilesMaxUser engine\<rparr>)
            else (case euLimits (enUtil engine) (nTilesMinUser engine) (nTilesMaxUser engine) of
                None \<Rightarrow> None
              | Some (mn, mx) \<Rightarrow>
                  Some (engine\<lparr>tileLimitsKnown := True, nTilesMinUser := mn, nTilesMaxUser := mx, nTilesMin := mn, nTilesMax := mx\<rparr>)))
         else Some (engine\<lparr>nTilesMin := 1\<rparr>))"

definition setup_search :: "findMoveArgs \<Rightarrow> engineCtxt \<Rightarrow> engineCtxt option" where
  "setup_search a engine = do {
     let model = faModel a;
     dict \<leftarrow> model_getPlayerDict model (int (faTurn a));
     blank \<leftarrow> dict_getBlankTile dict;
     let engine = engine\<lparr>enModel := model, enDict := dict, enTurn := faTurn a, includePending := faIncludePending a,
       usePrev := faUsePrev a, enBlank := blank, returnNOW := False, skipProgressCallback := faSkipCallback a,
       searchLimits := faSearchLimits a, star_row := model_numRows model div 2\<rparr>;
     t \<leftarrow> localGetBoardTile engine (star_row engine) (star_row engine) False;
     Some (engine\<lparr>isFirstMove := (t = None)\<rparr>)
   }"

text \<open>One attempt. The result of a search that ran to its end is the move chosen, if any, with its score;
  the outer \<open>None\<close> is a search that was interrupted.\<close>

definition attempt :: "findMoveArgs \<Rightarrow> engineCtxt \<Rightarrow> (possibleMove option option \<times> engineCtxt) option" where
  "attempt a engine = do {
     engine \<leftarrow> setup_search a engine;
     (haveTiles, engine) \<leftarrow> (if dict_super_getTopEdge (enDict engine) \<noteq> None then initTray engine (faTiles a)
                            else Some (False, engine));
     if haveTiles then do {
       let engine = normalizeIQ engine (faRobotIQ a);
       engine \<leftarrow> (if move_cache_empty engine then search_moves engine else Some engine);
       if returnNOW engine then Some (None, engine)
       else do { (m, engine) \<leftarrow> chooseMove engine; Some (Some m, engine) }
     } else Some (Some None, engine)
   }"

record findMoveResult =
  frDone :: bool
  frCanMove :: bool
  frMove :: moveInfo
  frScore :: nat
  frEngine :: engineCtxt

text \<open>\<open>newMove\<close> and \<open>score\<close> are what the caller's variables hold before the call. A search that finds
  nothing is repeated once after a reset; the first argument is how many attempts are left.\<close>

fun engine_findMove :: "nat \<Rightarrow> findMoveArgs \<Rightarrow> moveInfo \<Rightarrow> nat \<Rightarrow> engineCtxt \<Rightarrow> findMoveResult option" where
  "engine_findMove n a newMove score engine =
     (case tile_limits a engine of
        None \<Rightarrow> Some \<lparr>frDone = True, frCanMove = False, frMove = newMove, frScore = score,
                      frEngine = engine\<lparr>nTilesMax := min MAX_TRAY_TILES (length (faTiles a)), allTilesBonus := faAllTilesBonus a\<rparr>\<rparr>
      | Some engine \<Rightarrow> do {
          (r, engine) \<leftarrow> attempt a engine;
          case r of
            None \<Rightarrow> Some \<lparr>frDone = False, frCanMove = True, frMove = newMove, frScore = score, frEngine = engine\<rparr>
          | Some (Some m) \<Rightarrow> Some \<lparr>frDone = True, frCanMove = True, frMove = pmMove m, frScore = pmScore m, frEngine = engine\<rparr>
          | Some None \<Rightarrow> do {
              let newMove = newMove\<lparr>mtiles := []\<rparr>;
              let engine = engine_reset engine;
              case n of
                0 \<Rightarrow> Some \<lparr>frDone = True, frCanMove = False, frMove = newMove, frScore = score, frEngine = engine\<rparr>
              | Suc n \<Rightarrow> engine_findMove n a newMove score engine
            }
        })"

declare engine_findMove.simps [simp del]

end
