(* ===== verification/Xw_Server.thy ===== *)
theory Xw_Server
  imports Xw_Turns Xw_Engine
begin

text \<open>
  The state of \<open>server.c\<close>, the turn state machine of a game, with its life time, its streams, its
  clock and its questions.

  \<open>vol.gi\<close> is the game information of the model, which points to the same record: it is read and
  written through \<open>svModel\<close>. What the server asks of the platform (\<open>util\<close>, \<open>dutil\<close>, \<open>comms\<close>,
  \<open>XP_RANDOM\<close>) is the record \<open>platform\<close>, a parameter that the state carries as the code carries
  its pointers: the answer to the k-th question of a kind is a function of k. What the server tells
  the platform is an event; the events are kept in \<open>svOut\<close>, oldest first. The listeners the code
  calls are events too.
\<close>

section \<open>States and messages\<close>

text \<open>\<open>states.h\<close>. Four bits of a stream can hold numbers that name no state.\<close>

datatype XW_State =
    XWSTATE_NONE | XWSTATE_BEGIN | XWSTATE_UNUSED1 | XWSTATE_NEED_SHOWSCORE
  | XWSTATE_WAITING_ALL_REG | XWSTATE_RECEIVED_ALL_REG | XWSTATE_NEEDSEND_BADWORD_INFO
  | XWSTATE_MOVE_CONFIRM_WAIT | XWSTATE_MOVE_CONFIRM_MUSTSEND | XWSTATE_NEEDSEND_ENDGAME
  | XWSTATE_INTURN | XWSTATE_GAMEOVER | XWSTATE_LAST | XWSTATE_NUMBER nat

definition named_states :: "XW_State list" where
  "named_states =
     [XWSTATE_NONE, XWSTATE_BEGIN, XWSTATE_UNUSED1, XWSTATE_NEED_SHOWSCORE, XWSTATE_WAITING_ALL_REG,
      XWSTATE_RECEIVED_ALL_REG, XWSTATE_NEEDSEND_BADWORD_INFO, XWSTATE_MOVE_CONFIRM_WAIT,
      XWSTATE_MOVE_CONFIRM_MUSTSEND, XWSTATE_NEEDSEND_ENDGAME, XWSTATE_INTURN, XWSTATE_GAMEOVER,
      XWSTATE_LAST]"

definition XWSTATE_NBITS :: nat where "XWSTATE_NBITS = 4"

definition state_of :: "nat \<Rightarrow> XW_State" where
  "state_of n = (if n < length named_states then named_states ! n else XWSTATE_NUMBER n)"

fun state_number :: "XW_State \<Rightarrow> nat" where
  "state_number XWSTATE_NONE = 0"
| "state_number XWSTATE_BEGIN = 1"
| "state_number XWSTATE_UNUSED1 = 2"
| "state_number XWSTATE_NEED_SHOWSCORE = 3"
| "state_number XWSTATE_WAITING_ALL_REG = 4"
| "state_number XWSTATE_RECEIVED_ALL_REG = 5"
| "state_number XWSTATE_NEEDSEND_BADWORD_INFO = 6"
| "state_number XWSTATE_MOVE_CONFIRM_WAIT = 7"
| "state_number XWSTATE_MOVE_CONFIRM_MUSTSEND = 8"
| "state_number XWSTATE_NEEDSEND_ENDGAME = 9"
| "state_number XWSTATE_INTURN = 10"
| "state_number XWSTATE_GAMEOVER = 11"
| "state_number XWSTATE_LAST = 12"
| "state_number (XWSTATE_NUMBER n) = n"

text \<open>\<open>xwproto.h\<close>.\<close>

datatype XW_Proto =
    XWPROTO_ERROR | XWPROTO_CHAT | XWPROTO_DEVICE_REGISTRATION | XWPROTO_CLIENT_SETUP
  | XWPROTO_MOVEMADE_INFO_CLIENT | XWPROTO_MOVEMADE_INFO_SERVER | XWPROTO_UNDO_INFO_CLIENT
  | XWPROTO_UNDO_INFO_SERVER | XWPROTO_BADWORD_INFO | XWPROTO_MOVE_CONFIRM
  | XWPROTO_CLIENT_REQ_END_GAME | XWPROTO_END_GAME | XWPROTO_NEW_PROTO | XWPROTO_DUPE_STUFF
  | XWPROTO_NUMBER nat

definition named_protos :: "XW_Proto list" where
  "named_protos =
     [XWPROTO_ERROR, XWPROTO_CHAT, XWPROTO_DEVICE_REGISTRATION, XWPROTO_CLIENT_SETUP,
      XWPROTO_MOVEMADE_INFO_CLIENT, XWPROTO_MOVEMADE_INFO_SERVER, XWPROTO_UNDO_INFO_CLIENT,
      XWPROTO_UNDO_INFO_SERVER, XWPROTO_BADWORD_INFO, XWPROTO_MOVE_CONFIRM,
      XWPROTO_CLIENT_REQ_END_GAME, XWPROTO_END_GAME, XWPROTO_NEW_PROTO, XWPROTO_DUPE_STUFF]"

definition XWPROTO_NBITS :: nat where "XWPROTO_NBITS = 4"

definition proto_of :: "nat \<Rightarrow> XW_Proto" where
  "proto_of n = (if n < length named_protos then named_protos ! n else XWPROTO_NUMBER n)"

fun proto_number :: "XW_Proto \<Rightarrow> nat" where
  "proto_number XWPROTO_ERROR = 0"
| "proto_number XWPROTO_CHAT = 1"
| "proto_number XWPROTO_DEVICE_REGISTRATION = 2"
| "proto_number XWPROTO_CLIENT_SETUP = 3"
| "proto_number XWPROTO_MOVEMADE_INFO_CLIENT = 4"
| "proto_number XWPROTO_MOVEMADE_INFO_SERVER = 5"
| "proto_number XWPROTO_UNDO_INFO_CLIENT = 6"
| "proto_number XWPROTO_UNDO_INFO_SERVER = 7"
| "proto_number XWPROTO_BADWORD_INFO = 8"
| "proto_number XWPROTO_MOVE_CONFIRM = 9"
| "proto_number XWPROTO_CLIENT_REQ_END_GAME = 10"
| "proto_number XWPROTO_END_GAME = 11"
| "proto_number XWPROTO_NEW_PROTO = 12"
| "proto_number XWPROTO_DUPE_STUFF = 13"
| "proto_number (XWPROTO_NUMBER n) = n"

definition UNKNOWN_DEVICE :: int where "UNKNOWN_DEVICE = -1"
definition SERVER_DEVICE :: nat where "SERVER_DEVICE = 0"
definition PICK_NEXT :: int where "PICK_NEXT = -1"
definition PICK_CUR :: int where "PICK_CUR = -2"
definition PLAYERNUM_NBITS :: nat where "PLAYERNUM_NBITS = 2"
definition NDEVICES_NBITS :: nat where "NDEVICES_NBITS = 2"
definition STREAM_VERS_SERVER_SAVES_TOSHOW :: nat where "STREAM_VERS_SERVER_SAVES_TOSHOW = 0x10"
definition STREAM_SAVE_PREVMOVE :: nat where "STREAM_SAVE_PREVMOVE = 0x0E"

lemmas server_consts = UNKNOWN_DEVICE_def SERVER_DEVICE_def PICK_NEXT_def PICK_CUR_def
  PLAYERNUM_NBITS_def NDEVICES_NBITS_def XWSTATE_NBITS_def XWPROTO_NBITS_def

section \<open>The platform\<close>

text \<open>Texts the platform formats: the name of the template with its arguments.\<close>

datatype serverText =
    STRD_DUP_TRADED nat
  | STRSD_DUP_ONESCORE cstring nat
  | STRD_ROBOT_TRADED nat
  | STR_DUP_MOVED cstring
  | STR_ROBOT_MOVED cstring
  | STRS_REMOTE_MOVED cstring
  | STR_DUP_CLIENT_SENT
  | STRDD_DUP_HOST_RECEIVED nat nat
  | STRS_VALUES_HEADER cstring
  | STRD_REMAINS_HEADER nat
  | STRD_REMAINS_EXPL nat
  | STRD_REMAINING_TILES_ADD int
  | STRD_UNUSED_TILES_SUB int
  | STRD_TIME_PENALTY_SUB nat
  | STRDSD_PLACER nat "u8 list" int
  | STRSD_WINNER "u8 list" int
  | STRSD_RESIGNED "u8 list" int

record platform =
  pfSeconds :: "nat \<Rightarrow> u32"
  pfRandom :: "nat \<Rightarrow> nat"
  pfCanChat :: "nat \<Rightarrow> bool"
  pfText :: "serverText \<Rightarrow> u8 list"
  pfScoreText :: userStrings
  pfEngine :: engineUtil
  pfShortName :: "dictionaryCtxt \<Rightarrow> cstring"
  pfSkipChar :: "u8 list \<Rightarrow> nat"

record badWordInfo =
  bwDictName :: cstring
  bwWords :: "cstring list"

datatype serverErr = ERR_REG_UNEXPECTED_USER | ERR_SERVER_DICT_WINS | ERR_CANT_UNDO_TILEASSIGN

datatype timerReason = TIMER_DUP_TIMERCHECK | TIMER_SLOWROBOT

datatype serverEvent =
    EvSend mem_stream
  | EvRequestTime
  | EvTurnListener
  | EvTurnChanged int
  | EvTimerListener int int
  | EvGameOver int
  | EvInformMissing bool nat nat
  | EvSetTimer timerReason nat
  | EvUserError serverErr
  | EvModelMessages "userMsg list"
  | EvShowChat cstring int u32
  | EvSetConnID u32
  | EvInformNetDict u8 cstring "u8 list" "u8 list" nat
  | EvInformMove nat mem_stream "mem_stream option"
  | EvNotifyIllegalWords badWordInfo nat bool
  | EvInformNeedPickTiles bool nat nat nat "(facePtr \<times> nat) list"
  | EvNotifyPause u32 nat int cstring cstring
  | EvNotifyDupStatus bool "u8 list"
  | EvInformUndo

section \<open>The server\<close>

record serverPlayer =
  spEngine :: "engineCtxt option"
  deviceIndex :: int

record remoteAddress =
  raChannelNo :: u16
  raStreamVersion :: u8

text \<open>\<open>dupTimerExpires\<close> holds the bits of an \<open>XP_S32\<close>.\<close>

record serverNonvolatiles =
  lastMoveTime :: u32
  dupTimerExpires :: u32
  nDevices :: nat
  gameState :: XW_State
  stateAfterShow :: XW_State
  currentTurn :: int
  quitter :: int
  pendingRegistrations :: nat
  showRobotScores :: bool
  sortNewTiles :: bool
  nvStreamVersion :: u8
  robotThinkMin :: nat
  robotThinkMax :: nat
  robotTradePct :: nat
  makePhonyPct :: nat
  addresses :: "remoteAddress list"
  prevMoveStream :: "mem_stream option"
  prevWordsStream :: "mem_stream option"
  dupTurnsMade :: "bool list"
  dupTurnsForced :: "bool list"
  dupTurnsSent :: bool

record serverCtxt =
  svModel :: modelCtxt
  svUtil :: platform
  svBitsPerTile :: nat
  showPrevMove :: bool
  pickTilesCalled :: "bool list"
  nv :: serverNonvolatiles
  svPool :: "poolContext option"
  illegalWordInfo :: badWordInfo
  lastMoveSource :: nat
  svPlayers :: "serverPlayer list"
  serverDoing :: bool
  robotWaiting :: bool
  svOut :: "serverEvent list"
  nSeconds :: nat
  nRandom :: nat
  nCanChat :: nat

definition no_address :: remoteAddress where "no_address = \<lparr>raChannelNo = 0, raStreamVersion = 0\<rparr>"
definition no_words :: badWordInfo where "no_words = \<lparr>bwDictName = None, bwWords = []\<rparr>"
definition no_serverPlayer :: serverPlayer where "no_serverPlayer = \<lparr>spEngine = None, deviceIndex = 0\<rparr>"

text \<open>What \<open>XP_MEMSET\<close> leaves.\<close>

definition zero_nv :: serverNonvolatiles where
  "zero_nv = \<lparr>lastMoveTime = 0, dupTimerExpires = 0, nDevices = 0, gameState = XWSTATE_NONE, stateAfterShow = XWSTATE_NONE,
     currentTurn = 0, quitter = 0, pendingRegistrations = 0, showRobotScores = False, sortNewTiles = False,
     nvStreamVersion = 0, robotThinkMin = 0, robotThinkMax = 0, robotTradePct = 0, makePhonyPct = 0,
     addresses = replicate MAX_NUM_PLAYERS no_address, prevMoveStream = None, prevWordsStream = None,
     dupTurnsMade = replicate MAX_NUM_PLAYERS False, dupTurnsForced = replicate MAX_NUM_PLAYERS False, dupTurnsSent = False\<rparr>"

definition zero_server :: "modelCtxt \<Rightarrow> platform \<Rightarrow> serverCtxt" where
  "zero_server model util = \<lparr>svModel = model, svUtil = util, svBitsPerTile = 0, showPrevMove = False,
     pickTilesCalled = replicate MAX_NUM_PLAYERS False, nv = zero_nv, svPool = None, illegalWordInfo = no_words,
     lastMoveSource = 0, svPlayers = replicate MAX_NUM_PLAYERS no_serverPlayer, serverDoing = False,
     robotWaiting = False, svOut = [], nSeconds = 0, nRandom = 0, nCanChat = 0\<rparr>"

abbreviation svGi :: "serverCtxt \<Rightarrow> curGameInfo" where
  "svGi server \<equiv> gi (svModel server)"

definition upd_nv :: "(serverNonvolatiles \<Rightarrow> serverNonvolatiles) \<Rightarrow> serverCtxt \<Rightarrow> serverCtxt" where
  "upd_nv f server = server\<lparr>nv := f (nv server)\<rparr>"

definition upd_gi :: "(curGameInfo \<Rightarrow> curGameInfo) \<Rightarrow> serverCtxt \<Rightarrow> serverCtxt" where
  "upd_gi f server = server\<lparr>svModel := (svModel server)\<lparr>gi := f (svGi server)\<rparr>\<rparr>"

definition emit :: "serverEvent \<Rightarrow> serverCtxt \<Rightarrow> serverCtxt" where
  "emit ev server = server\<lparr>svOut := svOut server @ [ev]\<rparr>"

definition getCurSeconds :: "serverCtxt \<Rightarrow> u32 \<times> serverCtxt" where
  "getCurSeconds server = (pfSeconds (svUtil server) (nSeconds server), server\<lparr>nSeconds := nSeconds server + 1\<rparr>)"

definition xp_random :: "serverCtxt \<Rightarrow> nat \<times> serverCtxt" where
  "xp_random server = (pfRandom (svUtil server) (nRandom server), server\<lparr>nRandom := nRandom server + 1\<rparr>)"

definition SETSTATE :: "XW_State \<Rightarrow> serverCtxt \<Rightarrow> serverCtxt" where
  "SETSTATE st server = upd_nv (\<lambda>n. n\<lparr>gameState := st\<rparr>) server"

definition svDuplicate :: "serverCtxt \<Rightarrow> bool" where
  "svDuplicate server = giInDuplicateMode (svGi server)"

definition amServer :: "serverCtxt \<Rightarrow> bool" where
  "amServer server \<longleftrightarrow> SERVER_ISSERVER = serverRole (svGi server)"

definition amClient :: "serverCtxt \<Rightarrow> bool" where
  "amClient server \<longleftrightarrow> serverRole (svGi server) = SERVER_ISCLIENT"

text \<open>An operation of the model run on the server's model.\<close>

definition on_model :: "(modelCtxt \<Rightarrow> modelCtxt option) \<Rightarrow> serverCtxt \<Rightarrow> serverCtxt option" where
  "on_model f server = do { model \<leftarrow> f (svModel server); Some (server\<lparr>svModel := model\<rparr>) }"

definition ask_model :: "(modelCtxt \<Rightarrow> ('a \<times> modelCtxt) option) \<Rightarrow> serverCtxt \<Rightarrow> ('a \<times> serverCtxt) option" where
  "ask_model f server = do { (a, model) \<leftarrow> f (svModel server); Some (a, server\<lparr>svModel := model\<rparr>) }"

text \<open>An operation of the pool, which must be there.\<close>

definition on_pool :: "(poolContext \<Rightarrow> poolContext option) \<Rightarrow> serverCtxt \<Rightarrow> serverCtxt option" where
  "on_pool f server = do { pool \<leftarrow> svPool server; pool \<leftarrow> f pool; Some (server\<lparr>svPool := Some pool\<rparr>) }"

section \<open>Turns\<close>

definition callTurnChangeListener :: "serverCtxt \<Rightarrow> serverCtxt" where
  "callTurnChangeListener server = emit EvTurnListener server"

definition callDupTimerListener :: "u32 \<Rightarrow> u32 \<Rightarrow> serverCtxt \<Rightarrow> serverCtxt" where
  "callDupTimerListener oldVal newVal server = emit (EvTimerListener (sint oldVal) (sint newVal)) server"

text \<open>The next local player who has not yet submitted a turn, else the last remote one who has not,
  else player 0.\<close>

definition dupe_nextTurn :: "serverCtxt \<Rightarrow> nat option" where
  "dupe_nextTurn server = do {
     made \<leftarrow> mem_read 0 (giNPlayers (svGi server)) (dupTurnsMade (nv server));
     lps \<leftarrow> mem_read 0 (giNPlayers (svGi server)) (giPlayers (svGi server));
     let waiting = filter (\<lambda>ii. \<not> made ! ii) [0..<giNPlayers (svGi server)];
     Some (case find (\<lambda>ii. isLocal (lps ! ii)) waiting of
         Some ii \<Rightarrow> ii
       | None \<Rightarrow> (if waiting = [] then DUP_PLAYER else last waiting))
   }"

definition setTurn :: "int \<Rightarrow> serverCtxt \<Rightarrow> serverCtxt option" where
  "setTurn turn server = do {
     xp_assert (-1 = turn \<or> \<not> amServer server \<or> pendingRegistrations (nv server) = 0);
     let inDupMode = svDuplicate server;
     if inDupMode \<or> currentTurn (nv server) \<noteq> turn \<or> 1 = giNPlayers (svGi server) then do {
       (turn, server) \<leftarrow>
         (if int DUP_PLAYER = turn \<and> inDupMode then do { t \<leftarrow> dupe_nextTurn server; Some (int t, server) }
          else if PICK_CUR = turn then None
          else if 0 \<le> turn \<and> \<not> inDupMode then do {
            (next, server) \<leftarrow> ask_model model_getNextTurn server;
            xp_assert (turn = next);
            Some (turn, server)
          } else Some (turn, server));
       let (now, server) = getCurSeconds (upd_nv (\<lambda>n. n\<lparr>currentTurn := turn\<rparr>) server);
       Some (callTurnChangeListener (upd_nv (\<lambda>n. n\<lparr>lastMoveTime := now\<rparr>) server))
     } else Some server
   }"
section \<open>Life time\<close>

definition mkServerStream :: mem_stream where "mkServerStream = mem_stream_make_raw"

definition sync_player :: "serverCtxt \<Rightarrow> nat \<Rightarrow> serverCtxt option" where
  "sync_player server ii = do {
     lp \<leftarrow> mem_get ii (giPlayers (svGi server));
     let server = (if \<not> isLocal lp
                   then upd_nv (\<lambda>n. n\<lparr>pendingRegistrations := (pendingRegistrations n + 1) mod 256\<rparr>) server
                   else server);
     player \<leftarrow> mem_get ii (svPlayers server);
     Some (server\<lparr>svPlayers := (svPlayers server)
       [ii := player\<lparr>deviceIndex := (if isLocal lp then int SERVER_DEVICE else UNKNOWN_DEVICE)\<rparr>]\<rparr>)
   }"

definition syncPlayers :: "serverCtxt \<Rightarrow> serverCtxt option" where
  "syncPlayers server = ofold sync_player server [0..<giNPlayers (svGi server)]"

definition initServer :: "serverCtxt \<Rightarrow> serverCtxt option" where
  "initServer server = do {
     server \<leftarrow> setTurn (-1) server;
     let server = SETSTATE (if amClient server then XWSTATE_NONE else XWSTATE_BEGIN) server;
     server \<leftarrow> syncPlayers server;
     Some (upd_nv (\<lambda>n. n\<lparr>nDevices := 1, nvStreamVersion := of_nat STREAM_SAVE_PREVWORDS, quitter := -1\<rparr>) server)
   }"

definition server_make :: "modelCtxt \<Rightarrow> platform \<Rightarrow> serverCtxt option" where
  "server_make model util = initServer (zero_server model util)"

definition cleanupServer :: "serverCtxt \<Rightarrow> serverCtxt" where
  "cleanupServer server =
     server\<lparr>svPlayers := replicate MAX_NUM_PLAYERS no_serverPlayer, svPool := None, nv := zero_nv\<rparr>"

definition server_reset :: "serverCtxt \<Rightarrow> serverCtxt option" where
  "server_reset server = initServer (cleanupServer server)"

definition figureSleepTime :: "serverCtxt \<Rightarrow> nat \<times> serverCtxt" where
  "figureSleepTime server =
     (let mn = robotThinkMin (nv server); mx = robotThinkMax (nv server)
      in if mn < mx then (case xp_random server of (r, server) \<Rightarrow> (r mod (mx - mn + 1) + mn, server))
         else (mn, server))"

record commonPrefs =
  cpShowRobotScores :: bool
  cpSortNewTiles :: bool
  cpRobotThinkMin :: nat
  cpRobotThinkMax :: nat
  cpRobotTradePct :: nat
  cpMakePhonyPct :: nat

definition server_prefsChanged :: "commonPrefs \<Rightarrow> serverCtxt \<Rightarrow> serverCtxt" where
  "server_prefsChanged cp server = upd_nv (\<lambda>n. n\<lparr>showRobotScores := cpShowRobotScores cp, sortNewTiles := cpSortNewTiles cp,
     robotThinkMin := cpRobotThinkMin cp, robotThinkMax := cpRobotThinkMax cp,
     robotTradePct := cpRobotTradePct cp, makePhonyPct := cpMakePhonyPct cp\<rparr>) server"

definition server_countTilesInPool :: "serverCtxt \<Rightarrow> int" where
  "server_countTilesInPool server =
     (case svPool server of None \<Rightarrow> -1 | Some pool \<Rightarrow> s16 (int (pool_getNTilesLeft pool)))"

text \<open>The address that is told along with the counts is the connection layer's.\<close>

definition informMissing :: "serverCtxt \<Rightarrow> serverCtxt" where
  "informMissing server =
     emit (EvInformMissing (amServer server)
            (if amServer server then sub16 (nDevices (nv server)) 1 else 0)
            (if amServer server then pendingRegistrations (nv server) else 0)) server"

definition server_getPendingRegs :: "serverCtxt \<Rightarrow> nat" where
  "server_getPendingRegs server = (if amServer server then pendingRegistrations (nv server) else 0)"

section \<open>Streams\<close>

definition putNat :: "nat \<Rightarrow> nat \<Rightarrow> mem_stream \<Rightarrow> mem_stream option" where
  "putNat nBits n stream = mem_stream_putBits stream nBits (of_nat n)"

definition get_address :: "nat \<Rightarrow> remoteAddress list \<times> mem_stream \<Rightarrow> nat \<Rightarrow> (remoteAddress list \<times> mem_stream) option" where
  "get_address version = (\<lambda>(addrs, stream) ii. do {
     (ch, stream) \<leftarrow> mem_stream_getBits stream 16;
     (sv, stream) \<leftarrow> (if STREAM_VERS_BIGBOARD \<le> version then mem_stream_getBits stream 8
                     else Some (of_nat STREAM_SAVE_PREVWORDS, stream));
     addrs \<leftarrow> mem_put ii \<lparr>raChannelNo = ucast ch, raStreamVersion = ucast sv\<rparr> addrs;
     Some (addrs, stream)
   })"

definition get_dupTurn ::
    "(bool list \<times> bool list) \<times> mem_stream \<Rightarrow> nat \<Rightarrow> ((bool list \<times> bool list) \<times> mem_stream) option" where
  "get_dupTurn = (\<lambda>((made, forced), stream) ii. do {
     (m, stream) \<leftarrow> getBool stream;
     (f, stream) \<leftarrow> getBool stream;
     made \<leftarrow> mem_put ii m made;
     forced \<leftarrow> mem_put ii f forced;
     Some ((made, forced), stream)
   })"

definition getNV :: "mem_stream \<Rightarrow> serverNonvolatiles \<Rightarrow> nat \<Rightarrow> (serverNonvolatiles \<times> mem_stream) option" where
  "getNV stream n nPlayers = do {
     let version = mem_stream_getVersion stream;
     (lmt, stream) \<leftarrow> (if STREAM_VERS_DICTNAME \<le> version then mem_stream_getU32 stream else Some (lastMoveTime n, stream));
     (dte, stream) \<leftarrow> (if STREAM_VERS_DUPLICATE \<le> version then mem_stream_getU32 stream else Some (dupTimerExpires n, stream));
     (_, stream) \<leftarrow> (if version < STREAM_VERS_SERVER_SAVES_TOSHOW then getNat 3 stream else Some (0, stream));
     (nd, stream) \<leftarrow> getNat NDEVICES_NBITS stream;
     let nd = (if version > STREAM_VERS_41B4 then nd + 1 else nd);
     (gs, stream) \<leftarrow> getNat XWSTATE_NBITS stream;
     (sas, stream) \<leftarrow> (if version \<ge> STREAM_VERS_SERVER_SAVES_TOSHOW
        then do { (s, stream) \<leftarrow> getNat XWSTATE_NBITS stream; Some (state_of s, stream) }
        else Some (stateAfterShow n, stream));
     (ct, stream) \<leftarrow> getNat NPLAYERS_NBITS stream;
     (q, stream) \<leftarrow> (if STREAM_VERS_DICTNAME \<le> version
        then do { (q, stream) \<leftarrow> getNat NPLAYERS_NBITS stream; Some (int q - 1, stream) }
        else Some (quitter n, stream));
     (pr, stream) \<leftarrow> getNat NPLAYERS_NBITS stream;
     (addrs, stream) \<leftarrow> ofold (get_address version) (addresses n, stream) [0..<nPlayers];
     (sv, stream) \<leftarrow> (if STREAM_SAVE_PREVWORDS < version then mem_stream_getU8 stream else Some (nvStreamVersion n, stream));
     ((made, forced), sent, stream) \<leftarrow> (if version \<ge> STREAM_VERS_DUPLICATE then do {
          (mf, stream) \<leftarrow> ofold get_dupTurn ((dupTurnsMade n, dupTurnsForced n), stream) [0..<nPlayers];
          (s, stream) \<leftarrow> getBool stream;
          Some (mf, s, stream)
        } else Some ((dupTurnsMade n, dupTurnsForced n), dupTurnsSent n, stream));
     Some (n\<lparr>lastMoveTime := lmt, dupTimerExpires := dte, nDevices := nd, gameState := state_of gs, stateAfterShow := sas,
             currentTurn := int ct - 1, quitter := q, pendingRegistrations := pr, addresses := addrs,
             nvStreamVersion := sv, dupTurnsMade := made, dupTurnsForced := forced, dupTurnsSent := sent\<rparr>, stream)
   }"

definition put_address :: "serverNonvolatiles \<Rightarrow> mem_stream \<Rightarrow> nat \<Rightarrow> mem_stream option" where
  "put_address n stream ii = do {
     addr \<leftarrow> mem_get ii (addresses n);
     stream \<leftarrow> mem_stream_putBits stream 16 (ucast (raChannelNo addr));
     mem_stream_putBits stream 8 (ucast (raStreamVersion addr))
   }"

definition put_dupTurn :: "serverNonvolatiles \<Rightarrow> mem_stream \<Rightarrow> nat \<Rightarrow> mem_stream option" where
  "put_dupTurn n stream ii = do {
     m \<leftarrow> mem_get ii (dupTurnsMade n);
     f \<leftarrow> mem_get ii (dupTurnsForced n);
     stream \<leftarrow> putBool stream m;
     putBool stream f
   }"

definition putNV :: "mem_stream \<Rightarrow> serverNonvolatiles \<Rightarrow> nat \<Rightarrow> mem_stream option" where
  "putNV stream n nPlayers = do {
     stream \<leftarrow> mem_stream_putU32 stream (lastMoveTime n);
     stream \<leftarrow> mem_stream_putU32 stream (dupTimerExpires n);
     stream \<leftarrow> mem_stream_putBits stream NDEVICES_NBITS (of_int (int (nDevices n) - 1));
     stream \<leftarrow> putNat XWSTATE_NBITS (state_number (gameState n)) stream;
     stream \<leftarrow> putNat XWSTATE_NBITS (state_number (stateAfterShow n)) stream;
     xp_assert (-1 \<le> currentTurn n \<and> currentTurn n < int MAX_NUM_PLAYERS);
     stream \<leftarrow> mem_stream_putBits stream NPLAYERS_NBITS (of_int (currentTurn n + 1));
     stream \<leftarrow> mem_stream_putBits stream NPLAYERS_NBITS (of_int (quitter n + 1));
     stream \<leftarrow> putNat NPLAYERS_NBITS (pendingRegistrations n) stream;
     stream \<leftarrow> ofold (put_address n) stream [0..<nPlayers];
     stream \<leftarrow> mem_stream_putU8 stream (nvStreamVersion n);
     stream \<leftarrow> ofold (put_dupTurn n) stream [0..<nPlayers];
     putBool stream (dupTurnsSent n)
   }"

text \<open>A stream inside a stream: its length, then its bytes. Writing it moves its read position and
  sets it back.\<close>

definition readStreamIf :: "mem_stream \<Rightarrow> (mem_stream option \<times> mem_stream) option" where
  "readStreamIf src = do {
     (len, src) \<leftarrow> mem_stream_getU16 src;
     if 0 < len then do {
       (result, src) \<leftarrow> mem_stream_getFromStream mkServerStream src (unat len);
       Some (Some result, src)
     } else Some (None, src)
   }"

definition writeStreamIf :: "mem_stream \<Rightarrow> mem_stream option \<Rightarrow> (mem_stream \<times> mem_stream option) option" where
  "writeStreamIf dest src =
     (case src of None \<Rightarrow> do { dest \<leftarrow> mem_stream_putU16 dest 0; Some (dest, None) }
      | Some s \<Rightarrow> do {
          let len = mem_stream_getSize s;
          dest \<leftarrow> mem_stream_putU16 dest (of_nat len);
          if 0 < len then do {
            let pos = mem_stream_getPos s POS_READ;
            (dest, s) \<leftarrow> mem_stream_getFromStream dest s len;
            Some (dest, Some (snd (mem_stream_setPos s POS_READ pos)))
          } else Some (dest, Some s)
        })"

definition read_serverPlayer :: "serverCtxt \<times> mem_stream \<Rightarrow> nat \<Rightarrow> (serverCtxt \<times> mem_stream) option" where
  "read_serverPlayer = (\<lambda>(server, stream) ii. do {
     player \<leftarrow> mem_get ii (svPlayers server);
     (d, stream) \<leftarrow> mem_stream_getU8 stream;
     (e, stream) \<leftarrow> mem_stream_getU8 stream;
     let player = player\<lparr>deviceIndex := sint d\<rparr>;
     let player = (if e \<noteq> 0 then player\<lparr>spEngine := Some (engine_make (pfEngine (svUtil server)) (svModel server))\<rparr> else player);
     Some (server\<lparr>svPlayers := (svPlayers server)[ii := player]\<rparr>, stream)
   })"

definition server_makeFromStream ::
    "mem_stream \<Rightarrow> modelCtxt \<Rightarrow> platform \<Rightarrow> nat \<Rightarrow> (serverCtxt \<times> mem_stream) option" where
  "server_makeFromStream stream model util nPlayers = do {
     let version = mem_stream_getVersion stream;
     server \<leftarrow> server_make model util;
     (n, stream) \<leftarrow> getNV stream (nv server) nPlayers;
     let server = server\<lparr>nv := n\<rparr>;
     (havePool, stream) \<leftarrow> getBool stream;
     (pool, stream) \<leftarrow> (if havePool then do { (p, stream) \<leftarrow> pool_makeFromStream stream; Some (Some p, stream) }
                       else Some (svPool server, stream));
     (server, stream) \<leftarrow> ofold read_serverPlayer (server\<lparr>svPool := pool\<rparr>, stream) [0..<nPlayers];
     (src, stream) \<leftarrow> getNat 2 stream;
     (pm, stream) \<leftarrow> (if version \<ge> STREAM_SAVE_PREVMOVE then readStreamIf stream else Some (prevMoveStream (nv server), stream));
     (pw, stream) \<leftarrow> (if version \<ge> STREAM_SAVE_PREVWORDS then readStreamIf stream else Some (prevWordsStream (nv server), stream));
     let server = upd_nv (\<lambda>n. n\<lparr>prevMoveStream := pm, prevWordsStream := pw\<rparr>) (server\<lparr>lastMoveSource := src\<rparr>);
     Some (informMissing server, stream)
   }"

definition write_serverPlayer :: "serverCtxt \<Rightarrow> mem_stream \<Rightarrow> nat \<Rightarrow> mem_stream option" where
  "write_serverPlayer server stream ii = do {
     player \<leftarrow> mem_get ii (svPlayers server);
     stream \<leftarrow> mem_stream_putU8 stream (of_int (deviceIndex player));
     mem_stream_putU8 stream (if spEngine player \<noteq> None then 1 else 0)
   }"

definition server_writeToStream :: "serverCtxt \<Rightarrow> mem_stream \<Rightarrow> (serverCtxt \<times> mem_stream) option" where
  "server_writeToStream server stream = do {
     let np = giNPlayers (svGi server);
     stream \<leftarrow> putNV stream (nv server) np;
     stream \<leftarrow> putBool stream (svPool server \<noteq> None);
     stream \<leftarrow> (case svPool server of None \<Rightarrow> Some stream | Some pool \<Rightarrow> pool_writeToStream pool stream);
     stream \<leftarrow> ofold (write_serverPlayer server) stream [0..<np];
     stream \<leftarrow> putNat 2 (lastMoveSource server) stream;
     (stream, pm) \<leftarrow> writeStreamIf stream (prevMoveStream (nv server));
     (stream, pw) \<leftarrow> writeStreamIf stream (prevWordsStream (nv server));
     Some (upd_nv (\<lambda>n. n\<lparr>prevMoveStream := pm, prevWordsStream := pw\<rparr>) server, stream)
   }"
section \<open>The clock of duplicate mode\<close>

definition server_getDupTimerExpires :: "serverCtxt \<Rightarrow> int" where
  "server_getDupTimerExpires server = sint (dupTimerExpires (nv server))"

definition server_canPause :: "serverCtxt \<Rightarrow> bool" where
  "server_canPause server \<longleftrightarrow> svDuplicate server \<and> 0 < server_getDupTimerExpires server"

definition server_canUnpause :: "serverCtxt \<Rightarrow> bool" where
  "server_canUnpause server \<longleftrightarrow> svDuplicate server \<and> 0 > server_getDupTimerExpires server"

text \<open>The expiry is compared with the time as an unsigned number.\<close>

definition setDupCheckTimer :: "serverCtxt \<Rightarrow> (bool \<times> serverCtxt) option" where
  "setDupCheckTimer server = (case getCurSeconds server of (now, server) \<Rightarrow>
     (if server_getDupTimerExpires server > 0 \<and> dupTimerExpires (nv server) > now then do {
        let diff = unat (dupTimerExpires (nv server) - now);
        xp_assert (diff \<le> 0x7FFF);
        Some (True, emit (EvSetTimer TIMER_DUP_TIMERCHECK diff) server)
      } else Some (False, server)))"

definition setDupTimerExpires :: "u32 \<Rightarrow> serverCtxt \<Rightarrow> serverCtxt" where
  "setDupTimerExpires newVal server =
     (let oldVal = dupTimerExpires (nv server)
      in if newVal \<noteq> oldVal
         then callDupTimerListener oldVal newVal (upd_nv (\<lambda>n. n\<lparr>dupTimerExpires := newVal\<rparr>) server)
         else server)"

definition dupe_resetTimer :: "serverCtxt \<Rightarrow> serverCtxt option" where
  "dupe_resetTimer server = do {
     let (newVal, server) =
       (if timerEnabled (svGi server) \<and> 0 < gameSeconds (svGi server)
        then (case getCurSeconds server of (now, server) \<Rightarrow> (now + ucast (gameSeconds (svGi server)), server))
        else (0, server));
     let (newVal, server) =
       (if server_canUnpause server
        then (case getCurSeconds server of (now, server) \<Rightarrow> (- (newVal - now), server))
        else (newVal, server));
     (_, server) \<leftarrow> setDupCheckTimer (setDupTimerExpires newVal server);
     Some server
   }"

definition server_getTimerSeconds :: "serverCtxt \<Rightarrow> nat \<Rightarrow> (int \<times> serverCtxt) option" where
  "server_getTimerSeconds server turn =
     (if svDuplicate server then do {
        let expires = server_getDupTimerExpires server;
        let (result, server) =
          (if expires \<le> 0 then (s16 (- expires), server)
           else (case getCurSeconds server of (now, server) \<Rightarrow>
             (if dupTimerExpires (nv server) > now then s16 (uint (dupTimerExpires (nv server) - now)) else 0, server)));
        xp_assert (result \<ge> 0);
        Some (result, server)
      } else do {
        lp \<leftarrow> mem_get turn (giPlayers (svGi server));
        xp_assert (giNPlayers (svGi server) \<noteq> 0);
        let available = unat (gameSeconds (svGi server)) div giNPlayers (svGi server);
        xp_assert (timerEnabled (svGi server));
        Some (s16 (int available - int (unat (secondsUsed lp))), server)
      })"

definition pauseImpl :: "serverCtxt \<Rightarrow> serverCtxt option" where
  "pauseImpl server = do {
     xp_assert (server_canPause server);
     let (now, server) = getCurSeconds server;
     let server = setDupTimerExpires (- (dupTimerExpires (nv server) - now)) server;
     xp_assert (0 > server_getDupTimerExpires server);
     xp_assert (server_canUnpause server);
     Some server
   }"

definition dupe_clearState :: "serverCtxt \<Rightarrow> serverCtxt option" where
  "dupe_clearState server = do {
     let np = giNPlayers (svGi server);
     xp_assert (np \<le> length (dupTurnsMade (nv server)) \<and> np \<le> length (dupTurnsForced (nv server)));
     Some (upd_nv (\<lambda>n. n\<lparr>dupTurnsMade := replicate np False @ drop np (dupTurnsMade n),
                      dupTurnsForced := replicate np False @ drop np (dupTurnsForced n), dupTurnsSent := False\<rparr>) server)
   }"

section \<open>Questions\<close>

definition server_getCurrentTurn :: "serverCtxt \<Rightarrow> (int \<times> bool option) option" where
  "server_getCurrentTurn server = (let turn = currentTurn (nv server) in
     if turn \<ge> 0 then do { lp \<leftarrow> mem_get (nat turn) (giPlayers (svGi server)); Some (turn, Some (isLocal lp)) }
     else Some (turn, None))"

definition server_dupTurnDone :: "serverCtxt \<Rightarrow> nat \<Rightarrow> bool option" where
  "server_dupTurnDone server turn = do {
     lp \<leftarrow> mem_get turn (giPlayers (svGi server));
     made \<leftarrow> mem_get turn (dupTurnsMade (nv server));
     Some (isLocal lp \<and> made)
   }"

definition server_isPlayersTurn :: "serverCtxt \<Rightarrow> nat \<Rightarrow> bool option" where
  "server_isPlayersTurn server turn =
     (if svDuplicate server then do {
        lp \<leftarrow> mem_get turn (giPlayers (svGi server));
        made \<leftarrow> mem_get turn (dupTurnsMade (nv server));
        Some (isLocal lp \<and> \<not> made)
      } else Some (int turn = currentTurn (nv server)))"

definition server_getGameIsOver :: "serverCtxt \<Rightarrow> bool" where
  "server_getGameIsOver server \<longleftrightarrow> gameState (nv server) = XWSTATE_GAMEOVER"

definition player_bits :: "(nat \<Rightarrow> bool) \<Rightarrow> nat \<Rightarrow> u16" where
  "player_bits p n = foldl (\<lambda>result ii. if p ii then result OR push_bit ii 1 else result) 0 [0..<n]"

definition server_getMissingPlayers :: "serverCtxt \<Rightarrow> u16 option" where
  "server_getMissingPlayers server =
     (let np = giNPlayers (svGi server)
      in if amClient server then do {
           addr \<leftarrow> mem_get 0 (addresses (nv server));
           if raChannelNo addr = 0 then do {
             lps \<leftarrow> mem_read 0 np (giPlayers (svGi server));
             Some (player_bits (\<lambda>ii. \<not> isLocal (lps ! ii)) np)
           } else Some 0
         } else if amServer server \<and> 0 < pendingRegistrations (nv server) then do {
           ps \<leftarrow> mem_read 0 np (svPlayers server);
           Some (player_bits (\<lambda>ii. deviceIndex (ps ! ii) = UNKNOWN_DEVICE) np)
         } else Some 0)"

definition server_getLastMoveTime :: "serverCtxt \<Rightarrow> u32" where
  "server_getLastMoveTime server = lastMoveTime (nv server)"

section \<open>Messages\<close>

text \<open>A stream made for the address of a device (\<open>util_makeStreamFromAddr\<close>) is sent when it is
  destroyed: its close callback, here number 0, hands it to the connection layer.\<close>

definition makeStreamFromAddr :: "u16 \<Rightarrow> mem_stream" where
  "makeStreamFromAddr chan = mem_stream_make chan (Some 0)"

definition writeProto :: "serverCtxt \<Rightarrow> mem_stream \<Rightarrow> XW_Proto \<Rightarrow> mem_stream option" where
  "writeProto server stream proto = do {
     let version = nvStreamVersion (nv server);
     xp_assert (version > 0);
     stream \<leftarrow> (if STREAM_SAVE_PREVWORDS < unat version then do {
          stream \<leftarrow> putNat XWPROTO_NBITS (proto_number XWPROTO_NEW_PROTO) stream;
          mem_stream_putBits stream 8 (ucast version)
        } else Some stream);
     stream \<leftarrow> mem_stream_setVersion stream (unat version);
     putNat XWPROTO_NBITS (proto_number proto) stream
   }"

definition readProto :: "serverCtxt \<Rightarrow> mem_stream \<Rightarrow> (XW_Proto \<times> serverCtxt \<times> mem_stream) option" where
  "readProto server stream = do {
     (p, stream) \<leftarrow> getNat XWPROTO_NBITS stream;
     (version, proto, stream) \<leftarrow> (if proto_of p = XWPROTO_NEW_PROTO then do {
          (v, stream) \<leftarrow> getNat 8 stream;
          (p, stream) \<leftarrow> getNat XWPROTO_NBITS stream;
          Some (v, proto_of p, stream)
        } else Some (STREAM_SAVE_PREVWORDS, proto_of p, stream));
     let server = upd_nv (\<lambda>n. n\<lparr>nvStreamVersion := of_nat version\<rparr>) server;
     stream \<leftarrow> mem_stream_setVersion stream version;
     Some (proto, server, stream)
   }"

definition messageStreamWithHeader :: "serverCtxt \<Rightarrow> nat \<Rightarrow> XW_Proto \<Rightarrow> mem_stream option" where
  "messageStreamWithHeader server devIndex code = do {
     addr \<leftarrow> mem_get devIndex (addresses (nv server));
     writeProto server (mem_stream_open (makeStreamFromAddr (raChannelNo addr))) code
   }"

definition sendStream :: "mem_stream \<Rightarrow> serverCtxt \<Rightarrow> serverCtxt option" where
  "sendStream stream server = do { (_, s) \<leftarrow> mem_stream_close stream; Some (emit (EvSend s) server) }"

text \<open>A message to a device whose body a function writes.\<close>

definition sendMessage ::
    "nat \<Rightarrow> XW_Proto \<Rightarrow> (serverCtxt \<Rightarrow> mem_stream \<Rightarrow> mem_stream option) \<Rightarrow> serverCtxt \<Rightarrow> serverCtxt option" where
  "sendMessage devIndex code body server = do {
     stream \<leftarrow> messageStreamWithHeader server devIndex code;
     stream \<leftarrow> body server stream;
     sendStream stream server
   }"

text \<open>The devices other than this one and \<open>skip\<close>.\<close>

definition remote_devices :: "serverCtxt \<Rightarrow> int \<Rightarrow> nat list" where
  "remote_devices server skip = filter (\<lambda>d. int d \<noteq> skip) [1..<nDevices (nv server)]"

fun find_device :: "remoteAddress list \<Rightarrow> u16 \<Rightarrow> nat list \<Rightarrow> int option" where
  "find_device addrs chan [] = Some (-1)"
| "find_device addrs chan (ii # iis) = do {
     addr \<leftarrow> mem_get ii addrs;
     if raChannelNo addr = chan then Some (int ii) else find_device addrs chan iis
   }"

definition getIndexForDevice :: "serverCtxt \<Rightarrow> u16 \<Rightarrow> int option" where
  "getIndexForDevice server chan = find_device (addresses (nv server)) chan [0..<nDevices (nv server)]"

definition getIndexForStream :: "serverCtxt \<Rightarrow> mem_stream \<Rightarrow> int option" where
  "getIndexForStream server stream = getIndexForDevice server (mem_stream_getAddress stream)"

end
