(* ===== verification/Xw_ServerTurn.thy ===== *)
theory Xw_ServerTurn
  imports Xw_Server
begin

text \<open>
  Tiles and turns of \<open>server.c\<close>: the engines of the players, the tiles drawn for them, the next
  turn, moves and trades that are committed, the words that are refused, undo, and the end of the
  game.
\<close>

section \<open>Engines\<close>

definition bitsPerTile :: "serverCtxt \<Rightarrow> (nat \<times> serverCtxt) option" where
  "bitsPerTile server =
     (if svBitsPerTile server = 0 then do {
        dict \<leftarrow> model_getDictionary (svModel server);
        let bits = (if dict_numTileFaces dict \<le> 32 then 5 else 6);
        Some (bits, server\<lparr>svBitsPerTile := bits\<rparr>)
      } else Some (svBitsPerTile server, server))"

definition set_engine :: "nat \<Rightarrow> engineCtxt \<Rightarrow> serverCtxt \<Rightarrow> serverCtxt option" where
  "set_engine pl engine server = do {
     player \<leftarrow> mem_get pl (svPlayers server);
     Some (server\<lparr>svPlayers := (svPlayers server)[pl := player\<lparr>spEngine := Some engine\<rparr>]\<rparr>)
   }"

definition server_getEngineFor :: "serverCtxt \<Rightarrow> nat \<Rightarrow> (engineCtxt option \<times> serverCtxt) option" where
  "server_getEngineFor server pl = do {
     xp_assert (pl < giNPlayers (svGi server));
     player \<leftarrow> mem_get pl (svPlayers server);
     lp \<leftarrow> mem_get pl (giPlayers (svGi server));
     if spEngine player = None \<and> (svDuplicate server \<or> isLocal lp) then do {
       let engine = engine_make (pfEngine (svUtil server)) (svModel server);
       server \<leftarrow> set_engine pl engine server;
       Some (Some engine, server)
     } else Some (spEngine player, server)
   }"

definition server_resetEngine :: "serverCtxt \<Rightarrow> nat \<Rightarrow> serverCtxt option" where
  "server_resetEngine server pl = do {
     player \<leftarrow> mem_get pl (svPlayers server);
     case spEngine player of None \<Rightarrow> Some server
     | Some engine \<Rightarrow> do {
         xp_assert (deviceIndex player = 0 \<or> svDuplicate server);
         set_engine pl (engine_reset engine) server
       }
   }"

definition server_resetEngines :: "serverCtxt \<Rightarrow> serverCtxt option" where
  "server_resetEngines server = ofold server_resetEngine server [0..<giNPlayers (svGi server)]"

section \<open>Tiles\<close>

definition sortTilesIf :: "nat \<Rightarrow> serverCtxt \<Rightarrow> serverCtxt option" where
  "sortTilesIf turn server =
     (if sortNewTiles (nv server) then on_model (\<lambda>m. model_sortTiles m turn) server else Some server)"

text \<open>Whether a player without tiles is found: in duplicate mode, whether none has any.\<close>

fun zero_found :: "modelCtxt \<Rightarrow> bool \<Rightarrow> nat list \<Rightarrow> bool option" where
  "zero_found model inDupMode [] = Some inDupMode"
| "zero_found model inDupMode (pl # pls) = do {
     count \<leftarrow> model_getNumTilesTotal model pl;
     if inDupMode \<and> count > 0 then Some False
     else if \<not> inDupMode \<and> count = 0 then Some True
     else zero_found model inDupMode pls
   }"

definition tileCountsOk :: "serverCtxt \<Rightarrow> bool option" where
  "tileCountsOk server = do {
     pool \<leftarrow> svPool server;
     if pool_getNTilesLeft pool = 0 then do {
       z \<leftarrow> zero_found (svModel server) (svDuplicate server) [0..<giNPlayers (svGi server)];
       Some (\<not> z)
     } else Some True
   }"

definition NPASSES_OK :: "serverCtxt \<Rightarrow> (bool \<times> serverCtxt) option" where
  "NPASSES_OK server = ask_model model_recentPassCountOk server"

definition robotMovePending :: "serverCtxt \<Rightarrow> (bool \<times> serverCtxt) option" where
  "robotMovePending server =
     (let turn = currentTurn (nv server)
      in if turn \<ge> 0 then do {
           tiles \<leftarrow> tileCountsOk server;
           if tiles then do {
             (passes, server) \<leftarrow> NPASSES_OK server;
             if passes then do {
               lp \<leftarrow> mem_get (nat turn) (giPlayers (svGi server));
               Some (LP_IS_ROBOT lp \<and> LP_IS_LOCAL lp, server)
             } else Some (False, server)
           } else Some (False, server)
         } else Some (False, server))"

definition postponeRobotMove :: "serverCtxt \<Rightarrow> (bool \<times> serverCtxt) option" where
  "postponeRobotMove server = do {
     (pending, server) \<leftarrow> robotMovePending server;
     xp_assert pending;
     if \<not> robotWaiting server then do {
       let (sleepTime, server) = figureSleepTime server;
       let sleepTime = trunc16 sleepTime;
       if sleepTime \<noteq> 0
       then Some (True, emit (EvSetTimer TIMER_SLOWROBOT sleepTime) (server\<lparr>robotWaiting := True\<rparr>))
       else Some (False, server)
     } else Some (False, server)
   }"

text \<open>A robot is to move now: it is its turn and its move is not put off.\<close>

definition robot_moves_now :: "serverCtxt \<Rightarrow> (bool \<times> serverCtxt) option" where
  "robot_moves_now server = do {
     (pending, server) \<leftarrow> robotMovePending server;
     if pending then do { (later, server) \<leftarrow> postponeRobotMove server; Some (\<not> later, server) }
     else Some (False, server)
   }"

definition wakeRobotProc :: "serverCtxt \<Rightarrow> serverCtxt option" where
  "wakeRobotProc server = do {
     xp_assert (robotWaiting server);
     Some (emit EvRequestTime (server\<lparr>robotWaiting := False\<rparr>))
   }"

text \<open>The faces of the tiles of a tray that are not traded. The traded tiles are held in an array of
  the size of a tray; one that was met is blotted out.\<close>

fun tray_texts :: "dictionaryCtxt \<Rightarrow> tile list \<Rightarrow> tile list \<Rightarrow> facePtr list option" where
  "tray_texts dict traded [] = Some []"
| "tray_texts dict traded (t # ts) =
     (if t \<in> set traded then tray_texts dict (remove1 t traded) ts
      else do { f \<leftarrow> dict_getTileString dict t; fs \<leftarrow> tray_texts dict traded ts; Some (f # fs) })"

definition curTrayAsTexts :: "serverCtxt \<Rightarrow> nat \<Rightarrow> trayTileSet option \<Rightarrow> facePtr list option" where
  "curTrayAsTexts server turn notInTray = do {
     tiles \<leftarrow> model_getPlayerTiles (svModel server) turn;
     dict \<leftarrow> model_getDictionary (svModel server);
     let traded = (case notInTray of None \<Rightarrow> [] | Some ts \<Rightarrow> ts);
     xp_assert (length traded \<le> MAX_TRAY_TILES);
     fs \<leftarrow> tray_texts dict traded tiles;
     xp_assert (length fs \<le> MAX_TRAY_TILES);
     Some fs
   }"

definition informNeedPickTiles :: "bool \<Rightarrow> nat \<Rightarrow> nat \<Rightarrow> serverCtxt \<Rightarrow> (bool \<times> serverCtxt) option" where
  "informNeedPickTiles initial turn nToPick server = do {
     dict \<leftarrow> model_getDictionary (svModel server);
     let nf = dict_numTileFaces dict;
     pool \<leftarrow> svPool server;
     let nToPick = min (pool_getNTilesLeft pool) nToPick;
     if nToPick > 0 then do {
       called \<leftarrow> mem_get turn (pickTilesCalled server);
       if called then Some (True, server)
       else do {
         let server = server\<lparr>pickTilesCalled := (pickTilesCalled server)[turn := True]\<rparr>;
         xp_assert (nf \<le> MAX_UNIQUE_TILES);
         facts \<leftarrow> ofold (\<lambda>fs t. do {
             face \<leftarrow> dict_getTileString dict (of_nat t);
             n \<leftarrow> pool_getNTilesLeftFor pool (of_nat t);
             Some (fs @ [(face, n)])
           }) [] [0..<nf];
         Some (True, emit (EvInformNeedPickTiles initial turn nToPick nf facts) server)
       }
     } else Some (False, server)
   }"

definition server_askPickTiles ::
    "serverCtxt \<Rightarrow> nat \<Rightarrow> trayTileSet option \<Rightarrow> nat \<Rightarrow> (bool \<times> serverCtxt) option" where
  "server_askPickTiles server turn newTiles nToPick =
     (if newTiles = None \<and> \<not> svDuplicate server \<and> allowPickTiles (svGi server)
      then informNeedPickTiles False turn nToPick server else Some (False, server))"

definition no_newMove :: moveInfo where "no_newMove = \<lparr>commonCoord = 0, isHorizontal = False, mtiles = []\<rparr>"

definition dupe_trayAllowsMoves :: "serverCtxt \<Rightarrow> nat \<Rightarrow> tile list \<Rightarrow> (bool \<times> serverCtxt) option" where
  "dupe_trayAllowsMoves server turn tiles = do {
     nInTray \<leftarrow> model_getNumTilesInTray (svModel server) turn;
     xp_assert (nInTray + length tiles \<le> MAX_TRAY_TILES);
     tray \<leftarrow> model_getPlayerTiles (svModel server) turn;
     (engine, server) \<leftarrow> server_getEngineFor server turn;
     engine \<leftarrow> engine;
     r \<leftarrow> engine_findMove 1 \<lparr>faModel = svModel server, faTurn = turn, faIncludePending = True,
         faSkipCallback = True, faTiles = tray @ tiles, faUsePrev = False, faAllTilesBonus = 0,
         faSearchLimits = None, faUseTileLimits = False, faRobotIQ = 0\<rparr> no_newMove 0 engine;
     server \<leftarrow> set_engine turn (frEngine r) server;
     server \<leftarrow> server_resetEngine server turn;
     Some (frDone r \<and> frCanMove r, server)
   }"

definition draw_tiles :: "nat \<Rightarrow> serverCtxt \<Rightarrow> (tile list \<times> serverCtxt) option" where
  "draw_tiles n server = do {
     pool \<leftarrow> svPool server;
     (ts, pool) \<leftarrow> pool_requestTiles (\<lambda>k. pfRandom (svUtil server) (nRandom server + k)) pool n;
     Some (ts, server\<lparr>svPool := Some pool, nRandom := nRandom server + length ts\<rparr>)
   }"

text \<open>In duplicate mode a draw that allows no move is put back, four times at most: the first
  argument is how often it can still happen.\<close>

fun fetch_rest :: "nat \<Rightarrow> nat \<Rightarrow> tile list \<Rightarrow> nat \<Rightarrow> serverCtxt \<Rightarrow> (tile list \<times> serverCtxt) option" where
  "fetch_rest k pl soFar nLeft server =
     (if nLeft = 0 then Some ([], server) else do {
        (ts, server) \<leftarrow> draw_tiles nLeft server;
        xp_assert (length soFar + length ts \<le> MAX_TRAY_TILES);
        if \<not> svDuplicate server then Some (ts, server)
        else do {
          (ok, server) \<leftarrow> dupe_trayAllowsMoves server pl (soFar @ ts);
          if ok then Some (ts, server)
          else (case k of
              0 \<Rightarrow> Some (ts, server)
            | Suc k \<Rightarrow> do {
                server \<leftarrow> on_pool (\<lambda>pool. pool_replaceTiles2 pool ts) server;
                fetch_rest k pl soFar (length ts) server
              })
        }
      })"

declare fetch_rest.simps [simp del]

text \<open>The user is never asked to pick: the picker's answer is the constant \<open>PICKER_PICKALL\<close>.\<close>

definition fetchTiles ::
    "nat \<Rightarrow> nat \<Rightarrow> trayTileSet option \<Rightarrow> trayTileSet \<Rightarrow> serverCtxt \<Rightarrow> (trayTileSet \<times> serverCtxt) option" where
  "fetchTiles pl nToFetch tradedTiles resultTiles server = do {
     xp_assert (\<not> amClient server \<or> \<not> svDuplicate server);
     let nSoFar = length resultTiles;
     pool \<leftarrow> svPool server;
     lp \<leftarrow> mem_get pl (giPlayers (svGi server));
     let ask = (allowPickTiles (svGi server) \<and> \<not> LP_IS_ROBOT lp);
     let nToFetch = min (pool_getNTilesLeft pool) nToFetch;
     _ \<leftarrow> curTrayAsTexts server pl tradedTiles;
     _ \<leftarrow> (if ask \<and> nSoFar < nToFetch then do {
          xp_assert (\<not> svDuplicate server);
          model_packTilesUtil (svModel server) (Some pool) True MAX_UNIQUE_TILES
        } else Some []);
     xp_assert (nToFetch \<ge> nSoFar);
     (ts, server) \<leftarrow> fetch_rest 4 pl resultTiles (nToFetch - nSoFar) server;
     xp_assert (nSoFar + length ts < 0x00FF);
     Some (resultTiles @ ts, server)
   }"

definition makePoolOnce :: "serverCtxt \<Rightarrow> serverCtxt option" where
  "makePoolOnce server = do {
     dict \<leftarrow> model_getDictionary (svModel server);
     if svPool server = None then do {
       counts \<leftarrow> ofold (\<lambda>cs t. do { c \<leftarrow> dict_numTiles dict (of_nat t); Some (cs @ [c]) }) []
                  [0..<dict_numTileFaces dict];
       Some (server\<lparr>svPool := Some (pool_initFromDict pool_make (dict_numTileFaces dict) (\<lambda>t. counts ! t))\<rparr>)
     } else Some server
   }"
text \<open>The players in order, until one has to be asked to pick his tiles. \<open>newTiles\<close> is the local
  variable of the code, filled for the first player in duplicate mode.\<close>

fun assign_loop :: "nat \<Rightarrow> bool \<Rightarrow> trayTileSet \<Rightarrow> nat list \<Rightarrow> serverCtxt \<Rightarrow> (bool \<times> serverCtxt) option" where
  "assign_loop numAssigned pickingTiles newTiles [] server = Some (True, server)"
| "assign_loop numAssigned pickingTiles newTiles (ii # iis) server = do {
     n \<leftarrow> model_getNumTilesInTray (svModel server) ii;
     if n = 0 then do {
       lp \<leftarrow> mem_get ii (giPlayers (svGi server));
       (asked, server) \<leftarrow> (if pickingTiles \<and> \<not> LP_IS_ROBOT lp
                          then informNeedPickTiles True ii MAX_TRAY_TILES server else Some (False, server));
       if asked then Some (False, server)
       else do {
         (newTiles, server) \<leftarrow> (if ii = 0 \<or> \<not> svDuplicate server
                               then fetchTiles ii numAssigned None [] server else Some (newTiles, server));
         if svDuplicate server then do {
           xp_assert (ii = DUP_PLAYER);
           server \<leftarrow> on_model (\<lambda>m. model_assignDupeTiles m newTiles) server;
           Some (True, server)
         } else do {
           server \<leftarrow> on_model (\<lambda>m. model_assignPlayerTiles m ii newTiles) server;
           server \<leftarrow> sortTilesIf ii server;
           assign_loop numAssigned pickingTiles newTiles iis server
         }
       }
     } else do {
       server \<leftarrow> sortTilesIf ii server;
       assign_loop numAssigned pickingTiles newTiles iis server
     }
   }"

definition assignTilesToAll :: "serverCtxt \<Rightarrow> (bool \<times> serverCtxt) option" where
  "assignTilesToAll server = do {
     let np = giNPlayers (svGi server);
     xp_assert (\<not> amClient server);
     server \<leftarrow> makePoolOnce server;
     let server = server\<lparr>svModel := model_setNPlayers (svModel server) np\<rparr>;
     pool \<leftarrow> svPool server;
     xp_assert (np \<noteq> 0);
     let numAssigned = min (pool_getNTilesLeft pool div np) MAX_TRAY_TILES;
     assign_loop numAssigned (serverRole (svGi server) = SERVER_STANDALONE \<and> allowPickTiles (svGi server)) []
       [0..<np] server
   }"

definition server_tilesPicked :: "serverCtxt \<Rightarrow> nat \<Rightarrow> trayTileSet \<Rightarrow> serverCtxt option" where
  "server_tilesPicked server pl newTiles = do {
     n \<leftarrow> model_getNumTilesInTray (svModel server) pl;
     xp_assert (n = 0);
     called \<leftarrow> mem_get pl (pickTilesCalled server);
     xp_assert called;
     let server = server\<lparr>pickTilesCalled := (pickTilesCalled server)[pl := False]\<rparr>;
     server \<leftarrow> on_pool (\<lambda>pool. pool_removeTiles pool newTiles) server;
     (newTiles, server) \<leftarrow> fetchTiles pl MAX_TRAY_TILES None newTiles server;
     xp_assert (\<not> svDuplicate server);
     server \<leftarrow> on_model (\<lambda>m. model_assignPlayerTiles m pl newTiles) server;
     Some (emit EvRequestTime server)
   }"

section \<open>The next turn\<close>

definition pick_turn :: "int \<Rightarrow> serverCtxt \<Rightarrow> (int \<times> serverCtxt) option" where
  "pick_turn nxtTurn server =
     (if nxtTurn = PICK_CUR then ask_model model_getNextTurn server
      else if nxtTurn = PICK_NEXT then do {
        xp_assert (gameState (nv server) = XWSTATE_INTURN);
        if currentTurn (nv server) \<ge> 0 then
          (if svDuplicate server then do { t \<leftarrow> dupe_nextTurn server; Some (int t, server) }
           else ask_model model_getNextTurn server)
        else Some (nxtTurn, server)
      } else do {
        (next, server) \<leftarrow> ask_model model_getNextTurn server;
        xp_assert (nxtTurn = next);
        Some (nxtTurn, server)
      })"

text \<open>The turn goes to the next player, or the game is about to end: only a host ends it. The flag is
  whether more is to do.\<close>

definition turn_or_end :: "int \<Rightarrow> int \<Rightarrow> serverCtxt \<Rightarrow> (bool \<times> serverCtxt) option" where
  "turn_or_end oldTurn nxtTurn server = do {
     playerTilesLeft \<leftarrow> tileCountsOk server;
     let server = SETSTATE XWSTATE_INTURN server;
     (goOn, server) \<leftarrow> (if playerTilesLeft then NPASSES_OK server else Some (False, server));
     if goOn then do { server \<leftarrow> setTurn nxtTurn server; Some (False, server) }
     else if \<not> amClient server then Some (True, SETSTATE XWSTATE_NEEDSEND_ENDGAME server)
     else if oldTurn \<ge> 0 then do { server \<leftarrow> setTurn (-1) server; Some (False, server) }
     else Some (False, server)
   }"

definition show_previous :: "bool \<Rightarrow> serverCtxt \<Rightarrow> bool \<times> serverCtxt" where
  "show_previous moreToDo server =
     (if showPrevMove server then
        (let server = server\<lparr>showPrevMove := False\<rparr>
         in if svDuplicate server \<or> showRobotScores (nv server)
            then (True, SETSTATE XWSTATE_NEED_SHOWSCORE (upd_nv (\<lambda>n. n\<lparr>stateAfterShow := gameState n\<rparr>) server))
            else (moreToDo, server))
      else (moreToDo, server))"

definition nextTurn :: "int \<Rightarrow> serverCtxt \<Rightarrow> serverCtxt option" where
  "nextTurn nxtTurn server = do {
     let oldTurn = currentTurn (nv server);
     (nxtTurn, server) \<leftarrow> pick_turn nxtTurn server;
     (moreToDo, server) \<leftarrow> turn_or_end oldTurn nxtTurn server;
     let (moreToDo, server) = show_previous moreToDo server;
     server \<leftarrow> server_resetEngines server;
     xp_assert (gameState (nv server) \<noteq> XWSTATE_GAMEOVER);
     let server = emit (EvTurnChanged (currentTurn (nv server))) (callTurnChangeListener server);
     (robot, server) \<leftarrow> robot_moves_now server;
     Some (if moreToDo \<or> robot then emit EvRequestTime server else server)
   }"

section \<open>Words that are refused\<close>

definition MAX_BAD_WORDS :: nat where "MAX_BAD_WORDS = MAX_TRAY_TILES + 2"

text \<open>The dictionary the words were looked up in is the mover's.\<close>

definition storeBadWords :: "nat \<Rightarrow> serverCtxt \<Rightarrow> wnParams \<Rightarrow> serverCtxt option" where
  "storeBadWords pl server wnp =
     (if \<not> wnIsLegal wnp then do {
        dict \<leftarrow> model_getPlayerDict (svModel server) (int pl);
        let bw = illegalWordInfo server;
        let bw = (if bwDictName bw = None then bw\<lparr>bwDictName := p_copyString (pfShortName (svUtil server) dict)\<rparr> else bw);
        xp_assert (length (bwWords bw) < MAX_BAD_WORDS);
        Some (server\<lparr>illegalWordInfo := bw\<lparr>bwWords := bwWords bw @ [p_copyString (Some (wnWord wnp))]\<rparr>\<rparr>)
      } else Some server)"

text \<open>\<open>model_checkMoveLegal\<close>, with the messages it has for the user.\<close>

definition check_legal ::
    "nat \<Rightarrow> mem_stream option \<Rightarrow> bool \<Rightarrow> serverCtxt \<Rightarrow> (bool \<times> moveCheck \<times> serverCtxt) option" where
  "check_legal turn stream notify server = do {
     (legal, mc) \<leftarrow> model_checkMoveLegal (pfScoreText (svUtil server)) (svModel server) turn stream notify;
     Some (legal, mc, (if mcMsgs mc = [] then server else emit (EvModelMessages (mcMsgs mc)) server))
   }"

definition checkMoveAllowed :: "nat \<Rightarrow> serverCtxt \<Rightarrow> (bool \<times> serverCtxt) option" where
  "checkMoveAllowed pl server = do {
     xp_assert (bwWords (illegalWordInfo server) = []);
     server \<leftarrow> (if phoniesAction (svGi server) = PHONIES_DISALLOW then do {
          (_, mc, server) \<leftarrow> check_legal pl None True server;
          ofold (storeBadWords pl) server (mcCalls mc)
        } else Some server);
     Some (bwWords (illegalWordInfo server) = [], server)
   }"

definition freeBWI :: "serverCtxt \<Rightarrow> serverCtxt" where
  "freeBWI server = server\<lparr>illegalWordInfo := no_words\<rparr>"

definition bwiToStream :: "badWordInfo \<Rightarrow> mem_stream \<Rightarrow> mem_stream option" where
  "bwiToStream bwi stream = do {
     stream \<leftarrow> putNat 4 (length (bwWords bwi)) stream;
     stream \<leftarrow> (if STREAM_VERS_DICTNAME \<le> mem_stream_getVersion stream
               then stringToStream stream (bwDictName bwi) else Some stream);
     ofold stringToStream stream (bwWords bwi)
   }"

definition bwiFromStream :: "mem_stream \<Rightarrow> (badWordInfo \<times> mem_stream) option" where
  "bwiFromStream stream = do {
     (nWords, stream) \<leftarrow> getNat 4 stream;
     xp_assert (nWords < MAX_BAD_WORDS - 1);
     (nm, stream) \<leftarrow> (if STREAM_VERS_DICTNAME \<le> mem_stream_getVersion stream
                     then p_stringFromStream stream else Some (None, stream));
     (ws, stream) \<leftarrow> ofold (\<lambda>(ws, stream) ii. do { (w, stream) \<leftarrow> p_stringFromStream stream; Some (ws @ [w], stream) })
                      ([], stream) [0..<nWords];
     Some (\<lparr>bwDictName = nm, bwWords = ws\<rparr>, stream)
   }"

definition badWordMoveUndoAndTellUser :: "badWordInfo \<Rightarrow> serverCtxt \<Rightarrow> serverCtxt option" where
  "badWordMoveUndoAndTellUser bwi server = do {
     (turn, model, pool) \<leftarrow> model_rejectPreviousMove (pfScoreText (svUtil server)) (svModel server) (svPool server);
     Some (emit (EvNotifyIllegalWords bwi turn True) (server\<lparr>svModel := model, svPool := pool\<rparr>))
   }"

definition sendBadWordMsgs :: "serverCtxt \<Rightarrow> serverCtxt option" where
  "sendBadWordMsgs server = do {
     xp_assert (bwWords (illegalWordInfo server) \<noteq> []);
     server \<leftarrow> sendMessage (lastMoveSource server) XWPROTO_BADWORD_INFO (\<lambda>server stream. do {
         stream \<leftarrow> mem_stream_putBits stream PLAYERNUM_NBITS (of_int (currentTurn (nv server)));
         bwiToStream (illegalWordInfo server) stream
       }) server;
     Some (SETSTATE XWSTATE_INTURN (freeBWI server))
   }"
section \<open>Moves and trades\<close>

text \<open>\<open>tradedTiles\<close> is null for a move.\<close>

definition move_body ::
    "nat \<Rightarrow> bool \<Rightarrow> trayTileSet \<Rightarrow> trayTileSet option \<Rightarrow> serverCtxt \<Rightarrow> mem_stream \<Rightarrow> mem_stream option" where
  "move_body turn legal newTiles tradedTiles server stream = do {
     stream \<leftarrow> (if STREAM_VERS_BIGBOARD \<le> mem_stream_getVersion stream then do {
          xp_assert (mem_stream_getVersion stream = unat (nvStreamVersion (nv server)));
          hash \<leftarrow> model_getHash (svModel server);
          mem_stream_putU32 stream hash
        } else Some stream);
     stream \<leftarrow> putNat PLAYERNUM_NBITS turn stream;
     stream \<leftarrow> traySetToStream stream newTiles;
     stream \<leftarrow> putBool stream (tradedTiles \<noteq> None);
     case tradedTiles of
       Some tiles \<Rightarrow> traySetToStream stream tiles
     | None \<Rightarrow> do {
         stream \<leftarrow> putBool stream legal;
         stream \<leftarrow> model_currentMoveToStream (svModel server) turn stream;
         lp \<leftarrow> mem_get turn (giPlayers (svGi server));
         stream \<leftarrow> (if timerEnabled (svGi server) then mem_stream_putU16 stream (secondsUsed lp)
                   else do { xp_assert (secondsUsed lp = 0); Some stream });
         if \<not> legal then do {
           xp_assert (bwWords (illegalWordInfo server) \<noteq> []);
           stream \<leftarrow> putNat PLAYERNUM_NBITS turn stream;
           bwiToStream (illegalWordInfo server) stream
         } else Some stream
       }
   }"

definition sendMoveTo ::
    "nat \<Rightarrow> bool \<Rightarrow> trayTileSet \<Rightarrow> trayTileSet option \<Rightarrow> serverCtxt \<Rightarrow> nat \<Rightarrow> serverCtxt option" where
  "sendMoveTo turn legal newTiles tradedTiles server devIndex =
     sendMessage devIndex (if amClient server then XWPROTO_MOVEMADE_INFO_CLIENT else XWPROTO_MOVEMADE_INFO_SERVER)
       (move_body turn legal newTiles tradedTiles) server"

definition sendMoveToClientsExcept ::
    "nat \<Rightarrow> bool \<Rightarrow> trayTileSet \<Rightarrow> trayTileSet option \<Rightarrow> int \<Rightarrow> serverCtxt \<Rightarrow> serverCtxt option" where
  "sendMoveToClientsExcept whoMoved legal newTiles tradedTiles skip server =
     ofold (sendMoveTo whoMoved legal newTiles tradedTiles) server (remote_devices server skip)"

definition getPlayerTime :: "nat \<Rightarrow> serverCtxt \<Rightarrow> mem_stream \<Rightarrow> (serverCtxt \<times> mem_stream) option" where
  "getPlayerTime turn server stream =
     (if timerEnabled (svGi server) then do {
        (t, stream) \<leftarrow> mem_stream_getU16 stream;
        lp \<leftarrow> mem_get turn (giPlayers (svGi server));
        Some (upd_gi (\<lambda>g. g\<lparr>giPlayers := (giPlayers g)[turn := lp\<lparr>secondsUsed := t\<rparr>]\<rparr>) server, stream)
      } else Some (server, stream))"

record moveReport =
  mrWhoMoved :: nat
  mrIsTrade :: bool
  mrNewTiles :: trayTileSet
  mrTradedTiles :: trayTileSet
  mrLegal :: bool

text \<open>The stacks of the two sides must agree: the own one is taken back to the other's hash if that
  is possible.\<close>

definition agree_on_stack :: "serverCtxt \<Rightarrow> mem_stream \<Rightarrow> (bool \<times> serverCtxt \<times> mem_stream) option" where
  "agree_on_stack server stream =
     (if STREAM_VERS_BIGBOARD \<le> mem_stream_getVersion stream then do {
        (hashReceived, stream) \<leftarrow> mem_stream_getU32 stream;
        same \<leftarrow> model_hashMatches (svModel server) hashReceived;
        if same then Some (True, server, stream)
        else do {
          (found, model, pool) \<leftarrow> model_popToHash (pfScoreText (svUtil server)) (svModel server) hashReceived (svPool server);
          Some (found, server\<lparr>svModel := model, svPool := pool\<rparr>, stream)
        }
      } else Some (True, server, stream))"

text \<open>The report, if it could be read, and whether the stacks differ.\<close>

definition readMoveInfo ::
    "serverCtxt \<Rightarrow> mem_stream \<Rightarrow> (moveReport option \<times> bool \<times> serverCtxt \<times> mem_stream) option" where
  "readMoveInfo server stream = do {
     (agreed, server, stream) \<leftarrow> agree_on_stack server stream;
     if \<not> agreed then Some (None, True, server, stream)
     else do {
       (whoMoved, stream) \<leftarrow> getNat PLAYERNUM_NBITS stream;
       (newTiles, stream) \<leftarrow> traySetFromStream stream;
       pool \<leftarrow> svPool server;
       contains \<leftarrow> pool_containsTiles pool newTiles;
       xp_assert contains;
       (isTrade, stream) \<leftarrow> getBool stream;
       (success, traded, legal, server, stream) \<leftarrow>
         (if isTrade then do {
            (traded, stream) \<leftarrow> traySetFromStream stream;
            Some (True, traded, True, server, stream)
          } else do {
            (legal, stream) \<leftarrow> getBool stream;
            (success, model, stream) \<leftarrow> model_makeTurnFromStream (svModel server) whoMoved stream;
            (server, stream) \<leftarrow> getPlayerTime whoMoved (server\<lparr>svModel := model\<rparr>) stream;
            Some (success, [], legal, server, stream)
          });
       if success then do {
         server \<leftarrow> on_pool (\<lambda>pool. pool_removeTiles pool newTiles) server;
         Some (Some \<lparr>mrWhoMoved = whoMoved, mrIsTrade = isTrade, mrNewTiles = newTiles,
                     mrTradedTiles = traded, mrLegal = legal\<rparr>, False, server, stream)
       } else Some (None, False, server, stream)
     }
   }"

definition makeTradeReportIf :: "trayTileSet \<Rightarrow> serverCtxt \<Rightarrow> mem_stream option option" where
  "makeTradeReportIf tradedTiles server =
     (if svDuplicate server \<or> showRobotScores (nv server) then do {
        s \<leftarrow> mem_stream_catString mkServerStream
              (Some (snprintf 64 (pfText (svUtil server) (STRD_ROBOT_TRADED (length tradedTiles)))));
        Some (Some s)
      } else Some None)"

text \<open>The explanation of the move of a player and the words it forms.\<close>

definition explain_move :: "nat \<Rightarrow> serverCtxt \<Rightarrow> (mem_stream option \<times> mem_stream option \<times> serverCtxt) option" where
  "explain_move turn server = do {
     (_, mc, server) \<leftarrow> check_legal turn (Some mkServerStream) True server;
     (wordsStream, _) \<leftarrow> ofold recordWord (model_initWordCounter mkServerStream) (mcCalls mc);
     Some (mcStream mc, Some wordsStream, server)
   }"

definition makeMoveReportIf :: "serverCtxt \<Rightarrow> (mem_stream option \<times> mem_stream option \<times> serverCtxt) option" where
  "makeMoveReportIf server =
     (if svDuplicate server \<or> showRobotScores (nv server) then do {
        xp_assert (currentTurn (nv server) \<ge> 0);
        explain_move (nat (currentTurn (nv server))) server
      } else Some (None, None, server))"

definition keep_reports :: "mem_stream option \<Rightarrow> mem_stream option \<Rightarrow> serverCtxt \<Rightarrow> serverCtxt option" where
  "keep_reports mvStream wordsStream server =
     (if mvStream \<noteq> None then do {
        xp_assert (prevMoveStream (nv server) = None);
        xp_assert (prevWordsStream (nv server) = None);
        Some (upd_nv (\<lambda>n. n\<lparr>prevMoveStream := mvStream, prevWordsStream := wordsStream\<rparr>) server)
      } else Some server)"

definition commit_turn :: "nat \<Rightarrow> trayTileSet \<Rightarrow> serverCtxt \<Rightarrow> (bool \<times> serverCtxt) option" where
  "commit_turn turn newTiles server =
     ask_model (\<lambda>m. model_commitTurn (pfScoreText (svUtil server)) m turn newTiles) server"

text \<open>A trade made elsewhere: the new tiles have left the pool, the old ones return to it.\<close>

definition accept_trade :: "moveReport \<Rightarrow> serverCtxt \<Rightarrow> (mem_stream option \<times> serverCtxt) option" where
  "accept_trade mr server = do {
     server \<leftarrow> on_model (\<lambda>m. model_makeTileTrade m (mrWhoMoved mr) (mrTradedTiles mr) (mrNewTiles mr)) server;
     server \<leftarrow> on_pool (\<lambda>pool. pool_replaceTiles pool (mrTradedTiles mr)) server;
     let server = server\<lparr>showPrevMove := True\<rparr>;
     mv \<leftarrow> makeTradeReportIf (mrTradedTiles mr) server;
     Some (mv, server)
   }"

text \<open>A host learns of a move or trade of a client: the others are told, it is committed here, and
  the next turn is found, unless the move was illegal or has to be confirmed first.\<close>

definition reflected_move ::
    "moveReport \<Rightarrow> int \<Rightarrow> serverCtxt \<Rightarrow>
     (bool \<times> bool \<times> nat \<times> mem_stream option \<times> mem_stream option \<times> serverCtxt) option" where
  "reflected_move mr source server =
     (if mrIsTrade mr then do {
        server \<leftarrow> sendMoveToClientsExcept (mrWhoMoved mr) True (mrNewTiles mr) (Some (mrTradedTiles mr)) source server;
        (mv, server) \<leftarrow> accept_trade mr server;
        Some (True, True, 0, mv, None, server)
      } else do {
        nTilesMoved \<leftarrow> model_getCurrentMoveCount (svModel server) (mrWhoMoved mr);
        (isLegal, server) \<leftarrow> (if nTilesMoved = 0 then Some (True, server) else checkMoveAllowed (mrWhoMoved mr) server);
        server \<leftarrow> sendMoveToClientsExcept (mrWhoMoved mr) isLegal (mrNewTiles mr) None source server;
        let server = server\<lparr>showPrevMove := True\<rparr>;
        (mv, ws, server) \<leftarrow> (if isLegal then makeMoveReportIf server else Some (None, None, server));
        (success, server) \<leftarrow> commit_turn (mrWhoMoved mr) (mrNewTiles mr) server;
        server \<leftarrow> server_resetEngines server;
        Some (success, isLegal, nTilesMoved, mv, ws, server)
      })"

definition reflectMoveAndInform :: "serverCtxt \<Rightarrow> mem_stream \<Rightarrow> (bool \<times> serverCtxt \<times> mem_stream) option" where
  "reflectMoveAndInform server stream = do {
     source \<leftarrow> getIndexForStream server stream;
     xp_assert (amServer server);
     (report, badStack, server, stream) \<leftarrow> readMoveInfo server stream;
     case report of None \<Rightarrow> Some (badStack, server, stream)
     | Some mr \<Rightarrow> do {
         xp_assert (mrLegal mr);
         (success, isLegal, nTilesMoved, mv, ws, server) \<leftarrow> reflected_move mr source server;
         server \<leftarrow>
           (if success \<and> isLegal then do {
              nTilesLeft \<leftarrow> model_getNumTilesTotal (svModel server) (mrWhoMoved mr);
              server \<leftarrow>
                (if phoniesAction (svGi server) = PHONIES_DISALLOW \<and> nTilesMoved > 0
                 then Some (emit EvRequestTime (SETSTATE XWSTATE_MOVE_CONFIRM_MUSTSEND (server\<lparr>lastMoveSource := nat (source mod 65536)\<rparr>)))
                 else if nTilesLeft > 0 then nextTurn PICK_NEXT server
                 else Some (emit EvRequestTime (SETSTATE XWSTATE_NEEDSEND_ENDGAME server)));
              keep_reports mv ws server
            } else Some (emit EvRequestTime
                     ((SETSTATE XWSTATE_NEEDSEND_BADWORD_INFO server)\<lparr>lastMoveSource := nat (source mod 65536)\<rparr>)));
         Some (success, server, stream)
       }
   }"

definition handleIllegalWord :: "serverCtxt \<Rightarrow> mem_stream \<Rightarrow> (bool \<times> serverCtxt \<times> mem_stream) option" where
  "handleIllegalWord server incoming = do {
     (_, incoming) \<leftarrow> getNat PLAYERNUM_NBITS incoming;
     (bwi, incoming) \<leftarrow> bwiFromStream incoming;
     server \<leftarrow> badWordMoveUndoAndTellUser bwi server;
     Some (True, SETSTATE XWSTATE_INTURN server, incoming)
   }"

definition reflectMove :: "serverCtxt \<Rightarrow> mem_stream \<Rightarrow> (bool \<times> serverCtxt \<times> mem_stream) option" where
  "reflectMove server stream = do {
     (report, badStack, server, stream) \<leftarrow>
       (if gameState (nv server) \<noteq> XWSTATE_INTURN \<or> currentTurn (nv server) < 0 then Some (None, False, server, stream)
        else readMoveInfo server stream);
     case report of None \<Rightarrow> Some (badStack, server, stream)
     | Some mr \<Rightarrow> do {
         (mv, ws, server) \<leftarrow>
           (if mrIsTrade mr then do { (mv, server) \<leftarrow> accept_trade mr server; Some (mv, None, server) }
            else do {
              (mv, ws, server) \<leftarrow> makeMoveReportIf (server\<lparr>showPrevMove := True\<rparr>);
              (_, server) \<leftarrow> commit_turn (mrWhoMoved mr) (mrNewTiles mr) server;
              Some (mv, ws, server)
            });
         server \<leftarrow> keep_reports mv ws server;
         server \<leftarrow> server_resetEngines server;
         if \<not> mrLegal mr then do {
           xp_assert (amClient server);
           (_, server, stream) \<leftarrow> handleIllegalWord server stream;
           Some (True, server, stream)
         } else Some (True, server, stream)
       }
   }"

text \<open>A move made here, committed: the tiles picked and drawn, the other devices told, the words
  checked by a host.\<close>

definition finishMove :: "trayTileSet \<Rightarrow> nat \<Rightarrow> serverCtxt \<Rightarrow> serverCtxt option" where
  "finishMove newTiles turn server = do {
     server \<leftarrow> on_pool (\<lambda>pool. pool_removeTiles pool newTiles) server;
     called \<leftarrow> mem_put turn False (pickTilesCalled server);
     let server = server\<lparr>pickTilesCalled := called\<rparr>;
     nTilesMoved \<leftarrow> model_getCurrentMoveCount (svModel server) turn;
     (newTiles, server) \<leftarrow> fetchTiles turn nTilesMoved None newTiles server;
     (isLegal, server) \<leftarrow>
       (if amClient server then do {
          server \<leftarrow> sendMoveTo turn True newTiles None server SERVER_DEVICE;
          Some (True, server)
        } else do {
          (isLegal, server) \<leftarrow> checkMoveAllowed turn server;
          server \<leftarrow> sendMoveToClientsExcept turn isLegal newTiles None (int SERVER_DEVICE) server;
          Some (isLegal, server)
        });
     (_, server) \<leftarrow> commit_turn turn newTiles server;
     server \<leftarrow> sortTilesIf turn server;
     server \<leftarrow> (if \<not> isLegal \<and> \<not> amClient server then do {
          server \<leftarrow> badWordMoveUndoAndTellUser (illegalWordInfo server) server;
          Some (freeBWI server)
        } else Some server);
     if amClient server \<and> phoniesAction (svGi server) = PHONIES_DISALLOW \<and> nTilesMoved > 0
     then setTurn (-1) (SETSTATE XWSTATE_MOVE_CONFIRM_WAIT server)
     else nextTurn PICK_NEXT server
   }"

definition server_commitTrade :: "serverCtxt \<Rightarrow> trayTileSet \<Rightarrow> trayTileSet option \<Rightarrow> serverCtxt option" where
  "server_commitTrade server oldTiles newTilesP = do {
     let newTiles = (case newTilesP of None \<Rightarrow> [] | Some ts \<Rightarrow> ts);
     xp_assert (currentTurn (nv server) \<ge> 0);
     let turn = nat (currentTurn (nv server));
     (newTiles, server) \<leftarrow> fetchTiles turn (length oldTiles) (Some oldTiles) newTiles server;
     server \<leftarrow> (if amClient server then sendMoveTo turn True newTiles (Some oldTiles) server SERVER_DEVICE
               else sendMoveToClientsExcept turn True newTiles (Some oldTiles) (int SERVER_DEVICE) server);
     server \<leftarrow> on_pool (\<lambda>pool. pool_replaceTiles pool oldTiles) server;
     xp_assert (int turn = currentTurn (nv server));
     server \<leftarrow> on_model (\<lambda>m. model_makeTileTrade m turn oldTiles newTiles) server;
     server \<leftarrow> sortTilesIf turn server;
     nextTurn PICK_NEXT server
   }"
section \<open>The end of the game\<close>

definition doEndGame :: "int \<Rightarrow> serverCtxt \<Rightarrow> serverCtxt option" where
  "doEndGame q server = do {
     xp_assert (q < int (giNPlayers (svGi server)));
     server \<leftarrow> setTurn (-1) (SETSTATE XWSTATE_GAMEOVER server);
     Some (emit (EvGameOver q) (upd_nv (\<lambda>n. n\<lparr>quitter := q\<rparr>) server))
   }"

definition putQuitter :: "int \<Rightarrow> serverCtxt \<Rightarrow> mem_stream \<Rightarrow> mem_stream option" where
  "putQuitter q server stream =
     (if STREAM_VERS_DICTNAME \<le> unat (nvStreamVersion (nv server)) then mem_stream_putU8 stream (of_int q) else Some stream)"

definition getQuitter :: "serverCtxt \<Rightarrow> mem_stream \<Rightarrow> (int \<times> mem_stream) option" where
  "getQuitter server stream =
     (if STREAM_VERS_DICTNAME \<le> unat (nvStreamVersion (nv server))
      then do { (q, stream) \<leftarrow> mem_stream_getU8 stream; Some (sint q, stream) } else Some (-1, stream))"

definition endGameInternal :: "int \<Rightarrow> serverCtxt \<Rightarrow> serverCtxt option" where
  "endGameInternal q server = do {
     xp_assert (gameState (nv server) \<noteq> XWSTATE_GAMEOVER);
     xp_assert (q < int (giNPlayers (svGi server)));
     if \<not> amClient server then do {
       server \<leftarrow> ofold (\<lambda>server devIndex. sendMessage devIndex XWPROTO_END_GAME (putQuitter q) server) server
                  (remote_devices server 0);
       doEndGame q server
     } else sendMessage SERVER_DEVICE XWPROTO_CLIENT_REQ_END_GAME (putQuitter q) server
   }"

definition server_endGame :: "serverCtxt \<Rightarrow> serverCtxt option" where
  "server_endGame server =
     (if state_number (gameState (nv server)) < state_number XWSTATE_GAMEOVER
         \<and> state_number (gameState (nv server)) \<ge> state_number XWSTATE_INTURN
      then endGameInternal (currentTurn (nv server)) server else Some server)"

definition tellMoveWasLegal :: "serverCtxt \<Rightarrow> serverCtxt option" where
  "tellMoveWasLegal server = do {
     server \<leftarrow> sendMessage (lastMoveSource server) XWPROTO_MOVE_CONFIRM (\<lambda>_ stream. Some stream) server;
     Some (SETSTATE XWSTATE_INTURN server)
   }"

definition handleMoveOk :: "serverCtxt \<Rightarrow> (bool \<times> serverCtxt) option" where
  "handleMoveOk server = do {
     xp_assert (amClient server);
     xp_assert (gameState (nv server) = XWSTATE_MOVE_CONFIRM_WAIT);
     server \<leftarrow> nextTurn PICK_CUR (SETSTATE XWSTATE_INTURN server);
     Some (True, server)
   }"

section \<open>Undo\<close>

definition undo_body :: "nat \<Rightarrow> nat \<Rightarrow> u32 \<Rightarrow> serverCtxt \<Rightarrow> mem_stream \<Rightarrow> mem_stream option" where
  "undo_body nMoves lastUndone newHash server stream = do {
     stream \<leftarrow> mem_stream_putU16 stream (of_nat nMoves);
     stream \<leftarrow> mem_stream_putU16 stream (of_nat lastUndone);
     mem_stream_putU32 stream newHash
   }"

definition sendUndoTo :: "nat \<Rightarrow> nat \<Rightarrow> u32 \<Rightarrow> serverCtxt \<Rightarrow> nat \<Rightarrow> serverCtxt option" where
  "sendUndoTo nMoves lastUndone newHash server devIndex =
     sendMessage devIndex (if amClient server then XWPROTO_UNDO_INFO_CLIENT else XWPROTO_UNDO_INFO_SERVER)
       (undo_body nMoves lastUndone newHash) server"

definition sendUndoToClientsExcept :: "int \<Rightarrow> nat \<Rightarrow> nat \<Rightarrow> u32 \<Rightarrow> serverCtxt \<Rightarrow> serverCtxt option" where
  "sendUndoToClientsExcept skip nMoves lastUndone newHash server =
     ofold (sendUndoTo nMoves lastUndone newHash) server (remote_devices server skip)"

text \<open>The moves undone elsewhere are undone here: by their number, or until the stack has the hash
  that is named. The results are the success, the turn and the number of the last move undone. A
  failed undo leaves the turn unset, and the assertion that follows reads it.\<close>

definition undo_reported ::
    "nat \<Rightarrow> int \<Rightarrow> u32 \<Rightarrow> serverCtxt \<Rightarrow> (bool \<times> int \<times> int \<times> serverCtxt) option" where
  "undo_reported nMoves lastUndone newHash server =
     (if newHash = 0 then do {
        (success, turn, moveNum, model, pool) \<leftarrow>
          model_undoLatestMoves (pfScoreText (svUtil server)) (svModel server) (svPool server) nMoves (Some lastUndone);
        xp_assert success;
        (next, server) \<leftarrow> ask_model model_getNextTurn (server\<lparr>svModel := model, svPool := pool\<rparr>);
        xp_assert (int turn = next);
        Some (True, int turn, int moveNum, server)
      } else do {
        (success, model, pool) \<leftarrow> model_popToHash (pfScoreText (svUtil server)) (svModel server) newHash (svPool server);
        (turn, server) \<leftarrow> ask_model model_getNextTurn (server\<lparr>svModel := model, svPool := pool\<rparr>);
        Some (success, turn, lastUndone, server)
      })"

definition reflectUndos :: "serverCtxt \<Rightarrow> mem_stream \<Rightarrow> XW_Proto \<Rightarrow> (bool \<times> serverCtxt \<times> mem_stream) option" where
  "reflectUndos server stream code = do {
     (nMoves, stream) \<leftarrow> mem_stream_getU16 stream;
     (lastUndone, stream) \<leftarrow> mem_stream_getU16 stream;
     (newHash, stream) \<leftarrow> (if 0 < mem_stream_getSize stream then mem_stream_getU32 stream else Some (0, stream));
     xp_assert (mem_stream_getSize stream = 0);
     (success, turn, lastNum, server) \<leftarrow> undo_reported (unat nMoves) (sint lastUndone) newHash server;
     if success then do {
       xp_assert (turn \<ge> 0);
       server \<leftarrow> sortTilesIf (nat turn) server;
       server \<leftarrow> (if code = XWPROTO_UNDO_INFO_CLIENT then do {
            source \<leftarrow> getIndexForStream server stream;
            sendUndoToClientsExcept source (unat nMoves) (nat (lastNum mod 65536)) newHash server
          } else Some server);
       server \<leftarrow> nextTurn turn (emit EvInformUndo server);
       Some (True, server, stream)
     } else Some (True, server, stream)
   }"

text \<open>Moves are undone one by one until one is not a robot's. The results are the count, the player
  and the number of the last one undone, as the local variables of the code have them.\<close>

partial_function (option) undo_to_human ::
    "nat \<Rightarrow> nat \<Rightarrow> nat \<Rightarrow> nat \<Rightarrow> serverCtxt \<Rightarrow> (nat \<times> nat \<times> nat \<times> serverCtxt) option" where
  "undo_to_human limit nMoves lastTurn lastUndone server = do {
     (success, turn, moveNum, model, pool) \<leftarrow>
       model_undoLatestMoves (pfScoreText (svUtil server)) (svModel server) (svPool server) 1 (Some (-1));
     let server = server\<lparr>svModel := model, svPool := pool\<rparr>;
     if \<not> success then Some (nMoves, lastTurn, lastUndone, server)
     else do {
       lp \<leftarrow> mem_get turn (giPlayers (svGi server));
       let nMoves = trunc16 (nMoves + 1);
       if \<not> LP_IS_ROBOT lp \<or> (limit \<noteq> 0 \<and> nMoves \<ge> limit) then Some (nMoves, turn, moveNum, server)
       else undo_to_human limit nMoves turn moveNum server
     }
   }"

declare undo_to_human.simps [code]

definition server_handleUndo :: "serverCtxt \<Rightarrow> nat \<Rightarrow> (bool \<times> serverCtxt) option" where
  "server_handleUndo server limit = do {
     (nMoves, lastTurnUndone, lastUndone, server) \<leftarrow> undo_to_human limit 0 0 0xFFFF server;
     if nMoves > 0 then do {
       newHash \<leftarrow> model_getHash (svModel server);
       xp_assert (lastUndone \<noteq> 0xFFFF);
       server \<leftarrow> (if amClient server then sendUndoTo nMoves lastUndone newHash server SERVER_DEVICE
                 else sendUndoToClientsExcept (int SERVER_DEVICE) nMoves lastUndone newHash server);
       server \<leftarrow> sortTilesIf lastTurnUndone server;
       server \<leftarrow> nextTurn (int lastTurnUndone) server;
       Some (True, server)
     } else Some (False, emit (EvUserError ERR_CANT_UNDO_TILEASSIGN) server)
   }"

end
