(* ===== verification/Xw_ServerDupe.thy ===== *)
theory Xw_ServerDupe
  imports Xw_ServerTurn
begin

text \<open>
  Duplicate mode of \<open>server.c\<close>: every player submits a move with the same tiles, the best one is
  committed for all; the clock that forces moves, and its pauses. The commit of a move of either
  mode is here, too, because it leads to both.
\<close>

section \<open>Pauses\<close>

text \<open>Kinds of pauses (\<open>DupPauseType\<close>).\<close>

definition UNPAUSED :: nat where "UNPAUSED = 0"
definition PAUSED :: nat where "PAUSED = 1"

datatype DUPE_STUFF =
    DUPE_STUFF_TRADES_SERVER | DUPE_STUFF_MOVES_SERVER | DUPE_STUFF_MOVE_CLIENT | DUPE_STUFF_PAUSE

fun dupe_stuff_number :: "DUPE_STUFF \<Rightarrow> nat" where
  "dupe_stuff_number DUPE_STUFF_TRADES_SERVER = 0"
| "dupe_stuff_number DUPE_STUFF_MOVES_SERVER = 1"
| "dupe_stuff_number DUPE_STUFF_MOVE_CLIENT = 2"
| "dupe_stuff_number DUPE_STUFF_PAUSE = 3"

definition addDupeStuffMark :: "DUPE_STUFF \<Rightarrow> mem_stream \<Rightarrow> mem_stream option" where
  "addDupeStuffMark typ stream = putNat 3 (dupe_stuff_number typ) stream"

text \<open>Numbers beyond the enumeration fire an assertion where they are used.\<close>

definition getDupeStuffMark :: "mem_stream \<Rightarrow> (DUPE_STUFF option \<times> mem_stream) option" where
  "getDupeStuffMark stream = do {
     (n, stream) \<leftarrow> getNat 3 stream;
     Some (find (\<lambda>typ. dupe_stuff_number typ = n)
             [DUPE_STUFF_TRADES_SERVER, DUPE_STUFF_MOVES_SERVER, DUPE_STUFF_MOVE_CLIENT, DUPE_STUFF_PAUSE], stream)
   }"

text \<open>The bytes of a stream that nothing was read from, sent as a message.\<close>

definition sendStreamToDev :: "XW_Proto \<Rightarrow> mem_stream \<Rightarrow> serverCtxt \<Rightarrow> nat \<Rightarrow> serverCtxt option" where
  "sendStreamToDev code data server dev =
     sendMessage dev code (\<lambda>_ stream. do {
         bytes \<leftarrow> mem_read 0 (mem_stream_getSize data) (sbuf data);
         mem_stream_putBytes stream bytes
       }) server"

definition dupe_transmitPause :: "nat \<Rightarrow> int \<Rightarrow> cstring \<Rightarrow> int \<Rightarrow> serverCtxt \<Rightarrow> serverCtxt option" where
  "dupe_transmitPause typ turn msg skipDev server =
     (if serverRole (svGi server) \<noteq> SERVER_STANDALONE then do {
        s \<leftarrow> addDupeStuffMark DUPE_STUFF_PAUSE mem_stream_make_raw;
        s \<leftarrow> putBool s (amClient server);
        s \<leftarrow> putNat 2 typ s;
        s \<leftarrow> (if typ \<noteq> AUTOPAUSED then mem_stream_putBits s PLAYERNUM_NBITS (of_int turn) else Some s);
        s \<leftarrow> mem_stream_putU32 s (dupTimerExpires (nv server));
        s \<leftarrow> (if typ \<noteq> AUTOPAUSED then stringToStream s msg else Some s);
        if amClient server then sendStreamToDev XWPROTO_DUPE_STUFF s server SERVER_DEVICE
        else ofold (sendStreamToDev XWPROTO_DUPE_STUFF s) server (remote_devices server skipDev)
      } else Some server)"

definition note_pause :: "nat \<Rightarrow> int \<Rightarrow> cstring \<Rightarrow> serverCtxt \<Rightarrow> serverCtxt option" where
  "note_pause typ turn msg server = (case getCurSeconds server of (now, server) \<Rightarrow>
     on_model (\<lambda>m. model_noteDupePause m typ turn now msg) server)"

definition server_pause :: "serverCtxt \<Rightarrow> int \<Rightarrow> cstring \<Rightarrow> serverCtxt option" where
  "server_pause server turn msg = do {
     server \<leftarrow> pauseImpl server;
     server \<leftarrow> dupe_transmitPause PAUSED turn msg (-1) server;
     note_pause PAUSED turn msg server
   }"

definition dupe_autoPause :: "serverCtxt \<Rightarrow> serverCtxt option" where
  "dupe_autoPause server = do {
     server \<leftarrow> dupe_resetTimer server;
     server \<leftarrow> dupe_clearState server;
     server \<leftarrow> pauseImpl server;
     server \<leftarrow> dupe_transmitPause AUTOPAUSED 0 None (-1) server;
     note_pause AUTOPAUSED (-1) None server
   }"

definition server_unpause :: "serverCtxt \<Rightarrow> int \<Rightarrow> cstring \<Rightarrow> serverCtxt option" where
  "server_unpause server turn msg = do {
     xp_assert (server_canUnpause server);
     let (now, server) = getCurSeconds server;
     let server = setDupTimerExpires (now - dupTimerExpires (nv server)) server;
     xp_assert (server_canPause server);
     server \<leftarrow> dupe_transmitPause UNPAUSED turn msg (-1) server;
     note_pause UNPAUSED turn msg server
   }"

definition dupe_receivePause :: "serverCtxt \<Rightarrow> mem_stream \<Rightarrow> (bool \<times> serverCtxt \<times> mem_stream) option" where
  "dupe_receivePause server stream = do {
     (isClient, stream) \<leftarrow> getBool stream;
     if isClient = amServer server then do {
       (typ, stream) \<leftarrow> getNat 2 stream;
       (turn, server, stream) \<leftarrow>
         (if typ \<noteq> AUTOPAUSED then do { (t, stream) \<leftarrow> getNat PLAYERNUM_NBITS stream; Some (int t, server, stream) }
          else do { server \<leftarrow> dupe_clearState server; Some (-1, server, stream) });
       (expires, stream) \<leftarrow> mem_stream_getU32 stream;
       let server = setDupTimerExpires expires server;
       (msg, stream) \<leftarrow> (if typ \<noteq> AUTOPAUSED then p_stringFromStream stream else Some (None, stream));
       server \<leftarrow> (if amServer server then do {
            sender \<leftarrow> getIndexForStream server stream;
            dupe_transmitPause typ turn msg sender server
          } else Some server);
       server \<leftarrow> note_pause typ turn msg server;
       let server = callTurnChangeListener server;
       name \<leftarrow> (if typ \<noteq> AUTOPAUSED then do { lp \<leftarrow> mem_get (nat turn) (giPlayers (svGi server)); Some (lpName lp) }
               else Some None);
       Some (True, emit (EvNotifyPause (gameID (svGi server)) typ turn name msg) server, stream)
     } else Some (False, server, stream)
   }"

section \<open>What is shown\<close>

definition keep_shown :: "mem_stream \<Rightarrow> serverCtxt \<Rightarrow> serverCtxt" where
  "keep_shown stream server = (upd_nv (\<lambda>n. n\<lparr>prevMoveStream := Some stream\<rparr>) server)\<lparr>showPrevMove := True\<rparr>"

definition dupe_setupShowTrade :: "nat \<Rightarrow> serverCtxt \<Rightarrow> serverCtxt option" where
  "dupe_setupShowTrade nTiles server = do {
     xp_assert (svDuplicate server);
     xp_assert (prevMoveStream (nv server) = None);
     stream \<leftarrow> mem_stream_catString mkServerStream
                (Some (snprintf 128 (pfText (svUtil server) (STRD_DUP_TRADED nTiles))));
     Some (keep_shown stream server)
   }"

definition this_max :: "nat list \<Rightarrow> nat \<Rightarrow> nat" where
  "this_max scores lastMax = foldl (\<lambda>m s. if s < lastMax \<and> s > m then s else m) 0 scores"

definition show_equal :: "(nat \<Rightarrow> u8 list) \<Rightarrow> nat list \<Rightarrow> nat \<Rightarrow> mem_stream \<Rightarrow> mem_stream option" where
  "show_equal line scores m stream =
     ofold (\<lambda>stream ii. mem_stream_catString stream (Some (snprintf 128 (line ii)))) stream
       (filter (\<lambda>ii. scores ! ii = m) [0..<length scores])"

text \<open>The scores from the largest down, players with the same score in their order. The loop goes on
  until every player has been shown.\<close>

partial_function (option) show_scores ::
    "(nat \<Rightarrow> u8 list) \<Rightarrow> nat list \<Rightarrow> nat \<Rightarrow> nat \<Rightarrow> mem_stream \<Rightarrow> mem_stream option" where
  "show_scores line scores lastMax nDone stream =
     (if nDone < length scores then do {
        let thisMax = this_max scores lastMax;
        stream \<leftarrow> show_equal line scores thisMax stream;
        show_scores line scores thisMax (nDone + count_list scores thisMax) stream
      } else Some stream)"

declare show_scores.simps [code]

definition dupe_setupShowMove :: "u16 list \<Rightarrow> serverCtxt \<Rightarrow> serverCtxt option" where
  "dupe_setupShowMove scores server = do {
     xp_assert (svDuplicate server);
     xp_assert (prevMoveStream (nv server) = None);
     lps \<leftarrow> mem_read 0 (giNPlayers (svGi server)) (giPlayers (svGi server));
     ss \<leftarrow> mem_read 0 (giNPlayers (svGi server)) scores;
     stream \<leftarrow> show_scores (\<lambda>ii. pfText (svUtil server) (STRSD_DUP_ONESCORE (lpName (lps ! ii)) (unat (ss ! ii))))
       (map unat ss) 0x7FFF 0 mkServerStream;
     Some (keep_shown stream server)
   }"

section \<open>The moves of a turn\<close>

definition updateOthersTiles :: "serverCtxt \<Rightarrow> serverCtxt option" where
  "updateOthersTiles server = do {
     server \<leftarrow> sortTilesIf DUP_PLAYER server;
     on_model model_cloneDupeTrays server
   }"

text \<open>Best moves so far: score, number of tiles, player; the last of them is compared. The score is an
  \<open>XP_S16\<close>, what is kept of it an \<open>XP_U16\<close>; they are compared as \<open>int\<close>.\<close>

definition consider_winner ::
    "int \<Rightarrow> nat \<Rightarrow> nat \<Rightarrow> (nat \<times> nat \<times> nat) list \<Rightarrow> (nat \<times> nat \<times> nat) list" where
  "consider_winner score nTiles pl winners =
     (let best = (nat (score mod 65536), nTiles, pl)
      in if winners = [] then [best]
      else (case last winners of (s, n, _) \<Rightarrow>
        (if score > int s then [best]
         else if score < int s then winners
         else if nTiles > n then [best]
         else if nTiles < n then winners
         else winners @ [best])))"

definition choose_step ::
    "serverCtxt \<times> u16 list \<times> (nat \<times> nat \<times> nat) list \<Rightarrow> nat \<Rightarrow> (serverCtxt \<times> u16 list \<times> (nat \<times> nat \<times> nat) list) option" where
  "choose_step = (\<lambda>(server, scores, winners) pl. do {
     ((legal, score), server) \<leftarrow> ask_model (\<lambda>m. do {
         (legal, score, _, _, m) \<leftarrow> getCurrentMoveScoreIfLegal (pfScoreText (svUtil server)) m pl None False;
         Some ((legal, score), m)
       }) server;
     let score = (if legal then score else 0);
     nTiles \<leftarrow> (if score = 0 then Some 0 else model_getCurrentMoveCount (svModel server) pl);
     let winners = consider_winner score nTiles pl winners;
     xp_assert (length winners \<le> MAX_NUM_PLAYERS);
     Some (server, scores @ [of_int score], winners)
   })"

definition dupe_chooseMove :: "serverCtxt \<Rightarrow> (u16 list \<times> nat \<times> nat \<times> serverCtxt) option" where
  "dupe_chooseMove server = do {
     (server, scores, winners) \<leftarrow> ofold choose_step (server, [], []) [0..<giNPlayers (svGi server)];
     xp_assert (winners \<noteq> []);
     let (ix, server) = (if length winners = 1 then (0, server)
                         else (case xp_random server of (r, server) \<Rightarrow> (r mod length winners, server)));
     let (_, nTiles, winner) = winners ! ix;
     Some (scores, winner, nTiles, server)
   }"

definition dupe_allForced :: "serverCtxt \<Rightarrow> bool option" where
  "dupe_allForced server = do {
     forced \<leftarrow> mem_read 0 (giNPlayers (svGi server)) (dupTurnsForced (nv server));
     Some (list_all (\<lambda>f. f) forced)
   }"

text \<open>Nobody can move: the tiles are traded, for everybody.\<close>

definition dupe_makeAndReportTrade :: "serverCtxt \<Rightarrow> serverCtxt option" where
  "dupe_makeAndReportTrade server = do {
     server \<leftarrow> on_model (\<lambda>m. model_resetCurrentTurn m DUP_PLAYER) server;
     oldTiles \<leftarrow> model_getPlayerTiles (svModel server) DUP_PLAYER;
     server \<leftarrow> on_model (\<lambda>m. model_removePlayerTiles m DUP_PLAYER oldTiles) server;
     server \<leftarrow> on_pool (\<lambda>pool. pool_replaceTiles pool oldTiles) server;
     (newTiles, server) \<leftarrow> fetchTiles DUP_PLAYER (length oldTiles) None [] server;
     server \<leftarrow> on_model (\<lambda>m. model_commitDupeTrade m oldTiles newTiles) server;
     server \<leftarrow> on_model (\<lambda>m. model_addNewTiles m DUP_PLAYER newTiles) server;
     server \<leftarrow> updateOthersTiles server;
     server \<leftarrow> (if amServer server then do {
          s \<leftarrow> addDupeStuffMark DUPE_STUFF_TRADES_SERVER mem_stream_make_raw;
          s \<leftarrow> traySetToStream s oldTiles;
          s \<leftarrow> traySetToStream s newTiles;
          ofold (sendStreamToDev XWPROTO_DUPE_STUFF s) server (remote_devices server 0)
        } else Some server);
     server \<leftarrow> dupe_resetTimer server;
     dupe_setupShowTrade (length newTiles) server
   }"

definition dupe_commitAndReportMove :: "nat \<Rightarrow> u16 list \<Rightarrow> nat \<Rightarrow> serverCtxt \<Rightarrow> serverCtxt option" where
  "dupe_commitAndReportMove winner scores nTiles server = do {
     mi \<leftarrow> model_currentMoveToMoveInfo (svModel server) winner;
     (newTiles, server) \<leftarrow> fetchTiles winner nTiles None [] server;
     server \<leftarrow> ofold (\<lambda>server pl. on_model (\<lambda>m. model_resetCurrentTurn m pl) server) server [0..<length scores];
     server \<leftarrow> on_model (\<lambda>m. model_commitDupeTurn (pfScoreText (svUtil server)) m mi scores newTiles) server;
     server \<leftarrow> updateOthersTiles server;
     server \<leftarrow> (if amServer server then do {
          s \<leftarrow> addDupeStuffMark DUPE_STUFF_MOVES_SERVER mem_stream_make_raw;
          (bits, server) \<leftarrow> bitsPerTile server;
          s \<leftarrow> moveInfoToStream s mi bits;
          s \<leftarrow> traySetToStream s newTiles;
          s \<leftarrow> putNat NPLAYERS_NBITS (length scores) s;
          s \<leftarrow> scoresToStream s scores;
          ofold (sendStreamToDev XWPROTO_DUPE_STUFF s) server (remote_devices server 0)
        } else Some server);
     server \<leftarrow> dupe_resetTimer server;
     dupe_setupShowMove scores server
   }"

text \<open>All moves of a turn are present: the best one is committed; if nobody scores while tiles are
  left, the tiles are traded, or the game is paused when the clock forced every player.\<close>

definition dupe_commitAndReport :: "serverCtxt \<Rightarrow> serverCtxt option" where
  "dupe_commitAndReport server = do {
     (scores, winner, nTiles, server) \<leftarrow> dupe_chooseMove server;
     score \<leftarrow> mem_get winner scores;
     tilesLeft \<leftarrow> (if score = 0 then do { pool \<leftarrow> svPool server; Some (0 < pool_getNTilesLeft pool) } else Some False);
     server \<leftarrow> (if tilesLeft then do {
          allForced \<leftarrow> (if server_canPause server then dupe_allForced server else Some False);
          if allForced then dupe_autoPause server else dupe_makeAndReportTrade server
        } else dupe_commitAndReportMove winner scores nTiles server);
     dupe_clearState server
   }"

definition dupe_checkWhatsDone :: "serverCtxt \<Rightarrow> bool \<Rightarrow> (bool \<times> bool) option" where
  "dupe_checkWhatsDone server host = do {
     lps \<leftarrow> mem_read 0 (giNPlayers (svGi server)) (giPlayers (svGi server));
     made \<leftarrow> mem_read 0 (giNPlayers (svGi server)) (dupTurnsMade (nv server));
     Some (list_all (\<lambda>(lp, done). host \<or> isLocal lp \<longrightarrow> done) (zip lps made),
           list_all (\<lambda>(lp, done). isLocal lp \<longrightarrow> done) (zip lps made))
   }"

definition client_move_body :: "serverCtxt \<Rightarrow> mem_stream \<Rightarrow> mem_stream option" where
  "client_move_body server stream = do {
     stream \<leftarrow> addDupeStuffMark DUPE_STUFF_MOVE_CLIENT stream;
     n \<leftarrow> gi_countLocalPlayers (svGi server) False;
     stream \<leftarrow> putNat NPLAYERS_NBITS n stream;
     ofold (\<lambda>stream ii. do {
         lp \<leftarrow> mem_get ii (giPlayers (svGi server));
         if isLocal lp then do {
           stream \<leftarrow> putNat PLAYERNUM_NBITS ii stream;
           forced \<leftarrow> mem_get ii (dupTurnsForced (nv server));
           stream \<leftarrow> putBool stream forced;
           model_currentMoveToStream (svModel server) ii stream
         } else Some stream
       }) stream [0..<giNPlayers (svGi server)]
   }"

definition dupe_checkTurns :: "serverCtxt \<Rightarrow> (bool \<times> serverCtxt) option" where
  "dupe_checkTurns server = do {
     let host = (amServer server \<or> serverRole (svGi server) = SERVER_STANDALONE);
     (allDone, _) \<leftarrow> dupe_checkWhatsDone server host;
     server \<leftarrow>
       (if allDone then
          (if host then dupe_commitAndReport server
           else if \<not> dupTurnsSent (nv server) then do {
             server \<leftarrow> sendMessage SERVER_DEVICE XWPROTO_DUPE_STUFF client_move_body server;
             Some (upd_nv (\<lambda>n. n\<lparr>dupTurnsSent := True\<rparr>) server)
           } else Some server)
        else Some server);
     Some (allDone, server)
   }"

definition dupe_postStatus :: "bool \<Rightarrow> serverCtxt \<Rightarrow> serverCtxt option" where
  "dupe_postStatus allDone server = do {
     made \<leftarrow> (if amServer server \<and> \<not> allDone then mem_read 0 (giNPlayers (svGi server)) (dupTurnsMade (nv server)) else Some []);
     let buf = (if amClient server \<and> allDone then snprintf 256 (pfText (svUtil server) STR_DUP_CLIENT_SENT)
                else if amServer server \<and> \<not> allDone
                then snprintf 256 (pfText (svUtil server)
                       (STRDD_DUP_HOST_RECEIVED (length (filter (\<lambda>m. m) made)) (giNPlayers (svGi server))))
                else []);
     Some (if buf \<noteq> [] then emit (EvNotifyDupStatus (amServer server) buf) server else server)
   }"

definition dupe_storeTurn :: "nat \<Rightarrow> bool \<Rightarrow> serverCtxt \<Rightarrow> serverCtxt option" where
  "dupe_storeTurn turn forced server = do {
     m \<leftarrow> mem_get turn (dupTurnsMade (nv server));
     xp_assert (\<not> m);
     lp \<leftarrow> mem_get turn (giPlayers (svGi server));
     xp_assert (isLocal lp);
     fs \<leftarrow> mem_put turn forced (dupTurnsForced (nv server));
     let server = upd_nv (\<lambda>n. n\<lparr>dupTurnsMade := (dupTurnsMade n)[turn := True], dupTurnsForced := fs\<rparr>) server;
     (allDone, server) \<leftarrow> dupe_checkTurns server;
     server \<leftarrow> dupe_postStatus allDone server;
     nextTurn PICK_NEXT server
   }"

section \<open>The commit of a move\<close>

definition commitMoveImpl ::
    "serverCtxt \<Rightarrow> nat \<Rightarrow> trayTileSet option \<Rightarrow> bool \<Rightarrow> (bool \<times> serverCtxt) option" where
  "commitMoveImpl server pl newTilesP forced = do {
     xp_assert (currentTurn (nv server) = int pl \<or> svDuplicate server);
     let newTiles = (case newTilesP of None \<Rightarrow> [] | Some ts \<Rightarrow> ts);
     lp \<leftarrow> mem_get pl (giPlayers (svGi server));
     (if LP_IS_ROBOT lp then do {
        (legal, _) \<leftarrow> model_checkMoveLegal (pfScoreText (svUtil server)) (svModel server) pl None False;
        xp_assert legal
      } else Some ());
     server \<leftarrow> (if svDuplicate server then dupe_storeTurn pl forced server else finishMove newTiles pl server);
     Some (True, server)
   }"

definition server_commitMove :: "serverCtxt \<Rightarrow> nat \<Rightarrow> trayTileSet option \<Rightarrow> (bool \<times> serverCtxt) option" where
  "server_commitMove server pl newTilesP = commitMoveImpl server pl newTilesP False"

text \<open>The clock has run out: local players who have not moved move now.\<close>

definition force_player :: "serverCtxt \<Rightarrow> nat \<Rightarrow> serverCtxt option" where
  "force_player server ii = do {
     lp \<leftarrow> mem_get ii (giPlayers (svGi server));
     m \<leftarrow> (if isLocal lp then mem_get ii (dupTurnsMade (nv server)) else Some True);
     if isLocal lp \<and> \<not> m then do {
       (legal, _, server) \<leftarrow> check_legal ii None False server;
       server \<leftarrow> (if \<not> legal then on_model (\<lambda>m. model_resetCurrentTurn m ii) server else Some server);
       (_, server) \<leftarrow> commitMoveImpl server ii None True;
       Some server
     } else Some server
   }"

definition dupe_forceCommits :: "serverCtxt \<Rightarrow> serverCtxt option" where
  "dupe_forceCommits server =
     (if server_canPause server then
        (case getCurSeconds server of (now, server) \<Rightarrow>
          (if dupTimerExpires (nv server) \<le> now then ofold force_player server [0..<giNPlayers (svGi server)]
           else Some server))
      else Some server)"

section \<open>Messages of duplicate mode\<close>

text \<open>The moves of a client's players. The loop ends when one cannot be made, which fires the
  assertion first.\<close>

definition client_move :: "serverCtxt \<times> mem_stream \<Rightarrow> nat \<Rightarrow> (serverCtxt \<times> mem_stream) option" where
  "client_move = (\<lambda>(server, stream) ii. do {
     (turn, stream) \<leftarrow> getNat PLAYERNUM_NBITS stream;
     (forced, stream) \<leftarrow> getBool stream;
     server \<leftarrow> on_model (\<lambda>m. model_resetCurrentTurn m turn) server;
     (success, model, stream) \<leftarrow> model_makeTurnFromStream (svModel server) turn stream;
     xp_assert success;
     let server = server\<lparr>svModel := model\<rparr>;
     m \<leftarrow> mem_get turn (dupTurnsMade (nv server));
     xp_assert (\<not> m);
     lp \<leftarrow> mem_get turn (giPlayers (svGi server));
     xp_assert (\<not> isLocal lp);
     fs \<leftarrow> mem_put turn forced (dupTurnsForced (nv server));
     Some (upd_nv (\<lambda>n. n\<lparr>dupTurnsMade := (dupTurnsMade n)[turn := True], dupTurnsForced := fs\<rparr>) server, stream)
   })"

definition dupe_handleClientMoves :: "serverCtxt \<Rightarrow> mem_stream \<Rightarrow> (bool \<times> serverCtxt \<times> mem_stream) option" where
  "dupe_handleClientMoves server stream = do {
     (movesInMsg, stream) \<leftarrow> getNat NPLAYERS_NBITS stream;
     (server, stream) \<leftarrow> ofold client_move (server, stream) [0..<movesInMsg];
     (_, server) \<leftarrow> dupe_checkTurns server;
     server \<leftarrow> nextTurn PICK_NEXT server;
     Some (True, server, stream)
   }"

definition dupe_handleServerMoves :: "serverCtxt \<Rightarrow> mem_stream \<Rightarrow> (bool \<times> serverCtxt \<times> mem_stream) option" where
  "dupe_handleServerMoves server stream = do {
     (bits, server) \<leftarrow> bitsPerTile server;
     (mi, stream) \<leftarrow> moveInfoFromStream stream bits;
     (newTiles, stream) \<leftarrow> traySetFromStream stream;
     xp_assert (length newTiles \<le> length (mtiles mi));
     pool \<leftarrow> svPool server;
     contains \<leftarrow> pool_containsTiles pool newTiles;
     xp_assert contains;
     (nScores, stream) \<leftarrow> getNat NPLAYERS_NBITS stream;
     xp_assert (nScores \<le> MAX_NUM_PLAYERS);
     (scores, stream) \<leftarrow> scoresFromStream stream nScores;
     server \<leftarrow> dupe_resetTimer server;
     server \<leftarrow> on_pool (\<lambda>pool. pool_removeTiles pool newTiles) server;
     server \<leftarrow> on_model (\<lambda>m. model_commitDupeTurn (pfScoreText (svUtil server)) m mi scores newTiles) server;
     server \<leftarrow> updateOthersTiles server;
     server \<leftarrow> dupe_setupShowMove scores server;
     server \<leftarrow> dupe_clearState server;
     server \<leftarrow> nextTurn PICK_NEXT server;
     Some (True, server, stream)
   }"

definition dupe_handleServerTrade :: "serverCtxt \<Rightarrow> mem_stream \<Rightarrow> (bool \<times> serverCtxt \<times> mem_stream) option" where
  "dupe_handleServerTrade server stream = do {
     (oldTiles, stream) \<leftarrow> traySetFromStream stream;
     (newTiles, stream) \<leftarrow> traySetFromStream stream;
     server \<leftarrow> on_model (\<lambda>m. model_resetCurrentTurn m DUP_PLAYER) server;
     server \<leftarrow> on_model (\<lambda>m. model_removePlayerTiles m DUP_PLAYER oldTiles) server;
     server \<leftarrow> on_pool (\<lambda>pool. pool_replaceTiles pool oldTiles) server;
     server \<leftarrow> on_pool (\<lambda>pool. pool_removeTiles pool newTiles) server;
     server \<leftarrow> on_model (\<lambda>m. model_commitDupeTrade m oldTiles newTiles) server;
     server \<leftarrow> on_model (\<lambda>m. model_addNewTiles m DUP_PLAYER newTiles) server;
     server \<leftarrow> updateOthersTiles server;
     server \<leftarrow> dupe_resetTimer server;
     server \<leftarrow> dupe_setupShowTrade (length newTiles) server;
     server \<leftarrow> dupe_clearState server;
     server \<leftarrow> nextTurn PICK_NEXT server;
     Some (True, server, stream)
   }"

definition dupe_handleStuff :: "serverCtxt \<Rightarrow> mem_stream \<Rightarrow> (bool \<times> serverCtxt \<times> mem_stream) option" where
  "dupe_handleStuff server stream = do {
     (typ, stream) \<leftarrow> getDupeStuffMark stream;
     case typ of
       None \<Rightarrow> None
     | Some DUPE_STUFF_MOVE_CLIENT \<Rightarrow>
         (if amServer server then dupe_handleClientMoves server stream else Some (False, server, stream))
     | Some DUPE_STUFF_MOVES_SERVER \<Rightarrow>
         (if \<not> amServer server then dupe_handleServerMoves server stream else Some (False, server, stream))
     | Some DUPE_STUFF_TRADES_SERVER \<Rightarrow>
         (if \<not> amServer server then dupe_handleServerTrade server stream else Some (False, server, stream))
     | Some DUPE_STUFF_PAUSE \<Rightarrow> dupe_receivePause server stream
   }"

end
