(* ===== verification/Xw_ServerNet.thy ===== *)
theory Xw_ServerNet
  imports Xw_ServerDupe
begin

text \<open>
  The conversation of host and clients in \<open>server.c\<close>: registration, the first message of the host,
  chat, the robots, the step the platform lets the server do (\<open>server_do\<close>) and the messages it
  receives (\<open>server_receiveMessage\<close>).
\<close>

section \<open>Registration\<close>

definition NAME_LEN_NBITS :: nat where "NAME_LEN_NBITS = 6"
definition MAX_NAME_LEN :: nat where "MAX_NAME_LEN = 2 ^ (NAME_LEN_NBITS - 1) - 1"

text \<open>A local player in the registration message. The length of the name is an \<open>XP_U8\<close>.\<close>

definition put_local_player :: "mem_stream \<Rightarrow> localPlayer \<Rightarrow> mem_stream option" where
  "put_local_player stream lp =
     (if \<not> isLocal lp then Some stream else do {
        stream \<leftarrow> putBool stream (LP_IS_ROBOT lp);
        let name = emptyStringIfNull (lpName lp);
        let len = min (length name mod 256) MAX_NAME_LEN;
        stream \<leftarrow> putNat NAME_LEN_NBITS len stream;
        mem_stream_putBytes stream (take len name)
      })"

definition server_initClientConnection :: "serverCtxt \<Rightarrow> mem_stream \<Rightarrow> (bool \<times> serverCtxt) option" where
  "server_initClientConnection server stream = do {
     xp_assert (amClient server);
     let result = (gameState (nv server) = XWSTATE_NONE);
     stream \<leftarrow> (if result then do {
          stream \<leftarrow> writeProto server (mem_stream_open stream) XWPROTO_DEVICE_REGISTRATION;
          xp_assert (giNPlayers (svGi server) > 0);
          localPlayers \<leftarrow> gi_countLocalPlayers (svGi server) False;
          xp_assert (0 < localPlayers);
          stream \<leftarrow> putNat NPLAYERS_NBITS localPlayers stream;
          lps \<leftarrow> mem_read 0 (giNPlayers (svGi server)) (giPlayers (svGi server));
          stream \<leftarrow> ofold put_local_player stream lps;
          mem_stream_putU8 stream (of_nat CUR_STREAM_VERS)
        } else Some stream);
     server \<leftarrow> sendStream stream server;
     Some (result, server)
   }"

definition setStreamVersion :: "serverCtxt \<Rightarrow> serverCtxt option" where
  "setStreamVersion server = do {
     addrs \<leftarrow> mem_read 0 (nDevices (nv server)) (addresses (nv server));
     let version = foldl (\<lambda>v addr. if raStreamVersion addr < v then raStreamVersion addr else v)
                     (of_nat CUR_STREAM_VERS) (drop 1 addrs);
     Some (upd_nv (\<lambda>n. n\<lparr>nvStreamVersion := version\<rparr>) server)
   }"

definition checkResizeBoard :: "serverCtxt \<Rightarrow> serverCtxt option" where
  "checkResizeBoard server =
     (if STREAM_VERS_BIGBOARD > unat (nvStreamVersion (nv server)) \<and> boardSize (svGi server) > 15
      then on_model (\<lambda>m. model_setSize m (Some (mstack m)) 15) (upd_gi (\<lambda>g. g\<lparr>boardSize := 15\<rparr>) server)
      else Some server)"

text \<open>From the last player down, the remote one that \<open>nPending\<close> counts to.\<close>

fun find_pending :: "localPlayer list \<Rightarrow> nat \<Rightarrow> nat \<Rightarrow> nat option" where
  "find_pending lps nPend 0 = None"
| "find_pending lps nPend (Suc n) =
     (if \<not> isLocal (lps ! n) then
        (if nPend = 1 then Some n else find_pending lps (sub16 nPend 1) n)
      else find_pending lps nPend n)"

definition findFirstPending :: "serverCtxt \<Rightarrow> nat option option" where
  "findFirstPending server = do {
     xp_assert (giNPlayers (svGi server) > 0);
     lps \<leftarrow> mem_read 0 (giNPlayers (svGi server)) (giPlayers (svGi server));
     Some (find_pending lps (pendingRegistrations (nv server)) (giNPlayers (svGi server)))
   }"

text \<open>The name is read as a C string.\<close>

definition take_player :: "serverCtxt \<Rightarrow> mem_stream \<Rightarrow> nat \<Rightarrow> (serverCtxt \<times> mem_stream) option" where
  "take_player server stream ii = do {
     (robot, stream) \<leftarrow> getBool stream;
     (nameLen, stream) \<leftarrow> getNat NAME_LEN_NBITS stream;
     (name, stream) \<leftarrow> mem_stream_getBytes stream nameLen;
     lp \<leftarrow> mem_get ii (giPlayers (svGi server));
     let lp = lp\<lparr>robotIQ := (if robot then 1 else 0),
                 lpName := p_replaceStringIfDifferent (lpName lp) (Some (takeWhile (\<lambda>b. b \<noteq> 0) name))\<rparr>;
     Some (upd_gi (\<lambda>g. g\<lparr>giPlayers := (giPlayers g)[ii := lp]\<rparr>) server, stream)
   }"

definition add_device :: "u16 \<Rightarrow> serverCtxt \<Rightarrow> (int \<times> serverCtxt) option" where
  "add_device chan server = do {
     let d = nDevices (nv server);
     xp_assert (chan \<noteq> 0);
     addrs \<leftarrow> mem_put d \<lparr>raChannelNo = chan, raStreamVersion = of_nat STREAM_SAVE_PREVWORDS\<rparr> (addresses (nv server));
     Some (int d, upd_nv (\<lambda>n. n\<lparr>addresses := addrs, nDevices := (d + 1) mod 256\<rparr>) server)
   }"

definition registerRemotePlayer :: "serverCtxt \<Rightarrow> mem_stream \<Rightarrow> (int \<times> serverCtxt \<times> mem_stream) option" where
  "registerRemotePlayer server stream = do {
     xp_assert (pendingRegistrations (nv server) > 0);
     slot \<leftarrow> findFirstPending server;
     case slot of None \<Rightarrow> Some (-1, server, stream)
     | Some ii \<Rightarrow> do {
         (server, stream) \<leftarrow> take_player server stream ii;
         let chan = mem_stream_getAddress stream;
         d \<leftarrow> getIndexForDevice server chan;
         let server = upd_nv (\<lambda>n. n\<lparr>pendingRegistrations := pendingRegistrations n - 1\<rparr>) server;
         (d, server) \<leftarrow> (if d = -1 then add_device chan server else Some (d, server));
         player \<leftarrow> mem_get ii (svPlayers server);
         Some (d, server\<lparr>svPlayers := (svPlayers server)[ii := player\<lparr>deviceIndex := d\<rparr>]\<rparr>, stream)
       }
   }"

text \<open>The players of one message. The index of the device of the one before must be the same; the
  result is whether all were registered, with the last index.\<close>

fun register_players ::
    "nat \<Rightarrow> int option \<Rightarrow> serverCtxt \<Rightarrow> mem_stream \<Rightarrow> (bool \<times> int \<times> serverCtxt \<times> mem_stream) option" where
  "register_players 0 prev server stream = Some (True, (case prev of None \<Rightarrow> 0 | Some d \<Rightarrow> d), server, stream)"
| "register_players (Suc n) prev server stream = do {
     (d, server, stream) \<leftarrow> registerRemotePlayer server stream;
     if d = -1 then Some (False, d, server, stream)
     else do {
       let server = callTurnChangeListener server;
       xp_assert (prev = None \<or> prev = Some d);
       register_players n (Some d) server stream
     }
   }"

definition device_version :: "int \<Rightarrow> serverCtxt \<Rightarrow> mem_stream \<Rightarrow> (serverCtxt \<times> mem_stream) option" where
  "device_version d server stream =
     (if 0 < mem_stream_getSize stream then do {
        (version, stream) \<leftarrow> mem_stream_getU8 stream;
        if unat version \<ge> STREAM_VERS_BIGBOARD then do {
          addr \<leftarrow> mem_get (nat d) (addresses (nv server));
          Some (upd_nv (\<lambda>n. n\<lparr>addresses := (addresses n)[nat d := addr\<lparr>raStreamVersion := version\<rparr>]\<rparr>) server, stream)
        } else Some (server, stream)
      } else Some (server, stream))"

definition handleRegistrationMsg :: "serverCtxt \<Rightarrow> mem_stream \<Rightarrow> (bool \<times> serverCtxt \<times> mem_stream) option" where
  "handleRegistrationMsg server stream = do {
     (playersInMsg, stream) \<leftarrow> getNat NPLAYERS_NBITS stream;
     xp_assert (playersInMsg > 0);
     if pendingRegistrations (nv server) < playersInMsg
     then Some (False, emit (EvUserError ERR_REG_UNEXPECTED_USER) server, stream)
     else do {
       (success, d, server, stream) \<leftarrow> register_players playersInMsg None server stream;
       if success then do {
         (server, stream) \<leftarrow> device_version d server stream;
         server \<leftarrow>
           (if pendingRegistrations (nv server) = 0 then do {
              server \<leftarrow> setStreamVersion server;
              server \<leftarrow> checkResizeBoard server;
              (_, server) \<leftarrow> assignTilesToAll server;
              Some (SETSTATE XWSTATE_RECEIVED_ALL_REG server)
            } else Some server);
         Some (True, informMissing server, stream)
       } else Some (False, server, stream)
     }
   }"

section \<open>The first message of the host\<close>

definition makeSendableGICopy :: "serverCtxt \<Rightarrow> nat \<Rightarrow> curGameInfo option" where
  "makeSendableGICopy server devIndex = do {
     let g = svGi server;
     lps \<leftarrow> mem_read 0 (giNPlayers g) (giPlayers g);
     ps \<leftarrow> mem_read 0 (giNPlayers g) (svPlayers server);
     let lps = map (\<lambda>(lp, p). lp\<lparr>isLocal := (deviceIndex p = int devIndex)\<rparr>) (zip lps ps);
     Some (g\<lparr>giPlayers := lps @ drop (giNPlayers g) (giPlayers g), forceChannel := devIndex, giDictName := None\<rparr>)
   }"

fun put_trays :: "modelCtxt \<Rightarrow> bool \<Rightarrow> nat list \<Rightarrow> mem_stream \<Rightarrow> mem_stream option" where
  "put_trays model inDup [] stream = Some stream"
| "put_trays model inDup (ii # iis) stream = do {
     stream \<leftarrow> model_trayToStream model ii stream;
     if inDup then Some stream else put_trays model inDup iis stream
   }"

definition initial_body :: "nat \<Rightarrow> serverCtxt \<Rightarrow> mem_stream \<Rightarrow> mem_stream option" where
  "initial_body devIndex server stream = do {
     let version = nvStreamVersion (nv server);
     xp_assert (0 < version);
     stream \<leftarrow> mem_stream_putU8 stream version;
     stream \<leftarrow> mem_stream_putU32 stream (gameID (svGi server));
     localGI \<leftarrow> makeSendableGICopy server devIndex;
     stream \<leftarrow> gi_writeToStream stream localGI;
     dict \<leftarrow> model_getDictionary (svModel server);
     stream \<leftarrow> dict_writeToStream dict stream;
     stream \<leftarrow> (if STREAM_VERS_DICTNAME \<le> unat version then do {
          stream \<leftarrow> stringToStream stream (pfShortName (svUtil server) dict);
          stringToStream stream (dict_getMd5Sum dict)
        } else Some stream);
     put_trays (svModel server) (svDuplicate server) [0..<giNPlayers (svGi server)] stream
   }"

definition sendInitialMessage :: "serverCtxt \<Rightarrow> serverCtxt option" where
  "sendInitialMessage server = do {
     let gid = gameID (svGi server);
     xp_assert (nDevices (nv server) > 1);
     server \<leftarrow> ofold (\<lambda>server d. sendMessage d XWPROTO_CLIENT_SETUP (initial_body d) server) server
                (remote_devices server 0);
     dupe_resetTimer (emit (EvSetConnID gid) server)
   }"

definition clearLocalRobots :: "serverCtxt \<Rightarrow> serverCtxt option" where
  "clearLocalRobots server = do {
     let np = giNPlayers (svGi server);
     lps \<leftarrow> mem_read 0 np (giPlayers (svGi server));
     Some (upd_gi (\<lambda>g. g\<lparr>giPlayers :=
        map (\<lambda>lp. if LP_IS_LOCAL lp then lp\<lparr>robotIQ := 0\<rparr> else lp) lps @ drop np (giPlayers g)\<rparr>) server)
   }"

text \<open>A game information that is all zero.\<close>

definition zero_gi :: curGameInfo where
  "zero_gi = \<lparr>giDictName = None,
     giPlayers = replicate MAX_NUM_PLAYERS \<lparr>lpName = None, password = None, lpDictName = None, secondsUsed = 0,
                                            isLocal = False, robotIQ = 0\<rparr>,
     gameID = 0, gameSeconds = 0, dictLang = 0, giNPlayers = 0, boardSize = 0, forceChannel = 0, serverRole = 0,
     hintsNotAllowed = False, timerEnabled = False, allowPickTiles = False, allowHintRect = False,
     giInDuplicateMode = False, phoniesAction = 0, confirmBTConnect = False\<rparr>"

text \<open>The dictionary the host sent is used unless the local one has the same tiles.\<close>

definition choose_dict :: "dictionaryCtxt \<Rightarrow> u8 list \<Rightarrow> u8 list \<Rightarrow> nat \<Rightarrow> serverCtxt \<Rightarrow> serverCtxt option" where
  "choose_dict newDict rmtName rmtSum phonies server =
     (case model_getDictionary (svModel server) of
        None \<Rightarrow> on_model (\<lambda>m. model_setDictionary m (Some newDict)) server
      | Some curDict \<Rightarrow> do {
          same \<leftarrow> dict_tilesAreSame newDict curDict;
          if same then Some (if rmtName \<noteq> [] then
              emit (EvInformNetDict (dict_getLangCode curDict) (pfShortName (svUtil server) curDict) rmtName rmtSum phonies) server
            else server)
          else do {
            server \<leftarrow> on_model (\<lambda>m. model_setDictionary m (Some newDict)) server;
            clearLocalRobots (emit (EvUserError ERR_SERVER_DICT_WINS) server)
          }
        })"

definition read_tray :: "serverCtxt \<times> mem_stream \<Rightarrow> nat \<Rightarrow> (serverCtxt \<times> mem_stream) option" where
  "read_tray = (\<lambda>(server, stream) ii. do {
     (tiles, stream) \<leftarrow> traySetFromStream stream;
     xp_assert (length tiles \<le> MAX_TRAY_TILES);
     server \<leftarrow> on_pool (\<lambda>pool. pool_removeTiles pool tiles) server;
     server \<leftarrow> (if svDuplicate server then on_model (\<lambda>m. model_assignDupeTiles m tiles) server
               else do { server \<leftarrow> on_model (\<lambda>m. model_assignPlayerTiles m ii tiles) server; sortTilesIf ii server });
     Some (server, stream)
   })"

definition client_readInitialMessage :: "serverCtxt \<Rightarrow> mem_stream \<Rightarrow> (bool \<times> serverCtxt \<times> mem_stream) option" where
  "client_readInitialMessage server stream = do {
     addr0 \<leftarrow> mem_get 0 (addresses (nv server));
     if raChannelNo addr0 \<noteq> 0 then Some (False, server, stream)
     else do {
       (version, stream) \<leftarrow> mem_stream_getU8 stream;
       stream \<leftarrow> mem_stream_setVersion stream (unat version);
       (gid, stream) \<leftarrow> mem_stream_getU32 stream;
       let server = emit (EvSetConnID gid) (upd_gi (\<lambda>g. g\<lparr>gameID := gid\<rparr>) server);
       (localGI, stream) \<leftarrow> gi_readFromStream stream zero_gi;
       let localGI = localGI\<lparr>serverRole := SERVER_ISCLIENT, giDictName := p_copyString (giDictName (svGi server))\<rparr>;
       g \<leftarrow> gi_copy (svGi server) localGI;
       let server = upd_gi (\<lambda>_. g) server;
       (newDict, stream) \<leftarrow> dict_loadFromStream (pfSkipChar (svUtil server)) dict_calloc stream;
       (rmtName, rmtSum, stream) \<leftarrow> (if STREAM_VERS_DICTNAME \<le> unat version then do {
            (nm, stream) \<leftarrow> stringFromStreamHere stream 128;
            (sm, stream) \<leftarrow> stringFromStreamHere stream 64;
            Some (nm, sm, stream)
          } else Some ([], [], stream));
       let chan = mem_stream_getAddress stream;
       xp_assert (chan \<noteq> 0);
       let server = upd_nv (\<lambda>n. n\<lparr>addresses := (addresses n)[0 := addr0\<lparr>raChannelNo := chan\<rparr>]\<rparr>) server;
       server \<leftarrow> on_model (\<lambda>m. model_setSize m (Some (mstack m)) (boardSize localGI)) server;
       let np = giNPlayers localGI;
       let server = upd_gi (\<lambda>g. g\<lparr>giNPlayers := np\<rparr>) server;
       let server = server\<lparr>svModel := model_setNPlayers (svModel server) np\<rparr>;
       server \<leftarrow> choose_dict newDict rmtName rmtSum (phoniesAction localGI) server;
       xp_assert (svPool server = None);
       server \<leftarrow> makePoolOnce server;
       (server, stream) \<leftarrow> ofold read_tray (server, stream) (if svDuplicate server then take 1 [0..<np] else [0..<np]);
       server \<leftarrow> syncPlayers server;
       server \<leftarrow> setTurn 0 (SETSTATE XWSTATE_INTURN server);
       server \<leftarrow> dupe_resetTimer server;
       Some (True, server, stream)
     }
   }"

section \<open>Chat\<close>

definition sendChatTo :: "cstring \<Rightarrow> int \<Rightarrow> u32 \<Rightarrow> serverCtxt \<Rightarrow> nat \<Rightarrow> serverCtxt option" where
  "sendChatTo msg from timestamp server devIndex =
     (let can = pfCanChat (svUtil server) (nCanChat server);
          server = server\<lparr>nCanChat := nCanChat server + 1\<rparr>
      in if can then sendMessage devIndex XWPROTO_CHAT (\<lambda>_ stream. do {
             stream \<leftarrow> stringToStream stream msg;
             stream \<leftarrow> mem_stream_putU8 stream (of_int from);
             mem_stream_putU32 stream timestamp
           }) server
         else Some server)"

definition sendChatToClientsExcept :: "int \<Rightarrow> cstring \<Rightarrow> int \<Rightarrow> u32 \<Rightarrow> serverCtxt \<Rightarrow> serverCtxt option" where
  "sendChatToClientsExcept skip msg from timestamp server =
     ofold (sendChatTo msg from timestamp) server (remote_devices server skip)"

definition server_sendChat :: "serverCtxt \<Rightarrow> cstring \<Rightarrow> int \<Rightarrow> serverCtxt option" where
  "server_sendChat server msg from = (case getCurSeconds server of (timestamp, server) \<Rightarrow>
     (if amClient server then sendChatTo msg from timestamp server SERVER_DEVICE
      else sendChatToClientsExcept (int SERVER_DEVICE) msg from timestamp server))"

definition receiveChat :: "serverCtxt \<Rightarrow> mem_stream \<Rightarrow> (bool \<times> serverCtxt \<times> mem_stream) option" where
  "receiveChat server incoming = do {
     (msg, incoming) \<leftarrow> p_stringFromStream incoming;
     (from, incoming) \<leftarrow> (if 1 \<le> mem_stream_getSize incoming
        then do { (b, incoming) \<leftarrow> mem_stream_getU8 incoming; Some (uint b, incoming) } else Some (-1, incoming));
     (timestamp, incoming) \<leftarrow> (if 4 \<le> mem_stream_getSize incoming then mem_stream_getU32 incoming else Some (0, incoming));
     server \<leftarrow> (if amServer server then do {
          source \<leftarrow> getIndexForStream server incoming;
          sendChatToClientsExcept source msg from timestamp server
        } else Some server);
     Some (True, emit (EvShowChat msg from timestamp) server, incoming)
   }"

end
