(* ===== verification/Xw_ServerMain.thy ===== *)
theory Xw_ServerMain
  imports Xw_ServerNet
begin

text \<open>
  What drives the server: the robots' moves, the step the platform asks for (\<open>server_do\<close>), the
  messages it receives, the timer of duplicate mode; then the texts it writes: the counts of the
  dictionary, the tiles that remain, the final scores.
\<close>

section \<open>Robots\<close>

definition server_figureFinishBonus :: "serverCtxt \<Rightarrow> nat \<Rightarrow> nat option" where
  "server_figureFinishBonus server turn = do {
     pool \<leftarrow> svPool server;
     if pool_getNTilesLeft pool = 0 \<and> giNPlayers (svGi server) \<noteq> 1 then do {
       let nOthers = sub16 (giNPlayers (svGi server)) 1;
       dict \<leftarrow> model_getDictionary (svModel server);
       counts \<leftarrow> model_countAllTrayTiles (svModel server) (replicate (dict_numTileFaces dict) 0) (int turn);
       result \<leftarrow> ofold (\<lambda>result t. (if 0 < counts ! t then do {
           v \<leftarrow> dict_getTileValue dict (of_nat t);
           Some (trunc16 (result + counts ! t * v))
         } else Some result)) 0 [0..<length counts];
       Some (trunc16 (result + result div nOthers))
     } else Some 0
   }"

text \<open>Whether the robot is made to trade, whatever it could play.\<close>

definition force_trade :: "serverCtxt \<Rightarrow> (bool \<times> serverCtxt) option" where
  "force_trade server =
     (if robotTradePct (nv server) \<noteq> 0 then do {
        xp_assert (\<not> svDuplicate server);
        if server_countTilesInPool server \<ge> int MAX_TRAY_TILES
        then (case xp_random server of (r, server) \<Rightarrow> Some (r mod 100 < robotTradePct (nv server), server))
        else Some (False, server)
      } else Some (False, server))"

text \<open>The search: whether it ran to its end, whether there is a move, and the move.\<close>

definition robot_search :: "nat \<Rightarrow> serverCtxt \<Rightarrow> (bool \<times> bool \<times> moveInfo \<times> serverCtxt) option" where
  "robot_search turn server = do {
     tiles \<leftarrow> model_getPlayerTiles (svModel server) turn;
     bonus \<leftarrow> server_figureFinishBonus server turn;
     (engine, server) \<leftarrow> server_getEngineFor server turn;
     engine \<leftarrow> engine;
     lp \<leftarrow> mem_get turn (giPlayers (svGi server));
     r \<leftarrow> engine_findMove 1 \<lparr>faModel = svModel server, faTurn = turn, faIncludePending = False,
         faSkipCallback = False, faTiles = tiles, faUsePrev = False, faAllTilesBonus = bonus,
         faSearchLimits = None, faUseTileLimits = False, faRobotIQ = unat (robotIQ lp)\<rparr> no_newMove 0 engine;
     server \<leftarrow> set_engine turn (frEngine r) server;
     Some (frDone r, frCanMove r, frMove r, server)
   }"

definition keep_explanation :: "mem_stream \<Rightarrow> mem_stream option \<Rightarrow> serverCtxt \<Rightarrow> serverCtxt option" where
  "keep_explanation stream wordsStream server = do {
     xp_assert (prevMoveStream (nv server) = None);
     Some (upd_nv (\<lambda>n. n\<lparr>prevMoveStream := Some stream,
       prevWordsStream := (if wordsStream = None then prevWordsStream n else wordsStream)\<rparr>) server)
   }"

definition robot_trades :: "nat \<Rightarrow> bool \<Rightarrow> serverCtxt \<Rightarrow> (bool \<times> serverCtxt) option" where
  "robot_trades turn explain server = do {
     oldTiles \<leftarrow> model_getPlayerTiles (svModel server) turn;
     server \<leftarrow> server_commitTrade server oldTiles None;
     server \<leftarrow> (if explain then do {
          s \<leftarrow> mem_stream_catString mkServerStream
                (Some (snprintf 64 (pfText (svUtil server) (STRD_ROBOT_TRADED MAX_TRAY_TILES))));
          keep_explanation s None server
        } else Some server);
     Some (True, server)
   }"

definition robot_plays :: "nat \<Rightarrow> bool \<Rightarrow> bool \<Rightarrow> moveInfo \<Rightarrow> serverCtxt \<Rightarrow> (bool \<times> serverCtxt) option" where
  "robot_plays turn explain canMove newMove server = do {
     (plays, server) \<leftarrow> (if canMove then Some (True, server) else NPASSES_OK server);
     if plays then do {
       let (r, server) = xp_random server;
       let newMove = (if makePhonyPct (nv server) > r mod 100 then reverseTiles newMove else newMove);
       server \<leftarrow> on_model (\<lambda>m. model_makeTurnFromMoveInfo m turn newMove) server;
       server \<leftarrow> (if explain then do {
            (mv, ws, server) \<leftarrow> explain_move turn server;
            mv \<leftarrow> mv;
            keep_explanation mv ws server
          } else Some server);
       server_commitMove server turn None
     } else Some (False, server)
   }"

definition robot_time :: "nat \<Rightarrow> u32 \<Rightarrow> serverCtxt \<Rightarrow> serverCtxt option" where
  "robot_time turn started server = do {
     lp \<leftarrow> mem_get turn (giPlayers (svGi server));
     if timerEnabled (svGi server) then
       (case getCurSeconds server of (now, server) \<Rightarrow>
         Some (upd_gi (\<lambda>g. g\<lparr>giPlayers := (giPlayers g)
           [turn := lp\<lparr>secondsUsed := secondsUsed lp + ucast (now - started)\<rparr>]\<rparr>) server))
     else do { xp_assert (secondsUsed lp = 0); Some server }
   }"

definition makeRobotMove :: "serverCtxt \<Rightarrow> (bool \<times> serverCtxt) option" where
  "makeRobotMove server = do {
     let timed = timerEnabled (svGi server);
     let (started, server) = (if timed then getCurSeconds server else (0, server));
     (force, server) \<leftarrow> force_trade server;
     xp_assert (currentTurn (nv server) \<ge> 0);
     let turn = nat (currentTurn (nv server));
     server \<leftarrow> on_model (\<lambda>m. model_resetCurrentTurn m turn) server;
     (complete, canMove, newMove, server) \<leftarrow>
       (if \<not> force then robot_search turn server else Some (False, False, no_newMove, server));
     (result, server) \<leftarrow>
       (if force \<or> complete then do {
          let trade = (force \<or> (mtiles newMove = [] \<and> \<not> canMove \<and> server_countTilesInPool server \<ge> int MAX_TRAY_TILES));
          let server = server\<lparr>showPrevMove := True\<rparr>;
          let explain = (svDuplicate server \<or> showRobotScores (nv server));
          if trade then robot_trades turn explain server
          else robot_plays turn explain canMove newMove server
        } else Some (False, server));
     server \<leftarrow> robot_time turn started server;
     Some (result, server)
   }"

section \<open>What is shown of the last move\<close>

definition showPrevScore :: "serverCtxt \<Rightarrow> serverCtxt option" where
  "showPrevScore server = do {
     server \<leftarrow>
       (if svDuplicate server \<or> showRobotScores (nv server) then do {
          let np = giNPlayers (svGi server);
          xp_assert (np \<noteq> 0);
          let prevTurn = nat ((currentTurn (nv server) + int np - 1) mod int np);
          lp \<leftarrow> mem_get prevTurn (giPlayers (svGi server));
          let template = (if svDuplicate server then STR_DUP_MOVED
                          else if LP_IS_LOCAL lp then STR_ROBOT_MOVED else STRS_REMOTE_MOVED);
          stream \<leftarrow> mem_stream_catString mkServerStream (Some (snprintf 128 (pfText (svUtil server) (template (lpName lp)))));
          stream \<leftarrow> (case prevMoveStream (nv server) of None \<Rightarrow> Some stream
            | Some prev \<Rightarrow> do {
                bytes \<leftarrow> mem_read 0 (mem_stream_getSize prev) (sbuf prev);
                mem_stream_putBytes stream bytes
              });
          Some (upd_nv (\<lambda>n. n\<lparr>prevMoveStream := None, prevWordsStream := None\<rparr>)
                 (emit (EvInformMove prevTurn stream (prevWordsStream (nv server))) server))
        } else Some server);
     Some (SETSTATE (stateAfterShow (nv server)) server)
   }"

section \<open>Steps\<close>

definition do_begin :: "serverCtxt \<Rightarrow> (bool \<times> serverCtxt) option" where
  "do_begin server =
     (if pendingRegistrations (nv server) = 0 then do {
        (assigned, server) \<leftarrow> assignTilesToAll server;
        if assigned then do {
          server \<leftarrow> setTurn 0 (SETSTATE XWSTATE_INTURN server);
          server \<leftarrow> (if svDuplicate server then dupe_resetTimer server else Some server);
          Some (True, server)
        } else Some (False, server)
      } else Some (False, server))"

definition do_inturn :: "serverCtxt \<Rightarrow> (bool \<times> bool \<times> serverCtxt) option" where
  "do_inturn server = do {
     server \<leftarrow> (if svDuplicate server then do {
          server \<leftarrow> dupe_forceCommits server;
          (_, server) \<leftarrow> dupe_checkTurns server;
          Some server
        } else Some server);
     (pending, server) \<leftarrow> robotMovePending server;
     if pending \<and> \<not> robotWaiting server then do {
       (result, server) \<leftarrow> makeRobotMove server;
       (more, server) \<leftarrow> (if \<not> result then Some (True, server) else robot_moves_now server);
       Some (result, more, server)
     } else Some (True, False, server)
   }"

text \<open>One step in a state: the result, and whether more is to do.\<close>

definition do_state :: "serverCtxt \<Rightarrow> (bool \<times> bool \<times> serverCtxt) option" where
  "do_state server =
     (case gameState (nv server) of
        XWSTATE_BEGIN \<Rightarrow> do { (more, server) \<leftarrow> do_begin server; Some (True, more, server) }
      | XWSTATE_NEEDSEND_BADWORD_INFO \<Rightarrow> do {
          xp_assert (amServer server);
          server \<leftarrow> badWordMoveUndoAndTellUser (illegalWordInfo server) server;
          server \<leftarrow> sendBadWordMsgs server;
          server \<leftarrow> nextTurn PICK_NEXT server;
          Some (True, False, server)
        }
      | XWSTATE_RECEIVED_ALL_REG \<Rightarrow> do {
          server \<leftarrow> sendInitialMessage server;
          server \<leftarrow> setTurn 0 (SETSTATE XWSTATE_INTURN server);
          Some (True, True, server)
        }
      | XWSTATE_MOVE_CONFIRM_MUSTSEND \<Rightarrow> do {
          xp_assert (amServer server);
          server \<leftarrow> tellMoveWasLegal server;
          server \<leftarrow> nextTurn PICK_NEXT server;
          Some (True, False, server)
        }
      | XWSTATE_NEEDSEND_ENDGAME \<Rightarrow> do {
          server \<leftarrow> endGameInternal (-1) server;
          Some (True, False, server)
        }
      | XWSTATE_NEED_SHOWSCORE \<Rightarrow> do {
          server \<leftarrow> showPrevScore server;
          xp_assert (gameState (nv server) \<noteq> XWSTATE_NEED_SHOWSCORE);
          Some (True, True, server)
        }
      | XWSTATE_INTURN \<Rightarrow> do_inturn server
      | _ \<Rightarrow> Some (False, False, server))"

definition server_do :: "serverCtxt \<Rightarrow> (bool \<times> serverCtxt) option" where
  "server_do server =
     (if serverDoing server then Some (False, server)
      else do {
        (result, moreToDo, server) \<leftarrow> do_state (server\<lparr>serverDoing := True\<rparr>);
        let server = (if moreToDo then emit EvRequestTime server else server);
        Some (result, server\<lparr>serverDoing := False\<rparr>)
      })"

text \<open>The timer of duplicate mode has fired.\<close>

definition checkDupTimerProc :: "serverCtxt \<Rightarrow> (bool \<times> serverCtxt) option" where
  "checkDupTimerProc server = do {
     xp_assert (svDuplicate server);
     (again, server) \<leftarrow> setDupCheckTimer server;
     if again then Some (True, server) else server_do server
   }"

section \<open>Messages\<close>

definition handle_message ::
    "XW_Proto \<Rightarrow> serverCtxt \<Rightarrow> mem_stream \<Rightarrow> (bool \<times> serverCtxt \<times> mem_stream) option" where
  "handle_message code server incoming =
     (case code of
        XWPROTO_DEVICE_REGISTRATION \<Rightarrow>
          (if amServer server then handleRegistrationMsg server incoming else Some (False, server, incoming))
      | XWPROTO_CLIENT_SETUP \<Rightarrow>
          (if \<not> amServer server then client_readInitialMessage server incoming else Some (False, server, incoming))
      | XWPROTO_CHAT \<Rightarrow> receiveChat server incoming
      | XWPROTO_MOVEMADE_INFO_CLIENT \<Rightarrow>
          (if gameState (nv server) = XWSTATE_INTURN then reflectMoveAndInform server incoming
           else Some (True, server, incoming))
      | XWPROTO_MOVEMADE_INFO_SERVER \<Rightarrow> do {
          (accepted, server, incoming) \<leftarrow>
            (if amServer server then Some (False, server, incoming) else reflectMove server incoming);
          server \<leftarrow> (if accepted then nextTurn PICK_NEXT server else Some server);
          Some (True, server, incoming)
        }
      | XWPROTO_UNDO_INFO_CLIENT \<Rightarrow> reflectUndos server incoming code
      | XWPROTO_UNDO_INFO_SERVER \<Rightarrow> reflectUndos server incoming code
      | XWPROTO_BADWORD_INFO \<Rightarrow> do {
          (accepted, server, incoming) \<leftarrow> handleIllegalWord server incoming;
          server \<leftarrow> (if accepted \<and> gameState (nv server) \<noteq> XWSTATE_GAMEOVER then nextTurn PICK_CUR server
                    else Some server);
          Some (accepted, server, incoming)
        }
      | XWPROTO_MOVE_CONFIRM \<Rightarrow> do { (accepted, server) \<leftarrow> handleMoveOk server; Some (accepted, server, incoming) }
      | XWPROTO_CLIENT_REQ_END_GAME \<Rightarrow> do {
          (q, incoming) \<leftarrow> getQuitter server incoming;
          server \<leftarrow> endGameInternal q server;
          Some (True, server, incoming)
        }
      | XWPROTO_END_GAME \<Rightarrow> do {
          (q, incoming) \<leftarrow> getQuitter server incoming;
          server \<leftarrow> doEndGame q server;
          Some (True, server, incoming)
        }
      | XWPROTO_DUPE_STUFF \<Rightarrow> dupe_handleStuff server incoming
      | _ \<Rightarrow> None)"

definition server_receiveMessage :: "serverCtxt \<Rightarrow> mem_stream \<Rightarrow> (bool \<times> serverCtxt) option" where
  "server_receiveMessage server incoming = do {
     let isServer = amServer server;
     (code, server, incoming) \<leftarrow> readProto server incoming;
     (accepted, server, incoming) \<leftarrow> handle_message code server incoming;
     xp_assert (isServer = amServer server);
     _ \<leftarrow> mem_stream_close incoming;
     Some (accepted, server)
   }"
section \<open>Texts\<close>

text \<open>A buffer of a fixed size that \<open>snprintf\<close> appends to: its text, and the length the whole text
  would have had. Once that length has passed the size, the room computed for the next call wraps
  around and the call writes outside the buffer.\<close>

definition buf_add :: "nat \<Rightarrow> u8 list \<Rightarrow> u8 list \<times> nat \<Rightarrow> (u8 list \<times> nat) option" where
  "buf_add sz str = (\<lambda>(txt, len). do {
     xp_assert (len \<le> sz);
     Some (txt @ take (sz - len - 1) str, trunc16 (len + length str))
   })"

text \<open>The faces of a tile, all or the first, separated by commas.\<close>

partial_function (option) faces_text ::
    "dictionaryCtxt \<Rightarrow> bool \<Rightarrow> tile \<Rightarrow> facePtr option \<Rightarrow> u8 list \<times> nat \<Rightarrow> (u8 list \<times> nat) option" where
  "faces_text dict allFaces t face acc = do {
     next \<leftarrow> dict_getNextTileString dict t face;
     case next of None \<Rightarrow> Some acc
     | Some p \<Rightarrow> do {
         str \<leftarrow> facePtr_str dict p;
         acc \<leftarrow> buf_add 48 (if snd acc = 0 then str else 44 # str) acc;
         if allFaces then faces_text dict allFaces t (Some p) acc else Some acc
       }
   }"

declare faces_text.simps [code]

definition tile_count_text :: "dictionaryCtxt \<Rightarrow> bool \<Rightarrow> tile \<Rightarrow> nat \<Rightarrow> u8 list option" where
  "tile_count_text dict allFaces t cnt = do {
     (txt, _) \<leftarrow> faces_text dict allFaces t None ([], 0);
     value \<leftarrow> dict_getTileValue dict t;
     Some (snprintf 128 (txt @ [58, 32] @ dec_digits cnt @ [47] @ dec_digits value))
   }"

fun dict_counts :: "dictionaryCtxt \<Rightarrow> bool \<Rightarrow> nat \<Rightarrow> nat \<Rightarrow> nat \<Rightarrow> nat \<Rightarrow> mem_stream \<Rightarrow> mem_stream option" where
  "dict_counts dict allFaces cols left t printed stream = do {
     cnt \<leftarrow> dict_numTiles dict (of_nat t);
     stream \<leftarrow> (if cnt > 0 then do {
          txt \<leftarrow> tile_count_text dict allFaces (of_nat t) cnt;
          mem_stream_catString stream (Some txt)
        } else Some stream);
     case left of 0 \<Rightarrow> Some stream
     | Suc left \<Rightarrow>
         (if cnt > 0 then do {
            xp_assert (cols \<noteq> 0);
            stream \<leftarrow> mem_stream_catString stream (Some (if (printed + 1) mod cols = 0 then [10] else [32, 32, 32]));
            dict_counts dict allFaces cols left (t + 1) (printed + 1) stream
          } else dict_counts dict allFaces cols left (t + 1) printed stream)
   }"

declare dict_counts.simps [simp del]

definition server_formatDictCounts :: "serverCtxt \<Rightarrow> mem_stream \<Rightarrow> nat \<Rightarrow> bool \<Rightarrow> mem_stream option" where
  "server_formatDictCounts server stream cols allFaces = do {
     dict \<leftarrow> model_getDictionary (svModel server);
     stream \<leftarrow> mem_stream_catString stream
                (Some (snprintf 48 (pfText (svUtil server) (STRS_VALUES_HEADER (dict_getLangName dict)))));
     dict_counts dict allFaces cols (dict_numTileFaces dict - 1) 0 0 stream
   }"

text \<open>A face as often as its tile is left, separated by dots.\<close>

fun remaining_face :: "u8 list \<Rightarrow> nat \<Rightarrow> u8 list \<times> nat \<Rightarrow> (u8 list \<times> nat) option" where
  "remaining_face face 0 acc = Some acc"
| "remaining_face face (Suc n) acc = do {
     acc \<leftarrow> buf_add 512 face acc;
     if n = 0 then Some acc else do { acc \<leftarrow> buf_add 512 [46] acc; remaining_face face n acc }
   }"

fun remaining_tiles ::
    "dictionaryCtxt \<Rightarrow> poolContext \<Rightarrow> nat list \<Rightarrow> nat \<Rightarrow> nat \<Rightarrow> nat \<Rightarrow> u8 list \<times> nat \<Rightarrow> (nat \<times> u8 list) option" where
  "remaining_tiles dict pool counts left t remaining acc = do {
     inPool \<leftarrow> pool_getNTilesLeftFor pool (of_nat t);
     inTrays \<leftarrow> mem_get t counts;
     let cnt = trunc16 (inPool + inTrays);
     let remaining = trunc16 (remaining + inTrays);
     acc \<leftarrow> (if cnt > 0 then do {
          p \<leftarrow> dict_getTileString dict (of_nat t);
          face \<leftarrow> facePtr_str dict p;
          remaining_face face cnt acc
        } else Some acc);
     case left of 0 \<Rightarrow> Some (remaining, fst acc)
     | Suc left \<Rightarrow> do {
         acc \<leftarrow> (if cnt > 0 then buf_add 512 [32, 32, 32] acc else Some acc);
         xp_assert (snd acc < 512);
         remaining_tiles dict pool counts left (t + 1) remaining acc
       }
   }"

declare remaining_tiles.simps [simp del]

definition server_formatRemainingTiles :: "serverCtxt \<Rightarrow> mem_stream \<Rightarrow> int \<Rightarrow> mem_stream option" where
  "server_formatRemainingTiles server stream pl =
     (case svPool server of None \<Rightarrow> Some stream
      | Some pool \<Rightarrow> do {
          dict \<leftarrow> model_getDictionary (svModel server);
          let remaining = pool_getNTilesLeft pool;
          stream \<leftarrow> mem_stream_catString stream (Some (snprintf 128 (pfText (svUtil server) (STRD_REMAINS_HEADER remaining))));
          stream \<leftarrow> mem_stream_catString stream (Some [10, 10]);
          counts \<leftarrow> model_countAllTrayTiles (svModel server) (replicate (MAX_UNIQUE_TILES + 1) 0) pl;
          (remaining, txt) \<leftarrow> remaining_tiles dict pool counts (dict_numTileFaces dict - 1) 0 remaining ([], 0);
          stream \<leftarrow> mem_stream_catString stream (Some (snprintf 128 (pfText (svUtil server) (STRD_REMAINS_EXPL remaining))));
          mem_stream_catString stream (Some txt)
        })"

section \<open>Final scores\<close>

definition IMPOSSIBLY_LOW_SCORE :: int where "IMPOSSIBLY_LOW_SCORE = -1000"

text \<open>The best player not yet printed and not the one who resigned, with his score.\<close>

definition next_place :: "int \<Rightarrow> int list \<Rightarrow> int option \<times> int" where
  "next_place q scores =
     foldl (\<lambda>(thisIndex, thisScore) ii.
         if q \<noteq> int ii \<and> scores ! ii > thisScore then (Some (int ii), scores ! ii) else (thisIndex, thisScore))
       (None, IMPOSSIBLY_LOW_SCORE) [0..<length scores]"

definition dec_int :: "int \<Rightarrow> u8 list" where
  "dec_int i = (if i < 0 then 45 # dec_digits (nat (- i)) else dec_digits (nat i))"

definition place_text :: "serverCtxt \<Rightarrow> nat \<Rightarrow> nat \<Rightarrow> (u8 list \<Rightarrow> int \<Rightarrow> serverText) \<Rightarrow> int \<Rightarrow> int \<Rightarrow> u8 list option" where
  "place_text server place ii template score penalty = do {
     let g = svGi server;
     let text_of = pfText (svUtil server);
     time \<leftarrow> (if timerEnabled g then do {
          p \<leftarrow> player_timePenalty g ii;
          Some (if p > 0 then snprintf 16 (text_of (STRD_TIME_PENALTY_SUB p)) else [])
        } else Some []);
     tmp \<leftarrow> (if \<not> svDuplicate server then do {
          n \<leftarrow> model_getNumTilesTotal (svModel server) ii;
          Some (snprintf 48 (text_of (if n = 0 then STRD_REMAINING_TILES_ADD penalty else STRD_UNUSED_TILES_SUB (- penalty))))
        } else Some []);
     lp \<leftarrow> mem_get ii (giPlayers g);
     let buf = snprintf 128 (text_of (template (emptyStringIfNull (lpName lp)) score));
     if svDuplicate server then Some buf
     else do {
       s \<leftarrow> model_getPlayerScore (svModel server) ii;
       let buf2 = snprintf 64 ([10, 32, 32, 40] @ dec_int s @ [32] @ tmp @ time @ [41]);
       xp_assert (length buf + length buf2 < 128);
       Some (buf @ buf2)
     }
   }"

partial_function (option) write_places ::
    "serverCtxt \<Rightarrow> int list \<Rightarrow> int \<Rightarrow> nat \<Rightarrow> int list \<Rightarrow> mem_stream \<Rightarrow> mem_stream option" where
  "write_places server penalties winning place scores stream = do {
     let q = quitter (nv server);
     let (found, thisScore) = next_place q scores;
     let winning = (if place = 1 then thisScore else winning);
     case (case found of
         Some i \<Rightarrow> Some (nat i, if thisScore = winning then STRSD_WINNER else STRDSD_PLACER place, False)
       | None \<Rightarrow> (if q \<ge> 0 then Some (nat q, STRSD_RESIGNED, True) else None)) of
       None \<Rightarrow> Some stream
     | Some (ii, template, quitterDone) \<Rightarrow> do {
         score \<leftarrow> mem_get ii scores;
         penalty \<leftarrow> mem_get ii penalties;
         txt \<leftarrow> place_text server place ii template score penalty;
         stream \<leftarrow> (if 1 < place then mem_stream_catString stream (Some [10]) else Some stream);
         stream \<leftarrow> mem_stream_catString stream (Some txt);
         if quitterDone then Some stream
         else write_places server penalties winning (place + 1) (scores[ii := IMPOSSIBLY_LOW_SCORE]) stream
       }
   }"

declare write_places.simps [code]

definition server_writeFinalScores :: "serverCtxt \<Rightarrow> mem_stream \<Rightarrow> mem_stream option" where
  "server_writeFinalScores server stream = do {
     xp_assert (gameState (nv server) = XWSTATE_GAMEOVER);
     results \<leftarrow> model_figureFinalScores (svModel server);
     results \<leftarrow> mem_read 0 (giNPlayers (svGi server)) results;
     write_places server (map snd results) IMPOSSIBLY_LOW_SCORE 1 (map fst results) stream
   }"

end
