(* ===== verification/Xw_ServerInv.thy ===== *)
theory Xw_ServerInv
  imports Xw_ServerMain
begin

text \<open>
  The states the server can be in. \<open>stage\<close> is the part of the server that the state machine is
  about; first the operations that leave it alone, then those that move it, then the relation of one
  call from outside and the invariant of every server that is reachable by such calls.
\<close>

named_theorems stage_same

section \<open>Operations that keep the stage\<close>

definition sizes :: "serverCtxt \<Rightarrow> nat list" where
  "sizes s = [length (addresses (nv s)), length (dupTurnsMade (nv s)), length (dupTurnsForced (nv s)),
              length (svPlayers s), length (pickTilesCalled s)]"

definition stage :: "serverCtxt \<Rightarrow> XW_State \<times> XW_State \<times> int \<times> bool \<times> nat list" where
  "stage s = (gameState (nv s), stateAfterShow (nv s), currentTurn (nv s), serverDoing s, sizes s)"

lemma stage_sel:
  "stage s' = stage s \<Longrightarrow> gameState (nv s') = gameState (nv s) \<and> stateAfterShow (nv s') = stateAfterShow (nv s) \<and>
     currentTurn (nv s') = currentTurn (nv s) \<and> serverDoing s' = serverDoing s \<and> sizes s' = sizes s"
  by (simp add: stage_def)

lemma stage_emit [simp]: "stage (emit ev s) = stage s"
  by (simp add: emit_def stage_def sizes_def)

lemma stage_listener [simp]: "stage (callTurnChangeListener s) = stage s"
  by (simp add: callTurnChangeListener_def)

lemma stage_timer [simp]: "stage (callDupTimerListener a b s) = stage s"
  by (simp add: callDupTimerListener_def)

lemma stage_upd_gi [simp]: "stage (upd_gi f s) = stage s"
  by (simp add: upd_gi_def stage_def sizes_def)

lemma stage_fields [simp]:
  "stage (s\<lparr>svModel := m\<rparr>) = stage s" "stage (s\<lparr>svPool := p\<rparr>) = stage s" "stage (s\<lparr>svBitsPerTile := b\<rparr>) = stage s"
  "stage (s\<lparr>showPrevMove := sp\<rparr>) = stage s" "stage (s\<lparr>illegalWordInfo := bw\<rparr>) = stage s"
  "stage (s\<lparr>lastMoveSource := ls\<rparr>) = stage s" "stage (s\<lparr>robotWaiting := rw\<rparr>) = stage s"
  "stage (s\<lparr>nSeconds := n\<rparr>) = stage s" "stage (s\<lparr>nRandom := n\<rparr>) = stage s" "stage (s\<lparr>nCanChat := n\<rparr>) = stage s"
  "stage (s\<lparr>svPlayers := (svPlayers s)[i := pl]\<rparr>) = stage s"
  "stage (s\<lparr>pickTilesCalled := (pickTilesCalled s)[j := c]\<rparr>) = stage s"
  by (simp_all add: stage_def sizes_def)

lemma stage_nv [simp]:
  "stage (upd_nv (\<lambda>n. n\<lparr>lastMoveTime := a\<rparr>) s) = stage s" "stage (upd_nv (\<lambda>n. n\<lparr>dupTimerExpires := a\<rparr>) s) = stage s"
  "stage (upd_nv (\<lambda>n. n\<lparr>nvStreamVersion := v\<rparr>) s) = stage s" "stage (upd_nv (\<lambda>n. n\<lparr>quitter := q\<rparr>) s) = stage s"
  "stage (upd_nv (\<lambda>n. n\<lparr>pendingRegistrations := f n\<rparr>) s) = stage s" "stage (upd_nv (\<lambda>n. n\<lparr>dupTurnsSent := b\<rparr>) s) = stage s"
  "stage (upd_nv (\<lambda>n. n\<lparr>prevMoveStream := g n\<rparr>) s) = stage s"
  "stage (upd_nv (\<lambda>n. n\<lparr>prevMoveStream := g n, prevWordsStream := h n\<rparr>) s) = stage s"
  "stage (upd_nv (\<lambda>n. n\<lparr>addresses := (addresses n)[i := ad]\<rparr>) s) = stage s"
  by (simp_all add: stage_def sizes_def upd_nv_def)

lemma stage_getCurSeconds [stage_same]: "getCurSeconds s = (t, s') \<Longrightarrow> stage s' = stage s"
  by (auto simp: getCurSeconds_def)

lemma stage_xp_random [stage_same]: "xp_random s = (r, s') \<Longrightarrow> stage s' = stage s"
  by (auto simp: xp_random_def)

lemma stage_ofold:
  assumes "ofold f s xs = Some s'" and "\<And>s x s'. f s x = Some s' \<Longrightarrow> stage s' = stage s"
  shows "stage s' = stage s"
proof (rule ofold_invariant[where P = "\<lambda>t. stage t = stage s", OF _ _ assms(1)])
  show "stage t' = stage s" if "stage t = stage s" "f t x = Some t'" for t x t'
    using that assms(2) by simp
qed simp

lemma stage_ofold_fst:
  assumes "ofold f (s, a) xs = Some (s', a')" and "\<And>s a x s' a'. f (s, a) x = Some (s', a') \<Longrightarrow> stage s' = stage s"
  shows "stage s' = stage s"
proof -
  have "stage (fst (s', a')) = stage s"
  proof (rule ofold_invariant[where P = "\<lambda>t. stage (fst t) = stage s", OF _ _ assms(1)])
    show "stage (fst (s, a)) = stage s" by simp
    show "stage (fst t') = stage s" if "stage (fst t) = stage s" "f t x = Some t'" for t x t'
      using that assms(2)[of "fst t" "snd t" x "fst t'" "snd t'"] by simp
  qed
  then show ?thesis by simp
qed

lemma stage_sendStream [stage_same]: "sendStream st s = Some s' \<Longrightarrow> stage s' = stage s"
  by (auto simp: sendStream_def)

lemma stage_sendMessage [stage_same]: "sendMessage d code body s = Some s' \<Longrightarrow> stage s' = stage s"
  by (auto simp: sendMessage_def dest: stage_same)

lemma stage_on_model [stage_same]: "on_model f s = Some s' \<Longrightarrow> stage s' = stage s"
  by (auto simp: on_model_def)

lemma stage_ask_model [stage_same]: "ask_model f s = Some (a, s') \<Longrightarrow> stage s' = stage s"
  by (auto simp: ask_model_def)

lemma stage_on_pool [stage_same]: "on_pool f s = Some s' \<Longrightarrow> stage s' = stage s"
  by (auto simp: on_pool_def)

lemma stage_NPASSES_OK [stage_same]: "NPASSES_OK s = Some (a, s') \<Longrightarrow> stage s' = stage s"
  by (auto simp: NPASSES_OK_def dest: stage_same)

lemma stage_robotMovePending [stage_same]: "robotMovePending s = Some (a, s') \<Longrightarrow> stage s' = stage s"
  by (auto simp: robotMovePending_def Let_def split: if_splits dest: stage_same)

lemma stage_figureSleepTime [stage_same]: "figureSleepTime s = (a, s') \<Longrightarrow> stage s' = stage s"
  by (auto simp: figureSleepTime_def Let_def split: if_splits prod.splits dest: stage_same)

lemma stage_postponeRobotMove [stage_same]: "postponeRobotMove s = Some (a, s') \<Longrightarrow> stage s' = stage s"
  by (auto simp: postponeRobotMove_def Let_def split: if_splits prod.splits dest!: stage_same)

lemma stage_robot_moves_now [stage_same]: "robot_moves_now s = Some (a, s') \<Longrightarrow> stage s' = stage s"
  by (auto simp: robot_moves_now_def split: if_splits dest!: stage_same)

lemma stage_bitsPerTile [stage_same]: "bitsPerTile s = Some (a, s') \<Longrightarrow> stage s' = stage s"
  unfolding bitsPerTile_def by (cases "model_getDictionary (svModel s)") (force split: if_splits)+

lemma stage_set_engine [stage_same]: "set_engine pl e s = Some s' \<Longrightarrow> stage s' = stage s"
  by (auto simp: set_engine_def)

lemma stage_getEngineFor [stage_same]: "server_getEngineFor s pl = Some (a, s') \<Longrightarrow> stage s' = stage s"
  by (auto simp: server_getEngineFor_def Let_def split: if_splits dest: stage_same)

lemma stage_resetEngine [stage_same]: "server_resetEngine s pl = Some s' \<Longrightarrow> stage s' = stage s"
  by (auto simp: server_resetEngine_def split: option.splits dest: stage_same)

lemma stage_resetEngines [stage_same]: "server_resetEngines s = Some s' \<Longrightarrow> stage s' = stage s"
  unfolding server_resetEngines_def by (erule stage_ofold) (rule stage_resetEngine)

lemma stage_sortTilesIf [stage_same]: "sortTilesIf t s = Some s' \<Longrightarrow> stage s' = stage s"
  by (auto simp: sortTilesIf_def split: if_splits dest: stage_same)

lemma stage_informNeedPickTiles [stage_same]: "informNeedPickTiles b t n s = Some (a, s') \<Longrightarrow> stage s' = stage s"
  by (auto simp: informNeedPickTiles_def Let_def split: if_splits)

lemma stage_trayAllowsMoves [stage_same]: "dupe_trayAllowsMoves s t ts = Some (a, s') \<Longrightarrow> stage s' = stage s"
  by (auto simp: dupe_trayAllowsMoves_def dest!: stage_same)

lemma stage_draw_tiles [stage_same]: "draw_tiles n s = Some (a, s') \<Longrightarrow> stage s' = stage s"
  by (auto simp: draw_tiles_def)
lemma stage_fetch_rest [stage_same]: "fetch_rest k pl soFar n s = Some (ts, s') \<Longrightarrow> stage s' = stage s"
proof (induction k arbitrary: n s ts)
  case 0
  from 0 have "n \<noteq> 0 \<Longrightarrow> \<exists>ts1 s1. draw_tiles n s = Some (ts1, s1) \<and>
      (s' = s1 \<or> (\<exists>ok. dupe_trayAllowsMoves s1 pl (soFar @ ts1) = Some (ok, s')))"
    unfolding fetch_rest.simps[of 0] by (auto split: if_splits)
  moreover from 0 have "n = 0 \<Longrightarrow> s' = s" unfolding fetch_rest.simps[of 0] by simp
  ultimately show ?case by (cases "n = 0") (auto dest!: stage_same)
next
  case (Suc k)
  from Suc.prems have "n \<noteq> 0 \<Longrightarrow> \<exists>ts1 s1. draw_tiles n s = Some (ts1, s1) \<and>
      (s' = s1 \<or> (\<exists>ok s2. dupe_trayAllowsMoves s1 pl (soFar @ ts1) = Some (ok, s2) \<and>
        (s' = s2 \<or> (\<exists>s3. on_pool (\<lambda>pool. pool_replaceTiles2 pool ts1) s2 = Some s3 \<and>
          fetch_rest k pl soFar (length ts1) s3 = Some (ts, s')))))"
    unfolding fetch_rest.simps[of "Suc k"] by (auto split: if_splits)
  moreover from Suc.prems have "n = 0 \<Longrightarrow> s' = s" unfolding fetch_rest.simps[of "Suc k"] by simp
  ultimately show ?case by (cases "n = 0") (auto dest!: stage_same Suc.IH)
qed

lemma stage_fetchTiles [stage_same]: "fetchTiles pl n tr ts s = Some (a, s') \<Longrightarrow> stage s' = stage s"
  by (auto simp: fetchTiles_def Let_def split: if_splits option.splits prod.splits dest!: stage_same)

lemma stage_makePoolOnce [stage_same]: "makePoolOnce s = Some s' \<Longrightarrow> stage s' = stage s"
  by (auto simp: makePoolOnce_def Let_def split: if_splits option.splits prod.splits dest!: stage_same)

lemma stage_assign_loop [stage_same]: "assign_loop n pk ts iis s = Some (a, s') \<Longrightarrow> stage s' = stage s"
proof (induction iis arbitrary: pk ts s)
  case Nil
  then show ?case by simp
next
  case (Cons ii iis)
  from Cons.prems show ?case by (auto split: if_splits dest!: stage_same Cons.IH)
qed

lemma stage_assignTilesToAll [stage_same]: "assignTilesToAll s = Some (a, s') \<Longrightarrow> stage s' = stage s"
  by (auto simp: assignTilesToAll_def Let_def split: if_splits option.splits prod.splits dest!: stage_same)

lemma stage_tilesPicked [stage_same]: "server_tilesPicked s pl ts = Some s' \<Longrightarrow> stage s' = stage s"
  by (auto simp: server_tilesPicked_def Let_def split: if_splits option.splits prod.splits dest!: stage_same)

lemma stage_setDupCheckTimer [stage_same]: "setDupCheckTimer s = Some (a, s') \<Longrightarrow> stage s' = stage s"
  by (auto simp: setDupCheckTimer_def Let_def split: if_splits option.splits prod.splits dest!: stage_same)

lemma stage_setDupTimerExpires [simp]: "stage (setDupTimerExpires v s) = stage s"
  by (simp add: setDupTimerExpires_def Let_def)

lemma stage_resetTimer [stage_same]: "dupe_resetTimer s = Some s' \<Longrightarrow> stage s' = stage s"
  by (auto simp: dupe_resetTimer_def Let_def split: if_splits option.splits prod.splits dest!: stage_same)

lemma stage_pauseImpl [stage_same]: "pauseImpl s = Some s' \<Longrightarrow> stage s' = stage s"
  by (auto simp: pauseImpl_def Let_def split: if_splits option.splits prod.splits dest!: stage_same)

lemma stage_clearState [stage_same]: "dupe_clearState s = Some s' \<Longrightarrow> stage s' = stage s"
  by (auto simp: dupe_clearState_def Let_def stage_def sizes_def upd_nv_def)

lemma stage_storeBadWords [stage_same]: "storeBadWords pl s w = Some s' \<Longrightarrow> stage s' = stage s"
  by (auto simp: storeBadWords_def Let_def split: if_splits option.splits prod.splits dest!: stage_same)

lemma stage_check_legal [stage_same]: "check_legal t st b s = Some (a, c, s') \<Longrightarrow> stage s' = stage s"
  by (auto simp: check_legal_def Let_def split: if_splits option.splits prod.splits dest!: stage_same)

lemma stage_ofold_storeBadWords [stage_same]: "ofold (storeBadWords pl) s ws = Some s' \<Longrightarrow> stage s' = stage s"
  by (erule stage_ofold) (rule stage_storeBadWords)

lemma stage_checkMoveAllowed [stage_same]: "checkMoveAllowed pl s = Some (a, s') \<Longrightarrow> stage s' = stage s"
  by (auto simp: checkMoveAllowed_def split: if_splits dest!: stage_same)

lemma stage_freeBWI [simp]: "stage (freeBWI s) = stage s"
  by (simp add: freeBWI_def)

lemma stage_badWordMoveUndo [stage_same]: "badWordMoveUndoAndTellUser bw s = Some s' \<Longrightarrow> stage s' = stage s"
  by (auto simp: badWordMoveUndoAndTellUser_def Let_def split: if_splits option.splits prod.splits dest!: stage_same)

lemma stage_sendMoveTo [stage_same]: "sendMoveTo t l ts tr s d = Some s' \<Longrightarrow> stage s' = stage s"
  by (auto simp: sendMoveTo_def Let_def split: if_splits option.splits prod.splits dest!: stage_same)

lemma stage_sendMoveToClients [stage_same]: "sendMoveToClientsExcept w l ts tr sk s = Some s' \<Longrightarrow> stage s' = stage s"
  unfolding sendMoveToClientsExcept_def by (erule stage_ofold) (rule stage_sendMoveTo)

lemma stage_getPlayerTime [stage_same]: "getPlayerTime t s st = Some (s', st') \<Longrightarrow> stage s' = stage s"
  by (auto simp: getPlayerTime_def Let_def split: if_splits option.splits prod.splits dest!: stage_same)

lemma stage_agree_on_stack [stage_same]: "agree_on_stack s st = Some (a, s', st') \<Longrightarrow> stage s' = stage s"
  by (auto simp: agree_on_stack_def Let_def split: if_splits option.splits prod.splits dest!: stage_same)

lemma stage_readMoveInfo [stage_same]: "readMoveInfo s st = Some (a, b, s', st') \<Longrightarrow> stage s' = stage s"
  by (auto simp: readMoveInfo_def Let_def split: if_splits option.splits prod.splits dest!: stage_same)

lemma stage_explain_move [stage_same]: "explain_move t s = Some (a, b, s') \<Longrightarrow> stage s' = stage s"
  by (auto simp: explain_move_def Let_def split: if_splits option.splits prod.splits dest!: stage_same)

lemma stage_makeMoveReportIf [stage_same]: "makeMoveReportIf s = Some (a, b, s') \<Longrightarrow> stage s' = stage s"
  by (auto simp: makeMoveReportIf_def Let_def split: if_splits option.splits prod.splits dest!: stage_same)

lemma stage_keep_reports [stage_same]: "keep_reports mv ws s = Some s' \<Longrightarrow> stage s' = stage s"
  by (auto simp: keep_reports_def Let_def split: if_splits option.splits prod.splits dest!: stage_same)

lemma stage_commit_turn [stage_same]: "commit_turn t ts s = Some (a, s') \<Longrightarrow> stage s' = stage s"
  by (auto simp: commit_turn_def Let_def split: if_splits option.splits prod.splits dest!: stage_same)

lemma stage_accept_trade [stage_same]: "accept_trade mr s = Some (a, s') \<Longrightarrow> stage s' = stage s"
  by (auto simp: accept_trade_def Let_def split: if_splits option.splits prod.splits dest!: stage_same)

lemma stage_reflected_move [stage_same]: "reflected_move mr src s = Some (a, b, c, d, e, s') \<Longrightarrow> stage s' = stage s"
  by (auto simp: reflected_move_def Let_def split: if_splits option.splits prod.splits dest!: stage_same)

lemma stage_sendUndoTo [stage_same]: "sendUndoTo n l h s d = Some s' \<Longrightarrow> stage s' = stage s"
  by (auto simp: sendUndoTo_def Let_def split: if_splits option.splits prod.splits dest!: stage_same)

lemma stage_sendUndoToClients [stage_same]: "sendUndoToClientsExcept sk n l h s = Some s' \<Longrightarrow> stage s' = stage s"
  unfolding sendUndoToClientsExcept_def by (erule stage_ofold) (rule stage_sendUndoTo)

lemma stage_undo_reported [stage_same]: "undo_reported n l h s = Some (a, b, c, s') \<Longrightarrow> stage s' = stage s"
  by (auto simp: undo_reported_def Let_def split: if_splits option.splits prod.splits dest!: stage_same)

lemma stage_undo_to_human [stage_same]:
  assumes "undo_to_human limit n t l s = Some (a, b, c, s')"
  shows "stage s' = stage s"
proof -
  have "stage (snd (snd (snd (a, b, c, s')))) = stage s"
  proof (rule undo_to_human.raw_induct[of "\<lambda>limit n t l s r. stage (snd (snd (snd r))) = stage s", OF _ assms])
    show "stage (snd (snd (snd r))) = stage s0"
      if ih: "\<And>limit n t l s r. u limit n t l s = Some r \<Longrightarrow> stage (snd (snd (snd r))) = stage s"
        and run: "do {
     (success, turn, moveNum, model, pool) \<leftarrow>
       model_undoLatestMoves (pfScoreText (svUtil s0)) (svModel s0) (svPool s0) 1 (Some (-1));
     let server = s0\<lparr>svModel := model, svPool := pool\<rparr>;
     if \<not> success then Some (n0, t0, l0, server)
     else do {
       lp \<leftarrow> mem_get turn (giPlayers (svGi server));
       let nMoves = trunc16 (n0 + 1);
       if \<not> LP_IS_ROBOT lp \<or> (lim \<noteq> 0 \<and> nMoves \<ge> lim) then Some (nMoves, turn, moveNum, server)
       else u lim nMoves turn moveNum server
     }
   } = Some r" for u lim n0 t0 l0 s0 r
      using run by (auto simp: Let_def split: if_splits prod.splits dest!: ih)
  qed
  then show ?thesis by simp
qed

lemma stage_sendStreamToDev [stage_same]: "sendStreamToDev code st s d = Some s' \<Longrightarrow> stage s' = stage s"
  by (auto simp: sendStreamToDev_def Let_def split: if_splits option.splits prod.splits dest!: stage_same)

lemma stage_ofold_sendStream [stage_same]: "ofold (sendStreamToDev code st) s ds = Some s' \<Longrightarrow> stage s' = stage s"
  by (erule stage_ofold) (rule stage_sendStreamToDev)

lemma stage_ofold_sendMessage [stage_same]:
  "ofold (\<lambda>s d. sendMessage d code (body d) s) s ds = Some s' \<Longrightarrow> stage s' = stage s"
  by (erule stage_ofold) (rule stage_sendMessage)
lemma stage_note_pause [stage_same]: "note_pause t u m s = Some s' \<Longrightarrow> stage s' = stage s"
  by (auto simp: note_pause_def Let_def split: if_splits option.splits prod.splits dest!: stage_same)

lemma stage_transmitPause [stage_same]: "dupe_transmitPause t u m k s = Some s' \<Longrightarrow> stage s' = stage s"
  by (auto simp: dupe_transmitPause_def Let_def split: if_splits option.splits prod.splits dest!: stage_same)

lemma stage_pause [stage_same]: "server_pause s t m = Some s' \<Longrightarrow> stage s' = stage s"
  by (auto simp: server_pause_def Let_def split: if_splits option.splits prod.splits dest!: stage_same)

lemma stage_autoPause [stage_same]: "dupe_autoPause s = Some s' \<Longrightarrow> stage s' = stage s"
  by (auto simp: dupe_autoPause_def Let_def split: if_splits option.splits prod.splits dest!: stage_same)

lemma stage_unpause [stage_same]: "server_unpause s t m = Some s' \<Longrightarrow> stage s' = stage s"
  by (auto simp: server_unpause_def Let_def split: if_splits option.splits prod.splits dest!: stage_same)

lemma stage_receivePause [stage_same]: "dupe_receivePause s st = Some (a, s', st') \<Longrightarrow> stage s' = stage s"
  by (auto simp: dupe_receivePause_def Let_def split: if_splits option.splits prod.splits dest!: stage_same)

lemma stage_keep_shown [simp]: "stage (keep_shown st s) = stage s"
  by (simp add: keep_shown_def)

lemma stage_setupShowTrade [stage_same]: "dupe_setupShowTrade n s = Some s' \<Longrightarrow> stage s' = stage s"
  by (auto simp: dupe_setupShowTrade_def Let_def split: if_splits option.splits prod.splits dest!: stage_same)

lemma stage_setupShowMove [stage_same]: "dupe_setupShowMove sc s = Some s' \<Longrightarrow> stage s' = stage s"
  by (auto simp: dupe_setupShowMove_def Let_def split: if_splits option.splits prod.splits dest!: stage_same)

lemma stage_updateOthersTiles [stage_same]: "updateOthersTiles s = Some s' \<Longrightarrow> stage s' = stage s"
  by (auto simp: updateOthersTiles_def Let_def split: if_splits option.splits prod.splits dest!: stage_same)

lemma stage_choose_step: "choose_step (s, a) pl = Some (s', r) \<Longrightarrow> stage s' = stage s"
  by (cases a) (auto simp: choose_step_def Let_def split: if_splits dest!: stage_ask_model)

lemma stage_choose_steps [stage_same]: "ofold choose_step (s, a) pls = Some (s', r) \<Longrightarrow> stage s' = stage s"
  by (erule stage_ofold_fst) (erule stage_choose_step)

lemma stage_chooseMove [stage_same]: "dupe_chooseMove s = Some (a, b, c, s') \<Longrightarrow> stage s' = stage s"
  by (auto simp: dupe_chooseMove_def Let_def split: if_splits prod.splits dest!: stage_same)

lemma stage_ofold_resets [stage_same]:
  "ofold (\<lambda>s pl. on_model (f pl) s) s pls = Some s' \<Longrightarrow> stage s' = stage s"
  by (erule stage_ofold) (erule stage_on_model)

lemma stage_makeAndReportTrade [stage_same]: "dupe_makeAndReportTrade s = Some s' \<Longrightarrow> stage s' = stage s"
  by (auto simp: dupe_makeAndReportTrade_def Let_def split: if_splits option.splits prod.splits dest!: stage_same)

lemma stage_commitAndReportMove [stage_same]: "dupe_commitAndReportMove w sc n s = Some s' \<Longrightarrow> stage s' = stage s"
  by (auto simp: dupe_commitAndReportMove_def Let_def split: if_splits option.splits prod.splits dest!: stage_same)

lemma stage_commitAndReport [stage_same]: "dupe_commitAndReport s = Some s' \<Longrightarrow> stage s' = stage s"
  by (auto simp: dupe_commitAndReport_def Let_def split: if_splits option.splits prod.splits dest!: stage_same)

lemma stage_checkTurns [stage_same]: "dupe_checkTurns s = Some (a, s') \<Longrightarrow> stage s' = stage s"
  by (auto simp: dupe_checkTurns_def Let_def split: if_splits option.splits prod.splits dest!: stage_same)

lemma stage_postStatus [stage_same]: "dupe_postStatus b s = Some s' \<Longrightarrow> stage s' = stage s"
  by (auto simp: dupe_postStatus_def Let_def split: if_splits option.splits prod.splits dest!: stage_same)

lemma stage_turn_stored [simp]:
  "length fs = length (dupTurnsForced (nv s)) \<Longrightarrow>
     stage (upd_nv (\<lambda>n. n\<lparr>dupTurnsMade := (dupTurnsMade n)[i := b], dupTurnsForced := fs\<rparr>) s) = stage s"
  by (simp add: stage_def sizes_def upd_nv_def)

lemma nv_svModel [simp]: "nv (s\<lparr>svModel := m\<rparr>) = nv s"
  by simp

lemma stage_client_move [stage_same]: "client_move (s, st) i = Some (s', st') \<Longrightarrow> stage s' = stage s"
  by (auto simp: client_move_def Let_def split: if_splits option.splits prod.splits dest!: stage_same)

lemma stage_client_moves [stage_same]: "ofold client_move (s, st) is = Some (s', st') \<Longrightarrow> stage s' = stage s"
  by (erule stage_ofold_fst) (erule stage_client_move)

lemma stage_initClientConnection [stage_same]: "server_initClientConnection s st = Some (a, s') \<Longrightarrow> stage s' = stage s"
  by (auto simp: server_initClientConnection_def Let_def split: if_splits option.splits prod.splits dest!: stage_same)

lemma stage_setStreamVersion [stage_same]: "setStreamVersion s = Some s' \<Longrightarrow> stage s' = stage s"
  by (auto simp: setStreamVersion_def Let_def split: if_splits option.splits prod.splits dest!: stage_same)

lemma stage_checkResizeBoard [stage_same]: "checkResizeBoard s = Some s' \<Longrightarrow> stage s' = stage s"
  by (auto simp: checkResizeBoard_def Let_def split: if_splits option.splits prod.splits dest!: stage_same)

lemma stage_take_player [stage_same]: "take_player s st i = Some (s', st') \<Longrightarrow> stage s' = stage s"
  by (auto simp: take_player_def Let_def split: if_splits option.splits prod.splits dest!: stage_same)

lemma stage_add_device [stage_same]: "add_device chan s = Some (a, s') \<Longrightarrow> stage s' = stage s"
  by (auto simp: add_device_def Let_def stage_def sizes_def upd_nv_def)

lemma stage_registerRemotePlayer [stage_same]: "registerRemotePlayer s st = Some (a, s', st') \<Longrightarrow> stage s' = stage s"
  by (auto simp: registerRemotePlayer_def Let_def split: if_splits option.splits prod.splits dest!: stage_same)

lemma stage_register_players [stage_same]:
  "register_players n prev s st = Some (a, b, s', st') \<Longrightarrow> stage s' = stage s"
proof (induction n arbitrary: prev s st a b)
  case 0
  then show ?case by simp
next
  case (Suc n)
  from Suc.prems show ?case by (auto split: if_splits dest!: stage_same Suc.IH)
qed

lemma stage_device_version [stage_same]: "device_version d s st = Some (s', st') \<Longrightarrow> stage s' = stage s"
  by (auto simp: device_version_def Let_def split: if_splits option.splits prod.splits dest!: stage_same)

lemma stage_sendInitialMessage [stage_same]: "sendInitialMessage s = Some s' \<Longrightarrow> stage s' = stage s"
  by (auto simp: sendInitialMessage_def Let_def split: if_splits option.splits prod.splits dest!: stage_same)

lemma stage_clearLocalRobots [stage_same]: "clearLocalRobots s = Some s' \<Longrightarrow> stage s' = stage s"
  by (auto simp: clearLocalRobots_def Let_def split: if_splits option.splits prod.splits dest!: stage_same)

lemma stage_choose_dict [stage_same]: "choose_dict d a b n s = Some s' \<Longrightarrow> stage s' = stage s"
  by (auto simp: choose_dict_def Let_def split: if_splits option.splits prod.splits dest!: stage_same)

lemma stage_read_tray [stage_same]: "read_tray (s, st) i = Some (s', st') \<Longrightarrow> stage s' = stage s"
  by (auto simp: read_tray_def Let_def split: if_splits option.splits prod.splits dest!: stage_same)

lemma stage_read_trays [stage_same]: "ofold read_tray (s, st) is = Some (s', st') \<Longrightarrow> stage s' = stage s"
  by (erule stage_ofold_fst) (erule stage_read_tray)

lemma stage_sync_player [stage_same]: "sync_player s i = Some s' \<Longrightarrow> stage s' = stage s"
  by (auto simp: sync_player_def Let_def split: if_splits option.splits prod.splits dest!: stage_same)

lemma stage_syncPlayers [stage_same]: "syncPlayers s = Some s' \<Longrightarrow> stage s' = stage s"
  unfolding syncPlayers_def by (erule stage_ofold) (erule stage_sync_player)

lemma stage_sendChatTo [stage_same]: "sendChatTo m f t s d = Some s' \<Longrightarrow> stage s' = stage s"
  by (auto simp: sendChatTo_def Let_def split: if_splits option.splits prod.splits dest!: stage_same)

lemma stage_sendChatToClients [stage_same]: "sendChatToClientsExcept k m f t s = Some s' \<Longrightarrow> stage s' = stage s"
  unfolding sendChatToClientsExcept_def by (erule stage_ofold) (erule stage_sendChatTo)

lemma stage_sendChat [stage_same]: "server_sendChat s m f = Some s' \<Longrightarrow> stage s' = stage s"
  by (auto simp: server_sendChat_def Let_def split: if_splits option.splits prod.splits dest!: stage_same)

lemma stage_receiveChat [stage_same]: "receiveChat s st = Some (a, s', st') \<Longrightarrow> stage s' = stage s"
  by (auto simp: receiveChat_def Let_def split: if_splits option.splits prod.splits dest!: stage_same)

lemma stage_robot_search [stage_same]: "robot_search t s = Some (a, b, c, s') \<Longrightarrow> stage s' = stage s"
  by (auto simp: robot_search_def Let_def split: if_splits option.splits prod.splits dest!: stage_same)

lemma stage_force_trade [stage_same]: "force_trade s = Some (a, s') \<Longrightarrow> stage s' = stage s"
  by (auto simp: force_trade_def Let_def split: if_splits option.splits prod.splits dest!: stage_same)

lemma stage_keep_explanation [stage_same]: "keep_explanation st ws s = Some s' \<Longrightarrow> stage s' = stage s"
  by (auto simp: keep_explanation_def Let_def split: if_splits option.splits prod.splits dest!: stage_same)

lemma stage_robot_time [stage_same]: "robot_time t u s = Some s' \<Longrightarrow> stage s' = stage s"
  by (auto simp: robot_time_def Let_def split: if_splits option.splits prod.splits dest!: stage_same)
section \<open>Operations that move the stage\<close>

text \<open>The ten states that are used (two of the enumeration never are), where nobody is on turn, and
  what may follow a score that is shown.\<close>

definition used_states :: "XW_State set" where
  "used_states = {XWSTATE_NONE, XWSTATE_BEGIN, XWSTATE_NEED_SHOWSCORE, XWSTATE_RECEIVED_ALL_REG,
     XWSTATE_NEEDSEND_BADWORD_INFO, XWSTATE_MOVE_CONFIRM_WAIT, XWSTATE_MOVE_CONFIRM_MUSTSEND,
     XWSTATE_NEEDSEND_ENDGAME, XWSTATE_INTURN, XWSTATE_GAMEOVER}"

fun stage_ok :: "bool \<Rightarrow> XW_State \<times> XW_State \<times> int \<times> bool \<times> nat list \<Rightarrow> bool" where
  "stage_ok d (st, after, turn, doing, szs) \<longleftrightarrow>
     doing = d \<and> st \<in> used_states \<and> -1 \<le> turn
     \<and> (st = XWSTATE_GAMEOVER \<or> st = XWSTATE_MOVE_CONFIRM_WAIT \<longrightarrow> turn = -1)
     \<and> (st = XWSTATE_NEED_SHOWSCORE \<longrightarrow> after = XWSTATE_INTURN \<or> after = XWSTATE_NEEDSEND_ENDGAME)
     \<and> szs = replicate 5 MAX_NUM_PLAYERS"

text \<open>The stage after a change of state, of turn, of the state to come.\<close>

fun at_state :: "XW_State \<Rightarrow> XW_State \<times> XW_State \<times> int \<times> bool \<times> nat list \<Rightarrow> XW_State \<times> XW_State \<times> int \<times> bool \<times> nat list" where
  "at_state st (_, rest) = (st, rest)"

fun at_turn :: "int \<Rightarrow> XW_State \<times> XW_State \<times> int \<times> bool \<times> nat list \<Rightarrow> XW_State \<times> XW_State \<times> int \<times> bool \<times> nat list" where
  "at_turn t (st, after, _, rest) = (st, after, t, rest)"

lemma stage_SETSTATE [simp]: "stage (SETSTATE st s) = at_state st (stage s)"
  by (simp add: stage_def SETSTATE_def upd_nv_def sizes_def)

lemma stage_currentTurn [simp]: "stage (upd_nv (\<lambda>n. n\<lparr>currentTurn := t\<rparr>) s) = at_turn t (stage s)"
  by (simp add: stage_def upd_nv_def sizes_def)

lemma stage_doing [simp]:
  "stage (s\<lparr>serverDoing := b\<rparr>) = (case stage s of (st, after, t, _, z) \<Rightarrow> (st, after, t, b, z))"
  by (simp add: stage_def sizes_def)

lemma stage_ok_doing: "stage_ok d g \<Longrightarrow> stage_ok b (case g of (st, after, t, _, z) \<Rightarrow> (st, after, t, b, z))"
  by (cases g) auto

lemma fst_stage: "fst (stage s) = gameState (nv s)"
  by (simp add: stage_def)

lemma stage_ok_at_state:
  assumes "stage_ok d g" "st \<in> used_states" "st \<noteq> XWSTATE_GAMEOVER" "st \<noteq> XWSTATE_MOVE_CONFIRM_WAIT" "st \<noteq> XWSTATE_NEED_SHOWSCORE"
  shows "stage_ok d (at_state st g)"
  using assms by (cases g) auto

lemma stage_ok_moved [simp]:
  assumes "stage_ok d g"
  shows "stage_ok d (at_state XWSTATE_NONE g)" "stage_ok d (at_state XWSTATE_BEGIN g)"
    "stage_ok d (at_state XWSTATE_RECEIVED_ALL_REG g)" "stage_ok d (at_state XWSTATE_NEEDSEND_BADWORD_INFO g)"
    "stage_ok d (at_state XWSTATE_MOVE_CONFIRM_MUSTSEND g)" "stage_ok d (at_state XWSTATE_NEEDSEND_ENDGAME g)"
    "stage_ok d (at_state XWSTATE_INTURN g)"
  by (rule stage_ok_at_state [OF assms]; simp add: used_states_def)+

lemma stage_ok_silent [simp]:
  assumes "stage_ok d g"
  shows "stage_ok d (at_turn (-1) (at_state XWSTATE_GAMEOVER g))" "stage_ok d (at_turn (-1) (at_state XWSTATE_MOVE_CONFIRM_WAIT g))"
    "stage_ok d (at_turn (-1) g)"
  using assms by (cases g; auto simp: used_states_def)+

lemma fst_at [simp]: "fst (at_state st g) = st" "fst (at_turn t g) = fst g"
  by (cases g; simp)+

lemma stage_ok_turn: "stage_ok d g \<Longrightarrow> fst g = XWSTATE_INTURN \<Longrightarrow> -1 \<le> t \<Longrightarrow> stage_ok d (at_turn t g)"
  by (cases g) auto

lemma stage_ok_shown:
  "stage_ok d (st, after, rest) \<Longrightarrow> st = XWSTATE_NEED_SHOWSCORE \<Longrightarrow> stage_ok d (at_state after (st, after, rest))"
  by (cases rest) (auto simp: used_states_def)

lemma stage_next_turn:
  assumes "model_getNextTurn m = Some (t, m')"
  shows "-1 \<le> t"
  using assms by (auto simp: model_getNextTurn_def stack_getNextTurn_def Let_def split: option.splits prod.splits)

text \<open>\<open>setTurn\<close> does not change the state, and leaves a turn that is at least as far as the one asked for.\<close>

lemma stage_setTurn:
  assumes "setTurn t s = Some s'" "-1 \<le> t"
  shows "\<exists>t'. -1 \<le> t' \<and> (t = -1 \<longrightarrow> t' = -1) \<and> stage s' = at_turn t' (stage s)"
proof -
  have keep: "stage s = at_turn (currentTurn (nv s)) (stage s)" by (simp add: stage_def)
  show ?thesis
  proof (cases "svDuplicate s \<or> currentTurn (nv s) \<noteq> t \<or> 1 = giNPlayers (svGi s)")
    case False
    then have "s' = s" "currentTurn (nv s) = t" using assms(1) by (auto simp: setTurn_def Let_def)
    with keep assms(2) show ?thesis by auto
  next
    case True
    with assms show ?thesis
      by (auto simp: setTurn_def Let_def DUP_PLAYER_def PICK_CUR_def getCurSeconds_def split: if_splits
          dest!: stage_ask_model) (rule exI, rule conjI[rotated], rule refl, simp)+
  qed
qed

named_theorems stage_step

lemma setTurn_none:
  "setTurn (-1) s = Some s' \<Longrightarrow> stage_ok d (stage s) \<longrightarrow> stage_ok d (stage s') \<and> fst (stage s') = fst (stage s) \<and> currentTurn (nv s') = -1"
  using stage_setTurn[of "-1" s s'] by (auto simp: stage_def)

lemma setTurn_silent [stage_step]:
  "setTurn (-1) (SETSTATE st s) = Some s' \<Longrightarrow> stage s' = at_turn (-1) (at_state st (stage s))"
  using stage_setTurn[of "-1" "SETSTATE st s" s'] by auto

lemma setTurn_zero [stage_step]:
  assumes "setTurn 0 (SETSTATE XWSTATE_INTURN s) = Some s'"
  shows "stage_ok d (stage s) \<longrightarrow> stage_ok d (stage s') \<and> fst (stage s') = XWSTATE_INTURN"
  using stage_setTurn[OF assms] stage_ok_turn[of d "at_state XWSTATE_INTURN (stage s)"] by auto

lemma turn_picked:
  assumes "pick_turn t s = Some (t', s')" "-1 \<le> t \<or> t = PICK_CUR"
  shows "stage s' = stage s \<and> -1 \<le> t'"
proof -
  have ask: "ask_model model_getNextTurn s = Some (u, s1) \<Longrightarrow> stage s1 = stage s \<and> -1 \<le> u" for u s1
    using stage_ask_model[of model_getNextTurn s u s1] by (auto simp: ask_model_def dest: stage_next_turn)
  from assms ask show ?thesis
    by (auto simp: pick_turn_def PICK_CUR_def PICK_NEXT_def split: if_splits)
qed
lemma turn_settled:
  assumes "turn_or_end old t s = Some (go, s')" "-1 \<le> t" "stage_ok d (stage s)"
  shows "stage_ok d (stage s') \<and> fst (stage s') \<in> {XWSTATE_INTURN, XWSTATE_NEEDSEND_ENDGAME}"
proof -
  have moved: "stage_ok d (stage s2) \<and> fst (stage s2) = XWSTATE_INTURN"
    if t: "setTurn u s1 = Some s2" "-1 \<le> u" and s1: "stage s1 = at_state XWSTATE_INTURN (stage s)" for u s1 s2
  proof -
    obtain u' where u: "-1 \<le> u'" "stage s2 = at_turn u' (stage s1)" using stage_setTurn[OF t] by blast
    then show ?thesis using stage_ok_turn[OF _ _ u(1), of d "stage s1"] s1 assms(3) by simp
  qed
  from assms(1) obtain s1 goOn where s1: "stage s1 = at_state XWSTATE_INTURN (stage s)"
      and r: "(if goOn then do { s \<leftarrow> setTurn t s1; Some (False, s) }
        else if \<not> amClient s1 then Some (True, SETSTATE XWSTATE_NEEDSEND_ENDGAME s1)
        else if old \<ge> 0 then do { s \<leftarrow> setTurn (-1) s1; Some (False, s) }
        else Some (False, s1)) = Some (go, s')"
  proof -
    from assms(1) obtain left goOn s1 where run: "tileCountsOk s = Some left"
        "(if left then NPASSES_OK (SETSTATE XWSTATE_INTURN s) else Some (False, SETSTATE XWSTATE_INTURN s)) = Some (goOn, s1)"
        "(if goOn then do { s \<leftarrow> setTurn t s1; Some (False, s) }
          else if \<not> amClient s1 then Some (True, SETSTATE XWSTATE_NEEDSEND_ENDGAME s1)
          else if old \<ge> 0 then do { s \<leftarrow> setTurn (-1) s1; Some (False, s) }
          else Some (False, s1)) = Some (go, s')"
      unfolding turn_or_end_def Let_def by (auto simp del: split_paired_Ex)
    from run(2) have "stage s1 = at_state XWSTATE_INTURN (stage s)" by (auto split: if_splits dest!: stage_NPASSES_OK)
    with run(3) show thesis by (rule that[rotated])
  qed
  consider s3 where "setTurn t s1 = Some s3" "s' = s3" | "s' = SETSTATE XWSTATE_NEEDSEND_ENDGAME s1"
    | s3 where "setTurn (-1) s1 = Some s3" "s' = s3" | "s' = s1"
    using r by (auto split: if_splits)
  then show ?thesis
  proof cases
    case 1
    with moved[OF 1(1) assms(2) s1] show ?thesis by simp
  next
    case 2
    with s1 assms(3) show ?thesis by simp
  next
    case 3
    with moved[OF 3(1) _ s1] show ?thesis by simp
  next
    case 4
    with s1 assms(3) show ?thesis by simp
  qed
qed

lemma stage_show [simp]:
  "stage (upd_nv (\<lambda>n. n\<lparr>stateAfterShow := gameState n\<rparr>) s) =
     (fst (stage s), fst (stage s), snd (snd (stage s)))"
  by (simp add: stage_def upd_nv_def sizes_def)

lemma stage_ok_show:
  "stage_ok d g \<Longrightarrow> fst g \<in> {XWSTATE_INTURN, XWSTATE_NEEDSEND_ENDGAME} \<Longrightarrow>
     stage_ok d (XWSTATE_NEED_SHOWSCORE, fst g, snd (snd g))"
  by (cases g) (simp add: used_states_def)

lemma stage_shown_later:
  assumes "show_previous go s = (go', s')" "stage_ok d (stage s)" "fst (stage s) \<in> {XWSTATE_INTURN, XWSTATE_NEEDSEND_ENDGAME}"
  shows "stage_ok d (stage s')"
proof -
  from assms(1) have "stage s' = stage s \<or> stage s' = (XWSTATE_NEED_SHOWSCORE, fst (stage s), snd (snd (stage s)))"
    unfolding show_previous_def Let_def by (auto split: if_splits)
  then show ?thesis using stage_ok_show[OF assms(2,3)] assms(2) by (elim disjE) simp_all
qed

lemma stage_nextTurn:
  assumes "nextTurn t s = Some s'" "-1 \<le> t \<or> t = PICK_CUR"
  shows "stage_ok d (stage s) \<longrightarrow> stage_ok d (stage s')"
proof
  assume ok: "stage_ok d (stage s)"
  from assms(1) obtain t1 s1 m1 s2 where pick: "pick_turn t s = Some (t1, s1)"
      and set: "turn_or_end (currentTurn (nv s)) t1 s1 = Some (m1, s2)"
    by (auto simp: nextTurn_def Let_def)
  obtain m2 s3 where shown: "show_previous m1 s2 = (m2, s3)" by (cases "show_previous m1 s2")
  with assms(1) pick set have rest: "stage s' = stage s3"
    by (auto simp: nextTurn_def Let_def split: if_splits dest!: stage_resetEngines stage_robot_moves_now)
  have "stage s1 = stage s" "-1 \<le> t1" using turn_picked[OF pick assms(2)] by auto
  then show "stage_ok d (stage s')"
    using turn_settled[OF set] ok stage_shown_later[OF shown] rest by simp
qed

lemma nextTurn_step [stage_step]:
  "nextTurn PICK_NEXT s = Some s' \<Longrightarrow> stage_ok d (stage s) \<longrightarrow> stage_ok d (stage s')"
  "nextTurn PICK_CUR s = Some s' \<Longrightarrow> stage_ok d (stage s) \<longrightarrow> stage_ok d (stage s')"
  "nextTurn (int n) s = Some s' \<Longrightarrow> stage_ok d (stage s) \<longrightarrow> stage_ok d (stage s')"
  by (erule stage_nextTurn, simp add: PICK_NEXT_def)+
lemma sendBadWordMsgs_step [stage_step]: "sendBadWordMsgs s = Some s' \<Longrightarrow> stage_ok d (stage s) \<longrightarrow> stage_ok d (stage s')"
  by (auto simp: sendBadWordMsgs_def Let_def freeBWI_def split: if_splits option.splits prod.splits dest!: stage_same stage_step)

lemma tellMoveWasLegal_step [stage_step]: "tellMoveWasLegal s = Some s' \<Longrightarrow> stage_ok d (stage s) \<longrightarrow> stage_ok d (stage s')"
  by (auto simp: tellMoveWasLegal_def Let_def split: if_splits option.splits prod.splits dest!: stage_same stage_step)

lemma handleIllegalWord_step [stage_step]: "handleIllegalWord s st = Some (a, s', st') \<Longrightarrow> stage_ok d (stage s) \<longrightarrow> stage_ok d (stage s')"
  by (auto simp: handleIllegalWord_def Let_def split: if_splits option.splits prod.splits dest!: stage_same stage_step)

lemma reflectMove_step [stage_step]: "reflectMove s st = Some (a, s', st') \<Longrightarrow> stage_ok d (stage s) \<longrightarrow> stage_ok d (stage s')"
  by (auto simp: reflectMove_def Let_def split: if_splits option.splits prod.splits dest!: stage_same stage_step)

lemma reflectMoveAndInform_step [stage_step]: "reflectMoveAndInform s st = Some (a, s', st') \<Longrightarrow> stage_ok d (stage s) \<longrightarrow> stage_ok d (stage s')"
  by (auto simp: reflectMoveAndInform_def Let_def split: if_splits option.splits prod.splits dest!: stage_same stage_step)

lemma finishMove_ends:
  assumes "finishMove ts pl s = Some s'"
  shows "\<exists>s1. stage s1 = stage s \<and>
    (setTurn (-1) (SETSTATE XWSTATE_MOVE_CONFIRM_WAIT s1) = Some s' \<or> nextTurn PICK_NEXT s1 = Some s')"
proof -
  have told: "stage s2 = stage s1"
    if "(if amClient s1 then do { s \<leftarrow> sendMoveTo pl True new None s1 SERVER_DEVICE; Some (True, s) }
         else do {
           (ok, s) \<leftarrow> checkMoveAllowed pl s1;
           s \<leftarrow> sendMoveToClientsExcept pl ok new None (int SERVER_DEVICE) s;
           Some (ok, s)
         }) = Some (ok, s2)" for s1 new ok s2
    using that by (auto split: if_splits dest!: stage_same)
  have undone: "stage s2 = stage s1"
    if "(if \<not> ok \<and> \<not> amClient s1 then do {
           s \<leftarrow> badWordMoveUndoAndTellUser (illegalWordInfo s1) s1; Some (freeBWI s) }
         else Some s1) = Some s2" for s1 ok s2
    using that by (auto simp: freeBWI_def split: if_splits dest!: stage_same)
  from assms obtain s1 called n new s2 ok s3 r s4 s5 s6 where
    run: "on_pool (\<lambda>pool. pool_removeTiles pool ts) s = Some s1" "mem_put pl False (pickTilesCalled s1) = Some called"
      "fetchTiles pl n None ts (s1\<lparr>pickTilesCalled := called\<rparr>) = Some (new, s2)"
    and tell: "(if amClient s2 then do { s \<leftarrow> sendMoveTo pl True new None s2 SERVER_DEVICE; Some (True, s) }
         else do {
           (ok, s) \<leftarrow> checkMoveAllowed pl s2;
           s \<leftarrow> sendMoveToClientsExcept pl ok new None (int SERVER_DEVICE) s;
           Some (ok, s)
         }) = Some (ok, s3)"
    and commit: "commit_turn pl new s3 = Some (r, s4)" "sortTilesIf pl s4 = Some s5"
    and undo: "(if \<not> ok \<and> \<not> amClient s5 then do {
           s \<leftarrow> badWordMoveUndoAndTellUser (illegalWordInfo s5) s5; Some (freeBWI s) }
         else Some s5) = Some s6"
    and last: "(if amClient s6 \<and> phoniesAction (svGi s6) = PHONIES_DISALLOW \<and> n > 0
         then setTurn (-1) (SETSTATE XWSTATE_MOVE_CONFIRM_WAIT s6) else nextTurn PICK_NEXT s6) = Some s'"
    unfolding finishMove_def Let_def by (auto simp del: if_split)
  have "stage s2 = stage s"
    using stage_fetchTiles[OF run(3)] stage_on_pool[OF run(1)] run(2) by (auto simp: mem_put_def split: if_splits)
  then have "stage s6 = stage s"
    using told[OF tell] stage_commit_turn[OF commit(1)] stage_sortTilesIf[OF commit(2)] undone[OF undo] by simp
  then show ?thesis using last by (intro exI[of _ s6]) (auto split: if_splits)
qed

lemma finishMove_step [stage_step]: "finishMove ts pl s = Some s' \<Longrightarrow> stage_ok d (stage s) \<longrightarrow> stage_ok d (stage s')"
  by (auto dest!: finishMove_ends stage_step)

lemma commitTrade_step [stage_step]: "server_commitTrade s a b = Some s' \<Longrightarrow> stage_ok d (stage s) \<longrightarrow> stage_ok d (stage s')"
  by (auto simp: server_commitTrade_def Let_def split: if_splits option.splits prod.splits dest!: stage_same stage_step)

lemma doEndGame_step [stage_step]: "doEndGame q s = Some s' \<Longrightarrow> stage_ok d (stage s) \<longrightarrow> stage_ok d (stage s')"
  by (auto simp: doEndGame_def Let_def split: if_splits option.splits prod.splits dest!: stage_same stage_step)

lemma endGameInternal_step [stage_step]: "endGameInternal q s = Some s' \<Longrightarrow> stage_ok d (stage s) \<longrightarrow> stage_ok d (stage s')"
  by (auto simp: endGameInternal_def Let_def split: if_splits option.splits prod.splits dest!: stage_same stage_step)

lemma endGame_step [stage_step]: "server_endGame s = Some s' \<Longrightarrow> stage_ok d (stage s) \<longrightarrow> stage_ok d (stage s')"
  by (auto simp: server_endGame_def Let_def split: if_splits option.splits prod.splits dest!: stage_same stage_step)

lemma handleMoveOk_step [stage_step]: "handleMoveOk s = Some (a, s') \<Longrightarrow> stage_ok d (stage s) \<longrightarrow> stage_ok d (stage s')"
  by (auto simp: handleMoveOk_def Let_def split: if_splits option.splits prod.splits dest!: stage_same stage_step)

lemma stage_nextTurn_any: "nextTurn t s = Some s' \<Longrightarrow> 0 \<le> t \<longrightarrow> stage_ok d (stage s) \<longrightarrow> stage_ok d (stage s')"
  by (auto dest: stage_nextTurn)

lemma stage_informMissing [simp]: "stage (informMissing s) = stage s"
  by (simp add: informMissing_def Let_def)

lemma reflectUndos_step [stage_step]: "reflectUndos s st code = Some (a, s', st') \<Longrightarrow> stage_ok d (stage s) \<longrightarrow> stage_ok d (stage s')"
  by (auto simp: reflectUndos_def Let_def split: if_splits option.splits prod.splits dest!: stage_same stage_nextTurn_any)

lemma handleUndo_step [stage_step]: "server_handleUndo s limit = Some (a, s') \<Longrightarrow> stage_ok d (stage s) \<longrightarrow> stage_ok d (stage s')"
  by (auto simp: server_handleUndo_def Let_def split: if_splits option.splits prod.splits dest!: stage_same stage_step)

lemma storeTurn_step [stage_step]: "dupe_storeTurn t f s = Some s' \<Longrightarrow> stage_ok d (stage s) \<longrightarrow> stage_ok d (stage s')"
  by (auto simp: dupe_storeTurn_def Let_def split: if_splits option.splits prod.splits dest!: stage_same stage_step)

lemma commitMoveImpl_step [stage_step]: "commitMoveImpl s pl ts f = Some (a, s') \<Longrightarrow> stage_ok d (stage s) \<longrightarrow> stage_ok d (stage s')"
  by (auto simp: commitMoveImpl_def Let_def split: if_splits option.splits prod.splits dest!: stage_same stage_step)

lemma commitMove_step [stage_step]: "server_commitMove s pl ts = Some (a, s') \<Longrightarrow> stage_ok d (stage s) \<longrightarrow> stage_ok d (stage s')"
  by (auto simp: server_commitMove_def Let_def split: if_splits option.splits prod.splits dest!: stage_same stage_step)

lemma force_player_step [stage_step]: "force_player s ii = Some s' \<Longrightarrow> stage_ok d (stage s) \<longrightarrow> stage_ok d (stage s')"
  by (auto simp: force_player_def Let_def split: if_splits option.splits prod.splits dest!: stage_same stage_step)

lemma forced_step [stage_step]:
  assumes "ofold force_player s iis = Some s'"
  shows "stage_ok d (stage s) \<longrightarrow> stage_ok d (stage s')"
proof
  assume "stage_ok d (stage s)"
  then show "stage_ok d (stage s')"
    by (rule ofold_invariant[where P = "\<lambda>t. stage_ok d (stage t)", OF _ _ assms]) (auto dest: force_player_step)
qed

lemma forceCommits_step [stage_step]: "dupe_forceCommits s = Some s' \<Longrightarrow> stage_ok d (stage s) \<longrightarrow> stage_ok d (stage s')"
  by (auto simp: dupe_forceCommits_def Let_def split: if_splits option.splits prod.splits dest!: stage_same stage_step)

lemma handleClientMoves_step [stage_step]: "dupe_handleClientMoves s st = Some (a, s', st') \<Longrightarrow> stage_ok d (stage s) \<longrightarrow> stage_ok d (stage s')"
  by (auto simp: dupe_handleClientMoves_def Let_def split: if_splits option.splits prod.splits dest!: stage_same stage_step)

lemma handleServerMoves_step [stage_step]: "dupe_handleServerMoves s st = Some (a, s', st') \<Longrightarrow> stage_ok d (stage s) \<longrightarrow> stage_ok d (stage s')"
  by (auto simp: dupe_handleServerMoves_def Let_def split: if_splits option.splits prod.splits dest!: stage_same stage_step)

lemma handleServerTrade_step [stage_step]: "dupe_handleServerTrade s st = Some (a, s', st') \<Longrightarrow> stage_ok d (stage s) \<longrightarrow> stage_ok d (stage s')"
  by (auto simp: dupe_handleServerTrade_def Let_def split: if_splits option.splits prod.splits dest!: stage_same stage_step)

lemma handleStuff_step [stage_step]: "dupe_handleStuff s st = Some (a, s', st') \<Longrightarrow> stage_ok d (stage s) \<longrightarrow> stage_ok d (stage s')"
  by (auto simp: dupe_handleStuff_def Let_def split: if_splits option.splits prod.splits DUPE_STUFF.splits dest!: stage_same stage_step)

lemma handleRegistrationMsg_step [stage_step]: "handleRegistrationMsg s st = Some (a, s', st') \<Longrightarrow> stage_ok d (stage s) \<longrightarrow> stage_ok d (stage s')"
  by (auto simp: handleRegistrationMsg_def Let_def split: if_splits option.splits prod.splits dest!: stage_same stage_step)

lemma readInitialMessage_step [stage_step]: "client_readInitialMessage s st = Some (a, s', st') \<Longrightarrow> stage_ok d (stage s) \<longrightarrow> stage_ok d (stage s')"
  by (auto simp: client_readInitialMessage_def Let_def split: if_splits option.splits prod.splits dest!: stage_same stage_step)

lemma robot_trades_step [stage_step]: "robot_trades t e s = Some (a, s') \<Longrightarrow> stage_ok d (stage s) \<longrightarrow> stage_ok d (stage s')"
  by (auto simp: robot_trades_def Let_def split: if_splits option.splits prod.splits dest!: stage_same stage_step)

lemma robot_plays_step [stage_step]: "robot_plays t e c mv s = Some (a, s') \<Longrightarrow> stage_ok d (stage s) \<longrightarrow> stage_ok d (stage s')"
  by (auto simp: robot_plays_def Let_def split: if_splits option.splits prod.splits dest!: stage_same stage_step)

lemma makeRobotMove_step [stage_step]: "makeRobotMove s = Some (a, s') \<Longrightarrow> stage_ok d (stage s) \<longrightarrow> stage_ok d (stage s')"
  by (auto simp: makeRobotMove_def Let_def split: if_splits option.splits prod.splits dest!: stage_same stage_step)

lemma do_begin_step [stage_step]: "do_begin s = Some (a, s') \<Longrightarrow> stage_ok d (stage s) \<longrightarrow> stage_ok d (stage s')"
  by (auto simp: do_begin_def Let_def split: if_splits option.splits prod.splits dest!: stage_same stage_step)

lemma do_inturn_step [stage_step]: "do_inturn s = Some (a, b, s') \<Longrightarrow> stage_ok d (stage s) \<longrightarrow> stage_ok d (stage s')"
  by (auto simp: do_inturn_def Let_def split: if_splits option.splits prod.splits dest!: stage_same stage_step)
section \<open>Steps and messages\<close>

lemma upd_nv_after: "stateAfterShow (nv (upd_nv (\<lambda>n. n\<lparr>prevMoveStream := None, prevWordsStream := None\<rparr>) (emit ev s))) =
    stateAfterShow (nv s)"
  by (simp add: upd_nv_def emit_def)

lemma showPrevScore_state:
  assumes "showPrevScore s = Some s'"
  shows "s' = SETSTATE (stateAfterShow (nv s)) s \<or>
    (\<exists>ev. s' = SETSTATE (stateAfterShow (nv s)) (upd_nv (\<lambda>n. n\<lparr>prevMoveStream := None, prevWordsStream := None\<rparr>) (emit ev s)))"
proof (cases "svDuplicate s \<or> showRobotScores (nv s)")
  case True
  with assms obtain t st where
    "s' = (let s = upd_nv (\<lambda>n. n\<lparr>prevMoveStream := None, prevWordsStream := None\<rparr>)
                 (emit (EvInformMove t st (prevWordsStream (nv s))) s) in SETSTATE (stateAfterShow (nv s)) s)"
    unfolding showPrevScore_def Let_def if_P[OF True] by (auto simp del: if_split)
  then show ?thesis by (auto simp: Let_def upd_nv_after)
next
  case False
  with assms show ?thesis by (simp add: showPrevScore_def)
qed

lemma showPrevScore_step:
  assumes "showPrevScore s = Some s'" "gameState (nv s) = XWSTATE_NEED_SHOWSCORE" "stage_ok d (stage s)"
  shows "stage_ok d (stage s')"
proof -
  have "stage s = (gameState (nv s), stateAfterShow (nv s), snd (snd (stage s)))" by (simp add: stage_def)
  then have "stage_ok d (at_state (stateAfterShow (nv s)) (stage s))"
    using stage_ok_shown[of d _ _ "snd (snd (stage s))"] assms(2,3) by metis
  then show ?thesis using showPrevScore_state[OF assms(1)] by auto
qed

lemma do_state_step [stage_step]:
  assumes "do_state s = Some (r, go, s')"
  shows "stage_ok d (stage s) \<longrightarrow> stage_ok d (stage s')"
proof
  assume ok: "stage_ok d (stage s)"
  show "stage_ok d (stage s')"
  proof (cases "gameState (nv s) = XWSTATE_NEED_SHOWSCORE")
    case True
    with assms ok show ?thesis by (auto simp: do_state_def dest: showPrevScore_step)
  next
    case False
    with assms ok show ?thesis
      by (auto simp: do_state_def split: XW_State.splits dest!: stage_same stage_step)
  qed
qed

lemma server_do_step:
  assumes "server_do s = Some (r, s')" "stage_ok False (stage s)"
  shows "stage_ok False (stage s')"
proof -
  from assms(2) have "\<not> serverDoing s" by (simp add: stage_def)
  then obtain go s1 where run: "do_state (s\<lparr>serverDoing := True\<rparr>) = Some (r, go, s1)"
      and "s' = (if go then emit EvRequestTime s1 else s1)\<lparr>serverDoing := False\<rparr>"
    using assms(1) by (auto simp: server_do_def Let_def split: if_splits)
  moreover have "stage_ok True (stage (s\<lparr>serverDoing := True\<rparr>))" using stage_ok_doing[OF assms(2)] by simp
  ultimately show ?thesis using do_state_step[OF run] stage_ok_doing[of True "stage s1" False] by simp
qed

lemma handle_message_step [stage_step]:
  "handle_message code s st = Some (a, s', st') \<Longrightarrow> stage_ok d (stage s) \<longrightarrow> stage_ok d (stage s')"
  by (cases code) (auto simp: handle_message_def split: if_splits dest!: stage_same stage_step)

lemma stage_readProto [stage_same]: "readProto s st = Some (code, s', st') \<Longrightarrow> stage s' = stage s"
  by (auto simp: readProto_def Let_def split: if_splits option.splits prod.splits dest!: stage_same)

lemma receiveMessage_step:
  "server_receiveMessage s st = Some (a, s') \<Longrightarrow> stage_ok d (stage s) \<longrightarrow> stage_ok d (stage s')"
  by (auto simp: server_receiveMessage_def Let_def dest!: stage_readProto handle_message_step)
lemma sizes_ok:
  "sizes s = replicate 5 MAX_NUM_PLAYERS \<longleftrightarrow>
     length (addresses (nv s)) = MAX_NUM_PLAYERS \<and> length (dupTurnsMade (nv s)) = MAX_NUM_PLAYERS
     \<and> length (dupTurnsForced (nv s)) = MAX_NUM_PLAYERS \<and> length (svPlayers s) = MAX_NUM_PLAYERS
     \<and> length (pickTilesCalled s) = MAX_NUM_PLAYERS"
  by (simp add: sizes_def numeral_eq_Suc)

lemma initServer_step:
  assumes "initServer s = Some s'" "sizes s = replicate 5 MAX_NUM_PLAYERS" "\<not> serverDoing s"
  shows "stage_ok False (stage s')"
proof -
  from assms(1) obtain s1 s2 where set: "setTurn (-1) s = Some s1"
      and sync: "syncPlayers (SETSTATE (if amClient s1 then XWSTATE_NONE else XWSTATE_BEGIN) s1) = Some s2"
      and s': "stage s' = stage s2"
    by (auto simp: initServer_def Let_def stage_def upd_nv_def sizes_def)
  obtain t where "stage s1 = at_turn (-1) (stage s)" using stage_setTurn[OF set] by auto
  then have "stage s1 = (gameState (nv s), stateAfterShow (nv s), -1, False, sizes s)"
    using assms(3) by (simp add: stage_def)
  then show ?thesis using stage_syncPlayers[OF sync] s' assms(2) by (simp add: used_states_def)
qed

lemma server_make_step: "server_make m u = Some s \<Longrightarrow> stage_ok False (stage s)"
  unfolding server_make_def
  by (erule initServer_step) (simp_all add: sizes_ok zero_server_def zero_nv_def)

lemma server_reset_step:
  assumes "server_reset s = Some s'" "stage_ok False (stage s)"
  shows "stage_ok False (stage s')"
proof -
  have "length (pickTilesCalled s) = MAX_NUM_PLAYERS" "\<not> serverDoing s"
    using assms(2) by (simp_all add: stage_def sizes_ok)
  then show ?thesis
    using initServer_step[OF assms(1)[unfolded server_reset_def]]
    by (simp add: cleanupServer_def zero_nv_def sizes_ok)
qed

lemma stage_prefsChanged [simp]: "stage (server_prefsChanged cp s) = stage s"
  by (simp add: server_prefsChanged_def stage_def upd_nv_def sizes_def)

lemma stage_wakeRobot [stage_same]: "wakeRobotProc s = Some s' \<Longrightarrow> stage s' = stage s"
  by (auto simp: wakeRobotProc_def)

lemma stage_askPickTiles [stage_same]: "server_askPickTiles s t ts n = Some (a, s') \<Longrightarrow> stage s' = stage s"
  by (auto simp: server_askPickTiles_def split: if_splits dest!: stage_same)

lemma stage_getTimerSeconds [stage_same]: "server_getTimerSeconds s t = Some (a, s') \<Longrightarrow> stage s' = stage s"
  by (auto simp: server_getTimerSeconds_def Let_def split: if_splits prod.splits dest!: stage_getCurSeconds)

lemma stage_writeToStream [stage_same]: "server_writeToStream s st = Some (s', st') \<Longrightarrow> stage s' = stage s"
  by (auto simp: server_writeToStream_def Let_def stage_def upd_nv_def sizes_def)

lemma checkDupTimerProc_step:
  "checkDupTimerProc s = Some (a, s') \<Longrightarrow> stage_ok False (stage s) \<Longrightarrow> stage_ok False (stage s')"
  by (auto simp: checkDupTimerProc_def split: if_splits dest!: stage_setDupCheckTimer dest: server_do_step)

section \<open>Calls from outside and the servers they reach\<close>

text \<open>One call of the board, the platform or the connection layer, or a change they make in the model
  the server shares with them.\<close>

inductive server_call :: "serverCtxt \<Rightarrow> serverCtxt \<Rightarrow> bool" where
  call_do: "server_do s = Some (r, s') \<Longrightarrow> server_call s s'"
| call_receive: "server_receiveMessage s st = Some (r, s') \<Longrightarrow> server_call s s'"
| call_commitMove: "server_commitMove s pl ts = Some (r, s') \<Longrightarrow> server_call s s'"
| call_commitTrade: "server_commitTrade s olds news = Some s' \<Longrightarrow> server_call s s'"
| call_endGame: "server_endGame s = Some s' \<Longrightarrow> server_call s s'"
| call_undo: "server_handleUndo s limit = Some (r, s') \<Longrightarrow> server_call s s'"
| call_tilesPicked: "server_tilesPicked s pl picked = Some s' \<Longrightarrow> server_call s s'"
| call_askPickTiles: "server_askPickTiles s t ts n = Some (r, s') \<Longrightarrow> server_call s s'"
| call_pause: "server_pause s t msg = Some s' \<Longrightarrow> server_call s s'"
| call_unpause: "server_unpause s t msg = Some s' \<Longrightarrow> server_call s s'"
| call_chat: "server_sendChat s txt t = Some s' \<Longrightarrow> server_call s s'"
| call_connect: "server_initClientConnection s st = Some (r, s') \<Longrightarrow> server_call s s'"
| call_engine: "server_getEngineFor s pl = Some (e, s') \<Longrightarrow> server_call s s'"
| call_resetEngine: "server_resetEngine s pl = Some s' \<Longrightarrow> server_call s s'"
| call_resetEngines: "server_resetEngines s = Some s' \<Longrightarrow> server_call s s'"
| call_timerSeconds: "server_getTimerSeconds s t = Some (i, s') \<Longrightarrow> server_call s s'"
| call_write: "server_writeToStream s st = Some (s', st') \<Longrightarrow> server_call s s'"
| call_wakeRobot: "wakeRobotProc s = Some s' \<Longrightarrow> server_call s s'"
| call_dupTimer: "checkDupTimerProc s = Some (r, s') \<Longrightarrow> server_call s s'"
| call_prefs: "server_call s (server_prefsChanged cp s)"
| call_model: "server_call s (s\<lparr>svModel := m\<rparr>)"
| call_reset: "server_reset s = Some s' \<Longrightarrow> server_call s s'"

inductive_cases server_callE: "server_call s s'"

inductive server_reachable :: "serverCtxt \<Rightarrow> bool" where
  made: "server_make m u = Some s \<Longrightarrow> server_reachable s"
| called: "server_reachable s \<Longrightarrow> server_call s s' \<Longrightarrow> server_reachable s'"

lemma server_call_step:
  assumes "server_call s s'" "stage_ok False (stage s)"
  shows "stage_ok False (stage s')"
  using assms(1)
proof cases
  case call_do
  then show ?thesis using assms(2) by (auto dest: server_do_step)
next
  case call_receive
  then show ?thesis using assms(2) receiveMessage_step[of s _ _ s' False] by blast
next
  case call_dupTimer
  then show ?thesis using assms(2) by (auto dest: checkDupTimerProc_step)
next
  case call_reset
  then show ?thesis using assms(2) by (auto dest: server_reset_step)
qed (use assms(2) in \<open>auto dest!: stage_same stage_step\<close>)

lemma reachable_stage_ok: "server_reachable s \<Longrightarrow> stage_ok False (stage s)"
  by (induction rule: server_reachable.induct) (auto dest: server_make_step server_call_step)

lemma reachable_stageD:
  assumes "server_reachable s"
  shows "gameState (nv s) \<in> used_states" "-1 \<le> currentTurn (nv s)" "\<not> serverDoing s"
    "sizes s = replicate 5 MAX_NUM_PLAYERS"
    "gameState (nv s) = XWSTATE_GAMEOVER \<Longrightarrow> currentTurn (nv s) = -1"
    "gameState (nv s) = XWSTATE_MOVE_CONFIRM_WAIT \<Longrightarrow> currentTurn (nv s) = -1"
    "gameState (nv s) = XWSTATE_NEED_SHOWSCORE \<Longrightarrow> stateAfterShow (nv s) \<in> {XWSTATE_INTURN, XWSTATE_NEEDSEND_ENDGAME}"
  using reachable_stage_ok[OF assms] by (simp_all add: stage_def)

end
