(* ===== verification/Xw_EngineSpec.thy ===== *)
theory Xw_EngineSpec
  imports Xw_Engine Xw_ScoreSpec "HOL-Library.List_Lexorder"
begin

text \<open>
  What the move cache and the search of \<open>common/engine.c\<close> promise. Moves are compared by their bytes, so the
  order is the lexicographic one on keys; the sort of \<open>chooseMove\<close> ends with the moves in this order, and
  \<open>saveMoveIfQualifies\<close> keeps the best moves it has been shown.
\<close>

section \<open>The order of moves\<close>

text \<open>A move that fits the struct: at most seven tiles, a full array of blanks.\<close>

definition move_fits :: "possibleMove \<Rightarrow> bool" where
  "move_fits m \<longleftrightarrow> length (mtiles (pmMove m)) \<le> MAX_TRAY_TILES \<and> length (blankVals m) = MAX_COLS"

definition move_key :: "possibleMove \<Rightarrow> nat list" where
  "move_key m = pmScore m # move_bytes m"

lemma memcmp_order:
  "length as = length bs \<Longrightarrow> memcmp as bs = (if as = bs then 0 else if as < bs then -1 else 1)"
  by (induction as bs rule: memcmp.induct) (auto simp: Cons_less_Cons)

lemma concat_pairs_length: "length (concat (map (\<lambda>t. [f t, g t]) ts)) = 2 * length ts"
  by (induction ts) auto

lemma move_bytes_length: "move_fits m \<Longrightarrow> length (move_bytes m) = 49"
  by (simp add: move_bytes_def move_fits_def Let_def concat_pairs_length xw_consts) arith

lemma cmpMoves_order:
  assumes "move_fits m" "move_fits m'"
  shows "cmpMoves m m' = (if move_key m = move_key m' then 0 else if move_key m < move_key m' then -1 else 1)"
  using assms by (auto simp: cmpMoves_def move_key_def Cons_less_Cons memcmp_order move_bytes_length)

lemma cmpMoves_pos [simp]: "move_fits m \<Longrightarrow> move_fits m' \<Longrightarrow> cmpMoves m m' > 0 \<longleftrightarrow> move_key m' < move_key m"
  by (auto simp: cmpMoves_order)

lemma cmpMoves_nonneg [simp]: "move_fits m \<Longrightarrow> move_fits m' \<Longrightarrow> 0 \<le> cmpMoves m m' \<longleftrightarrow> move_key m' \<le> move_key m"
  by (auto simp: cmpMoves_order)

lemma cmpMoves_neg [simp]: "move_fits m \<Longrightarrow> move_fits m' \<Longrightarrow> cmpMoves m m' < 0 \<longleftrightarrow> move_key m < move_key m'"
  by (auto simp: cmpMoves_order)

lemma cmpMoves_nonpos [simp]: "move_fits m \<Longrightarrow> move_fits m' \<Longrightarrow> cmpMoves m m' \<le> 0 \<longleftrightarrow> move_key m \<le> move_key m'"
  by (auto simp: cmpMoves_order)

lemma no_move_fits [simp]: "move_fits no_move"
  by (simp add: move_fits_def no_move_def)

section \<open>Sorting\<close>

lemma sort_pass_mset: "sort_pass ms = (done, ms') \<Longrightarrow> mset ms' = mset ms"
  by (induction ms arbitrary: "done" ms' rule: sort_pass.induct) (auto split: if_splits prod.splits)

lemma sort_pass_length: "sort_pass ms = (done, ms') \<Longrightarrow> length ms' = length ms"
  using sort_pass_mset mset_eq_length by blast

lemma sort_pass_set: "sort_pass ms = (done, ms') \<Longrightarrow> set ms' = set ms"
  using sort_pass_mset mset_eq_setD by blast

lemma sort_pass_sorted:
  assumes "\<forall>m\<in>set ms. move_fits m" "sort_pass ms = (True, ms')"
  shows "ms' = ms \<and> sorted (map move_key ms)"
  using assms
proof (induction ms arbitrary: ms' rule: sort_pass.induct)
  case (1 a b ms)
  then show ?case
    by (auto split: if_splits prod.splits)
qed auto

lemma sort_pass_unchanged: "\<lbrakk>\<forall>m\<in>set ks. move_fits m; sorted (map move_key ks)\<rbrakk> \<Longrightarrow> sort_pass ks = (True, ks)"
  by (induction ks rule: sort_pass.induct) (auto split: prod.splits simp: not_less)

text \<open>One pass carries the largest element to the end: what is sorted and not below the rest stays.\<close>

lemma sort_pass_last:
  assumes "\<forall>m\<in>set (a # ms). move_fits m" "sort_pass (a # ms) = (done, ms')"
  shows "ms' \<noteq> [] \<and> (\<forall>m\<in>set (a # ms). move_key m \<le> move_key (last ms'))"
  using assms
proof (induction ms arbitrary: a "done" ms')
  case (Cons b ms)
  obtain d1 l1 where 1: "sort_pass (a # ms) = (d1, l1)" by (cases "sort_pass (a # ms)")
  obtain d2 l2 where 2: "sort_pass (b # ms) = (d2, l2)" by (cases "sort_pass (b # ms)")
  have "l1 \<noteq> [] \<and> (\<forall>m\<in>set (a # ms). move_key m \<le> move_key (last l1))"
    using Cons.IH[OF _ 1] Cons.prems(1) by simp
  moreover have "l2 \<noteq> [] \<and> (\<forall>m\<in>set (b # ms). move_key m \<le> move_key (last l2))"
    using Cons.IH[OF _ 2] Cons.prems(1) by simp
  moreover have "sort_pass (a # b # ms) = (if move_key b < move_key a then (False, b # l1) else (d2, a # l2))"
    using Cons.prems(1) by (simp del: sort_pass.simps add: sort_pass.simps(1)[of a b ms] 1 2)
  then have "ms' = (if move_key b < move_key a then b # l1 else a # l2)"
    using Cons.prems(2) by (auto simp del: sort_pass.simps split: if_splits)
  ultimately show ?case
    by (cases "move_key b < move_key a") (simp_all del: sort_pass.simps, meson order.trans less_imp_le, meson order.trans not_less)
qed simp

lemma sort_pass_append:
  assumes "\<forall>m\<in>set (ms @ ks). move_fits m" "sorted (map move_key ks)"
    "\<forall>m\<in>set ms. \<forall>k\<in>set ks. move_key m \<le> move_key k"
  shows "snd (sort_pass (ms @ ks)) = snd (sort_pass ms) @ ks"
  using assms
proof (induction ms rule: sort_pass.induct)
  case (1 a b ms)
  then show ?case by (auto split: prod.splits)
qed (simp_all add: sort_pass_unchanged)

lemma sort_moves_done: "sort_pass ms = (True, ms') \<Longrightarrow> sort_moves ms = Some ms'"
  by (subst sort_moves.simps) simp

lemma sort_moves_again: "sort_pass ms = (False, ms') \<Longrightarrow> sort_moves ms = sort_moves ms'"
  by (subst sort_moves.simps) simp

lemma sort_moves_suffix:
  assumes "\<forall>m\<in>set (ms @ ks). move_fits m" "sorted (map move_key ks)"
    "\<forall>m\<in>set ms. \<forall>k\<in>set ks. move_key m \<le> move_key k"
  shows "\<exists>ms'. sort_moves (ms @ ks) = Some ms' \<and> sorted (map move_key ms') \<and> mset ms' = mset (ms @ ks)"
  using assms
proof (induction "length ms" arbitrary: ms ks)
  case 0
  then have "sort_pass ks = (True, ks)" by (intro sort_pass_unchanged) auto
  then show ?case using 0 sort_moves_done by simp
next
  case (Suc n)
  obtain d l where p: "sort_pass (ms @ ks) = (d, l)" by (cases "sort_pass (ms @ ks)")
  show ?case
  proof (cases d)
    case True
    with p sort_pass_sorted[OF Suc.prems(1)] have "l = ms @ ks" "sorted (map move_key (ms @ ks))" by auto
    with p True show ?thesis using sort_moves_done by simp
  next
    case False
    obtain a as where ms: "ms = a # as" using Suc.hyps(2) by (cases ms) auto
    obtain d' l' where q: "sort_pass ms = (d', l')" by (cases "sort_pass ms")
    have l: "l = l' @ ks" using sort_pass_append[OF Suc.prems] p q by simp
    have max: "l' \<noteq> []" "\<forall>m\<in>set ms. move_key m \<le> move_key (last l')"
      using sort_pass_last[of a as d' l'] q ms Suc.prems(1) by auto
    have sl: "set l' = set ms" using sort_pass_set[OF q] .
    have el: "l = butlast l' @ (last l' # ks)" using l max(1) by simp
    have bl: "set (butlast l') \<subseteq> set ms" using sl in_set_butlastD by fastforce
    have la: "last l' \<in> set ms" using sl last_in_set[OF max(1)] by simp
    have "\<exists>ms'. sort_moves (butlast l' @ (last l' # ks)) = Some ms' \<and> sorted (map move_key ms') \<and>
        mset ms' = mset (butlast l' @ (last l' # ks))"
    proof (rule Suc.hyps(1))
      show "n = length (butlast l')" using Suc.hyps(2) sort_pass_length[OF q] by simp
      show "\<forall>m\<in>set (butlast l' @ last l' # ks). move_fits m" using Suc.prems(1) bl la by auto
      show "sorted (map move_key (last l' # ks))" using Suc.prems(2,3) la by auto
      show "\<forall>m\<in>set (butlast l'). \<forall>k\<in>set (last l' # ks). move_key m \<le> move_key k"
        using Suc.prems(3) bl max(2) by auto
    qed
    moreover have "mset l = mset (ms @ ks)" using sort_pass_mset[OF p] .
    ultimately show ?thesis using sort_moves_again[of "ms @ ks" l] p False el by metis
  qed
qed

lemma sort_moves_spec:
  assumes "\<forall>m\<in>set ms. move_fits m"
  obtains ms' where "sort_moves ms = Some ms'" "sorted (map move_key ms')" "mset ms' = mset ms"
  using sort_moves_suffix[of ms "[]"] assms by auto

section \<open>The cache keeps the best moves\<close>

text \<open>\<open>worse prev m m'\<close>: of two moves the one that goes first when there is no room. Walking back
  (\<open>prev\<close>), these are the higher moves.\<close>

definition worse :: "bool \<Rightarrow> possibleMove \<Rightarrow> possibleMove \<Rightarrow> bool" where
  "worse prev m m' \<longleftrightarrow> (if prev then move_key m' < move_key m else move_key m < move_key m')"

definition no_better :: "bool \<Rightarrow> possibleMove \<Rightarrow> possibleMove \<Rightarrow> bool" where
  "no_better prev m m' \<longleftrightarrow> (if prev then move_key m' \<le> move_key m else move_key m \<le> move_key m')"

text \<open>A move is wanted when it has not been seen yet; a robot that keeps one move wants all.\<close>

definition wanted :: "engineCtxt \<Rightarrow> possibleMove \<Rightarrow> bool" where
  "wanted engine m \<longleftrightarrow> nMovesToSave engine = 1 \<or> worse (usePrev engine) m (lastSeenMove (miData engine))"

definition places :: "engineCtxt \<Rightarrow> possibleMove list" where
  "places engine = take (nMovesToSave engine) (savedMoves (miData engine))"

definition kept :: "engineCtxt \<Rightarrow> possibleMove multiset" where
  "kept engine = filter_mset (\<lambda>m. 0 < pmScore m) (mset (places engine))"

lemma no_better_trans: "no_better p a b \<Longrightarrow> no_better p b c \<Longrightarrow> no_better p a c"
  by (auto simp: no_better_def split: if_splits)

lemma no_better_refl [simp]: "no_better p a a"
  by (simp add: no_better_def)

lemma not_worse: "\<not> worse p a b \<longleftrightarrow> no_better p b a"
  by (auto simp: worse_def no_better_def)

lemma worse_no_better: "worse p a b \<Longrightarrow> no_better p a b"
  by (auto simp: worse_def no_better_def split: if_splits)

lemma mostest_loop_spec:
  assumes "\<forall>j<length ms. move_fits (ms ! j)" "ii + n \<le> length ms"
    "\<forall>k. mostest = Some k \<longrightarrow> k < ii \<and> (\<forall>j<ii. no_better prev (ms ! k) (ms ! j))"
    "mostest = None \<longleftrightarrow> ii = 0" "\<forall>j<ii. pmScore (ms ! j) \<noteq> 0"
  shows "case mostest_loop prev ms n ii mostest of
      (r, True) \<Rightarrow> \<exists>k<ii + n. r = Some k \<and> pmScore (ms ! k) = 0
    | (r, False) \<Rightarrow> (\<forall>j<ii + n. pmScore (ms ! j) \<noteq> 0) \<and>
        (0 < ii + n \<longrightarrow> (\<exists>k<ii + n. r = Some k \<and> (\<forall>j<ii + n. no_better prev (ms ! k) (ms ! j))))"
  using assms
proof (induction n arbitrary: ii mostest)
  case 0
  then show ?case by (cases mostest) auto
next
  case (Suc n)
  have m1: "j < Suc ii \<longleftrightarrow> j < ii \<or> j = ii" for j by auto
  show ?case
  proof (cases "pmScore (ms ! ii) = 0")
    case True
    then show ?thesis by auto
  next
    case False
    show ?thesis
    proof (cases mostest)
      case None
      then have "ii = 0" using Suc.prems by simp
      then show ?thesis
        using Suc.IH[of "Suc ii" "Some ii"] Suc.prems False None by simp
    next
      case (Some k)
      define K where "K = (if worse prev (ms ! ii) (ms ! k) then ii else k)"
      have k: "k < ii" "\<forall>j<ii. no_better prev (ms ! k) (ms ! j)" using Suc.prems(3) Some by auto
      have fk: "move_fits (ms ! k)" "move_fits (ms ! ii)" using Suc.prems(1,2) k(1) by auto
      have eq: "mostest_loop prev ms (Suc n) ii mostest = mostest_loop prev ms n (Suc ii) (Some K)"
        using False Some fk by (simp add: worse_def K_def)
      have "\<forall>j<Suc ii. no_better prev (ms ! K) (ms ! j)"
      proof (cases "worse prev (ms ! ii) (ms ! k)")
        case True
        have "no_better prev (ms ! ii) (ms ! j)" if "j < Suc ii" for j
          using that k(2) no_better_trans[OF worse_no_better[OF True], of "ms ! j"] by (cases "j = ii") simp_all
        then show ?thesis using True by (simp add: K_def)
      next
        case False
        then show ?thesis using k(2) not_worse[THEN iffD1, OF False] False by (auto simp: m1 K_def)
      qed
      moreover have "K < Suc ii" using k(1) by (auto simp: K_def)
      moreover have "\<forall>j<Suc ii. pmScore (ms ! j) \<noteq> 0" using Suc.prems(5) False by (auto simp: m1)
      ultimately show ?thesis
        using Suc.IH[of "Suc ii" "Some K"] Suc.prems(1,2) unfolding eq by (simp split: prod.splits bool.splits)
    qed
  qed
qed

text \<open>What one call does: a move that is wanted takes a free place, or the place of the worst move kept when
  that is worse.\<close>

lemma find_mostest_spec:
  assumes "\<forall>m\<in>set (savedMoves (miData e)). move_fits m" "move_fits m" "move_fits (lastSeenMove (miData e))"
    "nMovesToSave e \<le> length (savedMoves (miData e))" "0 < nMovesToSave e"
  shows "case find_mostest e m of
      (None, _) \<Rightarrow> \<not> wanted e m
    | (Some k, True) \<Rightarrow> wanted e m \<and> k < nMovesToSave e \<and> pmScore (savedMoves (miData e) ! k) = 0
    | (Some k, False) \<Rightarrow> wanted e m \<and> k < nMovesToSave e \<and> (nMovesToSave e = 1 \<or>
        (\<forall>j<nMovesToSave e. pmScore (savedMoves (miData e) ! j) \<noteq> 0 \<and>
           no_better (usePrev e) (savedMoves (miData e) ! k) (savedMoves (miData e) ! j)))"
proof (cases "nMovesToSave e = 1")
  case True
  then show ?thesis by (simp add: find_mostest_def wanted_def Let_def)
next
  case False
  show ?thesis
  proof (cases "wanted e m")
    case True
    have "find_mostest e m = mostest_loop (usePrev e) (savedMoves (miData e)) (nMovesToSave e) 0 None"
      using assms(2,3) True \<open>nMovesToSave e \<noteq> 1\<close> by (auto simp: find_mostest_def wanted_def worse_def Let_def)
    then show ?thesis
      using mostest_loop_spec[of "savedMoves (miData e)" 0 "nMovesToSave e" None "usePrev e"] assms(1,4,5) True
      by (auto split: prod.splits bool.splits)
  next
    case False
    then have "find_mostest e m = (None, False)"
      using assms(2,3) \<open>nMovesToSave e \<noteq> 1\<close> by (auto simp: find_mostest_def wanted_def worse_def Let_def split: if_splits)
    then show ?thesis using False by simp
  qed
qed

definition stored :: "nat \<Rightarrow> possibleMove \<Rightarrow> engineCtxt \<Rightarrow> engineCtxt" where
  "stored k m e = e\<lparr>miData := (miData e)\<lparr>savedMoves := (savedMoves (miData e))[k := m]\<rparr>\<rparr>"

lemma saveMove_cases:
  assumes "\<forall>m\<in>set (savedMoves (miData e)). move_fits m" "move_fits m" "move_fits (lastSeenMove (miData e))"
    "nMovesToSave e \<le> length (savedMoves (miData e))" "0 < nMovesToSave e" "nMovesToSave e = 1 \<Longrightarrow> \<not> usePrev e"
    "0 < pmScore m"
  obtains (unwanted) "\<not> wanted e m" "saveMoveIfQualifies e m = Some e"
  | (free) k where "wanted e m" "k < nMovesToSave e" "pmScore (savedMoves (miData e) ! k) = 0"
      "saveMoveIfQualifies e m = Some (stored k m e)"
  | (full) k where "wanted e m" "k < nMovesToSave e" "\<forall>j<nMovesToSave e. pmScore (savedMoves (miData e) ! j) \<noteq> 0 \<and>
        no_better (usePrev e) (savedMoves (miData e) ! k) (savedMoves (miData e) ! j)"
      "saveMoveIfQualifies e m = Some (if worse (usePrev e) (savedMoves (miData e) ! k) m then stored k m e else e)"
proof -
  obtain r found where f: "find_mostest e m = (r, found)" by (cases "find_mostest e m")
  note spec = find_mostest_spec[OF assms(1-5)]
  show thesis
  proof (cases r)
    case None
    then show thesis using spec f assms(4) by (intro unwanted) (auto simp: saveMoveIfQualifies_def Let_def)
  next
    case (Some k)
    let ?old = "savedMoves (miData e) ! k"
    have k: "wanted e m" "k < nMovesToSave e" using spec f Some by (auto split: bool.splits)
    then have kl: "k < length (savedMoves (miData e))" using assms(4) by simp
    have fo: "move_fits ?old" using assms(1) kl by simp
    have sv: "saveMoveIfQualifies e m = Some (if \<not> found \<and> \<not> worse (usePrev e) ?old m then e else stored k m e)"
      using f Some kl assms(2,4) fo by (auto simp: saveMoveIfQualifies_def stored_def worse_def Let_def)
    show thesis
    proof (cases found)
      case True
      then show thesis using spec f Some k sv by (intro free[of k]) auto
    next
      case False
      show thesis
      proof (cases "nMovesToSave e = 1 \<and> pmScore ?old = 0")
        case True
        then have "worse (usePrev e) ?old m" using assms(6,7) by (simp add: worse_def move_key_def Cons_less_Cons)
        then show thesis using True k sv by (intro free[of k]) auto
      next
        case nz: False
        then show thesis using spec f Some k sv False by (intro full[of k]) auto
      qed
    qed
  qed
qed

lemma stored_simps [simp]:
  "usePrev (stored k m e) = usePrev e" "nMovesToSave (stored k m e) = nMovesToSave e"
  "lastSeenMove (miData (stored k m e)) = lastSeenMove (miData e)"
  "savedMoves (miData (stored k m e)) = (savedMoves (miData e))[k := m]"
  "wanted (stored k m e) = wanted e"
  by (auto simp: stored_def wanted_def fun_eq_iff)

lemma places_stored: "k < nMovesToSave e \<Longrightarrow> places (stored k m e) = (places e)[k := m]"
  by (simp add: places_def take_update_swap)

lemma kept_stored:
  assumes "k < nMovesToSave e" "nMovesToSave e \<le> length (savedMoves (miData e))" "0 < pmScore m"
  shows "kept (stored k m e) = (if pmScore (savedMoves (miData e) ! k) = 0 then add_mset m (kept e)
           else add_mset m (kept e - {#savedMoves (miData e) ! k#}))"
proof -
  have "k < length (places e)" "places e ! k = savedMoves (miData e) ! k" using assms by (auto simp: places_def)
  then show ?thesis using assms by (simp add: kept_def places_stored mset_update filter_diff_mset)
qed

text \<open>The best \<open>n\<close> of the moves \<open>Q\<close>, when there are so many.\<close>

definition best_of :: "bool \<Rightarrow> nat \<Rightarrow> possibleMove multiset \<Rightarrow> possibleMove multiset \<Rightarrow> bool" where
  "best_of prev n Q K \<longleftrightarrow> K \<subseteq># Q \<and> size K = min n (size Q) \<and> (\<forall>m\<in>#Q - K. \<forall>m'\<in>#K. no_better prev m m')"

lemma best_of_room: "best_of prev n Q K \<Longrightarrow> size K < n \<Longrightarrow> best_of prev n (add_mset m Q) (add_mset m K)"
proof -
  assume b: "best_of prev n Q K" "size K < n"
  then have "K \<subseteq># Q" "\<not> size K < size Q" by (auto simp: best_of_def)
  then have "K = Q" using mset_subset_size[of K Q] by (auto simp: subset_mset_def)
  with b show ?thesis by (simp add: best_of_def)
qed

lemma best_of_keep:
  assumes "best_of prev n Q K" "size K = n" "\<forall>m'\<in>#K. no_better prev m m'"
  shows "best_of prev n (add_mset m Q) K"
proof -
  have sub: "K \<subseteq># Q" "n \<le> size Q" using assms by (auto simp: best_of_def)
  then have "add_mset m Q - K = add_mset m (Q - K)" using multiset_diff_union_assoc[OF sub(1), of "{#m#}"] by simp
  moreover have "K \<subseteq># add_mset m Q" using sub(1) by (metis mset_subset_eq_add_right subset_mset.trans add_mset_add_single union_commute)
  ultimately show ?thesis using assms sub(2) by (auto simp: best_of_def)
qed

lemma best_of_replace:
  assumes b: "best_of prev n Q K" "size K = n" "w \<in># K" "\<forall>m'\<in>#K. no_better prev w m'" "no_better prev w m"
  shows "best_of prev n (add_mset m Q) (add_mset m (K - {#w#}))"
proof -
  have sub: "K \<subseteq># Q" "n \<le> size Q" using b(1,2) by (auto simp: best_of_def)
  have out: "add_mset m Q - add_mset m (K - {#w#}) = add_mset w (Q - K)"
  proof -
    have "Q - (K - {#w#}) = add_mset w (Q - K)"
    proof (rule multiset_eqI)
      fix x
      have "count K x \<le> count Q x" using sub(1) by (simp add: mset_subset_eq_count)
      moreover have "0 < count K w" using b(3) by simp
      ultimately show "count (Q - (K - {#w#})) x = count (add_mset w (Q - K)) x" by auto
    qed
    then show ?thesis by simp
  qed
  have "K - {#w#} \<subseteq># Q" using sub(1) by (meson diff_subset_eq_self subset_mset.trans)
  moreover have "size (add_mset m (K - {#w#})) = n" using b(2,3) by (metis size_Suc_Diff1 size_add_mset)
  moreover have "no_better prev x y" if "x \<in># add_mset w (Q - K)" "y \<in># add_mset m (K - {#w#})" for x y
  proof -
    have "no_better prev x w" using that(1) b(1,3) by (auto simp: best_of_def)
    moreover have "no_better prev w y" using that(2) b(4,5) by (auto dest: in_diffD)
    ultimately show ?thesis by (rule no_better_trans)
  qed
  ultimately show ?thesis using sub(2) by (auto simp: best_of_def out)
qed

definition cache_ok :: "engineCtxt \<Rightarrow> bool" where
  "cache_ok e \<longleftrightarrow> (\<forall>m\<in>set (savedMoves (miData e)). move_fits m) \<and> move_fits (lastSeenMove (miData e)) \<and>
     nMovesToSave e \<le> length (savedMoves (miData e)) \<and> 0 < nMovesToSave e \<and> (nMovesToSave e = 1 \<longrightarrow> \<not> usePrev e)"

lemma cache_ok_stored: "cache_ok e \<Longrightarrow> move_fits m \<Longrightarrow> cache_ok (stored k m e)"
  using set_update_subset_insert[of "savedMoves (miData e)" k m] by (auto simp: cache_ok_def)

lemma places_nth: "cache_ok e \<Longrightarrow> j < nMovesToSave e \<Longrightarrow> savedMoves (miData e) ! j \<in> set (places e)"
  by (force simp: cache_ok_def places_def in_set_conv_nth)

lemma kept_room: "cache_ok e \<Longrightarrow> k < nMovesToSave e \<Longrightarrow> pmScore (savedMoves (miData e) ! k) = 0 \<Longrightarrow> size (kept e) < nMovesToSave e"
proof -
  assume a: "cache_ok e" "k < nMovesToSave e" "pmScore (savedMoves (miData e) ! k) = 0"
  then have "kept e \<subset># mset (places e)"
    using places_nth[OF a(1,2)] by (auto simp: kept_def subset_mset_def filter_mset_eq_conv)
  from mset_subset_size[OF this] show ?thesis using a by (simp add: places_def cache_ok_def)
qed

lemma kept_full:
  "cache_ok e \<Longrightarrow> \<forall>j<nMovesToSave e. pmScore (savedMoves (miData e) ! j) \<noteq> 0 \<Longrightarrow> kept e = mset (places e)"
  by (auto simp: kept_def filter_mset_eq_conv places_def cache_ok_def in_set_conv_nth)

lemma saveMove_step:
  assumes ok: "cache_ok e" "move_fits m" "0 < pmScore m" and b: "best_of (usePrev e) (nMovesToSave e) Q (kept e)"
  shows "\<exists>e'. saveMoveIfQualifies e m = Some e' \<and> cache_ok e' \<and> usePrev e' = usePrev e \<and>
    nMovesToSave e' = nMovesToSave e \<and> wanted e' = wanted e \<and>
    best_of (usePrev e) (nMovesToSave e) (if wanted e m then add_mset m Q else Q) (kept e')"
proof -
  note c = ok(1)[unfolded cache_ok_def]
  show ?thesis
  proof (rule saveMove_cases[of e m])
    assume "\<not> wanted e m" "saveMoveIfQualifies e m = Some e"
    then show ?thesis using ok b by simp
  next
    fix k assume k: "wanted e m" "k < nMovesToSave e" "pmScore (savedMoves (miData e) ! k) = 0"
      "saveMoveIfQualifies e m = Some (stored k m e)"
    then show ?thesis
      using cache_ok_stored[OF ok(1,2)] best_of_room[OF b kept_room[OF ok(1) k(2,3)]] kept_stored[of k e m] ok(3) c by simp
  next
    fix k assume k: "wanted e m" "k < nMovesToSave e" "\<forall>j<nMovesToSave e. pmScore (savedMoves (miData e) ! j) \<noteq> 0 \<and>
        no_better (usePrev e) (savedMoves (miData e) ! k) (savedMoves (miData e) ! j)"
      "saveMoveIfQualifies e m = Some (if worse (usePrev e) (savedMoves (miData e) ! k) m then stored k m e else e)"
    let ?w = "savedMoves (miData e) ! k"
    have full: "kept e = mset (places e)" using kept_full[OF ok(1)] k(3) by simp
    then have sz: "size (kept e) = nMovesToSave e" using c by (simp add: places_def)
    have w: "?w \<in># kept e" using full places_nth[OF ok(1) k(2)] by simp
    have least: "\<forall>m'\<in>#kept e. no_better (usePrev e) ?w m'"
      using k(3) c by (auto simp: full places_def in_set_conv_nth)
    have "kept (stored k m e) = add_mset m (kept e - {#?w#})"
      using kept_stored[of k e m] k(2,3) ok(3) c by simp
    note r = this
    show ?thesis
    proof (cases "worse (usePrev e) ?w m")
      case True
      then show ?thesis
        using k(1,4) cache_ok_stored[OF ok(1,2)] best_of_replace[OF b sz w least worse_no_better[OF True]] by (simp add: r)
    next
      case False
      then have "\<forall>m'\<in>#kept e. no_better (usePrev e) m m'" using least no_better_trans not_worse by blast
      then show ?thesis using False k ok(1) best_of_keep[OF b sz] by simp
    qed
  qed (use c ok in auto)
qed

text \<open>C10: Whatever the order in which a search comes across its moves, the cache of the engine ends with the best
  \<open>nMovesToSave\<close> of those not seen before (walking back: the lowest of those above the last move seen); nothing
  is kept that was not shown, and the full number is kept when there are so many.\<close>

theorem saveMoveIfQualifies_keeps_best:
  assumes "cache_ok e" "kept e = {#}" "\<forall>m\<in>set ms. move_fits m \<and> 0 < pmScore m"
  shows "\<exists>e'. ofold saveMoveIfQualifies e ms = Some e' \<and>
    best_of (usePrev e) (nMovesToSave e) (filter_mset (wanted e) (mset ms)) (kept e')"
proof -
  have "\<exists>e'. ofold saveMoveIfQualifies e ms = Some e' \<and>
      best_of (usePrev e) (nMovesToSave e) (Q + filter_mset (wanted e) (mset ms)) (kept e')"
    if "cache_ok e" "best_of (usePrev e) (nMovesToSave e) Q (kept e)" "\<forall>m\<in>set ms. move_fits m \<and> 0 < pmScore m" for e Q
    using that
  proof (induction ms arbitrary: e Q)
    case (Cons m ms)
    from saveMove_step[OF Cons.prems(1) _ _ Cons.prems(2), of m] Cons.prems(3) obtain e1 where
      e1: "saveMoveIfQualifies e m = Some e1" "cache_ok e1" "usePrev e1 = usePrev e" "nMovesToSave e1 = nMovesToSave e"
        "wanted e1 = wanted e" "best_of (usePrev e) (nMovesToSave e) (if wanted e m then add_mset m Q else Q) (kept e1)"
      by auto
    from Cons.IH[of e1 "if wanted e m then add_mset m Q else Q"] e1 Cons.prems(3) show ?case
      by (auto split: if_splits)
  qed simp
  from this[of e "{#}"] assms show ?thesis by (simp add: best_of_def)
qed

definition demo_move :: "nat \<Rightarrow> nat \<Rightarrow> possibleMove" where
  "demo_move score col = no_move\<lparr>pmScore := score, pmMove := \<lparr>commonCoord = 7, isHorizontal = True,
     mtiles = [\<lparr>varCoord = col, mtile = 3\<rparr>]\<rparr>\<rparr>"

definition demo_engine :: "nat \<Rightarrow> bool \<Rightarrow> engineCtxt" where
  "demo_engine n robot = (engine_make \<lparr>euProgress = \<lambda>_. True, euHilite = \<lambda>_. True, euLimits = \<lambda>_ _. None, euRandom = 0\<rparr>
     scored_model)\<lparr>nMovesToSave := n, isRobot := robot\<rparr>"

lemma demo_move_fits [simp]: "move_fits (demo_move score col)"
  by (simp add: demo_move_def move_fits_def no_move_def xw_consts)

lemma demo_move_score [simp]: "pmScore (demo_move score col) = score"
  by (simp add: demo_move_def)

lemma demo_engine_simps [simp]:
  "nMovesToSave (demo_engine n r) = n" "isRobot (demo_engine n r) = r" "usePrev (demo_engine n r) = False"
  "savedMoves (miData (demo_engine n r)) = replicate 32 no_move" "nInMoveCache (miData (demo_engine n r)) = 0"
  "lastSeenMove (miData (demo_engine n r)) = no_move\<lparr>pmScore := 0xffff\<rparr>"
  by (simp_all add: demo_engine_def engine_make_def engine_reset_def no_miData_def NUM_SAVED_ENGINE_MOVES_def Let_def)

lemma demo_engine_ok [simp]: "0 < n \<Longrightarrow> n \<le> 32 \<Longrightarrow> cache_ok (demo_engine n r)"
  by (simp add: cache_ok_def move_fits_def no_move_def)

theorem saveMoveIfQualifies_keeps_best_witness:
  "\<exists>e'. ofold saveMoveIfQualifies (demo_engine 2 False) [demo_move 4 1, demo_move 9 2, demo_move 6 3] = Some e' \<and>
    best_of False 2 {#demo_move 4 1, demo_move 9 2, demo_move 6 3#} (kept e')"
proof -
  have "filter_mset (wanted (demo_engine 2 False)) (mset [demo_move 4 1, demo_move 9 2, demo_move 6 3]) =
      {#demo_move 4 1, demo_move 9 2, demo_move 6 3#}"
    by (simp add: wanted_def worse_def move_key_def demo_move_def Cons_less_Cons)
  moreover have "kept (demo_engine 2 False) = {#}"
    by (simp add: kept_def places_def filter_mset_eq_conv no_move_def)
  moreover have "\<forall>m\<in>set [demo_move 4 1, demo_move 9 2, demo_move 6 3]. move_fits m \<and> 0 < pmScore m" by simp
  ultimately show ?thesis
    using saveMoveIfQualifies_keeps_best[of "demo_engine 2 False" "[demo_move 4 1, demo_move 9 2, demo_move 6 3]"] demo_engine_ok[of 2 False]
    by (simp only: demo_engine_simps mset.simps filter_mset_add_mset)
qed

section \<open>The choice\<close>

lemma sorted_key_nth: "sorted (map move_key ms) \<Longrightarrow> i \<le> j \<Longrightarrow> j < length ms \<Longrightarrow> move_key (ms ! i) \<le> move_key (ms ! j)"
  using sorted_nth_mono[of "map move_key ms" i j] by simp

lemma key_score: "move_key a \<le> move_key b \<Longrightarrow> pmScore a \<le> pmScore b"
  by (auto simp: move_key_def Cons_le_Cons)

lemma sorted_scores:
  assumes "sorted (map move_key ms)" "n = length (takeWhile (\<lambda>m. 0 = pmScore m) ms)" "j < length ms"
  shows "0 < pmScore (ms ! j) \<longleftrightarrow> n \<le> j"
proof
  assume "0 < pmScore (ms ! j)"
  then show "n \<le> j"
    using assms(2,3) nth_length_takeWhile set_takeWhileD takeWhile_nth[of j "\<lambda>m. 0 = pmScore m" ms] nth_mem
    by (metis (mono_tags, lifting) not_le not_less_zero)
next
  assume "n \<le> j"
  then have "0 < pmScore (ms ! n)" using assms(2,3) nth_length_takeWhile[of "\<lambda>m. 0 = pmScore m" ms] by simp
  moreover have "pmScore (ms ! n) \<le> pmScore (ms ! j)"
    using key_score sorted_key_nth[OF assms(1) \<open>n \<le> j\<close> assms(3)] by blast
  ultimately show "0 < pmScore (ms ! j)" by simp
qed

lemma sortMoves_spec:
  assumes "cache_ok e"
  obtains ms where "sortMoves e = Some (e\<lparr>miData := (miData e)\<lparr>savedMoves := ms @ drop (nMovesToSave e) (savedMoves (miData e))\<rparr>\<rparr>)"
    "sorted (map move_key ms)" "mset ms = mset (places e)"
proof -
  have "\<forall>m\<in>set (places e). move_fits m" using assms by (auto simp: cache_ok_def places_def dest: in_set_takeD)
  then obtain ms where "sort_moves (places e) = Some ms" "sorted (map move_key ms)" "mset ms = mset (places e)"
    by (rule sort_moves_spec)
  then show thesis using assms that by (simp add: sortMoves_def places_def cache_ok_def Let_def)
qed

text \<open>A search that ended left the cache unread.\<close>

definition search_done :: "engineCtxt \<Rightarrow> bool" where
  "search_done e \<longleftrightarrow> cache_ok e \<and> nInMoveCache (miData e) = 0 \<and> length (savedMoves (miData e)) = NUM_SAVED_ENGINE_MOVES \<and>
     (isRobot e \<or> nMovesToSave e = NUM_SAVED_ENGINE_MOVES)"

text \<open>What is chosen: for a person the best move kept, the lowest when walking back; for a robot the lowest of all
  the places, with nothing in a place that was not filled.\<close>

definition right_choice :: "engineCtxt \<Rightarrow> possibleMove option \<Rightarrow> bool" where
  "right_choice e r = (case r of
       Some m \<Rightarrow> m \<in># kept e \<and> (if isRobot e then size (kept e) = nMovesToSave e \<and> (\<forall>m'\<in>#kept e. no_better False m m')
                 else (\<forall>m'\<in>#kept e. no_better (usePrev e) m' m))
     | None \<Rightarrow> if isRobot e then size (kept e) < nMovesToSave e else kept e = {#})"

lemma robot_choice:
  assumes "cache_ok e" "sorted (map move_key ms)" "mset ms = mset (places e)" "isRobot e"
  shows "right_choice e (if pmScore (ms ! 0) > 0 then Some (ms ! 0) else None)"
proof -
  have l: "length ms = nMovesToSave e" "0 < nMovesToSave e"
    using assms(1) mset_eq_length[OF assms(3)] by (auto simp: cache_ok_def places_def)
  have in0: "ms ! 0 \<in># mset (places e)" using l by (simp flip: assms(3))
  show ?thesis
  proof (cases "pmScore (ms ! 0) > 0")
    case True
    have least: "\<forall>m'\<in>set ms. no_better False (ms ! 0) m'"
      using sorted_key_nth[OF assms(2), of 0] by (auto simp: no_better_def in_set_conv_nth)
    then have "\<forall>m'\<in>set ms. 0 < pmScore m'" using True key_score by (fastforce simp: no_better_def)
    then have k: "kept e = mset ms" by (simp add: kept_def filter_mset_eq_conv flip: assms(3))
    then have "size (kept e) = nMovesToSave e" "\<forall>m'\<in>#kept e. no_better False (ms ! 0) m'" "ms ! 0 \<in># kept e"
      using l least by simp_all
    then show ?thesis using True assms(4) by (simp add: right_choice_def)
  next
    case False
    then have "ms ! 0 \<notin># kept e" by (simp add: kept_def)
    then have "kept e \<noteq> mset ms" using in0 assms(3) by metis
    then have "kept e \<subset># mset ms" by (simp add: kept_def subset_mset_def flip: assms(3))
    from mset_subset_size[OF this] show ?thesis
      using False assms(4) l by (simp add: right_choice_def)
  qed
qed

lemma human_choice:
  assumes "sorted (map move_key ms)" "mset ms = mset (places e)" "length ms = 32" "\<not> isRobot e"
    "n = length (takeWhile (\<lambda>m. 0 = pmScore m) ms)"
  shows "right_choice e (if n = 32 then None else Some (ms ! (if usePrev e then n else 31)))"
proof -
  have k: "kept e = filter_mset (\<lambda>m. 0 < pmScore m) (mset ms)" using assms(2) by (simp add: kept_def)
  have n: "n \<le> 32" using assms(3,5) length_takeWhile_le[of "\<lambda>m. 0 = pmScore m" ms] by simp
  have pos: "0 < pmScore (ms ! j) \<longleftrightarrow> n \<le> j" if "j < 32" for j
    using sorted_scores[OF assms(1,5)] that assms(3) by simp
  have mem: "m \<in># kept e \<longleftrightarrow> (\<exists>j. n \<le> j \<and> j < 32 \<and> m = ms ! j)" for m
    using pos assms(3) by (auto simp: k in_set_conv_nth)
  have le: "move_key (ms ! i) \<le> move_key (ms ! j)" if "i \<le> j" "j < 32" for i j
    using sorted_key_nth[OF assms(1)] that assms(3) by simp
  show ?thesis
  proof (cases "n = 32")
    case True
    then have "m \<notin># kept e" for m using mem by simp
    then have "kept e = {#}" by (metis multiset_nonemptyE)
    then show ?thesis using True assms(4) by (simp add: right_choice_def)
  next
    case False
    let ?i = "if usePrev e then n else 31"
    have "n \<le> ?i" "?i < 32" using n False by auto
    then have "ms ! ?i \<in># kept e" using mem by blast
    moreover have "no_better (usePrev e) m' (ms ! ?i)" if "m' \<in># kept e" for m'
    proof -
      from that have "\<exists>j. n \<le> j \<and> j < 32 \<and> m' = ms ! j" by (simp only: mem)
      then obtain j where "n \<le> j" "j < 32" "m' = ms ! j" by blast
      then show ?thesis using le[of n j] le[of j 31] by (simp add: no_better_def)
    qed
    ultimately show ?thesis using False assms(4) by (simp add: right_choice_def)
  qed
qed

text \<open>C11: After a search that ended, \<open>chooseMove\<close> always comes to an end. For a person it takes the best move kept
  (the lowest one when walking back) and finds none only when nothing was kept. A robot takes the worst of its
  moves, and finds none whenever the search found fewer moves than the robot has places.\<close>

theorem chooseMove_picks:
  assumes "search_done e"
  shows "\<exists>r e'. chooseMove e = Some (r, e') \<and> right_choice e r \<and>
    mset (savedMoves (miData e')) = mset (savedMoves (miData e))"
proof -
  have ok: "cache_ok e" "move_cache_empty e" using assms by (auto simp: search_done_def move_cache_empty_def Let_def)
  from sortMoves_spec[OF ok(1)] obtain ms where
    s: "sortMoves e = Some (e\<lparr>miData := (miData e)\<lparr>savedMoves := ms @ drop (nMovesToSave e) (savedMoves (miData e))\<rparr>\<rparr>)"
      "sorted (map move_key ms)" "mset ms = mset (places e)" .
  have l: "length ms = nMovesToSave e" "0 < nMovesToSave e"
    using ok(1) mset_eq_length[OF s(3)] by (auto simp: cache_ok_def places_def)
  have perm: "mset (ms @ drop (nMovesToSave e) (savedMoves (miData e))) = mset (savedMoves (miData e))"
    using mset_append[of "places e" "drop (nMovesToSave e) (savedMoves (miData e))"] by (simp add: s(3) places_def)
  show ?thesis
  proof (cases "isRobot e")
    case True
    have "(ms @ drop (nMovesToSave e) (savedMoves (miData e))) ! 0 = ms ! 0" using l by (simp add: nth_append)
    then show ?thesis
      using True ok s(1) perm l robot_choice[OF ok(1) s(2,3) True] assms
      by (auto simp: chooseMove_def search_done_def NUM_SAVED_ENGINE_MOVES_def Let_def)
  next
    case False
    then have n32: "nMovesToSave e = 32" "length (savedMoves (miData e)) = 32"
      using assms by (auto simp: search_done_def NUM_SAVED_ENGINE_MOVES_def)
    define n where "n = length (takeWhile (\<lambda>m. 0 = pmScore m) ms)"
    have n: "n \<le> 32" using l n32 length_takeWhile_le[of "\<lambda>m. 0 = pmScore m" ms] by (simp add: n_def)
    have tk: "take 32 ms = ms" using l n32 by simp
    have tw: "length (takeWhile (\<lambda>m. pmScore m = 0) ms) = n" by (simp add: n_def)
    have init: "init_move_cache (e\<lparr>miData := (miData e)\<lparr>savedMoves := ms\<rparr>\<rparr>) =
        Some (e\<lparr>miData := (miData e)\<lparr>savedMoves := ms, nInMoveCache := 32 - n, bottom := n,
          curCacheIndex := (if usePrev e then int n - 1 else 32)\<rparr>\<rparr>)"
      unfolding init_move_cache_def NUM_SAVED_ENGINE_MOVES_def Let_def using n n32(1) by (simp add: tk tw)
    let ?e = "e\<lparr>miData := (miData e)\<lparr>savedMoves := ms, nInMoveCache := 32 - n, bottom := n,
          curCacheIndex := (if usePrev e then int n - 1 else 32)\<rparr>\<rparr>"
    let ?r = "if n = 32 then None else Some (ms ! (if usePrev e then n else 31))"
    have "\<exists>e'. next_from_cache ?e = Some (?r, e') \<and> savedMoves (miData e') = ms"
    proof (cases "usePrev e")
      case True
      then show ?thesis using n n32 l
        by (cases "n = 32") (simp_all add: next_from_cache_def move_cache_empty_def NUM_SAVED_ENGINE_MOVES_def Let_def)
    next
      case False
      then show ?thesis using n n32 l
        by (cases "n = 32") (simp_all add: next_from_cache_def move_cache_empty_def NUM_SAVED_ENGINE_MOVES_def Let_def)
    qed
    then obtain e' where nxt: "next_from_cache ?e = Some (?r, e')" "savedMoves (miData e') = ms" by blast
    have pos: "0 < pmScore (ms ! (if usePrev e then n else 31))" if "n \<noteq> 32"
      using sorted_scores[OF s(2) n_def, of "if usePrev e then n else 31"] that n n32 l by auto
    have "drop (nMovesToSave e) (savedMoves (miData e)) = []" using n32 by simp
    then have "sortMoves e = Some (e\<lparr>miData := (miData e)\<lparr>savedMoves := ms\<rparr>\<rparr>)" "mset ms = mset (savedMoves (miData e))"
      using s(1) perm by simp_all
    moreover have "(case ?r of Some m \<Rightarrow> if pmScore m > 0 then Some m else None | None \<Rightarrow> None) = ?r" using pos by simp
    ultimately have "chooseMove e = Some (?r, e')"
      using False ok(2) by (simp del: bind_Some_iff add: chooseMove_def init nxt)
    moreover have "right_choice e ?r" using human_choice[OF s(2,3) _ False n_def] l n32 by simp
    ultimately show ?thesis using nxt(2) \<open>mset ms = mset (savedMoves (miData e))\<close> by blast
  qed
qed

text \<open>A robot with two places that has found one move chooses none.\<close>

theorem chooseMove_picks_witness:
  "kept (stored 0 (demo_move 9 2) (demo_engine 2 True)) = {#demo_move 9 2#} \<and>
   (\<exists>e'. chooseMove (stored 0 (demo_move 9 2) (demo_engine 2 True)) = Some (None, e'))"
proof -
  let ?e = "stored 0 (demo_move 9 2) (demo_engine 2 True)"
  have r: "isRobot ?e" "nInMoveCache (miData ?e) = 0" "nMovesToSave ?e = 2" by (simp_all add: stored_def)
  have k: "kept ?e = {#demo_move 9 2#}"
    by (subst kept_stored) (simp_all add: kept_def places_def filter_mset_eq_conv no_move_def)
  moreover have "search_done ?e"
    using cache_ok_stored[of "demo_engine 2 True" "demo_move 9 2" 0] r by (simp add: search_done_def NUM_SAVED_ENGINE_MOVES_def)
  from chooseMove_picks[OF this] obtain r e' where c: "chooseMove ?e = Some (r, e')" "right_choice ?e r" by blast
  moreover have "r = None" using c(2) k r by (cases r) (auto simp: right_choice_def)
  ultimately show ?thesis by blast
qed

end
