(* ===== verification/Xw_Search.thy ===== *)
theory Xw_Search
  imports Xw_EngineSpec
begin

text \<open>
  What the search of \<open>common/engine.c\<close> may do: it leaves the engine's rack as it was, and every move it keeps
  is played with tiles of the rack, a blank for every tile marked as one, on empty squares of one line, from left
  to right.
\<close>

section \<open>Moves that can be played\<close>

text \<open>The tiles of the rack that a move uses.\<close>

definition played :: "tile \<Rightarrow> moveInfo \<Rightarrow> tile list" where
  "played blank mi = map (\<lambda>t. if IS_BLANK (mtile t) then blank else mtile t) (mtiles mi)"

definition from_rack :: "tile \<Rightarrow> nat list \<Rightarrow> moveInfo \<Rightarrow> bool" where
  "from_rack blank r mi \<longleftrightarrow> (\<forall>t. count_list (played blank mi) t \<le> (if unat t < length r then r ! unat t else 0))"

definition square_of :: "moveInfo \<Rightarrow> nat \<Rightarrow> nat \<times> nat" where
  "square_of mi c = (if isHorizontal mi then (c, commonCoord mi) else (commonCoord mi, c))"

text \<open>The board as the search is asked to see it: with or without the pending tiles of the player.\<close>

definition on_free :: "modelCtxt \<Rightarrow> bool \<Rightarrow> nat \<Rightarrow> moveInfo \<Rightarrow> bool" where
  "on_free model pending turn mi \<longleftrightarrow> sorted_wrt (<) (map varCoord (mtiles mi)) \<and>
     (\<forall>t\<in>set (mtiles mi). case square_of mi (varCoord t) of (c, r) \<Rightarrow> model_getTile model c r pending turn = Some None)"

definition playable :: "tile \<Rightarrow> nat list \<Rightarrow> modelCtxt \<Rightarrow> bool \<Rightarrow> nat \<Rightarrow> moveInfo \<Rightarrow> bool" where
  "playable blank r model pending turn mi \<longleftrightarrow>
     length (mtiles mi) \<le> MAX_TRAY_TILES \<and> from_rack blank r mi \<and> on_free model pending turn mi"

section \<open>What a step of the search leaves as it was\<close>

definition frame :: "engineCtxt \<Rightarrow> engineCtxt \<Rightarrow> bool" where
  "frame e e' \<longleftrightarrow> e'\<lparr>miData := miData e, returnNOW := returnNOW e, nProgress := nProgress e, nHilite := nHilite e,
       blankValues := blankValues e\<rparr> = e \<and>
     take (blankCount e) (blankValues e') = take (blankCount e) (blankValues e) \<and>
     length (blankValues e') = length (blankValues e)"

lemma frame_refl [simp]: "frame e e"
  by (simp add: frame_def)

lemma frame_sel:
  assumes "frame e e'"
  shows "rack e' = rack e" "blankCount e' = blankCount e" "nTilesMax e' = nTilesMax e" "enBlank e' = enBlank e"
    "enModel e' = enModel e" "enTurn e' = enTurn e" "includePending e' = includePending e" "usePrev e' = usePrev e"
    "searchHorizontal e' = searchHorizontal e" "nMovesToSave e' = nMovesToSave e" "enDict e' = enDict e"
    "take (blankCount e) (blankValues e') = take (blankCount e) (blankValues e)"
    "length (blankValues e') = length (blankValues e)"
proof -
  let ?u = "e'\<lparr>miData := miData e, returnNOW := returnNOW e, nProgress := nProgress e, nHilite := nHilite e,
       blankValues := blankValues e\<rparr>"
  have u: "?u = e" using assms by (simp add: frame_def)
  show "rack e' = rack e" "blankCount e' = blankCount e" "nTilesMax e' = nTilesMax e" "enBlank e' = enBlank e"
    "enModel e' = enModel e" "enTurn e' = enTurn e" "includePending e' = includePending e" "usePrev e' = usePrev e"
    "searchHorizontal e' = searchHorizontal e" "nMovesToSave e' = nMovesToSave e" "enDict e' = enDict e"
    using arg_cong[OF u, of rack] arg_cong[OF u, of blankCount] arg_cong[OF u, of nTilesMax] arg_cong[OF u, of enBlank]
      arg_cong[OF u, of enModel] arg_cong[OF u, of enTurn] arg_cong[OF u, of includePending] arg_cong[OF u, of usePrev]
      arg_cong[OF u, of searchHorizontal] arg_cong[OF u, of nMovesToSave] arg_cong[OF u, of enDict]
    by simp_all
qed (use assms in \<open>simp_all add: frame_def\<close>)

lemma frame_trans:
  assumes "frame a b" "frame b c"
  shows "frame a c"
proof -
  have 1: "b\<lparr>miData := miData a, returnNOW := returnNOW a, nProgress := nProgress a, nHilite := nHilite a,
       blankValues := blankValues a\<rparr> = a" and
    2: "c\<lparr>miData := miData b, returnNOW := returnNOW b, nProgress := nProgress b, nHilite := nHilite b,
       blankValues := blankValues b\<rparr> = b" using assms by (simp_all add: frame_def)
  have "c\<lparr>miData := miData a, returnNOW := returnNOW a, nProgress := nProgress a, nHilite := nHilite a,
       blankValues := blankValues a\<rparr> = a"
    using 1 by (subst (asm) 2[symmetric]) simp
  then show ?thesis using frame_sel(2,12,13)[OF assms(1)] frame_sel(12,13)[OF assms(2)] by (simp add: frame_def)
qed

lemma localGetBoardTile_frame:
  assumes "frame e e'"
  shows "localGetBoardTile e' = localGetBoardTile e"
  unfolding localGetBoardTile_def[abs_def] frame_sel[OF assms] ..

section \<open>The moves kept\<close>

definition all_kept :: "(moveInfo \<Rightarrow> bool) \<Rightarrow> engineCtxt \<Rightarrow> bool" where
  "all_kept Q e \<longleftrightarrow> (\<forall>m\<in>set (savedMoves (miData e)). 0 < pmScore m \<longrightarrow> Q (pmMove m))"

lemma saveMove_frame:
  assumes "saveMoveIfQualifies e m = Some e'" "all_kept Q e" "Q (pmMove m)"
  shows "frame e e' \<and> all_kept Q e'"
proof -
  have "\<exists>ms. e' = e\<lparr>miData := (miData e)\<lparr>savedMoves := ms\<rparr>\<rparr> \<and> (ms = savedMoves (miData e) \<or> (\<exists>k. ms = (savedMoves (miData e))[k := m]))"
    using assms(1)
    by (auto simp: saveMoveIfQualifies_def Let_def split: prod.splits option.splits if_splits
        intro: exI[of _ "savedMoves (miData e)"])
  then obtain ms where e': "e' = e\<lparr>miData := (miData e)\<lparr>savedMoves := ms\<rparr>\<rparr>"
    and ms: "ms = savedMoves (miData e) \<or> (\<exists>k. ms = (savedMoves (miData e))[k := m])" by blast
  from ms have "set ms \<subseteq> insert m (set (savedMoves (miData e)))"
    using set_update_subset_insert[of "savedMoves (miData e)" _ m] by auto
  then show ?thesis using assms(2,3) by (auto simp: e' frame_def all_kept_def)
qed

lemma scoreAndSave_frame:
  assumes "scoreAndSave e pm row used = Some e'" "all_kept Q e" "Q ((pmMove pm)\<lparr>commonCoord := row\<rparr>)"
  shows "frame e e' \<and> all_kept Q e'"
proof -
  from assms(1) have "e' = e \<or> (\<exists>s bv. saveMoveIfQualifies e \<lparr>pmScore = s, pmMove = (pmMove pm)\<lparr>commonCoord := row\<rparr>, blankVals = bv\<rparr> = Some e')"
    by (auto simp: scoreAndSave_def Let_def split: if_splits)
  then show ?thesis
    using assms(2,3) saveMove_frame by fastforce
qed


section \<open>Blanks\<close>

text \<open>While blanks are handed out: \<open>bs\<close> are the faces still to be marked, marked tiles count as blanks.\<close>

definition plain :: "moveInfoTile list \<Rightarrow> tile list" where
  "plain ts = map mtile (filter (\<lambda>t. \<not> IS_BLANK (mtile t)) ts)"

definition marked :: "moveInfoTile list \<Rightarrow> nat" where
  "marked ts = length (filter (\<lambda>t. IS_BLANK (mtile t)) ts)"

definition hand_out :: "tile \<Rightarrow> nat list \<Rightarrow> tile list \<Rightarrow> moveInfoTile list \<Rightarrow> bool" where
  "hand_out blank r bs ts \<longleftrightarrow> unat blank < length r \<and>
     (\<forall>t\<in>set (plain ts). t < 64 \<and> t \<noteq> blank \<and> unat t < length r) \<and>
     (\<forall>t. t \<noteq> blank \<longrightarrow> unat t < length r \<longrightarrow> count_list (plain ts) t \<le> r ! unat t + count_list bs t) \<and>
     marked ts + length bs \<le> r ! unat blank"

lemma count_played:
  "count_list (played blank mi) t = (if t = blank then marked (mtiles mi) else 0) + count_list (plain (mtiles mi)) t"
proof -
  have "count_list (map (\<lambda>t. if IS_BLANK (mtile t) then blank else mtile t) ts) t =
      (if t = blank then marked ts else 0) + count_list (plain ts) t" for ts
    by (induction ts) (auto simp: marked_def plain_def)
  then show ?thesis by (simp add: played_def)
qed

lemma hand_out_done:
  assumes "hand_out blank r [] (mtiles mi)"
  shows "from_rack blank r mi"
  unfolding from_rack_def
proof
  fix t
  have "blank \<notin> set (plain (mtiles mi))" using assms by (auto simp: hand_out_def)
  moreover have "t \<notin> set (plain (mtiles mi))" if "\<not> unat t < length r" using assms that by (auto simp: hand_out_def)
  ultimately show "count_list (played blank mi) t \<le> (if unat t < length r then r ! unat t else 0)"
    using assms by (auto simp: count_played hand_out_def)
qed

lemma plain_mark:
  assumes "ii < length ts" "mtile (ts ! ii) < 64"
  shows "mset (plain ts) = add_mset (mtile (ts ! ii)) (mset (plain (ts[ii := (ts ! ii)\<lparr>mtile := mtile (ts ! ii) OR TILE_BLANK_BIT\<rparr>])))"
    "marked (ts[ii := (ts ! ii)\<lparr>mtile := mtile (ts ! ii) OR TILE_BLANK_BIT\<rparr>]) = Suc (marked ts)"
proof -
  have ts: "ts = take ii ts @ ts ! ii # drop (Suc ii) ts" using assms(1) by (rule id_take_nth_drop)
  have up: "ts[ii := x] = take ii ts @ x # drop (Suc ii) ts" for x using assms(1) by (rule upd_conv_take_nth_drop)
  note b = small_tile_bits[OF assms(2)]
  show "mset (plain ts) = add_mset (mtile (ts ! ii)) (mset (plain (ts[ii := (ts ! ii)\<lparr>mtile := mtile (ts ! ii) OR TILE_BLANK_BIT\<rparr>])))"
    by (subst ts) (simp add: up plain_def b(1,5))
  show "marked (ts[ii := (ts ! ii)\<lparr>mtile := mtile (ts ! ii) OR TILE_BLANK_BIT\<rparr>]) = Suc (marked ts)"
    by (subst (3) ts) (simp add: up marked_def b(1,5))
qed

lemma count_list_mset: "count_list xs x = count (mset xs) x"
  by (induction xs) auto

lemma hand_out_mark:
  assumes "hand_out blank r (bs @ [b]) ts" "ii < length ts" "\<not> IS_BLANK (mtile (ts ! ii))"
    "mtile (ts ! ii) AND TILE_VALUE_MASK = b"
  shows "hand_out blank r bs (ts[ii := (ts ! ii)\<lparr>mtile := mtile (ts ! ii) OR TILE_BLANK_BIT\<rparr>])"
proof -
  let ?us = "ts[ii := (ts ! ii)\<lparr>mtile := mtile (ts ! ii) OR TILE_BLANK_BIT\<rparr>]"
  have "mtile (ts ! ii) \<in> set (plain ts)" using assms(2,3) by (auto simp: plain_def)
  then have small: "mtile (ts ! ii) < 64" using assms(1) by (simp add: hand_out_def)
  then have b: "mtile (ts ! ii) = b" using assms(4) small_tile_bits(2) by simp
  note pm = plain_mark[OF assms(2) small, unfolded b]
  have sub: "set (plain ?us) \<subseteq> set (plain ts)" using pm(1) by (metis set_mset_add_mset_insert set_mset_mset subset_insertI b)
  have cnt: "count_list (plain ts) t = (if t = b then 1 else 0) + count_list (plain ?us) t" for t
    using pm(1) by (simp add: count_list_mset b)
  show ?thesis
    using assms(1) sub pm(2) by (auto simp: hand_out_def cnt b subset_iff split: if_splits)
qed

lemma played_places:
  "played blank (mi\<lparr>commonCoord := c\<rparr>) = played blank mi"
  by (simp add: played_def)

lemma from_rack_common [simp]: "from_rack blank r (mi\<lparr>commonCoord := c\<rparr>) = from_rack blank r mi"
  by (simp add: from_rack_def played_def)

text \<open>Marking blanks does not move tiles: the columns and the line stay.\<close>

definition line_of :: "moveInfo \<Rightarrow> nat \<times> bool \<times> nat list" where
  "line_of mi = (commonCoord mi, isHorizontal mi, map varCoord (mtiles mi))"

lemma consider_blanks_frame:
  assumes "considerScoreWordHasBlanks bl pm row used e = Some e'" "all_kept Q e"
    "hand_out blank r (take bl (blankValues e)) (mtiles (pmMove pm))" "bl \<le> blankCount e"
    "commonCoord (pmMove pm) = row"
    "\<And>mi. from_rack blank r mi \<Longrightarrow> line_of mi = line_of (pmMove pm) \<Longrightarrow> Q mi"
  shows "frame e e' \<and> all_kept Q e'"
  using assms
proof (induction bl arbitrary: pm used e e')
  case 0
  have "Q (pmMove pm)" using 0 hand_out_done by auto
  moreover have "(pmMove pm)\<lparr>commonCoord := row\<rparr> = pmMove pm" using 0(5) by simp
  ultimately show ?case using scoreAndSave_frame[of e pm row used e' Q] 0(1,2) by simp
next
  case (Suc bl)
  let ?mi = "pmMove pm"
  from Suc.prems(1) obtain b where b: "bl < length (blankValues e)" "b = blankValues e ! bl"
    by auto
  let ?body = "\<lambda>engine ii. let t = mtiles ?mi ! ii
         in if mtile t AND TILE_VALUE_MASK = b \<and> \<not> IS_BLANK (mtile t) then
              considerScoreWordHasBlanks bl
                (pm\<lparr>pmMove := ?mi\<lparr>mtiles := (mtiles ?mi)[ii := t\<lparr>mtile := mtile t OR TILE_BLANK_BIT\<rparr>]\<rparr>\<rparr>)
                row (used @ [(ii, b)]) engine
            else Some engine"
  have run: "ofold ?body e [0..<length (mtiles ?mi)] = Some e'"
    using Suc.prems(1) b by (auto simp: Let_def)
  have tk: "take (Suc bl) (blankValues e) = take bl (blankValues e) @ [b]"
    using b by (simp add: take_Suc_conv_app_nth)
  have step: "frame e s \<and> all_kept Q s \<Longrightarrow> ii \<in> set [0..<length (mtiles ?mi)] \<Longrightarrow> ?body s ii = Some s' \<Longrightarrow>
      frame e s' \<and> all_kept Q s'" for s ii s'
  proof -
    assume s: "frame e s \<and> all_kept Q s" and ii: "ii \<in> set [0..<length (mtiles ?mi)]" and r: "?body s ii = Some s'"
    show ?thesis
    proof (cases "mtile (mtiles ?mi ! ii) AND TILE_VALUE_MASK = b \<and> \<not> IS_BLANK (mtile (mtiles ?mi ! ii))")
      case False
      then show ?thesis using s r by (auto simp: Let_def)
    next
      case True
      let ?ts = "(mtiles ?mi)[ii := (mtiles ?mi ! ii)\<lparr>mtile := mtile (mtiles ?mi ! ii) OR TILE_BLANK_BIT\<rparr>]"
      have fr: "take bl (blankValues s) = take bl (blankValues e)"
        using arg_cong[OF frame_sel(12)[of e s], of "take bl"] s Suc.prems(4) by (simp add: min_def)
      have h: "hand_out blank r (take bl (blankValues s)) ?ts"
        using hand_out_mark[of blank r "take bl (blankValues e)" b "mtiles ?mi" ii] True ii Suc.prems(3) tk fr by simp
      have "map varCoord ?ts = map varCoord (mtiles ?mi)"
        using ii by (simp add: map_update) (metis list_update_id nth_map)
      then have "frame s s' \<and> all_kept Q s'"
        using Suc.IH[of "pm\<lparr>pmMove := ?mi\<lparr>mtiles := ?ts\<rparr>\<rparr>" "used @ [(ii, b)]" s s'] True r s h Suc.prems(4,5,6) frame_sel(2)[of e s]
        by (simp add: Let_def line_of_def)
      then show ?thesis using s frame_trans by blast
    qed
  qed
  show ?case
    by (rule ofold_invariant[of "\<lambda>s. frame e s \<and> all_kept Q s", OF _ step run]) (use Suc.prems(2) in auto)
qed

text \<open>The tiles of the word go to free squares, from left to right.\<close>

definition free_from :: "engineCtxt \<Rightarrow> nat \<Rightarrow> nat \<Rightarrow> moveInfoTile list \<Rightarrow> bool" where
  "free_from e row col us \<longleftrightarrow> sorted_wrt (<) (map varCoord us) \<and>
     (\<forall>u\<in>set us. varCoord u < col \<and> localGetBoardTile e (varCoord u) row False = Some None)"

lemma free_from_snoc:
  "free_from e row col us \<Longrightarrow> localGetBoardTile e col row False = Some None \<Longrightarrow>
     free_from e row (Suc col) (us @ [\<lparr>varCoord = col, mtile = t\<rparr>])"
  by (auto simp: free_from_def sorted_wrt_append less_Suc_eq)

lemma free_from_mono: "free_from e row col us \<Longrightarrow> free_from e row (Suc col) us"
  by (auto simp: free_from_def less_Suc_eq)

lemma fill_squares_spec:
  assumes "fill_squares e row col ts ds = Some us"
  shows "free_from e row col ds \<longrightarrow> (\<exists>col. free_from e row col us) \<and> map mtile us = map mtile ds @ ts"
proof (rule fill_squares.raw_induct[of "\<lambda>e row col ts ds us. free_from e row col ds \<longrightarrow>
    (\<exists>col. free_from e row col us) \<and> map mtile us = map mtile ds @ ts", OF _ assms])
  fix fs e row col ts ds us
  assume ih: "\<And>e row col ts ds us. fs e row col ts ds = Some us \<Longrightarrow>
      free_from e row col ds \<longrightarrow> (\<exists>col. free_from e row col us) \<and> map mtile us = map mtile ds @ ts"
    and run: "(case ts of [] \<Rightarrow> Some ds
        | t # ts' \<Rightarrow> do {
          b \<leftarrow> localGetBoardTile e col row False;
          if b = None then fs e row (col + 1) ts' (ds @ [\<lparr>varCoord = col, mtile = t\<rparr>])
          else fs e row (col + 1) ts ds
        }) = Some us"
  show "free_from e row col ds \<longrightarrow> (\<exists>col. free_from e row col us) \<and> map mtile us = map mtile ds @ ts"
  proof (cases ts)
    case Nil
    then show ?thesis using run by auto
  next
    case (Cons t ts')
    show ?thesis
    proof (cases "localGetBoardTile e col row False")
      case None
      then show ?thesis using run Cons by simp
    next
      case (Some b)
      then have "(if b = None then fs e row (col + 1) ts' (ds @ [\<lparr>varCoord = col, mtile = t\<rparr>])
          else fs e row (col + 1) ts ds) = Some us" using run Cons by simp
      then show ?thesis
        using ih[of e row "col + 1" ts' "ds @ [\<lparr>varCoord = col, mtile = t\<rparr>]" us] ih[of e row "col + 1" ts ds us]
          free_from_snoc[of e row col ds t] free_from_mono[of e row col ds] Some Cons
        by (cases "b = None") simp_all
    qed
  qed
qed

section \<open>The rack of the engine\<close>

text \<open>\<open>ts\<close> have been taken from the rack \<open>r\<close>; \<open>blankValues\<close> tells which of them are blanks.\<close>

definition taken :: "nat list \<Rightarrow> tile list \<Rightarrow> engineCtxt \<Rightarrow> bool" where
  "taken r ts e \<longleftrightarrow> length r = 65 \<and> length (rack e) = 65 \<and> (\<forall>n\<in>set (rack e). n < 256) \<and> unat (enBlank e) < 65 \<and>
     (\<forall>t\<in>set ts. t < 64 \<and> t \<noteq> enBlank e) \<and> blankCount e \<le> length (blankValues e) \<and> length (blankValues e) = 7 \<and>
     (\<forall>t. t \<noteq> enBlank e \<longrightarrow> unat t < 65 \<longrightarrow>
        rack e ! unat t + count_list ts t = r ! unat t + count_list (take (blankCount e) (blankValues e)) t) \<and>
     rack e ! unat (enBlank e) + blankCount e = r ! unat (enBlank e) \<and> nTilesMax e < 65536"

lemma taken_frame: "frame e e' \<Longrightarrow> taken r ts e \<Longrightarrow> taken r ts e'"
  by (simp add: taken_def frame_sel[of e e'])

lemma taken_hand_out:
  assumes "taken r ts e" "map mtile us = ts"
  shows "hand_out (enBlank e) r (take (blankCount e) (blankValues e)) us"
proof -
  have nb: "\<not> IS_BLANK (mtile u)" if "u \<in> set us" for u
    using small_tile_bits(1)[of "mtile u"] assms that by (force simp: taken_def)
  then have "plain us = ts" "marked us = 0" using assms(2) by (auto simp: plain_def marked_def filter_empty_conv)
  moreover have "unat t < 65" if "t \<in> set ts" for t
    using assms(1) that by (fastforce simp: taken_def word_less_nat_alt)
  ultimately show ?thesis using assms(1)
    by (auto simp: hand_out_def taken_def)
qed

definition searchable :: "nat list \<Rightarrow> engineCtxt \<Rightarrow> moveInfo \<Rightarrow> bool" where
  "searchable r e = playable (enBlank e) r (enModel e) (includePending e) (enTurn e)"

lemma searchable_frame: "frame e e' \<Longrightarrow> searchable r e' = searchable r e"
  by (simp add: searchable_def frame_sel[of e e'])

lemma localGetBoardTile_free:
  assumes "localGetBoardTile e c row False = Some None" "commonCoord mi = row" "isHorizontal mi = searchHorizontal e"
  shows "case square_of mi c of (x, y) \<Rightarrow> model_getTile (enModel e) x y (includePending e) (enTurn e) = Some None"
  using assms by (auto simp: localGetBoardTile_def square_of_def split: if_splits option.splits) (metis not_None_eq prod_cases4)+

section \<open>From the rack to the cache\<close>

text \<open>A step of the search from an engine with \<open>ts\<close> taken: the rest of the engine stays, and what is kept can be
  played.\<close>

definition safe_step :: "nat list \<Rightarrow> engineCtxt \<Rightarrow> engineCtxt \<Rightarrow> bool" where
  "safe_step r e e' \<longleftrightarrow> all_kept (searchable r e) e \<longrightarrow> frame e e' \<and> all_kept (searchable r e) e'"

lemma safe_step_refl [simp]: "safe_step r e e"
  by (simp add: safe_step_def)

lemma safe_stepI:
  assumes "all_kept (searchable r e) e \<Longrightarrow> frame e e' \<and> all_kept (searchable r e) e'"
  shows "safe_step r e e'"
  using assms by (simp add: safe_step_def)

lemma safe_stepD:
  assumes "safe_step r e e'" "all_kept (searchable r e) e"
  shows "frame e e'" "all_kept (searchable r e) e'" "all_kept (searchable r e') e'"
  using assms searchable_frame[of e e'] by (simp_all add: safe_step_def)

lemma safe_step_trans:
  assumes "safe_step r a b" "safe_step r b c"
  shows "safe_step r a c"
proof (rule safe_stepI)
  assume k: "all_kept (searchable r a) a"
  note b = safe_stepD[OF assms(1) k]
  note c = safe_stepD[OF assms(2) b(3)]
  show "frame a c \<and> all_kept (searchable r a) c"
    using frame_trans[OF b(1) c(1)] c(2) searchable_frame[OF b(1)] by simp
qed

lemma considerMove_safe:
  assumes "considerMove e ts firstCol row = Some e'" "taken r ts e"
  shows "safe_step r e e'"
proof -
  define e1 where "e1 = (if skipProgressCallback e then e else e\<lparr>nProgress := nProgress e + 1\<rparr>)"
  have f1: "frame e e1" by (simp add: e1_def frame_def)
  have k1: "all_kept Q e1 = all_kept Q e" for Q by (simp add: e1_def all_kept_def)
  have t1: "taken r ts e1" using taken_frame[OF f1 assms(2)] .
  consider "e' = e1\<lparr>returnNOW := True\<rparr>" | us where "length ts \<le> MAX_TRAY_TILES" "fill_squares e1 row firstCol ts [] = Some us"
      "considerScoreWordHasBlanks (blankCount e1)
         \<lparr>pmScore = 0, pmMove = \<lparr>commonCoord = row, isHorizontal = searchHorizontal e1, mtiles = us\<rparr>,
           blankVals = replicate MAX_COLS 0\<rparr> row [] e1 = Some e'"
    using assms(1) by (auto simp: considerMove_def e1_def Let_def split: if_splits)
  then show ?thesis
  proof cases
    case 1
    then have "frame e1 e'" by (simp add: frame_def)
    then have "frame e e'" using f1 frame_trans by blast
    moreover have "all_kept Q e' = all_kept Q e1" for Q using 1 by (simp add: all_kept_def)
    ultimately show ?thesis by (simp add: safe_step_def k1)
  next
    case 2
    from fill_squares_spec[OF 2(2)] obtain c where us: "free_from e1 row c us" "map mtile us = ts"
      by (auto simp: free_from_def)
    let ?mi = "\<lparr>commonCoord = row, isHorizontal = searchHorizontal e1, mtiles = us\<rparr>"
    have Q: "searchable r e1 mi" if m: "from_rack (enBlank e1) r mi" "line_of mi = line_of ?mi" for mi
    proof -
      have l: "commonCoord mi = row" "isHorizontal mi = searchHorizontal e1" "map varCoord (mtiles mi) = map varCoord us"
        using m(2) by (simp_all add: line_of_def)
      have "length (mtiles mi) \<le> MAX_TRAY_TILES"
        using arg_cong[OF l(3), of length] arg_cong[OF us(2), of length] 2(1) by simp
      moreover have "varCoord ` set (mtiles mi) = varCoord ` set us" using arg_cong[OF l(3), of set] by simp
      then have "case square_of mi (varCoord t) of (x, y) \<Rightarrow>
          model_getTile (enModel e1) x y (includePending e1) (enTurn e1) = Some None" if "t \<in> set (mtiles mi)" for t
      proof -
        from that \<open>varCoord ` set (mtiles mi) = varCoord ` set us\<close> have "varCoord t \<in> varCoord ` set us" by blast
        then obtain u where "u \<in> set us" "varCoord u = varCoord t" by auto
        then have "localGetBoardTile e1 (varCoord t) row False = Some None" using us(1) by (auto simp: free_from_def)
        then show ?thesis by (rule localGetBoardTile_free[OF _ l(1,2)])
      qed
      ultimately show ?thesis using m(1) us(1) l(3) by (simp add: searchable_def playable_def on_free_def free_from_def)
    qed
    have "safe_step r e1 e'"
      by (rule safe_stepI) (use consider_blanks_frame[OF 2(3), of "searchable r e1" "enBlank e1" r] taken_hand_out[OF t1 us(2)] Q in simp)
    moreover have "safe_step r e e1"
      using f1 by (intro safe_stepI) (simp add: k1)
    ultimately show ?thesis using safe_step_trans by blast
  qed
qed

lemma rack_remove_cases:
  assumes "rack_remove e t = Some (got, e1)" "taken r ts e"
  obtains (none) "got = None" "e1 = e"
  | (tile) n where "got = Some False" "t < 64" "t \<noteq> enBlank e" "rack e ! unat t = Suc n" "0 < nTilesMax e"
      "e1 = e\<lparr>rack := (rack e)[unat t := n], nTilesMax := nTilesMax e - 1\<rparr>"
  | (blank) n where "got = Some True" "t < 64" "t \<noteq> enBlank e" "rack e ! unat (enBlank e) = Suc n" "0 < nTilesMax e"
      "blankCount e < length (blankValues e)"
      "e1 = e\<lparr>rack := (rack e)[unat (enBlank e) := n], blankValues := (blankValues e)[blankCount e := t],
         blankCount := Suc (blankCount e), nTilesMax := nTilesMax e - 1\<rparr>"
proof -
  have a: "unat t < 64" "t \<noteq> enBlank e" "0 < nTilesMax e" "unat t < length (rack e)" "unat (enBlank e) < length (rack e)"
    using assms by (auto simp: rack_remove_def MAX_UNIQUE_TILES_def split: if_splits)
  then have t: "t < 64" by (simp add: word_less_nat_alt)
  show thesis
  proof (cases "rack e ! unat t")
    case (Suc n)
    then show thesis using assms(1) a t by (intro tile[of n]) (simp_all add: rack_remove_def MAX_UNIQUE_TILES_def)
  next
    case 0
    show thesis
    proof (cases "rack e ! unat (enBlank e)")
      case (Suc n)
      then show thesis using assms(1) a t \<open>rack e ! unat t = 0\<close>
        by (intro blank[of n]) (auto simp: rack_remove_def MAX_UNIQUE_TILES_def)
    next
      case 0
      then show thesis using assms(1) a t \<open>rack e ! unat t = 0\<close>
        by (intro none) (auto simp: rack_remove_def MAX_UNIQUE_TILES_def)
    qed
  qed
qed

lemma unat_tile_eq [simp]: "unat (t :: tile) = unat u \<longleftrightarrow> t = u"
  by (simp add: word_unat_eq_iff)

lemma taken_remove:
  assumes "rack_remove e t = Some (Some isBlank, e1)" "taken r ts e"
  shows "taken r (ts @ [t]) e1"
  using assms(1,2)
proof (cases rule: rack_remove_cases)
  case (tile n)
  note tk = assms(2)[unfolded taken_def]
  have t65: "unat t < 65" using tile(2) by (simp add: word_less_nat_alt)
  have "\<forall>m\<in>set ((rack e)[unat t := n]). m < 256"
    using set_update_subset_insert[of "rack e" "unat t" n] nth_mem[of "unat t" "rack e"] tk tile(4) t65
    by (metis Suc_lessD insertE subsetD)
  then show ?thesis using tk tile t65 by (auto simp: taken_def nth_list_update)
next
  case (blank n)
  note tk = assms(2)[unfolded taken_def]
  have "\<forall>m\<in>set ((rack e)[unat (enBlank e) := n]). m < 256"
    using set_update_subset_insert[of "rack e" "unat (enBlank e)" n] nth_mem[of "unat (enBlank e)" "rack e"] tk blank(4)
    by (metis Suc_lessD insertE subsetD)
  moreover have "take (Suc (blankCount e)) ((blankValues e)[blankCount e := t]) = take (blankCount e) (blankValues e) @ [t]"
    using blank(6) by (intro nth_equalityI) (auto simp: nth_append nth_list_update less_Suc_eq)
  ultimately show ?thesis using tk blank by (auto simp: taken_def nth_list_update)
qed simp

lemma sub16_Suc [simp]: "n < 65536 \<Longrightarrow> sub16 (Suc n) 1 = n"
  by (simp add: sub16_def)

lemma frame_iff:
  "frame e e' \<longleftrightarrow> (\<exists>md rn np nh bv. e' = e\<lparr>miData := md, returnNOW := rn, nProgress := np, nHilite := nh, blankValues := bv\<rparr> \<and>
     take (blankCount e) bv = take (blankCount e) (blankValues e) \<and> length bv = length (blankValues e))"
proof
  assume f: "frame e e'"
  let ?u = "e'\<lparr>miData := miData e, returnNOW := returnNOW e, nProgress := nProgress e, nHilite := nHilite e,
       blankValues := blankValues e\<rparr>"
  have "e\<lparr>miData := miData e', returnNOW := returnNOW e', nProgress := nProgress e', nHilite := nHilite e',
       blankValues := blankValues e'\<rparr> = ?u\<lparr>miData := miData e', returnNOW := returnNOW e', nProgress := nProgress e',
       nHilite := nHilite e', blankValues := blankValues e'\<rparr>" using f by (simp add: frame_def)
  then have "e' = e\<lparr>miData := miData e', returnNOW := returnNOW e', nProgress := nProgress e', nHilite := nHilite e',
       blankValues := blankValues e'\<rparr>" by simp
  then show "\<exists>md rn np nh bv. e' = e\<lparr>miData := md, returnNOW := rn, nProgress := np, nHilite := nh, blankValues := bv\<rparr> \<and>
     take (blankCount e) bv = take (blankCount e) (blankValues e) \<and> length bv = length (blankValues e)"
    using f unfolding frame_def by blast
next
  show "\<exists>md rn np nh bv. e' = e\<lparr>miData := md, returnNOW := rn, nProgress := np, nHilite := nh, blankValues := bv\<rparr> \<and>
     take (blankCount e) bv = take (blankCount e) (blankValues e) \<and> length bv = length (blankValues e) \<Longrightarrow> frame e e'"
    by (auto simp: frame_def)
qed

lemma frameI:
  "\<lbrakk>e' = e\<lparr>miData := md, returnNOW := rn, nProgress := np, nHilite := nh, blankValues := bv\<rparr>;
    take (blankCount e) bv = take (blankCount e) (blankValues e); length bv = length (blankValues e)\<rbrakk> \<Longrightarrow> frame e e'"
  by (simp add: frame_def)

lemma rack_back:
  assumes "rack_remove e t = Some (Some isBlank, e1)" "taken r ts e" "frame e1 e2" "rack_replace e2 t isBlank = Some e3"
  shows "frame e e3" "all_kept Q e3 = all_kept Q e2" "all_kept Q e1 = all_kept Q e"
proof -
  note tk = assms(2)[unfolded taken_def]
  from assms(3) obtain md rn np nh bv where
    e2: "e2 = e1\<lparr>miData := md, returnNOW := rn, nProgress := np, nHilite := nh, blankValues := bv\<rparr>"
      "take (blankCount e1) bv = take (blankCount e1) (blankValues e1)" "length bv = length (blankValues e1)"
    by (auto simp: frame_iff)
  have lt: "rack e ! unat x < 256" if "unat x < 65" for x :: tile using tk nth_mem[of "unat x" "rack e"] that by auto
  show "all_kept Q e3 = all_kept Q e2" using assms(4) by (auto simp: rack_replace_def all_kept_def Let_def split: if_splits)
  have same: "e\<lparr>rack := (rack e)[i := rack e ! i], nTilesMax := nTilesMax e\<rparr> = e"
    "e\<lparr>rack := (rack e)[i := rack e ! i], blankCount := blankCount e, nTilesMax := nTilesMax e\<rparr> = e" for i
    by (cases e; simp)+
  from assms(1,2) have "frame e e3 \<and> all_kept Q e1 = all_kept Q e"
  proof (cases rule: rack_remove_cases)
    case (tile n)
    then have t65: "unat t < 65" by (simp add: word_less_nat_alt)
    have n: "Suc n mod 256 = Suc n" using lt[OF t65] tile(4) by auto
    have "e3 = (e\<lparr>rack := (rack e)[unat t := rack e ! unat t], nTilesMax := nTilesMax e\<rparr>)
        \<lparr>miData := md, returnNOW := rn, nProgress := np, nHilite := nh, blankValues := bv\<rparr>"
      using assms(4) tile tk t65 n by (auto simp: rack_replace_def e2(1) Let_def)
    note e3 = this[unfolded same]
    have "take (blankCount e) bv = take (blankCount e) (blankValues e)" "length bv = length (blankValues e)"
      using e2(2,3) tile(6) by simp_all
    from frameI[OF e3 this] show ?thesis using tile(6) by (simp add: all_kept_def)
  next
    case (blank n)
    have n: "Suc n mod 256 = Suc n" using lt[of "enBlank e"] tk blank(4) by auto
    have "e3 = (e\<lparr>rack := (rack e)[unat (enBlank e) := rack e ! unat (enBlank e)], blankCount := blankCount e, nTilesMax := nTilesMax e\<rparr>)
        \<lparr>miData := md, returnNOW := rn, nProgress := np, nHilite := nh, blankValues := bv\<rparr>"
      using assms(4) blank tk n by (auto simp: rack_replace_def e2(1) Let_def)
    note e3 = this[unfolded same]
    have "take (blankCount e) bv = take (blankCount e) (blankValues e)" "length bv = length (blankValues e)"
      using arg_cong[OF e2(2), of "take (blankCount e)"] e2(3) blank(6,7) by simp_all
    from frameI[OF e3 this] show ?thesis using blank(7) by (simp add: all_kept_def)
  qed simp
  then show "frame e e3" "all_kept Q e1 = all_kept Q e" by auto
qed

text \<open>Taking a tile, searching on with it, and putting it back.\<close>

lemma try_tile_safe:
  assumes "try_tile rec t e = Some e'" "taken r ts e"
    "\<And>e1 e2. taken r (ts @ [t]) e1 \<Longrightarrow> rec t e1 = Some e2 \<Longrightarrow> safe_step r e1 e2"
  shows "safe_step r e e'"
proof -
  from assms(1) obtain got e1 where rm: "rack_remove e t = Some (got, e1)"
    and rest: "(case got of None \<Rightarrow> Some e1 | Some b \<Rightarrow> do { e2 \<leftarrow> rec t e1; rack_replace e2 t b }) = Some e'"
    by (auto simp: try_tile_def)
  show ?thesis
  proof (cases got)
    case None
    then have "e1 = e" using rm assms(2) by (auto elim!: rack_remove_cases)
    then show ?thesis using rest None by simp
  next
    case (Some b)
    then obtain e2 where e2: "rec t e1 = Some e2" "rack_replace e2 t b = Some e'" using rest by auto
    note rm = rm[unfolded Some]
    have s: "safe_step r e1 e2" using assms(3)[OF taken_remove[OF rm assms(2)] e2(1)] .
    show ?thesis
    proof (rule safe_stepI)
      assume k: "all_kept (searchable r e) e"
      have eq: "searchable r e1 = searchable r e"
        using rm assms(2) by (auto simp: searchable_def elim!: rack_remove_cases)
      have k1: "all_kept (searchable r e1) e1"
        using rack_back(3)[OF rm assms(2) frame_refl] rm assms(2) k unfolding eq
        by (auto simp: all_kept_def elim!: rack_remove_cases)
      note f = safe_stepD[OF s k1]
      show "frame e e' \<and> all_kept (searchable r e) e'"
        using rack_back(1,2)[OF rm assms(2) f(1) e2(2)] f(2) by (simp add: eq)
    qed
  qed
qed

lemma edge_loop_invariant:
  assumes "edge_loop dict body x s = Some (stop, s')" "P s"
    "\<And>x s stop s'. P s \<Longrightarrow> body x s = Some (stop, s') \<Longrightarrow> P s'"
  shows "P s'"
proof -
  have "(\<forall>x s stop s'. P s \<longrightarrow> body x s = Some (stop, s') \<longrightarrow> P s') \<longrightarrow> P s \<longrightarrow> P (snd (stop, s'))"
  proof (rule edge_loop.raw_induct[of "\<lambda>dict body x s r. (\<forall>x s stop s'. P s \<longrightarrow> body x s = Some (stop, s') \<longrightarrow> P s') \<longrightarrow> P s \<longrightarrow> P (snd r)",
        OF _ assms(1)])
    fix loop dict body x s r
    assume ih: "\<And>dict body x s r. loop dict body x s = Some r \<Longrightarrow>
        (\<forall>x s stop s'. P s \<longrightarrow> body x s = Some (stop, s') \<longrightarrow> P s') \<longrightarrow> P s \<longrightarrow> P (snd r)"
      and run: "do {
         (stop, s) \<leftarrow> body x s;
         if stop then Some (True, s)
         else do {
           islast \<leftarrow> IS_LAST_EDGE dict x;
           if islast then Some (False, s) else loop dict body (x + nodeSize dict) s
         } } = Some r"
    show "(\<forall>x s stop s'. P s \<longrightarrow> body x s = Some (stop, s') \<longrightarrow> P s') \<longrightarrow> P s \<longrightarrow> P (snd r)"
    proof (intro impI)
      assume step: "\<forall>x s stop s'. P s \<longrightarrow> body x s = Some (stop, s') \<longrightarrow> P s'" and "P s"
      from run obtain stop s1 where b: "body x s = Some (stop, s1)" by auto
      then have "P s1" using step \<open>P s\<close> by blast
      show "P (snd r)"
      proof (cases stop)
        case True
        then show ?thesis using run b \<open>P s1\<close> by auto
      next
        case False
        then show ?thesis using run b \<open>P s1\<close> ih[of dict body "x + nodeSize dict" s1 r] step
          by (auto split: if_splits)
      qed
    qed
  qed
  then show ?thesis using assms(2,3) by auto
qed

lemma edge_loop_safe:
  assumes "edge_loop dict body x s = Some (stop, s')" "taken r ts (eng s)"
    "\<And>x s stop s'. taken r ts (eng s) \<Longrightarrow> body x s = Some (stop, s') \<Longrightarrow> safe_step r (eng s) (eng s')"
  shows "safe_step r (eng s) (eng s')"
proof (rule safe_stepI)
  let ?e = "eng s"
  let ?P = "\<lambda>s. frame ?e (eng s) \<and> all_kept (searchable r ?e) (eng s)"
  assume k: "all_kept (searchable r ?e) ?e"
  have step: "?P s1" if p: "?P s0" and b: "body x s0 = Some (st, s1)" for x s0 st s1
  proof -
    have f: "frame ?e (eng s0)" and k: "all_kept (searchable r ?e) (eng s0)" using p by auto
    have s: "safe_step r (eng s0) (eng s1)" by (rule assms(3)[OF taken_frame[OF f assms(2)] b])
    have "all_kept (searchable r (eng s0)) (eng s0)" using k searchable_frame[OF f] by simp
    note d = safe_stepD(1,2)[OF s this]
    show ?thesis using frame_trans[OF f d(1)] d(2) searchable_frame[OF f] by simp
  qed
  have "?P s" using k by simp
  from edge_loop_invariant[of dict body x s stop s' ?P, OF assms(1) this step] show "?P s'" .
qed

lemma check_exit_safe: "check_exit e ts acc firstCol row = Some e' \<Longrightarrow> taken r ts e \<Longrightarrow> safe_step r e e'"
  by (auto simp: check_exit_def considerMove_safe split: if_splits)

lemma extendRight_safe:
  "extendRight left ts edge acc firstCol col row e = Some e' \<Longrightarrow> taken r ts e \<Longrightarrow> safe_step r e e'"
proof (induction left arbitrary: ts edge acc col e e')
  case 0
  then show ?case using check_exit_safe by simp
next
  case (Suc left)
  let ?body = "\<lambda>x (advanced, engine). do {
               t \<leftarrow> EDGETILE (enDict e) x;
               (contains, advanced) \<leftarrow> crossOk engine col advanced t;
               engine \<leftarrow> (if contains then try_tile (\<lambda>t engine. do {
                   nxt \<leftarrow> edge_from_tile (enDict e) x t;
                   acc \<leftarrow> ISACCEPTING (enDict e) x;
                   extendRight left (ts @ [t]) nxt acc firstCol (col + 1) row engine
                 }) t engine else Some engine);
               Some (contains \<and> returnNOW engine, advanced, engine)
             }"
  have body: "safe_step r (snd s) (snd s')" if tk: "taken r ts (snd s)" and b: "?body x s = Some (st, s')" for x s st s'
  proof -
    obtain a eng where s: "s = (a, eng)" by (cases s)
    obtain a' e1 where s': "s' = (a', e1)" by (cases s')
    from b s obtain t where t: "EDGETILE (enDict e) x = Some t" by (cases "EDGETILE (enDict e) x") simp_all
    from b s t obtain c a2 where c: "crossOk eng col a t = Some (c, a2)" by (cases "crossOk eng col a t") auto
    show ?thesis
    proof (cases c)
      case True
      then have "try_tile (\<lambda>t engine. do {
                   nxt \<leftarrow> edge_from_tile (enDict e) x t;
                   acc \<leftarrow> ISACCEPTING (enDict e) x;
                   extendRight left (ts @ [t]) nxt acc firstCol (col + 1) row engine
                 }) t eng = Some e1" using b s s' t c by auto
      then show ?thesis using tk unfolding s s' snd_conv by (rule try_tile_safe) (auto intro: Suc.IH)
    next
      case False
      then show ?thesis using b s s' t c by simp
    qed
  qed
  from Suc.prems(1) obtain bt where bt: "localGetBoardTile e col row False = Some bt" by auto
  show ?case
  proof (cases edge)
    case None
    then have "e' = e \<or> check_exit e ts acc firstCol row = Some e'" using Suc.prems(1) bt by (cases bt) (simp_all add: Let_def)
    then show ?thesis using Suc.prems(2) check_exit_safe by auto
  next
    case (Some x)
    show ?thesis
    proof (cases bt)
      case None
      show ?thesis
      proof (cases "nTilesMax e > 0")
        case True
        then obtain stop a e1 where l: "edge_loop (enDict e) ?body x (False, e) = Some (stop, a, e1)"
          "(if stop then Some e1 else check_exit e1 ts acc firstCol row) = Some e'"
          using Suc.prems(1) bt Some None by (auto simp: Let_def)
        have s: "safe_step r e e1" using edge_loop_safe[of _ _ _ _ _ _ r ts snd, OF l(1) _ body] Suc.prems(2) by simp
        show ?thesis
        proof (cases stop)
          case False
          show ?thesis
          proof (rule safe_stepI)
            assume k: "all_kept (searchable r e) e"
            have "taken r ts e1" using taken_frame safe_stepD(1)[OF s k] Suc.prems(2) by blast
            then have "safe_step r e1 e'" using check_exit_safe l(2) False by simp
            from safe_step_trans[OF s this] k show "frame e e' \<and> all_kept (searchable r e) e'" by (simp add: safe_step_def)
          qed
        qed (use s l(2) in simp)
      next
        case False
        then have "check_exit e ts acc firstCol row = Some e'" using Suc.prems(1) bt Some None by (simp add: Let_def)
        then show ?thesis using Suc.prems(2) by (rule check_exit_safe)
      qed
    next
      case (Some t)
      obtain found where f: "dict_super_edge_with_tile (enDict e) x t = Some found"
        "(case found of None \<Rightarrow> Some e | Some y \<Rightarrow> do {
            acc \<leftarrow> ISACCEPTING (enDict e) y;
            nxt \<leftarrow> dict_super_follow (enDict e) y;
            extendRight left ts nxt acc firstCol (Suc col) row e
          }) = Some e'"
        using Suc.prems(1) bt Some \<open>edge = Some x\<close> by (cases "dict_super_edge_with_tile (enDict e) x t") (simp_all add: Let_def)
      show ?thesis
      proof (cases found)
        case None
        then show ?thesis using f(2) by simp
      next
        case (Some y)
        then obtain acc nxt where "extendRight left ts nxt acc firstCol (Suc col) row e = Some e'"
          using f(2) by auto
        from Suc.IH[OF this Suc.prems(2)] show ?thesis .
      qed
    qed
  qed
qed

lemma leftPart_Suc:
  "leftPart (Suc limit) ts edge firstCol anchorCol row e = do {
     engine \<leftarrow> extendRight (enCols e - anchorCol) ts edge False firstCol anchorCol row e;
     case edge of
       None \<Rightarrow> Some engine
     | Some x \<Rightarrow>
         if \<not> returnNOW engine \<and> nTilesMax engine > 0 then do {
           let dict = enDict engine;
           (_, engine) \<leftarrow> edge_loop dict (\<lambda>e engine. do {
               t \<leftarrow> EDGETILE dict e;
               engine \<leftarrow> try_tile (\<lambda>t engine. do {
                   nxt \<leftarrow> dict_super_follow dict e;
                   leftPart limit (ts @ [t]) nxt (firstCol - 1) anchorCol row engine
                 }) t engine;
               Some (returnNOW engine, engine)
             }) x engine;
           Some engine
         } else Some engine
   }"
  by (subst leftPart.simps) simp

lemma leftPart_safe:
  "leftPart limit ts edge firstCol anchorCol row e = Some e' \<Longrightarrow> taken r ts e \<Longrightarrow> safe_step r e e'"
proof (induction limit arbitrary: ts edge firstCol e e')
  case 0
  then show ?case by (subst (asm) leftPart.simps) (auto intro: extendRight_safe)
next
  case (Suc limit)
  let ?body = "\<lambda>e1 x engine. do {
                    t \<leftarrow> EDGETILE (enDict e1) x;
                    engine \<leftarrow> try_tile (\<lambda>t engine. do {
                        nxt \<leftarrow> dict_super_follow (enDict e1) x;
                        leftPart limit (ts @ [t]) nxt (firstCol - 1) anchorCol row engine
                      }) t engine;
                    Some (returnNOW engine, engine)
                  }"
  from Suc.prems(1) obtain e1 where e1: "extendRight (enCols e - anchorCol) ts edge False firstCol anchorCol row e = Some e1"
    unfolding leftPart_Suc by (cases "extendRight (enCols e - anchorCol) ts edge False firstCol anchorCol row e") simp_all
  have rest: "e' = e1 \<or> (\<exists>x stop. edge_loop (enDict e1) (?body e1) x e1 = Some (stop, e'))"
  proof (cases edge)
    case None
    then show ?thesis using Suc.prems(1) e1 unfolding leftPart_Suc by simp
  next
    case (Some x)
    show ?thesis
    proof (cases "\<not> returnNOW e1 \<and> nTilesMax e1 > 0")
      case True
      then have "do { (_, engine) \<leftarrow> edge_loop (enDict e1) (?body e1) x e1; Some engine } = Some e'"
        using Suc.prems(1) e1 Some unfolding leftPart_Suc by (simp add: Let_def del: bind_Some_iff)
      then have "\<exists>stop. edge_loop (enDict e1) (?body e1) x e1 = Some (stop, e')"
        by (cases "edge_loop (enDict e1) (?body e1) x e1") auto
      then show ?thesis by blast
    next
      case False
      then show ?thesis using Suc.prems(1) e1 Some unfolding leftPart_Suc by auto
    qed
  qed
  have s1: "safe_step r e e1" using extendRight_safe[OF e1 Suc.prems(2)] .
  have body: "safe_step r s s'" if tk: "taken r ts s" and b: "?body e1 x s = Some (st, s')" for x s st s'
  proof -
    from b obtain t where "EDGETILE (enDict e1) x = Some t" by (cases "EDGETILE (enDict e1) x") simp_all
    with b have "try_tile (\<lambda>t engine. do {
                        nxt \<leftarrow> dict_super_follow (enDict e1) x;
                        leftPart limit (ts @ [t]) nxt (firstCol - 1) anchorCol row engine
                      }) t s = Some s'" by auto
    then show ?thesis using tk by (rule try_tile_safe) (auto intro: Suc.IH)
  qed
  show ?case
  proof (rule safe_stepI)
    assume k: "all_kept (searchable r e) e"
    have tk: "taken r ts e1" by (rule taken_frame[OF safe_stepD(1)[OF s1 k] Suc.prems(2)])
    have "safe_step r e1 e'"
    proof (cases "e' = e1")
      case False
      then obtain x stop where l: "edge_loop (enDict e1) (?body e1) x e1 = Some (stop, e')" using rest by blast
      show ?thesis by (rule edge_loop_safe[of _ _ _ _ _ _ r ts "\<lambda>s. s", OF l tk body])
    qed simp
    from safe_stepD(1,2)[OF safe_step_trans[OF s1 this] k] show "frame e e' \<and> all_kept (searchable r e) e'" by simp
  qed
qed

section \<open>Rows, directions and the whole search\<close>

text \<open>Between two anchors nothing is taken from the rack.\<close>

text \<open>An engine between searches: nothing is taken, and the limits it is given for the number of tiles are
  \<open>XP_U16\<close> values.\<close>

definition engine_idle :: "engineCtxt \<Rightarrow> bool" where
  "engine_idle e \<longleftrightarrow> blankCount e = 0 \<and> length (blankValues e) = 7 \<and> nTilesMaxUser e < 65536 \<and>
     (\<forall>a b. case euLimits (enUtil e) a b of Some (mn, mx) \<Rightarrow> mx < 65536 | None \<Rightarrow> True)"

lemma idle_frame:
  assumes "frame e e'" "engine_idle e"
  shows "engine_idle e'"
proof -
  from assms(1) obtain md rn np nh bv where "e' = e\<lparr>miData := md, returnNOW := rn, nProgress := np, nHilite := nh, blankValues := bv\<rparr>"
    "length bv = length (blankValues e)" by (auto simp: frame_iff)
  then show ?thesis using assms(2) by (simp add: engine_idle_def)
qed

definition ready :: "nat list \<Rightarrow> (moveInfo \<Rightarrow> bool) \<Rightarrow> engineCtxt \<Rightarrow> bool" where
  "ready r K e \<longleftrightarrow> taken r [] e \<and> searchable r e = K \<and> all_kept K e \<and> engine_idle e"

lemma ready_step: "ready r K e \<Longrightarrow> safe_step r e e' \<Longrightarrow> ready r K e'"
  using safe_stepD(1,2) taken_frame searchable_frame idle_frame unfolding ready_def by metis

lemma ready_simps [simp]:
  "ready r K (e\<lparr>scoreCache := sc\<rparr>) = ready r K e" "ready r K (e\<lparr>rowChecks := rc\<rparr>) = ready r K e"
  "ready r K (e\<lparr>curRow := i\<rparr>) = ready r K e" "ready r K (e\<lparr>searchHorizontal := h\<rparr>) = ready r K e"
  "ready r K (e\<lparr>searchInProgress := h\<rparr>) = ready r K e" "ready r K (e\<lparr>enRows := i\<rparr>) = ready r K e"
  "ready r K (e\<lparr>enCols := i\<rparr>) = ready r K e" "ready r K (e\<lparr>lastRowToFill := i\<rparr>) = ready r K e"
  "ready r K (e\<lparr>returnNOW := h\<rparr>) = ready r K e" "ready r K (e\<lparr>nHilite := i\<rparr>) = ready r K e"
  by (auto simp: ready_def taken_def searchable_def all_kept_def engine_idle_def)

lemma findMovesForAnchor_ready:
  assumes "findMovesForAnchor bp col row e = Some (bp', e')" "ready r K e"
  shows "ready r K e'"
proof -
  have h: "ready r K (hiliteForAnchor e)" using assms(2) by (simp add: hiliteForAnchor_def Let_def)
  then have tk: "taken r [] (hiliteForAnchor e)" by (simp add: ready_def)
  from assms(1) have "e' = hiliteForAnchor e \<or> (\<exists>limit. leftPart limit [] (dict_super_getTopEdge (enDict (hiliteForAnchor e))) col col row (hiliteForAnchor e) = Some e')
      \<or> (\<exists>left edge fc. extendRight left [] edge False fc col row (hiliteForAnchor e) = Some e')"
    by (auto simp: findMovesForAnchor_def Let_def split: if_splits)
  then have "safe_step r (hiliteForAnchor e) e'" using leftPart_safe[OF _ tk] extendRight_safe[OF _ tk] by auto
  then show ?thesis using ready_step h by blast
qed

lemma findMovesOneRow_ready:
  assumes "findMovesOneRow e = Some e'" "ready r K e"
  shows "ready r K e'"
proof -
  obtain f l where fl: "search_cols e = (f, l)" by (cases "search_cols e")
  from assms(1) fl obtain e1 p where
    1: "ofold (crosscheck_step (curRow e) f l) (e\<lparr>rowChecks := replicate MAX_ROWS (0, 0)\<rparr>) [0..<enCols e] = Some e1" and
    2: "ofold (anchor_step (curRow e)) (f, e1) [f..<l + 1] = Some (p, e')"
    by (auto simp: findMovesOneRow_def Let_def simp del: upt_Suc)
  have "ready r K e1"
    by (rule ofold_invariant[of "ready r K", OF _ _ 1])
       (use assms(2) in \<open>auto simp: crosscheck_step_def split: if_splits\<close>)
  then have "ready r K (snd (p, e'))"
    by (intro ofold_invariant[of "\<lambda>s. ready r K (snd s)", OF _ _ 2])
       (auto simp: anchor_step_def findMovesForAnchor_ready split: if_splits prod.splits)
  then show ?thesis by simp
qed

lemma search_rows_ready: "search_rows n e = Some e' \<Longrightarrow> ready r K e \<Longrightarrow> ready r K e'"
proof (induction n arbitrary: e)
  case (Suc n)
  show ?case
  proof (cases "isFirstMove e \<and> curRow e \<noteq> star_row e")
    case True
    then show ?thesis using Suc by simp
  next
    case False
    then obtain e1 where e1: "findMovesOneRow e = Some e1"
      "(if returnNOW e1 then Some e1 else search_rows n (e1\<lparr>curRow := curRow e1 + 1\<rparr>)) = Some e'"
      using Suc.prems(1) by (cases "findMovesOneRow e") auto
    have "ready r K e1" using findMovesOneRow_ready e1(1) Suc.prems(2) by blast
    then show ?thesis using e1(2) Suc.IH by (auto split: if_splits)
  qed
qed simp

lemma start_direction_ready [simp]: "ready r K (start_direction e) = ready r K e"
  by (simp add: start_direction_def Let_def split: prod.splits)

lemma search_directions_ready: "search_directions n e = Some e' \<Longrightarrow> ready r K e \<Longrightarrow> ready r K e'"
proof (induction n arbitrary: e)
  case (Suc n)
  then obtain e1 where e1: "search_rows (rows_left e) e = Some e1"
    "(if returnNOW e1 then Some e1
     else if \<not> searchHorizontal e1 \<or> (isFirstMove e1 \<and> searchLimits e1 = None)
     then Some (e1\<lparr>searchInProgress := False\<rparr>)
     else search_directions n (start_direction (e1\<lparr>searchHorizontal := False\<rparr>))) = Some e'"
    by (cases "search_rows (rows_left e) e") auto
  have "ready r K e1" using search_rows_ready e1(1) Suc.prems(2) by blast
  then show ?case using e1(2) Suc.IH[of "start_direction (e1\<lparr>searchHorizontal := False\<rparr>)"] by (auto split: if_splits)
qed simp

lemma sort_moves_mset: "sort_moves ms = Some ms' \<Longrightarrow> mset ms' = mset ms"
proof (rule sort_moves.raw_induct[of "\<lambda>ms ms'. mset ms' = mset ms"])
  fix f ms ms'
  assume ih: "\<And>ms ms'. f ms = Some ms' \<Longrightarrow> mset ms' = mset ms"
    and run: "(let (done, ms) = sort_pass ms in if done then Some ms else f ms) = Some ms'"
  obtain d l where p: "sort_pass ms = (d, l)" by (cases "sort_pass ms")
  show "mset ms' = mset ms"
    using run ih[of l ms'] sort_pass_mset[OF p] p by (auto split: if_splits)
qed

lemma sortMoves_set:
  assumes "sortMoves e = Some e'"
  shows "set (savedMoves (miData e')) = set (savedMoves (miData e))"
proof -
  from assms obtain ms where ms: "sort_moves (take (nMovesToSave e) (savedMoves (miData e))) = Some ms"
    "savedMoves (miData e') = ms @ drop (nMovesToSave e) (savedMoves (miData e))"
    by (auto simp: sortMoves_def Let_def)
  have "mset (savedMoves (miData e')) = mset (savedMoves (miData e))"
    using sort_moves_mset[OF ms(1)] mset_append[of "take (nMovesToSave e) (savedMoves (miData e))" "drop (nMovesToSave e) (savedMoves (miData e))"]
    by (simp add: ms(2))
  then show ?thesis using mset_eq_setD by blast
qed

lemma init_move_cache_set: "init_move_cache e = Some e' \<Longrightarrow> savedMoves (miData e') = savedMoves (miData e)"
  by (auto simp: init_move_cache_def Let_def)

lemma next_from_cache_mem: "next_from_cache e = Some (Some m, e') \<Longrightarrow> m \<in> set (savedMoves (miData e))"
  by (auto simp: next_from_cache_def Let_def split: if_splits)

definition sorted_cache :: "engineCtxt \<Rightarrow> engineCtxt option" where
  "sorted_cache e = (if move_cache_empty e then do {
         engine \<leftarrow> sortMoves e;
         if isRobot engine then Some engine else init_move_cache engine
       } else Some e)"

lemma sorted_cache_set: "sorted_cache e = Some e1 \<Longrightarrow> set (savedMoves (miData e1)) = set (savedMoves (miData e))"
proof (cases "move_cache_empty e")
  case True
  assume "sorted_cache e = Some e1"
  then obtain e2 where "sortMoves e = Some e2" "savedMoves (miData e1) = savedMoves (miData e2)"
    using True init_move_cache_set by (auto simp: sorted_cache_def split: if_splits)
  then show ?thesis using sortMoves_set by simp
qed (simp add: sorted_cache_def)

lemma chooseMove_sorted:
  "chooseMove e = do {
     engine \<leftarrow> sorted_cache e;
     (chosen, engine) \<leftarrow>
       (if isRobot engine then do {
          let n = nInMoveCache (miData engine);
          xp_assert (n \<le> NUM_SAVED_ENGINE_MOVES \<and> n \<le> nMovesToSave engine);
          m \<leftarrow> mem_get n (savedMoves (miData engine));
          Some (Some m, engine)
        } else next_from_cache engine);
     Some (case chosen of Some m \<Rightarrow> if pmScore m > 0 then Some m else None | None \<Rightarrow> None, engine)
   }"
  by (simp only: chooseMove_def sorted_cache_def)

lemma chooseMove_mem:
  assumes "chooseMove e = Some (Some m, e')"
  shows "m \<in> set (savedMoves (miData e)) \<and> 0 < pmScore m"
proof -
  note c = chooseMove_sorted
  from assms obtain e1 where e1: "sorted_cache e = Some e1" unfolding c by (cases "sorted_cache e") simp_all
  have "m \<in> set (savedMoves (miData e1)) \<and> 0 < pmScore m"
  proof (cases "isRobot e1")
    case True
    then show ?thesis using assms unfolding c e1 by (auto simp: Let_def split: if_splits)
  next
    case False
    then obtain ch e2 where n: "next_from_cache e1 = Some (ch, e2)"
      using assms unfolding c e1 by (cases "next_from_cache e1") auto
    then have "(case ch of Some m \<Rightarrow> if pmScore m > 0 then Some m else None | None \<Rightarrow> None) = Some m"
      using assms False unfolding c e1 by simp
    then have "ch = Some m" "0 < pmScore m" by (auto split: option.splits if_splits)
    then show ?thesis using next_from_cache_mem n by blast
  qed
  then show ?thesis using sorted_cache_set[OF e1] by simp
qed

lemma tray_counts:
  assumes "ofold (\<lambda>r t. do {
            xp_assert (unat t < MAX_UNIQUE_TILES);
            n \<leftarrow> mem_get (unat t) r;
            mem_put (unat t) ((n + 1) mod 256) r
          }) r (ts :: tile list) = Some r'" "length r = 65" "\<forall>i<65. r ! i + length ts < 256"
  shows "length r' = 65 \<and> (\<forall>t. unat t < 65 \<longrightarrow> r' ! unat t = r ! unat t + count_list ts t) \<and> (\<forall>t\<in>set ts. t < 64) \<and>
    (\<forall>n\<in>set r'. n < 256)"
  using assms
proof (induction ts arbitrary: r)
  case Nil
  then show ?case by (auto simp: in_set_conv_nth)
next
  case (Cons t ts)
  then have t: "unat t < 64" and run: "ofold (\<lambda>r t. do {
            xp_assert (unat t < MAX_UNIQUE_TILES);
            n \<leftarrow> mem_get (unat t) r;
            mem_put (unat t) ((n + 1) mod 256) r
          }) (r[unat t := (r ! unat t + 1) mod 256]) ts = Some r'"
    by (auto simp: MAX_UNIQUE_TILES_def split: option.splits if_splits)
  have m: "(r ! unat t + 1) mod 256 = r ! unat t + 1" using Cons.prems(3)[rule_format, of "unat t"] t by simp
  have "\<forall>i<65. r[unat t := (r ! unat t + 1) mod 256] ! i + length ts < 256"
    using Cons.prems(2,3) t unfolding m by (auto simp: nth_list_update)
  from Cons.IH[OF run _ this] show ?case
    using Cons.prems(2) t unfolding m by (auto simp: nth_list_update word_less_nat_alt)
qed

lemma taken_fresh:
  assumes "length (rack e) = 65" "\<forall>n\<in>set (rack e). n < 256" "unat (enBlank e) < 65" "blankCount e = 0"
    "length (blankValues e) = 7" "nTilesMax e < 65536"
  shows "taken (rack e) [] e"
  using assms by (simp add: taken_def)

text \<open>The answer of one attempt that was not interrupted.\<close>

definition tray_move :: "findMoveArgs \<Rightarrow> possibleMove \<Rightarrow> bool" where
  "tray_move a m \<longleftrightarrow> 0 < pmScore m \<and> (\<exists>dict blank. model_getPlayerDict (faModel a) (int (faTurn a)) = Some dict \<and>
     dict_getBlankTile dict = Some blank \<and> length (mtiles (pmMove m)) \<le> MAX_TRAY_TILES \<and>
     mset (played blank (pmMove m)) \<subseteq># mset (faTiles a) \<and>
     on_free (faModel a) (faIncludePending a) (faTurn a) (pmMove m))"

lemma initTray_taken:
  assumes "initTray e ts = Some (True, e')" "length ts < 256" "unat (enBlank e) < 65" "blankCount e = 0"
    "length (blankValues e) = 7" "nTilesMax e < 65536"
  shows "\<exists>r. e' = e\<lparr>rack := r\<rparr> \<and> taken r [] e' \<and> (\<forall>t. unat t < 65 \<longrightarrow> r ! unat t = count_list ts t)"
proof -
  from assms(1) obtain r where r: "ofold (\<lambda>r t. do {
            xp_assert (unat t < MAX_UNIQUE_TILES);
            n \<leftarrow> mem_get (unat t) r;
            mem_put (unat t) ((n + 1) mod 256) r
          }) (replicate (MAX_UNIQUE_TILES + 1) 0) ts = Some r" "e' = e\<lparr>rack := r\<rparr>"
    by (auto simp: initTray_def split: if_splits simp del: mem_put_Some mem_get_Some)
  have z: "\<forall>i<65. replicate (MAX_UNIQUE_TILES + 1) 0 ! i + length ts < 256"
    using assms(2) by (simp add: MAX_UNIQUE_TILES_def nth_replicate)
  from tray_counts[OF r(1) _ z] show ?thesis
    using assms(3-6) r(2) taken_fresh[of e'] by (intro exI[of _ r]) (simp add: MAX_UNIQUE_TILES_def nth_replicate)
qed

lemma playable_tray_move:
  assumes "searchable r e (pmMove m)" "0 < pmScore m" "length r = 65" "\<forall>t. unat t < 65 \<longrightarrow> r ! unat t = count_list (faTiles a) t"
    "enModel e = faModel a" "includePending e = faIncludePending a" "enTurn e = faTurn a"
    "model_getPlayerDict (faModel a) (int (faTurn a)) = Some dict" "dict_getBlankTile dict = Some (enBlank e)"
  shows "tray_move a m"
proof -
  have "count (mset (played (enBlank e) (pmMove m))) t \<le> count (mset (faTiles a)) t" for t
  proof -
    have "count_list (played (enBlank e) (pmMove m)) t \<le> (if unat t < length r then r ! unat t else 0)"
      using assms(1) by (simp add: searchable_def playable_def from_rack_def)
    also have "\<dots> \<le> count_list (faTiles a) t" using assms(3,4) by simp
    finally show ?thesis by (simp add: count_list_mset)
  qed
  then have "mset (played (enBlank e) (pmMove m)) \<subseteq># mset (faTiles a)" by (simp add: mset_subset_eqI)
  then show ?thesis using assms(1,2,5-9) unfolding tray_move_def searchable_def playable_def by auto
qed

lemma searchable_update [simp]: "searchable r (e\<lparr>miData := md\<rparr>) = searchable r e"
  "searchable r (e\<lparr>searchHorizontal := h\<rparr>) = searchable r e" "searchable r (e\<lparr>searchInProgress := h\<rparr>) = searchable r e"
  by (simp_all add: searchable_def)

lemma search_moves_ready:
  assumes "search_moves e = Some e'" "taken r [] e" "engine_idle e"
  shows "ready r (searchable r e) e'"
proof -
  from assms(1) obtain e1 where e1: "set_search_limits e = Some e1"
    and run: "(let e2 = e1\<lparr>miData := (miData e1)\<lparr>savedMoves := replicate NUM_SAVED_ENGINE_MOVES no_move\<rparr>\<rparr>
      in search_directions 2 (if searchInProgress e2 then e2
          else start_direction (e2\<lparr>searchHorizontal := True, searchInProgress := True\<rparr>))) = Some e'"
    unfolding search_moves_def by (cases "set_search_limits e") (simp_all add: Let_def)
  let ?e2 = "e1\<lparr>miData := (miData e1)\<lparr>savedMoves := replicate NUM_SAVED_ENGINE_MOVES no_move\<rparr>\<rparr>"
  have "taken r [] e1 \<and> searchable r e1 = searchable r e \<and> engine_idle e1"
    using e1 assms(2,3) by (auto simp: set_search_limits_def engine_reset_def taken_def searchable_def engine_idle_def Let_def
        MAX_TRAY_TILES_def split: if_splits)
  then have "ready r (searchable r e) ?e2"
    by (auto simp: ready_def taken_def searchable_def all_kept_def engine_idle_def no_move_def)
  then have "ready r (searchable r e) (if searchInProgress ?e2 then ?e2
          else start_direction (?e2\<lparr>searchHorizontal := True, searchInProgress := True\<rparr>))" by simp
  from search_directions_ready[OF _ this] run show ?thesis unfolding Let_def by blast
qed

lemma setup_search_spec:
  assumes "setup_search a e = Some e'"
  shows "\<exists>dict. model_getPlayerDict (faModel a) (int (faTurn a)) = Some dict \<and> dict_getBlankTile dict = Some (enBlank e') \<and>
    enModel e' = faModel a \<and> enTurn e' = faTurn a \<and> includePending e' = faIncludePending a \<and>
    nTilesMax e' = nTilesMax e \<and> miData e' = miData e \<and> returnNOW e' = False \<and> (engine_idle e \<longrightarrow> engine_idle e')"
  using assms by (auto simp: setup_search_def engine_idle_def Let_def)

lemma idle_miData [simp]: "engine_idle (e\<lparr>miData := md\<rparr>) = engine_idle e"
  by (simp add: engine_idle_def)

lemma idle_rack [simp]: "engine_idle (e\<lparr>rack := r\<rparr>) = engine_idle e"
  by (simp add: engine_idle_def)

lemma sorted_cache_idle:
  assumes "sorted_cache e = Some e'"
  shows "engine_idle e' = engine_idle e"
proof (cases "move_cache_empty e")
  case True
  then obtain e1 where e1: "sortMoves e = Some e1" "(if isRobot e1 then Some e1 else init_move_cache e1) = Some e'"
    using assms unfolding sorted_cache_def by (cases "sortMoves e") simp_all
  have "engine_idle e1 = engine_idle e" using e1(1) unfolding sortMoves_def by (auto simp: Let_def)
  moreover have "engine_idle e' = engine_idle e1"
    using e1(2) unfolding init_move_cache_def by (cases "isRobot e1") (auto simp: Let_def)
  ultimately show ?thesis by simp
qed (use assms in \<open>simp add: sorted_cache_def\<close>)

lemma chooseMove_idle:
  assumes "chooseMove e = Some (x, e')"
  shows "engine_idle e' = engine_idle e"
proof -
  note c = chooseMove_sorted
  from assms obtain e1 where e1: "sorted_cache e = Some e1" unfolding c by (cases "sorted_cache e") simp_all
  have "engine_idle e' = engine_idle e1"
  proof (cases "isRobot e1")
    case True
    then have "e' = e1" using assms unfolding c e1 by (simp add: Let_def)
    then show ?thesis by simp
  next
    case False
    then obtain ch e2 where n: "next_from_cache e1 = Some (ch, e2)"
      using assms unfolding c e1 by (cases "next_from_cache e1") auto
    then have "e' = e2" using assms False unfolding c e1 by simp
    moreover have "engine_idle e2 = engine_idle e1"
      using n by (cases "move_cache_empty e1") (auto simp: next_from_cache_def Let_def)
    ultimately show ?thesis by simp
  qed
  then show ?thesis using sorted_cache_idle[OF e1] by simp
qed

text \<open>The blank of the player's dictionary has a place in the array for the rack.\<close>

definition blank_fits :: "findMoveArgs \<Rightarrow> bool" where
  "blank_fits a \<longleftrightarrow> (case model_getPlayerDict (faModel a) (int (faTurn a)) of None \<Rightarrow> True
     | Some dict \<Rightarrow> (case dict_getBlankTile dict of None \<Rightarrow> True | Some blank \<Rightarrow> unat blank < 65))"

lemma normalizeIQ_simps [simp]:
  "taken r ts (normalizeIQ e iq) = taken r ts e" "searchable r (normalizeIQ e iq) = searchable r e"
  "engine_idle (normalizeIQ e iq) = engine_idle e" "miData (normalizeIQ e iq) = miData e"
  by (simp_all add: normalizeIQ_def taken_def searchable_def engine_idle_def)

lemma attempt_moves:
  assumes "attempt a e = Some (res, e')" "engine_idle e" "nInMoveCache (miData e) = 0" "nTilesMax e < 65536"
    "length (faTiles a) < 256" "blank_fits a"
  shows "engine_idle e' \<and> (\<forall>m. res = Some (Some m) \<longrightarrow> tray_move a m)"
proof -
  from assms(1) obtain e1 where e1: "setup_search a e = Some e1"
    by (cases "setup_search a e") (simp_all add: attempt_def)
  from setup_search_spec[OF e1] obtain dict where d: "model_getPlayerDict (faModel a) (int (faTurn a)) = Some dict"
      "dict_getBlankTile dict = Some (enBlank e1)" and s1: "enModel e1 = faModel a" "enTurn e1 = faTurn a"
      "includePending e1 = faIncludePending a" "nTilesMax e1 = nTilesMax e" "miData e1 = miData e" "engine_idle e1"
    using assms(2) by auto
  have b65: "unat (enBlank e1) < 65" using assms(6) d by (simp add: blank_fits_def)
  let ?init = "if dict_super_getTopEdge (enDict e1) \<noteq> None then initTray e1 (faTiles a) else Some (False, e1)"
  from assms(1) e1 obtain have_tiles e2 where i: "?init = Some (have_tiles, e2)"
    unfolding attempt_def by (cases ?init) auto
  show ?thesis
  proof (cases have_tiles)
    case False
    then have "e2 = e1" using i by (auto simp: initTray_def split: if_splits)
    moreover have "res = Some None \<and> e' = e2" using assms(1) e1 i False by (simp del: bind_Some_iff add: attempt_def)
    ultimately show ?thesis using s1(6) by simp
  next
    case True
    then have it: "initTray e1 (faTiles a) = Some (True, e2)" using i by (auto split: if_splits)
    obtain r where r: "e2 = e1\<lparr>rack := r\<rparr>" "taken r [] e2" "\<forall>t. unat t < 65 \<longrightarrow> r ! unat t = count_list (faTiles a) t"
      using initTray_taken[OF it assms(5) b65] s1(4,6) assms(4) by (auto simp: engine_idle_def)
    let ?e3 = "normalizeIQ e2 (faRobotIQ a)"
    have idle: "engine_idle ?e3" using s1(6) r(1) by simp
    have "move_cache_empty ?e3" using assms(3) s1(5) r(1) by (simp add: move_cache_empty_def Let_def)
    then obtain e4 where e4: "search_moves ?e3 = Some e4"
      "(if returnNOW e4 then Some (None, e4) else do { (m, e5) \<leftarrow> chooseMove e4; Some (Some m, e5) }) = Some (res, e')"
      using assms(1) e1 i True by (cases "search_moves ?e3") (simp_all del: bind_Some_iff add: attempt_def Let_def)
    have rd: "ready r (searchable r e2) e4" using search_moves_ready[OF e4(1), of r] r(2) idle by simp
    show ?thesis
    proof (cases "returnNOW e4")
      case True
      then show ?thesis using e4(2) rd by (simp add: ready_def)
    next
      case False
      then obtain m where c: "chooseMove e4 = Some (m, e')" "res = Some m" using e4(2) by auto
      have "engine_idle e'" using chooseMove_idle[OF c(1)] rd by (simp add: ready_def)
      moreover have "tray_move a m'" if "m = Some m'" for m'
      proof -
        from chooseMove_mem[of e4 m' e'] c(1) that have "m' \<in> set (savedMoves (miData e4))" "0 < pmScore m'" by auto
        then have "searchable r e2 (pmMove m')" using rd by (auto simp: ready_def all_kept_def)
        then show ?thesis
          using playable_tray_move[of r e2 m' a dict] \<open>0 < pmScore m'\<close> r d s1 by (simp add: taken_def)
      qed
      ultimately show ?thesis using c(2) by auto
    qed
  qed
qed

lemma tile_limits_idle:
  assumes "tile_limits a e = Some e'" "engine_idle e"
  shows "engine_idle e' \<and> miData e' = miData e \<and> nTilesMax e' < 65536"
proof -
  have u: "case euLimits (enUtil e) x y of Some (mn, mx) \<Rightarrow> mx < 65536 | None \<Rightarrow> True" for x y
    using assms(2) by (simp add: engine_idle_def)
  show ?thesis
    using assms u[of "nTilesMinUser e" "nTilesMaxUser e"]
    by (auto simp: tile_limits_def engine_idle_def Let_def MAX_TRAY_TILES_def split: if_splits option.splits)
qed

lemma engine_reset_idle: "engine_idle e \<Longrightarrow> engine_idle (engine_reset e) \<and> nInMoveCache (miData (engine_reset e)) = 0"
  by (simp add: engine_idle_def engine_reset_def no_miData_def Let_def MAX_TRAY_TILES_def)

text \<open>One call either proposes a move of the tray or tries again.\<close>

lemma findMove_step:
  assumes "engine_findMove n a mv sc e = Some res" "frDone res" "frCanMove res" "engine_idle e"
    "nInMoveCache (miData e) = 0" "length (faTiles a) < 256" "blank_fits a"
  shows "(\<exists>m. tray_move a m \<and> frMove res = pmMove m \<and> frScore res = pmScore m) \<or>
    (\<exists>k mv e. n = Suc k \<and> engine_findMove k a mv sc e = Some res \<and> engine_idle e \<and> nInMoveCache (miData e) = 0)"
proof -
  note run = assms(1)[unfolded engine_findMove.simps[of n]]
  from run assms(3) obtain e1 where e1: "tile_limits a e = Some e1" by (cases "tile_limits a e") auto
  note i1 = tile_limits_idle[OF e1 assms(4)]
  from run e1 obtain r e2 where at: "attempt a e1 = Some (r, e2)" by (cases "attempt a e1") auto
  from attempt_moves[OF at _ _ _ assms(6,7)] i1 assms(5)
  have i2: "engine_idle e2" and mv: "\<And>m. r = Some (Some m) \<Longrightarrow> tray_move a m" by auto
  show ?thesis
  proof (cases r)
    case None
    then show ?thesis using run e1 at assms(2) by auto
  next
    case (Some rm)
    show ?thesis
    proof (cases rm)
      case (Some m)
      then show ?thesis using run e1 at mv \<open>r = Some rm\<close> by auto
    next
      case None
      show ?thesis
      proof (cases n)
        case 0
        then show ?thesis using run e1 at None \<open>r = Some rm\<close> assms(3) by (auto simp: Let_def)
      next
        case (Suc k)
        then have "engine_findMove k a (mv\<lparr>mtiles := []\<rparr>) sc (engine_reset e2) = Some res"
          using run e1 at None \<open>r = Some rm\<close> by (simp add: Let_def)
        then show ?thesis using Suc engine_reset_idle[OF i2] by blast
      qed
    qed
  qed
qed

section \<open>Properties\<close>

text \<open>C1: A move that \<open>engine_findMove\<close> proposes after a search can be made: it uses only tiles of the tray it was
  given, a blank for each tile that is marked as one, on free squares of one line, and scores.\<close>

theorem engine_findMove_playable:
  assumes "engine_findMove n a mv sc e = Some res" "frDone res" "frCanMove res"
    "engine_idle e" "nInMoveCache (miData e) = 0" "length (faTiles a) < 256" "blank_fits a"
  shows "\<exists>dict blank. model_getPlayerDict (faModel a) (int (faTurn a)) = Some dict \<and> dict_getBlankTile dict = Some blank \<and>
    0 < frScore res \<and> length (mtiles (frMove res)) \<le> MAX_TRAY_TILES \<and>
    mset (played blank (frMove res)) \<subseteq># mset (faTiles a) \<and>
    on_free (faModel a) (faIncludePending a) (faTurn a) (frMove res)"
proof -
  have "\<exists>m. tray_move a m \<and> frMove res = pmMove m \<and> frScore res = pmScore m"
    if "engine_findMove n a mv sc e = Some res" "engine_idle e" "nInMoveCache (miData e) = 0" for mv sc e
    using that
  proof (induction n arbitrary: mv sc e)
    case (0 mv sc e)
    then show ?case using assms(2,3) findMove_step[of 0 a mv sc e res] assms(5,6,7) by auto
  next
    case (Suc n mv sc e)
    then show ?case using assms(2,3) findMove_step[of "Suc n" a mv sc e res] assms(5,6,7) by auto
  qed
  then show ?thesis using assms(1,4,5) unfolding tray_move_def by metis
qed

text \<open>On the board of three by three, with the one word AA: the tile A and the blank make it.\<close>

definition aa_dict :: dictionaryCtxt where
  "aa_dict = scored_dict\<lparr>topEdge := Some 3, nodeSize := 3, numEdges := 3, base := Some [0, 0, 0x80, 0, 2, 0x80, 0, 0, 0xC0]\<rparr>"

definition aa_args :: findMoveArgs where
  "aa_args = \<lparr>faModel = small_model\<lparr>mdict := Some aa_dict\<rparr>, faTurn = 0, faIncludePending = False, faSkipCallback = True,
     faTiles = [0, 1], faUsePrev = False, faAllTilesBonus = 0, faSearchLimits = None, faUseTileLimits = False, faRobotIQ = 1\<rparr>"

lemma aa_found: "map_option (\<lambda>r. (frDone r, frCanMove r, frScore r, frMove r))
    (engine_findMove 1 aa_args \<lparr>commonCoord = 0, isHorizontal = True, mtiles = []\<rparr> 0 (demo_engine 1 False)) =
  Some (True, True, 3, \<lparr>commonCoord = 1, isHorizontal = True, mtiles = [\<lparr>varCoord = 1, mtile = 0x40\<rparr>, \<lparr>varCoord = 2, mtile = 0\<rparr>]\<rparr>)"
  by code_simp

theorem engine_findMove_playable_witness:
  "\<exists>res. engine_findMove 1 aa_args \<lparr>commonCoord = 0, isHorizontal = True, mtiles = []\<rparr> 0 (demo_engine 1 False) = Some res \<and>
    frMove res = \<lparr>commonCoord = 1, isHorizontal = True, mtiles = [\<lparr>varCoord = 1, mtile = 0x40\<rparr>, \<lparr>varCoord = 2, mtile = 0\<rparr>]\<rparr> \<and>
    mset (played 1 (frMove res)) \<subseteq># {#0, 1#} \<and> on_free (faModel aa_args) False 0 (frMove res)"
proof -
  from aa_found obtain res where r: "engine_findMove 1 aa_args \<lparr>commonCoord = 0, isHorizontal = True, mtiles = []\<rparr> 0
      (demo_engine 1 False) = Some res" "frDone res" "frCanMove res"
      "frMove res = \<lparr>commonCoord = 1, isHorizontal = True, mtiles = [\<lparr>varCoord = 1, mtile = 0x40\<rparr>, \<lparr>varCoord = 2, mtile = 0\<rparr>]\<rparr>"
    by auto
  have d: "model_getPlayerDict (faModel aa_args) (int (faTurn aa_args)) = Some aa_dict" "dict_getBlankTile aa_dict = Some 1"
    by code_simp+
  have "engine_idle (demo_engine 1 False)"
    by (simp add: engine_idle_def demo_engine_def engine_make_def engine_reset_def Let_def MAX_TRAY_TILES_def)
  moreover have "blank_fits aa_args" using d by (simp add: blank_fits_def)
  moreover have "length (faTiles aa_args) < 256" by (simp add: aa_args_def)
  ultimately obtain blank where "dict_getBlankTile aa_dict = Some blank" "mset (played blank (frMove res)) \<subseteq># mset (faTiles aa_args)"
      "on_free (faModel aa_args) (faIncludePending aa_args) (faTurn aa_args) (frMove res)"
    using engine_findMove_playable[OF r(1-3)] d(1) by auto
  then show ?thesis using r(1,4) d(2) by (auto simp: aa_args_def)
qed

end
