(* ===== verification/Xw_ServerProps.thy ===== *)
theory Xw_ServerProps
  imports Xw_ServerInv Xw_Search
begin

text \<open>
  What the server promises: the invariant of the servers that calls reach, the end of the game, the
  pool after a trade. A small game of a robot and a person on a board of three by three is run as a witness.
\<close>

section \<open>A small game\<close>

definition demo_platform :: platform where
  "demo_platform = \<lparr>pfSeconds = (\<lambda>n. of_nat n), pfRandom = (\<lambda>n. 7 * n), pfCanChat = (\<lambda>_. True), pfText = (\<lambda>_. [46]),
     pfScoreText = no_strings, pfEngine = \<lparr>euProgress = \<lambda>_. True, euHilite = \<lambda>_. True, euLimits = \<lambda>_ _. None, euRandom = 0\<rparr>,
     pfShortName = (\<lambda>_. Some [65]), pfSkipChar = (\<lambda>_. 1)\<rparr>"

definition demo_model :: modelCtxt where
  "demo_model = the (model_make (Some aa_dict) None (gi_initPlayerInfo None) (\<lambda>_ _ _. BONUS_NONE) 3)"

text \<open>The server as it is made, after the tiles were given out.\<close>

definition demo_made :: serverCtxt where "demo_made = the (server_make demo_model demo_platform)"
definition demo_begun :: serverCtxt where "demo_begun = snd (the (server_do demo_made))"
definition demo_view :: "serverCtxt \<Rightarrow> XW_State \<times> int \<times> tile list list \<times> nat option" where
  "demo_view s = (gameState (nv s), currentTurn (nv s), map trayTiles (players (svModel s)), map_option pool_getNTilesLeft (svPool s))"

lemma demo_runs:
  "server_make demo_model demo_platform \<noteq> None" "server_do demo_made \<noteq> None"
  by code_simp+
lemma demo_view_begun:
  "demo_view demo_begun = (XWSTATE_INTURN, 0, [[0, 0, 0], [0, 0, 1], [], []], Some 1)"
  by code_simp

lemma demo_reachable: "server_reachable demo_made" "server_reachable demo_begun"
proof -
  have m: "server_make demo_model demo_platform = Some demo_made"
    using demo_runs(1) unfolding demo_made_def by auto
  then show r: "server_reachable demo_made" by (rule made)
  obtain ok where "server_do demo_made = Some (ok, demo_begun)"
    using demo_runs(2) unfolding demo_begun_def by auto
  then show "server_reachable demo_begun" using called[OF r] call_do by blast
qed

text \<open>C4: Every server that is made and then driven by any sequence of calls (steps, messages of any
  content, moves, trades, undos, timers, resets) and of changes others make in the model is, between the
  calls, in one of the ten states the code uses; nobody is on turn when the game is over or a move waits
  for its confirmation; after a score is shown the game goes on with a turn or its end; no call is
  left half done; and the arrays of players and devices have their sizes.\<close>

theorem server_reachable_stages:
  assumes "server_reachable s"
  shows "gameState (nv s) \<in> used_states \<and> gameState (nv s) \<noteq> XWSTATE_WAITING_ALL_REG \<and>
    -1 \<le> currentTurn (nv s) \<and> \<not> serverDoing s \<and>
    (gameState (nv s) \<in> {XWSTATE_GAMEOVER, XWSTATE_MOVE_CONFIRM_WAIT} \<longrightarrow> currentTurn (nv s) = -1) \<and>
    (gameState (nv s) = XWSTATE_NEED_SHOWSCORE \<longrightarrow> stateAfterShow (nv s) \<in> {XWSTATE_INTURN, XWSTATE_NEEDSEND_ENDGAME}) \<and>
    length (addresses (nv s)) = MAX_NUM_PLAYERS \<and> length (dupTurnsMade (nv s)) = MAX_NUM_PLAYERS \<and>
    length (dupTurnsForced (nv s)) = MAX_NUM_PLAYERS \<and> length (svPlayers s) = MAX_NUM_PLAYERS"
  using reachable_stageD[OF assms] by (auto simp: sizes_ok used_states_def)

theorem server_reachable_stages_witness:
  "gameState (nv demo_begun) = XWSTATE_INTURN \<and> -1 \<le> currentTurn (nv demo_begun) \<and> \<not> serverDoing demo_begun \<and>
   length (addresses (nv demo_begun)) = MAX_NUM_PLAYERS"
  using server_reachable_stages[OF demo_reachable(2)] demo_view_begun by (auto simp: demo_view_def)

section \<open>The end of the game\<close>

text \<open>What writing to a stream does not touch: where it goes and that it is open.\<close>

definition target :: "mem_stream \<Rightarrow> u16 \<times> nat option \<times> bool" where
  "target s = (channelNo s, onClose s, isOpen s)"

lemma target_putBytes: "mem_stream_putBytes s bs = Some s' \<Longrightarrow> target s' = target s"
  by (auto simp: mem_stream_putBytes_def target_def Let_def split: if_splits)

lemma target_putU8: "mem_stream_putU8 s b = Some s' \<Longrightarrow> target s' = target s"
  by (simp add: mem_stream_putU8_def target_putBytes)

lemma target_putOneBit:
  assumes "putOneBit s b = Some s'"
  shows "target s' = target s"
proof -
  from assms obtain s1 m where
      "(if nWriteBits s = 0 then
          (if curWritePos s = nBytesWritten s then mem_stream_putU8 s 0
           else do { m \<leftarrow> mem_put (curWritePos s) 0 (sbuf s); Some (s\<lparr>sbuf := m, curWritePos := curWritePos s + 1\<rparr>) })
        else Some s) = Some s1"
      and "s' = s1\<lparr>sbuf := m, nWriteBits := (nWriteBits s1 + 1) mod 8\<rparr>"
    unfolding putOneBit_def Let_def by (auto simp del: if_split)
  then show ?thesis by (auto simp: target_def split: if_splits dest!: target_putU8)
qed

lemma target_putBits: "mem_stream_putBits s n d = Some s' \<Longrightarrow> target s' = target s"
proof -
  have "putBits_loop n d s = Some (d', s') \<Longrightarrow> target s' = target s" for n d d' s s'
    by (induction n d s rule: putBits_loop.induct) (auto dest: target_putOneBit)
  then show "mem_stream_putBits s n d = Some s' \<Longrightarrow> target s' = target s"
    by (auto simp: mem_stream_putBits_def)
qed

lemma writeProto_writes:
  assumes "wf_stream st" "sversion st = 0" "nBytesWritten st \<le> n" "n + 3 \<le> STREAM_ROOM" "0 < nvStreamVersion (nv s)"
  shows "\<exists>st'. writeProto s st XWPROTO_END_GAME = Some st' \<and> wf_stream st' \<and> nBytesWritten st' \<le> n + 3 \<and> target st' = target st"
proof -
  let ?v = "nvStreamVersion (nv s)"
  have put: "\<exists>t'. mem_stream_putBits t k d = Some t' \<and> wf_stream t' \<and> nBytesWritten t' \<le> b + 1 \<and> target t' = target t \<and> sversion t' = sversion t"
    if t: "wf_stream t" "nBytesWritten t \<le> b" "b + 1 \<le> STREAM_ROOM" and k: "0 < k" "k \<le> 8" "unat d < 2 ^ k" for t k d b
  proof -
    have c: "(k + 7) div 8 = 1" using k by simp
    have "0 < k \<and> k \<le> 32 \<and> unat d < 2 ^ k" using k by simp
    then obtain t' where "mem_stream_putBits t k d = Some t'" "nBytesWritten t' \<le> nBytesWritten t + 1"
      using bits.put_total[of t k d] t c by auto
    moreover from this(1) have "extends t t'" by (rule bits.put_extends[OF t(1)])
    ultimately show ?thesis using t(2) target_putBits[of t k d t'] by (auto simp: extends_def)
  qed
  have nums: "unat (of_nat (proto_number p) :: u32) < 2 ^ XWPROTO_NBITS" if "p \<in> {XWPROTO_NEW_PROTO, XWPROTO_END_GAME}" for p
    using that by (auto simp: XWPROTO_NBITS_def)
  have ver: "unat (ucast ?v :: u32) < 2 ^ 8"
  proof -
    have "unat ?v < 2 ^ 8" using unsigned_less[of ?v] by simp
    then show ?thesis by (simp add: unsigned_ucast_eq) (meson le_less_trans take_bit_nat_less_eq_self)
  qed
  have setv: "mem_stream_setVersion t v = Some (t\<lparr>sversion := v\<rparr>) \<and> target (t\<lparr>sversion := v\<rparr>) = target t \<and>
      wf_stream (t\<lparr>sversion := v\<rparr>) = wf_stream t" if "sversion t = 0" for t v
    using that by (simp add: mem_stream_setVersion_def target_def wf_stream_def wf_reader_def)
  have k: "0 < XWPROTO_NBITS" "XWPROTO_NBITS \<le> 8" by (simp_all add: XWPROTO_NBITS_def)
  have last: "\<exists>st'. (do { t \<leftarrow> mem_stream_setVersion t (unat ?v); putNat XWPROTO_NBITS (proto_number XWPROTO_END_GAME) t }) = Some st' \<and>
      wf_stream st' \<and> nBytesWritten st' \<le> b + 1 \<and> target st' = target t"
    if t: "wf_stream t" "nBytesWritten t \<le> b" "b + 1 \<le> STREAM_ROOM" "sversion t = 0" for t b
    using put[of "t\<lparr>sversion := unat ?v\<rparr>" b XWPROTO_NBITS "of_nat (proto_number XWPROTO_END_GAME)"] setv[OF t(4)] t k
    unfolding putNat_def by (auto simp: XWPROTO_NBITS_def)
  show ?thesis
  proof (cases "STREAM_SAVE_PREVWORDS < unat ?v")
    case True
    obtain t1 where t1: "mem_stream_putBits st XWPROTO_NBITS (of_nat (proto_number XWPROTO_NEW_PROTO)) = Some t1"
        "wf_stream t1" "nBytesWritten t1 \<le> n + 1" "target t1 = target st" "sversion t1 = 0"
      using put[OF assms(1,3) _ k nums, of XWPROTO_NEW_PROTO] assms(2,4) by auto
    obtain t2 where t2: "mem_stream_putBits t1 8 (ucast ?v) = Some t2"
        "wf_stream t2" "nBytesWritten t2 \<le> n + 2" "target t2 = target st" "sversion t2 = 0"
      using put[OF t1(2,3) _ _ _ ver] t1 assms(4) by auto
    from last[OF t2(2,3) _ t2(5)] assms(4,5) show ?thesis
      unfolding writeProto_def Let_def using True t1(1) t2(1,4) by (auto simp: putNat_def word_neq_0_conv)
  next
    case False
    from last[OF assms(1,3) _ assms(2)] assms(4,5) False show ?thesis
      unfolding writeProto_def Let_def by (fastforce simp: word_neq_0_conv)
  qed
qed

text \<open>The message that ends the game reaches each device the connection layer can address.\<close>

lemma fresh_stream: "wf_stream (mem_stream_open (makeStreamFromAddr c))" "nBytesWritten (mem_stream_open (makeStreamFromAddr c)) \<le> 0"
  "sversion (mem_stream_open (makeStreamFromAddr c)) = 0" "target (mem_stream_open (makeStreamFromAddr c)) = (c, Some 0, True)"
  by (simp_all add: mem_stream_open_def makeStreamFromAddr_def mem_stream_make_def wf_stream_def wf_reader_def
      START_OF_STREAM_def target_def)

text \<open>The bytes of a message as the connection layer hands them to the server of another device.\<close>

definition delivered :: "u16 \<Rightarrow> mem_stream \<Rightarrow> mem_stream" where
  "delivered chan st = (let bs = take (nBytesWritten st) (sbuf st) in
     (mem_stream_make chan None)\<lparr>sbuf := bs, nBytesWritten := length bs, nBytesAllocated := length bs, curWritePos := length bs\<rparr>)"

text \<open>A stream that holds all that was written so far, and a reader of it.\<close>

definition carries :: "mem_stream \<Rightarrow> mem_stream \<Rightarrow> bool" where
  "carries t u \<longleftrightarrow> wf_stream t \<and> wpos t \<le> wpos u \<and> bits_eq 0 (wpos t) (sbuf t) (sbuf u)"

definition reader_of :: "mem_stream \<Rightarrow> mem_stream \<Rightarrow> bool" where
  "reader_of u r \<longleftrightarrow> wf_reader r \<and> bits_eq 0 (wpos u) (sbuf u) (sbuf r) \<and> wpos u \<le> 8 * nBytesWritten r"

lemma carries_step: "extends t t' \<Longrightarrow> wf_stream t \<Longrightarrow> carries t' u \<Longrightarrow> carries t u"
  by (auto simp: carries_def extends_def intro: bits_eq_trans bits_eq_mono)

lemma carries_version [simp]: "carries (t\<lparr>sversion := v\<rparr>) u = carries t u" "carries (t\<lparr>isOpen := b\<rparr>) u = carries t u"
  by (simp_all add: carries_def wf_stream_def wf_reader_def wpos_def)

lemma carries_refl: "wf_stream t \<Longrightarrow> carries t t"
  by (simp add: carries_def)

lemma reader_of_pos [simp]: "reader_of u r \<Longrightarrow> reader_of u (set_rpos p r)"
  by (auto simp: reader_of_def set_rpos_def wf_reader_def)

lemma reader_of_version [simp]: "reader_of u r \<Longrightarrow> reader_of u (r\<lparr>sversion := v\<rparr>)" "rpos (r\<lparr>sversion := v\<rparr>) = rpos r"
  by (auto simp: reader_of_def wf_reader_def rpos_def)

lemma delivered_state: "sversion (delivered chan u) = 0" "isOpen (delivered chan u)" "delivered chan (u\<lparr>isOpen := b\<rparr>) = delivered chan u"
  by (simp_all add: delivered_def Let_def mem_stream_make_def)

lemma set_rpos_open: "isOpen (set_rpos p r) = isOpen r"
  by (simp add: set_rpos_def)

lemma writeProto_wf: "writeProto s st p = Some t \<Longrightarrow> wf_stream st \<Longrightarrow> wf_stream t"
proof -
  have v: "wf_stream (x\<lparr>sversion := k\<rparr>) = wf_stream x" for x k by (simp add: wf_stream_def wf_reader_def)
  show "writeProto s st p = Some t \<Longrightarrow> wf_stream st \<Longrightarrow> wf_stream t"
    by (auto simp: writeProto_def Let_def putNat_def mem_stream_setVersion_def bind_unit_Some v split: if_split_asm dest!: bits.put_wf)
qed

lemma reader_of_delivered: "wf_stream u \<Longrightarrow> reader_of u (delivered chan u) \<and> rpos (delivered chan u) = 0"
proof -
  assume w: "wf_stream u"
  then have l: "length (take (nBytesWritten u) (sbuf u)) = nBytesWritten u" "nBytesWritten u < 65536"
    by (auto simp: wf_stream_def wf_reader_def)
  have "bits_eq 0 (wpos u) (sbuf u) (take (nBytesWritten u) (sbuf u))"
    unfolding bits_eq_def
  proof (intro allI impI)
    fix i assume i: "i < wpos u"
    then have "i div 8 < nBytesWritten u" using wpos_le[OF w] by linarith
    then show "bit_at (sbuf u) i = bit_at (take (nBytesWritten u) (sbuf u)) i" by (simp add: bit_at_def)
  qed
  then show ?thesis using l wpos_le[OF w]
    by (simp add: reader_of_def delivered_def Let_def wf_reader_def rpos_def bitpos_def mem_stream_make_def)
qed

lemma read_bits:
  assumes "mem_stream_putBits t k d = Some t'" "wf_stream t" "0 < k" "k \<le> 32" "unat d < 2 ^ k" "carries t' u" "reader_of u r" "rpos r = wpos t"
  shows "mem_stream_getBits r k = Some (d, set_rpos (wpos t') r)"
proof (rule bits.get_put[OF assms(2) _ assms(1)])
  have "bits_eq 0 (wpos t') (sbuf t') (sbuf r)"
    using assms(6,7) by (auto simp: carries_def reader_of_def intro: bits_eq_trans bits_eq_mono)
  then show "bits_eq (wpos t) (wpos t') (sbuf t') (sbuf r)" by (rule bits_eq_mono) auto
qed (use assms in \<open>auto simp: carries_def reader_of_def\<close>)

lemma read_u8:
  assumes "mem_stream_putU8 t d = Some t'" "wf_stream t" "carries t' u" "reader_of u r" "rpos r = wpos t"
  shows "mem_stream_getU8 r = Some (d, set_rpos (wpos t') r)"
proof (rule u8.get_put[OF assms(2) _ assms(1)])
  have "bits_eq 0 (wpos t') (sbuf t') (sbuf r)"
    using assms(3,4) by (auto simp: carries_def reader_of_def intro: bits_eq_trans bits_eq_mono)
  then show "bits_eq (wpos t) (wpos t') (sbuf t') (sbuf r)" by (rule bits_eq_mono) auto
qed (use assms in \<open>auto simp: carries_def reader_of_def\<close>)

text \<open>The header of a message is read back: its code, and the version of the game.\<close>

lemma readProto_of_writeProto:
  assumes w: "writeProto s st p = Some t" and st: "wf_stream st" "sversion st = 0" "wpos st = 0" and c: "carries t u"
    and r: "reader_of u r" "rpos r = 0" "sversion r = 0" and v: "0 < nvStreamVersion (nv s)" and p: "proto_of (proto_number p) = p" "proto_number p < 16" "p \<noteq> XWPROTO_NEW_PROTO"
  shows "\<exists>cl' r'. readProto cl r = Some (p, cl', r') \<and> svGi cl' = svGi cl \<and> r' = (set_rpos (wpos t) r)\<lparr>sversion := sversion r'\<rparr> \<and>
    (STREAM_VERS_DICTNAME \<le> unat (nvStreamVersion (nv cl')) \<longleftrightarrow> STREAM_VERS_DICTNAME \<le> unat (nvStreamVersion (nv s)))"
proof -
  let ?v = "nvStreamVersion (nv s)" and ?n = "of_nat (proto_number p) :: u32"
  have num: "unat ?n = proto_number p" "unat ?n < 2 ^ XWPROTO_NBITS" using p(2) by (simp_all add: XWPROTO_NBITS_def take_bit_nat_eq_self unsigned_of_nat)
  have new: "proto_of 12 = XWPROTO_NEW_PROTO" by code_simp
  have setv: "sversion r0 = 0 \<Longrightarrow> mem_stream_setVersion r0 k = Some (r0\<lparr>sversion := k\<rparr>)" for r0 k by (simp add: mem_stream_setVersion_def)
  have small: "unat ?v < 256" using unsigned_less[of ?v, where ?'a = nat] by simp
  then have ver: "unat (ucast ?v :: u32) = unat ?v" "unat ?v < 2 ^ 8"
    by (simp_all add: unsigned_ucast_eq take_bit_nat_eq_self)
  have k: "0 < XWPROTO_NBITS" "XWPROTO_NBITS \<le> 32" by (simp_all add: XWPROTO_NBITS_def)
  show ?thesis
  proof (cases "STREAM_SAVE_PREVWORDS < unat ?v")
    case True
    obtain t1 t2 where t: "mem_stream_putBits st XWPROTO_NBITS (of_nat (proto_number XWPROTO_NEW_PROTO)) = Some t1"
        "mem_stream_putBits t1 8 (ucast ?v) = Some t2" "mem_stream_putBits (t2\<lparr>sversion := unat ?v\<rparr>) XWPROTO_NBITS ?n = Some t"
      using w True v by (auto simp: writeProto_def Let_def putNat_def mem_stream_setVersion_def)
    have e1: "extends st t1" by (rule bits.put_extends[OF st(1) t(1)])
    have e2: "extends t1 t2" by (rule bits.put_extends[OF extends_wf[OF e1] t(2)])
    have w2: "wf_stream (t2\<lparr>sversion := unat ?v\<rparr>)" using extends_wf[OF e2] by (simp add: wf_stream_def wf_reader_def)
    have e3: "extends (t2\<lparr>sversion := unat ?v\<rparr>) t" by (rule bits.put_extends[OF w2 t(3)])
    have c2: "carries t2 u" using carries_step[OF e3 w2 c] by simp
    have c1: "carries t1 u" by (rule carries_step[OF e2 extends_wf[OF e1] c2])
    have g1: "mem_stream_getBits r XWPROTO_NBITS = Some (of_nat (proto_number XWPROTO_NEW_PROTO), set_rpos (wpos t1) r)"
      by (rule read_bits[OF t(1) st(1) k _ c1 r(1)]) (simp_all add: XWPROTO_NBITS_def r(2) st(3))
    have g2: "mem_stream_getBits (set_rpos (wpos t1) r) 8 = Some (ucast ?v, set_rpos (wpos t2) r)"
      using read_bits[OF t(2) extends_wf[OF e1] _ _ _ c2, of "set_rpos (wpos t1) r"] r(1) ver by simp
    have g3: "mem_stream_getBits (set_rpos (wpos t2) r) XWPROTO_NBITS = Some (?n, set_rpos (wpos t) r)"
      using read_bits[OF t(3) w2 k num(2) c, of "set_rpos (wpos t2) r"] r(1) by (simp add: wpos_def)
    have "readProto cl r = Some (p, upd_nv (\<lambda>n. n\<lparr>nvStreamVersion := of_nat (unat ?v)\<rparr>) cl, (set_rpos (wpos t) r)\<lparr>sversion := unat ?v\<rparr>)"
      using r(3) p(1) num(1) ver(1) g1 g2 g3 by (simp add: readProto_def getNat_def setv set_rpos_def new)
    then show ?thesis by (auto simp: upd_nv_def)
  next
    case False
    then have t: "mem_stream_putBits (st\<lparr>sversion := unat ?v\<rparr>) XWPROTO_NBITS ?n = Some t"
      using w v by (auto simp: writeProto_def Let_def putNat_def mem_stream_setVersion_def)
    have w1: "wf_stream (st\<lparr>sversion := unat ?v\<rparr>)" using st(1) by (simp add: wf_stream_def wf_reader_def)
    have e: "extends (st\<lparr>sversion := unat ?v\<rparr>) t" by (rule bits.put_extends[OF w1 t])
    have g: "mem_stream_getBits r XWPROTO_NBITS = Some (?n, set_rpos (wpos t) r)"
      using read_bits[OF t w1 k num(2) c r(1)] r(2) st(3) by (simp add: wpos_def)
    have "readProto cl r = Some (p, upd_nv (\<lambda>n. n\<lparr>nvStreamVersion := of_nat STREAM_SAVE_PREVWORDS\<rparr>) cl, (set_rpos (wpos t) r)\<lparr>sversion := STREAM_SAVE_PREVWORDS\<rparr>)"
      using r(3) p num(1) g by (simp add: readProto_def getNat_def setv set_rpos_def)
    then show ?thesis using False by (auto simp: upd_nv_def STREAM_SAVE_PREVWORDS_def STREAM_VERS_DICTNAME_def)
  qed
qed

text \<open>The message that ends the game reaches each device the connection layer can address, and the server
  of any device that receives it ends its game, too.\<close>

definition ends_game :: "mem_stream \<Rightarrow> bool" where
  "ends_game st \<longleftrightarrow> (\<forall>cl chan. \<exists>cl'. server_receiveMessage cl (delivered chan st) = Some (True, cl') \<and>
     gameState (nv cl') = XWSTATE_GAMEOVER \<and> currentTurn (nv cl') = -1 \<and> quitter (nv cl') = -1)"

lemma setTurn_gameover:
  "\<exists>s' turns. setTurn (-1) (SETSTATE XWSTATE_GAMEOVER s) = Some s' \<and> gameState (nv s') = XWSTATE_GAMEOVER \<and>
     currentTurn (nv s') = -1 \<and> svModel s' = svModel s \<and> svPool s' = svPool s \<and>
     svOut s' = svOut s @ turns \<and> set turns \<subseteq> {EvTurnListener} \<and> serverDoing s' = serverDoing s"
proof (cases "svDuplicate s \<or> currentTurn (nv s) \<noteq> -1 \<or> 1 = giNPlayers (svGi s)")
  case True
  then show ?thesis
    by (intro exI[of _ "the (setTurn (-1) (SETSTATE XWSTATE_GAMEOVER s))"] exI[of _ "[EvTurnListener]"])
      (simp add: setTurn_def Let_def SETSTATE_def upd_nv_def svDuplicate_def getCurSeconds_def callTurnChangeListener_def
        emit_def DUP_PLAYER_def PICK_CUR_def xp_assert_def)
next
  case False
  then show ?thesis
    by (intro exI[of _ "SETSTATE XWSTATE_GAMEOVER s"] exI[of _ "[]"])
      (simp add: setTurn_def Let_def SETSTATE_def upd_nv_def svDuplicate_def xp_assert_def)
qed

lemma received_end:
  assumes w: "writeProto s st XWPROTO_END_GAME = Some t" and st: "wf_stream st" "sversion st = 0" "wpos st = 0"
    and q: "putQuitter (-1) s t = Some u" and v: "0 < nvStreamVersion (nv s)"
  shows "ends_game (u\<lparr>isOpen := b\<rparr>)"
  unfolding ends_game_def
proof (intro allI)
  fix cl chan
  let ?d = "STREAM_VERS_DICTNAME \<le> unat (nvStreamVersion (nv s))"
  have p: "proto_of (proto_number XWPROTO_END_GAME) = XWPROTO_END_GAME" by code_simp
  have q16: "proto_number XWPROTO_END_GAME < 16" "XWPROTO_END_GAME \<noteq> XWPROTO_NEW_PROTO" by code_simp simp
  have t: "wf_stream t" by (rule writeProto_wf[OF w st(1)])
  have "extends t u" using q u8.put_extends[OF t] t by (auto simp: putQuitter_def split: if_split_asm)
  then have u: "wf_stream u" "carries t u" using carries_step[OF _ t carries_refl] by (auto dest: extends_wf)
  note r = reader_of_delivered[OF u(1), of chan]
  obtain cl1 r1 where r1: "readProto cl (delivered chan u) = Some (XWPROTO_END_GAME, cl1, r1)" "svGi cl1 = svGi cl"
      "r1 = (set_rpos (wpos t) (delivered chan u))\<lparr>sversion := sversion r1\<rparr>"
      "STREAM_VERS_DICTNAME \<le> unat (nvStreamVersion (nv cl1)) \<longleftrightarrow> ?d"
    using readProto_of_writeProto[OF w st u(2) conjunct1[OF r] conjunct2[OF r] delivered_state(1) v p, of cl] q16 by blast
  have r1': "reader_of u r1" "rpos r1 = wpos t" "isOpen r1"
    by (subst r1(3), simp add: r delivered_state(2) set_rpos_open)+
  obtain r2 where r2: "getQuitter cl1 r1 = Some (-1, r2)" "isOpen r2"
  proof (cases ?d)
    case True
    then have "mem_stream_putU8 t (-1) = Some u" using q by (simp add: putQuitter_def)
    from read_u8[OF this t carries_refl[OF u(1)] r1'(1,2)] show thesis
      using that True r1(4) r1'(3) by (simp add: getQuitter_def set_rpos_def)
  next
    case False
    then show thesis using that r1(4) r1'(3) by (simp add: getQuitter_def)
  qed
  obtain cl2 turns where cl2: "setTurn (-1) (SETSTATE XWSTATE_GAMEOVER cl1) = Some cl2" "gameState (nv cl2) = XWSTATE_GAMEOVER"
      "currentTurn (nv cl2) = -1" "svModel cl2 = svModel cl1"
    using setTurn_gameover[of cl1] by blast
  let ?cl = "emit (EvGameOver (-1)) (upd_nv (\<lambda>n. n\<lparr>quitter := -1\<rparr>) cl2)"
  have "doEndGame (-1) cl1 = Some ?cl" using cl2(1) by (simp add: doEndGame_def)
  moreover have "amServer ?cl = amServer cl" using r1(2) cl2(4) by (simp add: amServer_def emit_def upd_nv_def)
  ultimately have "server_receiveMessage cl (delivered chan u) = Some (True, ?cl)"
    using r1(1) r2 by (simp add: server_receiveMessage_def handle_message_def mem_stream_close_def)
  then show "\<exists>cl'. server_receiveMessage cl (delivered chan (u\<lparr>isOpen := b\<rparr>)) = Some (True, cl') \<and>
     gameState (nv cl') = XWSTATE_GAMEOVER \<and> currentTurn (nv cl') = -1 \<and> quitter (nv cl') = -1"
    using cl2 by (intro exI[of _ ?cl]) (simp add: delivered_state(3) emit_def upd_nv_def)
qed

lemma sendEndGame:
  assumes "d < length (addresses (nv s))" "0 < nvStreamVersion (nv s)"
  shows "\<exists>st. sendMessage d XWPROTO_END_GAME (putQuitter (-1)) s = Some (emit (EvSend st) s) \<and>
    mem_stream_getAddress st = raChannelNo (addresses (nv s) ! d) \<and> ends_game st"
proof -
  let ?c = "raChannelNo (addresses (nv s) ! d)"
  let ?st = "mem_stream_open (makeStreamFromAddr ?c)"
  obtain t where t: "writeProto s ?st XWPROTO_END_GAME = Some t"
      "wf_stream t" "nBytesWritten t \<le> 3" "target t = (?c, Some 0, True)"
    using writeProto_writes[OF fresh_stream(1,3,2)[of ?c] _ assms(2)] fresh_stream(4)[of ?c] by (auto simp: STREAM_ROOM_def)
  have "\<exists>u. putQuitter (-1) s t = Some u \<and> target u = target t"
    using u8.put_total[OF t(2), of "of_int (-1)"] t(3) target_putU8[of t "of_int (-1)"]
    by (auto simp: putQuitter_def STREAM_ROOM_def)
  then obtain u where u: "putQuitter (-1) s t = Some u" "target u = (?c, Some 0, True)" using t(4) by auto
  have "messageStreamWithHeader s d XWPROTO_END_GAME = Some t"
    using assms(1) t(1) by (simp add: messageStreamWithHeader_def mem_get_def)
  moreover have "sendStream u s = Some (emit (EvSend (u\<lparr>isOpen := False\<rparr>)) s)" "channelNo u = ?c"
    using u(2) by (simp_all add: sendStream_def mem_stream_close_def target_def)
  moreover have "wpos ?st = 0" by (simp add: mem_stream_open_def makeStreamFromAddr_def mem_stream_make_def wpos_def bitpos_def START_OF_STREAM_def)
  then have "ends_game (u\<lparr>isOpen := False\<rparr>)"
    by (rule received_end[OF t(1) fresh_stream(1) fresh_stream(3) _ u(1) assms(2)])
  ultimately show ?thesis using u(1) by (intro exI[of _ "u\<lparr>isOpen := False\<rparr>"]) (simp add: sendMessage_def mem_stream_getAddress_def)
qed

lemma ofold_sendEndGame:
  assumes "\<And>d. d \<in> set ds \<Longrightarrow> d < length (addresses (nv s))" "0 < nvStreamVersion (nv s)"
  shows "\<exists>sts. ofold (\<lambda>s d. sendMessage d XWPROTO_END_GAME (putQuitter (-1)) s) s ds =
      Some (s\<lparr>svOut := svOut s @ map EvSend sts\<rparr>) \<and>
    map mem_stream_getAddress sts = map (\<lambda>d. raChannelNo (addresses (nv s) ! d)) ds \<and> list_all ends_game sts"
  using assms
proof (induction ds arbitrary: s)
  case Nil
  show ?case by (rule exI[of _ "[]"]) simp
next
  case (Cons d ds)
  obtain st where st: "sendMessage d XWPROTO_END_GAME (putQuitter (-1)) s = Some (emit (EvSend st) s)"
      "mem_stream_getAddress st = raChannelNo (addresses (nv s) ! d)" "ends_game st"
    using sendEndGame[of d s] Cons.prems by auto
  obtain sts where "ofold (\<lambda>s d. sendMessage d XWPROTO_END_GAME (putQuitter (-1)) s) (emit (EvSend st) s) ds =
        Some (emit (EvSend st) s\<lparr>svOut := svOut (emit (EvSend st) s) @ map EvSend sts\<rparr>)"
      "map mem_stream_getAddress sts = map (\<lambda>d. raChannelNo (addresses (nv s) ! d)) ds" "list_all ends_game sts"
    using Cons.IH[of "emit (EvSend st) s"] Cons.prems by (auto simp: emit_def)
  then show ?case using st by (intro exI[of _ "st # sts"]) (simp add: emit_def)
qed

text \<open>C7: A host whose game is to end does end it at the next step: the step succeeds; one message goes to
  each other device, in their order, and every server that receives the bytes of that message accepts it and
  is at the end of its game with nobody on turn, too; the listener is told last that nobody resigned;
  nobody is on turn, the board and the pool stay as they are, and a further step does nothing.\<close>

theorem endgame_ends:
  assumes "gameState (nv s) = XWSTATE_NEEDSEND_ENDGAME" "\<not> amClient s" "\<not> serverDoing s"
    and "nDevices (nv s) \<le> length (addresses (nv s))" "0 < nvStreamVersion (nv s)"
  shows "\<exists>s' sts turns. server_do s = Some (True, s') \<and> gameState (nv s') = XWSTATE_GAMEOVER \<and>
     currentTurn (nv s') = -1 \<and> quitter (nv s') = -1 \<and> svModel s' = svModel s \<and> svPool s' = svPool s \<and>
     svOut s' = svOut s @ map EvSend sts @ turns @ [EvGameOver (-1)] \<and> set turns \<subseteq> {EvTurnListener} \<and>
     map mem_stream_getAddress sts = map (\<lambda>d. raChannelNo (addresses (nv s) ! d)) [1..<nDevices (nv s)] \<and>
     list_all ends_game sts \<and> server_do s' = Some (False, s')"
proof -
  let ?s = "s\<lparr>serverDoing := True\<rparr>"
  have "remote_devices s 0 = [1..<nDevices (nv s)]" by (auto simp: remote_devices_def filter_id_conv)
  then obtain sts where sts: "ofold (\<lambda>s d. sendMessage d XWPROTO_END_GAME (putQuitter (-1)) s) ?s (remote_devices ?s 0) =
        Some (?s\<lparr>svOut := svOut s @ map EvSend sts\<rparr>)"
      "map mem_stream_getAddress sts = map (\<lambda>d. raChannelNo (addresses (nv s) ! d)) [1..<nDevices (nv s)]" "list_all ends_game sts"
    using ofold_sendEndGame[of "[1..<nDevices (nv s)]" ?s] assms(4,5)
    by (auto simp: remote_devices_def)
  let ?t = "?s\<lparr>svOut := svOut s @ map EvSend sts\<rparr>"
  obtain u turns where u: "setTurn (-1) (SETSTATE XWSTATE_GAMEOVER ?t) = Some u" "gameState (nv u) = XWSTATE_GAMEOVER"
      "currentTurn (nv u) = -1" "svModel u = svModel s" "svPool u = svPool s"
      "svOut u = svOut s @ map EvSend sts @ turns" "set turns \<subseteq> {EvTurnListener}"
    using setTurn_gameover[of ?t] by auto
  let ?s' = "(emit (EvGameOver (-1)) (upd_nv (\<lambda>n. n\<lparr>quitter := -1\<rparr>) u))\<lparr>serverDoing := False\<rparr>"
  have "do_state ?s = Some (True, False, emit (EvGameOver (-1)) (upd_nv (\<lambda>n. n\<lparr>quitter := -1\<rparr>) u))"
    using assms(1,2) sts(1) u(1) by (simp add: do_state_def endGameInternal_def doEndGame_def amClient_def)
  then have "server_do s = Some (True, ?s')" using assms(3) by (simp add: server_do_def)
  moreover have "server_do ?s' = Some (False, ?s')"
    using u(2) by (simp add: server_do_def do_state_def emit_def upd_nv_def)
  ultimately show ?thesis
    using u sts(2,3) by (intro exI[of _ ?s'] exI[of _ sts] exI[of _ turns]) (simp add: emit_def upd_nv_def)
qed

lemma demo_devices: "(serverRole (svGi demo_made), nDevices (nv demo_made), nvStreamVersion (nv demo_made)) = (0, 1, 0x11)"
  by code_simp

theorem endgame_ends_witness:
  "\<exists>s' st turns. server_do (SETSTATE XWSTATE_NEEDSEND_ENDGAME (upd_nv (\<lambda>n. n\<lparr>nDevices := 2\<rparr>) demo_made)) = Some (True, s') \<and>
     gameState (nv s') = XWSTATE_GAMEOVER \<and> currentTurn (nv s') = -1 \<and>
     svOut s' = svOut demo_made @ EvSend st # turns @ [EvGameOver (-1)] \<and> ends_game st"
proof -
  let ?s = "SETSTATE XWSTATE_NEEDSEND_ENDGAME (upd_nv (\<lambda>n. n\<lparr>nDevices := 2\<rparr>) demo_made)"
  have s: "gameState (nv ?s) = XWSTATE_NEEDSEND_ENDGAME" "\<not> amClient ?s" "\<not> serverDoing ?s"
    "nDevices (nv ?s) \<le> length (addresses (nv ?s))" "0 < nvStreamVersion (nv ?s)"
    using demo_devices reachable_stageD(3,4)[OF demo_reachable(1)]
    unfolding sizes_ok by (simp_all add: SETSTATE_def upd_nv_def amClient_def SERVER_ISCLIENT_def MAX_NUM_PLAYERS_def)
  have n: "[1..<nDevices (nv ?s)] = [1]" "svOut ?s = svOut demo_made" by (simp_all add: SETSTATE_def upd_nv_def upt_rec)
  from endgame_ends[OF s] obtain s' sts turns where r: "server_do ?s = Some (True, s')" "gameState (nv s') = XWSTATE_GAMEOVER"
      "currentTurn (nv s') = -1" "svOut s' = svOut ?s @ map EvSend sts @ turns @ [EvGameOver (-1)]" "list_all ends_game sts"
      "map mem_stream_getAddress sts = map (\<lambda>d. raChannelNo (addresses (nv ?s) ! d)) [1..<nDevices (nv ?s)]"
    by blast
  from r(6) obtain st where "sts = [st]" unfolding n(1) by auto
  with r n(2) show ?thesis by (intro exI[of _ s'] exI[of _ st] exI[of _ turns]) simp
qed

section \<open>The pool after a trade\<close>

named_theorems pool_same

lemma svPool_kept [simp]:
  "svPool (emit ev s) = svPool s" "svPool (callTurnChangeListener s) = svPool s" "svPool (upd_nv f s) = svPool s"
  "svPool (SETSTATE st s) = svPool s"
  by (simp_all add: emit_def callTurnChangeListener_def upd_nv_def SETSTATE_def)

lemma pool_getCurSeconds [pool_same]: "getCurSeconds s = (t, s') \<Longrightarrow> svPool s' = svPool s"
  by (auto simp: getCurSeconds_def)

lemma pool_ofold:
  assumes "ofold f s xs = Some s'" and "\<And>s x s'. f s x = Some s' \<Longrightarrow> svPool s' = svPool s"
  shows "svPool s' = svPool s"
proof (rule ofold_invariant[where P = "\<lambda>t. svPool t = svPool s", OF _ _ assms(1)])
  show "svPool t' = svPool s" if "svPool t = svPool s" "f t x = Some t'" for t x t'
    using that assms(2) by simp
qed simp

lemma pool_on_model [pool_same]: "on_model f s = Some s' \<Longrightarrow> svPool s' = svPool s"
  by (auto simp: on_model_def)

lemma pool_ask_model [pool_same]: "ask_model f s = Some (a, s') \<Longrightarrow> svPool s' = svPool s"
  by (auto simp: ask_model_def)

lemma pool_sendMessage [pool_same]: "sendMessage d code body s = Some s' \<Longrightarrow> svPool s' = svPool s"
  by (auto simp: sendMessage_def sendStream_def)

lemma pool_sendMoveTo [pool_same]: "sendMoveTo t l n tr s d = Some s' \<Longrightarrow> svPool s' = svPool s"
  by (auto simp: sendMoveTo_def dest!: pool_same)

lemma pool_sendMoves [pool_same]: "sendMoveToClientsExcept t l n tr k s = Some s' \<Longrightarrow> svPool s' = svPool s"
  unfolding sendMoveToClientsExcept_def by (erule pool_ofold) (erule pool_sendMoveTo)

lemma pool_sortTilesIf [pool_same]: "sortTilesIf t s = Some s' \<Longrightarrow> svPool s' = svPool s"
  by (auto simp: sortTilesIf_def split: if_splits dest!: pool_same)

lemma pool_set_engine [pool_same]: "set_engine pl e s = Some s' \<Longrightarrow> svPool s' = svPool s"
  by (auto simp: set_engine_def)

lemma pool_resetEngine [pool_same]: "server_resetEngine s pl = Some s' \<Longrightarrow> svPool s' = svPool s"
  by (auto simp: server_resetEngine_def split: option.splits dest!: pool_same)

lemma pool_resetEngines [pool_same]: "server_resetEngines s = Some s' \<Longrightarrow> svPool s' = svPool s"
  unfolding server_resetEngines_def by (erule pool_ofold) (rule pool_resetEngine)

lemma pool_NPASSES_OK [pool_same]: "NPASSES_OK s = Some (a, s') \<Longrightarrow> svPool s' = svPool s"
  by (auto simp: NPASSES_OK_def dest!: pool_same)

lemma pool_robotMovePending [pool_same]: "robotMovePending s = Some (a, s') \<Longrightarrow> svPool s' = svPool s"
  by (auto simp: robotMovePending_def Let_def split: if_splits dest!: pool_same)

lemma pool_figureSleepTime [pool_same]: "figureSleepTime s = (a, s') \<Longrightarrow> svPool s' = svPool s"
  by (auto simp: figureSleepTime_def xp_random_def Let_def split: if_splits)

lemma pool_postponeRobotMove [pool_same]: "postponeRobotMove s = Some (a, s') \<Longrightarrow> svPool s' = svPool s"
  by (auto simp: postponeRobotMove_def Let_def split: if_splits prod.splits dest!: pool_same)

lemma pool_robot_moves_now [pool_same]: "robot_moves_now s = Some (a, s') \<Longrightarrow> svPool s' = svPool s"
  by (auto simp: robot_moves_now_def split: if_splits dest!: pool_same)

lemma pool_setTurn [pool_same]: "setTurn t s = Some s' \<Longrightarrow> svPool s' = svPool s"
  by (auto simp: setTurn_def Let_def getCurSeconds_def split: if_splits dest!: pool_same)

lemma pool_pick_turn [pool_same]: "pick_turn t s = Some (a, s') \<Longrightarrow> svPool s' = svPool s"
  by (auto simp: pick_turn_def split: if_splits dest!: pool_same)

lemma pool_turn_or_end [pool_same]: "turn_or_end old t s = Some (a, s') \<Longrightarrow> svPool s' = svPool s"
  by (auto simp: turn_or_end_def Let_def split: if_splits dest!: pool_same)

lemma pool_show_previous [pool_same]: "show_previous b s = (a, s') \<Longrightarrow> svPool s' = svPool s"
  by (auto simp: show_previous_def Let_def split: if_splits)

lemma pool_nextTurn [pool_same]:
  assumes "nextTurn t s = Some s'"
  shows "svPool s' = svPool s"
proof -
  from assms obtain t1 s1 m1 s2 where pick: "pick_turn t s = Some (t1, s1)"
      and set: "turn_or_end (currentTurn (nv s)) t1 s1 = Some (m1, s2)"
    by (auto simp: nextTurn_def Let_def)
  obtain m2 s3 where shown: "show_previous m1 s2 = (m2, s3)" by (cases "show_previous m1 s2")
  with assms pick set have "svPool s' = svPool s3"
    by (auto simp: nextTurn_def Let_def split: if_splits dest!: pool_resetEngines pool_robot_moves_now)
  then show ?thesis using pool_pick_turn[OF pick] pool_turn_or_end[OF set] pool_show_previous[OF shown] by simp
qed

lemma fetchTiles_full:
  assumes "fetchTiles pl (length ts) olds ts s = Some (ts', s')"
  shows "ts' = ts \<and> s' = s"
  using assms by (auto simp: fetchTiles_def Let_def fetch_rest.simps split: if_splits)

text \<open>C36: A trade for which the player has picked all of his new tiles (\<open>newTilesP\<close>, which the board
  hands over when picking is allowed) puts the traded tiles into the pool and does not take the picked
  ones out of it, as the commit of a move does: when the trade is done, the pool has grown by the
  tiles traded, and a picked tile is both in the player's tray and in the pool.\<close>

theorem commitTrade_keeps_picked:
  assumes "server_commitTrade s olds (Some picked) = Some s'" and "length picked = length olds" and "svPool s = Some p"
  shows "svPool s' = pool_replaceTiles p olds"
proof -
  from assms(1) obtain new s1 s2 s3 s4 s5 where
    run: "fetchTiles (nat (currentTurn (nv s))) (length picked) (Some olds) picked s = Some (new, s1)"
      "(if amClient s1 then sendMoveTo (nat (currentTurn (nv s))) True new (Some olds) s1 SERVER_DEVICE
        else sendMoveToClientsExcept (nat (currentTurn (nv s))) True new (Some olds) (int SERVER_DEVICE) s1) = Some s2"
      "on_pool (\<lambda>pool. pool_replaceTiles pool olds) s2 = Some s3"
      "on_model (\<lambda>m. model_makeTileTrade m (nat (currentTurn (nv s))) olds new) s3 = Some s4"
      "sortTilesIf (nat (currentTurn (nv s))) s4 = Some s5" "nextTurn PICK_NEXT s5 = Some s'"
    unfolding server_commitTrade_def Let_def assms(2) by (auto simp del: if_split)
  have "svPool s2 = Some p"
    using run(2) fetchTiles_full[OF run(1)] assms(3) by (auto split: if_splits dest!: pool_same)
  then show ?thesis
    using run(3) pool_on_model[OF run(4)] pool_sortTilesIf[OF run(5)] pool_nextTurn[OF run(6)] by (auto simp: on_pool_def)
qed
text \<open>A server in a game of two where a blank is left in the pool, and the player on turn has three As.\<close>

definition pool_of :: "u8 list \<Rightarrow> nat \<Rightarrow> poolContext" where
  "pool_of left n = pool_make\<lparr>lettersLeft := left, numTilesLeft := n, numFaces := length left\<rparr>"

definition trading_server :: serverCtxt where
  "trading_server = (zero_server (demo_model\<lparr>players := no_player\<lparr>trayTiles := [0, 0, 0]\<rparr> # no_player\<lparr>trayTiles := [0, 0, 1]\<rparr> #
      replicate 2 no_player, mNPlayers := 2\<rparr>) demo_platform)
     \<lparr>nv := zero_nv\<lparr>gameState := XWSTATE_INTURN, nDevices := 1, nvStreamVersion := 0x11\<rparr>, svPool := Some (pool_of [0, 1] 1)\<rparr>"

lemma trading_server_trades:
  "map_option (\<lambda>s. (map trayTiles (players (svModel s)), map_option pool_getNTilesLeft (svPool s)))
     (server_commitTrade trading_server [0] (Some [1])) = Some ([[0, 0, 1], [0, 0, 1], [], []], Some 2)"
  by code_simp
theorem commitTrade_keeps_picked_witness:
  "\<exists>s'. server_commitTrade trading_server [0] (Some [1]) = Some s' \<and> svPool s' = Some (pool_of [1, 1] 2) \<and>
     trayTiles (players (svModel s') ! 0) = [0, 0, 1]"
proof -
  obtain s' where s': "server_commitTrade trading_server [0] (Some [1]) = Some s'"
      "map trayTiles (players (svModel s')) = [[0, 0, 1], [0, 0, 1], [], []]"
    using trading_server_trades by (auto simp: map_option_eq_Some)
  have "svPool trading_server = Some (pool_of [0, 1] 1)" "pool_replaceTiles (pool_of [0, 1] 1) [0] = Some (pool_of [1, 1] 2)"
    by (simp_all add: trading_server_def) code_simp
  then have "svPool s' = Some (pool_of [1, 1] 2)" using commitTrade_keeps_picked[OF s'(1)] by simp
  moreover have "players (svModel s') \<noteq> []" using s'(2) by auto
  ultimately show ?thesis using s' by (cases "players (svModel s')") auto
qed

end
