(* ===== verification/Xw_DupeSpec.thy ===== *)
theory Xw_DupeSpec
  imports Xw_ServerDupe
begin

text \<open>
  What duplicate mode promises: the scores of a turn are shown from the best down and the loop that
  shows them ends, and the move that is committed for all is one of the best.
\<close>

section \<open>The scores of a turn\<close>

text \<open>The lines of the players \<open>iis\<close>, in this order.\<close>

definition show_lines :: "(nat \<Rightarrow> u8 list) \<Rightarrow> nat list \<Rightarrow> mem_stream \<Rightarrow> mem_stream option" where
  "show_lines line iis stream =
     ofold (\<lambda>stream ii. mem_stream_catString stream (Some (snprintf 128 (line ii)))) stream iis"

lemma this_max_props:
  assumes "s \<in> set scores" "s < lastMax"
  shows "this_max scores lastMax < lastMax" "s \<le> this_max scores lastMax" "this_max scores lastMax \<in> insert 0 (set scores)"
proof -
  have fold: "m \<le> foldl (\<lambda>m s. if s < lastMax \<and> s > m then s else m) m xs \<and>
      (m < lastMax \<longrightarrow> foldl (\<lambda>m s. if s < lastMax \<and> s > m then s else m) m xs < lastMax) \<and>
      foldl (\<lambda>m s. if s < lastMax \<and> s > m then s else m) m xs \<in> insert m (set xs) \<and>
      (\<forall>x\<in>set xs. x < lastMax \<longrightarrow> x \<le> foldl (\<lambda>m s. if s < lastMax \<and> s > m then s else m) m xs)" for m xs
  proof (induction xs arbitrary: m)
    case Nil
    then show ?case by simp
  next
    case (Cons x xs)
    show ?case
    proof (cases "x < lastMax \<and> x > m")
      case True
      then show ?thesis using Cons.IH[of x] by auto
    next
      case False
      then show ?thesis using Cons.IH[of m] by auto
    qed
  qed
  show "this_max scores lastMax < lastMax" "s \<le> this_max scores lastMax" "this_max scores lastMax \<in> insert 0 (set scores)"
    using fold[of 0 scores] assms by (auto simp: this_max_def)
qed

text \<open>Players whose score is below a bound, best first, and in their order where they are equal.\<close>

definition below :: "nat list \<Rightarrow> nat \<Rightarrow> nat list" where
  "below scores m = sort_key (\<lambda>ii. - int (scores ! ii)) (filter (\<lambda>ii. scores ! ii < m) [0..<length scores])"

lemma mset_filter_or:
  "(\<And>x. x \<in> set xs \<Longrightarrow> P x \<longleftrightarrow> Q x \<or> R x) \<Longrightarrow> (\<And>x. x \<in> set xs \<Longrightarrow> \<not> (Q x \<and> R x)) \<Longrightarrow>
     mset (filter P xs) = mset (filter Q xs) + mset (filter R xs)"
  by (induction xs) auto

lemma below_split:
  assumes "m' < m" "\<And>s. s \<in> set scores \<Longrightarrow> s < m \<Longrightarrow> s \<le> m'"
  shows "below scores m = filter (\<lambda>ii. scores ! ii = m') [0..<length scores] @ below scores m'"
proof -
  let ?f = "\<lambda>ii. - int (scores ! ii)" and ?all = "[0..<length scores]"
  have lt: "scores ! ii < m \<longleftrightarrow> scores ! ii = m' \<or> scores ! ii < m'" if "ii < length scores" for ii
    using assms(1) assms(2)[of "scores ! ii"] nth_mem[OF that] by auto
  show ?thesis
    unfolding below_def[of scores m]
  proof (rule properties_for_sort_key)
    have "mset (filter (\<lambda>ii. scores ! ii < m) ?all) =
        mset (filter (\<lambda>ii. scores ! ii = m') ?all) + mset (filter (\<lambda>ii. scores ! ii < m') ?all)"
      by (rule mset_filter_or) (use lt in auto)
    then show "mset (filter (\<lambda>ii. scores ! ii = m') ?all @ below scores m') = mset (filter (\<lambda>ii. scores ! ii < m) ?all)"
      by (simp add: below_def)
  next
    fix j
    let ?k = "?f j"
    assume "j \<in> set (filter (\<lambda>ii. scores ! ii = m') ?all @ below scores m')"
    have st: "filter (\<lambda>x. ?k = ?f x) (below scores m') = filter (\<lambda>x. ?k = ?f x) (filter (\<lambda>ii. scores ! ii < m') ?all)"
    proof -
      have eq: "(\<lambda>x. ?k = ?f x) = (\<lambda>x. ?f x = ?k)" by auto
      show ?thesis unfolding eq below_def by (rule sort_key_stable)
    qed
    show "filter (\<lambda>x. ?k = ?f x) (filter (\<lambda>ii. scores ! ii = m') ?all @ below scores m') =
        filter (\<lambda>x. ?k = ?f x) (filter (\<lambda>ii. scores ! ii < m) ?all)"
    proof (cases "?k = - int m'")
      case True
      then have "filter (\<lambda>x. ?k = ?f x) (below scores m') = []" unfolding st by (auto simp: filter_empty_conv)
      moreover have "filter (\<lambda>x. ?k = ?f x) (filter (\<lambda>ii. scores ! ii < m) ?all) = filter (\<lambda>ii. scores ! ii = m') ?all"
        using True assms(1) by (auto intro: filter_cong)
      moreover have "filter (\<lambda>x. ?k = ?f x) (filter (\<lambda>ii. scores ! ii = m') ?all) = filter (\<lambda>ii. scores ! ii = m') ?all"
        using True by (auto intro: filter_cong)
      ultimately show ?thesis by simp
    next
      case False
      then have "filter (\<lambda>x. ?k = ?f x) (filter (\<lambda>ii. scores ! ii = m') ?all) = []" by (auto simp: filter_empty_conv)
      moreover have "filter (\<lambda>x. ?k = ?f x) (filter (\<lambda>ii. scores ! ii < m) ?all) =
          filter (\<lambda>x. ?k = ?f x) (filter (\<lambda>ii. scores ! ii < m') ?all)"
        unfolding filter_filter using False lt by (intro filter_cong) auto
      ultimately show ?thesis using st by simp
    qed
  next
    show "sorted (map ?f (filter (\<lambda>ii. scores ! ii = m') ?all @ below scores m'))"
    proof -
      have "map ?f (filter (\<lambda>ii. scores ! ii = m') ?all) = map (\<lambda>_. - int m') (filter (\<lambda>ii. scores ! ii = m') ?all)" by simp
      then have "sorted (map ?f (filter (\<lambda>ii. scores ! ii = m') ?all))" by (simp only: map_replicate_const sorted_replicate)
      then show ?thesis by (auto simp: sorted_append below_def)
    qed
  qed
qed

lemma count_at: "count_list xs m = length (filter (\<lambda>ii. xs ! ii = m) [0..<length xs])"
proof -
  have "count_list xs m = length (filter (\<lambda>x. x = m) xs)" by (induction xs) auto
  also have "filter (\<lambda>x. x = m) xs = map ((!) xs) (filter (\<lambda>ii. xs ! ii = m) [0..<length xs])"
    by (subst map_nth[symmetric], subst filter_map) (simp add: comp_def)
  finally show ?thesis by simp
qed

lemma length_below: "length (below scores m) = length (filter (\<lambda>s. s < m) scores)"
proof -
  have "filter (\<lambda>s. s < m) scores = map ((!) scores) (filter (\<lambda>ii. scores ! ii < m) [0..<length scores])"
    by (subst (1) map_nth[symmetric], subst filter_map) (simp add: comp_def)
  then show ?thesis by (simp add: below_def)
qed

lemma some_below:
  assumes "below scores m \<noteq> []"
  obtains s where "s \<in> set scores" "s < m"
proof -
  have "filter (\<lambda>s. s < m) scores \<noteq> []" using assms length_below[of scores m] by force
  then show thesis using that by (auto simp: filter_empty_conv)
qed

text \<open>One round shows the players with the best score not yet shown; what is left is below it.\<close>

lemma show_scores_from:
  assumes "nDone + length (below scores lastMax) = length scores"
  shows "show_scores line scores lastMax nDone stream = show_lines line (below scores lastMax) stream"
  using assms
proof (induction "length (below scores lastMax)" arbitrary: lastMax nDone stream rule: less_induct)
  case less
  show ?case
  proof (cases "below scores lastMax = []")
    case True
    then show ?thesis using less.prems by (simp add: show_scores.simps[of line scores lastMax] show_lines_def)
  next
    case False
    then obtain s where s: "s \<in> set scores" "s < lastMax" by (rule some_below)
    let ?m = "this_max scores lastMax" and ?eq = "filter (\<lambda>ii. scores ! ii = this_max scores lastMax) [0..<length scores]"
    have split: "below scores lastMax = ?eq @ below scores ?m"
      by (rule below_split) (use this_max_props[of _ scores lastMax] s in auto)
    have "?m \<in> set scores"
      using this_max_props[OF s] s by (cases "?m = 0") auto
    then have "?eq \<noteq> []" by (auto simp: filter_empty_conv in_set_conv_nth)
    then have less': "length (below scores ?m) < length (below scores lastMax)" unfolding split by simp
    have sum: "nDone + count_list scores ?m + length (below scores ?m) = length scores"
      using less.prems unfolding split count_at by simp
    have "nDone < length scores" using less.prems False by (cases "below scores lastMax") auto
    then have "show_scores line scores lastMax nDone stream =
        Option.bind (show_lines line ?eq stream) (show_scores line scores ?m (nDone + count_list scores ?m))"
      by (subst show_scores.simps) (simp add: show_equal_def show_lines_def Let_def)
    also have "\<dots> = Option.bind (show_lines line ?eq stream) (show_lines line (below scores ?m))"
      by (cases "show_lines line ?eq stream") (simp_all add: less.hyps[OF less' sum])
    also have "\<dots> = show_lines line (below scores lastMax) stream"
      unfolding split show_lines_def by (simp add: ofold_append split: option.split)
    finally show ?thesis .
  qed
qed

text \<open>C8: When every score is below 0x7FFF, the loop that shows the scores of a turn in duplicate mode
  ends, and it writes one line for each player, the best score first and equal scores in the order of
  the players: what a stable sort of the players by falling score gives.\<close>

theorem show_scores_sorted:
  assumes "\<forall>s\<in>set scores. s < 0x7FFF"
  shows "show_scores line scores 0x7FFF 0 stream =
    show_lines line (sort_key (\<lambda>ii. - int (scores ! ii)) [0..<length scores]) stream"
proof -
  have "below scores 0x7FFF = sort_key (\<lambda>ii. - int (scores ! ii)) [0..<length scores]"
    unfolding below_def using assms by (intro arg_cong[where f = "sort_key _"] filter_True) (auto intro: nth_mem)
  moreover have "length (below scores 0x7FFF) = length scores" using calculation by simp
  ultimately show ?thesis using show_scores_from[of 0 scores "0x7FFF" line stream] by simp
qed

theorem show_scores_sorted_witness:
  "show_scores (\<lambda>ii. [of_nat ii]) [7, 30, 7] 0x7FFF 0 mem_stream_make_raw =
     show_lines (\<lambda>ii. [of_nat ii]) [1, 0, 2] mem_stream_make_raw"
proof -
  have "sort_key (\<lambda>ii. - int ([7, 30, 7 :: nat] ! ii)) [0..<length [7, 30, 7 :: nat]] = [1, 0, 2]"
    by (simp add: sort_key_def upt_rec)
  moreover have "\<forall>s\<in>set [7, 30, 7 :: nat]. s < 0x7FFF" by simp
  ultimately show ?thesis using show_scores_sorted[of "[7, 30, 7]" "\<lambda>ii. [of_nat ii]" mem_stream_make_raw] by (simp only:)
qed

text \<open>With a score of 0x7FFF or more and none of zero it never ends.\<close>

lemma show_scores_loops:
  assumes "s \<in> set scores" "0x7FFF \<le> s" "0 \<notin> set scores"
  shows "show_scores line scores 0x7FFF 0 stream = None"
proof -
  have loops: "lastMax \<le> 0x7FFF \<longrightarrow> sc = scores \<longrightarrow> \<not> nDone + length (below scores lastMax) < length scores"
    if run: "show_scores line sc lastMax nDone stream = Some y" for sc lastMax nDone stream y
  proof (rule show_scores.raw_induct[of "\<lambda>line sc lastMax nDone stream y.
      lastMax \<le> 0x7FFF \<longrightarrow> sc = scores \<longrightarrow> \<not> nDone + length (below scores lastMax) < length scores", OF _ run])
    fix f :: "(nat \<Rightarrow> u8 list) \<Rightarrow> nat list \<Rightarrow> nat \<Rightarrow> nat \<Rightarrow> mem_stream \<Rightarrow> mem_stream option"
    fix line sc lastMax nDone stream y
    assume ih: "\<And>line sc lastMax nDone stream y. f line sc lastMax nDone stream = Some y \<Longrightarrow>
        lastMax \<le> 0x7FFF \<longrightarrow> sc = scores \<longrightarrow> \<not> nDone + length (below scores lastMax) < length scores"
      and body: "(if nDone < length sc then do {
          let thisMax = this_max sc lastMax;
          stream \<leftarrow> show_equal line sc thisMax stream;
          f line sc thisMax (nDone + count_list sc thisMax) stream
        } else Some stream) = Some y"
    let ?m = "this_max scores lastMax"
    have "length (below scores lastMax) = count_list scores ?m + length (below scores ?m) \<and> ?m \<le> lastMax"
    proof (cases "below scores lastMax = []")
      case True
      have "\<And>m. foldl (\<lambda>m s. if s < lastMax \<and> s > m then s else m) m xs = m" if "\<forall>s\<in>set xs. \<not> s < lastMax" for xs
        using that by (induction xs) auto
      moreover have "\<forall>s\<in>set scores. \<not> s < lastMax" using True length_below[of scores lastMax] by (simp add: filter_empty_conv)
      ultimately have "?m = 0" by (simp add: this_max_def)
      then show ?thesis using True assms(3) length_below[of scores 0] by (simp add: count_list_0_iff)
    next
      case False
      then obtain s where s: "s \<in> set scores" "s < lastMax" by (rule some_below)
      have "below scores lastMax = filter (\<lambda>ii. scores ! ii = ?m) [0..<length scores] @ below scores ?m"
        by (rule below_split) (use this_max_props[of _ scores lastMax] s in auto)
      then show ?thesis using this_max_props(1)[OF s] by (simp add: count_at)
    qed
    then show "lastMax \<le> 0x7FFF \<longrightarrow> sc = scores \<longrightarrow> \<not> nDone + length (below scores lastMax) < length scores"
      using body ih[of line scores ?m "nDone + count_list scores ?m"] by (auto simp: Let_def split: if_splits)
  qed
  have "length (below scores 0x7FFF) < length scores"
    unfolding length_below using assms(1,2) by (meson length_filter_less linorder_not_less)
  then show ?thesis using loops[of scores "0x7FFF" 0 stream] by (cases "show_scores line scores 0x7FFF 0 stream") auto
qed
section \<open>The move of a turn\<close>

definition worth_le :: "nat \<times> nat \<Rightarrow> nat \<times> nat \<Rightarrow> bool" where
  "worth_le a b \<longleftrightarrow> fst a < fst b \<or> (fst a = fst b \<and> snd a \<le> snd b)"

lemma worth_le_refl [simp]: "worth_le a a"
  by (simp add: worth_le_def)

lemma worth_le_trans: "worth_le a b \<Longrightarrow> worth_le b c \<Longrightarrow> worth_le a c"
  by (auto simp: worth_le_def)

text \<open>The candidates after the players \<open>0..<k\<close>, whose scores and tile counts are known: all of them are
  best, and there is one as soon as there was a player.\<close>

definition best_so_far :: "nat \<Rightarrow> (nat \<times> nat) list \<Rightarrow> (nat \<times> nat \<times> nat) list \<Rightarrow> bool" where
  "best_so_far k vals ws \<longleftrightarrow> length vals = k \<and> (0 < k \<longrightarrow> ws \<noteq> []) \<and>
     (\<forall>(v, n, p) \<in> set ws. p < k \<and> vals ! p = (v, n) \<and> (\<forall>j<k. worth_le (vals ! j) (v, n)))"

lemma best_so_far_step:
  assumes "length vals = k" "X \<noteq> []"
    and "\<And>w m p. (w, m, p) \<in> set X \<Longrightarrow> p < Suc k \<and> (vals @ [x]) ! p = (w, m) \<and> (\<forall>j<k. worth_le (vals ! j) (w, m)) \<and> worth_le x (w, m)"
  shows "best_so_far (Suc k) (vals @ [x]) X"
proof -
  have "worth_le ((vals @ [x]) ! j) (w, m)" if "(w, m, p) \<in> set X" "j < Suc k" for w m p j
    using assms(1) assms(3)[OF that(1)] that(2) by (cases "j = k") (auto simp: nth_append)
  then show ?thesis using assms by (fastforce simp: best_so_far_def)
qed

lemma consider_winner_best:
  assumes "best_so_far k vals ws" and v: "v < 65536"
  shows "best_so_far (Suc k) (vals @ [(v, n)]) (consider_winner (int v) n k ws)"
proof (cases "ws = []")
  case True
  with assms have "k = 0" "vals = []" by (auto simp: best_so_far_def)
  with True v show ?thesis by (simp add: best_so_far_def consider_winner_def Let_def)
next
  case False
  obtain v1 n1 p1 where l: "last ws = (v1, n1, p1)" by (cases "last ws")
  have "(v1, n1, p1) \<in> set ws" using False l last_in_set by metis
  then have best: "p1 < k" "length vals = k" "\<And>j. j < k \<Longrightarrow> worth_le (vals ! j) (v1, n1)" "vals ! p1 = (v1, n1)"
    using assms by (auto simp: best_so_far_def)
  have same: "(w, m) = (v1, n1)" if "(w, m, p) \<in> set ws" for w m p
  proof -
    have "case (w, m, p) of (v, n, p) \<Rightarrow> p < k \<and> vals ! p = (v, n) \<and> (\<forall>j<k. worth_le (vals ! j) (v, n))"
      using assms that unfolding best_so_far_def by blast
    then have "p < k" "vals ! p = (w, m)" "worth_le (v1, n1) (w, m)" using best(1,4) by auto
    then show ?thesis using best(3)[of p] by (auto simp: worth_le_def)
  qed
  have old: "p < k \<and> vals ! p = (v1, n1)" if "(w, m, p) \<in> set ws" for w m p
    using assms that same[OF that] by (auto simp: best_so_far_def)
  consider "worth_le (v, n) (v1, n1)" "(v, n) \<noteq> (v1, n1)" | "(v, n) = (v1, n1)"
    | "worth_le (v1, n1) (v, n)" "(v, n) \<noteq> (v1, n1)"
    by (cases v v1 rule: linorder_cases; cases n n1 rule: linorder_cases) (auto simp: worth_le_def)
  then show ?thesis
  proof cases
    case 1
    then have "consider_winner (int v) n k ws = ws" using False l v by (auto simp: consider_winner_def Let_def worth_le_def)
    moreover have "p < Suc k \<and> (vals @ [(v, n)]) ! p = (w, m) \<and> (\<forall>j<k. worth_le (vals ! j) (w, m)) \<and> worth_le (v, n) (w, m)"
      if "(w, m, p) \<in> set ws" for w m p
      using same[OF that] old[OF that] best(2,3) 1(1) by (simp add: nth_append)
    ultimately show ?thesis using best_so_far_step[OF best(2) False, of "(v, n)"] by simp
  next
    case 2
    then have "consider_winner (int v) n k ws = ws @ [(v, n, k)]" using False l v by (simp add: consider_winner_def Let_def)
    moreover have "p < Suc k \<and> (vals @ [(v, n)]) ! p = (w, m) \<and> (\<forall>j<k. worth_le (vals ! j) (w, m)) \<and> worth_le (v, n) (w, m)"
      if "(w, m, p) \<in> set (ws @ [(v, n, k)])" for w m p
    proof (cases "(w, m, p) \<in> set ws")
      case True
      then show ?thesis using same[OF True] old[OF True] best(2,3) 2 by (simp add: nth_append)
    next
      case False
      then have "(w, m, p) = (v, n, k)" using that by simp
      then show ?thesis using best(2,3) 2 by (simp add: nth_append)
    qed
    ultimately show ?thesis using best_so_far_step[OF best(2), of "ws @ [(v, n, k)]" "(v, n)"] by simp
  next
    case 3
    then have "consider_winner (int v) n k ws = [(v, n, k)]" using False l v by (auto simp: consider_winner_def Let_def worth_le_def)
    moreover have "worth_le (vals ! j) (v, n)" if "j < k" for j
      using worth_le_trans[OF best(3)[OF that] 3(1)] .
    ultimately show ?thesis using best_so_far_step[OF best(2), of "[(v, n, k)]" "(v, n)"] best(2) by (simp add: nth_append)
  qed
qed

section \<open>The scores of the moves\<close>

text \<open>Scoring looks at the players only for their pending tiles. So the notes of earlier scores, which
  the scoring of one player after the other changes, do not matter.\<close>

definition forget_scores :: "modelCtxt \<Rightarrow> modelCtxt" where
  "forget_scores m = m\<lparr>players := map (\<lambda>p. p\<lparr>curMoveScore := 0, curMoveValid := False\<rparr>) (players m)\<rparr>"

named_theorems no_players

lemma getTile_players [no_players]: "model_getTile (m\<lparr>players := ps\<rparr>) c r False t = model_getTile m c r False t"
  by (simp add: model_getTile_def getModelTileRaw_def cong: if_cong)

lemma isEmptyAt_players [no_players]: "modelIsEmptyAt (m\<lparr>players := ps\<rparr>) s = modelIsEmptyAt m s"
  by (cases s) (simp add: modelIsEmptyAt_def model_numCols_def getTile_players)

lemma multipliers_players [no_players]:
  "word_multiplier (m\<lparr>players := ps\<rparr>) s = word_multiplier m s" "tile_multiplier (m\<lparr>players := ps\<rparr>) s = tile_multiplier m s"
proof -
  have "model_getSquareBonus (m\<lparr>players := ps\<rparr>) c r = model_getSquareBonus m c r" for c r
    by (simp add: model_getSquareBonus_def model_numCols_def model_numRows_def Let_def cong: option.case_cong)
  then show "word_multiplier (m\<lparr>players := ps\<rparr>) s = word_multiplier m s" "tile_multiplier (m\<lparr>players := ps\<rparr>) s = tile_multiplier m s"
    by (simp_all add: word_multiplier_def tile_multiplier_def)
qed

lemma dict_players [no_players]: "model_getPlayerDict (m\<lparr>players := ps\<rparr>) pl = model_getPlayerDict m pl"
  by (simp add: model_getPlayerDict_def Let_def cong: if_cong option.case_cong)

lemma gaps_players [no_players]: "isLegalMove_gaps (m\<lparr>players := ps\<rparr>) mi ts vs = isLegalMove_gaps m mi ts vs"
proof (induction m mi ts vs rule: isLegalMove_gaps.induct)
  case (3 m mi t ts v vs)
  then show ?case
    by (cases "modelIsEmptyAt m (sq (isHorizontal mi) (commonCoord mi) v)") (simp_all add: isEmptyAt_players)
qed simp_all

lemma occupied_players [no_players]: "anyOccupied (m\<lparr>players := ps\<rparr>) ss = anyOccupied m ss"
  by (induction ss) (simp_all add: isEmptyAt_players cong: if_cong)

lemma legal_players [no_players]: "isLegalMove (m\<lparr>players := ps\<rparr>) mi = isLegalMove m mi"
  by (simp add: isLegalMove_def model_numRows_def gaps_players occupied_players Let_def cong: if_cong)

lemma ends_players [no_players]:
  "find_start (m\<lparr>players := ps\<rparr>) isH c v = find_start m isH c v"
  "find_end (m\<lparr>players := ps\<rparr>) isH c v = find_end m isH c v"
proof -
  show "find_start (m\<lparr>players := ps\<rparr>) isH c v = find_start m isH c v"
    by (induction v) (simp_all add: isEmptyAt_players cong: if_cong)
  have "find_end_loop (m\<lparr>players := ps\<rparr>) isH c l w = find_end_loop m isH c l w" for l w
    by (induction l arbitrary: w) (simp_all add: isEmptyAt_players cong: if_cong)
  then show "find_end (m\<lparr>players := ps\<rparr>) isH c v = find_end m isH c v" by (simp add: find_end_def model_numCols_def)
qed

lemma word_tile_players [no_players]: "word_tile (m\<lparr>players := ps\<rparr>) mi ts v = word_tile m mi ts v"
  by (cases ts) (simp_all add: board_tile_def no_players cong: if_cong)

lemma scoreWord_players [no_players]: "scoreWord (m\<lparr>players := ps\<rparr>) = scoreWord m"
proof -
  have "scoreWord_step (m\<lparr>players := ps\<rparr>) = scoreWord_step m"
    by (intro ext) (simp add: scoreWord_step_def word_tile_players Let_def cong: if_cong option.case_cong)
  then have "scoreWord_rest (m\<lparr>players := ps\<rparr>) = scoreWord_rest m" by (intro ext) (simp add: scoreWord_rest_def Let_def cong: if_cong option.case_cong)
  then show ?thesis by (intro ext) (simp add: scoreWord_def no_players Let_def cong: if_cong option.case_cong)
qed

lemma figureMoveScore_players: "figureMoveScore us (m\<lparr>players := ps\<rparr>) = figureMoveScore us m"
proof -
  have "multiplier_at (m\<lparr>players := ps\<rparr>) = multiplier_at m" by (intro ext) (simp add: multiplier_at_def no_players)
  moreover from this have "crossScore_step (m\<lparr>players := ps\<rparr>) = crossScore_step m"
    by (intro ext) (simp add: crossScore_step_def scoreWord_players Let_def cong: if_cong option.case_cong)
  ultimately show ?thesis by (intro ext) (simp add: figureMoveScore_def scoreWord_players Let_def cong: if_cong option.case_cong)
qed

lemma checkScoreMove_forget: "checkScoreMove us (forget_scores m) = checkScoreMove us m"
proof -
  have get: "mem_get turn (players (forget_scores m)) =
      map_option (\<lambda>p. p\<lparr>curMoveScore := 0, curMoveValid := False\<rparr>) (mem_get turn (players m))" for turn
    by (simp add: mem_get_def forget_scores_def)
  have "scoreLegalMove us (forget_scores m) = scoreLegalMove us m"
    by (intro ext) (simp add: scoreLegalMove_def forget_scores_def figureMoveScore_players dict_players Let_def cong: if_cong option.case_cong)
  moreover have "isLegalMove (forget_scores m) = isLegalMove m" by (intro ext) (simp add: forget_scores_def legal_players)
  moreover have "tilesInLine (forget_scores m) = tilesInLine m" "normalizeMoves (forget_scores m) = normalizeMoves m"
    by (intro ext, simp add: tilesInLine_def normalizeMoves_def get bind_map_option comp_def Let_def cong: if_cong option.case_cong list.case_cong)+
  ultimately show ?thesis by (intro ext) (simp add: checkScoreMove_def get bind_map_option comp_def Let_def cong: if_cong option.case_cong list.case_cong)
qed

text \<open>A score is one of the width of the code's variable.\<close>

lemma checkScoreMove_range:
  assumes "checkScoreMove us m p c st silent notify = Some mc"
  shows "mcScore mc < 32768"
proof -
  have s: "s16 x < 32768" for x by (simp add: s16_def)
  have "mcScore mc < 32768" if "scoreLegalMove us m p mi c st silent notify = Some mc" for mi
    using that s by (auto simp: scoreLegalMove_def ILLEGAL_MOVE_SCORE_def Let_def simp del: if_split split: if_split_asm)
  then show ?thesis using assms
    by (auto simp: checkScoreMove_def ILLEGAL_MOVE_SCORE_def simp del: if_split split: if_split_asm option.split_asm)
qed

text \<open>The score of a player's current move: the one noted, or else the one found by scoring the move.\<close>

definition move_score :: "userStrings \<Rightarrow> modelCtxt \<Rightarrow> nat \<Rightarrow> int option" where
  "move_score us m p = (if curMoveValid (players m ! p) then Some (curMoveScore (players m ! p))
     else map_option mcScore (checkScoreMove us m p None None True False))"

lemma getCurrentMoveScore_is:
  assumes "getCurrentMoveScoreIfLegal us m p None False = Some (legal, score, st, calls, m')"
  shows "move_score us m p = Some score" "legal \<longleftrightarrow> score \<noteq> ILLEGAL_MOVE_SCORE" "forget_scores m' = forget_scores m"
    "q \<noteq> p \<Longrightarrow> players m' ! q = players m ! q" "\<not> curMoveValid (players m ! p) \<Longrightarrow> - 1 \<le> score \<and> score < 32768"
proof -
  have "move_score us m p = Some score \<and> legal = (score \<noteq> ILLEGAL_MOVE_SCORE) \<and> forget_scores m' = forget_scores m \<and>
      (q \<noteq> p \<longrightarrow> players m' ! q = players m ! q) \<and> (\<not> curMoveValid (players m ! p) \<longrightarrow> - 1 \<le> score \<and> score < 32768)"
  proof (cases "curMoveValid (players m ! p)")
  case True
  then show ?thesis
    using assms by (auto simp: getCurrentMoveScoreIfLegal_def mem_get_def move_score_def split: if_split_asm)
next
  case False
  let ?p = "players m ! p"
  from assms False obtain mc where mc: "checkScoreMove us m p None None True False = Some mc" "p < length (players m)"
      "mcScore mc \<ge> 0 \<or> mcScore mc = ILLEGAL_MOVE_SCORE" "score = mcScore mc" "legal \<longleftrightarrow> score \<noteq> ILLEGAL_MOVE_SCORE"
      "m' = m\<lparr>players := (players m)[p := ?p\<lparr>curMoveScore := score, curMoveValid := True\<rparr>]\<rparr>"
    by (auto simp: getCurrentMoveScoreIfLegal_def scoreCurrentMove_def upd_player_def mem_get_def xp_assert_def split: if_split_asm)
  let ?f = "\<lambda>p. p\<lparr>curMoveScore := 0, curMoveValid := False\<rparr>"
  have "map ?f ((players m)[p := ?p\<lparr>curMoveScore := score, curMoveValid := True\<rparr>]) = map ?f (players m)"
    using mc(2) by (intro nth_equalityI) (auto simp: nth_list_update)
  then show ?thesis
    using mc checkScoreMove_range[OF mc(1)] False by (auto simp: move_score_def forget_scores_def ILLEGAL_MOVE_SCORE_def)
  qed
  then show "move_score us m p = Some score" "legal \<longleftrightarrow> score \<noteq> ILLEGAL_MOVE_SCORE" "forget_scores m' = forget_scores m"
    "q \<noteq> p \<Longrightarrow> players m' ! q = players m ! q" "\<not> curMoveValid (players m ! p) \<Longrightarrow> - 1 \<le> score \<and> score < 32768"
    by blast+
qed

text \<open>What the score of a move counts for: an illegal move counts as none.\<close>

definition counts_as :: "int \<Rightarrow> int" where
  "counts_as v = (if v = ILLEGAL_MOVE_SCORE then 0 else v)"

text \<open>How many tiles each player has on the board, and how many of them count in a draw.\<close>

definition pends :: "serverCtxt \<Rightarrow> nat list" where
  "pends s = map nPending (players (svModel s))"

definition draw_tiles :: "serverCtxt \<Rightarrow> u16 list \<Rightarrow> nat \<Rightarrow> nat" where
  "draw_tiles s scores p = (if scores ! p = 0 then 0 else pends s ! p)"

text \<open>Scores noted earlier are those of a move, or that of an illegal one.\<close>

definition noted_scores_ok :: "serverCtxt \<Rightarrow> bool" where
  "noted_scores_ok s \<longleftrightarrow> list_all (\<lambda>p. curMoveValid p \<longrightarrow> - 1 \<le> curMoveScore p \<and> curMoveScore p < 32768) (players (svModel s))"

lemma length_forget: "length (players (forget_scores m)) = length (players m)"
  by (simp add: forget_scores_def)

lemma forget_pends: "forget_scores (svModel s') = forget_scores (svModel s) \<Longrightarrow> pends s' = pends s"
proof -
  have "pends s = map nPending (players (forget_scores (svModel s)))" for s by (simp add: pends_def forget_scores_def comp_def)
  then show "forget_scores (svModel s') = forget_scores (svModel s) \<Longrightarrow> pends s' = pends s" by simp
qed

lemma move_score_kept:
  "forget_scores m' = forget_scores m \<Longrightarrow> players m' ! p = players m ! p \<Longrightarrow> move_score us m' p = move_score us m p"
  by (metis checkScoreMove_forget move_score_def)

lemma choose_step_worth:
  assumes step: "choose_step (s, sc, ws) p = Some (s', sc', ws')" and ok: "p < length (players (svModel s))"
    "curMoveValid (players (svModel s) ! p) \<longrightarrow> - 1 \<le> curMoveScore (players (svModel s) ! p) \<and> curMoveScore (players (svModel s) ! p) < 32768"
  obtains v w where "sc' = sc @ [w]" "move_score (pfScoreText (svUtil s)) (svModel s) p = Some v" "uint w = counts_as v"
    "ws' = consider_winner (int (unat w)) (if w = 0 then 0 else pends s ! p) p ws"
    "forget_scores (svModel s') = forget_scores (svModel s)" "svUtil s' = svUtil s"
    "\<And>q. q \<noteq> p \<Longrightarrow> players (svModel s') ! q = players (svModel s) ! q"
proof -
  from step obtain legal score calls st m n where
      run: "getCurrentMoveScoreIfLegal (pfScoreText (svUtil s)) (svModel s) p None False = Some (legal, score, st, calls, m)"
      and s': "s' = s\<lparr>svModel := m\<rparr>" "sc' = sc @ [of_int (if legal then score else 0)]"
      "ws' = consider_winner (if legal then score else 0) n p ws"
      and n: "(if (if legal then score else 0) = 0 then Some 0 else model_getCurrentMoveCount (svModel (s\<lparr>svModel := m\<rparr>)) p) = Some n"
    by (auto simp: choose_step_def Let_def ask_model_def simp del: if_split)
  note g = getCurrentMoveScore_is[OF run]
  have range: "- 1 \<le> score" "score < 32768"
    using g(1) g(5) ok(2) by (cases "curMoveValid (players (svModel s) ! p)"; simp add: move_score_def)+
  let ?v = "if legal then score else 0"
  have v: "?v = counts_as score" "0 \<le> ?v" "?v < 32768" using g(2) range by (auto simp: counts_as_def ILLEGAL_MOVE_SCORE_def)
  have w: "uint (of_int ?v :: u16) = ?v"
    using v(2,3) by (simp add: uint_word_of_int take_bit_eq_mod del: if_split)
  have pend: "pends s' = pends s" using g(3) s'(1) by (intro forget_pends) simp
  have n': "n = (if ?v = 0 then 0 else pends s ! p)"
    using n ok(1) pend s'(1)
    by (auto simp: model_getCurrentMoveCount_def pends_def mem_get_def split: if_splits) (metis length_map nth_map)+
  have z: "(of_int ?v :: u16) = 0 \<longleftrightarrow> ?v = 0" using w by (metis unsigned_0 unsigned_eq_0_iff)
  show thesis
  proof (rule that[OF s'(2) g(1)])
    show "uint (of_int ?v :: u16) = counts_as score" using w v(1) by simp
    show "ws' = consider_winner (int (unat (of_int ?v :: u16))) (if (of_int ?v :: u16) = 0 then 0 else pends s ! p) p ws"
      unfolding z n'[symmetric] s'(3) using w by (simp del: if_split)
  qed (use g s' in auto)
qed

lemma unat_u16_less: "unat (w :: u16) < 65536"
  using unsigned_less[of w, where ?'a = nat] by simp

definition worths :: "serverCtxt \<Rightarrow> u16 list \<Rightarrow> nat \<Rightarrow> (nat \<times> nat) list" where
  "worths s sc k = map (\<lambda>p. (unat (sc ! p), draw_tiles s sc p)) [0..<k]"

lemma chosen_so_far:
  assumes "noted_scores_ok s" "k \<le> length (players (svModel s))" "ofold choose_step (s, [], []) [0..<k] = Some (s', sc, ws)"
  shows "length sc = k \<and> best_so_far k (worths s sc k) ws \<and> forget_scores (svModel s') = forget_scores (svModel s) \<and>
    svUtil s' = svUtil s \<and> (\<forall>q\<ge>k. players (svModel s') ! q = players (svModel s) ! q) \<and>
    (\<forall>p<k. \<exists>v. move_score (pfScoreText (svUtil s)) (svModel s) p = Some v \<and> uint (sc ! p) = counts_as v)"
  using assms(2,3)
proof (induction k arbitrary: s' sc ws)
  case 0
  then show ?case by (simp add: best_so_far_def worths_def)
next
  case (Suc k)
  then obtain s1 sc1 ws1 where run: "ofold choose_step (s, [], []) [0..<k] = Some (s1, sc1, ws1)"
      "choose_step (s1, sc1, ws1) k = Some (s', sc, ws)"
    by (auto simp: ofold_append split: option.splits)
  have ih: "length sc1 = k" "best_so_far k (worths s sc1 k) ws1" "forget_scores (svModel s1) = forget_scores (svModel s)"
      "svUtil s1 = svUtil s" "\<And>q. k \<le> q \<Longrightarrow> players (svModel s1) ! q = players (svModel s) ! q"
      "\<And>p. p < k \<Longrightarrow> \<exists>v. move_score (pfScoreText (svUtil s)) (svModel s) p = Some v \<and> uint (sc1 ! p) = counts_as v"
    using Suc.IH[OF Suc_leD[OF Suc.prems(1)] run(1)] by blast+
  have len: "length (players (svModel s1)) = length (players (svModel s))"
    using ih(3) by (metis length_forget)
  have ok: "k < length (players (svModel s1))" using len Suc.prems(1) by simp
  have noted: "curMoveValid (players (svModel s1) ! k) \<longrightarrow> - 1 \<le> curMoveScore (players (svModel s1) ! k) \<and> curMoveScore (players (svModel s1) ! k) < 32768"
    using assms(1) ih(5)[of k] Suc.prems(1) by (simp add: noted_scores_ok_def list_all_length)
  obtain w v where w: "sc = sc1 @ [w]" "move_score (pfScoreText (svUtil s1)) (svModel s1) k = Some v" "uint w = counts_as v"
    "ws = consider_winner (int (unat w)) (if w = 0 then 0 else pends s1 ! k) k ws1"
    "forget_scores (svModel s') = forget_scores (svModel s1)" "svUtil s' = svUtil s1"
    "\<And>q. q \<noteq> k \<Longrightarrow> players (svModel s') ! q = players (svModel s1) ! q"
    by (rule choose_step_worth[OF run(2) ok noted]) (erule that, assumption+)
  have same: "worths s sc (Suc k) = worths s sc1 k @ [(unat w, if w = 0 then 0 else pends s1 ! k)]"
    using ih(1) w(1) forget_pends[OF ih(3)] by (auto simp: worths_def draw_tiles_def nth_append)
  have "best_so_far (Suc k) (worths s sc (Suc k)) ws"
    using consider_winner_best[OF ih(2) unat_u16_less[of w]] unfolding same w(4) .
  moreover have "length sc = Suc k" "forget_scores (svModel s') = forget_scores (svModel s)" "svUtil s' = svUtil s"
    using ih(1,3,4) w(1,5,6) by simp_all
  moreover have "players (svModel s') ! q = players (svModel s) ! q" if "Suc k \<le> q" for q
    using w(7)[of q] ih(5)[of q] that by simp
  moreover have "move_score (pfScoreText (svUtil s)) (svModel s) k = Some v"
    using w(2) move_score_kept[OF ih(3) ih(5)[OF order_refl]] ih(4) by simp
  then have "\<exists>v. move_score (pfScoreText (svUtil s)) (svModel s) p = Some v \<and> uint (sc ! p) = counts_as v" if "p < Suc k" for p
    using ih(1) ih(6)[of p] w(1,3) that by (cases "p = k") (simp_all add: nth_append)
  ultimately show ?case by blast
qed

text \<open>C9: The move that is committed for all players in duplicate mode is one of the best. The scores
  handed on are those of the players' moves on the board as it is: the one noted for the move, or else the
  one that scoring it gives, and 0 for a move that is not legal. No player has a higher score than the
  winner, and of those with his score none has more tiles on the board (with a score of 0 tiles do not
  count). The number of tiles reported is the winner's. Looking at the moves changes nothing of the model
  but the scores noted with them.\<close>

theorem dupe_chooseMove_best:
  assumes "dupe_chooseMove s = Some (scores, winner, nTiles, s')"
    and "noted_scores_ok s" "giNPlayers (svGi s) \<le> length (players (svModel s))"
  shows "length scores = giNPlayers (svGi s) \<and> winner < giNPlayers (svGi s) \<and>
    (\<forall>p<giNPlayers (svGi s). \<exists>v. move_score (pfScoreText (svUtil s)) (svModel s) p = Some v \<and> uint (scores ! p) = counts_as v) \<and>
    (\<forall>p<giNPlayers (svGi s). scores ! p \<le> scores ! winner) \<and>
    (\<forall>p<giNPlayers (svGi s). scores ! p = scores ! winner \<longrightarrow> draw_tiles s scores p \<le> draw_tiles s scores winner) \<and>
    nTiles = draw_tiles s scores winner \<and> forget_scores (svModel s') = forget_scores (svModel s)"
proof -
  let ?n = "giNPlayers (svGi s)"
  from assms(1) obtain s1 ws sc where fold': "ofold choose_step (s, [], []) [0..<?n] = Some (s1, sc, ws)" and ws: "ws \<noteq> []"
      and rest: "(let (ix, s2) = (if length ws = 1 then (0, s1) else (case xp_random s1 of (r, s) \<Rightarrow> (r mod length ws, s)));
                    (_, n, w) = ws ! ix in Some (sc, w, n, s2)) = Some (scores, winner, nTiles, s')"
    unfolding dupe_chooseMove_def by (auto simp del: if_split)
  obtain ix s2 where pick': "(if length ws = 1 then (0, s1) else (case xp_random s1 of (r, s) \<Rightarrow> (r mod length ws, s))) = (ix, s2)"
    by (cases "if length ws = 1 then (0, s1) else (case xp_random s1 of (r, s) \<Rightarrow> (r mod length ws, s))")
  have eqs: "s2 = s'" "sc = scores" and w: "\<exists>v. ws ! ix = (v, nTiles, winner)"
    using rest unfolding pick' by (auto split: prod.splits)
  note pick = pick'[unfolded eqs] and fold = fold'[unfolded eqs]
  have ix: "ix < length ws" using pick ws by (auto simp: xp_random_def split: if_splits)
  have same: "svModel s' = svModel s1" using pick by (auto simp: xp_random_def split: if_splits)
  obtain v where v: "(v, nTiles, winner) \<in> set ws" using w ix nth_mem by metis
  note c = chosen_so_far[OF assms(2,3) fold]
  have "case (v, nTiles, winner) of (v, n, p) \<Rightarrow> p < ?n \<and> worths s scores ?n ! p = (v, n) \<and>
      (\<forall>j<?n. worth_le (worths s scores ?n ! j) (v, n))"
    using c v unfolding best_so_far_def by blast
  then have best: "winner < ?n" "unat (scores ! winner) = v" "draw_tiles s scores winner = nTiles"
      "\<And>j. j < ?n \<Longrightarrow> worth_le (unat (scores ! j), draw_tiles s scores j) (v, nTiles)"
    by (auto simp: worths_def)
  have "scores ! p \<le> scores ! winner \<and> (scores ! p = scores ! winner \<longrightarrow> draw_tiles s scores p \<le> nTiles)" if "p < ?n" for p
    using best(4)[OF that] best(2) by (auto simp: worth_le_def word_le_nat_alt)
  then show ?thesis using best(1,3) c same by auto
qed

text \<open>Two players: the move of one is not in line, that of the other has been scored at 9.\<close>

definition scored_server :: serverCtxt where
  "scored_server = zero_server
     ((model_zero (gi_initPlayerInfo None) (\<lambda>_ _ _. BONUS_NONE))\<lparr>players :=
        [no_player\<lparr>nPending := 2, pendingTiles := [\<lparr>pcol = 1, prow = 2, ptile = 3\<rparr>, \<lparr>pcol = 2, prow = 3, ptile = 4\<rparr>]\<rparr>,
         no_player\<lparr>curMoveValid := True, curMoveScore := 9, nPending := 3\<rparr>, no_player, no_player]\<rparr>)
     \<lparr>pfSeconds = (\<lambda>n. of_nat n), pfRandom = (\<lambda>n. n), pfCanChat = (\<lambda>_. True), pfText = (\<lambda>_. [46]),
      pfScoreText = \<lparr>strTurnScore = \<lambda>_. [], strBonusAll = []\<rparr>,
      pfEngine = \<lparr>euProgress = \<lambda>_. True, euHilite = \<lambda>_. True, euLimits = \<lambda>_ _. None, euRandom = 0\<rparr>,
      pfShortName = (\<lambda>_. None), pfSkipChar = (\<lambda>_. 1)\<rparr>"

lemma scored_server_chooses:
  "map_option (\<lambda>(scores, winner, n, s). (scores, winner, n)) (dupe_chooseMove scored_server) = Some ([0, 9], 1, 3)"
  by code_simp

lemma scored_server_ok: "noted_scores_ok scored_server" "giNPlayers (svGi scored_server) \<le> length (players (svModel scored_server))"
  by code_simp+

theorem dupe_chooseMove_best_witness:
  "\<exists>s'. dupe_chooseMove scored_server = Some ([0, 9], 1, 3, s') \<and> draw_tiles scored_server [0, 9] 1 = 3 \<and>
     forget_scores (svModel s') = forget_scores (svModel scored_server)"
proof -
  obtain s' where s': "dupe_chooseMove scored_server = Some ([0, 9], 1, 3, s')"
    using scored_server_chooses by (auto simp: map_option_eq_Some)
  show ?thesis using dupe_chooseMove_best[OF s' scored_server_ok] s' by auto
qed

end
