(* ===== verification/Xw_CommsAddr.thy ===== *)
theory Xw_CommsAddr
  imports Xw_GameInfo
begin

text \<open>
  Addresses: \<open>common/commstyp.h\<close> and the functions of \<open>common/comms.c\<close> on them. An address holds a
  bit mask of the transports it has (\<open>_conTypes\<close>) with the data of each; the loops over the
  transports of an address go through \<open>types_iter\<close>. A char array is the list of the characters
  before its NUL; the rest of the array holds zeros.
\<close>

section \<open>Transports\<close>

datatype CommsConnType =
    COMMS_CONN_NONE | COMMS_CONN_IR | COMMS_CONN_IP_DIRECT | COMMS_CONN_RELAY | COMMS_CONN_BT
  | COMMS_CONN_SMS | COMMS_CONN_P2P | COMMS_CONN_NFC | COMMS_CONN_MQTT

definition COMMS_CONN_NTYPES :: nat where "COMMS_CONN_NTYPES = 9"

fun conType_number :: "CommsConnType \<Rightarrow> nat" where
  "conType_number COMMS_CONN_NONE = 0"
| "conType_number COMMS_CONN_IR = 1"
| "conType_number COMMS_CONN_IP_DIRECT = 2"
| "conType_number COMMS_CONN_RELAY = 3"
| "conType_number COMMS_CONN_BT = 4"
| "conType_number COMMS_CONN_SMS = 5"
| "conType_number COMMS_CONN_P2P = 6"
| "conType_number COMMS_CONN_NFC = 7"
| "conType_number COMMS_CONN_MQTT = 8"

definition conTypes_list :: "CommsConnType list" where
  "conTypes_list = [COMMS_CONN_NONE, COMMS_CONN_IR, COMMS_CONN_IP_DIRECT, COMMS_CONN_RELAY, COMMS_CONN_BT,
     COMMS_CONN_SMS, COMMS_CONN_P2P, COMMS_CONN_NFC, COMMS_CONN_MQTT]"

definition conType_of :: "nat \<Rightarrow> CommsConnType" where
  "conType_of n = conTypes_list ! n"

definition type_mask :: "nat \<Rightarrow> u16" where
  "type_mask typ = push_bit (typ - 1) 1"

text \<open>The loop of \<open>types_iter\<close>: the next transport after \<open>typ\<close>, or \<open>COMMS_CONN_NTYPES\<close>.\<close>

function types_next :: "u16 \<Rightarrow> nat \<Rightarrow> nat" where
  "types_next conTypes typ =
     (let typ = typ + 1
      in if typ < COMMS_CONN_NTYPES
         then (if type_mask typ = (conTypes AND type_mask typ) then typ else types_next conTypes typ)
         else typ)"
  by pat_completeness auto
termination
  by (relation "measure (\<lambda>(conTypes, typ). COMMS_CONN_NTYPES - typ)") auto

declare types_next.simps [simp del]

definition types_iter :: "u16 \<Rightarrow> nat \<Rightarrow> (CommsConnType option \<times> nat) option" where
  "types_iter conTypes state = do {
     xp_assert (state < COMMS_CONN_NTYPES);
     let typ = types_next conTypes state;
     Some (if typ < COMMS_CONN_NTYPES then (Some (conType_of typ), typ)
           else (None, COMMS_CONN_NTYPES - 1))
   }"

text \<open>The transports that \<open>for ( st = 0; types_iter(...); )\<close> visits.\<close>

lemma types_next_bounds: "st < types_next conTypes st"
proof (induction conTypes st rule: types_next.induct)
  case (1 c st)
  show ?case
    using 1 by (subst types_next.simps) (auto simp: Let_def)
qed

function iter_types :: "u16 \<Rightarrow> nat \<Rightarrow> CommsConnType list" where
  "iter_types conTypes state =
     (case types_iter conTypes state of
        Some (Some typ, st) \<Rightarrow> typ # iter_types conTypes st
      | Some (None, st) \<Rightarrow> []
      | None \<Rightarrow> [])"
  by pat_completeness auto
termination
  by (relation "measure (\<lambda>(conTypes, st). COMMS_CONN_NTYPES - st)")
    (auto simp: types_iter_def Let_def types_next_bounds diff_less_mono2 split: if_splits)

declare iter_types.simps [simp del]

definition types_hasType :: "u16 \<Rightarrow> CommsConnType \<Rightarrow> bool" where
  "types_hasType conTypes typ \<longleftrightarrow>
     COMMS_CONN_NONE = typ \<or> 0 \<noteq> (conTypes AND type_mask (conType_number typ))"

definition types_addType :: "u16 \<Rightarrow> CommsConnType \<Rightarrow> u16 option" where
  "types_addType conTypes typ = do {
     xp_assert (COMMS_CONN_NONE \<noteq> typ);
     Some (conTypes OR type_mask (conType_number typ))
   }"

section \<open>Addresses\<close>

type_synonym MQTTDevID = "64 word"

record ip_part =
  ip_hostName :: "u8 list"
  ip_ipAddr :: u32
  ip_port :: u16

record relay_part =
  relay_invite :: "u8 list"
  relay_hostName :: "u8 list"
  relay_ipAddr :: u32
  relay_port :: u16
  seeksPublicRoom :: bool
  advertiseRoom :: bool

record bt_part =
  bt_hostName :: "u8 list"
  bt_btAddr :: "u8 list"

record sms_part =
  sms_phone :: "u8 list"
  sms_port :: u16

record CommsAddrRec =
  addrConTypes :: u16
  u_ip :: ip_part
  u_ip_relay :: relay_part
  u_bt :: bt_part
  u_sms :: sms_part
  u_mqtt_devID :: MQTTDevID
  u_p2p_mac_addr :: "u8 list"

definition MAX_HOSTNAME_LEN :: nat where "MAX_HOSTNAME_LEN = 63"
definition MAX_PHONE_LEN :: nat where "MAX_PHONE_LEN = 31"
definition MAX_P2P_MAC_LEN :: nat where "MAX_P2P_MAC_LEN = 17"
definition MAX_INVITE_LEN :: nat where "MAX_INVITE_LEN = 31"
definition BT_ADDR_SIZE :: nat where "BT_ADDR_SIZE = 18"
definition STREAM_VERS_COMMSBACKOFF :: nat where "STREAM_VERS_COMMSBACKOFF = 0x16"
definition STREAM_VERS_CHANNELSEED :: nat where "STREAM_VERS_CHANNELSEED = 0x09"
definition STREAM_VERS_DISABLEDS :: nat where "STREAM_VERS_DISABLEDS = 0x1A"

lemmas addr_sizes = MAX_HOSTNAME_LEN_def MAX_PHONE_LEN_def MAX_P2P_MAC_LEN_def MAX_INVITE_LEN_def
  BT_ADDR_SIZE_def

definition zero_addr :: CommsAddrRec where
  "zero_addr = \<lparr>addrConTypes = 0, u_ip = \<lparr>ip_hostName = [], ip_ipAddr = 0, ip_port = 0\<rparr>,
     u_ip_relay = \<lparr>relay_invite = [], relay_hostName = [], relay_ipAddr = 0, relay_port = 0,
                  seeksPublicRoom = False, advertiseRoom = False\<rparr>,
     u_bt = \<lparr>bt_hostName = [], bt_btAddr = []\<rparr>, u_sms = \<lparr>sms_phone = [], sms_port = 0\<rparr>,
     u_mqtt_devID = 0, u_p2p_mac_addr = []\<rparr>"

definition addr_types :: "CommsAddrRec \<Rightarrow> CommsConnType list" where
  "addr_types addr = iter_types (addrConTypes addr) 0"

definition addr_iter :: "CommsAddrRec \<Rightarrow> nat \<Rightarrow> (CommsConnType option \<times> nat) option" where
  "addr_iter addr state = types_iter (addrConTypes addr) state"

definition addr_hasType :: "CommsAddrRec \<Rightarrow> CommsConnType \<Rightarrow> bool" where
  "addr_hasType addr typ = types_hasType (addrConTypes addr) typ"

text \<open>An address with two transports fires the assertion.\<close>

definition addr_getType :: "CommsAddrRec \<Rightarrow> CommsConnType option" where
  "addr_getType addr = do {
     (r, st) \<leftarrow> addr_iter addr 0;
     let typ = (case r of Some typ \<Rightarrow> typ | None \<Rightarrow> COMMS_CONN_NONE);
     (r, st) \<leftarrow> addr_iter addr st;
     xp_assert (r = None);
     Some typ
   }"

definition addr_addType :: "CommsAddrRec \<Rightarrow> CommsConnType \<Rightarrow> CommsAddrRec option" where
  "addr_addType addr typ = do {
     ts \<leftarrow> types_addType (addrConTypes addr) typ;
     Some (addr\<lparr>addrConTypes := ts\<rparr>)
   }"

definition addr_rmType :: "CommsAddrRec \<Rightarrow> CommsConnType \<Rightarrow> CommsAddrRec option" where
  "addr_rmType addr typ = do {
     xp_assert (COMMS_CONN_NONE \<noteq> typ);
     Some (addr\<lparr>addrConTypes := addrConTypes addr AND NOT (type_mask (conType_number typ))\<rparr>)
   }"

definition addr_setType :: "CommsAddrRec \<Rightarrow> CommsConnType \<Rightarrow> CommsAddrRec option" where
  "addr_setType addr typ = do {
     let flags = (if COMMS_CONN_NONE \<noteq> typ then type_mask (conType_number typ) else 0);
     let addr = addr\<lparr>addrConTypes := flags\<rparr>;
     t \<leftarrow> addr_getType addr;
     xp_assert (typ = t);
     Some addr
   }"

definition RELAY_ROOM_DEFAULT :: "u8 list" where
  "RELAY_ROOM_DEFAULT = [82, 111, 111, 109, 32, 49]"

definition comms_getInitialAddr :: "CommsAddrRec \<Rightarrow> u8 list \<Rightarrow> u16 \<Rightarrow> CommsAddrRec option" where
  "comms_getInitialAddr addr relayName relayPort = do {
     addr \<leftarrow> addr_setType addr COMMS_CONN_RELAY;
     xp_assert (length relayName \<le> MAX_HOSTNAME_LEN);
     Some (addr\<lparr>u_ip_relay := \<lparr>relay_invite = RELAY_ROOM_DEFAULT, relay_hostName = relayName, relay_ipAddr = 0,
                            relay_port = relayPort, seeksPublicRoom = False, advertiseRoom = False\<rparr>\<rparr>)
   }"

text \<open>The second result is whether the user is told that the address of the host is needed.\<close>

definition comms_checkAddr :: "nat \<Rightarrow> CommsAddrRec \<Rightarrow> bool \<Rightarrow> bool \<times> bool" where
  "comms_checkAddr role addr hasUtil =
     (if role = SERVER_ISCLIENT \<and> addr_hasType addr COMMS_CONN_BT \<and> bt_btAddr (u_bt addr) = []
      then (False, hasUtil) else (True, False))"

definition comms_checkComplete :: "CommsAddrRec \<Rightarrow> bool option" where
  "comms_checkComplete addr = do {
     typ \<leftarrow> addr_getType addr;
     Some (case typ of
       COMMS_CONN_RELAY \<Rightarrow> relay_invite (u_ip_relay addr) \<noteq> [] \<and> relay_hostName (u_ip_relay addr) \<noteq> []
                          \<and> (relay_port (u_ip_relay addr) \<noteq> 0)
     | _ \<Rightarrow> True)
   }"

text \<open>A transport of \<open>srcAddr\<close> is added to \<open>destAddr\<close> with its data. There is no case for
  infrared and for a direct IP connection.\<close>

definition augment_one :: "CommsAddrRec \<Rightarrow> CommsAddrRec \<Rightarrow> CommsConnType \<Rightarrow> CommsAddrRec option" where
  "augment_one srcAddr destAddr typ = do {
     destAddr \<leftarrow> (if \<not> addr_hasType destAddr typ then addr_addType destAddr typ else Some destAddr);
     case typ of
       COMMS_CONN_RELAY \<Rightarrow> Some (destAddr\<lparr>u_ip_relay := u_ip_relay srcAddr\<rparr>)
     | COMMS_CONN_SMS \<Rightarrow> do {
         xp_assert (0 \<noteq> sms_port (u_sms srcAddr));
         xp_assert (sms_phone (u_sms srcAddr) \<noteq> []);
         Some (destAddr\<lparr>u_sms := u_sms srcAddr\<rparr>)
       }
     | COMMS_CONN_P2P \<Rightarrow> do {
         xp_assert (u_p2p_mac_addr srcAddr \<noteq> []);
         Some (destAddr\<lparr>u_p2p_mac_addr := u_p2p_mac_addr srcAddr\<rparr>)
       }
     | COMMS_CONN_BT \<Rightarrow> Some (destAddr\<lparr>u_bt := u_bt srcAddr\<rparr>)
     | COMMS_CONN_NFC \<Rightarrow> Some destAddr
     | COMMS_CONN_MQTT \<Rightarrow> Some (destAddr\<lparr>u_mqtt_devID := u_mqtt_devID srcAddr\<rparr>)
     | _ \<Rightarrow> None
   }"

definition augmentAddr :: "CommsAddrRec \<Rightarrow> CommsAddrRec option \<Rightarrow> CommsAddrRec option" where
  "augmentAddr destAddr srcAddr =
     (case srcAddr of
        None \<Rightarrow> Some destAddr
      | Some src \<Rightarrow> ofold (augment_one src) destAddr (addr_types src))"

section \<open>Addresses on streams\<close>

text \<open>The bytes of a 64-bit integer in the memory of a little-endian machine.\<close>

definition le_bytes :: "MQTTDevID \<Rightarrow> u8 list" where
  "le_bytes w = map (\<lambda>i. ucast (drop_bit (8 * i) w)) [0..<8]"

definition le_word :: "u8 list \<Rightarrow> MQTTDevID" where
  "le_word bs = foldr (\<lambda>b w. push_bit 8 w OR ucast b) bs 0"

definition addrFromStreamOne :: "mem_stream \<Rightarrow> CommsAddrRec \<Rightarrow> CommsConnType \<Rightarrow> (CommsAddrRec \<times> mem_stream) option" where
  "addrFromStreamOne stream addr typ = do {
     let version = mem_stream_getVersion stream;
     case typ of
       COMMS_CONN_BT \<Rightarrow> do {
         (h, stream) \<leftarrow> stringFromStreamHere stream (MAX_HOSTNAME_LEN + 1);
         (b, stream) \<leftarrow> stringFromStreamHere stream BT_ADDR_SIZE;
         Some (addr\<lparr>u_bt := \<lparr>bt_hostName = h, bt_btAddr = b\<rparr>\<rparr>, stream)
       }
     | COMMS_CONN_IP_DIRECT \<Rightarrow> do {
         (h, stream) \<leftarrow> stringFromStreamHere stream (MAX_HOSTNAME_LEN + 1);
         (a, stream) \<leftarrow> mem_stream_getU32 stream;
         (p, stream) \<leftarrow> mem_stream_getU16 stream;
         Some (addr\<lparr>u_ip := \<lparr>ip_hostName = h, ip_ipAddr = a, ip_port = p\<rparr>\<rparr>, stream)
       }
     | COMMS_CONN_RELAY \<Rightarrow> do {
         (i, stream) \<leftarrow> stringFromStreamHere stream (MAX_INVITE_LEN + 1);
         (h, stream) \<leftarrow> stringFromStreamHere stream (MAX_HOSTNAME_LEN + 1);
         (a, stream) \<leftarrow> mem_stream_getU32 stream;
         (p, stream) \<leftarrow> mem_stream_getU16 stream;
         let relay = (u_ip_relay addr)\<lparr>relay_invite := i, relay_hostName := h, relay_ipAddr := a, relay_port := p\<rparr>;
         if version \<ge> STREAM_VERS_DICTLANG then do {
           (s, stream) \<leftarrow> mem_stream_getBits stream 1;
           (v, stream) \<leftarrow> mem_stream_getBits stream 1;
           Some (addr\<lparr>u_ip_relay := relay\<lparr>seeksPublicRoom := (s \<noteq> 0), advertiseRoom := (v \<noteq> 0)\<rparr>\<rparr>, stream)
         } else Some (addr\<lparr>u_ip_relay := relay\<rparr>, stream)
       }
     | COMMS_CONN_SMS \<Rightarrow> do {
         (p, stream) \<leftarrow> stringFromStreamHere stream (MAX_PHONE_LEN + 1);
         (n, stream) \<leftarrow> mem_stream_getU16 stream;
         Some (addr\<lparr>u_sms := \<lparr>sms_phone = p, sms_port = n\<rparr>\<rparr>, stream)
       }
     | COMMS_CONN_P2P \<Rightarrow> do {
         (m, stream) \<leftarrow> stringFromStreamHere stream (MAX_P2P_MAC_LEN + 1);
         Some (addr\<lparr>u_p2p_mac_addr := m\<rparr>, stream)
       }
     | COMMS_CONN_MQTT \<Rightarrow> do {
         (bs, stream) \<leftarrow> mem_stream_getBytes stream 8;
         Some (addr\<lparr>u_mqtt_devID := le_word bs\<rparr>, stream)
       }
     | _ \<Rightarrow> Some (addr, stream)
   }"

text \<open>Before \<open>STREAM_VERS_MULTIADDR\<close> the byte was the number of the only transport. A transport
  that the loop cannot name (a bit above those of \<open>CommsConnType\<close>) is skipped.\<close>

definition addrFromStream :: "CommsAddrRec \<Rightarrow> mem_stream \<Rightarrow> (CommsAddrRec \<times> mem_stream) option" where
  "addrFromStream addr stream = do {
     (tmp, stream) \<leftarrow> mem_stream_getU8 stream;
     let tmp = (if STREAM_VERS_MULTIADDR > mem_stream_getVersion stream \<and> tmp \<noteq> 0
                then push_bit (unat tmp - 1) 1 else tmp);
     let addr = addr\<lparr>addrConTypes := ucast tmp\<rparr>;
     ofold (\<lambda>(addr, stream) typ. addrFromStreamOne stream addr typ) (addr, stream) (addr_types addr)
   }"

definition addrToStreamOne :: "mem_stream \<Rightarrow> CommsConnType \<Rightarrow> CommsAddrRec \<Rightarrow> mem_stream option" where
  "addrToStreamOne stream typ addr =
     (case typ of
        COMMS_CONN_BT \<Rightarrow> do {
          stream \<leftarrow> stringToStream stream (Some (bt_hostName (u_bt addr)));
          stringToStream stream (Some (bt_btAddr (u_bt addr)))
        }
      | COMMS_CONN_IP_DIRECT \<Rightarrow> do {
          stream \<leftarrow> stringToStream stream (Some (ip_hostName (u_ip addr)));
          stream \<leftarrow> mem_stream_putU32 stream (ip_ipAddr (u_ip addr));
          mem_stream_putU16 stream (ip_port (u_ip addr))
        }
      | COMMS_CONN_RELAY \<Rightarrow> do {
          stream \<leftarrow> stringToStream stream (Some (relay_invite (u_ip_relay addr)));
          stream \<leftarrow> stringToStream stream (Some (relay_hostName (u_ip_relay addr)));
          stream \<leftarrow> mem_stream_putU32 stream (relay_ipAddr (u_ip_relay addr));
          stream \<leftarrow> mem_stream_putU16 stream (relay_port (u_ip_relay addr));
          stream \<leftarrow> mem_stream_putBits stream 1 (of_bool (seeksPublicRoom (u_ip_relay addr)));
          mem_stream_putBits stream 1 (of_bool (advertiseRoom (u_ip_relay addr)))
        }
      | COMMS_CONN_SMS \<Rightarrow> do {
          stream \<leftarrow> stringToStream stream (Some (sms_phone (u_sms addr)));
          mem_stream_putU16 stream (sms_port (u_sms addr))
        }
      | COMMS_CONN_P2P \<Rightarrow> stringToStream stream (Some (u_p2p_mac_addr addr))
      | COMMS_CONN_MQTT \<Rightarrow> mem_stream_putBytes stream (le_bytes (u_mqtt_devID addr))
      | _ \<Rightarrow> Some stream)"

definition addrToStream :: "mem_stream \<Rightarrow> CommsAddrRec \<Rightarrow> mem_stream option" where
  "addrToStream stream addr = do {
     stream \<leftarrow> mem_stream_setVersion stream CUR_STREAM_VERS;
     stream \<leftarrow> mem_stream_putU8 stream (ucast (addrConTypes addr));
     ofold (\<lambda>stream typ. addrToStreamOne stream typ addr) stream (addr_types addr)
   }"

end
