(* ===== verification/Xw_Comms.thy ===== *)
theory Xw_Comms
  imports Xw_CommsAddr Xw_Score
begin

text \<open>
  The connection layer, \<open>common/comms.c\<close>: the records of the channels to other devices with their
  message numbers, the queue of messages that have not been acknowledged, sending and resending,
  the relay's commands.

  \<open>TransportProcs\<close> and what else the code asks of the platform is the record \<open>transport\<close>; the
  answer to the k-th question is a function of k and of what is asked. What the code tells the
  platform is an event, kept in \<open>cm_out\<close>, oldest first. The memory address of an
  \<open>AddressRecord\<close> is the number \<open>ar_id\<close>. The count of sends of a message, which only log output
  reads, is left out.
\<close>

section \<open>State\<close>

datatype CommsRelayState =
    COMMS_RELAYSTATE_UNCONNECTED | COMMS_RELAYSTATE_DENIED | COMMS_RELAYSTATE_CONNECT_PENDING
  | COMMS_RELAYSTATE_CONNECTED | COMMS_RELAYSTATE_RECONNECTED | COMMS_RELAYSTATE_ALLCONNECTED

fun relayState_number :: "CommsRelayState \<Rightarrow> nat" where
  "relayState_number COMMS_RELAYSTATE_UNCONNECTED = 0"
| "relayState_number COMMS_RELAYSTATE_DENIED = 1"
| "relayState_number COMMS_RELAYSTATE_CONNECT_PENDING = 2"
| "relayState_number COMMS_RELAYSTATE_CONNECTED = 3"
| "relayState_number COMMS_RELAYSTATE_RECONNECTED = 4"
| "relayState_number COMMS_RELAYSTATE_ALLCONNECTED = 5"

text \<open>\<open>relay/xwrelay.h\<close>.\<close>

datatype XWRELAY_Cmd =
    XWRELAY_NONE | XWRELAY_GAME_CONNECT | XWRELAY_GAME_RECONNECT | XWRELAY_ACK | XWRELAY_GAME_DISCONNECT
  | XWRELAY_CONNECT_RESP | XWRELAY_RECONNECT_RESP | XWRELAY_ALLHERE | XWRELAY_ALLBACK__UNUSED
  | XWRELAY_DISCONNECT_YOU | XWRELAY_DISCONNECT_OTHER | XWRELAY_CONNECTDENIED | XWRELAY_HEARTBEAT
  | XWRELAY_MSG_FROMRELAY | XWRELAY_MSG_TORELAY | XWRELAY_MSG_STATUS | XWRELAY_MSG_TORELAY_NOCONN
  | XWRELAY_MSG_FROMRELAY_NOCONN | XWRELAY_NUMBER nat

definition relay_cmds :: "XWRELAY_Cmd list" where
  "relay_cmds =
     [XWRELAY_NONE, XWRELAY_GAME_CONNECT, XWRELAY_GAME_RECONNECT, XWRELAY_ACK, XWRELAY_GAME_DISCONNECT,
      XWRELAY_CONNECT_RESP, XWRELAY_RECONNECT_RESP, XWRELAY_ALLHERE, XWRELAY_ALLBACK__UNUSED,
      XWRELAY_DISCONNECT_YOU, XWRELAY_DISCONNECT_OTHER, XWRELAY_CONNECTDENIED, XWRELAY_HEARTBEAT,
      XWRELAY_MSG_FROMRELAY, XWRELAY_MSG_TORELAY, XWRELAY_MSG_STATUS, XWRELAY_MSG_TORELAY_NOCONN,
      XWRELAY_MSG_FROMRELAY_NOCONN]"

definition relayCmd_of :: "nat \<Rightarrow> XWRELAY_Cmd" where
  "relayCmd_of n = (if n < length relay_cmds then relay_cmds ! n else XWRELAY_NUMBER n)"

fun relayCmd_number :: "XWRELAY_Cmd \<Rightarrow> nat" where
  "relayCmd_number XWRELAY_NONE = 0"
| "relayCmd_number XWRELAY_GAME_CONNECT = 1"
| "relayCmd_number XWRELAY_GAME_RECONNECT = 2"
| "relayCmd_number XWRELAY_ACK = 3"
| "relayCmd_number XWRELAY_GAME_DISCONNECT = 4"
| "relayCmd_number XWRELAY_CONNECT_RESP = 5"
| "relayCmd_number XWRELAY_RECONNECT_RESP = 6"
| "relayCmd_number XWRELAY_ALLHERE = 7"
| "relayCmd_number XWRELAY_ALLBACK__UNUSED = 8"
| "relayCmd_number XWRELAY_DISCONNECT_YOU = 9"
| "relayCmd_number XWRELAY_DISCONNECT_OTHER = 10"
| "relayCmd_number XWRELAY_CONNECTDENIED = 11"
| "relayCmd_number XWRELAY_HEARTBEAT = 12"
| "relayCmd_number XWRELAY_MSG_FROMRELAY = 13"
| "relayCmd_number XWRELAY_MSG_TORELAY = 14"
| "relayCmd_number XWRELAY_MSG_STATUS = 15"
| "relayCmd_number XWRELAY_MSG_TORELAY_NOCONN = 16"
| "relayCmd_number XWRELAY_MSG_FROMRELAY_NOCONN = 17"
| "relayCmd_number (XWRELAY_NUMBER n) = n"

definition CHANNEL_MASK :: u16 where "CHANNEL_MASK = 0x0003"
definition CHANNEL_NONE :: u16 where "CHANNEL_NONE = 0"
definition CONN_ID_NONE :: u32 where "CONN_ID_NONE = 0"
definition HOST_ID_NONE :: u8 where "HOST_ID_NONE = 0"
definition HOST_ID_SERVER :: u8 where "HOST_ID_SERVER = 1"
definition COOKIE_ID_NONE :: u16 where "COOKIE_ID_NONE = 0"
definition MAX_CONNNAME_LEN :: nat where "MAX_CONNNAME_LEN = 48"
definition MAX_DEVID_LEN :: nat where "MAX_DEVID_LEN = 8"
definition XWRELAY_PROTO_VERSION :: u8 where "XWRELAY_PROTO_VERSION = 6"
definition XWRELAY_ERROR_NORECONN :: u8 where "XWRELAY_ERROR_NORECONN = 14"
definition XWRELAY_ERROR_LASTERR :: u8 where "XWRELAY_ERROR_LASTERR = 16"
definition INITIAL_CLIENT_VERS :: u16 where "INITIAL_CLIENT_VERS = 3"
definition ID_TYPE_NONE :: u8 where "ID_TYPE_NONE = 0"
definition ID_TYPE_NTYPES :: u8 where "ID_TYPE_NTYPES = 7"
definition HAS_VERSION_FLAG :: u16 where "HAS_VERSION_FLAG = 0xBEEF"
definition IS_SERVER_BIT :: u16 where "IS_SERVER_BIT = 0x0010"
definition COMMS_XPORT_FLAGS_HASNOCONN :: u32 where "COMMS_XPORT_FLAGS_HASNOCONN = 1"

text \<open>\<open>BTIPMsgType\<close>: only \<open>BTIPMSG_RESET\<close> is sent.\<close>

definition BTIPMSG_RESET :: u8 where "BTIPMSG_RESET = 2"

lemmas comms_consts = CHANNEL_MASK_def CHANNEL_NONE_def CONN_ID_NONE_def HOST_ID_NONE_def HOST_ID_SERVER_def
  COOKIE_ID_NONE_def

record MsgQueueElem =
  qe_msg :: "u8 list"
  qe_channelNo :: u16
  qe_msgID :: u32

record AddressRecord =
  ar_id :: nat
  ar_addr :: CommsAddrRec
  ar_nextMsgID :: u32
  ar_lastMsgAckd :: u32
  ar_lastMsgRcd :: u32
  ar_lastMsgSaved :: u32
  ar_channelNo :: u16
  ar_hostID :: u8

text \<open>\<open>tp_sendNoConn\<close> may be a null pointer. \<open>tp_devID\<close> is the kind of the device's id with its text.\<close>

record transport =
  tp_flags :: u32
  tp_send :: "nat \<Rightarrow> u8 list \<Rightarrow> CommsAddrRec option \<Rightarrow> CommsConnType \<Rightarrow> int"
  tp_sendNoConn :: "(nat \<Rightarrow> u8 list \<Rightarrow> bool) option"
  tp_hasStatus :: bool
  tp_seconds :: "nat \<Rightarrow> u32"
  tp_random :: "nat \<Rightarrow> nat"
  tp_devID :: "u8 \<times> u8 list"

datatype commsEvent =
    CEvSend "u8 list" "u8 list option" "CommsAddrRec option" CommsConnType u32
  | CEvSendNoConn "u8 list" "u8 list" "u8 list"
  | CEvRelayStatus CommsRelayState
  | CEvRelayConnd "u8 list" bool u8 bool u16
  | CEvRelayError u8
  | CEvCountChanged nat
  | CEvUserError u8
  | CEvSetIsServer bool
  | CEvAddrChange CommsAddrRec CommsAddrRec
  | CEvSetTimer nat
  | CEvClearTimer
  | CEvDeviceRegistered u8 "u8 list"

record CommsCtxt =
  cm_procs :: transport
  cm_gi :: curGameInfo
  cm_connID :: u32
  cm_nextChannelNo :: u16
  cm_recs :: "AddressRecord list"
  cm_xportFlags :: u32
  cm_msgQueue :: "MsgQueueElem list"
  cm_queueLen :: nat
  cm_channelSeed :: u16
  cm_nextResend :: u32
  cm_resendBackoff :: u16
  cm_hbTimerPending :: bool
  cm_reconTimerPending :: bool
  cm_lastSaveToken :: u16
  cm_forceChannel :: u16
  cm_addr :: CommsAddrRec
  cm_myHostID :: u8
  cm_relayState :: CommsRelayState
  cm_cookieID :: u16
  cm_connName :: "u8 list"
  cm_heartbeat :: u16
  cm_nPlayersHere :: nat
  cm_nPlayersTotal :: nat
  cm_connecting :: bool
  cm_isServer :: bool
  cm_disableds :: "bool list list"
  cm_processingMsg :: bool
  cm_out :: "commsEvent list"
  cm_nSends :: nat
  cm_nNoConns :: nat
  cm_nSeconds :: nat
  cm_nRandom :: nat
  cm_nRecs :: nat

definition zero_comms :: "transport \<Rightarrow> curGameInfo \<Rightarrow> CommsCtxt" where
  "zero_comms procs ginfo =
     \<lparr>cm_procs = procs, cm_gi = ginfo, cm_connID = 0, cm_nextChannelNo = 0, cm_recs = [], cm_xportFlags = 0,
      cm_msgQueue = [], cm_queueLen = 0, cm_channelSeed = 0, cm_nextResend = 0, cm_resendBackoff = 0,
      cm_hbTimerPending = False, cm_reconTimerPending = False, cm_lastSaveToken = 0, cm_forceChannel = 0,
      cm_addr = zero_addr, cm_myHostID = 0, cm_relayState = COMMS_RELAYSTATE_UNCONNECTED, cm_cookieID = 0,
      cm_connName = [], cm_heartbeat = 0, cm_nPlayersHere = 0, cm_nPlayersTotal = 0, cm_connecting = False,
      cm_isServer = False, cm_disableds = replicate COMMS_CONN_NTYPES [False, False], cm_processingMsg = False,
      cm_out = [], cm_nSends = 0, cm_nNoConns = 0, cm_nSeconds = 0, cm_nRandom = 0, cm_nRecs = 0\<rparr>"

section \<open>The platform\<close>

definition comms_emit :: "commsEvent \<Rightarrow> CommsCtxt \<Rightarrow> CommsCtxt" where
  "comms_emit ev comms = comms\<lparr>cm_out := cm_out comms @ [ev]\<rparr>"

definition procs_send ::
    "u8 list \<Rightarrow> u8 list option \<Rightarrow> CommsAddrRec option \<Rightarrow> CommsConnType \<Rightarrow> u32 \<Rightarrow> CommsCtxt \<Rightarrow> int \<times> CommsCtxt" where
  "procs_send buf msgNo addr typ gid comms =
     (tp_send (cm_procs comms) (cm_nSends comms) buf addr typ,
      comms_emit (CEvSend buf msgNo addr typ gid) (comms\<lparr>cm_nSends := cm_nSends comms + 1\<rparr>))"

definition comms_seconds :: "CommsCtxt \<Rightarrow> u32 \<times> CommsCtxt" where
  "comms_seconds comms = (tp_seconds (cm_procs comms) (cm_nSeconds comms), comms\<lparr>cm_nSeconds := cm_nSeconds comms + 1\<rparr>)"

definition comms_random :: "CommsCtxt \<Rightarrow> nat \<times> CommsCtxt" where
  "comms_random comms = (tp_random (cm_procs comms) (cm_nRandom comms), comms\<lparr>cm_nRandom := cm_nRandom comms + 1\<rparr>)"

definition notifyQueueChanged :: "CommsCtxt \<Rightarrow> CommsCtxt" where
  "notifyQueueChanged comms = comms_emit (CEvCountChanged (cm_queueLen comms)) comms"

definition set_relay_state :: "CommsRelayState \<Rightarrow> CommsCtxt \<Rightarrow> CommsCtxt" where
  "set_relay_state state comms =
     (if cm_relayState comms \<noteq> state then
        let comms = comms\<lparr>cm_relayState := state\<rparr>
        in if tp_hasStatus (cm_procs comms) then comms_emit (CEvRelayStatus state) comms else comms
      else comms)"

definition init_relay :: "nat \<Rightarrow> nat \<Rightarrow> CommsCtxt \<Rightarrow> CommsCtxt" where
  "init_relay nPlayersHere nPlayersTotal comms =
     (let comms = comms\<lparr>cm_myHostID := (if cm_isServer comms then HOST_ID_SERVER else HOST_ID_NONE)\<rparr>;
          comms = set_relay_state COMMS_RELAYSTATE_UNCONNECTED comms
      in comms\<lparr>cm_nPlayersHere := nPlayersHere, cm_nPlayersTotal := nPlayersTotal,
               cm_cookieID := COOKIE_ID_NONE, cm_connName := []\<rparr>)"

definition comms_make :: "transport \<Rightarrow> curGameInfo \<Rightarrow> bool \<Rightarrow> nat \<Rightarrow> nat \<Rightarrow> u16 \<Rightarrow> CommsCtxt option" where
  "comms_make procs ginfo isServer nPlayersHere nPlayersTotal forceChan = do {
     let comms = zero_comms procs ginfo;
     xp_assert (0 = forceChan AND NOT CHANNEL_MASK);
     let comms = comms\<lparr>cm_isServer := isServer, cm_forceChannel := forceChan, cm_xportFlags := tp_flags procs\<rparr>;
     Some (init_relay nPlayersHere nPlayersTotal comms)
   }"

definition comms_setAddrDisabled :: "CommsConnType \<Rightarrow> bool \<Rightarrow> bool \<Rightarrow> CommsCtxt \<Rightarrow> CommsCtxt option" where
  "comms_setAddrDisabled typ send disabled comms = do {
     row \<leftarrow> mem_get (conType_number typ) (cm_disableds comms);
     row \<leftarrow> mem_put (if send then 0 else 1) disabled row;
     rows \<leftarrow> mem_put (conType_number typ) row (cm_disableds comms);
     Some (comms\<lparr>cm_disableds := rows\<rparr>)
   }"

definition comms_getAddrDisabled :: "CommsCtxt \<Rightarrow> CommsConnType \<Rightarrow> bool \<Rightarrow> bool option" where
  "comms_getAddrDisabled comms typ send = do {
     row \<leftarrow> mem_get (conType_number typ) (cm_disableds comms);
     mem_get (if send then 0 else 1) row
   }"

text \<open>The id of the game; that of the game information is set when it has none.\<close>

definition comms_gameID :: "CommsCtxt \<Rightarrow> u32 \<times> CommsCtxt" where
  "comms_gameID comms =
     (let gid = (if 0 = cm_connID comms then gameID (cm_gi comms) else cm_connID comms)
      in if gid \<noteq> 0 \<and> 0 = gameID (cm_gi comms) then (gid, comms\<lparr>cm_gi := (cm_gi comms)\<lparr>gameID := gid\<rparr>\<rparr>)
         else (gid, comms))"

text \<open>The loop draws until bits above those of the channel are set; nothing bounds it.\<close>

partial_function (option) channelSeed_loop :: "u16 \<Rightarrow> CommsCtxt \<Rightarrow> (u16 \<times> CommsCtxt) option" where
  "channelSeed_loop result comms =
     (if 0 = result AND NOT CHANNEL_MASK then
        (let (r, comms) = comms_random comms;
             result = (of_nat r AND NOT CHANNEL_MASK) OR cm_forceChannel comms
         in channelSeed_loop result (comms\<lparr>cm_channelSeed := result\<rparr>))
      else Some (result, comms))"

declare channelSeed_loop.simps [code]

definition comms_getChannelSeed :: "CommsCtxt \<Rightarrow> (u16 \<times> CommsCtxt) option" where
  "comms_getChannelSeed comms = channelSeed_loop (cm_channelSeed comms) comms"

section \<open>Records\<close>

text \<open>The address that is passed here plays no part: the code that compared addresses follows a
  \<open>continue\<close>.\<close>

definition getRecordFor :: "CommsCtxt \<Rightarrow> u16 \<Rightarrow> bool \<Rightarrow> AddressRecord option" where
  "getRecordFor comms chan maskChannel =
     (let mask = (if maskChannel then NOT CHANNEL_MASK else NOT 0)
      in find (\<lambda>rec. (ar_channelNo rec AND mask) = (chan AND mask)) (cm_recs comms))"

definition upd_rec :: "nat \<Rightarrow> (AddressRecord \<Rightarrow> AddressRecord) \<Rightarrow> CommsCtxt \<Rightarrow> CommsCtxt" where
  "upd_rec p f comms = comms\<lparr>cm_recs := map (\<lambda>rec. if ar_id rec = p then f rec else rec) (cm_recs comms)\<rparr>"

definition channelToAddress :: "CommsCtxt \<Rightarrow> u16 \<Rightarrow> CommsAddrRec option" where
  "channelToAddress comms chan = map_option ar_addr (getRecordFor comms chan False)"

definition countAddrRecs :: "CommsCtxt \<Rightarrow> nat" where
  "countAddrRecs comms = length (cm_recs comms)"

definition cleanupInternal :: "CommsCtxt \<Rightarrow> CommsCtxt" where
  "cleanupInternal comms = comms\<lparr>cm_queueLen := 0, cm_msgQueue := []\<rparr>"

definition cleanupAddrRecs :: "CommsCtxt \<Rightarrow> CommsCtxt" where
  "cleanupAddrRecs comms = comms\<lparr>cm_recs := []\<rparr>"

definition removeAddrRec :: "nat \<Rightarrow> CommsCtxt \<Rightarrow> CommsCtxt option" where
  "removeAddrRec p comms = do {
     let nBefore = countAddrRecs comms;
     let comms = (case find (\<lambda>rec. ar_id rec = p) (cm_recs comms) of
                    None \<Rightarrow> comms
                  | Some rec \<Rightarrow> comms\<lparr>cm_recs := remove1 rec (cm_recs comms)\<rparr>);
     xp_assert (countAddrRecs comms + 1 = nBefore);
     Some comms
   }"

definition comms_getAddrs :: "CommsCtxt \<Rightarrow> nat \<Rightarrow> CommsAddrRec list" where
  "comms_getAddrs comms nRecs = map ar_addr (take nRecs (cm_recs comms))"

definition comms_setConnID :: "u32 \<Rightarrow> CommsCtxt \<Rightarrow> CommsCtxt option" where
  "comms_setConnID cid comms = do {
     xp_assert (CONN_ID_NONE \<noteq> cid);
     xp_assert (0 = cm_connID comms \<or> cid = cm_connID comms);
     Some (comms\<lparr>cm_connID := cid\<rparr>)
   }"

text \<open>A device that is no game's server or has no \<open>comms\<close> has no transports.\<close>

definition comms_getConTypes :: "CommsCtxt option \<Rightarrow> u8" where
  "comms_getConTypes comms = (case comms of None \<Rightarrow> 0 | Some c \<Rightarrow> ucast (addrConTypes (cm_addr c)))"

definition comms_dropHostAddr :: "CommsConnType \<Rightarrow> CommsCtxt \<Rightarrow> CommsCtxt option" where
  "comms_dropHostAddr typ comms = do {
     addr \<leftarrow> addr_rmType (cm_addr comms) typ;
     Some (comms\<lparr>cm_addr := addr\<rparr>)
   }"

definition comms_isConnected :: "CommsCtxt \<Rightarrow> bool" where
  "comms_isConnected comms \<longleftrightarrow>
     list_ex (\<lambda>typ. if typ = COMMS_CONN_RELAY then cm_connName comms \<noteq> [] else cm_connID comms \<noteq> CONN_ID_NONE)
       (addr_types (cm_addr comms))"

definition comms_canChat :: "CommsCtxt \<Rightarrow> bool" where
  "comms_canChat comms \<longleftrightarrow>
     comms_isConnected comms \<and> cm_connID comms \<noteq> CONN_ID_NONE \<and> 64 > cm_queueLen comms"

section \<open>Messages to the relay\<close>

definition int_digits :: "int \<Rightarrow> u8 list" where
  "int_digits x = (if x < 0 then 45 # dec_digits (nat (- x)) else dec_digits (nat x))"

definition haveRelayID :: "CommsCtxt \<Rightarrow> bool" where
  "haveRelayID comms \<longleftrightarrow> cm_connName comms \<noteq> [] \<and> cm_myHostID comms \<noteq> HOST_ID_NONE"

text \<open>\<open>"%s/%d"\<close> into a buffer of \<open>len\<close> characters, which must hold it.\<close>

definition formatRelayID :: "CommsCtxt \<Rightarrow> u8 \<Rightarrow> nat \<Rightarrow> u8 list option" where
  "formatRelayID comms hostID len = do {
     let buf = cm_connName comms @ [47] @ dec_digits (unat hostID);
     let strln = 1 + length buf;
     xp_assert (len \<ge> strln);
     Some buf
   }"

definition comms_formatRelayID :: "CommsCtxt \<Rightarrow> u16 \<Rightarrow> nat \<Rightarrow> u8 list option" where
  "comms_formatRelayID comms indx len =
     formatRelayID comms (if cm_isServer comms then HOST_ID_SERVER + 1 + ucast indx else HOST_ID_SERVER) len"

definition comms_getRelayID :: "CommsCtxt \<Rightarrow> nat \<Rightarrow> u8 list option option" where
  "comms_getRelayID comms len =
     (if haveRelayID comms then map_option Some (formatRelayID comms (cm_myHostID comms) len) else Some None)"

text \<open>\<open>"%d:%d"\<close> into a buffer of 16 characters.\<close>

definition formatMsgNo :: "CommsCtxt \<Rightarrow> MsgQueueElem \<Rightarrow> u8 list" where
  "formatMsgNo comms elem =
     take 15 (dec_digits (unat (cm_myHostID comms)) @ [58] @ int_digits (sint (qe_msgID elem)))"

definition getDestID :: "CommsCtxt \<Rightarrow> u16 \<Rightarrow> u8 option" where
  "getDestID comms chan = do {
     (hid, missingRelay) \<leftarrow>
       (if (chan AND CHANNEL_MASK) = CHANNEL_NONE then Some (HOST_ID_SERVER, False)
        else ofold (\<lambda>(hid, missingRelay) rec.
               if (ar_channelNo rec AND NOT CHANNEL_MASK) \<noteq> (chan AND NOT CHANNEL_MASK) then Some (hid, missingRelay)
               else if \<not> addr_hasType (ar_addr rec) COMMS_CONN_RELAY then Some (hid, True)
               else do { xp_assert (HOST_ID_NONE = hid); Some (ar_hostID rec, missingRelay) })
             (HOST_ID_NONE, False) (cm_recs comms));
     Some (if HOST_ID_NONE = hid \<and> missingRelay \<and> \<not> cm_isServer comms then HOST_ID_SERVER else hid)
   }"

definition putDevID :: "CommsCtxt \<Rightarrow> mem_stream \<Rightarrow> mem_stream option" where
  "putDevID comms stream = do {
     let (typ, devID) = tp_devID (cm_procs comms);
     xp_assert (typ < ID_TYPE_NTYPES);
     stream \<leftarrow> mem_stream_putU8 stream typ;
     if ID_TYPE_NONE \<noteq> typ then do {
       stream \<leftarrow> mem_stream_catString stream (Some devID);
       mem_stream_putU8 stream 0
     } else Some stream
   }"

text \<open>The case that \<open>XWRELAY_MSG_TORELAY\<close> falls through to.\<close>

definition relay_noconn_body :: "CommsCtxt \<Rightarrow> u8 \<Rightarrow> u8 list \<Rightarrow> mem_stream \<Rightarrow> mem_stream option" where
  "relay_noconn_body comms destID payload stream = do {
     xp_assert (0 < cm_myHostID comms);
     stream \<leftarrow> mem_stream_putU8 stream (cm_myHostID comms);
     xp_assert (0 < destID);
     stream \<leftarrow> mem_stream_putU8 stream destID;
     if payload \<noteq> [] then mem_stream_putBytes stream payload else Some stream
   }"

text \<open>What connecting and reconnecting begin with.\<close>

definition relay_connect_head :: "CommsAddrRec \<Rightarrow> mem_stream \<Rightarrow> mem_stream option" where
  "relay_connect_head addr stream = do {
     stream \<leftarrow> mem_stream_putU8 stream XWRELAY_PROTO_VERSION;
     stream \<leftarrow> mem_stream_putU16 stream INITIAL_CLIENT_VERS;
     stream \<leftarrow> stringToStream stream (Some (relay_invite (u_ip_relay addr)));
     stream \<leftarrow> mem_stream_putU8 stream (of_bool (seeksPublicRoom (u_ip_relay addr)));
     mem_stream_putU8 stream (of_bool (advertiseRoom (u_ip_relay addr)))
   }"

text \<open>The players, the seed and the language, which both send next.\<close>

definition relay_connect_players :: "CommsCtxt \<Rightarrow> mem_stream \<Rightarrow> (mem_stream \<times> CommsCtxt) option" where
  "relay_connect_players comms stream = do {
     stream \<leftarrow> mem_stream_putU8 stream (of_nat (cm_nPlayersHere comms));
     stream \<leftarrow> mem_stream_putU8 stream (of_nat (cm_nPlayersTotal comms));
     (seed, comms) \<leftarrow> comms_getChannelSeed comms;
     stream \<leftarrow> mem_stream_putU16 stream seed;
     stream \<leftarrow> mem_stream_putU8 stream (dictLang (cm_gi comms));
     Some (stream, comms)
   }"

definition relay_msg_to_stream :: "CommsCtxt \<Rightarrow> XWRELAY_Cmd \<Rightarrow> u8 \<Rightarrow> u8 list \<Rightarrow> (mem_stream \<times> CommsCtxt) option" where
  "relay_msg_to_stream comms cmd destID payload = do {
     let stream = mem_stream_open mem_stream_make_raw;
     stream \<leftarrow> mem_stream_putU8 stream (of_nat (relayCmd_number cmd));
     let addr = cm_addr comms;
     case cmd of
       XWRELAY_MSG_TORELAY \<Rightarrow> do {
         stream \<leftarrow> mem_stream_putU16 stream (cm_cookieID comms);
         stream \<leftarrow> relay_noconn_body comms destID payload stream;
         Some (stream, comms)
       }
     | XWRELAY_MSG_TORELAY_NOCONN \<Rightarrow> do {
         stream \<leftarrow> relay_noconn_body comms destID payload stream;
         Some (stream, comms)
       }
     | XWRELAY_GAME_CONNECT \<Rightarrow> do {
         stream \<leftarrow> relay_connect_head addr stream;
         (stream, comms) \<leftarrow> relay_connect_players comms stream;
         stream \<leftarrow> putDevID comms stream;
         stream \<leftarrow> mem_stream_putU8 stream (ucast (cm_forceChannel comms));
         Some (stream, set_relay_state COMMS_RELAYSTATE_CONNECT_PENDING comms)
       }
     | XWRELAY_GAME_RECONNECT \<Rightarrow> do {
         stream \<leftarrow> relay_connect_head addr stream;
         stream \<leftarrow> mem_stream_putU8 stream (cm_myHostID comms);
         (stream, comms) \<leftarrow> relay_connect_players comms stream;
         stream \<leftarrow> stringToStream stream (Some (cm_connName comms));
         stream \<leftarrow> putDevID comms stream;
         Some (stream, set_relay_state COMMS_RELAYSTATE_CONNECT_PENDING comms)
       }
     | XWRELAY_ACK \<Rightarrow> do {
         stream \<leftarrow> mem_stream_putU8 stream destID;
         Some (stream, comms)
       }
     | XWRELAY_GAME_DISCONNECT \<Rightarrow> do {
         stream \<leftarrow> mem_stream_putU16 stream (cm_cookieID comms);
         stream \<leftarrow> mem_stream_putU8 stream (cm_myHostID comms);
         Some (stream, comms)
       }
     | _ \<Rightarrow> None
   }"

text \<open>The bytes from the base of a stream's buffer, as many as \<open>stream_getSize\<close> says.\<close>

definition stream_bytes :: "mem_stream \<Rightarrow> u8 list option" where
  "stream_bytes stream = mem_read 0 (mem_stream_getSize stream) (sbuf stream)"

definition send_via_relay ::
    "CommsCtxt \<Rightarrow> XWRELAY_Cmd \<Rightarrow> u8 \<Rightarrow> u8 list \<Rightarrow> u8 list option \<Rightarrow> (bool \<times> CommsCtxt) option" where
  "send_via_relay comms cmd destID payload msgNo = do {
     off \<leftarrow> comms_getAddrDisabled comms COMMS_CONN_RELAY True;
     if off then Some (False, comms)
     else do {
       (tmpStream, comms) \<leftarrow> relay_msg_to_stream comms cmd destID payload;
       let len = mem_stream_getSize tmpStream;
       if 0 < len then do {
         buf \<leftarrow> stream_bytes tmpStream;
         let (gid, comms) = comms_gameID comms;
         let (result, comms) = procs_send buf msgNo (Some (cm_addr comms)) COMMS_CONN_RELAY gid comms;
         Some (result mod 65536 = int len, comms)
       } else Some (False, comms)
     }
   }"

definition sendNoConn :: "CommsCtxt \<Rightarrow> MsgQueueElem \<Rightarrow> u8 \<Rightarrow> (bool \<times> CommsCtxt) option" where
  "sendNoConn comms elem destID =
     (case tp_sendNoConn (cm_procs comms) of
        None \<Rightarrow> Some (False, comms)
      | Some proc \<Rightarrow>
          if 0 \<noteq> (cm_xportFlags comms AND COMMS_XPORT_FLAGS_HASNOCONN) then do {
            relayID \<leftarrow> formatRelayID comms destID 64;
            (stream, comms) \<leftarrow> relay_msg_to_stream comms XWRELAY_MSG_TORELAY_NOCONN destID (qe_msg elem);
            if 0 < mem_stream_getSize stream then do {
              buf \<leftarrow> stream_bytes stream;
              let k = cm_nNoConns comms;
              let comms = comms_emit (CEvSendNoConn buf (formatMsgNo comms elem) relayID) (comms\<lparr>cm_nNoConns := k + 1\<rparr>);
              Some (proc k buf, comms)
            } else Some (True, comms)
          } else Some (False, comms))"

definition relayConnect :: "CommsCtxt \<Rightarrow> (bool \<times> CommsCtxt) option" where
  "relayConnect comms =
     (if addr_hasType (cm_addr comms) COMMS_CONN_RELAY \<and> \<not> cm_connecting comms then do {
        let comms = comms\<lparr>cm_connecting := True\<rparr>;
        (success, comms) \<leftarrow> send_via_relay comms
           (if cm_connName comms \<noteq> [] then XWRELAY_GAME_RECONNECT else XWRELAY_GAME_CONNECT) (cm_myHostID comms) [] None;
        Some (success, comms\<lparr>cm_connecting := False\<rparr>)
      } else Some (True, comms))"

definition relayDisconnect :: "CommsCtxt \<Rightarrow> CommsCtxt option" where
  "relayDisconnect comms =
     (if addr_hasType (cm_addr comms) COMMS_CONN_RELAY then do {
        comms \<leftarrow> (if relayState_number (cm_relayState comms) > relayState_number COMMS_RELAYSTATE_CONNECT_PENDING
                 then do { (ok, comms) \<leftarrow> send_via_relay comms XWRELAY_GAME_DISCONNECT HOST_ID_NONE [] None; Some comms }
                 else Some comms);
        Some (set_relay_state COMMS_RELAYSTATE_UNCONNECTED comms)
      } else Some comms)"

definition send_ack :: "CommsCtxt \<Rightarrow> CommsCtxt option" where
  "send_ack comms = do {
     (ok, comms) \<leftarrow> send_via_relay comms XWRELAY_ACK (cm_myHostID comms) [] None;
     Some comms
   }"

definition send_via_bt_or_ip :: "CommsCtxt \<Rightarrow> u8 \<Rightarrow> u16 \<Rightarrow> CommsConnType \<Rightarrow> u8 list \<Rightarrow> u8 list option \<Rightarrow> int \<times> CommsCtxt" where
  "send_via_bt_or_ip comms msgTyp chan typ payload msgNo =
     (let addr = channelToAddress comms chan;
          (gid, comms) = comms_gameID comms
      in procs_send (msgTyp # payload) msgNo addr typ gid comms)"

definition set_reset_timer :: "CommsCtxt \<Rightarrow> CommsCtxt" where
  "set_reset_timer comms =
     (comms_emit (CEvSetTimer 15) (comms\<lparr>cm_hbTimerPending := False\<rparr>))\<lparr>cm_reconTimerPending := True\<rparr>"

text \<open>The timer's procedure; it asks for no redraw.\<close>

definition p_comms_resetTimer :: "CommsCtxt \<Rightarrow> CommsCtxt option" where
  "p_comms_resetTimer comms =
     (if cm_relayState comms \<noteq> COMMS_RELAYSTATE_DENIED then do {
        (success, comms) \<leftarrow>
          (if relayState_number (cm_relayState comms) \<ge> relayState_number COMMS_RELAYSTATE_CONNECTED
           then Some (True, comms) else relayConnect comms);
        Some (if success then comms\<lparr>cm_reconTimerPending := False\<rparr> else set_reset_timer comms)
      } else Some comms)"

definition comms_transportFailed :: "CommsConnType \<Rightarrow> CommsCtxt \<Rightarrow> CommsCtxt option" where
  "comms_transportFailed failed comms =
     (if COMMS_CONN_RELAY = failed \<and> addr_hasType (cm_addr comms) COMMS_CONN_RELAY
         \<and> cm_relayState comms \<noteq> COMMS_RELAYSTATE_DENIED
      then do { comms \<leftarrow> relayDisconnect comms; Some (set_reset_timer comms) }
      else Some comms)"

definition reset_internal :: "bool \<Rightarrow> nat \<Rightarrow> nat \<Rightarrow> bool \<Rightarrow> CommsCtxt \<Rightarrow> CommsCtxt option" where
  "reset_internal isServer nPlayersHere nPlayersTotal resetRelay comms = do {
     comms \<leftarrow> (if resetRelay then relayDisconnect comms else Some comms);
     let comms = (cleanupInternal comms)\<lparr>cm_isServer := isServer\<rparr>;
     let comms = cleanupAddrRecs comms;
     let comms = (if resetRelay then comms\<lparr>cm_channelSeed := 0\<rparr> else comms);
     let comms = comms\<lparr>cm_connID := CONN_ID_NONE\<rparr>;
     Some (if resetRelay then init_relay nPlayersHere nPlayersTotal comms else comms)
   }"

definition comms_reset :: "bool \<Rightarrow> nat \<Rightarrow> nat \<Rightarrow> CommsCtxt \<Rightarrow> CommsCtxt option" where
  "comms_reset isServer nPlayersHere nPlayersTotal comms = reset_internal isServer nPlayersHere nPlayersTotal True comms"

definition comms_resetSame :: "CommsCtxt \<Rightarrow> CommsCtxt option" where
  "comms_resetSame comms = comms_reset (cm_isServer comms) (cm_nPlayersHere comms) (cm_nPlayersTotal comms) comms"

text \<open>The events of a layer that is gone.\<close>

definition comms_destroy :: "CommsCtxt \<Rightarrow> commsEvent list option" where
  "comms_destroy comms = do {
     xp_assert (\<not> addr_hasType (cm_addr comms) COMMS_CONN_RELAY \<or> COMMS_RELAYSTATE_UNCONNECTED = cm_relayState comms);
     Some (cm_out comms @ [CEvAddrChange (cm_addr comms) zero_addr, CEvClearTimer])
   }"

definition comms_stop :: "CommsCtxt \<Rightarrow> CommsCtxt option" where
  "comms_stop comms =
     (if addr_hasType (cm_addr comms) COMMS_CONN_RELAY then relayDisconnect comms else Some comms)"

section \<open>The queue\<close>

definition resetBackoff :: "CommsCtxt \<Rightarrow> CommsCtxt" where
  "resetBackoff comms = comms\<lparr>cm_resendBackoff := 0, cm_nextResend := 0\<rparr>"

definition elems_same :: "MsgQueueElem \<Rightarrow> MsgQueueElem \<Rightarrow> bool" where
  "elems_same e1 e2 \<longleftrightarrow> qe_msgID e1 = qe_msgID e2 \<and> qe_channelNo e1 = qe_channelNo e2
     \<and> length (qe_msg e1) = length (qe_msg e2) \<and> qe_msg e1 = qe_msg e2"

text \<open>The result is whether the element was added: an element that equals the last one is not, and
  the last one, of the same contents, takes its place.\<close>

definition addToQueue :: "MsgQueueElem \<Rightarrow> CommsCtxt \<Rightarrow> (bool \<times> CommsCtxt) option" where
  "addToQueue newElem comms = do {
     (added, comms) \<leftarrow>
       (if cm_msgQueue comms = [] then do {
          xp_assert (cm_queueLen comms = 0);
          Some (True, comms\<lparr>cm_msgQueue := [newElem]\<rparr>)
        } else do {
          let same = elems_same (last (cm_msgQueue comms)) newElem;
          xp_assert (cm_queueLen comms > 0);
          Some (\<not> same, if same then comms else comms\<lparr>cm_msgQueue := cm_msgQueue comms @ [newElem]\<rparr>)
        });
     let comms = (if added then notifyQueueChanged (comms\<lparr>cm_queueLen := cm_queueLen comms + 1\<rparr>) else comms);
     xp_assert (cm_queueLen comms \<le> 128);
     Some (added, comms)
   }"

definition assertQueueOk :: "CommsCtxt \<Rightarrow> unit option" where
  "assertQueueOk comms = xp_assert (length (cm_msgQueue comms) = cm_queueLen comms)"

text \<open>The element goes back into the queue unless it was acknowledged.\<close>

definition requeue_one :: "u16 \<Rightarrow> u32 \<Rightarrow> CommsCtxt \<Rightarrow> MsgQueueElem \<Rightarrow> CommsCtxt option" where
  "requeue_one chan msgID comms elem = do {
     let maskedElemChannelNo = NOT CHANNEL_MASK AND qe_channelNo elem;
     knownGood \<leftarrow>
       (if maskedElemChannelNo = 0 \<and> chan \<noteq> 0 then do {
          xp_assert (\<not> cm_isServer comms);
          xp_assert (qe_msgID elem = 0);
          Some False
        } else Some (maskedElemChannelNo \<noteq> (NOT CHANNEL_MASK AND chan)));
     if \<not> knownGood \<and> qe_msgID elem \<le> msgID then Some comms
     else do {
       (asAdded, comms) \<leftarrow> addToQueue elem comms;
       xp_assert asAdded;
       Some comms
     }
   }"

definition removeFromQueue :: "u16 \<Rightarrow> u32 \<Rightarrow> CommsCtxt \<Rightarrow> CommsCtxt option" where
  "removeFromQueue chan msgID comms = do {
     comms \<leftarrow>
       (if chan = 0 \<or> getRecordFor comms chan False \<noteq> None then do {
          comms \<leftarrow> ofold (requeue_one chan msgID) (comms\<lparr>cm_msgQueue := [], cm_queueLen := 0\<rparr>) (cm_msgQueue comms);
          Some (notifyQueueChanged comms)
        } else Some comms);
     assertQueueOk comms;
     Some comms
   }"

section \<open>Sending\<close>

text \<open>The header is the id of the connection, the channel, the number of the message and the number of
  the last message of the channel that is known to be saved. The message is as long as a
  \<open>XP_U16\<close> can tell.\<close>

definition makeElemWithID ::
    "u32 \<Rightarrow> nat option \<Rightarrow> u16 \<Rightarrow> mem_stream option \<Rightarrow> CommsCtxt \<Rightarrow> (MsgQueueElem \<times> CommsCtxt) option" where
  "makeElemWithID msgID p chan stream comms = do {
     let streamSize = (case stream of None \<Rightarrow> 0 | Some s \<Rightarrow> mem_stream_getSize s);
     let rec = find (\<lambda>rec. Some (ar_id rec) = p) (cm_recs comms);
     let saved = (case rec of None \<Rightarrow> 0 | Some r \<Rightarrow> ar_lastMsgSaved r);
     let hdrStream = mem_stream_open mem_stream_make_raw;
     hdrStream \<leftarrow> mem_stream_putU32 hdrStream (cm_connID comms);
     hdrStream \<leftarrow> mem_stream_putU16 hdrStream chan;
     hdrStream \<leftarrow> mem_stream_putU32 hdrStream msgID;
     hdrStream \<leftarrow> mem_stream_putU32 hdrStream saved;
     let comms = (case rec of None \<Rightarrow> comms | Some r \<Rightarrow> upd_rec (ar_id r) (\<lambda>r. r\<lparr>ar_lastMsgAckd := saved\<rparr>) comms);
     let headerLen = mem_stream_getSize hdrStream;
     xp_assert (streamSize + headerLen < 65536);
     (header, hdrStream) \<leftarrow> mem_stream_getBytes hdrStream headerLen;
     body \<leftarrow> (case stream of
                None \<Rightarrow> Some []
              | Some s \<Rightarrow> if 0 < streamSize then map_option fst (mem_stream_getBytes s streamSize) else Some []);
     Some (\<lparr>qe_msg = header @ body, qe_channelNo = chan, qe_msgID = msgID\<rparr>, comms)
   }"

text \<open>Sending by one transport; the result is the count of bytes, or -1.\<close>

definition send_by_type ::
    "MsgQueueElem \<Rightarrow> CommsConnType \<Rightarrow> CommsAddrRec \<Rightarrow> CommsConnType \<Rightarrow> CommsCtxt \<Rightarrow> (int \<times> CommsCtxt) option" where
  "send_by_type elem filt addr typ comms = do {
     off \<leftarrow> comms_getAddrDisabled comms typ True;
     if off then Some (-1, comms)
     else if COMMS_CONN_NONE \<noteq> filt \<and> filt \<noteq> typ then Some (-1, comms)
     else if typ = COMMS_CONN_RELAY then do {
       destID \<leftarrow> getDestID comms (qe_channelNo elem);
       if HOST_ID_NONE = destID then Some (-1, comms)
       else do {
         (noConn, comms) \<leftarrow> (if haveRelayID comms then sendNoConn comms elem destID else Some (False, comms));
         if noConn then Some (s16 (int (length (qe_msg elem))), comms)
         else if relayState_number (cm_relayState comms) \<ge> relayState_number COMMS_RELAYSTATE_CONNECTED then do {
           (ok, comms) \<leftarrow> send_via_relay comms XWRELAY_MSG_TORELAY destID (qe_msg elem) (Some (formatMsgNo comms elem));
           Some (if ok then s16 (int (length (qe_msg elem))) else -1, comms)
         } else Some (-1, comms)
       }
     } else do {
       xp_assert (addr_hasType addr typ);
       let (gid, comms) = comms_gameID comms;
       Some (procs_send (qe_msg elem) (Some (formatMsgNo comms elem)) (Some addr) typ gid comms)
     }
   }"

text \<open>Some transport must have taken all of the message, or none any of it.\<close>

definition sendMsg :: "MsgQueueElem \<Rightarrow> CommsConnType \<Rightarrow> CommsCtxt \<Rightarrow> (int \<times> CommsCtxt) option" where
  "sendMsg elem filt comms = do {
     addr \<leftarrow> (case channelToAddress comms (qe_channelNo elem) of
                None \<Rightarrow> Some (cm_addr comms)
              | Some addr \<Rightarrow> if addr_hasType (cm_addr comms) COMMS_CONN_NFC then addr_addType addr COMMS_CONN_NFC
                            else Some addr);
     (result, comms) \<leftarrow> ofold (\<lambda>(result, comms) typ. do {
         (nSent, comms) \<leftarrow> send_by_type elem filt addr typ comms;
         Some (if nSent > result then nSent else result, comms)
       }) (-1, comms) (addr_types addr);
     xp_assert (result < 0 \<or> int (length (qe_msg elem)) = result);
     Some (result, comms)
   }"

text \<open>The message gets the next number of its channel; without a record of the channel its number is
  0 and it goes out on the device's own seed.\<close>

definition comms_send :: "mem_stream \<Rightarrow> CommsCtxt \<Rightarrow> (int \<times> CommsCtxt) option" where
  "comms_send stream comms =
     (if 0 = mem_stream_getSize stream then Some (-1, comms)
      else do {
        let chan = mem_stream_getAddress stream;
        let rec = getRecordFor comms chan False;
        let msgID = (case rec of None \<Rightarrow> 0 | Some r \<Rightarrow> ar_nextMsgID r + 1);
        let comms = (case rec of None \<Rightarrow> comms
                     | Some r \<Rightarrow> upd_rec (ar_id r) (\<lambda>r. r\<lparr>ar_nextMsgID := msgID\<rparr>) comms);
        (chan, comms) \<leftarrow>
          (if 0 = chan then do {
             (seed, comms) \<leftarrow> comms_getChannelSeed comms;
             Some (seed AND NOT CHANNEL_MASK, comms)
           } else Some (chan, comms));
        (elem, comms) \<leftarrow> makeElemWithID msgID (map_option ar_id rec) chan (Some stream) comms;
        (added, comms) \<leftarrow> addToQueue elem comms;
        sendMsg elem COMMS_CONN_NONE comms
      })"

text \<open>The messages in order, until one cannot be sent; the results are the count and whether all
  went out.\<close>

fun resend_loop ::
    "(MsgQueueElem \<Rightarrow> CommsCtxt \<Rightarrow> (int \<times> CommsCtxt) option) \<Rightarrow> int \<Rightarrow> MsgQueueElem list \<Rightarrow> CommsCtxt
       \<Rightarrow> (bool \<times> int \<times> CommsCtxt) option" where
  "resend_loop proc cnt [] comms = Some (True, cnt, comms)"
| "resend_loop proc cnt (msg # msgs) comms = do {
     (len, comms) \<leftarrow> proc msg comms;
     if 0 > len then Some (False, cnt, comms)
     else do {
       xp_assert (0 < len);
       resend_loop proc (cnt + 1) msgs comms
     }
   }"

definition resendImpl ::
    "CommsConnType \<Rightarrow> bool \<Rightarrow> (MsgQueueElem \<Rightarrow> CommsConnType \<Rightarrow> CommsCtxt \<Rightarrow> (int \<times> CommsCtxt) option) \<Rightarrow> CommsCtxt
       \<Rightarrow> (int \<times> CommsCtxt) option" where
  "resendImpl filt force proc comms = do {
     let (now, comms) = comms_seconds comms;
     if \<not> force \<and> now < cm_nextResend comms then Some (0, comms)
     else if cm_msgQueue comms \<noteq> [] then do {
       (success, cnt, comms) \<leftarrow> resend_loop (\<lambda>msg comms. proc msg filt comms) 0 (cm_msgQueue comms) comms;
       let comms = (if success \<and> \<not> force then
                      let backoff = 2 * (1 + cm_resendBackoff comms)
                      in comms\<lparr>cm_resendBackoff := backoff, cm_nextResend := now + ucast backoff\<rparr>
                    else comms);
       Some (cnt, comms)
     } else Some (0, comms)
   }"

definition comms_resendAll :: "CommsConnType \<Rightarrow> bool \<Rightarrow> CommsCtxt \<Rightarrow> (int \<times> CommsCtxt) option" where
  "comms_resendAll filt force comms = resendImpl filt force sendMsg comms"

text \<open>What the callback of \<open>comms_getPending\<close> is given. The clock is read on the way.\<close>

definition comms_getPending :: "CommsCtxt \<Rightarrow> (u8 list \<times> nat \<times> u32) list \<times> CommsCtxt" where
  "comms_getPending comms =
     (map (\<lambda>msg. (qe_msg msg, length (qe_msg msg), qe_msgID msg)) (cm_msgQueue comms), snd (comms_seconds comms))"

definition comms_countPendingPackets :: "CommsCtxt \<Rightarrow> nat" where
  "comms_countPendingPackets comms = cm_queueLen comms"

text \<open>An empty message has the number 0 and is not queued: its header acknowledges.\<close>

definition sendEmptyMsg :: "AddressRecord \<Rightarrow> CommsCtxt \<Rightarrow> CommsCtxt option" where
  "sendEmptyMsg rec comms = do {
     (elem, comms) \<leftarrow> makeElemWithID 0 (Some (ar_id rec)) (ar_channelNo rec) None comms;
     (n, comms) \<leftarrow> sendMsg elem COMMS_CONN_NONE comms;
     Some comms
   }"

definition comms_ackAny :: "CommsCtxt \<Rightarrow> CommsCtxt option" where
  "comms_ackAny comms =
     (if CONN_ID_NONE = cm_connID comms then Some comms
      else ofold (\<lambda>comms rec. if ar_lastMsgAckd rec < ar_lastMsgRcd rec then sendEmptyMsg rec comms else Some comms)
             comms (cm_recs comms))"

definition comms_saveSucceeded :: "u16 \<Rightarrow> CommsCtxt \<Rightarrow> CommsCtxt option" where
  "comms_saveSucceeded saveToken comms =
     (if saveToken = cm_lastSaveToken comms then
        comms_ackAny (comms\<lparr>cm_recs := map (\<lambda>rec. rec\<lparr>ar_lastMsgSaved := ar_lastMsgRcd rec\<rparr>) (cm_recs comms)\<rparr>)
      else Some comms)"

text \<open>The transport a connection is made on.\<close>

definition connect_one :: "bool \<Rightarrow> CommsCtxt \<Rightarrow> CommsConnType \<Rightarrow> CommsCtxt option" where
  "connect_one breakExisting comms typ =
     (case typ of
        COMMS_CONN_RELAY \<Rightarrow>
          if breakExisting \<or> COMMS_RELAYSTATE_UNCONNECTED = cm_relayState comms then do {
            (success, comms) \<leftarrow> relayConnect (set_relay_state COMMS_RELAYSTATE_UNCONNECTED comms);
            Some (if success then comms else set_reset_timer comms)
          } else Some comms
      | COMMS_CONN_BT \<Rightarrow>
          map_option snd (comms_resendAll COMMS_CONN_NONE False
            (snd (send_via_bt_or_ip comms BTIPMSG_RESET CHANNEL_NONE typ [] None)))
      | COMMS_CONN_IP_DIRECT \<Rightarrow>
          map_option snd (comms_resendAll COMMS_CONN_NONE False
            (snd (send_via_bt_or_ip comms BTIPMSG_RESET CHANNEL_NONE typ [] None)))
      | COMMS_CONN_SMS \<Rightarrow> map_option snd (comms_resendAll COMMS_CONN_NONE False comms)
      | _ \<Rightarrow> Some comms)"

definition sendConnect :: "bool \<Rightarrow> CommsCtxt \<Rightarrow> CommsCtxt option" where
  "sendConnect breakExisting comms = ofold (connect_one breakExisting) comms (addr_types (cm_addr comms))"

definition comms_start :: "CommsCtxt \<Rightarrow> CommsCtxt option" where
  "comms_start comms = sendConnect False comms"

definition comms_augmentHostAddr :: "CommsAddrRec \<Rightarrow> CommsCtxt \<Rightarrow> CommsCtxt option" where
  "comms_augmentHostAddr addr comms = do {
     let addingRelay = (addr_hasType addr COMMS_CONN_RELAY \<and> \<not> addr_hasType (cm_addr comms) COMMS_CONN_RELAY);
     tmp \<leftarrow> augmentAddr (cm_addr comms) (Some addr);
     let comms = (comms_emit (CEvAddrChange (cm_addr comms) tmp) comms)\<lparr>cm_addr := tmp\<rparr>;
     if addingRelay then sendConnect True comms else Some comms
   }"

end
