(* ===== verification/Xw_CommsIn.thy ===== *)
theory Xw_CommsIn
  imports Xw_Comms
begin

text \<open>
  The rest of \<open>common/comms.c\<close>: the relay's commands, the checks a message must pass before the
  server sees it (\<open>comms_checkIncomingStream\<close>), what happens once it has been processed
  (\<open>comms_msgProcessed\<close>), and the saved state.
\<close>

section \<open>The relay's commands\<close>

text \<open>A name is copied into the array of the context.\<close>

definition get_connName :: "mem_stream \<Rightarrow> CommsCtxt \<Rightarrow> (mem_stream \<times> CommsCtxt) option" where
  "get_connName stream comms = do {
     (name, stream) \<leftarrow> stringFromStreamHere stream (MAX_CONNNAME_LEN + 1);
     Some (stream, comms\<lparr>cm_connName := name\<rparr>)
   }"

definition got_connect_cmd :: "mem_stream \<Rightarrow> bool \<Rightarrow> CommsCtxt \<Rightarrow> (mem_stream \<times> CommsCtxt) option" where
  "got_connect_cmd stream reconnected comms = do {
     let comms = set_relay_state (if reconnected then COMMS_RELAYSTATE_RECONNECTED else COMMS_RELAYSTATE_CONNECTED) comms;
     (hid, stream) \<leftarrow> mem_stream_getU8 stream;
     let comms = comms\<lparr>cm_myHostID := hid\<rparr>;
     let isServer = (HOST_ID_SERVER = hid);
     comms \<leftarrow> (if isServer \<noteq> cm_isServer comms then
                 reset_internal isServer (cm_nPlayersHere comms) (cm_nPlayersTotal comms) False
                   (comms_emit (CEvSetIsServer isServer) (comms\<lparr>cm_isServer := isServer\<rparr>))
               else Some comms);
     (cookie, stream) \<leftarrow> mem_stream_getU16 stream;
     xp_assert (COOKIE_ID_NONE \<noteq> cookie);
     let comms = comms\<lparr>cm_cookieID := cookie\<rparr>;
     (hb, stream) \<leftarrow> mem_stream_getU16 stream;
     let comms = comms\<lparr>cm_heartbeat := hb\<rparr>;
     (nSought, stream) \<leftarrow> mem_stream_getU8 stream;
     (nHere, stream) \<leftarrow> mem_stream_getU8 stream;
     let comms = (if nSought = nHere then set_relay_state COMMS_RELAYSTATE_ALLCONNECTED comms else comms);
     (stream, comms) \<leftarrow> get_connName stream comms;
     (typ, stream) \<leftarrow> mem_stream_getU8 stream;
     (devID, stream) \<leftarrow> (if ID_TYPE_NONE \<noteq> typ then stringFromStreamHere stream (MAX_DEVID_LEN + 1) else Some ([], stream));
     let comms = (if ID_TYPE_NONE = typ \<or> devID \<noteq> [] then comms_emit (CEvDeviceRegistered typ devID) comms else comms);
     let comms = (if CONN_ID_NONE = cm_connID comms then
                    comms_emit (CEvRelayConnd (relay_invite (u_ip_relay (cm_addr comms))) reconnected (cm_myHostID comms) False
                                  (ucast nSought - ucast nHere)) comms
                  else comms);
     Some (stream, comms)
   }"

text \<open>The results are whether the command was consumed, the id of the sending host, 0 where none is
  told, and what is left of the stream.\<close>

definition relayPreProcess :: "mem_stream \<Rightarrow> CommsCtxt \<Rightarrow> (bool \<times> u8 \<times> mem_stream \<times> CommsCtxt) option" where
  "relayPreProcess stream comms = do {
     let cookieID = cm_cookieID comms;
     (cmd, stream) \<leftarrow> mem_stream_getU8 stream;
     case relayCmd_of (unat cmd) of
       XWRELAY_CONNECT_RESP \<Rightarrow> do {
         (stream, comms) \<leftarrow> got_connect_cmd stream False comms;
         comms \<leftarrow> send_ack comms;
         Some (True, 0, stream, comms)
       }
     | XWRELAY_RECONNECT_RESP \<Rightarrow> do {
         (stream, comms) \<leftarrow> got_connect_cmd stream True comms;
         (n, comms) \<leftarrow> comms_resendAll COMMS_CONN_NONE False comms;
         Some (True, 0, stream, comms)
       }
     | XWRELAY_ALLHERE \<Rightarrow> do {
         (srcID, stream) \<leftarrow> mem_stream_getU8 stream;
         let comms = comms\<lparr>cm_myHostID := srcID\<rparr>;
         (stream, comms) \<leftarrow> get_connName stream comms;
         (n, comms) \<leftarrow> comms_resendAll COMMS_CONN_NONE False comms;
         let comms = comms_emit (CEvRelayConnd (relay_invite (u_ip_relay (cm_addr comms))) False (cm_myHostID comms) True 0) comms;
         Some (True, 0, stream, set_relay_state COMMS_RELAYSTATE_ALLCONNECTED comms)
       }
     | XWRELAY_MSG_FROMRELAY \<Rightarrow> do {
         (cookieID, stream) \<leftarrow> mem_stream_getU16 stream;
         (srcID, stream) \<leftarrow> mem_stream_getU8 stream;
         (destID, stream) \<leftarrow> mem_stream_getU8 stream;
         let consumed = (destID \<noteq> cm_myHostID comms \<and> cookieID \<noteq> cm_cookieID comms);
         Some (consumed, if consumed then 0 else srcID, stream, comms)
       }
     | XWRELAY_MSG_FROMRELAY_NOCONN \<Rightarrow> do {
         (srcID, stream) \<leftarrow> mem_stream_getU8 stream;
         (destID, stream) \<leftarrow> mem_stream_getU8 stream;
         let consumed = (destID \<noteq> cm_myHostID comms \<and> cookieID \<noteq> cm_cookieID comms);
         Some (consumed, if consumed then 0 else srcID, stream, comms)
       }
     | XWRELAY_DISCONNECT_OTHER \<Rightarrow> do {
         (relayErr, stream) \<leftarrow> mem_stream_getU8 stream;
         (srcID, stream) \<leftarrow> mem_stream_getU8 stream;
         comms \<leftarrow> (if relayState_number COMMS_RELAYSTATE_RECONNECTED < relayState_number (cm_relayState comms) then do {
                     xp_assert (cm_connName comms \<noteq> []);
                     Some (if COOKIE_ID_NONE = cm_cookieID comms then comms
                           else comms_emit (CEvUserError relayErr) (set_relay_state COMMS_RELAYSTATE_RECONNECTED comms))
                   } else Some comms);
         Some (True, 0, stream, comms)
       }
     | XWRELAY_DISCONNECT_YOU \<Rightarrow> do {
         (relayErr, stream) \<leftarrow> mem_stream_getU8 stream;
         Some (True, 0, stream, comms_emit (CEvUserError relayErr) (set_relay_state COMMS_RELAYSTATE_UNCONNECTED comms))
       }
     | XWRELAY_MSG_STATUS \<Rightarrow> do {
         (relayErr, stream) \<leftarrow> mem_stream_getU8 stream;
         Some (True, 0, stream, comms_emit (CEvRelayError relayErr) comms)
       }
     | XWRELAY_CONNECTDENIED \<Rightarrow> do {
         (relayErr, stream) \<leftarrow> mem_stream_getU8 stream;
         xp_assert (relayErr \<le> XWRELAY_ERROR_LASTERR);
         let comms = set_relay_state COMMS_RELAYSTATE_DENIED comms;
         Some (True, 0, stream,
           if XWRELAY_ERROR_NORECONN = relayErr then init_relay (cm_nPlayersHere comms) (cm_nPlayersTotal comms) comms
           else comms_emit (CEvRelayError relayErr) (comms_emit (CEvUserError relayErr) comms))
       }
     | _ \<Rightarrow> None
   }"

text \<open>There is no case for infrared, for a direct IP connection and for an address without a
  transport.\<close>

definition preProcess :: "CommsAddrRec \<Rightarrow> mem_stream \<Rightarrow> CommsCtxt \<Rightarrow> (bool \<times> u8 \<times> mem_stream \<times> CommsCtxt) option" where
  "preProcess useAddr stream comms = do {
     typ \<leftarrow> addr_getType useAddr;
     case typ of
       COMMS_CONN_RELAY \<Rightarrow> relayPreProcess stream comms
     | COMMS_CONN_SMS \<Rightarrow> Some (False, 0, stream, comms)
     | COMMS_CONN_BT \<Rightarrow> Some (False, 0, stream, comms)
     | COMMS_CONN_P2P \<Rightarrow> Some (False, 0, stream, comms)
     | COMMS_CONN_NFC \<Rightarrow> Some (False, 0, stream, comms)
     | COMMS_CONN_MQTT \<Rightarrow> Some (False, 0, stream, comms)
     | _ \<Rightarrow> None
   }"

section \<open>Checking messages\<close>

text \<open>A message without a channel is given the next one, while there are any. A channel that comes with
  the message is kept as the last one given, with the seed that is in its upper bits.\<close>

definition checkChannelNo :: "u16 \<Rightarrow> CommsCtxt \<Rightarrow> bool \<times> u16 \<times> CommsCtxt" where
  "checkChannelNo chan comms =
     (if 0 = (chan AND CHANNEL_MASK) then
        (if cm_nextChannelNo comms < CHANNEL_MASK then
           let next = cm_nextChannelNo comms + 1
           in (True, chan OR next, comms\<lparr>cm_nextChannelNo := next\<rparr>)
         else (False, chan, comms))
      else (True, chan, comms\<lparr>cm_nextChannelNo := chan\<rparr>))"

definition augmentChannelAddr :: "AddressRecord \<Rightarrow> CommsAddrRec \<Rightarrow> u8 \<Rightarrow> AddressRecord option" where
  "augmentChannelAddr rec addr hostID = do {
     a \<leftarrow> augmentAddr (ar_addr rec) (Some addr);
     let rec = rec\<lparr>ar_addr := a\<rparr>;
     Some (if addr_hasType a COMMS_CONN_RELAY \<and> 0 \<noteq> hostID then rec\<lparr>ar_hostID := hostID\<rparr> else rec)
   }"

definition augment_rec :: "AddressRecord \<Rightarrow> CommsAddrRec \<Rightarrow> u8 \<Rightarrow> CommsCtxt \<Rightarrow> CommsCtxt option" where
  "augment_rec rec addr hostID comms = do {
     rec' \<leftarrow> augmentChannelAddr rec addr hostID;
     Some (upd_rec (ar_id rec) (\<lambda>r. rec') comms)
   }"

text \<open>The result is the record's address in memory.\<close>

definition rememberChannelAddress :: "u16 \<Rightarrow> u8 \<Rightarrow> CommsAddrRec \<Rightarrow> CommsCtxt \<Rightarrow> (nat \<times> CommsCtxt) option" where
  "rememberChannelAddress chan hostID addr comms = do {
     let (rec, comms) =
       (case getRecordFor comms chan False of
          Some rec \<Rightarrow> (rec, comms)
        | None \<Rightarrow>
            let rec = \<lparr>ar_id = cm_nRecs comms, ar_addr = zero_addr, ar_nextMsgID = 0, ar_lastMsgAckd = 0, ar_lastMsgRcd = 0,
                       ar_lastMsgSaved = 0, ar_channelNo = chan, ar_hostID = hostID\<rparr>
            in (rec, comms\<lparr>cm_recs := rec # cm_recs comms, cm_nRecs := cm_nRecs comms + 1\<rparr>));
     let comms = upd_rec (ar_id rec) (\<lambda>r. r\<lparr>ar_addr := addr\<rparr>) comms;
     xp_assert (ar_hostID rec = hostID);
     Some (ar_id rec, comms)
   }"

text \<open>The results are the new record of the channel, if the message is accepted, and the channel.\<close>

definition validateInitialMessage ::
    "CommsAddrRec \<Rightarrow> u8 \<Rightarrow> u16 \<Rightarrow> CommsCtxt \<Rightarrow> (nat option \<times> u16 \<times> CommsCtxt) option" where
  "validateInitialMessage addr senderID chan comms =
     (case getRecordFor comms chan True of
        Some rec \<Rightarrow> do {
          comms \<leftarrow> augment_rec rec addr senderID comms;
          Some (None, chan, comms)
        }
      | None \<Rightarrow>
          let (ok, chan, comms) = (if cm_isServer comms then checkChannelNo chan comms else (True, chan, comms))
          in if ok then do {
               (p, comms) \<leftarrow> rememberChannelAddress chan senderID addr comms;
               Some (Some p, chan, comms)
             } else Some (None, chan, comms))"

text \<open>The flags are there only if the two bytes before them are the marker: \<open>(connID, flags)\<close>.\<close>

definition getFlags :: "mem_stream \<Rightarrow> (u32 \<times> u16 \<times> mem_stream) option" where
  "getFlags stream = do {
     let pos = mem_stream_getPos stream POS_READ;
     (marker, stream) \<leftarrow> mem_stream_getU16 stream;
     (flags, stream) \<leftarrow> (if HAS_VERSION_FLAG = marker then mem_stream_getU16 stream
                         else Some (0, snd (mem_stream_setPos stream POS_READ pos)));
     (cid, stream) \<leftarrow> mem_stream_getU32 stream;
     Some (cid, flags, stream)
   }"

text \<open>A message of a known connection acknowledges and is accepted only if it is the next of its
  channel.\<close>

definition validateChannelMessage ::
    "CommsAddrRec \<Rightarrow> u16 \<Rightarrow> u8 \<Rightarrow> u32 \<Rightarrow> u32 \<Rightarrow> CommsCtxt \<Rightarrow> (nat option \<times> CommsCtxt) option" where
  "validateChannelMessage addr chan senderID msgID lastMsgRcd comms =
     (case getRecordFor comms chan False of
        None \<Rightarrow> Some (None, comms)
      | Some rec \<Rightarrow> do {
          comms \<leftarrow> removeFromQueue chan lastMsgRcd comms;
          comms \<leftarrow> augment_rec rec addr senderID comms;
          Some (if msgID = ar_lastMsgRcd rec + 1 then Some (ar_id rec) else None, comms)
        })"

record CommsMsgState =
  st_rec :: "nat option"
  st_msgID :: u32
  st_channelNo :: u16

definition zero_msgState :: CommsMsgState where
  "zero_msgState = \<lparr>st_rec = None, st_msgID = 0, st_channelNo = 0\<rparr>"

text \<open>The test whether the message can be for this device. A client that has no seed or is given no
  channel fires an assertion.\<close>

definition channels_match :: "u16 \<Rightarrow> u16 \<Rightarrow> u16 \<Rightarrow> CommsCtxt \<Rightarrow> bool option" where
  "channels_match flags chan channelSeed comms =
     (if 0 \<noteq> flags \<and> cm_isServer comms = (0 \<noteq> flags AND IS_SERVER_BIT) then Some False
      else if cm_isServer comms then Some True
      else if 0 = chan \<or> 0 = channelSeed then None
      else Some ((chan AND NOT CHANNEL_MASK) = (channelSeed AND NOT CHANNEL_MASK)))"

text \<open>From the header on: the message has at least the size of a header without flags.\<close>

definition check_message ::
    "CommsAddrRec \<Rightarrow> u8 \<Rightarrow> mem_stream \<Rightarrow> CommsCtxt \<Rightarrow> (bool \<times> CommsMsgState \<times> mem_stream \<times> CommsCtxt) option" where
  "check_message retAddr senderID stream comms = do {
     (cid, flags, stream) \<leftarrow> getFlags stream;
     (chan, stream) \<leftarrow> mem_stream_getU16 stream;
     (channelSeed, comms) \<leftarrow> comms_getChannelSeed comms;
     messageValid \<leftarrow> channels_match flags chan channelSeed comms;
     if messageValid then do {
       (msgID, stream) \<leftarrow> mem_stream_getU32 stream;
       (lastMsgRcd, stream) \<leftarrow> mem_stream_getU32 stream;
       let payloadSize = mem_stream_getSize stream;
       (p, chan, state, comms) \<leftarrow>
         (if cid = CONN_ID_NONE then do {
            (p, chan, comms) \<leftarrow> validateInitialMessage retAddr senderID chan comms;
            Some (p, chan, zero_msgState\<lparr>st_rec := p\<rparr>, comms)
          } else if cm_connID comms = cid then do {
            (p, comms) \<leftarrow> validateChannelMessage retAddr chan senderID msgID lastMsgRcd comms;
            Some (p, chan, zero_msgState, comms)
          } else Some (None, chan, zero_msgState, comms));
       case find (\<lambda>rec. Some (ar_id rec) = p) (cm_recs comms) of
         None \<Rightarrow> Some (False, state, stream, comms)
       | Some rec \<Rightarrow>
           if 0 = ar_lastMsgRcd rec \<or> ar_lastMsgRcd rec \<le> msgID
           then Some (payloadSize > 0, state\<lparr>st_msgID := msgID, st_channelNo := chan\<rparr>,
                      mem_stream_setAddress stream chan, resetBackoff (comms\<lparr>cm_lastSaveToken := 0\<rparr>))
           else Some (False, state, stream, comms)
     } else Some (False, zero_msgState, stream, comms)
   }"

definition comms_checkIncomingStream ::
    "mem_stream \<Rightarrow> CommsAddrRec \<Rightarrow> CommsCtxt \<Rightarrow> (bool \<times> CommsMsgState \<times> mem_stream \<times> CommsCtxt) option" where
  "comms_checkIncomingStream stream retAddr comms = do {
     xp_assert (\<not> cm_processingMsg comms);
     let comms = comms\<lparr>cm_processingMsg := True\<rparr>;
     addrType \<leftarrow> addr_getType retAddr;
     off \<leftarrow> comms_getAddrDisabled comms addrType False;
     if off then Some (False, zero_msgState, stream, comms)
     else do {
       (consumed, senderID, stream, comms) \<leftarrow> preProcess retAddr stream comms;
       if consumed then Some (False, zero_msgState, stream, comms)
       else if mem_stream_getSize stream \<ge> 4 + 2 + 4 + 4 then check_message retAddr senderID stream comms
       else Some (False, zero_msgState, stream, comms)
     }
   }"

definition comms_msgProcessed :: "CommsMsgState \<Rightarrow> bool \<Rightarrow> CommsCtxt \<Rightarrow> CommsCtxt option" where
  "comms_msgProcessed state rejected comms = do {
     xp_assert (cm_processingMsg comms);
     comms \<leftarrow>
       (if rejected then (case st_rec state of None \<Rightarrow> Some comms | Some p \<Rightarrow> removeAddrRec p comms)
        else do {
          rec \<leftarrow> getRecordFor comms (st_channelNo state) True;
          Some (if ar_lastMsgRcd rec < st_msgID state
                then upd_rec (ar_id rec) (\<lambda>r. r\<lparr>ar_lastMsgRcd := st_msgID state\<rparr>) comms else comms)
        });
     Some (comms\<lparr>cm_processingMsg := False\<rparr>)
   }"

section \<open>The saved state\<close>

definition put_addrRec :: "mem_stream \<Rightarrow> AddressRecord \<Rightarrow> mem_stream option" where
  "put_addrRec stream rec = do {
     stream \<leftarrow> addrToStream stream (ar_addr rec);
     stream \<leftarrow> mem_stream_putU16 stream (ucast (ar_nextMsgID rec));
     stream \<leftarrow> mem_stream_putU16 stream (ucast (ar_lastMsgRcd rec));
     stream \<leftarrow> mem_stream_putU16 stream (ucast (ar_lastMsgAckd rec));
     stream \<leftarrow> mem_stream_putU16 stream (ar_channelNo rec);
     if addr_hasType (ar_addr rec) COMMS_CONN_RELAY then mem_stream_putU8 stream (ar_hostID rec) else Some stream
   }"

definition put_queueElem :: "mem_stream \<Rightarrow> MsgQueueElem \<Rightarrow> mem_stream option" where
  "put_queueElem stream msg = do {
     stream \<leftarrow> mem_stream_putU16 stream (qe_channelNo msg);
     stream \<leftarrow> mem_stream_putU32 stream (qe_msgID msg);
     stream \<leftarrow> mem_stream_putU16 stream (of_nat (length (qe_msg msg)));
     mem_stream_putBytes stream (qe_msg msg)
   }"

text \<open>The transports whose two switches are saved.\<close>

definition disabled_types :: "CommsAddrRec \<Rightarrow> nat list" where
  "disabled_types addr =
     filter (\<lambda>typ. typ < conType_number COMMS_CONN_NFC \<or> addr_hasType addr (conType_of typ)) [0..<COMMS_CONN_NTYPES]"

definition put_disabled :: "bool list list \<Rightarrow> mem_stream \<Rightarrow> nat \<Rightarrow> mem_stream option" where
  "put_disabled rows stream typ = do {
     row \<leftarrow> mem_get typ rows;
     a \<leftarrow> mem_get 0 row;
     b \<leftarrow> mem_get 1 row;
     stream \<leftarrow> mem_stream_putBits stream 1 (if a then 1 else 0);
     mem_stream_putBits stream 1 (if b then 1 else 0)
   }"

definition comms_writeToStream :: "mem_stream \<Rightarrow> u16 \<Rightarrow> CommsCtxt \<Rightarrow> (mem_stream \<times> CommsCtxt) option" where
  "comms_writeToStream stream saveToken comms = do {
     stream \<leftarrow> mem_stream_setVersion stream CUR_STREAM_VERS;
     stream \<leftarrow> mem_stream_putU8 stream (of_bool (cm_isServer comms));
     stream \<leftarrow> addrToStream stream (cm_addr comms);
     stream \<leftarrow> mem_stream_putBits stream 4 (of_nat (cm_nPlayersHere comms));
     stream \<leftarrow> mem_stream_putBits stream 4 (of_nat (cm_nPlayersTotal comms));
     stream \<leftarrow> mem_stream_putU32 stream (cm_connID comms);
     stream \<leftarrow> mem_stream_putU16 stream (cm_nextChannelNo comms);
     (seed, comms) \<leftarrow> comms_getChannelSeed comms;
     stream \<leftarrow> mem_stream_putU16 stream seed;
     stream \<leftarrow> mem_stream_putU16 stream (cm_resendBackoff comms);
     stream \<leftarrow> mem_stream_putU32 stream (cm_nextResend comms);
     stream \<leftarrow> (if addr_hasType (cm_addr comms) COMMS_CONN_RELAY then do {
                  stream \<leftarrow> mem_stream_putU8 stream (cm_myHostID comms);
                  stringToStream stream (Some (cm_connName comms))
                } else Some stream);
     xp_assert (cm_queueLen comms \<le> 255);
     stream \<leftarrow> mem_stream_putU8 stream (of_nat (cm_queueLen comms));
     stream \<leftarrow> mem_stream_putU8 stream (of_nat (countAddrRecs comms));
     stream \<leftarrow> ofold put_addrRec stream (cm_recs comms);
     stream \<leftarrow> ofold put_queueElem stream (cm_msgQueue comms);
     stream \<leftarrow> ofold (put_disabled (cm_disableds comms)) stream (disabled_types (cm_addr comms));
     Some (stream, comms\<lparr>cm_lastSaveToken := saveToken\<rparr>)
   }"

text \<open>A record from a stream; the counter gives it its place in memory.\<close>

definition get_addrRec :: "(AddressRecord list \<times> nat \<times> mem_stream) \<Rightarrow> nat \<Rightarrow> (AddressRecord list \<times> nat \<times> mem_stream) option" where
  "get_addrRec st ii = do {
     let (recs, p, stream) = st;
     (addr, stream) \<leftarrow> addrFromStream zero_addr stream;
     (next, stream) \<leftarrow> mem_stream_getU16 stream;
     (rcd, stream) \<leftarrow> mem_stream_getU16 stream;
     (ackd, stream) \<leftarrow> (if mem_stream_getVersion stream \<ge> STREAM_VERS_BLUETOOTH2 then mem_stream_getU16 stream
                        else Some (0, stream));
     (chan, stream) \<leftarrow> mem_stream_getU16 stream;
     (hid, stream) \<leftarrow> (if addr_hasType addr COMMS_CONN_RELAY then mem_stream_getU8 stream else Some (0, stream));
     Some (recs @ [\<lparr>ar_id = p, ar_addr = addr, ar_nextMsgID = ucast next, ar_lastMsgAckd = ucast ackd,
                    ar_lastMsgRcd = ucast rcd, ar_lastMsgSaved = ucast rcd, ar_channelNo = chan, ar_hostID = hid\<rparr>],
           p + 1, stream)
   }"

definition get_queueElem :: "(MsgQueueElem list \<times> mem_stream) \<Rightarrow> nat \<Rightarrow> (MsgQueueElem list \<times> mem_stream) option" where
  "get_queueElem st ii = do {
     let (elems, stream) = st;
     (chan, stream) \<leftarrow> mem_stream_getU16 stream;
     (mid, stream) \<leftarrow> mem_stream_getU32 stream;
     (len, stream) \<leftarrow> mem_stream_getU16 stream;
     (msg, stream) \<leftarrow> mem_stream_getBytes stream (unat len);
     Some (elems @ [\<lparr>qe_msg = msg, qe_channelNo = chan, qe_msgID = mid\<rparr>], stream)
   }"

definition get_disabled :: "(bool list list \<times> mem_stream) \<Rightarrow> nat \<Rightarrow> (bool list list \<times> mem_stream) option" where
  "get_disabled st typ = do {
     let (rows, stream) = st;
     (a, stream) \<leftarrow> mem_stream_getBits stream 1;
     (b, stream) \<leftarrow> mem_stream_getBits stream 1;
     rows \<leftarrow> mem_put typ [a \<noteq> 0, b \<noteq> 0] rows;
     Some (rows, stream)
   }"

text \<open>\<open>junk\<close> is what the stack holds where the address is read to.\<close>

definition comms_makeFromStream ::
    "CommsAddrRec \<Rightarrow> mem_stream \<Rightarrow> transport \<Rightarrow> curGameInfo \<Rightarrow> u16 \<Rightarrow> (CommsCtxt \<times> mem_stream) option" where
  "comms_makeFromStream junk stream procs ginfo forceChan = do {
     let version = mem_stream_getVersion stream;
     (isServer, stream) \<leftarrow> mem_stream_getU8 stream;
     (addr, stream) \<leftarrow> addrFromStream junk stream;
     (nHere, nTotal, stream) \<leftarrow>
       (if version \<ge> STREAM_VERS_DEVIDS \<or> addr_hasType addr COMMS_CONN_RELAY then do {
          (a, stream) \<leftarrow> mem_stream_getBits stream 4;
          (b, stream) \<leftarrow> mem_stream_getBits stream 4;
          Some (unat a, unat b, stream)
        } else Some (0, 0, stream));
     comms \<leftarrow> comms_make procs ginfo (isServer \<noteq> 0) nHere nTotal forceChan;
     let comms = comms\<lparr>cm_addr := addr\<rparr>;
     (cid, stream) \<leftarrow> mem_stream_getU32 stream;
     (nextChan, stream) \<leftarrow> mem_stream_getU16 stream;
     (seed, stream) \<leftarrow> (if version < STREAM_VERS_CHANNELSEED then Some (0, stream) else mem_stream_getU16 stream);
     let comms = comms\<lparr>cm_connID := cid, cm_nextChannelNo := nextChan, cm_channelSeed := seed\<rparr>;
     (backoff, resend, stream) \<leftarrow>
       (if STREAM_VERS_COMMSBACKOFF \<le> version then do {
          (b, stream) \<leftarrow> mem_stream_getU16 stream;
          (r, stream) \<leftarrow> mem_stream_getU32 stream;
          Some (b, r, stream)
        } else Some (0, 0, stream));
     let comms = comms\<lparr>cm_resendBackoff := backoff, cm_nextResend := resend\<rparr>;
     (comms, stream) \<leftarrow>
       (if addr_hasType addr COMMS_CONN_RELAY then do {
          (hid, stream) \<leftarrow> mem_stream_getU8 stream;
          (name, stream) \<leftarrow> stringFromStreamHere stream (MAX_CONNNAME_LEN + 1);
          Some (comms\<lparr>cm_myHostID := hid, cm_connName := name\<rparr>, stream)
        } else Some (comms, stream));
     (queueLen, stream) \<leftarrow> mem_stream_getU8 stream;
     (nAddrRecs, stream) \<leftarrow> mem_stream_getU8 stream;
     (recs, p, stream) \<leftarrow> ofold get_addrRec ([], 0, stream) [0..<unat nAddrRecs];
     (elems, stream) \<leftarrow> ofold get_queueElem ([], stream) [0..<unat queueLen];
     let comms = comms\<lparr>cm_queueLen := unat queueLen, cm_recs := recs, cm_nRecs := p, cm_msgQueue := elems\<rparr>;
     (rows, stream) \<leftarrow>
       (if STREAM_VERS_DISABLEDS \<le> version
        then ofold get_disabled (cm_disableds comms, stream) (disabled_types (cm_addr comms))
        else Some (cm_disableds comms, stream));
     Some (notifyQueueChanged (comms\<lparr>cm_disableds := rows\<rparr>), stream)
   }"

end
