(* ===== verification/Xw_CommsInv.thy ===== *)
theory Xw_CommsInv
  imports Xw_CommsIn
begin

text \<open>
  What the operations of \<open>comms.c\<close> do to the records, the queue and the messages that leave the
  device. Most of them are \<open>quiet\<close>: they may send some messages and touch neither the records nor the
  queue. The lemmas on the others say exactly how the records and the queue change.
\<close>

section \<open>Transports\<close>

lemma types_next_filter:
  "filter (\<lambda>n. type_mask n = (c AND type_mask n)) [st + 1..<COMMS_CONN_NTYPES] =
     (if types_next c st < COMMS_CONN_NTYPES
      then types_next c st # filter (\<lambda>n. type_mask n = (c AND type_mask n)) [types_next c st + 1..<COMMS_CONN_NTYPES]
      else [])"
proof (induction c st rule: types_next.induct)
  case (1 c st)
  show ?case
  proof (cases "st + 1 < COMMS_CONN_NTYPES")
    case True
    then have u: "[st + 1..<COMMS_CONN_NTYPES] = (st + 1) # [st + 1 + 1..<COMMS_CONN_NTYPES]"
      by (subst upt_conv_Cons) auto
    show ?thesis
    proof (cases "type_mask (st + 1) = (c AND type_mask (st + 1))")
      case m: True
      then have "types_next c st = st + 1" using True by (subst types_next.simps) (simp add: Let_def)
      then show ?thesis using True m by (simp only: u list.simps filter.simps simp_thms if_True)
    next
      case m: False
      then have "types_next c st = types_next c (st + 1)" using True by (subst types_next.simps) (simp add: Let_def)
      then show ?thesis using 1[OF refl True m] m by (simp only: u list.simps filter.simps simp_thms if_False)
    qed
  next
    case False
    then have "types_next c st = st + 1" by (subst types_next.simps) (simp add: Let_def)
    then show ?thesis using False by simp
  qed
qed

text \<open>The loop over the transports visits those whose bits are set, in order.\<close>

lemma iter_types_filter:
  "st < COMMS_CONN_NTYPES \<Longrightarrow>
     iter_types c st = map conType_of (filter (\<lambda>n. type_mask n = (c AND type_mask n)) [st + 1..<COMMS_CONN_NTYPES])"
proof (induction c st rule: iter_types.induct)
  case (1 c st)
  show ?case
  proof (cases "types_next c st < COMMS_CONN_NTYPES")
    case True
    then have t: "types_iter c st = Some (Some (conType_of (types_next c st)), types_next c st)"
      using "1.prems" by (simp add: types_iter_def Let_def)
    then have "iter_types c st = conType_of (types_next c st) # iter_types c (types_next c st)"
      by (subst iter_types.simps) simp
    then show ?thesis
      using "1.IH"[OF t refl refl True] True by (subst types_next_filter) simp
  next
    case False
    then have "types_iter c st = Some (None, COMMS_CONN_NTYPES - 1)"
      using "1.prems" by (simp add: types_iter_def Let_def)
    then show ?thesis
      using False by (subst iter_types.simps, subst types_next_filter) simp
  qed
qed

lemma u16_eq_iff: "(w :: u16) = v \<longleftrightarrow> (\<forall>k<16. bit w k = bit v k)"
  by (auto intro!: bit_word_eqI)

lemma masked_bit:
  assumes "0 < n" "n < COMMS_CONN_NTYPES"
  shows "type_mask n = (c AND type_mask n) \<longleftrightarrow> 0 \<noteq> (c AND type_mask n)"
proof -
  have b: "bit (type_mask n) k \<longleftrightarrow> k = n - 1" if "k < 16" for k
    using that by (auto simp: type_mask_def bit_simps)
  have n: "n - 1 < 16" using assms by (simp add: COMMS_CONN_NTYPES_def)
  have "type_mask n = (c AND type_mask n) \<longleftrightarrow> bit c (n - 1)"
    unfolding u16_eq_iff using n by (auto simp: bit_and_iff b)
  moreover have "0 \<noteq> (c AND type_mask n) \<longleftrightarrow> bit c (n - 1)"
    unfolding u16_eq_iff using n by (auto simp: bit_and_iff b)
  ultimately show ?thesis by simp
qed

lemma conType_of_number: "conType_of (conType_number t) = t" "conType_number t < COMMS_CONN_NTYPES"
  by (cases t; simp add: conType_of_def conTypes_list_def COMMS_CONN_NTYPES_def)+

lemma conType_number_of: "n < COMMS_CONN_NTYPES \<Longrightarrow> conType_number (conType_of n) = n"
proof -
  assume "n < COMMS_CONN_NTYPES"
  then have "n \<in> {0, 1, 2, 3, 4, 5, 6, 7, 8}" by (auto simp: COMMS_CONN_NTYPES_def)
  then show ?thesis by (elim insertE emptyE) (simp_all add: conType_of_def conTypes_list_def)
qed

lemma addr_types_eq: "addr_types a = filter (addr_hasType a) (tl conTypes_list)"
proof -
  have l: "tl conTypes_list = map conType_of [1..<COMMS_CONN_NTYPES]"
    by (simp add: conTypes_list_def conType_of_def COMMS_CONN_NTYPES_def upt_rec)
  have "addr_hasType a (conType_of n) \<longleftrightarrow> type_mask n = (addrConTypes a AND type_mask n)"
    if "n \<in> set [1..<COMMS_CONN_NTYPES]" for n
  proof -
    have n: "0 < n" "n < COMMS_CONN_NTYPES" using that by auto
    have "conType_of n \<noteq> COMMS_CONN_NONE" using n conType_number_of[of n] by (cases "conType_of n") auto
    then show ?thesis
      unfolding addr_hasType_def types_hasType_def conType_number_of[OF n(2)] masked_bit[OF n] by auto
  qed
  then have "filter (addr_hasType a \<circ> conType_of) [1..<COMMS_CONN_NTYPES] =
      filter (\<lambda>n. type_mask n = (addrConTypes a AND type_mask n)) [1..<COMMS_CONN_NTYPES]"
    by (intro filter_cong) auto
  then show ?thesis
    unfolding addr_types_def l filter_map by (subst iter_types_filter) (simp_all add: COMMS_CONN_NTYPES_def)
qed

section \<open>Streams of whole bytes\<close>

text \<open>The bytes of a stream that are still to be read.\<close>

definition unread :: "mem_stream \<Rightarrow> u8 list \<Rightarrow> bool" where
  "unread s bs \<longleftrightarrow> nReadBits s = 0 \<and> curReadPos s + length bs = nBytesWritten s \<and>
     nBytesWritten s \<le> nBytesAllocated s \<and> nBytesAllocated s = length (sbuf s) \<and> nBytesWritten s < 65536 \<and>
     take (length bs) (drop (curReadPos s) (sbuf s)) = bs"

lemma unread_size: "unread s bs \<Longrightarrow> mem_stream_getSize s = length bs"
proof -
  assume u: "unread s bs"
  then have "nBytesWritten s = curReadPos s + length bs" by (simp add: unread_def)
  moreover from u have "nBytesWritten s < 65536" by (simp add: unread_def)
  ultimately show ?thesis by (simp add: mem_stream_getSize_def)
qed

lemma unread_getBytes:
  assumes "unread s bs" and "n \<le> length bs"
  shows "mem_stream_getBytes s n = Some (take n bs, s\<lparr>curReadPos := curReadPos s + n\<rparr>)"
    and "unread (s\<lparr>curReadPos := curReadPos s + n\<rparr>) (drop n bs)"
proof -
  let ?d = "drop (curReadPos s) (sbuf s)"
  have u: "nReadBits s = 0" "nBytesWritten s = curReadPos s + length bs" "nBytesWritten s \<le> nBytesAllocated s"
    "nBytesAllocated s = length (sbuf s)" "nBytesWritten s < 65536" "take (length bs) ?d = bs"
    using assms(1) by (simp_all add: unread_def)
  have l: "length bs \<le> length ?d" using u by simp
  have "take n (take (length bs) ?d) = take n ?d" using assms(2) by (simp add: min_def)
  then have t: "take n ?d = take n bs" by (simp only: u(6))
  show "mem_stream_getBytes s n = Some (take n bs, s\<lparr>curReadPos := curReadPos s + n\<rparr>)"
    using u t assms(2) by (simp add: mem_stream_getBytes_def Let_def)
  have "drop n (take (length bs) ?d) = take (length bs - n) (drop n ?d)" by (rule drop_take)
  then have "take (length bs - n) (drop (curReadPos s + n) (sbuf s)) = drop n bs"
    by (simp only: u(6) drop_drop add.commute)
  then show "unread (s\<lparr>curReadPos := curReadPos s + n\<rparr>) (drop n bs)"
    using u assms(2) by (simp add: unread_def)
qed

lemma unread_getU16:
  "unread s bs \<Longrightarrow> 2 \<le> length bs \<Longrightarrow>
     mem_stream_getU16 s = Some (ntohs (take 2 bs), s\<lparr>curReadPos := curReadPos s + 2\<rparr>)"
  using unread_getBytes(1)[of s bs 2] by (simp add: mem_stream_getU16_def)

lemma unread_getU32:
  "unread s bs \<Longrightarrow> 4 \<le> length bs \<Longrightarrow>
     mem_stream_getU32 s = Some (ntohl (take 4 bs), s\<lparr>curReadPos := curReadPos s + 4\<rparr>)"
  using unread_getBytes(1)[of s bs 4] by (simp add: mem_stream_getU32_def)

text \<open>A stream that is written to byte by byte from its start.\<close>

definition filled :: "mem_stream \<Rightarrow> u8 list \<Rightarrow> bool" where
  "filled s bs \<longleftrightarrow> unread s bs \<and> curReadPos s = 0 \<and> curWritePos s = length bs \<and> nWriteBits s = 0 \<and>
     nBytesAllocated s < 65536"

lemma filled_raw: "filled mem_stream_make_raw []" "mem_stream_open mem_stream_make_raw = mem_stream_make_raw"
  by (simp_all add: filled_def unread_def mem_stream_make_raw_def mem_stream_make_def mem_stream_open_def
      START_OF_STREAM_def)

lemma filled_put:
  assumes f: "filled s bs" and p: "mem_stream_putBytes s xs = Some s'"
  shows "filled s' (bs @ xs)"
proof -
  let ?s1 = "if sbuf s = [] then s\<lparr>sbuf := replicate STREAM_INCR_SIZE 0, nBytesAllocated := STREAM_INCR_SIZE\<rparr> else s"
  have f1: "filled ?s1 bs" "sbuf ?s1 \<noteq> []"
    using f by (auto simp: filled_def unread_def STREAM_INCR_SIZE_def)
  let ?n = "length bs + length xs"
  have nb: "nBytesWritten ?s1 = length bs" "curWritePos ?s1 = length bs" "nWriteBits ?s1 = 0"
    using f1 by (auto simp: filled_def unread_def)
  from p obtain s2 b where s2: "(if ?n > nBytesAllocated ?s1 then do {
             xp_assert (?n + STREAM_INCR_SIZE < 65535);
             let n = trunc16 ?n + STREAM_INCR_SIZE;
             Some (?s1\<lparr>nBytesAllocated := n, sbuf := sbuf ?s1 @ replicate (n - length (sbuf ?s1)) 0\<rparr>)
           } else Some ?s1) = Some s2"
      and b: "mem_write (curWritePos s2) xs (sbuf s2) = Some b"
      and s': "s' = s2\<lparr>sbuf := b, nBytesWritten := trunc16 ?n, curWritePos := curWritePos s2 + length xs\<rparr>"
    unfolding mem_stream_putBytes_def Let_def using nb f
    by (auto simp: filled_def unread_def simp del: if_split split: if_split_asm)
  have a: "nBytesAllocated ?s1 < 65536" "nBytesAllocated ?s1 = length (sbuf ?s1)" "take (length bs) (sbuf ?s1) = bs"
    "length bs \<le> length (sbuf ?s1)"
    using f1 by (auto simp: filled_def unread_def)
  have g: "?n \<le> length (sbuf s2) \<and> nBytesAllocated s2 = length (sbuf s2) \<and> nBytesAllocated s2 < 65536 \<and>
      take (length bs) (sbuf s2) = bs \<and> curReadPos s2 = 0 \<and> nReadBits s2 = 0 \<and> nWriteBits s2 = 0 \<and> curWritePos s2 = length bs"
  proof (cases "?n > nBytesAllocated ?s1")
    case True
    then have "?n + STREAM_INCR_SIZE < 65535"
      and "s2 = ?s1\<lparr>nBytesAllocated := trunc16 ?n + STREAM_INCR_SIZE,
             sbuf := sbuf ?s1 @ replicate (trunc16 ?n + STREAM_INCR_SIZE - length (sbuf ?s1)) 0\<rparr>"
      using s2 by (simp_all only: if_True Let_def bind_unit_Some option.inject)
    then show ?thesis
      using True a f1 nb by (auto simp: filled_def unread_def STREAM_INCR_SIZE_def)
  next
    case False
    then have "s2 = ?s1" using s2 by simp
    then show ?thesis using False a f1 nb by (auto simp: filled_def unread_def)
  qed
  then have bb: "b = bs @ xs @ drop ?n (sbuf s2)"
    using b by (simp add: mem_write_def)
  then have "length b = length (sbuf s2)" using g by simp
  then show ?thesis using g bb by (simp add: s' filled_def unread_def)
qed

text \<open>The header of a message and its parts.\<close>

definition msg_header :: "u32 \<Rightarrow> u16 \<Rightarrow> u32 \<Rightarrow> u32 \<Rightarrow> u8 list" where
  "msg_header cid chan mid saved = htonl cid @ htons chan @ htonl mid @ htonl saved"

definition h_conn :: "u8 list \<Rightarrow> u32" where "h_conn b = ntohl (take 4 b)"
definition h_chan :: "u8 list \<Rightarrow> u16" where "h_chan b = ntohs (take 2 (drop 4 b))"
definition h_id :: "u8 list \<Rightarrow> u32" where "h_id b = ntohl (take 4 (drop 6 b))"
definition h_ack :: "u8 list \<Rightarrow> u32" where "h_ack b = ntohl (take 4 (drop 10 b))"
definition h_body :: "u8 list \<Rightarrow> u8 list" where "h_body b = drop 14 b"

lemma header_parts [simp]:
  "h_conn (msg_header cid chan mid saved @ body) = cid" "h_chan (msg_header cid chan mid saved @ body) = chan"
  "h_id (msg_header cid chan mid saved @ body) = mid" "h_ack (msg_header cid chan mid saved @ body) = saved"
  "h_body (msg_header cid chan mid saved @ body) = body" "length (msg_header cid chan mid saved) = 14"
  by (simp_all add: msg_header_def h_conn_def h_chan_def h_id_def h_ack_def h_body_def)

lemma putU32_bytes: "filled s bs \<Longrightarrow> mem_stream_putU32 s w = Some s' \<Longrightarrow> filled s' (bs @ htonl w)"
  by (simp add: mem_stream_putU32_def filled_put)

lemma putU16_bytes: "filled s bs \<Longrightarrow> mem_stream_putU16 s w = Some s' \<Longrightarrow> filled s' (bs @ htons w)"
  by (simp add: mem_stream_putU16_def filled_put)

text \<open>What a stream holds, as \<open>comms_send\<close> takes it.\<close>

definition payload_of :: "mem_stream option \<Rightarrow> u8 list" where
  "payload_of stream = (case stream of None \<Rightarrow> []
     | Some s \<Rightarrow> (case mem_stream_getBytes s (mem_stream_getSize s) of None \<Rightarrow> [] | Some (bs, s') \<Rightarrow> bs))"

definition rec_saved :: "nat option \<Rightarrow> CommsCtxt \<Rightarrow> u32" where
  "rec_saved p c = (case find (\<lambda>rec. Some (ar_id rec) = p) (cm_recs c) of None \<Rightarrow> 0 | Some r \<Rightarrow> ar_lastMsgSaved r)"

lemma makeElem_shape:
  assumes "makeElemWithID mid p chan stream c = Some (e, c')"
  shows "e = \<lparr>qe_msg = msg_header (cm_connID c) chan mid (rec_saved p c) @ payload_of stream, qe_channelNo = chan, qe_msgID = mid\<rparr>"
    and "c' = (case find (\<lambda>rec. Some (ar_id rec) = p) (cm_recs c) of None \<Rightarrow> c
               | Some r \<Rightarrow> upd_rec (ar_id r) (\<lambda>q. q\<lparr>ar_lastMsgAckd := ar_lastMsgSaved r\<rparr>) c)"
proof -
  let ?r = "find (\<lambda>rec. Some (ar_id rec) = p) (cm_recs c)"
  from assms obtain h1 h2 h3 h4 hd h5 body where h: "mem_stream_putU32 mem_stream_make_raw (cm_connID c) = Some h1"
      "mem_stream_putU16 h1 chan = Some h2" "mem_stream_putU32 h2 mid = Some h3"
      "mem_stream_putU32 h3 (rec_saved p c) = Some h4" "mem_stream_getBytes h4 (mem_stream_getSize h4) = Some (hd, h5)"
      and body: "(case stream of None \<Rightarrow> Some []
              | Some s \<Rightarrow> if 0 < mem_stream_getSize s then map_option fst (mem_stream_getBytes s (mem_stream_getSize s)) else Some []) = Some body"
      and e: "e = \<lparr>qe_msg = hd @ body, qe_channelNo = chan, qe_msgID = mid\<rparr>"
      and c': "c' = (case ?r of None \<Rightarrow> c
               | Some r \<Rightarrow> upd_rec (ar_id r) (\<lambda>q. q\<lparr>ar_lastMsgAckd := rec_saved p c\<rparr>) c)"
    unfolding makeElemWithID_def Let_def filled_raw(2) rec_saved_def
    by (auto simp del: if_split simp: bind_unit_Some split: option.split_asm)
  have "filled h4 (msg_header (cm_connID c) chan mid (rec_saved p c))"
    using putU32_bytes[OF putU32_bytes[OF putU16_bytes[OF putU32_bytes[OF filled_raw(1) h(1)] h(2)] h(3)] h(4)]
    by (simp add: msg_header_def)
  then have u: "unread h4 (msg_header (cm_connID c) chan mid (rec_saved p c))" by (simp add: filled_def)
  have hd: "hd = msg_header (cm_connID c) chan mid (rec_saved p c)"
    using h(5) unread_getBytes(1)[OF u order_refl] unread_size[OF u] by simp
  have "body = payload_of stream"
    using body by (auto simp: payload_of_def mem_stream_getBytes_def Let_def split: option.splits if_splits)
  then show "e = \<lparr>qe_msg = msg_header (cm_connID c) chan mid (rec_saved p c) @ payload_of stream, qe_channelNo = chan, qe_msgID = mid\<rparr>"
    using e hd by simp
  show "c' = (case ?r of None \<Rightarrow> c | Some r \<Rightarrow> upd_rec (ar_id r) (\<lambda>q. q\<lparr>ar_lastMsgAckd := ar_lastMsgSaved r\<rparr>) c)"
    using c' by (simp add: rec_saved_def split: option.splits)
qed

section \<open>Operations that leave the records and the queue alone\<close>

text \<open>The messages that left the device other than through the relay.\<close>

definition frames :: "CommsCtxt \<Rightarrow> u8 list set" where
  "frames c = {b. \<exists>msgNo addr typ gid. CEvSend b msgNo addr typ gid \<in> set (cm_out c) \<and> typ \<noteq> COMMS_CONN_RELAY}"

definition comms_core ::
    "CommsCtxt \<Rightarrow> AddressRecord list \<times> MsgQueueElem list \<times> nat \<times> u32 \<times> bool \<times> bool \<times> nat" where
  "comms_core c = (cm_recs c, cm_msgQueue c, cm_queueLen c, cm_connID c, cm_isServer c, cm_processingMsg c, cm_nRecs c)"

definition quiet :: "u8 list set \<Rightarrow> CommsCtxt \<Rightarrow> CommsCtxt \<Rightarrow> bool" where
  "quiet X c c' \<longleftrightarrow> comms_core c' = comms_core c \<and> frames c \<subseteq> frames c' \<and> frames c' \<subseteq> frames c \<union> X"

lemma quiet_refl [simp]: "quiet X c c"
  by (simp add: quiet_def)

lemma quiet_trans: "quiet X c c' \<Longrightarrow> quiet X c' c'' \<Longrightarrow> quiet X c c''"
  by (auto simp: quiet_def)

lemma quiet_mono: "quiet X c c' \<Longrightarrow> X \<subseteq> Y \<Longrightarrow> quiet Y c c'"
  by (auto simp: quiet_def)

lemma quiet_empty: "quiet {} c c' \<Longrightarrow> quiet X c c'"
  by (rule quiet_mono) auto

lemma quiet_core: "quiet X c c' \<Longrightarrow> comms_core c' = comms_core c"
  by (simp add: quiet_def)

lemma quiet_same: "comms_core c' = comms_core c \<Longrightarrow> cm_out c' = cm_out c \<Longrightarrow> quiet X c c'"
  by (simp add: quiet_def frames_def)

text \<open>An event that is no message, and one that is.\<close>

definition sends :: "commsEvent \<Rightarrow> u8 list set" where
  "sends ev = (case ev of CEvSend b msgNo addr typ gid \<Rightarrow> if typ = COMMS_CONN_RELAY then {} else {b} | _ \<Rightarrow> {})"

lemma frames_emit [simp]: "frames (comms_emit ev c) = frames c \<union> sends ev"
  by (auto simp: frames_def comms_emit_def sends_def split: commsEvent.splits if_splits)

lemma core_emit [simp]: "comms_core (comms_emit ev c) = comms_core c"
  by (simp add: comms_core_def comms_emit_def)

lemma sends_simps [simp]:
  "sends (CEvSend b m a t g) = (if t = COMMS_CONN_RELAY then {} else {b})"
  "sends (CEvSendNoConn b k i) = {}" "sends (CEvRelayStatus st) = {}" "sends (CEvCountChanged n) = {}"
  "sends (CEvSetTimer n) = {}"
  by (simp_all add: sends_def)

named_theorems comms_quiet

lemma quiet_set_relay_state [comms_quiet]: "quiet X c (set_relay_state st c)"
proof -
  have "comms_core (c\<lparr>cm_relayState := st\<rparr>) = comms_core c" "frames (c\<lparr>cm_relayState := st\<rparr>) = frames c"
    by (simp_all add: comms_core_def frames_def)
  then show ?thesis by (simp add: set_relay_state_def quiet_def Let_def)
qed

lemma quiet_procs_send [comms_quiet]:
  "quiet (if typ = COMMS_CONN_RELAY then {} else {buf}) c (snd (procs_send buf msgNo addr typ gid c))"
proof -
  have "quiet {} c (c\<lparr>cm_nSends := cm_nSends c + 1\<rparr>)" by (rule quiet_same) (simp_all add: comms_core_def)
  then show ?thesis by (auto simp: procs_send_def quiet_def)
qed

lemma quiet_procs_relay: "quiet X c (snd (procs_send buf msgNo addr COMMS_CONN_RELAY gid c))"
  using quiet_procs_send[of COMMS_CONN_RELAY buf c msgNo addr gid] by (simp add: quiet_empty)

lemma quiet_gameID [comms_quiet]: "quiet X c (snd (comms_gameID c))"
  by (auto simp: comms_gameID_def Let_def comms_core_def intro!: quiet_same split: if_splits)

lemma quiet_seconds [comms_quiet]: "quiet X c (snd (comms_seconds c))"
  by (auto simp: comms_seconds_def comms_core_def intro!: quiet_same)

lemma quiet_channelSeed [comms_quiet]: "comms_getChannelSeed c = Some (seed, c') \<Longrightarrow> quiet X c c'"
proof -
  have "quiet X c (snd r)" if "channelSeed_loop s c = Some r" for s c r
  proof (rule channelSeed_loop.raw_induct[of "\<lambda>s c r. quiet X c (snd r)", OF _ that], goal_cases)
    case (1 loop s c r)
    show ?case
    proof (cases "0 = s AND NOT CHANNEL_MASK")
      case True
      obtain n d where d: "comms_random c = (n, d)" by force
      let ?x = "(of_nat n AND NOT CHANNEL_MASK) OR cm_forceChannel d"
      have "loop ?x (d\<lparr>cm_channelSeed := ?x\<rparr>) = Some r"
        using 1(2) True by (simp add: d Let_def)
      from 1(1)[OF this] have q: "quiet X (d\<lparr>cm_channelSeed := ?x\<rparr>) (snd r)" .
      have "quiet X c (d\<lparr>cm_channelSeed := ?x\<rparr>)"
        by (rule quiet_same) (use d in \<open>auto simp: comms_random_def comms_core_def\<close>)
      then show ?thesis using q by (rule quiet_trans)
    next
      case False
      then show ?thesis using 1(2) by auto
    qed
  qed
  then show "comms_getChannelSeed c = Some (seed, c') \<Longrightarrow> quiet X c c'"
    by (fastforce simp: comms_getChannelSeed_def)
qed

lemma quiet_connect_players: "relay_connect_players c stream = Some (s', c') \<Longrightarrow> quiet X c c'"
  by (auto simp: relay_connect_players_def intro: quiet_channelSeed)

lemma quiet_relay_msg [comms_quiet]: "relay_msg_to_stream c cmd destID payload = Some (s', c') \<Longrightarrow> quiet X c c'"
  by (cases cmd)
    (auto simp: relay_msg_to_stream_def Let_def intro: quiet_trans[OF quiet_connect_players quiet_set_relay_state])

text \<open>The same as steps of a longer run.\<close>

lemmas quiet_steps = quiet_trans[OF _ quiet_gameID] quiet_trans[OF _ quiet_procs_relay]
  quiet_trans[OF _ quiet_seconds] quiet_trans[OF _ quiet_set_relay_state]

lemma quiet_send_via_relay [comms_quiet]:
  "send_via_relay c cmd destID payload msgNo = Some (ok, c') \<Longrightarrow> quiet X c c'"
  by (auto simp: send_via_relay_def Let_def case_prod_beta split: if_split_asm
      dest!: quiet_relay_msg[where X = X] intro: quiet_steps)

lemma quiet_field [simp]:
  "quiet X (c\<lparr>cm_nNoConns := n\<rparr>) d = quiet X c d" "quiet X c (d\<lparr>cm_nNoConns := n\<rparr>) = quiet X c d"
  "quiet X (c\<lparr>cm_connecting := b\<rparr>) d = quiet X c d" "quiet X c (d\<lparr>cm_connecting := b\<rparr>) = quiet X c d"
  "quiet X (c\<lparr>cm_hbTimerPending := b\<rparr>) d = quiet X c d" "quiet X c (d\<lparr>cm_hbTimerPending := b\<rparr>) = quiet X c d"
  "quiet X (c\<lparr>cm_reconTimerPending := b\<rparr>) d = quiet X c d" "quiet X c (d\<lparr>cm_reconTimerPending := b\<rparr>) = quiet X c d"
  "quiet X c (d\<lparr>cm_resendBackoff := k, cm_nextResend := t\<rparr>) = quiet X c d"
  by (simp_all add: quiet_def comms_core_def frames_def)

lemma quiet_emit_other: "sends ev = {} \<Longrightarrow> quiet X c d \<Longrightarrow> quiet X c (comms_emit ev d)"
  by (simp add: quiet_def)

lemma quiet_sendNoConn: "sendNoConn c elem destID = Some (ok, c') \<Longrightarrow> quiet X c c'"
  by (auto simp: sendNoConn_def Let_def split: option.split_asm if_split_asm
      intro!: quiet_emit_other dest!: quiet_relay_msg[where X = X])

lemma quiet_relayConnect: "relayConnect c = Some (ok, c') \<Longrightarrow> quiet X c c'"
  by (auto simp: relayConnect_def Let_def split: if_split_asm dest!: quiet_send_via_relay[where X = X])

lemma quiet_relayDisconnect [comms_quiet]: "relayDisconnect c = Some c' \<Longrightarrow> quiet X c c'"
  by (auto simp: relayDisconnect_def split: if_split_asm intro: quiet_steps quiet_set_relay_state
      dest!: quiet_send_via_relay[where X = X])

lemma quiet_set_reset_timer: "quiet X c (set_reset_timer c)"
  by (simp add: set_reset_timer_def quiet_emit_other)

lemma quiet_resetTimer [comms_quiet]: "p_comms_resetTimer c = Some c' \<Longrightarrow> quiet X c c'"
  by (auto simp: p_comms_resetTimer_def split: if_split_asm
      intro: quiet_set_reset_timer quiet_trans[OF _ quiet_set_reset_timer] dest!: quiet_relayConnect[where X = X])

lemma quiet_transportFailed [comms_quiet]: "comms_transportFailed t c = Some c' \<Longrightarrow> quiet X c c'"
  by (auto simp: comms_transportFailed_def split: if_split_asm
      intro: quiet_trans[OF _ quiet_set_reset_timer] dest!: quiet_relayDisconnect[where X = X])

lemma quiet_stop [comms_quiet]: "comms_stop c = Some c' \<Longrightarrow> quiet X c c'"
  by (auto simp: comms_stop_def split: if_split_asm dest!: quiet_relayDisconnect[where X = X])

lemma quiet_setAddrDisabled [comms_quiet]: "comms_setAddrDisabled t s b c = Some c' \<Longrightarrow> quiet X c c'"
  by (auto simp: comms_setAddrDisabled_def comms_core_def intro!: quiet_same)

text \<open>Sending a message lets it leave the device, and nothing else.\<close>

lemma quiet_send_by_type:
  assumes "send_by_type elem filt addr typ c = Some (n, c')"
  shows "quiet {qe_msg elem} c c'"
proof -
  let ?X = "{qe_msg elem}"
  obtain off where off: "comms_getAddrDisabled c typ True = Some off"
    using assms by (auto simp: send_by_type_def)
  consider "off \<or> (COMMS_CONN_NONE \<noteq> filt \<and> filt \<noteq> typ)" | (relay) "\<not> off" "\<not> (COMMS_CONN_NONE \<noteq> filt \<and> filt \<noteq> typ)" "typ = COMMS_CONN_RELAY"
    | (other) "\<not> off" "\<not> (COMMS_CONN_NONE \<noteq> filt \<and> filt \<noteq> typ)" "typ \<noteq> COMMS_CONN_RELAY" by blast
  then show ?thesis
  proof cases
    case 1
    then show ?thesis using assms off by (auto simp: send_by_type_def split: if_split_asm)
  next
    case relay
    obtain destID where d: "getDestID c (qe_channelNo elem) = Some destID"
      using assms off relay by (auto simp: send_by_type_def)
    show ?thesis
    proof (cases "HOST_ID_NONE = destID")
      case True
      then show ?thesis using assms off relay d by (auto simp: send_by_type_def)
    next
      case False
      obtain noConn c1 where n: "(if haveRelayID c then sendNoConn c elem destID else Some (False, c)) = Some (noConn, c1)"
        and r: "(if noConn then Some (s16 (int (length (qe_msg elem))), c1)
         else if relayState_number (cm_relayState c1) \<ge> relayState_number COMMS_RELAYSTATE_CONNECTED then do {
           (ok, comms) \<leftarrow> send_via_relay c1 XWRELAY_MSG_TORELAY destID (qe_msg elem) (Some (formatMsgNo c1 elem));
           Some (if ok then s16 (int (length (qe_msg elem))) else -1, comms)
         } else Some (-1, c1)) = Some (n, c')"
        using assms off relay d False by (auto simp: send_by_type_def simp del: if_split)
      have q: "quiet ?X c c1" using n by (auto split: if_split_asm dest: quiet_sendNoConn)
      show ?thesis using r q by (auto split: if_split_asm dest!: quiet_send_via_relay[where X = ?X] intro: quiet_trans)
    qed
  next
    case other
    then have "c' = snd (procs_send (qe_msg elem) (Some (formatMsgNo (snd (comms_gameID c)) elem)) (Some addr) typ
        (fst (comms_gameID c)) (snd (comms_gameID c)))"
      using assms off by (auto simp: send_by_type_def case_prod_beta)
    then show ?thesis
      using quiet_trans[OF quiet_gameID quiet_procs_send[of "typ" "qe_msg elem"]] other(3) by (simp add: quiet_mono)
  qed
qed

lemma quiet_ofold:
  assumes step: "\<And>s x s'. x \<in> set xs \<Longrightarrow> f s x = Some s' \<Longrightarrow> quiet X (g s) (g s')" and "ofold f s xs = Some t"
  shows "quiet X (g s) (g t)"
  by (rule ofold_invariant[where P = "\<lambda>u. quiet X (g s) (g u)", OF quiet_refl _ assms(2)])
    (use step in \<open>blast intro: quiet_trans\<close>)

lemma quiet_sendMsg:
  assumes "sendMsg elem filt c = Some (n, c')"
  shows "quiet {qe_msg elem} c c'"
proof -
  obtain addr r where "ofold (\<lambda>(result, comms) typ. do {
         (nSent, comms) \<leftarrow> send_by_type elem filt addr typ comms;
         Some (if nSent > result then nSent else result, comms)
       }) (-1, c) (addr_types addr) = Some (r, c')"
    using assms by (auto simp: sendMsg_def)
  then have "quiet {qe_msg elem} (snd (-1 :: int, c)) (snd (r, c'))"
    by (rule quiet_ofold[where g = snd, rotated]) (auto dest: quiet_send_by_type)
  then show ?thesis by simp
qed

lemma quiet_resend_loop:
  assumes "resend_loop (\<lambda>msg c. sendMsg msg filt c) k msgs c = Some (ok, n, c')"
  shows "quiet (qe_msg ` set msgs) c c'"
  using assms
proof (induction msgs arbitrary: k c)
  case (Cons m msgs)
  from Cons.prems obtain len d where d: "sendMsg m filt c = Some (len, d)"
    and r: "(if 0 > len then Some (False, k, d) else do { xp_assert (0 < len);
       resend_loop (\<lambda>msg c. sendMsg msg filt c) (k + 1) msgs d }) = Some (ok, n, c')"
    by (auto simp del: if_split)
  have q: "quiet (qe_msg ` set (m # msgs)) c d" by (rule quiet_mono[OF quiet_sendMsg[OF d]]) simp
  show ?case
  proof (cases "0 > len")
    case True
    then show ?thesis using r q by simp
  next
    case False
    then have "quiet (qe_msg ` set msgs) d c'" using r Cons.IH[of "k + 1" d] by (simp add: bind_unit_Some)
    then have "quiet (qe_msg ` set (m # msgs)) d c'" by (rule quiet_mono) auto
    then show ?thesis using q by (rule quiet_trans[rotated])
  qed
qed simp

lemma quiet_resendAll:
  assumes "comms_resendAll filt force c = Some (n, c')"
  shows "quiet (qe_msg ` set (cm_msgQueue c)) c c'"
proof -
  let ?X = "qe_msg ` set (cm_msgQueue c)" and ?d = "snd (comms_seconds c)"
  have q: "quiet ?X c ?d" by (rule quiet_seconds)
  then have m: "cm_msgQueue ?d = cm_msgQueue c" by (auto dest: quiet_core simp: comms_core_def)
  from assms consider "c' = ?d" | (loop) ok k e where
      "resend_loop (\<lambda>msg c. sendMsg msg filt c) 0 (cm_msgQueue ?d) ?d = Some (ok, k, e)"
      "quiet ?X c e \<Longrightarrow> quiet ?X c c'"
    unfolding comms_resendAll_def resendImpl_def case_prod_beta Let_def
    by (auto split: if_split_asm)
  then show ?thesis
  proof cases
    case 1
    then show ?thesis using q by simp
  next
    case loop
    have "quiet ?X c e" using quiet_trans[OF q] quiet_resend_loop[OF loop(1)] m by simp
    then show ?thesis by (rule loop(2))
  qed
qed

section \<open>Operations on the queue\<close>

definition comms_rest :: "CommsCtxt \<Rightarrow> AddressRecord list \<times> u32 \<times> bool \<times> bool \<times> nat" where
  "comms_rest c = (cm_recs c, cm_connID c, cm_isServer c, cm_processingMsg c, cm_nRecs c)"

lemma rest_core: "comms_core c' = comms_core c \<Longrightarrow> comms_rest c' = comms_rest c"
  by (simp add: comms_core_def comms_rest_def)

lemma elems_same_eq: "elems_same e e' \<longleftrightarrow> e = e'"
  by (cases e; cases e') (auto simp: elems_same_def)

lemma frames_field [simp]:
  "frames (c\<lparr>cm_msgQueue := q\<rparr>) = frames c" "frames (c\<lparr>cm_queueLen := n\<rparr>) = frames c"
  "frames (c\<lparr>cm_msgQueue := q, cm_queueLen := n\<rparr>) = frames c" "frames (c\<lparr>cm_recs := rs\<rparr>) = frames c"
  "frames (c\<lparr>cm_processingMsg := b\<rparr>) = frames c" "frames (c\<lparr>cm_lastSaveToken := k\<rparr>) = frames c"
  by (simp_all add: frames_def)

lemma notify_sel [simp]:
  "comms_rest (notifyQueueChanged u) = comms_rest u" "frames (notifyQueueChanged u) = frames u"
  "cm_msgQueue (notifyQueueChanged u) = cm_msgQueue u" "cm_queueLen (notifyQueueChanged u) = cm_queueLen u"
  by (simp_all add: notifyQueueChanged_def) (simp_all add: comms_rest_def comms_emit_def)

lemma rest_field [simp]:
  "comms_rest (c\<lparr>cm_msgQueue := q\<rparr>) = comms_rest c" "comms_rest (c\<lparr>cm_queueLen := n\<rparr>) = comms_rest c"
  "comms_rest (c\<lparr>cm_msgQueue := q, cm_queueLen := n\<rparr>) = comms_rest c"
  by (simp_all add: comms_rest_def)

lemma addToQueue_shape:
  assumes "addToQueue e c = Some (added, c')"
  shows "comms_rest c' = comms_rest c" "frames c' = frames c"
    and "cm_msgQueue c' = (if added then cm_msgQueue c @ [e] else cm_msgQueue c)"
    and "\<not> added \<longrightarrow> e \<in> set (cm_msgQueue c)"
  using assms
  by (auto simp: addToQueue_def Let_def bind_unit_Some elems_same_eq split: if_split_asm)

lemma addToQueue_len:
  assumes "addToQueue e c = Some (added, c')" "cm_queueLen c = length (cm_msgQueue c)"
  shows "cm_queueLen c' = length (cm_msgQueue c') \<and> cm_queueLen c' \<le> 128"
  using assms by (auto simp: addToQueue_def Let_def bind_unit_Some split: if_split_asm)

text \<open>The elements that an acknowledgement of \<open>x\<close> on a channel removes.\<close>

definition acked :: "u16 \<Rightarrow> u32 \<Rightarrow> MsgQueueElem \<Rightarrow> bool" where
  "acked chan x e \<longleftrightarrow> qe_msgID e \<le> x \<and>
     ((NOT CHANNEL_MASK AND qe_channelNo e) = 0 \<and> chan \<noteq> 0 \<or>
      (NOT CHANNEL_MASK AND qe_channelNo e) = (NOT CHANNEL_MASK AND chan))"

lemma requeue_one_shape:
  assumes "requeue_one chan x c e = Some c'"
  shows "comms_rest c' = comms_rest c" "frames c' = frames c"
    and "cm_msgQueue c' = (if acked chan x e then cm_msgQueue c else cm_msgQueue c @ [e])"
proof -
  let ?m = "NOT CHANNEL_MASK AND qe_channelNo e"
  obtain knownGood where k: "(if ?m = 0 \<and> chan \<noteq> 0 then do {
          xp_assert (\<not> cm_isServer c); xp_assert (qe_msgID e = 0); Some False
        } else Some (?m \<noteq> (NOT CHANNEL_MASK AND chan))) = Some knownGood"
    and r: "(if \<not> knownGood \<and> qe_msgID e \<le> x then Some c
       else do { (asAdded, comms) \<leftarrow> addToQueue e c; xp_assert asAdded; Some comms }) = Some c'"
    using assms by (auto simp: requeue_one_def Let_def simp del: if_split)
  have a: "(\<not> knownGood \<and> qe_msgID e \<le> x) = acked chan x e"
    using k by (auto simp: acked_def bind_unit_Some split: if_split_asm)
  have "comms_rest c' = comms_rest c \<and> frames c' = frames c \<and>
      cm_msgQueue c' = (if acked chan x e then cm_msgQueue c else cm_msgQueue c @ [e])"
  proof (cases "acked chan x e")
    case True
    then show ?thesis using r unfolding a by simp
  next
    case False
    then have "addToQueue e c = Some (True, c')" using r unfolding a by (auto simp: bind_unit_Some)
    then show ?thesis using False addToQueue_shape[of e c True c'] by simp
  qed
  then show "comms_rest c' = comms_rest c" "frames c' = frames c"
    and "cm_msgQueue c' = (if acked chan x e then cm_msgQueue c else cm_msgQueue c @ [e])" by auto
qed

lemma requeue_shape:
  "ofold (requeue_one chan x) c es = Some c' \<Longrightarrow>
     comms_rest c' = comms_rest c \<and> frames c' = frames c \<and>
     cm_msgQueue c' = cm_msgQueue c @ filter (\<lambda>e. \<not> acked chan x e) es"
proof (induction es arbitrary: c)
  case (Cons e es)
  then obtain d where d: "requeue_one chan x c e = Some d" "ofold (requeue_one chan x) d es = Some c'"
    by (auto split: option.split_asm)
  then show ?case using Cons.IH[OF d(2)] requeue_one_shape[OF d(1)] by simp
qed simp

lemma removeFromQueue_shape:
  assumes "removeFromQueue chan x c = Some c'"
  shows "comms_rest c' = comms_rest c" "frames c' = frames c" "cm_queueLen c' = length (cm_msgQueue c')"
    and "cm_msgQueue c' = (if chan = 0 \<or> getRecordFor c chan False \<noteq> None
           then filter (\<lambda>e. \<not> acked chan x e) (cm_msgQueue c) else cm_msgQueue c)"
proof -
  let ?b = "chan = 0 \<or> getRecordFor c chan False \<noteq> None"
  from assms obtain d where d: "(if ?b then do {
          comms \<leftarrow> ofold (requeue_one chan x) (c\<lparr>cm_msgQueue := [], cm_queueLen := 0\<rparr>) (cm_msgQueue c);
          Some (notifyQueueChanged comms)
        } else Some c) = Some d" and c': "c' = d" "length (cm_msgQueue d) = cm_queueLen d"
    by (auto simp: removeFromQueue_def assertQueueOk_def simp del: if_split)
  have "comms_rest c' = comms_rest c \<and> frames c' = frames c \<and> cm_msgQueue c' =
      (if ?b then filter (\<lambda>e. \<not> acked chan x e) (cm_msgQueue c) else cm_msgQueue c)"
  proof (cases ?b)
    case True
    then obtain u where u: "ofold (requeue_one chan x) (c\<lparr>cm_msgQueue := [], cm_queueLen := 0\<rparr>) (cm_msgQueue c) = Some u"
        "c' = notifyQueueChanged u"
      using d c'(1) by auto
    then show ?thesis using True requeue_shape[OF u(1)] by simp
  next
    case False
    then show ?thesis using d c'(1) by simp
  qed
  then show "comms_rest c' = comms_rest c" "frames c' = frames c"
    and "cm_msgQueue c' = (if ?b then filter (\<lambda>e. \<not> acked chan x e) (cm_msgQueue c) else cm_msgQueue c)" by auto
  show "cm_queueLen c' = length (cm_msgQueue c')" using c' by simp
qed

section \<open>Sending\<close>

lemma upd_rec_sel [simp]:
  "cm_connID (upd_rec p f c) = cm_connID c" "cm_msgQueue (upd_rec p f c) = cm_msgQueue c"
  "cm_isServer (upd_rec p f c) = cm_isServer c" "cm_processingMsg (upd_rec p f c) = cm_processingMsg c"
  "cm_nRecs (upd_rec p f c) = cm_nRecs c" "cm_out (upd_rec p f c) = cm_out c" "frames (upd_rec p f c) = frames c"
  "cm_recs (upd_rec p f c) = map (\<lambda>r. if ar_id r = p then f r else r) (cm_recs c)"
  "cm_queueLen (upd_rec p f c) = cm_queueLen c" "cm_addr (upd_rec p f c) = cm_addr c"
  by (simp_all add: upd_rec_def frames_def)

lemma rec_saved_found:
  "r \<in> set (cm_recs c) \<Longrightarrow> distinct (map ar_id (cm_recs c)) \<Longrightarrow>
     find (\<lambda>rec. Some (ar_id rec) = Some (ar_id r)) (cm_recs c) = Some r"
proof -
  assume r: "r \<in> set (cm_recs c)" and d: "distinct (map ar_id (cm_recs c))"
  have "find (\<lambda>rec. ar_id rec = ar_id r) xs = Some r" if "r \<in> set xs" "distinct (map ar_id xs)" for xs
    using that by (induction xs) (auto simp: image_iff)
  then show ?thesis using r d by simp
qed

text \<open>The number of a new message, the record after it, and the message.\<close>

definition stamped :: "AddressRecord \<Rightarrow> AddressRecord" where
  "stamped r = r\<lparr>ar_nextMsgID := ar_nextMsgID r + 1, ar_lastMsgAckd := ar_lastMsgSaved r\<rparr>"

lemma getRecord_in: "getRecordFor c chan m = Some r \<Longrightarrow> r \<in> set (cm_recs c)"
  by (auto simp: getRecordFor_def Let_def find_Some_iff)

lemma comms_send_known:
  assumes s: "comms_send stream c = Some (n, c')" and nz: "mem_stream_getSize stream \<noteq> 0"
    and r: "getRecordFor c (mem_stream_getAddress stream) False = Some r"
    and chan: "mem_stream_getAddress stream \<noteq> 0" and d: "distinct (map ar_id (cm_recs c))"
  defines "e \<equiv> \<lparr>qe_msg = msg_header (cm_connID c) (mem_stream_getAddress stream) (ar_nextMsgID r + 1) (ar_lastMsgSaved r)
      @ payload_of (Some stream), qe_channelNo = mem_stream_getAddress stream, qe_msgID = ar_nextMsgID r + 1\<rparr>"
  shows "cm_recs c' = map (\<lambda>q. if ar_id q = ar_id r then stamped q else q) (cm_recs c)"
    and "cm_connID c' = cm_connID c" "cm_isServer c' = cm_isServer c" "cm_processingMsg c' = cm_processingMsg c"
    and "cm_nRecs c' = cm_nRecs c" "frames c \<subseteq> frames c'" "frames c' \<subseteq> frames c \<union> {qe_msg e}"
    and "cm_msgQueue c' = cm_msgQueue c @ [e] \<or> e \<in> set (cm_msgQueue c) \<and> cm_msgQueue c' = cm_msgQueue c"
    and "cm_queueLen c = length (cm_msgQueue c) \<Longrightarrow> cm_queueLen c' = length (cm_msgQueue c') \<and> cm_queueLen c' \<le> 128"
proof -
  let ?chan = "mem_stream_getAddress stream" and ?mid = "ar_nextMsgID r + 1"
  let ?c1 = "upd_rec (ar_id r) (\<lambda>r. r\<lparr>ar_nextMsgID := ?mid\<rparr>) c"
  from s obtain el c2 added c3 where m: "makeElemWithID ?mid (Some (ar_id r)) ?chan (Some stream) ?c1 = Some (el, c2)"
      and q: "addToQueue el c2 = Some (added, c3)" and snd: "sendMsg el COMMS_CONN_NONE c3 = Some (n, c')"
    using nz chan by (auto simp: comms_send_def r Let_def)
  have rin: "r \<in> set (cm_recs c)" by (rule getRecord_in[OF r])
  let ?r1 = "r\<lparr>ar_nextMsgID := ?mid\<rparr>"
  have r1: "?r1 \<in> set (cm_recs ?c1)" using rin by (auto simp: image_iff)
  have d1: "distinct (map ar_id (cm_recs ?c1))"
  proof -
    have "map ar_id (cm_recs ?c1) = map ar_id (cm_recs c)" by simp
    then show ?thesis using d by metis
  qed
  have f: "find (\<lambda>rec. Some (ar_id rec) = Some (ar_id r)) (cm_recs ?c1) = Some ?r1"
    using rec_saved_found[OF r1 d1] by simp
  have sv: "rec_saved (Some (ar_id r)) ?c1 = ar_lastMsgSaved r" using f by (simp only: rec_saved_def option.case) simp
  have el: "el = e" using makeElem_shape(1)[OF m] sv by (simp add: e_def)
  have c2: "c2 = upd_rec (ar_id r) (\<lambda>q. q\<lparr>ar_lastMsgAckd := ar_lastMsgSaved r\<rparr>) ?c1"
    using makeElem_shape(2)[OF m] unfolding f by simp
  note A = addToQueue_shape[OF q]
  have quiet: "quiet {qe_msg e} c3 c'" using quiet_sendMsg[OF snd] by (simp add: el)
  have core: "comms_core c' = comms_core c3" by (rule quiet_core[OF quiet])
  have recs2: "cm_recs c2 = map (\<lambda>q. if ar_id q = ar_id r then stamped q else q) (cm_recs c)"
  proof -
    have "q = r" if "q \<in> set (cm_recs c)" "ar_id q = ar_id r" for q
      using that rin d by (metis distinct_map inj_onD)
    then show ?thesis by (auto simp: c2 stamped_def)
  qed
  show "cm_recs c' = map (\<lambda>q. if ar_id q = ar_id r then stamped q else q) (cm_recs c)"
    using core A(1) recs2 by (simp add: comms_core_def comms_rest_def)
  show "cm_connID c' = cm_connID c" "cm_isServer c' = cm_isServer c" "cm_processingMsg c' = cm_processingMsg c"
    "cm_nRecs c' = cm_nRecs c"
    using core A(1) by (simp_all add: comms_core_def comms_rest_def c2)
  show "frames c \<subseteq> frames c'" "frames c' \<subseteq> frames c \<union> {qe_msg e}"
    using quiet A(2) by (auto simp: quiet_def c2)
  show "cm_msgQueue c' = cm_msgQueue c @ [e] \<or> e \<in> set (cm_msgQueue c) \<and> cm_msgQueue c' = cm_msgQueue c"
    using core A(3,4) by (auto simp: comms_core_def c2 el)
  show "cm_queueLen c' = length (cm_msgQueue c') \<and> cm_queueLen c' \<le> 128" if "cm_queueLen c = length (cm_msgQueue c)"
    using core addToQueue_len[OF q] that by (simp add: comms_core_def c2)
qed

section \<open>Acknowledging\<close>

text \<open>A record but for what was acknowledged, which decides only when to send.\<close>

definition unackd :: "AddressRecord \<Rightarrow> AddressRecord" where
  "unackd r = r\<lparr>ar_lastMsgAckd := 0\<rparr>"

text \<open>The acknowledgements of the channels.\<close>

definition acks :: "CommsCtxt \<Rightarrow> u8 list set" where
  "acks c = (\<lambda>r. msg_header (cm_connID c) (ar_channelNo r) 0 (ar_lastMsgSaved r)) ` set (cm_recs c)"

definition acked_only :: "CommsCtxt \<Rightarrow> CommsCtxt \<Rightarrow> bool" where
  "acked_only c c' \<longleftrightarrow> map unackd (cm_recs c') = map unackd (cm_recs c) \<and> cm_msgQueue c' = cm_msgQueue c \<and>
     cm_connID c' = cm_connID c \<and> cm_isServer c' = cm_isServer c \<and> cm_processingMsg c' = cm_processingMsg c \<and>
     cm_nRecs c' = cm_nRecs c \<and> cm_queueLen c' = cm_queueLen c \<and> frames c \<subseteq> frames c' \<and> frames c' \<subseteq> frames c \<union> acks c"

lemma unackd_sel:
  assumes m: "map unackd rs' = map unackd rs"
  shows "map ar_id rs' = map ar_id rs" "map ar_channelNo rs' = map ar_channelNo rs"
    "map ar_lastMsgSaved rs' = map ar_lastMsgSaved rs"
proof -
  have "map f (map unackd rs') = map f (map unackd rs)" for f :: "AddressRecord \<Rightarrow> 'z" using m by simp
  then have c: "map (f \<circ> unackd) rs' = map (f \<circ> unackd) rs" for f :: "AddressRecord \<Rightarrow> 'z" by simp
  have "ar_id \<circ> unackd = ar_id" "ar_channelNo \<circ> unackd = ar_channelNo" "ar_lastMsgSaved \<circ> unackd = ar_lastMsgSaved"
    by (auto simp: unackd_def)
  note e = this
  show "map ar_id rs' = map ar_id rs" using c[of ar_id] by (simp only: e)
  show "map ar_channelNo rs' = map ar_channelNo rs" using c[of ar_channelNo] by (simp only: e)
  show "map ar_lastMsgSaved rs' = map ar_lastMsgSaved rs" using c[of ar_lastMsgSaved] by (simp only: e)
qed

lemma acks_cong:
  "map unackd (cm_recs c') = map unackd (cm_recs c) \<Longrightarrow> cm_connID c' = cm_connID c \<Longrightarrow> acks c' = acks c"
proof -
  assume m: "map unackd (cm_recs c') = map unackd (cm_recs c)" and i: "cm_connID c' = cm_connID c"
  have "acks d = (\<lambda>r. msg_header (cm_connID d) (ar_channelNo r) 0 (ar_lastMsgSaved r)) ` set (map unackd (cm_recs d))" for d
    by (simp add: acks_def image_image unackd_def)
  note a = this
  show ?thesis unfolding a[of c'] a[of c] m i ..
qed

lemma acked_only_trans: "acked_only c c' \<Longrightarrow> acked_only c' c'' \<Longrightarrow> acked_only c c''"
  using acks_cong[of c' c] by (auto simp: acked_only_def)

lemma acked_only_quiet: "quiet (acks c) c c' \<Longrightarrow> acked_only c c'"
  by (auto simp: acked_only_def quiet_def comms_core_def)

lemma sendEmptyMsg_acks:
  assumes s: "sendEmptyMsg r c = Some c'" and r: "r0 \<in> set (cm_recs c)" "unackd r0 = unackd r"
    and d: "distinct (map ar_id (cm_recs c))"
  shows "acked_only c c'"
proof -
  have rid: "ar_id r = ar_id r0" "ar_channelNo r = ar_channelNo r0"
    using r(2) by (cases r; cases r0; simp add: unackd_def)+
  obtain e c1 n where m: "makeElemWithID 0 (Some (ar_id r0)) (ar_channelNo r0) None c = Some (e, c1)"
      and snd: "sendMsg e COMMS_CONN_NONE c1 = Some (n, c')"
    using s rid by (auto simp: sendEmptyMsg_def)
  note f = rec_saved_found[OF r(1) d]
  have e: "qe_msg e = msg_header (cm_connID c) (ar_channelNo r0) 0 (ar_lastMsgSaved r0)"
    using makeElem_shape(1)[OF m] f by (simp add: rec_saved_def payload_of_def)
  have c1: "c1 = upd_rec (ar_id r0) (\<lambda>q. q\<lparr>ar_lastMsgAckd := ar_lastMsgSaved r0\<rparr>) c"
    using makeElem_shape(2)[OF m] unfolding f by simp
  have u: "map unackd (cm_recs c1) = map unackd (cm_recs c)"
    by (simp add: c1 unackd_def)
  have a: "acked_only c c1" using u by (simp add: acked_only_def c1)
  have "qe_msg e \<in> acks c1"
    unfolding acks_cong[OF u, unfolded c1 upd_rec_sel(1), OF refl, folded c1] using e r(1) by (simp add: acks_def)
  then have "acked_only c1 c'" using acked_only_quiet quiet_mono[OF quiet_sendMsg[OF snd]] by simp
  with a show ?thesis by (rule acked_only_trans)
qed

lemma ackAny_acks:
  assumes a: "comms_ackAny c = Some c'" and d: "distinct (map ar_id (cm_recs c))"
  shows "acked_only c c'"
proof (cases "CONN_ID_NONE = cm_connID c")
  case True
  then have "c' = c" using a by (simp add: comms_ackAny_def)
  then show ?thesis by (simp add: acked_only_def)
next
  case False
  let ?f = "\<lambda>comms rec. if ar_lastMsgAckd rec < ar_lastMsgRcd rec then sendEmptyMsg rec comms else Some comms"
  have o: "ofold ?f c (cm_recs c) = Some c'" using a False by (simp add: comms_ackAny_def)
  show ?thesis
  proof (rule ofold_invariant[where P = "acked_only c", OF _ _ o])
    show "acked_only c c" by (simp add: acked_only_def)
    fix s r s' assume s: "acked_only c s" and r: "r \<in> set (cm_recs c)" and f: "?f s r = Some s'"
    have u: "map unackd (cm_recs s) = map unackd (cm_recs c)" using s by (simp add: acked_only_def)
    then have "unackd r \<in> unackd ` set (cm_recs s)" using r by (metis image_eqI image_set)
    then obtain r0 where r0: "r0 \<in> set (cm_recs s)" "unackd r0 = unackd r" by auto
    have ds: "distinct (map ar_id (cm_recs s))" using unackd_sel(1)[OF u] d by simp
    have "acked_only s s'"
      using f sendEmptyMsg_acks[OF _ r0 ds] by (auto simp: acked_only_def split: if_split_asm)
    then show "acked_only c s'" by (rule acked_only_trans[OF s])
  qed
qed

text \<open>Once everything is saved, everything that was received is acknowledged.\<close>

definition saved_all :: "CommsCtxt \<Rightarrow> CommsCtxt" where
  "saved_all c = c\<lparr>cm_recs := map (\<lambda>rec. rec\<lparr>ar_lastMsgSaved := ar_lastMsgRcd rec\<rparr>) (cm_recs c)\<rparr>"

lemma saveSucceeded_acks:
  assumes s: "comms_saveSucceeded tok c = Some c'" and d: "distinct (map ar_id (cm_recs c))"
  shows "c' = c \<or> acked_only (saved_all c) c'"
proof (cases "tok = cm_lastSaveToken c")
  case True
  then have "comms_ackAny (saved_all c) = Some c'" using s by (simp add: comms_saveSucceeded_def saved_all_def)
  moreover have "distinct (map ar_id (cm_recs (saved_all c)))" using d by (simp add: saved_all_def comp_def)
  ultimately show ?thesis using ackAny_acks by blast
next
  case False
  then show ?thesis using s by (simp add: comms_saveSucceeded_def)
qed

lemma quiet_writeToStream [comms_quiet]:
  assumes "comms_writeToStream stream tok c = Some (s', c')"
  shows "quiet X c c'"
proof -
  obtain seed d where d: "comms_getChannelSeed c = Some (seed, d)" "c' = d\<lparr>cm_lastSaveToken := tok\<rparr>"
    using assms unfolding comms_writeToStream_def by (auto simp del: if_split)
  have "quiet X d c'" by (rule quiet_same) (simp_all add: d comms_core_def)
  then show ?thesis using quiet_channelSeed[OF d(1)] quiet_trans by blast
qed

section \<open>Incoming messages\<close>

text \<open>Records as they are but for the address and the host, which every message may change.\<close>

definition unaddr :: "AddressRecord \<Rightarrow> AddressRecord" where
  "unaddr r = r\<lparr>ar_addr := zero_addr, ar_hostID := 0\<rparr>"

definition chan_key :: "u16 \<Rightarrow> u16" where "chan_key chan = chan AND NOT CHANNEL_MASK"

text \<open>No two records share the part of the channel that names the device, and they are in different
  places of the memory.\<close>

definition recs_ok :: "CommsCtxt \<Rightarrow> bool" where
  "recs_ok c \<longleftrightarrow> distinct (map (chan_key \<circ> ar_channelNo) (cm_recs c)) \<and> distinct (map ar_id (cm_recs c)) \<and>
     (\<forall>r \<in> set (cm_recs c). ar_id r < cm_nRecs c)"

lemma getRecord_False: "getRecordFor c chan False = find (\<lambda>r. ar_channelNo r = chan) (cm_recs c)"
  by (simp add: getRecordFor_def)

lemma getRecord_True: "getRecordFor c chan True = find (\<lambda>r. chan_key (ar_channelNo r) = chan_key chan) (cm_recs c)"
  by (simp add: getRecordFor_def chan_key_def Let_def)

lemma map_id_upd:
  assumes "\<And>r. r \<in> set rs \<Longrightarrow> ar_id r = p \<Longrightarrow> f (g r) = f r"
  shows "map f (map (\<lambda>r. if ar_id r = p then g r else r) rs) = map f rs"
  using assms by (induction rs) auto

lemma augment_rec_shape:
  assumes a: "augment_rec r addr hid c = Some c'" and r: "r \<in> set (cm_recs c)" and d: "distinct (map ar_id (cm_recs c))"
  shows "map unaddr (cm_recs c') = map unaddr (cm_recs c)" "cm_msgQueue c' = cm_msgQueue c" "frames c' = frames c"
    "cm_connID c' = cm_connID c" "cm_isServer c' = cm_isServer c" "cm_processingMsg c' = cm_processingMsg c" "cm_nRecs c' = cm_nRecs c"
    "cm_queueLen c' = cm_queueLen c"
proof -
  obtain r' where r': "augmentChannelAddr r addr hid = Some r'" "c' = upd_rec (ar_id r) (\<lambda>q. r') c"
    using a by (auto simp: augment_rec_def)
  have "unaddr r' = unaddr r"
    using r'(1) by (auto simp: augmentChannelAddr_def unaddr_def Let_def split: if_split_asm)
  moreover have "q = r" if "q \<in> set (cm_recs c)" "ar_id q = ar_id r" for q
    using that r d by (metis distinct_map inj_onD)
  ultimately show "map unaddr (cm_recs c') = map unaddr (cm_recs c)"
    unfolding r'(2) upd_rec_sel by (intro map_id_upd) auto
  show "cm_msgQueue c' = cm_msgQueue c" "frames c' = frames c"
    "cm_connID c' = cm_connID c" "cm_isServer c' = cm_isServer c" "cm_processingMsg c' = cm_processingMsg c" "cm_nRecs c' = cm_nRecs c"
    "cm_queueLen c' = cm_queueLen c"
    by (simp_all add: r'(2))
qed

lemma checkChannelNo_key:
  assumes "checkChannelNo chan c = (ok, chan', c')"
  shows "chan_key chan' = chan_key chan"
    "comms_core c' = comms_core c" "frames c' = frames c"
proof -
  have low: "(chan OR next) AND NOT CHANNEL_MASK = chan AND NOT CHANNEL_MASK" if "next \<le> 3" for "next" :: u16
  proof -
    have "unat next \<le> 3" using that by (simp add: word_le_nat_alt)
    then have "unat next = 0 \<or> unat next = 1 \<or> unat next = 2 \<or> unat next = 3" by arith
    moreover have "next = of_nat (unat next)" by simp
    ultimately have "next = of_nat 0 \<or> next = of_nat 1 \<or> next = of_nat 2 \<or> next = of_nat 3" by metis
    then have n: "next AND NOT 3 = 0" by auto
    show ?thesis unfolding CHANNEL_MASK_def word_ao_dist n by simp
  qed
  show "chan_key chan' = chan_key chan" "comms_core c' = comms_core c" "frames c' = frames c"
  proof -
    have "cm_nextChannelNo c + 1 \<le> 3" if "cm_nextChannelNo c < CHANNEL_MASK"
    proof -
      have "unat (cm_nextChannelNo c) < 3" using that by (simp add: CHANNEL_MASK_def word_less_nat_alt)
      then have "unat (cm_nextChannelNo c + 1) = unat (cm_nextChannelNo c) + 1" by (simp add: unat_word_ariths)
      with \<open>unat (cm_nextChannelNo c) < 3\<close> show ?thesis by (simp add: word_le_nat_alt)
    qed
    moreover have "frames (c\<lparr>cm_nextChannelNo := k\<rparr>) = frames c" for k by (simp add: frames_def)
    ultimately show "chan_key chan' = chan_key chan" "comms_core c' = comms_core c" "frames c' = frames c"
      using assms low
      by (auto simp: checkChannelNo_def Let_def chan_key_def comms_core_def split: if_split_asm)
  qed
qed


lemma rememberChannel_new:
  assumes a: "rememberChannelAddress chan hid addr c = Some (p, c')" and n: "getRecordFor c chan False = None"
    and lt: "\<forall>r \<in> set (cm_recs c). ar_id r < cm_nRecs c"
  shows "p = cm_nRecs c" "cm_nRecs c' = cm_nRecs c + 1" "cm_msgQueue c' = cm_msgQueue c" "frames c' = frames c"
    "cm_connID c' = cm_connID c" "cm_isServer c' = cm_isServer c" "cm_processingMsg c' = cm_processingMsg c"
    "\<exists>q. cm_recs c' = q # cm_recs c \<and> ar_id q = cm_nRecs c \<and> ar_channelNo q = chan \<and> ar_lastMsgRcd q = 0 \<and>
       ar_lastMsgSaved q = 0"
    "cm_queueLen c' = cm_queueLen c"
proof -
  let ?q = "\<lparr>ar_id = cm_nRecs c, ar_addr = zero_addr, ar_nextMsgID = 0, ar_lastMsgAckd = 0, ar_lastMsgRcd = 0,
                       ar_lastMsgSaved = 0, ar_channelNo = chan, ar_hostID = hid\<rparr>"
  let ?d = "c\<lparr>cm_recs := ?q # cm_recs c, cm_nRecs := cm_nRecs c + 1\<rparr>"
  have r: "p = cm_nRecs c" "c' = upd_rec (cm_nRecs c) (\<lambda>r. r\<lparr>ar_addr := addr\<rparr>) ?d"
    using a n by (auto simp: rememberChannelAddress_def Let_def bind_unit_Some)
  have "map (\<lambda>r. if ar_id r = cm_nRecs c then r\<lparr>ar_addr := addr\<rparr> else r) (cm_recs c) = cm_recs c"
    using lt by (intro map_idI) auto
  then show "\<exists>q. cm_recs c' = q # cm_recs c \<and> ar_id q = cm_nRecs c \<and> ar_channelNo q = chan \<and> ar_lastMsgRcd q = 0 \<and>
       ar_lastMsgSaved q = 0"
    by (simp add: r(2))
  have "frames ?d = frames c" by (simp add: frames_def)
  then show "p = cm_nRecs c" "cm_nRecs c' = cm_nRecs c + 1" "cm_msgQueue c' = cm_msgQueue c" "frames c' = frames c"
    "cm_connID c' = cm_connID c" "cm_isServer c' = cm_isServer c" "cm_processingMsg c' = cm_processingMsg c"
    "cm_queueLen c' = cm_queueLen c"
    using r by simp_all
qed

text \<open>What a message does to the rest of the state: it may acknowledge messages of its own channel if it
  has the id of the connection, and it may make a record of a channel that had none.\<close>

definition received :: "u8 list \<Rightarrow> CommsCtxt \<Rightarrow> CommsCtxt \<Rightarrow> AddressRecord list \<Rightarrow> bool" where
  "received b c c' new \<longleftrightarrow>
     map unaddr (cm_recs c') = map unaddr new @ map unaddr (cm_recs c) \<and> cm_nRecs c' = cm_nRecs c + length new \<and>
     frames c' = frames c \<and> cm_connID c' = cm_connID c \<and> cm_isServer c' = cm_isServer c \<and>
     cm_processingMsg c' = cm_processingMsg c \<and>
     (cm_queueLen c = length (cm_msgQueue c) \<longrightarrow> cm_queueLen c' = length (cm_msgQueue c')) \<and>
     (new = [] \<or> (\<exists>q. new = [q] \<and> ar_id q = cm_nRecs c \<and> chan_key (ar_channelNo q) = chan_key (h_chan b) \<and>
        ar_lastMsgRcd q = 0 \<and> ar_lastMsgSaved q = 0 \<and> (\<forall>r \<in> set (cm_recs c). chan_key (ar_channelNo r) \<noteq> chan_key (h_chan b)))) \<and>
     (cm_msgQueue c' = cm_msgQueue c \<or>
      h_conn b \<noteq> CONN_ID_NONE \<and> h_conn b = cm_connID c \<and> getRecordFor c (h_chan b) False \<noteq> None \<and>
      cm_msgQueue c' = filter (\<lambda>e. \<not> acked (h_chan b) (h_ack b) e) (cm_msgQueue c))"

lemma received_field [simp]:
  "received b c (d\<lparr>cm_lastSaveToken := k\<rparr>) new = received b c d new" "received b c (resetBackoff d) new = received b c d new"
  by (simp_all add: received_def resetBackoff_def frames_def)

lemma received_core:
  "received b c d new \<Longrightarrow> comms_core c0 = comms_core c \<Longrightarrow> frames c0 = frames c \<Longrightarrow> received b c0 d new"
  by (simp add: received_def comms_core_def getRecord_False)

lemma received_id: "cm_recs d = cm_recs c \<Longrightarrow> comms_core d = comms_core c \<Longrightarrow> frames d = frames c \<Longrightarrow> received b c d []"
  by (simp add: received_def comms_core_def)

lemma validateInitial_received:
  assumes v: "validateInitialMessage addr sid (h_chan b) c = Some (p, chan, c')" and ok: "recs_ok c"
  shows "\<exists>new. received b c c' new \<and> (case p of None \<Rightarrow> new = [] | Some i \<Rightarrow> i = cm_nRecs c \<and> new \<noteq> []) \<and>
    chan_key chan = chan_key (h_chan b)"
proof (cases "getRecordFor c (h_chan b) True")
  case (Some r)
  then have a: "augment_rec r addr sid c = Some c'" and p: "p = None" "chan = h_chan b"
    using v by (auto simp: validateInitialMessage_def)
  have "received b c c' []"
    using augment_rec_shape[OF a getRecord_in[OF Some]] ok by (simp add: received_def recs_ok_def)
  then show ?thesis using p by auto
next
  case None
  obtain ok1 chan1 c1 where k: "(if cm_isServer c then checkChannelNo (h_chan b) c else (True, h_chan b, c)) = (ok1, chan1, c1)"
    by (metis prod_cases3)
  have c1: "chan_key chan1 = chan_key (h_chan b)" "comms_core c1 = comms_core c" "frames c1 = frames c"
    using k checkChannelNo_key by (auto split: if_split_asm)
  have r1: "cm_recs c1 = cm_recs c" "cm_nRecs c1 = cm_nRecs c" using c1(2) by (simp_all add: comms_core_def)
  have no: "\<forall>r \<in> set (cm_recs c). chan_key (ar_channelNo r) \<noteq> chan_key (h_chan b)"
    using None by (simp add: getRecord_True find_None_iff)
  have rest: "(if ok1 then do { (p, comms) \<leftarrow> rememberChannelAddress chan1 sid addr c1; Some (Some p, chan1, comms) }
      else Some (None, chan1, c1)) = Some (p, chan, c')"
    using v None by (simp add: validateInitialMessage_def k)
  show ?thesis
  proof (cases ok1)
    case True
    then obtain i where i: "rememberChannelAddress chan1 sid addr c1 = Some (i, c')" "p = Some i" "chan = chan1"
      using rest by auto
    have n: "getRecordFor c1 chan1 False = None"
      using no c1(1) by (auto simp: getRecord_False find_None_iff r1)
    note R = rememberChannel_new[OF i(1) n, unfolded r1]
    have lt: "\<forall>r \<in> set (cm_recs c). ar_id r < cm_nRecs c" using ok by (simp add: recs_ok_def)
    from R(8)[OF lt] obtain q where q: "cm_recs c' = q # cm_recs c" "ar_id q = cm_nRecs c" "ar_channelNo q = chan1"
        "ar_lastMsgRcd q = 0" "ar_lastMsgSaved q = 0" by blast
    have "received b c c' [q]"
      using R(2-7)[OF lt] R(9)[OF lt] q c1 no by (simp add: received_def comms_core_def)
    then show ?thesis using i R(1)[OF lt] c1(1) by auto
  next
    case False
    then have "p = None" "chan = chan1" "c' = c1" using rest by auto
    then show ?thesis using received_id[of c1 c b] c1 r1 by auto
  qed
qed

lemma validateChannel_received:
  assumes v: "validateChannelMessage addr (h_chan b) sid (h_id b) (h_ack b) c = Some (p, c')"
    and conn: "h_conn b \<noteq> CONN_ID_NONE" "h_conn b = cm_connID c" and ok: "recs_ok c"
  shows "received b c c' []"
    and "p = Some i \<Longrightarrow> \<exists>r. getRecordFor c (h_chan b) False = Some r \<and> i = ar_id r \<and> h_id b = ar_lastMsgRcd r + 1"
proof -
  have "received b c c' [] \<and> (p = Some i \<longrightarrow> (\<exists>r. getRecordFor c (h_chan b) False = Some r \<and> i = ar_id r \<and> h_id b = ar_lastMsgRcd r + 1))"
  proof (cases "getRecordFor c (h_chan b) False")
    case None
    then have "p = None" "c' = c" using v by (simp_all add: validateChannelMessage_def)
    then show ?thesis using received_id[of c c b] by simp
  next
    case (Some r)
    then obtain c1 where c1: "removeFromQueue (h_chan b) (h_ack b) c = Some c1" "augment_rec r addr sid c1 = Some c'"
      and p: "p = (if h_id b = ar_lastMsgRcd r + 1 then Some (ar_id r) else None)"
      using v by (auto simp: validateChannelMessage_def simp del: if_split)
    note Q = removeFromQueue_shape[OF c1(1)]
    have rest: "cm_recs c1 = cm_recs c" "cm_connID c1 = cm_connID c" "cm_isServer c1 = cm_isServer c"
        "cm_processingMsg c1 = cm_processingMsg c" "cm_nRecs c1 = cm_nRecs c"
      using Q(1) by (simp_all add: comms_rest_def)
    have "r \<in> set (cm_recs c1)" "distinct (map ar_id (cm_recs c1))"
      using getRecord_in[OF Some] ok by (simp_all add: rest recs_ok_def)
    note A = augment_rec_shape[OF c1(2) this]
    have "received b c c' []"
      using A Q(2,3,4) rest Some conn by (simp add: received_def)
    then show ?thesis using Some p by auto
  qed
  then show "received b c c' []"
    and "p = Some i \<Longrightarrow> \<exists>r. getRecordFor c (h_chan b) False = Some r \<and> i = ar_id r \<and> h_id b = ar_lastMsgRcd r + 1"
    by blast+
qed

lemma unread_getFlags:
  assumes u: "unread s b" and l: "4 \<le> length b" and m: "ntohs (take 2 b) \<noteq> HAS_VERSION_FLAG"
  shows "getFlags s = Some (h_conn b, 0, s\<lparr>curReadPos := curReadPos s + 4\<rparr>)"
proof -
  have cur: "curReadPos s < 65536" "nReadBits s = 0" using u by (auto simp: unread_def)
  have returns: "snd (mem_stream_setPos (s\<lparr>curReadPos := curReadPos s + 2\<rparr>) POS_READ (mem_stream_getPos s POS_READ)) = s"
    using cur by (simp add: mem_stream_setPos_def mem_stream_getPos_def BIT_PART_def BYTE_PART_def)
  show ?thesis
    using unread_getU16[OF u] unread_getU32[OF u l] l m
    unfolding getFlags_def Let_def h_conn_def by (simp del: add_2_eq_Suc' add: returns)
qed

lemma check_message_received:
  assumes k: "check_message addr sid s c = Some (v, st, s', c')" and u: "unread s b" and l: "14 \<le> length b"
    and m: "ntohs (take 2 b) \<noteq> HAS_VERSION_FLAG" and ok: "recs_ok c"
  shows "\<exists>new. received b c c' new \<and> (\<forall>i. st_rec st = Some i \<longrightarrow> i = cm_nRecs c \<and> new \<noteq> []) \<and>
    (v \<longrightarrow> unread s' (h_body b) \<and> h_body b \<noteq> [] \<and> st_msgID st = h_id b \<and>
       chan_key (st_channelNo st) = chan_key (h_chan b) \<and>
       (new = [] \<longrightarrow> h_conn b \<noteq> CONN_ID_NONE \<and> h_conn b = cm_connID c \<and>
          (\<exists>r. getRecordFor c (h_chan b) False = Some r \<and> h_id b = ar_lastMsgRcd r + 1)))"
proof -
  let ?s1 = "s\<lparr>curReadPos := curReadPos s + 4\<rparr>" and ?s2 = "s\<lparr>curReadPos := curReadPos s + 6\<rparr>"
    and ?s3 = "s\<lparr>curReadPos := curReadPos s + 10\<rparr>" and ?s4 = "s\<lparr>curReadPos := curReadPos s + 14\<rparr>"
  have u1: "unread ?s1 (drop 4 b)" using unread_getBytes(2)[OF u, of 4] l by simp
  have u2: "unread ?s2 (drop 6 b)" using unread_getBytes(2)[OF u, of 6] l by simp
  have u3: "unread ?s3 (drop 10 b)" using unread_getBytes(2)[OF u, of 10] l by simp
  have u4: "unread ?s4 (h_body b)" using unread_getBytes(2)[OF u, of 14] l by (simp add: h_body_def)
  have g1: "getFlags s = Some (h_conn b, 0, ?s1)" by (rule unread_getFlags[OF u _ m]) (use l in simp)
  have g2: "mem_stream_getU16 ?s1 = Some (h_chan b, ?s2)"
    using unread_getU16[OF u1] l by (simp add: h_chan_def)
  have g3: "mem_stream_getU32 ?s2 = Some (h_id b, ?s3)" using unread_getU32[OF u2] l by (simp add: h_id_def)
  have g4: "mem_stream_getU32 ?s3 = Some (h_ack b, ?s4)" using unread_getU32[OF u3] l by (simp add: h_ack_def)
  obtain seed c0 where seed: "comms_getChannelSeed c = Some (seed, c0)"
    using k by (auto simp: check_message_def g1 g2)
  have q: "quiet {} c c0" by (rule quiet_channelSeed[OF seed])
  then have core: "comms_core c0 = comms_core c" "frames c0 = frames c" by (auto simp: quiet_def)
  then have ok0: "recs_ok c0" using ok by (simp add: recs_ok_def comms_core_def)
  have n0: "cm_nRecs c0 = cm_nRecs c" "cm_connID c0 = cm_connID c" "cm_recs c0 = cm_recs c"
    using core(1) by (simp_all add: comms_core_def)
  have lift: "received b c d new" if "received b c0 d new" for d new
    using received_core[OF that] core by simp
  obtain mv where mv: "channels_match 0 (h_chan b) seed c0 = Some mv"
    using k by (auto simp: check_message_def g1 g2 seed)
  show ?thesis
  proof (cases mv)
    case False
    then have "v = False" "st = zero_msgState" "c' = c0"
      using k mv by (auto simp: check_message_def g1 g2 seed)
    then show ?thesis using lift[OF received_id[of c0 c0 b]] by (auto simp: zero_msgState_def)
  next
    case True
    obtain p chan sta c1 where d: "(if h_conn b = CONN_ID_NONE then do {
            (p, chan, comms) \<leftarrow> validateInitialMessage addr sid (h_chan b) c0;
            Some (p, chan, zero_msgState\<lparr>st_rec := p\<rparr>, comms)
          } else if cm_connID c0 = h_conn b then do {
            (p, comms) \<leftarrow> validateChannelMessage addr (h_chan b) sid (h_id b) (h_ack b) c0;
            Some (p, h_chan b, zero_msgState, comms)
          } else Some (None, h_chan b, zero_msgState, c0)) = Some (p, chan, sta, c1)"
      and e: "(case find (\<lambda>rec. Some (ar_id rec) = p) (cm_recs c1) of
         None \<Rightarrow> Some (False, sta, ?s4, c1)
       | Some rec \<Rightarrow>
           if 0 = ar_lastMsgRcd rec \<or> ar_lastMsgRcd rec \<le> h_id b
           then Some (mem_stream_getSize ?s4 > 0, sta\<lparr>st_msgID := h_id b, st_channelNo := chan\<rparr>,
                      mem_stream_setAddress ?s4 chan, resetBackoff (c1\<lparr>cm_lastSaveToken := 0\<rparr>))
           else Some (False, sta, ?s4, c1)) = Some (v, st, s', c')"
      using k mv True by (auto simp: check_message_def g1 g2 g3 g4 seed Let_def simp del: if_split)
    obtain new where new: "received b c c1 new" "\<forall>i. st_rec sta = Some i \<longrightarrow> i = cm_nRecs c \<and> new \<noteq> []"
        "chan_key chan = chan_key (h_chan b)"
        "p \<noteq> None \<and> new = [] \<longrightarrow> h_conn b \<noteq> CONN_ID_NONE \<and> h_conn b = cm_connID c \<and>
          (\<exists>r. getRecordFor c (h_chan b) False = Some r \<and> h_id b = ar_lastMsgRcd r + 1)"
    proof (cases "h_conn b = CONN_ID_NONE")
      case z: True
      then obtain c2 where i: "validateInitialMessage addr sid (h_chan b) c0 = Some (p, chan, c2)" "sta = zero_msgState\<lparr>st_rec := p\<rparr>" "c1 = c2"
        using d by auto
      from validateInitial_received[OF i(1) ok0] obtain new where n: "received b c0 c2 new"
          "case p of None \<Rightarrow> new = [] | Some i \<Rightarrow> i = cm_nRecs c0 \<and> new \<noteq> []" "chan_key chan = chan_key (h_chan b)" by blast
      show thesis by (rule that[of new]) (use n i lift[OF n(1)] in \<open>auto simp: n0 split: option.splits\<close>)
    next
      case nz: False
      show thesis
      proof (cases "cm_connID c0 = h_conn b")
        case same: True
        then have i: "validateChannelMessage addr (h_chan b) sid (h_id b) (h_ack b) c0 = Some (p, c1)"
            "sta = zero_msgState" "chan = h_chan b"
          using d nz by auto
        note V = validateChannel_received[OF i(1) nz same[symmetric] ok0]
        show thesis
        proof (rule that[of "[]"])
          show "received b c c1 []" by (rule lift[OF V(1)])
          show "\<forall>i. st_rec sta = Some i \<longrightarrow> i = cm_nRecs c \<and> [] \<noteq> []" using i(2) by (simp add: zero_msgState_def)
          show "chan_key chan = chan_key (h_chan b)" using i(3) by simp
          show "p \<noteq> None \<and> [] = [] \<longrightarrow> h_conn b \<noteq> CONN_ID_NONE \<and> h_conn b = cm_connID c \<and>
              (\<exists>r. getRecordFor c (h_chan b) False = Some r \<and> h_id b = ar_lastMsgRcd r + 1)"
            using V(2) nz same n0 by (auto simp: getRecord_False)
        qed
      next
        case other: False
        then have i: "p = None" "chan = h_chan b" "sta = zero_msgState" "c1 = c0" using d nz by auto
        show thesis
          by (rule that[of "[]"]) (use i lift[OF received_id[of c0 c0 b]] in \<open>auto simp: zero_msgState_def\<close>)
      qed
    qed
    show ?thesis
    proof (intro exI[of _ new] conjI)
      show "received b c c' new" using e new(1) by (auto split: option.split_asm if_split_asm)
      show "\<forall>i. st_rec st = Some i \<longrightarrow> i = cm_nRecs c \<and> new \<noteq> []"
        using e new(2) by (auto split: option.split_asm if_split_asm)
      show "v \<longrightarrow> unread s' (h_body b) \<and> h_body b \<noteq> [] \<and> st_msgID st = h_id b \<and>
         chan_key (st_channelNo st) = chan_key (h_chan b) \<and>
         (new = [] \<longrightarrow> h_conn b \<noteq> CONN_ID_NONE \<and> h_conn b = cm_connID c \<and>
            (\<exists>r. getRecordFor c (h_chan b) False = Some r \<and> h_id b = ar_lastMsgRcd r + 1))"
      proof
        assume v: v
        then obtain rec where f: "find (\<lambda>rec. Some (ar_id rec) = p) (cm_recs c1) = Some rec"
          using e by (auto split: option.split_asm)
        then have p: "p \<noteq> None" by (auto simp: find_Some_iff)
        have sz: "mem_stream_getSize ?s4 = length (h_body b)" by (rule unread_size[OF u4])
        have x: "s' = mem_stream_setAddress ?s4 chan" "st = sta\<lparr>st_msgID := h_id b, st_channelNo := chan\<rparr>" "h_body b \<noteq> []"
          using e f v sz by (auto split: if_split_asm)
        have "unread s' (h_body b)" using u4 by (simp add: x(1) unread_def mem_stream_setAddress_def)
        then show "unread s' (h_body b) \<and> h_body b \<noteq> [] \<and> st_msgID st = h_id b \<and>
           chan_key (st_channelNo st) = chan_key (h_chan b) \<and>
           (new = [] \<longrightarrow> h_conn b \<noteq> CONN_ID_NONE \<and> h_conn b = cm_connID c \<and>
              (\<exists>r. getRecordFor c (h_chan b) False = Some r \<and> h_id b = ar_lastMsgRcd r + 1))"
          using x(3) new(3,4) p by (auto simp: x(2))
      qed
    qed
  qed
qed

text \<open>A whole incoming message, from an address without the relay.\<close>

lemma checkIncoming_received:
  assumes k: "comms_checkIncomingStream s addr c = Some (v, st, s', c')" and u: "unread s b"
    and a: "\<not> addr_hasType addr COMMS_CONN_RELAY" and ok: "recs_ok c"
    and m: "14 \<le> length b \<Longrightarrow> ntohs (take 2 b) \<noteq> HAS_VERSION_FLAG"
  shows "\<not> cm_processingMsg c"
    and "\<exists>c0 new. comms_core c0 = comms_core (c\<lparr>cm_processingMsg := True\<rparr>) \<and> frames c0 = frames c \<and>
      received b c0 c' new \<and> (length b < 14 \<longrightarrow> new = [] \<and> cm_msgQueue c' = cm_msgQueue c) \<and>
      (\<forall>i. st_rec st = Some i \<longrightarrow> i = cm_nRecs c \<and> new \<noteq> []) \<and>
      (v \<longrightarrow> 14 \<le> length b \<and> unread s' (h_body b) \<and> h_body b \<noteq> [] \<and> st_msgID st = h_id b \<and>
        chan_key (st_channelNo st) = chan_key (h_chan b) \<and>
        (new = [] \<longrightarrow> h_conn b \<noteq> CONN_ID_NONE \<and> h_conn b = cm_connID c \<and>
          (\<exists>r. getRecordFor c (h_chan b) False = Some r \<and> h_id b = ar_lastMsgRcd r + 1)))"
proof -
  show "\<not> cm_processingMsg c" using k by (auto simp: comms_checkIncomingStream_def)
  let ?c0 = "c\<lparr>cm_processingMsg := True\<rparr>"
  have ok0: "recs_ok ?c0" using ok by (simp add: recs_ok_def)
  obtain t where t: "addr_getType addr = Some t" using k by (auto simp: comms_checkIncomingStream_def Let_def)
  have nr: "t \<noteq> COMMS_CONN_RELAY"
  proof
    assume "t = COMMS_CONN_RELAY"
    then obtain st where "addr_iter addr 0 = Some (Some COMMS_CONN_RELAY, st)"
      using t by (auto simp: addr_getType_def split: option.split_asm)
    then have "COMMS_CONN_RELAY \<in> set (addr_types addr)"
      by (simp add: addr_iter_def addr_types_def iter_types.simps[of "addrConTypes addr" 0])
    then show False using a by (simp add: addr_types_eq)
  qed
  have pre: "preProcess addr s ?c0 = Some w \<Longrightarrow> w = (False, 0, s, ?c0)" for w
    using nr by (auto simp: preProcess_def t split: CommsConnType.split_asm)
  have sz: "mem_stream_getSize s = length b" by (rule unread_size[OF u])
  consider "v = False" "st = zero_msgState" "c' = ?c0" | (msg) "14 \<le> length b" "check_message addr 0 s ?c0 = Some (v, st, s', c')"
    using k t sz by (auto simp: comms_checkIncomingStream_def Let_def dest!: pre split: if_split_asm)
  then show "\<exists>c0 new. comms_core c0 = comms_core (c\<lparr>cm_processingMsg := True\<rparr>) \<and> frames c0 = frames c \<and>
      received b c0 c' new \<and> (length b < 14 \<longrightarrow> new = [] \<and> cm_msgQueue c' = cm_msgQueue c) \<and>
      (\<forall>i. st_rec st = Some i \<longrightarrow> i = cm_nRecs c \<and> new \<noteq> []) \<and>
      (v \<longrightarrow> 14 \<le> length b \<and> unread s' (h_body b) \<and> h_body b \<noteq> [] \<and> st_msgID st = h_id b \<and>
        chan_key (st_channelNo st) = chan_key (h_chan b) \<and>
        (new = [] \<longrightarrow> h_conn b \<noteq> CONN_ID_NONE \<and> h_conn b = cm_connID c \<and>
          (\<exists>r. getRecordFor c (h_chan b) False = Some r \<and> h_id b = ar_lastMsgRcd r + 1)))"
  proof cases
    case 1
    then show ?thesis using received_id[of ?c0 ?c0 b] by (intro exI[of _ ?c0] exI[of _ "[]"]) (simp add: zero_msgState_def)
  next
    case msg
    from check_message_received[OF msg(2) u msg(1) m[OF msg(1)] ok0] obtain new where
      "received b ?c0 c' new" "\<forall>i. st_rec st = Some i \<longrightarrow> i = cm_nRecs ?c0 \<and> new \<noteq> []"
      "v \<longrightarrow> unread s' (h_body b) \<and> h_body b \<noteq> [] \<and> st_msgID st = h_id b \<and>
       chan_key (st_channelNo st) = chan_key (h_chan b) \<and>
       (new = [] \<longrightarrow> h_conn b \<noteq> CONN_ID_NONE \<and> h_conn b = cm_connID ?c0 \<and>
          (\<exists>r. getRecordFor ?c0 (h_chan b) False = Some r \<and> h_id b = ar_lastMsgRcd r + 1))" by blast
    then show ?thesis using msg(1)
      by (intro exI[of _ ?c0] exI[of _ new]) (auto simp: getRecord_False)
  qed
qed

text \<open>After the message: a rejected one takes the record that was made for it with it.\<close>

lemma removeAddrRec_shape:
  assumes "removeAddrRec p c = Some c'"
  shows "\<exists>r. find (\<lambda>r. ar_id r = p) (cm_recs c) = Some r \<and> c' = c\<lparr>cm_recs := remove1 r (cm_recs c)\<rparr>"
  using assms by (auto simp: removeAddrRec_def Let_def countAddrRecs_def bind_unit_Some split: option.split_asm)

end
