(* ===== verification/Xw_CommsLink.thy ===== *)
theory Xw_CommsLink
  imports Xw_CommsInv "HOL-Library.Sublist"
begin

text \<open>
  Two devices that are connected on a channel, over a network that may lose, repeat and reorder
  messages and mix in messages of other channels. A device may at any time send, resend,
  acknowledge, save its state, receive a message or finish with the one it has received. The theory
  shows that each side processes the messages the other side sent, in order, each once, and that what
  has not been processed is still in the queue of its sender.
\<close>

section \<open>Devices\<close>

text \<open>\<open>dv_pend\<close> is what \<open>comms_checkIncomingStream\<close> returned for the message the device is busy with:
  whether it is valid, the state, and what the server reads of it. \<open>dv_sent\<close> and \<open>dv_got\<close> are what
  was given to \<open>comms_send\<close> on the channel, and what has been processed on it.\<close>

record device =
  dv_comms :: CommsCtxt
  dv_pend :: "(bool \<times> CommsMsgState \<times> u8 list) option"
  dv_sent :: "u8 list list"
  dv_got :: "u8 list list"

text \<open>A message of another channel, or too short to be one.\<close>

definition foreign :: "u16 \<Rightarrow> u8 list \<Rightarrow> bool" where
  "foreign ch b \<longleftrightarrow> length b < 14 \<or> ntohs (take 2 b) \<noteq> HAS_VERSION_FLAG \<and> chan_key (h_chan b) \<noteq> chan_key ch"

text \<open>What a device may do; \<open>arrives\<close> tells which messages the network may bring. The numbers of a
  channel end before the last that 32 bits hold.\<close>

inductive device_step :: "u16 \<Rightarrow> (u8 list \<Rightarrow> bool) \<Rightarrow> device \<Rightarrow> device \<Rightarrow> bool" for ch arrives where
  step_send: "mem_stream_getSize stream \<noteq> 0 \<Longrightarrow> mem_stream_getAddress stream \<noteq> 0 \<Longrightarrow>
     getRecordFor (dv_comms d) (mem_stream_getAddress stream) False = Some r \<Longrightarrow>
     unat (ar_nextMsgID r) + 2 < 2 ^ 32 \<Longrightarrow>
     comms_send stream (dv_comms d) = Some (n, c) \<Longrightarrow>
     device_step ch arrives d (d\<lparr>dv_comms := c, dv_sent :=
        (if mem_stream_getAddress stream = ch then dv_sent d @ [payload_of (Some stream)] else dv_sent d)\<rparr>)"
| step_resend: "comms_resendAll filt force (dv_comms d) = Some (n, c) \<Longrightarrow>
     device_step ch arrives d (d\<lparr>dv_comms := c\<rparr>)"
| step_ack: "comms_ackAny (dv_comms d) = Some c \<Longrightarrow> device_step ch arrives d (d\<lparr>dv_comms := c\<rparr>)"
| step_save: "comms_writeToStream stream tok (dv_comms d) = Some (stream', c) \<Longrightarrow>
     device_step ch arrives d (d\<lparr>dv_comms := c\<rparr>)"
| step_saved: "comms_saveSucceeded tok (dv_comms d) = Some c \<Longrightarrow> device_step ch arrives d (d\<lparr>dv_comms := c\<rparr>)"
| step_failed: "comms_transportFailed t (dv_comms d) = Some c \<Longrightarrow> device_step ch arrives d (d\<lparr>dv_comms := c\<rparr>)"
| step_timer: "p_comms_resetTimer (dv_comms d) = Some c \<Longrightarrow> device_step ch arrives d (d\<lparr>dv_comms := c\<rparr>)"
| step_stop: "comms_stop (dv_comms d) = Some c \<Longrightarrow> device_step ch arrives d (d\<lparr>dv_comms := c\<rparr>)"
| step_switch: "comms_setAddrDisabled t sn off (dv_comms d) = Some c \<Longrightarrow> device_step ch arrives d (d\<lparr>dv_comms := c\<rparr>)"
| step_receive: "arrives b \<Longrightarrow> unread s b \<Longrightarrow> \<not> addr_hasType addr COMMS_CONN_RELAY \<Longrightarrow>
     comms_checkIncomingStream s addr (dv_comms d) = Some (v, st, s', c) \<Longrightarrow>
     device_step ch arrives d (d\<lparr>dv_comms := c, dv_pend := Some (v, st, payload_of (Some s'))\<rparr>)"
| step_processed: "dv_pend d = Some (v, st, body) \<Longrightarrow> v \<or> rejected \<Longrightarrow>
     comms_msgProcessed st rejected (dv_comms d) = Some c \<Longrightarrow>
     device_step ch arrives d (d\<lparr>dv_comms := c, dv_pend := None, dv_got :=
        (if \<not> rejected \<and> chan_key (st_channelNo st) = chan_key ch then dv_got d @ [body] else dv_got d)\<rparr>)"

inductive_cases device_stepE: "device_step ch arrives d d'"

section \<open>The state of a channel\<close>

text \<open>The numbers of a record.\<close>

definition nums :: "AddressRecord \<Rightarrow> AddressRecord" where
  "nums r = r\<lparr>ar_addr := zero_addr, ar_hostID := 0, ar_lastMsgAckd := 0\<rparr>"

lemma nums_sel [simp]:
  "ar_id (nums r) = ar_id r" "ar_channelNo (nums r) = ar_channelNo r" "ar_nextMsgID (nums r) = ar_nextMsgID r"
  "ar_lastMsgRcd (nums r) = ar_lastMsgRcd r" "ar_lastMsgSaved (nums r) = ar_lastMsgSaved r"
  by (simp_all add: nums_def)

lemma nums_other: "nums r = nums (unaddr r)" "nums r = nums (unackd r)"
  by (simp_all add: nums_def unaddr_def unackd_def)

lemma map_nums_unaddr: "map unaddr rs' = map unaddr rs \<Longrightarrow> map nums rs' = map nums rs"
proof -
  assume "map unaddr rs' = map unaddr rs"
  then have "map nums (map unaddr rs') = map nums (map unaddr rs)" by simp
  then show ?thesis by (simp add: comp_def nums_other(1)[symmetric])
qed

lemma map_nums_unackd: "map unackd rs' = map unackd rs \<Longrightarrow> map nums rs' = map nums rs"
proof -
  assume "map unackd rs' = map unackd rs"
  then have "map nums (map unackd rs') = map nums (map unackd rs)" by simp
  then show ?thesis by (simp add: comp_def nums_other(2)[symmetric])
qed

definition recs_ok_nums :: "AddressRecord list \<Rightarrow> nat \<Rightarrow> bool" where
  "recs_ok_nums rs n \<longleftrightarrow> distinct (map (chan_key \<circ> ar_channelNo) rs) \<and> distinct (map ar_id rs) \<and> (\<forall>r \<in> set rs. ar_id r < n)"

lemma recs_ok_nums: "recs_ok c \<longleftrightarrow> recs_ok_nums (map nums (cm_recs c)) (cm_nRecs c)"
  by (simp add: recs_ok_def recs_ok_nums_def comp_def)

text \<open>The record of a channel, by its numbers.\<close>

definition chan_nums :: "u16 \<Rightarrow> CommsCtxt \<Rightarrow> AddressRecord \<Rightarrow> bool" where
  "chan_nums ch c q \<longleftrightarrow> q \<in> set (map nums (cm_recs c)) \<and> ar_channelNo q = ch"

lemma chan_key_unique:
  "recs_ok c \<Longrightarrow> r \<in> set (cm_recs c) \<Longrightarrow> r' \<in> set (cm_recs c) \<Longrightarrow>
     chan_key (ar_channelNo r) = chan_key (ar_channelNo r') \<Longrightarrow> r = r'"
  by (auto simp: recs_ok_def distinct_map inj_on_def)

lemma rec_id_unique:
  "recs_ok c \<Longrightarrow> r \<in> set (cm_recs c) \<Longrightarrow> r' \<in> set (cm_recs c) \<Longrightarrow> ar_id r = ar_id r' \<Longrightarrow> r = r'"
  by (auto simp: recs_ok_def distinct_map inj_on_def)

lemma getRecord_iff:
  assumes "recs_ok c"
  shows "getRecordFor c ch False = Some r \<longleftrightarrow> r \<in> set (cm_recs c) \<and> ar_channelNo r = ch"
proof
  assume "getRecordFor c ch False = Some r"
  then show "r \<in> set (cm_recs c) \<and> ar_channelNo r = ch" by (auto simp: getRecord_False find_Some_iff)
next
  assume r: "r \<in> set (cm_recs c) \<and> ar_channelNo r = ch"
  then obtain r' where r': "getRecordFor c ch False = Some r'"
    by (cases "getRecordFor c ch False") (auto simp: getRecord_False find_None_iff)
  then have "r' \<in> set (cm_recs c) \<and> ar_channelNo r' = ch" by (auto simp: getRecord_False find_Some_iff)
  then show "getRecordFor c ch False = Some r" using chan_key_unique[OF assms, of r r'] r r' by simp
qed

lemma getRecord_key:
  assumes "recs_ok c" and "r \<in> set (cm_recs c)" and "chan_key (ar_channelNo r) = chan_key ch"
  shows "getRecordFor c ch True = Some r"
proof -
  obtain r' where r': "getRecordFor c ch True = Some r'"
    using assms(2,3) by (cases "getRecordFor c ch True") (auto simp: getRecord_True find_None_iff)
  then have "r' \<in> set (cm_recs c) \<and> chan_key (ar_channelNo r') = chan_key ch"
    by (auto simp: getRecord_True find_Some_iff)
  then show ?thesis using chan_key_unique[OF assms(1), of r r'] assms(2,3) r' by simp
qed

section \<open>The invariant\<close>

text \<open>A message of a device: it acknowledges at most \<open>x\<close>, and if its number is above \<open>n\<close> it carries what
  was sent under that number.\<close>

definition wire_ok :: "u16 \<Rightarrow> nat \<Rightarrow> u8 list list \<Rightarrow> nat \<Rightarrow> u8 list \<Rightarrow> bool" where
  "wire_ok ch n sent x b \<longleftrightarrow> 14 \<le> length b \<and> ntohs (take 2 b) \<noteq> HAS_VERSION_FLAG \<and>
     (h_chan b = ch \<longrightarrow> unat (h_ack b) \<le> x \<and>
        (n < unat (h_id b) \<longrightarrow> unat (h_id b) \<le> n + length sent \<and> h_body b = sent ! (unat (h_id b) - n - 1)))"

lemma wire_ok_mono: "wire_ok ch n sent x b \<Longrightarrow> x \<le> y \<Longrightarrow> wire_ok ch n (sent @ xs) y b"
  by (auto simp: wire_ok_def nth_append)

definition pend_ok :: "u16 \<Rightarrow> nat \<Rightarrow> device \<Rightarrow> u8 list list \<Rightarrow> bool" where
  "pend_ok ch m d psent \<longleftrightarrow> (case dv_pend d of None \<Rightarrow> True | Some (v, st, body) \<Rightarrow>
     (v \<and> chan_key (st_channelNo st) = chan_key ch \<longrightarrow> unat (st_msgID st) = m + length (dv_got d) + 1 \<and>
        length (dv_got d) < length psent \<and> body = psent ! length (dv_got d)) \<and>
     (\<forall>i q. st_rec st = Some i \<longrightarrow> chan_nums ch (dv_comms d) q \<longrightarrow> ar_id q \<noteq> i))"

text \<open>One end of the channel: \<open>n\<close> and \<open>m\<close> are the numbers of the last messages sent and received before
  the history begins; \<open>psent\<close> is what the other end has sent.\<close>

definition counts_ok :: "u16 \<Rightarrow> nat \<Rightarrow> nat \<Rightarrow> CommsCtxt \<Rightarrow> nat \<Rightarrow> nat \<Rightarrow> bool" where
  "counts_ok ch n m c nsent ngot \<longleftrightarrow> (\<exists>q. chan_nums ch c q \<and> unat (ar_nextMsgID q) = n + nsent \<and>
     unat (ar_lastMsgRcd q) = m + ngot \<and> ar_lastMsgSaved q \<le> ar_lastMsgRcd q)"

definition queue_ok :: "CommsCtxt \<Rightarrow> bool" where
  "queue_ok c \<longleftrightarrow> (\<forall>e \<in> set (cm_msgQueue c). h_chan (qe_msg e) = qe_channelNo e \<and> h_id (qe_msg e) = qe_msgID e)"

definition wires :: "CommsCtxt \<Rightarrow> u8 list set" where
  "wires c = frames c \<union> qe_msg ` set (cm_msgQueue c)"

definition end_ok :: "u16 \<Rightarrow> u32 \<Rightarrow> nat \<Rightarrow> nat \<Rightarrow> device \<Rightarrow> u8 list list \<Rightarrow> bool" where
  "end_ok ch cid n m d psent \<longleftrightarrow> recs_ok (dv_comms d) \<and> cm_connID (dv_comms d) = cid \<and>
     n + length (dv_sent d) + 1 < 2 ^ 32 \<and>
     counts_ok ch n m (dv_comms d) (length (dv_sent d)) (length (dv_got d)) \<and> queue_ok (dv_comms d) \<and>
     (\<forall>b \<in> wires (dv_comms d). wire_ok ch n (dv_sent d) (m + length (dv_got d)) b) \<and>
     length (dv_got d) \<le> length psent \<and> dv_got d = take (length (dv_got d)) psent \<and> pend_ok ch m d psent"

text \<open>What was sent and not yet processed by the other end is in the queue.\<close>

definition keeps :: "u16 \<Rightarrow> nat \<Rightarrow> device \<Rightarrow> nat \<Rightarrow> bool" where
  "keeps ch n d k0 \<longleftrightarrow> (\<forall>k. k0 < k \<and> k \<le> n + length (dv_sent d) \<longrightarrow>
     (\<exists>e \<in> set (cm_msgQueue (dv_comms d)). qe_channelNo e = ch \<and> unat (qe_msgID e) = k))"

text \<open>The id of the connection does not look like the marker of the flags, and the channel names a
  device.\<close>

definition link_ids :: "u16 \<Rightarrow> u32 \<Rightarrow> bool" where
  "link_ids ch cid \<longleftrightarrow> chan_key ch \<noteq> 0 \<and> cid \<noteq> CONN_ID_NONE \<and> ntohs (take 2 (htonl cid)) \<noteq> HAS_VERSION_FLAG"

lemma header_wire:
  "ntohs (take 2 (htonl cid)) \<noteq> HAS_VERSION_FLAG \<Longrightarrow> (c = ch \<Longrightarrow> unat saved \<le> x) \<Longrightarrow>
     (c = ch \<Longrightarrow> n < unat mid \<Longrightarrow> unat mid \<le> n + length sent \<and> body = sent ! (unat mid - n - 1)) \<Longrightarrow>
     wire_ok ch n sent x (msg_header cid c mid saved @ body)"
proof -
  have "take 2 (msg_header cid c mid saved @ body) = take 2 (htonl cid)" by (simp add: msg_header_def)
  then show "ntohs (take 2 (htonl cid)) \<noteq> HAS_VERSION_FLAG \<Longrightarrow> (c = ch \<Longrightarrow> unat saved \<le> x) \<Longrightarrow>
     (c = ch \<Longrightarrow> n < unat mid \<Longrightarrow> unat mid \<le> n + length sent \<and> body = sent ! (unat mid - n - 1)) \<Longrightarrow>
     wire_ok ch n sent x (msg_header cid c mid saved @ body)"
    unfolding wire_ok_def by simp
qed

text \<open>An operation that neither sends on the channel nor receives on it.\<close>

lemma end_ok_keep:
  assumes e: "end_ok ch cid n m d psent" and r: "recs_ok c" "cm_connID c = cid"
    and q: "counts_ok ch n m c (length (dv_sent d)) (length (dv_got d))"
    and ids: "\<And>q. chan_nums ch c q \<Longrightarrow> \<exists>q'. chan_nums ch (dv_comms d) q' \<and> ar_id q' = ar_id q"
    and s: "set (cm_msgQueue c) \<subseteq> set (cm_msgQueue (dv_comms d))"
    and f: "frames c \<subseteq> wires (dv_comms d) \<union> X" "\<And>b. b \<in> X \<Longrightarrow> wire_ok ch n (dv_sent d) (m + length (dv_got d)) b"
  shows "end_ok ch cid n m (d\<lparr>dv_comms := c\<rparr>) psent"
proof -
  have "wires c \<subseteq> wires (dv_comms d) \<union> X" using s f(1) by (auto simp: wires_def)
  then have w: "\<forall>b \<in> wires c. wire_ok ch n (dv_sent d) (m + length (dv_got d)) b"
    using e f(2) unfolding end_ok_def by blast
  have p: "pend_ok ch m (d\<lparr>dv_comms := c\<rparr>) psent"
    using e ids unfolding end_ok_def pend_ok_def by (fastforce split: option.splits)
  show ?thesis using e r q s w p unfolding end_ok_def queue_ok_def by auto
qed

lemma counts_nums:
  "map nums (cm_recs c) = map nums (cm_recs c') \<Longrightarrow> chan_nums ch c = chan_nums ch c'"
  by (rule ext) (simp add: chan_nums_def del: set_map)

lemma end_ok_quiet:
  assumes e: "end_ok ch cid n m d psent" and q: "quiet X (dv_comms d) c" and X: "X \<subseteq> wires (dv_comms d)"
  shows "end_ok ch cid n m (d\<lparr>dv_comms := c\<rparr>) psent" "cm_msgQueue c = cm_msgQueue (dv_comms d)"
proof -
  have core: "cm_recs c = cm_recs (dv_comms d)" "cm_msgQueue c = cm_msgQueue (dv_comms d)" "cm_nRecs c = cm_nRecs (dv_comms d)"
      "cm_connID c = cm_connID (dv_comms d)"
    using quiet_core[OF q] by (simp_all add: comms_core_def)
  have cn: "chan_nums ch c = chan_nums ch (dv_comms d)" by (rule counts_nums) (simp add: core)
  show "end_ok ch cid n m (d\<lparr>dv_comms := c\<rparr>) psent"
  proof (rule end_ok_keep[OF e, where X = "{}"])
    show "recs_ok c" "cm_connID c = cid" using e by (simp_all add: end_ok_def recs_ok_def core)
    show "counts_ok ch n m c (length (dv_sent d)) (length (dv_got d))" using e by (simp add: end_ok_def counts_ok_def cn)
    show "frames c \<subseteq> wires (dv_comms d) \<union> {}" using q X by (auto simp: quiet_def wires_def)
  qed (auto simp: core cn)
  show "cm_msgQueue c = cm_msgQueue (dv_comms d)" by (rule core)
qed

lemma saved_bound: "chan_nums ch c q \<Longrightarrow> recs_ok c \<Longrightarrow> r \<in> set (cm_recs c) \<Longrightarrow> ar_channelNo r = ch \<Longrightarrow> q = nums r"
proof -
  assume h: "chan_nums ch c q" "recs_ok c" "r \<in> set (cm_recs c)" "ar_channelNo r = ch"
  then obtain x where x: "x \<in> set (cm_recs c)" "q = nums x" "ar_channelNo x = ch" by (auto simp: chan_nums_def)
  have "x = r" by (rule chan_key_unique[OF h(2) x(1) h(3)]) (simp add: x(3) h(4))
  then show "q = nums r" using x(2) by simp
qed

lemma end_ok_acked:
  assumes e: "end_ok ch cid n m d psent" and a: "acked_only (dv_comms d) c" and i: "link_ids ch cid"
  shows "end_ok ch cid n m (d\<lparr>dv_comms := c\<rparr>) psent" "cm_msgQueue c = cm_msgQueue (dv_comms d)"
proof -
  let ?c = "dv_comms d"
  have nm: "map nums (cm_recs c) = map nums (cm_recs ?c)" by (rule map_nums_unackd) (use a in \<open>simp add: acked_only_def\<close>)
  have cn: "chan_nums ch c = chan_nums ch ?c" by (rule counts_nums[OF nm])
  have a': "cm_msgQueue c = cm_msgQueue ?c" "cm_connID c = cm_connID ?c" "cm_nRecs c = cm_nRecs ?c"
      "frames c \<subseteq> frames ?c \<union> acks ?c" using a unfolding acked_only_def by simp_all
  obtain q where q: "chan_nums ch ?c q" "unat (ar_lastMsgRcd q) = m + length (dv_got d)" "ar_lastMsgSaved q \<le> ar_lastMsgRcd q"
    using e by (auto simp: end_ok_def counts_ok_def)
  have ro: "recs_ok ?c" "cm_connID ?c = cid" using e by (simp_all add: end_ok_def)
  show "end_ok ch cid n m (d\<lparr>dv_comms := c\<rparr>) psent"
  proof (rule end_ok_keep[OF e, where X = "acks ?c"])
    show "recs_ok c" using ro by (simp add: recs_ok_nums nm a')
    show "cm_connID c = cid" using ro by (simp add: a')
    show "counts_ok ch n m c (length (dv_sent d)) (length (dv_got d))" using e by (simp add: end_ok_def counts_ok_def cn)
    show "frames c \<subseteq> wires ?c \<union> acks ?c" using a'(4) by (auto simp: wires_def)
    fix b assume "b \<in> acks ?c"
    then obtain r where r: "r \<in> set (cm_recs ?c)" "b = msg_header cid (ar_channelNo r) 0 (ar_lastMsgSaved r) @ []"
      using ro(2) unfolding acks_def by auto
    have sv: "unat (ar_lastMsgSaved r) \<le> m + length (dv_got d)" if "ar_channelNo r = ch"
    proof -
      have "q = nums r" by (rule saved_bound[OF q(1) ro(1) r(1) that])
      then show ?thesis using q(2,3) by (simp add: word_le_nat_alt)
    qed
    show "wire_ok ch n (dv_sent d) (m + length (dv_got d)) b"
      unfolding r(2)
    proof (rule header_wire)
      show "ntohs (take 2 (htonl cid)) \<noteq> HAS_VERSION_FLAG" using i by (simp add: link_ids_def)
      show "unat (ar_lastMsgSaved r) \<le> m + length (dv_got d)" if "ar_channelNo r = ch" by (rule sv[OF that])
    qed simp
  next
    show "set (cm_msgQueue c) \<subseteq> set (cm_msgQueue ?c)" by (simp add: a'(1))
  next
    fix q0 assume "chan_nums ch c q0"
    then show "\<exists>q'. chan_nums ch ?c q' \<and> ar_id q' = ar_id q0" unfolding cn by blast
  qed
  show "cm_msgQueue c = cm_msgQueue ?c" by (rule a')
qed

lemma end_ok_saved_all:
  assumes e: "end_ok ch cid n m d psent"
  shows "end_ok ch cid n m (d\<lparr>dv_comms := saved_all (dv_comms d)\<rparr>) psent"
    "cm_msgQueue (saved_all (dv_comms d)) = cm_msgQueue (dv_comms d)"
proof -
  let ?c = "dv_comms d" and ?f = "\<lambda>r. r\<lparr>ar_lastMsgSaved := ar_lastMsgRcd r\<rparr>"
  have f: "frames (saved_all ?c) = frames ?c" "cm_msgQueue (saved_all ?c) = cm_msgQueue ?c" "cm_nRecs (saved_all ?c) = cm_nRecs ?c"
    "cm_connID (saved_all ?c) = cm_connID ?c" "cm_recs (saved_all ?c) = map ?f (cm_recs ?c)"
    by (simp_all add: saved_all_def frames_def)
  have ch1: "chan_nums ch (saved_all ?c) (?f q)" if "chan_nums ch ?c q" for q
  proof -
    from that obtain x where x: "x \<in> set (cm_recs ?c)" "q = nums x" "ar_channelNo q = ch" by (auto simp: chan_nums_def)
    have "?f q = nums (?f x)" by (simp add: x(2) nums_def)
    then show ?thesis using x by (auto simp: chan_nums_def f)
  qed
  have ch2: "\<exists>q'. chan_nums ch ?c q' \<and> ar_id q' = ar_id q" if "chan_nums ch (saved_all ?c) q" for q
    using that by (auto simp: chan_nums_def f)
  show "end_ok ch cid n m (d\<lparr>dv_comms := saved_all ?c\<rparr>) psent"
  proof (rule end_ok_keep[OF e, where X = "{}"])
    show "recs_ok (saved_all ?c)" "cm_connID (saved_all ?c) = cid"
      using e by (simp_all add: end_ok_def recs_ok_def f comp_def)
    obtain q where q: "chan_nums ch ?c q" "unat (ar_nextMsgID q) = n + length (dv_sent d)" "unat (ar_lastMsgRcd q) = m + length (dv_got d)"
      using e by (auto simp: end_ok_def counts_ok_def)
    show "counts_ok ch n m (saved_all ?c) (length (dv_sent d)) (length (dv_got d))"
      unfolding counts_ok_def using ch1[OF q(1)] q(2,3) by (intro exI[of _ "?f q"]) simp
  qed (use ch2 in \<open>auto simp: f wires_def\<close>)
  show "cm_msgQueue (saved_all ?c) = cm_msgQueue ?c" by (rule f)
qed

section \<open>One step\<close>

lemma chan_numsI: "r \<in> set (cm_recs c) \<Longrightarrow> ar_channelNo r = ch \<Longrightarrow> chan_nums ch c (nums r)"
  by (auto simp: chan_nums_def)

lemma chan_nums_unique:
  assumes ok: "recs_ok c" and q: "chan_nums ch c q" and q': "chan_nums ch c q'"
  shows "q' = q"
proof -
  obtain r where r: "r \<in> set (cm_recs c)" "ar_channelNo r = ch" "q' = nums r" using q' by (auto simp: chan_nums_def)
  show ?thesis using saved_bound[OF q ok r(1,2)] r(3) by simp
qed

text \<open>Changing one record.\<close>

lemma upd_rec_nums:
  assumes ok: "recs_ok c" and r: "r \<in> set (cm_recs c)" and recs: "cm_recs c' = map (\<lambda>q. if ar_id q = ar_id r then f q else q) (cm_recs c)"
    and n: "cm_nRecs c' = cm_nRecs c" and f: "\<And>q. ar_id (f q) = ar_id q" "\<And>q. ar_channelNo (f q) = ar_channelNo q"
  shows "recs_ok c'"
    and "ar_channelNo r = ch \<Longrightarrow> chan_nums ch c' (nums (f r))"
    and "ar_channelNo r \<noteq> ch \<Longrightarrow> chan_nums ch c' = chan_nums ch c"
    and "chan_nums ch c' q \<Longrightarrow> \<exists>q'. chan_nums ch c q' \<and> ar_id q' = ar_id q"
proof -
  have "map ar_id (cm_recs c') = map ar_id (cm_recs c)"
    "map (chan_key \<circ> ar_channelNo) (cm_recs c') = map (chan_key \<circ> ar_channelNo) (cm_recs c)"
    unfolding recs by (auto simp: f)
  moreover from this have "ar_id ` set (cm_recs c') = ar_id ` set (cm_recs c)" by (metis set_map)
  then have "\<forall>r \<in> set (cm_recs c'). ar_id r < cm_nRecs c'" using ok n unfolding recs_ok_def by (metis (no_types) imageE image_eqI)
  ultimately show "recs_ok c'" using ok unfolding recs_ok_def by simp
  show "chan_nums ch c' (nums (f r))" if "ar_channelNo r = ch"
  proof (rule chan_numsI)
    show "f r \<in> set (cm_recs c')" unfolding recs using r by (auto simp: image_iff intro: bexI[of _ r])
    show "ar_channelNo (f r) = ch" using that by (simp add: f)
  qed
  have same: "x = r" if "x \<in> set (cm_recs c)" "ar_id x = ar_id r" for x by (rule rec_id_unique[OF ok that(1) r that(2)])
  show "chan_nums ch c' = chan_nums ch c" if ne: "ar_channelNo r \<noteq> ch"
  proof (rule ext, rule iffI)
    fix q assume "chan_nums ch c' q"
    then obtain x where x: "x \<in> set (cm_recs c)" "q = nums (if ar_id x = ar_id r then f x else x)" "ar_channelNo q = ch"
      by (auto simp: chan_nums_def recs)
    have "ar_id x \<noteq> ar_id r"
    proof
      assume "ar_id x = ar_id r"
      then have "ar_channelNo r = ch" using same[OF x(1)] x(2,3) f(2) by simp
      then show False using ne by simp
    qed
    then show "chan_nums ch c q" using x by (auto simp: chan_nums_def)
  next
    fix q assume "chan_nums ch c q"
    then obtain x where x: "x \<in> set (cm_recs c)" "q = nums x" "ar_channelNo x = ch" by (auto simp: chan_nums_def)
    have "ar_id x \<noteq> ar_id r" using same[OF x(1)] x(3) ne by auto
    then have "x \<in> set (cm_recs c')" unfolding recs using x(1) by (auto simp: image_iff intro: bexI[of _ x])
    then show "chan_nums ch c' q" using x(2,3) by (auto simp: chan_nums_def)
  qed
  show "\<exists>q'. chan_nums ch c q' \<and> ar_id q' = ar_id q" if "chan_nums ch c' q"
  proof -
    from that obtain x where x: "x \<in> set (cm_recs c)" "q = nums (if ar_id x = ar_id r then f x else x)" "ar_channelNo q = ch"
      by (auto simp: chan_nums_def recs)
    then have "chan_nums ch c (nums x)" "ar_id (nums x) = ar_id q" by (auto simp: chan_nums_def f split: if_split_asm)
    then show ?thesis by blast
  qed
qed

lemma unat_Suc32: "unat (w :: u32) + 1 < 2 ^ 32 \<Longrightarrow> unat (w + 1) = unat w + 1"
  by (subst unat_add_lem[THEN iffD1]) simp_all

text \<open>Sending.\<close>

lemma end_ok_send:
  assumes e: "end_ok ch cid n m d psent" and i: "link_ids ch cid" and nz: "mem_stream_getSize stream \<noteq> 0"
    and a: "mem_stream_getAddress stream \<noteq> 0" and r: "getRecordFor (dv_comms d) (mem_stream_getAddress stream) False = Some r"
    and b: "unat (ar_nextMsgID r) + 2 < 2 ^ 32" and s: "comms_send stream (dv_comms d) = Some (k, c)"
  shows "end_ok ch cid n m (d\<lparr>dv_comms := c, dv_sent :=
      (if mem_stream_getAddress stream = ch then dv_sent d @ [payload_of (Some stream)] else dv_sent d)\<rparr>) psent" (is ?E)
    and "keeps ch n d x \<Longrightarrow> keeps ch n (d\<lparr>dv_comms := c, dv_sent :=
      (if mem_stream_getAddress stream = ch then dv_sent d @ [payload_of (Some stream)] else dv_sent d)\<rparr>) x"
proof -
  let ?c = "dv_comms d" and ?a = "mem_stream_getAddress stream" and ?p = "payload_of (Some stream)"
  define sent where "sent = (if ?a = ch then dv_sent d @ [?p] else dv_sent d)"
  define el where "el = \<lparr>qe_msg = msg_header (cm_connID ?c) ?a (ar_nextMsgID r + 1) (ar_lastMsgSaved r) @ ?p,
      qe_channelNo = ?a, qe_msgID = ar_nextMsgID r + 1\<rparr>"
  have ok: "recs_ok ?c" and cid: "cm_connID ?c = cid" using e by (simp_all add: end_ok_def)
  have d: "distinct (map ar_id (cm_recs ?c))" using ok by (simp add: recs_ok_def)
  note S = comms_send_known[OF s nz r a d, folded el_def]
  have rin: "r \<in> set (cm_recs ?c)" "ar_channelNo r = ?a" using r getRecord_iff[OF ok] by auto
  have q1: "ar_id (stamped q) = ar_id q" "ar_channelNo (stamped q) = ar_channelNo q" for q by (simp_all add: stamped_def)
  note U = upd_rec_nums[OF ok rin(1) S(1) S(5) q1]
  have next': "unat (ar_nextMsgID r + 1) = unat (ar_nextMsgID r) + 1" using b by (intro unat_Suc32) simp
  obtain q where q: "chan_nums ch ?c q" "unat (ar_nextMsgID q) = n + length (dv_sent d)" "unat (ar_lastMsgRcd q) = m + length (dv_got d)"
      "ar_lastMsgSaved q \<le> ar_lastMsgRcd q"
    using e by (auto simp: end_ok_def counts_ok_def)
  have qr: "q = nums r" if "?a = ch" by (rule saved_bound[OF q(1) ok rin(1)]) (simp add: rin(2) that)
  have cnt: "counts_ok ch n m c (length sent) (length (dv_got d))"
  proof (cases "?a = ch")
    case True
    have "chan_nums ch c (nums (stamped r))" using U(2) rin(2) True by simp
    then show ?thesis unfolding counts_ok_def using q(2,3,4) qr[OF True] next' True
      by (intro exI[of _ "nums (stamped r)"]) (simp add: sent_def stamped_def)
  next
    case False
    then have "chan_nums ch c = chan_nums ch ?c" using U(3) rin(2) by simp
    then show ?thesis using e False by (simp add: end_ok_def counts_ok_def sent_def)
  qed
  have bound: "n + length sent + 1 < 2 ^ 32"
  proof (cases "?a = ch")
    case True
    then show ?thesis using q(2) qr[OF True] b by (simp add: sent_def)
  next
    case False
    then show ?thesis using e by (simp add: end_ok_def sent_def)
  qed
  have eok: "h_chan (qe_msg el) = qe_channelNo el" "h_id (qe_msg el) = qe_msgID el" by (simp_all add: el_def)
  have qs: "set (cm_msgQueue c) \<subseteq> insert el (set (cm_msgQueue ?c))" "set (cm_msgQueue ?c) \<subseteq> set (cm_msgQueue c)" "el \<in> set (cm_msgQueue c)"
    using S(8) by auto
  have qok: "queue_ok c" using e qs(1) eok unfolding end_ok_def queue_ok_def by blast
  have w: "wires c \<subseteq> wires ?c \<union> {qe_msg el}" using S(7) qs(1) by (auto simp: wires_def)
  have saved: "unat (ar_lastMsgSaved r) \<le> m + length (dv_got d)" if "?a = ch"
    using qr[OF that] q(3,4) by (simp add: word_le_nat_alt)
  have mid: "unat (ar_nextMsgID r + 1) \<le> n + length sent \<and> ?p = sent ! (unat (ar_nextMsgID r + 1) - n - 1)" if "?a = ch"
    using qr[OF that] q(2) that next' by (simp add: sent_def)
  have vers: "ntohs (take 2 (htonl (cm_connID ?c))) \<noteq> HAS_VERSION_FLAG" using i cid by (simp add: link_ids_def)
  have "wire_ok ch n sent (m + length (dv_got d)) (msg_header (cm_connID ?c) ?a (ar_nextMsgID r + 1) (ar_lastMsgSaved r) @ ?p)"
    by (rule header_wire[OF vers saved mid])
  then have wel: "wire_ok ch n sent (m + length (dv_got d)) (qe_msg el)" by (simp add: el_def)
  have w': "\<forall>b \<in> wires c. wire_ok ch n sent (m + length (dv_got d)) b"
  proof
    fix b assume "b \<in> wires c"
    then consider "b \<in> wires ?c" | "b = qe_msg el" using w by blast
    then show "wire_ok ch n sent (m + length (dv_got d)) b"
    proof cases
      case 1
      then have "wire_ok ch n (dv_sent d) (m + length (dv_got d)) b" using e by (simp add: end_ok_def)
      then show ?thesis using wire_ok_mono[OF _ order_refl, of ch n "dv_sent d" _ b "[?p]"] by (simp add: sent_def)
    next
      case 2
      then show ?thesis using wel by simp
    qed
  qed
  have p: "pend_ok ch m (d\<lparr>dv_comms := c, dv_sent := sent\<rparr>) psent"
  proof -
    have "pend_ok ch m d psent" using e by (simp add: end_ok_def)
    then show ?thesis using U(4) unfolding pend_ok_def by (fastforce split: option.splits)
  qed
  have "end_ok ch cid n m (d\<lparr>dv_comms := c, dv_sent := sent\<rparr>) psent"
    using e U(1) S(2) cid cnt bound qok w' p unfolding end_ok_def by simp
  then show ?E by (simp add: sent_def)
  have kq: "\<exists>e \<in> set (cm_msgQueue c). qe_channelNo e = ch \<and> unat (qe_msgID e) = j"
    if k: "keeps ch n d x" and j: "x < j \<and> j \<le> n + length sent" for j
  proof (cases "j \<le> n + length (dv_sent d)")
    case True
    then show ?thesis using k j qs(2) unfolding keeps_def by blast
  next
    case False
    then have "?a = ch" "j = n + length (dv_sent d) + 1" using j by (auto simp: sent_def split: if_split_asm)
    then show ?thesis using qs(3) qr q(2) next' by (intro bexI[of _ el]) (simp_all add: el_def)
  qed
  have "keeps ch n (d\<lparr>dv_comms := c, dv_sent := sent\<rparr>) x" if k: "keeps ch n d x"
    unfolding keeps_def by (intro allI impI) (simp add: kq[OF k])
  then show "keeps ch n (d\<lparr>dv_comms := c, dv_sent := (if ?a = ch then dv_sent d @ [?p] else dv_sent d)\<rparr>) x" if "keeps ch n d x"
    using that by (simp add: sent_def)
qed

text \<open>Receiving.\<close>

lemma payload_unread: "unread s b \<Longrightarrow> payload_of (Some s) = b"
  using unread_getBytes[of s b "length b"] by (auto simp: payload_of_def unread_size)

lemma acked_key: "acked chan x e \<Longrightarrow> qe_channelNo e = ch \<Longrightarrow> chan_key ch \<noteq> 0 \<Longrightarrow> chan_key ch = chan_key chan"
  by (simp add: acked_def chan_key_def and.commute)

lemma received_nums:
  assumes r: "received b c c' new" and ok: "recs_ok c"
  shows "map nums (cm_recs c') = map nums new @ map nums (cm_recs c)" and "recs_ok c'"
proof -
  have "map nums (map unaddr (cm_recs c')) = map nums (map unaddr new @ map unaddr (cm_recs c))"
    using r by (simp add: received_def)
  then show m: "map nums (cm_recs c') = map nums new @ map nums (cm_recs c)"
    by (simp add: comp_def nums_other(1)[symmetric])
  consider "new = []" | q where "new = [q]" "ar_id q = cm_nRecs c" "chan_key (ar_channelNo q) = chan_key (h_chan b)"
      "\<forall>r \<in> set (cm_recs c). chan_key (ar_channelNo r) \<noteq> chan_key (h_chan b)"
    using r unfolding received_def by blast
  then show "recs_ok c'"
  proof cases
    case 1
    then show ?thesis using ok r m by (simp add: recs_ok_nums received_def)
  next
    case 2
    have n: "cm_nRecs c' = cm_nRecs c + 1" using r 2(1) by (simp add: received_def)
    have "cm_nRecs c \<notin> ar_id ` set (cm_recs c)" "chan_key (h_chan b) \<notin> (chan_key \<circ> ar_channelNo) ` set (cm_recs c)"
      using ok 2(4) unfolding recs_ok_def by fastforce+
    then have "recs_ok_nums (map nums new @ map nums (cm_recs c)) (cm_nRecs c + 1)"
      using ok 2(1,2,3) unfolding recs_ok_def recs_ok_nums_def by (auto simp: comp_def less_Suc_eq)
    then show ?thesis by (simp add: recs_ok_nums m n)
  qed
qed

lemma received_chan:
  assumes r: "received b c c' new" and ok: "recs_ok c" and q: "chan_nums ch c q"
  shows "chan_nums ch c' = chan_nums ch c" and "new \<noteq> [] \<Longrightarrow> chan_key (h_chan b) \<noteq> chan_key ch"
proof -
  obtain x where x: "x \<in> set (cm_recs c)" "ar_channelNo x = ch" using q by (auto simp: chan_nums_def)
  have k: "chan_key (h_chan b) \<noteq> chan_key ch \<and> (\<forall>p \<in> set new. ar_channelNo p \<noteq> ch)" if "new \<noteq> []"
    using r that x unfolding received_def by auto
  then show "new \<noteq> [] \<Longrightarrow> chan_key (h_chan b) \<noteq> chan_key ch" by blast
  have "\<forall>p \<in> set new. ar_channelNo p \<noteq> ch" using k by (cases "new = []") auto
  then show "chan_nums ch c' = chan_nums ch c"
    by (intro ext) (auto simp: chan_nums_def received_nums(1)[OF r ok] simp del: set_map simp: set_map[of nums new])
qed

lemma arrived_version:
  "foreign ch b \<or> wire_ok ch m psent x b \<Longrightarrow> 14 \<le> length b \<Longrightarrow> ntohs (take 2 b) \<noteq> HAS_VERSION_FLAG"
  by (auto simp: foreign_def wire_ok_def)

lemma end_ok_receive:
  assumes e: "end_ok ch cid n m d psent" and i: "link_ids ch cid" and b: "m + length psent + 1 < 2 ^ 32"
    and a: "foreign ch b \<or> wire_ok ch m psent x b" and u: "unread s b" and t: "\<not> addr_hasType addr COMMS_CONN_RELAY"
    and k: "comms_checkIncomingStream s addr (dv_comms d) = Some (v, st, s', c)"
  shows "end_ok ch cid n m (d\<lparr>dv_comms := c, dv_pend := Some (v, st, payload_of (Some s'))\<rparr>) psent" (is ?E)
    and "keeps ch n d x \<Longrightarrow> keeps ch n (d\<lparr>dv_comms := c, dv_pend := Some (v, st, payload_of (Some s'))\<rparr>) x"
proof -
  let ?c = "dv_comms d"
  have ok: "recs_ok ?c" and cid: "cm_connID ?c = cid" using e by (simp_all add: end_ok_def)
  have vers: "ntohs (take 2 b) \<noteq> HAS_VERSION_FLAG" if "14 \<le> length b" by (rule arrived_version[OF a that])
  obtain c0 new where c0: "comms_core c0 = comms_core (?c\<lparr>cm_processingMsg := True\<rparr>)" "frames c0 = frames ?c"
      and r: "received b c0 c new" and short: "length b < 14 \<longrightarrow> new = [] \<and> cm_msgQueue c = cm_msgQueue ?c"
      and rec: "\<forall>p. st_rec st = Some p \<longrightarrow> p = cm_nRecs ?c \<and> new \<noteq> []"
      and v: "v \<longrightarrow> 14 \<le> length b \<and> unread s' (h_body b) \<and> h_body b \<noteq> [] \<and> st_msgID st = h_id b \<and>
        chan_key (st_channelNo st) = chan_key (h_chan b) \<and>
        (new = [] \<longrightarrow> h_conn b \<noteq> CONN_ID_NONE \<and> h_conn b = cm_connID ?c \<and>
          (\<exists>r. getRecordFor ?c (h_chan b) False = Some r \<and> h_id b = ar_lastMsgRcd r + 1))"
    by (rule exE[OF checkIncoming_received(2)[OF k u t ok]], rule vers, assumption) (elim exE conjE, rule that)
  have core: "cm_recs c0 = cm_recs ?c" "cm_msgQueue c0 = cm_msgQueue ?c" "cm_nRecs c0 = cm_nRecs ?c" "cm_connID c0 = cid"
    using c0(1) cid by (simp_all add: comms_core_def)
  have ok0: "recs_ok c0" using ok by (simp add: recs_ok_def core)
  have cn0: "chan_nums ch c0 = chan_nums ch ?c" by (rule counts_nums) (simp add: core)
  obtain q where q: "chan_nums ch ?c q" "unat (ar_nextMsgID q) = n + length (dv_sent d)" "unat (ar_lastMsgRcd q) = m + length (dv_got d)"
      "ar_lastMsgSaved q \<le> ar_lastMsgRcd q"
    using e by (auto simp: end_ok_def counts_ok_def)
  have q0: "chan_nums ch c0 q" using q(1) by (simp add: cn0)
  have cn: "chan_nums ch c = chan_nums ch ?c" using received_chan(1)[OF r ok0 q0] cn0 by simp
  have queue: "set (cm_msgQueue c) \<subseteq> set (cm_msgQueue ?c)" using r by (auto simp: received_def core)
  have "wires c \<subseteq> wires ?c" using queue r c0(2) by (auto simp: wires_def received_def)
  then have w: "\<forall>b \<in> wires c. wire_ok ch n (dv_sent d) (m + length (dv_got d)) b" using e unfolding end_ok_def by blast
  have len: "length (dv_got d) \<le> length psent" using e by (simp add: end_ok_def)
  have good: "unat (st_msgID st) = m + length (dv_got d) + 1 \<and> length (dv_got d) < length psent \<and>
      payload_of (Some s') = psent ! length (dv_got d)" if vv: v and key: "chan_key (st_channelNo st) = chan_key ch"
  proof -
    have v': "14 \<le> length b" "unread s' (h_body b)" "st_msgID st = h_id b" "chan_key (h_chan b) = chan_key ch"
      using v vv key by simp_all
    have "new = []" using received_chan(2)[OF r ok0 q0] v'(4) by blast
    then obtain x1 where x1: "getRecordFor ?c (h_chan b) False = Some x1" "h_id b = ar_lastMsgRcd x1 + 1" using v vv by blast
    have x2: "x1 \<in> set (cm_recs ?c)" "ar_channelNo x1 = h_chan b" using x1(1) getRecord_iff[OF ok] by auto
    obtain x3 where x3: "x3 \<in> set (cm_recs ?c)" "ar_channelNo x3 = ch" using q(1) by (auto simp: chan_nums_def)
    have "x1 = x3" by (rule chan_key_unique[OF ok x2(1) x3(1)]) (simp add: x2(2) x3(2) v'(4))
    then have hc: "h_chan b = ch" using x2(2) x3(2) by simp
    have "q = nums x1" by (rule saved_bound[OF q(1) ok x2(1)]) (simp add: x2(2) hc)
    then have l: "unat (ar_lastMsgRcd x1) = m + length (dv_got d)" using q(3) by simp
    then have id: "unat (h_id b) = m + length (dv_got d) + 1" using unat_Suc32[of "ar_lastMsgRcd x1"] x1(2) b len by simp
    have "\<not> foreign ch b" using v'(1,4) by (simp add: foreign_def)
    then have wr: "wire_ok ch m psent x b" using a by blast
    have "unat (h_id b) \<le> m + length psent \<and> h_body b = psent ! (unat (h_id b) - m - 1)"
      using wr hc id by (simp add: wire_ok_def)
    then show ?thesis using id v'(3) payload_unread[OF v'(2)] by simp
  qed
  have other: "\<forall>p q. st_rec st = Some p \<longrightarrow> chan_nums ch c q \<longrightarrow> ar_id q \<noteq> p"
  proof (intro allI impI)
    fix p q1 assume "st_rec st = Some p" "chan_nums ch c q1"
    then have "p = cm_nRecs ?c" "q1 = q" using rec cn chan_nums_unique[OF ok q(1)] by auto
    then show "ar_id q1 \<noteq> p" using q(1) ok by (auto simp: chan_nums_def recs_ok_def)
  qed
  have p: "pend_ok ch m (d\<lparr>dv_comms := c, dv_pend := Some (v, st, payload_of (Some s'))\<rparr>) psent"
    unfolding pend_ok_def using good other by simp
  have cnt: "counts_ok ch n m c (length (dv_sent d)) (length (dv_got d))" using e by (simp add: end_ok_def counts_ok_def cn)
  have conn: "cm_connID c = cid" using r core(4) by (simp add: received_def)
  have qok: "queue_ok c" using e queue unfolding end_ok_def queue_ok_def by blast
  show ?E using e received_nums(2)[OF r ok0] conn cnt qok w p unfolding end_ok_def by simp
  have kq: "\<exists>e \<in> set (cm_msgQueue c). qe_channelNo e = ch \<and> unat (qe_msgID e) = j"
    if kp: "keeps ch n d x" and j: "x < j \<and> j \<le> n + length (dv_sent d)" for j
  proof -
    obtain e1 where e1: "e1 \<in> set (cm_msgQueue ?c)" "qe_channelNo e1 = ch" "unat (qe_msgID e1) = j"
      using kp j unfolding keeps_def by blast
    show ?thesis
    proof (cases "cm_msgQueue c = cm_msgQueue ?c")
      case True
      then show ?thesis using e1 by auto
    next
      case False
      then have l: "14 \<le> length b" using short by (auto simp: not_less)
      have f: "getRecordFor c0 (h_chan b) False \<noteq> None" "cm_msgQueue c = filter (\<lambda>e. \<not> acked (h_chan b) (h_ack b) e) (cm_msgQueue ?c)"
        using r False core(2) by (auto simp: received_def)
      obtain x1 where "getRecordFor c0 (h_chan b) False = Some x1" using f(1) by blast
      then have x2: "x1 \<in> set (cm_recs ?c)" "ar_channelNo x1 = h_chan b" using getRecord_iff[OF ok0] by (auto simp: core)
      obtain x3 where x3: "x3 \<in> set (cm_recs ?c)" "ar_channelNo x3 = ch" using q(1) by (auto simp: chan_nums_def)
      have "\<not> acked (h_chan b) (h_ack b) e1"
      proof
        assume ac: "acked (h_chan b) (h_ack b) e1"
        have key: "chan_key ch = chan_key (h_chan b)" using acked_key[OF ac e1(2)] i by (simp add: link_ids_def)
        have "x1 = x3" by (rule chan_key_unique[OF ok x2(1) x3(1)]) (simp add: x2(2) x3(2) key)
        then have hc: "h_chan b = ch" using x2(2) x3(2) by simp
        then have "\<not> foreign ch b" using l by (simp add: foreign_def)
        then have "unat (h_ack b) \<le> x" using a hc by (simp add: wire_ok_def)
        then show False using ac j e1(3) by (simp add: acked_def word_le_nat_alt)
      qed
      then show ?thesis using e1 f(2) by auto
    qed
  qed
  show "keeps ch n (d\<lparr>dv_comms := c, dv_pend := Some (v, st, payload_of (Some s'))\<rparr>) x" if kp: "keeps ch n d x"
    unfolding keeps_def by (intro allI impI) (simp add: kq[OF kp])
qed

text \<open>Finishing with a message.\<close>

lemma keeps_queue:
  "keeps ch n d x \<Longrightarrow> cm_msgQueue c = cm_msgQueue (dv_comms d) \<Longrightarrow> keeps ch n (d\<lparr>dv_comms := c\<rparr>) x"
  "keeps ch n d x \<Longrightarrow> cm_msgQueue c = cm_msgQueue (dv_comms d) \<Longrightarrow> keeps ch n (d\<lparr>dv_comms := c, dv_pend := p, dv_got := g\<rparr>) x"
  by (simp_all add: keeps_def)

lemma end_ok_done:
  assumes e: "end_ok ch cid n m d psent" and r: "recs_ok c" "cm_connID c = cid" "cm_msgQueue c = cm_msgQueue (dv_comms d)"
    "frames c = frames (dv_comms d)"
    and q: "counts_ok ch n m c (length (dv_sent d)) (length g)" and g: "length (dv_got d) \<le> length g" "length g \<le> length psent" "g = take (length g) psent"
  shows "end_ok ch cid n m (d\<lparr>dv_comms := c, dv_pend := None, dv_got := g\<rparr>) psent"
proof -
  have "wires c = wires (dv_comms d)" by (simp add: wires_def r)
  then have "\<forall>b \<in> wires c. wire_ok ch n (dv_sent d) (m + length g) b"
    using e g(1) wire_ok_mono[of ch n "dv_sent d" "m + length (dv_got d)" _ "m + length g" "[]"] by (auto simp: end_ok_def)
  then show ?thesis using e r q g(2,3) by (simp add: end_ok_def pend_ok_def queue_ok_def)
qed

lemma chan_nums_flag [simp]: "chan_nums ch (c\<lparr>cm_processingMsg := b\<rparr>) = chan_nums ch c"
  by (simp add: chan_nums_def fun_eq_iff)

lemma removed_rec:
  assumes ok: "recs_ok c" and f: "find (\<lambda>r. ar_id r = p) (cm_recs c) = Some r" and q: "chan_nums ch c q" "ar_id q \<noteq> p"
  shows "recs_ok (c\<lparr>cm_recs := remove1 r (cm_recs c)\<rparr>)" "chan_nums ch (c\<lparr>cm_recs := remove1 r (cm_recs c)\<rparr>) q"
proof -
  have s: "set (remove1 r (cm_recs c)) \<subseteq> set (cm_recs c)" by (rule set_remove1_subset)
  have d: "distinct (map f (remove1 r xs))" if "distinct (map f xs)" for f :: "AddressRecord \<Rightarrow> 'a" and xs
    using that by (induction xs) (auto dest: in_set_remove1[THEN iffD1, rotated] notin_set_remove1)
  show "recs_ok (c\<lparr>cm_recs := remove1 r (cm_recs c)\<rparr>)"
    using ok s unfolding recs_ok_def by (auto intro!: d)
  obtain x where x: "x \<in> set (cm_recs c)" "q = nums x" "ar_channelNo x = ch" using q(1) by (auto simp: chan_nums_def)
  have "ar_id r = p" using f by (auto simp: find_Some_iff)
  then have "x \<noteq> r" using q(2) x(2) by auto
  then have "x \<in> set (remove1 r (cm_recs c))" using x(1) by simp
  then show "chan_nums ch (c\<lparr>cm_recs := remove1 r (cm_recs c)\<rparr>) q" using x(2,3) by (auto simp: chan_nums_def)
qed

lemma end_ok_processed:
  assumes e: "end_ok ch cid n m d psent" and b: "m + length psent + 1 < 2 ^ 32"
    and p: "dv_pend d = Some (v, st, body)" "v \<or> rejected" and k: "comms_msgProcessed st rejected (dv_comms d) = Some c"
  shows "end_ok ch cid n m (d\<lparr>dv_comms := c, dv_pend := None, dv_got :=
        (if \<not> rejected \<and> chan_key (st_channelNo st) = chan_key ch then dv_got d @ [body] else dv_got d)\<rparr>) psent" (is ?E)
    and "keeps ch n d x \<Longrightarrow> keeps ch n (d\<lparr>dv_comms := c, dv_pend := None, dv_got :=
        (if \<not> rejected \<and> chan_key (st_channelNo st) = chan_key ch then dv_got d @ [body] else dv_got d)\<rparr>) x"
proof -
  let ?c = "dv_comms d" and ?u = "\<lambda>r :: AddressRecord. r\<lparr>ar_lastMsgRcd := st_msgID st\<rparr>"
  have ok: "recs_ok ?c" and cid: "cm_connID ?c = cid" and got: "length (dv_got d) \<le> length psent" "dv_got d = take (length (dv_got d)) psent"
    using e by (simp_all add: end_ok_def)
  obtain q where q: "chan_nums ch ?c q" "unat (ar_nextMsgID q) = n + length (dv_sent d)" "unat (ar_lastMsgRcd q) = m + length (dv_got d)"
      "ar_lastMsgSaved q \<le> ar_lastMsgRcd q"
    using e by (auto simp: end_ok_def counts_ok_def)
  have pend: "\<And>i q. st_rec st = Some i \<Longrightarrow> chan_nums ch ?c q \<Longrightarrow> ar_id q \<noteq> i"
    "v \<Longrightarrow> chan_key (st_channelNo st) = chan_key ch \<Longrightarrow> unat (st_msgID st) = m + length (dv_got d) + 1 \<and>
        length (dv_got d) < length psent \<and> body = psent ! length (dv_got d)"
    using e p(1) by (auto simp: end_ok_def pend_ok_def)
  have goal: "end_ok ch cid n m (d\<lparr>dv_comms := c, dv_pend := None, dv_got :=
        (if \<not> rejected \<and> chan_key (st_channelNo st) = chan_key ch then dv_got d @ [body] else dv_got d)\<rparr>) psent \<and> cm_msgQueue c = cm_msgQueue ?c"
  proof (cases rejected)
    case True
    have "c = ?c\<lparr>cm_processingMsg := False\<rparr> \<or> (\<exists>i r. st_rec st = Some i \<and> find (\<lambda>r. ar_id r = i) (cm_recs ?c) = Some r \<and>
        c = ?c\<lparr>cm_recs := remove1 r (cm_recs ?c), cm_processingMsg := False\<rparr>)"
      using k True by (auto simp: comms_msgProcessed_def bind_unit_Some split: option.split_asm dest!: removeAddrRec_shape)
    then consider "c = ?c\<lparr>cm_processingMsg := False\<rparr>"
      | i r where "st_rec st = Some i" "find (\<lambda>r. ar_id r = i) (cm_recs ?c) = Some r"
        "c = ?c\<lparr>cm_recs := remove1 r (cm_recs ?c), cm_processingMsg := False\<rparr>" by blast
    then have "recs_ok c \<and> cm_connID c = cid \<and> cm_msgQueue c = cm_msgQueue ?c \<and> frames c = frames ?c \<and> chan_nums ch c q"
    proof cases
      case 1
      then show ?thesis using ok cid q(1) by (simp add: recs_ok_def frames_def chan_nums_def)
    next
      case 2
      have "ar_id q \<noteq> i" using pend(1)[OF 2(1) q(1)] .
      from removed_rec[OF ok 2(2) q(1) this] show ?thesis using cid by (simp add: 2(3) recs_ok_def frames_def chan_nums_def)
    qed
    moreover from this have "counts_ok ch n m c (length (dv_sent d)) (length (dv_got d))" using q(2,3,4) unfolding counts_ok_def by blast
    ultimately show ?thesis using True end_ok_done[OF e, of c "dv_got d"] got by simp
  next
    case False
    then have v: v using p(2) by blast
    obtain r where r: "getRecordFor ?c (st_channelNo st) True = Some r"
      and c: "c = (if ar_lastMsgRcd r < st_msgID st then upd_rec (ar_id r) ?u ?c else ?c)\<lparr>cm_processingMsg := False\<rparr>"
      using k False by (auto simp: comms_msgProcessed_def bind_unit_Some)
    have rin: "r \<in> set (cm_recs ?c)" "chan_key (ar_channelNo r) = chan_key (st_channelNo st)"
      using r by (auto simp: getRecord_True find_Some_iff)
    have U: "recs_ok (upd_rec (ar_id r) ?u ?c)" "ar_channelNo r = ch \<Longrightarrow> chan_nums ch (upd_rec (ar_id r) ?u ?c) (nums (?u r))"
      "ar_channelNo r \<noteq> ch \<Longrightarrow> chan_nums ch (upd_rec (ar_id r) ?u ?c) = chan_nums ch ?c"
      using upd_rec_nums(1-3)[OF ok rin(1), where c' = "upd_rec (ar_id r) ?u ?c" and f = ?u] by simp_all
    have base: "recs_ok c \<and> cm_connID c = cid \<and> cm_msgQueue c = cm_msgQueue ?c \<and> frames c = frames ?c"
      using U(1) ok cid by (auto simp: c recs_ok_def)
    show ?thesis
    proof (cases "chan_key (st_channelNo st) = chan_key ch")
      case True
      note P = pend(2)[OF v True]
      obtain x3 where x3: "x3 \<in> set (cm_recs ?c)" "ar_channelNo x3 = ch" using q(1) by (auto simp: chan_nums_def)
      have "r = x3" by (rule chan_key_unique[OF ok rin(1) x3(1)]) (simp add: rin(2) x3(2) True)
      then have rc: "ar_channelNo r = ch" using x3(2) by simp
      have qr: "q = nums r" by (rule saved_bound[OF q(1) ok rin(1) rc])
      have lt: "ar_lastMsgRcd r < st_msgID st" using P q(3) by (simp add: qr word_less_nat_alt)
      have "chan_nums ch c (nums (?u r))" using U(2)[OF rc] lt by (simp add: c chan_nums_def)
      moreover have "ar_lastMsgSaved r \<le> st_msgID st" using q(4) lt by (simp add: qr)
      ultimately have "counts_ok ch n m c (length (dv_sent d)) (length (dv_got d @ [body]))"
        unfolding counts_ok_def using P q(2) by (intro exI[of _ "nums (?u r)"]) (simp add: qr)
      moreover have "dv_got d @ [body] = take (length (dv_got d @ [body])) psent"
        using P got(2) by (simp add: take_Suc_conv_app_nth)
      ultimately show ?thesis using end_ok_done[OF e, of c "dv_got d @ [body]"] base P True False by simp
    next
      case kne: False
      then have rc: "ar_channelNo r \<noteq> ch" using rin(2) by auto
      have "chan_nums ch c = chan_nums ch ?c" by (simp add: c U(3)[OF rc] del: upd_rec_sel)
      then have "counts_ok ch n m c (length (dv_sent d)) (length (dv_got d))" using e by (simp add: end_ok_def counts_ok_def)
      then show ?thesis using end_ok_done[OF e, of c "dv_got d"] base got kne by simp
    qed
  qed
  then show ?E by blast
  show "keeps ch n (d\<lparr>dv_comms := c, dv_pend := None, dv_got :=
        (if \<not> rejected \<and> chan_key (st_channelNo st) = chan_key ch then dv_got d @ [body] else dv_got d)\<rparr>) x" if "keeps ch n d x"
    using keeps_queue(2)[OF that] goal by blast
qed

lemma device_step_ok:
  assumes st: "device_step ch arrives d d'" and e: "end_ok ch cid n m d psent" and i: "link_ids ch cid"
    and b: "m + length psent + 1 < 2 ^ 32" and a: "\<And>b. arrives b \<Longrightarrow> foreign ch b \<or> wire_ok ch m psent x b"
    and k: "keeps ch n d x"
  shows "end_ok ch cid n m d' psent \<and> keeps ch n d' x"
proof -
  have d: "distinct (map ar_id (cm_recs (dv_comms d)))" using e by (simp add: end_ok_def recs_ok_def)
  have quiet: "end_ok ch cid n m (d\<lparr>dv_comms := c\<rparr>) psent \<and> keeps ch n (d\<lparr>dv_comms := c\<rparr>) x"
    if "quiet X (dv_comms d) c" "X \<subseteq> wires (dv_comms d)" for X c
    using end_ok_quiet[OF e that] keeps_queue(1)[OF k] by blast
  note none = quiet[where X = "{}", OF _ empty_subsetI]
  show ?thesis
    using st
  proof cases
    case (step_send stream r k' c)
    then show ?thesis using end_ok_send[OF e i] k by simp
  next
    case (step_resend filt force k' c)
    then show ?thesis using quiet[OF quiet_resendAll[OF step_resend(2)]] by (simp add: wires_def)
  next
    case (step_ack c)
    then show ?thesis using end_ok_acked[OF e ackAny_acks[OF step_ack(2) d] i] keeps_queue(1)[OF k] by simp
  next
    case (step_save stream tok stream' c)
    then show ?thesis using none[OF quiet_writeToStream] by simp
  next
    case (step_saved tok c)
    consider "c = dv_comms d" | "acked_only (saved_all (dv_comms d)) c" using saveSucceeded_acks[OF step_saved(2) d] by blast
    then show ?thesis
    proof cases
      case 1
      then show ?thesis using step_saved(1) e k by simp
    next
      case 2
      let ?d = "d\<lparr>dv_comms := saved_all (dv_comms d)\<rparr>"
      have e2: "end_ok ch cid n m ?d psent" by (rule end_ok_saved_all(1)[OF e])
      have "end_ok ch cid n m (?d\<lparr>dv_comms := c\<rparr>) psent" "cm_msgQueue c = cm_msgQueue (dv_comms ?d)"
        using end_ok_acked[OF e2 _ i] 2 by simp_all
      then show ?thesis using step_saved(1) keeps_queue(1)[OF k] end_ok_saved_all(2)[OF e] by simp
    qed
  next
    case (step_failed t c)
    then show ?thesis using none[OF quiet_transportFailed] by simp
  next
    case (step_timer c)
    then show ?thesis using none[OF quiet_resetTimer] by simp
  next
    case (step_stop c)
    then show ?thesis using none[OF quiet_stop] by simp
  next
    case (step_switch t sn off c)
    then show ?thesis using none[OF quiet_setAddrDisabled] by simp
  next
    case (step_receive bs s addr v msg s' c)
    then show ?thesis using end_ok_receive[OF e i b a[OF step_receive(2)] step_receive(3,4,5)] k by simp
  next
    case (step_processed v msg body rejected c)
    then show ?thesis using end_ok_processed[OF e b step_processed(2,3,4)] k by simp
  qed
qed

text \<open>What a step leaves of the history.\<close>

lemma device_step_history:
  assumes "device_step ch arrives d d'"
  shows "\<exists>xs ys. dv_sent d' = dv_sent d @ xs \<and> dv_got d' = dv_got d @ ys"
  using assms by cases auto

lemma end_ok_more:
  assumes e: "end_ok ch cid n m d psent"
  shows "end_ok ch cid n m d (psent @ xs)"
proof -
  have "pend_ok ch m d (psent @ xs)"
    using e unfolding end_ok_def pend_ok_def by (auto simp: nth_append split: option.splits)
  then show ?thesis using e unfolding end_ok_def by auto
qed

lemma keeps_more: "keeps ch n d x \<Longrightarrow> x \<le> y \<Longrightarrow> keeps ch n d y"
  by (auto simp: keeps_def)

section \<open>Two devices\<close>

text \<open>A message of the other side arrives any time after it was given to a transport, any number of
  times or never; messages of other channels arrive as they like.\<close>

definition arrives_from :: "u16 \<Rightarrow> device \<Rightarrow> u8 list \<Rightarrow> bool" where
  "arrives_from ch d b \<longleftrightarrow> b \<in> frames (dv_comms d) \<or> foreign ch b"

inductive link_step :: "u16 \<Rightarrow> device \<times> device \<Rightarrow> device \<times> device \<Rightarrow> bool" for ch where
  step_left: "device_step ch (arrives_from ch e) d d' \<Longrightarrow> link_step ch (d, e) (d', e)"
| step_right: "device_step ch (arrives_from ch d) e e' \<Longrightarrow> link_step ch (d, e) (d, e')"

inductive_simps link_step_simps: "link_step ch (d, e) (d', e')"

text \<open>Two devices whose records of the channel agree: what \<open>d\<close> has numbered \<open>e\<close> has received, and the
  other way round, nothing is being processed, and the messages on the way are old.\<close>

definition fresh :: "u16 \<Rightarrow> u32 \<Rightarrow> nat \<Rightarrow> nat \<Rightarrow> device \<Rightarrow> bool" where
  "fresh ch cid n m d \<longleftrightarrow> dv_sent d = [] \<and> dv_got d = [] \<and> dv_pend d = None \<and> recs_ok (dv_comms d) \<and>
     cm_connID (dv_comms d) = cid \<and> n + 1 < 2 ^ 32 \<and> counts_ok ch n m (dv_comms d) 0 0 \<and> queue_ok (dv_comms d) \<and>
     (\<forall>b \<in> wires (dv_comms d). wire_ok ch n [] m b)"

definition link_ok :: "u16 \<Rightarrow> u32 \<Rightarrow> nat \<Rightarrow> nat \<Rightarrow> device \<times> device \<Rightarrow> bool" where
  "link_ok ch cid n m l \<longleftrightarrow> (case l of (d, e) \<Rightarrow>
     end_ok ch cid n m d (dv_sent e) \<and> end_ok ch cid m n e (dv_sent d) \<and>
     keeps ch n d (n + length (dv_got e)) \<and> keeps ch m e (m + length (dv_got d)))"

lemma link_ok_fresh: "fresh ch cid n m d \<Longrightarrow> fresh ch cid m n e \<Longrightarrow> link_ok ch cid n m (d, e)"
  by (auto simp: link_ok_def fresh_def end_ok_def keeps_def pend_ok_def)

lemma link_ok_swap: "link_ok ch cid n m (d, e) \<longleftrightarrow> link_ok ch cid m n (e, d)"
  by (auto simp: link_ok_def)

lemma link_ok_left:
  assumes l: "link_ok ch cid n m (d, e)" and s: "device_step ch (arrives_from ch e) d d'" and i: "link_ids ch cid"
  shows "link_ok ch cid n m (d', e)"
proof -
  have e: "end_ok ch cid n m d (dv_sent e)" "end_ok ch cid m n e (dv_sent d)" "keeps ch n d (n + length (dv_got e))"
    "keeps ch m e (m + length (dv_got d))" using l by (simp_all add: link_ok_def)
  have b: "m + length (dv_sent e) + 1 < 2 ^ 32" using e(2) by (simp add: end_ok_def)
  have a: "foreign ch b \<or> wire_ok ch m (dv_sent e) (n + length (dv_got e)) b" if "arrives_from ch e b" for b
    using that e(2) by (auto simp: arrives_from_def end_ok_def wires_def)
  obtain xs ys where h: "dv_sent d' = dv_sent d @ xs" "dv_got d' = dv_got d @ ys" using device_step_history[OF s] by blast
  have "end_ok ch cid n m d' (dv_sent e) \<and> keeps ch n d' (n + length (dv_got e))"
    by (rule device_step_ok[OF s e(1) i b a e(3)])
  moreover have "end_ok ch cid m n e (dv_sent d')" using end_ok_more[OF e(2)] h(1) by simp
  moreover have "keeps ch m e (m + length (dv_got d'))" by (rule keeps_more[OF e(4)]) (simp add: h(2))
  ultimately show ?thesis by (simp add: link_ok_def)
qed

lemma link_ok_step:
  assumes "link_step ch l l'" and "link_ok ch cid n m l" and "link_ids ch cid"
  shows "link_ok ch cid n m l'"
  using assms(1)
proof cases
  case (step_left e d d')
  then show ?thesis using link_ok_left assms(2,3) by blast
next
  case (step_right d e e')
  then show ?thesis using link_ok_left link_ok_swap assms(2,3) by blast
qed

lemma link_ok_reach:
  assumes r: "(link_step ch)\<^sup>*\<^sup>* (d, e) l" and "fresh ch cid n m d" and "fresh ch cid m n e" and i: "link_ids ch cid"
  shows "link_ok ch cid n m l"
  using r by induction (use link_ok_fresh[OF assms(2,3)] link_ok_step[OF _ _ i] in blast)+

section \<open>What the devices may rely on\<close>

lemma link_ok_reached:
  assumes "(link_step ch)\<^sup>*\<^sup>* (d, e) (d', e')" and "fresh ch cid n m d" and "fresh ch cid m n e" and "link_ids ch cid"
  shows "end_ok ch cid n m d' (dv_sent e')" "end_ok ch cid m n e' (dv_sent d')"
    "keeps ch n d' (n + length (dv_got e'))" "keeps ch m e' (m + length (dv_got d'))"
  using link_ok_reach[OF assms] by (simp_all add: link_ok_def)

lemma end_ok_prefix: "end_ok ch cid n m d psent \<Longrightarrow> prefix (dv_got d) psent"
  unfolding end_ok_def by (metis take_is_prefix)

lemma queued_body:
  assumes e: "end_ok ch cid n m d psent" and k: "keeps ch n d (n + g)" and j: "g \<le> j" "j < length (dv_sent d)"
  shows "\<exists>el \<in> set (cm_msgQueue (dv_comms d)). qe_channelNo el = ch \<and> unat (qe_msgID el) = n + j + 1 \<and>
      h_body (qe_msg el) = dv_sent d ! j"
proof -
  obtain el where el: "el \<in> set (cm_msgQueue (dv_comms d))" "qe_channelNo el = ch" "unat (qe_msgID el) = n + j + 1"
    using k[unfolded keeps_def, rule_format, of "n + j + 1"] j by auto
  have "h_chan (qe_msg el) = ch" "h_id (qe_msg el) = qe_msgID el" using e el(1,2) by (auto simp: end_ok_def queue_ok_def)
  moreover have "wire_ok ch n (dv_sent d) (m + length (dv_got d)) (qe_msg el)" using e el(1) by (auto simp: end_ok_def wires_def)
  ultimately have "h_body (qe_msg el) = dv_sent d ! j" using el(3) by (simp add: wire_ok_def)
  then show ?thesis using el by blast
qed

section \<open>A link at work\<close>

definition wit_chan :: u16 where "wit_chan = 0x1235"
definition wit_connID :: u32 where "wit_connID = 0x12345678"

definition wit_stream :: "u16 \<Rightarrow> u8 list \<Rightarrow> mem_stream" where
  "wit_stream chan bs = \<lparr>curReadPos = 0, curWritePos = length bs, channelNo = chan, sbuf = bs, onClose = None,
     nBytesWritten = length bs, nBytesAllocated = length bs, sversion = 0, nReadBits = 0, nWriteBits = 0, isOpen = True\<rparr>"

definition wit_addr :: CommsAddrRec where
  "wit_addr = zero_addr\<lparr>addrConTypes := type_mask (conType_number COMMS_CONN_SMS),
     u_sms := \<lparr>sms_phone = [0x35, 0x35], sms_port = 1\<rparr>\<rparr>"

definition wit_gi :: curGameInfo where
  "wit_gi = \<lparr>giDictName = None, giPlayers = [], gameID = 7, gameSeconds = 0, dictLang = 0, giNPlayers = 0, boardSize = 0,
     forceChannel = 0, serverRole = 0, hintsNotAllowed = False, timerEnabled = False, allowPickTiles = False,
     allowHintRect = False, giInDuplicateMode = False, phoniesAction = 0, confirmBTConnect = False\<rparr>"

text \<open>The transport takes every message whole.\<close>

definition wit_procs :: transport where
  "wit_procs = \<lparr>tp_flags = 0, tp_send = \<lambda>_ bs _ _. int (length bs), tp_sendNoConn = None, tp_hasStatus = False,
     tp_seconds = \<lambda>_. 0, tp_random = \<lambda>_. 0, tp_devID = (0, [])\<rparr>"

definition wit_device :: "bool \<Rightarrow> u32 \<Rightarrow> u32 \<Rightarrow> device" where
  "wit_device server sent rcd =
     \<lparr>dv_comms = (zero_comms wit_procs wit_gi)\<lparr>cm_connID := wit_connID, cm_isServer := server, cm_channelSeed := wit_chan,
        cm_addr := wit_addr, cm_nRecs := 1, cm_recs := [\<lparr>ar_id = 0, ar_addr = wit_addr, ar_nextMsgID = sent, ar_lastMsgAckd = 0,
          ar_lastMsgRcd = rcd, ar_lastMsgSaved = rcd, ar_channelNo = wit_chan, ar_hostID = 0\<rparr>]\<rparr>,
      dv_pend = None, dv_sent = [], dv_got = []\<rparr>"

definition wit_out :: mem_stream where "wit_out = wit_stream wit_chan [0x41, 0x42]"

text \<open>The first device sends, and the second receives the message and finishes with it.\<close>

definition wit_c1 :: CommsCtxt where "wit_c1 = snd (the (comms_send wit_out (dv_comms (wit_device True 2 1))))"
definition wit_msg :: "u8 list" where "wit_msg = qe_msg (hd (cm_msgQueue wit_c1))"
definition wit_in :: "bool \<times> CommsMsgState \<times> mem_stream \<times> CommsCtxt" where
  "wit_in = the (comms_checkIncomingStream (wit_stream 0 wit_msg) wit_addr (dv_comms (wit_device False 1 2)))"
definition wit_c2 :: CommsCtxt where "wit_c2 = the (comms_msgProcessed (fst (snd wit_in)) False (snd (snd (snd wit_in))))"

definition wit_left :: device where
  "wit_left = (wit_device True 2 1)\<lparr>dv_comms := wit_c1, dv_sent := [payload_of (Some wit_out)]\<rparr>"
definition wit_right :: device where
  "wit_right = (wit_device False 1 2)\<lparr>dv_comms := wit_c2, dv_pend := None, dv_got := [payload_of (Some (fst (snd (snd wit_in))))]\<rparr>"

lemma wit_unread: "length b < 65536 \<Longrightarrow> unread (wit_stream chan b) b"
  by (simp add: unread_def wit_stream_def)

lemma wit_fresh: "unat sent + 1 < 2 ^ 32 \<Longrightarrow> fresh wit_chan wit_connID (unat sent) (unat rcd) (wit_device server sent rcd)"
  by (simp add: fresh_def wit_device_def recs_ok_def counts_ok_def queue_ok_def wires_def frames_def zero_comms_def
      chan_nums_def)

lemma wit_link_ids: "link_ids wit_chan wit_connID"
  unfolding link_ids_def wit_chan_def wit_connID_def by code_simp

lemma wit_sent: "comms_send wit_out (dv_comms (wit_device True 2 1)) = Some (16, wit_c1)"
proof -
  have "map_option fst (comms_send wit_out (dv_comms (wit_device True 2 1))) = Some 16" by code_simp
  then show ?thesis by (auto simp: wit_c1_def)
qed

lemma wit_msg_size: "length wit_msg = 16"
  by code_simp

lemma wit_on_the_way: "wit_msg \<in> frames wit_c1"
proof -
  have "CEvSend wit_msg (Some [48, 58, 51]) (Some wit_addr) COMMS_CONN_SMS 305419896 \<in> set (cm_out wit_c1)" by code_simp
  then show ?thesis unfolding frames_def by blast
qed

lemma wit_received: "comms_checkIncomingStream (wit_stream 0 wit_msg) wit_addr (dv_comms (wit_device False 1 2)) =
    Some (True, \<lparr>st_rec = None, st_msgID = 3, st_channelNo = wit_chan\<rparr>, fst (snd (snd wit_in)), snd (snd (snd wit_in)))"
proof -
  have "map_option (\<lambda>(v, st, s, c). (v, st)) (comms_checkIncomingStream (wit_stream 0 wit_msg) wit_addr (dv_comms (wit_device False 1 2))) =
      Some (True, \<lparr>st_rec = None, st_msgID = 3, st_channelNo = wit_chan\<rparr>)" by code_simp
  then show ?thesis by (auto simp: wit_in_def)
qed

lemma wit_done: "comms_msgProcessed \<lparr>st_rec = None, st_msgID = 3, st_channelNo = wit_chan\<rparr> False (snd (snd (snd wit_in))) = Some wit_c2"
proof -
  have "wit_in = the (comms_checkIncomingStream (wit_stream 0 wit_msg) wit_addr (dv_comms (wit_device False 1 2)))" by (rule wit_in_def)
  also have "\<dots> = (True, \<lparr>st_rec = None, st_msgID = 3, st_channelNo = wit_chan\<rparr>, fst (snd (snd wit_in)), snd (snd (snd wit_in)))"
    by (simp only: wit_received option.sel)
  finally have s: "fst (snd wit_in) = \<lparr>st_rec = None, st_msgID = 3, st_channelNo = wit_chan\<rparr>" by (metis fst_conv snd_conv)
  have "comms_msgProcessed (fst (snd wit_in)) False (snd (snd (snd wit_in))) \<noteq> None" by code_simp
  then show ?thesis by (auto simp: wit_c2_def s)
qed

lemma wit_run1: "link_step wit_chan (wit_device True 2 1, wit_device False 1 2) (wit_left, wit_device False 1 2)"
proof (rule step_left)
  have a: "mem_stream_getSize wit_out \<noteq> 0" "mem_stream_getAddress wit_out = wit_chan" "wit_chan \<noteq> 0" by code_simp+
  obtain r where r: "getRecordFor (dv_comms (wit_device True 2 1)) wit_chan False = Some r" "ar_nextMsgID r = 2"
    by (simp add: getRecord_False wit_device_def)
  have "device_step wit_chan X (wit_device True 2 1) ((wit_device True 2 1)\<lparr>dv_comms := wit_c1, dv_sent :=
      (if mem_stream_getAddress wit_out = wit_chan then dv_sent (wit_device True 2 1) @ [payload_of (Some wit_out)]
       else dv_sent (wit_device True 2 1))\<rparr>)" for X
    by (rule step_send[OF a(1) _ _ _ wit_sent, where r = r]) (simp_all add: a r)
  then show "device_step wit_chan X (wit_device True 2 1) wit_left" for X
    by (simp add: wit_left_def a wit_device_def)
qed

lemma wit_run2: "(link_step wit_chan)\<^sup>*\<^sup>* (wit_left, wit_device False 1 2) (wit_left, wit_right)"
proof -
  let ?st = "\<lparr>st_rec = None, st_msgID = 3, st_channelNo = wit_chan\<rparr>" and ?c = "snd (snd (snd wit_in))"
  let ?e = "(wit_device False 1 2)\<lparr>dv_comms := ?c, dv_pend := Some (True, ?st, payload_of (Some (fst (snd (snd wit_in)))))\<rparr>"
  have "arrives_from wit_chan wit_left wit_msg" using wit_on_the_way by (simp add: arrives_from_def wit_left_def)
  moreover have "\<not> addr_hasType wit_addr COMMS_CONN_RELAY" by code_simp
  ultimately have "link_step wit_chan (wit_left, wit_device False 1 2) (wit_left, ?e)"
    by (intro step_right step_receive[OF _ wit_unread _ wit_received]) (simp_all add: wit_msg_size)
  moreover have "device_step wit_chan (arrives_from wit_chan wit_left) ?e (?e\<lparr>dv_comms := wit_c2, dv_pend := None, dv_got :=
      (if \<not> False \<and> chan_key (st_channelNo ?st) = chan_key wit_chan
       then dv_got ?e @ [payload_of (Some (fst (snd (snd wit_in))))] else dv_got ?e)\<rparr>)"
    by (rule step_processed[where v = True]) (simp_all add: wit_done)
  then have "link_step wit_chan (wit_left, ?e) (wit_left, wit_right)"
    by (intro step_right) (simp add: wit_right_def wit_device_def)
  ultimately show ?thesis by (blast intro: rtranclp_trans)
qed

lemma wit_run:
  "(link_step wit_chan)\<^sup>*\<^sup>* (wit_device True 2 1, wit_device False 1 2) (wit_left, wit_device False 1 2)"
  "(link_step wit_chan)\<^sup>*\<^sup>* (wit_device True 2 1, wit_device False 1 2) (wit_left, wit_right)"
proof -
  show r: "(link_step wit_chan)\<^sup>*\<^sup>* (wit_device True 2 1, wit_device False 1 2) (wit_left, wit_device False 1 2)"
    by (rule r_into_rtranclp, rule wit_run1)
  show "(link_step wit_chan)\<^sup>*\<^sup>* (wit_device True 2 1, wit_device False 1 2) (wit_left, wit_right)"
    by (rule rtranclp_trans[OF r wit_run2])
qed

lemma wit_fresh_pair:
  "fresh wit_chan wit_connID 2 1 (wit_device True 2 1)" "fresh wit_chan wit_connID 1 2 (wit_device False 1 2)"
  using wit_fresh[of 2 1 True] wit_fresh[of 1 2 False] by simp_all

text \<open>C2: messages are delivered in order. Whatever the network loses, repeats or reorders, and
  however the two sides resend, acknowledge and save, what each side has processed on the channel is
  a prefix of what the other side has given to \<open>comms_send\<close> for it: nothing is skipped, repeated or
  made up.\<close>

theorem link_delivers_in_order:
  assumes "(link_step ch)\<^sup>*\<^sup>* (d, e) (d', e')" and "fresh ch cid n m d" and "fresh ch cid m n e" and "link_ids ch cid"
  shows "prefix (dv_got e') (dv_sent d') \<and> prefix (dv_got d') (dv_sent e')"
  using end_ok_prefix[OF link_ok_reached(1)[OF assms]] end_ok_prefix[OF link_ok_reached(2)[OF assms]] by blast

theorem link_delivers_in_order_witness:
  "prefix (dv_got wit_right) (dv_sent wit_left) \<and> prefix (dv_got wit_left) (dv_sent wit_right) \<and> length (dv_got wit_right) = 1"
  using link_delivers_in_order[OF wit_run(2) wit_fresh_pair wit_link_ids]
  by (simp add: wit_right_def)

text \<open>C6: nothing is lost. Every message given to \<open>comms_send\<close> that the other side has not processed
  yet is still in the sender's queue, under its number and with its contents, so that
  \<open>comms_resendAll\<close> can send it again; an acknowledgement never removes it.\<close>

theorem link_keeps_unprocessed:
  assumes "(link_step ch)\<^sup>*\<^sup>* (d, e) (d', e')" and "fresh ch cid n m d" and "fresh ch cid m n e" and "link_ids ch cid"
    and "length (dv_got e') \<le> k" and "k < length (dv_sent d')"
  shows "\<exists>el \<in> set (cm_msgQueue (dv_comms d')). qe_channelNo el = ch \<and> unat (qe_msgID el) = n + k + 1 \<and>
    h_body (qe_msg el) = dv_sent d' ! k"
  by (rule queued_body[OF link_ok_reached(1)[OF assms(1-4)] link_ok_reached(3)[OF assms(1-4)] assms(5,6)])

theorem link_keeps_unprocessed_witness:
  "\<exists>el \<in> set (cm_msgQueue (dv_comms wit_left)). qe_channelNo el = wit_chan \<and> unat (qe_msgID el) = 3 \<and>
    h_body (qe_msg el) = dv_sent wit_left ! 0"
  using link_keeps_unprocessed[OF wit_run(1) wit_fresh_pair wit_link_ids, of 0]
  by (simp add: wit_left_def wit_device_def)

end
