(* ===== verification/Spec2Isabelle.thy ===== *)
theory Spec2Isabelle
  imports Xw_Containers Xw_Pool Xw_MoveStack Xw_DictFile Xw_ScoreSpec Xw_Turns Xw_ServerProps Xw_DupeSpec Xw_CommsNext
begin

text \<open>
  A verification development for the common engine of XWords, the C code under
  \<open>src/xwords4/common\<close> that every front end (Linux, Android) links: the streams a game is saved
  to, the word lists, the pool of tiles, the board and its players, the rules and the scores, the
  robot's search for moves, the turn machine of hosts and clients, and the layer that carries their
  messages.

  THE PROGRAM. A game is a model (\<open>model.c\<close>: the board, the trays, the tiles placed but not yet
  committed) with its history (\<open>movestak.c\<close>, an undo stack on a memory stream of
  \<open>memstream.c\<close>) and its game information (\<open>gameinfo.h\<close>, \<open>game.c\<close>). The
  server (\<open>server.c\<close>) owns the pool (\<open>pool.c\<close>), decides whose turn it is, asks
  \<open>mscore.c\<close> whether a move is legal and what it scores, asks \<open>engine.c\<close> for the moves
  of robots and for hints, and talks to the servers of the other devices. The engine walks the word
  graph of a dictionary (\<open>dictnry.c\<close>, \<open>dictmgr.c\<close>). Messages go through
  \<open>comms.c\<close>, which numbers, queues, resends and acknowledges them. The callbacks that the code
  reaches the front end with (utilities, transports, the random generator, the clock) are parameters
  of the model, whose k-th answer is a function of k; what the code tells the front end is kept as a
  list of events.

  THE THEORIES, from the bottom up, with the code they model.

  \<^item> \<open>Xw_Base\<close>: the prelude; the integer types of \<open>xptypes.h\<close>, the constants of
    \<open>comtypes.h\<close> and \<open>model.h\<close>, memory with bounds (\<open>mem_get\<close>, \<open>mem_put\<close>),
    assertions (\<open>xp_assert\<close>), folds that may fail (\<open>ofold\<close>), and their lemmas.
  \<^item> \<open>Xw_Hash\<close>, \<open>Xw_Stream\<close>, \<open>Xw_Codec\<close>: \<open>augmentHash\<close> and
    \<open>finishHash\<close> of \<open>strutils.c\<close>; every operation of \<open>memstream.c\<close>; a stream read
    as a sequence of bits, with the locale \<open>stream_codec\<close>, the contract of every serialiser.
  \<^item> \<open>Xw_StrUtils\<close>: \<open>strutils.c\<close>: tiles, trays, scores, moves and strings on streams, the
    sort, the shuffle, the text form of SMS messages.
  \<^item> \<open>Xw_Containers\<close>: \<open>dictmgr.c\<close> and \<open>xwlist.c\<close>, with the locale \<open>fifo\<close>.
  \<^item> \<open>Xw_Pool\<close>: \<open>pool.c\<close>, with the locale \<open>tile_bag\<close>.
  \<^item> \<open>Xw_MoveStack\<close>: \<open>movestak.c\<close>, with the locale \<open>undo_stack\<close>.
  \<^item> \<open>Xw_Dict\<close>, \<open>Xw_Words\<close>, \<open>Xw_DictFile\<close>: the tables of tiles, the word graph
    and the files of \<open>dictnry.c\<close>, the part of \<open>linux/linuxdict.c\<close> that interprets the
    bytes of a file, and the walks of \<open>engine.c\<close> along a word, with the locale
    \<open>word_graph\<close>.
  \<^item> \<open>Xw_GameInfo\<close>: \<open>CurGameInfo\<close> and the functions \<open>gi_*\<close> of \<open>game.c\<close>.
  \<^item> \<open>Xw_Model\<close>, \<open>Xw_Pending\<close>, \<open>Xw_Turns\<close>: \<open>model.c\<close>, up to a single
    turn; the tiles that are placed and taken back; turns that are committed, undone and replayed.
    \<open>Xw_PendingInv\<close>: the invariant of a model with pending tiles.
  \<^item> \<open>Xw_Score\<close>, \<open>Xw_ScoreSpec\<close>: \<open>mscore.c\<close> and the rules it implements.
  \<^item> \<open>Xw_Engine\<close>, \<open>Xw_EngineSpec\<close>, \<open>Xw_Search\<close>: \<open>engine.c\<close>, what its cache
    of moves promises, and what its search may do.
  \<^item> \<open>Xw_Server\<close>, \<open>Xw_ServerTurn\<close>, \<open>Xw_ServerDupe\<close>, \<open>Xw_ServerNet\<close>,
    \<open>Xw_ServerMain\<close>: \<open>server.c\<close>: state and streams; tiles, turns, refused words, undo;
    duplicate mode with its clock; registration, first messages, chat; robots, \<open>server_do\<close>, received
    messages. \<open>Xw_ServerInv\<close>, \<open>Xw_ServerProps\<close>, \<open>Xw_DupeSpec\<close>: the reachable
    states, the end of the game, duplicate mode.
  \<^item> \<open>Xw_CommsAddr\<close>, \<open>Xw_Comms\<close>, \<open>Xw_CommsIn\<close>: \<open>comms.c\<close>: addresses; the
    records of the channels, the queue and sending; what arrives, and the saved state.
    \<open>Xw_CommsInv\<close>, \<open>Xw_CommsLink\<close>, \<open>Xw_CommsNext\<close>: what the operations do to records,
    queue and network; two devices on an unreliable network; which messages are accepted.

  CONVENTIONS. Definitions have the names of the C functions, types and fields. A struct is a record,
  returned updated; an enumeration is a datatype or, where the code computes with it, a number. Integers
  that wrap in reachable cases are words (\<open>u8\<close>, \<open>u16\<close>, \<open>u32\<close>) or numbers with
  the wrap-around written out (\<open>trunc16\<close>, \<open>sub16\<close>, \<open>s16\<close>); the machine is little
  endian. \<open>None\<close> is a failed \<open>XP_ASSERT\<close>, an access outside of an array, or a loop that
  does not end: a theorem that a call is \<open>Some\<close> says that none of these happens. Results through
  pointers are components of a tuple. The build is that of \<open>linux/Makefile\<close>, with boards of up to 32
  rows and stream version 0x1B. Debug-only code is left out, but for the state of \<open>comms.c\<close> that
  release code reads too.

  BOUNDS AND LOOPS. Loops whose bound the code gives are structural recursion or folds. Two counters of the
  code appear as a number that counts down: \<open>fetch_rest\<close> puts a draw back at most four times
  (\<open>nBadTrays\<close> of \<open>fetchTiles\<close>), and \<open>engine_findMove\<close> repeats a search without a move once;
  both functions are total in that number, so no fuel is chosen. Loops that nothing bounds are
  \<open>partial_function (option)\<close>: the walk along a list of edges and the match of faces
  (\<open>dict_super_edge_with_tile\<close>, \<open>firstFaceMatch\<close>), the bubble sort of the moves
  (\<open>sort_moves\<close>), the loop that returns pending tiles (\<open>model_resetCurrentTurn\<close>), the loops
  of undo, the loop that shows scores (\<open>show_scores\<close>), the draw of a channel's seed
  (\<open>channelSeed_loop\<close>), and some that write texts. That the first four and \<open>show_scores\<close> end
  is part of the properties on them; that \<open>show_scores\<close> need not end for scores outside its range is a
  lemma, too. The seed loop ends when the generator gives a number above the lower two bits, and at
  once when there is a seed, which is what the properties on channels assume.

  THE PROPERTIES. Streams and containers: each serialiser writes what its reader returns, appends and touches
  nothing before (\<open>stream_codec\<close>, interpreted for integers, bits, tiles, trays, scores, moves, strings,
  players, pool and stack entries), so saved games and messages are read back; the base64 text of a message decodes
  to it; the dictionary cache is a least-recently-used list. The pool is a bag: draws and trades lose and invent no
  tile. The stack is a list with a cursor: push, undo, redo and random access refine it, whatever the position
  cache holds. Dictionaries: a graph that passed the check is never read outside its array, \<open>engine_check\<close>
  decides whether a word is in it, a text is split into tiles in exactly the possible ways. Model: placing a tile and
  taking it back keep the invariant and the player's tiles, and resetting a turn ends. Rules: \<open>isLegalMove\<close>
  decides the placement rules, \<open>figureMoveScore\<close> is the sum of the rules, and so are the scores at the end.
  Engine: every move that is proposed can be played with the tiles of the tray on empty squares; the cache keeps the best of the
  moves seen; the choice among them. Server: every server that calls reach is in one of its ten states, with nobody on
  turn when it must not be; a game that is to end ends in one step, everywhere; the winner of a duplicate turn. Connection:
  over a network that loses, repeats and reorders messages, what a device has processed is a prefix of what the other
  has sent, what has not been processed is still queued, and a message is accepted exactly if it is the next.
  Some theorems state what the code does where it does not do what it means to: a stale position cache after a reset of the
  stack, tiles of a trade that stay in the pool, a redo onto an own tile, a word graph that passes the check and is read behind
  its end, a null buffer.

  STEP RELATIONS. \<open>server_call\<close> is one call of the platform into \<open>server.c\<close> (a constructor, a move, a
  trade, a received message, the timer, ...), and \<open>server_reachable\<close> what such calls reach. \<open>device_step\<close> is one
  thing a device does with \<open>comms.c\<close>: send, resend, acknowledge, save, receive, finish; \<open>link_step\<close> is a step of
  one of two devices, where anything either of them ever gave to a transport may arrive at the other, with messages of
  other channels. The relation covers a connection whose id and channel are settled and the transports without the relay; a
  reset, which drops the queue on purpose, is not one of its steps, and neither is a restart from the saved state, which keeps
  the lower half of the numbers only.

  NOT MODELLED. The views of \<open>board.c\<close>, \<open>tray.c\<close>, \<open>dragdrpp.c\<close> and \<open>scorebdp.c\<close>, which are
  user interface, with the listeners that inform them; \<open>game.c\<close> but for the game information, which calls the constructors and
  savers of the parts; \<open>nli.c\<close> (invitations) and \<open>smsproto.c\<close> (packing of text messages, below the connection
  layer); \<open>device.c\<close>, \<open>nwgamest.c\<close>, \<open>dbgutil.c\<close> and the memory pool; \<open>bufqueue.c\<close>, which no
  build compiles; the front ends, the relay server, and variants that no build file turns on (heartbeats, the relay over HTTP).
  Destructors that only free memory, log output and the text of \<open>comms_getStats\<close> have no counterpart. Aliasing matters in
  two places only: the game information that model and server point to, which lives in the model, and the records of channels, which are
  named by a number in the place of their address.
\<close>

end
